(* ===== verification/Acl.thy ===== *)
theory Acl
  imports Prelude
begin

text \<open>
  The data that every interaction protocol shares
  (\<^verbatim>\<open>crates/fipa-wasm-agents/src/proto/fipa.proto\<close> and
  \<^verbatim>\<open>src/protocol/state_machine.rs\<close>): performatives with their wire codes, agent
  identifiers, ACL messages, the error and result types of a protocol step, the conversation
  record every protocol embeds, and the construction of a reply.

  A fresh UUID and the wall clock are arguments (\<open>uuid\<close>, \<open>now\<close>) of the operations that read
  them.
\<close>

section \<open>Performatives\<close>

datatype performative =
    Unspecified | AcceptProposal | Agree | Cancel | Cfp | Confirm | Disconfirm | Failure
  | Inform | InformDone | InformIf | InformRef | InformResult | NotUnderstood | Propagate
  | Propose | Proxy | QueryIf | QueryRef | Refuse | RejectProposal | Request | RequestWhen
  | RequestWhenever | Subscribe

text \<open>The wire codes of the enumeration, in the order of the protocol buffer definition.\<close>

definition performatives :: "performative list" where
  "performatives =
     [Unspecified, AcceptProposal, Agree, Cancel, Cfp, Confirm, Disconfirm, Failure, Inform,
      InformDone, InformIf, InformRef, InformResult, NotUnderstood, Propagate, Propose, Proxy,
      QueryIf, QueryRef, Refuse, RejectProposal, Request, RequestWhen, RequestWhenever,
      Subscribe]"

fun performative_as_i32 :: "performative \<Rightarrow> int" where
  "performative_as_i32 Unspecified = 0"
| "performative_as_i32 AcceptProposal = 1"
| "performative_as_i32 Agree = 2"
| "performative_as_i32 Cancel = 3"
| "performative_as_i32 Cfp = 4"
| "performative_as_i32 Confirm = 5"
| "performative_as_i32 Disconfirm = 6"
| "performative_as_i32 Failure = 7"
| "performative_as_i32 Inform = 8"
| "performative_as_i32 InformDone = 9"
| "performative_as_i32 InformIf = 10"
| "performative_as_i32 InformRef = 11"
| "performative_as_i32 InformResult = 12"
| "performative_as_i32 NotUnderstood = 13"
| "performative_as_i32 Propagate = 14"
| "performative_as_i32 Propose = 15"
| "performative_as_i32 Proxy = 16"
| "performative_as_i32 QueryIf = 17"
| "performative_as_i32 QueryRef = 18"
| "performative_as_i32 Refuse = 19"
| "performative_as_i32 RejectProposal = 20"
| "performative_as_i32 Request = 21"
| "performative_as_i32 RequestWhen = 22"
| "performative_as_i32 RequestWhenever = 23"
| "performative_as_i32 Subscribe = 24"

text \<open>\<open>Performative::try_from(i32)\<close>: codes outside the enumeration are refused.\<close>

definition performative_try_from :: "int \<Rightarrow> performative option" where
  "performative_try_from c =
     (if 0 \<le> c \<and> c < int (length performatives) then Some (performatives ! nat c) else None)"

text \<open>The text of \<open>{:?}\<close> for a performative.\<close>

fun performative_debug :: "performative \<Rightarrow> string" where
  "performative_debug Unspecified = ''Unspecified''"
| "performative_debug AcceptProposal = ''AcceptProposal''"
| "performative_debug Agree = ''Agree''"
| "performative_debug Cancel = ''Cancel''"
| "performative_debug Cfp = ''Cfp''"
| "performative_debug Confirm = ''Confirm''"
| "performative_debug Disconfirm = ''Disconfirm''"
| "performative_debug Failure = ''Failure''"
| "performative_debug Inform = ''Inform''"
| "performative_debug InformDone = ''InformDone''"
| "performative_debug InformIf = ''InformIf''"
| "performative_debug InformRef = ''InformRef''"
| "performative_debug InformResult = ''InformResult''"
| "performative_debug NotUnderstood = ''NotUnderstood''"
| "performative_debug Propagate = ''Propagate''"
| "performative_debug Propose = ''Propose''"
| "performative_debug Proxy = ''Proxy''"
| "performative_debug QueryIf = ''QueryIf''"
| "performative_debug QueryRef = ''QueryRef''"
| "performative_debug Refuse = ''Refuse''"
| "performative_debug RejectProposal = ''RejectProposal''"
| "performative_debug Request = ''Request''"
| "performative_debug RequestWhen = ''RequestWhen''"
| "performative_debug RequestWhenever = ''RequestWhenever''"
| "performative_debug Subscribe = ''Subscribe''"

lemma performative_try_from_as_i32 [simp]:
  "performative_try_from (performative_as_i32 p) = Some p"
  by (cases p) (simp_all add: performative_try_from_def performatives_def)

section \<open>Agents and messages\<close>

datatype protocol_type =
    ProtocolUnspecified | ProtocolRequest | ProtocolQuery | ProtocolRequestWhen
  | ProtocolContractNet | ProtocolIteratedContractNet | ProtocolPropose | ProtocolBrokering
  | ProtocolRecruiting | ProtocolSubscribe | ProtocolEnglishAuction | ProtocolDutchAuction

record agent_id =
  name :: string
  addresses :: "string list"
  resolvers :: "string list"

record acl_message =
  message_id :: string
  performative :: int
  sender :: "agent_id option"
  receivers :: "agent_id list"
  reply_to :: "agent_id option"
  protocol :: "int option"
  conversation_id :: "string option"
  in_reply_to :: "string option"
  reply_with :: "string option"
  reply_by :: "timestamp option"
  language :: "string option"
  encoding :: "string option"
  ontology :: "string option"
  content :: bytes
  user_properties :: "(string, string) hashmap"

section \<open>Errors, results and roles of a protocol\<close>

datatype protocol_error =
    InvalidTransition string string
  | ValidationFailed string
  | NotSupported protocol_type
  | MissingConversationId
  | UnknownConversation string
  | Timeout
  | Cancelled
  | SerializationError string

record completion_data =
  result :: "bytes option"
  metadata :: "(string, string) hashmap"

definition completion_data_default :: completion_data where
  "completion_data_default = \<lparr>result = None, metadata = []\<rparr>"

datatype process_result =
    Continue
  | Respond acl_message
  | Complete completion_data
  | Failed string

datatype role = Initiator | Participant | Broker

section \<open>The conversation record\<close>

record conversation_base =
  cb_conversation_id :: string
  cb_role :: role
  cb_participants :: "agent_id list"
  cb_messages :: "acl_message list"
  cb_start_time :: timestamp
  cb_deadline :: "timestamp option"

definition conversation_new :: "string \<Rightarrow> role \<Rightarrow> timestamp \<Rightarrow> conversation_base" where
  "conversation_new cid r now =
     \<lparr>cb_conversation_id = cid, cb_role = r, cb_participants = [], cb_messages = [],
      cb_start_time = now, cb_deadline = None\<rparr>"

definition add_participant :: "agent_id \<Rightarrow> conversation_base \<Rightarrow> conversation_base" where
  "add_participant agent b =
     (if \<not> list_ex (\<lambda>p. name p = name agent) (cb_participants b)
      then b\<lparr>cb_participants := cb_participants b @ [agent]\<rparr> else b)"

definition record_message :: "acl_message \<Rightarrow> conversation_base \<Rightarrow> conversation_base" where
  "record_message m b = b\<lparr>cb_messages := cb_messages b @ [m]\<rparr>"

definition is_expired :: "timestamp \<Rightarrow> conversation_base \<Rightarrow> bool" where
  "is_expired now b = (case cb_deadline b of Some deadline \<Rightarrow> deadline < now | None \<Rightarrow> False)"

text \<open>\<open>if let Some(sender) = &msg.sender\<close> followed by an update that uses the sender.\<close>

definition with_sender :: "acl_message \<Rightarrow> (agent_id \<Rightarrow> 's \<Rightarrow> 's) \<Rightarrow> 's \<Rightarrow> 's" where
  "with_sender m f s = (case sender m of Some a \<Rightarrow> f a s | None \<Rightarrow> s)"

definition create_response ::
  "string \<Rightarrow> acl_message \<Rightarrow> performative \<Rightarrow> bytes \<Rightarrow> acl_message" where
  "create_response uuid original perf c =
     \<lparr>message_id = uuid,
      performative = performative_as_i32 perf,
      sender = (case receivers original of [] \<Rightarrow> None | a # _ \<Rightarrow> Some a),
      receivers = (case sender original of Some s \<Rightarrow> [s] | None \<Rightarrow> []),
      reply_to = None,
      protocol = protocol original,
      conversation_id = conversation_id original,
      in_reply_to = Some (message_id original),
      reply_with = None,
      reply_by = None,
      language = language original,
      encoding = encoding original,
      ontology = ontology original,
      content = c,
      user_properties = []\<rparr>"

section \<open>Lemmas on the shared operations\<close>

lemma record_message_messages [simp]:
  "cb_messages (record_message m b) = cb_messages b @ [m]"
  by (simp add: record_message_def)

lemma add_participant_messages [simp]: "cb_messages (add_participant a b) = cb_messages b"
  by (simp add: add_participant_def)

lemma add_participant_role [simp]: "cb_role (add_participant a b) = cb_role b"
  by (simp add: add_participant_def)

lemma record_message_role [simp]: "cb_role (record_message m b) = cb_role b"
  by (simp add: record_message_def)

lemma conversation_new_messages [simp]: "cb_messages (conversation_new cid r now) = []"
  by (simp add: conversation_new_def)

lemma record_message_participants [simp]:
  "cb_participants (record_message m b) = cb_participants b"
  by (simp add: record_message_def)

text \<open>Participants are pairwise different by name.\<close>

definition participants_distinct :: "conversation_base \<Rightarrow> bool" where
  "participants_distinct b \<longleftrightarrow> distinct (map name (cb_participants b))"

lemma participants_distinct_new [simp]: "participants_distinct (conversation_new cid r now)"
  by (simp add: participants_distinct_def conversation_new_def)

lemma participants_distinct_record [simp]:
  "participants_distinct (record_message m b) = participants_distinct b"
  by (simp add: participants_distinct_def)

lemma participants_distinct_add [simp]:
  "participants_distinct b \<Longrightarrow> participants_distinct (add_participant a b)"
  by (auto simp: participants_distinct_def add_participant_def list_ex_iff)

lemma name_add_participant:
  "name ` set (cb_participants (add_participant a b)) =
     insert (name a) (name ` set (cb_participants b))"
proof -
  have "list_ex (\<lambda>p. name p = name a) (cb_participants b) \<longleftrightarrow>
      name a \<in> name ` set (cb_participants b)"
    by (auto simp: list_ex_iff image_iff eq_commute)
  then show ?thesis by (auto simp: add_participant_def)
qed

section \<open>Concrete messages\<close>

text \<open>
  The message of the unit tests in \<^verbatim>\<open>src/protocol\<close> (\<open>create_test_message\<close>), with the
  sender and the content as arguments. The concrete runs of the witnesses are made of these.
\<close>

definition plain_agent :: "string \<Rightarrow> agent_id" where
  "plain_agent n = \<lparr>name = n, addresses = [], resolvers = []\<rparr>"

definition plain_message :: "performative \<Rightarrow> string \<Rightarrow> bytes \<Rightarrow> acl_message" where
  "plain_message perf from c =
     \<lparr>message_id = ''msg-1'', performative = performative_as_i32 perf,
      sender = Some (plain_agent from), receivers = [plain_agent ''receiver''], reply_to = None,
      protocol = None, conversation_id = None, in_reply_to = None, reply_with = None,
      reply_by = None, language = None, encoding = None, ontology = None, content = c,
      user_properties = []\<rparr>"

lemma plain_message_simps [simp]:
  "performative (plain_message perf from c) = performative_as_i32 perf"
  "sender (plain_message perf from c) = Some (plain_agent from)"
  "content (plain_message perf from c) = c"
  by (simp_all add: plain_message_def)

lemma name_plain_agent [simp]: "name (plain_agent n) = n"
  by (simp add: plain_agent_def)

end
