(* ===== verification/Protocol_Interface.thy ===== *)
theory Protocol_Interface
  imports Acl
begin

text \<open>
  The trait \<open>ProtocolStateMachine\<close> of \<^verbatim>\<open>src/protocol/state_machine.rs\<close> as an
  interface. The operations every protocol shares word for word (decoding the performative,
  the shape of \<open>validate\<close>) are definitions; the contract all protocols keep is the locale
  \<open>protocol_machine\<close>, with two extensions: \<open>advertising_machine\<close> for protocols whose
  \<open>expected_performatives\<close> tells the truth, and \<open>settled_machine\<close> for protocols whose
  terminal states refuse every message. The lemmas of a locale are about whole runs, that is
  about any sequence of messages, valid or not, from any sender.
\<close>

section \<open>Shared operations\<close>

definition decode_performative :: "acl_message \<Rightarrow> protocol_error + performative" where
  "decode_performative m =
     (case performative_try_from (performative m) of
        None \<Rightarrow> Inl (ValidationFailed ''Invalid performative'')
      | Some p \<Rightarrow> Inr p)"

definition validate_with ::
  "('p \<Rightarrow> performative \<Rightarrow> protocol_error + 'st) \<Rightarrow> 'p \<Rightarrow> acl_message \<Rightarrow> protocol_error + unit" where
  "validate_with validate_transition s m =
     (case decode_performative m of
        Inl e \<Rightarrow> Inl e
      | Inr p \<Rightarrow> (case validate_transition s p of Inl e \<Rightarrow> Inl e | Inr _ \<Rightarrow> Inr ()))"

text \<open>The last arm of every \<open>validate_transition\<close>.\<close>

definition invalid_transition :: "string \<Rightarrow> performative \<Rightarrow> protocol_error + 'st" where
  "invalid_transition from perf = Inl (InvalidTransition from (performative_debug perf))"

lemma invalid_transition_neq [simp]:
  "invalid_transition f p \<noteq> Inr st" "Inr st \<noteq> invalid_transition f p"
  by (simp_all add: invalid_transition_def)

lemma decode_performative_eq [simp, step_simps]:
  "performative_try_from (performative m) = Some p \<Longrightarrow> decode_performative m = Inr p"
  by (simp add: decode_performative_def)

lemma decode_plain_message [simp, step_simps]:
  "decode_performative (plain_message p w c) = Inr p"
  by (simp add: decode_performative_def)

text \<open>
  The skeleton of every \<open>process\<close>: decode the performative, validate the transition and return
  early on either error, otherwise record the message and update the protocol (\<open>effect\<close>, which
  also sets the new state), and answer from the updated protocol.
\<close>

type_synonym 'p process_fun =
  "timestamp \<Rightarrow> acl_message \<Rightarrow> 'p \<Rightarrow> (protocol_error + process_result) \<times> 'p"

definition step_with ::
  "('p \<Rightarrow> performative \<Rightarrow> protocol_error + 'st) \<Rightarrow>
   (timestamp \<Rightarrow> performative \<Rightarrow> 'st \<Rightarrow> acl_message \<Rightarrow> 'p \<Rightarrow> 'p) \<Rightarrow>
   ('p \<Rightarrow> process_result) \<Rightarrow> 'p process_fun" where
  "step_with validate_transition effect answer now m s =
     (case decode_performative m of
        Inl e \<Rightarrow> (Inl e, s)
      | Inr perf \<Rightarrow>
          (case validate_transition s perf of
             Inl e \<Rightarrow> (Inl e, s)
           | Inr new_state \<Rightarrow>
               (let s' = effect now perf new_state m s in (Inr (answer s'), s'))))"

section \<open>Runs\<close>

text \<open>
  A run feeds messages, each with the clock reading at its arrival, to one machine. The caller
  keeps the machine when a message is refused, as \<open>process(&mut self, ..)\<close> lets it.
\<close>

fun run :: "'p process_fun \<Rightarrow> 'p \<Rightarrow> (timestamp \<times> acl_message) list \<Rightarrow> 'p" where
  "run f s [] = s"
| "run f s ((now, m) # ms) = run f (snd (f now m s)) ms"

fun accepted :: "'p process_fun \<Rightarrow> 'p \<Rightarrow> (timestamp \<times> acl_message) list \<Rightarrow> acl_message list" where
  "accepted f s [] = []"
| "accepted f s ((now, m) # ms) =
     (case f now m s of
        (Inl _, s') \<Rightarrow> accepted f s' ms
      | (Inr _, s') \<Rightarrow> m # accepted f s' ms)"

lemma run_append: "run f s (xs @ ys) = run f (run f s xs) ys"
  by (induction f s xs rule: run.induct) simp_all

lemma accepted_append: "accepted f s (xs @ ys) = accepted f s xs @ accepted f (run f s xs) ys"
  by (induction f s xs rule: accepted.induct) (auto split: prod.splits sum.splits)

lemma accepted_subseq: "subseq (accepted f s ms) (map snd ms)"
  by (induction f s ms rule: accepted.induct) (auto split: prod.splits sum.splits)

text \<open>What holds in every state of a run follows from one step, once and for all.\<close>

lemma run_invariant:
  assumes "\<And>now m s. P s \<Longrightarrow> P (snd (f now m s))" "P s"
  shows "P (run f s ms)"
  using assms(2)
proof (induction ms arbitrary: s)
  case (Cons x ms)
  then show ?case by (cases x) (auto intro: assms(1))
qed simp

section \<open>The contract of a protocol state machine\<close>

locale protocol_machine =
  fixes validate :: "'p \<Rightarrow> acl_message \<Rightarrow> protocol_error + unit"
    and process :: "'p process_fun"
    and history :: "'p \<Rightarrow> acl_message list"
    and complete :: "'p \<Rightarrow> bool"
    and is_failed :: "'p \<Rightarrow> bool"
    and invar :: "'p \<Rightarrow> bool"
  assumes process_reject: "validate s m = Inl e \<Longrightarrow> process now m s = (Inl e, s)"
    and process_accept: "validate s m = Inr () \<Longrightarrow>
      \<exists>r. fst (process now m s) = Inr r \<and> history (snd (process now m s)) = history s @ [m]"
    and result_complete: "fst (process now m s) = Inr (Complete d) \<Longrightarrow>
      complete (snd (process now m s)) \<and> \<not> is_failed (snd (process now m s))"
    and result_failed: "fst (process now m s) = Inr (Failed w) \<Longrightarrow>
      is_failed (snd (process now m s))"
    and result_continue: "fst (process now m s) = Inr Continue \<Longrightarrow>
      \<not> complete (snd (process now m s))"
    and no_respond: "fst (process now m s) \<noteq> Inr (Respond r)"
    and failed_complete: "is_failed s \<Longrightarrow> complete s"
    and complete_stable: "complete s \<Longrightarrow> complete (snd (process now m s))"
    and invar_step: "invar s \<Longrightarrow> invar (snd (process now m s))"
begin

lemma process_cases:
  obtains (reject) e where "validate s m = Inl e" "process now m s = (Inl e, s)"
  | (accept) r where "validate s m = Inr ()" "fst (process now m s) = Inr r"
      "history (snd (process now m s)) = history s @ [m]"
  using process_reject [of s m _ now] process_accept [of s m now]
  by (cases "validate s m") auto

lemma validate_iff_process: "(\<exists>r. fst (process now m s) = Inr r) \<longleftrightarrow> validate s m = Inr ()"
  by (cases rule: process_cases [of s m now]) auto

text \<open>The returned result and the flags of the new state agree.\<close>

lemma result_agrees:
  assumes "fst (process now m s) = Inr r"
  shows "(r = Continue \<longleftrightarrow> \<not> complete (snd (process now m s)))
    \<and> ((\<exists>w. r = Failed w) \<longleftrightarrow> is_failed (snd (process now m s)))"
  using assms result_complete [of now m s] result_failed [of now m s] result_continue [of now m s]
    no_respond [of now m s] failed_complete [of "snd (process now m s)"]
  by (cases r) auto

text \<open>The history is exactly the accepted messages, in order of arrival.\<close>

lemma run_history: "history (run process s ms) = history s @ accepted process s ms"
proof (induction ms arbitrary: s)
  case (Cons x ms)
  obtain now m where x: "x = (now, m)" by (cases x)
  show ?case
  proof (cases rule: process_cases [of s m now])
    case (reject e)
    with x Cons.IH show ?thesis by simp
  next
    case (accept r)
    then obtain s' where "process now m s = (Inr r, s')" by (cases "process now m s") auto
    with x accept Cons.IH show ?thesis by simp
  qed
qed simp

lemma run_complete: "complete s \<Longrightarrow> complete (run process s ms)"
  by (rule run_invariant [where P = complete]) (auto intro: complete_stable)

lemma run_invar: "invar s \<Longrightarrow> invar (run process s ms)"
  by (rule run_invariant [where P = invar]) (auto intro: invar_step)

lemma run_trace:
  assumes "history s = []" "invar s"
  shows "history (run process s ms) = accepted process s ms
    \<and> subseq (history (run process s ms)) (map snd ms)
    \<and> invar (run process s ms)
    \<and> (is_failed (run process s ms) \<longrightarrow> complete (run process s ms))"
  using assms by (simp add: run_history accepted_subseq run_invar failed_complete)

end

section \<open>Machines built on the common skeleton\<close>

text \<open>
  The contract follows from laws about the parts of the skeleton: what an effect keeps, and
  what the answer says about the state it is computed from.
\<close>

locale step_machine =
  fixes transition :: "'p \<Rightarrow> performative \<Rightarrow> protocol_error + 'st"
    and effect :: "timestamp \<Rightarrow> performative \<Rightarrow> 'st \<Rightarrow> acl_message \<Rightarrow> 'p \<Rightarrow> 'p"
    and answer :: "'p \<Rightarrow> process_result"
    and history :: "'p \<Rightarrow> acl_message list"
    and complete :: "'p \<Rightarrow> bool"
    and is_failed :: "'p \<Rightarrow> bool"
    and invar :: "'p \<Rightarrow> bool"
  assumes effect_history: "history (effect now p st m s) = history s @ [m]"
    and answer_complete: "answer s = Complete d \<Longrightarrow> complete s \<and> \<not> is_failed s"
    and answer_failed: "answer s = Failed w \<Longrightarrow> is_failed s"
    and answer_continue: "answer s = Continue \<Longrightarrow> \<not> complete s"
    and answer_no_respond: "answer s \<noteq> Respond r"
    and failed_is_complete: "is_failed s \<Longrightarrow> complete s"
    and effect_complete: "complete s \<Longrightarrow> transition s p = Inr st \<Longrightarrow>
      complete (effect now p st m s)"
    and effect_invar: "invar s \<Longrightarrow> transition s p = Inr st \<Longrightarrow> invar (effect now p st m s)"
begin

lemma machine: "protocol_machine (validate_with transition) (step_with transition effect answer)
    history complete is_failed invar"
proof
  fix s m now e
  show "validate_with transition s m = Inl e \<Longrightarrow>
      step_with transition effect answer now m s = (Inl e, s)"
    by (auto simp: validate_with_def step_with_def split: sum.splits)
  show "validate_with transition s m = Inr () \<Longrightarrow>
      \<exists>r. fst (step_with transition effect answer now m s) = Inr r \<and>
        history (snd (step_with transition effect answer now m s)) = history s @ [m]"
    by (auto simp: validate_with_def step_with_def Let_def effect_history split: sum.splits)
qed (auto simp: step_with_def Let_def answer_failed answer_no_respond failed_is_complete
    effect_complete effect_invar split: sum.splits dest: answer_complete answer_continue)

end

sublocale step_machine \<subseteq> protocol_machine "validate_with transition"
    "step_with transition effect answer" history complete is_failed invar
  by (rule machine)

section \<open>Truthful advertisement\<close>

locale advertising_machine = protocol_machine validate process history complete is_failed invar
  for validate :: "'p \<Rightarrow> acl_message \<Rightarrow> protocol_error + unit"
    and process :: "'p process_fun"
    and history :: "'p \<Rightarrow> acl_message list"
    and complete :: "'p \<Rightarrow> bool"
    and is_failed :: "'p \<Rightarrow> bool"
    and invar :: "'p \<Rightarrow> bool" +
  fixes expected :: "'p \<Rightarrow> performative list"
  assumes expected_accepted: "invar s \<Longrightarrow> p \<in> set (expected s) \<Longrightarrow>
      performative_try_from (performative m) = Some p \<Longrightarrow> validate s m = Inr ()"
    and expected_live: "invar s \<Longrightarrow> \<not> complete s \<Longrightarrow> expected s \<noteq> []"
begin

text \<open>
  In every state a run can reach, each advertised performative is accepted; and a protocol
  that is not complete always advertises one, so no run gets stuck before a terminal state.
\<close>

lemma run_expected_accepted:
  assumes "invar s" "p \<in> set (expected (run process s ms))"
    "performative_try_from (performative m) = Some p"
  shows "\<exists>r. fst (process now m (run process s ms)) = Inr r"
  using expected_accepted [OF run_invar [OF assms(1)] assms(2,3)] validate_iff_process by blast

lemma run_not_stuck:
  assumes "invar s" "\<not> complete (run process s ms)"
  shows "\<exists>p \<in> set (expected (run process s ms)).
    \<forall>m now. performative_try_from (performative m) = Some p \<longrightarrow>
      (\<exists>r. fst (process now m (run process s ms)) = Inr r)"
proof -
  from expected_live [OF run_invar [OF assms(1)] assms(2)]
  obtain p where "p \<in> set (expected (run process s ms))"
    by (cases "expected (run process s ms)") auto
  with run_expected_accepted [OF assms(1)] show ?thesis by blast
qed

end

section \<open>Final terminal states\<close>

locale settled_machine = protocol_machine +
  assumes complete_rejects: "complete s \<Longrightarrow> \<exists>e. validate s m = Inl e"
begin

lemma run_settled: "complete s \<Longrightarrow> run process s ms = s"
proof (induction ms)
  case (Cons x ms)
  obtain now m where x: "x = (now, m)" by (cases x)
  from complete_rejects [OF Cons.prems, of m] obtain e where "validate s m = Inl e" ..
  from process_reject [OF this, of now] x Cons show ?case by simp
qed simp

end

end
