(* ===== verification/Request_Protocol.thy ===== *)
theory Request_Protocol
  imports Protocol_Interface
begin

text \<open>
  The FIPA request protocol, \<^verbatim>\<open>src/protocol/request.rs\<close>: its states, the record
  \<open>RequestProtocol\<close> and every operation of it, with the interpretation of the machine
  contract.
\<close>

section \<open>State\<close>

datatype request_state =
  NotStarted | Requested | Agreed | Executing | Completed | Failed | Refused | Cancelled

fun request_as_str :: "request_state \<Rightarrow> string" where
  "request_as_str NotStarted = ''not_started''"
| "request_as_str Requested = ''requested''"
| "request_as_str Agreed = ''agreed''"
| "request_as_str Executing = ''executing''"
| "request_as_str Completed = ''completed''"
| "request_as_str Failed = ''failed''"
| "request_as_str Refused = ''refused''"
| "request_as_str Cancelled = ''cancelled''"

record request_protocol =
  rq_state :: request_state
  rq_base :: conversation_base
  rq_request_content :: "bytes option"
  rq_result :: "bytes option"

section \<open>Operations\<close>

definition request_new :: "role \<Rightarrow> string \<Rightarrow> timestamp \<Rightarrow> request_protocol" where
  "request_new r uuid now =
     \<lparr>rq_state = NotStarted, rq_base = conversation_new uuid r now,
      rq_request_content = None, rq_result = None\<rparr>"

definition request_with_conversation_id :: "string \<Rightarrow> request_protocol \<Rightarrow> request_protocol" where
  "request_with_conversation_id i s =
     s\<lparr>rq_base := (rq_base s)\<lparr>cb_conversation_id := i\<rparr>\<rparr>"

definition request_with_deadline :: "timestamp \<Rightarrow> request_protocol \<Rightarrow> request_protocol" where
  "request_with_deadline d s = s\<lparr>rq_base := (rq_base s)\<lparr>cb_deadline := Some d\<rparr>\<rparr>"

text \<open>The arms of the match are tried in order, so \<open>(_, Cancel)\<close> also fires in terminal states.\<close>

definition request_validate_transition ::
  "request_protocol \<Rightarrow> performative \<Rightarrow> protocol_error + request_state" where
  "request_validate_transition s perf =
     (let st = rq_state s in
      if st = NotStarted \<and> perf = Request then Inr Requested
      else if st = Requested \<and> perf = Agree then Inr Agreed
      else if st = Requested \<and> perf = Refuse then Inr Refused
      else if st = Agreed \<and> perf = InformDone then Inr Completed
      else if st = Agreed \<and> perf = InformResult then Inr Completed
      else if st = Agreed \<and> perf = Failure then Inr Failed
      else if perf = Cancel then Inr Cancelled
      else invalid_transition (request_as_str st) perf)"

definition request_validate :: "request_protocol \<Rightarrow> acl_message \<Rightarrow> protocol_error + unit" where
  "request_validate = validate_with request_validate_transition"

text \<open>
  The body of \<open>process\<close> after validation: record the message, do the bookkeeping of the new
  state, enter it; the answer is chosen from the role and the new state.
\<close>

definition request_effect ::
  "timestamp \<Rightarrow> performative \<Rightarrow> request_state \<Rightarrow> acl_message \<Rightarrow> request_protocol \<Rightarrow> request_protocol"
  where
  "request_effect now perf new_state m s =
     (let s1 = s\<lparr>rq_base := record_message m (rq_base s)\<rparr>;
          s2 = (case new_state of
                  Requested \<Rightarrow>
                    with_sender m (\<lambda>a s. s\<lparr>rq_base := add_participant a (rq_base s)\<rparr>)
                      (s1\<lparr>rq_request_content := Some (content m)\<rparr>)
                | Completed \<Rightarrow> s1\<lparr>rq_result := Some (content m)\<rparr>
                | Failed \<Rightarrow> s1\<lparr>rq_result := Some (content m)\<rparr>
                | _ \<Rightarrow> s1)
      in s2\<lparr>rq_state := new_state\<rparr>)"

definition request_answer :: "request_protocol \<Rightarrow> process_result" where
  "request_answer s =
     (if cb_role (rq_base s) = Participant \<and> rq_state s = Requested then Continue
      else case rq_state s of
        Completed \<Rightarrow> Complete (completion_data_default\<lparr>result := rq_result s\<rparr>)
      | Failed \<Rightarrow> process_result.Failed ''Request failed''
      | Refused \<Rightarrow> process_result.Failed ''Request refused''
      | Cancelled \<Rightarrow> process_result.Failed ''Request cancelled''
      | _ \<Rightarrow> Continue)"

definition request_process :: "request_protocol process_fun" where
  "request_process = step_with request_validate_transition request_effect request_answer"

definition request_is_complete :: "request_protocol \<Rightarrow> bool" where
  "request_is_complete s = (rq_state s \<in> {Completed, Failed, Refused, Cancelled})"

definition request_is_failed :: "request_protocol \<Rightarrow> bool" where
  "request_is_failed s = (rq_state s \<in> {Failed, Refused, Cancelled})"

definition request_expected :: "request_protocol \<Rightarrow> performative list" where
  "request_expected s =
     (case rq_state s of
        NotStarted \<Rightarrow> [Request]
      | Requested \<Rightarrow> [Agree, Refuse, Cancel]
      | Agreed \<Rightarrow> [InformDone, InformResult, Failure, Cancel]
      | _ \<Rightarrow> [])"

definition request_history :: "request_protocol \<Rightarrow> acl_message list" where
  "request_history s = cb_messages (rq_base s)"

section \<open>The contract\<close>

text \<open>
  \<open>Executing\<close> is never entered; a result is stored exactly in the states that a result or a
  failure message leads to, or is left from there by a late cancellation.
\<close>

definition request_invar :: "request_protocol \<Rightarrow> bool" where
  "request_invar s \<longleftrightarrow> rq_state s \<noteq> Executing
     \<and> participants_distinct (rq_base s)
     \<and> (rq_state s = Completed \<longrightarrow> rq_result s \<noteq> None)
     \<and> (rq_state s \<in> {NotStarted, Requested, Agreed, Refused} \<longrightarrow> rq_result s = None)"

lemmas request_defs =
  request_validate_transition_def request_effect_def request_answer_def request_is_complete_def
  request_is_failed_def request_history_def request_invar_def with_sender_def Let_def

interpretation rq_step: step_machine request_validate_transition request_effect request_answer
  request_history request_is_complete request_is_failed request_invar
  by unfold_locales
    (auto simp: request_defs split: option.splits request_state.splits if_splits)

interpretation rq: advertising_machine request_validate request_process request_history
  request_is_complete request_is_failed request_invar request_expected
  unfolding request_validate_def request_process_def
  by unfold_locales
    (auto simp: request_defs request_expected_def validate_with_def
      split: request_state.splits if_splits)

section \<open>Properties\<close>

lemma request_new_invar [simp]: "request_invar (request_new r uuid now)"
  by (simp add: request_invar_def request_new_def)

text \<open>
  C40: a request conversation is never stuck and advertises truthfully. After any sequence of
  messages, a new request protocol is complete or advertises a performative, and every message
  with an advertised performative is accepted.
\<close>

theorem request_never_stuck:
  fixes ms r uuid t
  defines "s \<equiv> run request_process (request_new r uuid t) ms"
  shows "(request_is_complete s \<or> request_expected s \<noteq> [])
    \<and> (\<forall>p \<in> set (request_expected s). \<forall>m now. performative_try_from (performative m) = Some p \<longrightarrow>
        (\<exists>a. fst (request_process now m s) = Inr a))"
proof -
  have inv: "request_invar (request_new r uuid t)" by simp
  from rq.run_not_stuck [OF inv, of ms] have "request_is_complete s \<or> request_expected s \<noteq> []"
    by (fastforce simp: s_def)
  with rq.run_expected_accepted [OF inv, of _ ms] show ?thesis by (auto simp: s_def)
qed

lemma request_demo_expected:
  "request_expected (run request_process (request_new Participant ''conv'' 0)
     [(0, plain_message Request ''client'' [1])]) = [Agree, Refuse, Cancel]"
  by (simp add: request_process_def step_with_def request_new_def request_validate_transition_def
      request_effect_def request_expected_def with_sender_def Let_def)

theorem request_never_stuck_witness:
  "\<exists>a. fst (request_process 1 (plain_message Agree ''server'' [])
     (run request_process (request_new Participant ''conv'' 0)
       [(0, plain_message Request ''client'' [1])])) = Inr a"
proof -
  have "Agree \<in> set (request_expected (run request_process (request_new Participant ''conv'' 0)
      [(0, plain_message Request ''client'' [1])]))"
    by (simp only: request_demo_expected) simp
  moreover have "performative_try_from (performative (plain_message Agree ''server'' [])) =
      Some Agree" by (simp only: plain_message_simps performative_try_from_as_i32)
  ultimately show ?thesis
    using request_never_stuck [where r = Participant and uuid = "''conv''" and t = 0
      and ms = "[(0, plain_message Request ''client'' [1])]"] by blast
qed

text \<open>
  A late cancellation overturns a completed request. The arm \<open>(_, Cancel)\<close> also fires in
  terminal states: a completed protocol that is cancelled reports a failure and its flag
  \<open>is_failed\<close> flips from false to true, although the result is kept.
\<close>

theorem request_late_cancel_overturns:
  assumes "rq_state s = Completed" "performative_try_from (performative m) = Some Cancel"
  shows "\<not> request_is_failed s
    \<and> fst (request_process now m s) = Inr (process_result.Failed ''Request cancelled'')
    \<and> request_is_failed (snd (request_process now m s))
    \<and> rq_result (snd (request_process now m s)) = rq_result s"
  using assms by (simp add: request_is_failed_def request_process_def step_with_def
      request_validate_transition_def request_effect_def request_answer_def Let_def)

theorem request_late_cancel_overturns_witness:
  "request_is_failed (snd (request_process 9 (plain_message Cancel ''client'' [])
     ((request_new Initiator ''conv'' 0)\<lparr>rq_state := Completed, rq_result := Some [7]\<rparr>)))"
proof -
  let ?s = "(request_new Initiator ''conv'' 0)\<lparr>rq_state := Completed, rq_result := Some [7]\<rparr>"
  have "performative_try_from (performative (plain_message Cancel ''client'' [])) = Some Cancel"
    by (simp only: plain_message_simps performative_try_from_as_i32)
  from request_late_cancel_overturns [of ?s, OF _ this] show ?thesis by simp
qed

end
