(* ===== verification/Query_Protocol.thy ===== *)
theory Query_Protocol
  imports Protocol_Interface
begin

text \<open>
  The FIPA query protocol, \<^verbatim>\<open>src/protocol/query.rs\<close>. It has no cancellation, so its
  terminal states refuse every further message.
\<close>

section \<open>State\<close>

datatype query_type = If | Ref

datatype query_state = NotStarted | Queried | Agreed | Completed | Failed | Refused

fun query_as_str :: "query_state \<Rightarrow> string" where
  "query_as_str NotStarted = ''not_started''"
| "query_as_str Queried = ''queried''"
| "query_as_str Agreed = ''agreed''"
| "query_as_str Completed = ''completed''"
| "query_as_str Failed = ''failed''"
| "query_as_str Refused = ''refused''"

record query_protocol =
  qu_state :: query_state
  qu_base :: conversation_base
  qu_query_type :: "query_type option"
  qu_query_content :: "bytes option"
  qu_result :: "bytes option"

section \<open>Operations\<close>

definition query_new :: "role \<Rightarrow> string \<Rightarrow> timestamp \<Rightarrow> query_protocol" where
  "query_new r uuid now =
     \<lparr>qu_state = NotStarted, qu_base = conversation_new uuid r now, qu_query_type = None,
      qu_query_content = None, qu_result = None\<rparr>"

definition query_validate_transition ::
  "query_protocol \<Rightarrow> performative \<Rightarrow> protocol_error + query_state" where
  "query_validate_transition s perf =
     (let st = qu_state s in
      if st = NotStarted \<and> perf = QueryIf \<or> st = NotStarted \<and> perf = QueryRef then Inr Queried
      else if st = Queried \<and> perf = Agree then Inr Agreed
      else if st = Queried \<and> perf = Refuse then Inr Refused
      else if st = Agreed \<and> perf = InformIf \<or> st = Agreed \<and> perf = InformRef
        \<or> st = Agreed \<and> perf = InformResult then Inr Completed
      else if st = Agreed \<and> perf = Failure then Inr Failed
      else invalid_transition (query_as_str st) perf)"

definition query_validate :: "query_protocol \<Rightarrow> acl_message \<Rightarrow> protocol_error + unit" where
  "query_validate = validate_with query_validate_transition"

definition query_effect ::
  "timestamp \<Rightarrow> performative \<Rightarrow> query_state \<Rightarrow> acl_message \<Rightarrow> query_protocol \<Rightarrow> query_protocol"
  where
  "query_effect now perf new_state m s =
     (let s1 = s\<lparr>qu_base := record_message m (qu_base s)\<rparr>;
          s2 = (if perf = QueryIf then
                  s1\<lparr>qu_query_type := Some If, qu_query_content := Some (content m)\<rparr>
                else if perf = QueryRef then
                  s1\<lparr>qu_query_type := Some Ref, qu_query_content := Some (content m)\<rparr>
                else if perf \<in> {InformIf, InformRef, InformResult} then
                  s1\<lparr>qu_result := Some (content m)\<rparr>
                else s1)
      in s2\<lparr>qu_state := new_state\<rparr>)"

definition query_answer :: "query_protocol \<Rightarrow> process_result" where
  "query_answer s =
     (case qu_state s of
        Completed \<Rightarrow> Complete (completion_data_default\<lparr>result := qu_result s\<rparr>)
      | Failed \<Rightarrow> process_result.Failed ''Query failed''
      | Refused \<Rightarrow> process_result.Failed ''Query failed''
      | _ \<Rightarrow> Continue)"

definition query_process :: "query_protocol process_fun" where
  "query_process = step_with query_validate_transition query_effect query_answer"

definition query_is_complete :: "query_protocol \<Rightarrow> bool" where
  "query_is_complete s = (qu_state s \<in> {Completed, Failed, Refused})"

definition query_is_failed :: "query_protocol \<Rightarrow> bool" where
  "query_is_failed s = (qu_state s \<in> {Failed, Refused})"

definition query_expected :: "query_protocol \<Rightarrow> performative list" where
  "query_expected s =
     (case qu_state s of
        NotStarted \<Rightarrow> [QueryIf, QueryRef]
      | Queried \<Rightarrow> [Agree, Refuse]
      | Agreed \<Rightarrow> [InformIf, InformRef, InformResult, Failure]
      | _ \<Rightarrow> [])"

definition query_history :: "query_protocol \<Rightarrow> acl_message list" where
  "query_history s = cb_messages (qu_base s)"

section \<open>The contract\<close>

text \<open>The query is known in every state but the first, and a result exactly when completed.\<close>

definition query_invar :: "query_protocol \<Rightarrow> bool" where
  "query_invar s \<longleftrightarrow>
     (qu_state s = NotStarted \<longleftrightarrow> qu_query_type s = None)
     \<and> (qu_query_type s = None \<longleftrightarrow> qu_query_content s = None)
     \<and> (qu_result s \<noteq> None \<longleftrightarrow> qu_state s = Completed)"

lemmas query_defs =
  query_validate_transition_def query_effect_def query_answer_def query_is_complete_def
  query_is_failed_def query_history_def query_invar_def Let_def

interpretation qu_step: step_machine query_validate_transition query_effect query_answer
  query_history query_is_complete query_is_failed query_invar
  by unfold_locales (auto simp: query_defs split: query_state.splits if_splits)

interpretation qu: advertising_machine query_validate query_process query_history
  query_is_complete query_is_failed query_invar query_expected
  unfolding query_validate_def query_process_def
  by unfold_locales
    (auto simp: query_defs query_expected_def validate_with_def
      split: query_state.splits if_splits)

lemma query_settled:
  assumes "query_is_complete s"
  shows "query_validate_transition s perf \<noteq> Inr st"
  using assms by (auto simp: query_is_complete_def query_validate_transition_def invalid_transition_def)

interpretation qus: settled_machine query_validate query_process query_history
  query_is_complete query_is_failed query_invar
  by unfold_locales
    (auto simp: query_validate_def validate_with_def query_settled split: sum.split)

section \<open>Properties\<close>

lemma query_new_invar [simp]: "query_invar (query_new r uuid now)"
  by (simp add: query_invar_def query_new_def)

text \<open>
  A finished query is final. Once the messages of a run have completed a query, no further
  messages, whatever they are, change anything in it, and a completed query holds a result
  exactly if it did not fail.
\<close>

theorem query_outcome_final:
  fixes ms r uuid t
  defines "s \<equiv> run query_process (query_new r uuid t) ms"
  assumes "query_is_complete s"
  shows "run query_process s later = s \<and> (query_is_failed s \<longleftrightarrow> qu_result s = None)"
proof -
  have "query_invar s" unfolding s_def by (rule qu.run_invar) simp
  with assms(2) have "query_is_failed s \<longleftrightarrow> qu_result s = None"
    by (auto simp: query_invar_def query_is_complete_def query_is_failed_def)
  with qus.run_settled [OF assms(2)] show ?thesis by simp
qed

definition demo_query_messages :: "(timestamp \<times> acl_message) list" where
  "demo_query_messages =
     [(0, plain_message QueryRef ''client'' [1]), (1, plain_message Agree ''server'' []),
      (2, plain_message InformRef ''server'' [42])]"

theorem query_outcome_final_witness:
  "qu_result (run query_process (run query_process (query_new Participant ''conv'' 0)
      demo_query_messages) [(3, plain_message Failure ''server'' [])]) = Some [42]"
proof -
  let ?s = "run query_process (query_new Participant ''conv'' 0) demo_query_messages"
  have s: "query_is_complete ?s" "qu_result ?s = Some [42]"
    by (simp_all add: demo_query_messages_def query_process_def step_with_def query_new_def
        query_validate_transition_def query_effect_def query_is_complete_def Let_def)
  from query_outcome_final [OF s(1), of "[(3, plain_message Failure ''server'' [])]"] s(2)
  show ?thesis by simp
qed

end
