(* ===== verification/Contract_Net.thy ===== *)
theory Contract_Net
  imports Protocol_Interface
begin

text \<open>
  The FIPA contract net protocol, \<^verbatim>\<open>src/protocol/contract_net.rs\<close>: proposals are
  collected in order of arrival, and the initiator marks the accepted ones with
  \<open>accept_proposal\<close>.
\<close>

section \<open>State\<close>

datatype contract_net_state =
    NotStarted | CfpSent | ProposalsReceived | Evaluating | Accepted | Rejected | InExecution
  | Completed | Failed

fun contract_net_as_str :: "contract_net_state \<Rightarrow> string" where
  "contract_net_as_str NotStarted = ''not_started''"
| "contract_net_as_str CfpSent = ''cfp_sent''"
| "contract_net_as_str ProposalsReceived = ''proposals_received''"
| "contract_net_as_str Evaluating = ''evaluating''"
| "contract_net_as_str Accepted = ''accepted''"
| "contract_net_as_str Rejected = ''rejected''"
| "contract_net_as_str InExecution = ''in_execution''"
| "contract_net_as_str Completed = ''completed''"
| "contract_net_as_str Failed = ''failed''"

record proposal =
  pr_bidder :: agent_id
  pr_content :: bytes
  pr_received_at :: timestamp

record contract_net_protocol =
  cn_state :: contract_net_state
  cn_base :: conversation_base
  cn_task_description :: "bytes option"
  cn_expected_participants :: nat
  cn_proposals :: "proposal list"
  cn_accepted :: "(string, proposal) hashmap"
  cn_results :: "(string, bytes) hashmap"

section \<open>Operations\<close>

definition contract_net_new :: "role \<Rightarrow> string \<Rightarrow> timestamp \<Rightarrow> contract_net_protocol" where
  "contract_net_new r uuid now =
     \<lparr>cn_state = NotStarted, cn_base = conversation_new uuid r now, cn_task_description = None,
      cn_expected_participants = 0, cn_proposals = [], cn_accepted = [], cn_results = []\<rparr>"

definition contract_net_with_expected_participants ::
  "nat \<Rightarrow> contract_net_protocol \<Rightarrow> contract_net_protocol" where
  "contract_net_with_expected_participants n s = s\<lparr>cn_expected_participants := n\<rparr>"

definition contract_net_accept_proposal ::
  "string \<Rightarrow> contract_net_protocol \<Rightarrow> proposal option \<times> contract_net_protocol" where
  "contract_net_accept_proposal bidder_name s =
     (case find (\<lambda>p. name (pr_bidder p) = bidder_name) (cn_proposals s) of
        None \<Rightarrow> (None, s)
      | Some p \<Rightarrow> (Some p, s\<lparr>cn_accepted := hm_insert bidder_name p (cn_accepted s)\<rparr>))"

definition contract_net_validate_transition ::
  "contract_net_protocol \<Rightarrow> performative \<Rightarrow> protocol_error + contract_net_state" where
  "contract_net_validate_transition s perf =
     (let st = cn_state s in
      if st = NotStarted \<and> perf = Cfp then Inr CfpSent
      else if st = CfpSent \<and> perf = Propose then Inr ProposalsReceived
      else if st = CfpSent \<and> perf = Refuse then Inr ProposalsReceived
      else if st = ProposalsReceived \<and> perf = Propose then Inr ProposalsReceived
      else if st = ProposalsReceived \<and> perf = Refuse then Inr ProposalsReceived
      else if st = ProposalsReceived \<and> perf = AcceptProposal then Inr InExecution
      else if st = ProposalsReceived \<and> perf = RejectProposal then Inr Rejected
      else if st = InExecution \<and> perf = InformDone \<or> st = InExecution \<and> perf = InformResult
        then Inr Completed
      else if st = InExecution \<and> perf = Failure then Inr Failed
      else invalid_transition (contract_net_as_str st) perf)"

definition contract_net_validate ::
  "contract_net_protocol \<Rightarrow> acl_message \<Rightarrow> protocol_error + unit" where
  "contract_net_validate = validate_with contract_net_validate_transition"

definition contract_net_effect ::
  "timestamp \<Rightarrow> performative \<Rightarrow> contract_net_state \<Rightarrow> acl_message \<Rightarrow>
   contract_net_protocol \<Rightarrow> contract_net_protocol" where
  "contract_net_effect now perf new_state m s =
     (let s1 = s\<lparr>cn_base := record_message m (cn_base s)\<rparr>;
          s2 = (if perf = Cfp then s1\<lparr>cn_task_description := Some (content m)\<rparr>
                else if perf = Propose then
                  with_sender m (\<lambda>a s. s\<lparr>
                      cn_proposals := cn_proposals s @
                        [\<lparr>pr_bidder = a, pr_content = content m, pr_received_at = now\<rparr>],
                      cn_base := add_participant a (cn_base s)\<rparr>) s1
                else if perf = InformDone \<or> perf = InformResult then
                  with_sender m (\<lambda>a s. s\<lparr>
                      cn_results := hm_insert (name a) (content m) (cn_results s)\<rparr>) s1
                else s1)
      in s2\<lparr>cn_state := new_state\<rparr>)"

text \<open>
  The result of a completed negotiation is the first value of the map \<open>results\<close> in iteration
  order. The invariant below shows that the map then has at most one entry, so the order does
  not matter.
\<close>

definition contract_net_answer :: "contract_net_protocol \<Rightarrow> process_result" where
  "contract_net_answer s =
     (case cn_state s of
        Completed \<Rightarrow> Complete (completion_data_default\<lparr>result :=
            (case hm_values (cn_results s) of [] \<Rightarrow> None | v # _ \<Rightarrow> Some v)\<rparr>)
      | Failed \<Rightarrow> process_result.Failed ''Contract net failed''
      | Rejected \<Rightarrow> process_result.Failed ''Contract net failed''
      | _ \<Rightarrow> Continue)"

definition contract_net_process :: "contract_net_protocol process_fun" where
  "contract_net_process =
     step_with contract_net_validate_transition contract_net_effect contract_net_answer"

definition contract_net_is_complete :: "contract_net_protocol \<Rightarrow> bool" where
  "contract_net_is_complete s = (cn_state s \<in> {Completed, Failed, Rejected})"

definition contract_net_is_failed :: "contract_net_protocol \<Rightarrow> bool" where
  "contract_net_is_failed s = (cn_state s \<in> {Failed, Rejected})"

definition contract_net_expected :: "contract_net_protocol \<Rightarrow> performative list" where
  "contract_net_expected s =
     (case cn_state s of
        NotStarted \<Rightarrow> [Cfp]
      | CfpSent \<Rightarrow> [Propose, Refuse]
      | ProposalsReceived \<Rightarrow> [Propose, Refuse, AcceptProposal, RejectProposal]
      | InExecution \<Rightarrow> [InformDone, InformResult, Failure]
      | _ \<Rightarrow> [])"

definition contract_net_history :: "contract_net_protocol \<Rightarrow> acl_message list" where
  "contract_net_history s = cb_messages (cn_base s)"

section \<open>The contract\<close>

definition proposals_known :: "contract_net_protocol \<Rightarrow> bool" where
  "proposals_known s \<longleftrightarrow>
     (\<forall>p \<in> set (cn_proposals s). name (pr_bidder p) \<in> name ` set (cb_participants (cn_base s)))"

definition accepted_proposed :: "contract_net_protocol \<Rightarrow> bool" where
  "accepted_proposed s \<longleftrightarrow>
     (\<forall>k p. hm_get (cn_accepted s) k = Some p \<longrightarrow> p \<in> set (cn_proposals s) \<and> name (pr_bidder p) = k)"

definition contract_net_invar :: "contract_net_protocol \<Rightarrow> bool" where
  "contract_net_invar s \<longleftrightarrow>
     cn_state s \<notin> {Evaluating, Accepted}
     \<and> participants_distinct (cn_base s)
     \<and> proposals_known s
     \<and> accepted_proposed s
     \<and> (cn_state s \<in> {NotStarted, CfpSent} \<longrightarrow> cn_proposals s = [])
     \<and> (cn_state s \<noteq> Completed \<longrightarrow> cn_results s = [])
     \<and> length (cn_results s) \<le> 1"

lemmas contract_net_defs =
  contract_net_validate_transition_def contract_net_effect_def contract_net_answer_def
  contract_net_is_complete_def contract_net_is_failed_def contract_net_history_def
  contract_net_invar_def with_sender_def Let_def

text \<open>The transition table, and the fields an effect changes.\<close>

lemma contract_net_transition_iff:
  "contract_net_validate_transition s p = Inr st \<longleftrightarrow>
     (cn_state s, p, st) \<in>
       {(NotStarted, Cfp, CfpSent), (CfpSent, Propose, ProposalsReceived),
        (CfpSent, Refuse, ProposalsReceived), (ProposalsReceived, Propose, ProposalsReceived),
        (ProposalsReceived, Refuse, ProposalsReceived),
        (ProposalsReceived, AcceptProposal, InExecution),
        (ProposalsReceived, RejectProposal, Rejected), (InExecution, InformDone, Completed),
        (InExecution, InformResult, Completed), (InExecution, Failure, Failed)}"
  unfolding contract_net_validate_transition_def Let_def by (cases "cn_state s"; simp; blast)

lemma contract_net_effect_state [simp]: "cn_state (contract_net_effect now p st m s) = st"
  by (simp add: contract_net_effect_def Let_def)

lemma contract_net_effect_base:
  "cn_base (contract_net_effect now p st m s) =
     (if p = Propose then with_sender m add_participant (record_message m (cn_base s))
      else record_message m (cn_base s))"
  by (simp add: contract_net_effect_def with_sender_def Let_def split: option.splits)

lemma contract_net_effect_proposals:
  "cn_proposals (contract_net_effect now p st m s) = cn_proposals s @
     (case sender m of Some a \<Rightarrow>
        if p = Propose then [\<lparr>pr_bidder = a, pr_content = content m, pr_received_at = now\<rparr>] else []
      | None \<Rightarrow> [])"
  by (simp add: contract_net_effect_def with_sender_def Let_def split: option.splits)

lemma contract_net_effect_accepted [simp]:
  "cn_accepted (contract_net_effect now p st m s) = cn_accepted s"
  by (simp add: contract_net_effect_def with_sender_def Let_def split: option.splits)

lemma contract_net_effect_results:
  "cn_results (contract_net_effect now p st m s) =
     (case sender m of Some a \<Rightarrow>
        if p = InformDone \<or> p = InformResult then hm_insert (name a) (content m) (cn_results s)
        else cn_results s
      | None \<Rightarrow> cn_results s)"
  by (simp add: contract_net_effect_def with_sender_def Let_def split: option.splits)

lemmas contract_net_effect_simps =
  contract_net_effect_base contract_net_effect_proposals contract_net_effect_results
  with_sender_def name_add_participant

interpretation cn_step: step_machine contract_net_validate_transition contract_net_effect
  contract_net_answer contract_net_history contract_net_is_complete contract_net_is_failed
  contract_net_invar
proof unfold_locales
  fix s p st now m
  assume inv: "contract_net_invar s" and tr: "contract_net_validate_transition s p = Inr st"
  let ?s' = "contract_net_effect now p st m s"
  from tr have "st \<notin> {Evaluating, Accepted}" by (auto simp: contract_net_transition_iff)
  moreover have "participants_distinct (cn_base ?s')" "proposals_known ?s'" "accepted_proposed ?s'"
    using inv by (auto simp: contract_net_invar_def contract_net_effect_simps proposals_known_def
        accepted_proposed_def split: option.splits)
  moreover have "st \<in> {NotStarted, CfpSent} \<Longrightarrow> cn_proposals ?s' = []"
    using inv tr by (auto simp: contract_net_invar_def contract_net_transition_iff
        contract_net_effect_proposals split: option.splits)
  moreover have "st \<noteq> Completed \<Longrightarrow> cn_results ?s' = []" "length (cn_results ?s') \<le> 1"
    using inv tr by (auto simp: contract_net_invar_def contract_net_transition_iff
        contract_net_effect_results length_hm_insert split: option.splits)
  ultimately show "contract_net_invar ?s'" by (simp add: contract_net_invar_def)
next
  fix s p st now m
  assume "contract_net_is_complete s" "contract_net_validate_transition s p = Inr st"
  then show "contract_net_is_complete (contract_net_effect now p st m s)"
    by (auto simp: contract_net_is_complete_def contract_net_transition_iff)
qed (auto simp: contract_net_history_def contract_net_effect_simps contract_net_answer_def
    contract_net_is_complete_def contract_net_is_failed_def
    split: option.splits contract_net_state.splits)

interpretation cn: advertising_machine contract_net_validate contract_net_process
  contract_net_history contract_net_is_complete contract_net_is_failed contract_net_invar
  contract_net_expected
  unfolding contract_net_validate_def contract_net_process_def
  by unfold_locales
    (auto simp: contract_net_defs contract_net_expected_def validate_with_def
      split: contract_net_state.splits if_splits)

interpretation cns: settled_machine contract_net_validate contract_net_process
  contract_net_history contract_net_is_complete contract_net_is_failed contract_net_invar
proof unfold_locales
  fix s m
  assume c: "contract_net_is_complete s"
  show "\<exists>e. contract_net_validate s m = Inl e"
  proof (cases "contract_net_validate s m")
    case (Inr u)
    then obtain p st where "contract_net_validate_transition s p = Inr st"
      by (auto simp: contract_net_validate_def validate_with_def split: sum.splits)
    with c show ?thesis
      by (auto simp: contract_net_transition_iff contract_net_is_complete_def)
  qed simp
qed

lemma contract_net_new_invar [simp]: "contract_net_invar (contract_net_new r uuid now)"
  by (simp add: contract_net_invar_def contract_net_new_def proposals_known_def
      accepted_proposed_def)

section \<open>Accepting a proposal\<close>

lemma contract_net_accept_invar:
  assumes "contract_net_invar s"
  shows "contract_net_invar (snd (contract_net_accept_proposal k s))"
proof (cases "find (\<lambda>p. name (pr_bidder p) = k) (cn_proposals s)")
  case (Some p)
  then have "p \<in> set (cn_proposals s)" "name (pr_bidder p) = k"
    by (auto simp: find_Some_iff)
  with assms Some show ?thesis
    by (auto simp: contract_net_invar_def contract_net_accept_proposal_def proposals_known_def
        accepted_proposed_def hashmap_simps)
qed (use assms in \<open>simp add: contract_net_accept_proposal_def\<close>)

text \<open>
  A completing message determines the result: its content when it names a sender, nothing
  otherwise.
\<close>

lemma contract_net_completion:
  assumes inv: "contract_net_invar s"
    and step: "fst (contract_net_process now m s) = Inr (Complete d)"
  shows "result d = map_option (\<lambda>_. content m) (sender m)"
proof -
  from step obtain p st where p: "contract_net_validate_transition s p = Inr st"
    and ans: "contract_net_answer (contract_net_effect now p st m s) = Complete d"
    by (auto simp: contract_net_process_def step_with_def Let_def split: sum.splits)
  from ans have st: "st = Completed"
    and d: "result d = (case hm_values (cn_results (contract_net_effect now p st m s)) of
          [] \<Rightarrow> None | v # _ \<Rightarrow> Some v)"
    by (auto simp: contract_net_answer_def split: contract_net_state.splits)
  from inv p st have "cn_results s = []" "p = InformDone \<or> p = InformResult"
    by (auto simp: contract_net_invar_def contract_net_transition_iff)
  then show ?thesis
    by (auto simp: d contract_net_effect_results hm_insert_def hm_values_def split: option.splits)
qed

end
