(* ===== verification/Subscribe_Protocol.thy ===== *)
theory Subscribe_Protocol
  imports Protocol_Interface
begin

text \<open>
  The FIPA subscribe protocol, \<^verbatim>\<open>src/protocol/subscribe.rs\<close>. It keeps the machine
  contract but not the advertising one: \<open>expected_performatives\<close> lists \<open>Failure\<close> in state
  \<open>Agreed\<close>, where \<open>validate_transition\<close> has no arm for it.
\<close>

section \<open>State\<close>

datatype subscribe_state =
  NotStarted | Subscribed | Agreed | Active | Completed | Failed | Refused | Cancelled

fun subscribe_as_str :: "subscribe_state \<Rightarrow> string" where
  "subscribe_as_str NotStarted = ''not_started''"
| "subscribe_as_str Subscribed = ''subscribed''"
| "subscribe_as_str Agreed = ''agreed''"
| "subscribe_as_str Active = ''active''"
| "subscribe_as_str Completed = ''completed''"
| "subscribe_as_str Failed = ''failed''"
| "subscribe_as_str Refused = ''refused''"
| "subscribe_as_str Cancelled = ''cancelled''"

record subscribe_protocol =
  su_state :: subscribe_state
  su_base :: conversation_base
  su_subscription_object :: "bytes option"
  su_notification_count :: usize
  su_last_notification :: "bytes option"

section \<open>Operations\<close>

definition subscribe_new :: "role \<Rightarrow> string \<Rightarrow> timestamp \<Rightarrow> subscribe_protocol" where
  "subscribe_new r uuid now =
     \<lparr>su_state = NotStarted, su_base = conversation_new uuid r now,
      su_subscription_object = None, su_notification_count = 0, su_last_notification = None\<rparr>"

definition subscribe_validate_transition ::
  "subscribe_protocol \<Rightarrow> performative \<Rightarrow> protocol_error + subscribe_state" where
  "subscribe_validate_transition s perf =
     (let st = su_state s in
      if st = NotStarted \<and> perf = Subscribe then Inr Subscribed
      else if st = Subscribed \<and> perf = Agree then Inr Agreed
      else if st = Subscribed \<and> perf = Refuse then Inr Refused
      else if st = Agreed \<and> perf = InformResult then Inr Active
      else if st = Active \<and> perf = InformResult then Inr Active
      else if st = Active \<and> perf = Failure then Inr Failed
      else if perf = Cancel then Inr Cancelled
      else invalid_transition (subscribe_as_str st) perf)"

definition subscribe_validate :: "subscribe_protocol \<Rightarrow> acl_message \<Rightarrow> protocol_error + unit" where
  "subscribe_validate = validate_with subscribe_validate_transition"

text \<open>The counter is a \<open>usize\<close> and wraps around.\<close>

definition subscribe_effect ::
  "timestamp \<Rightarrow> performative \<Rightarrow> subscribe_state \<Rightarrow> acl_message \<Rightarrow>
   subscribe_protocol \<Rightarrow> subscribe_protocol" where
  "subscribe_effect now perf new_state m s =
     (let s1 = s\<lparr>su_base := record_message m (su_base s)\<rparr>;
          s2 = (if perf = Subscribe then
                  with_sender m (\<lambda>a s. s\<lparr>su_base := add_participant a (su_base s)\<rparr>)
                    (s1\<lparr>su_subscription_object := Some (content m)\<rparr>)
                else if perf = InformResult then
                  s1\<lparr>su_notification_count := su_notification_count s1 + 1,
                     su_last_notification := Some (content m)\<rparr>
                else s1)
      in s2\<lparr>su_state := new_state\<rparr>)"

definition subscribe_answer :: "subscribe_protocol \<Rightarrow> process_result" where
  "subscribe_answer s =
     (case su_state s of
        Active \<Rightarrow> Continue
      | Completed \<Rightarrow> Complete completion_data_default
      | Failed \<Rightarrow> process_result.Failed ''Subscription ended''
      | Refused \<Rightarrow> process_result.Failed ''Subscription ended''
      | Cancelled \<Rightarrow> process_result.Failed ''Subscription ended''
      | _ \<Rightarrow> Continue)"

definition subscribe_process :: "subscribe_protocol process_fun" where
  "subscribe_process = step_with subscribe_validate_transition subscribe_effect subscribe_answer"

definition subscribe_is_complete :: "subscribe_protocol \<Rightarrow> bool" where
  "subscribe_is_complete s = (su_state s \<in> {Completed, Failed, Refused, Cancelled})"

definition subscribe_is_failed :: "subscribe_protocol \<Rightarrow> bool" where
  "subscribe_is_failed s = (su_state s \<in> {Failed, Refused, Cancelled})"

definition subscribe_expected :: "subscribe_protocol \<Rightarrow> performative list" where
  "subscribe_expected s =
     (case su_state s of
        NotStarted \<Rightarrow> [Subscribe]
      | Subscribed \<Rightarrow> [Agree, Refuse, Cancel]
      | Agreed \<Rightarrow> [InformResult, Failure, Cancel]
      | Active \<Rightarrow> [InformResult, Failure, Cancel]
      | _ \<Rightarrow> [])"

definition subscribe_history :: "subscribe_protocol \<Rightarrow> acl_message list" where
  "subscribe_history s = cb_messages (su_base s)"

section \<open>The contract\<close>

text \<open>The notifications of a conversation: the recorded messages with that performative.\<close>

definition notifications :: "acl_message list \<Rightarrow> acl_message list" where
  "notifications ms = filter (\<lambda>m. performative_try_from (performative m) = Some InformResult) ms"

definition subscribe_count_ok :: "subscribe_protocol \<Rightarrow> bool" where
  "subscribe_count_ok s \<longleftrightarrow>
     su_notification_count s = of_nat (length (notifications (subscribe_history s)))
     \<and> su_last_notification s =
         (case rev (notifications (subscribe_history s)) of [] \<Rightarrow> None | m # _ \<Rightarrow> Some (content m))"

definition subscribe_invar :: "subscribe_protocol \<Rightarrow> bool" where
  "subscribe_invar s \<longleftrightarrow> su_state s \<noteq> Completed \<and> participants_distinct (su_base s)
     \<and> (su_state s \<in> {NotStarted, Subscribed, Agreed, Refused} \<longrightarrow>
         su_notification_count s = 0 \<and> su_last_notification s = None)
     \<and> (su_state s = Active \<longrightarrow> su_last_notification s \<noteq> None)"

lemmas subscribe_defs =
  subscribe_validate_transition_def subscribe_effect_def subscribe_answer_def
  subscribe_is_complete_def subscribe_is_failed_def subscribe_history_def subscribe_invar_def
  with_sender_def Let_def

interpretation su_step: step_machine subscribe_validate_transition subscribe_effect
  subscribe_answer subscribe_history subscribe_is_complete subscribe_is_failed subscribe_invar
  by unfold_locales
    (auto simp: subscribe_defs split: option.splits subscribe_state.splits if_splits)

interpretation su: protocol_machine subscribe_validate subscribe_process subscribe_history
  subscribe_is_complete subscribe_is_failed subscribe_invar
  unfolding subscribe_validate_def subscribe_process_def by unfold_locales

text \<open>Every step keeps the notification counter equal to the number of recorded notifications.\<close>

lemma subscribe_count_step:
  "subscribe_count_ok s \<Longrightarrow> subscribe_count_ok (snd (subscribe_process now m s))"
  by (auto simp: subscribe_count_ok_def subscribe_process_def step_with_def subscribe_effect_def
      subscribe_history_def with_sender_def Let_def notifications_def decode_performative_def
      split: sum.splits option.splits)

lemma subscribe_count_new: "subscribe_count_ok (subscribe_new r uuid now)"
  by (simp add: subscribe_count_ok_def subscribe_new_def subscribe_history_def notifications_def)

section \<open>Properties\<close>

text \<open>
  The notification counter counts the notifications. After any sequence of messages, the
  counter is the number of recorded \<open>InformResult\<close> messages (modulo \<open>2 ^ 64\<close>) and the stored
  notification is the content of the latest of them.
\<close>

theorem subscribe_counts_notifications:
  fixes ms r uuid t
  defines "s \<equiv> run subscribe_process (subscribe_new r uuid t) ms"
  defines "ns \<equiv> filter (\<lambda>m. performative_try_from (performative m) = Some InformResult)
      (accepted subscribe_process (subscribe_new r uuid t) ms)"
  shows "su_notification_count s = of_nat (length ns)
    \<and> su_last_notification s = (if ns = [] then None else Some (content (last ns)))"
proof -
  have "subscribe_count_ok s" unfolding s_def
    by (rule run_invariant [where P = subscribe_count_ok])
      (auto intro: subscribe_count_step subscribe_count_new)
  moreover have "subscribe_history s = accepted subscribe_process (subscribe_new r uuid t) ms"
    using su.run_history [of "subscribe_new r uuid t" ms]
    by (simp add: s_def subscribe_history_def subscribe_new_def)
  ultimately show ?thesis
    by (cases ns rule: rev_cases) (auto simp: subscribe_count_ok_def notifications_def ns_def)
qed

text \<open>
  An agreed subscription advertises \<open>Failure\<close> but refuses it. In state \<open>Agreed\<close> the
  performative is listed by \<open>expected_performatives\<close>, yet processing a failure message is an
  invalid transition and leaves the subscription waiting.
\<close>

theorem subscribe_advertises_failure_wrongly:
  assumes "su_state s = Agreed" "performative_try_from (performative m) = Some Failure"
  shows "Failure \<in> set (subscribe_expected s)
    \<and> subscribe_process now m s = (Inl (InvalidTransition ''agreed'' ''Failure''), s)"
  using assms by (simp add: subscribe_expected_def subscribe_process_def step_with_def
      subscribe_validate_transition_def invalid_transition_def Let_def)

theorem subscribe_advertises_failure_wrongly_witness:
  "fst (subscribe_process 2 (plain_message Failure ''server'' [])
     (run subscribe_process (subscribe_new Participant ''conv'' 0)
       [(0, plain_message Subscribe ''client'' []), (1, plain_message Agree ''server'' [])])) =
   Inl (InvalidTransition ''agreed'' ''Failure'')"
proof -
  let ?s = "run subscribe_process (subscribe_new Participant ''conv'' 0)
       [(0, plain_message Subscribe ''client'' []), (1, plain_message Agree ''server'' [])]"
  have s: "su_state ?s = Agreed"
    by (simp add: subscribe_process_def step_with_def subscribe_new_def
        subscribe_validate_transition_def subscribe_effect_def Let_def)
  have "performative_try_from (performative (plain_message Failure ''server'' [])) = Some Failure"
    by (simp only: plain_message_simps performative_try_from_as_i32)
  from subscribe_advertises_failure_wrongly [OF s this, of 2] show ?thesis by simp
qed

end
