(* ===== verification/Machine_Factory.thy ===== *)
theory Machine_Factory
  imports Request_Protocol Query_Protocol Contract_Net Subscribe_Protocol
begin

text \<open>
  \<open>Box<dyn ProtocolStateMachine>\<close> as the agent actor holds it: the sum of the four protocols
  that \<open>create_state_machine\<close> of \<^verbatim>\<open>src/protocol/state_machine.rs\<close> builds, with
  the trait's methods dispatched on the constructor. The dispatching operations keep the
  contract of the trait because each protocol does.
\<close>

datatype boxed_machine =
    BoxRequest request_protocol
  | BoxQuery query_protocol
  | BoxContractNet contract_net_protocol
  | BoxSubscribe subscribe_protocol

text \<open>The conversation identifier of a new machine is a fresh UUID, and the clock is read.\<close>

definition create_state_machine ::
  "string \<Rightarrow> timestamp \<Rightarrow> protocol_type \<Rightarrow> protocol_error + boxed_machine" where
  "create_state_machine uuid now p =
     (case p of
        ProtocolRequest \<Rightarrow> Inr (BoxRequest (request_new Participant uuid now))
      | ProtocolQuery \<Rightarrow> Inr (BoxQuery (query_new Participant uuid now))
      | ProtocolContractNet \<Rightarrow> Inr (BoxContractNet (contract_net_new Participant uuid now))
      | ProtocolSubscribe \<Rightarrow> Inr (BoxSubscribe (subscribe_new Participant uuid now))
      | _ \<Rightarrow> Inl (NotSupported p))"

section \<open>Dynamic dispatch\<close>

fun boxed_protocol_type :: "boxed_machine \<Rightarrow> protocol_type" where
  "boxed_protocol_type (BoxRequest _) = ProtocolRequest"
| "boxed_protocol_type (BoxQuery _) = ProtocolQuery"
| "boxed_protocol_type (BoxContractNet _) = ProtocolContractNet"
| "boxed_protocol_type (BoxSubscribe _) = ProtocolSubscribe"

fun boxed_state_name :: "boxed_machine \<Rightarrow> string" where
  "boxed_state_name (BoxRequest s) = request_as_str (rq_state s)"
| "boxed_state_name (BoxQuery s) = query_as_str (qu_state s)"
| "boxed_state_name (BoxContractNet s) = contract_net_as_str (cn_state s)"
| "boxed_state_name (BoxSubscribe s) = subscribe_as_str (su_state s)"

fun boxed_validate :: "boxed_machine \<Rightarrow> acl_message \<Rightarrow> protocol_error + unit" where
  "boxed_validate (BoxRequest s) m = request_validate s m"
| "boxed_validate (BoxQuery s) m = query_validate s m"
| "boxed_validate (BoxContractNet s) m = contract_net_validate s m"
| "boxed_validate (BoxSubscribe s) m = subscribe_validate s m"

fun boxed_process :: "boxed_machine process_fun" where
  "boxed_process now m (BoxRequest s) = map_prod id BoxRequest (request_process now m s)"
| "boxed_process now m (BoxQuery s) = map_prod id BoxQuery (query_process now m s)"
| "boxed_process now m (BoxContractNet s) =
     map_prod id BoxContractNet (contract_net_process now m s)"
| "boxed_process now m (BoxSubscribe s) = map_prod id BoxSubscribe (subscribe_process now m s)"

fun boxed_is_complete :: "boxed_machine \<Rightarrow> bool" where
  "boxed_is_complete (BoxRequest s) = request_is_complete s"
| "boxed_is_complete (BoxQuery s) = query_is_complete s"
| "boxed_is_complete (BoxContractNet s) = contract_net_is_complete s"
| "boxed_is_complete (BoxSubscribe s) = subscribe_is_complete s"

fun boxed_is_failed :: "boxed_machine \<Rightarrow> bool" where
  "boxed_is_failed (BoxRequest s) = request_is_failed s"
| "boxed_is_failed (BoxQuery s) = query_is_failed s"
| "boxed_is_failed (BoxContractNet s) = contract_net_is_failed s"
| "boxed_is_failed (BoxSubscribe s) = subscribe_is_failed s"

fun boxed_expected :: "boxed_machine \<Rightarrow> performative list" where
  "boxed_expected (BoxRequest s) = request_expected s"
| "boxed_expected (BoxQuery s) = query_expected s"
| "boxed_expected (BoxContractNet s) = contract_net_expected s"
| "boxed_expected (BoxSubscribe s) = subscribe_expected s"

fun boxed_history :: "boxed_machine \<Rightarrow> acl_message list" where
  "boxed_history (BoxRequest s) = request_history s"
| "boxed_history (BoxQuery s) = query_history s"
| "boxed_history (BoxContractNet s) = contract_net_history s"
| "boxed_history (BoxSubscribe s) = subscribe_history s"

fun boxed_invar :: "boxed_machine \<Rightarrow> bool" where
  "boxed_invar (BoxRequest s) = request_invar s"
| "boxed_invar (BoxQuery s) = query_invar s"
| "boxed_invar (BoxContractNet s) = contract_net_invar s"
| "boxed_invar (BoxSubscribe s) = subscribe_invar s"

section \<open>The contract of the boxed machine\<close>

interpretation bx: protocol_machine boxed_validate boxed_process boxed_history
  boxed_is_complete boxed_is_failed boxed_invar
proof
  fix s m now e
  show "boxed_validate s m = Inl e \<Longrightarrow> boxed_process now m s = (Inl e, s)"
    by (cases s) (simp_all add: rq.process_reject qu.process_reject cn.process_reject
        su.process_reject)
  show "boxed_validate s m = Inr () \<Longrightarrow> \<exists>r. fst (boxed_process now m s) = Inr r \<and>
      boxed_history (snd (boxed_process now m s)) = boxed_history s @ [m]"
    by (cases s) (auto dest: rq.process_accept [where now = now]
        qu.process_accept [where now = now] cn.process_accept [where now = now]
        su.process_accept [where now = now])
next
  fix s m now d
  show "fst (boxed_process now m s) = Inr (Complete d) \<Longrightarrow>
      boxed_is_complete (snd (boxed_process now m s)) \<and>
      \<not> boxed_is_failed (snd (boxed_process now m s))"
    by (cases s) (auto dest: rq.result_complete qu.result_complete cn.result_complete
        su.result_complete)
next
  fix s m now w
  show "fst (boxed_process now m s) = Inr (process_result.Failed w) \<Longrightarrow>
      boxed_is_failed (snd (boxed_process now m s))"
    by (cases s) (auto dest: rq.result_failed qu.result_failed cn.result_failed su.result_failed)
next
  fix s m now
  show "fst (boxed_process now m s) = Inr Continue \<Longrightarrow>
      \<not> boxed_is_complete (snd (boxed_process now m s))"
    by (cases s) (auto dest: rq.result_continue qu.result_continue cn.result_continue
        su.result_continue)
next
  fix s m now r
  show "fst (boxed_process now m s) \<noteq> Inr (Respond r)"
    by (cases s) (simp_all add: rq.no_respond qu.no_respond cn.no_respond su.no_respond)
next
  fix s
  show "boxed_is_failed s \<Longrightarrow> boxed_is_complete s"
    by (cases s) (simp_all add: rq.failed_complete qu.failed_complete cn.failed_complete
        su.failed_complete)
next
  fix s m now
  show "boxed_is_complete s \<Longrightarrow> boxed_is_complete (snd (boxed_process now m s))"
    by (cases s) (simp_all add: rq.complete_stable qu.complete_stable cn.complete_stable
        su.complete_stable)
next
  fix s m now
  show "boxed_invar s \<Longrightarrow> boxed_invar (snd (boxed_process now m s))"
    by (cases s) (simp_all add: rq.invar_step qu.invar_step cn.invar_step su.invar_step)
qed

lemma boxed_process_type [simp]:
  "boxed_protocol_type (snd (boxed_process now m s)) = boxed_protocol_type s"
  by (cases s) simp_all

text \<open>A new machine is fresh: of the requested protocol, with no message and not complete.\<close>

lemma created_machine_fresh:
  assumes "create_state_machine uuid now p = Inr b"
  shows "boxed_protocol_type b = p" and "boxed_history b = []" and "boxed_invar b"
    and "\<not> boxed_is_complete b"
  using assms
  by (cases p; auto simp: create_state_machine_def request_history_def request_new_def
      query_history_def query_new_def contract_net_history_def contract_net_new_def
      subscribe_history_def subscribe_new_def subscribe_invar_def request_is_complete_def
      query_is_complete_def contract_net_is_complete_def subscribe_is_complete_def;
      simp flip: request_new_def query_new_def contract_net_new_def)+

section \<open>Properties\<close>

text \<open>
  The trace of a conversation. Whatever messages arrive at a machine the factory creates,
  its protocol type is the requested one, its history is exactly the accepted messages in order
  of arrival, a failed machine is complete, and a complete machine stays complete.
\<close>

theorem created_machine_trace:
  assumes "create_state_machine uuid t p = Inr b"
  shows "boxed_protocol_type (run boxed_process b ms) = p
    \<and> boxed_history (run boxed_process b ms) = accepted boxed_process b ms
    \<and> subseq (accepted boxed_process b ms) (map snd ms)
    \<and> (boxed_is_failed (run boxed_process b ms) \<longrightarrow> boxed_is_complete (run boxed_process b ms))
    \<and> (boxed_is_complete (run boxed_process b ms) \<longrightarrow>
        boxed_is_complete (run boxed_process b (ms @ later)))"
proof -
  note fresh = created_machine_fresh [OF assms]
  have "boxed_protocol_type (run boxed_process b ms) = p"
    by (rule run_invariant [where P = "\<lambda>b. boxed_protocol_type b = p"]) (simp_all add: fresh)
  with bx.run_trace [OF fresh(2,3), of ms] accepted_subseq [of boxed_process b ms]
  show ?thesis by (simp add: run_append bx.run_complete)
qed

text \<open>Three messages of which the second, an inform from nowhere, is refused.\<close>

definition demo_boxed_messages :: "(timestamp \<times> acl_message) list" where
  "demo_boxed_messages =
     [(0, plain_message Request ''client'' [1]), (1, plain_message Inform ''other'' [2]),
      (2, plain_message Refuse ''server'' [3])]"

theorem created_machine_trace_witness:
  "map content (boxed_history (run boxed_process
     (BoxRequest (request_new Participant ''conv'' 0)) demo_boxed_messages)) = [[1], [3]]"
proof -
  let ?b = "BoxRequest (request_new Participant ''conv'' 0)"
  have c: "create_state_machine ''conv'' 0 ProtocolRequest = Inr ?b"
    by (simp add: create_state_machine_def)
  have "map content (accepted boxed_process ?b demo_boxed_messages) = [[1], [3]]"
    by (simp add: demo_boxed_messages_def request_process_def step_with_def request_new_def
        request_validate_transition_def request_effect_def with_sender_def Let_def
        invalid_transition_def)
  with created_machine_trace [OF c, of demo_boxed_messages] show ?thesis by simp
qed

end
