(* ===== verification/Float64.thy ===== *)
theory Float64
  imports Prelude
begin

text \<open>
  The fragment of Rust's \<open>f64\<close> (IEEE 754 binary64) that the auctions, the recruiting protocol
  and the web of trust use: comparison, addition, subtraction, multiplication and \<open>powi\<close>. A value is NaN, an infinity or a finite number,
  and a finite number is kept as the rational it denotes. A sum, difference or product is computed
  exactly and rounded to the nearest representable number, ties to even, with overflow to
  infinity, as the standard prescribes. The two zeros are one value here: none of the modelled
  operations tells them apart.

  The lemmas show what the clients rely on: rounding never crosses a representable number
  (\<open>f64_round_ge\<close>, \<open>f64_round_le\<close>), so adding a nonnegative amount never yields less and
  subtracting one never yields more, and integers below \<open>2 ^ 53\<close> are computed exactly.
\<close>

section \<open>Values and comparison\<close>

datatype f64 = NaN | NegInf | PosInf | Fin rat

fun f64_lt :: "f64 \<Rightarrow> f64 \<Rightarrow> bool" where
  "f64_lt NaN _ = False"
| "f64_lt _ NaN = False"
| "f64_lt (Fin x) (Fin y) = (x < y)"
| "f64_lt NegInf y = (y \<noteq> NegInf)"
| "f64_lt PosInf _ = False"
| "f64_lt (Fin _) NegInf = False"
| "f64_lt (Fin _) PosInf = True"

definition f64_le :: "f64 \<Rightarrow> f64 \<Rightarrow> bool" where
  "f64_le x y \<longleftrightarrow> f64_lt x y \<or> (x \<noteq> NaN \<and> x = y)"

section \<open>Rounding\<close>

definition pow2 :: "int \<Rightarrow> rat" where
  "pow2 e = (if 0 \<le> e then 2 ^ nat e else 1 / 2 ^ nat (- e))"

text \<open>The number of binary digits of a natural number, and from it the exponent of a fraction.\<close>

fun nbits :: "nat \<Rightarrow> nat" where
  "nbits n = (if n = 0 then 0 else Suc (nbits (n div 2)))"

declare nbits.simps [simp del]

definition exponent :: "rat \<Rightarrow> int" where
  "exponent x =
     (let (p, q) = quotient_of x;
          d = int (nbits (nat p)) - int (nbits (nat q))
      in if pow2 d \<le> x then d else d - 1)"

definition round_half_even :: "rat \<Rightarrow> int" where
  "round_half_even x =
     (let k = \<lfloor>x\<rfloor>; r = x - of_int k
      in if r < 1 / 2 then k else if 1 / 2 < r then k + 1
         else if even k then k else k + 1)"

definition ulp :: "rat \<Rightarrow> rat" where
  "ulp x = pow2 (max (exponent x - 52) (-1074))"

text \<open>Rounding of a positive number, before the overflow check.\<close>

definition round_pos :: "rat \<Rightarrow> rat" where
  "round_pos x = of_int (round_half_even (x / ulp x)) * ulp x"

definition f64_round :: "rat \<Rightarrow> f64" where
  "f64_round x =
     (if x = 0 then Fin 0
      else let r = round_pos \<bar>x\<bar>
           in if 2 ^ 1024 \<le> r then (if 0 < x then PosInf else NegInf)
              else Fin (if 0 < x then r else - r))"

definition representable :: "rat \<Rightarrow> bool" where
  "representable x \<longleftrightarrow> x = 0 \<or> (\<bar>x\<bar> < 2 ^ 1024 \<and> \<bar>x\<bar> / ulp \<bar>x\<bar> \<in> \<int>)"

definition f64_wf :: "f64 \<Rightarrow> bool" where
  "f64_wf x \<longleftrightarrow> (case x of Fin r \<Rightarrow> representable r | _ \<Rightarrow> True)"

fun f64_neg :: "f64 \<Rightarrow> f64" where
  "f64_neg NaN = NaN"
| "f64_neg NegInf = PosInf"
| "f64_neg PosInf = NegInf"
| "f64_neg (Fin x) = Fin (- x)"

fun f64_add :: "f64 \<Rightarrow> f64 \<Rightarrow> f64" where
  "f64_add NaN _ = NaN"
| "f64_add _ NaN = NaN"
| "f64_add (Fin x) (Fin y) = f64_round (x + y)"
| "f64_add PosInf NegInf = NaN"
| "f64_add NegInf PosInf = NaN"
| "f64_add PosInf _ = PosInf"
| "f64_add _ PosInf = PosInf"
| "f64_add NegInf _ = NegInf"
| "f64_add _ NegInf = NegInf"

definition f64_sub :: "f64 \<Rightarrow> f64 \<Rightarrow> f64" where
  "f64_sub x y = f64_add x (f64_neg y)"

text \<open>
  The product of infinities and zero is NaN; the sign of an infinite product is the product of
  the signs. \<open>f64_powi\<close> is \<open>powi\<close> for exponents that are not negative, by repeated squaring.
\<close>

definition f64_inf :: "bool \<Rightarrow> f64" where
  "f64_inf negative = (if negative then NegInf else PosInf)"

fun f64_mul :: "f64 \<Rightarrow> f64 \<Rightarrow> f64" where
  "f64_mul NaN _ = NaN"
| "f64_mul _ NaN = NaN"
| "f64_mul (Fin x) (Fin y) = f64_round (x * y)"
| "f64_mul (Fin x) PosInf = (if x = 0 then NaN else f64_inf (x < 0))"
| "f64_mul (Fin x) NegInf = (if x = 0 then NaN else f64_inf (0 < x))"
| "f64_mul PosInf (Fin y) = (if y = 0 then NaN else f64_inf (y < 0))"
| "f64_mul NegInf (Fin y) = (if y = 0 then NaN else f64_inf (0 < y))"
| "f64_mul PosInf PosInf = PosInf"
| "f64_mul NegInf NegInf = PosInf"
| "f64_mul PosInf NegInf = NegInf"
| "f64_mul NegInf PosInf = NegInf"

fun f64_powi_loop :: "f64 \<Rightarrow> f64 \<Rightarrow> nat \<Rightarrow> f64" where
  "f64_powi_loop r a n =
     (let r' = (if odd n then f64_mul r a else r)
      in if n div 2 = 0 then r' else f64_powi_loop r' (f64_mul a a) (n div 2))"

declare f64_powi_loop.simps [simp del]

definition f64_powi :: "f64 \<Rightarrow> nat \<Rightarrow> f64" where
  "f64_powi a n = f64_powi_loop (Fin 1) a n"

section \<open>Comparison lemmas\<close>

lemma f64_le_Fin [simp]: "f64_le (Fin x) (Fin y) \<longleftrightarrow> x \<le> y"
  by (auto simp: f64_le_def)

lemma f64_le_special [simp]:
  "\<not> f64_le NaN y" "\<not> f64_le x NaN"
  "f64_le NegInf y \<longleftrightarrow> y \<noteq> NaN" "f64_le x PosInf \<longleftrightarrow> x \<noteq> NaN"
  "f64_le x NegInf \<longleftrightarrow> x = NegInf" "f64_le PosInf y \<longleftrightarrow> y = PosInf"
  by (cases x; cases y; auto simp: f64_le_def)+

lemma f64_lt_NaN [simp]: "\<not> f64_lt x NaN"
  by (cases x) auto

lemma f64_le_refl: "x \<noteq> NaN \<Longrightarrow> f64_le x x"
  by (simp add: f64_le_def)

lemma f64_not_lt: "x \<noteq> NaN \<Longrightarrow> y \<noteq> NaN \<Longrightarrow> \<not> f64_lt x y \<longleftrightarrow> f64_le y x"
  by (cases x; cases y) (auto simp: f64_le_def)

lemma f64_le_trans: "f64_le x y \<Longrightarrow> f64_le y z \<Longrightarrow> f64_le x z"
  by (cases x; cases y; cases z) (auto simp: f64_le_def)

lemma f64_le_notNaN: "f64_le x y \<Longrightarrow> x \<noteq> NaN \<and> y \<noteq> NaN"
  by (cases x; cases y) (auto simp: f64_le_def)

section \<open>The exponent\<close>

lemma pow2_pos [simp]: "0 < pow2 e"
  by (simp add: pow2_def)

lemma pow2_neq_0 [simp]: "pow2 e \<noteq> 0"
  by (simp add: pow2_def)

lemma pow2_powi: "pow2 e = 2 powi e"
  by (auto simp: pow2_def power_int_def field_simps)

lemma pow2_add: "pow2 (a + b) = pow2 a * pow2 b"
  by (simp add: pow2_powi power_int_add)

lemma pow2_mono: "a \<le> b \<Longrightarrow> pow2 a \<le> pow2 b"
  by (simp add: pow2_powi power_int_increasing)

lemma pow2_le_iff [simp]: "pow2 a \<le> pow2 b \<longleftrightarrow> a \<le> b"
proof
  assume le: "pow2 a \<le> pow2 b"
  show "a \<le> b"
  proof (rule ccontr)
    assume "\<not> a \<le> b"
    then have "pow2 b < pow2 a" by (simp add: pow2_powi power_int_strict_increasing)
    with le show False by simp
  qed
qed (rule pow2_mono)

lemma pow2_eq_iff [simp]: "pow2 a = pow2 b \<longleftrightarrow> a = b"
  by (simp add: order_eq_iff)

lemma pow2_Ints: "0 \<le> e \<Longrightarrow> pow2 e \<in> \<int>"
  by (simp add: pow2_def)

lemma pow2_diff_Ints: "b \<le> a \<Longrightarrow> pow2 a / pow2 b \<in> \<int>"
proof -
  assume "b \<le> a"
  have "pow2 a = pow2 (a - b) * pow2 b"
    by (simp flip: pow2_add)
  then have "pow2 a / pow2 b = pow2 (a - b)"
    by simp
  with \<open>b \<le> a\<close> show ?thesis by (simp add: pow2_Ints)
qed

lemma nbits_bounds: "0 < n \<Longrightarrow> 2 ^ (nbits n - 1) \<le> n \<and> n < 2 ^ nbits n \<and> 0 < nbits n"
proof (induction n rule: nbits.induct)
  case (1 n)
  show ?case
  proof (cases "n div 2 = 0")
    case True
    with "1.prems" have "n = 1" by simp
    then show ?thesis by (simp add: nbits.simps [of "Suc 0"] nbits.simps [of 0])
  next
    case False
    with 1 have IH: "2 ^ (nbits (n div 2) - 1) \<le> n div 2" "n div 2 < 2 ^ nbits (n div 2)"
      "0 < nbits (n div 2)" by simp_all
    then obtain k where k: "nbits (n div 2) = Suc k"
      by (cases "nbits (n div 2)") auto
    have "nbits n = Suc (Suc k)"
      using "1.prems" k by (simp add: nbits.simps [of n])
    moreover have "2 * 2 ^ k \<le> n" "n < 2 * (2 * 2 ^ k)"
      using IH k by simp_all
    ultimately show ?thesis by simp
  qed
qed

lemma nbits_pow2:
  assumes "0 < p"
  shows "pow2 (int (nbits (nat p)) - 1) \<le> of_int p" and "of_int p < pow2 (int (nbits (nat p)))"
proof -
  define a where "a = nbits (nat p)"
  have a: "2 ^ (a - 1) \<le> nat p" "nat p < 2 ^ a" "0 < a"
    using nbits_bounds [of "nat p"] assms by (simp_all add: a_def)
  have "of_nat (2 ^ (a - 1)) \<le> (of_nat (nat p) :: rat)" using a(1) by (rule of_nat_mono)
  moreover have "nat (int a - 1) = a - 1" using a(3) by simp
  ultimately show "pow2 (int (nbits (nat p)) - 1) \<le> of_int p"
    using a(3) assms by (simp add: pow2_def flip: a_def)
  have "of_nat (nat p) < (of_nat (2 ^ a) :: rat)"
    using a(2) by (rule of_nat_less_iff [THEN iffD2])
  then show "of_int p < pow2 (int (nbits (nat p)))"
    using assms by (simp add: pow2_def flip: a_def)
qed

lemma exponent_bounds:
  assumes "0 < x"
  shows "pow2 (exponent x) \<le> x" and "x < pow2 (exponent x + 1)"
proof -
  obtain p q where pq: "quotient_of x = (p, q)" by (cases "quotient_of x")
  then have q: "0 < q" and x: "x = of_int p / of_int q"
    by (auto dest: quotient_of_denom_pos quotient_of_div)
  with assms have p: "0 < p" by (simp add: zero_less_divide_iff)
  define a where "a = int (nbits (nat p))"
  define b where "b = int (nbits (nat q))"
  note P = nbits_pow2 [OF p, folded a_def] and Q = nbits_pow2 [OF q, folded b_def]
  define d where "d = a - b"
  have "pow2 (d - 1) * of_int q \<le> pow2 (d - 1) * pow2 b"
    using Q by (intro mult_left_mono) (simp_all add: less_imp_le)
  also have "\<dots> = pow2 (a - 1)" by (simp add: d_def flip: pow2_add)
  also have "\<dots> \<le> of_int p" by (rule P)
  finally have lo: "pow2 (d - 1) \<le> x" using q by (simp add: x field_simps)
  have "of_int p < pow2 a" by (rule P)
  also have "\<dots> = pow2 (d + 1) * pow2 (b - 1)" by (simp add: d_def flip: pow2_add)
  also have "\<dots> \<le> pow2 (d + 1) * of_int q"
    using Q by (intro mult_left_mono) (simp_all add: less_imp_le)
  finally have hi: "x < pow2 (d + 1)" using q by (simp add: x field_simps)
  have e: "exponent x = (if pow2 d \<le> x then d else d - 1)"
    by (simp add: exponent_def pq a_def b_def d_def)
  show "pow2 (exponent x) \<le> x" using lo by (simp add: e)
  show "x < pow2 (exponent x + 1)" using hi by (simp add: e)
qed

lemma exponent_mono:
  assumes "0 < x" "x \<le> y"
  shows "exponent x \<le> exponent y"
proof (rule ccontr)
  assume "\<not> exponent x \<le> exponent y"
  then have "pow2 (exponent y + 1) \<le> pow2 (exponent x)" by (intro pow2_mono) simp
  also have "\<dots> \<le> x" using assms by (intro exponent_bounds)
  also have "\<dots> \<le> y" by (rule assms)
  also have "y < pow2 (exponent y + 1)" using assms by (intro exponent_bounds) simp
  finally show False by simp
qed

lemma pow2_le_exponent: "pow2 e \<le> x \<Longrightarrow> e \<le> exponent x"
proof (rule ccontr)
  assume le: "pow2 e \<le> x" and "\<not> e \<le> exponent x"
  then have "pow2 (exponent x + 1) \<le> pow2 e" by (intro pow2_mono) simp
  also note le
  also have "x < pow2 (exponent x + 1)"
    using le pow2_pos [of e] by (intro exponent_bounds) linarith
  finally show False by simp
qed

lemma exponent_less: "0 < x \<Longrightarrow> x < pow2 e \<Longrightarrow> exponent x < e"
proof (rule ccontr)
  assume "0 < x" "x < pow2 e" and "\<not> exponent x < e"
  then have "pow2 e \<le> pow2 (exponent x)" by simp
  also have "\<dots> \<le> x" using \<open>0 < x\<close> by (rule exponent_bounds)
  finally show False using \<open>x < pow2 e\<close> by simp
qed

section \<open>Rounding lemmas\<close>

lemma round_half_even_ge: "of_int a \<le> x \<Longrightarrow> a \<le> round_half_even x"
  by (auto simp: round_half_even_def Let_def le_floor_iff intro: order_trans [of a "\<lfloor>x\<rfloor>"])

lemma round_half_even_le:
  assumes "x \<le> of_int a"
  shows "round_half_even x \<le> a"
proof -
  have "\<lfloor>x\<rfloor> \<le> a" using assms by (simp add: floor_le_iff)
  moreover have "\<lfloor>x\<rfloor> + 1 \<le> a" if "1 / 2 \<le> x - of_int \<lfloor>x\<rfloor>"
  proof -
    have "of_int \<lfloor>x\<rfloor> < (of_int a :: rat)" using that assms by simp
    then show ?thesis by simp
  qed
  ultimately show ?thesis by (auto simp: round_half_even_def Let_def)
qed

lemma ulp_pos [simp]: "0 < ulp x"
  by (simp add: ulp_def)

lemma ulp_neq_0 [simp]: "ulp x \<noteq> 0"
  by (simp add: ulp_def)

lemma round_pos_ge:
  assumes "a / ulp x \<in> \<int>" "a \<le> x"
  shows "a \<le> round_pos x"
proof -
  from assms(1) obtain k where k: "a / ulp x = of_int k" by (auto elim: Ints_cases)
  have "of_int k \<le> x / ulp x" using assms(2) by (simp flip: k add: divide_right_mono less_imp_le)
  then have "k \<le> round_half_even (x / ulp x)" by (rule round_half_even_ge)
  then have "of_int k * ulp x \<le> round_pos x"
    by (simp add: round_pos_def mult_right_mono less_imp_le)
  with k show ?thesis by (simp add: field_simps)
qed

lemma round_pos_le:
  assumes "a / ulp x \<in> \<int>" "x \<le> a"
  shows "round_pos x \<le> a"
proof -
  from assms(1) obtain k where k: "a / ulp x = of_int k" by (auto elim: Ints_cases)
  have "x / ulp x \<le> of_int k" using assms(2) by (simp flip: k add: divide_right_mono less_imp_le)
  then have "round_half_even (x / ulp x) \<le> k" by (rule round_half_even_le)
  then have "round_pos x \<le> of_int k * ulp x"
    by (simp add: round_pos_def mult_right_mono less_imp_le)
  with k show ?thesis by (simp add: field_simps)
qed

lemma multiple_of_finer:
  assumes "a / ulp y \<in> \<int>" "ulp x \<le> ulp y"
  shows "a / ulp x \<in> \<int>"
proof -
  have "max (exponent x - 52) (- 1074) \<le> max (exponent y - 52) (- 1074)"
    using assms(2) by (simp only: ulp_def pow2_le_iff)
  then have "ulp y / ulp x \<in> \<int>" unfolding ulp_def by (rule pow2_diff_Ints)
  with assms(1) have "(a / ulp y) * (ulp y / ulp x) \<in> \<int>" by (rule Ints_mult)
  then show ?thesis by simp
qed

lemma ulp_mono: "0 < x \<Longrightarrow> x \<le> y \<Longrightarrow> ulp x \<le> ulp y"
  unfolding ulp_def by (intro pow2_mono) (use exponent_mono [of x y] in auto)

lemma round_pos_nonneg: "0 < x \<Longrightarrow> 0 \<le> round_pos x"
  by (rule round_pos_ge) simp_all

lemma round_pos_ge_representable:
  assumes "0 < a" "a / ulp a \<in> \<int>" "a \<le> x"
  shows "a \<le> round_pos x"
proof (cases "ulp x = ulp a")
  case True
  with assms show ?thesis by (intro round_pos_ge) simp_all
next
  case False
  with assms have less: "exponent a < exponent x" and "-1074 < exponent x - 52"
    using exponent_mono [of a x] by (cases "exponent a = exponent x"; force simp: ulp_def max_def split: if_splits)+
  then have "pow2 (exponent x) / ulp x \<in> \<int>" by (simp add: ulp_def pow2_diff_Ints)
  then have "pow2 (exponent x) \<le> round_pos x"
    by (rule round_pos_ge [OF _ exponent_bounds(1)]) (use assms in simp)
  moreover have "a < pow2 (exponent a + 1)" using assms by (intro exponent_bounds)
  moreover have "pow2 (exponent a + 1) \<le> pow2 (exponent x)" using less by (intro pow2_mono) simp
  ultimately show ?thesis by linarith
qed

lemma round_pos_le_representable:
  assumes "0 < x" "a / ulp a \<in> \<int>" "x \<le> a"
  shows "round_pos x \<le> a"
  by (rule round_pos_le [OF multiple_of_finer [OF assms(2) ulp_mono [OF assms(1,3)]] assms(3)])

lemma f64_neg_le: "f64_le (f64_neg x) (f64_neg y) \<longleftrightarrow> f64_le y x"
  by (cases x; cases y) (auto simp: f64_le_def)

lemma f64_neg_neg [simp]: "f64_neg (f64_neg x) = x"
  by (cases x) auto

lemma f64_neg_eq_NaN [simp]: "f64_neg x = NaN \<longleftrightarrow> x = NaN"
  by (cases x) auto

lemma f64_round_neg: "f64_round (- x) = f64_neg (f64_round x)"
  by (auto simp: f64_round_def Let_def)

lemma representable_neg [simp]: "representable (- x) = representable x"
  by (simp add: representable_def)

lemma f64_round_ge:
  assumes "representable a" "a \<le> x"
  shows "f64_le (Fin a) (f64_round x)"
proof (cases "0 < x")
  case True
  have "a \<le> round_pos x"
  proof (cases "0 < a")
    case True
    with assms show ?thesis
      by (intro round_pos_ge_representable) (simp_all add: representable_def)
  next
    case False
    with round_pos_nonneg [OF \<open>0 < x\<close>] show ?thesis by linarith
  qed
  with True show ?thesis by (auto simp: f64_round_def Let_def f64_le_def)
next
  case False
  show ?thesis
  proof (cases "x = 0")
    case True
    with assms show ?thesis by (simp add: f64_round_def)
  next
    case neq: False
    with False have x: "0 < - x" by simp
    have a: "(- a) / ulp (- a) \<in> \<int>" "- a < 2 ^ 1024"
      using assms x by (simp_all add: representable_def)
    have le: "round_pos (- x) \<le> - a"
      by (rule round_pos_le_representable [OF x a(1)]) (use assms in simp)
    then have "round_pos (- x) < 2 ^ 1024" using a(2) by simp
    with le x show ?thesis by (simp add: f64_round_def Let_def del: power_numeral)
  qed
qed

lemma f64_round_le:
  assumes "representable a" "x \<le> a"
  shows "f64_le (f64_round x) (Fin a)"
proof -
  have "f64_le (Fin (- a)) (f64_round (- x))"
    by (rule f64_round_ge) (use assms in simp_all)
  then have "f64_le (f64_neg (Fin a)) (f64_neg (f64_round x))"
    by (simp add: f64_round_neg)
  then show ?thesis by (simp only: f64_neg_le)
qed

lemma f64_round_exact: "representable a \<Longrightarrow> f64_round a = Fin a"
  using f64_round_ge [of a a] f64_round_le [of a a]
  by (cases "f64_round a") (auto simp: f64_le_def)

section \<open>Results are representable\<close>

lemma round_pos_representable:
  assumes "0 < x"
  shows "round_pos x = 0 \<or> round_pos x / ulp (round_pos x) \<in> \<int>"
proof -
  define r where "r = round_pos x"
  have mult: "r / ulp x \<in> \<int>" by (simp add: r_def round_pos_def)
  have "0 \<le> r" unfolding r_def by (rule round_pos_nonneg [OF assms])
  have "r / ulp r \<in> \<int>" if "0 < r"
  proof (cases "ulp r \<le> ulp x")
    case True
    with mult show ?thesis by (rule multiple_of_finer)
  next
    case False
    define b where "b = max (exponent x + 1) (- 1074)"
    have "pow2 b / ulp x \<in> \<int>" unfolding ulp_def by (rule pow2_diff_Ints) (simp add: b_def)
    moreover have "x \<le> pow2 b"
    proof -
      have "x < pow2 (exponent x + 1)" by (rule exponent_bounds(2) [OF assms])
      also have "\<dots> \<le> pow2 b" by (rule pow2_mono) (simp add: b_def)
      finally show ?thesis by simp
    qed
    ultimately have upper: "r \<le> pow2 b" unfolding r_def by (rule round_pos_le)
    have "b \<le> exponent r" using False by (auto simp: ulp_def b_def max_def split: if_splits)
    then have "pow2 b \<le> r"
      using exponent_bounds(1) [OF that] pow2_mono [of b "exponent r"] by linarith
    with upper have r: "r = pow2 b" by simp
    have "exponent r < b + 1" using that by (intro exponent_less) (simp_all add: r pow2_powi power_int_strict_increasing)
    then have "pow2 b / ulp r \<in> \<int>"
      unfolding ulp_def by (intro pow2_diff_Ints) (simp add: b_def)
    with r show ?thesis by simp
  qed
  with \<open>0 \<le> r\<close> show ?thesis by (cases "r = 0") (simp_all flip: r_def)
qed

lemma f64_wf_round [simp]: "f64_wf (f64_round x)"
proof (cases "x = 0")
  case False
  then have "0 < \<bar>x\<bar>" by simp
  from round_pos_representable [OF this] round_pos_nonneg [OF this] False show ?thesis
    by (auto simp: f64_round_def f64_wf_def Let_def representable_def)
qed (simp add: f64_round_def f64_wf_def representable_def)

lemma f64_wf_neg [simp]: "f64_wf (f64_neg x) = f64_wf x"
  by (cases x) (auto simp: f64_wf_def)

lemma f64_wf_add [simp]: "f64_wf (f64_add x y)"
  by (cases x; cases y) (auto simp: f64_wf_def [of NaN] f64_wf_def [of PosInf] f64_wf_def [of NegInf])

lemma f64_wf_sub [simp]: "f64_wf (f64_sub x y)"
  by (simp add: f64_sub_def)

section \<open>What the clients use\<close>

text \<open>Adding a nonnegative amount never decreases, subtracting one never increases.\<close>

lemma f64_add_ge:
  assumes "f64_wf x" "f64_le (Fin 0) d" "f64_add x d \<noteq> NaN"
  shows "f64_le x (f64_add x d)"
  using assms f64_round_ge by (cases x; cases d) (auto simp: f64_wf_def)

lemma f64_sub_le:
  assumes "f64_wf x" "f64_le (Fin 0) d" "f64_sub x d \<noteq> NaN"
  shows "f64_le (f64_sub x d) x"
  using assms f64_round_le by (cases x; cases d) (auto simp: f64_sub_def f64_wf_def)

text \<open>Integers below \<open>2 ^ 53\<close> are exact.\<close>

lemma representable_of_int: "\<bar>n\<bar> < 2 ^ 53 \<Longrightarrow> representable (of_int n)"
proof (cases "n = 0")
  case False
  assume small: "\<bar>n\<bar> < 2 ^ 53"
  define x :: rat where "x = of_int \<bar>n\<bar>"
  have x: "0 < x" "x < pow2 53"
    using False small by (simp_all add: x_def pow2_def)
  then have "exponent x < 53" by (rule exponent_less)
  then have "pow2 0 / ulp x \<in> \<int>" unfolding ulp_def by (intro pow2_diff_Ints) simp
  then have "of_int \<bar>n\<bar> * (pow2 0 / ulp x) \<in> \<int>" by (intro Ints_mult) simp
  then have "x / ulp x \<in> \<int>" by (simp add: pow2_def x_def)
  moreover have "x < 2 ^ 1024"
  proof -
    have "(2 :: rat) ^ 53 \<le> 2 ^ 1024" by (rule power_increasing) simp_all
    moreover have "x < 2 ^ 53" using x(2) by (simp add: pow2_def)
    ultimately show ?thesis by linarith
  qed
  ultimately show ?thesis by (simp add: representable_def x_def)
qed (simp add: representable_def)

lemma f64_round_of_int: "\<bar>n\<bar> < 2 ^ 53 \<Longrightarrow> f64_round (of_int n) = Fin (of_int n)"
  by (simp add: f64_round_exact representable_of_int)

lemma f64_round_numeral [simp]:
  "(numeral k :: int) < 2 ^ 53 \<Longrightarrow> f64_round (numeral k) = Fin (numeral k)"
  "(numeral k :: int) < 2 ^ 53 \<Longrightarrow> f64_round (- numeral k) = Fin (- numeral k)"
  using f64_round_of_int [of "numeral k"] by (simp_all add: f64_round_neg)

lemma representable_numeral [simp]:
  "(numeral k :: int) < 2 ^ 53 \<Longrightarrow> representable (numeral k)"
  using representable_of_int [of "numeral k"] by simp

lemma representable_0 [simp]: "representable 0"
  by (simp add: representable_def)

lemma representable_1 [simp]: "representable 1"
  using representable_of_int [of 1] by simp

section \<open>Fractions and products\<close>

lemma exponent_eqI: "0 < x \<Longrightarrow> pow2 e \<le> x \<Longrightarrow> x < pow2 (e + 1) \<Longrightarrow> exponent x = e"
  using pow2_le_exponent [of e x] exponent_less [of x "e + 1"] by simp

lemma pow2_neg: "pow2 (- int j) = 1 / 2 ^ j"
  by (simp add: pow2_powi power_int_minus divide_inverse)

text \<open>A fraction with a power of two below it and a numerator that fits is representable.\<close>

lemma representable_fraction:
  assumes "pow2 (- int k) \<le> of_int n / 2 ^ m" "of_int n / 2 ^ m < pow2 (1 - int k)"
    and "m \<le> 52 + k" "k \<le> 1000"
  shows "representable (of_int n / 2 ^ m)"
proof -
  let ?x = "of_int n / 2 ^ m :: rat"
  have pos: "0 < ?x" using assms(1) pow2_pos [of "- int k"] by linarith
  have e: "exponent ?x = - int k" by (rule exponent_eqI) (use assms pos in simp_all)
  have u: "ulp ?x = pow2 (- int (52 + k))" using assms(4) by (simp add: ulp_def e)
  have "?x / ulp ?x = of_int n * 2 ^ (52 + k) / 2 ^ m"
    by (simp only: u pow2_neg divide_divide_eq_right div_by_1) simp
  also have "\<dots> = of_int (n * 2 ^ (52 + k - m))"
  proof -
    have "2 ^ (52 + k) = (2 ^ m * 2 ^ (52 + k - m) :: rat)"
      using assms(3) by (simp flip: power_add)
    then show ?thesis by simp
  qed
  finally have "?x / ulp ?x \<in> \<int>" by simp
  moreover have "?x < 2 ^ 1024"
  proof -
    have "pow2 (1 - int k) \<le> pow2 1" by (rule pow2_mono) simp
    then show ?thesis using assms(2) by (simp add: pow2_def)
  qed
  moreover have "\<bar>?x\<bar> = ?x" using pos by (rule abs_of_pos)
  ultimately show ?thesis unfolding representable_def by (simp only:) blast
qed

text \<open>A product of numbers between zero and bounds whose product is at most a representable one.\<close>

lemma f64_mul_bounded:
  assumes "0 \<le> x" "x \<le> a" "0 \<le> y" "y \<le> b" "a * b \<le> c" "representable c"
  obtains z where "f64_mul (Fin x) (Fin y) = Fin z" "0 \<le> z" "z \<le> c"
proof -
  have "x * y \<le> a * b" using assms(1-4) by (intro mult_mono) auto
  then have "x * y \<le> c" using assms(5) by simp
  then have "f64_le (f64_round (x * y)) (Fin c)" using assms(6) by (rule f64_round_le [rotated])
  moreover have "f64_le (Fin 0) (f64_round (x * y))"
    using assms(1,3) by (intro f64_round_ge) simp_all
  ultimately show ?thesis using that by (cases "f64_round (x * y)") auto
qed

end
