(* ===== verification/Actor_Messages.thy ===== *)
theory Actor_Messages
  imports Acl Float64
begin

text \<open>
  The messages between the actors of a node, \<^verbatim>\<open>src/actor/messages.rs\<close>, with the
  generated types of \<^verbatim>\<open>src/proto/fipa.proto\<close> they carry: errors, supervision
  events, restart strategies, configurations and states of agents. The state snapshot of a
  guest (\<open>AgentState\<close> of the protocol buffers) is only handed around by the host, so its type
  is a type variable.
\<close>

section \<open>Errors\<close>

fun protocol_type_as_i32 :: "protocol_type \<Rightarrow> int" where
  "protocol_type_as_i32 ProtocolUnspecified = 0"
| "protocol_type_as_i32 ProtocolRequest = 1"
| "protocol_type_as_i32 ProtocolQuery = 2"
| "protocol_type_as_i32 ProtocolRequestWhen = 3"
| "protocol_type_as_i32 ProtocolContractNet = 4"
| "protocol_type_as_i32 ProtocolIteratedContractNet = 5"
| "protocol_type_as_i32 ProtocolPropose = 6"
| "protocol_type_as_i32 ProtocolBrokering = 7"
| "protocol_type_as_i32 ProtocolRecruiting = 8"
| "protocol_type_as_i32 ProtocolSubscribe = 9"
| "protocol_type_as_i32 ProtocolEnglishAuction = 10"
| "protocol_type_as_i32 ProtocolDutchAuction = 11"

definition protocol_types :: "protocol_type list" where
  "protocol_types =
     [ProtocolUnspecified, ProtocolRequest, ProtocolQuery, ProtocolRequestWhen,
      ProtocolContractNet, ProtocolIteratedContractNet, ProtocolPropose, ProtocolBrokering,
      ProtocolRecruiting, ProtocolSubscribe, ProtocolEnglishAuction, ProtocolDutchAuction]"

definition protocol_type_try_from :: "int \<Rightarrow> protocol_type option" where
  "protocol_type_try_from n = find (\<lambda>p. protocol_type_as_i32 p = n) protocol_types"

lemma protocol_type_try_from_as_i32 [simp]:
  "protocol_type_try_from (protocol_type_as_i32 p) = Some p"
  by (cases p) (simp_all add: protocol_type_try_from_def protocol_types_def)

lemma protocol_type_try_from_iff:
  "protocol_type_try_from n = Some t \<longleftrightarrow> n = protocol_type_as_i32 t"
proof -
  have "t \<in> set protocol_types" by (cases t) (simp_all add: protocol_types_def)
  then show ?thesis
    using protocol_type_try_from_as_i32 [of t]
    by (auto simp: protocol_type_try_from_def find_Some_iff)
qed

lemma protocol_type_try_from_None:
  "protocol_type_try_from n = None \<longleftrightarrow> (\<forall>t. n \<noteq> protocol_type_as_i32 t)"
  using protocol_type_try_from_iff [of n] by (cases "protocol_type_try_from n") auto

fun protocol_type_debug :: "protocol_type \<Rightarrow> string" where
  "protocol_type_debug ProtocolUnspecified = ''ProtocolUnspecified''"
| "protocol_type_debug ProtocolRequest = ''ProtocolRequest''"
| "protocol_type_debug ProtocolQuery = ''ProtocolQuery''"
| "protocol_type_debug ProtocolRequestWhen = ''ProtocolRequestWhen''"
| "protocol_type_debug ProtocolContractNet = ''ProtocolContractNet''"
| "protocol_type_debug ProtocolIteratedContractNet = ''ProtocolIteratedContractNet''"
| "protocol_type_debug ProtocolPropose = ''ProtocolPropose''"
| "protocol_type_debug ProtocolBrokering = ''ProtocolBrokering''"
| "protocol_type_debug ProtocolRecruiting = ''ProtocolRecruiting''"
| "protocol_type_debug ProtocolSubscribe = ''ProtocolSubscribe''"
| "protocol_type_debug ProtocolEnglishAuction = ''ProtocolEnglishAuction''"
| "protocol_type_debug ProtocolDutchAuction = ''ProtocolDutchAuction''"

text \<open>\<open>Display\<close> of a protocol error, as the derive attributes spell it.\<close>

fun protocol_error_to_string :: "protocol_error \<Rightarrow> string" where
  "protocol_error_to_string (InvalidTransition f t) =
     ''Invalid state transition from '' @ f @ '' to '' @ t"
| "protocol_error_to_string (ValidationFailed w) = ''Message validation failed: '' @ w"
| "protocol_error_to_string (NotSupported p) =
     ''Protocol not supported: '' @ protocol_type_debug p"
| "protocol_error_to_string MissingConversationId = ''Missing conversation ID''"
| "protocol_error_to_string (UnknownConversation c) = ''Unknown conversation: '' @ c"
| "protocol_error_to_string protocol_error.Timeout = ''Timeout waiting for response''"
| "protocol_error_to_string Cancelled = ''Protocol cancelled''"
| "protocol_error_to_string (protocol_error.SerializationError w) = ''Serialization error: '' @ w"

datatype agent_error =
    NotFound string
  | ProtocolNotAllowed protocol_type
  | NetworkError string
  | MigrationFailed string
  | RuntimeError string
  | CapabilityDenied string
  | Timeout
  | InvalidState string
  | SerializationError string
  | MailboxError
  | ProtocolError string

definition agent_error_from :: "protocol_error \<Rightarrow> agent_error" where
  "agent_error_from e = ProtocolError (protocol_error_to_string e)"

section \<open>Configurations and states\<close>

record agent_capabilities =
  max_memory_bytes :: u64
  max_execution_time_ms :: u64
  allowed_protocols :: "int list"
  network_access :: int
  storage_quota_bytes :: u64
  migration_allowed :: bool
  spawn_allowed :: bool
  allowed_destinations :: "string list"

text \<open>A \<open>Duration\<close> is a number of nanoseconds.\<close>

type_synonym duration = nat

datatype restart_strategy =
    Immediate
  | Backoff duration duration f64
  | MaxFailures u32 duration
  | Never

definition nanos_per_sec :: nat where
  "nanos_per_sec = 1000000000"

definition restart_strategy_default :: restart_strategy where
  "restart_strategy_default = Backoff (1 * nanos_per_sec) (60 * nanos_per_sec) (Fin 2)"

record 'st agent_config =
  ac_id :: agent_id
  ac_wasm_module :: bytes
  ac_capabilities :: agent_capabilities
  ac_initial_state :: "'st option"
  ac_restart_strategy :: restart_strategy

datatype agent_runtime_state =
  Starting | Running | Paused | Migrating | Stopping | Stopped | Failed

datatype shutdown_reason =
  Requested | Migration | NodeShutdown | ErrorReason string | TimeoutReason

datatype supervision_event_type =
    EvStarted
  | EvStopped
  | EvFailed string bool
  | EvMigrated string string
  | EvRecovered

record agent_info =
  ai_agent_id :: agent_id
  ai_state :: agent_runtime_state
  ai_restart_count :: u32
  ai_last_error :: "string option"

record 'st agent_snapshot =
  sn_agent_id :: agent_id
  sn_wasm_module :: bytes
  sn_wasm_hash :: bytes
  sn_state :: 'st
  sn_capabilities :: agent_capabilities
  sn_migration_history :: "string list"

text \<open>The hash function is a parameter: SHA-256 is a library of the program.\<close>

definition snapshot_compute_hash ::
  "(bytes \<Rightarrow> bytes) \<Rightarrow> ('st \<Rightarrow> bytes) \<Rightarrow> 'st agent_snapshot \<Rightarrow> bytes" where
  "snapshot_compute_hash sha256 memory_of sn = sha256 (sn_wasm_module sn @ memory_of (sn_state sn))"

record agent_status =
  st_agent_id :: agent_id
  st_state :: agent_runtime_state
  st_active_conversations :: usize
  st_messages_processed :: u64
  st_uptime_secs :: u64
  st_memory_used :: usize

end
