(* ===== verification/Agent_Actor.thy ===== *)
theory Agent_Actor
  imports Machine_Factory Actor_Messages
begin

text \<open>
  The actor that hosts one WASM agent, \<^verbatim>\<open>src/actor/agent_actor.rs\<close>: its mailbox,
  the protocol conversations it keeps, the content verifier in front of the guest, its life
  cycle and the messages it sends to other actors.

  The guest runs in a WASM engine on code the repository does not hold, so the engine's entry
  points are a parameter (\<open>runtime_ops\<close>, total functions on an abstract instance), as are the
  content verifier and the outbound packager, which the code reaches through trait objects.
  Actor messages sent with \<open>do_send\<close> are appended to \<open>aa_effects\<close> in the order of the calls.
  A fresh UUID and the clock reading that one call uses are its argument \<open>env\<close>.
\<close>

section \<open>State\<close>

record decoded =
  de_unl :: bytes
  de_body :: bytes

record outbound_intent =
  oi_receiver :: string
  oi_unl :: bytes
  oi_body :: bytes

record ('w, 'st) runtime_ops =
  call_init :: "'w \<Rightarrow> (string + unit) \<times> 'w"
  call_run :: "'w \<Rightarrow> (string + bool) \<times> 'w"
  call_shutdown :: "'w \<Rightarrow> (string + unit) \<times> 'w"
  handle_message :: "acl_message \<Rightarrow> 'w \<Rightarrow> (string + bool) \<times> 'w"
  call_config :: "bytes \<Rightarrow> bytes \<Rightarrow> 'w \<Rightarrow> (string + unit) \<times> 'w"
  take_unl_sends :: "'w \<Rightarrow> outbound_intent list \<times> 'w"
  runtime_capture_state :: "'w \<Rightarrow> (string + 'st) \<times> 'w"
  get_module_bytes :: "'w \<Rightarrow> bytes"
  memory_size :: "'w \<Rightarrow> usize"

type_synonym sanitizer = "acl_message \<Rightarrow> string + decoded option"
type_synonym packager = "string \<Rightarrow> string \<Rightarrow> bytes \<Rightarrow> bytes \<Rightarrow> string + acl_message"
type_synonym env = "string \<times> timestamp"

datatype actor_effect =
    DeliverViaSupervisor acl_message
  | SendRemoteMessage string acl_message
  | NotifySupervisor agent_id supervision_event_type
  | RegisterActor agent_id
  | DeregisterActor agent_id
  | StopContext

record agent_stats =
  messages_received :: u64
  messages_sent :: u64
  conversations_started :: u64
  conversations_completed :: u64
  errors :: u64

record 'w agent_actor =
  aa_agent_id :: agent_id
  aa_runtime :: 'w
  aa_conversations :: "(string, boxed_machine) hashmap"
  aa_mailbox :: "acl_message list"
  aa_capabilities :: agent_capabilities
  aa_supervisor :: bool
  aa_network :: bool
  aa_registry :: bool
  aa_verifier :: "sanitizer option"
  aa_outbound :: "packager option"
  aa_seed_unl :: bytes
  aa_seed_data :: bytes
  aa_state :: agent_runtime_state
  aa_stats :: agent_stats
  aa_effects :: "actor_effect list"

definition agent_stats_default :: agent_stats where
  "agent_stats_default =
     \<lparr>messages_received = 0, messages_sent = 0, conversations_started = 0,
      conversations_completed = 0, errors = 0\<rparr>"

definition actor_new :: "'st agent_config \<Rightarrow> 'w \<Rightarrow> 'w agent_actor" where
  "actor_new config runtime =
     \<lparr>aa_agent_id = ac_id config, aa_runtime = runtime, aa_conversations = [], aa_mailbox = [],
      aa_capabilities = ac_capabilities config, aa_supervisor = False, aa_network = False,
      aa_registry = False, aa_verifier = None, aa_outbound = None, aa_seed_unl = [],
      aa_seed_data = [], aa_state = Starting, aa_stats = agent_stats_default, aa_effects = []\<rparr>"

definition actor_with_supervisor :: "'w agent_actor \<Rightarrow> 'w agent_actor" where
  "actor_with_supervisor s = s\<lparr>aa_supervisor := True\<rparr>"

definition actor_with_network :: "'w agent_actor \<Rightarrow> 'w agent_actor" where
  "actor_with_network s = s\<lparr>aa_network := True\<rparr>"

definition actor_with_registry :: "'w agent_actor \<Rightarrow> 'w agent_actor" where
  "actor_with_registry s = s\<lparr>aa_registry := True\<rparr>"

definition actor_with_content_verifier :: "sanitizer \<Rightarrow> 'w agent_actor \<Rightarrow> 'w agent_actor" where
  "actor_with_content_verifier v s = s\<lparr>aa_verifier := Some v\<rparr>"

definition actor_with_outbound_packager :: "packager \<Rightarrow> 'w agent_actor \<Rightarrow> 'w agent_actor" where
  "actor_with_outbound_packager p s = s\<lparr>aa_outbound := Some p\<rparr>"

definition actor_with_seed :: "bytes \<Rightarrow> bytes \<Rightarrow> 'w agent_actor \<Rightarrow> 'w agent_actor" where
  "actor_with_seed unl data s = s\<lparr>aa_seed_unl := unl, aa_seed_data := data\<rparr>"

lemmas actor_builder_defs =
  actor_with_supervisor_def actor_with_network_def actor_with_registry_def
  actor_with_content_verifier_def actor_with_outbound_packager_def actor_with_seed_def

section \<open>Sending\<close>

definition emit :: "actor_effect \<Rightarrow> 'w agent_actor \<Rightarrow> 'w agent_actor" where
  "emit e s = s\<lparr>aa_effects := aa_effects s @ [e]\<rparr>"

definition count_sent :: "'w agent_actor \<Rightarrow> 'w agent_actor" where
  "count_sent s = s\<lparr>aa_stats := (aa_stats s)\<lparr>messages_sent := messages_sent (aa_stats s) + 1\<rparr>\<rparr>"

definition count_error :: "'w agent_actor \<Rightarrow> 'w agent_actor" where
  "count_error s = s\<lparr>aa_stats := (aa_stats s)\<lparr>errors := errors (aa_stats s) + 1\<rparr>\<rparr>"

definition notify_supervisor :: "supervision_event_type \<Rightarrow> 'w agent_actor \<Rightarrow> 'w agent_actor" where
  "notify_supervisor ev s =
     (if aa_supervisor s then emit (NotifySupervisor (aa_agent_id s) ev) s else s)"

definition send_message ::
  "acl_message \<Rightarrow> 'w agent_actor \<Rightarrow> (agent_error + unit) \<times> 'w agent_actor" where
  "send_message m s =
     (Inr (),
      if aa_supervisor s then count_sent (emit (DeliverViaSupervisor m) s)
      else if aa_network s then
        count_sent (fold (\<lambda>_. emit (SendRemoteMessage [] m)) (receivers m) s)
      else s)"

text \<open>The intents are taken from the runtime first and then packaged one by one.\<close>

fun send_packaged :: "packager \<Rightarrow> outbound_intent list \<Rightarrow> 'w agent_actor \<Rightarrow> 'w agent_actor" where
  "send_packaged pack [] s = s"
| "send_packaged pack (i # is) s =
     (case pack (name (aa_agent_id s)) (oi_receiver i) (oi_unl i) (oi_body i) of
        Inr m \<Rightarrow> send_packaged pack is (snd (send_message m s))
      | Inl _ \<Rightarrow> send_packaged pack is s)"

definition flush_outbound :: "('w, 'st) runtime_ops \<Rightarrow> 'w agent_actor \<Rightarrow> 'w agent_actor" where
  "flush_outbound ops s =
     (case aa_outbound s of
        None \<Rightarrow> s
      | Some pack \<Rightarrow>
          (let (is, w) = take_unl_sends ops (aa_runtime s)
           in send_packaged pack is (s\<lparr>aa_runtime := w\<rparr>)))"

text \<open>\<^verbatim>\<open>src/content/verify.rs\<close>: the reply to content that could not be vetted.\<close>

definition not_understood :: "string \<Rightarrow> acl_message \<Rightarrow> string \<Rightarrow> acl_message" where
  "not_understood uuid m from =
     \<lparr>message_id = ''nu-'' @ uuid,
      performative = performative_as_i32 NotUnderstood,
      sender = Some \<lparr>name = from, addresses = [], resolvers = []\<rparr>,
      receivers = (case sender m of None \<Rightarrow> [] | Some a \<Rightarrow> [a]),
      reply_to = None, protocol = protocol m, conversation_id = conversation_id m,
      in_reply_to = reply_with m, reply_with = None, reply_by = None, language = None,
      encoding = None, ontology = None, content = [], user_properties = []\<rparr>"

section \<open>Handling one message\<close>

definition handle_protocol_result ::
  "process_result \<Rightarrow> 'w agent_actor \<Rightarrow> (agent_error + unit) \<times> 'w agent_actor" where
  "handle_protocol_result r s =
     (case r of
        Continue \<Rightarrow> (Inr (), s)
      | Respond m \<Rightarrow> send_message m s
      | Complete _ \<Rightarrow>
          (Inr (), s\<lparr>aa_stats := (aa_stats s)\<lparr>conversations_completed :=
             conversations_completed (aa_stats s) + 1\<rparr>\<rparr>)
      | process_result.Failed _ \<Rightarrow> (Inr (), count_error s))"

text \<open>The raw path: the message goes to the guest.\<close>

definition deliver_raw ::
  "('w, 'st) runtime_ops \<Rightarrow> acl_message \<Rightarrow> 'w agent_actor \<Rightarrow>
   (agent_error + unit) \<times> 'w agent_actor" where
  "deliver_raw ops m s =
     (let (r, w) = handle_message ops m (aa_runtime s)
      in (case r of Inl e \<Rightarrow> Inl (RuntimeError e) | Inr _ \<Rightarrow> Inr (), s\<lparr>aa_runtime := w\<rparr>))"

text \<open>An existing conversation takes the message; otherwise it goes to the guest.\<close>

definition route_message ::
  "('w, 'st) runtime_ops \<Rightarrow> env \<Rightarrow> acl_message \<Rightarrow> 'w agent_actor \<Rightarrow>
   (agent_error + unit) \<times> 'w agent_actor" where
  "route_message ops env m s =
     (case conversation_id m of
        None \<Rightarrow> deliver_raw ops m s
      | Some c \<Rightarrow>
          (case hm_get (aa_conversations s) c of
             None \<Rightarrow> deliver_raw ops m s
           | Some b \<Rightarrow>
               (let (r, b') = boxed_process (snd env) m b;
                    s' = s\<lparr>aa_conversations := hm_insert c b' (aa_conversations s)\<rparr>
                in case r of
                     Inl e \<Rightarrow> (Inl (agent_error_from e), s')
                   | Inr a \<Rightarrow> handle_protocol_result a s')))"

definition handle_acl_message ::
  "('w, 'st) runtime_ops \<Rightarrow> env \<Rightarrow> acl_message \<Rightarrow> 'w agent_actor \<Rightarrow>
   (agent_error + unit) \<times> 'w agent_actor" where
  "handle_acl_message ops env m s0 =
     (let s = s0\<lparr>aa_stats := (aa_stats s0)\<lparr>messages_received :=
                messages_received (aa_stats s0) + 1\<rparr>\<rparr>
      in case aa_verifier s of
           None \<Rightarrow> route_message ops env m s
         | Some sanitize \<Rightarrow>
             (case sanitize m of
                Inl reason \<Rightarrow>
                  send_message (not_understood (fst env) m (name (aa_agent_id s))) s
              | Inr (Some d) \<Rightarrow>
                  (let (r, w) = call_config ops (de_unl d) (de_body d) (aa_runtime s);
                       s1 = s\<lparr>aa_runtime := w\<rparr>;
                       s2 = (case r of Inl _ \<Rightarrow> count_error s1 | Inr _ \<Rightarrow> s1)
                   in (Inr (), flush_outbound ops s2))
              | Inr None \<Rightarrow> route_message ops env m s))"

section \<open>Frame lemmas\<close>

named_theorems actor_frame \<open>what an operation of the actor leaves alone\<close>

lemmas actor_update_defs = emit_def count_sent_def count_error_def

lemma fold_emit [actor_frame]:
  "fold (\<lambda>_. emit e) xs s = s\<lparr>aa_effects := aa_effects s @ replicate (length xs) e\<rparr>"
  by (induction xs arbitrary: s) (simp_all add: emit_def replicate_app_Cons_same)

lemma send_message_frame [actor_frame]:
  "aa_mailbox (snd (send_message m s)) = aa_mailbox s"
  "aa_conversations (snd (send_message m s)) = aa_conversations s"
  "aa_runtime (snd (send_message m s)) = aa_runtime s"
  "aa_agent_id (snd (send_message m s)) = aa_agent_id s"
  "aa_state (snd (send_message m s)) = aa_state s"
  "aa_verifier (snd (send_message m s)) = aa_verifier s"
  "aa_supervisor (snd (send_message m s)) = aa_supervisor s"
  by (simp_all add: send_message_def actor_update_defs fold_emit)

lemma send_packaged_frame [actor_frame]:
  "aa_mailbox (send_packaged pack is s) = aa_mailbox s"
  "aa_conversations (send_packaged pack is s) = aa_conversations s"
  "aa_runtime (send_packaged pack is s) = aa_runtime s"
  "aa_agent_id (send_packaged pack is s) = aa_agent_id s"
  "aa_state (send_packaged pack is s) = aa_state s"
  "aa_verifier (send_packaged pack is s) = aa_verifier s"
  "aa_supervisor (send_packaged pack is s) = aa_supervisor s"
  by (induction pack "is" s rule: send_packaged.induct) (simp_all add: actor_frame split: sum.splits)

lemma flush_outbound_frame [actor_frame]:
  "aa_mailbox (flush_outbound ops s) = aa_mailbox s"
  "aa_conversations (flush_outbound ops s) = aa_conversations s"
  "aa_agent_id (flush_outbound ops s) = aa_agent_id s"
  "aa_state (flush_outbound ops s) = aa_state s"
  "aa_verifier (flush_outbound ops s) = aa_verifier s"
  "aa_supervisor (flush_outbound ops s) = aa_supervisor s"
  by (simp_all add: flush_outbound_def actor_frame split: option.splits prod.splits)

lemma handle_protocol_result_frame [actor_frame]:
  "aa_mailbox (snd (handle_protocol_result r s)) = aa_mailbox s"
  "aa_conversations (snd (handle_protocol_result r s)) = aa_conversations s"
  "aa_runtime (snd (handle_protocol_result r s)) = aa_runtime s"
  "aa_agent_id (snd (handle_protocol_result r s)) = aa_agent_id s"
  "aa_state (snd (handle_protocol_result r s)) = aa_state s"
  "aa_verifier (snd (handle_protocol_result r s)) = aa_verifier s"
  "aa_supervisor (snd (handle_protocol_result r s)) = aa_supervisor s"
  by (simp_all add: handle_protocol_result_def actor_frame actor_update_defs
      split: process_result.splits)

lemma deliver_raw_frame [actor_frame]:
  "aa_mailbox (snd (deliver_raw ops m s)) = aa_mailbox s"
  "aa_conversations (snd (deliver_raw ops m s)) = aa_conversations s"
  "aa_agent_id (snd (deliver_raw ops m s)) = aa_agent_id s"
  "aa_state (snd (deliver_raw ops m s)) = aa_state s"
  "aa_verifier (snd (deliver_raw ops m s)) = aa_verifier s"
  "aa_supervisor (snd (deliver_raw ops m s)) = aa_supervisor s"
  by (simp_all add: deliver_raw_def split: prod.splits)

lemma route_message_frame [actor_frame]:
  "aa_mailbox (snd (route_message ops env m s)) = aa_mailbox s"
  "aa_agent_id (snd (route_message ops env m s)) = aa_agent_id s"
  "aa_state (snd (route_message ops env m s)) = aa_state s"
  "aa_verifier (snd (route_message ops env m s)) = aa_verifier s"
  "aa_supervisor (snd (route_message ops env m s)) = aa_supervisor s"
  by (simp_all add: route_message_def Let_def actor_frame
      split: option.splits prod.splits sum.splits)

lemma handle_acl_message_frame [actor_frame]:
  "aa_mailbox (snd (handle_acl_message ops env m s)) = aa_mailbox s"
  "aa_agent_id (snd (handle_acl_message ops env m s)) = aa_agent_id s"
  "aa_state (snd (handle_acl_message ops env m s)) = aa_state s"
  "aa_verifier (snd (handle_acl_message ops env m s)) = aa_verifier s"
  "aa_supervisor (snd (handle_acl_message ops env m s)) = aa_supervisor s"
  by (simp_all add: handle_acl_message_def Let_def actor_frame count_error_def
      split: option.splits prod.splits sum.splits)

section \<open>The mailbox\<close>

text \<open>
  The loop pops one message at a time; handling a message never queues another one on this
  actor, so it ends after as many rounds as there are messages. Call \<open>k\<close> of the loop uses the
  environment \<open>env k\<close>.
\<close>

function process_mailbox ::
  "('w, 'st) runtime_ops \<Rightarrow> (nat \<Rightarrow> env) \<Rightarrow> 'w agent_actor \<Rightarrow> 'w agent_actor" where
  "process_mailbox ops env s =
     (case aa_mailbox s of
        [] \<Rightarrow> s
      | m # ms \<Rightarrow>
          (let (r, s') = handle_acl_message ops (env 0) m (s\<lparr>aa_mailbox := ms\<rparr>)
           in process_mailbox ops (\<lambda>k. env (Suc k))
                (case r of Inl _ \<Rightarrow> count_error s' | Inr _ \<Rightarrow> s')))"
  by pat_completeness auto

lemma mailbox_after_handle:
  "handle_acl_message ops e m s = (r, s') \<Longrightarrow> aa_mailbox s' = aa_mailbox s"
  using handle_acl_message_frame(1) [of ops e m s] by simp

termination process_mailbox
proof (relation "measure (\<lambda>(ops, env, s). length (aa_mailbox s))", goal_cases)
  case (2 ops env s m ms x r s')
  then have "aa_mailbox s' = ms" using mailbox_after_handle [of ops "env 0" m _ r s'] by simp
  with 2 show ?case by (auto simp: count_error_def split: sum.splits)
qed simp

declare process_mailbox.simps [simp del]

text \<open>Handling the messages one after the other, with the errors counted.\<close>

fun handle_all ::
  "('w, 'st) runtime_ops \<Rightarrow> (nat \<Rightarrow> env) \<Rightarrow> acl_message list \<Rightarrow> 'w agent_actor \<Rightarrow> 'w agent_actor" where
  "handle_all ops env [] s = s"
| "handle_all ops env (m # ms) s =
     (let (r, s') = handle_acl_message ops (env 0) m s
      in handle_all ops (\<lambda>k. env (Suc k)) ms (case r of Inl _ \<Rightarrow> count_error s' | Inr _ \<Rightarrow> s'))"

section \<open>Message handlers and life cycle\<close>

text \<open>\<open>Handler<DeliverMessage>\<close>: only a protocol the enumeration knows can be refused.\<close>

definition actor_deliver ::
  "acl_message \<Rightarrow> 'w agent_actor \<Rightarrow> (agent_error + unit) \<times> 'w agent_actor" where
  "actor_deliver m s =
     (let queue = (Inr (), s\<lparr>aa_mailbox := aa_mailbox s @ [m]\<rparr>)
      in case protocol m of
           None \<Rightarrow> queue
         | Some p \<Rightarrow>
             if p \<notin> set (allowed_protocols (aa_capabilities s)) then
               (case protocol_type_try_from p of
                  Some t \<Rightarrow> (Inl (ProtocolNotAllowed t), s)
                | None \<Rightarrow> queue)
             else queue)"

definition start_conversation ::
  "string \<Rightarrow> env \<Rightarrow> protocol_type \<Rightarrow> 'w agent_actor \<Rightarrow> (agent_error + string) \<times> 'w agent_actor"
  where
  "start_conversation conv_id env p s =
     (case create_state_machine (fst env) (snd env) p of
        Inl e \<Rightarrow> (Inl (InvalidState (protocol_error_to_string e)), s)
      | Inr b \<Rightarrow>
          (Inr conv_id,
           s\<lparr>aa_conversations := hm_insert conv_id b (aa_conversations s),
             aa_stats := (aa_stats s)\<lparr>conversations_started :=
               conversations_started (aa_stats s) + 1\<rparr>\<rparr>))"

definition actor_started :: "('w, 'st) runtime_ops \<Rightarrow> 'w agent_actor \<Rightarrow> 'w agent_actor" where
  "actor_started ops s =
     (let (r, w) = call_init ops (aa_runtime s); s1 = s\<lparr>aa_runtime := w\<rparr>
      in case r of
           Inr _ \<Rightarrow>
             (let s2 = s1\<lparr>aa_state := Running\<rparr>;
                  s3 = (if aa_seed_unl s2 \<noteq> [] \<or> aa_seed_data s2 \<noteq> [] then
                          s2\<lparr>aa_runtime :=
                             snd (call_config ops (aa_seed_unl s2) (aa_seed_data s2) (aa_runtime s2))\<rparr>
                        else s2);
                  s4 = notify_supervisor EvStarted s3
              in if aa_registry s4 then emit (RegisterActor (aa_agent_id s4)) s4 else s4)
         | Inl e \<Rightarrow>
             emit StopContext (notify_supervisor (EvFailed e True) (s1\<lparr>aa_state := Failed\<rparr>)))"

text \<open>The closure of the 10 ms interval.\<close>

definition actor_tick ::
  "('w, 'st) runtime_ops \<Rightarrow> (nat \<Rightarrow> env) \<Rightarrow> 'w agent_actor \<Rightarrow> 'w agent_actor" where
  "actor_tick ops env s =
     (if aa_state s \<noteq> Running then s
      else
        (let s1 = process_mailbox ops env s;
             (r, w) = call_run ops (aa_runtime s1);
             s2 = s1\<lparr>aa_runtime := w\<rparr>
         in case r of
              Inr True \<Rightarrow> s2
            | Inr False \<Rightarrow> emit StopContext s2
            | Inl _ \<Rightarrow> count_error s2))"

definition actor_stopping :: "('w, 'st) runtime_ops \<Rightarrow> 'w agent_actor \<Rightarrow> 'w agent_actor" where
  "actor_stopping ops s =
     (let s1 = s\<lparr>aa_state := Stopping\<rparr>;
          s2 = s1\<lparr>aa_runtime := snd (call_shutdown ops (aa_runtime s1))\<rparr>;
          s3 = (if aa_registry s2 then emit (DeregisterActor (aa_agent_id s2)) s2 else s2)
      in notify_supervisor EvStopped s3)"

definition actor_stopped :: "'w agent_actor \<Rightarrow> 'w agent_actor" where
  "actor_stopped s = s\<lparr>aa_state := Stopped\<rparr>"

definition actor_shutdown :: "'w agent_actor \<Rightarrow> 'w agent_actor" where
  "actor_shutdown s = emit StopContext s"

text \<open>The hash function is a parameter: SHA-256 is a library of the program.\<close>

definition capture_state ::
  "(bytes \<Rightarrow> bytes) \<Rightarrow> ('w, 'st) runtime_ops \<Rightarrow> 'w agent_actor \<Rightarrow>
   (agent_error + 'st agent_snapshot) \<times> 'w agent_actor" where
  "capture_state sha256 ops s =
     (let (r, w) = runtime_capture_state ops (aa_runtime s); s' = s\<lparr>aa_runtime := w\<rparr>
      in case r of
           Inl e \<Rightarrow> (Inl (RuntimeError e), s')
         | Inr st \<Rightarrow>
             (Inr \<lparr>sn_agent_id = aa_agent_id s', sn_wasm_module = get_module_bytes ops w,
                   sn_wasm_hash = sha256 (get_module_bytes ops w), sn_state = st,
                   sn_capabilities = aa_capabilities s', sn_migration_history = []\<rparr>, s'))"

text \<open>
  \<open>Handler<MigrateTo>\<close> has two parts: the synchronous one captures the state, and the future it
  returns completes later, with other messages in between. The migration package the future
  builds is dropped: the line that would send it is commented out.
\<close>

definition migrate_begin ::
  "(bytes \<Rightarrow> bytes) \<Rightarrow> ('w, 'st) runtime_ops \<Rightarrow> 'w agent_actor \<Rightarrow>
   (agent_error + 'st agent_snapshot) \<times> 'w agent_actor" where
  "migrate_begin sha256 ops s =
     (case capture_state sha256 ops (s\<lparr>aa_state := Migrating\<rparr>) of
        (Inl e, s') \<Rightarrow> (Inl e, s'\<lparr>aa_state := Running\<rparr>)
      | (Inr sn, s') \<Rightarrow> (Inr sn, s'))"

definition migrate_finish ::
  "bool \<Rightarrow> string \<Rightarrow> 'w agent_actor \<Rightarrow> (agent_error + unit) \<times> 'w agent_actor" where
  "migrate_finish had_network target s =
     (if had_network then
        (Inr (), emit StopContext (notify_supervisor (EvMigrated ''local'' target) s))
      else (Inl (NetworkError ''No network available''), s\<lparr>aa_state := Running\<rparr>))"

text \<open>\<open>Handler<RegisterService>\<close> only logs.\<close>

definition actor_register_service ::
  "string \<Rightarrow> 'w agent_actor \<Rightarrow> (agent_error + unit) \<times> 'w agent_actor" where
  "actor_register_service service s = (Inr (), s)"

definition get_status :: "('w, 'st) runtime_ops \<Rightarrow> u64 \<Rightarrow> 'w agent_actor \<Rightarrow> agent_status" where
  "get_status ops uptime s =
     \<lparr>st_agent_id = aa_agent_id s, st_state = aa_state s,
      st_active_conversations = of_nat (length (aa_conversations s)),
      st_messages_processed = messages_received (aa_stats s), st_uptime_secs = uptime,
      st_memory_used = memory_size ops (aa_runtime s)\<rparr>"

section \<open>The mailbox loop is the fold of the handler\<close>

lemma with_mailbox_simps [simp]:
  "count_error (s\<lparr>aa_mailbox := q\<rparr>) = (count_error s)\<lparr>aa_mailbox := q\<rparr>"
  "count_sent (s\<lparr>aa_mailbox := q\<rparr>) = (count_sent s)\<lparr>aa_mailbox := q\<rparr>"
  "emit e (s\<lparr>aa_mailbox := q\<rparr>) = (emit e s)\<lparr>aa_mailbox := q\<rparr>"
  by (simp_all add: actor_update_defs)

lemma send_message_mailbox:
  "send_message m (s\<lparr>aa_mailbox := q\<rparr>) = map_prod id (aa_mailbox_update (\<lambda>_. q)) (send_message m s)"
  by (simp add: send_message_def fold_emit actor_update_defs)

lemma send_packaged_mailbox:
  "send_packaged pack is (s\<lparr>aa_mailbox := q\<rparr>) = (send_packaged pack is s)\<lparr>aa_mailbox := q\<rparr>"
  by (induction pack "is" s rule: send_packaged.induct)
    (simp_all add: send_message_mailbox split: sum.splits)

lemma flush_outbound_mailbox:
  "flush_outbound ops (s\<lparr>aa_mailbox := q\<rparr>) = (flush_outbound ops s)\<lparr>aa_mailbox := q\<rparr>"
proof -
  have c: "s\<lparr>aa_mailbox := q, aa_runtime := w\<rparr> = (s\<lparr>aa_runtime := w\<rparr>)\<lparr>aa_mailbox := q\<rparr>" for w
    by simp
  show ?thesis
    by (simp add: flush_outbound_def c send_packaged_mailbox split: option.splits prod.splits)
qed

lemma handle_protocol_result_mailbox:
  "handle_protocol_result r (s\<lparr>aa_mailbox := q\<rparr>) =
     map_prod id (aa_mailbox_update (\<lambda>_. q)) (handle_protocol_result r s)"
  by (simp add: handle_protocol_result_def send_message_mailbox split: process_result.splits)

lemma deliver_raw_mailbox:
  "deliver_raw ops m (s\<lparr>aa_mailbox := q\<rparr>) =
     map_prod id (aa_mailbox_update (\<lambda>_. q)) (deliver_raw ops m s)"
  by (simp add: deliver_raw_def split: prod.splits)

lemma route_message_mailbox:
  "route_message ops env m (s\<lparr>aa_mailbox := q\<rparr>) =
     map_prod id (aa_mailbox_update (\<lambda>_. q)) (route_message ops env m s)"
proof -
  have c: "s\<lparr>aa_mailbox := q, aa_conversations := cs\<rparr> = (s\<lparr>aa_conversations := cs\<rparr>)\<lparr>aa_mailbox := q\<rparr>"
    for cs by simp
  show ?thesis
    by (simp add: route_message_def deliver_raw_mailbox Let_def c handle_protocol_result_mailbox
        del: agent_actor.update_convs split: option.splits prod.splits sum.splits)
qed

lemma handle_acl_message_mailbox:
  "handle_acl_message ops env m (s\<lparr>aa_mailbox := q\<rparr>) =
     map_prod id (aa_mailbox_update (\<lambda>_. q)) (handle_acl_message ops env m s)"
proof -
  have c: "s\<lparr>aa_mailbox := q, aa_stats := t\<rparr> = (s\<lparr>aa_stats := t\<rparr>)\<lparr>aa_mailbox := q\<rparr>"
    "s'\<lparr>aa_mailbox := q, aa_runtime := w\<rparr> = (s'\<lparr>aa_runtime := w\<rparr>)\<lparr>aa_mailbox := q\<rparr>" for t s' w
    by simp_all
  show ?thesis
    by (simp add: handle_acl_message_def Let_def c route_message_mailbox send_message_mailbox
        flush_outbound_mailbox del: agent_actor.update_convs
        split: option.splits prod.splits sum.splits)
qed

lemma process_mailbox_empty [simp]: "aa_mailbox s = [] \<Longrightarrow> process_mailbox ops env s = s"
  by (simp add: process_mailbox.simps)

lemma process_mailbox_handle_all:
  "process_mailbox ops env s = handle_all ops env (aa_mailbox s) (s\<lparr>aa_mailbox := []\<rparr>)"
proof (induction ops env s rule: process_mailbox.induct)
  case (1 ops env s)
  show ?case
  proof (cases "aa_mailbox s")
    case Nil
    then show ?thesis by simp
  next
    case (Cons m ms)
    obtain r s' where h: "handle_acl_message ops (env 0) m (s\<lparr>aa_mailbox := []\<rparr>) = (r, s')"
      by fastforce
    then have h': "handle_acl_message ops (env 0) m (s\<lparr>aa_mailbox := ms\<rparr>) =
        (r, s'\<lparr>aa_mailbox := ms\<rparr>)"
      using handle_acl_message_mailbox [where s = "s\<lparr>aa_mailbox := []\<rparr>" and q = ms
          and ops = ops and env = "env 0" and m = m] by simp
    have e: "s'\<lparr>aa_mailbox := []\<rparr> = s'" "(count_error s')\<lparr>aa_mailbox := []\<rparr> = count_error s'"
      using mailbox_after_handle [OF h] by (simp_all add: count_error_def)
    have m: "aa_mailbox (count_error s') = aa_mailbox s'" by (simp add: count_error_def)
    from 1 [OF Cons refl h' [symmetric]] Cons h h' e m show ?thesis
      by (cases r) (simp_all add: process_mailbox.simps [of ops env s])
  qed
qed

lemma handle_all_mailbox [actor_frame]: "aa_mailbox (handle_all ops env ms s) = aa_mailbox s"
  by (induction ops env ms s rule: handle_all.induct)
    (auto simp: Let_def count_error_def mailbox_after_handle split: prod.splits sum.splits)

section \<open>The actor as a transition system\<close>

text \<open>
  Every event the actor context can deliver, with the outside world's choices as arguments. The
  second part of a migration comes later than the first, with other events in between; the
  relation lets it come at any time. The handlers of \<open>CaptureState\<close> and \<open>GetStatus\<close> only read.
\<close>

inductive actor_step ::
  "(bytes \<Rightarrow> bytes) \<Rightarrow> ('w, 'st) runtime_ops \<Rightarrow> 'w agent_actor \<Rightarrow> 'w agent_actor \<Rightarrow> bool"
  for sha256 ops where
  deliver: "actor_step sha256 ops s (snd (actor_deliver m s))"
| converse: "actor_step sha256 ops s (snd (start_conversation c env p s))"
| start: "actor_step sha256 ops s (actor_started ops s)"
| tick: "actor_step sha256 ops s (actor_tick ops envs s)"
| capture: "actor_step sha256 ops s (snd (capture_state sha256 ops s))"
| migrate: "actor_step sha256 ops s (snd (migrate_begin sha256 ops s))"
| migrated: "actor_step sha256 ops s (snd (migrate_finish n target s))"
| shutdown: "actor_step sha256 ops s (actor_shutdown s)"
| stopping: "actor_step sha256 ops s (actor_stopping ops s)"
| stopped: "actor_step sha256 ops s (actor_stopped s)"

inductive actor_reachable ::
  "(bytes \<Rightarrow> bytes) \<Rightarrow> ('w, 'st) runtime_ops \<Rightarrow> 'w agent_actor \<Rightarrow> 'w agent_actor \<Rightarrow> bool"
  for sha256 ops s0 where
  initial: "actor_reachable sha256 ops s0 s0"
| later: "actor_reachable sha256 ops s0 s \<Longrightarrow> actor_step sha256 ops s s' \<Longrightarrow>
    actor_reachable sha256 ops s0 s'"

text \<open>
  A conversation of the map is always a machine of the factory that has processed messages of
  that conversation only.
\<close>

definition conversation_run :: "string \<Rightarrow> boxed_machine \<Rightarrow> bool" where
  "conversation_run c b \<longleftrightarrow>
     (\<exists>uuid t p b0 ms. create_state_machine uuid t p = Inr b0 \<and> b = run boxed_process b0 ms
        \<and> (\<forall>(now, m) \<in> set ms. conversation_id m = Some c))"

definition conversations_ok :: "'w agent_actor \<Rightarrow> bool" where
  "conversations_ok s \<longleftrightarrow>
     (\<forall>c b. hm_get (aa_conversations s) c = Some b \<longrightarrow> conversation_run c b)"

lemma conversation_run_new:
  "create_state_machine uuid t p = Inr b \<Longrightarrow> conversation_run c b"
  unfolding conversation_run_def by (intro exI [of _ "[]"] exI conjI) auto

lemma conversation_run_step:
  assumes "conversation_run c b" "conversation_id m = Some c"
  shows "conversation_run c (snd (boxed_process now m b))"
proof -
  from assms(1) obtain uuid t p b0 ms where "create_state_machine uuid t p = Inr b0"
    "b = run boxed_process b0 ms" "\<forall>(now, m) \<in> set ms. conversation_id m = Some c"
    unfolding conversation_run_def by blast
  with assms(2) show ?thesis unfolding conversation_run_def
    by (intro exI [of _ uuid] exI [of _ t] exI [of _ p] exI [of _ b0] exI [of _ "ms @ [(now, m)]"])
      (auto simp: run_append)
qed

text \<open>What handling a message does to the conversations, in one equation.\<close>

lemma route_message_conversations:
  "aa_conversations (snd (route_message ops env m s)) =
     (case conversation_id m of
        None \<Rightarrow> aa_conversations s
      | Some c \<Rightarrow>
          (case hm_get (aa_conversations s) c of
             None \<Rightarrow> aa_conversations s
           | Some b \<Rightarrow>
               hm_insert c (snd (boxed_process (snd env) m b)) (aa_conversations s)))"
  by (simp add: route_message_def Let_def actor_frame split: option.splits prod.splits sum.splits)

lemma handle_acl_message_conversations:
  "aa_conversations (snd (handle_acl_message ops env m s)) = aa_conversations s
   \<or> (\<exists>c b. conversation_id m = Some c \<and> hm_get (aa_conversations s) c = Some b
        \<and> aa_conversations (snd (handle_acl_message ops env m s)) =
            hm_insert c (snd (boxed_process (snd env) m b)) (aa_conversations s))"
  by (simp add: handle_acl_message_def Let_def actor_frame count_error_def
      route_message_conversations split: option.splits prod.splits sum.splits)

lemma handle_conversations_ok:
  assumes "conversations_ok s"
  shows "conversations_ok (snd (handle_acl_message ops env m s))"
  using handle_acl_message_conversations [of ops env m s] assms
  by (auto simp: conversations_ok_def hashmap_simps intro!: conversation_run_step split: if_splits)

lemma handle_keeps_keys:
  "hm_contains (aa_conversations s) c \<Longrightarrow>
   hm_contains (aa_conversations (snd (handle_acl_message ops env m s))) c"
  using handle_acl_message_conversations [of ops env m s] by (auto simp: hashmap_simps)

text \<open>An invariant of handling one message is one of the whole loop.\<close>

lemma process_mailbox_invariant:
  assumes step: "\<And>e m s. P s \<Longrightarrow> P (snd (handle_acl_message ops e m s))"
    and err: "\<And>s. P s \<Longrightarrow> P (count_error s)"
    and pop: "\<And>q s. P s \<Longrightarrow> P (s\<lparr>aa_mailbox := q\<rparr>)"
    and "P s"
  shows "P (process_mailbox ops env s)"
proof -
  have "P (handle_all ops env ms t)" if "P t" for ms t
    using that
  proof (induction ms arbitrary: t env)
    case (Cons m ms)
    obtain r t' where h: "handle_acl_message ops (env 0) m t = (r, t')" by fastforce
    with step [OF Cons.prems, of "env 0" m] have "P t'" by simp
    with h Cons.IH err show ?case by (cases r) simp_all
  qed simp
  with pop [OF assms(4)] show ?thesis by (simp add: process_mailbox_handle_all)
qed

lemma actor_step_invariant:
  assumes "actor_step sha256 ops s s'" "P s"
    and handle: "\<And>e m s. P s \<Longrightarrow> P (snd (handle_acl_message ops e m s))"
    and converse: "\<And>c e p s. P s \<Longrightarrow> P (snd (start_conversation c e p s))"
    and other: "\<And>s s'. P s \<Longrightarrow> aa_conversations s' = aa_conversations s \<Longrightarrow> P s'"
  shows "P s'"
  using assms(1)
proof cases
  case (converse c env p)
  with assms(2) show ?thesis by (auto intro: assms(4))
next
  case (tick envs)
  have "P (process_mailbox ops envs s)"
    by (rule process_mailbox_invariant)
      (auto intro: handle assms(2) other simp: count_error_def)
  then show ?thesis unfolding tick
    using assms(2)
    by (auto simp: actor_tick_def Let_def actor_update_defs split: prod.splits sum.splits bool.splits
        intro: other)
qed (auto simp: actor_deliver_def actor_started_def Let_def capture_state_def migrate_begin_def
    migrate_finish_def actor_shutdown_def actor_stopping_def actor_stopped_def
    notify_supervisor_def actor_update_defs
    intro!: other [OF assms(2)] split: option.splits prod.splits sum.splits)

lemma start_conversation_conversations:
  "aa_conversations (snd (start_conversation c env p s)) =
     (case create_state_machine (fst env) (snd env) p of
        Inl _ \<Rightarrow> aa_conversations s
      | Inr b \<Rightarrow> hm_insert c b (aa_conversations s))"
  by (simp add: start_conversation_def split: sum.splits)

lemma actor_step_ok:
  assumes "actor_step sha256 ops s s'" "conversations_ok s"
  shows "conversations_ok s'"
  using assms
proof (rule actor_step_invariant [where P = conversations_ok])
  show "conversations_ok s \<Longrightarrow> conversations_ok (snd (start_conversation c e p s))" for c e p s
    by (auto simp: conversations_ok_def start_conversation_conversations hashmap_simps
        dest: conversation_run_new split: sum.splits if_splits)
  show "conversations_ok s \<Longrightarrow> conversations_ok (snd (handle_acl_message ops e m s))" for e m s
    by (rule handle_conversations_ok)
qed (auto simp: conversations_ok_def)

lemma actor_step_keys:
  assumes "actor_step sha256 ops s s'" "hm_contains (aa_conversations s) c"
  shows "hm_contains (aa_conversations s') c"
  using assms
proof (rule actor_step_invariant [where P = "\<lambda>s. hm_contains (aa_conversations s) c"])
  show "hm_contains (aa_conversations s) c \<Longrightarrow>
      hm_contains (aa_conversations (snd (start_conversation c' e p s))) c" for c' e p s
    by (auto simp: start_conversation_conversations hashmap_simps split: sum.splits)
qed (auto intro: handle_keeps_keys)

lemma created_machine_run:
  assumes "create_state_machine uuid t p = Inr b0"
  shows "boxed_history (run boxed_process b0 ms) = accepted boxed_process b0 ms"
    and "boxed_protocol_type (run boxed_process b0 ms) = p"
    and "boxed_is_failed (run boxed_process b0 ms) \<longrightarrow> boxed_is_complete (run boxed_process b0 ms)"
proof -
  note fresh = created_machine_fresh [OF assms]
  from bx.run_trace [OF fresh(2,3), of ms]
  show "boxed_history (run boxed_process b0 ms) = accepted boxed_process b0 ms"
    "boxed_is_failed (run boxed_process b0 ms) \<longrightarrow> boxed_is_complete (run boxed_process b0 ms)"
    by simp_all
  show "boxed_protocol_type (run boxed_process b0 ms) = p"
    by (rule run_invariant [where P = "\<lambda>b. boxed_protocol_type b = p"]) (simp_all add: fresh)
qed

lemma actor_reachable_ok:
  assumes "actor_reachable sha256 ops s0 s" "aa_conversations s0 = []"
  shows "conversations_ok s"
  using assms
proof (induction rule: actor_reachable.induct)
  case initial
  then show ?case by (simp add: conversations_ok_def)
qed (blast intro: actor_step_ok)

section \<open>What the life cycle never changes\<close>

lemma send_message_capabilities [actor_frame]:
  "aa_capabilities (snd (send_message m s)) = aa_capabilities s"
  by (simp add: send_message_def actor_update_defs fold_emit)

lemma send_packaged_capabilities [actor_frame]:
  "aa_capabilities (send_packaged pack is s) = aa_capabilities s"
  by (induction pack "is" s rule: send_packaged.induct) (simp_all add: actor_frame split: sum.splits)

lemma flush_outbound_capabilities [actor_frame]:
  "aa_capabilities (flush_outbound ops s) = aa_capabilities s"
  by (simp add: flush_outbound_def actor_frame split: option.splits prod.splits)

lemma handle_acl_message_capabilities [actor_frame]:
  "aa_capabilities (snd (handle_acl_message ops env m s)) = aa_capabilities s"
  by (simp add: handle_acl_message_def route_message_def deliver_raw_def handle_protocol_result_def
      Let_def actor_frame actor_update_defs
      split: option.splits prod.splits sum.splits process_result.splits)

lemma process_mailbox_capabilities [actor_frame]:
  "aa_capabilities (process_mailbox ops env s) = aa_capabilities s"
  by (rule process_mailbox_invariant [where P = "\<lambda>t. aa_capabilities t = aa_capabilities s"])
    (simp_all add: actor_frame count_error_def)

lemma actor_started_frame [actor_frame]:
  "aa_mailbox (actor_started ops s) = aa_mailbox s"
  "aa_conversations (actor_started ops s) = aa_conversations s"
  "aa_verifier (actor_started ops s) = aa_verifier s"
  "aa_capabilities (actor_started ops s) = aa_capabilities s"
  by (simp_all add: actor_started_def Let_def notify_supervisor_def actor_update_defs
      split: prod.splits sum.splits)

lemma actor_step_capabilities:
  "actor_step sha256 ops s s' \<Longrightarrow> aa_capabilities s' = aa_capabilities s"
  by (induction rule: actor_step.induct)
    (auto simp: actor_deliver_def start_conversation_def Let_def capture_state_def
      migrate_begin_def migrate_finish_def actor_shutdown_def actor_stopping_def actor_stopped_def
      actor_tick_def notify_supervisor_def actor_update_defs actor_frame
      split: option.splits prod.splits sum.splits bool.splits)

lemma actor_reachable_capabilities:
  "actor_reachable sha256 ops s0 s \<Longrightarrow> aa_capabilities s = aa_capabilities s0"
  by (induction rule: actor_reachable.induct) (auto dest: actor_step_capabilities)

text \<open>An actor with no open conversation and no verifier hands a message to the guest.\<close>

lemma handle_all_one_raw:
  assumes "aa_verifier s = None" "aa_conversations s = []"
  shows "aa_runtime (handle_all ops envs [m] s) = snd (handle_message ops m (aa_runtime s))"
  using assms by (simp add: handle_acl_message_def route_message_def deliver_raw_def Let_def
      count_error_def split: option.splits prod.splits sum.splits)

section \<open>Properties\<close>

text \<open>A guest that records what reaches it, for the examples.\<close>

definition demo_ops :: "(acl_message list, unit) runtime_ops" where
  "demo_ops =
     \<lparr>call_init = (\<lambda>w. (Inr (), w)), call_run = (\<lambda>w. (Inr True, w)),
      call_shutdown = (\<lambda>w. (Inr (), w)), handle_message = (\<lambda>m w. (Inr True, w @ [m])),
      call_config = (\<lambda>u b w. (Inr (), w)), take_unl_sends = (\<lambda>w. ([], w)),
      runtime_capture_state = (\<lambda>w. (Inr (), w)), get_module_bytes = (\<lambda>w. []),
      memory_size = (\<lambda>w. 0)\<rparr>"

definition demo_capabilities :: agent_capabilities where
  "demo_capabilities =
     \<lparr>max_memory_bytes = 0, max_execution_time_ms = 0, allowed_protocols = [1],
      network_access = 0, storage_quota_bytes = 0, migration_allowed = False,
      spawn_allowed = False, allowed_destinations = []\<rparr>"

definition demo_actor :: "acl_message list agent_actor" where
  "demo_actor =
     (actor_new \<lparr>ac_id = plain_agent ''a'', ac_wasm_module = [],
        ac_capabilities = demo_capabilities, ac_initial_state = None :: unit option,
        ac_restart_strategy = Never\<rparr> [])\<lparr>aa_supervisor := True, aa_network := True\<rparr>"

text \<open>
  C30: the mailbox loop terminates, leaves the mailbox empty and handles every queued message
  exactly once, in the order of arrival: it equals the fold of the message handler over the
  queue, whatever the handler, the guest or the verifier do.
\<close>

theorem mailbox_drained_in_order:
  "process_mailbox ops env s = handle_all ops env (aa_mailbox s) (s\<lparr>aa_mailbox := []\<rparr>)
   \<and> aa_mailbox (process_mailbox ops env s) = []"
  by (simp add: process_mailbox_handle_all handle_all_mailbox)

text \<open>
  Content that fails verification is contained. When the verifier rejects a message, neither
  the guest nor any protocol conversation changes, whatever conversation the message names, and
  the only effect is one \<open>not-understood\<close> reply, addressed to the sender, in the conversation.
\<close>

theorem rejected_content_contained:
  assumes "aa_verifier s = Some sanitize" "sanitize m = Inl reason" "aa_supervisor s"
  shows "\<exists>reply s'. handle_acl_message ops env m s = (Inr (), s')
    \<and> aa_runtime s' = aa_runtime s \<and> aa_conversations s' = aa_conversations s
    \<and> aa_effects s' = aa_effects s @ [DeliverViaSupervisor reply]
    \<and> performative_try_from (performative reply) = Some NotUnderstood
    \<and> receivers reply = (case sender m of None \<Rightarrow> [] | Some a \<Rightarrow> [a])
    \<and> conversation_id reply = conversation_id m"
  using assms by (simp add: handle_acl_message_def send_message_def actor_update_defs Let_def
      not_understood_def del: performative_as_i32.simps)

theorem rejected_content_contained_witness:
  "aa_runtime (snd (handle_acl_message demo_ops (''u'', 0) (plain_message Inform ''x'' [1])
     (demo_actor\<lparr>aa_verifier := Some (\<lambda>_. Inl ''no'')\<rparr>))) = []"
proof -
  let ?s = "demo_actor\<lparr>aa_verifier := Some (\<lambda>_. Inl ''no'')\<rparr>"
  from rejected_content_contained [of ?s "\<lambda>_. Inl ''no''" "plain_message Inform ''x'' [1]" "''no''"
      demo_ops "(''u'', 0)"]
  show ?thesis by (auto simp: demo_actor_def actor_new_def)
qed

text \<open>
  A message of an existing conversation goes to that conversation's protocol machine and
  nowhere else: no verifier being set, the guest is not called, every other conversation is
  untouched, and the message is an error of the actor exactly if the machine refuses it.
\<close>

theorem conversation_messages_isolated:
  assumes "aa_verifier s = None" "conversation_id m = Some c"
    "hm_get (aa_conversations s) c = Some b" "handle_acl_message ops (uuid, now) m s = (r, s')"
  shows "aa_runtime s' = aa_runtime s
    \<and> hm_get (aa_conversations s') c = Some (snd (boxed_process now m b))
    \<and> (\<forall>c'. c' \<noteq> c \<longrightarrow> hm_get (aa_conversations s') c' = hm_get (aa_conversations s) c')
    \<and> ((\<exists>e. r = Inl e) \<longleftrightarrow> (\<exists>e. boxed_validate b m = Inl e))"
proof -
  obtain a b' where p: "boxed_process now m b = (a, b')" by fastforce
  have "(\<exists>e. a = Inl e) \<longleftrightarrow> (\<exists>e. boxed_validate b m = Inl e)"
    using bx.validate_iff_process [of now m b] p by (cases a; cases "boxed_validate b m") auto
  with assms p show ?thesis
    by (cases a) (auto simp: handle_acl_message_def route_message_def Let_def actor_frame
        hashmap_simps handle_protocol_result_def send_message_def actor_update_defs
        split: process_result.splits)
qed

theorem conversation_messages_isolated_witness:
  "aa_runtime (snd (handle_acl_message demo_ops (''u'', 0)
     ((plain_message Request ''x'' [1])\<lparr>conversation_id := Some ''c''\<rparr>)
     (snd (start_conversation ''c'' (''v'', 0) ProtocolRequest demo_actor)))) = []"
proof -
  let ?m = "(plain_message Request ''x'' [1])\<lparr>conversation_id := Some ''c''\<rparr>"
  let ?s = "snd (start_conversation ''c'' (''v'', 0) ProtocolRequest demo_actor)"
  obtain r s' where h: "handle_acl_message demo_ops (''u'', 0) ?m ?s = (r, s')" by fastforce
  have "aa_verifier ?s = None" "aa_runtime ?s = []" "hm_get (aa_conversations ?s) ''c'' =
      Some (BoxRequest (request_new Participant ''v'' 0))"
    by (simp_all add: start_conversation_def create_state_machine_def demo_actor_def
        actor_new_def hashmap_simps)
  with conversation_messages_isolated [of ?s ?m "''c''" _ demo_ops "''u''" 0 r s'] h
  show ?thesis by simp
qed

text \<open>
  C3: conversations are faithful. In every state an actor reaches from a fresh one, whatever the
  guest does, each conversation is a machine of the factory that has seen messages of exactly
  this conversation; its history is the subsequence of them it accepted, and if it has failed it
  is complete.
\<close>

theorem reachable_conversations_faithful:
  assumes "actor_reachable sha256 ops s0 s" "aa_conversations s0 = []"
    "hm_get (aa_conversations s) c = Some b"
  shows "\<exists>uuid t p b0 ms. create_state_machine uuid t p = Inr b0
    \<and> (\<forall>(now, m) \<in> set ms. conversation_id m = Some c)
    \<and> b = run boxed_process b0 ms \<and> boxed_history b = accepted boxed_process b0 ms
    \<and> boxed_protocol_type b = p
    \<and> (boxed_is_failed b \<longrightarrow> boxed_is_complete b)"
proof -
  from actor_reachable_ok [OF assms(1,2)] assms(3) obtain uuid t p b0 ms where
    "create_state_machine uuid t p = Inr b0" "b = run boxed_process b0 ms"
    "\<forall>(now, m) \<in> set ms. conversation_id m = Some c"
    unfolding conversations_ok_def conversation_run_def by blast
  moreover note created_machine_run [OF this(1), of ms]
  ultimately show ?thesis by blast
qed

definition demo_conversation_actor :: "acl_message list agent_actor" where
  "demo_conversation_actor = snd (start_conversation ''c'' (''v'', 0) ProtocolRequest demo_actor)"

lemma demo_conversation_reachable:
  "actor_reachable (\<lambda>b. b) demo_ops demo_actor demo_conversation_actor"
  unfolding demo_conversation_actor_def
  by (rule actor_reachable.later [OF actor_reachable.initial actor_step.converse])

lemma demo_conversation_get:
  "hm_get (aa_conversations demo_conversation_actor) ''c'' =
     Some (BoxRequest (request_new Participant ''v'' 0))"
  by (simp add: demo_conversation_actor_def start_conversation_def create_state_machine_def
      demo_actor_def actor_new_def hashmap_simps)

theorem reachable_conversations_faithful_witness:
  "\<exists>uuid t p b0. create_state_machine uuid t p = Inr b0
     \<and> boxed_protocol_type (BoxRequest (request_new Participant ''v'' 0)) = p"
  using reachable_conversations_faithful [OF demo_conversation_reachable _ demo_conversation_get]
  by (fastforce simp: demo_actor_def actor_new_def)

text \<open>
  A conversation is never forgotten. No event removes an entry from the conversation map, so
  finished conversations stay, keep capturing the messages that carry their identifier, and are
  counted as active by \<open>GetStatus\<close>.
\<close>

theorem conversations_never_removed:
  assumes "actor_reachable sha256 ops s s'" "hm_get (aa_conversations s) c = Some b"
  shows "\<exists>b'. hm_get (aa_conversations s') c = Some b'"
proof -
  have "hm_contains (aa_conversations s') c"
    using assms
  proof (induction rule: actor_reachable.induct)
    case (later s1 s2)
    then show ?case by (blast intro: actor_step_keys)
  qed (simp add: hm_contains_get)
  then show ?thesis by (simp add: hm_contains_get)
qed

theorem conversations_never_removed_witness:
  "\<exists>b. hm_get (aa_conversations (actor_stopped demo_conversation_actor)) ''c'' = Some b"
  by (rule conversations_never_removed [OF actor_reachable.later
        [OF actor_reachable.initial actor_step.stopped] demo_conversation_get])

text \<open>
  Migrating with a network loses the agent. Both parts of the migration succeed, yet the
  snapshot that was captured is in none of the actor's effects: the supervisor is told that the
  agent has migrated, the context is stopped and nothing is sent to the target node. The
  capability \<open>migration_allowed\<close> plays no role.
\<close>

theorem migration_sends_nothing:
  assumes "runtime_capture_state ops (aa_runtime s) = (Inr st, w)" "aa_supervisor s"
    "migrate_begin sha256 ops s = (r, s1)" "migrate_finish True target s1 = (r2, s2)"
  shows "(\<exists>sn. r = Inr sn) \<and> r2 = Inr () \<and> aa_state s2 = Migrating
    \<and> aa_effects s2 = aa_effects s @
        [NotifySupervisor (aa_agent_id s) (EvMigrated ''local'' target), StopContext]"
  using assms by (auto simp: migrate_begin_def capture_state_def migrate_finish_def
      notify_supervisor_def actor_update_defs Let_def)

theorem migration_sends_nothing_witness:
  "aa_effects (snd (migrate_finish True ''node2'' (snd (migrate_begin (\<lambda>b. b) demo_ops demo_actor)))) =
     [NotifySupervisor (plain_agent ''a'') (EvMigrated ''local'' ''node2''), StopContext]"
proof -
  obtain r s1 where b: "migrate_begin (\<lambda>b. b) demo_ops demo_actor = (r, s1)" by fastforce
  obtain r2 s2 where f: "migrate_finish True ''node2'' s1 = (r2, s2)" by fastforce
  have "runtime_capture_state demo_ops (aa_runtime demo_actor) = (Inr (), [])"
    "aa_supervisor demo_actor"
    by (simp_all add: demo_ops_def demo_actor_def actor_new_def)
  from migration_sends_nothing [OF this b f] b f show ?thesis
    by (simp add: demo_actor_def actor_new_def)
qed

text \<open>
  The protocol filter of message delivery. A message is refused exactly if it carries the
  number of a known protocol that the agent's capabilities do not list; a message without a
  protocol, or with a number outside the enumeration, is queued whatever the capabilities are.
\<close>

theorem delivery_filter:
  "((\<exists>e. fst (actor_deliver m s) = Inl e) \<longleftrightarrow>
     (\<exists>t. protocol m = Some (protocol_type_as_i32 t)
        \<and> protocol_type_as_i32 t \<notin> set (allowed_protocols (aa_capabilities s))))
   \<and> aa_mailbox (snd (actor_deliver m s)) =
       aa_mailbox s @ (if \<exists>e. fst (actor_deliver m s) = Inl e then [] else [m])"
  by (auto simp: actor_deliver_def Let_def protocol_type_try_from_iff protocol_type_try_from_None
      split: option.splits)

end
