(* ===== verification/Keyed_Store.thy ===== *)
theory Keyed_Store
  imports Prelude
begin

text \<open>
  The interface of the name-keyed tables that several components keep (the actor registry, the
  replicated cluster state, the platform's directories): looking up a key after an insertion or
  a removal. What a sequence of operations leaves at a key is proved here once.
\<close>

datatype ('k, 'v) store_op = Store 'k 'v | Erase 'k

text \<open>What the last operation on a key left there; nothing if no operation touched the key.\<close>

fun last_write :: "('k, 'v) store_op list \<Rightarrow> 'k \<Rightarrow> 'v option option" where
  "last_write [] k = None"
| "last_write (op # ops) k =
     (case last_write ops k of
        Some r \<Rightarrow> Some r
      | None \<Rightarrow>
          (case op of
             Store k' v \<Rightarrow> if k' = k then Some (Some v) else None
           | Erase k' \<Rightarrow> if k' = k then Some None else None))"

fun store_op_key :: "('k, 'v) store_op \<Rightarrow> 'k" where
  "store_op_key (Store k _) = k"
| "store_op_key (Erase k) = k"

lemma last_write_append:
  "last_write (xs @ ys) k =
     (case last_write ys k of Some r \<Rightarrow> Some r | None \<Rightarrow> last_write xs k)"
  by (induction xs) (auto split: option.splits store_op.splits)

lemma last_write_None: "last_write ops k = None \<longleftrightarrow> k \<notin> store_op_key ` set ops"
  by (induction ops) (auto split: option.splits store_op.splits)

locale keyed_store =
  fixes lookup :: "'s \<Rightarrow> 'k \<Rightarrow> 'v option"
    and store :: "'k \<Rightarrow> 'v \<Rightarrow> 's \<Rightarrow> 's"
    and erase :: "'k \<Rightarrow> 's \<Rightarrow> 's"
  assumes lookup_store: "lookup (store k v s) k' = (if k' = k then Some v else lookup s k')"
    and lookup_erase: "lookup (erase k s) k' = (if k' = k then None else lookup s k')"
begin

text \<open>After any sequence of operations, a key holds what the last operation on it left.\<close>

lemma lookup_run:
  "lookup (fold (\<lambda>op s. case op of Store k v \<Rightarrow> store k v s | Erase k \<Rightarrow> erase k s) ops s) k =
     (case last_write ops k of None \<Rightarrow> lookup s k | Some r \<Rightarrow> r)"
  by (induction ops arbitrary: s)
    (auto simp: lookup_store lookup_erase split: option.splits store_op.splits)

lemma store_erase: "lookup (erase k (store k v s)) k = None"
  by (simp add: lookup_erase)

lemma store_other: "k' \<noteq> k \<Longrightarrow> lookup (store k v s) k' = lookup s k'"
  by (simp add: lookup_store)

end

interpretation hm: keyed_store hm_get hm_insert hm_remove
  by unfold_locales (simp_all add: hashmap_simps)

end
