(* ===== verification/Actor_Registry.thy ===== *)
theory Actor_Registry
  imports Keyed_Store Actor_Messages
begin

text \<open>
  The name registry of a node, \<^verbatim>\<open>src/actor/registry.rs\<close>: which local actor has a
  name, on which node a remote agent lives, which agents offer a service. The concurrent maps
  are only touched from the registry's own handlers. An actor address is a number.
\<close>

type_synonym addr = nat

record actor_registry =
  reg_local_agents :: "(string, addr) hashmap"
  reg_remote_agents :: "(string, string) hashmap"
  reg_services :: "(string, string list) hashmap"
  reg_node_id :: string

definition registry_new :: "string \<Rightarrow> actor_registry" where
  "registry_new node =
     \<lparr>reg_local_agents = [], reg_remote_agents = [], reg_services = [], reg_node_id = node\<rparr>"

section \<open>Operations\<close>

definition is_local :: "actor_registry \<Rightarrow> string \<Rightarrow> bool" where
  "is_local r n = hm_contains (reg_local_agents r) n"

definition get_agent_node :: "actor_registry \<Rightarrow> string \<Rightarrow> string option" where
  "get_agent_node r n =
     (if hm_contains (reg_local_agents r) n then Some (reg_node_id r)
      else hm_get (reg_remote_agents r) n)"

definition register_remote :: "string \<Rightarrow> string \<Rightarrow> actor_registry \<Rightarrow> actor_registry" where
  "register_remote n node r = r\<lparr>reg_remote_agents := hm_insert n node (reg_remote_agents r)\<rparr>"

definition deregister_remote :: "string \<Rightarrow> actor_registry \<Rightarrow> actor_registry" where
  "deregister_remote n r = r\<lparr>reg_remote_agents := hm_remove n (reg_remote_agents r)\<rparr>"

definition register_service :: "string \<Rightarrow> string \<Rightarrow> actor_registry \<Rightarrow> actor_registry" where
  "register_service svc agent r =
     r\<lparr>reg_services := hm_insert svc
         ((case hm_get (reg_services r) svc of None \<Rightarrow> [] | Some l \<Rightarrow> l) @ [agent])
         (reg_services r)\<rparr>"

definition find_service_providers :: "actor_registry \<Rightarrow> string \<Rightarrow> string list" where
  "find_service_providers r svc =
     (case hm_get (reg_services r) svc of None \<Rightarrow> [] | Some l \<Rightarrow> l)"

text \<open>The message handlers.\<close>

definition register_actor :: "string \<Rightarrow> addr \<Rightarrow> actor_registry \<Rightarrow> actor_registry" where
  "register_actor n a r = r\<lparr>reg_local_agents := hm_insert n a (reg_local_agents r)\<rparr>"

definition deregister_actor :: "string \<Rightarrow> actor_registry \<Rightarrow> actor_registry" where
  "deregister_actor n r = r\<lparr>reg_local_agents := hm_remove n (reg_local_agents r)\<rparr>"

definition lookup_actor :: "actor_registry \<Rightarrow> string \<Rightarrow> addr option" where
  "lookup_actor r n = hm_get (reg_local_agents r) n"

definition resolve_agent :: "actor_registry \<Rightarrow> string \<Rightarrow> agent_error + string" where
  "resolve_agent r n =
     (case get_agent_node r n of None \<Rightarrow> Inl (NotFound n) | Some node \<Rightarrow> Inr node)"

definition find_agents :: "actor_registry \<Rightarrow> string \<Rightarrow> agent_error + agent_id list" where
  "find_agents r svc =
     Inr (map (\<lambda>n. \<lparr>name = n, addresses = [], resolvers = []\<rparr>) (find_service_providers r svc))"

definition update_remote_registry ::
  "agent_id \<Rightarrow> string \<Rightarrow> bool \<Rightarrow> actor_registry \<Rightarrow> actor_registry" where
  "update_remote_registry a node is_register r =
     (if is_register then register_remote (name a) node r else deregister_remote (name a) r)"

definition update_service_registry ::
  "string \<Rightarrow> string \<Rightarrow> bool \<Rightarrow> actor_registry \<Rightarrow> actor_registry" where
  "update_service_registry svc agent is_register r =
     (if is_register then register_service svc agent r
      else r\<lparr>reg_services := hm_modify svc (filter (\<lambda>a. a \<noteq> agent)) (reg_services r)\<rparr>)"

section \<open>The registry as a keyed store\<close>

interpretation regl: keyed_store lookup_actor register_actor deregister_actor
  by unfold_locales
    (simp_all add: lookup_actor_def register_actor_def deregister_actor_def hashmap_simps)

interpretation regr: keyed_store "\<lambda>r. hm_get (reg_remote_agents r)" register_remote
  deregister_remote
  by unfold_locales (simp_all add: register_remote_def deregister_remote_def hashmap_simps)

lemmas registry_update_defs =
  register_remote_def deregister_remote_def register_service_def register_actor_def
  deregister_actor_def update_remote_registry_def update_service_registry_def

lemma resolve_agent_iff:
  "resolve_agent r n = Inr node \<longleftrightarrow>
     (if lookup_actor r n \<noteq> None then node = reg_node_id r
      else hm_get (reg_remote_agents r) n = Some node)"
  by (auto simp: resolve_agent_def get_agent_node_def lookup_actor_def hashmap_simps
      split: option.splits)

lemma find_service_providers_register:
  "find_service_providers (register_service svc a r) svc' =
     find_service_providers r svc' @ (if svc' = svc then [a] else [])"
  by (simp add: find_service_providers_def register_service_def hashmap_simps)

lemma find_service_providers_remove:
  "find_service_providers (update_service_registry svc a False r) svc' =
     (if svc' = svc then filter (\<lambda>x. x \<noteq> a) (find_service_providers r svc')
      else find_service_providers r svc')"
  by (simp add: find_service_providers_def update_service_registry_def hashmap_simps
      split: option.splits)

section \<open>Properties\<close>

text \<open>The registrations and deregistrations of actors as the registry's handlers process them.\<close>

definition registry_run :: "(string, addr) store_op list \<Rightarrow> actor_registry \<Rightarrow> actor_registry" where
  "registry_run ops r =
     fold (\<lambda>op r. case op of Store n a \<Rightarrow> register_actor n a r | Erase n \<Rightarrow> deregister_actor n r) ops r"

text \<open>
  Resolution follows the latest registration. After any sequence of actor registrations and
  deregistrations, an agent resolves to this node exactly if the last operation on its name
  registered it, and otherwise to the node a remote registration gives; a deregistration counts
  for the name, whichever actor sent it, so an old instance that deregisters after its successor
  registered hides the successor.
\<close>

theorem resolution_follows_last_registration:
  assumes "reg_local_agents r = []"
  shows "resolve_agent (registry_run ops r) n =
    (case last_write ops n of
       Some (Some a) \<Rightarrow> Inr (reg_node_id r)
     | _ \<Rightarrow> (case hm_get (reg_remote_agents r) n of None \<Rightarrow> Inl (NotFound n) | Some node \<Rightarrow> Inr node))"
proof -
  have frame: "reg_remote_agents (registry_run ops r) = reg_remote_agents r"
    "reg_node_id (registry_run ops r) = reg_node_id r"
    unfolding registry_run_def
    by (induction ops arbitrary: r) (auto simp: registry_update_defs split: store_op.splits)
  have "lookup_actor (registry_run ops r) n =
      (case last_write ops n of None \<Rightarrow> None | Some a \<Rightarrow> a)"
    unfolding registry_run_def regl.lookup_run using assms
    by (simp add: lookup_actor_def split: option.split)
  with frame show ?thesis
    by (auto simp: resolve_agent_def get_agent_node_def lookup_actor_def hashmap_simps
        split: option.splits)
qed

theorem resolution_follows_last_registration_witness:
  "resolve_agent (registry_run [Store ''a'' 1, Store ''a'' 2, Erase ''a''] (registry_new ''node''))
     ''a'' = Inl (NotFound ''a'')"
  using resolution_follows_last_registration [of "registry_new ''node''"
      "[Store ''a'' 1, Store ''a'' 2, Erase ''a'']" "''a''"]
  by (simp add: registry_new_def)

end
