(* ===== verification/Block_File.thy ===== *)
theory Block_File
  imports Prelude
begin

unbundle bit_operations_syntax

text \<open>
  The typed-block container of agent bundles and of messages,
  \<^verbatim>\<open>src/content/block.rs\<close>: a sequence of tagged blocks, with its wire form. The
  lemmas characterise the decoder completely: it accepts exactly the byte strings that start
  with the wire form of a well-formed container, and returns that container.
\<close>

section \<open>Blocks\<close>

text \<open>A tag is an array of four bytes; \<open>block_file_wf\<close> below states its length.\<close>

type_synonym tag = bytes

definition ascii :: "string \<Rightarrow> bytes" where
  "ascii s = map (\<lambda>c. word_of_nat (of_char c)) s"

definition tag_wasm :: tag where "tag_wasm = ascii ''WASM''"
definition tag_header :: tag where "tag_header = ascii ''HEAD''"
definition tag_llm :: tag where "tag_llm = ascii ''LLM ''"
definition tag_unl :: tag where "tag_unl = ascii ''UNL ''"
definition tag_data :: tag where "tag_data = ascii ''DATA''"
definition tag_string :: tag where "tag_string = ascii ''STR ''"

definition magic :: bytes where "magic = ascii ''FBLK''"
definition version :: byte where "version = 1"

record block =
  bl_tag :: tag
  bl_data :: bytes

record block_file =
  blocks :: "block list"

datatype block_error = BadMagic | Version byte | Truncated

definition block_file_new :: block_file where
  "block_file_new = \<lparr>blocks = []\<rparr>"

definition with_block :: "tag \<Rightarrow> bytes \<Rightarrow> block_file \<Rightarrow> block_file" where
  "with_block t d f = f\<lparr>blocks := blocks f @ [\<lparr>bl_tag = t, bl_data = d\<rparr>]\<rparr>"

definition get_block :: "tag \<Rightarrow> block_file \<Rightarrow> bytes option" where
  "get_block t f = map_option bl_data (find (\<lambda>b. bl_tag b = t) (blocks f))"

definition has_block :: "tag \<Rightarrow> block_file \<Rightarrow> bool" where
  "has_block t f \<longleftrightarrow> (\<exists>b \<in> set (blocks f). bl_tag b = t)"

section \<open>The wire form\<close>

definition u16_to_be_bytes :: "16 word \<Rightarrow> bytes" where
  "u16_to_be_bytes w = [ucast (drop_bit 8 w), ucast w]"

definition u32_to_be_bytes :: "u32 \<Rightarrow> bytes" where
  "u32_to_be_bytes w =
     [ucast (drop_bit 24 w), ucast (drop_bit 16 w), ucast (drop_bit 8 w), ucast w]"

definition u16_from_be_bytes :: "bytes \<Rightarrow> 16 word" where
  "u16_from_be_bytes bs = fold (\<lambda>b acc. push_bit 8 acc OR ucast b) bs 0"

definition u32_from_be_bytes :: "bytes \<Rightarrow> u32" where
  "u32_from_be_bytes bs = fold (\<lambda>b acc. push_bit 8 acc OR ucast b) bs 0"

definition encode_block :: "block \<Rightarrow> bytes" where
  "encode_block b = bl_tag b @ u32_to_be_bytes (of_nat (length (bl_data b))) @ bl_data b"

definition encode :: "block_file \<Rightarrow> bytes" where
  "encode f =
     magic @ [version] @ u16_to_be_bytes (of_nat (length (blocks f)))
       @ concat (map encode_block (blocks f))"

text \<open>The closure \<open>take\<close>: the next \<open>n\<close> bytes and what follows, or nothing if they are not there.\<close>

definition take_bytes :: "nat \<Rightarrow> bytes \<Rightarrow> block_error + (bytes \<times> bytes)" where
  "take_bytes n bs = (if n \<le> length bs then Inr (take n bs, drop n bs) else Inl Truncated)"

fun read_blocks :: "nat \<Rightarrow> bytes \<Rightarrow> block_error + block list" where
  "read_blocks 0 bs = Inr []"
| "read_blocks (Suc n) bs =
     (case take_bytes 4 bs of
        Inl e \<Rightarrow> Inl e
      | Inr (t, r1) \<Rightarrow>
          (case take_bytes 4 r1 of
             Inl e \<Rightarrow> Inl e
           | Inr (len, r2) \<Rightarrow>
               (case take_bytes (unat (u32_from_be_bytes len)) r2 of
                  Inl e \<Rightarrow> Inl e
                | Inr (d, r3) \<Rightarrow>
                    (case read_blocks n r3 of
                       Inl e \<Rightarrow> Inl e
                     | Inr bs' \<Rightarrow> Inr (\<lparr>bl_tag = t, bl_data = d\<rparr> # bs')))))"

definition decode :: "bytes \<Rightarrow> block_error + block_file" where
  "decode bs =
     (case take_bytes 4 bs of
        Inl e \<Rightarrow> Inl e
      | Inr (m, r1) \<Rightarrow>
          if m \<noteq> magic then Inl BadMagic
          else
            (case take_bytes 1 r1 of
               Inl e \<Rightarrow> Inl e
             | Inr (v, r2) \<Rightarrow>
                 if hd v \<noteq> version then Inl (Version (hd v))
                 else
                   (case take_bytes 2 r2 of
                      Inl e \<Rightarrow> Inl e
                    | Inr (c, r3) \<Rightarrow>
                        (case read_blocks (unat (u16_from_be_bytes c)) r3 of
                           Inl e \<Rightarrow> Inl e
                         | Inr bs' \<Rightarrow> Inr \<lparr>blocks = bs'\<rparr>))))"

definition is_block_container :: "bytes \<Rightarrow> bool" where
  "is_block_container bs = prefix magic bs"

section \<open>Big-endian integers\<close>

lemma byte_high_bits [simp]:
  "\<not> bit (b :: byte) (8 + n)" "\<not> bit (b :: byte) (16 + n)" "\<not> bit (b :: byte) (24 + n)"
  by (auto dest: bit_imp_le_length)

lemma u16_roundtrip [simp]: "u16_from_be_bytes (u16_to_be_bytes w) = w"
  by (rule bit_word_eqI)
    (auto simp: u16_from_be_bytes_def u16_to_be_bytes_def bit_simps)

lemma u32_roundtrip [simp]: "u32_from_be_bytes (u32_to_be_bytes w) = w"
proof (rule bit_word_eqI)
  fix n :: nat
  assume "n < LENGTH(32)"
  then consider "n < 8" | "8 \<le> n" "n < 16" | "16 \<le> n" "n < 24" | "24 \<le> n" "n < 32"
    by fastforce
  then show "bit (u32_from_be_bytes (u32_to_be_bytes w)) n \<longleftrightarrow> bit w n"
    by cases (auto simp: u32_from_be_bytes_def u32_to_be_bytes_def bit_simps)
qed

lemma u16_roundtrip' :
  assumes "length bs = 2"
  shows "u16_to_be_bytes (u16_from_be_bytes bs) = bs"
proof -
  from assms obtain a b where "bs = [a, b]" by (auto simp: length_Suc_conv numeral_2_eq_2)
  then show ?thesis
    by (auto simp: u16_from_be_bytes_def u16_to_be_bytes_def bit_simps intro!: bit_word_eqI)
qed

lemma u32_roundtrip':
  assumes "length bs = 4"
  shows "u32_to_be_bytes (u32_from_be_bytes bs) = bs"
proof -
  from assms obtain a b c d where "bs = [a, b, c, d]"
    by (auto simp: length_Suc_conv eval_nat_numeral)
  then show ?thesis
    by (auto simp: u32_from_be_bytes_def u32_to_be_bytes_def bit_simps intro!: bit_word_eqI)
qed

lemma length_be_bytes [simp]:
  "length (u16_to_be_bytes w) = 2" "length (u32_to_be_bytes v) = 4"
  by (simp_all add: u16_to_be_bytes_def u32_to_be_bytes_def)

section \<open>Reading what was written\<close>

definition block_wf :: "block \<Rightarrow> bool" where
  "block_wf b \<longleftrightarrow> length (bl_tag b) = 4 \<and> length (bl_data b) < 2 ^ 32"

definition block_file_wf :: "block_file \<Rightarrow> bool" where
  "block_file_wf f \<longleftrightarrow> length (blocks f) < 2 ^ 16 \<and> (\<forall>b \<in> set (blocks f). block_wf b)"

lemma take_bytes_append [simp]: "length xs = n \<Longrightarrow> take_bytes n (xs @ ys) = Inr (xs, ys)"
  by (simp add: take_bytes_def)

lemma take_bytes_Inr: "take_bytes n bs = Inr (x, r) \<longleftrightarrow> bs = x @ r \<and> length x = n"
  by (auto simp: take_bytes_def)

lemma length_magic [simp]: "length magic = 4"
  by (simp add: magic_def ascii_def)

lemma unat_u32_length: "n < 2 ^ 32 \<Longrightarrow> unat (of_nat n :: u32) = n"
  by (simp add: unat_of_nat)

lemma unat_u16_length: "n < 2 ^ 16 \<Longrightarrow> unat (of_nat n :: 16 word) = n"
  by (simp add: unat_of_nat)

lemma read_blocks_encode:
  "\<forall>b \<in> set bs. block_wf b \<Longrightarrow>
   read_blocks (length bs) (concat (map encode_block bs) @ rest) = Inr bs"
  by (induction bs) (auto simp: encode_block_def block_wf_def unat_u32_length)

lemma read_blocks_prefix:
  "\<forall>b \<in> set bs. block_wf b \<Longrightarrow> n \<le> length bs \<Longrightarrow>
   read_blocks n (concat (map encode_block bs) @ rest) = Inr (take n bs)"
proof (induction n arbitrary: bs)
  case (Suc n)
  then show ?case
    by (cases bs) (auto simp: encode_block_def block_wf_def unat_u32_length)
qed simp

lemma read_blocks_sound:
  "read_blocks n bs = Inr xs \<Longrightarrow>
   length xs = n \<and> (\<forall>b \<in> set xs. block_wf b)
     \<and> (\<exists>rest. bs = concat (map encode_block xs) @ rest)"
proof (induction n bs arbitrary: xs rule: read_blocks.induct)
  case (2 n bs)
  from 2(2) obtain t len d r1 r2 r3 ys where s: "bs = t @ r1" "length t = 4"
    "r1 = len @ r2" "length len = 4" "r2 = d @ r3" "length d = unat (u32_from_be_bytes len)"
    and ys: "read_blocks n r3 = Inr ys" and xs: "xs = \<lparr>bl_tag = t, bl_data = d\<rparr> # ys"
    by (auto simp: take_bytes_Inr split: sum.splits prod.splits)
  have IH: "length ys = n \<and> (\<forall>b \<in> set ys. block_wf b)
      \<and> (\<exists>rest. r3 = concat (map encode_block ys) @ rest)"
    using 2(1) [OF _ _ _ _ _ _ ys, of "(t, r1)" t r1 "(len, r2)" len r2 "(d, r3)" d] s
    by (simp add: take_bytes_Inr)
  have "u32_to_be_bytes (of_nat (length d)) = len"
    using s u32_roundtrip' [of len] by simp
  moreover have "length d < 2 ^ 32"
    using s unsigned_less [of "u32_from_be_bytes len"] by simp
  ultimately have "encode_block \<lparr>bl_tag = t, bl_data = d\<rparr> = t @ len @ d"
    "block_wf \<lparr>bl_tag = t, bl_data = d\<rparr>"
    using s by (simp_all add: encode_block_def block_wf_def)
  with s IH show ?case by (auto simp: xs)
qed simp

lemma decode_encode_prefix:
  assumes "\<forall>b \<in> set (blocks f). block_wf b"
  shows "decode (encode f @ rest) = Inr \<lparr>blocks = take (length (blocks f) mod 2 ^ 16) (blocks f)\<rparr>"
proof -
  have "read_blocks (length (blocks f) mod 2 ^ 16)
      (concat (map encode_block (blocks f)) @ rest) =
      Inr (take (length (blocks f) mod 2 ^ 16) (blocks f))"
    by (rule read_blocks_prefix [OF assms]) simp
  then show ?thesis
    by (simp add: decode_def encode_def take_bytes_append [of "[version]", simplified] unat_of_nat)
qed

lemma decode_sound:
  assumes "decode bs = Inr f"
  shows "block_file_wf f \<and> (\<exists>rest. bs = encode f @ rest)"
proof -
  from assms obtain v c r3 xs where bs: "bs = magic @ v @ c @ r3" "length v = 1" "length c = 2"
    "hd v = version" and xs: "read_blocks (unat (u16_from_be_bytes c)) r3 = Inr xs"
    and f: "f = \<lparr>blocks = xs\<rparr>"
    by (auto simp: decode_def take_bytes_Inr split: sum.splits prod.splits if_splits)
  note r = read_blocks_sound [OF xs]
  then obtain rest where rest: "r3 = concat (map encode_block xs) @ rest" by blast
  have "v = [version]" using bs by (cases v) auto
  moreover have "u16_to_be_bytes (of_nat (length xs)) = c"
    using r u16_roundtrip' [OF bs(3)] by simp
  moreover have "length xs < 2 ^ 16"
    using r unsigned_less [of "u16_from_be_bytes c"] by simp
  ultimately show ?thesis
    using bs r rest by (auto simp: f encode_def block_file_wf_def)
qed

section \<open>Properties\<close>

text \<open>
  The decoder accepts exactly the wire forms. Decoding a byte string yields a container if
  and only if that container is well formed (fewer than \<open>2 ^ 16\<close> blocks, four-byte tags, data
  shorter than \<open>2 ^ 32\<close> bytes) and the string is its wire form, possibly followed by other
  bytes. In particular every well-formed container survives a round trip, no malformed string
  is accepted, and trailing bytes are ignored.
\<close>

theorem decode_iff_encoded:
  "decode bs = Inr f \<longleftrightarrow> block_file_wf f \<and> (\<exists>rest. bs = encode f @ rest)"
proof
  assume "block_file_wf f \<and> (\<exists>rest. bs = encode f @ rest)"
  then show "decode bs = Inr f"
    using decode_encode_prefix [of f] by (auto simp: block_file_wf_def)
qed (rule decode_sound)

text \<open>
  The block count wraps around at \<open>2 ^ 16\<close>. Decoding the wire form of a container with any
  number of blocks yields its first blocks only, as many as the true count modulo \<open>2 ^ 16\<close>: a
  container of 65536 blocks comes back empty, without an error.
\<close>

theorem block_count_wraps:
  assumes "\<forall>b \<in> set (blocks f). length (bl_tag b) = 4 \<and> length (bl_data b) < 2 ^ 32"
  shows "decode (encode f) = Inr \<lparr>blocks = take (length (blocks f) mod 2 ^ 16) (blocks f)\<rparr>"
  using decode_encode_prefix [of f "[]"] assms by (simp add: block_wf_def)

theorem block_count_wraps_witness:
  "decode (encode \<lparr>blocks = replicate 65536 \<lparr>bl_tag = tag_data, bl_data = [0]\<rparr>\<rparr>) =
     Inr \<lparr>blocks = []\<rparr>"
  using block_count_wraps [of "\<lparr>blocks = replicate 65536 \<lparr>bl_tag = tag_data, bl_data = [0]\<rparr>\<rparr>"]
  by (simp add: tag_data_def ascii_def del: replicate.simps)

end
