(* ===== verification/Supervisor.thy ===== *)
theory Supervisor
  imports Agent_Actor Actor_Registry Block_File
begin

text \<open>
  The supervisor of a node, \<^verbatim>\<open>src/actor/supervisor.rs\<close>: spawning agents from raw
  code or from block bundles, choosing their content verifier, restarting failed ones, stopping
  them and routing messages.

  Compiling a guest and restoring its state are calls of the WASM engine, decoding a vocabulary
  is \<open>serde_json\<close> and building a verifier from it belongs to the UNL crates: these are the
  parameters collected in \<open>supervisor_env\<close>. Instants and durations are in nanoseconds. Actor
  addresses are numbered in the order of their creation. What the supervisor sends or schedules
  is appended to \<open>sv_effects\<close>.
\<close>

section \<open>State\<close>

record ('w, 'st, 'v) supervisor_env =
  new_runtime :: "bytes \<Rightarrow> agent_capabilities \<Rightarrow> string + 'w"
  restore_state :: "'st \<Rightarrow> 'w \<Rightarrow> (string + unit) \<times> 'w"
  vocabulary_from_json :: "bytes \<Rightarrow> string + 'v"
  verifier_new :: "'v \<Rightarrow> sanitizer"

record 'st supervised_agent =
  sa_addr :: addr
  sa_config :: "'st agent_config"
  sa_strategy :: restart_strategy
  sa_failures :: "int list"
  sa_current_backoff :: duration
  sa_state :: agent_runtime_state

datatype 'w supervisor_effect =
    StartActor addr "'w agent_actor"
  | SendShutdown addr shutdown_reason
  | SendDeliver addr acl_message
  | SendRemote string acl_message
  | ScheduleRestart duration string

record ('w, 'st, 'v) supervisor =
  sv_agents :: "(string, 'st supervised_agent) hashmap"
  sv_network :: bool
  sv_registry :: bool
  sv_default_verifier :: "sanitizer option"
  sv_agent_verifiers :: "(string, sanitizer) hashmap"
  sv_vocab_registry :: "(string, 'v) hashmap"
  sv_outbound :: packager
  sv_node_id :: string
  sv_next_addr :: addr
  sv_effects :: "'w supervisor_effect list"

definition supervisor_new :: "packager \<Rightarrow> string \<Rightarrow> ('w, 'st, 'v) supervisor" where
  "supervisor_new pack node =
     \<lparr>sv_agents = [], sv_network = False, sv_registry = False, sv_default_verifier = None,
      sv_agent_verifiers = [], sv_vocab_registry = [], sv_outbound = pack, sv_node_id = node,
      sv_next_addr = 0, sv_effects = []\<rparr>"

definition supervisor_with_network :: "('w, 'st, 'v) supervisor \<Rightarrow> ('w, 'st, 'v) supervisor" where
  "supervisor_with_network s = s\<lparr>sv_network := True\<rparr>"

definition supervisor_with_registry :: "('w, 'st, 'v) supervisor \<Rightarrow> ('w, 'st, 'v) supervisor" where
  "supervisor_with_registry s = s\<lparr>sv_registry := True\<rparr>"

definition supervisor_with_content_verifier ::
  "sanitizer \<Rightarrow> ('w, 'st, 'v) supervisor \<Rightarrow> ('w, 'st, 'v) supervisor" where
  "supervisor_with_content_verifier v s = s\<lparr>sv_default_verifier := Some v\<rparr>"

definition supervisor_with_agent_verifier ::
  "string \<Rightarrow> sanitizer \<Rightarrow> ('w, 'st, 'v) supervisor \<Rightarrow> ('w, 'st, 'v) supervisor" where
  "supervisor_with_agent_verifier n v s =
     s\<lparr>sv_agent_verifiers := hm_insert n v (sv_agent_verifiers s)\<rparr>"

definition sv_emit ::
  "'w supervisor_effect \<Rightarrow> ('w, 'st, 'v) supervisor \<Rightarrow> ('w, 'st, 'v) supervisor" where
  "sv_emit e s = s\<lparr>sv_effects := sv_effects s @ [e]\<rparr>"

section \<open>Spawning\<close>

fun block_error_to_string :: "block_error \<Rightarrow> string" where
  "block_error_to_string BadMagic = ''not a block container (bad magic)''"
| "block_error_to_string (Version v) =
     ''unsupported block-container version: '' @ nat_to_string (unat v)"
| "block_error_to_string Truncated = ''truncated block container''"

definition vocabulary_from_bundle ::
  "('w, 'st, 'v) supervisor_env \<Rightarrow> block_file \<Rightarrow> (string + 'v) option" where
  "vocabulary_from_bundle env f = map_option (vocabulary_from_json env) (get_block tag_unl f)"

definition verifier_from_bundle ::
  "('w, 'st, 'v) supervisor_env \<Rightarrow> block_file \<Rightarrow> sanitizer option" where
  "verifier_from_bundle env f =
     (case vocabulary_from_bundle env f of
        Some (Inr v) \<Rightarrow> Some (verifier_new env v)
      | Some (Inl _) \<Rightarrow> None
      | None \<Rightarrow> None)"

definition select_verifier ::
  "('w, 'st, 'v) supervisor_env \<Rightarrow> ('w, 'st, 'v) supervisor \<Rightarrow> string \<Rightarrow> block_file option \<Rightarrow>
   sanitizer option" where
  "select_verifier env s n bundle =
     (case hm_get (sv_agent_verifiers s) n of
        Some v \<Rightarrow> Some v
      | None \<Rightarrow>
          (case Option.bind bundle (verifier_from_bundle env) of
             Some v \<Rightarrow> Some v
           | None \<Rightarrow> sv_default_verifier s))"

text \<open>The bundle, if the artifact is one, and the code to compile.\<close>

definition read_artifact :: "bytes \<Rightarrow> agent_error + (block_file option \<times> bytes)" where
  "read_artifact artifact =
     (if is_block_container artifact then
        (case decode artifact of
           Inl e \<Rightarrow> Inl (InvalidState (''invalid agent bundle: '' @ block_error_to_string e))
         | Inr f \<Rightarrow>
             (case get_block tag_wasm f of
                None \<Rightarrow> Inl (InvalidState ''agent bundle has no WASM block'')
              | Some code \<Rightarrow> Inr (Some f, code)))
      else Inr (None, artifact))"

definition build_runtime ::
  "('w, 'st, 'v) supervisor_env \<Rightarrow> bytes \<Rightarrow> 'st agent_config \<Rightarrow> agent_error + 'w" where
  "build_runtime env code config =
     (case new_runtime env code (ac_capabilities config) of
        Inl e \<Rightarrow> Inl (RuntimeError e)
      | Inr w \<Rightarrow>
          (case ac_initial_state config of
             None \<Rightarrow> Inr w
           | Some st \<Rightarrow>
               (case restore_state env st w of
                  (Inl e, _) \<Rightarrow> Inl (RuntimeError e)
                | (Inr _, w') \<Rightarrow> Inr w')))"

definition build_actor ::
  "('w, 'st, 'v) supervisor_env \<Rightarrow> ('w, 'st, 'v) supervisor \<Rightarrow> 'st agent_config \<Rightarrow>
   block_file option \<Rightarrow> 'w \<Rightarrow> 'w agent_actor" where
  "build_actor env s config bundle w =
     (let a0 = actor_with_supervisor (actor_new config w);
          a1 = (if sv_network s then actor_with_network a0 else a0);
          a2 = (if sv_registry s then actor_with_registry a1 else a1);
          a3 = (case select_verifier env s (name (ac_id config)) bundle of
                  None \<Rightarrow> a2
                | Some v \<Rightarrow> actor_with_content_verifier v a2);
          a4 = actor_with_outbound_packager (sv_outbound s) a3
      in case bundle of
           None \<Rightarrow> a4
         | Some f \<Rightarrow>
             (let unl = (case get_block tag_unl f of None \<Rightarrow> [] | Some d \<Rightarrow> d);
                  dat = (case get_block tag_data f of None \<Rightarrow> [] | Some d \<Rightarrow> d)
              in if unl \<noteq> [] \<or> dat \<noteq> [] then actor_with_seed unl dat a4 else a4))"

definition register_vocabulary ::
  "('w, 'st, 'v) supervisor_env \<Rightarrow> string \<Rightarrow> block_file option \<Rightarrow>
   ('w, 'st, 'v) supervisor \<Rightarrow> ('w, 'st, 'v) supervisor" where
  "register_vocabulary env n bundle s =
     (case Option.bind bundle (vocabulary_from_bundle env) of
        Some (Inr v) \<Rightarrow> s\<lparr>sv_vocab_registry := hm_insert n v (sv_vocab_registry s)\<rparr>
      | _ \<Rightarrow> s)"

definition initial_backoff :: duration where
  "initial_backoff = 1 * nanos_per_sec"

definition spawn_agent ::
  "('w, 'st, 'v) supervisor_env \<Rightarrow> 'st agent_config \<Rightarrow> ('w, 'st, 'v) supervisor \<Rightarrow>
   (agent_error + addr) \<times> ('w, 'st, 'v) supervisor" where
  "spawn_agent env config s =
     (let n = name (ac_id config)
      in if hm_contains (sv_agents s) n then
           (Inl (InvalidState (''Agent '' @ n @ '' already exists'')), s)
         else
           (case read_artifact (ac_wasm_module config) of
              Inl e \<Rightarrow> (Inl e, s)
            | Inr (bundle, code) \<Rightarrow>
                (case build_runtime env code config of
                   Inl e \<Rightarrow> (Inl e, s)
                 | Inr w \<Rightarrow>
                     (let s1 = register_vocabulary env n bundle s;
                          a = sv_next_addr s1;
                          s2 = sv_emit (StartActor a (build_actor env s1 config bundle w)) s1;
                          entry = \<lparr>sa_addr = a, sa_config = config,
                                   sa_strategy = restart_strategy_default, sa_failures = [],
                                   sa_current_backoff = initial_backoff, sa_state = Starting\<rparr>
                      in (Inr a,
                          s2\<lparr>sv_next_addr := a + 1, sv_agents := hm_insert n entry (sv_agents s2)\<rparr>)))))"

section \<open>Failures and restarts\<close>

text \<open>
  \<open>Duration::as_secs_f64\<close> and \<open>from_secs_f64\<close>; the latter panics on a value that is not a
  finite, non-negative number in the range of a duration, which is \<open>None\<close> here.
\<close>

definition as_secs_f64 :: "duration \<Rightarrow> f64" where
  "as_secs_f64 d =
     f64_add (f64_round (of_nat (d div nanos_per_sec)))
       (f64_round (of_nat (d mod nanos_per_sec) / of_nat nanos_per_sec))"

definition from_secs_f64 :: "f64 \<Rightarrow> duration option" where
  "from_secs_f64 x =
     (case x of
        Fin r \<Rightarrow>
          if 0 \<le> r \<and> r < 2 ^ 64 then Some (nat (round_half_even (r * of_nat nanos_per_sec))) else None
      | _ \<Rightarrow> None)"

definition f64_mul_pos :: "f64 \<Rightarrow> f64 \<Rightarrow> f64" where
  "f64_mul_pos x y =
     (case (x, y) of
        (Fin a, Fin b) \<Rightarrow> f64_round (a * b)
      | (Fin a, PosInf) \<Rightarrow> (if a = 0 then NaN else PosInf)
      | (Fin a, NegInf) \<Rightarrow> (if a = 0 then NaN else NegInf)
      | _ \<Rightarrow> NaN)"

definition f64_min :: "f64 \<Rightarrow> f64 \<Rightarrow> f64" where
  "f64_min x y = (if x = NaN then y else if y = NaN then x else if f64_lt y x then y else x)"

definition next_backoff :: "duration \<Rightarrow> f64 \<Rightarrow> duration \<Rightarrow> duration option" where
  "next_backoff current multiplier maximum =
     from_secs_f64 (f64_min (f64_mul_pos (as_secs_f64 current) multiplier) (as_secs_f64 maximum))"

definition should_restart :: "int \<Rightarrow> 'st supervised_agent \<Rightarrow> bool \<times> 'st supervised_agent" where
  "should_restart now a =
     (case sa_strategy a of
        Immediate \<Rightarrow> (True, a)
      | Backoff _ _ _ \<Rightarrow> (True, a)
      | MaxFailures count window \<Rightarrow>
          (let fs = filter (\<lambda>t. now - int window < t) (sa_failures a)
           in (length fs < unat count, a\<lparr>sa_failures := fs\<rparr>))
      | Never \<Rightarrow> (False, a))"

definition restart_delay :: "'st supervised_agent \<Rightarrow> (duration \<times> 'st supervised_agent) option" where
  "restart_delay a =
     (case sa_strategy a of
        Immediate \<Rightarrow> Some (0, a)
      | Backoff _ maximum multiplier \<Rightarrow>
          map_option (\<lambda>b. (sa_current_backoff a, a\<lparr>sa_current_backoff := b\<rparr>))
            (next_backoff (sa_current_backoff a) multiplier maximum)
      | _ \<Rightarrow> Some (1 * nanos_per_sec, a))"

text \<open>The two clock readings are that of the failure and that of the cutoff. \<open>None\<close> is a panic.\<close>

definition handle_failure ::
  "int \<Rightarrow> int \<Rightarrow> string \<Rightarrow> ('w, 'st, 'v) supervisor \<Rightarrow> ('w, 'st, 'v) supervisor option" where
  "handle_failure t1 t2 n s =
     (case hm_get (sv_agents s) n of
        None \<Rightarrow> Some s
      | Some a0 \<Rightarrow>
          (let a1 = a0\<lparr>sa_failures := sa_failures a0 @ [t1], sa_state := Failed\<rparr>;
               (again, a2) = should_restart t2 a1
           in if again then
                map_option
                  (\<lambda>(d, a3). sv_emit (ScheduleRestart d n)
                     (s\<lparr>sv_agents := hm_insert n a3 (sv_agents s)\<rparr>))
                  (restart_delay a2)
              else Some (s\<lparr>sv_agents := hm_insert n a2 (sv_agents s)\<rparr>)))"

text \<open>The closure of the timer.\<close>

definition restart_agent ::
  "('w, 'st, 'v) supervisor_env \<Rightarrow> string \<Rightarrow> ('w, 'st, 'v) supervisor \<Rightarrow> ('w, 'st, 'v) supervisor"
  where
  "restart_agent env n s =
     (case hm_get (sv_agents s) n of
        None \<Rightarrow> s
      | Some a \<Rightarrow>
          snd (spawn_agent env (sa_config a) (s\<lparr>sv_agents := hm_remove n (sv_agents s)\<rparr>)))"

section \<open>The other handlers\<close>

definition stop_agent ::
  "string \<Rightarrow> shutdown_reason \<Rightarrow> ('w, 'st, 'v) supervisor \<Rightarrow>
   (agent_error + unit) \<times> ('w, 'st, 'v) supervisor" where
  "stop_agent n reason s =
     (case hm_get (sv_agents s) n of
        None \<Rightarrow> (Inl (NotFound n), s)
      | Some a \<Rightarrow>
          (Inr (), sv_emit (SendShutdown (sa_addr a) reason)
             (s\<lparr>sv_agents := hm_remove n (sv_agents s)\<rparr>)))"

definition list_agents :: "('w, 'st, 'v) supervisor \<Rightarrow> agent_info list" where
  "list_agents s =
     map (\<lambda>(n, a). \<lparr>ai_agent_id = ac_id (sa_config a), ai_state = sa_state a,
            ai_restart_count = of_nat (length (sa_failures a)), ai_last_error = None\<rparr>)
       (sv_agents s)"

definition supervisor_stopping :: "('w, 'st, 'v) supervisor \<Rightarrow> ('w, 'st, 'v) supervisor" where
  "supervisor_stopping s =
     fold (\<lambda>(n, a). sv_emit (SendShutdown (sa_addr a) NodeShutdown)) (sv_agents s) s"

definition set_agent_state ::
  "string \<Rightarrow> agent_runtime_state \<Rightarrow> ('w, 'st, 'v) supervisor \<Rightarrow> ('w, 'st, 'v) supervisor" where
  "set_agent_state n st s =
     s\<lparr>sv_agents := hm_modify n (\<lambda>a. a\<lparr>sa_state := st\<rparr>) (sv_agents s)\<rparr>"

definition mark_started :: "'st supervised_agent \<Rightarrow> 'st supervised_agent" where
  "mark_started a =
     (case sa_strategy a of
        Backoff initial _ _ \<Rightarrow> a\<lparr>sa_state := Running, sa_current_backoff := initial\<rparr>
      | _ \<Rightarrow> a\<lparr>sa_state := Running\<rparr>)"

definition supervision_event ::
  "int \<Rightarrow> int \<Rightarrow> agent_id \<Rightarrow> supervision_event_type \<Rightarrow> ('w, 'st, 'v) supervisor \<Rightarrow>
   ('w, 'st, 'v) supervisor option" where
  "supervision_event t1 t2 who ev s =
     (let n = name who
      in case ev of
           EvStarted \<Rightarrow> Some (s\<lparr>sv_agents := hm_modify n mark_started (sv_agents s)\<rparr>)
         | EvStopped \<Rightarrow> Some (set_agent_state n Stopped s)
         | EvFailed err will_restart \<Rightarrow>
             if will_restart then handle_failure t1 t2 n s else Some s
         | EvMigrated from to \<Rightarrow> Some (s\<lparr>sv_agents := hm_remove n (sv_agents s)\<rparr>)
         | EvRecovered \<Rightarrow> Some (set_agent_state n Running s))"

definition deliver_one ::
  "acl_message \<Rightarrow> agent_id \<Rightarrow> ('w, 'st, 'v) supervisor \<Rightarrow> ('w, 'st, 'v) supervisor" where
  "deliver_one m r s =
     (case hm_get (sv_agents s) (name r) of
        Some a \<Rightarrow> sv_emit (SendDeliver (sa_addr a) m) s
      | None \<Rightarrow> if sv_network s then sv_emit (SendRemote [] m) s else s)"

definition supervisor_deliver ::
  "acl_message \<Rightarrow> ('w, 'st, 'v) supervisor \<Rightarrow> (agent_error + unit) \<times> ('w, 'st, 'v) supervisor" where
  "supervisor_deliver m s = (Inr (), fold (deliver_one m) (receivers m) s)"

section \<open>The backoff\<close>

lemma f64_round_0 [simp]: "f64_round 0 = Fin 0"
  by (simp add: f64_round_def)

lemma as_secs_whole: "k < 2 ^ 53 \<Longrightarrow> as_secs_f64 (k * nanos_per_sec) = Fin (of_nat k)"
  using f64_round_of_int [of "int k"] by (simp add: as_secs_f64_def nanos_per_sec_def)

lemma round_half_even_of_int [simp]: "round_half_even (of_int k) = k"
  by (simp add: round_half_even_def)

lemma from_secs_whole: "k < 2 ^ 64 \<Longrightarrow> from_secs_f64 (Fin (of_nat k)) = Some (k * nanos_per_sec)"
proof -
  assume "k < 2 ^ 64"
  then have "(of_nat k :: rat) < of_nat (2 ^ 64)" by (simp only: of_nat_less_iff)
  then have lt: "(of_nat k :: rat) < 2 ^ 64" by (simp only: of_nat_power of_nat_numeral)
  have "(of_nat k * of_nat nanos_per_sec :: rat) = of_int (int (k * nanos_per_sec))"
    by (simp only: of_int_of_nat_eq of_nat_mult of_int_mult)
  then have "nat (round_half_even (of_nat k * of_nat nanos_per_sec)) = k * nanos_per_sec"
    by (simp only: round_half_even_of_int nat_int)
  with lt show ?thesis by (simp only: from_secs_f64_def f64.case of_nat_0_le_iff simp_thms if_True)
qed

text \<open>Whole seconds double up to the maximum.\<close>

lemma next_backoff_doubles:
  assumes "k \<le> 60"
  shows "next_backoff (k * nanos_per_sec) (Fin 2) (60 * nanos_per_sec) =
    Some (min (2 * k) 60 * nanos_per_sec)"
proof -
  have r: "f64_round (of_nat k * 2) = Fin (of_nat (2 * k))"
    using f64_round_of_int [of "int (2 * k)"] assms by (simp add: mult.commute)
  have m: "f64_min (Fin (of_nat (2 * k))) (Fin (of_nat 60)) = Fin (of_nat (min (2 * k) 60))"
  proof (cases "60 < 2 * k")
    case True
    then have "(60 :: rat) < of_nat (2 * k)"
      using of_nat_less_iff [where 'a = rat, of 60 "2 * k"] by (simp only: of_nat_numeral)
    with True show ?thesis by (simp add: f64_min_def)
  next
    case False
    then have "(of_nat (2 * k) :: rat) \<le> 60"
      using of_nat_le_iff [where 'a = rat, of "2 * k" 60] by (simp only: of_nat_numeral not_less)
    with False show ?thesis by (simp add: f64_min_def)
  qed
  have k: "as_secs_f64 (k * nanos_per_sec) = Fin (of_nat k)"
    "as_secs_f64 (60 * nanos_per_sec) = Fin (of_nat 60)"
    by (rule as_secs_whole, rule le_less_trans [OF assms], simp, rule as_secs_whole, simp)
  have "min (2 * k) 60 < (2 ^ 64 :: nat)" by (rule le_less_trans [of _ 60]) simp_all
  note s = from_secs_whole [OF this]
  have "f64_mul_pos (Fin (of_nat k)) (Fin 2) = Fin (of_nat (2 * k))"
    by (simp only: f64_mul_pos_def prod.case f64.case r)
  then show ?thesis by (simp only: next_backoff_def k m s)
qed

lemma next_backoff_initial:
  "next_backoff initial_backoff (Fin 2) (60 * nanos_per_sec) = Some (2 * nanos_per_sec)"
  using next_backoff_doubles [of 1] by (simp add: initial_backoff_def)

section \<open>Invariant\<close>

text \<open>
  The table is keyed by the agents' names, addresses are never shared between entries, and every
  entry has the default restart strategy, whatever its configuration asks for.
\<close>

definition supervisor_invar :: "('w, 'st, 'v) supervisor \<Rightarrow> bool" where
  "supervisor_invar s \<longleftrightarrow>
     (\<forall>n a. hm_get (sv_agents s) n = Some a \<longrightarrow>
        name (ac_id (sa_config a)) = n \<and> sa_addr a < sv_next_addr s
        \<and> sa_strategy a = restart_strategy_default)
     \<and> (\<forall>n a n' a'. hm_get (sv_agents s) n = Some a \<longrightarrow> hm_get (sv_agents s) n' = Some a' \<longrightarrow>
        sa_addr a = sa_addr a' \<longrightarrow> n = n')"

lemma supervisor_invar_new [simp]: "supervisor_invar (supervisor_new pack node)"
  by (simp add: supervisor_invar_def supervisor_new_def)

lemma supervisor_invar_emit [simp]: "supervisor_invar (sv_emit e s) = supervisor_invar s"
  by (simp add: supervisor_invar_def sv_emit_def)

lemma supervisor_invar_remove [simp]:
  "supervisor_invar s \<Longrightarrow> supervisor_invar (s\<lparr>sv_agents := hm_remove n (sv_agents s)\<rparr>)"
  by (auto simp: supervisor_invar_def hashmap_simps)

lemma supervisor_invar_update:
  assumes "supervisor_invar s" "hm_get (sv_agents s) n = Some a"
    "sa_config a' = sa_config a" "sa_addr a' = sa_addr a" "sa_strategy a' = sa_strategy a"
  shows "supervisor_invar (s\<lparr>sv_agents := hm_insert n a' (sv_agents s)\<rparr>)"
  using assms by (auto simp: supervisor_invar_def hashmap_simps)

lemma supervisor_invar_modify:
  assumes "supervisor_invar s"
    "\<And>a. sa_config (f a) = sa_config a" "\<And>a. sa_addr (f a) = sa_addr a"
    "\<And>a. sa_strategy (f a) = sa_strategy a"
  shows "supervisor_invar (s\<lparr>sv_agents := hm_modify n f (sv_agents s)\<rparr>)"
proof -
  have old: "\<exists>a0. hm_get (sv_agents s) k = Some a0 \<and> sa_config a = sa_config a0
      \<and> sa_addr a = sa_addr a0 \<and> sa_strategy a = sa_strategy a0"
    if "hm_get (hm_modify n f (sv_agents s)) k = Some a" for k a
    using that assms(2-4) by (auto simp: hashmap_simps split: if_splits)
  have inv: "hm_get (sv_agents s) k = Some a0 \<Longrightarrow> name (ac_id (sa_config a0)) = k
      \<and> sa_addr a0 < sv_next_addr s \<and> sa_strategy a0 = restart_strategy_default" for k a0
    using assms(1) by (simp add: supervisor_invar_def)
  have uniq: "hm_get (sv_agents s) k = Some a \<Longrightarrow> hm_get (sv_agents s) k' = Some a' \<Longrightarrow>
      sa_addr a = sa_addr a' \<Longrightarrow> k = k'" for k a k' a'
    using assms(1) by (simp add: supervisor_invar_def)
  let ?s = "s\<lparr>sv_agents := hm_modify n f (sv_agents s)\<rparr>"
  have "name (ac_id (sa_config a)) = k \<and> sa_addr a < sv_next_addr s
      \<and> sa_strategy a = restart_strategy_default" if "hm_get (sv_agents ?s) k = Some a" for k a
    using old [of k a] inv [of k] that by auto
  moreover have "k = k'" if "hm_get (sv_agents ?s) k = Some a" "hm_get (sv_agents ?s) k' = Some a'"
    "sa_addr a = sa_addr a'" for k a k' a'
    using old [of k a] old [of k' a'] uniq [of k _ k'] that by auto
  ultimately show ?thesis unfolding supervisor_invar_def by simp
qed

text \<open>What a spawn does, on either outcome.\<close>

lemma register_vocabulary_frame [simp]:
  "sv_agents (register_vocabulary env n b s) = sv_agents s"
  "sv_next_addr (register_vocabulary env n b s) = sv_next_addr s"
  "sv_effects (register_vocabulary env n b s) = sv_effects s"
  "sv_network (register_vocabulary env n b s) = sv_network s"
  "sv_registry (register_vocabulary env n b s) = sv_registry s"
  "sv_outbound (register_vocabulary env n b s) = sv_outbound s"
  "sv_default_verifier (register_vocabulary env n b s) = sv_default_verifier s"
  "sv_agent_verifiers (register_vocabulary env n b s) = sv_agent_verifiers s"
  by (simp_all add: register_vocabulary_def split: option.splits sum.splits)

definition spawned_entry :: "'st agent_config \<Rightarrow> addr \<Rightarrow> 'st supervised_agent" where
  "spawned_entry config a =
     \<lparr>sa_addr = a, sa_config = config, sa_strategy = restart_strategy_default, sa_failures = [],
      sa_current_backoff = initial_backoff, sa_state = Starting\<rparr>"

lemma spawn_agent_ok:
  assumes "spawn_agent env config s = (Inr a, s')"
  shows "\<not> hm_contains (sv_agents s) (name (ac_id config))" "a = sv_next_addr s"
    "sv_next_addr s' = a + 1"
    "sv_agents s' = hm_insert (name (ac_id config)) (spawned_entry config a) (sv_agents s)"
    "\<exists>act. sv_effects s' = sv_effects s @ [StartActor a act]"
  using assms
  by (auto simp: spawn_agent_def Let_def sv_emit_def spawned_entry_def
      split: sum.splits if_splits prod.splits)

lemma spawn_agent_actor:
  assumes "spawn_agent env config s = (Inr a, s')"
  obtains bun code w s1 where "read_artifact (ac_wasm_module config) = Inr (bun, code)"
    "build_runtime env code config = Inr w"
    "sv_effects s' = sv_effects s @ [StartActor a (build_actor env s1 config bun w)]"
    "\<And>n. select_verifier env s1 n bun = select_verifier env s n bun"
proof -
  have regv: "select_verifier env (register_vocabulary env k b s) n b' = select_verifier env s n b'"
    for k b n b' by (simp add: select_verifier_def split: option.split)
  from assms obtain bun code w where "read_artifact (ac_wasm_module config) = Inr (bun, code)"
    "build_runtime env code config = Inr w"
    "sv_effects s' = sv_effects s @
       [StartActor a (build_actor env (register_vocabulary env (name (ac_id config)) bun s) config bun w)]"
    by (auto simp: spawn_agent_def Let_def sv_emit_def split: sum.splits if_splits prod.splits)
  with that regv show thesis by blast
qed

lemma build_actor_fresh [simp]:
  "aa_agent_id (build_actor env s config bundle w) = ac_id config"
  "aa_capabilities (build_actor env s config bundle w) = ac_capabilities config"
  "aa_mailbox (build_actor env s config bundle w) = []"
  "aa_conversations (build_actor env s config bundle w) = []"
  "aa_runtime (build_actor env s config bundle w) = w"
  "aa_supervisor (build_actor env s config bundle w)"
  "aa_effects (build_actor env s config bundle w) = []"
  "aa_verifier (build_actor env s config bundle w) =
     select_verifier env s (name (ac_id config)) bundle"
  by (simp_all add: build_actor_def actor_new_def actor_builder_defs Let_def split: option.split)

lemma spawn_agent_error: "spawn_agent env config s = (Inl e, s') \<Longrightarrow> s' = s"
  by (auto simp: spawn_agent_def Let_def split: sum.splits if_splits prod.splits)

lemma spawn_agent_succeeds:
  assumes "\<not> hm_contains (sv_agents s) (name (ac_id config))"
    "read_artifact (ac_wasm_module config) = Inr (bundle, code)"
    "build_runtime env code config = Inr w"
  shows "\<exists>s'. spawn_agent env config s = (Inr (sv_next_addr s), s')"
  using assms by (simp add: spawn_agent_def Let_def)

lemma spawn_agent_invar:
  assumes "supervisor_invar s"
  shows "supervisor_invar (snd (spawn_agent env config s))"
proof (cases "spawn_agent env config s")
  case (Pair r s')
  show ?thesis
  proof (cases r)
    case (Inr a)
    with Pair have "spawn_agent env config s = (Inr a, s')" by simp
    note ok = spawn_agent_ok [OF this]
    have fresh: "hm_get (sv_agents s) n = Some b \<Longrightarrow> sa_addr b < sv_next_addr s" for n b
      using assms by (simp add: supervisor_invar_def)
    from ok assms show ?thesis
      unfolding Pair supervisor_invar_def
      by (auto simp: hashmap_simps spawned_entry_def less_SucI split: if_splits dest: fresh)
  qed (use Pair assms in \<open>auto dest: spawn_agent_error\<close>)
qed

lemma should_restart_frame:
  "should_restart now a = (again, a') \<Longrightarrow>
   sa_config a' = sa_config a \<and> sa_addr a' = sa_addr a \<and> sa_strategy a' = sa_strategy a"
  by (auto simp: should_restart_def Let_def split: restart_strategy.splits)

lemma restart_delay_frame:
  "restart_delay a = Some (d, a') \<Longrightarrow>
   sa_config a' = sa_config a \<and> sa_addr a' = sa_addr a \<and> sa_strategy a' = sa_strategy a"
  by (auto simp: restart_delay_def split: restart_strategy.splits)

lemma handle_failure_invar:
  assumes "supervisor_invar s" "handle_failure t1 t2 n s = Some s'"
  shows "supervisor_invar s'"
  using assms
  by (auto simp: handle_failure_def Let_def split: option.splits prod.splits if_splits
      dest!: should_restart_frame restart_delay_frame intro!: supervisor_invar_update)

lemma restart_agent_invar:
  "supervisor_invar s \<Longrightarrow> supervisor_invar (restart_agent env n s)"
  by (auto simp: restart_agent_def split: option.splits intro!: spawn_agent_invar)

lemma supervision_event_invar:
  assumes "supervisor_invar s" "supervision_event t1 t2 who ev s = Some s'"
  shows "supervisor_invar s'"
  using assms
  by (cases ev)
    (auto simp: supervision_event_def set_agent_state_def mark_started_def
      intro!: supervisor_invar_modify intro: handle_failure_invar
      split: if_splits restart_strategy.splits)

lemma fold_sv_emit:
  "fold (\<lambda>x. sv_emit (g x)) xs s = s\<lparr>sv_effects := sv_effects s @ map g xs\<rparr>"
  by (induction xs arbitrary: s) (simp_all add: sv_emit_def)

lemma supervisor_stopping_eq:
  "supervisor_stopping s =
     s\<lparr>sv_effects := sv_effects s @
         map (\<lambda>(n, a). SendShutdown (sa_addr a) NodeShutdown) (sv_agents s)\<rparr>"
  using fold_sv_emit [of "\<lambda>x. SendShutdown (sa_addr (snd x)) NodeShutdown"]
  by (simp add: supervisor_stopping_def case_prod_unfold)

lemma supervisor_deliver_eq:
  "snd (supervisor_deliver m s) = s\<lparr>sv_effects := sv_effects s @
     concat (map (\<lambda>r. case hm_get (sv_agents s) (name r) of
                  Some a \<Rightarrow> [SendDeliver (sa_addr a) m]
                | None \<Rightarrow> if sv_network s then [SendRemote [] m] else []) (receivers m))\<rparr>"
proof -
  have "fold (deliver_one m) rs s = s\<lparr>sv_effects := sv_effects s @
     concat (map (\<lambda>r. case hm_get (sv_agents s) (name r) of
                  Some a \<Rightarrow> [SendDeliver (sa_addr a) m]
                | None \<Rightarrow> if sv_network s then [SendRemote [] m] else []) rs)\<rparr>" for rs
    by (induction rs arbitrary: s) (auto simp: deliver_one_def sv_emit_def split: option.split)
  then show ?thesis by (simp add: supervisor_deliver_def)
qed

section \<open>The supervisor as a transition system\<close>

inductive supervisor_step ::
  "('w, 'st, 'v) supervisor_env \<Rightarrow> ('w, 'st, 'v) supervisor \<Rightarrow> ('w, 'st, 'v) supervisor \<Rightarrow> bool"
  for env where
  spawn: "supervisor_step env s (snd (spawn_agent env config s))"
| stop: "supervisor_step env s (snd (stop_agent n reason s))"
| event: "supervision_event t1 t2 who ev s = Some s' \<Longrightarrow> supervisor_step env s s'"
| timer: "supervisor_step env s (restart_agent env n s)"
| deliver: "supervisor_step env s (snd (supervisor_deliver m s))"
| stopping: "supervisor_step env s (supervisor_stopping s)"

lemma supervisor_step_invar:
  assumes "supervisor_step env s s'" "supervisor_invar s"
  shows "supervisor_invar s'"
  using assms
proof cases
  case (stop n reason)
  with assms(2) show ?thesis by (auto simp: stop_agent_def split: option.splits)
next
  case (deliver m)
  with assms(2) show ?thesis by (simp add: supervisor_deliver_eq supervisor_invar_def)
next
  case stopping
  with assms(2) show ?thesis by (simp add: supervisor_stopping_eq supervisor_invar_def)
qed (use assms(2) in \<open>auto intro: spawn_agent_invar restart_agent_invar supervision_event_invar\<close>)

section \<open>Properties\<close>


definition demo_env :: "(acl_message list, unit, unit) supervisor_env" where
  "demo_env =
     \<lparr>new_runtime = (\<lambda>_ _. Inr []), restore_state = (\<lambda>_ w. (Inr (), w)),
      vocabulary_from_json = (\<lambda>_. Inl ''no json''), verifier_new = (\<lambda>_ _. Inr None)\<rparr>"

definition demo_config :: "restart_strategy \<Rightarrow> unit agent_config" where
  "demo_config strategy =
     \<lparr>ac_id = plain_agent ''a'', ac_wasm_module = [0], ac_capabilities = demo_capabilities,
      ac_initial_state = None, ac_restart_strategy = strategy\<rparr>"

definition demo_supervisor :: "(acl_message list, unit, unit) supervisor" where
  "demo_supervisor = supervisor_new (\<lambda>_ _ _ _. Inl ''no packager'') ''node''"

lemma demo_artifact: "read_artifact [0] = Inr (None, [0])"
  by (simp add: read_artifact_def is_block_container_def magic_def ascii_def)

lemma demo_spawn:
  "\<exists>s. spawn_agent demo_env (demo_config strategy) demo_supervisor = (Inr 0, s)
     \<and> sv_agents s = [(''a'', spawned_entry (demo_config strategy) 0)]
     \<and> (\<exists>act. sv_effects s = [StartActor 0 act])"
proof -
  have "\<not> hm_contains (sv_agents demo_supervisor) (name (ac_id (demo_config strategy)))"
    "read_artifact (ac_wasm_module (demo_config strategy)) = Inr (None, [0])"
    "build_runtime demo_env [0] (demo_config strategy) = Inr []"
    by (simp_all add: demo_supervisor_def supervisor_new_def demo_config_def demo_artifact
        build_runtime_def demo_env_def hashmap_simps)
  from spawn_agent_succeeds [OF this] obtain s where
    s: "spawn_agent demo_env (demo_config strategy) demo_supervisor = (Inr 0, s)"
    by (auto simp: demo_supervisor_def supervisor_new_def)
  from spawn_agent_ok [OF s] s show ?thesis
    by (auto simp: demo_supervisor_def supervisor_new_def demo_config_def hm_insert_def)
qed


text \<open>
  Message routing. For every receiver, in the order of the list, the supervisor hands the
  message to the receiver's actor if it supervises one of that name, otherwise to the network if
  there is one, and otherwise drops it; nothing else happens, and the handler never fails.
\<close>

theorem supervisor_routes_to_each_receiver:
  "supervisor_deliver m s = (Inr (), s\<lparr>sv_effects := sv_effects s @
     concat (map (\<lambda>r. case hm_get (sv_agents s) (name r) of
                  Some a \<Rightarrow> [SendDeliver (sa_addr a) m]
                | None \<Rightarrow> if sv_network s then [SendRemote [] m] else []) (receivers m))\<rparr>)"
  using supervisor_deliver_eq [of m s] by (simp add: supervisor_deliver_def)

section \<open>Restarting\<close>

text \<open>One crash of an agent: the failure event, the event of the stopping actor, the timer.\<close>

definition restart_cycle ::
  "('w, 'st, 'v) supervisor_env \<Rightarrow> string \<Rightarrow> int \<times> int \<Rightarrow> ('w, 'st, 'v) supervisor \<Rightarrow>
   ('w, 'st, 'v) supervisor option" where
  "restart_cycle env n t s =
     map_option (\<lambda>s1. restart_agent env n (set_agent_state n Stopped s1))
       (handle_failure (fst t) (snd t) n s)"

fun restart_cycles ::
  "('w, 'st, 'v) supervisor_env \<Rightarrow> string \<Rightarrow> (int \<times> int) list \<Rightarrow> ('w, 'st, 'v) supervisor \<Rightarrow>
   ('w, 'st, 'v) supervisor option" where
  "restart_cycles env n [] s = Some s"
| "restart_cycles env n (t # ts) s = Option.bind (restart_cycle env n t s) (restart_cycles env n ts)"

definition scheduled_delays :: "('w, 'st, 'v) supervisor \<Rightarrow> duration list" where
  "scheduled_delays s =
     concat (map (\<lambda>e. case e of ScheduleRestart d _ \<Rightarrow> [d] | _ \<Rightarrow> []) (sv_effects s))"

text \<open>An entry as the supervisor creates it, and as a start notification leaves it.\<close>

definition fresh_entry :: "'st agent_config \<Rightarrow> 'st supervised_agent \<Rightarrow> bool" where
  "fresh_entry config a \<longleftrightarrow> sa_config a = config \<and> sa_strategy a = restart_strategy_default
     \<and> sa_current_backoff a = initial_backoff"

lemma handle_failure_fresh:
  assumes "hm_get (sv_agents s) n = Some a" "fresh_entry config a"
  shows "handle_failure t1 t2 n s =
    Some (s\<lparr>sv_agents := hm_insert n (a\<lparr>sa_failures := sa_failures a @ [t1], sa_state := Failed,
               sa_current_backoff := 2 * nanos_per_sec\<rparr>) (sv_agents s),
            sv_effects := sv_effects s @ [ScheduleRestart initial_backoff n]\<rparr>)"
  using assms next_backoff_initial
  by (simp add: handle_failure_def fresh_entry_def should_restart_def restart_delay_def
      restart_strategy_default_def sv_emit_def)

lemma restart_agent_respawns:
  assumes "hm_get (sv_agents s) n = Some a" "name (ac_id (sa_config a)) = n"
    "read_artifact (ac_wasm_module (sa_config a)) = Inr (bundle, code)"
    "build_runtime env code (sa_config a) = Inr w"
  shows "hm_get (sv_agents (restart_agent env n s)) n =
      Some (spawned_entry (sa_config a) (sv_next_addr s))
    \<and> (\<exists>act. sv_effects (restart_agent env n s) =
        sv_effects s @ [StartActor (sv_next_addr s) act])"
proof -
  let ?s = "s\<lparr>sv_agents := hm_remove n (sv_agents s)\<rparr>"
  have "\<not> hm_contains (sv_agents ?s) (name (ac_id (sa_config a)))"
    using assms(2) by (simp add: hashmap_simps)
  from spawn_agent_succeeds [OF this assms(3,4)] obtain s' where
    s': "spawn_agent env (sa_config a) ?s = (Inr (sv_next_addr s), s')" by auto
  from spawn_agent_ok [OF s'] s' assms(1,2) show ?thesis
    by (simp add: restart_agent_def hashmap_simps)
qed

lemma restart_cycle_fresh:
  assumes "hm_get (sv_agents s) n = Some a" "fresh_entry config a" "name (ac_id config) = n"
    "read_artifact (ac_wasm_module config) = Inr (bundle, code)"
    "build_runtime env code config = Inr w"
  shows "\<exists>s'. restart_cycle env n t s = Some s'
    \<and> hm_get (sv_agents s') n = Some (spawned_entry config (sv_next_addr s))
    \<and> scheduled_delays s' = scheduled_delays s @ [initial_backoff]"
proof -
  obtain s1 a1 where f: "handle_failure (fst t) (snd t) n s = Some s1"
    and s1: "hm_get (sv_agents (set_agent_state n Stopped s1)) n = Some a1" "sa_config a1 = config"
      "sv_next_addr (set_agent_state n Stopped s1) = sv_next_addr s"
      "sv_effects (set_agent_state n Stopped s1) =
         sv_effects s @ [ScheduleRestart initial_backoff n]"
    using handle_failure_fresh [OF assms(1,2), of "fst t" "snd t"] assms(2)
    by (simp add: set_agent_state_def hashmap_simps fresh_entry_def)
  have "name (ac_id (sa_config a1)) = n"
    "read_artifact (ac_wasm_module (sa_config a1)) = Inr (bundle, code)"
    "build_runtime env code (sa_config a1) = Inr w"
    using assms(3-5) s1(2) by simp_all
  note r = restart_agent_respawns [OF s1(1) this]
  then obtain act where "sv_effects (restart_agent env n (set_agent_state n Stopped s1)) =
      sv_effects s @ [ScheduleRestart initial_backoff n] @ [StartActor (sv_next_addr s) act]"
    using s1(3,4) by auto
  with r s1(2,3) show ?thesis
    by (simp add: restart_cycle_def f scheduled_delays_def)
qed

lemma fresh_spawned_entry [simp]: "fresh_entry config (spawned_entry config a)"
  by (simp add: fresh_entry_def spawned_entry_def)

text \<open>
  The exponential backoff never backs off. An agent that keeps crashing is restarted for
  ever, each time after the same initial delay of one second: the restart removes the entry with
  its doubled delay and its failure history, and spawning creates a fresh one. This holds for
  every configured restart strategy, also for one that asks never to restart or to give up
  after some failures, since the supervisor installs its default strategy.
\<close>

theorem restart_never_backs_off:
  assumes "hm_get (sv_agents s) n = Some a" "fresh_entry config a" "name (ac_id config) = n"
    "read_artifact (ac_wasm_module config) = Inr (bundle, code)"
    "build_runtime env code config = Inr w"
  shows "\<exists>s' a'. restart_cycles env n ts s = Some s' \<and> hm_get (sv_agents s') n = Some a'
    \<and> fresh_entry config a'
    \<and> scheduled_delays s' = scheduled_delays s @ replicate (length ts) (1 * nanos_per_sec)"
  using assms(1,2)
proof (induction ts arbitrary: s a)
  case Nil
  then show ?case by auto
next
  case (Cons t ts)
  from restart_cycle_fresh [OF Cons.prems assms(3-5), of t] obtain s1 where
    s1: "restart_cycle env n t s = Some s1"
      "hm_get (sv_agents s1) n = Some (spawned_entry config (sv_next_addr s))"
      "scheduled_delays s1 = scheduled_delays s @ [initial_backoff]" by blast
  from Cons.IH [OF s1(2) fresh_spawned_entry] s1(1,3) show ?case
    by (auto simp: initial_backoff_def)
qed

theorem restart_never_backs_off_witness:
  "\<exists>s s'. spawn_agent demo_env (demo_config Never) demo_supervisor = (Inr 0, s)
     \<and> restart_cycles demo_env ''a'' [(5, 5), (10, 10), (15, 15)] s = Some s'
     \<and> scheduled_delays s' = [1000000000, 1000000000, 1000000000]"
proof -
  obtain s where s: "spawn_agent demo_env (demo_config Never) demo_supervisor = (Inr 0, s)"
    and get: "hm_get (sv_agents s) ''a'' = Some (spawned_entry (demo_config Never) 0)"
    and eff: "scheduled_delays s = []"
    using demo_spawn [of Never] by (auto simp: scheduled_delays_def)
  have "name (ac_id (demo_config Never)) = ''a''"
    "read_artifact (ac_wasm_module (demo_config Never)) = Inr (None, [0])"
    "build_runtime demo_env [0] (demo_config Never) = Inr []"
    by (simp_all add: demo_config_def demo_artifact build_runtime_def demo_env_def)
  from restart_never_backs_off [OF get fresh_spawned_entry this, of "[(5, 5), (10, 10), (15, 15)]"]
  show ?thesis using s eff by (auto simp: nanos_per_sec_def numeral_3_eq_3)
qed

text \<open>
  A restart timer orphans whatever actor holds the name when it fires. If the failed agent
  was stopped and replaced in the meantime, the healthy replacement is dropped from the table
  without being told to shut down: afterwards no entry has its address, and a new actor runs
  under its name if the artifact still loads.
\<close>

theorem restart_timer_orphans:
  assumes "supervisor_invar s" "hm_get (sv_agents s) n = Some a"
  shows "(\<forall>n' a'. hm_get (sv_agents (restart_agent env n s)) n' = Some a' \<longrightarrow> sa_addr a' \<noteq> sa_addr a)
    \<and> (\<exists>starts. sv_effects (restart_agent env n s) = sv_effects s @ starts
        \<and> (\<forall>reason. SendShutdown (sa_addr a) reason \<notin> set starts))"
proof -
  let ?s = "s\<lparr>sv_agents := hm_remove n (sv_agents s)\<rparr>"
  from assms have others: "sa_addr a' \<noteq> sa_addr a"
    if "hm_get (sv_agents ?s) n' = Some a'" for n' a'
    using that by (force simp: supervisor_invar_def hashmap_simps split: if_splits)
  from assms have less: "sa_addr a < sv_next_addr s" by (simp add: supervisor_invar_def)
  obtain r s' where sp: "spawn_agent env (sa_config a) ?s = (r, s')" by fastforce
  with assms(2) have s': "restart_agent env n s = s'" by (simp add: restart_agent_def)
  show ?thesis
  proof (cases r)
    case (Inl e)
    with sp spawn_agent_error have "s' = ?s" by blast
    with others show ?thesis by (auto simp: s')
  next
    case (Inr b)
    with sp have "spawn_agent env (sa_config a) ?s = (Inr b, s')" by simp
    from spawn_agent_ok [OF this] obtain act where b: "b = sv_next_addr s"
      "sv_agents s' = hm_insert (name (ac_id (sa_config a))) (spawned_entry (sa_config a) b)
         (sv_agents ?s)"
      "sv_effects s' = sv_effects s @ [StartActor b act]" by auto
    with others less show ?thesis
      by (auto simp: s' hm_get_insert spawned_entry_def split: if_splits)
  qed
qed

text \<open>The agent fails, is stopped by an operator and spawned anew before the timer fires.\<close>

definition demo_replaced :: "(acl_message list, unit, unit) supervisor" where
  "demo_replaced =
     (let s0 = snd (spawn_agent demo_env (demo_config Never) demo_supervisor);
          s1 = the (supervision_event 5 5 (plain_agent ''a'') (EvFailed ''trap'' True) s0);
          s2 = snd (stop_agent ''a'' Requested s1);
          s3 = snd (spawn_agent demo_env (demo_config Never) s2)
      in the (supervision_event 6 6 (plain_agent ''a'') EvStarted s3))"

lemma spawn_demo_again:
  assumes "sv_agents s = []"
  shows "\<exists>s' act. spawn_agent demo_env (demo_config Never) s = (Inr (sv_next_addr s), s')
    \<and> sv_agents s' = [(''a'', spawned_entry (demo_config Never) (sv_next_addr s))]
    \<and> sv_next_addr s' = sv_next_addr s + 1"
proof -
  have "\<not> hm_contains (sv_agents s) (name (ac_id (demo_config Never)))"
    "read_artifact (ac_wasm_module (demo_config Never)) = Inr (None, [0])"
    "build_runtime demo_env [0] (demo_config Never) = Inr []"
    using assms by (simp_all add: demo_config_def demo_artifact build_runtime_def demo_env_def
        hashmap_simps)
  from spawn_agent_succeeds [OF this] obtain s' where
    s': "spawn_agent demo_env (demo_config Never) s = (Inr (sv_next_addr s), s')" by auto
  from spawn_agent_ok [OF s'] s' assms show ?thesis
    by (auto simp: demo_config_def hm_insert_def)
qed

lemma demo_replaced_entry:
  "supervisor_invar demo_replaced
   \<and> (\<exists>a. hm_get (sv_agents demo_replaced) ''a'' = Some a \<and> sa_addr a = 1 \<and> sa_state a = Running)"
proof -
  obtain s0 where s0: "spawn_agent demo_env (demo_config Never) demo_supervisor = (Inr 0, s0)"
    "sv_agents s0 = [(''a'', spawned_entry (demo_config Never) 0)]" "sv_next_addr s0 = 1"
    using demo_spawn [of Never] spawn_agent_ok(3) by fastforce
  then have get: "hm_get (sv_agents s0) ''a'' = Some (spawned_entry (demo_config Never) 0)" by simp
  define s1 where "s1 = the (handle_failure 5 5 ''a'' s0)"
  have s1: "sv_next_addr s1 = 1" "\<exists>a. sv_agents s1 = [(''a'', a)]"
    unfolding s1_def handle_failure_fresh [OF get fresh_spawned_entry]
    by (simp_all add: s0 hm_insert_def)
  define s2 where "s2 = snd (stop_agent ''a'' Requested s1)"
  have s2: "sv_agents s2 = []" "sv_next_addr s2 = 1"
    using s1 by (auto simp: s2_def stop_agent_def sv_emit_def hm_remove_def)
  from spawn_demo_again [OF s2(1)] s2(2) obtain s3 where
    s3: "spawn_agent demo_env (demo_config Never) s2 = (Inr 1, s3)"
      "sv_agents s3 = [(''a'', spawned_entry (demo_config Never) 1)]" "sv_next_addr s3 = 2"
    by auto
  have d: "demo_replaced = s3\<lparr>sv_agents := hm_modify ''a'' mark_started (sv_agents s3)\<rparr>"
    using s0(1) s3(1) by (simp add: demo_replaced_def supervision_event_def s1_def s2_def)
  show ?thesis
    by (simp add: d s3 hm_modify_def supervisor_invar_def mark_started_def spawned_entry_def
        restart_strategy_default_def demo_config_def)
qed

theorem restart_timer_orphans_witness:
  "(\<exists>a. hm_get (sv_agents demo_replaced) ''a'' = Some a \<and> sa_addr a = 1)
   \<and> \<not> (\<exists>n a. hm_get (sv_agents (restart_agent demo_env ''a'' demo_replaced)) n = Some a
         \<and> sa_addr a = 1)"
proof -
  obtain a where "supervisor_invar demo_replaced" "hm_get (sv_agents demo_replaced) ''a'' = Some a"
    "sa_addr a = 1" using demo_replaced_entry by blast
  with restart_timer_orphans [of demo_replaced "''a''" a demo_env] show ?thesis by auto
qed

end
