(* ===== verification/Permissions.thy ===== *)
theory Permissions
  imports Rust_Strings "HOL-Library.Multiset"
begin

text \<open>
  Permission-based access control, \<^verbatim>\<open>src/security/permissions.rs\<close>: actions,
  resource patterns, permissions that allow or deny, sets of them and the check that a request
  passes, in its plain and its reporting form.
\<close>

section \<open>Actions\<close>

datatype action =
  Create | Read | Update | Delete | Execute | Subscribe | Admin | Custom string

datatype permission_error =
    Denied string string
  | SessionExpired
  | InvalidPattern string
  | UnknownResource string

fun action_as_str :: "action \<Rightarrow> string" where
  "action_as_str Create = ''create''"
| "action_as_str Read = ''read''"
| "action_as_str Update = ''update''"
| "action_as_str Delete = ''delete''"
| "action_as_str Execute = ''execute''"
| "action_as_str Subscribe = ''subscribe''"
| "action_as_str Admin = ''admin''"
| "action_as_str (Custom s) = s"

definition action_from_str :: "string \<Rightarrow> action" where
  "action_from_str s =
     (let l = to_lowercase s
      in if l = ''create'' then Create
         else if l = ''read'' then Read
         else if l = ''update'' then Update
         else if l = ''delete'' then Delete
         else if l = ''execute'' then Execute
         else if l = ''subscribe'' then Subscribe
         else if l = ''admin'' then Admin
         else Custom s)"

definition implies_action :: "action \<Rightarrow> action \<Rightarrow> bool" where
  "implies_action a b = (if a = b then True else a = Admin)"

section \<open>Resources\<close>

record resource =
  resource_type :: string
  resource_name :: string

definition resource_new :: "string \<Rightarrow> string \<Rightarrow> resource" where
  "resource_new t n = \<lparr>resource_type = t, resource_name = n\<rparr>"

definition resource_all :: "string \<Rightarrow> resource" where
  "resource_all t = \<lparr>resource_type = t, resource_name = ''*''\<rparr>"

definition resource_parse :: "string \<Rightarrow> permission_error + resource" where
  "resource_parse s =
     (case splitn2 (CHR ''/'') s of
        [t, n] \<Rightarrow> Inr (resource_new t n)
      | [t] \<Rightarrow> Inr (resource_all t)
      | _ \<Rightarrow> Inl (InvalidPattern s))"

definition resource_to_string :: "resource \<Rightarrow> string" where
  "resource_to_string r = resource_type r @ ''/'' @ resource_name r"

text \<open>
  The wildcard match that resources and role bindings share word for word: a pattern with a
  star at the start or the end, with every star removed.
\<close>

definition wildcard_match :: "string \<Rightarrow> string \<Rightarrow> bool" where
  "wildcard_match p n =
     (if p = ''*'' then True
      else if contains_char p (CHR ''*'') then
        (let q = remove_char (CHR ''*'') p
         in if starts_with p ''*'' \<and> ends_with p ''*'' then contains_str n q
            else if starts_with p ''*'' then ends_with n q
            else if ends_with p ''*'' then starts_with n q
            else p = n)
      else p = n)"

definition resource_matches :: "resource \<Rightarrow> resource \<Rightarrow> bool" where
  "resource_matches r other =
     (if resource_type r \<noteq> resource_type other \<and> resource_type r \<noteq> ''*'' then False
      else wildcard_match (resource_name r) (resource_name other))"

text \<open>The module \<open>resources\<close>.\<close>

definition agent_resource :: "string \<Rightarrow> resource" where
  "agent_resource n = resource_new ''agent'' n"

definition all_agents_resource :: resource where
  "all_agents_resource = resource_all ''agent''"

definition service_resource :: "string \<Rightarrow> resource" where
  "service_resource n = resource_new ''service'' n"

definition all_services_resource :: resource where
  "all_services_resource = resource_all ''service''"

definition df_resource :: resource where
  "df_resource = resource_new ''platform'' ''df''"

definition ams_resource :: resource where
  "ams_resource = resource_new ''platform'' ''ams''"

definition message_resource :: "string \<Rightarrow> resource" where
  "message_resource agent = resource_new ''message'' agent"

definition all_messages_resource :: resource where
  "all_messages_resource = resource_all ''message''"

section \<open>Permissions\<close>

record permission =
  perm_resource :: resource
  perm_actions :: "action set"
  perm_deny :: bool

definition permission_allow :: "resource \<Rightarrow> action list \<Rightarrow> permission" where
  "permission_allow r as = \<lparr>perm_resource = r, perm_actions = set as, perm_deny = False\<rparr>"

definition permission_deny :: "resource \<Rightarrow> action list \<Rightarrow> permission" where
  "permission_deny r as = \<lparr>perm_resource = r, perm_actions = set as, perm_deny = True\<rparr>"

definition permission_allow_all :: "resource \<Rightarrow> permission" where
  "permission_allow_all r =
     \<lparr>perm_resource = r, perm_actions = set [Create, Read, Update, Delete, Execute, Subscribe],
      perm_deny = False\<rparr>"

definition permission_allows :: "permission \<Rightarrow> action \<Rightarrow> bool" where
  "permission_allows p a = (if perm_deny p then False else \<exists>b \<in> perm_actions p. implies_action b a)"

definition permission_denies :: "permission \<Rightarrow> action \<Rightarrow> bool" where
  "permission_denies p a =
     (if \<not> perm_deny p then False else \<exists>b \<in> perm_actions p. b = a \<or> b = Admin)"

section \<open>Permission sets\<close>

record permission_set =
  permissions :: "permission list"

definition permission_set_new :: permission_set where
  "permission_set_new = \<lparr>permissions = []\<rparr>"

definition add_permission :: "permission \<Rightarrow> permission_set \<Rightarrow> permission_set" where
  "add_permission p s = s\<lparr>permissions := permissions s @ [p]\<rparr>"

definition permission_set_admin :: permission_set where
  "permission_set_admin =
     add_permission (permission_allow (resource_all ''*'') [Admin]) permission_set_new"

definition set_allow :: "resource \<Rightarrow> action list \<Rightarrow> permission_set \<Rightarrow> permission_set" where
  "set_allow r as s = add_permission (permission_allow r as) s"

definition set_deny :: "resource \<Rightarrow> action list \<Rightarrow> permission_set \<Rightarrow> permission_set" where
  "set_deny r as s = add_permission (permission_deny r as) s"

definition merge_permissions :: "permission_set \<Rightarrow> permission_set \<Rightarrow> permission_set" where
  "merge_permissions other s = fold add_permission (permissions other) s"

text \<open>The two loops of the check, each returning from the function when it fires.\<close>

definition denying :: "resource \<Rightarrow> action \<Rightarrow> permission \<Rightarrow> bool" where
  "denying r a p \<longleftrightarrow> perm_deny p \<and> resource_matches (perm_resource p) r \<and> permission_denies p a"

definition allowing :: "resource \<Rightarrow> action \<Rightarrow> permission \<Rightarrow> bool" where
  "allowing r a p \<longleftrightarrow> \<not> perm_deny p \<and> resource_matches (perm_resource p) r \<and> permission_allows p a"

definition check_permissions :: "permission_set \<Rightarrow> resource \<Rightarrow> action \<Rightarrow> bool" where
  "check_permissions s r a =
     (case find (denying r a) (permissions s) of
        Some _ \<Rightarrow> False
      | None \<Rightarrow>
          (case find (allowing r a) (permissions s) of
             Some _ \<Rightarrow> True
           | None \<Rightarrow> False))"

record permission_report =
  pc_resource :: resource
  pc_action :: action
  pc_granted :: bool
  pc_matching_permission :: "permission option"
  pc_reason :: string

definition permission_check :: "permission_set \<Rightarrow> resource \<Rightarrow> action \<Rightarrow> permission_report" where
  "permission_check s r a =
     (case find (denying r a) (permissions s) of
        Some p \<Rightarrow>
          \<lparr>pc_resource = r, pc_action = a, pc_granted = False, pc_matching_permission = Some p,
           pc_reason = ''Explicitly denied by permission on '' @ resource_to_string (perm_resource p)\<rparr>
      | None \<Rightarrow>
          (case find (allowing r a) (permissions s) of
             Some p \<Rightarrow>
               \<lparr>pc_resource = r, pc_action = a, pc_granted = True, pc_matching_permission = Some p,
                pc_reason = ''Allowed by permission on '' @ resource_to_string (perm_resource p)\<rparr>
           | None \<Rightarrow>
               \<lparr>pc_resource = r, pc_action = a, pc_granted = False, pc_matching_permission = None,
                pc_reason = ''No matching permission found (default deny)''\<rparr>))"

section \<open>Lemmas\<close>

lemma merge_permissions_list [simp]:
  "permissions (merge_permissions other s) = permissions s @ permissions other"
proof -
  have "permissions (fold add_permission ps s) = permissions s @ ps" for ps
    by (induction ps arbitrary: s) (simp_all add: add_permission_def)
  then show ?thesis by (simp add: merge_permissions_def)
qed

lemma check_permissions_iff:
  "check_permissions s r a \<longleftrightarrow>
     (\<exists>p \<in> set (permissions s). allowing r a p) \<and> \<not> (\<exists>p \<in> set (permissions s). denying r a p)"
  by (auto simp: check_permissions_def find_None_iff find_Some_iff split: option.splits)

lemma resource_parse_ok: "\<exists>r. resource_parse s = Inr r"
  by (simp add: resource_parse_def splitn2_def)

lemma check_empty [simp]: "permissions s = [] \<Longrightarrow> \<not> check_permissions s r a"
  by (simp add: check_permissions_def)

section \<open>Properties\<close>

text \<open>
  Denials take precedence and the default is to deny. A request is granted exactly if some
  allow permission whose pattern matches the resource contains the action or \<open>Admin\<close>, and no
  deny permission whose pattern matches contains the action or \<open>Admin\<close>; so the order in which
  permissions were added never matters.
\<close>

theorem check_denies_override:
  "check_permissions s r a \<longleftrightarrow>
     (\<exists>p \<in> set (permissions s). \<not> perm_deny p \<and> resource_matches (perm_resource p) r
        \<and> perm_actions p \<inter> {a, Admin} \<noteq> {})
     \<and> \<not> (\<exists>p \<in> set (permissions s). perm_deny p \<and> resource_matches (perm_resource p) r
        \<and> perm_actions p \<inter> {a, Admin} \<noteq> {})"
  by (auto simp: check_permissions_iff allowing_def denying_def permission_allows_def
      permission_denies_def implies_action_def)

text \<open>
  Merging is safe. A merged set grants a request exactly if one of the two sets allows it
  and neither denies it; merging in either order gives the same decisions, and a request that
  one set denies explicitly stays denied.
\<close>

theorem merge_grants_iff:
  "check_permissions (merge_permissions other s) r a \<longleftrightarrow>
     (check_permissions s r a \<or> check_permissions other r a)
     \<and> find (denying r a) (permissions s) = None \<and> find (denying r a) (permissions other) = None"
  by (auto simp: check_permissions_iff find_None_iff)

text \<open>
  The reporting check decides like the plain one, and its report is right: a granted request
  names an allowing permission of the set, a refused one names a denying permission, or none
  exactly if no permission of the set allows or denies the request.
\<close>

theorem report_agrees_with_check:
  "pc_granted (permission_check s r a) = check_permissions s r a
   \<and> (case pc_matching_permission (permission_check s r a) of
        None \<Rightarrow> \<not> (\<exists>p \<in> set (permissions s). allowing r a p \<or> denying r a p)
      | Some p \<Rightarrow> p \<in> set (permissions s)
          \<and> (if pc_granted (permission_check s r a) then allowing r a p else denying r a p))"
  by (auto simp: permission_check_def check_permissions_def find_None_iff find_Some_iff
      split: option.splits intro: nth_mem)

text \<open>
  Resources print and parse back. Parsing the text of a resource whose type contains no
  slash yields the resource, slashes in the name included; and parsing never fails.
\<close>

theorem resource_roundtrip:
  assumes "CHR ''/'' \<notin> set (resource_type r)"
  shows "resource_parse (resource_to_string r) = Inr r \<and> (\<exists>r'. resource_parse s = Inr r')"
  using assms splitn2_append [of "CHR ''/''" "resource_type r" "resource_name r"] resource_parse_ok
  by (simp add: resource_parse_def resource_to_string_def resource_new_def)

theorem resource_roundtrip_witness:
  "resource_parse ''agent/a/b'' = Inr \<lparr>resource_type = ''agent'', resource_name = ''a/b''\<rparr>"
  using resource_roundtrip [of "\<lparr>resource_type = ''agent'', resource_name = ''a/b''\<rparr>"]
  by (simp add: resource_to_string_def)

text \<open>
  Stars inside a pattern are not wildcards. A pattern that contains a star but neither
  starts nor ends with one matches only the name spelled like it, star included; and a pattern
  that ends with its second star matches by the concatenation of its parts, so \<open>a*b*\<close> accepts
  exactly the names that start with \<open>ab\<close>.
\<close>

theorem inner_stars_are_literal:
  assumes "a \<noteq> []" "b \<noteq> []" "CHR ''*'' \<notin> set a" "CHR ''*'' \<notin> set b"
  shows "(wildcard_match (a @ ''*'' @ b) n \<longleftrightarrow> n = a @ ''*'' @ b)
    \<and> (wildcard_match (a @ ''*'' @ b @ ''*'') n \<longleftrightarrow> prefix (a @ b) n)"
proof -
  have f: "filter (\<lambda>x. x \<noteq> CHR ''*'') a = a" "filter (\<lambda>x. x \<noteq> CHR ''*'') b = b"
    using assms by (auto simp: filter_id_conv)
  have h: "hd a \<noteq> CHR ''*''" "last b \<noteq> CHR ''*''"
    using assms by (metis hd_in_set, metis last_in_set)
  have s: "\<not> prefix ''*'' (a @ x)" for x using assms(1) h(1) by (cases a) auto
  have e: "\<not> suffix ''*'' (x @ b)" for x
    using assms(2) h(2) by (cases b rule: rev_cases) (auto simp: suffix_def)
  have e': "suffix ''*'' (x @ ''*'')" for x by (simp add: suffix_def)
  from s [of "''*'' @ b"] e [of "a @ ''*''"] s [of "''*'' @ b @ ''*''"] e' [of "a @ ''*'' @ b"] f assms(1,2)
  show ?thesis
    by (auto simp: wildcard_match_def contains_char_def remove_char_def starts_with_def
        ends_with_def Let_def Cons_eq_append_conv append_eq_Cons_conv)
qed

theorem inner_stars_are_literal_witness:
  "\<not> wildcard_match ''a*b'' ''a1b'' \<and> wildcard_match ''a*b*'' ''ab9''"
  using inner_stars_are_literal [of "''a''" "''b''" "''a1b''"]
    inner_stars_are_literal [of "''a''" "''b''" "''ab9''"] by simp

end
