(* ===== verification/Policy.thy ===== *)
theory Policy
  imports Permissions Keyed_Store
begin

text \<open>
  Role-based policies, \<^verbatim>\<open>src/security/policy.rs\<close>: roles with inheritance, bindings
  of agents to roles, the line-based reader of policy files and the engine that resolves and
  caches permissions.
\<close>

section \<open>Roles, bindings and policies\<close>

datatype policy_error =
    LoadError string
  | InvalidFormat string
  | RoleNotFound string
  | CircularInheritance string
  | IoError string

record policy_role =
  role_name :: string
  role_description :: string
  role_permissions :: permission_set
  role_inherits :: "string list"

definition role_new :: "string \<Rightarrow> policy_role" where
  "role_new n =
     \<lparr>role_name = n, role_description = [], role_permissions = permission_set_new,
      role_inherits = []\<rparr>"

definition role_with_description :: "string \<Rightarrow> policy_role \<Rightarrow> policy_role" where
  "role_with_description d r = r\<lparr>role_description := d\<rparr>"

definition role_allow :: "resource \<Rightarrow> action list \<Rightarrow> policy_role \<Rightarrow> policy_role" where
  "role_allow res as r = r\<lparr>role_permissions := set_allow res as (role_permissions r)\<rparr>"

definition role_deny :: "resource \<Rightarrow> action list \<Rightarrow> policy_role \<Rightarrow> policy_role" where
  "role_deny res as r = r\<lparr>role_permissions := set_deny res as (role_permissions r)\<rparr>"

definition role_inherits_from :: "string \<Rightarrow> policy_role \<Rightarrow> policy_role" where
  "role_inherits_from n r = r\<lparr>role_inherits := role_inherits r @ [n]\<rparr>"

record role_binding =
  rb_agent_pattern :: string
  rb_roles :: "string list"

definition binding_new :: "string \<Rightarrow> string list \<Rightarrow> role_binding" where
  "binding_new p rs = \<lparr>rb_agent_pattern = p, rb_roles = rs\<rparr>"

definition binding_matches :: "role_binding \<Rightarrow> string \<Rightarrow> bool" where
  "binding_matches b n = wildcard_match (rb_agent_pattern b) n"

record security_policy =
  sp_name :: string
  sp_version :: string
  sp_roles :: "(string, policy_role) hashmap"
  sp_bindings :: "role_binding list"
  sp_default_deny :: bool

definition policy_default :: security_policy where
  "policy_default =
     \<lparr>sp_name = ''default'', sp_version = ''1.0'', sp_roles = [], sp_bindings = [],
      sp_default_deny = True\<rparr>"

definition policy_new :: "string \<Rightarrow> security_policy" where
  "policy_new n = policy_default\<lparr>sp_name := n\<rparr>"

definition policy_add_role :: "policy_role \<Rightarrow> security_policy \<Rightarrow> security_policy" where
  "policy_add_role r p = p\<lparr>sp_roles := hm_insert (role_name r) r (sp_roles p)\<rparr>"

definition policy_add_binding :: "role_binding \<Rightarrow> security_policy \<Rightarrow> security_policy" where
  "policy_add_binding b p = p\<lparr>sp_bindings := sp_bindings p @ [b]\<rparr>"

definition get_role :: "security_policy \<Rightarrow> string \<Rightarrow> policy_role option" where
  "get_role p n = hm_get (sp_roles p) n"

section \<open>Reading a policy file\<close>

definition parse_key_value :: "string \<Rightarrow> (string \<times> string) option" where
  "parse_key_value l =
     (case splitn2 (CHR '':'') l of
        [k, v] \<Rightarrow> Some (trim k, trim_quotes (trim v))
      | _ \<Rightarrow> None)"

definition parse_list :: "string \<Rightarrow> string list" where
  "parse_list v =
     filter (\<lambda>s. s \<noteq> [])
       (map (\<lambda>s. trim_quotes (trim s))
         (split_char (CHR '','') (trim_matches (\<lambda>c. c = CHR ''['' \<or> c = CHR '']'') v)))"

text \<open>The variables of the loop.\<close>

datatype section_name = NoSection | PolicySection | RolesSection | BindingsSection

record reader =
  rd_policy :: security_policy
  rd_section :: section_name
  rd_role :: "policy_role option"
  rd_binding :: "(string \<times> string list) option"

definition reader_init :: reader where
  "reader_init =
     \<lparr>rd_policy = policy_default, rd_section = NoSection, rd_role = None, rd_binding = None\<rparr>"

text \<open>\<open>if let Some(role) = current_role.take() { policy.add_role(role); }\<close>\<close>

definition save_role :: "reader \<Rightarrow> reader" where
  "save_role d =
     (case rd_role d of
        None \<Rightarrow> d
      | Some r \<Rightarrow> d\<lparr>rd_policy := policy_add_role r (rd_policy d), rd_role := None\<rparr>)"

definition save_binding :: "reader \<Rightarrow> reader" where
  "save_binding d =
     (case rd_binding d of
        None \<Rightarrow> d
      | Some (p, rs) \<Rightarrow>
          d\<lparr>rd_policy := policy_add_binding (binding_new p rs) (rd_policy d), rd_binding := None\<rparr>)"

definition read_policy_line :: "string \<Rightarrow> reader \<Rightarrow> reader" where
  "read_policy_line l d =
     (case parse_key_value l of
        None \<Rightarrow> d
      | Some (k, v) \<Rightarrow>
          if k = ''name'' then d\<lparr>rd_policy := (rd_policy d)\<lparr>sp_name := v\<rparr>\<rparr>
          else if k = ''version'' then d\<lparr>rd_policy := (rd_policy d)\<lparr>sp_version := v\<rparr>\<rparr>
          else if k = ''default_deny'' then
            d\<lparr>rd_policy := (rd_policy d)\<lparr>sp_default_deny := to_lowercase v = ''true''\<rparr>\<rparr>
          else d)"

definition read_role_line :: "string \<Rightarrow> reader \<Rightarrow> reader" where
  "read_role_line l d =
     (if \<not> starts_with l ''-'' \<and> \<not> starts_with l '' '' \<and> ends_with l '':'' then
        (save_role d)\<lparr>rd_role := Some (role_new (trim_end_char (CHR '':'') l))\<rparr>
      else
        (case rd_role d of
           None \<Rightarrow> d
         | Some role \<Rightarrow>
             (case parse_key_value l of
                Some (k, v) \<Rightarrow>
                  if k = ''description'' then d\<lparr>rd_role := Some (role\<lparr>role_description := v\<rparr>)\<rparr>
                  else if k = ''inherits'' then
                    d\<lparr>rd_role := Some (role\<lparr>role_inherits := parse_list v\<rparr>)\<rparr>
                  else d
              | None \<Rightarrow>
                  if starts_with l ''- resource:'' then
                    (case resource_parse (trim_quotes (trim (trim_start_str ''- resource:'' l))) of
                       Inr res \<Rightarrow>
                         d\<lparr>rd_role := Some (role\<lparr>role_permissions :=
                             set_allow res [Read] (role_permissions role)\<rparr>)\<rparr>
                     | Inl _ \<Rightarrow> d)
                  else d)))"

definition read_binding_line :: "string \<Rightarrow> reader \<Rightarrow> reader" where
  "read_binding_line l d =
     (if starts_with l ''- agent:'' then
        (save_binding d)
          \<lparr>rd_binding := Some (trim_quotes (trim (trim_start_str ''- agent:'' l)), [])\<rparr>
      else
        (case parse_key_value l of
           None \<Rightarrow> d
         | Some (k, v) \<Rightarrow>
             if k = ''roles'' then
               (case rd_binding d of
                  None \<Rightarrow> d
                | Some (p, _) \<Rightarrow> d\<lparr>rd_binding := Some (p, parse_list v)\<rparr>)
             else d))"

definition read_line :: "string \<Rightarrow> reader \<Rightarrow> reader" where
  "read_line line d =
     (let l = trim line
      in if l = [] \<or> starts_with l ''#'' then d
         else if l = ''policy:'' then d\<lparr>rd_section := PolicySection\<rparr>
         else if l = ''roles:'' then (save_role d)\<lparr>rd_section := RolesSection\<rparr>
         else if l = ''bindings:'' then (save_role d)\<lparr>rd_section := BindingsSection\<rparr>
         else
           (case rd_section d of
              PolicySection \<Rightarrow> read_policy_line l d
            | RolesSection \<Rightarrow> read_role_line l d
            | BindingsSection \<Rightarrow> read_binding_line l d
            | NoSection \<Rightarrow> d))"

definition from_yaml :: "string \<Rightarrow> policy_error + security_policy" where
  "from_yaml content =
     Inr (rd_policy (save_binding (save_role (fold read_line (lines content) reader_init))))"

text \<open>Reading the file is the environment's: its content, or the error of reading it.\<close>

definition from_file :: "(string \<Rightarrow> string + string) \<Rightarrow> string \<Rightarrow> policy_error + security_policy" where
  "from_file read_to_string path =
     (case read_to_string path of
        Inl e \<Rightarrow> Inl (IoError e)
      | Inr content \<Rightarrow>
          if ends_with path ''.yaml'' \<or> ends_with path ''.yml'' then from_yaml content
          else if ends_with path ''.toml'' then
            Inl (InvalidFormat ''TOML support not yet implemented'')
          else from_yaml content)"

section \<open>Resolving inheritance\<close>

text \<open>
  The recursion of \<open>resolve_role_permissions\<close> with its shared list of visited roles, which is
  never shortened. The first argument bounds the depth; \<open>None\<close> means that it was too small,
  which \<open>resolve_enough\<close> below excludes for the bound that is used.
\<close>

fun resolve_role ::
  "nat \<Rightarrow> security_policy \<Rightarrow> string \<Rightarrow> string list \<Rightarrow>
   ((policy_error + permission_set) \<times> string list) option"
  and resolve_inherited ::
  "nat \<Rightarrow> security_policy \<Rightarrow> string list \<Rightarrow> permission_set \<Rightarrow> string list \<Rightarrow>
   ((policy_error + permission_set) \<times> string list) option" where
  "resolve_role 0 p n visited = None"
| "resolve_role (Suc k) p n visited =
     (if n \<in> set visited then Some (Inl (CircularInheritance n), visited)
      else
        (case get_role p n of
           None \<Rightarrow> Some (Inl (RoleNotFound n), visited @ [n])
         | Some r \<Rightarrow>
             resolve_inherited k p (role_inherits r) (role_permissions r) (visited @ [n])))"
| "resolve_inherited k p [] perms visited = Some (Inr perms, visited)"
| "resolve_inherited k p (x # xs) perms visited =
     (case resolve_role k p x visited of
        None \<Rightarrow> None
      | Some (Inl e, visited') \<Rightarrow> Some (Inl e, visited')
      | Some (Inr q, visited') \<Rightarrow>
          resolve_inherited k p xs (merge_permissions q perms) visited')"

definition resolve_depth :: "security_policy \<Rightarrow> nat" where
  "resolve_depth p = length (sp_roles p) + 2"

definition resolve_role_permissions :: "security_policy \<Rightarrow> string \<Rightarrow> policy_error + permission_set" where
  "resolve_role_permissions p n =
     (case resolve_role (resolve_depth p) p n [] of
        Some (r, _) \<Rightarrow> r
      | None \<Rightarrow> Inl (CircularInheritance n))"

section \<open>The engine\<close>

record policy_engine =
  pe_policy :: "security_policy option"
  pe_role_cache :: "(string, permission_set) hashmap"
  pe_agent_cache :: "(string, permission_set) hashmap"

definition engine_new :: policy_engine where
  "engine_new = \<lparr>pe_policy = None, pe_role_cache = [], pe_agent_cache = []\<rparr>"

definition resolve_all :: "security_policy \<Rightarrow> string list \<Rightarrow> (string, permission_set) hashmap" where
  "resolve_all p names =
     fold (\<lambda>n cache. case resolve_role_permissions p n of
             Inr q \<Rightarrow> hm_insert n q cache
           | Inl _ \<Rightarrow> cache) names []"

definition set_policy :: "security_policy \<Rightarrow> policy_engine \<Rightarrow> policy_engine" where
  "set_policy p e =
     \<lparr>pe_policy = Some p, pe_role_cache = resolve_all p (map fst (sp_roles p)), pe_agent_cache = []\<rparr>"

definition load_from_file ::
  "(string \<Rightarrow> string + string) \<Rightarrow> string \<Rightarrow> policy_engine \<Rightarrow> (policy_error + unit) \<times> policy_engine"
  where
  "load_from_file read_to_string path e =
     (case from_file read_to_string path of
        Inl err \<Rightarrow> (Inl err, e)
      | Inr p \<Rightarrow> (Inr (), set_policy p e))"

text \<open>The permissions of an agent without the cache.\<close>

definition compute_permissions :: "policy_engine \<Rightarrow> string \<Rightarrow> permission_set" where
  "compute_permissions e agent =
     (case pe_policy e of
        None \<Rightarrow> permission_set_new
      | Some p \<Rightarrow>
          fold (\<lambda>b perms.
                  if binding_matches b agent then
                    fold (\<lambda>r perms. case hm_get (pe_role_cache e) r of
                            Some q \<Rightarrow> merge_permissions q perms
                          | None \<Rightarrow> perms) (rb_roles b) perms
                  else perms)
            (sp_bindings p) permission_set_new)"

definition get_agent_permissions :: "string \<Rightarrow> policy_engine \<Rightarrow> permission_set \<times> policy_engine" where
  "get_agent_permissions agent e =
     (case hm_get (pe_agent_cache e) agent of
        Some q \<Rightarrow> (q, e)
      | None \<Rightarrow>
          (let q = compute_permissions e agent
           in (q, e\<lparr>pe_agent_cache := hm_insert agent q (pe_agent_cache e)\<rparr>)))"

definition check_permission ::
  "string \<Rightarrow> string \<Rightarrow> string \<Rightarrow> policy_engine \<Rightarrow> bool \<times> policy_engine" where
  "check_permission agent res act e =
     (let (q, e') = get_agent_permissions agent e
      in case resource_parse res of
           Inl _ \<Rightarrow> (False, e')
         | Inr r \<Rightarrow> (check_permissions q r (action_from_str act), e'))"

definition add_builtin_role :: "policy_role \<Rightarrow> policy_engine \<Rightarrow> policy_engine" where
  "add_builtin_role r e =
     e\<lparr>pe_role_cache := hm_insert (role_name r) (role_permissions r) (pe_role_cache e),
       pe_policy := Some (policy_add_role r
         (case pe_policy e of Some p \<Rightarrow> p | None \<Rightarrow> policy_default))\<rparr>"

definition engine_add_binding :: "role_binding \<Rightarrow> policy_engine \<Rightarrow> policy_engine" where
  "engine_add_binding b e =
     e\<lparr>pe_agent_cache := [],
       pe_policy := Some (policy_add_binding b
         (case pe_policy e of Some p \<Rightarrow> p | None \<Rightarrow> policy_default))\<rparr>"

definition with_defaults :: "policy_engine \<Rightarrow> policy_engine" where
  "with_defaults e =
     (let admin = role_allow (resource_all ''*'') [Admin]
            (role_with_description ''Full administrative access'' (role_new ''admin''));
          platform = role_allow (resource_all ''message'') [Read, Execute]
            (role_allow (resource_all ''service'') [Read, Create, Update, Delete]
              (role_allow (resource_all ''agent'') [Read, Create, Delete]
                (role_with_description ''Platform agent access'' (role_new ''platform''))));
          user = role_allow (resource_new ''platform'' ''df'') [Read, Execute]
            (role_allow (resource_all ''service'') [Read]
              (role_allow (resource_all ''agent'') [Read]
                (role_with_description ''Standard user access'' (role_new ''user''))));
          anonymous = role_allow (resource_new ''platform'' ''df'') [Read]
            (role_with_description ''Minimal anonymous access'' (role_new ''anonymous''))
      in engine_add_binding (binding_new ''*'' [''user''])
          (engine_add_binding (binding_new ''df'' [''platform''])
            (engine_add_binding (binding_new ''ams'' [''platform'', ''admin''])
              (add_builtin_role anonymous
                (add_builtin_role user (add_builtin_role platform (add_builtin_role admin e)))))))"

section \<open>Resolution: the depth suffices\<close>

definition role_keys :: "security_policy \<Rightarrow> string set" where
  "role_keys p = fst ` set (sp_roles p)"

lemma get_role_key: "get_role p n = Some r \<Longrightarrow> n \<in> role_keys p"
  by (force simp: get_role_def role_keys_def dest: map_of_SomeD)

lemma resolve_enough:
  "card (role_keys p - set visited) < k \<Longrightarrow>
     \<exists>r visited'. resolve_role k p n visited = Some (r, visited') \<and> set visited \<subseteq> set visited'"
  "card (role_keys p - set visited) < k \<Longrightarrow>
     \<exists>r visited'. resolve_inherited k p xs perms visited = Some (r, visited')
       \<and> set visited \<subseteq> set visited'"
proof (induction k p n visited and k p xs perms visited
    rule: resolve_role_resolve_inherited.induct)
  case (2 k p n visited)
  show ?case
  proof (cases "n \<in> set visited \<or> get_role p n = None")
    case False
    then obtain r where r: "get_role p n = Some r" "n \<notin> set visited" by auto
    have "role_keys p - set (visited @ [n]) \<subset> role_keys p - set visited"
      using get_role_key [OF r(1)] r(2) by auto
    then have "card (role_keys p - set (visited @ [n])) < card (role_keys p - set visited)"
      by (intro psubset_card_mono) (auto simp: role_keys_def)
    with 2(2) have "card (role_keys p - set (visited @ [n])) < k" by linarith
    from 2(1) [OF r(2,1) this] r show ?thesis by auto
  qed auto
next
  case (4 k p x xs perms visited)
  from 4(1) [OF 4(3)] obtain r v where
    r: "resolve_role k p x visited = Some (r, v)" "set visited \<subseteq> set v" by blast
  show ?case
  proof (cases r)
    case (Inr q)
    have "card (role_keys p - set v) \<le> card (role_keys p - set visited)"
      using r(2) by (intro card_mono) (auto simp: role_keys_def)
    with 4(3) have "card (role_keys p - set v) < k" by linarith
    from 4(2) [OF r(1) _ Inr this] r Inr show ?thesis by auto
  qed (use r in auto)
qed auto

lemma resolve_role_permissions_eq:
  "\<exists>visited. resolve_role (resolve_depth p) p n [] = Some (resolve_role_permissions p n, visited)"
proof -
  have "card (role_keys p) \<le> length (sp_roles p)"
    unfolding role_keys_def by (metis card_length length_map set_map)
  then have "card (role_keys p - set []) < resolve_depth p" by (simp add: resolve_depth_def)
  from resolve_enough(1) [OF this, of n] show ?thesis by (auto simp: resolve_role_permissions_def)
qed

section \<open>Resolution: what it yields\<close>

definition inherits_rel :: "security_policy \<Rightarrow> (string \<times> string) set" where
  "inherits_rel p = {(n, m). \<exists>r. get_role p n = Some r \<and> m \<in> set (role_inherits r)}"

definition own_permissions :: "security_policy \<Rightarrow> string \<Rightarrow> permission list" where
  "own_permissions p n =
     (case get_role p n of None \<Rightarrow> [] | Some r \<Rightarrow> permissions (role_permissions r))"

text \<open>A traversal: the roles newly visited, closed under inheritance.\<close>

definition traversal :: "security_policy \<Rightarrow> string list \<Rightarrow> bool" where
  "traversal p new \<longleftrightarrow>
     (\<forall>m \<in> set new. get_role p m \<noteq> None \<and> inherits_rel p `` {m} \<subseteq> set new)"

lemma resolve_traversal:
  "resolve_role k p n visited = Some (Inr q, visited') \<Longrightarrow>
     \<exists>new. visited' = visited @ new \<and> n \<in> set new \<and> traversal p new
       \<and> set new \<subseteq> (inherits_rel p)\<^sup>* `` {n}
       \<and> permissions q = concat (map (own_permissions p) new)"
  "resolve_inherited k p xs perms visited = Some (Inr q, visited') \<Longrightarrow>
     \<exists>new. visited' = visited @ new \<and> set xs \<subseteq> set new \<and> traversal p new
       \<and> set new \<subseteq> (inherits_rel p)\<^sup>* `` set xs
       \<and> permissions q = permissions perms @ concat (map (own_permissions p) new)"
proof (induction k p n visited and k p xs perms visited arbitrary: q visited' and q visited'
    rule: resolve_role_resolve_inherited.induct)
  case (2 k p n visited)
  from 2(2) obtain r where r: "n \<notin> set visited" "get_role p n = Some r"
    and res: "resolve_inherited k p (role_inherits r) (role_permissions r) (visited @ [n]) =
      Some (Inr q, visited')"
    by (auto split: if_splits option.splits)
  from 2(1) [OF r res] obtain new where new: "visited' = (visited @ [n]) @ new"
    "set (role_inherits r) \<subseteq> set new" "traversal p new"
    "set new \<subseteq> (inherits_rel p)\<^sup>* `` set (role_inherits r)"
    "permissions q = permissions (role_permissions r) @ concat (map (own_permissions p) new)"
    by blast
  have child: "inherits_rel p `` {n} = set (role_inherits r)"
    using r(2) by (auto simp: inherits_rel_def)
  then have "(inherits_rel p)\<^sup>* `` set (role_inherits r) \<subseteq> (inherits_rel p)\<^sup>* `` {n}"
    by (auto intro: converse_rtrancl_into_rtrancl)
  with new(4) have "set new \<subseteq> (inherits_rel p)\<^sup>* `` {n}" by (rule order_trans)
  moreover have "own_permissions p n = permissions (role_permissions r)"
    using r(2) by (simp add: own_permissions_def)
  ultimately show ?case using new(1,2,3,5) r child
    by (intro exI [of _ "n # new"]) (auto simp: traversal_def)
next
  case (4 k p x xs perms visited)
  from 4(3) obtain q1 v1 where
    a: "resolve_role k p x visited = Some (Inr q1, v1)"
      "resolve_inherited k p xs (merge_permissions q1 perms) v1 = Some (Inr q, visited')"
    by (auto split: option.splits sum.splits)
  from 4(1) [OF a(1)] obtain n1 where n1: "v1 = visited @ n1" "x \<in> set n1" "traversal p n1"
    "set n1 \<subseteq> (inherits_rel p)\<^sup>* `` {x}" "permissions q1 = concat (map (own_permissions p) n1)"
    by blast
  from 4(2) [OF a(1) refl refl a(2)] obtain n2 where n2: "visited' = v1 @ n2"
    "set xs \<subseteq> set n2" "traversal p n2" "set n2 \<subseteq> (inherits_rel p)\<^sup>* `` set xs"
    "permissions q = permissions (merge_permissions q1 perms) @ concat (map (own_permissions p) n2)"
    by blast
  from n1 n2 show ?case
    by (intro exI [of _ "n1 @ n2"]) (auto simp: traversal_def)
qed (auto simp: traversal_def)

lemma traversal_closed:
  assumes "traversal p new" "(m, m') \<in> (inherits_rel p)\<^sup>*" "m \<in> set new"
  shows "m' \<in> set new"
  using assms(2,3)
proof (induction rule: rtrancl_induct)
  case (step y z)
  with assms(1) show ?case by (auto simp: traversal_def)
qed

section \<open>The cache of resolved roles\<close>

lemma resolve_all_get:
  "hm_get (resolve_all p names) n =
     (if n \<in> set names then
        (case resolve_role_permissions p n of Inr q \<Rightarrow> Some q | Inl _ \<Rightarrow> None)
      else None)"
proof -
  have "hm_get (fold (\<lambda>n cache. case resolve_role_permissions p n of
             Inr q \<Rightarrow> hm_insert n q cache | Inl _ \<Rightarrow> cache) names c) n =
     (if n \<in> set names then
        (case resolve_role_permissions p n of Inr q \<Rightarrow> Some q | Inl _ \<Rightarrow> hm_get c n)
      else hm_get c n)" for c
    by (induction names arbitrary: c) (auto simp: hashmap_simps split: sum.splits)
  from this [of "[]"] show ?thesis by (simp add: resolve_all_def split: sum.split)
qed

definition bound_roles :: "security_policy \<Rightarrow> string \<Rightarrow> string list" where
  "bound_roles p agent =
     concat (map rb_roles (filter (\<lambda>b. binding_matches b agent) (sp_bindings p)))"

lemma compute_permissions_list:
  "permissions (compute_permissions e agent) =
     (case pe_policy e of
        None \<Rightarrow> []
      | Some p \<Rightarrow>
          concat (map (\<lambda>r. case hm_get (pe_role_cache e) r of None \<Rightarrow> [] | Some q \<Rightarrow> permissions q)
            (bound_roles p agent)))"
proof -
  let ?g = "\<lambda>r. case hm_get (pe_role_cache e) r of None \<Rightarrow> [] | Some q \<Rightarrow> permissions q"
  have inner: "permissions (fold (\<lambda>r perms. case hm_get (pe_role_cache e) r of
        Some q \<Rightarrow> merge_permissions q perms | None \<Rightarrow> perms) rs perms) =
      permissions perms @ concat (map ?g rs)" for rs perms
    by (induction rs arbitrary: perms) (simp_all split: option.split)
  have "permissions (fold (\<lambda>b perms.
        if binding_matches b agent then
          fold (\<lambda>r perms. case hm_get (pe_role_cache e) r of
                  Some q \<Rightarrow> merge_permissions q perms | None \<Rightarrow> perms) (rb_roles b) perms
        else perms) bs perms) =
      permissions perms @
        concat (map ?g (concat (map rb_roles (filter (\<lambda>b. binding_matches b agent) bs))))"
    for bs perms
    by (induction bs arbitrary: perms) (simp_all add: inner)
  then show ?thesis
    by (simp add: compute_permissions_def bound_roles_def permission_set_new_def
        split: option.split)
qed

section \<open>Properties\<close>


definition demo_roles :: security_policy where
  "demo_roles =
     policy_add_role (role_inherits_from ''base'' (role_new ''top''))
       (policy_add_role (role_allow (resource_all ''agent'') [Read] (role_new ''base''))
         policy_default)"

lemma demo_roles_resolved:
  "resolve_role_permissions demo_roles ''top'' =
     Inr \<lparr>permissions = [permission_allow (resource_all ''agent'') [Read]]\<rparr>"
  by (simp add: resolve_role_permissions_def resolve_depth_def demo_roles_def policy_add_role_def
      policy_default_def role_inherits_from_def role_allow_def role_new_def get_role_def
      hm_insert_def merge_permissions_def add_permission_def set_allow_def permission_set_new_def
      numeral_2_eq_2)


text \<open>
  Diamond inheritance is reported as circular. If a role inherits from two different roles
  that both inherit from the same one, resolving it fails although nothing is circular, because
  the list of visited roles is shared between siblings; the policy engine then has no
  permissions at all for the role, not even its own.
\<close>

theorem diamond_inheritance_rejected:
  assumes "get_role p a = Some ra" "role_inherits ra = [b, c]"
    "get_role p b = Some rb" "role_inherits rb = [d]"
    "get_role p c = Some rc" "role_inherits rc = [d]"
    "get_role p d = Some rd" "role_inherits rd = []" "distinct [a, b, c, d]"
  shows "resolve_role_permissions p a = Inl (CircularInheritance d)
    \<and> hm_get (pe_role_cache (set_policy p e)) a = None"
proof -
  obtain l where l: "length (sp_roles p) = Suc l"
    using assms(1) by (cases "sp_roles p") (auto simp: get_role_def)
  have "resolve_role_permissions p a = Inl (CircularInheritance d)"
    using assms(1-8) assms(9) by (auto simp: resolve_role_permissions_def resolve_depth_def l)
  then show ?thesis by (simp add: set_policy_def resolve_all_get)
qed

definition demo_diamond :: security_policy where
  "demo_diamond =
     fold policy_add_role
       [role_inherits_from ''c'' (role_inherits_from ''b'' (role_new ''a'')),
        role_inherits_from ''d'' (role_new ''b''), role_inherits_from ''d'' (role_new ''c''),
        role_new ''d''] policy_default"

theorem diamond_inheritance_rejected_witness:
  "resolve_role_permissions demo_diamond ''a'' = Inl (CircularInheritance ''d'')"
  using diamond_inheritance_rejected [of demo_diamond "''a''"
      "role_inherits_from ''c'' (role_inherits_from ''b'' (role_new ''a''))" "''b''" "''c''"
      "role_inherits_from ''d'' (role_new ''b'')" "''d''"
      "role_inherits_from ''d'' (role_new ''c'')" "role_new ''d''"]
  by (simp add: demo_diamond_def policy_add_role_def get_role_def hashmap_simps
      role_inherits_from_def role_new_def)

section \<open>What a policy file can grant\<close>

definition grants_nothing :: "policy_role \<Rightarrow> bool" where
  "grants_nothing r \<longleftrightarrow> permissions (role_permissions r) = []"

definition reader_grants_nothing :: "reader \<Rightarrow> bool" where
  "reader_grants_nothing d \<longleftrightarrow>
     (\<forall>n r. hm_get (sp_roles (rd_policy d)) n = Some r \<longrightarrow> grants_nothing r)
     \<and> (\<forall>r. rd_role d = Some r \<longrightarrow> grants_nothing r)"

lemma parse_key_value_colon: "CHR '':'' \<in> set l \<Longrightarrow> parse_key_value l \<noteq> None"
  by (simp add: parse_key_value_def splitn2_def)

text \<open>The branch that would add a permission is dead: its line contains a colon.\<close>

lemma resource_line_has_key: "starts_with l ''- resource:'' \<Longrightarrow> parse_key_value l \<noteq> None"
  by (rule parse_key_value_colon) (auto simp: starts_with_def prefix_def)

lemma save_role_grants_nothing:
  "reader_grants_nothing d \<Longrightarrow> reader_grants_nothing (save_role d)"
  by (auto simp: reader_grants_nothing_def save_role_def policy_add_role_def hashmap_simps
      split: option.splits)

lemma save_binding_grants_nothing:
  "reader_grants_nothing d \<Longrightarrow> reader_grants_nothing (save_binding d)"
  by (auto simp: reader_grants_nothing_def save_binding_def policy_add_binding_def
      split: option.splits)

lemma read_policy_line_grants_nothing:
  "reader_grants_nothing d \<Longrightarrow> reader_grants_nothing (read_policy_line l d)"
  by (auto simp: reader_grants_nothing_def read_policy_line_def split: option.splits)

lemma read_role_line_grants_nothing:
  assumes "reader_grants_nothing d"
  shows "reader_grants_nothing (read_role_line l d)"
proof -
  have new: "grants_nothing (role_new n)" for n
    by (simp add: grants_nothing_def role_new_def permission_set_new_def)
  show ?thesis
    using assms save_role_grants_nothing [OF assms] resource_line_has_key [of l] new
    unfolding read_role_line_def reader_grants_nothing_def
    by (auto simp: grants_nothing_def split: option.splits)
qed

lemma read_binding_line_grants_nothing:
  "reader_grants_nothing d \<Longrightarrow> reader_grants_nothing (read_binding_line l d)"
  using save_binding_grants_nothing [of d]
  by (auto simp: reader_grants_nothing_def read_binding_line_def split: option.splits)

lemma section_grants_nothing [simp]:
  "reader_grants_nothing (d\<lparr>rd_section := x\<rparr>) = reader_grants_nothing d"
  by (simp add: reader_grants_nothing_def)

lemma read_line_grants_nothing:
  "reader_grants_nothing d \<Longrightarrow> reader_grants_nothing (read_line l d)"
  by (auto simp: read_line_def Let_def intro: save_role_grants_nothing
      read_policy_line_grants_nothing read_role_line_grants_nothing
      read_binding_line_grants_nothing split: section_name.splits)

lemma from_yaml_grants_nothing:
  assumes "from_yaml content = Inr p" "get_role p n = Some r"
  shows "permissions (role_permissions r) = []"
proof -
  have "reader_grants_nothing reader_init"
    by (simp add: reader_grants_nothing_def reader_init_def policy_default_def)
  moreover have "reader_grants_nothing d \<Longrightarrow> reader_grants_nothing (fold read_line ls d)" for ls d
    by (induction ls arbitrary: d) (auto intro: read_line_grants_nothing)
  ultimately have "reader_grants_nothing
      (save_binding (save_role (fold read_line (lines content) reader_init)))"
    by (blast intro: save_binding_grants_nothing save_role_grants_nothing)
  with assms show ?thesis
    by (auto simp: from_yaml_def reader_grants_nothing_def get_role_def grants_nothing_def)
qed

lemma set_policy_agent_permissions:
  "fst (get_agent_permissions agent (set_policy p e)) = compute_permissions (set_policy p e) agent"
  by (simp add: get_agent_permissions_def set_policy_def Let_def)

text \<open>
  A policy file grants nothing. Whatever text is loaded, the engine then refuses every
  action on every resource to every agent: a line \<open>- resource: ..\<close> contains a colon, so it is
  taken for a key and a value, and the branch that would add the permission is never reached.
\<close>

theorem loaded_policy_denies_everything:
  assumes "load_from_file read_to_string path e = (Inr (), e')"
  shows "\<not> fst (check_permission agent res act e')"
proof -
  from assms obtain content p where p: "from_yaml content = Inr p" "e' = set_policy p e"
    by (auto simp: load_from_file_def from_file_def split: sum.splits if_splits)
  have none: "own_permissions p m = []" for m
    using from_yaml_grants_nothing [OF p(1), of m] by (auto simp: own_permissions_def split: option.split)
  have "permissions q = []" if "hm_get (pe_role_cache e') r = Some q" for r q
  proof -
    from that have "resolve_role_permissions p r = Inr q"
      by (auto simp: p(2) set_policy_def resolve_all_get split: if_splits sum.splits)
    from resolve_traversal(1) [of "resolve_depth p" p r "[]" q]
      resolve_role_permissions_eq [of p r] this none show ?thesis by fastforce
  qed
  then have "permissions (compute_permissions e' agent) = []"
    by (auto simp: compute_permissions_list split: option.split)
  then show ?thesis
    by (auto simp: check_permission_def p(2) set_policy_agent_permissions case_prod_unfold Let_def
        split: sum.split)
qed

text \<open>The example of the source's comment, with one role, its permission and its binding.\<close>

definition demo_yaml :: string where
  "demo_yaml = concat (map (\<lambda>l. l @ [CHR 0x0A])
     [''roles:'', ''  admin:'', ''    description: Administrator role'', ''    permissions:'',
      ''      - resource: */*'', ''        actions: [admin]'', ''bindings:'', ''  - agent: *'',
      ''    roles: [admin]''])"

theorem loaded_policy_denies_everything_witness:
  "\<not> fst (check_permission ''admin-1'' ''agent/x'' ''read''
     (snd (load_from_file (\<lambda>_. Inr demo_yaml) ''policy.yaml'' engine_new)))"
proof -
  have "ends_with ''policy.yaml'' ''.yaml''"
    unfolding ends_with_def by (intro suffixI [of _ "''policy''"]) simp
  then obtain e' where
    e': "load_from_file (\<lambda>_. Inr demo_yaml) ''policy.yaml'' engine_new = (Inr (), e')"
    by (simp add: load_from_file_def from_file_def from_yaml_def)
  from loaded_policy_denies_everything [OF this] e' show ?thesis by simp
qed

section \<open>The agent cache\<close>

text \<open>Every cached entry is what would be computed now.\<close>

definition cache_coherent :: "policy_engine \<Rightarrow> bool" where
  "cache_coherent e \<longleftrightarrow>
     (\<forall>n q. hm_get (pe_agent_cache e) n = Some q \<longrightarrow> q = compute_permissions e n)"

inductive engine_step :: "policy_engine \<Rightarrow> policy_engine \<Rightarrow> bool" where
  policy: "engine_step e (set_policy p e)"
| binding: "engine_step e (engine_add_binding b e)"
| check: "engine_step e (snd (check_permission agent res act e))"

lemma compute_permissions_cache [simp]:
  "compute_permissions (e\<lparr>pe_agent_cache := c\<rparr>) n = compute_permissions e n"
  by (simp add: compute_permissions_def cong: if_cong split: option.split)

lemma get_agent_permissions_coherent:
  assumes "cache_coherent e"
  shows "fst (get_agent_permissions n e) = compute_permissions e n
    \<and> cache_coherent (snd (get_agent_permissions n e))"
  using assms by (auto simp: cache_coherent_def get_agent_permissions_def Let_def hashmap_simps
      split: option.splits)

lemma check_permission_engine:
  "snd (check_permission n res act e) = snd (get_agent_permissions n e)"
  by (simp add: check_permission_def case_prod_unfold Let_def split: sum.split)

lemma engine_step_coherent: "engine_step e e' \<Longrightarrow> cache_coherent e \<Longrightarrow> cache_coherent e'"
  by (erule engine_step.cases)
    (auto simp: check_permission_engine get_agent_permissions_coherent,
      auto simp: cache_coherent_def set_policy_def engine_add_binding_def)

text \<open>
  The agent cache is transparent. After any sequence of installing policies, adding bindings
  and checking permissions, a check decides by the permissions computed from the current policy,
  as if there were no cache.
\<close>

theorem agent_cache_transparent:
  assumes "engine_step\<^sup>*\<^sup>* engine_new e"
  shows "fst (check_permission n res act e) \<longleftrightarrow>
    (\<exists>r. resource_parse res = Inr r
       \<and> check_permissions (compute_permissions e n) r (action_from_str act))"
proof -
  from assms have "cache_coherent e"
  proof (induction rule: rtranclp_induct)
    case base
    then show ?case by (simp add: cache_coherent_def engine_new_def)
  qed (rule engine_step_coherent)
  then show ?thesis
    by (auto simp: check_permission_def case_prod_unfold Let_def get_agent_permissions_coherent
        split: sum.split)
qed

theorem agent_cache_transparent_witness:
  "fst (check_permission ''x'' ''agent/y'' ''read''
      (snd (check_permission ''x'' ''agent/y'' ''read'' engine_new))) = False"
proof -
  have "engine_step\<^sup>*\<^sup>* engine_new (snd (check_permission ''x'' ''agent/y'' ''read'' engine_new))"
    by (intro r_into_rtranclp engine_step.check)
  from agent_cache_transparent [OF this, of "''x''" "''agent/y''" "''read''"] show ?thesis
    by (simp add: check_permission_engine get_agent_permissions_def engine_new_def Let_def
        compute_permissions_def permission_set_new_def)
qed

text \<open>
  A built-in role added later does not reach agents whose permissions are cached. Unlike
  the other updates, \<open>add_builtin_role\<close> does not clear the agent cache, so after a first check of
  an agent its permissions stay what they were, whatever role is added or replaced.
\<close>

theorem added_role_misses_cached_agents:
  "fst (get_agent_permissions n (add_builtin_role r (snd (get_agent_permissions n e)))) =
     fst (get_agent_permissions n e)"
  by (auto simp: get_agent_permissions_def add_builtin_role_def Let_def hashmap_simps
      split: option.splits)

section \<open>The built-in roles\<close>

lemma default_role_cache:
  "hm_get (pe_role_cache (with_defaults engine_new)) ''user'' = Some \<lparr>permissions =
     [permission_allow (resource_all ''agent'') [Read],
      permission_allow (resource_all ''service'') [Read],
      permission_allow (resource_new ''platform'' ''df'') [Read, Execute]]\<rparr>"
  "hm_get (pe_role_cache (with_defaults engine_new)) ''admin'' = Some \<lparr>permissions =
     [permission_allow (resource_all ''*'') [Admin]]\<rparr>"
  "hm_get (pe_role_cache (with_defaults engine_new)) ''platform'' = Some \<lparr>permissions =
     [permission_allow (resource_all ''agent'') [Read, Create, Delete],
      permission_allow (resource_all ''service'') [Read, Create, Update, Delete],
      permission_allow (resource_all ''message'') [Read, Execute]]\<rparr>"
  by (simp_all add: with_defaults_def engine_new_def add_builtin_role_def engine_add_binding_def
      Let_def hashmap_simps role_allow_def role_with_description_def role_new_def set_allow_def
      add_permission_def permission_set_new_def)

lemma default_bound_roles:
  "\<exists>p. pe_policy (with_defaults engine_new) = Some p \<and> bound_roles p n =
     (if n = ''ams'' then [''platform'', ''admin''] else []) @
     (if n = ''df'' then [''platform''] else []) @ [''user'']"
  by (simp add: with_defaults_def engine_new_def add_builtin_role_def engine_add_binding_def
      Let_def policy_add_role_def policy_add_binding_def policy_default_def bound_roles_def
      binding_new_def binding_matches_def wildcard_match_def contains_char_def eq_commute)

lemma default_agent_cache: "pe_agent_cache (with_defaults engine_new) = []"
  by (simp add: with_defaults_def engine_add_binding_def Let_def)

lemma allowing_all [simp]:
  "allowing r a (permission_allow (resource_all t) as) \<longleftrightarrow>
     (t = resource_type r \<or> t = ''*'') \<and> (a \<in> set as \<or> Admin \<in> set as)"
  by (auto simp: allowing_def permission_allow_def resource_all_def resource_matches_def
      wildcard_match_def permission_allows_def implies_action_def)

lemma allowing_new [simp]:
  "CHR ''*'' \<notin> set n \<Longrightarrow> allowing r a (permission_allow (resource_new t n) as) \<longleftrightarrow>
     (t = resource_type r \<or> t = ''*'') \<and> n = resource_name r \<and> (a \<in> set as \<or> Admin \<in> set as)"
  by (auto simp: allowing_def permission_allow_def resource_new_def resource_matches_def
      wildcard_match_def contains_char_def permission_allows_def implies_action_def)

lemma denying_allow [simp]: "\<not> denying r a (permission_allow res as)"
  by (simp add: denying_def permission_allow_def)

lemma default_user_permissions:
  assumes "n \<noteq> ''ams''" "n \<noteq> ''df''"
  shows "permissions (compute_permissions (with_defaults engine_new) n) =
    [permission_allow (resource_all ''agent'') [Read],
     permission_allow (resource_all ''service'') [Read],
     permission_allow (resource_new ''platform'' ''df'') [Read, Execute]]"
  using default_bound_roles [of n] assms
  by (auto simp: compute_permissions_list default_role_cache)

lemma default_ams_permissions:
  "permissions (compute_permissions (with_defaults engine_new) ''ams'') =
    [permission_allow (resource_all ''agent'') [Read, Create, Delete],
     permission_allow (resource_all ''service'') [Read, Create, Update, Delete],
     permission_allow (resource_all ''message'') [Read, Execute],
     permission_allow (resource_all ''*'') [Admin],
     permission_allow (resource_all ''agent'') [Read],
     permission_allow (resource_all ''service'') [Read],
     permission_allow (resource_new ''platform'' ''df'') [Read, Execute]]"
  using default_bound_roles [of "''ams''"]
  by (auto simp: compute_permissions_list default_role_cache)

text \<open>
  The default policy. With the built-in roles and bindings, an agent other than \<open>ams\<close> and
  \<open>df\<close> may read agents and services and may read or execute the directory facilitator, and
  nothing else; the agent \<open>ams\<close> may do anything to any resource.
\<close>

theorem default_policy_decides:
  "fst (check_permission ''ams'' res act (with_defaults engine_new))
   \<and> (n \<notin> {''ams'', ''df''} \<longrightarrow>
      fst (check_permission n res act (with_defaults engine_new)) =
        (\<exists>r. resource_parse res = Inr r
           \<and> (resource_type r \<in> {''agent'', ''service''} \<and> action_from_str act = Read
              \<or> r = resource_new ''platform'' ''df''
                  \<and> action_from_str act \<in> {Read, Execute})))"
proof -
  obtain r where r: "resource_parse res = Inr r" using resource_parse_ok by blast
  have check: "fst (check_permission n res act (with_defaults engine_new)) =
      check_permissions (compute_permissions (with_defaults engine_new) n) r (action_from_str act)"
    for n
    by (simp add: check_permission_def r case_prod_unfold Let_def get_agent_permissions_def
        default_agent_cache)
  have ams: "check_permissions (compute_permissions (with_defaults engine_new) ''ams'') r a" for a
    by (simp add: check_permissions_iff default_ams_permissions)
  have df: "r = resource_new ''platform'' ''df'' \<longleftrightarrow>
      resource_type r = ''platform'' \<and> resource_name r = ''df''"
    by (cases r) (simp add: resource_new_def)
  have "check_permissions (compute_permissions (with_defaults engine_new) n) r a \<longleftrightarrow>
      resource_type r \<in> {''agent'', ''service''} \<and> a = Read
      \<or> r = resource_new ''platform'' ''df'' \<and> a \<in> {Read, Execute}"
    if "n \<noteq> ''ams''" "n \<noteq> ''df''" for a
    unfolding check_permissions_iff default_user_permissions [OF that] df
    by (simp add: eq_commute) blast
  with ams show ?thesis by (simp add: check r)
qed

theorem default_policy_decides_witness:
  "\<not> fst (check_permission ''my-agent'' ''agent/other'' ''delete'' (with_defaults engine_new))"
proof -
  have "''my-agent'' \<notin> {''ams'', ''df''}" by simp
  moreover have "action_from_str ''delete'' = Delete" by code_simp
  moreover have "resource_parse ''agent/other'' = Inr \<lparr>resource_type = ''agent'', resource_name = ''other''\<rparr>"
    by code_simp
  ultimately show ?thesis
    using default_policy_decides [of "''agent/other''" "''delete''" "''my-agent''"]
    by (simp add: resource_new_def)
qed

end
