(* ===== verification/Cluster_State.thy ===== *)
theory Cluster_State
  imports Keyed_Store
begin

text \<open>
  The replicated state machine, \<^verbatim>\<open>src/consensus/state.rs\<close>: the agent directory and
  the service registry, and the requests that change or query them. The application of a request
  reads the local clock and the local node's identifier, which are arguments here.

  Log identifiers and stored memberships are types of the consensus library; the membership
  itself is a type variable.
\<close>

section \<open>Data\<close>

type_synonym node_id = u64

record agent_location =
  al_fingerprint :: string
  al_node_id :: node_id
  al_updated_at :: timestamp
  al_capabilities :: "string list"

record service_entry =
  se_service_type :: string
  se_name :: string
  se_provider :: string
  se_node_id :: node_id
  se_properties :: "(string, string) hashmap"
  se_registered_at :: timestamp

datatype state_request =
    RegisterAgent string node_id "string list"
  | UnregisterAgent string
  | RegisterService string string string "(string, string) hashmap"
  | UnregisterService string string
  | QueryAgent string
  | QueryServices string

datatype state_response =
    ResponseOk
  | ResponseAgent "agent_location option"
  | ResponseServices "service_entry list"
  | ResponseError string

record log_id =
  li_leader :: "u64 \<times> u64"
  li_index :: u64

record 'm stored_membership =
  sm_log_id :: "log_id option"
  sm_membership :: 'm

record 'm cluster_state =
  cs_agents :: "(string, agent_location) hashmap"
  cs_services :: "(string, service_entry list) hashmap"
  cs_last_applied_log :: "log_id option"
  cs_last_membership :: "'m stored_membership"

definition cluster_state_default :: "'m \<Rightarrow> 'm cluster_state" where
  "cluster_state_default m =
     \<lparr>cs_agents = [], cs_services = [], cs_last_applied_log = None,
      cs_last_membership = \<lparr>sm_log_id = None, sm_membership = m\<rparr>\<rparr>"

section \<open>Applying a request\<close>

text \<open>\<open>map.entry(k).or_default()\<close> followed by an update of the entry.\<close>

definition entry_update :: "string \<Rightarrow> ('a list \<Rightarrow> 'a list) \<Rightarrow> (string, 'a list) hashmap \<Rightarrow>
  (string, 'a list) hashmap" where
  "entry_update k f m = hm_insert k (f (case hm_get m k of None \<Rightarrow> [] | Some l \<Rightarrow> l)) m"

definition apply_request ::
  "timestamp \<Rightarrow> node_id \<Rightarrow> state_request \<Rightarrow> 'm cluster_state \<Rightarrow>
   state_response \<times> 'm cluster_state" where
  "apply_request now own_id request s =
     (case request of
        RegisterAgent f n caps \<Rightarrow>
          (ResponseOk, s\<lparr>cs_agents := hm_insert f
             \<lparr>al_fingerprint = f, al_node_id = n, al_updated_at = now, al_capabilities = caps\<rparr>
             (cs_agents s)\<rparr>)
      | UnregisterAgent f \<Rightarrow> (ResponseOk, s\<lparr>cs_agents := hm_remove f (cs_agents s)\<rparr>)
      | RegisterService t n p props \<Rightarrow>
          (let entry = \<lparr>se_service_type = t, se_name = n, se_provider = p, se_node_id = own_id,
                        se_properties = props, se_registered_at = now\<rparr>;
               m1 = entry_update t (filter (\<lambda>e. se_provider e \<noteq> p)) (cs_services s);
               m2 = entry_update t (\<lambda>l. l @ [entry]) m1
           in (ResponseOk, s\<lparr>cs_services := m2\<rparr>))
      | UnregisterService t p \<Rightarrow>
          (ResponseOk,
           s\<lparr>cs_services := hm_modify t (filter (\<lambda>e. se_provider e \<noteq> p)) (cs_services s)\<rparr>)
      | QueryAgent f \<Rightarrow> (ResponseAgent (hm_get (cs_agents s) f), s)
      | QueryServices t \<Rightarrow>
          (ResponseServices (case hm_get (cs_services s) t of None \<Rightarrow> [] | Some l \<Rightarrow> l), s))"

text \<open>Applying requests one after the other, each with its own clock reading.\<close>

fun apply_all ::
  "node_id \<Rightarrow> (timestamp \<times> state_request) list \<Rightarrow> 'm cluster_state \<Rightarrow>
   state_response list \<times> 'm cluster_state" where
  "apply_all own_id [] s = ([], s)"
| "apply_all own_id ((now, r) # rs) s =
     (let (a, s1) = apply_request now own_id r s; (as, s2) = apply_all own_id rs s1 in (a # as, s2))"

section \<open>Lookups\<close>

definition services_of :: "'m cluster_state \<Rightarrow> string \<Rightarrow> service_entry list" where
  "services_of s t = (case hm_get (cs_services s) t of None \<Rightarrow> [] | Some l \<Rightarrow> l)"

interpretation csa: keyed_store "\<lambda>s. hm_get (cs_agents s)"
  "\<lambda>f l s. s\<lparr>cs_agents := hm_insert f l (cs_agents s)\<rparr>"
  "\<lambda>f s. s\<lparr>cs_agents := hm_remove f (cs_agents s)\<rparr>"
  by unfold_locales (simp_all add: hashmap_simps)

lemma hm_get_entry_update [hashmap_simps]:
  "hm_get (entry_update k f m) k' =
     (if k' = k then Some (f (case hm_get m k of None \<Rightarrow> [] | Some l \<Rightarrow> l)) else hm_get m k')"
  by (simp add: entry_update_def hashmap_simps)

text \<open>What each request does to the service lists.\<close>

lemma services_of_apply:
  "services_of (snd (apply_request now own_id r s)) t =
     (case r of
        RegisterService t' n p props \<Rightarrow>
          (if t = t' then
             filter (\<lambda>e. se_provider e \<noteq> p) (services_of s t) @
               [\<lparr>se_service_type = t, se_name = n, se_provider = p, se_node_id = own_id,
                 se_properties = props, se_registered_at = now\<rparr>]
           else services_of s t)
      | UnregisterService t' p \<Rightarrow>
          (if t = t' then filter (\<lambda>e. se_provider e \<noteq> p) (services_of s t) else services_of s t)
      | _ \<Rightarrow> services_of s t)"
  by (simp add: apply_request_def services_of_def hashmap_simps Let_def
      split: state_request.splits option.splits)

lemma agents_apply:
  "hm_get (cs_agents (snd (apply_request now own_id r s))) f =
     (case r of
        RegisterAgent f' n caps \<Rightarrow>
          (if f = f' then Some \<lparr>al_fingerprint = f, al_node_id = n, al_updated_at = now,
                                al_capabilities = caps\<rparr>
           else hm_get (cs_agents s) f)
      | UnregisterAgent f' \<Rightarrow> (if f = f' then None else hm_get (cs_agents s) f)
      | _ \<Rightarrow> hm_get (cs_agents s) f)"
  by (simp add: apply_request_def hashmap_simps Let_def split: state_request.splits)

lemma apply_request_frame [simp]:
  "cs_last_applied_log (snd (apply_request now own_id r s)) = cs_last_applied_log s"
  "cs_last_membership (snd (apply_request now own_id r s)) = cs_last_membership s"
  by (simp_all add: apply_request_def Let_def split: state_request.splits)

text \<open>An invariant of one request is one of any sequence.\<close>

lemma apply_all_invariant:
  assumes "\<And>now r s. P s \<Longrightarrow> P (snd (apply_request now own_id r s))" "P s"
  shows "P (snd (apply_all own_id rs s))"
  using assms(2)
proof (induction rs arbitrary: s)
  case (Cons x rs)
  obtain now r where x: "x = (now, r)" by (cases x)
  obtain a s1 where s1: "apply_request now own_id r s = (a, s1)" by fastforce
  with assms(1) [OF Cons.prems, of now r] have "P s1" by simp
  from Cons.IH [OF this] s1 x show ?case by (simp add: case_prod_unfold Let_def)
qed simp

section \<open>Properties\<close>

definition services_ok :: "'m cluster_state \<Rightarrow> bool" where
  "services_ok s \<longleftrightarrow>
     (\<forall>t. distinct (map se_provider (services_of s t))
        \<and> (\<forall>e \<in> set (services_of s t). se_service_type e = t))"

lemma services_ok_apply: "services_ok s \<Longrightarrow> services_ok (snd (apply_request now own_id r s))"
  by (auto simp: services_ok_def services_of_apply distinct_map_filter split: state_request.splits)

text \<open>
  The service registry is well formed. Starting from the empty state, after any sequence of
  requests each list of services holds at most one entry per provider, all of the type it is
  listed under.
\<close>

theorem one_entry_per_provider:
  fixes rs own_id m
  defines "s \<equiv> snd (apply_all own_id rs (cluster_state_default m))"
  shows "distinct (map se_provider (services_of s t))
    \<and> set (services_of s t) \<subseteq> {e. se_service_type e = t}"
proof -
  have "services_ok (cluster_state_default m)"
    by (simp add: services_ok_def services_of_def cluster_state_default_def)
  then have "services_ok s"
    unfolding s_def by (rule apply_all_invariant [rotated]) (rule services_ok_apply)
  then show ?thesis by (auto simp: services_ok_def)
qed

text \<open>
  The part of the state on which replicas can agree: everything but the clock readings and the
  node identifiers of the services.
\<close>

definition erase_location :: "agent_location \<Rightarrow> agent_location" where
  "erase_location l = l\<lparr>al_updated_at := 0\<rparr>"

definition erase_service :: "service_entry \<Rightarrow> service_entry" where
  "erase_service e = e\<lparr>se_node_id := 0, se_registered_at := 0\<rparr>"

definition agree :: "'m cluster_state \<Rightarrow> 'm cluster_state \<Rightarrow> bool" where
  "agree s1 s2 \<longleftrightarrow>
     (\<forall>f. map_option erase_location (hm_get (cs_agents s1) f) =
          map_option erase_location (hm_get (cs_agents s2) f))
     \<and> (\<forall>t. map erase_service (services_of s1 t) = map erase_service (services_of s2 t))"

lemma erase_filter:
  "map erase_service (filter (\<lambda>e. se_provider e \<noteq> p) es) =
     filter (\<lambda>e. se_provider e \<noteq> p) (map erase_service es)"
  by (induction es) (simp_all add: erase_service_def)

lemma agree_apply:
  assumes "agree s1 s2"
  shows "agree (snd (apply_request now1 id1 r s1)) (snd (apply_request now2 id2 r s2))"
  using assms
  by (cases r) (auto simp: agree_def agents_apply services_of_apply erase_filter
      erase_location_def erase_service_def)

text \<open>
  Replicas agree up to clocks and service nodes. Two replicas that apply the same requests in
  the same order, with different node identifiers and clocks, end with the same directory except
  for the time stamps, and the same services except for the time stamps and the node each entry
  names.
\<close>

theorem replicas_agree_up_to_local_data:
  assumes "map snd log1 = map snd log2"
  shows "agree (snd (apply_all id1 log1 (cluster_state_default m)))
    (snd (apply_all id2 log2 (cluster_state_default m)))"
proof -
  have "agree s1 s2 \<Longrightarrow> agree (snd (apply_all id1 log1 s1)) (snd (apply_all id2 log2 s2))"
    for s1 s2 :: "'a cluster_state"
    using assms
  proof (induction log1 arbitrary: log2 s1 s2)
    case (Cons x log1)
    then obtain n1 n2 r log2' where x: "x = (n1, r)" "log2 = (n2, r) # log2'"
      "map snd log1 = map snd log2'"
      by (cases x; cases log2) auto
    obtain a1 t1 where t1: "apply_request n1 id1 r s1 = (a1, t1)" by fastforce
    obtain a2 t2 where t2: "apply_request n2 id2 r s2 = (a2, t2)" by fastforce
    have "agree t1 t2"
      using agree_apply [OF Cons.prems(1), of n1 id1 r n2 id2] t1 t2 by simp
    from Cons.IH [OF this x(3)] show ?case by (simp add: x t1 t2 case_prod_unfold Let_def)
  qed simp
  then show ?thesis by (simp add: agree_def)
qed

theorem replicas_agree_up_to_local_data_witness:
  "agree (snd (apply_all 1 [(5, RegisterService ''t'' ''n'' ''p'' [])] (cluster_state_default ())))
     (snd (apply_all 2 [(6, RegisterService ''t'' ''n'' ''p'' [])] (cluster_state_default ())))"
  by (rule replicas_agree_up_to_local_data) simp

text \<open>
  The state machine is not deterministic. When two replicas with different node identifiers
  apply the same registration of a service, each records itself as the node of the provider, so
  their states differ and the same query is answered differently, whatever they agreed on before.
\<close>

theorem service_registration_diverges:
  assumes "id1 \<noteq> id2"
  shows "map se_node_id (services_of (snd (apply_request now id1 (RegisterService t n p props) s)) t)
    \<noteq> map se_node_id (services_of (snd (apply_request now id2 (RegisterService t n p props) s)) t)
    \<and> fst (apply_request later id1 (QueryServices t)
          (snd (apply_request now id1 (RegisterService t n p props) s))) \<noteq>
      fst (apply_request later id2 (QueryServices t)
          (snd (apply_request now id2 (RegisterService t n p props) s)))"
proof -
  have "fst (apply_request later i (QueryServices t) x) = ResponseServices (services_of x t)"
    for i and x :: "'a cluster_state"
    by (simp add: apply_request_def services_of_def)
  with assms show ?thesis by (simp add: services_of_apply)
qed

theorem service_registration_diverges_witness:
  "fst (apply_request 9 1 (QueryServices ''t'') (snd (apply_request 5 1
       (RegisterService ''t'' ''n'' ''p'' []) (cluster_state_default ())))) \<noteq>
   fst (apply_request 9 2 (QueryServices ''t'') (snd (apply_request 5 2
       (RegisterService ''t'' ''n'' ''p'' []) (cluster_state_default ()))))"
proof -
  have "(1 :: node_id) \<noteq> 2" by simp
  from service_registration_diverges [OF this] show ?thesis by blast
qed

end
