(* ===== verification/Raft_Store.thy ===== *)
theory Raft_Store
  imports Cluster_State
begin

text \<open>
  The storage of the consensus protocol, \<^verbatim>\<open>src/consensus/storage.rs\<close>: the log with
  its in-memory cache and its persistent tree, vote and commit index, the application of
  committed entries and snapshots.

  The serialisation library is a parameter (\<open>codec\<close>); encoding may fail, decoding may fail. The
  database keeps two trees of byte strings keyed by byte strings; its operations are taken to
  succeed, so the I/O error branches are not modelled. The ordered map of the cache is a list of
  pairs sorted by index.
\<close>

section \<open>Ordered maps\<close>

fun bt_insert :: "'k::linorder \<Rightarrow> 'v \<Rightarrow> ('k \<times> 'v) list \<Rightarrow> ('k \<times> 'v) list" where
  "bt_insert k v [] = [(k, v)]"
| "bt_insert k v ((k', v') # m) =
     (if k < k' then (k, v) # (k', v') # m
      else if k = k' then (k, v) # m
      else (k', v') # bt_insert k v m)"

definition bt_sorted :: "('k::linorder \<times> 'v) list \<Rightarrow> bool" where
  "bt_sorted m \<longleftrightarrow> sorted_wrt (<) (map fst m)"

lemma bt_insert_keys: "set (map fst (bt_insert k v m)) = insert k (set (map fst m))"
  by (induction k v m rule: bt_insert.induct) auto

lemma bt_insert_sorted [simp]: "bt_sorted m \<Longrightarrow> bt_sorted (bt_insert k v m)"
  unfolding bt_sorted_def
proof (induction k v m rule: bt_insert.induct)
  case (2 k v k' v' m)
  then show ?case using bt_insert_keys [of k v m] by (auto simp: less_trans)
qed simp

lemma bt_sorted_filter [simp]: "bt_sorted m \<Longrightarrow> bt_sorted (filter (\<lambda>(k, v). P k) m)"
  unfolding bt_sorted_def by (induction m) (auto split: if_splits)

lemma bt_get_insert: "bt_sorted m \<Longrightarrow> map_of (bt_insert k v m) k' = (if k' = k then Some v else map_of m k')"
  unfolding bt_sorted_def
  by (induction k v m rule: bt_insert.induct) (auto simp: map_of_eq_None_iff)

lemma bt_get_filter: "map_of (filter (\<lambda>(k, v). P k) m) k = (if P k then map_of m k else None)"
  by (induction m) auto

section \<open>State\<close>

datatype 'm entry_payload = Blank | Normal bytes | Membership 'm

record 'm entry =
  en_log_id :: log_id
  en_payload :: "'m entry_payload"

record vote =
  vo_leader :: "u64 \<times> u64"
  vo_committed :: bool

record response =
  rp_data :: "bytes option"

record 'm snapshot =
  ss_last_log_id :: "log_id option"
  ss_last_membership :: "'m stored_membership"
  ss_snapshot_id :: string
  ss_data :: bytes

text \<open>The serialisation functions the store calls.\<close>

record 'm codec =
  enc_entry :: "'m entry \<Rightarrow> string + bytes"
  enc_vote :: "vote \<Rightarrow> string + bytes"
  dec_vote :: "bytes \<Rightarrow> vote option"
  enc_log_id :: "log_id \<Rightarrow> string + bytes"
  dec_log_id :: "bytes \<Rightarrow> log_id option"
  dec_request :: "bytes \<Rightarrow> string + state_request"
  enc_response :: "state_response \<Rightarrow> string + bytes"
  enc_state :: "'m cluster_state \<Rightarrow> string + bytes"
  dec_state :: "bytes \<Rightarrow> string + 'm cluster_state"

record 'm raft_store =
  rs_logs :: "(u64, bytes) hashmap"
  rs_meta :: "(string, bytes) hashmap"
  rs_log_cache :: "(u64 \<times> 'm entry) list"
  rs_state :: "'m cluster_state"
  rs_node_id :: node_id

datatype storage_error = StorageError string

text \<open>Opening a database: only the two trees survive from an earlier run.\<close>

definition store_open ::
  "(u64, bytes) hashmap \<Rightarrow> (string, bytes) hashmap \<Rightarrow> node_id \<Rightarrow> 'm \<Rightarrow> 'm raft_store" where
  "store_open logs meta node m =
     \<lparr>rs_logs = logs, rs_meta = meta, rs_log_cache = [], rs_state = cluster_state_default m,
      rs_node_id = node\<rparr>"

section \<open>The log\<close>

definition try_get_log_entries :: "(u64 \<Rightarrow> bool) \<Rightarrow> 'm raft_store \<Rightarrow> 'm entry list" where
  "try_get_log_entries in_range s = map snd (filter (\<lambda>(k, e). in_range k) (rs_log_cache s))"

record log_state =
  ls_last_purged :: "log_id option"
  ls_last_log :: "log_id option"

definition get_log_state :: "'m raft_store \<Rightarrow> log_state" where
  "get_log_state s =
     \<lparr>ls_last_purged = None,
      ls_last_log = (case rs_log_cache s of [] \<Rightarrow> None | c \<Rightarrow> Some (en_log_id (snd (last c))))\<rparr>"

text \<open>An encoding error ends the loop with the earlier entries stored.\<close>

fun append_to_log ::
  "'m codec \<Rightarrow> 'm entry list \<Rightarrow> 'm raft_store \<Rightarrow> (storage_error + unit) \<times> 'm raft_store" where
  "append_to_log cd [] s = (Inr (), s)"
| "append_to_log cd (e # es) s =
     (case enc_entry cd e of
        Inl w \<Rightarrow> (Inl (StorageError w), s)
      | Inr d \<Rightarrow>
          append_to_log cd es
            (s\<lparr>rs_logs := hm_insert (li_index (en_log_id e)) d (rs_logs s),
               rs_log_cache := bt_insert (li_index (en_log_id e)) e (rs_log_cache s)\<rparr>))"

definition remove_logs :: "u64 list \<Rightarrow> 'm raft_store \<Rightarrow> 'm raft_store" where
  "remove_logs ks s =
     s\<lparr>rs_log_cache := filter (\<lambda>(k, e). k \<notin> set ks) (rs_log_cache s),
       rs_logs := fold hm_remove ks (rs_logs s)\<rparr>"

definition delete_conflict_logs_since :: "log_id \<Rightarrow> 'm raft_store \<Rightarrow> 'm raft_store" where
  "delete_conflict_logs_since l s =
     remove_logs (filter (\<lambda>k. li_index l \<le> k) (map fst (rs_log_cache s))) s"

definition purge_logs_upto :: "log_id \<Rightarrow> 'm raft_store \<Rightarrow> 'm raft_store" where
  "purge_logs_upto l s = remove_logs (filter (\<lambda>k. k \<le> li_index l) (map fst (rs_log_cache s))) s"

section \<open>Read-only queries\<close>

definition store_get_agent :: "string \<Rightarrow> 'm raft_store \<Rightarrow> agent_location option" where
  "store_get_agent fingerprint s = hm_get (cs_agents (rs_state s)) fingerprint"

definition store_get_services :: "string \<Rightarrow> 'm raft_store \<Rightarrow> service_entry list" where
  "store_get_services t s =
     (case hm_get (cs_services (rs_state s)) t of None \<Rightarrow> [] | Some es \<Rightarrow> es)"

section \<open>Vote and commit index\<close>

definition save_vote ::
  "'m codec \<Rightarrow> vote \<Rightarrow> 'm raft_store \<Rightarrow> (storage_error + unit) \<times> 'm raft_store" where
  "save_vote cd v s =
     (case enc_vote cd v of
        Inl w \<Rightarrow> (Inl (StorageError w), s)
      | Inr d \<Rightarrow> (Inr (), s\<lparr>rs_meta := hm_insert ''vote'' d (rs_meta s)\<rparr>))"

definition read_vote :: "'m codec \<Rightarrow> 'm raft_store \<Rightarrow> vote option" where
  "read_vote cd s = Option.bind (hm_get (rs_meta s) ''vote'') (dec_vote cd)"

definition save_committed ::
  "'m codec \<Rightarrow> log_id option \<Rightarrow> 'm raft_store \<Rightarrow> (storage_error + unit) \<times> 'm raft_store" where
  "save_committed cd c s =
     (case c of
        Some l \<Rightarrow>
          (case enc_log_id cd l of
             Inl w \<Rightarrow> (Inl (StorageError w), s)
           | Inr d \<Rightarrow> (Inr (), s\<lparr>rs_meta := hm_insert ''committed'' d (rs_meta s)\<rparr>))
      | None \<Rightarrow> (Inr (), s\<lparr>rs_meta := hm_remove ''committed'' (rs_meta s)\<rparr>))"

definition read_committed :: "'m codec \<Rightarrow> 'm raft_store \<Rightarrow> log_id option" where
  "read_committed cd s = Option.bind (hm_get (rs_meta s) ''committed'') (dec_log_id cd)"

section \<open>The state machine\<close>

definition last_applied_state ::
  "'m raft_store \<Rightarrow> log_id option \<times> 'm stored_membership" where
  "last_applied_state s = (cs_last_applied_log (rs_state s), cs_last_membership (rs_state s))"

definition response_bytes :: "'m codec \<Rightarrow> state_response \<Rightarrow> bytes option" where
  "response_bytes cd r = (case enc_response cd r of Inl _ \<Rightarrow> None | Inr d \<Rightarrow> Some d)"

text \<open>\<open>unwrap_or_default\<close> of the encoded error.\<close>

definition error_bytes :: "'m codec \<Rightarrow> string \<Rightarrow> bytes" where
  "error_bytes cd w = (case enc_response cd (ResponseError w) of Inl _ \<Rightarrow> [] | Inr d \<Rightarrow> d)"

definition apply_entry ::
  "'m codec \<Rightarrow> node_id \<Rightarrow> timestamp \<Rightarrow> 'm entry \<Rightarrow> 'm cluster_state \<Rightarrow>
   response \<times> 'm cluster_state" where
  "apply_entry cd node now e st =
     (let st1 = st\<lparr>cs_last_applied_log := Some (en_log_id e)\<rparr>
      in case en_payload e of
           Blank \<Rightarrow> (\<lparr>rp_data = None\<rparr>, st1)
         | Normal d \<Rightarrow>
             (case dec_request cd d of
                Inl w \<Rightarrow> (\<lparr>rp_data = Some (error_bytes cd w)\<rparr>, st1)
              | Inr r \<Rightarrow>
                  (let (a, st2) = apply_request now node r st1
                   in (\<lparr>rp_data = response_bytes cd a\<rparr>, st2)))
         | Membership m \<Rightarrow>
             (\<lparr>rp_data = None\<rparr>,
              st1\<lparr>cs_last_membership := \<lparr>sm_log_id = Some (en_log_id e), sm_membership = m\<rparr>\<rparr>))"

fun apply_entries ::
  "'m codec \<Rightarrow> node_id \<Rightarrow> (timestamp \<times> 'm entry) list \<Rightarrow> 'm cluster_state \<Rightarrow>
   response list \<times> 'm cluster_state" where
  "apply_entries cd node [] st = ([], st)"
| "apply_entries cd node ((now, e) # es) st =
     (let (r, st1) = apply_entry cd node now e st; (rs, st2) = apply_entries cd node es st1
      in (r # rs, st2))"

definition apply_to_state_machine ::
  "'m codec \<Rightarrow> (timestamp \<times> 'm entry) list \<Rightarrow> 'm raft_store \<Rightarrow> response list \<times> 'm raft_store" where
  "apply_to_state_machine cd es s =
     (let (rs, st) = apply_entries cd (rs_node_id s) es (rs_state s) in (rs, s\<lparr>rs_state := st\<rparr>))"

section \<open>Snapshots\<close>

definition snapshot_id_of :: "timestamp \<Rightarrow> 'm cluster_state \<Rightarrow> string" where
  "snapshot_id_of now st =
     nat_to_string (case cs_last_applied_log st of None \<Rightarrow> 0 | Some l \<Rightarrow> unat (li_index l)) @ ''-'' @
       nat_to_string (nat now)"

definition build_snapshot :: "'m codec \<Rightarrow> timestamp \<Rightarrow> 'm raft_store \<Rightarrow> storage_error + 'm snapshot" where
  "build_snapshot cd now s =
     (case enc_state cd (rs_state s) of
        Inl w \<Rightarrow> Inl (StorageError w)
      | Inr d \<Rightarrow>
          Inr \<lparr>ss_last_log_id = cs_last_applied_log (rs_state s),
               ss_last_membership = cs_last_membership (rs_state s),
               ss_snapshot_id = snapshot_id_of now (rs_state s), ss_data = d\<rparr>)"

definition get_current_snapshot ::
  "'m codec \<Rightarrow> timestamp \<Rightarrow> 'm raft_store \<Rightarrow> storage_error + 'm snapshot option" where
  "get_current_snapshot cd now s =
     (if cs_last_applied_log (rs_state s) = None then Inr None
      else map_sum id Some (build_snapshot cd now s))"

definition install_snapshot ::
  "'m codec \<Rightarrow> 'm snapshot \<Rightarrow> 'm raft_store \<Rightarrow> (storage_error + unit) \<times> 'm raft_store" where
  "install_snapshot cd sn s =
     (case dec_state cd (ss_data sn) of
        Inl w \<Rightarrow> (Inl (StorageError w), s)
      | Inr st \<Rightarrow>
          (let st1 = (case ss_last_log_id sn of
                        None \<Rightarrow> st
                      | Some l \<Rightarrow> st\<lparr>cs_last_applied_log := Some l\<rparr>)
           in (Inr (), s\<lparr>rs_state := st1\<lparr>cs_last_membership := ss_last_membership sn\<rparr>\<rparr>)))"

section \<open>The log as a map from indexes\<close>

text \<open>The cache is sorted, entries sit at their own index, and the persistent tree has its keys.\<close>

definition entry_bytes :: "'m codec \<Rightarrow> 'm entry \<Rightarrow> bytes option" where
  "entry_bytes cd e = (case enc_entry cd e of Inl _ \<Rightarrow> None | Inr d \<Rightarrow> Some d)"

definition log_ok :: "'m codec \<Rightarrow> 'm raft_store \<Rightarrow> bool" where
  "log_ok cd s \<longleftrightarrow> bt_sorted (rs_log_cache s)
     \<and> (\<forall>k e. map_of (rs_log_cache s) k = Some e \<longrightarrow>
          li_index (en_log_id e) = k \<and> entry_bytes cd e \<noteq> None)
     \<and> (\<forall>k. hm_get (rs_logs s) k = Option.bind (map_of (rs_log_cache s) k) (entry_bytes cd))"

definition log_at :: "'m raft_store \<Rightarrow> u64 \<Rightarrow> 'm entry option" where
  "log_at s k = map_of (rs_log_cache s) k"

lemma log_ok_append_one:
  assumes "log_ok cd s" "enc_entry cd e = Inr d"
  shows "log_ok cd (s\<lparr>rs_logs := hm_insert (li_index (en_log_id e)) d (rs_logs s),
      rs_log_cache := bt_insert (li_index (en_log_id e)) e (rs_log_cache s)\<rparr>)"
  using assms by (auto simp: log_ok_def bt_get_insert hashmap_simps entry_bytes_def)

lemma log_ok_append: "log_ok cd s \<Longrightarrow> log_ok cd (snd (append_to_log cd es s))"
  by (induction cd es s rule: append_to_log.induct)
    (auto split: sum.splits intro: log_ok_append_one)

lemma fold_hm_remove: "hm_get (fold hm_remove ks m) k = (if k \<in> set ks then None else hm_get m k)"
  by (induction ks arbitrary: m) (auto simp: hashmap_simps)

lemma log_ok_remove: "log_ok cd s \<Longrightarrow> log_ok cd (remove_logs ks s)"
  by (auto simp: log_ok_def remove_logs_def bt_get_filter fold_hm_remove
      bt_sorted_filter [where P = "\<lambda>k. k \<notin> set ks"])

lemma log_at_remove: "log_at (remove_logs ks s) k = (if k \<in> set ks then None else log_at s k)"
  by (simp add: log_at_def remove_logs_def bt_get_filter)

lemma log_at_filter_keys:
  "log_at (remove_logs (filter P (map fst (rs_log_cache s))) s) k = (if P k then None else log_at s k)"
  unfolding log_at_remove by (auto simp: log_at_def map_of_eq_None_iff)

text \<open>Appending overwrites entries at the same index; the last one of the list wins.\<close>

definition indexed :: "'m entry list \<Rightarrow> (u64 \<times> 'm entry) list" where
  "indexed es = rev (map (\<lambda>e. (li_index (en_log_id e), e)) es)"

lemma log_at_append:
  "log_ok cd s \<Longrightarrow> append_to_log cd es s = (Inr (), s') \<Longrightarrow>
   log_at s' = log_at s ++ map_of (indexed es)"
proof (induction cd es s arbitrary: s' rule: append_to_log.induct)
  case (2 cd e es s)
  from 2(3) obtain d where d: "enc_entry cd e = Inr d" by (auto split: sum.splits)
  let ?s = "s\<lparr>rs_logs := hm_insert (li_index (en_log_id e)) d (rs_logs s),
      rs_log_cache := bt_insert (li_index (en_log_id e)) e (rs_log_cache s)\<rparr>"
  have ok: "log_ok cd ?s" by (rule log_ok_append_one [OF 2(2) d])
  have one: "log_at ?s = log_at s ++ [li_index (en_log_id e) \<mapsto> e]"
    using 2(2) by (auto simp: log_at_def log_ok_def bt_get_insert fun_eq_iff)
  from 2(3) d have "append_to_log cd es ?s = (Inr (), s')" by simp
  note IH = 2(1) [OF d ok this]
  have "map_of (indexed (e # es)) = [li_index (en_log_id e) \<mapsto> e] ++ map_of (indexed es)"
    by (simp add: indexed_def)
  then show ?case by (simp only: IH one map_add_assoc)
qed (simp add: indexed_def)

lemma append_succeeds:
  "\<forall>e \<in> set es. entry_bytes cd e \<noteq> None \<Longrightarrow> \<exists>s'. append_to_log cd es s = (Inr (), s')"
  by (induction cd es s rule: append_to_log.induct)
    (auto simp: entry_bytes_def split: sum.splits)

lemma log_ok_open: "log_ok cd (store_open [] meta node m)"
  by (simp add: log_ok_def store_open_def bt_sorted_def)

lemma delete_conflict_at:
  "log_at (delete_conflict_logs_since l s) k = (if li_index l \<le> k then None else log_at s k)"
  unfolding delete_conflict_logs_since_def by (rule log_at_filter_keys)

lemma purge_at: "log_at (purge_logs_upto l s) k = (if k \<le> li_index l then None else log_at s k)"
  unfolding purge_logs_upto_def by (rule log_at_filter_keys)

text \<open>The steps the consensus library makes on the log.\<close>

inductive log_step :: "'m codec \<Rightarrow> 'm raft_store \<Rightarrow> 'm raft_store \<Rightarrow> bool" for cd where
  append: "log_step cd s (snd (append_to_log cd es s))"
| conflict: "log_step cd s (delete_conflict_logs_since l s)"
| purge: "log_step cd s (purge_logs_upto l s)"
| vote: "log_step cd s (snd (save_vote cd v s))"
| committed: "log_step cd s (snd (save_committed cd c s))"
| applied: "log_step cd s (snd (apply_to_state_machine cd es s))"
| install: "log_step cd s (snd (install_snapshot cd sn s))"

lemma log_step_ok: "log_step cd s s' \<Longrightarrow> log_ok cd s \<Longrightarrow> log_ok cd s'"
proof (induction rule: log_step.induct)
  case (append s es)
  then show ?case by (rule log_ok_append)
next
  case (conflict s l)
  then show ?case unfolding delete_conflict_logs_since_def by (rule log_ok_remove)
next
  case (purge s l)
  then show ?case unfolding purge_logs_upto_def by (rule log_ok_remove)
qed (auto simp: log_ok_def save_vote_def save_committed_def apply_to_state_machine_def
    install_snapshot_def Let_def split: sum.splits option.splits prod.splits)

lemma sorted_wrt_fst_map_of:
  "bt_sorted c \<Longrightarrow> (k, e) \<in> set c \<longleftrightarrow> map_of c k = Some e"
  by (auto simp: bt_sorted_def strict_sorted_iff map_of_eq_Some_iff)

section \<open>Properties\<close>


text \<open>A serialisation for the examples; only the functions the examples use are of interest.\<close>

definition demo_codec :: "unit cluster_state \<Rightarrow> unit codec" where
  "demo_codec st =
     \<lparr>enc_entry = (\<lambda>e. Inr [ucast (li_index (en_log_id e))]),
      enc_vote = (\<lambda>v. Inr [1]), dec_vote = (\<lambda>b. None), enc_log_id = (\<lambda>l. Inr [2]),
      dec_log_id = (\<lambda>b. None), dec_request = (\<lambda>b. Inr (QueryAgent ''a'')),
      enc_response = (\<lambda>r. Inr [3]), enc_state = (\<lambda>s. Inr [4]), dec_state = (\<lambda>b. Inr st)\<rparr>"

definition demo_entry :: "u64 \<Rightarrow> unit entry" where
  "demo_entry k = \<lparr>en_log_id = \<lparr>li_leader = (1, 1), li_index = k\<rparr>, en_payload = Blank\<rparr>"

definition demo_log :: "unit raft_store" where
  "demo_log = snd (append_to_log (demo_codec (cluster_state_default ())) [demo_entry 1, demo_entry 2]
     (store_open [] [] 1 ()))"

lemma demo_log_eq:
  "demo_log =
     \<lparr>rs_logs = [(1, [1]), (2, [2])], rs_meta = [],
      rs_log_cache = [(1, demo_entry 1), (2, demo_entry 2)], rs_state = cluster_state_default (),
      rs_node_id = 1\<rparr>"
  by (simp add: demo_log_def demo_codec_def demo_entry_def store_open_def hm_insert_def)


text \<open>
  Appending after a conflict replaces the tail. Deleting the entries from an index on and
  then appending new ones leaves the entries below the index as they were, at the indexes of the
  new entries the new ones (the last one, if an index occurs twice), and nothing else.
\<close>

theorem conflict_then_append:
  assumes "log_ok cd s" "\<forall>e \<in> set es. entry_bytes cd e \<noteq> None"
  shows "\<exists>s'. append_to_log cd es (delete_conflict_logs_since l s) = (Inr (), s')
    \<and> log_ok cd s'
    \<and> log_at s' = (log_at s |` {k. k < li_index l}) ++ map_of (indexed es)"
proof -
  let ?s = "delete_conflict_logs_since l s"
  have ok: "log_ok cd ?s" by (rule log_step_ok [OF log_step.conflict assms(1)])
  from append_succeeds [OF assms(2)] obtain s' where s': "append_to_log cd es ?s = (Inr (), s')"
    by blast
  have "log_at ?s = log_at s |` {k. k < li_index l}"
    by (auto simp: delete_conflict_at restrict_map_def fun_eq_iff)
  with log_at_append [OF ok s'] log_ok_append [OF ok, of es] s' show ?thesis by auto
qed

theorem conflict_then_append_witness:
  "\<exists>s'. append_to_log (demo_codec (cluster_state_default ())) [demo_entry 2]
      (delete_conflict_logs_since \<lparr>li_leader = (1, 1), li_index = 2\<rparr> demo_log) = (Inr (), s')
    \<and> log_at s' 1 = Some (demo_entry 1) \<and> log_at s' 2 = Some (demo_entry 2)"
proof -
  let ?cd = "demo_codec (cluster_state_default ())"
  have "log_ok ?cd demo_log"
    unfolding demo_log_def by (rule log_ok_append [OF log_ok_open])
  moreover have "\<forall>e \<in> set [demo_entry 2]. entry_bytes ?cd e \<noteq> None"
    by (simp add: entry_bytes_def demo_codec_def)
  ultimately obtain s' where
    s': "append_to_log ?cd [demo_entry 2]
       (delete_conflict_logs_since \<lparr>li_leader = (1, 1), li_index = 2\<rparr> demo_log) = (Inr (), s')"
    and at: "log_at s' = (log_at demo_log |` {k. k < 2}) ++ map_of (indexed [demo_entry 2])"
    using conflict_then_append [of ?cd demo_log "[demo_entry 2]"
        "\<lparr>li_leader = (1, 1), li_index = 2\<rparr>"] by auto
  have "log_at demo_log 1 = Some (demo_entry 1)" by (simp add: log_at_def demo_log_eq)
  moreover have "map_of (indexed [demo_entry 2]) = [2 \<mapsto> demo_entry 2]"
    by (simp add: indexed_def demo_entry_def)
  ultimately have "log_at s' 1 = Some (demo_entry 1)" "log_at s' 2 = Some (demo_entry 2)"
    unfolding at by (simp_all add: restrict_map_def)
  with s' show ?thesis by blast
qed

text \<open>
  A restart forgets the log. Reopening the database after any run gives a store that reports
  an empty log and answers every read with no entry, although the persistent tree still holds
  every entry and the saved vote survives: the cache is not filled from the tree.
\<close>

theorem restart_forgets_log:
  fixes s :: "'m raft_store" and m
  defines "s' \<equiv> store_open (rs_logs s) (rs_meta s) (rs_node_id s) m"
  shows "ls_last_log (get_log_state s') = None \<and> try_get_log_entries P s' = []
    \<and> rs_logs s' = rs_logs s \<and> read_vote cd s' = read_vote cd s
    \<and> last_applied_state s' = (None, \<lparr>sm_log_id = None, sm_membership = m\<rparr>)"
  by (simp add: s'_def store_open_def get_log_state_def try_get_log_entries_def read_vote_def
      last_applied_state_def cluster_state_default_def)

text \<open>
  Purging loses the position of the log. After purging up to the last index, the store
  reports neither a last entry nor a last purged entry, whatever was purged, as if nothing had
  ever been appended.
\<close>

theorem purge_loses_position:
  assumes "\<forall>k e. log_at s k = Some e \<longrightarrow> k \<le> li_index l"
  shows "get_log_state (purge_logs_upto l s) = \<lparr>ls_last_purged = None, ls_last_log = None\<rparr>"
proof -
  have none: "log_at (purge_logs_upto l s) k = None" for k
    using assms by (cases "log_at s k") (auto simp: purge_at)
  have "rs_log_cache (purge_logs_upto l s) = []"
  proof (cases "rs_log_cache (purge_logs_upto l s)")
    case (Cons x xs)
    with none [of "fst x"] show ?thesis by (cases x) (simp add: log_at_def)
  qed
  then show ?thesis by (simp add: get_log_state_def)
qed

theorem purge_loses_position_witness:
  "get_log_state (purge_logs_upto \<lparr>li_leader = (1, 1), li_index = 2\<rparr> demo_log) =
     \<lparr>ls_last_purged = None, ls_last_log = None\<rparr>"
proof -
  have "\<forall>k e. log_at demo_log k = Some e \<longrightarrow> k \<le> li_index \<lparr>li_leader = (1, 1), li_index = 2\<rparr>"
    by (auto simp: log_at_def demo_log_eq split: if_splits)
  from purge_loses_position [OF this] show ?thesis .
qed

text \<open>
  Snapshots carry the state. Installing, on any node, a snapshot another node built gives it
  exactly that node's state machine, provided the serialisation reads back what it wrote for
  this state; the log of the receiving node is not touched.
\<close>

theorem snapshot_transfers_state:
  assumes "enc_state cd (rs_state s1) = Inr d" "dec_state cd d = Inr (rs_state s1)"
  shows "\<exists>sn. build_snapshot cd now s1 = Inr sn
    \<and> install_snapshot cd sn s2 = (Inr (), s2\<lparr>rs_state := rs_state s1\<rparr>)"
proof -
  have "st\<lparr>cs_last_applied_log := l, cs_last_membership := q\<rparr> = st"
    if "cs_last_applied_log st = l" "cs_last_membership st = q" for st :: "'a cluster_state" and l q
    using that by (cases st) simp
  with assms show ?thesis
    by (auto simp: build_snapshot_def install_snapshot_def Let_def split: option.split)
qed

theorem snapshot_transfers_state_witness:
  "\<exists>sn. build_snapshot (demo_codec (rs_state demo_log)) 5 demo_log = Inr sn
     \<and> rs_state (snd (install_snapshot (demo_codec (rs_state demo_log)) sn (store_open [] [] 2 ()))) =
         rs_state demo_log"
proof -
  have "enc_state (demo_codec (rs_state demo_log)) (rs_state demo_log) = Inr [4]"
    "dec_state (demo_codec (rs_state demo_log)) [4] = Inr (rs_state demo_log)"
    by (simp_all add: demo_codec_def)
  from snapshot_transfers_state [OF this, of 5 "store_open [] [] 2 ()"] show ?thesis by auto
qed

text \<open>
  Applying committed entries gives one response per entry and records the last one. The
  number of responses is the number of entries, whatever they contain, the last applied
  position becomes that of the last entry, and only the state machine changes.
\<close>

theorem apply_answers_every_entry:
  assumes "es \<noteq> []" "apply_to_state_machine cd es s = (rs, s')"
  shows "length rs = length es
    \<and> fst (last_applied_state s') = Some (en_log_id (snd (last es)))
    \<and> s' = s\<lparr>rs_state := rs_state s'\<rparr>"
proof -
  have one: "cs_last_applied_log (snd (apply_entry cd node now e st)) = Some (en_log_id e)"
    for node now e st
    by (simp add: apply_entry_def Let_def case_prod_unfold split: entry_payload.split sum.split)
  have "length (fst (apply_entries cd node xs st)) = length xs
      \<and> cs_last_applied_log (snd (apply_entries cd node xs st)) =
          (if xs = [] then cs_last_applied_log st else Some (en_log_id (snd (last xs))))"
    for node xs st
  proof (induction xs arbitrary: st)
    case (Cons x xs)
    then show ?case by (cases x) (simp add: case_prod_unfold Let_def one)
  qed simp
  from this [of "rs_node_id s" es "rs_state s"] assms show ?thesis
    by (auto simp: apply_to_state_machine_def last_applied_state_def case_prod_unfold Let_def)
qed

theorem apply_answers_every_entry_witness:
  "length (fst (apply_to_state_machine (demo_codec (cluster_state_default ()))
      [(5, demo_entry 1), (6, demo_entry 2)] demo_log)) = 2"
proof -
  obtain rs s' where "apply_to_state_machine (demo_codec (cluster_state_default ()))
      [(5, demo_entry 1), (6, demo_entry 2)] demo_log = (rs, s')" by fastforce
  with apply_answers_every_entry [OF _ this] show ?thesis by simp
qed

end
