(* ===== verification/Ams.thy ===== *)
theory Ams
  imports Actor_Messages Keyed_Store Rust_Strings
begin

text \<open>
  The agent management system, \<^verbatim>\<open>src/platform/ams.rs\<close>: naming, creation,
  destruction, suspension and queries of agents. Creating an agent is asynchronous: the handler
  answers at once and the registration follows when the supervisor has replied. The futures in
  flight are the list \<open>am_pending\<close>, and other messages can be handled in between.
\<close>

section \<open>State\<close>

record ams_config =
  am_platform_name :: string
  am_require_auth :: bool
  am_max_agents :: usize
  am_reserved_names :: "string list"
  am_default_capabilities :: agent_capabilities

definition ams_config_default :: ams_config where
  "ams_config_default =
     \<lparr>am_platform_name = ''fipa-platform'', am_require_auth = False, am_max_agents = 0,
      am_reserved_names = [''ams'', ''df'', ''acc''],
      am_default_capabilities =
        \<lparr>max_memory_bytes = 64 * 1024 * 1024, max_execution_time_ms = 30000,
         allowed_protocols = [], network_access = 1, storage_quota_bytes = 10 * 1024 * 1024,
         migration_allowed = True, spawn_allowed = True, allowed_destinations = []\<rparr>\<rparr>"

datatype ams_agent_state = Initiated | Active | Suspended | Waiting | Transit | Terminated

fun ams_agent_state_debug :: "ams_agent_state \<Rightarrow> string" where
  "ams_agent_state_debug Initiated = ''Initiated''"
| "ams_agent_state_debug Active = ''Active''"
| "ams_agent_state_debug Suspended = ''Suspended''"
| "ams_agent_state_debug Waiting = ''Waiting''"
| "ams_agent_state_debug Transit = ''Transit''"
| "ams_agent_state_debug Terminated = ''Terminated''"

record agent_registration =
  ar_agent_id :: agent_id
  ar_state :: ams_agent_state
  ar_registered_at :: timestamp
  ar_owner :: "string option"
  ar_properties :: "(string, string) hashmap"

record ams_stats =
  agents_created :: u64
  agents_destroyed :: u64
  agents_suspended :: u64
  agents_resumed :: u64
  queries_handled :: u64
  auth_failures :: u64

text \<open>A future waiting for the supervisor: what it captured.\<close>

record pending_create =
  pd_name :: string
  pd_agent_id :: agent_id
  pd_owner :: "string option"

datatype ams_effect = SpawnAgent "unit agent_config" | StopAgent agent_id shutdown_reason

record ams =
  am_config :: ams_config
  am_agents :: "(string, agent_registration) hashmap"
  am_supervisor :: bool
  am_agent_id :: agent_id
  am_stats :: ams_stats
  am_pending :: "pending_create list"
  am_effects :: "ams_effect list"

datatype ams_error =
    NameNotAvailable string
  | AgentNotFound string
  | AgentLimitReached
  | AmsInvalidState string
  | Unauthorized
  | SupervisorNotAvailable
  | AgentError string

definition ams_stats_default :: ams_stats where
  "ams_stats_default =
     \<lparr>agents_created = 0, agents_destroyed = 0, agents_suspended = 0, agents_resumed = 0,
      queries_handled = 0, auth_failures = 0\<rparr>"

definition ams_new :: "ams_config \<Rightarrow> ams" where
  "ams_new c =
     \<lparr>am_config = c, am_agents = [], am_supervisor = False,
      am_agent_id = \<lparr>name = ''ams'', addresses = [''ams@'' @ am_platform_name c], resolvers = []\<rparr>,
      am_stats = ams_stats_default, am_pending = [], am_effects = []\<rparr>"

definition ams_with_supervisor :: "ams \<Rightarrow> ams" where
  "ams_with_supervisor s = s\<lparr>am_supervisor := True\<rparr>"

definition ams_started :: "timestamp \<Rightarrow> ams \<Rightarrow> ams" where
  "ams_started now s =
     s\<lparr>am_agents := hm_insert ''ams''
         \<lparr>ar_agent_id = am_agent_id s, ar_state = Active, ar_registered_at = now, ar_owner = None,
          ar_properties = []\<rparr> (am_agents s)\<rparr>"

section \<open>Names\<close>

definition is_name_available :: "ams \<Rightarrow> string \<Rightarrow> bool" where
  "is_name_available s n \<longleftrightarrow>
     \<not> hm_contains (am_agents s) n \<and> n \<notin> set (am_reserved_names (am_config s))"

definition candidate_name :: "string \<Rightarrow> nat \<Rightarrow> string" where
  "candidate_name p k = (if k = 0 then p else p @ ''-'' @ nat_to_string k)"

text \<open>The unbounded loop: \<open>None\<close> would mean that it never finds a name.\<close>

partial_function (option) name_loop :: "ams \<Rightarrow> string \<Rightarrow> nat \<Rightarrow> string option" where
  "name_loop s p k =
     (if is_name_available s (candidate_name p k) then Some (candidate_name p k)
      else name_loop s p (k + 1))"

definition generate_unique_name :: "ams \<Rightarrow> string \<Rightarrow> string option" where
  "generate_unique_name s p = name_loop s p 0"

section \<open>Handlers\<close>

record ams_create_agent =
  cr_name :: "string option"
  cr_wasm_module :: bytes
  cr_capabilities :: "agent_capabilities option"
  cr_owner :: "string option"

definition create_agent :: "ams_create_agent \<Rightarrow> ams \<Rightarrow> ((ams_error + agent_id) \<times> ams) option" where
  "create_agent req s =
     (let named = (case cr_name req of
          Some n \<Rightarrow> Some (if is_name_available s n then Inr n else Inl (NameNotAvailable n))
        | None \<Rightarrow> map_option Inr (generate_unique_name s ''agent''))
      in case named of
           None \<Rightarrow> None
         | Some (Inl e) \<Rightarrow> Some (Inl e, s)
         | Some (Inr n) \<Rightarrow>
             if 0 < am_max_agents (am_config s)
               \<and> am_max_agents (am_config s) \<le> of_nat (length (am_agents s)) then
               Some (Inl AgentLimitReached, s)
             else
               (let aid = \<lparr>name = n, addresses = [n @ ''@'' @ am_platform_name (am_config s)],
                           resolvers = []\<rparr>;
                    config = \<lparr>ac_id = aid, ac_wasm_module = cr_wasm_module req,
                              ac_capabilities =
                                (case cr_capabilities req of
                                   Some c \<Rightarrow> c
                                 | None \<Rightarrow> am_default_capabilities (am_config s)),
                              ac_initial_state = None,
                              ac_restart_strategy = restart_strategy_default\<rparr>
                in if am_supervisor s then
                     Some (Inr aid,
                       s\<lparr>am_pending := am_pending s @
                           [\<lparr>pd_name = n, pd_agent_id = aid, pd_owner = cr_owner req\<rparr>],
                         am_effects := am_effects s @ [SpawnAgent config]\<rparr>)
                   else Some (Inl SupervisorNotAvailable, s)))"

text \<open>
  The end of the future: whatever the supervisor answered (the answer is only logged), the agent
  is registered as active.
\<close>

definition create_finished :: "timestamp \<Rightarrow> nat \<Rightarrow> ams \<Rightarrow> ams" where
  "create_finished now i s =
     (if i < length (am_pending s) then
        (let p = am_pending s ! i
         in s\<lparr>am_pending := take i (am_pending s) @ drop (Suc i) (am_pending s),
              am_agents := hm_insert (pd_name p)
                \<lparr>ar_agent_id = pd_agent_id p, ar_state = Active, ar_registered_at = now,
                 ar_owner = pd_owner p, ar_properties = []\<rparr> (am_agents s),
              am_stats := (am_stats s)\<lparr>agents_created := agents_created (am_stats s) + 1\<rparr>\<rparr>)
      else s)"

definition destroy_agent :: "string \<Rightarrow> string option \<Rightarrow> ams \<Rightarrow> (ams_error + unit) \<times> ams" where
  "destroy_agent n requester s =
     (case hm_get (am_agents s) n of
        None \<Rightarrow> (Inl (AgentNotFound n), s)
      | Some reg \<Rightarrow>
          if am_require_auth (am_config s) \<and> ar_owner reg \<noteq> None \<and> requester \<noteq> ar_owner reg then
            (Inl Unauthorized, s)
          else
            (let s1 = (if am_supervisor s then
                         s\<lparr>am_effects := am_effects s @
                           [StopAgent \<lparr>name = n, addresses = [], resolvers = []\<rparr> Requested]\<rparr>
                       else s)
             in (Inr (),
                 s1\<lparr>am_agents := hm_modify n (\<lambda>r. r\<lparr>ar_state := Terminated\<rparr>) (am_agents s1),
                    am_stats := (am_stats s1)\<lparr>agents_destroyed := agents_destroyed (am_stats s1) + 1\<rparr>\<rparr>)))"

definition suspend_agent :: "string \<Rightarrow> string option \<Rightarrow> ams \<Rightarrow> (ams_error + unit) \<times> ams" where
  "suspend_agent n requester s =
     (case hm_get (am_agents s) n of
        None \<Rightarrow> (Inl (AgentNotFound n), s)
      | Some reg \<Rightarrow>
          if ar_state reg \<noteq> Active then
            (Inl (AmsInvalidState (''Agent is '' @ ams_agent_state_debug (ar_state reg) @
               '', cannot suspend'')), s)
          else
            (Inr (),
             s\<lparr>am_agents := hm_modify n (\<lambda>r. r\<lparr>ar_state := Suspended\<rparr>) (am_agents s),
               am_stats := (am_stats s)\<lparr>agents_suspended := agents_suspended (am_stats s) + 1\<rparr>\<rparr>))"

definition resume_agent :: "string \<Rightarrow> string option \<Rightarrow> ams \<Rightarrow> (ams_error + unit) \<times> ams" where
  "resume_agent n requester s =
     (case hm_get (am_agents s) n of
        None \<Rightarrow> (Inl (AgentNotFound n), s)
      | Some reg \<Rightarrow>
          if ar_state reg \<noteq> Suspended then
            (Inl (AmsInvalidState (''Agent is '' @ ams_agent_state_debug (ar_state reg) @
               '', cannot resume'')), s)
          else
            (Inr (),
             s\<lparr>am_agents := hm_modify n (\<lambda>r. r\<lparr>ar_state := Active\<rparr>) (am_agents s),
               am_stats := (am_stats s)\<lparr>agents_resumed := agents_resumed (am_stats s) + 1\<rparr>\<rparr>))"

record ams_query =
  qa_name_pattern :: "string option"
  qa_state :: "ams_agent_state option"
  qa_owner :: "string option"

record ams_agent_description =
  ad_name :: string
  ad_addresses :: "string list"
  ad_state :: ams_agent_state
  ad_owner :: "string option"

definition query_matches :: "ams_query \<Rightarrow> string \<Rightarrow> agent_registration \<Rightarrow> bool" where
  "query_matches q n reg =
     (if (case qa_name_pattern q of Some p \<Rightarrow> \<not> contains_str n p | None \<Rightarrow> False) then False
      else if (case qa_state q of Some st \<Rightarrow> ar_state reg \<noteq> st | None \<Rightarrow> False) then False
      else if (case qa_owner q of Some ow \<Rightarrow> ar_owner reg \<noteq> Some ow | None \<Rightarrow> False) then False
      else True)"

text \<open>The result lists the agents in the order of the map's iteration.\<close>

definition query_agents :: "ams_query \<Rightarrow> ams \<Rightarrow> ams_agent_description list \<times> ams" where
  "query_agents q s =
     (map (\<lambda>(n, reg). \<lparr>ad_name = name (ar_agent_id reg), ad_addresses = addresses (ar_agent_id reg),
                       ad_state = ar_state reg, ad_owner = ar_owner reg\<rparr>)
        (filter (\<lambda>(n, reg). query_matches q n reg) (am_agents s)),
      s\<lparr>am_stats := (am_stats s)\<lparr>queries_handled := queries_handled (am_stats s) + 1\<rparr>\<rparr>)"

record platform_description =
  pf_name :: string
  pf_ams_address :: string
  pf_df_address :: string
  pf_agent_count :: usize
  pf_max_agents :: usize

definition get_platform_description :: "ams \<Rightarrow> platform_description" where
  "get_platform_description s =
     \<lparr>pf_name = am_platform_name (am_config s),
      pf_ams_address = ''ams@'' @ am_platform_name (am_config s),
      pf_df_address = ''df@'' @ am_platform_name (am_config s),
      pf_agent_count = of_nat (length (am_agents s)),
      pf_max_agents = am_max_agents (am_config s)\<rparr>"

section \<open>The name generator terminates\<close>

fun digits_value :: "string \<Rightarrow> nat" where
  "digits_value s = foldl (\<lambda>a c. 10 * a + (of_char c - 48)) 0 s"

lemma digits_value_nat_to_string: "digits_value (nat_to_string n) = n"
proof (induction n rule: nat_to_string.induct)
  case (1 n)
  have d: "k < 10 \<Longrightarrow> of_char (char_of (48 + k)) - 48 = (k :: nat)" for k by simp
  show ?case
  proof (cases "n < 10")
    case True
    then show ?thesis using d [of n] by (simp add: nat_to_string.simps [of n])
  next
    case False
    with 1 have "foldl (\<lambda>a c. 10 * a + (of_char c - 48)) 0 (nat_to_string (n div 10)) = n div 10"
      by simp
    with False d [of "n mod 10"] show ?thesis by (simp add: nat_to_string.simps [of n])
  qed
qed

lemma nat_to_string_inj: "nat_to_string m = nat_to_string n \<Longrightarrow> m = n"
  by (metis digits_value_nat_to_string)

lemma candidate_name_inj: "inj (candidate_name p)"
  by (auto simp: inj_on_def candidate_name_def dest: nat_to_string_inj split: if_splits)

lemma name_loop_finds:
  "is_name_available s (candidate_name p j) \<Longrightarrow> k \<le> j \<Longrightarrow>
   \<exists>i \<ge> k. name_loop s p k = Some (candidate_name p i) \<and> is_name_available s (candidate_name p i)"
proof (induction "j - k" arbitrary: k)
  case 0
  then show ?case by (intro exI [of _ k]) (auto simp: name_loop.simps [of s p k])
next
  case (Suc d)
  show ?case
  proof (cases "is_name_available s (candidate_name p k)")
    case True
    then show ?thesis by (intro exI [of _ k]) (simp add: name_loop.simps [of s p k])
  next
    case False
    have "d = j - (k + 1)" "k + 1 \<le> j" using Suc.hyps(2) Suc.prems(2) by arith+
    from Suc.hyps(1) [OF this(1) Suc.prems(1) this(2)] obtain i where "k + 1 \<le> i"
      "name_loop s p (k + 1) = Some (candidate_name p i)" "is_name_available s (candidate_name p i)"
      by blast
    with False show ?thesis
      by (intro exI [of _ i]) (simp add: name_loop.simps [of s p k])
  qed
qed

lemma some_candidate_available: "\<exists>j. is_name_available s (candidate_name p j)"
proof -
  let ?taken = "fst ` set (am_agents s) \<union> set (am_reserved_names (am_config s))"
  have "infinite (range (candidate_name p))" by (simp add: finite_image_iff candidate_name_inj)
  then have "\<not> range (candidate_name p) \<subseteq> ?taken" by (metis finite_Un finite_imageI finite_set finite_subset)
  then obtain j where "candidate_name p j \<notin> ?taken" by blast
  then show ?thesis by (auto simp: is_name_available_def hm_contains_def)
qed

lemma unique_name_available:
  "\<exists>n. generate_unique_name s p = Some n \<and> is_name_available s n"
proof -
  obtain j where "is_name_available s (candidate_name p j)" using some_candidate_available by blast
  from name_loop_finds [OF this, of 0] show ?thesis by (auto simp: generate_unique_name_def)
qed

section \<open>Transitions\<close>

inductive ams_step :: "ams \<Rightarrow> ams \<Rightarrow> bool" where
  create: "create_agent req s = Some (r, s') \<Longrightarrow> ams_step s s'"
| created: "ams_step s (create_finished now i s)"
| destroy: "ams_step s (snd (destroy_agent n requester s))"
| suspend: "ams_step s (snd (suspend_agent n requester s))"
| resume: "ams_step s (snd (resume_agent n requester s))"
| query: "ams_step s (snd (query_agents q s))"

section \<open>Properties\<close>

text \<open>
  The name generator always returns, and returns a free name: the names it tries are pairwise
  different, so one of them is neither registered nor reserved.
\<close>

theorem unique_name_found:
  "\<exists>n. generate_unique_name s p = Some n \<and> is_name_available s n"
  by (rule unique_name_available)

text \<open>
  Destroying an agent is authorised. A request to destroy an agent succeeds exactly if the
  agent is registered and, where authentication is required and the agent has an owner, the
  requester is that owner; it then marks the registration as terminated, and an unauthorised or
  unknown request changes nothing.
\<close>

theorem destroy_authorised:
  "((\<exists>u. fst (destroy_agent n requester s) = Inr u) \<longleftrightarrow>
     (\<exists>reg. hm_get (am_agents s) n = Some reg
        \<and> (am_require_auth (am_config s) \<and> ar_owner reg \<noteq> None \<longrightarrow> requester = ar_owner reg)))
   \<and> (case fst (destroy_agent n requester s) of
        Inl e \<Rightarrow> snd (destroy_agent n requester s) = s
      | Inr _ \<Rightarrow> map_option ar_state (hm_get (am_agents (snd (destroy_agent n requester s))) n) =
          Some Terminated)"
  by (auto simp: destroy_agent_def Let_def hashmap_simps split: option.splits)

lemma create_agent_agents: "create_agent req s = Some (r, s') \<Longrightarrow> am_agents s' = am_agents s"
  by (auto simp: create_agent_def Let_def split: option.splits sum.splits if_splits)

lemma create_agent_pending:
  "create_agent req s = Some (r, s') \<Longrightarrow>
   am_pending s' = am_pending s \<or>
   (\<exists>p. am_pending s' = am_pending s @ [p] \<and> is_name_available s (pd_name p))"
  using unique_name_available [of s "''agent''"]
  by (auto simp: create_agent_def Let_def split: option.splits sum.splits if_splits)

text \<open>A terminated registration whose name no pending creation holds.\<close>

definition retired :: "string \<Rightarrow> ams \<Rightarrow> bool" where
  "retired n s \<longleftrightarrow> (\<exists>reg. hm_get (am_agents s) n = Some reg \<and> ar_state reg = Terminated)
     \<and> n \<notin> pd_name ` set (am_pending s)"

lemma retired_not_available: "retired n s \<Longrightarrow> \<not> is_name_available s n"
  by (auto simp: retired_def is_name_available_def hashmap_simps)

lemma ams_step_retired:
  assumes "ams_step s s'" "retired n s"
  shows "retired n s'"
  using assms
proof (induction rule: ams_step.induct)
  case (create req s r s')
  from create_agent_pending [OF create.hyps] create_agent_agents [OF create.hyps]
    retired_not_available [OF create.prems] create.prems
  show ?case by (auto simp: retired_def)
next
  case (created s now i)
  show ?case
  proof (cases "i < length (am_pending s)")
    case True
    then have "am_pending s ! i \<in> set (am_pending s)" by simp
    with created have "pd_name (am_pending s ! i) \<noteq> n" by (auto simp: retired_def)
    with created True show ?thesis
      by (auto simp: retired_def create_finished_def Let_def hashmap_simps
          dest: in_set_takeD in_set_dropD)
  qed (use created in \<open>simp add: create_finished_def\<close>)
next
  case (destroy s m requester)
  then show ?case
    by (auto simp: retired_def destroy_agent_def Let_def hashmap_simps split: option.splits)
next
  case (suspend s m requester)
  then show ?case
    by (auto simp: retired_def suspend_agent_def Let_def hashmap_simps split: option.splits)
next
  case (resume s m requester)
  then show ?case
    by (auto simp: retired_def resume_agent_def Let_def hashmap_simps split: option.splits)
qed (auto simp: retired_def query_agents_def)

text \<open>
  A destroyed agent's name is never free again. Once an agent is terminated and no creation
  under its name is in flight, it stays terminated whatever requests follow, its name is never
  available again, and its entry keeps counting against the platform's limit.
\<close>

theorem terminated_names_stay_taken:
  assumes "ams_step\<^sup>*\<^sup>* s s'" "retired n s"
  shows "retired n s' \<and> \<not> is_name_available s' n \<and> am_agents s' \<noteq> []"
proof -
  from assms have "retired n s'"
    by (induction rule: rtranclp_induct) (auto intro: ams_step_retired)
  then show ?thesis using retired_not_available by (auto simp: retired_def)
qed

definition demo_ams :: ams where
  "demo_ams = (ams_started 0 (ams_new ams_config_default))\<lparr>am_supervisor := True\<rparr>"

definition demo_create :: "string \<Rightarrow> ams_create_agent" where
  "demo_create n = \<lparr>cr_name = Some n, cr_wasm_module = [], cr_capabilities = None, cr_owner = None\<rparr>"

definition demo_destroyed :: ams where
  "demo_destroyed = snd (destroy_agent ''ams'' None demo_ams)"

lemma demo_destroyed_retired: "retired ''ams'' demo_destroyed"
  by (simp add: demo_destroyed_def demo_ams_def ams_started_def ams_new_def ams_config_default_def
      destroy_agent_def retired_def hashmap_simps Let_def)

theorem terminated_names_stay_taken_witness:
  "\<not> is_name_available (snd (resume_agent ''ams'' None demo_destroyed)) ''ams''"
  using terminated_names_stay_taken [OF r_into_rtranclp [of ams_step, OF ams_step.resume]
      demo_destroyed_retired] by blast

text \<open>
  Creations race. The name and the limit are checked when a creation is requested, but the
  registration happens when the supervisor has answered; so two requests for the same free name
  in a row are both accepted, both are sent to the supervisor, and at any limit above the
  present number of agents neither is refused.
\<close>

theorem concurrent_creations_both_accepted:
  assumes "is_name_available s n" "am_supervisor s"
    "am_max_agents (am_config s) = 0 \<or> of_nat (length (am_agents s)) < am_max_agents (am_config s)"
    "cr_name req1 = Some n" "cr_name req2 = Some n"
  shows "\<exists>a s1 s2 c1 c2. create_agent req1 s = Some (Inr a, s1)
    \<and> create_agent req2 s1 = Some (Inr a, s2) \<and> name a = n
    \<and> am_effects s2 = am_effects s @ [SpawnAgent c1, SpawnAgent c2]
    \<and> ac_id c1 = a \<and> ac_id c2 = a"
  using assms by (auto simp: create_agent_def Let_def is_name_available_def not_le)

theorem concurrent_creations_both_accepted_witness:
  "\<exists>a s1 s2. create_agent (demo_create ''x'') demo_ams = Some (Inr a, s1)
     \<and> create_agent (demo_create ''x'') s1 = Some (Inr a, s2)"
proof -
  have "is_name_available demo_ams ''x''" "am_supervisor demo_ams"
    "am_max_agents (am_config demo_ams) = 0"
    by (simp_all add: demo_ams_def ams_started_def ams_new_def ams_config_default_def
        is_name_available_def hashmap_simps)
  moreover have "cr_name (demo_create ''x'') = Some ''x''" by (simp add: demo_create_def)
  ultimately show ?thesis
    using concurrent_creations_both_accepted [of demo_ams "''x''" "demo_create ''x''" "demo_create ''x''"]
    by blast
qed

end
