(* ===== verification/Recruiting.thy ===== *)
theory Recruiting
  imports Protocol_Interface Float64 "HOL-Library.Multiset"
begin

text \<open>
  The FIPA recruiting protocol, \<^verbatim>\<open>src/protocol/recruiting.rs\<close>: a bounded list of candidates
  kept in descending order of their score. The JSON encoder is the parameter \<open>json\<close>.

  \<open>slice::sort_by\<close> is stable; for a comparator that orders all elements present it is stable
  insertion sort. The comparator of the code orders all scores but NaN, and \<open>scores_sorted\<close>
  shows that no candidate has a NaN score.
\<close>

section \<open>State\<close>

record service_description =
  sd_name :: string
  sd_description :: string
  sd_protocols :: "int list"
  sd_ontology :: string
  sd_properties :: "(string, string) hashmap"

record candidate =
  ca_agent_id :: agent_id
  ca_service :: "service_description option"
  ca_score :: f64

datatype recruiting_state =
    NotStarted | ProxyReceived | Searching | CandidatesFound | Completed | NoCandidates
  | Failed | Cancelled

fun recruiting_as_str :: "recruiting_state \<Rightarrow> string" where
  "recruiting_as_str NotStarted = ''not_started''"
| "recruiting_as_str ProxyReceived = ''proxy_received''"
| "recruiting_as_str Searching = ''searching''"
| "recruiting_as_str CandidatesFound = ''candidates_found''"
| "recruiting_as_str Completed = ''completed''"
| "recruiting_as_str NoCandidates = ''no_candidates''"
| "recruiting_as_str Failed = ''failed''"
| "recruiting_as_str Cancelled = ''cancelled''"

record recruiting_protocol =
  rc_state :: recruiting_state
  rc_base :: conversation_base
  rc_original_request :: "acl_message option"
  rc_initiator :: "agent_id option"
  rc_search_criteria :: "bytes option"
  rc_service_name :: "string option"
  rc_required_protocol :: "protocol_type option"
  rc_candidates :: "candidate list"
  rc_max_candidates :: nat
  rc_min_score :: f64

section \<open>Operations\<close>

text \<open>The constructors \<open>new_as_recruiter\<close> and \<open>new_as_initiator\<close> build the same record.\<close>

definition recruiting_new :: "string \<Rightarrow> timestamp \<Rightarrow> recruiting_protocol" where
  "recruiting_new uuid now =
     \<lparr>rc_state = NotStarted, rc_base = conversation_new uuid Initiator now,
      rc_original_request = None, rc_initiator = None, rc_search_criteria = None,
      rc_service_name = None, rc_required_protocol = None, rc_candidates = [],
      rc_max_candidates = 10, rc_min_score = Fin 0\<rparr>"

definition recruiting_with_service_name :: "string \<Rightarrow> recruiting_protocol \<Rightarrow> recruiting_protocol" where
  "recruiting_with_service_name n s = s\<lparr>rc_service_name := Some n\<rparr>"

definition recruiting_with_required_protocol ::
  "protocol_type \<Rightarrow> recruiting_protocol \<Rightarrow> recruiting_protocol" where
  "recruiting_with_required_protocol p s = s\<lparr>rc_required_protocol := Some p\<rparr>"

definition recruiting_with_conversation_id ::
  "string \<Rightarrow> recruiting_protocol \<Rightarrow> recruiting_protocol" where
  "recruiting_with_conversation_id i s =
     s\<lparr>rc_base := (rc_base s)\<lparr>cb_conversation_id := i\<rparr>\<rparr>"

definition recruiting_with_max_candidates :: "nat \<Rightarrow> recruiting_protocol \<Rightarrow> recruiting_protocol" where
  "recruiting_with_max_candidates n s = s\<lparr>rc_max_candidates := n\<rparr>"

definition recruiting_with_min_score :: "f64 \<Rightarrow> recruiting_protocol \<Rightarrow> recruiting_protocol" where
  "recruiting_with_min_score x s = s\<lparr>rc_min_score := x\<rparr>"

text \<open>\<open>sort_by(|a, b| b.score.partial_cmp(&a.score))\<close>: stable, the higher score first.\<close>

fun insert_by_score :: "candidate \<Rightarrow> candidate list \<Rightarrow> candidate list" where
  "insert_by_score x [] = [x]"
| "insert_by_score x (y # ys) =
     (if f64_lt (ca_score x) (ca_score y) then y # insert_by_score x ys else x # y # ys)"

definition sort_by_score :: "candidate list \<Rightarrow> candidate list" where
  "sort_by_score cs = foldr insert_by_score cs []"

definition add_candidate ::
  "agent_id \<Rightarrow> service_description option \<Rightarrow> f64 \<Rightarrow> recruiting_protocol \<Rightarrow> recruiting_protocol" where
  "add_candidate a service score s =
     (if f64_le (rc_min_score s) score \<and> length (rc_candidates s) < rc_max_candidates s then
        s\<lparr>rc_candidates := sort_by_score (rc_candidates s @
          [\<lparr>ca_agent_id = a, ca_service = service, ca_score = score\<rparr>])\<rparr>
      else s)"

definition complete_search ::
  "recruiting_protocol \<Rightarrow> (protocol_error + unit) \<times> recruiting_protocol" where
  "complete_search s =
     (if rc_state s \<noteq> Searching then
        (Inl (InvalidTransition (recruiting_as_str (rc_state s)) ''complete_search''), s)
      else
        (Inr (), s\<lparr>rc_state := (if rc_candidates s = [] then NoCandidates else CandidatesFound)\<rparr>))"

definition recruiting_validate_transition ::
  "recruiting_protocol \<Rightarrow> performative \<Rightarrow> protocol_error + recruiting_state" where
  "recruiting_validate_transition s perf =
     (let st = rc_state s in
      if st = NotStarted \<and> perf = Proxy then Inr ProxyReceived
      else if st = ProxyReceived \<and> perf = QueryRef then Inr Searching
      else if st = Searching \<and> perf = Inform \<or> st = Searching \<and> perf = InformRef
        then Inr CandidatesFound
      else if st = CandidatesFound \<and> perf = Inform then Inr Completed
      else if st = Searching \<and> perf = Failure then Inr NoCandidates
      else if perf = Cancel then Inr Cancelled
      else if perf = Failure then Inr Failed
      else invalid_transition (recruiting_as_str st) perf)"

definition recruiting_validate :: "recruiting_protocol \<Rightarrow> acl_message \<Rightarrow> protocol_error + unit" where
  "recruiting_validate = validate_with recruiting_validate_transition"

text \<open>An \<open>Inform\<close> or \<open>InformRef\<close> is recorded, its content is not parsed.\<close>

definition recruiting_effect ::
  "timestamp \<Rightarrow> performative \<Rightarrow> recruiting_state \<Rightarrow> acl_message \<Rightarrow>
   recruiting_protocol \<Rightarrow> recruiting_protocol" where
  "recruiting_effect now perf new_state m s =
     (let s1 = s\<lparr>rc_base := record_message m (rc_base s)\<rparr>;
          s2 = (if perf = Proxy then
                  s1\<lparr>rc_original_request := Some m, rc_initiator := sender m,
                     rc_search_criteria := Some (content m)\<rparr>
                else s1)
      in s2\<lparr>rc_state := new_state\<rparr>)"

definition recruiting_answer ::
  "(string list \<Rightarrow> bytes option) \<Rightarrow> recruiting_protocol \<Rightarrow> process_result" where
  "recruiting_answer json s =
     (case rc_state s of
        Completed \<Rightarrow> Complete (completion_data_default\<lparr>result :=
          Some (case json (map (\<lambda>c. name (ca_agent_id c)) (rc_candidates s)) of
                  Some j \<Rightarrow> j | None \<Rightarrow> [])\<rparr>)
      | NoCandidates \<Rightarrow> process_result.Failed ''No candidates found''
      | Failed \<Rightarrow> process_result.Failed ''Recruiting failed''
      | Cancelled \<Rightarrow> process_result.Failed ''Recruiting cancelled''
      | _ \<Rightarrow> Continue)"

definition recruiting_process ::
  "(string list \<Rightarrow> bytes option) \<Rightarrow> recruiting_protocol process_fun" where
  "recruiting_process json =
     step_with recruiting_validate_transition recruiting_effect (recruiting_answer json)"

definition recruiting_is_complete :: "recruiting_protocol \<Rightarrow> bool" where
  "recruiting_is_complete s = (rc_state s \<in> {Completed, NoCandidates, Failed, Cancelled})"

definition recruiting_is_failed :: "recruiting_protocol \<Rightarrow> bool" where
  "recruiting_is_failed s = (rc_state s \<in> {NoCandidates, Failed, Cancelled})"

definition recruiting_expected :: "recruiting_protocol \<Rightarrow> performative list" where
  "recruiting_expected s =
     (case rc_state s of
        NotStarted \<Rightarrow> [Proxy]
      | ProxyReceived \<Rightarrow> [QueryRef, Cancel]
      | Searching \<Rightarrow> [Inform, InformRef, Failure, Cancel]
      | CandidatesFound \<Rightarrow> [Inform, Cancel]
      | _ \<Rightarrow> [])"

definition recruiting_history :: "recruiting_protocol \<Rightarrow> acl_message list" where
  "recruiting_history s = cb_messages (rc_base s)"

section \<open>Sorting\<close>

definition by_score :: "candidate \<Rightarrow> candidate \<Rightarrow> bool" where
  "by_score x y \<longleftrightarrow> f64_le (ca_score y) (ca_score x)"

lemma mset_insert_by_score [simp]: "mset (insert_by_score x ys) = add_mset x (mset ys)"
  by (induction ys) auto

lemma mset_sort_by_score [simp]: "mset (sort_by_score cs) = mset cs"
  by (induction cs) (auto simp: sort_by_score_def)

lemma set_sort_by_score [simp]: "set (sort_by_score cs) = set cs"
  using mset_sort_by_score [of cs] by (metis set_mset_mset)

lemma length_sort_by_score [simp]: "length (sort_by_score cs) = length cs"
  using mset_sort_by_score [of cs] by (metis size_mset)

lemma set_insert_by_score [simp]: "set (insert_by_score x ys) = insert x (set ys)"
  by (metis mset_insert_by_score set_mset_add_mset_insert set_mset_mset)

lemma sorted_insert_by_score:
  assumes "\<forall>c \<in> set (x # ys). ca_score c \<noteq> NaN" "sorted_wrt by_score ys"
  shows "sorted_wrt by_score (insert_by_score x ys)"
  using assms
proof (induction ys)
  case (Cons y ys)
  show ?case
  proof (cases "f64_lt (ca_score x) (ca_score y)")
    case True
    then have "by_score y x" by (simp add: by_score_def f64_le_def)
    with Cons True show ?thesis by simp
  next
    case False
    with Cons.prems have "by_score x y" by (simp add: by_score_def f64_not_lt)
    moreover have "by_score x z" if "by_score y z" for z
      using that \<open>by_score x y\<close> unfolding by_score_def by (rule f64_le_trans)
    ultimately show ?thesis using Cons.prems False by auto
  qed
qed simp

lemma sorted_sort_by_score:
  "\<forall>c \<in> set cs. ca_score c \<noteq> NaN \<Longrightarrow> sorted_wrt by_score (sort_by_score cs)"
proof (induction cs)
  case (Cons c cs)
  then have "sorted_wrt by_score (insert_by_score c (sort_by_score cs))"
    by (intro sorted_insert_by_score) simp_all
  then show ?case by (simp add: sort_by_score_def)
qed (simp add: sort_by_score_def)

section \<open>The contract\<close>

lemma recruiting_transition_iff:
  "recruiting_validate_transition s p = Inr st \<longleftrightarrow>
     (rc_state s, p, st) \<in>
       {(NotStarted, Proxy, ProxyReceived), (ProxyReceived, QueryRef, Searching),
        (Searching, Inform, CandidatesFound), (Searching, InformRef, CandidatesFound),
        (CandidatesFound, Inform, Completed), (Searching, Failure, NoCandidates)}
     \<or> p = Failure \<and> rc_state s \<noteq> Searching \<and> st = Failed
     \<or> p = Cancel \<and> st = Cancelled"
  unfolding recruiting_validate_transition_def Let_def by (cases "rc_state s"; simp; blast)

lemma recruiting_effect_simps [simp]:
  "rc_state (recruiting_effect now p st m s) = st"
  "rc_base (recruiting_effect now p st m s) = record_message m (rc_base s)"
  "rc_candidates (recruiting_effect now p st m s) = rc_candidates s"
  "rc_max_candidates (recruiting_effect now p st m s) = rc_max_candidates s"
  "rc_min_score (recruiting_effect now p st m s) = rc_min_score s"
  by (simp_all add: recruiting_effect_def Let_def)

definition scores_sorted :: "recruiting_protocol \<Rightarrow> bool" where
  "scores_sorted s \<longleftrightarrow> sorted_wrt by_score (rc_candidates s)
     \<and> (\<forall>c \<in> set (rc_candidates s). f64_le (rc_min_score s) (ca_score c))
     \<and> length (rc_candidates s) \<le> rc_max_candidates s"

interpretation rc_step: step_machine recruiting_validate_transition recruiting_effect
  "recruiting_answer json" recruiting_history recruiting_is_complete recruiting_is_failed
  scores_sorted
  for json
proof unfold_locales
  fix s p st now m
  assume "recruiting_is_complete s" "recruiting_validate_transition s p = Inr st"
  then show "recruiting_is_complete (recruiting_effect now p st m s)"
    by (auto simp: recruiting_is_complete_def recruiting_transition_iff)
qed (auto simp: recruiting_history_def recruiting_answer_def recruiting_is_complete_def
    recruiting_is_failed_def scores_sorted_def split: recruiting_state.splits)

interpretation rc: advertising_machine recruiting_validate "recruiting_process json"
  recruiting_history recruiting_is_complete recruiting_is_failed scores_sorted recruiting_expected
  for json
  unfolding recruiting_validate_def recruiting_process_def
proof unfold_locales
  fix s p and m :: acl_message
  assume "scores_sorted s" "p \<in> set (recruiting_expected s)"
    "performative_try_from (performative m) = Some p"
  then show "validate_with recruiting_validate_transition s m = Inr ()"
    by (auto simp: validate_with_def recruiting_expected_def recruiting_validate_transition_def
        Let_def split: recruiting_state.splits)
qed (auto simp: recruiting_is_complete_def recruiting_expected_def
    split: recruiting_state.splits)

lemma add_candidate_sorted: "scores_sorted s \<Longrightarrow> scores_sorted (add_candidate a sv x s)"
proof -
  assume s: "scores_sorted s"
  show ?thesis
  proof (cases "f64_le (rc_min_score s) x \<and> length (rc_candidates s) < rc_max_candidates s")
    case True
    let ?cs = "rc_candidates s @ [\<lparr>ca_agent_id = a, ca_service = sv, ca_score = x\<rparr>]"
    have le: "\<forall>c \<in> set ?cs. f64_le (rc_min_score s) (ca_score c)"
      using s True by (auto simp: scores_sorted_def)
    then have "sorted_wrt by_score (sort_by_score ?cs)"
      by (intro sorted_sort_by_score) (auto dest: f64_le_notNaN)
    with True le show ?thesis by (simp add: add_candidate_def scores_sorted_def)
  qed (use s in \<open>auto simp: add_candidate_def\<close>)
qed

section \<open>Properties\<close>

inductive recruiting_reachable :: "(string list \<Rightarrow> bytes option) \<Rightarrow> recruiting_protocol \<Rightarrow> bool"
  for json :: "string list \<Rightarrow> bytes option" where
  init: "recruiting_reachable json
    (recruiting_with_min_score x (recruiting_with_max_candidates n (recruiting_new uuid now)))"
| message: "recruiting_reachable json s \<Longrightarrow>
    recruiting_reachable json (snd (recruiting_process json now m s))"
| add: "recruiting_reachable json s \<Longrightarrow> recruiting_reachable json (add_candidate a sv y s)"
| search_done: "recruiting_reachable json s \<Longrightarrow>
    recruiting_reachable json (snd (complete_search s))"

lemma recruiting_reachable_sorted: "recruiting_reachable json s \<Longrightarrow> scores_sorted s"
proof (induction rule: recruiting_reachable.induct)
  case (message s now m)
  from message(2) show ?case by (rule rc.invar_step)
next
  case (add s a sv y)
  then show ?case by (intro add_candidate_sorted)
qed (simp_all add: scores_sorted_def complete_search_def recruiting_new_def
    recruiting_with_min_score_def recruiting_with_max_candidates_def)

text \<open>
  The recruiter's list is a bounded ranking. In every reachable state the candidates are in
  descending order of their scores, no score is below the threshold or NaN, there are at most
  \<open>max_candidates\<close> of them, and adding a candidate that qualifies while there is room adds
  exactly that candidate.
\<close>

theorem recruiting_candidates_ranked:
  assumes "recruiting_reachable json s"
  shows "sorted_wrt (\<lambda>x y. f64_le (ca_score y) (ca_score x)) (rc_candidates s)
    \<and> (\<forall>c \<in> set (rc_candidates s). ca_score c \<noteq> NaN \<and> f64_le (rc_min_score s) (ca_score c))
    \<and> length (rc_candidates s) \<le> rc_max_candidates s
    \<and> mset (rc_candidates (add_candidate a sv x s)) = mset (rc_candidates s) +
        (if f64_le (rc_min_score s) x \<and> length (rc_candidates s) < rc_max_candidates s
         then {#\<lparr>ca_agent_id = a, ca_service = sv, ca_score = x\<rparr>#} else {#})"
proof -
  have "by_score = (\<lambda>x y. f64_le (ca_score y) (ca_score x))"
    by (simp add: fun_eq_iff by_score_def)
  with recruiting_reachable_sorted [OF assms] show ?thesis
    by (auto simp: scores_sorted_def add_candidate_def dest: f64_le_notNaN)
qed

definition demo_recruiter :: recruiting_protocol where
  "demo_recruiter =
     add_candidate (plain_agent ''b'') None (Fin 9) (add_candidate (plain_agent ''c'') None NaN
       (add_candidate (plain_agent ''a'') None (Fin 7)
         (recruiting_with_min_score (Fin 5) (recruiting_with_max_candidates 2
           (recruiting_new ''conv'' 0)))))"

theorem recruiting_candidates_ranked_witness:
  "map (\<lambda>c. name (ca_agent_id c)) (rc_candidates demo_recruiter) = [''b'', ''a'']
    \<and> rc_candidates (add_candidate (plain_agent ''d'') None (Fin 10) demo_recruiter) =
        rc_candidates demo_recruiter
    \<and> sorted_wrt (\<lambda>x y. f64_le (ca_score y) (ca_score x)) (rc_candidates demo_recruiter)"
proof -
  have "recruiting_reachable (\<lambda>_. None) demo_recruiter"
    unfolding demo_recruiter_def by (intro recruiting_reachable.intros)
  from recruiting_candidates_ranked [OF this] show ?thesis
    by (simp add: demo_recruiter_def add_candidate_def sort_by_score_def recruiting_new_def
        recruiting_with_min_score_def recruiting_with_max_candidates_def)
qed

end
