(* ===== verification/Df.thy ===== *)
theory Df
  imports Recruiting Actor_Messages Keyed_Store Rust_Strings
begin

text \<open>
  The directory facilitator, \<^verbatim>\<open>src/platform/df.rs\<close>: registrations of services with
  a second index by agent, limits, filtered search and subscriptions. Instants are integers.
  Notifications are not sent by the code, only counted. A search visits the services in the
  order of the map's iteration, here the order of the association list.
\<close>

section \<open>State\<close>

record df_config =
  df_platform_name :: string
  df_max_services_per_agent :: nat
  df_max_total_services :: nat
  df_federated_dfs :: "string list"

record service_registration =
  sr_service :: service_description
  sr_owner :: agent_id
  sr_registered_at :: timestamp
  sr_lease_until :: "timestamp option"

record df_search_filter =
  sf_name :: "string option"
  sf_protocol :: "protocol_type option"
  sf_ontology :: "string option"
  sf_owner :: "string option"
  sf_properties :: "(string, string) hashmap"

record df_subscription =
  ds_subscriber :: agent_id
  ds_filter :: df_search_filter
  ds_created_at :: timestamp

record df_stats =
  registrations :: u64
  deregistrations :: u64
  searches :: u64
  search_results :: u64
  notifications_sent :: u64

record df =
  df_config :: df_config
  df_services :: "(string, service_registration list) hashmap"
  df_agent_services :: "(string, string set) hashmap"
  df_subscriptions :: "(string, df_subscription) hashmap"
  df_agent_id :: agent_id
  df_stats :: df_stats

datatype df_error =
    ServiceNotFound string
  | AgentServiceLimitReached
  | TotalServiceLimitReached
  | InvalidService string
  | SubscriptionNotFound

definition df_config_default :: df_config where
  "df_config_default =
     \<lparr>df_platform_name = ''fipa-platform'', df_max_services_per_agent = 100,
      df_max_total_services = 10000, df_federated_dfs = []\<rparr>"

definition df_new :: "df_config \<Rightarrow> df" where
  "df_new c =
     \<lparr>df_config = c, df_services = [], df_agent_services = [], df_subscriptions = [],
      df_agent_id = \<lparr>name = ''df'', addresses = [''df@'' @ df_platform_name c], resolvers = []\<rparr>,
      df_stats = \<lparr>registrations = 0, deregistrations = 0, searches = 0, search_results = 0,
        notifications_sent = 0\<rparr>\<rparr>"

section \<open>Filters\<close>

definition matches_filter ::
  "service_description \<Rightarrow> agent_id \<Rightarrow> df_search_filter \<Rightarrow> bool" where
  "matches_filter svc own f =
     (if (case sf_name f of Some n \<Rightarrow> \<not> contains_str (sd_name svc) n | None \<Rightarrow> False) then False
      else if (case sf_protocol f of
                 Some p \<Rightarrow> protocol_type_as_i32 p \<notin> set (sd_protocols svc) | None \<Rightarrow> False) then False
      else if (case sf_ontology f of Some ont \<Rightarrow> sd_ontology svc \<noteq> ont | None \<Rightarrow> False) then False
      else if (case sf_owner f of Some n \<Rightarrow> name own \<noteq> n | None \<Rightarrow> False) then False
      else list_all (\<lambda>(k, v). list_ex (\<lambda>(k', v'). k' = k \<and> v' = v) (sd_properties svc))
             (sf_properties f))"

section \<open>Notifications\<close>

definition dummy_owner :: agent_id where
  "dummy_owner = \<lparr>name = [], addresses = [], resolvers = []\<rparr>"

definition notified_of_registration :: "service_description \<Rightarrow> df \<Rightarrow> df_subscription list" where
  "notified_of_registration svc s =
     filter (\<lambda>sub. matches_filter svc dummy_owner (ds_filter sub)) (hm_values (df_subscriptions s))"

definition notified_of_deregistration :: "string \<Rightarrow> df \<Rightarrow> df_subscription list" where
  "notified_of_deregistration svc s =
     filter (\<lambda>sub. case sf_name (ds_filter sub) of Some n \<Rightarrow> contains_str svc n | None \<Rightarrow> True)
       (hm_values (df_subscriptions s))"

definition count_notifications :: "df_subscription list \<Rightarrow> df \<Rightarrow> df" where
  "count_notifications subs s =
     s\<lparr>df_stats := (df_stats s)\<lparr>notifications_sent :=
         notifications_sent (df_stats s) + of_nat (length subs)\<rparr>\<rparr>"

section \<open>Handlers\<close>

definition regs_of :: "df \<Rightarrow> string \<Rightarrow> service_registration list" where
  "regs_of s svc = (case hm_get (df_services s) svc of None \<Rightarrow> [] | Some rs \<Rightarrow> rs)"

definition names_of :: "df \<Rightarrow> string \<Rightarrow> string set" where
  "names_of s a = (case hm_get (df_agent_services s) a of None \<Rightarrow> {} | Some ns \<Rightarrow> ns)"

definition total_count :: "df \<Rightarrow> nat" where
  "total_count s = sum_list (map length (hm_values (df_services s)))"

record df_register_request =
  dr_agent_id :: agent_id
  dr_service :: service_description
  dr_lease_duration :: "duration option"

text \<open>The two readings of the clock are those of the registration and of the lease.\<close>

definition df_register ::
  "timestamp \<Rightarrow> timestamp \<Rightarrow> df_register_request \<Rightarrow> df \<Rightarrow> (df_error + unit) \<times> df" where
  "df_register now1 now2 req s =
     (let agent = name (dr_agent_id req); svc = sd_name (dr_service req)
      in if df_max_services_per_agent (df_config s) \<le> card (names_of s agent) then
           (Inl AgentServiceLimitReached, s)
         else if 0 < df_max_total_services (df_config s)
             \<and> df_max_total_services (df_config s) \<le> total_count s then
           (Inl TotalServiceLimitReached, s)
         else
           (let reg = \<lparr>sr_service = dr_service req, sr_owner = dr_agent_id req,
                       sr_registered_at = now1,
                       sr_lease_until = map_option (\<lambda>d. now2 + int d) (dr_lease_duration req)\<rparr>;
                s1 = s\<lparr>df_services := hm_insert svc (regs_of s svc @ [reg]) (df_services s),
                       df_agent_services :=
                         hm_insert agent (insert svc (names_of s agent)) (df_agent_services s),
                       df_stats := (df_stats s)\<lparr>registrations := registrations (df_stats s) + 1\<rparr>\<rparr>
            in (Inr (), count_notifications (notified_of_registration (dr_service req) s1) s1)))"

definition untrack :: "string \<Rightarrow> string \<Rightarrow> (string, string set) hashmap \<Rightarrow>
  (string, string set) hashmap" where
  "untrack agent svc m =
     (case hm_get m agent of
        None \<Rightarrow> m
      | Some ns \<Rightarrow> if ns - {svc} = {} then hm_remove agent m else hm_insert agent (ns - {svc}) m)"

text \<open>
  An unsuccessful removal leaves the list as it was, since nothing was retained away; the early
  return comes before the empty list would be dropped.
\<close>

definition df_deregister :: "agent_id \<Rightarrow> string \<Rightarrow> df \<Rightarrow> (df_error + unit) \<times> df" where
  "df_deregister who svc s =
     (case hm_get (df_services s) svc of
        None \<Rightarrow> (Inl (ServiceNotFound svc), s)
      | Some regs \<Rightarrow>
          (let kept = filter (\<lambda>r. name (sr_owner r) \<noteq> name who) regs
           in if length kept = length regs then
                (Inl (ServiceNotFound svc), s\<lparr>df_services := hm_insert svc kept (df_services s)\<rparr>)
              else
                (let s1 = s\<lparr>df_services := (if kept = [] then hm_remove svc (df_services s)
                                            else hm_insert svc kept (df_services s)),
                            df_agent_services := untrack (name who) svc (df_agent_services s),
                            df_stats := (df_stats s)\<lparr>deregistrations :=
                              deregistrations (df_stats s) + 1\<rparr>\<rparr>
                 in (Inr (), count_notifications (notified_of_deregistration svc s1) s1))))"

definition df_modify ::
  "timestamp \<Rightarrow> timestamp \<Rightarrow> agent_id \<Rightarrow> service_description \<Rightarrow> df \<Rightarrow> (df_error + unit) \<times> df" where
  "df_modify now1 now2 who svc s =
     df_register now1 now2 \<lparr>dr_agent_id = who, dr_service = svc, dr_lease_duration = None\<rparr>
       (snd (df_deregister who (sd_name svc) s))"

record df_search_result =
  dq_service :: service_description
  dq_provider :: agent_id
  dq_registered_at :: timestamp

definition search_result :: "service_registration \<Rightarrow> df_search_result" where
  "search_result r =
     \<lparr>dq_service = sr_service r, dq_provider = sr_owner r, dq_registered_at = sr_registered_at r\<rparr>"

definition df_search ::
  "df_search_filter \<Rightarrow> nat option \<Rightarrow> df \<Rightarrow> df_search_result list \<times> df" where
  "df_search f limit s =
     (let found = map search_result (filter (\<lambda>r. matches_filter (sr_service r) (sr_owner r) f)
                    (concat (hm_values (df_services s))));
          results = (case limit of None \<Rightarrow> found | Some n \<Rightarrow> take n found)
      in (results,
          s\<lparr>df_stats := (df_stats s)\<lparr>searches := searches (df_stats s) + 1,
              search_results := search_results (df_stats s) + of_nat (length results)\<rparr>\<rparr>))"

definition df_subscribe ::
  "timestamp \<Rightarrow> agent_id \<Rightarrow> df_search_filter \<Rightarrow> df \<Rightarrow> (df_error + unit) \<times> df" where
  "df_subscribe now who f s =
     (Inr (), s\<lparr>df_subscriptions := hm_insert (name who)
        \<lparr>ds_subscriber = who, ds_filter = f, ds_created_at = now\<rparr> (df_subscriptions s)\<rparr>)"

definition df_unsubscribe :: "agent_id \<Rightarrow> df \<Rightarrow> (df_error + unit) \<times> df" where
  "df_unsubscribe who s =
     (if hm_contains (df_subscriptions s) (name who) then
        (Inr (), s\<lparr>df_subscriptions := hm_remove (name who) (df_subscriptions s)\<rparr>)
      else (Inl SubscriptionNotFound, s))"

section \<open>Invariant\<close>

text \<open>
  The two indexes describe the same registrations, no list is empty, every registration sits
  under its service's name, and the limits hold.
\<close>

definition df_index_ok :: "df \<Rightarrow> bool" where
  "df_index_ok s \<longleftrightarrow> hm_wf (df_services s)
     \<and> (\<forall>svc. hm_get (df_services s) svc \<noteq> Some [])
     \<and> (\<forall>svc. \<forall>r \<in> set (regs_of s svc). sd_name (sr_service r) = svc)
     \<and> (\<forall>a. names_of s a = {svc. \<exists>r \<in> set (regs_of s svc). name (sr_owner r) = a})"

definition df_limits_ok :: "df \<Rightarrow> bool" where
  "df_limits_ok s \<longleftrightarrow>
     (\<forall>a. finite (names_of s a) \<and> card (names_of s a) \<le> df_max_services_per_agent (df_config s))
     \<and> (0 < df_max_total_services (df_config s) \<longrightarrow>
          total_count s \<le> df_max_total_services (df_config s))"

section \<open>Lookup lemmas\<close>

lemma count_notifications_frame [simp]:
  "df_services (count_notifications subs s) = df_services s"
  "df_agent_services (count_notifications subs s) = df_agent_services s"
  "df_subscriptions (count_notifications subs s) = df_subscriptions s"
  "df_config (count_notifications subs s) = df_config s"
  by (simp_all add: count_notifications_def)

lemma regs_of_cong: "df_services s = df_services t \<Longrightarrow> regs_of s = regs_of t"
  by (simp add: regs_of_def fun_eq_iff)

lemma names_of_cong: "df_agent_services s = df_agent_services t \<Longrightarrow> names_of s = names_of t"
  by (simp add: names_of_def fun_eq_iff)

lemma hm_get_untrack:
  "(case hm_get (untrack agent svc m) a of None \<Rightarrow> {} | Some ns \<Rightarrow> ns) =
     (case hm_get m a of None \<Rightarrow> {} | Some ns \<Rightarrow> if a = agent then ns - {svc} else ns)"
  by (auto simp: untrack_def hashmap_simps split: option.splits)

lemma sum_list_values_insert:
  assumes "hm_wf m"
  shows "sum_list (map f (hm_values (hm_insert k v m))) +
      (case hm_get m k of None \<Rightarrow> 0 | Some u \<Rightarrow> f u) =
    sum_list (map f (hm_values m)) + (f v :: nat)"
  using assms
  by (induction m) (auto simp: hm_values_def hm_insert_def hm_wf_def split: option.splits
      dest: map_of_SomeD)

lemma sum_list_values_remove:
  assumes "hm_wf m"
  shows "sum_list (map f (hm_values (hm_remove k m))) +
      (case hm_get m k of None \<Rightarrow> 0 | Some u \<Rightarrow> f u) =
    sum_list (map f (hm_values m) :: nat list)"
  using assms
proof (induction m)
  case (Cons x m)
  obtain k' v where x: "x = (k', v)" by (cases x)
  have "k \<notin> fst ` set m \<Longrightarrow> AList.delete k m = m" by (rule delete_id) simp
  with Cons x show ?case
    by (auto simp: hm_values_def hm_remove_def hm_wf_def split: option.splits dest: map_of_SomeD)
qed (simp add: hm_values_def hm_remove_def)

section \<open>What registering and deregistering do\<close>

lemma df_register_ok:
  assumes "df_register now1 now2 req s = (Inr (), s')"
  defines "agent \<equiv> name (dr_agent_id req)" and "svc \<equiv> sd_name (dr_service req)"
  defines "reg \<equiv> \<lparr>sr_service = dr_service req, sr_owner = dr_agent_id req, sr_registered_at = now1,
      sr_lease_until = map_option (\<lambda>d. now2 + int d) (dr_lease_duration req)\<rparr>"
  shows "card (names_of s agent) < df_max_services_per_agent (df_config s)"
    and "0 < df_max_total_services (df_config s) \<longrightarrow> total_count s < df_max_total_services (df_config s)"
    and "df_services s' = hm_insert svc (regs_of s svc @ [reg]) (df_services s)"
    and "df_agent_services s' = hm_insert agent (insert svc (names_of s agent)) (df_agent_services s)"
    and "df_config s' = df_config s"
  using assms(1)
  by (auto simp: df_register_def Let_def agent_def svc_def reg_def not_le split: if_splits)

lemma regs_of_register:
  assumes "df_services s' = hm_insert svc (regs_of s svc @ [reg]) (df_services s)"
  shows "regs_of s' svc' = regs_of s svc' @ (if svc' = svc then [reg] else [])"
  by (simp add: regs_of_def assms hashmap_simps)

lemma names_of_register:
  assumes "df_agent_services s' = hm_insert agent (insert svc (names_of s agent)) (df_agent_services s)"
  shows "names_of s' a = names_of s a \<union> (if a = agent then {svc} else {})"
  by (auto simp: names_of_def assms hashmap_simps)

lemma total_count_register:
  assumes "hm_wf (df_services s)"
    "df_services s' = hm_insert svc (regs_of s svc @ [reg]) (df_services s)"
  shows "total_count s' = Suc (total_count s)"
  using sum_list_values_insert [OF assms(1), of length svc "regs_of s svc @ [reg]"]
  by (simp add: total_count_def assms(2) regs_of_def split: option.splits)

lemma df_register_invar:
  assumes "df_index_ok s" "df_limits_ok s" "df_register now1 now2 req s = (Inr (), s')"
  shows "df_index_ok s'" and "df_limits_ok s'"
proof -
  note ok = df_register_ok [OF assms(3)]
  note regs = regs_of_register [OF ok(3)] and names = names_of_register [OF ok(4)]
  show "df_index_ok s'"
    using assms(1) unfolding df_index_ok_def regs names
    by (auto simp: ok(3) hashmap_simps split: if_splits)
  have "card (names_of s' a) \<le> df_max_services_per_agent (df_config s)" for a
    using assms(2) ok(1) card_insert_le_m1 [of "df_max_services_per_agent (df_config s)"
        "names_of s a" "sd_name (dr_service req)"]
    by (auto simp: names df_limits_ok_def)
  moreover have "total_count s' = Suc (total_count s)"
    using assms(1) ok(3) by (intro total_count_register) (auto simp: df_index_ok_def)
  ultimately show "df_limits_ok s'"
    using assms(2) ok(2,5) by (auto simp: df_limits_ok_def names)
qed

lemma df_deregister_error:
  assumes "df_deregister who svc s = (Inl e, s')" "hm_wf (df_services s)"
  shows "\<forall>n. regs_of s' n = regs_of s n" "df_agent_services s' = df_agent_services s"
    "df_config s' = df_config s" "hm_wf (df_services s')" "total_count s' = total_count s"
    "hm_get (df_services s') = hm_get (df_services s)"
proof -
  have "s' = s \<or> (\<exists>rs. hm_get (df_services s) svc = Some rs
      \<and> s' = s\<lparr>df_services := hm_insert svc rs (df_services s)\<rparr>)"
    using assms(1)
    by (auto simp: df_deregister_def Let_def split: option.splits if_splits)
      (metis length_filter_less less_irrefl filter_True)
  then show "\<forall>n. regs_of s' n = regs_of s n" "df_agent_services s' = df_agent_services s"
    "df_config s' = df_config s" "hm_wf (df_services s')" "total_count s' = total_count s"
    "hm_get (df_services s') = hm_get (df_services s)"
    using assms(2) sum_list_values_insert [OF assms(2), of length svc "the (hm_get (df_services s) svc)"]
    by (auto simp: regs_of_def hashmap_simps total_count_def fun_eq_iff)
qed

lemma df_deregister_ok:
  assumes "df_deregister who svc s = (Inr (), s')" "hm_wf (df_services s)"
  shows "\<forall>n. regs_of s' n =
      (if n = svc then filter (\<lambda>r. name (sr_owner r) \<noteq> name who) (regs_of s svc) else regs_of s n)"
    and "\<forall>a. names_of s' a = (if a = name who then names_of s a - {svc} else names_of s a)"
    and "df_config s' = df_config s" and "hm_wf (df_services s')"
    and "total_count s' < total_count s"
    and "\<forall>n. hm_get (df_services s) n \<noteq> Some [] \<longrightarrow> hm_get (df_services s') n \<noteq> Some []"
    and "\<exists>r \<in> set (regs_of s svc). name (sr_owner r) = name who"
proof -
  from assms(1) obtain regs where regs: "hm_get (df_services s) svc = Some regs"
    by (auto simp: df_deregister_def split: option.splits)
  define kept where "kept = filter (\<lambda>r. name (sr_owner r) \<noteq> name who) regs"
  have neq: "length kept \<noteq> length regs"
    using assms(1) by (auto simp: df_deregister_def regs kept_def Let_def split: if_splits)
  then have less: "length kept < length regs"
    unfolding kept_def by (metis length_filter_le order_le_imp_less_or_eq)
  have s': "df_services s' = (if kept = [] then hm_remove svc (df_services s)
      else hm_insert svc kept (df_services s))"
    "df_agent_services s' = untrack (name who) svc (df_agent_services s)"
    "df_config s' = df_config s"
    using assms(1) neq by (auto simp: df_deregister_def regs Let_def simp flip: kept_def)
  show "\<forall>n. regs_of s' n =
      (if n = svc then filter (\<lambda>r. name (sr_owner r) \<noteq> name who) (regs_of s svc) else regs_of s n)"
    using regs by (auto simp: regs_of_def s' hashmap_simps simp flip: kept_def)
  show "\<forall>a. names_of s' a = (if a = name who then names_of s a - {svc} else names_of s a)"
    unfolding names_of_def s' hm_get_untrack by (auto split: option.split)
  show "df_config s' = df_config s" by (rule s'(3))
  show "hm_wf (df_services s')" using assms(2) by (simp add: s')
  show "total_count s' < total_count s"
    using less sum_list_values_insert [OF assms(2), of length svc kept]
      sum_list_values_remove [OF assms(2), of length svc] regs
    by (auto simp: total_count_def s')
  show "\<forall>n. hm_get (df_services s) n \<noteq> Some [] \<longrightarrow> hm_get (df_services s') n \<noteq> Some []"
    by (auto simp: s' hashmap_simps)
  have "\<exists>r \<in> set regs. name (sr_owner r) = name who"
  proof (rule ccontr)
    assume "\<not> ?thesis"
    then have "kept = regs" by (auto simp: kept_def intro: filter_True)
    with neq show False by simp
  qed
  then obtain r where "r \<in> set regs" "name (sr_owner r) = name who" by blast
  with regs show "\<exists>r \<in> set (regs_of s svc). name (sr_owner r) = name who"
    by (auto simp: regs_of_def)
qed

lemma df_deregister_invar:
  assumes "df_index_ok s" "df_limits_ok s" "df_deregister who svc s = (r, s')"
  shows "df_index_ok s'" and "df_limits_ok s'"
proof -
  have wf: "hm_wf (df_services s)" using assms(1) by (simp add: df_index_ok_def)
  have "df_index_ok s' \<and> df_limits_ok s'"
  proof (cases r)
    case (Inl e)
    with assms(3) have "df_deregister who svc s = (Inl e, s')" by simp
    note er = df_deregister_error [OF this wf]
    have "names_of s' = names_of s" using er(2) by (rule names_of_cong)
    with assms(1,2) er show ?thesis by (simp add: df_index_ok_def df_limits_ok_def)
  next
    case (Inr u)
    with assms(3) have "df_deregister who svc s = (Inr (), s')" by simp
    note ok = df_deregister_ok [OF this wf]
    have "df_index_ok s'"
      using assms(1) ok(1,2,4,6) unfolding df_index_ok_def by (auto split: if_splits)
    moreover have "finite (names_of s a) \<Longrightarrow> card (names_of s' a) \<le> card (names_of s a)" for a
      using ok(2) by (auto intro!: card_mono)
    then have "card (names_of s' a) \<le> df_max_services_per_agent (df_config s)" for a
      using assms(2) by (meson df_limits_ok_def le_trans)
    then have "df_limits_ok s'"
      using assms(2) ok(2,3,5) by (auto simp: df_limits_ok_def)
    ultimately show ?thesis ..
  qed
  then show "df_index_ok s'" "df_limits_ok s'" by simp_all
qed

lemma df_register_error: "df_register now1 now2 req s = (Inl e, s') \<Longrightarrow> s' = s"
  by (auto simp: df_register_def Let_def split: if_splits)

lemma df_register_any_invar:
  assumes "df_index_ok s" "df_limits_ok s" "df_register now1 now2 req s = (r, s')"
  shows "df_index_ok s' \<and> df_limits_ok s'"
proof (cases r)
  case (Inl e)
  with assms df_register_error show ?thesis by blast
next
  case (Inr u)
  with assms(3) have "df_register now1 now2 req s = (Inr (), s')" by simp
  from df_register_invar [OF assms(1,2) this] show ?thesis by simp
qed

section \<open>Transitions\<close>

inductive df_step :: "df \<Rightarrow> df \<Rightarrow> bool" where
  register: "df_step s (snd (df_register now1 now2 req s))"
| deregister: "df_step s (snd (df_deregister who svc s))"
| modify: "df_step s (snd (df_modify now1 now2 who desc s))"
| search: "df_step s (snd (df_search f limit s))"
| subscribe: "df_step s (snd (df_subscribe now who f s))"
| unsubscribe: "df_step s (snd (df_unsubscribe who s))"

lemma df_step_invar:
  assumes "df_step s s'" "df_index_ok s \<and> df_limits_ok s"
  shows "df_index_ok s' \<and> df_limits_ok s'"
proof -
  have frame: "df_index_ok t \<and> df_limits_ok t"
    if "df_services t = df_services s" "df_agent_services t = df_agent_services s"
      "df_config t = df_config s" for t
  proof
    note eqs = that regs_of_cong [OF that(1)] names_of_cong [OF that(2)]
    from assms(2) have "df_index_ok s" ..
    then show "df_index_ok t" by (simp add: df_index_ok_def eqs)
    from assms(2) have "df_limits_ok s" ..
    then show "df_limits_ok t" by (simp add: df_limits_ok_def total_count_def eqs)
  qed
  from assms(1) show ?thesis
  proof cases
    case (register now1 now2 req)
    with assms(2) df_register_any_invar show ?thesis by (metis prod.collapse)
  next
    case (deregister who svc)
    with assms(2) df_deregister_invar show ?thesis by (metis prod.collapse)
  next
    case (modify now1 now2 who desc)
    with assms(2) df_deregister_invar df_register_any_invar show ?thesis
      unfolding df_modify_def by (metis prod.collapse)
  next
    case (search f limit)
    show ?thesis by (rule frame) (simp_all add: search df_search_def Let_def)
  next
    case (subscribe now who f)
    show ?thesis by (rule frame) (simp_all add: subscribe df_subscribe_def Let_def)
  next
    case (unsubscribe who)
    show ?thesis by (rule frame) (simp_all add: unsubscribe df_unsubscribe_def Let_def)
  qed
qed

lemma df_new_invar: "df_index_ok (df_new c) \<and> df_limits_ok (df_new c)"
  by (simp add: df_new_def df_index_ok_def df_limits_ok_def regs_of_def names_of_def
      total_count_def hm_values_def)

section \<open>Properties\<close>

text \<open>
  C28: the two indexes of the directory stay consistent and the limits hold. After any sequence of
  requests to a new directory, the names tracked for an agent are exactly those under which it
  has a registration, every registration is listed under its service's name, no agent has more
  distinct names than allowed, and the number of registrations is within the total limit.
\<close>

theorem directory_consistent:
  assumes "df_step\<^sup>*\<^sup>* (df_new c) s"
  shows "names_of s a = {svc. \<exists>r \<in> set (regs_of s svc). name (sr_owner r) = a}
    \<and> (\<forall>svc. \<forall>r \<in> set (regs_of s svc). sd_name (sr_service r) = svc)
    \<and> card (names_of s a) \<le> df_max_services_per_agent (df_config s)
    \<and> (0 < df_max_total_services (df_config s) \<longrightarrow>
        total_count s \<le> df_max_total_services (df_config s))"
proof -
  from assms have "df_index_ok s \<and> df_limits_ok s"
  proof (induction rule: rtranclp_induct)
    case base
    show ?case by (rule df_new_invar)
  qed (rule df_step_invar)
  then have "df_index_ok s" "df_limits_ok s" by simp_all
  from this(2) have "card (names_of s a) \<le> df_max_services_per_agent (df_config s)"
    "0 < df_max_total_services (df_config s) \<longrightarrow>
       total_count s \<le> df_max_total_services (df_config s)"
    by (simp_all add: df_limits_ok_def)
  moreover from \<open>df_index_ok s\<close>
  have "names_of s a = {svc. \<exists>r \<in> set (regs_of s svc). name (sr_owner r) = a}"
    "\<forall>svc. \<forall>r \<in> set (regs_of s svc). sd_name (sr_service r) = svc"
    by (auto simp: df_index_ok_def)
  ultimately show ?thesis by blast
qed

definition demo_service :: "string \<Rightarrow> service_description" where
  "demo_service n =
     \<lparr>sd_name = n, sd_description = [], sd_protocols = [], sd_ontology = [], sd_properties = []\<rparr>"

definition demo_df :: df where
  "demo_df = snd (df_register 0 0
     \<lparr>dr_agent_id = plain_agent ''a'', dr_service = demo_service ''calc'', dr_lease_duration = Some 5\<rparr>
     (df_new df_config_default))"

lemma demo_df_services:
  "df_services demo_df =
     [(''calc'', [\<lparr>sr_service = demo_service ''calc'', sr_owner = plain_agent ''a'',
                   sr_registered_at = 0, sr_lease_until = Some 5\<rparr>])]"
  "df_agent_services demo_df = [(''a'', {''calc''})]" "df_subscriptions demo_df = []"
  by (simp_all add: demo_df_def df_register_def df_new_def df_config_default_def names_of_def
      total_count_def hm_values_def regs_of_def demo_service_def hm_insert_def Let_def)

theorem directory_consistent_witness:
  "names_of demo_df ''a'' = {''calc''}
   \<and> names_of demo_df ''a'' = {svc. \<exists>r \<in> set (regs_of demo_df svc). name (sr_owner r) = ''a''}"
proof -
  have "df_step\<^sup>*\<^sup>* (df_new df_config_default) demo_df"
    unfolding demo_df_def by (intro r_into_rtranclp df_step.register)
  from directory_consistent [OF this, of "''a''"] show ?thesis
    by (simp add: names_of_def demo_df_services)
qed

text \<open>
  Searching finds exactly the matching registrations. Without a limit the result lists every
  registration that matches the filter and nothing else; with a limit it is a prefix of that
  list, of the length the limit allows. A registration whose lease has run out is found like any
  other: no operation reads the end of a lease.
\<close>

theorem search_exact:
  assumes "hm_wf (df_services s)"
  shows "set (fst (df_search f None s)) =
      {search_result r | r svc. r \<in> set (regs_of s svc) \<and> matches_filter (sr_service r) (sr_owner r) f}
    \<and> fst (df_search f (Some n) s) = take n (fst (df_search f None s))"
proof -
  have "(\<exists>svc. r \<in> set (regs_of s svc)) \<longleftrightarrow> r \<in> set (concat (hm_values (df_services s)))" for r
    using assms map_of_eq_Some_iff [of "df_services s"]
    by (force simp: regs_of_def hm_values_def hm_wf_def split: option.splits dest: map_of_SomeD)
  then show ?thesis by (auto simp: df_search_def Let_def)
qed

theorem search_exact_witness:
  "map (\<lambda>r. name (dq_provider r)) (fst (df_search \<lparr>sf_name = Some ''calc'', sf_protocol = None,
      sf_ontology = None, sf_owner = None, sf_properties = []\<rparr> (Some 0) demo_df)) = []"
  using search_exact [of demo_df "\<lparr>sf_name = Some ''calc'', sf_protocol = None,
      sf_ontology = None, sf_owner = None, sf_properties = []\<rparr>" 0]
  by (simp add: demo_df_services hm_wf_def)

text \<open>
  A subscription that filters by owner is never told of a registration. The filter is applied
  to an owner with an empty name instead of the registering agent, so whatever service any agent
  registers, a subscription for a non-empty owner name is not among those notified; yet it is
  notified of every deregistration whose name fits, whoever owned the service.
\<close>

theorem owner_subscriptions_miss_registrations:
  assumes "sub \<in> set (hm_values (df_subscriptions s))" "sf_owner (ds_filter sub) = Some ow" "ow \<noteq> []"
  shows "sub \<notin> set (notified_of_registration svc s)
    \<and> (sf_name (ds_filter sub) = None \<longrightarrow> sub \<in> set (notified_of_deregistration n s))"
  using assms by (auto simp: notified_of_registration_def notified_of_deregistration_def
      matches_filter_def dummy_owner_def)

theorem owner_subscriptions_miss_registrations_witness:
  "notified_of_registration (demo_service ''calc'') (snd (df_subscribe 1 (plain_agent ''b'')
      \<lparr>sf_name = None, sf_protocol = None, sf_ontology = None, sf_owner = Some ''a'',
       sf_properties = []\<rparr> demo_df)) = []"
proof -
  let ?f = "\<lparr>sf_name = None, sf_protocol = None, sf_ontology = None, sf_owner = Some ''a'',
       sf_properties = []\<rparr>"
  let ?s = "snd (df_subscribe 1 (plain_agent ''b'') ?f demo_df)"
  let ?sub = "\<lparr>ds_subscriber = plain_agent ''b'', ds_filter = ?f, ds_created_at = 1\<rparr>"
  have subs: "hm_values (df_subscriptions ?s) = [?sub]"
    by (simp add: df_subscribe_def demo_df_services hm_values_def hm_insert_def)
  with owner_subscriptions_miss_registrations [of ?sub ?s "''a''" "demo_service ''calc''"]
  have "?sub \<notin> set (notified_of_registration (demo_service ''calc'') ?s)" by simp
  then show ?thesis using subs by (auto simp: notified_of_registration_def split: if_splits)
qed

end
