(* ===== verification/Propose_Protocol.thy ===== *)
theory Propose_Protocol
  imports Protocol_Interface
begin

text \<open>The FIPA propose protocol, \<^verbatim>\<open>src/protocol/propose.rs\<close>.\<close>

section \<open>State\<close>

datatype propose_state = NotStarted | Proposed | Accepted | Rejected | Cancelled

fun propose_as_str :: "propose_state \<Rightarrow> string" where
  "propose_as_str NotStarted = ''not_started''"
| "propose_as_str Proposed = ''proposed''"
| "propose_as_str Accepted = ''accepted''"
| "propose_as_str Rejected = ''rejected''"
| "propose_as_str Cancelled = ''cancelled''"

record propose_protocol =
  pp_state :: propose_state
  pp_base :: conversation_base
  pp_proposal_content :: "bytes option"
  pp_response_content :: "bytes option"

section \<open>Operations\<close>

definition propose_new :: "role \<Rightarrow> string \<Rightarrow> timestamp \<Rightarrow> propose_protocol" where
  "propose_new r uuid now =
     \<lparr>pp_state = NotStarted, pp_base = conversation_new uuid r now,
      pp_proposal_content = None, pp_response_content = None\<rparr>"

definition propose_with_conversation_id :: "string \<Rightarrow> propose_protocol \<Rightarrow> propose_protocol" where
  "propose_with_conversation_id i s =
     s\<lparr>pp_base := (pp_base s)\<lparr>cb_conversation_id := i\<rparr>\<rparr>"

definition propose_with_deadline :: "timestamp \<Rightarrow> propose_protocol \<Rightarrow> propose_protocol" where
  "propose_with_deadline d s = s\<lparr>pp_base := (pp_base s)\<lparr>cb_deadline := Some d\<rparr>\<rparr>"

definition propose_validate_transition ::
  "propose_protocol \<Rightarrow> performative \<Rightarrow> protocol_error + propose_state" where
  "propose_validate_transition s perf =
     (let st = pp_state s in
      if st = NotStarted \<and> perf = Propose then Inr Proposed
      else if st = Proposed \<and> perf = AcceptProposal then Inr Accepted
      else if st = Proposed \<and> perf = RejectProposal then Inr Rejected
      else if perf = Cancel then Inr Cancelled
      else invalid_transition (propose_as_str st) perf)"

definition propose_validate :: "propose_protocol \<Rightarrow> acl_message \<Rightarrow> protocol_error + unit" where
  "propose_validate = validate_with propose_validate_transition"

definition propose_effect ::
  "timestamp \<Rightarrow> performative \<Rightarrow> propose_state \<Rightarrow> acl_message \<Rightarrow> propose_protocol \<Rightarrow> propose_protocol"
  where
  "propose_effect now perf new_state m s =
     (let s1 = s\<lparr>pp_base := record_message m (pp_base s)\<rparr>;
          s2 = (case new_state of
                  Proposed \<Rightarrow>
                    with_sender m (\<lambda>a s. s\<lparr>pp_base := add_participant a (pp_base s)\<rparr>)
                      (s1\<lparr>pp_proposal_content := Some (content m)\<rparr>)
                | Accepted \<Rightarrow> s1\<lparr>pp_response_content := Some (content m)\<rparr>
                | Rejected \<Rightarrow> s1\<lparr>pp_response_content := Some (content m)\<rparr>
                | _ \<Rightarrow> s1)
      in s2\<lparr>pp_state := new_state\<rparr>)"

definition propose_answer :: "propose_protocol \<Rightarrow> process_result" where
  "propose_answer s =
     (case pp_state s of
        Proposed \<Rightarrow> Continue
      | Accepted \<Rightarrow> Complete (completion_data_default\<lparr>result := pp_response_content s\<rparr>)
      | Rejected \<Rightarrow> Failed ''Proposal rejected''
      | Cancelled \<Rightarrow> Failed ''Protocol cancelled''
      | _ \<Rightarrow> Continue)"

definition propose_process :: "propose_protocol process_fun" where
  "propose_process = step_with propose_validate_transition propose_effect propose_answer"

definition propose_is_complete :: "propose_protocol \<Rightarrow> bool" where
  "propose_is_complete s = (pp_state s \<in> {Accepted, Rejected, Cancelled})"

definition propose_is_failed :: "propose_protocol \<Rightarrow> bool" where
  "propose_is_failed s = (pp_state s \<in> {Rejected, Cancelled})"

definition propose_expected :: "propose_protocol \<Rightarrow> performative list" where
  "propose_expected s =
     (case pp_state s of
        NotStarted \<Rightarrow> [Propose]
      | Proposed \<Rightarrow> [AcceptProposal, RejectProposal, Cancel]
      | _ \<Rightarrow> [])"

definition propose_history :: "propose_protocol \<Rightarrow> acl_message list" where
  "propose_history s = cb_messages (pp_base s)"

section \<open>The contract\<close>

definition propose_invar :: "propose_protocol \<Rightarrow> bool" where
  "propose_invar s \<longleftrightarrow> participants_distinct (pp_base s)
     \<and> (pp_state s \<in> {Proposed, Accepted, Rejected} \<longrightarrow> pp_proposal_content s \<noteq> None)
     \<and> (pp_state s \<in> {NotStarted, Proposed} \<longrightarrow> pp_response_content s = None)
     \<and> (pp_state s \<in> {Accepted, Rejected} \<longrightarrow> pp_response_content s \<noteq> None)"

lemmas propose_defs =
  propose_validate_transition_def propose_effect_def propose_answer_def propose_is_complete_def
  propose_is_failed_def propose_history_def propose_invar_def with_sender_def Let_def

interpretation pp_step: step_machine propose_validate_transition propose_effect propose_answer
  propose_history propose_is_complete propose_is_failed propose_invar
  by unfold_locales
    (auto simp: propose_defs split: option.splits propose_state.splits if_splits)

interpretation pp: advertising_machine propose_validate propose_process propose_history
  propose_is_complete propose_is_failed propose_invar propose_expected
  unfolding propose_validate_def propose_process_def
  by unfold_locales
    (auto simp: propose_defs propose_expected_def validate_with_def
      split: propose_state.splits if_splits)

end
