(* ===== verification/English_Auction.thy ===== *)
theory English_Auction
  imports Protocol_Interface Float64
begin

text \<open>
  The FIPA English auction, \<^verbatim>\<open>src/protocol/english_auction.rs\<close>. Two groups of operations
  work on the same record: the messages, handled by \<open>process\<close>, and the auctioneer's calls
  \<open>submit_bid\<close>, \<open>close_auction\<close> and \<open>register_bidder\<close>. The relation \<open>english_reachable\<close> is
  the closure under all of them.

  The JSON encoder of \<open>serde_json\<close> is the parameter \<open>json\<close>.
\<close>

section \<open>State\<close>

record bid =
  bid_bidder :: string
  bid_amount :: f64
  bid_timestamp :: timestamp

datatype english_auction_state =
  NotStarted | Announced | Bidding | Closing | Completed | Failed | Cancelled

fun english_as_str :: "english_auction_state \<Rightarrow> string" where
  "english_as_str NotStarted = ''not_started''"
| "english_as_str Announced = ''announced''"
| "english_as_str Bidding = ''bidding''"
| "english_as_str Closing = ''closing''"
| "english_as_str Completed = ''completed''"
| "english_as_str Failed = ''failed''"
| "english_as_str Cancelled = ''cancelled''"

record english_auction =
  en_state :: english_auction_state
  en_base :: conversation_base
  en_item_description :: "bytes option"
  en_starting_price :: f64
  en_reserve_price :: "f64 option"
  en_bid_increment :: f64
  en_current_bid :: "bid option"
  en_bid_history :: "bid list"
  en_bidders :: "(string, agent_id) hashmap"
  en_winner :: "string option"

section \<open>Operations\<close>

definition english_new_as_auctioneer ::
  "f64 \<Rightarrow> f64 \<Rightarrow> string \<Rightarrow> timestamp \<Rightarrow> english_auction" where
  "english_new_as_auctioneer starting_price bid_increment uuid now =
     \<lparr>en_state = NotStarted, en_base = conversation_new uuid Initiator now,
      en_item_description = None, en_starting_price = starting_price, en_reserve_price = None,
      en_bid_increment = bid_increment, en_current_bid = None, en_bid_history = [],
      en_bidders = [], en_winner = None\<rparr>"

definition english_new_as_bidder :: "string \<Rightarrow> timestamp \<Rightarrow> english_auction" where
  "english_new_as_bidder uuid now =
     \<lparr>en_state = NotStarted, en_base = conversation_new uuid Participant now,
      en_item_description = None, en_starting_price = Fin 0, en_reserve_price = None,
      en_bid_increment = Fin 0, en_current_bid = None, en_bid_history = [],
      en_bidders = [], en_winner = None\<rparr>"

definition english_with_reserve_price :: "f64 \<Rightarrow> english_auction \<Rightarrow> english_auction" where
  "english_with_reserve_price price s = s\<lparr>en_reserve_price := Some price\<rparr>"

definition english_with_item_description :: "bytes \<Rightarrow> english_auction \<Rightarrow> english_auction" where
  "english_with_item_description desc s = s\<lparr>en_item_description := Some desc\<rparr>"

definition english_with_conversation_id :: "string \<Rightarrow> english_auction \<Rightarrow> english_auction" where
  "english_with_conversation_id i s = s\<lparr>en_base := (en_base s)\<lparr>cb_conversation_id := i\<rparr>\<rparr>"

definition english_minimum_bid :: "english_auction \<Rightarrow> f64" where
  "english_minimum_bid s =
     (case en_current_bid s of
        Some b \<Rightarrow> f64_add (bid_amount b) (en_bid_increment s)
      | None \<Rightarrow> en_starting_price s)"

definition english_register_bidder :: "agent_id \<Rightarrow> english_auction \<Rightarrow> english_auction" where
  "english_register_bidder a s = s\<lparr>en_bidders := hm_insert (name a) a (en_bidders s)\<rparr>"

definition english_submit_bid ::
  "timestamp \<Rightarrow> string \<Rightarrow> f64 \<Rightarrow> english_auction \<Rightarrow> (protocol_error + bool) \<times> english_auction"
  where
  "english_submit_bid now bidder amount s =
     (if en_state s \<notin> {Announced, Bidding} then
        (Inl (InvalidTransition (english_as_str (en_state s)) ''bid''), s)
      else if f64_lt amount (english_minimum_bid s) then (Inr False, s)
      else
        let b = \<lparr>bid_bidder = bidder, bid_amount = amount, bid_timestamp = now\<rparr>
        in (Inr True, s\<lparr>en_bid_history := en_bid_history s @ [b], en_current_bid := Some b,
                        en_state := Bidding\<rparr>))"

definition english_close_auction ::
  "english_auction \<Rightarrow> (protocol_error + bid option) \<times> english_auction" where
  "english_close_auction s =
     (if en_state s \<notin> {Bidding, Closing} then
        (Inl (InvalidTransition (english_as_str (en_state s)) ''close''), s)
      else if (case (en_reserve_price s, en_current_bid s) of
                 (Some reserve, Some b) \<Rightarrow> f64_lt (bid_amount b) reserve
               | _ \<Rightarrow> False)
        then (Inr None, s\<lparr>en_state := Failed\<rparr>)
      else
        (case en_current_bid s of
           Some b \<Rightarrow> (Inr (Some b), s\<lparr>en_winner := Some (bid_bidder b), en_state := Completed\<rparr>)
         | None \<Rightarrow> (Inr None, s\<lparr>en_state := Failed\<rparr>)))"

definition english_validate_transition ::
  "english_auction \<Rightarrow> performative \<Rightarrow> protocol_error + english_auction_state" where
  "english_validate_transition s perf =
     (let st = en_state s in
      if st = NotStarted \<and> perf = Inform then Inr Announced
      else if st = Announced \<and> perf = Propose \<or> st = Bidding \<and> perf = Propose then Inr Bidding
      else if st = Bidding \<and> perf = AcceptProposal \<or> st = Bidding \<and> perf = RejectProposal
        then Inr Bidding
      else if st = Bidding \<and> perf = Inform then Inr Completed
      else if st = Announced \<and> perf = Inform then Inr Completed
      else if perf = Failure then Inr Failed
      else if perf = Cancel then Inr Cancelled
      else invalid_transition (english_as_str st) perf)"

definition english_validate :: "english_auction \<Rightarrow> acl_message \<Rightarrow> protocol_error + unit" where
  "english_validate = validate_with english_validate_transition"

definition english_effect ::
  "timestamp \<Rightarrow> performative \<Rightarrow> english_auction_state \<Rightarrow> acl_message \<Rightarrow>
   english_auction \<Rightarrow> english_auction" where
  "english_effect now perf new_state m s =
     (let s1 = s\<lparr>en_base := record_message m (en_base s)\<rparr>;
          s2 = (if perf = Inform \<and> en_state s1 = NotStarted then
                  s1\<lparr>en_item_description := Some (content m)\<rparr>
                else if perf = Propose then with_sender m english_register_bidder s1
                else s1)
      in s2\<lparr>en_state := new_state\<rparr>)"

definition english_answer :: "(bid \<Rightarrow> bytes option) \<Rightarrow> english_auction \<Rightarrow> process_result" where
  "english_answer json s =
     (case en_state s of
        Completed \<Rightarrow> Complete (completion_data_default\<lparr>result :=
          map_option (\<lambda>b. case json b of Some j \<Rightarrow> j | None \<Rightarrow> []) (en_current_bid s)\<rparr>)
      | Failed \<Rightarrow> process_result.Failed ''Auction failed''
      | Cancelled \<Rightarrow> process_result.Failed ''Auction cancelled''
      | _ \<Rightarrow> Continue)"

definition english_process :: "(bid \<Rightarrow> bytes option) \<Rightarrow> english_auction process_fun" where
  "english_process json =
     step_with english_validate_transition english_effect (english_answer json)"

definition english_is_complete :: "english_auction \<Rightarrow> bool" where
  "english_is_complete s = (en_state s \<in> {Completed, Failed, Cancelled})"

definition english_is_failed :: "english_auction \<Rightarrow> bool" where
  "english_is_failed s = (en_state s \<in> {Failed, Cancelled})"

definition english_expected :: "english_auction \<Rightarrow> performative list" where
  "english_expected s =
     (case en_state s of
        NotStarted \<Rightarrow> [Inform]
      | Announced \<Rightarrow> [Propose, Inform, Cancel]
      | Bidding \<Rightarrow> [Propose, AcceptProposal, RejectProposal, Inform, Cancel]
      | Closing \<Rightarrow> [Inform, Cancel]
      | _ \<Rightarrow> [])"

definition english_history :: "english_auction \<Rightarrow> acl_message list" where
  "english_history s = cb_messages (en_base s)"

section \<open>The contract\<close>

lemma english_transition_iff:
  "english_validate_transition s p = Inr st \<longleftrightarrow>
     (en_state s, p, st) \<in>
       {(NotStarted, Inform, Announced), (Announced, Propose, Bidding),
        (Bidding, Propose, Bidding), (Bidding, AcceptProposal, Bidding),
        (Bidding, RejectProposal, Bidding), (Bidding, Inform, Completed),
        (Announced, Inform, Completed)}
     \<or> p = Failure \<and> st = Failed \<or> p = Cancel \<and> st = Cancelled"
  unfolding english_validate_transition_def Let_def by (cases "en_state s"; simp; blast)

lemma english_effect_simps [simp]:
  "en_state (english_effect now p st m s) = st"
  "en_base (english_effect now p st m s) = record_message m (en_base s)"
  "en_current_bid (english_effect now p st m s) = en_current_bid s"
  "en_bid_history (english_effect now p st m s) = en_bid_history s"
  "en_winner (english_effect now p st m s) = en_winner s"
  "en_starting_price (english_effect now p st m s) = en_starting_price s"
  "en_bid_increment (english_effect now p st m s) = en_bid_increment s"
  "en_reserve_price (english_effect now p st m s) = en_reserve_price s"
  by (simp_all add: english_effect_def english_register_bidder_def with_sender_def Let_def
      split: option.splits)

lemma english_effect_bidders:
  "hm_wf (en_bidders s) \<Longrightarrow> hm_wf (en_bidders (english_effect now p st m s))"
  by (simp add: english_effect_def english_register_bidder_def with_sender_def Let_def
      split: option.splits)

text \<open>
  No operation enters \<open>Closing\<close>; the current bid is the last of the history, which is empty
  until a bid is accepted; a winner is only set by closing, on the current bid, against the
  reserve.
\<close>

definition english_winner_ok :: "english_auction \<Rightarrow> bool" where
  "english_winner_ok s \<longleftrightarrow>
     (\<forall>w. en_winner s = Some w \<longrightarrow> en_state s \<in> {Completed, Failed, Cancelled} \<and>
       (\<exists>b. en_current_bid s = Some b \<and> bid_bidder b = w \<and>
         (\<forall>r. en_reserve_price s = Some r \<longrightarrow> \<not> f64_lt (bid_amount b) r)))"

definition english_invar :: "english_auction \<Rightarrow> bool" where
  "english_invar s \<longleftrightarrow>
     en_state s \<noteq> Closing
     \<and> hm_wf (en_bidders s)
     \<and> en_current_bid s = (if en_bid_history s = [] then None else Some (last (en_bid_history s)))
     \<and> (en_state s \<in> {NotStarted, Announced} \<longrightarrow> en_bid_history s = [])
     \<and> english_winner_ok s"

interpretation en_step: step_machine english_validate_transition english_effect
  "english_answer json" english_history english_is_complete english_is_failed english_invar
  for json
proof unfold_locales
  fix s p st now m
  assume inv: "english_invar s" and tr: "english_validate_transition s p = Inr st"
  then show "english_invar (english_effect now p st m s)"
    by (auto simp: english_invar_def english_winner_ok_def english_transition_iff
        english_effect_bidders)
next
  fix s p st now m
  assume "english_is_complete s" "english_validate_transition s p = Inr st"
  then show "english_is_complete (english_effect now p st m s)"
    by (auto simp: english_is_complete_def english_transition_iff)
qed (auto simp: english_history_def english_answer_def english_is_complete_def
    english_is_failed_def split: english_auction_state.splits)

interpretation en: advertising_machine english_validate "english_process json" english_history
  english_is_complete english_is_failed english_invar english_expected
  for json
  unfolding english_validate_def english_process_def
proof unfold_locales
  fix s p and m :: acl_message
  assume "english_invar s" "p \<in> set (english_expected s)"
    "performative_try_from (performative m) = Some p"
  then show "validate_with english_validate_transition s m = Inr ()"
    by (auto simp: validate_with_def english_expected_def english_invar_def
        english_validate_transition_def Let_def split: english_auction_state.splits)
qed (auto simp: english_invar_def english_is_complete_def english_expected_def
    split: english_auction_state.splits)

section \<open>The auctioneer's calls\<close>

lemma english_submit_bid_cases:
  obtains (closed) "en_state s \<notin> {Announced, Bidding}"
      "english_submit_bid now w a s =
        (Inl (InvalidTransition (english_as_str (en_state s)) ''bid''), s)"
  | (low) "en_state s \<in> {Announced, Bidding}" "f64_lt a (english_minimum_bid s)"
      "english_submit_bid now w a s = (Inr False, s)"
  | (taken) b where "en_state s \<in> {Announced, Bidding}" "\<not> f64_lt a (english_minimum_bid s)"
      "b = \<lparr>bid_bidder = w, bid_amount = a, bid_timestamp = now\<rparr>"
      "english_submit_bid now w a s = (Inr True, s\<lparr>en_bid_history := en_bid_history s @ [b],
         en_current_bid := Some b, en_state := Bidding\<rparr>)"
  by (cases "en_state s \<in> {Announced, Bidding}"; cases "f64_lt a (english_minimum_bid s)")
    (auto simp: english_submit_bid_def Let_def)

lemma english_submit_bid_invar:
  "english_invar s \<Longrightarrow> english_invar (snd (english_submit_bid now w a s))"
  by (rule english_submit_bid_cases [of s now w a])
    (auto simp: english_invar_def english_winner_ok_def)

lemma english_close_invar: "english_invar s \<Longrightarrow> english_invar (snd (english_close_auction s))"
  by (auto simp: english_invar_def english_winner_ok_def english_close_auction_def
      split: option.splits)

lemma english_register_invar: "english_invar s \<Longrightarrow> english_invar (english_register_bidder a s)"
  by (auto simp: english_invar_def english_winner_ok_def english_register_bidder_def)

text \<open>
  The increasing order of the bids, under the condition that no NaN was ever bid: then each
  accepted bid is at least the minimum bid, and that is at least the bid before it.
\<close>

definition real_bid :: "bid \<Rightarrow> bool" where
  "real_bid b \<longleftrightarrow> f64_wf (bid_amount b) \<and> bid_amount b \<noteq> NaN"

definition bid_le :: "bid \<Rightarrow> bid \<Rightarrow> bool" where
  "bid_le a b \<longleftrightarrow> f64_le (bid_amount a) (bid_amount b)"

definition english_ascending :: "english_auction \<Rightarrow> bool" where
  "english_ascending s \<longleftrightarrow>
     (f64_le (Fin 0) (en_bid_increment s) \<and> (\<forall>b \<in> set (en_bid_history s). real_bid b) \<longrightarrow>
       sorted_wrt bid_le (en_bid_history s))"

lemma bid_le_trans: "bid_le a b \<Longrightarrow> bid_le b c \<Longrightarrow> bid_le a c"
  unfolding bid_le_def by (rule f64_le_trans)

lemma minimum_bid_raises:
  assumes "en_current_bid s = Some c" "real_bid c" "f64_le (Fin 0) (en_bid_increment s)"
    "\<not> f64_lt a (english_minimum_bid s)" "a \<noteq> NaN"
  shows "f64_le (bid_amount c) a"
proof (cases "english_minimum_bid s = NaN")
  case True
  with assms have "bid_amount c = NegInf"
    by (cases "bid_amount c"; cases "en_bid_increment s")
      (auto simp: english_minimum_bid_def real_bid_def f64_round_def Let_def split: if_splits)
  with assms show ?thesis by simp
next
  case False
  with assms have "f64_le (bid_amount c) (english_minimum_bid s)"
    by (simp add: english_minimum_bid_def real_bid_def f64_add_ge)
  moreover have "f64_le (english_minimum_bid s) a"
    using assms False f64_not_lt by blast
  ultimately show ?thesis by (rule f64_le_trans)
qed

lemma english_submit_bid_ascending:
  assumes inv: "english_invar s" and asc: "english_ascending s"
  shows "english_ascending (snd (english_submit_bid now w a s))"
proof (cases rule: english_submit_bid_cases [of s now w a])
  case (taken b)
  show ?thesis
  proof (cases "f64_le (Fin 0) (en_bid_increment s) \<and>
      (\<forall>x \<in> set (en_bid_history s @ [b]). real_bid x)")
    case True
    with asc have sorted: "sorted_wrt bid_le (en_bid_history s)"
      by (simp add: english_ascending_def)
    have "bid_le x b" if x: "x \<in> set (en_bid_history s)" for x
    proof -
      define c where "c = last (en_bid_history s)"
      from x have ne: "en_bid_history s \<noteq> []" by auto
      with inv have cur: "en_current_bid s = Some c" by (simp add: english_invar_def c_def)
      have "bid_le c b" unfolding bid_le_def
        using minimum_bid_raises [OF cur _ _ taken(2)] True ne taken(3)
        by (simp add: real_bid_def c_def)
      moreover have "x = c \<or> bid_le x c"
      proof -
        have "en_bid_history s = butlast (en_bid_history s) @ [c]" using ne by (simp add: c_def)
        with sorted x show ?thesis
          by (metis UnE empty_iff insert_iff list.set(1) list.set(2) set_append
              sorted_wrt_append)
      qed
      ultimately show ?thesis using bid_le_trans by blast
    qed
    with sorted taken show ?thesis by (simp add: english_ascending_def sorted_wrt_append)
  qed (use taken in \<open>auto simp: english_ascending_def\<close>)
qed (use asc in simp_all)

section \<open>All operations together\<close>

inductive english_reachable :: "(bid \<Rightarrow> bytes option) \<Rightarrow> english_auction \<Rightarrow> bool"
  for json :: "bid \<Rightarrow> bytes option" where
  auctioneer: "english_reachable json (english_new_as_auctioneer sp inc uuid now)"
| auctioneer_reserve: "english_reachable json
    (english_with_reserve_price r (english_new_as_auctioneer sp inc uuid now))"
| bidder: "english_reachable json (english_new_as_bidder uuid now)"
| message: "english_reachable json s \<Longrightarrow> english_reachable json (snd (english_process json now m s))"
| submit: "english_reachable json s \<Longrightarrow>
    english_reachable json (snd (english_submit_bid now w a s))"
| close: "english_reachable json s \<Longrightarrow> english_reachable json (snd (english_close_auction s))"
| register: "english_reachable json s \<Longrightarrow> english_reachable json (english_register_bidder a s)"

lemma english_reachable_invar: "english_reachable json s \<Longrightarrow> english_invar s"
proof (induction rule: english_reachable.induct)
  case (message s now m)
  from message(2) show ?case by (rule en.invar_step)
next
  case (submit s now w a)
  then show ?case by (intro english_submit_bid_invar)
next
  case (close s)
  then show ?case by (intro english_close_invar)
next
  case (register s a)
  then show ?case by (intro english_register_invar)
qed (simp_all add: english_invar_def english_winner_ok_def english_new_as_auctioneer_def
    english_new_as_bidder_def english_with_reserve_price_def)

lemma english_frame:
  "english_ascending (snd (english_process json now m s)) = english_ascending s"
  "english_ascending (snd (english_close_auction s)) = english_ascending s"
  "english_ascending (english_register_bidder a s) = english_ascending s"
  by (simp_all add: english_ascending_def english_process_def step_with_def
      english_close_auction_def english_register_bidder_def Let_def
      split: sum.splits option.splits)

lemma english_reachable_ascending: "english_reachable json s \<Longrightarrow> english_ascending s"
proof (induction rule: english_reachable.induct)
  case (submit s now w a)
  then show ?case
    by (simp add: english_submit_bid_ascending english_reachable_invar)
next
  case (message s now m)
  then show ?case by (simp only: english_frame)
next
  case (close s)
  then show ?case by (simp only: english_frame)
next
  case (register s a)
  then show ?case by (simp only: english_frame)
qed (simp_all add: english_ascending_def english_new_as_auctioneer_def
    english_new_as_bidder_def english_with_reserve_price_def)

text \<open>Messages alone never place a bid.\<close>

definition no_bid :: "english_auction \<Rightarrow> bool" where
  "no_bid s \<longleftrightarrow> en_current_bid s = None \<and> en_bid_history s = [] \<and> en_winner s = None"

lemma no_bid_step: "no_bid s \<Longrightarrow> no_bid (snd (english_process json now m s))"
  by (simp add: no_bid_def english_process_def step_with_def Let_def split: sum.splits)

lemma no_bid_run: "no_bid s \<Longrightarrow> no_bid (run (english_process json) s ms)"
  by (rule run_invariant [where P = no_bid]) (auto intro: no_bid_step)

section \<open>Properties\<close>

text \<open>
  The bids of an English auction ascend. In every state reachable by messages and the
  auctioneer's calls, if the increment is not negative and no bid was NaN, the accepted bids
  are in nondecreasing order of their amounts, and the current bid is the last one.
\<close>

theorem english_bids_ascend:
  assumes "english_reachable json s"
    and "f64_le (Fin 0) (en_bid_increment s)"
    and "\<forall>b \<in> set (en_bid_history s). f64_wf (bid_amount b) \<and> bid_amount b \<noteq> NaN"
  shows "sorted_wrt (\<lambda>a b. f64_le (bid_amount a) (bid_amount b)) (en_bid_history s)
    \<and> en_current_bid s = (if en_bid_history s = [] then None else Some (last (en_bid_history s)))"
proof -
  have "bid_le = (\<lambda>a b. f64_le (bid_amount a) (bid_amount b))"
    by (simp add: fun_eq_iff bid_le_def)
  with english_reachable_ascending [OF assms(1)] english_reachable_invar [OF assms(1)] assms(2,3)
  show ?thesis by (simp add: english_ascending_def real_bid_def english_invar_def)
qed

text \<open>The auction of the unit test \<open>test_bidding\<close>, announced by a message, with two bids.\<close>

definition demo_auction :: english_auction where
  "demo_auction =
     snd (english_submit_bid 2 ''bidder2'' (Fin 115)
       (snd (english_submit_bid 1 ''bidder1'' (Fin 100)
         (snd (english_process (\<lambda>_. None) 0 (plain_message Inform ''auctioneer'' [])
           (english_with_reserve_price (Fin 110)
             (english_new_as_auctioneer (Fin 100) (Fin 10) ''conv'' 0)))))))"

lemma demo_auction_reachable: "english_reachable (\<lambda>_. None) demo_auction"
  unfolding demo_auction_def by (intro english_reachable.intros)

lemmas english_eval =
  demo_auction_def english_submit_bid_def english_process_def step_with_def
  english_validate_transition_def english_effect_def english_answer_def english_minimum_bid_def
  english_with_reserve_price_def english_new_as_auctioneer_def english_close_auction_def Let_def

lemma demo_auction_state:
  "en_bid_history demo_auction =
     [\<lparr>bid_bidder = ''bidder1'', bid_amount = Fin 100, bid_timestamp = 1\<rparr>,
      \<lparr>bid_bidder = ''bidder2'', bid_amount = Fin 115, bid_timestamp = 2\<rparr>]"
  "en_bid_increment demo_auction = Fin 10"
  "fst (english_close_auction demo_auction) =
     Inr (Some \<lparr>bid_bidder = ''bidder2'', bid_amount = Fin 115, bid_timestamp = 2\<rparr>)"
  by (simp_all add: english_eval)

lemma demo_auction_hyps:
  "f64_le (Fin 0) (en_bid_increment demo_auction)"
  "\<forall>b \<in> set (en_bid_history demo_auction). f64_wf (bid_amount b) \<and> bid_amount b \<noteq> NaN"
  by (simp_all add: demo_auction_state f64_wf_def)

theorem english_bids_ascend_witness:
  "sorted_wrt (\<lambda>a b. f64_le (bid_amount a) (bid_amount b)) (en_bid_history demo_auction)
    \<and> length (en_bid_history demo_auction) = 2"
  using english_bids_ascend [OF demo_auction_reachable demo_auction_hyps]
  by (simp add: demo_auction_state)

text \<open>
  Closing an auction that was run with real bids sells to the highest bidder at a price
  that meets the reserve: the returned bid is the current one, no accepted bid is higher, and
  the auction is completed with its bidder as the winner.
\<close>

theorem english_close_sells_to_highest:
  assumes "english_reachable json s"
    and "f64_le (Fin 0) (en_bid_increment s)"
    and "\<forall>b \<in> set (en_bid_history s). f64_wf (bid_amount b) \<and> bid_amount b \<noteq> NaN"
    and "fst (english_close_auction s) = Inr (Some w)"
  shows "w \<in> set (en_bid_history s)
    \<and> (\<forall>b \<in> set (en_bid_history s). f64_le (bid_amount b) (bid_amount w))
    \<and> (\<forall>r. en_reserve_price s = Some r \<longrightarrow> \<not> f64_lt (bid_amount w) r)
    \<and> en_state (snd (english_close_auction s)) = Completed
    \<and> en_winner (snd (english_close_auction s)) = Some (bid_bidder w)"
proof -
  have inv: "english_invar s" and asc: "english_ascending s"
    using assms(1) by (rule english_reachable_invar, rule english_reachable_ascending)
  from assms(4) have cur: "en_current_bid s = Some w"
    and fin: "\<forall>r. en_reserve_price s = Some r \<longrightarrow> \<not> f64_lt (bid_amount w) r"
      "en_state (snd (english_close_auction s)) = Completed"
      "en_winner (snd (english_close_auction s)) = Some (bid_bidder w)"
    by (auto simp: english_close_auction_def split: if_splits option.splits)
  from cur inv have ne: "en_bid_history s \<noteq> []" and w: "w = last (en_bid_history s)"
    by (auto simp: english_invar_def split: if_splits)
  from ne w have split: "en_bid_history s = butlast (en_bid_history s) @ [w]" by simp
  from asc assms(2,3) have "sorted_wrt bid_le (butlast (en_bid_history s) @ [w])"
    by (simp add: english_ascending_def real_bid_def flip: split)
  then have "\<forall>b \<in> set (butlast (en_bid_history s)). bid_le b w"
    by (simp add: sorted_wrt_append)
  moreover have "bid_le w w" using assms(3) ne w by (simp add: bid_le_def f64_le_refl)
  ultimately have "\<forall>b \<in> set (butlast (en_bid_history s) @ [w]). bid_le b w" by simp
  then show ?thesis using fin ne w split by (simp add: bid_le_def)
qed

theorem english_close_sells_to_highest_witness:
  "en_winner (snd (english_close_auction demo_auction)) = Some ''bidder2''"
  using english_close_sells_to_highest
    [OF demo_auction_reachable demo_auction_hyps demo_auction_state(3)]
  by simp

text \<open>
  \<open>submit_bid\<close> has no guard against NaN. While bids are open a NaN bid is accepted, and
  after it every bid is accepted, whatever its amount, because no comparison with the minimum
  bid can be true any more: an auction can so be sold below an earlier bid.
\<close>

theorem english_nan_bid_disables_minimum:
  assumes "en_state s \<in> {Announced, Bidding}"
  shows "fst (english_submit_bid now w NaN s) = Inr True
    \<and> fst (english_submit_bid now' w' a (snd (english_submit_bid now w NaN s))) = Inr True"
  using assms by (simp add: english_submit_bid_def english_minimum_bid_def Let_def)

theorem english_nan_bid_disables_minimum_witness:
  "fst (english_submit_bid 4 ''mallory'' (Fin 1)
     (snd (english_submit_bid 3 ''mallory'' NaN demo_auction))) = Inr True"
proof -
  have "en_state demo_auction \<in> {Announced, Bidding}" by (simp add: english_eval)
  from english_nan_bid_disables_minimum [OF this] show ?thesis by blast
qed

text \<open>
  An auction driven by messages alone never registers a bid. Whatever messages are
  processed from a new auction, there is no current bid and no winner, and if the auction
  completes, it completes with no result: \<open>process\<close> registers the sender of a \<open>Propose\<close> as a
  bidder but does not call \<open>submit_bid\<close>.
\<close>

theorem english_messages_never_bid:
  fixes ms sp inc uuid t json
  defines "s \<equiv> run (english_process json) (english_new_as_auctioneer sp inc uuid t) ms"
  shows "en_current_bid s = None \<and> en_winner s = None
    \<and> (\<forall>now m d. fst (english_process json now m s) = Inr (Complete d) \<longrightarrow> result d = None)"
proof -
  have "no_bid s" unfolding s_def
    by (rule no_bid_run) (simp add: no_bid_def english_new_as_auctioneer_def)
  then show ?thesis
    by (auto simp: no_bid_def english_process_def step_with_def english_answer_def Let_def
        completion_data_default_def split: sum.splits english_auction_state.splits)
qed

end
