(* ===== verification/Dutch_Auction.thy ===== *)
theory Dutch_Auction
  imports Protocol_Interface Float64
begin

text \<open>
  The FIPA Dutch auction, \<^verbatim>\<open>src/protocol/dutch_auction.rs\<close>: messages through \<open>process\<close>,
  and the auctioneer's calls \<open>start\<close>, \<open>decrease_price\<close> and \<open>accept_bid\<close>. The decimal text of
  a price (\<open>format!("{}", p)\<close>) is the parameter \<open>fmt\<close>.
\<close>

section \<open>State\<close>

record price_update =
  pu_price :: f64
  pu_round :: u32
  pu_timestamp :: timestamp

datatype dutch_auction_state = NotStarted | Descending | BidReceived | Sold | Unsold | Cancelled

fun dutch_as_str :: "dutch_auction_state \<Rightarrow> string" where
  "dutch_as_str NotStarted = ''not_started''"
| "dutch_as_str Descending = ''descending''"
| "dutch_as_str BidReceived = ''bid_received''"
| "dutch_as_str Sold = ''sold''"
| "dutch_as_str Unsold = ''unsold''"
| "dutch_as_str Cancelled = ''cancelled''"

record dutch_auction =
  du_state :: dutch_auction_state
  du_base :: conversation_base
  du_item_description :: "bytes option"
  du_starting_price :: f64
  du_reserve_price :: f64
  du_current_price :: f64
  du_price_decrement :: f64
  du_current_round :: u32
  du_price_history :: "price_update list"
  du_winner :: "string option"
  du_sale_price :: "f64 option"

section \<open>Operations\<close>

definition dutch_new_as_auctioneer ::
  "f64 \<Rightarrow> f64 \<Rightarrow> f64 \<Rightarrow> string \<Rightarrow> timestamp \<Rightarrow> dutch_auction" where
  "dutch_new_as_auctioneer starting_price reserve_price price_decrement uuid now =
     \<lparr>du_state = NotStarted, du_base = conversation_new uuid Initiator now,
      du_item_description = None, du_starting_price = starting_price,
      du_reserve_price = reserve_price, du_current_price = starting_price,
      du_price_decrement = price_decrement, du_current_round = 0, du_price_history = [],
      du_winner = None, du_sale_price = None\<rparr>"

definition dutch_new_as_bidder :: "string \<Rightarrow> timestamp \<Rightarrow> dutch_auction" where
  "dutch_new_as_bidder uuid now =
     \<lparr>du_state = NotStarted, du_base = conversation_new uuid Participant now,
      du_item_description = None, du_starting_price = Fin 0, du_reserve_price = Fin 0,
      du_current_price = Fin 0, du_price_decrement = Fin 0, du_current_round = 0,
      du_price_history = [], du_winner = None, du_sale_price = None\<rparr>"

definition dutch_with_item_description :: "bytes \<Rightarrow> dutch_auction \<Rightarrow> dutch_auction" where
  "dutch_with_item_description desc s = s\<lparr>du_item_description := Some desc\<rparr>"

definition dutch_with_conversation_id :: "string \<Rightarrow> dutch_auction \<Rightarrow> dutch_auction" where
  "dutch_with_conversation_id i s = s\<lparr>du_base := (du_base s)\<lparr>cb_conversation_id := i\<rparr>\<rparr>"

definition push_price :: "timestamp \<Rightarrow> dutch_auction \<Rightarrow> dutch_auction" where
  "push_price now s = s\<lparr>du_price_history := du_price_history s @
     [\<lparr>pu_price = du_current_price s, pu_round = du_current_round s, pu_timestamp = now\<rparr>]\<rparr>"

definition dutch_start :: "timestamp \<Rightarrow> dutch_auction \<Rightarrow> (protocol_error + unit) \<times> dutch_auction"
  where
  "dutch_start now s =
     (if du_state s \<noteq> NotStarted then
        (Inl (InvalidTransition (dutch_as_str (du_state s)) ''start''), s)
      else
        (Inr (), (push_price now
           (s\<lparr>du_current_price := du_starting_price s, du_current_round := 1\<rparr>))
           \<lparr>du_state := Descending\<rparr>))"

definition dutch_decrease_price ::
  "timestamp \<Rightarrow> dutch_auction \<Rightarrow> (protocol_error + f64) \<times> dutch_auction" where
  "dutch_decrease_price now s =
     (if du_state s \<noteq> Descending then
        (Inl (InvalidTransition (dutch_as_str (du_state s)) ''decrease''), s)
      else
        let new_price = f64_sub (du_current_price s) (du_price_decrement s) in
        if f64_lt new_price (du_reserve_price s) then
          (Inl (ValidationFailed ''Reached reserve price without bids''), s\<lparr>du_state := Unsold\<rparr>)
        else
          (Inr new_price, push_price now
             (s\<lparr>du_current_price := new_price, du_current_round := du_current_round s + 1\<rparr>)))"

definition dutch_accept_bid ::
  "string \<Rightarrow> dutch_auction \<Rightarrow> (protocol_error + f64) \<times> dutch_auction" where
  "dutch_accept_bid bidder s =
     (if du_state s \<noteq> Descending then
        (Inl (InvalidTransition (dutch_as_str (du_state s)) ''accept_bid''), s)
      else
        (Inr (du_current_price s), s\<lparr>du_winner := Some bidder,
           du_sale_price := Some (du_current_price s), du_state := Sold\<rparr>))"

definition dutch_validate_transition ::
  "dutch_auction \<Rightarrow> performative \<Rightarrow> protocol_error + dutch_auction_state" where
  "dutch_validate_transition s perf =
     (let st = du_state s in
      if st = NotStarted \<and> perf = Cfp then Inr Descending
      else if st = Descending \<and> perf = Cfp then Inr Descending
      else if st = Descending \<and> perf = Propose then Inr BidReceived
      else if st = BidReceived \<and> perf = AcceptProposal then Inr Sold
      else if st = Descending \<and> perf = Inform then Inr Unsold
      else if st = Sold \<and> perf = Inform then Inr Sold
      else if perf = Failure then Inr Unsold
      else if perf = Cancel then Inr Cancelled
      else invalid_transition (dutch_as_str st) perf)"

definition dutch_validate :: "dutch_auction \<Rightarrow> acl_message \<Rightarrow> protocol_error + unit" where
  "dutch_validate = validate_with dutch_validate_transition"

definition dutch_effect ::
  "timestamp \<Rightarrow> performative \<Rightarrow> dutch_auction_state \<Rightarrow> acl_message \<Rightarrow> dutch_auction \<Rightarrow> dutch_auction"
  where
  "dutch_effect now perf new_state m s =
     (let s1 = s\<lparr>du_base := record_message m (du_base s)\<rparr>;
          s2 = (if perf = Cfp \<and> du_state s1 = NotStarted then
                  s1\<lparr>du_item_description := Some (content m)\<rparr>
                else if perf = Propose then
                  with_sender m (\<lambda>a s. s\<lparr>du_winner := Some (name a)\<rparr>) s1
                else s1)
      in s2\<lparr>du_state := new_state\<rparr>)"

definition dutch_answer :: "(f64 \<Rightarrow> bytes) \<Rightarrow> dutch_auction \<Rightarrow> process_result" where
  "dutch_answer fmt s =
     (case du_state s of
        Sold \<Rightarrow> Complete (completion_data_default\<lparr>result := map_option fmt (du_sale_price s)\<rparr>)
      | Unsold \<Rightarrow> Failed ''No buyer found''
      | Cancelled \<Rightarrow> Failed ''Auction cancelled''
      | _ \<Rightarrow> Continue)"

definition dutch_process :: "(f64 \<Rightarrow> bytes) \<Rightarrow> dutch_auction process_fun" where
  "dutch_process fmt = step_with dutch_validate_transition dutch_effect (dutch_answer fmt)"

definition dutch_is_complete :: "dutch_auction \<Rightarrow> bool" where
  "dutch_is_complete s = (du_state s \<in> {Sold, Unsold, Cancelled})"

definition dutch_is_failed :: "dutch_auction \<Rightarrow> bool" where
  "dutch_is_failed s = (du_state s \<in> {Unsold, Cancelled})"

definition dutch_expected :: "dutch_auction \<Rightarrow> performative list" where
  "dutch_expected s =
     (case du_state s of
        NotStarted \<Rightarrow> [Cfp]
      | Descending \<Rightarrow> [Cfp, Propose, Inform, Cancel]
      | BidReceived \<Rightarrow> [AcceptProposal, Cancel]
      | _ \<Rightarrow> [])"

definition dutch_history :: "dutch_auction \<Rightarrow> acl_message list" where
  "dutch_history s = cb_messages (du_base s)"

section \<open>The contract\<close>

lemma dutch_transition_iff:
  "dutch_validate_transition s p = Inr st \<longleftrightarrow>
     (du_state s, p, st) \<in>
       {(NotStarted, Cfp, Descending), (Descending, Cfp, Descending),
        (Descending, Propose, BidReceived), (BidReceived, AcceptProposal, Sold),
        (Descending, Inform, Unsold), (Sold, Inform, Sold)}
     \<or> p = Failure \<and> st = Unsold \<or> p = Cancel \<and> st = Cancelled"
  unfolding dutch_validate_transition_def Let_def by (cases "du_state s"; simp; blast)

lemma dutch_effect_simps [simp]:
  "du_state (dutch_effect now p st m s) = st"
  "du_base (dutch_effect now p st m s) = record_message m (du_base s)"
  "du_starting_price (dutch_effect now p st m s) = du_starting_price s"
  "du_reserve_price (dutch_effect now p st m s) = du_reserve_price s"
  "du_current_price (dutch_effect now p st m s) = du_current_price s"
  "du_price_decrement (dutch_effect now p st m s) = du_price_decrement s"
  "du_current_round (dutch_effect now p st m s) = du_current_round s"
  "du_price_history (dutch_effect now p st m s) = du_price_history s"
  "du_sale_price (dutch_effect now p st m s) = du_sale_price s"
  by (simp_all add: dutch_effect_def with_sender_def Let_def split: option.splits)

text \<open>
  A sale price is only set by \<open>accept_bid\<close>, to the current price, which no later operation
  changes; before the start no price is on record.
\<close>

definition dutch_invar :: "dutch_auction \<Rightarrow> bool" where
  "dutch_invar s \<longleftrightarrow>
     (du_sale_price s \<noteq> None \<longrightarrow>
        du_state s \<in> {Sold, Unsold, Cancelled} \<and> du_sale_price s = Some (du_current_price s))
     \<and> (du_state s = NotStarted \<longrightarrow>
        du_price_history s = [] \<and> du_current_price s = du_starting_price s)"

interpretation du_step: step_machine dutch_validate_transition dutch_effect "dutch_answer fmt"
  dutch_history dutch_is_complete dutch_is_failed dutch_invar
  for fmt
proof unfold_locales
  fix s p st now m
  assume "dutch_invar s" "dutch_validate_transition s p = Inr st"
  then show "dutch_invar (dutch_effect now p st m s)"
    by (auto simp: dutch_invar_def dutch_transition_iff)
next
  fix s p st now m
  assume "dutch_is_complete s" "dutch_validate_transition s p = Inr st"
  then show "dutch_is_complete (dutch_effect now p st m s)"
    by (auto simp: dutch_is_complete_def dutch_transition_iff)
qed (auto simp: dutch_history_def dutch_answer_def dutch_is_complete_def dutch_is_failed_def
    split: dutch_auction_state.splits)

interpretation du: advertising_machine dutch_validate "dutch_process fmt" dutch_history
  dutch_is_complete dutch_is_failed dutch_invar dutch_expected
  for fmt
  unfolding dutch_validate_def dutch_process_def
proof unfold_locales
  fix s p and m :: acl_message
  assume "dutch_invar s" "p \<in> set (dutch_expected s)"
    "performative_try_from (performative m) = Some p"
  then show "validate_with dutch_validate_transition s m = Inr ()"
    by (auto simp: validate_with_def dutch_expected_def dutch_validate_transition_def Let_def
        split: dutch_auction_state.splits)
qed (auto simp: dutch_is_complete_def dutch_expected_def split: dutch_auction_state.splits)

section \<open>All operations together\<close>

inductive dutch_reachable :: "(f64 \<Rightarrow> bytes) \<Rightarrow> dutch_auction \<Rightarrow> bool"
  for fmt :: "f64 \<Rightarrow> bytes" where
  auctioneer: "dutch_reachable fmt (dutch_new_as_auctioneer sp rp dec uuid now)"
| bidder: "dutch_reachable fmt (dutch_new_as_bidder uuid now)"
| message: "dutch_reachable fmt s \<Longrightarrow> dutch_reachable fmt (snd (dutch_process fmt now m s))"
| start: "dutch_reachable fmt s \<Longrightarrow> dutch_reachable fmt (snd (dutch_start now s))"
| decrease: "dutch_reachable fmt s \<Longrightarrow> dutch_reachable fmt (snd (dutch_decrease_price now s))"
| accept: "dutch_reachable fmt s \<Longrightarrow> dutch_reachable fmt (snd (dutch_accept_bid w s))"

lemma dutch_reachable_invar: "dutch_reachable fmt s \<Longrightarrow> dutch_invar s"
proof (induction rule: dutch_reachable.induct)
  case (message s now m)
  from message(2) show ?case by (rule du.invar_step)
qed (auto simp: dutch_invar_def dutch_new_as_auctioneer_def dutch_new_as_bidder_def
    dutch_start_def dutch_decrease_price_def dutch_accept_bid_def push_price_def Let_def)

text \<open>
  The price discipline, for a finite starting price and a nonnegative decrement: the current
  price and the recorded prices never exceed the starting price, the record is in
  nonincreasing order, and no price is below the reserve if the starting price is not.
\<close>

definition dutch_price_params :: "dutch_auction \<Rightarrow> bool" where
  "dutch_price_params s \<longleftrightarrow> (\<exists>x. du_starting_price s = Fin x) \<and> f64_wf (du_starting_price s)
     \<and> f64_le (Fin 0) (du_price_decrement s)
     \<and> \<not> f64_lt (du_starting_price s) (du_reserve_price s)"

definition dutch_prices_ok :: "dutch_auction \<Rightarrow> bool" where
  "dutch_prices_ok s \<longleftrightarrow>
     f64_wf (du_current_price s) \<and> f64_le (du_current_price s) (du_starting_price s)
     \<and> \<not> f64_lt (du_current_price s) (du_reserve_price s)
     \<and> sorted_wrt (\<lambda>a b. f64_le (pu_price b) (pu_price a)) (du_price_history s)
     \<and> (\<forall>u \<in> set (du_price_history s). f64_le (du_current_price s) (pu_price u)
         \<and> f64_le (pu_price u) (du_starting_price s)
         \<and> \<not> f64_lt (pu_price u) (du_reserve_price s))"

lemma dutch_step_frame:
  "dutch_price_params (snd (dutch_process fmt now m s)) = dutch_price_params s"
  "dutch_price_params (snd (dutch_start now s)) = dutch_price_params s"
  "dutch_price_params (snd (dutch_decrease_price now s)) = dutch_price_params s"
  "dutch_price_params (snd (dutch_accept_bid w s)) = dutch_price_params s"
  "dutch_prices_ok (snd (dutch_process fmt now m s)) = dutch_prices_ok s"
  "dutch_prices_ok (snd (dutch_accept_bid w s)) = dutch_prices_ok s"
  by (simp_all add: dutch_price_params_def dutch_prices_ok_def dutch_process_def step_with_def
      dutch_start_def dutch_decrease_price_def dutch_accept_bid_def push_price_def Let_def
      split: sum.splits)

lemma dutch_start_prices:
  assumes "dutch_invar s" "dutch_price_params s" "dutch_prices_ok s"
  shows "dutch_prices_ok (snd (dutch_start now s))"
  using assms by (auto simp: dutch_start_def push_price_def dutch_prices_ok_def dutch_invar_def
      dutch_price_params_def)

lemma dutch_decrease_prices:
  assumes "dutch_price_params s" "dutch_prices_ok s"
  shows "dutch_prices_ok (snd (dutch_decrease_price now s))"
proof -
  define n where "n = f64_sub (du_current_price s) (du_price_decrement s)"
  from assms have ne: "n \<noteq> NaN"
    by (cases "du_current_price s"; cases "du_price_decrement s")
      (auto simp: n_def f64_sub_def dutch_price_params_def dutch_prices_ok_def f64_round_def
        Let_def)
  with assms have le: "f64_le n (du_current_price s)"
    unfolding n_def by (intro f64_sub_le) (auto simp: dutch_price_params_def dutch_prices_ok_def)
  show ?thesis
  proof (cases "du_state s = Descending \<and> \<not> f64_lt n (du_reserve_price s)")
    case True
    then have "snd (dutch_decrease_price now s) = push_price now
        (s\<lparr>du_current_price := n, du_current_round := du_current_round s + 1\<rparr>)"
      by (simp add: dutch_decrease_price_def n_def Let_def)
    with assms True le ne show ?thesis
      by (auto simp: dutch_prices_ok_def push_price_def sorted_wrt_append n_def f64_le_refl
          intro: f64_le_trans)
  qed (use assms in \<open>auto simp: dutch_decrease_price_def n_def Let_def dutch_prices_ok_def\<close>)
qed

lemma dutch_reachable_prices:
  "dutch_reachable fmt s \<Longrightarrow> dutch_price_params s \<Longrightarrow> dutch_prices_ok s"
proof (induction rule: dutch_reachable.induct)
  case (start s now)
  then show ?case by (simp add: dutch_step_frame dutch_start_prices dutch_reachable_invar)
next
  case (decrease s now)
  then show ?case by (simp add: dutch_step_frame dutch_decrease_prices)
next
  case (auctioneer sp rp dec uuid now)
  then show ?case
    by (auto simp: dutch_prices_ok_def dutch_price_params_def dutch_new_as_auctioneer_def)
next
  case (bidder uuid now)
  then show ?case
    by (auto simp: dutch_prices_ok_def dutch_price_params_def dutch_new_as_bidder_def)
qed (simp_all only: dutch_step_frame)

section \<open>Descending to the reserve\<close>

text \<open>The auctioneer's loop: announce ever lower prices while nobody accepts.\<close>

fun dutch_decrease_times :: "timestamp \<Rightarrow> nat \<Rightarrow> dutch_auction \<Rightarrow> dutch_auction" where
  "dutch_decrease_times now 0 s = s"
| "dutch_decrease_times now (Suc k) s =
     snd (dutch_decrease_price now (dutch_decrease_times now k s))"

text \<open>With whole prices below \<open>2 ^ 52\<close> every step is exact.\<close>

definition whole_descent :: "int \<Rightarrow> int \<Rightarrow> int \<Rightarrow> dutch_auction \<Rightarrow> bool" where
  "whole_descent c d rp s \<longleftrightarrow> du_state s = Descending \<and> du_current_price s = Fin (of_int c)
     \<and> du_price_decrement s = Fin (of_int d) \<and> du_reserve_price s = Fin (of_int rp)"

lemma f64_sub_of_int:
  "\<bar>a\<bar> < 2 ^ 52 \<Longrightarrow> \<bar>b\<bar> < 2 ^ 52 \<Longrightarrow> f64_sub (Fin (of_int a)) (Fin (of_int b)) = Fin (of_int (a - b))"
  using f64_round_of_int [of "a - b"] by (simp add: f64_sub_def)

lemma whole_descent_step:
  assumes "whole_descent c d rp s" "\<bar>c\<bar> < 2 ^ 52" "\<bar>d\<bar> < 2 ^ 52"
  shows "if c - d < rp then du_state (snd (dutch_decrease_price now s)) = Unsold
    else whole_descent (c - d) d rp (snd (dutch_decrease_price now s))"
  using assms f64_sub_of_int [OF assms(2,3)]
  by (auto simp: whole_descent_def dutch_decrease_price_def push_price_def Let_def
      simp flip: of_int_diff)

lemma whole_descent_times:
  assumes "whole_descent sp d rp s" "0 < d" "d < 2 ^ 52" "\<bar>sp\<bar> < 2 ^ 52" "\<bar>rp\<bar> < 2 ^ 52"
    and "int i * d \<le> sp - rp"
  shows "whole_descent (sp - int i * d) d rp (dutch_decrease_times now i s)"
  using assms(6)
proof (induction i)
  case (Suc i)
  from Suc.prems assms(2) have le: "int i * d + d \<le> sp - rp" by (simp add: algebra_simps)
  with assms(2) Suc.IH have IH: "whole_descent (sp - int i * d) d rp (dutch_decrease_times now i s)"
    by simp
  have "0 \<le> int i * d" using assms(2) by simp
  with le assms(2,4,5) have "\<bar>sp - int i * d\<bar> < 2 ^ 52" by linarith
  from whole_descent_step [OF IH this, of now] assms(2,3) le
  show ?case by (simp add: algebra_simps)
qed (use assms in simp)

section \<open>Properties\<close>

text \<open>
  Price discipline of the Dutch auction. In every state reachable by messages and calls,
  if the starting price is finite and not below the reserve and the decrement is not
  negative, then the announced prices are in nonincreasing order, each of them lies between
  the reserve and the starting price, and a sale is made at a price not below the reserve and
  not above any announced price.
\<close>

theorem dutch_price_discipline:
  assumes "dutch_reachable fmt s"
    and "du_starting_price s = Fin x" "representable x" "f64_le (Fin 0) (du_price_decrement s)"
    and "\<not> f64_lt (Fin x) (du_reserve_price s)"
  shows "sorted_wrt (\<lambda>a b. f64_le (pu_price b) (pu_price a)) (du_price_history s)
    \<and> (\<forall>u \<in> set (du_price_history s). f64_le (pu_price u) (Fin x)
        \<and> \<not> f64_lt (pu_price u) (du_reserve_price s))
    \<and> (\<forall>p. du_sale_price s = Some p \<longrightarrow> \<not> f64_lt p (du_reserve_price s)
        \<and> (\<forall>u \<in> set (du_price_history s). f64_le p (pu_price u)))"
proof -
  have "dutch_price_params s"
    using assms(2-5) by (simp add: dutch_price_params_def f64_wf_def)
  with dutch_reachable_prices [OF assms(1)] dutch_reachable_invar [OF assms(1)] assms(2)
  show ?thesis by (auto simp: dutch_prices_ok_def dutch_invar_def)
qed

text \<open>The auction of the unit test \<open>test_bid_acceptance\<close>.\<close>

definition demo_dutch :: dutch_auction where
  "demo_dutch =
     snd (dutch_accept_bid ''bidder1'' (snd (dutch_decrease_price 2 (snd (dutch_decrease_price 1
       (snd (dutch_start 0 (dutch_new_as_auctioneer (Fin 1000) (Fin 100) (Fin 50) ''conv'' 0))))))))"

lemma demo_dutch_reachable: "dutch_reachable fmt demo_dutch"
  unfolding demo_dutch_def by (intro dutch_reachable.intros)

lemmas dutch_eval =
  demo_dutch_def dutch_accept_bid_def dutch_decrease_price_def dutch_start_def push_price_def
  dutch_new_as_auctioneer_def f64_sub_def Let_def

theorem dutch_price_discipline_witness:
  "du_sale_price demo_dutch = Some (Fin 900) \<and> \<not> f64_lt (Fin 900) (Fin 100)
    \<and> map pu_price (du_price_history demo_dutch) = [Fin 1000, Fin 950, Fin 900]"
proof -
  have "du_starting_price demo_dutch = Fin 1000" "representable 1000"
    "f64_le (Fin 0) (du_price_decrement demo_dutch)"
    "\<not> f64_lt (Fin 1000) (du_reserve_price demo_dutch)"
    by (simp_all add: dutch_eval)
  from dutch_price_discipline [OF demo_dutch_reachable this] show ?thesis
    by (simp add: dutch_eval)
qed

text \<open>
  A Dutch auction without a buyer ends. With whole prices below \<open>2 ^ 52\<close>, a positive
  decrement \<open>d\<close> and a starting price \<open>sp\<close> not below the reserve \<open>rp\<close>, the i-th decrease after
  the start announces exactly \<open>sp - i * d\<close> as long as that is not below the reserve, and the
  first decrease that would go below it ends the auction as unsold.
\<close>

theorem dutch_auction_ends:
  fixes uuid :: string and t :: timestamp
  assumes "0 < d" "d < 2 ^ 52" "\<bar>sp\<bar> < 2 ^ 52" "\<bar>rp\<bar> < 2 ^ 52" "rp \<le> sp"
  defines "s \<equiv> snd (dutch_start t
    (dutch_new_as_auctioneer (Fin (of_int sp)) (Fin (of_int rp)) (Fin (of_int d)) uuid t))"
    and "k \<equiv> nat ((sp - rp) div d)"
  shows "(\<forall>i \<le> k. du_state (dutch_decrease_times now i s) = Descending
      \<and> du_current_price (dutch_decrease_times now i s) = Fin (of_int (sp - int i * d)))
    \<and> du_state (dutch_decrease_times now (Suc k) s) = Unsold"
proof -
  have start: "whole_descent sp d rp s"
    by (simp add: s_def whole_descent_def dutch_start_def push_price_def
        dutch_new_as_auctioneer_def)
  have k: "int k = (sp - rp) div d" using assms(1,5) by (simp add: k_def pos_imp_zdiv_nonneg_iff)
  have div: "d * int k \<le> sp - rp" "sp - rp < d * int k + d"
    using assms(1) by (simp_all add: k minus_mod_eq_mult_div [symmetric] algebra_simps)
  have times: "whole_descent (sp - int i * d) d rp (dutch_decrease_times now i s)" if "i \<le> k" for i
  proof (rule whole_descent_times [OF start assms(1-4)])
    have "int i * d \<le> int k * d" using that assms(1) by simp
    with div(1) show "int i * d \<le> sp - rp" by (simp add: algebra_simps)
  qed
  have "0 \<le> d * int k" using assms(1) by simp
  with div assms(1,3,4) have "\<bar>sp - d * int k\<bar> < 2 ^ 52" by linarith
  then have "\<bar>sp - int k * d\<bar> < 2 ^ 52" by (simp only: mult.commute)
  from whole_descent_step [OF times [OF order_refl] this, of now] assms(1,2) div(2)
  have "du_state (dutch_decrease_times now (Suc k) s) = Unsold" by (simp add: algebra_simps)
  with times show ?thesis by (simp add: whole_descent_def)
qed

theorem dutch_auction_ends_witness:
  "du_state (dutch_decrease_times 0 19 (snd (dutch_start 0
     (dutch_new_as_auctioneer (Fin 1000) (Fin 100) (Fin 50) ''conv'' 0)))) = Unsold"
  using dutch_auction_ends [where d = 50 and sp = 1000 and rp = 100 and uuid = "''conv''"
      and t = 0 and now = 0] by simp

text \<open>
  A sale negotiated by messages carries no price. Whatever messages a new auction
  processes, if it completes then with no result, because \<open>process\<close> never sets the sale price
  that the result is made of.
\<close>

theorem dutch_message_sale_has_no_price:
  "fst (dutch_process fmt now m (run (dutch_process fmt)
      (dutch_new_as_auctioneer sp rp dec uuid t) ms)) = Inr (Complete d) \<Longrightarrow> result d = None"
proof -
  let ?s = "run (dutch_process fmt) (dutch_new_as_auctioneer sp rp dec uuid t) ms"
  have "du_sale_price ?s = None"
    by (rule run_invariant [where P = "\<lambda>s. du_sale_price s = None"])
      (auto simp: dutch_process_def step_with_def dutch_new_as_auctioneer_def Let_def
        split: sum.splits)
  then show "fst (dutch_process fmt now m ?s) = Inr (Complete d) \<Longrightarrow> result d = None"
    by (auto simp: dutch_process_def step_with_def dutch_answer_def Let_def
        completion_data_default_def split: sum.splits dutch_auction_state.splits)
qed

theorem dutch_message_sale_has_no_price_witness:
  "fst (dutch_process (\<lambda>_. []) 3 (plain_message AcceptProposal ''seller'' [])
     (run (dutch_process (\<lambda>_. [])) (dutch_new_as_auctioneer (Fin 10) (Fin 1) (Fin 1) ''conv'' 0)
       [(1, plain_message Cfp ''seller'' []), (2, plain_message Propose ''buyer'' [])])) =
   Inr (Complete (completion_data_default\<lparr>result := None\<rparr>))"
  (is "fst (?step) = Inr (Complete ?d)")
proof -
  have sold: "\<exists>d. fst ?step = Inr (Complete d) \<and> metadata d = []"
    by (simp add: dutch_process_def step_with_def dutch_validate_transition_def
        dutch_new_as_auctioneer_def dutch_answer_def completion_data_default_def Let_def)
  then obtain d where d: "fst ?step = Inr (Complete d)" "metadata d = []" by blast
  from dutch_message_sale_has_no_price [OF d(1)] d show ?thesis
    by (cases d) (simp add: completion_data_default_def)
qed

end
