(* ===== verification/Brokering.thy ===== *)
theory Brokering
  imports Protocol_Interface "HOL-Library.Multiset"
begin

text \<open>
  The FIPA brokering protocol, \<^verbatim>\<open>src/protocol/brokering.rs\<close>: a table of providers, updated
  by their answers, and the broker's calls \<open>add_provider\<close>, \<open>update_provider\<close> and
  \<open>consolidate\<close>. The JSON encoder is the parameter \<open>json\<close>; the iteration order of the provider
  table in \<open>consolidate\<close> is the parameter \<open>order\<close>.
\<close>

section \<open>State\<close>

datatype provider_status = Pending | Agreed | Refused | Completed | Failed

record provider_info =
  pv_agent_id :: agent_id
  pv_status :: provider_status
  pv_response :: "bytes option"

datatype brokering_state =
    NotStarted | ProxyReceived | Forwarding | WaitingResponses | Consolidating | Completed
  | Failed | Cancelled

fun brokering_as_str :: "brokering_state \<Rightarrow> string" where
  "brokering_as_str NotStarted = ''not_started''"
| "brokering_as_str ProxyReceived = ''proxy_received''"
| "brokering_as_str Forwarding = ''forwarding''"
| "brokering_as_str WaitingResponses = ''waiting_responses''"
| "brokering_as_str Consolidating = ''consolidating''"
| "brokering_as_str Completed = ''completed''"
| "brokering_as_str Failed = ''failed''"
| "brokering_as_str Cancelled = ''cancelled''"

record brokering_protocol =
  br_state :: brokering_state
  br_base :: conversation_base
  br_original_request :: "acl_message option"
  br_initiator :: "agent_id option"
  br_providers :: "(string, provider_info) hashmap"
  br_required_responses :: "nat option"
  br_results :: "bytes list"
  br_service_name :: "string option"

section \<open>Operations\<close>

text \<open>The constructors \<open>new_as_broker\<close> and \<open>new_as_initiator\<close> build the same record.\<close>

definition brokering_new :: "string \<Rightarrow> timestamp \<Rightarrow> brokering_protocol" where
  "brokering_new uuid now =
     \<lparr>br_state = NotStarted, br_base = conversation_new uuid Initiator now,
      br_original_request = None, br_initiator = None, br_providers = [],
      br_required_responses = None, br_results = [], br_service_name = None\<rparr>"

definition brokering_with_required_responses ::
  "nat \<Rightarrow> brokering_protocol \<Rightarrow> brokering_protocol" where
  "brokering_with_required_responses n s = s\<lparr>br_required_responses := Some n\<rparr>"

definition brokering_with_service_name ::
  "string \<Rightarrow> brokering_protocol \<Rightarrow> brokering_protocol" where
  "brokering_with_service_name n s = s\<lparr>br_service_name := Some n\<rparr>"

definition brokering_with_conversation_id :: "string \<Rightarrow> brokering_protocol \<Rightarrow> brokering_protocol" where
  "brokering_with_conversation_id i s = s\<lparr>br_base := (br_base s)\<lparr>cb_conversation_id := i\<rparr>\<rparr>"

definition add_provider :: "agent_id \<Rightarrow> brokering_protocol \<Rightarrow> brokering_protocol" where
  "add_provider a s = s\<lparr>br_providers := hm_insert (name a)
     \<lparr>pv_agent_id = a, pv_status = Pending, pv_response = None\<rparr> (br_providers s)\<rparr>"

definition update_provider ::
  "string \<Rightarrow> provider_status \<Rightarrow> bytes option \<Rightarrow> brokering_protocol \<Rightarrow> brokering_protocol" where
  "update_provider n st r s = s\<lparr>br_providers :=
     hm_modify n (\<lambda>p. p\<lparr>pv_status := st, pv_response := r\<rparr>) (br_providers s)\<rparr>"

definition all_responded :: "brokering_protocol \<Rightarrow> bool" where
  "all_responded s = list_all
     (\<lambda>p. pv_status p \<in> {provider_status.Completed, provider_status.Failed, provider_status.Refused})
     (hm_values (br_providers s))"

definition successful_count :: "brokering_protocol \<Rightarrow> nat" where
  "successful_count s =
     length (filter (\<lambda>p. pv_status p = provider_status.Completed) (hm_values (br_providers s)))"

definition consolidate ::
  "(provider_info list \<Rightarrow> provider_info list) \<Rightarrow> brokering_protocol \<Rightarrow>
   (protocol_error + unit) \<times> brokering_protocol" where
  "consolidate order s =
     (if br_state s \<notin> {WaitingResponses, Consolidating} then
        (Inl (InvalidTransition (brokering_as_str (br_state s)) ''consolidate''), s)
      else
        let rs = List.map_filter pv_response
          (filter (\<lambda>p. pv_status p = provider_status.Completed) (order (hm_values (br_providers s))))
        in (Inr (), s\<lparr>br_results := rs, br_state := (if rs = [] then Failed else Completed)\<rparr>))"

definition brokering_validate_transition ::
  "brokering_protocol \<Rightarrow> performative \<Rightarrow> protocol_error + brokering_state" where
  "brokering_validate_transition s perf =
     (let st = br_state s in
      if st = NotStarted \<and> perf = Proxy then Inr ProxyReceived
      else if st = ProxyReceived \<and> perf = Request then Inr Forwarding
      else if st = Forwarding \<and> perf = Request then Inr Forwarding
      else if st = Forwarding \<and> perf = Agree \<or> st = WaitingResponses \<and> perf = Agree
        then Inr WaitingResponses
      else if st = Forwarding \<and> perf = Refuse \<or> st = WaitingResponses \<and> perf = Refuse
        then Inr WaitingResponses
      else if st = WaitingResponses \<and> perf = InformResult
        \<or> st = WaitingResponses \<and> perf = InformDone then Inr Consolidating
      else if st = WaitingResponses \<and> perf = Failure then Inr WaitingResponses
      else if st = Consolidating \<and> perf = Inform then Inr Completed
      else if perf = Failure then Inr Failed
      else if perf = Cancel then Inr Cancelled
      else invalid_transition (brokering_as_str st) perf)"

definition brokering_validate :: "brokering_protocol \<Rightarrow> acl_message \<Rightarrow> protocol_error + unit" where
  "brokering_validate = validate_with brokering_validate_transition"

definition brokering_effect ::
  "timestamp \<Rightarrow> performative \<Rightarrow> brokering_state \<Rightarrow> acl_message \<Rightarrow>
   brokering_protocol \<Rightarrow> brokering_protocol" where
  "brokering_effect now perf new_state m s =
     (let s1 = s\<lparr>br_base := record_message m (br_base s)\<rparr>;
          s2 = (if perf = Proxy then
                  s1\<lparr>br_original_request := Some m, br_initiator := sender m\<rparr>
                else if perf = InformResult \<or> perf = InformDone then
                  with_sender m (\<lambda>a s.
                    let s' = update_provider (name a) provider_status.Completed (Some (content m)) s
                    in s'\<lparr>br_results := br_results s' @ [content m]\<rparr>) s1
                else if perf = Agree then
                  with_sender m (\<lambda>a. update_provider (name a) Agreed None) s1
                else if perf = Refuse then
                  with_sender m (\<lambda>a. update_provider (name a) Refused None) s1
                else if perf = Failure then
                  with_sender m (\<lambda>a.
                    update_provider (name a) provider_status.Failed (Some (content m))) s1
                else s1)
      in s2\<lparr>br_state := new_state\<rparr>)"

definition brokering_answer ::
  "(bytes list \<Rightarrow> bytes option) \<Rightarrow> brokering_protocol \<Rightarrow> process_result" where
  "brokering_answer json s =
     (case br_state s of
        Completed \<Rightarrow> Complete (completion_data_default\<lparr>result :=
          Some (case json (br_results s) of Some j \<Rightarrow> j | None \<Rightarrow> [])\<rparr>)
      | Failed \<Rightarrow> process_result.Failed ''Brokering failed''
      | Cancelled \<Rightarrow> process_result.Failed ''Brokering cancelled''
      | _ \<Rightarrow> Continue)"

definition brokering_process ::
  "(bytes list \<Rightarrow> bytes option) \<Rightarrow> brokering_protocol process_fun" where
  "brokering_process json =
     step_with brokering_validate_transition brokering_effect (brokering_answer json)"

definition brokering_is_complete :: "brokering_protocol \<Rightarrow> bool" where
  "brokering_is_complete s = (br_state s \<in> {Completed, Failed, Cancelled})"

definition brokering_is_failed :: "brokering_protocol \<Rightarrow> bool" where
  "brokering_is_failed s = (br_state s \<in> {Failed, Cancelled})"

definition brokering_expected :: "brokering_protocol \<Rightarrow> performative list" where
  "brokering_expected s =
     (case br_state s of
        NotStarted \<Rightarrow> [Proxy]
      | ProxyReceived \<Rightarrow> [Request, Cancel]
      | Forwarding \<Rightarrow> [Request, Agree, Refuse, Cancel]
      | WaitingResponses \<Rightarrow> [Agree, Refuse, InformResult, InformDone, Failure, Cancel]
      | Consolidating \<Rightarrow> [Inform, Cancel]
      | _ \<Rightarrow> [])"

definition brokering_history :: "brokering_protocol \<Rightarrow> acl_message list" where
  "brokering_history s = cb_messages (br_base s)"

section \<open>The contract\<close>

lemma brokering_transition_iff:
  "brokering_validate_transition s p = Inr st \<longleftrightarrow>
     (br_state s, p, st) \<in>
       {(NotStarted, Proxy, ProxyReceived), (ProxyReceived, Request, Forwarding),
        (Forwarding, Request, Forwarding), (Forwarding, Agree, WaitingResponses),
        (WaitingResponses, Agree, WaitingResponses), (Forwarding, Refuse, WaitingResponses),
        (WaitingResponses, Refuse, WaitingResponses),
        (WaitingResponses, InformResult, Consolidating),
        (WaitingResponses, InformDone, Consolidating),
        (WaitingResponses, Failure, WaitingResponses), (Consolidating, Inform, Completed)}
     \<or> p = Failure \<and> br_state s \<noteq> WaitingResponses \<and> st = Failed
     \<or> p = Cancel \<and> st = Cancelled"
  unfolding brokering_validate_transition_def Let_def by (cases "br_state s"; simp; blast)

lemma brokering_effect_simps [simp]:
  "br_state (brokering_effect now p st m s) = st"
  "br_base (brokering_effect now p st m s) = record_message m (br_base s)"
  "map fst (br_providers (brokering_effect now p st m s)) = map fst (br_providers s)"
  by (simp_all add: brokering_effect_def update_provider_def with_sender_def Let_def
      hm_keys_modify split: option.splits)

lemma brokering_effect_results:
  "br_results (brokering_effect now p st m s) = br_results s @
     (if (p = InformResult \<or> p = InformDone) \<and> sender m \<noteq> None then [content m] else [])"
  by (auto simp: brokering_effect_def update_provider_def with_sender_def Let_def
      split: option.splits)

definition brokering_invar :: "brokering_protocol \<Rightarrow> bool" where
  "brokering_invar s \<longleftrightarrow> hm_wf (br_providers s)
     \<and> (br_state s \<in> {NotStarted, ProxyReceived, Forwarding, WaitingResponses} \<longrightarrow>
          br_results s = [])"

interpretation br_step: step_machine brokering_validate_transition brokering_effect
  "brokering_answer json" brokering_history brokering_is_complete brokering_is_failed
  brokering_invar
  for json
proof unfold_locales
  fix s p st now m
  assume inv: "brokering_invar s" and tr: "brokering_validate_transition s p = Inr st"
  from inv tr show "brokering_invar (brokering_effect now p st m s)"
    by (auto simp: brokering_invar_def hm_wf_def brokering_transition_iff
        brokering_effect_results)
next
  fix s p st now m
  assume "brokering_is_complete s" "brokering_validate_transition s p = Inr st"
  then show "brokering_is_complete (brokering_effect now p st m s)"
    by (auto simp: brokering_is_complete_def brokering_transition_iff)
qed (auto simp: brokering_history_def brokering_answer_def brokering_is_complete_def
    brokering_is_failed_def split: brokering_state.splits)

interpretation br: advertising_machine brokering_validate "brokering_process json"
  brokering_history brokering_is_complete brokering_is_failed brokering_invar brokering_expected
  for json
  unfolding brokering_validate_def brokering_process_def
proof unfold_locales
  fix s p and m :: acl_message
  assume "brokering_invar s" "p \<in> set (brokering_expected s)"
    "performative_try_from (performative m) = Some p"
  then show "validate_with brokering_validate_transition s m = Inr ()"
    by (auto simp: validate_with_def brokering_expected_def brokering_validate_transition_def
        Let_def split: brokering_state.splits)
qed (auto simp: brokering_is_complete_def brokering_expected_def split: brokering_state.splits)

lemma brokering_new_invar [simp]: "brokering_invar (brokering_new uuid now)"
  by (simp add: brokering_invar_def brokering_new_def)

section \<open>Properties\<close>

lemma mset_map_filter:
  "mset xs = mset ys \<Longrightarrow> mset (List.map_filter f xs) = mset (List.map_filter f ys)"
  by (simp add: List.map_filter_def mset_map mset_filter)

text \<open>
  Consolidation collects the responses of exactly the providers that completed. Called
  while responses are awaited or being consolidated, and whatever the iteration order of the
  provider table, \<open>consolidate\<close> succeeds, its results are a permutation of the responses of the
  completed providers, and the broker completes when there is at least one and fails otherwise.
\<close>

theorem consolidate_collects:
  assumes "\<And>xs. mset (order xs) = mset xs"
    and "br_state s \<in> {WaitingResponses, Consolidating}"
  defines "responses \<equiv> List.map_filter pv_response
      (filter (\<lambda>p. pv_status p = provider_status.Completed) (hm_values (br_providers s)))"
  shows "fst (consolidate order s) = Inr ()
    \<and> mset (br_results (snd (consolidate order s))) = mset responses
    \<and> br_state (snd (consolidate order s)) = (if responses = [] then Failed else Completed)"
proof -
  have eq: "mset (br_results (snd (consolidate order s))) = mset responses"
    using assms(1,2)
    by (simp add: consolidate_def responses_def Let_def) (intro mset_map_filter, simp)
  moreover have "br_state (snd (consolidate order s)) =
      (if br_results (snd (consolidate order s)) = [] then Failed else Completed)"
    using assms(2) by (simp add: consolidate_def Let_def)
  moreover have "br_results (snd (consolidate order s)) = [] \<longleftrightarrow> responses = []"
    using eq by (metis mset_zero_iff)
  moreover have "fst (consolidate order s) = Inr ()"
    using assms(2) by (auto simp: consolidate_def Let_def)
  ultimately show ?thesis by simp
qed

definition demo_broker :: brokering_protocol where
  "demo_broker =
     update_provider ''p2'' provider_status.Completed (Some [2])
       (update_provider ''p1'' provider_status.Completed (Some [1])
         (add_provider (plain_agent ''p3'') (add_provider (plain_agent ''p2'')
           (add_provider (plain_agent ''p1'') (brokering_new ''conv'' 0)))))
       \<lparr>br_state := WaitingResponses\<rparr>"

theorem consolidate_collects_witness:
  "mset (br_results (snd (consolidate rev demo_broker))) = mset [[1], [2]]
    \<and> br_state (snd (consolidate rev demo_broker)) = Completed"
proof -
  have "br_state demo_broker \<in> {WaitingResponses, Consolidating}"
    by (simp add: demo_broker_def)
  from consolidate_collects [of rev, OF _ this] show ?thesis
    by (simp add: demo_broker_def update_provider_def add_provider_def brokering_new_def
        hm_modify_def hm_insert_def hm_values_def List.map_filter_def)
qed

text \<open>
  Driven by messages, a broker takes at most one result. The first result moves the
  conversation from \<open>WaitingResponses\<close> to \<open>Consolidating\<close>, where the results of all other
  providers are refused, so the consolidated answer never holds more than one response.
\<close>

definition one_result :: "brokering_protocol \<Rightarrow> bool" where
  "one_result s \<longleftrightarrow> length (br_results s) \<le> 1 \<and> brokering_invar s"

lemma one_result_run:
  "one_result s \<Longrightarrow> one_result (run (brokering_process json) s ms)"
proof (rule run_invariant [where P = one_result])
  fix now m s
  assume s: "one_result s"
  then have "length (br_results (snd (brokering_process json now m s))) \<le> 1"
    by (auto simp: one_result_def brokering_invar_def brokering_process_def step_with_def
        brokering_effect_results brokering_transition_iff Let_def split: sum.splits)
  moreover have "brokering_invar (snd (brokering_process json now m s))"
    using s by (intro br.invar_step) (simp add: one_result_def)
  ultimately show "one_result (snd (brokering_process json now m s))"
    by (simp add: one_result_def)
qed

theorem brokering_takes_one_result:
  fixes ms json uuid t
  defines "s \<equiv> run (brokering_process json) (brokering_new uuid t) ms"
  shows "length (br_results s) \<le> 1
    \<and> (br_results s \<noteq> [] \<longrightarrow>
        (\<forall>now m p. performative_try_from (performative m) = Some p \<and> p \<in> {InformResult, InformDone}
          \<longrightarrow> (\<exists>e. brokering_process json now m s = (Inl e, s))))"
proof -
  have "one_result s" unfolding s_def
    by (rule one_result_run) (simp add: one_result_def brokering_invar_def brokering_new_def)
  then have le: "length (br_results s) \<le> 1"
    and inv: "br_results s \<noteq> [] \<Longrightarrow> br_state s \<noteq> WaitingResponses"
    by (auto simp: one_result_def brokering_invar_def)
  have "\<exists>e. brokering_process json now m s = (Inl e, s)"
    if "br_results s \<noteq> []" "performative_try_from (performative m) = Some p"
      "p \<in> {InformResult, InformDone}" for now m p
    using that inv by (auto simp: brokering_process_def step_with_def
        brokering_validate_transition_def invalid_transition_def Let_def)
  with le show ?thesis by blast
qed

definition demo_broker_messages :: "(timestamp \<times> acl_message) list" where
  "demo_broker_messages =
     [(0, plain_message Proxy ''client'' []), (1, plain_message Request ''broker'' []),
      (2, plain_message Agree ''p1'' []), (3, plain_message Agree ''p2'' []),
      (4, plain_message InformResult ''p1'' [1])]"

theorem brokering_takes_one_result_witness:
  "\<exists>e s. br_results s = [[1]]
     \<and> s = run (brokering_process (\<lambda>_. None)) (brokering_new ''conv'' 0) demo_broker_messages
     \<and> brokering_process (\<lambda>_. None) 5 (plain_message InformResult ''p2'' [2]) s = (Inl e, s)"
proof -
  define s where "s =
    run (brokering_process (\<lambda>_. None)) (brokering_new ''conv'' 0) demo_broker_messages"
  have r: "br_results s = [[1]]"
    by (simp add: s_def demo_broker_messages_def brokering_process_def step_with_def
        brokering_validate_transition_def brokering_new_def brokering_effect_def with_sender_def
        update_provider_def hm_modify_def Let_def)
  have p: "performative_try_from (performative (plain_message InformResult ''p2'' [2])) =
      Some InformResult"
    by (simp only: plain_message_simps performative_try_from_as_i32)
  have ne: "br_results s \<noteq> []" and q: "InformResult \<in> {InformResult, InformDone}"
    by (simp_all add: r)
  have "\<exists>e. brokering_process (\<lambda>_. None) 5 (plain_message InformResult ''p2'' [2]) s = (Inl e, s)"
    using brokering_takes_one_result [where json = "\<lambda>_. None" and uuid = "''conv''" and t = 0
      and ms = demo_broker_messages, folded s_def] ne p q by blast
  with r s_def show ?thesis by blast
qed

text \<open>
  The required number of responses is never read. Setting it changes neither the answer to
  a message, nor any other field of the protocol after it, nor the outcome of a consolidation.
\<close>

theorem brokering_required_responses_ignored:
  "brokering_process json now m (s\<lparr>br_required_responses := r\<rparr>) =
     (fst (brokering_process json now m s),
      (snd (brokering_process json now m s))\<lparr>br_required_responses := r\<rparr>)
   \<and> consolidate order (s\<lparr>br_required_responses := r\<rparr>) =
     (fst (consolidate order s), (snd (consolidate order s))\<lparr>br_required_responses := r\<rparr>)"
proof
  have val: "brokering_validate_transition (s\<lparr>br_required_responses := r\<rparr>) p =
      brokering_validate_transition s p" for p
    by (simp add: brokering_validate_transition_def)
  have eff: "brokering_effect now p st m (s\<lparr>br_required_responses := r\<rparr>) =
      (brokering_effect now p st m s)\<lparr>br_required_responses := r\<rparr>" for p st
    by (simp add: brokering_effect_def update_provider_def with_sender_def Let_def
        split: option.splits)
  show "brokering_process json now m (s\<lparr>br_required_responses := r\<rparr>) =
     (fst (brokering_process json now m s),
      (snd (brokering_process json now m s))\<lparr>br_required_responses := r\<rparr>)"
    by (simp add: brokering_process_def step_with_def val eff brokering_answer_def Let_def
        split: sum.splits brokering_state.splits)
qed (simp add: consolidate_def Let_def)

end
