(* ===== verification/Iterated_Contract_Net.thy ===== *)
theory Iterated_Contract_Net
  imports Contract_Net
begin

text \<open>
  The FIPA iterated contract net, \<^verbatim>\<open>src/protocol/iterated_contract_net.rs\<close>: rounds of
  proposals, counted against a maximum, driven by the initiator's calls (\<open>start_round\<close> to
  \<open>record_result\<close>) and by messages. Round numbers are \<open>u32\<close>. The order in which \<open>start_round\<close>
  lists the proposals of the finished round is the parameter \<open>order\<close>.
\<close>

section \<open>State\<close>

record negotiation_round =
  nr_round :: u32
  nr_cfp_content :: bytes
  nr_proposals :: "proposal list"
  nr_timestamp :: timestamp

datatype iterated_state =
    NotStarted | CfpSent | Evaluating | Revising | Accepted | WaitingResult | Completed
  | NoAgreement | Failed | Cancelled

fun iterated_as_str :: "iterated_state \<Rightarrow> string" where
  "iterated_as_str NotStarted = ''not_started''"
| "iterated_as_str CfpSent = ''cfp_sent''"
| "iterated_as_str Evaluating = ''evaluating''"
| "iterated_as_str Revising = ''revising''"
| "iterated_as_str Accepted = ''accepted''"
| "iterated_as_str WaitingResult = ''waiting_result''"
| "iterated_as_str Completed = ''completed''"
| "iterated_as_str NoAgreement = ''no_agreement''"
| "iterated_as_str Failed = ''failed''"
| "iterated_as_str Cancelled = ''cancelled''"

record iterated_contract_net =
  ic_state :: iterated_state
  ic_base :: conversation_base
  ic_current_round :: u32
  ic_max_rounds :: u32
  ic_rounds :: "negotiation_round list"
  ic_current_proposals :: "(string, proposal) hashmap"
  ic_selected_contractor :: "string option"
  ic_result :: "bytes option"
  ic_round_deadline :: timestamp

section \<open>Operations\<close>

definition iterated_new_as_initiator :: "u32 \<Rightarrow> string \<Rightarrow> timestamp \<Rightarrow> iterated_contract_net" where
  "iterated_new_as_initiator max_rounds uuid now =
     \<lparr>ic_state = NotStarted, ic_base = conversation_new uuid Initiator now, ic_current_round = 0,
      ic_max_rounds = max_rounds, ic_rounds = [], ic_current_proposals = [],
      ic_selected_contractor = None, ic_result = None, ic_round_deadline = 30000\<rparr>"

definition iterated_new_as_participant :: "string \<Rightarrow> timestamp \<Rightarrow> iterated_contract_net" where
  "iterated_new_as_participant uuid now =
     \<lparr>ic_state = NotStarted, ic_base = conversation_new uuid Participant now,
      ic_current_round = 0, ic_max_rounds = 10, ic_rounds = [], ic_current_proposals = [],
      ic_selected_contractor = None, ic_result = None, ic_round_deadline = 30000\<rparr>"

definition iterated_with_round_deadline ::
  "timestamp \<Rightarrow> iterated_contract_net \<Rightarrow> iterated_contract_net" where
  "iterated_with_round_deadline d s = s\<lparr>ic_round_deadline := d\<rparr>"

definition iterated_with_conversation_id ::
  "string \<Rightarrow> iterated_contract_net \<Rightarrow> iterated_contract_net" where
  "iterated_with_conversation_id i s =
     s\<lparr>ic_base := (ic_base s)\<lparr>cb_conversation_id := i\<rparr>\<rparr>"

definition can_continue :: "iterated_contract_net \<Rightarrow> bool" where
  "can_continue s = (ic_current_round s < ic_max_rounds s)"

definition start_round ::
  "(proposal list \<Rightarrow> proposal list) \<Rightarrow> timestamp \<Rightarrow> bytes \<Rightarrow> iterated_contract_net \<Rightarrow>
   (protocol_error + u32) \<times> iterated_contract_net" where
  "start_round order now cfp_content s =
     (if \<not> can_continue s then (Inl (ValidationFailed ''Maximum rounds reached''), s)
      else if ic_state s \<notin> {NotStarted, Evaluating, Revising} then
        (Inl (InvalidTransition (iterated_as_str (ic_state s)) ''start_round''), s)
      else
        let s1 = (if ic_current_proposals s \<noteq> [] then
                    s\<lparr>ic_rounds := ic_rounds s @
                      [\<lparr>nr_round = ic_current_round s, nr_cfp_content = cfp_content,
                        nr_proposals = order (hm_values (ic_current_proposals s)),
                        nr_timestamp = now\<rparr>]\<rparr>
                  else s);
            r = ic_current_round s1 + 1
        in (Inr r, s1\<lparr>ic_current_round := r, ic_current_proposals := [], ic_state := CfpSent\<rparr>))"

definition add_proposal ::
  "proposal \<Rightarrow> iterated_contract_net \<Rightarrow> (protocol_error + unit) \<times> iterated_contract_net" where
  "add_proposal p s =
     (if ic_state s \<noteq> CfpSent then
        (Inl (InvalidTransition (iterated_as_str (ic_state s)) ''add_proposal''), s)
      else
        (Inr (), s\<lparr>ic_current_proposals :=
           hm_insert (name (pr_bidder p)) p (ic_current_proposals s)\<rparr>))"

definition start_evaluation ::
  "iterated_contract_net \<Rightarrow> (protocol_error + unit) \<times> iterated_contract_net" where
  "start_evaluation s =
     (if ic_state s \<noteq> CfpSent then
        (Inl (InvalidTransition (iterated_as_str (ic_state s)) ''start_evaluation''), s)
      else
        (Inr (), s\<lparr>ic_state :=
           (if ic_current_proposals s = [] then
              (if ic_max_rounds s \<le> ic_current_round s then NoAgreement else Revising)
            else Evaluating)\<rparr>))"

definition request_revision ::
  "iterated_contract_net \<Rightarrow> (protocol_error + unit) \<times> iterated_contract_net" where
  "request_revision s =
     (if ic_state s \<noteq> Evaluating then
        (Inl (InvalidTransition (iterated_as_str (ic_state s)) ''request_revision''), s)
      else if \<not> can_continue s then
        (Inl (ValidationFailed ''Maximum rounds reached''), s\<lparr>ic_state := NoAgreement\<rparr>)
      else (Inr (), s\<lparr>ic_state := Revising\<rparr>))"

definition iterated_accept_proposal ::
  "string \<Rightarrow> iterated_contract_net \<Rightarrow> (protocol_error + proposal) \<times> iterated_contract_net" where
  "iterated_accept_proposal proposer s =
     (if ic_state s \<noteq> Evaluating then
        (Inl (InvalidTransition (iterated_as_str (ic_state s)) ''accept_proposal''), s)
      else
        (case hm_get (ic_current_proposals s) proposer of
           None \<Rightarrow> (Inl (ValidationFailed (''No proposal from '' @ proposer)), s)
         | Some p \<Rightarrow>
             (Inr p, s\<lparr>ic_selected_contractor := Some proposer, ic_state := Accepted\<rparr>)))"

definition record_result ::
  "bytes \<Rightarrow> iterated_contract_net \<Rightarrow> (protocol_error + unit) \<times> iterated_contract_net" where
  "record_result r s =
     (if ic_state s \<notin> {Accepted, WaitingResult} then
        (Inl (InvalidTransition (iterated_as_str (ic_state s)) ''record_result''), s)
      else (Inr (), s\<lparr>ic_result := Some r, ic_state := Completed\<rparr>))"

definition iterated_validate_transition ::
  "iterated_contract_net \<Rightarrow> performative \<Rightarrow> protocol_error + iterated_state" where
  "iterated_validate_transition s perf =
     (let st = ic_state s in
      if st = NotStarted \<and> perf = Cfp then Inr CfpSent
      else if st = CfpSent \<and> perf = Propose then Inr CfpSent
      else if st = CfpSent \<and> perf = Refuse then Inr CfpSent
      else if st = CfpSent \<and> perf = AcceptProposal \<or> st = Evaluating \<and> perf = AcceptProposal
        then Inr Accepted
      else if st = CfpSent \<and> perf = RejectProposal \<or> st = Evaluating \<and> perf = RejectProposal
        then (if can_continue s then Inr Revising else Inr NoAgreement)
      else if st = Revising \<and> perf = Cfp then Inr CfpSent
      else if st = Evaluating \<and> perf = Cfp then Inr CfpSent
      else if st = Accepted \<and> perf = InformDone \<or> st = Accepted \<and> perf = InformResult
        then Inr Completed
      else if st = WaitingResult \<and> perf = InformDone \<or> st = WaitingResult \<and> perf = InformResult
        then Inr Completed
      else if st = Accepted \<and> perf = Failure \<or> st = WaitingResult \<and> perf = Failure
        then Inr Failed
      else if perf = Cancel then Inr Cancelled
      else invalid_transition (iterated_as_str st) perf)"

definition iterated_validate :: "iterated_contract_net \<Rightarrow> acl_message \<Rightarrow> protocol_error + unit" where
  "iterated_validate = validate_with iterated_validate_transition"

definition iterated_effect ::
  "timestamp \<Rightarrow> performative \<Rightarrow> iterated_state \<Rightarrow> acl_message \<Rightarrow>
   iterated_contract_net \<Rightarrow> iterated_contract_net" where
  "iterated_effect now perf new_state m s =
     (let s1 = s\<lparr>ic_base := record_message m (ic_base s)\<rparr>;
          s2 = (if perf = Cfp then
                  (if ic_state s1 = NotStarted then s1\<lparr>ic_current_round := 1\<rparr>
                   else s1\<lparr>ic_current_round := ic_current_round s1 + 1,
                           ic_current_proposals := []\<rparr>)
                else if perf = Propose then
                  with_sender m (\<lambda>a s. s\<lparr>ic_current_proposals := hm_insert (name a)
                      \<lparr>pr_bidder = a, pr_content = content m, pr_received_at = now\<rparr>
                      (ic_current_proposals s)\<rparr>) s1
                else if perf = InformDone \<or> perf = InformResult then
                  s1\<lparr>ic_result := Some (content m)\<rparr>
                else s1)
      in s2\<lparr>ic_state := new_state\<rparr>)"

definition iterated_answer :: "iterated_contract_net \<Rightarrow> process_result" where
  "iterated_answer s =
     (case ic_state s of
        Completed \<Rightarrow> Complete (completion_data_default\<lparr>result := ic_result s\<rparr>)
      | NoAgreement \<Rightarrow> process_result.Failed ''No agreement reached''
      | Failed \<Rightarrow> process_result.Failed ''Contract failed''
      | Cancelled \<Rightarrow> process_result.Failed ''Contract cancelled''
      | _ \<Rightarrow> Continue)"

definition iterated_process :: "iterated_contract_net process_fun" where
  "iterated_process = step_with iterated_validate_transition iterated_effect iterated_answer"

definition iterated_is_complete :: "iterated_contract_net \<Rightarrow> bool" where
  "iterated_is_complete s = (ic_state s \<in> {Completed, NoAgreement, Failed, Cancelled})"

definition iterated_is_failed :: "iterated_contract_net \<Rightarrow> bool" where
  "iterated_is_failed s = (ic_state s \<in> {NoAgreement, Failed, Cancelled})"

definition iterated_expected :: "iterated_contract_net \<Rightarrow> performative list" where
  "iterated_expected s =
     (case ic_state s of
        NotStarted \<Rightarrow> [Cfp]
      | CfpSent \<Rightarrow> [Propose, Refuse, AcceptProposal, RejectProposal, Cancel]
      | Evaluating \<Rightarrow> [AcceptProposal, RejectProposal, Cfp, Cancel]
      | Revising \<Rightarrow> [Cfp, Cancel]
      | Accepted \<Rightarrow> [InformDone, InformResult, Failure, Cancel]
      | WaitingResult \<Rightarrow> [InformDone, InformResult, Failure, Cancel]
      | _ \<Rightarrow> [])"

definition iterated_history :: "iterated_contract_net \<Rightarrow> acl_message list" where
  "iterated_history s = cb_messages (ic_base s)"

section \<open>The contract\<close>

lemma iterated_transition_iff:
  "iterated_validate_transition s p = Inr st \<longleftrightarrow>
     (ic_state s, p, st) \<in>
       {(NotStarted, Cfp, CfpSent), (CfpSent, Propose, CfpSent), (CfpSent, Refuse, CfpSent),
        (CfpSent, AcceptProposal, Accepted), (Evaluating, AcceptProposal, Accepted),
        (Revising, Cfp, CfpSent), (Evaluating, Cfp, CfpSent), (Accepted, InformDone, Completed),
        (Accepted, InformResult, Completed), (WaitingResult, InformDone, Completed),
        (WaitingResult, InformResult, Completed), (Accepted, Failure, Failed),
        (WaitingResult, Failure, Failed)}
     \<or> ic_state s \<in> {CfpSent, Evaluating} \<and> p = RejectProposal
        \<and> (can_continue s \<and> st = Revising \<or> \<not> can_continue s \<and> st = NoAgreement)
     \<or> p = Cancel \<and> st = Cancelled"
  unfolding iterated_validate_transition_def Let_def by (cases "ic_state s"; simp; blast)

lemma iterated_effect_simps [simp]:
  "ic_state (iterated_effect now p st m s) = st"
  "ic_base (iterated_effect now p st m s) = record_message m (ic_base s)"
  "ic_max_rounds (iterated_effect now p st m s) = ic_max_rounds s"
  "ic_selected_contractor (iterated_effect now p st m s) = ic_selected_contractor s"
  by (simp_all add: iterated_effect_def with_sender_def Let_def split: option.splits)

lemma iterated_effect_round:
  "ic_current_round (iterated_effect now p st m s) =
     (if p = Cfp then (if ic_state s = NotStarted then 1 else ic_current_round s + 1)
      else ic_current_round s)"
  by (simp add: iterated_effect_def with_sender_def Let_def split: option.splits)

lemma iterated_effect_result:
  "ic_result (iterated_effect now p st m s) =
     (if p = InformDone \<or> p = InformResult then Some (content m) else ic_result s)"
  by (auto simp: iterated_effect_def with_sender_def Let_def split: option.splits)

lemma iterated_effect_proposals:
  "hm_wf (ic_current_proposals s) \<Longrightarrow> hm_wf (ic_current_proposals (iterated_effect now p st m s))"
  by (simp add: iterated_effect_def with_sender_def Let_def split: option.splits)

text \<open>
  A completed negotiation has a result; the proposals of a round are filed under their
  bidders; while a revision is being prepared another round is allowed.
\<close>

definition iterated_invar :: "iterated_contract_net \<Rightarrow> bool" where
  "iterated_invar s \<longleftrightarrow> hm_wf (ic_current_proposals s)
     \<and> (ic_state s = Completed \<longrightarrow> ic_result s \<noteq> None)
     \<and> (ic_state s = NotStarted \<longrightarrow> ic_current_round s = 0)
     \<and> (ic_state s = Revising \<longrightarrow> can_continue s)"

interpretation ic_step: step_machine iterated_validate_transition iterated_effect
  iterated_answer iterated_history iterated_is_complete iterated_is_failed iterated_invar
proof unfold_locales
  fix s p st now m
  assume "iterated_invar s" "iterated_validate_transition s p = Inr st"
  then show "iterated_invar (iterated_effect now p st m s)"
    by (auto simp: iterated_invar_def iterated_transition_iff iterated_effect_result
        iterated_effect_round iterated_effect_proposals can_continue_def)
next
  fix s p st now m
  assume "iterated_is_complete s" "iterated_validate_transition s p = Inr st"
  then show "iterated_is_complete (iterated_effect now p st m s)"
    by (auto simp: iterated_is_complete_def iterated_transition_iff)
qed (auto simp: iterated_history_def iterated_answer_def iterated_is_complete_def
    iterated_is_failed_def split: iterated_state.splits)

interpretation ic: advertising_machine iterated_validate iterated_process iterated_history
  iterated_is_complete iterated_is_failed iterated_invar iterated_expected
  unfolding iterated_validate_def iterated_process_def
proof unfold_locales
  fix s p and m :: acl_message
  assume "iterated_invar s" "p \<in> set (iterated_expected s)"
    "performative_try_from (performative m) = Some p"
  then show "validate_with iterated_validate_transition s m = Inr ()"
    by (auto simp: validate_with_def iterated_expected_def iterated_validate_transition_def
        Let_def split: iterated_state.splits)
qed (auto simp: iterated_is_complete_def iterated_expected_def split: iterated_state.splits)

section \<open>Rounds\<close>

text \<open>
  Everything the initiator's calls and the messages can reach, except that a \<open>Cfp\<close> message is
  not processed during evaluation.
\<close>

inductive iterated_reachable :: "(proposal list \<Rightarrow> proposal list) \<Rightarrow> iterated_contract_net \<Rightarrow> bool"
  for order :: "proposal list \<Rightarrow> proposal list" where
  init: "0 < n \<Longrightarrow> iterated_reachable order (iterated_new_as_initiator n uuid now)"
| participant: "iterated_reachable order (iterated_new_as_participant uuid now)"
| message: "iterated_reachable order s \<Longrightarrow>
    \<not> (ic_state s = Evaluating \<and> decode_performative m = Inr Cfp) \<Longrightarrow>
    iterated_reachable order (snd (iterated_process now m s))"
| round: "iterated_reachable order s \<Longrightarrow>
    iterated_reachable order (snd (start_round order now c s))"
| add: "iterated_reachable order s \<Longrightarrow> iterated_reachable order (snd (add_proposal p s))"
| evaluate: "iterated_reachable order s \<Longrightarrow> iterated_reachable order (snd (start_evaluation s))"
| revise: "iterated_reachable order s \<Longrightarrow> iterated_reachable order (snd (request_revision s))"
| accept: "iterated_reachable order s \<Longrightarrow>
    iterated_reachable order (snd (iterated_accept_proposal w s))"
| store_result: "iterated_reachable order s \<Longrightarrow> iterated_reachable order (snd (record_result r s))"

definition rounds_ok :: "iterated_contract_net \<Rightarrow> bool" where
  "rounds_ok s \<longleftrightarrow> iterated_invar s \<and> 0 < ic_max_rounds s
     \<and> ic_current_round s \<le> ic_max_rounds s
     \<and> sorted_wrt (<) (map nr_round (ic_rounds s))
     \<and> (\<forall>r \<in> set (ic_rounds s). nr_round r < ic_current_round s)
     \<and> (ic_state s = NotStarted \<longrightarrow> ic_rounds s = [])"

lemma iterated_effect_rounds [simp]: "ic_rounds (iterated_effect now p st m s) = ic_rounds s"
  by (simp add: iterated_effect_def with_sender_def Let_def split: option.splits)

lemma rounds_ok_process:
  assumes ok: "rounds_ok s" and nc: "\<not> (ic_state s = Evaluating \<and> decode_performative m = Inr Cfp)"
  shows "rounds_ok (snd (iterated_process now m s))"
proof (cases "snd (iterated_process now m s) = s")
  case False
  then obtain p st where p: "decode_performative m = Inr p"
    and tr: "iterated_validate_transition s p = Inr st"
    and s': "snd (iterated_process now m s) = iterated_effect now p st m s"
    by (auto simp: iterated_process_def step_with_def Let_def split: sum.splits)
  have inv: "iterated_invar (iterated_effect now p st m s)"
    using ok tr by (intro ic_step.effect_invar) (simp_all add: rounds_ok_def)
  show ?thesis
  proof (cases "p = Cfp")
    case True
    with tr nc p have "ic_state s = NotStarted \<and> st = CfpSent \<or> ic_state s = Revising \<and> st = CfpSent"
      by (auto simp: iterated_transition_iff)
    with ok inv True show ?thesis
      using word_increment [of "ic_current_round s" "ic_max_rounds s"]
      by (auto simp: s' rounds_ok_def iterated_effect_round iterated_invar_def can_continue_def
          word_le_def word_less_def intro: order.strict_trans)
  next
    case False
    with ok inv tr show ?thesis
      by (auto simp: s' rounds_ok_def iterated_effect_round iterated_transition_iff)
  qed
qed (use ok in simp)

lemma rounds_ok_start_round:
  assumes "rounds_ok s"
  shows "rounds_ok (snd (start_round order now c s))"
proof (cases "can_continue s \<and> ic_state s \<in> {NotStarted, Evaluating, Revising}")
  case True
  then have less: "ic_current_round s < ic_max_rounds s" by (simp add: can_continue_def)
  note inc = word_increment [OF less]
  have "nr_round r < ic_current_round s + 1" if "r \<in> set (ic_rounds s)" for r
    using assms that inc(2) by (auto simp: rounds_ok_def intro: order.strict_trans)
  with True assms inc show ?thesis
    by (auto simp: start_round_def rounds_ok_def iterated_invar_def sorted_wrt_append Let_def)
qed (use assms in \<open>auto simp: start_round_def\<close>)

lemma iterated_reachable_rounds: "iterated_reachable order s \<Longrightarrow> rounds_ok s"
proof (induction rule: iterated_reachable.induct)
  case (message s m now)
  from message(3,2) show ?case by (rule rounds_ok_process)
next
  case (round s now c)
  then show ?case by (intro rounds_ok_start_round)
qed (auto simp: rounds_ok_def iterated_invar_def can_continue_def iterated_new_as_initiator_def
    iterated_new_as_participant_def add_proposal_def start_evaluation_def request_revision_def
    iterated_accept_proposal_def record_result_def split: option.splits)

section \<open>Properties\<close>

text \<open>
  The number of negotiation rounds is bounded. As long as no \<open>Cfp\<close> message is processed
  during evaluation, no sequence of calls and messages takes the round counter past
  \<open>max_rounds\<close> or wraps it around, and the rounds on record are numbered in strictly increasing
  order, each below the current round.
\<close>

theorem iterated_rounds_bounded:
  assumes "iterated_reachable order s"
  shows "ic_current_round s \<le> ic_max_rounds s
    \<and> sorted_wrt (<) (map nr_round (ic_rounds s))
    \<and> (\<forall>r \<in> set (ic_rounds s). nr_round r < ic_current_round s)"
  using iterated_reachable_rounds [OF assms] by (simp add: rounds_ok_def)

text \<open>Two rounds as in the unit test \<open>test_multiple_rounds\<close>, with a limit of two.\<close>

definition demo_proposal :: proposal where
  "demo_proposal = \<lparr>pr_bidder = plain_agent ''agent1'', pr_content = [1], pr_received_at = 0\<rparr>"

definition demo_negotiation :: iterated_contract_net where
  "demo_negotiation =
     snd (start_evaluation (snd (add_proposal demo_proposal (snd (start_round id 2 [2]
       (snd (request_revision (snd (start_evaluation (snd (add_proposal demo_proposal
         (snd (start_round id 1 [1] (iterated_new_as_initiator 2 ''conv'' 0))))))))))))))"

lemma demo_negotiation_reachable: "iterated_reachable id demo_negotiation"
  unfolding demo_negotiation_def by (intro iterated_reachable.intros) simp

lemmas iterated_eval =
  demo_negotiation_def demo_proposal_def start_evaluation_def add_proposal_def start_round_def
  request_revision_def iterated_new_as_initiator_def can_continue_def hm_insert_def
  hm_values_def Let_def

lemma demo_negotiation_state:
  "ic_state demo_negotiation = Evaluating" "ic_current_round demo_negotiation = 2"
  "ic_max_rounds demo_negotiation = 2" "map nr_round (ic_rounds demo_negotiation) = [1]"
  by (simp_all add: iterated_eval)

theorem iterated_rounds_bounded_witness:
  "ic_current_round demo_negotiation = 2 \<and> ic_current_round demo_negotiation \<le> 2
    \<and> sorted_wrt (<) (map nr_round (ic_rounds demo_negotiation))"
  using iterated_rounds_bounded [OF demo_negotiation_reachable] demo_negotiation_state by simp

text \<open>
  A \<open>Cfp\<close> message during evaluation ignores the round limit. It is accepted and starts
  another round whether or not \<open>can_continue\<close> holds, while the call \<open>start_round\<close> refuses in the
  same state once the limit is reached.
\<close>

theorem iterated_cfp_ignores_limit:
  assumes "ic_state s = Evaluating" "performative_try_from (performative m) = Some Cfp"
    and "\<not> can_continue s"
  shows "fst (iterated_process now m s) = Inr Continue
    \<and> ic_current_round (snd (iterated_process now m s)) = ic_current_round s + 1
    \<and> ic_state (snd (iterated_process now m s)) = CfpSent
    \<and> start_round order now c s = (Inl (ValidationFailed ''Maximum rounds reached''), s)"
  using assms by (simp add: iterated_process_def step_with_def iterated_validate_transition_def
      iterated_effect_round iterated_answer_def start_round_def Let_def)

theorem iterated_cfp_ignores_limit_witness:
  "ic_current_round (snd (iterated_process 3 (plain_message Cfp ''i'' []) demo_negotiation)) = 3
    \<and> ic_max_rounds demo_negotiation = 2"
proof -
  have "\<not> can_continue demo_negotiation"
    using demo_negotiation_state by (simp add: can_continue_def)
  from iterated_cfp_ignores_limit [OF demo_negotiation_state(1) _ this,
      of "plain_message Cfp ''i'' []" 3]
  show ?thesis using demo_negotiation_state
    by (simp only: plain_message_simps performative_try_from_as_i32) simp
qed

end
