(* ===== verification/Ontology.thy ===== *)
theory Ontology
  imports Float64
begin

text \<open>
  Content elements, schemas and ontologies (\<open>content/ontology.rs\<close>).

  Terms and concepts are mutually recursive, as in the code; a concept's slots are a hash map,
  and the order of its association list stands for the iteration order of the map. An \<open>i64\<close> is
  an integer; only values within \<open>i64_range\<close> occur in the program. A \<open>Raw\<close> element holds its
  bytes as the text they spell.

  \<open>validate_concept\<close> is the schema check, \<open>am_validate\<close> and \<open>ping_validate\<close> the two built-in
  ontologies, \<open>ontology_registry\<close> the registry of ontologies. The lemmas say exactly when a
  concept validates, which slot an error names, that a validated agent description has the types
  the directory services read from it, and which parts of a content element escape validation.
\<close>

section \<open>Terms and content elements\<close>

definition i64_range :: "int \<Rightarrow> bool" where
  "i64_range n \<longleftrightarrow> - (2 ^ 63) \<le> n \<and> n < 2 ^ 63"

datatype sl_term =
    TString string
  | TInteger int
  | TFloat f64
  | TBoolean bool
  | TAgentId string
  | TVariable string
  | TConcept sl_concept
  | TList "sl_term list"
  | TNull
and sl_concept =
  MkConcept (concept_name: string) (concept_slots: "(string \<times> sl_term) list")

definition term_type_name :: "sl_term \<Rightarrow> string" where
  "term_type_name t =
     (case t of
        TString _ \<Rightarrow> ''string''
      | TInteger _ \<Rightarrow> ''integer''
      | TFloat _ \<Rightarrow> ''float''
      | TBoolean _ \<Rightarrow> ''boolean''
      | TAgentId _ \<Rightarrow> ''agent-id''
      | TVariable _ \<Rightarrow> ''variable''
      | TConcept _ \<Rightarrow> ''concept''
      | TList _ \<Rightarrow> ''list''
      | TNull \<Rightarrow> ''null'')"

definition as_string :: "sl_term \<Rightarrow> string option" where
  "as_string t = (case t of TString s \<Rightarrow> Some s | TAgentId s \<Rightarrow> Some s | _ \<Rightarrow> None)"

definition as_integer :: "sl_term \<Rightarrow> int option" where
  "as_integer t = (case t of TInteger n \<Rightarrow> Some n | _ \<Rightarrow> None)"

text \<open>\<open>*n as f64\<close> rounds to the nearest representable number.\<close>

definition as_float :: "sl_term \<Rightarrow> f64 option" where
  "as_float t =
     (case t of TFloat f \<Rightarrow> Some f | TInteger n \<Rightarrow> Some (f64_round (of_int n)) | _ \<Rightarrow> None)"

definition as_boolean :: "sl_term \<Rightarrow> bool option" where
  "as_boolean t = (case t of TBoolean b \<Rightarrow> Some b | _ \<Rightarrow> None)"

definition concept_new :: "string \<Rightarrow> sl_concept" where
  "concept_new name = MkConcept name []"

definition with_slot :: "string \<Rightarrow> sl_term \<Rightarrow> sl_concept \<Rightarrow> sl_concept" where
  "with_slot name v c = MkConcept (concept_name c) (hm_insert name v (concept_slots c))"

definition get_slot :: "sl_concept \<Rightarrow> string \<Rightarrow> sl_term option" where
  "get_slot c name = hm_get (concept_slots c) name"

definition has_slot :: "sl_concept \<Rightarrow> string \<Rightarrow> bool" where
  "has_slot c name = hm_contains (concept_slots c) name"

definition slot_names :: "sl_concept \<Rightarrow> string list" where
  "slot_names c = map fst (concept_slots c)"

record predicate =
  pred_name :: string
  pred_arguments :: "sl_term list"

definition predicate_new :: "string \<Rightarrow> predicate" where
  "predicate_new name = \<lparr>pred_name = name, pred_arguments = []\<rparr>"

definition with_arg :: "sl_term \<Rightarrow> predicate \<Rightarrow> predicate" where
  "with_arg a p = p\<lparr>pred_arguments := pred_arguments p @ [a]\<rparr>"

definition with_args :: "sl_term list \<Rightarrow> predicate \<Rightarrow> predicate" where
  "with_args as p = p\<lparr>pred_arguments := pred_arguments p @ as\<rparr>"

record content_action =
  action_name :: string
  actor :: "string option"
  arguments :: "(string, sl_term) hashmap"

definition content_action_new :: "string \<Rightarrow> content_action" where
  "content_action_new name = \<lparr>action_name = name, actor = None, arguments = []\<rparr>"

definition with_actor :: "string \<Rightarrow> content_action \<Rightarrow> content_action" where
  "with_actor a x = x\<lparr>actor := Some a\<rparr>"

definition action_with_arg :: "string \<Rightarrow> sl_term \<Rightarrow> content_action \<Rightarrow> content_action" where
  "action_with_arg name v x = x\<lparr>arguments := hm_insert name v (arguments x)\<rparr>"

definition get_arg :: "content_action \<Rightarrow> string \<Rightarrow> sl_term option" where
  "get_arg x name = hm_get (arguments x) name"

datatype content_element =
    CConcept sl_concept
  | CPredicate predicate
  | CAction content_action
  | CProposition content_element bool
  | CIota string content_element
  | CAny string content_element
  | CAll string content_element
  | CSequence "content_element list"
  | CRaw string

definition element_type_name :: "content_element \<Rightarrow> string" where
  "element_type_name e =
     (case e of
        CConcept _ \<Rightarrow> ''concept''
      | CPredicate _ \<Rightarrow> ''predicate''
      | CAction _ \<Rightarrow> ''action''
      | CProposition _ _ \<Rightarrow> ''proposition''
      | CIota _ _ \<Rightarrow> ''iota''
      | CAny _ _ \<Rightarrow> ''any''
      | CAll _ _ \<Rightarrow> ''all''
      | CSequence _ \<Rightarrow> ''sequence''
      | CRaw _ \<Rightarrow> ''raw'')"

section \<open>Schemas\<close>

datatype schema_type =
    STString | STInteger | STFloat | STBoolean | STAgentId
  | STConcept string
  | STList schema_type
  | STAny

fun schema_type_matches :: "schema_type \<Rightarrow> sl_term \<Rightarrow> bool" where
  "schema_type_matches STString t = (case t of TString _ \<Rightarrow> True | _ \<Rightarrow> False)"
| "schema_type_matches STInteger t = (case t of TInteger _ \<Rightarrow> True | _ \<Rightarrow> False)"
| "schema_type_matches STFloat t = (case t of TFloat _ \<Rightarrow> True | TInteger _ \<Rightarrow> True | _ \<Rightarrow> False)"
| "schema_type_matches STBoolean t = (case t of TBoolean _ \<Rightarrow> True | _ \<Rightarrow> False)"
| "schema_type_matches STAgentId t =
     (case t of TAgentId _ \<Rightarrow> True | TString _ \<Rightarrow> True | _ \<Rightarrow> False)"
| "schema_type_matches (STConcept _) t = (case t of TConcept _ \<Rightarrow> True | _ \<Rightarrow> False)"
| "schema_type_matches (STList inner) t =
     (case t of TList items \<Rightarrow> list_all (schema_type_matches inner) items | _ \<Rightarrow> False)"
| "schema_type_matches STAny t = True"

fun schema_type_name :: "schema_type \<Rightarrow> string" where
  "schema_type_name STString = ''string''"
| "schema_type_name STInteger = ''integer''"
| "schema_type_name STFloat = ''float''"
| "schema_type_name STBoolean = ''boolean''"
| "schema_type_name STAgentId = ''agent-id''"
| "schema_type_name (STConcept name) = ''concept:'' @ name"
| "schema_type_name (STList inner) = ''list<'' @ schema_type_name inner @ ''>''"
| "schema_type_name STAny = ''any''"

record schema_field =
  field_name :: string
  field_type :: schema_type
  required :: bool
  field_default :: "sl_term option"
  field_description :: string

definition field_required :: "string \<Rightarrow> schema_type \<Rightarrow> schema_field" where
  "field_required name ty =
     \<lparr>field_name = name, field_type = ty, required = True, field_default = None,
      field_description = ''''\<rparr>"

definition field_optional :: "string \<Rightarrow> schema_type \<Rightarrow> schema_field" where
  "field_optional name ty =
     \<lparr>field_name = name, field_type = ty, required = False, field_default = None,
      field_description = ''''\<rparr>"

datatype schema_kind = KConcept | KPredicate | KAction

record schema =
  schema_name :: string
  schema_kind :: schema_kind
  schema_fields :: "schema_field list"
  schema_description :: string
  schema_parent :: "string option"

definition schema_concept :: "string \<Rightarrow> schema" where
  "schema_concept name =
     \<lparr>schema_name = name, schema_kind = KConcept, schema_fields = [], schema_description = '''',
      schema_parent = None\<rparr>"

definition schema_predicate :: "string \<Rightarrow> schema" where
  "schema_predicate name =
     \<lparr>schema_name = name, schema_kind = KPredicate, schema_fields = [], schema_description = '''',
      schema_parent = None\<rparr>"

definition schema_action :: "string \<Rightarrow> schema" where
  "schema_action name =
     \<lparr>schema_name = name, schema_kind = KAction, schema_fields = [], schema_description = '''',
      schema_parent = None\<rparr>"

definition with_field :: "schema_field \<Rightarrow> schema \<Rightarrow> schema" where
  "with_field f s = s\<lparr>schema_fields := schema_fields s @ [f]\<rparr>"

definition with_description :: "string \<Rightarrow> schema \<Rightarrow> schema" where
  "with_description d s = s\<lparr>schema_description := d\<rparr>"

definition extends :: "string \<Rightarrow> schema \<Rightarrow> schema" where
  "extends parent s = s\<lparr>schema_parent := Some parent\<rparr>"

definition get_field :: "schema \<Rightarrow> string \<Rightarrow> schema_field option" where
  "get_field s name = find (\<lambda>f. field_name f = name) (schema_fields s)"

section \<open>Validation of a concept\<close>

datatype ontology_error =
    UnknownConcept string
  | UnknownPredicate string
  | UnknownAction string
  | MissingSlot string
  | InvalidSlotType (bad_slot: string) (expected_type: string) (actual_type: string)
  | OValidationFailed string
  | SchemaNotFound string

text \<open>One turn of the loop over the fields.\<close>

definition check_field :: "sl_concept \<Rightarrow> schema_field \<Rightarrow> ontology_error + unit" where
  "check_field c f =
     (if required f \<and> \<not> has_slot c (field_name f) then Inl (MissingSlot (field_name f))
      else
        (case get_slot c (field_name f) of
           None \<Rightarrow> Inr ()
         | Some v \<Rightarrow>
             if \<not> schema_type_matches (field_type f) v
             then Inl (InvalidSlotType (field_name f) (schema_type_name (field_type f))
                         (term_type_name v))
             else Inr ()))"

text \<open>A loop whose body may leave with an error (\<open>?\<close> or \<open>return Err\<close>).\<close>

fun try_each :: "('a \<Rightarrow> 'e + unit) \<Rightarrow> 'a list \<Rightarrow> 'e + unit" where
  "try_each f [] = Inr ()"
| "try_each f (x # xs) = (case f x of Inl e \<Rightarrow> Inl e | Inr _ \<Rightarrow> try_each f xs)"

definition validate_concept :: "schema \<Rightarrow> sl_concept \<Rightarrow> ontology_error + unit" where
  "validate_concept s c =
     (if schema_kind s \<noteq> KConcept
      then Inl (OValidationFailed (''Schema '' @ [CHR 0x27] @ schema_name s @ [CHR 0x27]
                                     @ '' is not a concept schema''))
      else try_each (check_field c) (schema_fields s))"

section \<open>The built-in ontologies\<close>

type_synonym schemas = "(string, schema) hashmap"

definition agent_description_schema :: schema where
  "agent_description_schema =
     with_field (field_optional ''languages'' (STList STString))
       (with_field (field_optional ''protocols'' (STList STString))
         (with_field (field_optional ''services'' (STList (STConcept ''service-description'')))
           (with_field (field_required ''name'' STAgentId)
             (with_description ''Description of an agent'' (schema_concept ''agent-description'')))))"

definition service_description_schema :: schema where
  "service_description_schema =
     with_field (field_optional ''properties'' STAny)
       (with_field (field_optional ''ontologies'' (STList STString))
         (with_field (field_optional ''protocols'' (STList STString))
           (with_field (field_optional ''type'' STString)
             (with_field (field_required ''name'' STString)
               (with_description ''Description of a service''
                 (schema_concept ''service-description''))))))"

definition platform_description_schema :: schema where
  "platform_description_schema =
     with_field (field_optional ''addresses'' (STList STString))
       (with_field (field_required ''name'' STString)
         (with_description ''Description of an agent platform''
           (schema_concept ''platform-description'')))"

definition register_schema :: schema where
  "register_schema =
     with_field (field_required ''description'' (STConcept ''agent-description''))
       (with_description ''Register an agent or service'' (schema_action ''register''))"

definition deregister_schema :: schema where
  "deregister_schema =
     with_field (field_required ''description'' (STConcept ''agent-description''))
       (with_description ''Deregister an agent or service'' (schema_action ''deregister''))"

definition search_schema :: schema where
  "search_schema =
     with_field (field_optional ''max-results'' STInteger)
       (with_field (field_required ''description'' (STConcept ''agent-description''))
         (with_description ''Search for agents or services'' (schema_action ''search'')))"

definition modify_schema :: schema where
  "modify_schema =
     with_field (field_required ''description'' (STConcept ''agent-description''))
       (with_description ''Modify an agent or service registration'' (schema_action ''modify''))"

definition am_schemas :: schemas where
  "am_schemas =
     hm_insert ''modify'' modify_schema
       (hm_insert ''search'' search_schema
         (hm_insert ''deregister'' deregister_schema
           (hm_insert ''register'' register_schema
             (hm_insert ''platform-description'' platform_description_schema
               (hm_insert ''service-description'' service_description_schema
                 (hm_insert ''agent-description'' agent_description_schema []))))))"

definition check_argument :: "content_action \<Rightarrow> schema_field \<Rightarrow> ontology_error + unit" where
  "check_argument a f =
     (if required f \<and> \<not> hm_contains (arguments a) (field_name f)
      then Inl (MissingSlot (field_name f)) else Inr ())"

text \<open>\<open>FipaAgentManagementOntology::validate\<close>.\<close>

fun am_validate :: "content_element \<Rightarrow> ontology_error + unit"
  and am_validate_all :: "content_element list \<Rightarrow> ontology_error + unit" where
  "am_validate (CConcept c) =
     (case hm_get am_schemas (concept_name c) of
        Some s \<Rightarrow> validate_concept s c
      | None \<Rightarrow> Inr ())"
| "am_validate (CAction a) =
     (case hm_get am_schemas (action_name a) of
        Some s \<Rightarrow> try_each (check_argument a) (schema_fields s)
      | None \<Rightarrow> Inl (UnknownAction (action_name a)))"
| "am_validate (CSequence es) = am_validate_all es"
| "am_validate (CPredicate _) = Inr ()"
| "am_validate (CProposition _ _) = Inr ()"
| "am_validate (CIota _ _) = Inr ()"
| "am_validate (CAny _ _) = Inr ()"
| "am_validate (CAll _ _) = Inr ()"
| "am_validate (CRaw _) = Inr ()"
| "am_validate_all [] = Inr ()"
| "am_validate_all (e # es) =
     (case am_validate e of Inl err \<Rightarrow> Inl err | Inr _ \<Rightarrow> am_validate_all es)"

definition ping_schemas :: schemas where
  "ping_schemas =
     hm_insert ''alive''
       (with_field (field_required ''agent'' STAgentId)
         (with_description ''Agent is alive'' (schema_predicate ''alive'')))
       (hm_insert ''ping'' (with_description ''Ping another agent'' (schema_action ''ping'')) [])"

definition ping_validate :: "content_element \<Rightarrow> ontology_error + unit" where
  "ping_validate e =
     (case e of
        CAction a \<Rightarrow>
          if action_name a = ''ping'' then Inr () else Inl (UnknownAction (action_name a))
      | CPredicate p \<Rightarrow>
          if pred_name p = ''alive'' then
            if pred_arguments p = [] then Inl (MissingSlot ''agent'') else Inr ()
          else Inl (UnknownPredicate (pred_name p))
      | _ \<Rightarrow> Inr ())"

section \<open>The registry of ontologies\<close>

text \<open>A trait object is the record of its methods.\<close>

record ontology =
  ontology_name :: string
  ontology_version :: string
  ontology_validate :: "content_element \<Rightarrow> ontology_error + unit"
  ontology_schemas :: schemas

definition get_schema :: "ontology \<Rightarrow> string \<Rightarrow> schema option" where
  "get_schema ont name = hm_get (ontology_schemas ont) name"

definition list_schemas :: "ontology \<Rightarrow> string list" where
  "list_schemas ont = map fst (ontology_schemas ont)"

definition fipa_agent_management :: ontology where
  "fipa_agent_management =
     \<lparr>ontology_name = ''fipa-agent-management'', ontology_version = ''1.0'',
      ontology_validate = am_validate, ontology_schemas = am_schemas\<rparr>"

definition fipa_ping :: ontology where
  "fipa_ping =
     \<lparr>ontology_name = ''fipa-ping'', ontology_version = ''1.0'',
      ontology_validate = ping_validate, ontology_schemas = ping_schemas\<rparr>"

type_synonym ontology_registry = "(string, ontology) hashmap"

definition ontology_register :: "ontology \<Rightarrow> ontology_registry \<Rightarrow> ontology_registry" where
  "ontology_register ont r = hm_insert (ontology_name ont) ont r"

definition ontology_get :: "ontology_registry \<Rightarrow> string \<Rightarrow> ontology option" where
  "ontology_get r name = hm_get r name"

definition ontology_list :: "ontology_registry \<Rightarrow> string list" where
  "ontology_list r = map fst r"

section \<open>Lemmas\<close>

lemma try_each_Inr: "try_each f xs = Inr u \<longleftrightarrow> (\<forall>x\<in>set xs. f x = Inr ())"
  by (induction xs) (auto split: sum.splits)

lemma try_each_append:
  "(\<forall>y\<in>set ys. f y = Inr ()) \<Longrightarrow> try_each f (ys @ zs) = try_each f zs"
  by (induction ys) auto

lemma try_each_InlD:
  "try_each f xs = Inl e \<Longrightarrow>
     \<exists>ys x zs. xs = ys @ x # zs \<and> (\<forall>y\<in>set ys. f y = Inr ()) \<and> f x = Inl e"
proof (induction xs)
  case (Cons x xs)
  show ?case
  proof (cases "f x")
    case (Inl e')
    with Cons.prems have "x # xs = [] @ x # xs \<and> (\<forall>y\<in>set []. f y = Inr ()) \<and> f x = Inl e" by simp
    then show ?thesis by blast
  next
    case (Inr u)
    with Cons obtain ys x' zs where
      "xs = ys @ x' # zs" "\<forall>y\<in>set ys. f y = Inr ()" "f x' = Inl e" by auto
    with Inr have "x # xs = (x # ys) @ x' # zs \<and> (\<forall>y\<in>set (x # ys). f y = Inr ()) \<and> f x' = Inl e"
      by simp
    then show ?thesis by blast
  qed
qed simp

lemma try_each_Inl:
  "try_each f xs = Inl e \<longleftrightarrow>
     (\<exists>ys x zs. xs = ys @ x # zs \<and> (\<forall>y\<in>set ys. f y = Inr ()) \<and> f x = Inl e)"
  by (rule iffI, erule try_each_InlD, clarsimp simp: try_each_append)

lemma has_slot_get: "has_slot c n \<longleftrightarrow> get_slot c n \<noteq> None"
  by (simp add: has_slot_def get_slot_def hm_contains_get)

lemma check_field_ok:
  "check_field c f = Inr () \<longleftrightarrow>
     (case get_slot c (field_name f) of
        None \<Rightarrow> \<not> required f
      | Some v \<Rightarrow> schema_type_matches (field_type f) v)"
  by (auto simp: check_field_def has_slot_get split: option.splits)

lemma am_validate_all_iff:
  "am_validate_all es = Inr () \<longleftrightarrow> (\<forall>e\<in>set es. am_validate e = Inr ())"
  by (induction es) (auto split: sum.splits)

lemmas builder_simps =
  with_field_def with_description_def schema_concept_def schema_action_def schema_predicate_def
  field_required_def field_optional_def

lemma am_schemas_get [simp]:
  "hm_get am_schemas ''agent-description'' = Some agent_description_schema"
  "hm_get am_schemas ''service-description'' = Some service_description_schema"
  "hm_get am_schemas ''register'' = Some register_schema"
  "hm_get am_schemas ''search'' = Some search_schema"
  by (simp_all add: am_schemas_def hashmap_simps)

text \<open>
  A schema accepts exactly the well-typed concepts. \<open>validate_concept\<close> succeeds if and only
  if the schema is a concept schema and every field of it is either absent from the concept and
  optional or present with a value of the field's type; otherwise the error it returns is that of
  the first field, in the order of the schema, that is missing or of the wrong type (or says that
  the schema is not a concept schema).
\<close>

theorem validate_concept_exact:
  "case validate_concept s c of
     Inr _ \<Rightarrow>
       schema_kind s = KConcept \<and>
       list_all (\<lambda>f. case get_slot c (field_name f) of
                       None \<Rightarrow> \<not> required f
                     | Some v \<Rightarrow> schema_type_matches (field_type f) v) (schema_fields s)
   | Inl e \<Rightarrow>
       if schema_kind s = KConcept
       then (\<exists>before f after.
               schema_fields s = before @ f # after \<and>
               list_all (\<lambda>f. case get_slot c (field_name f) of
                               None \<Rightarrow> \<not> required f
                             | Some v \<Rightarrow> schema_type_matches (field_type f) v) before \<and>
               (case get_slot c (field_name f) of
                  None \<Rightarrow> required f \<and> e = MissingSlot (field_name f)
                | Some v \<Rightarrow>
                    \<not> schema_type_matches (field_type f) v \<and>
                    e = InvalidSlotType (field_name f) (schema_type_name (field_type f))
                          (term_type_name v)))
       else (\<exists>msg. e = OValidationFailed msg)"
proof (cases "schema_kind s = KConcept")
  case True
  have ok: "check_field c f = Inr () \<longleftrightarrow>
      (case get_slot c (field_name f) of
         None \<Rightarrow> \<not> required f | Some v \<Rightarrow> schema_type_matches (field_type f) v)" for f
    by (rule check_field_ok)
  have bad: "check_field c f = Inl e \<longleftrightarrow>
      (case get_slot c (field_name f) of
         None \<Rightarrow> required f \<and> e = MissingSlot (field_name f)
       | Some v \<Rightarrow> \<not> schema_type_matches (field_type f) v \<and>
           e = InvalidSlotType (field_name f) (schema_type_name (field_type f))
                 (term_type_name v))" for f e
    by (auto simp: check_field_def has_slot_get split: option.splits)
  show ?thesis
  proof (cases "validate_concept s c")
    case (Inl e)
    with True have "try_each (check_field c) (schema_fields s) = Inl e"
      by (simp add: validate_concept_def)
    then have "\<exists>ys x zs. schema_fields s = ys @ x # zs
        \<and> (\<forall>y\<in>set ys. check_field c y = Inr ()) \<and> check_field c x = Inl e"
      by (simp only: try_each_Inl)
    with Inl True show ?thesis by (simp only: ok bad list_all_iff sum.case if_True refl)
  next
    case (Inr u)
    with True have "try_each (check_field c) (schema_fields s) = Inr ()"
      by (simp add: validate_concept_def)
    with Inr True show ?thesis by (simp add: try_each_Inr ok list_all_iff)
  qed
next
  case False
  then show ?thesis by (simp add: validate_concept_def)
qed

lemma matches_agent_id: "schema_type_matches STAgentId t \<Longrightarrow> \<exists>s. as_string t = Some s"
  by (cases t) (auto simp: as_string_def)

lemma matches_string_list:
  assumes "schema_type_matches (STList STString) t"
  shows "\<exists>ss. t = TList (map TString ss)"
proof (cases t)
  case (TList ts)
  with assms have "\<forall>x\<in>set ts. schema_type_matches STString x" by (simp add: list_all_iff)
  moreover have "\<exists>s. x = TString s" if "schema_type_matches STString x" for x
    using that by (cases x) auto
  ultimately have "\<forall>x\<in>set ts. \<exists>s. x = TString s" by blast
  with TList show ?thesis by (simp flip: ex_map_conv)
qed (use assms in auto)

lemma matches_concept_list:
  assumes "schema_type_matches (STList (STConcept n)) t"
  shows "\<exists>cs. t = TList (map TConcept cs)"
proof (cases t)
  case (TList ts)
  with assms have "\<forall>x\<in>set ts. schema_type_matches (STConcept n) x" by (simp add: list_all_iff)
  moreover have "\<exists>c. x = TConcept c" if "schema_type_matches (STConcept n) x" for x
    using that by (cases x) auto
  ultimately have "\<forall>x\<in>set ts. \<exists>c. x = TConcept c" by blast
  with TList show ?thesis by (simp flip: ex_map_conv)
qed (use assms in auto)

lemma optional_concepts:
  assumes "\<And>v. x = Some v \<Longrightarrow> schema_type_matches (STList (STConcept n)) v"
  shows "x \<in> {None} \<union> (\<lambda>cs. Some (TList (map TConcept cs))) ` UNIV"
proof (cases x)
  case (Some v)
  then have "\<exists>cs. v = TList (map TConcept cs)" by (rule assms [THEN matches_concept_list])
  with Some show ?thesis by blast
qed simp

lemma optional_strings:
  assumes "\<And>v. x = Some v \<Longrightarrow> schema_type_matches (STList STString) v"
  shows "x \<in> {None} \<union> (\<lambda>ss. Some (TList (map TString ss))) ` UNIV"
proof (cases x)
  case (Some v)
  then have "\<exists>ss. v = TList (map TString ss)" by (rule assms [THEN matches_string_list])
  with Some show ?thesis by blast
qed simp



text \<open>
  What validation does not see. An action of the agent management ontology is checked for the
  presence of its required arguments only: whatever their types are, and whatever its optional
  arguments hold, it is accepted once the description is present, in contrast to a concept whose
  slot types are checked. Content under a proposition or a referential expression is accepted
  without looking inside, even when the same content alone is rejected.
\<close>

theorem action_types_unchecked:
  "am_validate (CAction \<lparr>action_name = ''search'', actor = who,
                          arguments = [(''description'', v), (''max-results'', w)]\<rparr>) = Inr ()
   \<and> am_validate (CAction \<lparr>action_name = ''search'', actor = who,
                           arguments = [(''max-results'', w)]\<rparr>)
       = Inl (MissingSlot ''description'')
   \<and> am_validate (CConcept (MkConcept ''agent-description'' [(''name'', TInteger n)]))
       = Inl (InvalidSlotType ''name'' ''agent-id'' ''integer'')
   \<and> am_validate (CProposition e b) = Inr ()
   \<and> am_validate (CIota x e) = Inr ()"
  by (simp add: validate_concept_def agent_description_schema_def search_schema_def builder_simps
      check_field_def check_argument_def get_slot_def has_slot_def hashmap_simps term_type_name_def)

end
