(* ===== verification/Float_Text.thy ===== *)
theory Float_Text
  imports Float64
begin

text \<open>
  Numbers as text: \<open>Display\<close> and \<open>FromStr\<close> of \<open>i64\<close> and \<open>f64\<close> in the standard library, as the
  content codecs use them. Parsing a floating point literal rounds its exact decimal value;
  printing one looks for the shortest decimal that rounds back to the number, the closest one
  if there are several, and writes it without an exponent (\<open>Debug\<close> uses an exponent outside
  \<open>1e-4 .. 1e16\<close> and otherwise always writes a fractional part). The two zeros are one value.
\<close>

section \<open>Digits\<close>

definition is_digit :: "char \<Rightarrow> bool" where
  "is_digit c \<longleftrightarrow> 48 \<le> (of_char c :: nat) \<and> (of_char c :: nat) \<le> 57"

definition digit_val :: "char \<Rightarrow> nat" where
  "digit_val c = of_char c - 48"

definition digits_val :: "string \<Rightarrow> nat" where
  "digits_val ds = foldl (\<lambda>n c. 10 * n + digit_val c) 0 ds"

section \<open>Integers\<close>

definition int_to_string :: "int \<Rightarrow> string" where
  "int_to_string n = (if n < 0 then CHR ''-'' # nat_to_string (nat (- n)) else nat_to_string (nat n))"

text \<open>\<open>str::parse::<i64>\<close>: an optional sign, at least one digit, no overflow.\<close>

definition parse_i64 :: "string \<Rightarrow> int option" where
  "parse_i64 s =
     (let neg = (s \<noteq> [] \<and> hd s = CHR ''-'');
          ds = (if s \<noteq> [] \<and> (hd s = CHR ''-'' \<or> hd s = CHR ''+'') then tl s else s);
          n = (if neg then - int (digits_val ds) else int (digits_val ds))
      in if ds \<noteq> [] \<and> list_all is_digit ds \<and> - (2 ^ 63) \<le> n \<and> n < 2 ^ 63 then Some n else None)"

section \<open>Floating point numbers\<close>

definition pow10 :: "int \<Rightarrow> rat" where
  "pow10 e = (if 0 \<le> e then 10 ^ nat e else 1 / 10 ^ nat (- e))"

text \<open>The exponent after \<open>e\<close> or \<open>E\<close>; the empty text is the exponent 0.\<close>

definition parse_exponent :: "string \<Rightarrow> int option" where
  "parse_exponent s =
     (if s = [] then Some 0
      else if hd s = CHR ''e'' \<or> hd s = CHR ''E'' then
        (let t = tl s;
             neg = (t \<noteq> [] \<and> hd t = CHR ''-'');
             ds = (if t \<noteq> [] \<and> (hd t = CHR ''-'' \<or> hd t = CHR ''+'') then tl t else t)
         in if ds \<noteq> [] \<and> list_all is_digit ds
            then Some (if neg then - int (digits_val ds) else int (digits_val ds)) else None)
      else None)"

text \<open>\<open>str::parse::<f64>\<close> on texts of digits, signs, points and exponents.\<close>

definition parse_f64 :: "string \<Rightarrow> f64 option" where
  "parse_f64 s =
     (let neg = (s \<noteq> [] \<and> hd s = CHR ''-'');
          t = (if s \<noteq> [] \<and> (hd s = CHR ''-'' \<or> hd s = CHR ''+'') then tl s else s);
          a = takeWhile is_digit t;
          u = dropWhile is_digit t;
          pt = (u \<noteq> [] \<and> hd u = CHR ''.'');
          b = (if pt then takeWhile is_digit (tl u) else []);
          v = (if pt then dropWhile is_digit (tl u) else u)
      in if a = [] \<and> b = [] then None
         else map_option
                (\<lambda>e. let x = of_nat (digits_val (a @ b)) * pow10 (e - int (length b))
                      in f64_round (if neg then - x else x))
                (parse_exponent v))"

text \<open>The power of ten with \<open>10 powi (d - 1) \<le> x < 10 powi d\<close>.\<close>

fun lead_exp :: "nat \<Rightarrow> rat \<Rightarrow> int" where
  "lead_exp 0 x = 0"
| "lead_exp (Suc n) x =
     (if x < 1 / 10 then lead_exp n (10 * x) - 1
      else if 1 \<le> x then lead_exp n (x / 10) + 1 else 0)"

text \<open>The closest decimal with \<open>k\<close> digits that rounds to \<open>x\<close>, as its digits and its exponent.\<close>

definition decimal_candidate :: "rat \<Rightarrow> nat \<Rightarrow> (nat \<times> int) option" where
  "decimal_candidate x k =
     (let e = lead_exp 400 x - int k;
          lo = \<lfloor>x / pow10 e\<rfloor>;
          ok = (\<lambda>m. f64_round (of_int m * pow10 e) = Fin x);
          above = (1 / 2 < x / pow10 e - of_int lo)
      in if ok lo \<and> \<not> (above \<and> ok (lo + 1)) then Some (nat lo, e)
         else if ok (lo + 1) then Some (nat (lo + 1), e) else None)"

definition shortest_decimal :: "rat \<Rightarrow> nat \<times> int" where
  "shortest_decimal x =
     (case List.map_filter (decimal_candidate x) [1..<18] of
        [] \<Rightarrow> (nat \<lfloor>x / pow10 (lead_exp 400 x - 17)\<rfloor>, lead_exp 400 x - 17)
      | d # _ \<Rightarrow> d)"

definition zeros :: "nat \<Rightarrow> string" where
  "zeros n = replicate n (CHR ''0'')"

definition plain_decimal :: "nat \<times> int \<Rightarrow> string" where
  "plain_decimal d =
     (case d of (m, e) \<Rightarrow>
        let ds = nat_to_string m; n = length ds; k = nat (- e)
        in if 0 \<le> e then ds @ zeros (nat e)
           else if k < n then take (n - k) ds @ ''.'' @ drop (n - k) ds
           else ''0.'' @ zeros (k - n) @ ds)"

definition scientific_decimal :: "nat \<times> int \<Rightarrow> string" where
  "scientific_decimal d =
     (case d of (m, e) \<Rightarrow>
        let ds = nat_to_string m;
            sig = rev (dropWhile (\<lambda>c. c = CHR ''0'') (rev ds));
            x = e + int (length ds) - 1
        in take 1 sig @ (if drop 1 sig = [] then '''' else ''.'' @ drop 1 sig)
             @ ''e'' @ int_to_string x)"

text \<open>\<open>f64::to_string\<close> and \<open>format!("{:?}", f)\<close>.\<close>

definition f64_to_string :: "f64 \<Rightarrow> string" where
  "f64_to_string f =
     (case f of
        NaN \<Rightarrow> ''NaN'' | PosInf \<Rightarrow> ''inf'' | NegInf \<Rightarrow> ''-inf''
      | Fin x \<Rightarrow>
          if x = 0 then ''0''
          else (if x < 0 then ''-'' else '''') @ plain_decimal (shortest_decimal \<bar>x\<bar>))"

definition f64_debug :: "f64 \<Rightarrow> string" where
  "f64_debug f =
     (case f of
        NaN \<Rightarrow> ''NaN'' | PosInf \<Rightarrow> ''inf'' | NegInf \<Rightarrow> ''-inf''
      | Fin x \<Rightarrow>
          if x = 0 then ''0.0''
          else (if x < 0 then ''-'' else '''')
               @ (if 10 ^ 16 \<le> \<bar>x\<bar> \<or> \<bar>x\<bar> < 1 / 10 ^ 4
                  then scientific_decimal (shortest_decimal \<bar>x\<bar>)
                  else let s = plain_decimal (shortest_decimal \<bar>x\<bar>)
                       in if CHR ''.'' \<in> set s then s else s @ ''.0''))"

section \<open>Printing and parsing integers\<close>

lemma of_char_digit: "d < 10 \<Longrightarrow> of_char (char_of (48 + d) :: char) = 48 + d" for d :: nat
  by (simp add: of_char_of take_bit_eq_mod)

lemma is_digit_char_of [simp]: "d < 10 \<Longrightarrow> is_digit (char_of (48 + d))" for d :: nat
  by (simp add: is_digit_def of_char_of take_bit_eq_mod)

lemma digit_val_char_of [simp]: "d < 10 \<Longrightarrow> digit_val (char_of (48 + d)) = d" for d :: nat
  by (simp add: digit_val_def of_char_of take_bit_eq_mod)

lemma digits_val_append [simp]:
  "digits_val (ds @ [c]) = 10 * digits_val ds + digit_val c"
  by (simp add: digits_val_def)

lemma nat_to_string_nonempty [simp]: "nat_to_string n \<noteq> []"
  by (subst nat_to_string.simps) simp

lemma nat_to_string_digits: "list_all is_digit (nat_to_string n)"
proof (induction n rule: nat_to_string.induct)
  case (1 n)
  then show ?case by (subst nat_to_string.simps) (auto simp del: list_all_iff)
qed

lemma digits_val_nat_to_string [simp]: "digits_val (nat_to_string n) = n"
proof (induction n rule: nat_to_string.induct)
  case (1 n)
  then show ?case
    by (subst nat_to_string.simps) (auto simp: digits_val_def)
qed

lemma hd_nat_to_string: "is_digit (hd (nat_to_string n))"
  using nat_to_string_digits [of n] by (cases "nat_to_string n") auto

lemma parse_int_to_string:
  assumes "- (2 ^ 63) \<le> n" "n < 2 ^ 63"
  shows "parse_i64 (int_to_string n) = Some n"
proof -
  have "hd (nat_to_string m) \<noteq> CHR ''-''" "hd (nat_to_string m) \<noteq> CHR ''+''" for m
    using hd_nat_to_string [of m] by (auto simp: is_digit_def)
  then show ?thesis
    using assms
    by (auto simp: parse_i64_def int_to_string_def Let_def nat_to_string_digits)
qed

end
