(* ===== verification/Sl_Codec.thy ===== *)
theory Sl_Codec
  imports Ontology Float_Text
begin

text \<open>
  The FIPA SL codec (\<open>content/sl_codec.rs\<close>): the encoder and the recursive descent parser.

  A text is a list of characters up to U+00FF, so that \<open>char::is_alphanumeric\<close>,
  \<open>char::is_whitespace\<close> and the UTF-8 length of a character are functions of the model. The
  parser's state is the byte position together with the rest of the input. The code advances the
  position by one after a character it has classified, also where the character takes two
  bytes; the next slice of the input is then not at a character boundary and panics.

  A parser function returns a value and the new state, an error, a panic, or that its fuel is
  used up. Fuel counts nested calls and turns of the loops that consume input by calling the
  parser; the loops over characters need none, but for the one inside string literals, which the
  code can leave running forever.
\<close>

section \<open>Outcomes\<close>

datatype sl_message =
    ExpectedChar char char
  | ExpectedSymbol char
  | UnterminatedString
  | InvalidFloat string
  | InvalidInteger string

datatype codec_error =
    EncodingFailed string
  | DecodingFailed string
  | SyntaxError nat sl_message
  | UnsupportedType string
  | MissingField string

type_synonym parse_state = "nat \<times> string"

datatype 'a outcome = Parsed 'a parse_state | Failed codec_error | Panicked | OutOfFuel

definition pbind ::
    "'a outcome \<Rightarrow> ('a \<Rightarrow> parse_state \<Rightarrow> 'b outcome) \<Rightarrow> 'b outcome" where
  "pbind p f =
     (case p of
        Parsed x s \<Rightarrow> f x s
      | Failed e \<Rightarrow> Failed e
      | Panicked \<Rightarrow> Panicked
      | OutOfFuel \<Rightarrow> OutOfFuel)"

lemma pbind_simps [simp]:
  "pbind (Parsed x s) f = f x s"
  "pbind (Failed e) f = Failed e"
  "pbind Panicked f = Panicked"
  "pbind OutOfFuel f = OutOfFuel"
  by (simp_all add: pbind_def)

section \<open>Characters\<close>

definition code :: "char \<Rightarrow> nat" where
  "code c = of_char c"

definition NUL :: char where
  "NUL = CHR 0x00"

definition is_space :: "char \<Rightarrow> bool" where
  "is_space c \<longleftrightarrow> (9 \<le> code c \<and> code c \<le> 13) \<or> code c = 32 \<or> code c = 0x85 \<or> code c = 0xA0"

definition is_alphanumeric :: "char \<Rightarrow> bool" where
  "is_alphanumeric c \<longleftrightarrow>
     (48 \<le> code c \<and> code c \<le> 57) \<or> (65 \<le> code c \<and> code c \<le> 90) \<or> (97 \<le> code c \<and> code c \<le> 122) \<or>
     code c \<in> {0xAA, 0xB2, 0xB3, 0xB5, 0xB9, 0xBA, 0xBC, 0xBD, 0xBE} \<or>
     (0xC0 \<le> code c \<and> code c \<noteq> 0xD7 \<and> code c \<noteq> 0xF7)"

definition is_symbol_char :: "char \<Rightarrow> bool" where
  "is_symbol_char c \<longleftrightarrow>
     is_alphanumeric c \<or> c = CHR ''-'' \<or> c = CHR ''_'' \<or> c = CHR ''.''"

definition len_utf8 :: "char \<Rightarrow> nat" where
  "len_utf8 c = (if code c < 128 then 1 else 2)"

section \<open>The encoder\<close>

definition escape_char :: "char \<Rightarrow> string" where
  "escape_char c =
     (if c = CHR 0x22 then [CHR 0x5C, CHR 0x22]
      else if c = CHR 0x5C then [CHR 0x5C, CHR 0x5C]
      else if c = CHR 0x0A then [CHR 0x5C, CHR ''n'']
      else if c = CHR 0x09 then [CHR 0x5C, CHR ''t'']
      else [c])"

definition slot_separator :: "bool \<Rightarrow> nat \<Rightarrow> string" where
  "slot_separator pretty indent =
     (if pretty then CHR 0x0A # concat (replicate (indent + 1) ''  '') else '' '')"

fun encode_term :: "bool \<Rightarrow> sl_term \<Rightarrow> string"
  and encode_terms :: "bool \<Rightarrow> sl_term list \<Rightarrow> string"
  and encode_concept :: "bool \<Rightarrow> sl_concept \<Rightarrow> nat \<Rightarrow> string"
  and encode_slots :: "bool \<Rightarrow> string \<Rightarrow> (string \<times> sl_term) list \<Rightarrow> string" where
  "encode_term pretty (TString s) = [CHR 0x22] @ concat (map escape_char s) @ [CHR 0x22]"
| "encode_term pretty (TInteger n) = int_to_string n"
| "encode_term pretty (TFloat f) = f64_to_string f"
| "encode_term pretty (TBoolean b) = (if b then ''true'' else ''false'')"
| "encode_term pretty (TAgentId i) = i"
| "encode_term pretty (TVariable name) = ''?'' @ name"
| "encode_term pretty (TConcept c) = encode_concept pretty c 0"
| "encode_term pretty (TList items) = ''(set'' @ encode_terms pretty items @ '')''"
| "encode_term pretty TNull = ''null''"
| "encode_terms pretty [] = ''''"
| "encode_terms pretty (t # ts) = '' '' @ encode_term pretty t @ encode_terms pretty ts"
| "encode_concept pretty (MkConcept name slots) indent =
     ''('' @ name @ encode_slots pretty (slot_separator pretty indent) slots @ '')''"
| "encode_slots pretty sep [] = ''''"
| "encode_slots pretty sep (kv # kvs) =
     sep @ '':'' @ fst kv @ '' '' @ encode_term pretty (snd kv) @ encode_slots pretty sep kvs"

definition encode_action :: "bool \<Rightarrow> content_action \<Rightarrow> string" where
  "encode_action pretty a =
     ''(action'' @ (case actor a of Some w \<Rightarrow> '' '' @ w | None \<Rightarrow> '''')
       @ '' ('' @ action_name a
       @ encode_slots pretty (if pretty then CHR 0x0A # ''    '' else '' '') (arguments a)
       @ ''))''"

definition encode_predicate :: "bool \<Rightarrow> predicate \<Rightarrow> string" where
  "encode_predicate pretty p =
     ''('' @ pred_name p @ encode_terms pretty (pred_arguments p) @ '')''"

text \<open>\<open>SlCodec::encode\<close>. The code returns a \<open>Result\<close>; no path of it fails.\<close>

fun sl_encode :: "bool \<Rightarrow> content_element \<Rightarrow> string"
  and sl_encode_all :: "bool \<Rightarrow> content_element list \<Rightarrow> string" where
  "sl_encode pretty (CConcept c) = encode_concept pretty c 0"
| "sl_encode pretty (CAction a) = encode_action pretty a"
| "sl_encode pretty (CPredicate p) = encode_predicate pretty p"
| "sl_encode pretty (CProposition inner b) =
     (if b then sl_encode pretty inner else ''(not '' @ sl_encode pretty inner @ '')'')"
| "sl_encode pretty (CIota var c) = ''(iota ?'' @ var @ '' '' @ sl_encode pretty c @ '')''"
| "sl_encode pretty (CAny var c) = ''(any ?'' @ var @ '' '' @ sl_encode pretty c @ '')''"
| "sl_encode pretty (CAll var c) = ''(all ?'' @ var @ '' '' @ sl_encode pretty c @ '')''"
| "sl_encode pretty (CSequence es) = ''(sequence'' @ sl_encode_all pretty es @ '')''"
| "sl_encode pretty (CRaw s) = [CHR 0x22] @ s @ [CHR 0x22]"
| "sl_encode_all pretty [] = ''''"
| "sl_encode_all pretty (e # es) = '' '' @ sl_encode pretty e @ sl_encode_all pretty es"

section \<open>The parser: characters\<close>

definition peek_char :: "parse_state \<Rightarrow> char" where
  "peek_char s = (case snd s of [] \<Rightarrow> NUL | c # _ \<Rightarrow> c)"

definition next_char :: "parse_state \<Rightarrow> char \<times> parse_state" where
  "next_char s =
     (let c = peek_char s
      in if c \<noteq> NUL then (c, (fst s + len_utf8 c, tl (snd s))) else (c, s))"

definition expect_char :: "char \<Rightarrow> parse_state \<Rightarrow> unit outcome" where
  "expect_char expected s =
     (let c = peek_char s
      in if c = expected then Parsed () (fst s + 1, tl (snd s))
         else Failed (SyntaxError (fst s) (ExpectedChar expected c)))"

text \<open>
  \<open>skip_comment\<close> is the inner loop of \<open>skip_whitespace\<close>, which skips a comment to the end of
  its line.
\<close>

fun skip_comment :: "nat \<Rightarrow> string \<Rightarrow> unit outcome" where
  "skip_comment p [] = Parsed () (p, [])"
| "skip_comment p (c # cs) =
     (if c = CHR 0x0A then Parsed () (p, c # cs)
      else if len_utf8 c \<noteq> 1 then Panicked
      else skip_comment (p + 1) cs)"

lemma skip_comment_shorter: "skip_comment p cs = Parsed u (p', cs') \<Longrightarrow> length cs' \<le> length cs"
  by (induction p cs rule: skip_comment.induct) (auto split: if_splits)

function skip_whitespace :: "parse_state \<Rightarrow> unit outcome" where
  "skip_whitespace (p, []) = Parsed () (p, [])"
| "skip_whitespace (p, c # cs) =
     (if is_space c then
        if len_utf8 c \<noteq> 1 then Panicked else skip_whitespace (p + 1, cs)
      else if c = CHR '';'' then
        (case skip_comment (p + 1) cs of
           Parsed _ (p', cs') \<Rightarrow> skip_whitespace (p', cs')
         | Failed e \<Rightarrow> Failed e
         | Panicked \<Rightarrow> Panicked
         | OutOfFuel \<Rightarrow> OutOfFuel)
      else Parsed () (p, c # cs))"
  by pat_completeness auto

termination skip_whitespace
  by (relation "measure (\<lambda>(p, cs). length cs)")
    (auto dest: skip_comment_shorter simp: less_Suc_eq_le)

section \<open>The parser: tokens\<close>

text \<open>The loop of \<open>parse_symbol\<close>: the symbol read so far and the state after it.\<close>

fun symbol_loop :: "string \<Rightarrow> nat \<Rightarrow> string \<Rightarrow> string outcome" where
  "symbol_loop acc p [] = Parsed acc (p, [])"
| "symbol_loop acc p (c # cs) =
     (if is_symbol_char c then
        if len_utf8 c \<noteq> 1 then Panicked else symbol_loop (acc @ [c]) (p + 1) cs
      else Parsed acc (p, c # cs))"

definition parse_symbol :: "parse_state \<Rightarrow> string outcome" where
  "parse_symbol s =
     pbind (symbol_loop '''' (fst s) (snd s))
       (\<lambda>result s'.
          if result = '''' then Failed (SyntaxError (fst s') (ExpectedSymbol (peek_char s')))
          else Parsed result s')"

definition unescape :: "char \<Rightarrow> char" where
  "unescape c =
     (if c = CHR ''n'' then CHR 0x0A
      else if c = CHR ''t'' then CHR 0x09
      else if c = CHR ''r'' then CHR 0x0D
      else c)"

text \<open>
  The loop of \<open>parse_string\<close>. \<open>next_char\<close> does not move past a NUL character, so the loop turns
  forever there: it is the one loop over characters that needs fuel.
\<close>

fun string_loop :: "nat \<Rightarrow> string \<Rightarrow> parse_state \<Rightarrow> string outcome" where
  "string_loop 0 acc s = OutOfFuel"
| "string_loop (Suc n) acc s =
     (if snd s = [] then Failed (SyntaxError (fst s) UnterminatedString)
      else
        (case next_char s of (c, s1) \<Rightarrow>
           if c = CHR 0x22 then Parsed acc s1
           else if c = CHR 0x5C then
             (case next_char s1 of (e, s2) \<Rightarrow> string_loop n (acc @ [unescape e]) s2)
           else string_loop n (acc @ [c]) s1))"

definition parse_string :: "nat \<Rightarrow> parse_state \<Rightarrow> string outcome" where
  "parse_string n s = pbind (expect_char (CHR 0x22) s) (\<lambda>_ s'. string_loop n '''' s')"

text \<open>
  The loop of \<open>parse_number\<close>: the number's text so far, whether it is a floating point literal,
  and the state.
\<close>

fun number_loop :: "string \<Rightarrow> bool \<Rightarrow> nat \<Rightarrow> string \<Rightarrow> (string \<times> bool) \<times> parse_state" where
  "number_loop acc is_float p [] = ((acc, is_float), (p, []))"
| "number_loop acc is_float p (c # cs) =
     (if is_digit c then number_loop (acc @ [c]) is_float (p + 1) cs
      else if c = CHR ''.'' \<and> \<not> is_float then number_loop (acc @ [c]) True (p + 1) cs
      else if c = CHR ''e'' \<or> c = CHR ''E'' then
        (case cs of
           d # ds \<Rightarrow>
             if d = CHR ''+'' \<or> d = CHR ''-'' then number_loop (acc @ [c, d]) True (p + 2) ds
             else number_loop (acc @ [c]) True (p + 1) cs
         | [] \<Rightarrow> number_loop (acc @ [c]) True (p + 1) [])
      else ((acc, is_float), (p, c # cs)))"

definition parse_number :: "parse_state \<Rightarrow> sl_term outcome" where
  "parse_number s =
     (let start = fst s;
          neg = (peek_char s = CHR ''-'')
      in case number_loop (if neg then ''-'' else '''') False
                (if neg then start + 1 else start) (if neg then tl (snd s) else snd s) of
           ((num_str, is_float), s') \<Rightarrow>
             if is_float then
               (case parse_f64 num_str of
                  Some f \<Rightarrow> Parsed (TFloat f) s'
                | None \<Rightarrow> Failed (SyntaxError start (InvalidFloat num_str)))
             else
               (case parse_i64 num_str of
                  Some i \<Rightarrow> Parsed (TInteger i) s'
                | None \<Rightarrow> Failed (SyntaxError start (InvalidInteger num_str))))"

section \<open>The parser: terms\<close>

text \<open>
  \<open>parse_slots\<close> is the loop that reads slots into a map, \<open>parse_items\<close> the one that reads
  terms into a list. They and \<open>parse_slot\<close> call \<open>parse_term\<close>, which calls them: each takes the
  parser of terms as an argument, and \<open>parse_term\<close> passes itself with less fuel.
\<close>

type_synonym term_parser = "parse_state \<Rightarrow> sl_term outcome"

definition parse_slot :: "term_parser \<Rightarrow> parse_state \<Rightarrow> (string \<times> sl_term) outcome" where
  "parse_slot term s =
     pbind (expect_char (CHR '':'') s) (\<lambda>_ s.
     pbind (parse_symbol s) (\<lambda>name s.
     pbind (skip_whitespace s) (\<lambda>_ s.
     pbind (term s) (\<lambda>val s.
     pbind (skip_whitespace s) (\<lambda>_ s. Parsed (name, val) s)))))"

primrec parse_slots ::
    "nat \<Rightarrow> term_parser \<Rightarrow> (string, sl_term) hashmap \<Rightarrow> parse_state \<Rightarrow>
       (string, sl_term) hashmap outcome" where
  "parse_slots 0 term slots s = OutOfFuel"
| "parse_slots (Suc n) term slots s =
     (if peek_char s = CHR '':'' then
        pbind (parse_slot term s) (\<lambda>kv s.
        pbind (skip_whitespace s) (\<lambda>_ s.
          parse_slots n term (hm_insert (fst kv) (snd kv) slots) s))
      else Parsed slots s)"

primrec parse_items ::
    "nat \<Rightarrow> term_parser \<Rightarrow> sl_term list \<Rightarrow> parse_state \<Rightarrow> sl_term list outcome" where
  "parse_items 0 term items s = OutOfFuel"
| "parse_items (Suc n) term items s =
     (if peek_char s \<noteq> CHR '')'' \<and> snd s \<noteq> [] then
        pbind (term s) (\<lambda>t s.
        pbind (skip_whitespace s) (\<lambda>_ s.
          parse_items n term (items @ [t]) s))
      else Parsed items s)"

text \<open>The branch of \<open>parse_term\<close> for a list or a nested concept.\<close>

definition parse_nested :: "nat \<Rightarrow> term_parser \<Rightarrow> term_parser" where
  "parse_nested n term s =
     pbind (skip_whitespace (snd (next_char s))) (\<lambda>_ s.
     pbind (parse_symbol s) (\<lambda>head s.
     pbind (skip_whitespace s) (\<lambda>_ s.
       if head = ''set'' \<or> head = ''sequence'' then
         pbind (parse_items n term [] s) (\<lambda>items s.
         pbind (expect_char (CHR '')'') s) (\<lambda>_ s. Parsed (TList items) s))
       else
         pbind (parse_slots n term [] s) (\<lambda>slots s.
         pbind (expect_char (CHR '')'') s) (\<lambda>_ s. Parsed (TConcept (MkConcept head slots)) s)))))"

definition word_term :: "string \<Rightarrow> sl_term" where
  "word_term symbol =
     (if symbol = ''true'' then TBoolean True
      else if symbol = ''false'' then TBoolean False
      else if symbol = ''null'' then TNull
      else TAgentId symbol)"

primrec parse_term :: "nat \<Rightarrow> parse_state \<Rightarrow> sl_term outcome" where
  "parse_term 0 s = OutOfFuel"
| "parse_term (Suc n) s =
     pbind (skip_whitespace s) (\<lambda>_ s.
       let c = peek_char s in
       if c = CHR 0x22 then pbind (parse_string n s) (\<lambda>str s. Parsed (TString str) s)
       else if c = CHR ''?'' then
         pbind (parse_symbol (snd (next_char s))) (\<lambda>name s. Parsed (TVariable name) s)
       else if c = CHR ''('' then parse_nested n (parse_term n) s
       else if c = CHR ''-'' \<or> is_digit c then parse_number s
       else if c = CHR ''t'' \<or> c = CHR ''f'' \<or> c = CHR ''n'' then
         pbind (parse_symbol s) (\<lambda>symbol s. Parsed (word_term symbol) s)
       else pbind (parse_symbol s) (\<lambda>symbol s. Parsed (TAgentId symbol) s))"

section \<open>The parser: content elements\<close>

definition parse_action_body :: "nat \<Rightarrow> parse_state \<Rightarrow> content_element outcome" where
  "parse_action_body n s =
     pbind (skip_whitespace s) (\<lambda>_ s.
     pbind (if peek_char s \<noteq> CHR ''('' then pbind (parse_symbol s) (\<lambda>w s. Parsed (Some w) s)
            else Parsed None s) (\<lambda>who s.
     pbind (skip_whitespace s) (\<lambda>_ s.
     pbind (expect_char (CHR ''('') s) (\<lambda>_ s.
     pbind (skip_whitespace s) (\<lambda>_ s.
     pbind (parse_symbol s) (\<lambda>name s.
     pbind (skip_whitespace s) (\<lambda>_ s.
     pbind (parse_slots n (parse_term n) [] s) (\<lambda>args s.
     pbind (expect_char (CHR '')'') s) (\<lambda>_ s.
     pbind (skip_whitespace s) (\<lambda>_ s.
     pbind (expect_char (CHR '')'') s) (\<lambda>_ s.
       Parsed (CAction \<lparr>action_name = name, actor = who, arguments = args\<rparr>) s)))))))))))"

definition parse_concept_or_predicate ::
    "nat \<Rightarrow> string \<Rightarrow> parse_state \<Rightarrow> content_element outcome" where
  "parse_concept_or_predicate n name s =
     pbind (skip_whitespace s) (\<lambda>_ s.
       if peek_char s = CHR '':'' then
         pbind (parse_slots n (parse_term n) [] s) (\<lambda>slots s.
         pbind (expect_char (CHR '')'') s) (\<lambda>_ s. Parsed (CConcept (MkConcept name slots)) s))
       else if peek_char s = CHR '')'' then
         pbind (expect_char (CHR '')'') s) (\<lambda>_ s. Parsed (CConcept (concept_new name)) s)
       else
         pbind (parse_items n (parse_term n) [] s) (\<lambda>args s.
         pbind (expect_char (CHR '')'') s) (\<lambda>_ s.
           Parsed (CPredicate \<lparr>pred_name = name, pred_arguments = args\<rparr>) s)))"

text \<open>
  \<open>format!("{:?}", term)\<close>, for the terms that reach it: texts in them are symbols, which
  \<open>Debug\<close> only puts in quotes.
\<close>

definition quoted :: "string \<Rightarrow> string" where
  "quoted s = [CHR 0x22] @ s @ [CHR 0x22]"

definition term_debug :: "sl_term \<Rightarrow> string" where
  "term_debug t =
     (case t of
        TVariable x \<Rightarrow> ''Variable('' @ quoted x @ '')''
      | TAgentId x \<Rightarrow> ''AgentId('' @ quoted x @ '')''
      | TString x \<Rightarrow> ''String('' @ quoted x @ '')''
      | TInteger n \<Rightarrow> ''Integer('' @ int_to_string n @ '')''
      | TFloat f \<Rightarrow> ''Float('' @ f64_debug f @ '')''
      | TBoolean b \<Rightarrow> ''Boolean('' @ (if b then ''true'' else ''false'') @ '')''
      | _ \<Rightarrow> ''Null'')"

type_synonym element_parser = "parse_state \<Rightarrow> content_element outcome"

definition parse_referential ::
    "element_parser \<Rightarrow> (string \<Rightarrow> content_element \<Rightarrow> content_element) \<Rightarrow> element_parser" where
  "parse_referential expression kind s =
     pbind (skip_whitespace s) (\<lambda>_ s.
     pbind (expect_char (CHR ''?'') s) (\<lambda>_ s.
     pbind (parse_symbol s) (\<lambda>var_name s.
     pbind (skip_whitespace s) (\<lambda>_ s.
     pbind (expression s) (\<lambda>condition s.
     pbind (skip_whitespace s) (\<lambda>_ s.
     pbind (expect_char (CHR '')'') s) (\<lambda>_ s. Parsed (kind var_name condition) s)))))))"

definition parse_not :: "element_parser \<Rightarrow> element_parser" where
  "parse_not expression s =
     pbind (skip_whitespace s) (\<lambda>_ s.
     pbind (expression s) (\<lambda>inner s.
     pbind (skip_whitespace s) (\<lambda>_ s.
     pbind (expect_char (CHR '')'') s) (\<lambda>_ s. Parsed (CProposition inner False) s))))"

primrec parse_elements ::
    "nat \<Rightarrow> element_parser \<Rightarrow> content_element list \<Rightarrow> parse_state \<Rightarrow>
       content_element list outcome" where
  "parse_elements 0 expression elements s = OutOfFuel"
| "parse_elements (Suc n) expression elements s =
     (if peek_char s \<noteq> CHR '')'' \<and> snd s \<noteq> [] then
        pbind (expression s) (\<lambda>elem s.
        pbind (skip_whitespace s) (\<lambda>_ s.
          parse_elements n expression (elements @ [elem]) s))
      else Parsed elements s)"

definition parse_sequence :: "nat \<Rightarrow> element_parser \<Rightarrow> element_parser" where
  "parse_sequence n expression s =
     pbind (skip_whitespace s) (\<lambda>_ s.
     pbind (parse_elements n expression [] s) (\<lambda>elements s.
     pbind (expect_char (CHR '')'') s) (\<lambda>_ s. Parsed (CSequence elements) s)))"

text \<open>The dispatch on the head symbol in \<open>parse_list_expression\<close>.\<close>

definition parse_headed :: "nat \<Rightarrow> element_parser \<Rightarrow> string \<Rightarrow> element_parser" where
  "parse_headed n expression head s =
     (if head = ''action'' then parse_action_body n s
      else if head = ''iota'' then parse_referential expression CIota s
      else if head = ''any'' then parse_referential expression CAny s
      else if head = ''all'' then parse_referential expression CAll s
      else if head = ''not'' then parse_not expression s
      else if head = ''sequence'' \<or> head = ''set'' then parse_sequence n expression s
      else parse_concept_or_predicate n head s)"

definition parse_list_expression :: "nat \<Rightarrow> element_parser \<Rightarrow> element_parser" where
  "parse_list_expression n expression s =
     pbind (expect_char (CHR ''('') s) (\<lambda>_ s.
     pbind (skip_whitespace s) (\<lambda>_ s.
     pbind (parse_symbol s) (\<lambda>head s.
     pbind (skip_whitespace s) (\<lambda>_ s.
       parse_headed n expression head s))))"

primrec parse_expression :: "nat \<Rightarrow> parse_state \<Rightarrow> content_element outcome" where
  "parse_expression 0 s = OutOfFuel"
| "parse_expression (Suc n) s =
     pbind (skip_whitespace s) (\<lambda>_ s.
       let c = peek_char s in
       if c = CHR ''('' then parse_list_expression n (parse_expression n) s
       else if c = CHR 0x22 then pbind (parse_string n s) (\<lambda>str s. Parsed (CRaw str) s)
       else
         pbind (parse_term n s) (\<lambda>t s.
           case t of
             TConcept c \<Rightarrow> Parsed (CConcept c) s
           | _ \<Rightarrow> Parsed (CRaw (term_debug t)) s))"

text \<open>\<open>SlParser::parse\<close> on a fresh parser, which is \<open>SlCodec::decode\<close>.\<close>

definition sl_parse :: "nat \<Rightarrow> string \<Rightarrow> content_element outcome" where
  "sl_parse n input =
     pbind (skip_whitespace (0, input)) (\<lambda>_ s.
       if snd s = [] then Failed (DecodingFailed ''Empty input'') else parse_expression n s)"

text \<open>The result of \<open>decode\<close>; the parser and what it left of the input are dropped.\<close>

datatype decode_result = Decoded_Ok content_element | Decode_Err codec_error | Decode_Panic | Decode_Runs

definition sl_decode :: "nat \<Rightarrow> string \<Rightarrow> decode_result" where
  "sl_decode n input =
     (case sl_parse n input of
        Parsed e _ \<Rightarrow> Decoded_Ok e
      | Failed e \<Rightarrow> Decode_Err e
      | Panicked \<Rightarrow> Decode_Panic
      | OutOfFuel \<Rightarrow> Decode_Runs)"

end
