(* ===== verification/Sl_Decoding.thy ===== *)
theory Sl_Decoding
  imports Sl_Codec
begin

text \<open>
  What the SL parser does on every input: it returns, and it does not panic, on ASCII text
  without a NUL character; it panics and it runs forever on particular texts that are not.
\<close>

section \<open>Parsers return\<close>

abbreviation len :: "parse_state \<Rightarrow> nat" where
  "len s \<equiv> length (snd s)"

text \<open>
  \<open>clean a s\<close>: the rest of the input has no NUL character, and only ASCII characters if \<open>a\<close>
  holds. \<open>returns a l r\<close>: the outcome is not for want of fuel, is no panic if \<open>a\<close> holds, and
  if it is a value, the rest of the input is clean and no longer than \<open>l\<close>.
\<close>

definition clean_text :: "bool \<Rightarrow> string \<Rightarrow> bool" where
  "clean_text a cs \<longleftrightarrow> NUL \<notin> set cs \<and> (a \<longrightarrow> (\<forall>c\<in>set cs. code c < 128))"

abbreviation clean :: "bool \<Rightarrow> parse_state \<Rightarrow> bool" where
  "clean a s \<equiv> clean_text a (snd s)"

definition returns :: "bool \<Rightarrow> nat \<Rightarrow> 'a outcome \<Rightarrow> bool" where
  "returns a l r \<longleftrightarrow>
     (case r of
        Parsed _ s \<Rightarrow> clean a s \<and> len s \<le> l
      | Failed _ \<Rightarrow> True
      | Panicked \<Rightarrow> \<not> a
      | OutOfFuel \<Rightarrow> False)"

named_theorems returns_intros \<open>binds of parsers that return\<close>

lemma clean_text_Cons [simp]:
  "clean_text a (c # cs) \<longleftrightarrow> c \<noteq> NUL \<and> (a \<longrightarrow> code c < 128) \<and> clean_text a cs"
  by (auto simp: clean_text_def)

lemma clean_text_Nil [simp]: "clean_text a []"
  by (simp add: clean_text_def)

lemma clean_text_tl: "clean_text a cs \<Longrightarrow> clean_text a (tl cs)"
  by (cases cs) simp_all

lemma returns_Parsed [simp]: "returns a l (Parsed x s) \<longleftrightarrow> clean a s \<and> len s \<le> l"
  by (simp add: returns_def)

lemma returns_Failed [simp]: "returns a l (Failed e)"
  by (simp add: returns_def)

lemma returns_Panicked [simp]: "returns a l Panicked \<longleftrightarrow> \<not> a"
  by (simp add: returns_def)

lemma returns_mono: "returns a l r \<Longrightarrow> l \<le> m \<Longrightarrow> returns a m r"
  by (auto simp: returns_def split: outcome.splits)

lemma returns_OutOfFuel [simp]: "\<not> returns a l OutOfFuel"
  by (simp add: returns_def)

lemma returns_bind:
  assumes "returns a l p" "\<And>x s. clean a s \<Longrightarrow> len s \<le> l \<Longrightarrow> returns a m (f x s)"
  shows "returns a m (pbind p f)"
  using assms by (cases p) simp_all

lemma peek_Cons [simp]: "peek_char (p, c # cs) = c"
  by (simp add: peek_char_def)

lemma peek_Nil [simp]: "peek_char (p, []) = NUL"
  by (simp add: peek_char_def)

lemma peek_nonempty: "peek_char s \<noteq> NUL \<Longrightarrow> snd s \<noteq> []"
  by (auto simp: peek_char_def)

section \<open>Tokens\<close>

lemma skip_comment_returns: "clean_text a cs \<Longrightarrow> returns a (length cs) (skip_comment p cs)"
  by (induction p cs rule: skip_comment.induct)
    (auto simp: len_utf8_def intro: returns_mono)

lemma skip_whitespace_returns: "clean a s \<Longrightarrow> returns a (len s) (skip_whitespace s)"
proof (induction s rule: skip_whitespace.induct)
  case (2 p c cs)
  show ?case
  proof (cases "is_space c \<or> c \<noteq> CHR '';''")
    case True
    then show ?thesis using 2(1,3) by (auto simp: len_utf8_def intro: returns_mono)
  next
    case False
    have comment: "returns a (length cs) (skip_comment (p + 1) cs)"
      using 2(3) by (simp add: skip_comment_returns)
    show ?thesis
    proof (cases "skip_comment (p + 1) cs")
      case (Parsed u s')
      obtain p' cs' where s': "s' = (p', cs')" by (cases s')
      have shorter: "length cs' \<le> Suc (length cs)" and "clean_text a cs'"
        using comment Parsed s' by simp_all
      have nospace: "\<not> is_space c" and semicolon: "c = CHR '';''" using False by blast+
      from 2(2) [OF nospace semicolon Parsed s' [symmetric]] \<open>clean_text a cs'\<close>
      have "returns a (length cs') (skip_whitespace (p', cs'))" by simp
      from returns_mono [OF this shorter] show ?thesis using False Parsed s' by (simp add: is_space_def code_def)
    qed (use False comment in \<open>simp_all add: is_space_def code_def\<close>)
  qed
qed simp

lemma returns_Suc: "returns a l r \<Longrightarrow> returns a (Suc l) r"
  by (erule returns_mono) simp

lemma symbol_loop_returns:
  "clean_text a cs \<Longrightarrow> returns a (length cs) (symbol_loop acc p cs)"
  by (induction acc p cs rule: symbol_loop.induct) (auto simp: len_utf8_def intro: returns_Suc)

lemma symbol_loop_result:
  "symbol_loop acc p cs = Parsed r s \<Longrightarrow> length r + len s = length acc + length cs"
  by (induction acc p cs rule: symbol_loop.induct) (auto split: if_splits)

lemma parse_symbol_returns:
  assumes "clean a s"
  shows "returns a (len s - 1) (parse_symbol s)"
proof (cases "symbol_loop '''' (fst s) (snd s)")
  case (Parsed r s')
  have "returns a (len s) (Parsed r s')"
    using symbol_loop_returns [OF assms, of "''''" "fst s"] Parsed by simp
  moreover have "length r + len s' = len s" using symbol_loop_result [OF Parsed] by simp
  ultimately show ?thesis using Parsed by (cases r) (auto simp: parse_symbol_def)
next
  case Panicked
  then show ?thesis
    using symbol_loop_returns [OF assms, of "''''" "fst s"] by (simp add: parse_symbol_def)
next
  case OutOfFuel
  then show ?thesis
    using symbol_loop_returns [OF assms, of "''''" "fst s"] by (simp add: parse_symbol_def)
qed (simp add: parse_symbol_def)

lemma expect_char_returns:
  assumes "clean a s" "c \<noteq> NUL"
  shows "returns a (len s - 1) (expect_char c s)"
  using assms by (auto simp: expect_char_def Let_def clean_text_tl)

lemma next_char_clean:
  assumes "clean a s" "snd s \<noteq> []"
  shows "clean a (snd (next_char s))" "len (snd (next_char s)) = len s - 1"
  using assms by (cases s; cases "snd s"; simp add: next_char_def Let_def)+

lemma string_loop_returns:
  "clean a s \<Longrightarrow> len s < n \<Longrightarrow> returns a (len s - 1) (string_loop n acc s)"
proof (induction n arbitrary: acc s)
  case (Suc n)
  show ?case
  proof (cases "snd s = []")
    case False
    obtain c s1 where c: "next_char s = (c, s1)" by (cases "next_char s")
    have s1: "clean a s1" "len s1 = len s - 1"
      using next_char_clean [OF Suc.prems(1) False] c by simp_all
    obtain e s2 where e: "next_char s1 = (e, s2)" by (cases "next_char s1")
    have s2: "clean a s2" "len s2 \<le> len s1"
      using next_char_clean [OF s1(1)] e s1(1)
      by (cases "snd s1 = []"; auto simp: next_char_def peek_char_def)+
    have "len s \<noteq> 0" using False by simp
    then have less: "len s1 < n" "len s2 < n" "len s1 - 1 \<le> len s - 1" "len s2 - 1 \<le> len s - 1"
      using s1(2) s2(2) Suc.prems(2) by linarith+
    have "returns a (len s - 1) (string_loop n acc' s1)" for acc'
      using Suc.IH [OF s1(1) less(1), of acc'] less(3) by (rule returns_mono)
    moreover have "returns a (len s - 1) (string_loop n acc' s2)" for acc'
      using Suc.IH [OF s2(1) less(2), of acc'] less(4) by (rule returns_mono)
    ultimately show ?thesis using c e s1 by simp
  qed simp
qed simp

lemma parse_string_returns:
  assumes "clean a s" "len s \<le> n"
  shows "returns a (len s - 1) (parse_string n s)"
proof (cases "snd s")
  case Nil
  then show ?thesis by (simp add: parse_string_def expect_char_def peek_char_def NUL_def)
next
  case (Cons c cs)
  show ?thesis
    unfolding parse_string_def
  proof (rule returns_bind [OF expect_char_returns [OF assms(1)]])
    show "CHR 0x22 \<noteq> NUL" by (simp add: NUL_def)
    fix x s' assume "clean a s'" "len s' \<le> len s - 1"
    then show "returns a (len s - 1) (string_loop n '''' s')"
      using string_loop_returns [of a s' n "''''"] assms(2) Cons by (auto intro: returns_mono)
  qed
qed

lemma number_loop_returns:
  "clean_text a cs \<Longrightarrow> number_loop acc fl p cs = (r, s) \<Longrightarrow> clean a s \<and> len s \<le> length cs"
proof (induction acc fl p cs arbitrary: r s rule: number_loop.induct)
  case (2 acc fl p c cs)
  note step = 2
  consider "is_digit c" | "\<not> is_digit c" "c = CHR ''.'' \<and> \<not> fl"
    | "\<not> is_digit c" "\<not> (c = CHR ''.'' \<and> \<not> fl)" "c = CHR ''e'' \<or> c = CHR ''E''"
    | "\<not> is_digit c" "\<not> (c = CHR ''.'' \<and> \<not> fl)" "\<not> (c = CHR ''e'' \<or> c = CHR ''E'')"
    by blast
  then show ?case
  proof cases
    case 1
    with step(1,6,7) show ?thesis by (auto intro: le_SucI)
  next
    case 2
    with step(2,6,7) show ?thesis by (auto intro: le_SucI)
  next
    case 3
    then show ?thesis
    proof (cases cs)
      case Nil
      with 3 step(3) [OF 3 Nil] step(6,7) show ?thesis by (auto split: if_splits)
    next
      case (Cons d ds)
      note plus = step(4) [OF 3 Cons] and other = step(5) [OF 3 Cons]
      have eq: "number_loop acc fl p (c # cs) =
          (if d = CHR ''+'' \<or> d = CHR ''-'' then number_loop (acc @ [c, d]) True (p + 2) ds
           else number_loop (acc @ [c]) True (p + 1) cs)"
        using 3 Cons by (simp only: number_loop.simps if_False if_True list.case)
      show ?thesis
      proof (cases "d = CHR ''+'' \<or> d = CHR ''-''")
        case True
        from plus [OF True, of r s] step(6,7) Cons eq True show ?thesis by auto
      next
        case False
        from other [OF False, of r s] step(6,7) Cons eq False show ?thesis by auto
      qed
    qed
  next
    case 4
    with step(6,7) show ?thesis by auto
  qed
qed auto

lemma parse_number_returns:
  assumes "clean a s" "peek_char s = CHR ''-'' \<or> is_digit (peek_char s)"
  shows "returns a (len s - 1) (parse_number s)"
proof (cases "snd s")
  case Nil
  then show ?thesis using assms(2) by (simp add: peek_char_def NUL_def is_digit_def)
next
  case (Cons c cs)
  let ?neg = "peek_char s = CHR ''-''"
  obtain str fl s' where loop: "number_loop (if ?neg then ''-'' else '''') False
      (if ?neg then fst s + 1 else fst s) (if ?neg then tl (snd s) else snd s) = ((str, fl), s')"
    by (metis prod.exhaust)
  have "clean a s' \<and> len s' \<le> len s - 1"
  proof (cases ?neg)
    case True
    then show ?thesis
      using number_loop_returns [OF clean_text_tl [OF assms(1)]] loop by simp
  next
    case False
    then have "is_digit c" using assms(2) Cons by (cases s) simp
    with False loop Cons have "number_loop [c] False (fst s + 1) cs = ((str, fl), s')" by simp
    then show ?thesis using number_loop_returns [of a cs] assms(1) Cons by simp
  qed
  then show ?thesis using loop by (simp add: parse_number_def Let_def split: option.split)
qed

section \<open>Terms and content elements\<close>

text \<open>The binds of the token parsers, in the form in which the proofs below apply them.\<close>

lemma returns_bind_skip [returns_intros]:
  assumes "clean a s" "\<And>s'. clean a s' \<Longrightarrow> len s' \<le> len s \<Longrightarrow> returns a m (f () s')"
  shows "returns a m (pbind (skip_whitespace s) f)"
  by (rule returns_bind [OF skip_whitespace_returns]) (use assms in simp_all)

lemma returns_bind_symbol [returns_intros]:
  assumes "clean a s" "\<And>x s'. clean a s' \<Longrightarrow> len s' \<le> len s - 1 \<Longrightarrow> returns a m (f x s')"
  shows "returns a m (pbind (parse_symbol s) f)"
  by (rule returns_bind [OF parse_symbol_returns]) (use assms in simp_all)

lemma returns_bind_expect [returns_intros]:
  assumes "clean a s" "c \<noteq> NUL" "\<And>s'. clean a s' \<Longrightarrow> len s' \<le> len s - 1 \<Longrightarrow> returns a m (f () s')"
  shows "returns a m (pbind (expect_char c s) f)"
  by (rule returns_bind [OF expect_char_returns]) (use assms in simp_all)

lemma returns_bind_string [returns_intros]:
  assumes "clean a s" "len s \<le> n"
    and "\<And>x s'. clean a s' \<Longrightarrow> len s' \<le> len s - 1 \<Longrightarrow> returns a m (f x s')"
  shows "returns a m (pbind (parse_string n s) f)"
  by (rule returns_bind [OF parse_string_returns]) (use assms in simp_all)

text \<open>A parser of terms that returns on every clean state of length below \<open>n\<close>.\<close>

definition parser_returns :: "bool \<Rightarrow> nat \<Rightarrow> (parse_state \<Rightarrow> 'a outcome) \<Rightarrow> bool" where
  "parser_returns a n pt \<longleftrightarrow> (\<forall>s. clean a s \<longrightarrow> len s < n \<longrightarrow> returns a (len s - 1) (pt s))"

lemma parser_returnsD:
  "parser_returns a n pt \<Longrightarrow> clean a s \<Longrightarrow> len s < n \<Longrightarrow> returns a (len s - 1) (pt s)"
  unfolding parser_returns_def by blast

lemma returns_bind_parser [returns_intros]:
  assumes "parser_returns a n pt" "clean a s" "len s < n"
    and "\<And>x s'. clean a s' \<Longrightarrow> len s' \<le> len s - 1 \<Longrightarrow> returns a m (f x s')"
  shows "returns a m (pbind (pt s) f)"
  by (rule returns_bind [OF parser_returnsD [OF assms(1-3)]]) (rule assms(4))

lemma char_neq_NUL [simp]:
  "CHR 0x22 \<noteq> NUL" "CHR '':'' \<noteq> NUL" "CHR '')'' \<noteq> NUL" "CHR ''('' \<noteq> NUL" "CHR ''?'' \<noteq> NUL"
  by (simp_all add: NUL_def)

lemma parse_slot_returns:
  assumes "parser_returns a n pt" "clean a s" "len s \<le> n" "0 < n"
  shows "returns a (len s - 1) (parse_slot pt s)"
  unfolding parse_slot_def
  by (intro returns_bind_expect returns_bind_symbol returns_bind_skip
      returns_bind_parser [OF assms(1)] assms(2)) (use assms(3,4) in auto)

lemma parse_slots_returns:
  "\<lbrakk>parser_returns a n pt; clean a s; len s \<le> n; 0 < n; len s < m\<rbrakk> \<Longrightarrow>
     returns a (len s) (parse_slots m pt slots s)"
proof (induction m arbitrary: slots s)
  case (Suc m)
  show ?case
  proof (cases "peek_char s = CHR '':''")
    case True
    then have "snd s \<noteq> []" by (intro peek_nonempty) simp
    then have pos: "0 < len s" by simp
    have "returns a (len s) (pbind (parse_slot pt s) (\<lambda>kv s.
        pbind (skip_whitespace s) (\<lambda>_. parse_slots m pt (hm_insert (fst kv) (snd kv) slots))))"
    proof (rule returns_bind [OF parse_slot_returns [OF Suc.prems(1-4)]], rule returns_bind_skip)
      fix x s1 s2 assume s: "clean a s1" "len s1 \<le> len s - 1" "clean a s2" "len s2 \<le> len s1"
      then have "len s2 \<le> n" "len s2 < m" "len s2 \<le> len s" using Suc.prems pos by linarith+
      then show "returns a (len s) (parse_slots m pt (hm_insert (fst x) (snd x) slots) s2)"
        by (intro returns_mono [OF Suc.IH [OF Suc.prems(1) s(3) _ Suc.prems(4)]]) 
    qed
    with True show ?thesis by simp
  qed (use Suc.prems in simp)
qed simp

lemma loop_returns:
  assumes turn: "\<And>s. snd s \<noteq> [] \<Longrightarrow> clean a s \<Longrightarrow> len s < n \<Longrightarrow> returns a (len s - 1) (pt s)"
    and step: "\<And>m items s. loop (Suc m) items s =
        (if peek_char s \<noteq> CHR '')'' \<and> snd s \<noteq> [] then
           pbind (pt s) (\<lambda>t s. pbind (skip_whitespace s) (\<lambda>_ s. loop m (items @ [t]) s))
         else Parsed items s)"
  shows "\<lbrakk>clean a s; len s < n; len s < m\<rbrakk> \<Longrightarrow> returns a (len s) (loop m items s)"
proof (induction m arbitrary: items s)
  case (Suc m)
  show ?case
  proof (cases "peek_char s \<noteq> CHR '')'' \<and> snd s \<noteq> []")
    case True
    then have pos: "0 < len s" by simp
    have "returns a (len s)
      (pbind (pt s) (\<lambda>t s. pbind (skip_whitespace s) (\<lambda>_ s. loop m (items @ [t]) s)))"
    proof (rule returns_bind [OF turn], (use True Suc.prems in simp_all)[3], rule returns_bind_skip)
      fix x s1 s2 assume s: "clean a s1" "len s1 \<le> len s - 1" "clean a s2" "len s2 \<le> len s1"
      then have "len s2 < n" "len s2 < m" "len s2 \<le> len s" using Suc.prems pos by linarith+
      then show "returns a (len s) (loop m (items @ [x]) s2)"
        using returns_mono [OF Suc.IH [OF s(3)]] by blast
    qed
    with True show ?thesis by (simp add: step)
  qed (use Suc.prems in \<open>auto simp: step\<close>)
qed simp

lemma parse_items_returns:
  assumes "parser_returns a n pt" "clean a s" "len s < n" "len s < m"
  shows "returns a (len s) (parse_items m pt items s)"
  by (rule loop_returns [where n = n and pt = pt])
    (use assms parser_returnsD [OF assms(1)] in simp_all)

lemma parse_elements_returns:
  assumes "parser_returns a n pe" "clean a s" "len s < n" "len s < m"
  shows "returns a (len s) (parse_elements m pe elements s)"
  by (rule loop_returns [where n = n and pt = pe])
    (use assms parser_returnsD [OF assms(1)] in simp_all)

lemma returns_if:
  "(c \<Longrightarrow> returns a l p) \<Longrightarrow> (\<not> c \<Longrightarrow> returns a l q) \<Longrightarrow> returns a l (if c then p else q)"
  by simp

lemma after_next_char:
  assumes "clean a t" "peek_char t \<noteq> NUL"
  shows "clean a (snd (next_char t))" "len (snd (next_char t)) = len t - 1" "0 < len t"
  using next_char_clean [OF assms(1)] peek_nonempty [OF assms(2)] by simp_all

lemma parse_nested_returns:
  assumes "parser_returns a n pt" "clean a s" "peek_char s = CHR ''(''" "len s \<le> n"
  shows "returns a (len s - 1) (parse_nested n pt s)"
proof -
  have nxt: "clean a (snd (next_char s))" "len (snd (next_char s)) = len s - 1" "0 < len s"
    by (rule after_next_char; use assms in simp)+
  have items: "returns a (len s - 1)
      (pbind (parse_items n pt [] u) (\<lambda>items s.
       pbind (expect_char (CHR '')'') s) (\<lambda>_ s. Parsed (TList items) s)))"
    if "clean a u" "len u < n" "len u \<le> len s - 1" for u
    by (rule returns_bind [OF parse_items_returns [OF assms(1)]], (use that in simp_all)[3],
        rule returns_bind_expect) (use that in auto)
  have slots: "returns a (len s - 1)
      (pbind (parse_slots n pt [] u) (\<lambda>slots s.
       pbind (expect_char (CHR '')'') s) (\<lambda>_ s. Parsed (TConcept (MkConcept head slots)) s)))"
    if "clean a u" "len u < n" "len u \<le> len s - 1" for u head
    by (rule returns_bind [OF parse_slots_returns [OF assms(1)]], (use that in simp_all)[4],
        rule returns_bind_expect) (use that in auto)
  show ?thesis
    unfolding parse_nested_def
  proof (intro returns_bind_skip returns_bind_symbol returns_if items slots)
    show "clean a (snd (next_char s))" by (rule nxt(1))
  qed (use nxt assms(4) in linarith)+
qed

lemma parse_term_returns: "parser_returns a n (parse_term n)"
proof (induction n)
  case (Suc n)
  have "returns a (len s - 1) (parse_term (Suc n) s)" if s: "clean a s" "len s < Suc n" for s
  proof -
    have word: "returns a (len s - 1) (pbind (parse_symbol t) (\<lambda>x. Parsed (f x)))"
      if "clean a t" "len t \<le> len s" for t and f :: "string \<Rightarrow> sl_term"
      by (rule returns_bind_symbol) (use that in auto)
    have nested: "returns a (len s - 1) (parse_nested n (parse_term n) t)"
      if "clean a t" "len t \<le> len s" "peek_char t = CHR ''(''" for t
      using parse_nested_returns [OF Suc.IH that(1,3)] that(2) s(2)
      by (auto intro: returns_mono)
    have num: "returns a (len s - 1) (parse_number t)"
      if "clean a t" "len t \<le> len s" "peek_char t = CHR ''-'' \<or> is_digit (peek_char t)" for t
      using parse_number_returns [OF that(1,3)] that(2) by (auto intro: returns_mono)
    have str: "returns a (len s - 1) (pbind (parse_string n t) (\<lambda>x. Parsed (TString x)))"
      if "clean a t" "len t \<le> len s" for t
      by (rule returns_bind_string) (use that s in auto)
    have var: "returns a (len s - 1)
        (pbind (parse_symbol (snd (next_char t))) (\<lambda>x. Parsed (TVariable x)))"
      if "clean a t" "len t \<le> len s" "peek_char t = CHR ''?''" for t
      by (rule returns_bind_symbol) (use that after_next_char [OF that(1)] in auto)
    show ?thesis
      unfolding parse_term.simps Let_def
      by (intro returns_bind_skip [OF s(1)] returns_if str var nested num word)
  qed
  then show ?case by (simp only: parser_returns_def) blast
qed (simp add: parser_returns_def)

lemma parse_action_body_returns:
  assumes "clean a s" "len s < n"
  shows "returns a (len s) (parse_action_body n s)"
proof -
  have rest: "returns a (len s)
      (pbind (skip_whitespace t) (\<lambda>_ s.
       pbind (expect_char (CHR ''('') s) (\<lambda>_ s.
       pbind (skip_whitespace s) (\<lambda>_ s.
       pbind (parse_symbol s) (\<lambda>name s.
       pbind (skip_whitespace s) (\<lambda>_ s.
       pbind (parse_slots n (parse_term n) [] s) (\<lambda>args s.
       pbind (expect_char (CHR '')'') s) (\<lambda>_ s.
       pbind (skip_whitespace s) (\<lambda>_ s.
       pbind (expect_char (CHR '')'') s) (\<lambda>_ s.
         Parsed (CAction \<lparr>action_name = name, actor = w, arguments = args\<rparr>) s))))))))))"
    if "clean a t" "len t \<le> len s" for t w
  proof (intro returns_bind_skip returns_bind_symbol returns_bind_expect)
    fix s1 s2 s3 x s4 s5
    assume u: "len s1 \<le> len t" "len s2 \<le> len s1 - 1" "len s3 \<le> len s2" "len s4 \<le> len s3 - 1"
      "clean a s5" "len s5 \<le> len s4"
    have "len s5 \<le> n" "len s5 < n" "0 < n" "len s5 \<le> len s" using u that assms(2) by linarith+
    then show "returns a (len s)
      (pbind (parse_slots n (parse_term n) [] s5) (\<lambda>args s.
       pbind (expect_char (CHR '')'') s) (\<lambda>_ s.
       pbind (skip_whitespace s) (\<lambda>_ s.
       pbind (expect_char (CHR '')'') s) (\<lambda>_ s.
         Parsed (CAction \<lparr>action_name = x, actor = w, arguments = args\<rparr>) s)))))"
      by (intro returns_bind [OF parse_slots_returns [OF parse_term_returns u(5)]]
          returns_bind_skip returns_bind_expect) auto
  qed (use that in simp_all)
  show ?thesis
    unfolding parse_action_body_def
  proof (intro returns_bind_skip [OF assms(1)])
    fix t assume t: "clean a t" "len t \<le> len s"
    show "returns a (len s)
      (pbind (if peek_char t \<noteq> CHR ''('' then pbind (parse_symbol t) (\<lambda>w s. Parsed (Some w) s)
              else Parsed None t) (\<lambda>who s.
       pbind (skip_whitespace s) (\<lambda>_ s.
       pbind (expect_char (CHR ''('') s) (\<lambda>_ s.
       pbind (skip_whitespace s) (\<lambda>_ s.
       pbind (parse_symbol s) (\<lambda>name s.
       pbind (skip_whitespace s) (\<lambda>_ s.
       pbind (parse_slots n (parse_term n) [] s) (\<lambda>args s.
       pbind (expect_char (CHR '')'') s) (\<lambda>_ s.
       pbind (skip_whitespace s) (\<lambda>_ s.
       pbind (expect_char (CHR '')'') s) (\<lambda>_ s.
         Parsed (CAction \<lparr>action_name = name, actor = who, arguments = args\<rparr>) s)))))))))))"
    proof (rule returns_bind [where l = "len s"])
      show "returns a (len s) (if peek_char t \<noteq> CHR ''(''
          then pbind (parse_symbol t) (\<lambda>w s. Parsed (Some w) s) else Parsed None t)"
        by (intro returns_if returns_bind_symbol) (use t in auto)
    qed (rule rest)
  qed
qed

lemma parse_concept_or_predicate_returns:
  assumes "clean a s" "len s < n"
  shows "returns a (len s) (parse_concept_or_predicate n name s)"
  unfolding parse_concept_or_predicate_def
proof (intro returns_bind_skip [OF assms(1)] returns_if)
  fix t assume t: "clean a t" "len t \<le> len s"
  then have less: "len t < n" "len t \<le> n" "0 < n" using assms(2) by auto
  show "returns a (len s) (pbind (parse_slots n (parse_term n) [] t) (\<lambda>slots s.
      pbind (expect_char (CHR '')'') s) (\<lambda>_ s. Parsed (CConcept (MkConcept name slots)) s)))"
    by (intro returns_bind [OF parse_slots_returns [OF parse_term_returns t(1)]]
        returns_bind_expect) (use t less in auto)
  show "returns a (len s)
      (pbind (expect_char (CHR '')'') t) (\<lambda>_ s. Parsed (CConcept (concept_new name)) s))"
    by (rule returns_bind_expect) (use t in auto)
  show "returns a (len s) (pbind (parse_items n (parse_term n) [] t) (\<lambda>args s.
      pbind (expect_char (CHR '')'') s) (\<lambda>_ s.
        Parsed (CPredicate \<lparr>pred_name = name, pred_arguments = args\<rparr>) s)))"
    by (intro returns_bind [OF parse_items_returns [OF parse_term_returns t(1)]]
        returns_bind_expect) (use t less in auto)
qed

lemma parse_referential_returns:
  assumes "parser_returns a n pe" "clean a s" "len s < n"
  shows "returns a (len s) (parse_referential pe kind s)"
  unfolding parse_referential_def
  by (intro returns_bind_skip returns_bind_symbol returns_bind_expect
      returns_bind_parser [OF assms(1)] assms(2)) (use assms(3) in auto)

lemma parse_not_returns:
  assumes "parser_returns a n pe" "clean a s" "len s < n"
  shows "returns a (len s) (parse_not pe s)"
  unfolding parse_not_def
  by (intro returns_bind_skip returns_bind_expect returns_bind_parser [OF assms(1)] assms(2))
    (use assms(3) in auto)

lemma parse_sequence_returns:
  assumes "parser_returns a k pe" "clean a s" "len s < k" "len s < n"
  shows "returns a (len s) (parse_sequence n pe s)"
  unfolding parse_sequence_def
proof (intro returns_bind_skip [OF assms(2)])
  fix t assume t: "clean a t" "len t \<le> len s"
  show "returns a (len s) (pbind (parse_elements n pe [] t) (\<lambda>elements s.
      pbind (expect_char (CHR '')'') s) (\<lambda>_ s. Parsed (CSequence elements) s)))"
    by (intro returns_bind [OF parse_elements_returns [OF assms(1) t(1)]] returns_bind_expect)
      (use t assms(3,4) in auto)
qed

lemma parse_list_expression_returns:
  assumes "parser_returns a (n - 1) pe" "clean a s" "len s < n" "peek_char s = CHR ''(''"
  shows "returns a (len s - 1) (parse_list_expression n pe s)"
proof -
  have pos: "0 < len s" using assms(4) by (intro length_greater_0_conv [THEN iffD2] peek_nonempty) simp
  have body: "returns a (len s - 1)
      (parse_headed n pe x t)"
    if t: "clean a t" and le: "len t \<le> len s - 1" for t x
  proof -
    have less: "len t < n - 1" "len t < n" using le pos assms(3) by linarith+
    show ?thesis
      unfolding parse_headed_def
      using parse_action_body_returns [OF t less(2)] parse_referential_returns [OF assms(1) t less(1)]
        parse_not_returns [OF assms(1) t less(1)] parse_sequence_returns [OF assms(1) t less]
        parse_concept_or_predicate_returns [OF t less(2)]
      by (intro returns_if) (erule returns_mono [OF _ le], assumption | rule returns_mono [OF _ le], blast)+
  qed
  show ?thesis
    unfolding parse_list_expression_def
    by (intro returns_bind_expect returns_bind_skip returns_bind_symbol assms(2) body) (use pos in auto)
qed

lemma parse_expression_returns: "parser_returns a (n - 1) (parse_expression n)"
proof (induction n)
  case (Suc n)
  have "returns a (len s - 1) (parse_expression (Suc n) s)" if s: "clean a s" "len s < n" for s
  proof -
    have lst: "returns a (len s - 1) (parse_list_expression n (parse_expression n) t)"
      if "clean a t" "len t \<le> len s" "peek_char t = CHR ''(''" for t
      by (rule returns_mono [OF parse_list_expression_returns [OF Suc.IH that(1) _ that(3)]])
        (use that s(2) in simp_all)
    have str: "returns a (len s - 1) (pbind (parse_string n t) (\<lambda>x. Parsed (CRaw x)))"
      if "clean a t" "len t \<le> len s" for t
      by (rule returns_bind_string) (use that s in auto)
    have trm: "returns a (len s - 1) (pbind (parse_term n t) (\<lambda>t s.
        case t of TConcept c \<Rightarrow> Parsed (CConcept c) s | _ \<Rightarrow> Parsed (CRaw (term_debug t)) s))"
      if "clean a t" "len t \<le> len s" for t
      by (rule returns_bind_parser [OF parse_term_returns])
        (use that s in \<open>auto split: sl_term.split\<close>)
    show ?thesis
      unfolding parse_expression.simps Let_def
      by (intro returns_bind_skip [OF s(1)] returns_if lst str trm)
  qed
  then show ?case by (simp only: parser_returns_def diff_Suc_1) blast
qed (simp add: parser_returns_def)

lemma sl_parse_returns:
  assumes "clean_text a input" "length input + 2 \<le> n"
  shows "returns a (length input) (sl_parse n input)"
  unfolding sl_parse_def
proof (intro returns_bind_skip returns_if)
  fix t assume t: "clean a t" "len t \<le> len (0::nat, input)"
  have "returns a (len t - 1) (parse_expression n t)"
    by (rule parser_returnsD [OF parse_expression_returns t(1)]) (use t(2) assms(2) in simp)
  then show "returns a (length input) (parse_expression n t)"
    by (rule returns_mono) (use t(2) in simp)
qed (use assms in simp_all)

section \<open>More fuel gives the same result\<close>

definition fuel_le :: "'a outcome \<Rightarrow> 'a outcome \<Rightarrow> bool" where
  "fuel_le p q \<longleftrightarrow> p = OutOfFuel \<or> p = q"

named_theorems fuel_intros \<open>monotonicity of the parsers in their fuel\<close>

lemma fuel_le_refl [simp]: "fuel_le p p"
  by (simp add: fuel_le_def)

lemma fuel_le_OutOfFuel [simp]: "fuel_le OutOfFuel q"
  by (simp add: fuel_le_def)

lemma fuel_le_bind [fuel_intros]:
  assumes "fuel_le p q" "\<And>x s. fuel_le (f x s) (g x s)"
  shows "fuel_le (pbind p f) (pbind q g)"
  using assms(1)
proof (cases p)
  case (Parsed x s)
  with assms(1) have "q = Parsed x s" by (simp add: fuel_le_def)
  with Parsed show ?thesis by (simp only: pbind_simps assms(2))
qed (auto simp: fuel_le_def)

lemma fuel_le_if [fuel_intros]:
  "(c \<Longrightarrow> fuel_le p q) \<Longrightarrow> (\<not> c \<Longrightarrow> fuel_le p' q') \<Longrightarrow>
     fuel_le (if c then p else p') (if c then q else q')"
  by simp

lemma string_loop_fuel: "n \<le> m \<Longrightarrow> fuel_le (string_loop n acc s) (string_loop m acc s)"
proof (induction n arbitrary: m acc s)
  case (Suc n)
  then obtain k where "m = Suc k" "n \<le> k" by (cases m) auto
  then show ?case
    by (simp only: string_loop.simps case_prod_unfold)
      (intro fuel_intros Suc.IH fuel_le_refl)
qed simp

lemma parse_string_fuel: "n \<le> m \<Longrightarrow> fuel_le (parse_string n s) (parse_string m s)"
  unfolding parse_string_def by (intro fuel_intros string_loop_fuel fuel_le_refl)

lemma parse_slot_fuel:
  "(\<And>s. fuel_le (pt s) (qt s)) \<Longrightarrow> fuel_le (parse_slot pt s) (parse_slot qt s)"
  unfolding parse_slot_def by (intro fuel_intros fuel_le_refl)

lemma parse_slots_fuel:
  assumes "\<And>s. fuel_le (pt s) (qt s)"
  shows "n \<le> m \<Longrightarrow> fuel_le (parse_slots n pt slots s) (parse_slots m qt slots s)"
proof (induction n arbitrary: m slots s)
  case (Suc n)
  then obtain k where "m = Suc k" "n \<le> k" by (cases m) auto
  then show ?case
    by (simp only: parse_slots.simps) (intro fuel_intros parse_slot_fuel assms Suc.IH fuel_le_refl)
qed simp

lemma parse_items_fuel:
  assumes "\<And>s. fuel_le (pt s) (qt s)"
  shows "n \<le> m \<Longrightarrow> fuel_le (parse_items n pt items s) (parse_items m qt items s)"
proof (induction n arbitrary: m items s)
  case (Suc n)
  then obtain k where "m = Suc k" "n \<le> k" by (cases m) auto
  then show ?case
    by (simp only: parse_items.simps) (intro fuel_intros assms Suc.IH fuel_le_refl)
qed simp

lemma parse_elements_fuel:
  assumes "\<And>s. fuel_le (pe s) (qe s)"
  shows "n \<le> m \<Longrightarrow> fuel_le (parse_elements n pe elements s) (parse_elements m qe elements s)"
proof (induction n arbitrary: m elements s)
  case (Suc n)
  then obtain k where "m = Suc k" "n \<le> k" by (cases m) auto
  then show ?case
    by (simp only: parse_elements.simps) (intro fuel_intros assms Suc.IH fuel_le_refl)
qed simp

lemma parse_term_fuel: "n \<le> m \<Longrightarrow> fuel_le (parse_term n s) (parse_term m s)"
proof (induction n arbitrary: m s)
  case (Suc n)
  then obtain k where "m = Suc k" "n \<le> k" by (cases m) auto
  then show ?case
    by (simp only: parse_term.simps Let_def parse_nested_def)
      (intro fuel_intros parse_string_fuel parse_items_fuel parse_slots_fuel Suc.IH fuel_le_refl)
qed simp

lemma parse_expression_fuel: "n \<le> m \<Longrightarrow> fuel_le (parse_expression n s) (parse_expression m s)"
proof (induction n arbitrary: m s)
  case (Suc n)
  then obtain k where k: "m = Suc k" "n \<le> k" by (cases m) auto
  have "fuel_le (parse_list_expression n (parse_expression n) s)
      (parse_list_expression k (parse_expression k) s)" for s
    unfolding parse_list_expression_def parse_headed_def parse_action_body_def parse_referential_def parse_not_def
      parse_sequence_def parse_concept_or_predicate_def
    by (intro fuel_intros parse_items_fuel parse_slots_fuel parse_elements_fuel parse_term_fuel
        Suc.IH fuel_le_refl k(2))
  then show ?case
    using k by (simp only: parse_expression.simps Let_def)
      (intro fuel_intros parse_string_fuel parse_term_fuel fuel_le_refl)
qed simp

lemma sl_parse_fuel: "n \<le> m \<Longrightarrow> fuel_le (sl_parse n input) (sl_parse m input)"
  unfolding sl_parse_def by (intro fuel_intros parse_expression_fuel fuel_le_refl)

section \<open>Properties\<close>

text \<open>
  C20: decoding is total on clean input. A text without a NUL character is decoded: with fuel two
  above its length the parser returns, more fuel does not change the result, and if all
  characters are ASCII the result is an element or an error and not a panic.
\<close>

theorem sl_decode_total:
  assumes "NUL \<notin> set input" and "length input + 2 \<le> n"
  shows "sl_decode n input \<noteq> Decode_Runs
    \<and> sl_decode n input = sl_decode (length input + 2) input
    \<and> ((\<forall>c\<in>set input. code c < 128) \<longrightarrow> sl_decode n input \<noteq> Decode_Panic)"
proof -
  let ?m = "length input + 2"
  have "returns False (length input) (sl_parse ?m input)"
    by (rule sl_parse_returns) (use assms in \<open>simp_all add: clean_text_def\<close>)
  then have "sl_parse ?m input \<noteq> OutOfFuel" by auto
  moreover have "fuel_le (sl_parse ?m input) (sl_parse n input)"
    by (rule sl_parse_fuel) (rule assms(2))
  ultimately have eq: "sl_parse n input = sl_parse ?m input" and "sl_parse n input \<noteq> OutOfFuel"
    by (auto simp: fuel_le_def)
  then have "sl_decode n input \<noteq> Decode_Runs"
    by (auto simp: sl_decode_def split: outcome.split)
  moreover have "sl_decode n input = sl_decode ?m input" by (simp only: sl_decode_def eq)
  moreover have "sl_decode n input \<noteq> Decode_Panic" if "\<forall>c\<in>set input. code c < 128"
  proof -
    have "returns True (length input) (sl_parse n input)"
      by (rule sl_parse_returns) (use assms that in \<open>simp_all add: clean_text_def\<close>)
    then have "sl_parse n input \<noteq> Panicked" by auto
    then show ?thesis by (auto simp: sl_decode_def split: outcome.split)
  qed
  ultimately show ?thesis by blast
qed

lemma sl_decode_total_witness: "sl_decode 9 ''(a :b'' \<noteq> Decode_Runs"
  by (rule sl_decode_total [of "''(a :b''" 9, THEN conjunct1]) (simp_all add: NUL_def)

lemma string_loop_stuck: "string_loop n acc (p, NUL # cs) = OutOfFuel"
  by (induction n arbitrary: acc) (simp_all add: next_char_def NUL_def Let_def)

lemma string_loop_nul:
  assumes "CHR 0x22 \<notin> set lit" "CHR 0x5C \<notin> set lit" "NUL \<notin> set lit"
  shows "string_loop n acc (p, lit @ NUL # cs) = OutOfFuel"
  using assms
proof (induction n arbitrary: acc p lit)
  case (Suc n)
  show ?case
  proof (cases lit)
    case Nil
    then show ?thesis by (simp only: append_Nil string_loop_stuck)
  next
    case (Cons c lit')
    with Suc.prems have "c \<noteq> NUL" "c \<noteq> CHR 0x22" "c \<noteq> CHR 0x5C" by auto
    then show ?thesis using Cons Suc by (simp add: next_char_def Let_def)
  qed
qed simp

text \<open>
  A NUL character inside a string literal stops the decoder for good. Whatever comes before
  it in the literal and whatever follows, no amount of fuel makes the decoder return, although
  the same text without the NUL is decoded (\<open>next_char\<close> does not move past the character, and
  the loop of \<open>parse_string\<close> appends it to its result again and again).
\<close>

theorem sl_decode_nul_runs_forever:
  assumes "CHR 0x22 \<notin> set lit" "CHR 0x5C \<notin> set lit" "NUL \<notin> set lit"
  shows "sl_decode n (CHR 0x22 # lit @ NUL # rest) = Decode_Runs"
proof -
  have space: "\<not> is_space (CHR 0x22)" by (simp add: is_space_def code_def)
  have "parse_expression n (0, CHR 0x22 # lit @ NUL # rest) = OutOfFuel"
  proof (cases n)
    case (Suc m)
    have "parse_string m (0, CHR 0x22 # lit @ NUL # rest) = OutOfFuel"
      using string_loop_nul [OF assms] by (simp add: parse_string_def expect_char_def)
    with Suc space show ?thesis by simp
  qed simp
  then show ?thesis using space by (simp add: sl_decode_def sl_parse_def)
qed

lemma sl_decode_nul_runs_forever_witness:
  "sl_decode 1000 (CHR 0x22 # ''price'' @ NUL # [CHR 0x22]) = Decode_Runs"
  by (rule sl_decode_nul_runs_forever) (simp_all add: NUL_def)

lemma symbol_loop_panics:
  assumes "\<forall>c\<in>set word. is_symbol_char c \<and> code c < 128" "is_symbol_char c" "128 \<le> code c"
  shows "symbol_loop acc p (word @ c # cs) = Panicked"
  using assms by (induction word arbitrary: acc p) (auto simp: len_utf8_def)

text \<open>
  A letter outside ASCII in a symbol makes the decoder panic. If the text after an opening
  parenthesis continues with ASCII symbol characters up to an alphanumeric character of two
  bytes, decoding panics, whatever follows: the position is moved by one byte and the next slice
  of the input is not at a character boundary.
\<close>

theorem sl_decode_letter_panics:
  assumes "word \<noteq> []" "\<forall>c\<in>set word. is_symbol_char c \<and> code c < 128"
    and "is_alphanumeric letter" "128 \<le> code letter" and "0 < n"
  shows "sl_decode n (CHR ''('' # word @ letter # rest) = Decode_Panic"
proof -
  obtain m where m: "n = Suc m" using assms(5) gr0_conv_Suc by blast
  obtain c word' where word: "word = c # word'" using assms(1) by (cases word) auto
  have "is_symbol_char c" using assms(2) word by simp
  moreover have "\<not> is_symbol_char (CHR '';'')"
    by (simp add: is_symbol_char_def is_alphanumeric_def code_def)
  moreover have "is_symbol_char c \<Longrightarrow> \<not> is_space c"
    by (auto simp: is_symbol_char_def is_alphanumeric_def is_space_def code_def)
  ultimately have first: "\<not> is_space c" "c \<noteq> CHR '';''" by auto
  have paren: "\<not> is_space (CHR ''('')" by (simp add: is_space_def code_def)
  have "parse_symbol (Suc 0, word @ letter # rest) = Panicked"
    using symbol_loop_panics [OF assms(2)] assms(3,4)
    by (simp add: parse_symbol_def is_symbol_char_def)
  then have "parse_expression n (0, CHR ''('' # word @ letter # rest) = Panicked"
    using first paren word by (simp add: m parse_list_expression_def expect_char_def)
  then show ?thesis using paren by (simp add: sl_decode_def sl_parse_def)
qed

lemma sl_decode_letter_panics_witness:
  "sl_decode 20 (CHR ''('' # ''caf'' @ CHR 0xE9 # '' :price 3)'') = Decode_Panic"
  by (rule sl_decode_letter_panics)
    (simp_all add: is_symbol_char_def is_alphanumeric_def code_def)

end
