(* ===== verification/Sl_Roundtrip.thy ===== *)
theory Sl_Roundtrip
  imports Sl_Decoding
begin

text \<open>
  Decoding what the SL codec encodes. \<open>content_ok\<close> delimits the content elements that survive
  the trip: names are ASCII symbols, agent identifiers do not look like numbers or literals, a
  top-level name is not a keyword of the expression grammar, predicates have arguments, string
  literals have no NUL, raw text has nothing to escape. For them \<open>sl_decode\<close> inverts
  \<open>sl_encode\<close>, in both layouts. Further theorems show that each restriction is needed.
\<close>

section \<open>Elements that survive\<close>

definition symbol_ok :: "string \<Rightarrow> bool" where
  "symbol_ok w \<longleftrightarrow> w \<noteq> '''' \<and> (\<forall>c\<in>set w. is_symbol_char c \<and> code c < 128)"

definition agent_ok :: "string \<Rightarrow> bool" where
  "agent_ok w \<longleftrightarrow>
     symbol_ok w \<and> hd w \<noteq> CHR ''-'' \<and> \<not> is_digit (hd w) \<and>
     w \<noteq> ''true'' \<and> w \<noteq> ''false'' \<and> w \<noteq> ''null''"

fun term_ok :: "sl_term \<Rightarrow> bool"
  and terms_ok :: "sl_term list \<Rightarrow> bool"
  and concept_ok :: "sl_concept \<Rightarrow> bool"
  and slots_ok :: "(string \<times> sl_term) list \<Rightarrow> bool" where
  "term_ok (TString s) \<longleftrightarrow> NUL \<notin> set s"
| "term_ok (TInteger n) \<longleftrightarrow> i64_range n"
| "term_ok (TFloat f) \<longleftrightarrow> False"
| "term_ok (TBoolean b) \<longleftrightarrow> True"
| "term_ok (TAgentId i) \<longleftrightarrow> agent_ok i"
| "term_ok (TVariable x) \<longleftrightarrow> symbol_ok x"
| "term_ok (TConcept c) \<longleftrightarrow> concept_ok c \<and> concept_name c \<noteq> ''set'' \<and> concept_name c \<noteq> ''sequence''"
| "term_ok (TList ts) \<longleftrightarrow> terms_ok ts"
| "term_ok TNull \<longleftrightarrow> True"
| "terms_ok [] \<longleftrightarrow> True"
| "terms_ok (t # ts) \<longleftrightarrow> term_ok t \<and> terms_ok ts"
| "concept_ok (MkConcept name slots) \<longleftrightarrow> symbol_ok name \<and> distinct (map fst slots) \<and> slots_ok slots"
| "slots_ok [] \<longleftrightarrow> True"
| "slots_ok (kv # kvs) \<longleftrightarrow> symbol_ok (fst kv) \<and> term_ok (snd kv) \<and> slots_ok kvs"

definition keywords_sl :: "string list" where
  "keywords_sl = [''action'', ''iota'', ''any'', ''all'', ''not'', ''sequence'', ''set'']"

fun content_ok :: "content_element \<Rightarrow> bool"
  and contents_ok :: "content_element list \<Rightarrow> bool" where
  "content_ok (CConcept c) \<longleftrightarrow> concept_ok c \<and> concept_name c \<notin> set keywords_sl"
| "content_ok (CPredicate p) \<longleftrightarrow>
     symbol_ok (pred_name p) \<and> pred_name p \<notin> set keywords_sl \<and> pred_arguments p \<noteq> [] \<and>
     terms_ok (pred_arguments p)"
| "content_ok (CAction a) \<longleftrightarrow>
     symbol_ok (action_name a) \<and> (case actor a of None \<Rightarrow> True | Some w \<Rightarrow> symbol_ok w) \<and>
     distinct (map fst (arguments a)) \<and> slots_ok (arguments a)"
| "content_ok (CProposition e b) \<longleftrightarrow> \<not> b \<and> content_ok e"
| "content_ok (CIota x e) \<longleftrightarrow> symbol_ok x \<and> content_ok e"
| "content_ok (CAny x e) \<longleftrightarrow> symbol_ok x \<and> content_ok e"
| "content_ok (CAll x e) \<longleftrightarrow> symbol_ok x \<and> content_ok e"
| "content_ok (CSequence es) \<longleftrightarrow> contents_ok es"
| "content_ok (CRaw s) \<longleftrightarrow> CHR 0x22 \<notin> set s \<and> CHR 0x5C \<notin> set s \<and> NUL \<notin> set s"
| "contents_ok [] \<longleftrightarrow> True"
| "contents_ok (e # es) \<longleftrightarrow> content_ok e \<and> contents_ok es"

lemma terms_ok_iff: "terms_ok ts \<longleftrightarrow> (\<forall>t\<in>set ts. term_ok t)"
  by (induction ts) auto

lemma slots_ok_iff: "slots_ok kvs \<longleftrightarrow> (\<forall>kv\<in>set kvs. symbol_ok (fst kv) \<and> term_ok (snd kv))"
  by (induction kvs) auto

lemma contents_ok_iff: "contents_ok es \<longleftrightarrow> (\<forall>e\<in>set es. content_ok e)"
  by (induction es) auto

lemma encode_terms_concat: "encode_terms pr ts = concat (map (\<lambda>t. '' '' @ encode_term pr t) ts)"
  by (induction ts) auto

lemma sl_encode_all_concat: "sl_encode_all pr es = concat (map (\<lambda>e. '' '' @ sl_encode pr e) es)"
  by (induction es) auto

section \<open>Reading tokens\<close>

text \<open>The bytes of a text, by which the position advances.\<close>

definition ulen :: "string \<Rightarrow> nat" where
  "ulen s = sum_list (map len_utf8 s)"

lemma ulen_simps [simp]:
  "ulen [] = 0" "ulen (c # cs) = len_utf8 c + ulen cs" "ulen (xs @ ys) = ulen xs + ulen ys"
  by (simp_all add: ulen_def)

lemma ulen_ascii: "(\<forall>c\<in>set s. code c < 128) \<Longrightarrow> ulen s = length s"
  by (induction s) (auto simp: len_utf8_def)

text \<open>A character that white space skipping leaves alone, and a text that ends a symbol.\<close>

definition solid :: "char \<Rightarrow> bool" where
  "solid c \<longleftrightarrow> \<not> is_space c \<and> c \<noteq> CHR '';''"

definition stops :: "string \<Rightarrow> bool" where
  "stops cs \<longleftrightarrow> cs = [] \<or> \<not> is_symbol_char (hd cs)"

lemma pbind_assoc: "pbind (pbind p f) g = pbind p (\<lambda>x s. pbind (f x s) g)"
  by (cases p) simp_all

lemma skip_solid: "solid c \<Longrightarrow> skip_whitespace (p, c # cs) = Parsed () (p, c # cs)"
  by (simp add: solid_def)

lemma skip_spaces:
  "(\<forall>c\<in>set sep. is_space c \<and> code c < 128) \<Longrightarrow>
     skip_whitespace (p, sep @ cs) = skip_whitespace (p + length sep, cs)"
  by (induction sep arbitrary: p) (auto simp: len_utf8_def)

lemma skip_idem: "skip_whitespace s = Parsed u s' \<Longrightarrow> skip_whitespace s' = Parsed () s'"
proof (induction s arbitrary: s' rule: skip_whitespace.induct)
  case (2 p c cs)
  show ?case
  proof (cases "is_space c")
    case True
    with 2 show ?thesis by (auto split: if_splits)
  next
    case False
    show ?thesis
    proof (cases "c = CHR '';''")
      case True
      with False 2(3) obtain v p' cs' where c: "skip_comment (p + 1) cs = Parsed v (p', cs')"
        and rest: "skip_whitespace (p', cs') = Parsed u s'"
        by (auto split: outcome.splits)
      from 2(2) [OF False True c refl rest] show ?thesis .
    next
      case semi: False
      with False 2(3) show ?thesis by auto
    qed
  qed
qed auto

lemma skip_skip:
  "pbind (skip_whitespace s) (\<lambda>_ t. pbind (skip_whitespace t) f) = pbind (skip_whitespace s) f"
  by (cases "skip_whitespace s") (simp_all add: skip_idem)

lemma symbol_loop_reads:
  "(\<forall>c\<in>set w. is_symbol_char c \<and> code c < 128) \<Longrightarrow> stops cs \<Longrightarrow>
     symbol_loop acc p (w @ cs) = Parsed (acc @ w) (p + length w, cs)"
proof (induction w arbitrary: acc p)
  case Nil
  then show ?case by (cases cs) (auto simp: stops_def)
qed (auto simp: len_utf8_def)

lemma parse_symbol_reads:
  "symbol_ok w \<Longrightarrow> stops cs \<Longrightarrow> parse_symbol (p, w @ cs) = Parsed w (p + length w, cs)"
  using symbol_loop_reads [of w cs "''''" p] by (simp add: parse_symbol_def symbol_ok_def)

lemma symbol_char_solid: "is_symbol_char c \<Longrightarrow> code c < 128 \<Longrightarrow> solid c"
  by (auto simp: is_symbol_char_def is_alphanumeric_def solid_def is_space_def code_def)

lemma symbol_ok_Cons: "symbol_ok w \<Longrightarrow> \<exists>c cs. w = c # cs \<and> is_symbol_char c \<and> code c < 128"
  by (cases w) (auto simp: symbol_ok_def)

lemma skip_symbol: "symbol_ok w \<Longrightarrow> skip_whitespace (p, w @ cs) = Parsed () (p, w @ cs)"
proof -
  assume "symbol_ok w"
  then obtain c ds where "w = c # ds" "is_symbol_char c" "code c < 128" using symbol_ok_Cons by blast
  then show ?thesis using skip_solid [OF symbol_char_solid] by simp
qed

lemma expect_reads [simp]: "expect_char c (p, c # cs) = Parsed () (p + 1, cs)"
  by (simp add: expect_char_def)

lemma next_reads: "c \<noteq> NUL \<Longrightarrow> next_char (p, c # cs) = (c, (p + len_utf8 c, cs))"
  by (simp add: next_char_def)

lemma solid_simps [simp]:
  "solid (CHR ''('')" "solid (CHR '')'')" "solid (CHR '':'')" "solid (CHR ''?'')" "solid (CHR 0x22)"
  "solid (CHR ''-'')"
  by (simp_all add: solid_def is_space_def code_def)

lemma stops_simps [simp]:
  "stops []" "stops (CHR '')'' # cs)" "stops (CHR '' '' # cs)" "stops (CHR 0x0A # cs)"
  by (simp_all add: stops_def is_symbol_char_def is_alphanumeric_def code_def)

lemma is_space_simps [simp]: "is_space (CHR '' '')" "is_space (CHR 0x0A)"
  by (simp_all add: is_space_def code_def)

lemma code_ascii_simps [simp]:
  "code (CHR '' '') = 32" "code (CHR 0x0A) = 10" "code (CHR ''('') = 40" "code (CHR '')'') = 41"
  "code (CHR '':'') = 58" "code (CHR ''?'') = 63" "code (CHR 0x22) = 34" "code (CHR ''-'') = 45"
  "code (CHR 0x5C) = 92"
  by (simp_all add: code_def)

section \<open>Literals\<close>

lemma escape_char_cases:
  obtains e where "escape_char c = [CHR 0x5C, e]" "unescape e = c" "e \<noteq> NUL"
  | "escape_char c = [c]" "c \<noteq> CHR 0x22" "c \<noteq> CHR 0x5C"
proof (cases "c = CHR 0x22 \<or> c = CHR 0x5C \<or> c = CHR 0x0A \<or> c = CHR 0x09")
  case True
  then have "\<exists>e. escape_char c = [CHR 0x5C, e] \<and> unescape e = c \<and> e \<noteq> NUL"
    by (auto simp: escape_char_def unescape_def NUL_def)
  with that(1) show ?thesis by blast
next
  case False
  with that(2) show ?thesis by (simp add: escape_char_def)
qed

lemma string_loop_escaped:
  assumes "NUL \<notin> set s" "length s < n"
  shows "string_loop n acc (p, concat (map escape_char s) @ CHR 0x22 # cs)
     = Parsed (acc @ s) (p + ulen (concat (map escape_char s)) + 1, cs)"
  using assms
proof (induction s arbitrary: n acc p)
  case Nil
  then obtain m where "n = Suc m" by (cases n) auto
  then show ?case by (simp add: next_reads len_utf8_def)
next
  case (Cons c s)
  then obtain m where m: "n = Suc m" "length s < m" by (cases n) auto
  have c: "c \<noteq> NUL" using Cons.prems by auto
  have IH: "string_loop m acc' (q, concat (map escape_char s) @ CHR 0x22 # cs)
      = Parsed (acc' @ s) (q + ulen (concat (map escape_char s)) + 1, cs)" for acc' q
    by (rule Cons.IH) (use Cons.prems m in auto)
  have backslash: "CHR 0x5C \<noteq> NUL" by (simp add: NUL_def)
  show ?case
    by (cases c rule: escape_char_cases) (simp_all add: m next_reads backslash c IH)
qed

lemma escaped_longer: "length s \<le> length (concat (map escape_char s))"
  by (induction s) (auto simp: escape_char_def)

lemma parse_string_escaped:
  assumes "NUL \<notin> set s" "length (concat (map escape_char s)) < n"
  shows "parse_string n (p, CHR 0x22 # concat (map escape_char s) @ CHR 0x22 # cs)
     = Parsed s (p + ulen (concat (map escape_char s)) + 2, cs)"
  using string_loop_escaped [of s n "''''" "p + 1" cs] escaped_longer [of s] assms
  by (simp add: parse_string_def)

lemma raw_not_escaped:
  "CHR 0x22 \<notin> set s \<Longrightarrow> CHR 0x5C \<notin> set s \<Longrightarrow> NUL \<notin> set s \<Longrightarrow> length s < n \<Longrightarrow>
     string_loop n acc (p, s @ CHR 0x22 # cs) = Parsed (acc @ s) (p + ulen s + 1, cs)"
proof (induction s arbitrary: n acc p)
  case Nil
  then obtain m where "n = Suc m" by (cases n) auto
  then show ?case by (simp add: next_reads len_utf8_def)
next
  case (Cons c s)
  then obtain m where m: "n = Suc m" "length s < m" by (cases n) auto
  have c: "c \<noteq> NUL" "c \<noteq> CHR 0x22" "c \<noteq> CHR 0x5C" using Cons.prems by auto
  show ?case
    using Cons.IH [of m "acc @ [c]" "p + len_utf8 c"] Cons.prems m c by (simp add: next_reads)
qed

lemma digit_symbol_char: "is_digit c \<Longrightarrow> is_symbol_char c"
  by (simp add: is_digit_def is_symbol_char_def is_alphanumeric_def code_def)

lemma number_char_symbol:
  "is_symbol_char (CHR ''.'')" "is_symbol_char (CHR ''e'')" "is_symbol_char (CHR ''E'')"
  by (simp_all add: is_symbol_char_def is_alphanumeric_def code_def)

lemma number_loop_stops: "stops cs \<Longrightarrow> number_loop acc fl p cs = ((acc, fl), (p, cs))"
proof (cases cs)
  case (Cons c ds)
  assume "stops cs"
  with Cons have c: "\<not> is_symbol_char c" by (simp add: stops_def)
  then have "\<not> is_digit c" "c \<noteq> CHR ''.''" "c \<noteq> CHR ''e''" "c \<noteq> CHR ''E''"
    using digit_symbol_char number_char_symbol by metis+
  with Cons show ?thesis by (simp only: number_loop.simps if_False simp_thms)
qed simp

lemma number_loop_digits:
  "list_all is_digit ds \<Longrightarrow> stops cs \<Longrightarrow>
     number_loop acc False p (ds @ cs) = ((acc @ ds, False), (p + length ds, cs))"
  by (induction ds arbitrary: acc p) (simp_all add: number_loop_stops)

lemma int_to_string_ascii: "\<forall>c\<in>set (int_to_string n). code c < 128"
proof -
  have "\<forall>c\<in>set (nat_to_string m). code c < 128" for m
    using nat_to_string_digits [of m] by (auto simp: list_all_iff is_digit_def code_def)
  then show ?thesis by (auto simp: int_to_string_def)
qed

lemma parse_number_reads:
  assumes "i64_range n" "stops cs"
  shows "parse_number (p, int_to_string n @ cs)
     = Parsed (TInteger n) (p + length (int_to_string n), cs)"
proof -
  have val: "parse_i64 (int_to_string n) = Some n"
    using assms(1) by (intro parse_int_to_string) (simp_all add: i64_range_def)
  obtain d ds where ds: "nat_to_string (nat n) = d # ds" by (cases "nat_to_string (nat n)") auto
  have "is_digit d" using nat_to_string_digits [of "nat n"] ds by simp
  then have d: "d \<noteq> CHR ''-''" by (auto simp: is_digit_def)
  show ?thesis
  proof (cases "n < 0")
    case True
    then show ?thesis
      using val number_loop_digits [OF nat_to_string_digits assms(2)]
      by (simp add: parse_number_def int_to_string_def)
  next
    case False
    then show ?thesis
      using val number_loop_digits [OF nat_to_string_digits [of "nat n"] assms(2), of "''''" p] ds d
      by (simp add: parse_number_def int_to_string_def del: number_loop.simps)
  qed
qed

section \<open>Lists and slots\<close>

lemma loop_reads:
  assumes step: "\<And>m items s. loop (Suc m) items s =
        (if peek_char s \<noteq> CHR '')'' \<and> snd s \<noteq> [] then
           pbind (pt s) (\<lambda>t s. pbind (skip_whitespace s) (\<lambda>_ s. loop m (items @ [t]) s))
         else Parsed items s)"
    and head: "\<And>x. x \<in> set xs \<Longrightarrow> \<exists>c cs. enc x = c # cs \<and> solid c \<and> c \<noteq> CHR '')''"
    and item: "\<And>x p cs. x \<in> set xs \<Longrightarrow> stops cs \<Longrightarrow> length (enc x @ cs) < n \<Longrightarrow>
        pt (p, enc x @ cs) = Parsed x (p + ulen (enc x), cs)"
  shows "length (concat (map (\<lambda>x. '' '' @ enc x) xs) @ CHR '')'' # rest) < n \<Longrightarrow>
     length (concat (map (\<lambda>x. '' '' @ enc x) xs) @ CHR '')'' # rest) < m \<Longrightarrow>
     pbind (skip_whitespace (p, concat (map (\<lambda>x. '' '' @ enc x) xs) @ CHR '')'' # rest))
       (\<lambda>_ s. loop m acc s)
     = Parsed (acc @ xs) (p + ulen (concat (map (\<lambda>x. '' '' @ enc x) xs)), CHR '')'' # rest)"
  using head item
proof (induction xs arbitrary: m p acc)
  case Nil
  then obtain k where "m = Suc k" by (cases m) auto
  then show ?case by (simp add: skip_solid step del: skip_whitespace.simps)
next
  case (Cons x xs)
  let ?tail = "concat (map (\<lambda>x. '' '' @ enc x) xs) @ CHR '')'' # rest"
  from Cons.prems(2) obtain k where m: "m = Suc k" and k: "length ?tail < k"
    by (cases m) auto
  obtain c cs where enc: "enc x = c # cs" "solid c" "c \<noteq> CHR '')''" using Cons.prems(3) by fastforce
  have skip: "skip_whitespace (p, '' '' @ enc x @ ?tail) = Parsed () (p + 1, enc x @ ?tail)"
    using skip_spaces [of "'' ''" p "enc x @ ?tail"] enc by (simp add: skip_solid del: skip_whitespace.simps)
  have "stops ?tail" by (cases xs) simp_all
  then have read: "pt (p + 1, enc x @ ?tail) = Parsed x (p + 1 + ulen (enc x), ?tail)"
    by (rule Cons.prems(4) [rotated]) (use Cons.prems(1) in auto)
  have "loop m acc (p + 1, enc x @ ?tail)
      = pbind (skip_whitespace (p + 1 + ulen (enc x), ?tail)) (\<lambda>_ s. loop k (acc @ [x]) s)"
    using read enc by (simp only: m step) (simp del: skip_whitespace.simps)
  also have "\<dots> = Parsed ((acc @ [x]) @ xs)
      (p + 1 + ulen (enc x) + ulen (concat (map (\<lambda>x. '' '' @ enc x) xs)), CHR '')'' # rest)"
    by (rule Cons.IH) (use Cons.prems k in auto)
  finally show ?case using skip by (simp add: len_utf8_def del: skip_whitespace.simps)
qed

lemma parse_items_reads:
  assumes "\<And>x. x \<in> set ts \<Longrightarrow> \<exists>c cs. enc x = c # cs \<and> solid c \<and> c \<noteq> CHR '')''"
    and "\<And>x p cs. x \<in> set ts \<Longrightarrow> stops cs \<Longrightarrow> length (enc x @ cs) < n \<Longrightarrow>
        pt (p, enc x @ cs) = Parsed x (p + ulen (enc x), cs)"
    and "length (concat (map (\<lambda>x. '' '' @ enc x) ts) @ CHR '')'' # rest) < n"
  shows "pbind (skip_whitespace (p, concat (map (\<lambda>x. '' '' @ enc x) ts) @ CHR '')'' # rest))
       (\<lambda>_ s. parse_items n pt [] s)
     = Parsed ts (p + ulen (concat (map (\<lambda>x. '' '' @ enc x) ts)), CHR '')'' # rest)"
proof -
  have "parse_items (Suc m) pt items s =
      (if peek_char s \<noteq> CHR '')'' \<and> snd s \<noteq> [] then
         pbind (pt s) (\<lambda>t s. pbind (skip_whitespace s) (\<lambda>_ s. parse_items m pt (items @ [t]) s))
       else Parsed items s)" for m items s by simp
  from loop_reads [where loop = "\<lambda>m. parse_items m pt" and xs = ts and acc = "[]", OF this assms(1,2) assms(3,3)]
  show ?thesis by simp
qed

lemma hm_insert_new: "k \<notin> fst ` set m \<Longrightarrow> hm_insert k v m = m @ [(k, v)]"
  by (induction m) (auto simp: hm_insert_def)

definition separator_ok :: "string \<Rightarrow> bool" where
  "separator_ok sep \<longleftrightarrow> sep \<noteq> [] \<and> (\<forall>c\<in>set sep. is_space c \<and> code c < 128)"

lemma separator_stops: "separator_ok sep \<Longrightarrow> stops (sep @ cs)"
  by (cases sep)
    (auto simp: separator_ok_def stops_def is_symbol_char_def is_alphanumeric_def is_space_def code_def)

lemma parse_slots_reads:
  assumes item: "\<And>k v p cs. (k, v) \<in> set kvs \<Longrightarrow> stops cs \<Longrightarrow> length (encode_term pr v @ cs) < n \<Longrightarrow>
        pt (p, encode_term pr v @ cs) = Parsed v (p + ulen (encode_term pr v), cs)"
    and head: "\<And>k v. (k, v) \<in> set kvs \<Longrightarrow> \<exists>c cs. encode_term pr v = c # cs \<and> solid c"
    and keys: "\<And>k v. (k, v) \<in> set kvs \<Longrightarrow> symbol_ok k"
    and sep: "separator_ok sep"
  shows "length (encode_slots pr sep kvs @ CHR '')'' # rest) < n \<Longrightarrow>
     length (encode_slots pr sep kvs @ CHR '')'' # rest) < m \<Longrightarrow>
     distinct (map fst (acc @ kvs)) \<Longrightarrow>
     pbind (skip_whitespace (p, encode_slots pr sep kvs @ CHR '')'' # rest))
       (\<lambda>_ s. parse_slots m pt acc s)
     = Parsed (acc @ kvs) (p + ulen (encode_slots pr sep kvs), CHR '')'' # rest)"
  using item head keys
proof (induction kvs arbitrary: m p acc)
  case Nil
  then obtain k where "m = Suc k" by (cases m) auto
  then show ?case by (simp add: skip_solid del: skip_whitespace.simps)
next
  case (Cons kv kvs)
  obtain k v where kv: "kv = (k, v)" by (cases kv)
  let ?tail = "encode_slots pr sep kvs @ CHR '')'' # rest"
  let ?start = "p + length sep"
  from Cons.prems(2) sep obtain m' where m: "m = Suc m'" and m': "length ?tail < m'"
    by (cases m) (auto simp: separator_ok_def)
  have k: "symbol_ok k" using Cons.prems(6) [of k v] kv by simp
  obtain c cs where enc: "encode_term pr v = c # cs" "solid c" using Cons.prems(5) [of k v] kv by auto
  have sep_len: "ulen sep = length sep" using sep by (auto simp: separator_ok_def intro!: ulen_ascii)
  have key_len: "ulen k = length k" using k by (auto simp: symbol_ok_def intro!: ulen_ascii)
  have skip: "skip_whitespace (p, sep @ CHR '':'' # k @ '' '' @ encode_term pr v @ ?tail)
      = Parsed () (?start, CHR '':'' # k @ '' '' @ encode_term pr v @ ?tail)"
    using sep skip_spaces by (simp add: separator_ok_def skip_solid del: skip_whitespace.simps)
  have "stops ?tail" by (cases kvs) (simp_all add: separator_stops [OF sep])
  then have val: "pt (q, encode_term pr v @ ?tail)
      = Parsed v (q + ulen (encode_term pr v), ?tail)" for q
    by (rule Cons.prems(4) [rotated]) (use Cons.prems(1) kv in auto)
  have gap: "skip_whitespace (q, '' '' @ encode_term pr v @ ?tail)
      = Parsed () (q + 1, encode_term pr v @ ?tail)" for q
    using skip_spaces [of "'' ''" q "encode_term pr v @ ?tail"] enc
    by (simp add: skip_solid del: skip_whitespace.simps)
  let ?q = "?start + 1 + length k + 1 + ulen (encode_term pr v)"
  have slot: "parse_slot pt (?start, CHR '':'' # k @ '' '' @ encode_term pr v @ ?tail)
      = pbind (skip_whitespace (?q, ?tail)) (\<lambda>_ s. Parsed (k, v) s)"
    using parse_symbol_reads [OF k, of "'' '' @ encode_term pr v @ ?tail"] gap val
    by (simp add: parse_slot_def del: skip_whitespace.simps append.simps)
      (simp add: add.assoc del: skip_whitespace.simps)
  have fresh: "hm_insert k v acc = acc @ [(k, v)]"
    using Cons.prems(3) kv by (intro hm_insert_new) auto
  have "parse_slots m pt acc (?start, CHR '':'' # k @ '' '' @ encode_term pr v @ ?tail)
      = pbind (skip_whitespace (?q, ?tail)) (\<lambda>_ s. parse_slots m' pt (acc @ [(k, v)]) s)"
    using slot by (simp add: m pbind_assoc skip_skip fresh del: skip_whitespace.simps)
  also have "\<dots> = Parsed ((acc @ [(k, v)]) @ kvs)
      (?q + ulen (encode_slots pr sep kvs), CHR '')'' # rest)"
  proof (rule Cons.IH)
    show "length ?tail < n" using Cons.prems(1) by simp
    show "length ?tail < m'" by (rule m')
    show "distinct (map fst ((acc @ [(k, v)]) @ kvs))" using Cons.prems(3) kv by simp
    fix l w assume "(l, w) \<in> set kvs"
    then have "(l, w) \<in> set (kv # kvs)" by simp
    then show "\<exists>c cs. encode_term pr w = c # cs \<and> solid c" "symbol_ok l"
      "\<And>p cs. stops cs \<Longrightarrow> length (encode_term pr w @ cs) < n \<Longrightarrow>
         pt (p, encode_term pr w @ cs) = Parsed w (p + ulen (encode_term pr w), cs)"
      using Cons.prems(4-6) by blast+
  qed
  finally show ?case using skip kv sep_len key_len
    by (simp add: len_utf8_def del: skip_whitespace.simps)
qed

section \<open>Terms\<close>

lemma digit_solid: "is_digit c \<Longrightarrow> solid c"
  using digit_symbol_char [of c] by (auto intro: symbol_char_solid simp: is_digit_def code_def)

lemma int_to_string_head:
  "\<exists>c cs. int_to_string n = c # cs \<and> (c = CHR ''-'' \<or> is_digit c)"
proof -
  obtain d ds where ds: "nat_to_string (nat n) = d # ds" by (cases "nat_to_string (nat n)") auto
  then have "is_digit d" using nat_to_string_digits [of "nat n"] by simp
  with ds show ?thesis by (cases "n < 0") (auto simp: int_to_string_def)
qed

lemma symbol_char_paren: "is_symbol_char c \<Longrightarrow> c \<noteq> CHR '')''"
  by (auto simp: is_symbol_char_def is_alphanumeric_def code_def)

lemma encode_term_head:
  assumes "term_ok t"
  shows "\<exists>c cs. encode_term pr t = c # cs \<and> solid c \<and> c \<noteq> CHR '')'' \<and> c \<noteq> CHR '':''"
proof (cases t)
  case (TInteger n)
  then show ?thesis
    using int_to_string_head [of n] by (auto simp: digit_solid is_digit_def)
next
  case (TAgentId w)
  with assms have "symbol_ok w" by (simp add: agent_ok_def)
  then obtain c cs where "w = c # cs" "is_symbol_char c" "code c < 128"
    using symbol_ok_Cons by blast
  moreover from this have "c \<noteq> CHR '':''"
    by (auto simp: is_symbol_char_def is_alphanumeric_def code_def)
  ultimately show ?thesis using TAgentId symbol_char_paren symbol_char_solid by simp
next
  case (TConcept c)
  then show ?thesis by (cases c) simp
qed (use assms in \<open>auto simp: solid_def is_space_def code_def\<close>)

definition reads_back :: "bool \<Rightarrow> sl_term \<Rightarrow> bool" where
  "reads_back pr t \<longleftrightarrow>
     (\<forall>n p cs. term_ok t \<longrightarrow> stops cs \<longrightarrow> length (encode_term pr t @ cs) < n \<longrightarrow>
        parse_term n (p, encode_term pr t @ cs) = Parsed t (p + ulen (encode_term pr t), cs))"

lemma reads_backD:
  "reads_back pr t \<Longrightarrow> term_ok t \<Longrightarrow> stops cs \<Longrightarrow> length (encode_term pr t @ cs) < n \<Longrightarrow>
     parse_term n (p, encode_term pr t @ cs) = Parsed t (p + ulen (encode_term pr t), cs)"
  unfolding reads_back_def by blast

lemma separator_ok_slot [simp]: "separator_ok (slot_separator pr i)"
  by (auto simp: separator_ok_def slot_separator_def)

lemma parse_slots_encoded:
  assumes "slots_ok kvs" "distinct (map fst kvs)" "separator_ok sep"
    and "\<And>k v. (k, v) \<in> set kvs \<Longrightarrow> reads_back pr v"
    and "length (encode_slots pr sep kvs @ CHR '')'' # rest) < n"
  shows "pbind (skip_whitespace (p, encode_slots pr sep kvs @ CHR '')'' # rest))
       (\<lambda>_ s. parse_slots n (parse_term n) [] s)
     = Parsed kvs (p + ulen (encode_slots pr sep kvs), CHR '')'' # rest)"
proof -
  have ok: "symbol_ok k \<and> term_ok v" if "(k, v) \<in> set kvs" for k v
    using assms(1) that by (auto simp: slots_ok_iff)
  have "pbind (skip_whitespace (p, encode_slots pr sep kvs @ CHR '')'' # rest))
       (\<lambda>_ s. parse_slots n (parse_term n) [] s)
     = Parsed ([] @ kvs) (p + ulen (encode_slots pr sep kvs), CHR '')'' # rest)"
  proof (rule parse_slots_reads [OF _ _ _ assms(3) assms(5,5)])
    fix k v assume kv: "(k, v) \<in> set kvs"
    show "\<exists>c cs. encode_term pr v = c # cs \<and> solid c" using encode_term_head ok [OF kv] by blast
    show "symbol_ok k" using ok [OF kv] by simp
    show "\<And>p cs. stops cs \<Longrightarrow> length (encode_term pr v @ cs) < n \<Longrightarrow>
        parse_term n (p, encode_term pr v @ cs) = Parsed v (p + ulen (encode_term pr v), cs)"
      using reads_backD [OF assms(4) [OF kv]] ok [OF kv] by blast
  qed (use assms(2) in simp)
  then show ?thesis by simp
qed

lemma parse_items_encoded:
  assumes "terms_ok ts" "\<And>t. t \<in> set ts \<Longrightarrow> reads_back pr t"
    and "length (encode_terms pr ts @ CHR '')'' # rest) < n"
  shows "pbind (skip_whitespace (p, encode_terms pr ts @ CHR '')'' # rest))
       (\<lambda>_ s. parse_items n (parse_term n) [] s)
     = Parsed ts (p + ulen (encode_terms pr ts), CHR '')'' # rest)"
  unfolding encode_terms_concat
proof (rule parse_items_reads)
  fix t assume t: "t \<in> set ts"
  then have ok: "term_ok t" using assms(1) by (simp add: terms_ok_iff)
  then show "\<exists>c cs. encode_term pr t = c # cs \<and> solid c \<and> c \<noteq> CHR '')''"
    using encode_term_head by blast
  show "\<And>p cs. stops cs \<Longrightarrow> length (encode_term pr t @ cs) < n \<Longrightarrow>
      parse_term n (p, encode_term pr t @ cs) = Parsed t (p + ulen (encode_term pr t), cs)"
    using reads_backD [OF assms(2) [OF t] ok] .
next
  show "length (concat (map (\<lambda>x. '' '' @ encode_term pr x) ts) @ CHR '')'' # rest) < n"
    using assms(3) by (simp only: encode_terms_concat)
qed

lemma next_paren: "next_char (p, CHR ''('' # cs) = (CHR ''('', p + 1, cs)"
  by (simp add: next_reads len_utf8_def)

lemma ulen_symbol: "symbol_ok w \<Longrightarrow> ulen w = length w"
  by (auto simp: symbol_ok_def intro!: ulen_ascii)

lemma bind_body:
  "pbind p (\<lambda>_ s. g s) = Parsed x s' \<Longrightarrow> pbind p (\<lambda>_ s. pbind (g s) f) = f x s'"
  by (simp flip: pbind_assoc)

lemma parse_nested_concept:
  assumes "concept_ok (MkConcept name kvs)" "name \<noteq> ''set''" "name \<noteq> ''sequence''"
    and "\<And>k v. (k, v) \<in> set kvs \<Longrightarrow> reads_back pr v"
    and "length (encode_concept pr (MkConcept name kvs) 0 @ cs) \<le> n"
  shows "parse_nested n (parse_term n) (p, encode_concept pr (MkConcept name kvs) 0 @ cs)
     = Parsed (TConcept (MkConcept name kvs)) (p + ulen (encode_concept pr (MkConcept name kvs) 0), cs)"
proof -
  let ?body = "encode_slots pr (slot_separator pr 0) kvs @ CHR '')'' # cs"
  have name: "symbol_ok name" using assms(1) by simp
  have "stops ?body" by (cases kvs) (simp_all add: separator_stops)
  then have sym: "parse_symbol (p + 1, name @ ?body) = Parsed name (p + 1 + length name, ?body)"
    by (rule parse_symbol_reads [OF name])
  have slots: "pbind (skip_whitespace (q, ?body)) (\<lambda>_ s. parse_slots n (parse_term n) [] s)
      = Parsed kvs (q + ulen (encode_slots pr (slot_separator pr 0) kvs), CHR '')'' # cs)" for q
    by (rule parse_slots_encoded) (use assms in auto)
  show ?thesis
    using assms(2,3) skip_symbol [OF name] sym
    by (simp add: bind_body [OF slots] parse_nested_def next_paren ulen_symbol [OF name] len_utf8_def
        del: skip_whitespace.simps)
qed

lemma parse_nested_list:
  assumes "terms_ok ts" "\<And>t. t \<in> set ts \<Longrightarrow> reads_back pr t"
    and "length (encode_term pr (TList ts) @ cs) \<le> n"
  shows "parse_nested n (parse_term n) (p, encode_term pr (TList ts) @ cs)
     = Parsed (TList ts) (p + ulen (encode_term pr (TList ts)), cs)"
proof -
  let ?body = "encode_terms pr ts @ CHR '')'' # cs"
  have name: "symbol_ok ''set''"
    by (simp add: symbol_ok_def is_symbol_char_def is_alphanumeric_def code_def)
  have "stops ?body" by (cases ts) simp_all
  then have sym: "parse_symbol (p + 1, ''set'' @ ?body) = Parsed ''set'' (p + 1 + length ''set'', ?body)"
    by (rule parse_symbol_reads [OF name])
  have items: "pbind (skip_whitespace (q, ?body)) (\<lambda>_ s. parse_items n (parse_term n) [] s)
      = Parsed ts (q + ulen (encode_terms pr ts), CHR '')'' # cs)" for q
    by (rule parse_items_encoded) (use assms in auto)
  show ?thesis
    using skip_symbol [OF name, of "p + 1" ?body] sym
    by (simp add: bind_body [OF items] parse_nested_def next_paren len_utf8_def code_def del: skip_whitespace.simps)
qed

lemma word_reads:
  assumes "symbol_ok w" "hd w \<noteq> CHR ''-''" "\<not> is_digit (hd w)" "stops cs"
  shows "parse_term (Suc n) (p, w @ cs)
     = Parsed (if hd w = CHR ''t'' \<or> hd w = CHR ''f'' \<or> hd w = CHR ''n'' then word_term w
               else TAgentId w) (p + length w, cs)"
proof -
  obtain c ds where w: "w = c # ds" "is_symbol_char c" "code c < 128"
    using symbol_ok_Cons [OF assms(1)] by blast
  have c: "c \<noteq> CHR 0x22" "c \<noteq> CHR ''?''" "c \<noteq> CHR ''(''"
    using w(2) by (auto simp: is_symbol_char_def is_alphanumeric_def code_def)
  have "skip_whitespace (p, w @ cs) = Parsed () (p, w @ cs)" by (rule skip_symbol [OF assms(1)])
  moreover have "parse_symbol (p, w @ cs) = Parsed w (p + length w, cs)"
    by (rule parse_symbol_reads [OF assms(1,4)])
  moreover have "peek_char (p, w @ cs) = c" using w by simp
  ultimately show ?thesis
    using c assms(2,3) w(1) by (simp add: Let_def del: skip_whitespace.simps)
qed

lemma word_agent:
  assumes "agent_ok w"
  shows "(if hd w = CHR ''t'' \<or> hd w = CHR ''f'' \<or> hd w = CHR ''n'' then word_term w
          else TAgentId w) = TAgentId w"
  using assms by (simp add: agent_ok_def word_term_def)

lemma literal_symbols:
  "symbol_ok ''true''" "symbol_ok ''false''" "symbol_ok ''null''"
  "symbol_ok ''action''" "symbol_ok ''iota''" "symbol_ok ''any''" "symbol_ok ''all''"
  "symbol_ok ''not''" "symbol_ok ''sequence''"
  by (simp_all add: symbol_ok_def is_symbol_char_def is_alphanumeric_def code_def)

lemma parse_term_paren:
  "parse_term (Suc n) (p, CHR ''('' # cs) = parse_nested n (parse_term n) (p, CHR ''('' # cs)"
  by (simp add: skip_solid del: skip_whitespace.simps)

lemma reads_back: "reads_back pr t"
proof (induction t rule: sl_term.induct
    [where ?P2.0 = "\<lambda>c. \<forall>k v. (k, v) \<in> set (concept_slots c) \<longrightarrow> reads_back pr v"])
  case (TString s)
  have "parse_term n (p, encode_term pr (TString s) @ cs)
      = Parsed (TString s) (p + ulen (encode_term pr (TString s)), cs)"
    if "NUL \<notin> set s" "length (encode_term pr (TString s) @ cs) < n" for n p cs
  proof -
    from that(2) obtain m where m: "n = Suc m" "length (concat (map escape_char s)) < m"
      by (cases n) auto
    show ?thesis
      using parse_string_escaped [OF that(1) m(2)]
      by (simp add: m skip_solid Let_def len_utf8_def del: skip_whitespace.simps)
  qed
  then show ?case by (simp only: reads_back_def term_ok.simps) blast
next
  case (TInteger i)
  have "parse_term n (p, encode_term pr (TInteger i) @ cs)
      = Parsed (TInteger i) (p + ulen (encode_term pr (TInteger i)), cs)"
    if ok: "i64_range i" "stops cs" and n: "length (encode_term pr (TInteger i) @ cs) < n" for n p cs
  proof -
    from n obtain m where m: "n = Suc m" by (cases n) auto
    obtain c ds where c: "int_to_string i = c # ds" "c = CHR ''-'' \<or> is_digit c"
      using int_to_string_head by blast
    then have "solid c" and special: "c \<noteq> CHR 0x22" "c \<noteq> CHR ''?''" "c \<noteq> CHR ''(''"
      by (auto simp: digit_solid is_digit_def)
    moreover have "ulen (int_to_string i) = length (int_to_string i)"
      by (rule ulen_ascii [OF int_to_string_ascii])
    ultimately show ?thesis
      using parse_number_reads [OF ok, of p] c
      by (simp add: m skip_solid Let_def del: skip_whitespace.simps)
  qed
  then show ?case by (simp only: reads_back_def term_ok.simps) blast
next
  case (TBoolean b)
  have "parse_term n (p, encode_term pr (TBoolean b) @ cs)
      = Parsed (TBoolean b) (p + ulen (encode_term pr (TBoolean b)), cs)"
    if "stops cs" "length (encode_term pr (TBoolean b) @ cs) < n" for n p cs
  proof -
    from that(2) obtain m where m: "n = Suc m" by (cases n) auto
    have lit: "\<not> is_digit (CHR ''t'')" "\<not> is_digit (CHR ''f'')" by (simp_all add: is_digit_def)
    show ?thesis
      using word_reads [OF literal_symbols(1) _ _ that(1)] word_reads [OF literal_symbols(2) _ _ that(1)]
      by (simp add: m word_term_def lit len_utf8_def code_def del: parse_term.simps)
  qed
  then show ?case by (simp only: reads_back_def term_ok.simps) blast
next
  case (TAgentId w)
  have "parse_term n (p, encode_term pr (TAgentId w) @ cs)
      = Parsed (TAgentId w) (p + ulen (encode_term pr (TAgentId w)), cs)"
    if ok: "agent_ok w" "stops cs" and n: "length (encode_term pr (TAgentId w) @ cs) < n" for n p cs
  proof -
    from n obtain m where m: "n = Suc m" by (cases n) auto
    have w: "symbol_ok w" "hd w \<noteq> CHR ''-''" "\<not> is_digit (hd w)" using ok(1) by (simp_all add: agent_ok_def)
    show ?thesis
      using word_reads [OF w ok(2), of m p] word_agent [OF ok(1)]
      by (simp add: m ulen_symbol [OF w(1)] del: parse_term.simps)
  qed
  then show ?case by (simp only: reads_back_def term_ok.simps) blast
next
  case (TVariable x)
  have "parse_term n (p, encode_term pr (TVariable x) @ cs)
      = Parsed (TVariable x) (p + ulen (encode_term pr (TVariable x)), cs)"
    if ok: "symbol_ok x" "stops cs" and n: "length (encode_term pr (TVariable x) @ cs) < n" for n p cs
  proof -
    from n obtain m where m: "n = Suc m" by (cases n) auto
    show ?thesis
      using parse_symbol_reads [OF ok, of "p + 1"]
      by (simp add: m skip_solid Let_def next_reads len_utf8_def ulen_symbol [OF ok(1)]
          del: skip_whitespace.simps)
  qed
  then show ?case by (simp only: reads_back_def term_ok.simps) blast
next
  case (TConcept c)
  obtain name kvs where c: "c = MkConcept name kvs" by (cases c)
  have "parse_term n (p, encode_term pr (TConcept c) @ cs)
      = Parsed (TConcept c) (p + ulen (encode_term pr (TConcept c)), cs)"
    if ok: "term_ok (TConcept c)" and n: "length (encode_term pr (TConcept c) @ cs) < n" for n p cs
  proof -
    from n obtain m where m: "n = Suc m" by (cases n) auto
    have "parse_nested m (parse_term m) (p, encode_concept pr (MkConcept name kvs) 0 @ cs)
        = Parsed (TConcept (MkConcept name kvs))
            (p + ulen (encode_concept pr (MkConcept name kvs) 0), cs)"
      by (rule parse_nested_concept) (use ok n m TConcept c in auto)
    then show ?thesis by (simp add: c m parse_term_paren del: parse_term.simps)
  qed
  then show ?case by (simp only: reads_back_def) blast
next
  case (TList ts)
  have "parse_term n (p, encode_term pr (TList ts) @ cs)
      = Parsed (TList ts) (p + ulen (encode_term pr (TList ts)), cs)"
    if ok: "terms_ok ts" and n: "length (encode_term pr (TList ts) @ cs) < n" for n p cs
  proof -
    from n obtain m where m: "n = Suc m" by (cases n) auto
    have "parse_nested m (parse_term m) (p, encode_term pr (TList ts) @ cs)
        = Parsed (TList ts) (p + ulen (encode_term pr (TList ts)), cs)"
      by (rule parse_nested_list) (use ok n m TList in auto)
    then show ?thesis by (simp add: m parse_term_paren del: parse_term.simps)
  qed
  then show ?case by (simp only: reads_back_def term_ok.simps) blast
next
  case TNull
  have "parse_term n (p, encode_term pr TNull @ cs)
      = Parsed TNull (p + ulen (encode_term pr TNull), cs)"
    if "stops cs" "length (encode_term pr TNull @ cs) < n" for n p cs
  proof -
    from that(2) obtain m where m: "n = Suc m" by (cases n) auto
    have lit: "\<not> is_digit (CHR ''n'')" by (simp add: is_digit_def)
    show ?thesis
      using word_reads [OF literal_symbols(3) _ _ that(1)]
      by (simp add: m word_term_def lit len_utf8_def code_def del: parse_term.simps)
  qed
  then show ?case by (simp only: reads_back_def term_ok.simps) blast
next
  case (MkConcept name kvs)
  then show ?case by (auto simp: snds.simps)
qed (simp add: reads_back_def)

section \<open>Content elements\<close>

text \<open>\<open>elem_back pr e\<close>: what the parser of expressions returns on the encoding of \<open>e\<close>.\<close>

definition elem_back :: "bool \<Rightarrow> content_element \<Rightarrow> bool" where
  "elem_back pr e \<longleftrightarrow>
     (\<forall>n p cs. content_ok e \<longrightarrow> length (sl_encode pr e @ cs) + 1 < n \<longrightarrow>
        parse_expression n (p, sl_encode pr e @ cs) = Parsed e (p + ulen (sl_encode pr e), cs))"

lemma elem_backI:
  assumes "\<And>n p cs. content_ok e \<Longrightarrow> length (sl_encode pr e @ cs) < n \<Longrightarrow>
     parse_expression (Suc n) (p, sl_encode pr e @ cs) = Parsed e (p + ulen (sl_encode pr e), cs)"
  shows "elem_back pr e"
  unfolding elem_back_def
proof (intro allI impI)
  fix n p cs assume ok: "content_ok e" and n: "length (sl_encode pr e @ cs) + 1 < n"
  then obtain m where "n = Suc m" "length (sl_encode pr e @ cs) < m" by (cases n) auto
  with assms [OF ok] show "parse_expression n (p, sl_encode pr e @ cs)
      = Parsed e (p + ulen (sl_encode pr e), cs)" by blast
qed

lemma elem_backD:
  "elem_back pr e \<Longrightarrow> content_ok e \<Longrightarrow> length (sl_encode pr e @ cs) + 1 < n \<Longrightarrow>
     parse_expression n (p, sl_encode pr e @ cs) = Parsed e (p + ulen (sl_encode pr e), cs)"
  unfolding elem_back_def by blast

lemma sl_encode_head:
  "content_ok e \<Longrightarrow> \<exists>c cs. sl_encode pr e = c # cs \<and> solid c \<and> c \<noteq> CHR '')''"
proof (cases e)
  case (CConcept c)
  then show ?thesis by (cases c) simp
qed (auto simp: encode_predicate_def encode_action_def)

lemma skip_blank_solid:
  "solid c \<Longrightarrow> skip_whitespace (p, CHR '' '' # c # cs) = Parsed () (p + 1, c # cs)"
  using skip_spaces [of "'' ''" p "c # cs"] by (simp add: skip_solid del: skip_whitespace.simps)

lemma skip_blank_element:
  "content_ok e \<Longrightarrow>
     skip_whitespace (p, CHR '' '' # sl_encode pr e @ cs) = Parsed () (p + 1, sl_encode pr e @ cs)"
  using sl_encode_head [of e pr] by (auto simp: skip_blank_solid simp del: skip_whitespace.simps)

lemma skip_element:
  "content_ok e \<Longrightarrow> skip_whitespace (p, sl_encode pr e @ cs) = Parsed () (p, sl_encode pr e @ cs)"
  using sl_encode_head [of e pr] by (auto simp: skip_solid simp del: skip_whitespace.simps)

lemma headed_reads:
  assumes "symbol_ok w" "stops cs"
  shows "parse_expression (Suc n) (p, CHR ''('' # w @ cs)
     = pbind (skip_whitespace (p + 1 + length w, cs))
         (\<lambda>_ s. parse_headed n (parse_expression n) w s)"
  using skip_symbol [OF assms(1)] parse_symbol_reads [OF assms]
  by (simp add: skip_solid Let_def parse_list_expression_def del: skip_whitespace.simps)

lemma not_keyword:
  "w \<notin> set keywords_sl \<Longrightarrow> parse_headed n pe w s = parse_concept_or_predicate n w s"
  by (simp add: keywords_sl_def parse_headed_def)

lemma elem_back_concept: "elem_back pr (CConcept c)"
proof (rule elem_backI)
  fix n p cs
  obtain name kvs where c: "c = MkConcept name kvs" by (cases c)
  assume ok: "content_ok (CConcept c)" and n: "length (sl_encode pr (CConcept c) @ cs) < n"
  let ?sep = "slot_separator pr 0"
  let ?body = "encode_slots pr ?sep kvs @ CHR '')'' # cs"
  let ?q = "p + 1 + length name"
  have name: "symbol_ok name" "name \<notin> set keywords_sl" using ok c by simp_all
  have "stops ?body" by (cases kvs) (simp_all add: separator_stops)
  then have head: "parse_expression (Suc n) (p, CHR ''('' # name @ ?body)
      = pbind (skip_whitespace (?q, ?body)) (\<lambda>_ s. parse_concept_or_predicate n name s)"
    using headed_reads [OF name(1), of ?body n p] not_keyword [OF name(2)] by simp
  have slots: "pbind (skip_whitespace (?q, ?body)) (\<lambda>_ s. parse_slots n (parse_term n) [] s)
      = Parsed kvs (?q + ulen (encode_slots pr ?sep kvs), CHR '')'' # cs)"
    by (rule parse_slots_encoded) (use ok n c reads_back in auto)
  have "pbind (skip_whitespace (?q, ?body)) (\<lambda>_ s. parse_concept_or_predicate n name s)
      = Parsed (CConcept (MkConcept name kvs)) (?q + ulen (encode_slots pr ?sep kvs) + 1, cs)"
  proof (cases kvs)
    case Nil
    then show ?thesis
      by (simp add: parse_concept_or_predicate_def skip_solid concept_new_def del: skip_whitespace.simps)
  next
    case (Cons kv kvs')
    have "skip_whitespace (?q, ?sep @ CHR '':'' # fst kv @ '' '' @ encode_term pr (snd kv) @
          encode_slots pr ?sep kvs' @ CHR '')'' # cs)
        = Parsed () (?q + length ?sep, CHR '':'' # fst kv @ '' '' @ encode_term pr (snd kv) @
          encode_slots pr ?sep kvs' @ CHR '')'' # cs)"
      using skip_spaces separator_ok_slot by (simp add: separator_ok_def skip_solid del: skip_whitespace.simps)
    then have at_colon: "skip_whitespace (?q, ?body) = Parsed () (?q + length ?sep, CHR '':'' #
        fst kv @ '' '' @ encode_term pr (snd kv) @ encode_slots pr ?sep kvs' @ CHR '')'' # cs)"
      using Cons by simp
    have "parse_slots n (parse_term n) [] (?q + length ?sep, CHR '':'' #
        fst kv @ '' '' @ encode_term pr (snd kv) @ encode_slots pr ?sep kvs' @ CHR '')'' # cs)
      = Parsed kvs (?q + ulen (encode_slots pr ?sep kvs), CHR '')'' # cs)"
      using slots unfolding at_colon by simp
    then show ?thesis
      unfolding at_colon
      by (simp add: parse_concept_or_predicate_def skip_solid del: skip_whitespace.simps)
  qed
  then show "parse_expression (Suc n) (p, sl_encode pr (CConcept c) @ cs)
      = Parsed (CConcept c) (p + ulen (sl_encode pr (CConcept c)), cs)"
    using head by (simp add: c ulen_symbol [OF name(1)] len_utf8_def del: parse_expression.simps)
qed

lemma elem_back_predicate: "elem_back pr (CPredicate q)"
proof (rule elem_backI)
  fix n p cs
  assume ok: "content_ok (CPredicate q)" and n: "length (sl_encode pr (CPredicate q) @ cs) < n"
  obtain t ts where args: "pred_arguments q = t # ts" using ok by (cases "pred_arguments q") auto
  let ?name = "pred_name q"
  let ?body = "encode_terms pr (pred_arguments q) @ CHR '')'' # cs"
  let ?p = "p + 1 + length ?name"
  have name: "symbol_ok ?name" "?name \<notin> set keywords_sl" using ok by simp_all
  have "stops ?body" using args by simp
  then have head: "parse_expression (Suc n) (p, CHR ''('' # ?name @ ?body)
      = pbind (skip_whitespace (?p, ?body)) (\<lambda>_ s. parse_concept_or_predicate n ?name s)"
    using headed_reads [OF name(1), of ?body n p] not_keyword [OF name(2)] by simp
  have items: "pbind (skip_whitespace (?p, ?body)) (\<lambda>_ s. parse_items n (parse_term n) [] s)
      = Parsed (pred_arguments q) (?p + ulen (encode_terms pr (pred_arguments q)), CHR '')'' # cs)"
    by (rule parse_items_encoded) (use ok n reads_back in \<open>auto simp: encode_predicate_def\<close>)
  obtain c ds where c: "encode_term pr t = c # ds" "solid c" "c \<noteq> CHR '')''" "c \<noteq> CHR '':''"
    using encode_term_head [of t pr] ok args by auto
  let ?rest = "encode_term pr t @ encode_terms pr ts @ CHR '')'' # cs"
  have first: "skip_whitespace (?p, ?body) = Parsed () (?p + 1, ?rest)"
    "skip_whitespace (?p + 1, ?rest) = Parsed () (?p + 1, ?rest)" "peek_char (?p + 1, ?rest) = c"
    using args c skip_blank_solid [of c ?p] by (simp_all add: skip_solid del: skip_whitespace.simps)
  have "parse_items n (parse_term n) [] (?p + 1, ?rest)
      = Parsed (pred_arguments q) (?p + ulen (encode_terms pr (pred_arguments q)), CHR '')'' # cs)"
    using items unfolding first by simp
  then have "pbind (skip_whitespace (?p, ?body)) (\<lambda>_ s. parse_concept_or_predicate n ?name s)
      = Parsed (CPredicate q) (?p + ulen (encode_terms pr (pred_arguments q)) + 1, cs)"
    unfolding first(1) pbind_simps parse_concept_or_predicate_def first(2) first(3)
    using c by simp
  then show "parse_expression (Suc n) (p, sl_encode pr (CPredicate q) @ cs)
      = Parsed (CPredicate q) (p + ulen (sl_encode pr (CPredicate q)), cs)"
    using head by (simp add: encode_predicate_def ulen_symbol [OF name(1)] len_utf8_def
        del: parse_expression.simps)
qed

definition action_separator :: "bool \<Rightarrow> string" where
  "action_separator pr = (if pr then CHR 0x0A # ''    '' else '' '')"

lemma separator_ok_action: "separator_ok (action_separator pr)"
  by (auto simp: separator_ok_def action_separator_def)

lemma encode_action_separator:
  "encode_action pr a =
     ''(action'' @ (case actor a of Some w \<Rightarrow> '' '' @ w | None \<Rightarrow> '''')
       @ '' ('' @ action_name a @ encode_slots pr (action_separator pr) (arguments a) @ ''))''"
  by (simp add: encode_action_def action_separator_def)

text \<open>The part of an action after its actor.\<close>

lemma action_tail_reads:
  assumes "symbol_ok name" "slots_ok kvs" "distinct (map fst kvs)"
    and "length (encode_slots pr (action_separator pr) kvs @ CHR '')'' # CHR '')'' # cs) < n"
  shows "pbind (skip_whitespace (p, name @ encode_slots pr (action_separator pr) kvs
          @ CHR '')'' # CHR '')'' # cs)) (\<lambda>_ s.
       pbind (parse_symbol s) (\<lambda>name s.
       pbind (skip_whitespace s) (\<lambda>_ s.
       pbind (parse_slots n (parse_term n) [] s) (\<lambda>args s.
       pbind (expect_char (CHR '')'') s) (\<lambda>_ s.
       pbind (skip_whitespace s) (\<lambda>_ s.
       pbind (expect_char (CHR '')'') s) (\<lambda>_ s. f name args s)))))))
     = f name kvs
         (p + 2 + length name + ulen (encode_slots pr (action_separator pr) kvs), cs)"
proof -
  let ?body = "encode_slots pr (action_separator pr) kvs @ CHR '')'' # CHR '')'' # cs"
  have "stops ?body" by (cases kvs) (simp_all add: separator_stops [OF separator_ok_action])
  then have sym: "parse_symbol (p, name @ ?body) = Parsed name (p + length name, ?body)"
    by (rule parse_symbol_reads [OF assms(1)])
  have slots: "pbind (skip_whitespace (q, ?body)) (\<lambda>_ s. parse_slots n (parse_term n) [] s)
      = Parsed kvs (q + ulen (encode_slots pr (action_separator pr) kvs), CHR '')'' # CHR '')'' # cs)"
    for q
    by (rule parse_slots_encoded) (use assms reads_back separator_ok_action in auto)
  show ?thesis
    using sym skip_symbol [OF assms(1)]
    by (simp add: skip_solid bind_body [OF slots] eval_nat_numeral del: skip_whitespace.simps)
qed

lemma elem_back_action: "elem_back pr (CAction a)"
proof (rule elem_backI)
  fix n p cs
  assume ok: "content_ok (CAction a)" and n: "length (sl_encode pr (CAction a) @ cs) < n"
  let ?slots = "encode_slots pr (action_separator pr) (arguments a)"
  let ?tail = "CHR ''('' # action_name a @ ?slots @ CHR '')'' # CHR '')'' # cs"
  have args: "symbol_ok (action_name a)" "slots_ok (arguments a)" "distinct (map fst (arguments a))"
    using ok by simp_all
  have len: "length (?slots @ CHR '')'' # CHR '')'' # cs) < n"
    using n by (simp add: encode_action_separator)
  note tail = action_tail_reads [OF args len]
  show "parse_expression (Suc n) (p, sl_encode pr (CAction a) @ cs)
      = Parsed (CAction a) (p + ulen (sl_encode pr (CAction a)), cs)"
  proof (cases "actor a")
    case None
    have "parse_expression (Suc n) (p, CHR ''('' # ''action'' @ CHR '' '' # ?tail)
        = pbind (skip_whitespace (p + 8, ?tail)) (\<lambda>_ s. parse_action_body n s)"
      using headed_reads [OF literal_symbols(4), of "CHR '' '' # ?tail" n p]
      by (simp add: parse_headed_def eval_nat_numeral skip_blank_solid skip_solid del: skip_whitespace.simps parse_expression.simps)
    also have "\<dots> = Parsed (CAction a) (p + 8 + 3 + length (action_name a) + ulen ?slots, cs)"
      using None by (simp add: parse_action_body_def eval_nat_numeral skip_solid tail [simplified] del: skip_whitespace.simps)
    finally show ?thesis
      using None by (simp add: encode_action_separator ulen_symbol [OF args(1)] len_utf8_def code_def
          del: parse_expression.simps)
  next
    case (Some w)
    have w: "symbol_ok w" using ok Some by simp
    obtain c ds where c: "w = c # ds" "is_symbol_char c" using symbol_ok_Cons [OF w] by blast
    have paren: "c \<noteq> CHR ''(''" using c(2) by (auto simp: is_symbol_char_def is_alphanumeric_def code_def)
    have blank: "skip_whitespace (q, CHR '' '' # w @ CHR '' '' # ?tail)
        = Parsed () (q + 1, w @ CHR '' '' # ?tail)" for q
      using skip_spaces [of "'' ''" q "w @ CHR '' '' # ?tail"] skip_symbol [OF w]
      by (simp del: skip_whitespace.simps)
    have "parse_expression (Suc n) (p, CHR ''('' # ''action'' @ CHR '' '' # w @ CHR '' '' # ?tail)
        = parse_action_body n (p + 8, w @ CHR '' '' # ?tail)"
      using headed_reads [OF literal_symbols(4), of "CHR '' '' # w @ CHR '' '' # ?tail" n p] blank
      by (simp add: parse_headed_def eval_nat_numeral del: skip_whitespace.simps parse_expression.simps)
    also have "\<dots> = Parsed (CAction a)
        (p + 8 + length w + 1 + 3 + length (action_name a) + ulen ?slots, cs)"
      using Some skip_symbol [OF w] parse_symbol_reads [OF w, of "CHR '' '' # ?tail"] c(1) paren
      by (simp add: parse_action_body_def eval_nat_numeral skip_blank_solid skip_solid tail [simplified]
          del: skip_whitespace.simps)
    finally show ?thesis
      using Some by (simp add: encode_action_separator ulen_symbol [OF args(1)] ulen_symbol [OF w]
          len_utf8_def code_def del: parse_expression.simps)
  qed
qed

lemma referential_reads:
  assumes "symbol_ok kw" "symbol_ok x" "content_ok e" "elem_back pr e"
    and "length (sl_encode pr e @ CHR '')'' # cs) + 1 < n"
    and "\<And>s. parse_headed n (parse_expression n) kw s = parse_referential (parse_expression n) kind s"
  shows "parse_expression (Suc n) (p, CHR ''('' # kw @ '' ?'' @ x @ CHR '' '' # sl_encode pr e @ CHR '')'' # cs)
     = Parsed (kind x e) (p + 5 + length kw + length x + ulen (sl_encode pr e), cs)"
proof -
  let ?rest = "CHR '' '' # sl_encode pr e @ CHR '')'' # cs"
  have "parse_expression (Suc n) (p, CHR ''('' # kw @ '' ?'' @ x @ ?rest)
      = parse_referential (parse_expression n) kind (p + 2 + length kw, CHR ''?'' # x @ ?rest)"
    using headed_reads [OF assms(1), of "'' ?'' @ x @ ?rest" n p] assms(6)
    by (simp add: skip_blank_solid eval_nat_numeral del: skip_whitespace.simps parse_expression.simps)
  also have "\<dots> = Parsed (kind x e) (p + 5 + length kw + length x + ulen (sl_encode pr e), cs)"
    using parse_symbol_reads [OF assms(2), of ?rest] skip_blank_element [OF assms(3)]
      elem_backD [OF assms(4,3,5)]
    by (simp add: parse_referential_def eval_nat_numeral skip_solid del: skip_whitespace.simps parse_expression.simps)
  finally show ?thesis .
qed

lemma elem_back_referential:
  assumes "elem_back pr e"
  shows "elem_back pr (CIota x e)" "elem_back pr (CAny x e)" "elem_back pr (CAll x e)"
proof -
  show "elem_back pr (CIota x e)"
  proof (rule elem_backI)
    fix n p cs
    assume ok: "content_ok (CIota x e)" and n: "length (sl_encode pr (CIota x e) @ cs) < n"
    have "parse_expression (Suc n) (p, CHR ''('' # ''iota'' @ '' ?'' @ x @ CHR '' '' # sl_encode pr e @ CHR '')'' # cs)
        = Parsed (CIota x e) (p + 5 + length ''iota'' + length x + ulen (sl_encode pr e), cs)"
      by (rule referential_reads [OF literal_symbols(5) _ _ assms])
        (use ok n in \<open>simp_all add: parse_headed_def\<close>)
    then show "parse_expression (Suc n) (p, sl_encode pr (CIota x e) @ cs)
        = Parsed (CIota x e) (p + ulen (sl_encode pr (CIota x e)), cs)"
      using ok by (simp add: ulen_symbol len_utf8_def code_def del: parse_expression.simps)
  qed
  show "elem_back pr (CAny x e)"
  proof (rule elem_backI)
    fix n p cs
    assume ok: "content_ok (CAny x e)" and n: "length (sl_encode pr (CAny x e) @ cs) < n"
    have "parse_expression (Suc n) (p, CHR ''('' # ''any'' @ '' ?'' @ x @ CHR '' '' # sl_encode pr e @ CHR '')'' # cs)
        = Parsed (CAny x e) (p + 5 + length ''any'' + length x + ulen (sl_encode pr e), cs)"
      by (rule referential_reads [OF literal_symbols(6) _ _ assms])
        (use ok n in \<open>simp_all add: parse_headed_def\<close>)
    then show "parse_expression (Suc n) (p, sl_encode pr (CAny x e) @ cs)
        = Parsed (CAny x e) (p + ulen (sl_encode pr (CAny x e)), cs)"
      using ok by (simp add: ulen_symbol len_utf8_def code_def del: parse_expression.simps)
  qed
  show "elem_back pr (CAll x e)"
  proof (rule elem_backI)
    fix n p cs
    assume ok: "content_ok (CAll x e)" and n: "length (sl_encode pr (CAll x e) @ cs) < n"
    have "parse_expression (Suc n) (p, CHR ''('' # ''all'' @ '' ?'' @ x @ CHR '' '' # sl_encode pr e @ CHR '')'' # cs)
        = Parsed (CAll x e) (p + 5 + length ''all'' + length x + ulen (sl_encode pr e), cs)"
      by (rule referential_reads [OF literal_symbols(7) _ _ assms])
        (use ok n in \<open>simp_all add: parse_headed_def\<close>)
    then show "parse_expression (Suc n) (p, sl_encode pr (CAll x e) @ cs)
        = Parsed (CAll x e) (p + ulen (sl_encode pr (CAll x e)), cs)"
      using ok by (simp add: ulen_symbol len_utf8_def code_def del: parse_expression.simps)
  qed
qed

lemma elem_back_proposition:
  assumes "elem_back pr e"
  shows "elem_back pr (CProposition e b)"
proof (rule elem_backI)
  fix n p cs
  assume ok: "content_ok (CProposition e b)" and n: "length (sl_encode pr (CProposition e b) @ cs) < n"
  have e: "content_ok e" and b: "\<not> b" using ok by simp_all
  have "length (sl_encode pr e @ CHR '')'' # cs) + 1 < n" using n b by simp
  note inner = elem_backD [OF assms e this]
  have "parse_expression (Suc n) (p, CHR ''('' # ''not'' @ CHR '' '' # sl_encode pr e @ CHR '')'' # cs)
      = parse_not (parse_expression n) (p + 5, sl_encode pr e @ CHR '')'' # cs)"
    using headed_reads [OF literal_symbols(8), of "CHR '' '' # sl_encode pr e @ CHR '')'' # cs" n p]
    by (simp add: parse_headed_def eval_nat_numeral skip_blank_element [OF e] del: skip_whitespace.simps parse_expression.simps)
  also have "\<dots> = Parsed (CProposition e False) (p + 6 + ulen (sl_encode pr e), cs)"
    using inner by (simp add: parse_not_def eval_nat_numeral skip_element [OF e] skip_solid
        del: skip_whitespace.simps parse_expression.simps)
  finally show "parse_expression (Suc n) (p, sl_encode pr (CProposition e b) @ cs)
      = Parsed (CProposition e b) (p + ulen (sl_encode pr (CProposition e b)), cs)"
    using b by (simp add: len_utf8_def code_def del: parse_expression.simps)
qed

lemma parse_elements_encoded:
  assumes "contents_ok es" "\<And>e. e \<in> set es \<Longrightarrow> elem_back pr e"
    and "length (sl_encode_all pr es @ CHR '')'' # rest) + 1 < n"
  shows "pbind (skip_whitespace (p, sl_encode_all pr es @ CHR '')'' # rest))
       (\<lambda>_ s. parse_elements n (parse_expression n) [] s)
     = Parsed es (p + ulen (sl_encode_all pr es), CHR '')'' # rest)"
proof -
  have step: "parse_elements (Suc m) (parse_expression n) items s =
      (if peek_char s \<noteq> CHR '')'' \<and> snd s \<noteq> [] then
         pbind (parse_expression n s) (\<lambda>t s. pbind (skip_whitespace s)
           (\<lambda>_ s. parse_elements m (parse_expression n) (items @ [t]) s))
       else Parsed items s)" for m items s by simp
  have ok: "content_ok e" if "e \<in> set es" for e using assms(1) that by (simp add: contents_ok_iff)
  have "pbind (skip_whitespace (p, concat (map (\<lambda>x. '' '' @ sl_encode pr x) es) @ CHR '')'' # rest))
       (\<lambda>_ s. parse_elements n (parse_expression n) [] s)
     = Parsed ([] @ es) (p + ulen (concat (map (\<lambda>x. '' '' @ sl_encode pr x) es)), CHR '')'' # rest)"
  proof (rule loop_reads [where loop = "\<lambda>m. parse_elements m (parse_expression n)" and n = "n - 1",
        OF step])
    fix e assume e: "e \<in> set es"
    show "\<exists>c cs. sl_encode pr e = c # cs \<and> solid c \<and> c \<noteq> CHR '')''"
      by (rule sl_encode_head [OF ok [OF e]])
    fix p cs assume "length (sl_encode pr e @ cs) < n - 1"
    then have "length (sl_encode pr e @ cs) + 1 < n" by linarith
    then show "parse_expression n (p, sl_encode pr e @ cs) = Parsed e (p + ulen (sl_encode pr e), cs)"
      by (rule elem_backD [OF assms(2) [OF e] ok [OF e]])
  qed (use assms(3) in \<open>simp_all add: sl_encode_all_concat\<close>)
  then show ?thesis by (simp add: sl_encode_all_concat del: skip_whitespace.simps)
qed

lemma elem_back_sequence:
  assumes "\<And>e. e \<in> set es \<Longrightarrow> elem_back pr e"
  shows "elem_back pr (CSequence es)"
proof (rule elem_backI)
  fix n p cs
  assume ok: "content_ok (CSequence es)" and n: "length (sl_encode pr (CSequence es) @ cs) < n"
  let ?body = "sl_encode_all pr es @ CHR '')'' # cs"
  have elems: "pbind (skip_whitespace (q, ?body)) (\<lambda>_ s. parse_elements n (parse_expression n) [] s)
     = Parsed es (q + ulen (sl_encode_all pr es), CHR '')'' # cs)" for q
    by (rule parse_elements_encoded) (use ok n assms in auto)
  have "stops ?body" by (cases es) simp_all
  from headed_reads [OF literal_symbols(9) this, of n p]
  have "parse_expression (Suc n) (p, CHR ''('' # ''sequence'' @ ?body)
      = Parsed (CSequence es) (p + 10 + ulen (sl_encode_all pr es), cs)"
    by (simp add: parse_headed_def parse_sequence_def skip_skip bind_body [OF elems] eval_nat_numeral
        del: skip_whitespace.simps parse_expression.simps)
  then show "parse_expression (Suc n) (p, sl_encode pr (CSequence es) @ cs)
      = Parsed (CSequence es) (p + ulen (sl_encode pr (CSequence es)), cs)"
    by (simp add: len_utf8_def code_def eval_nat_numeral del: parse_expression.simps)
qed

lemma elem_back_raw: "elem_back pr (CRaw s)"
proof (rule elem_backI)
  fix n p cs
  assume ok: "content_ok (CRaw s)" and n: "length (sl_encode pr (CRaw s) @ cs) < n"
  then have "string_loop n '''' (p + 1, s @ CHR 0x22 # cs) = Parsed s (p + 1 + ulen s + 1, cs)"
    using raw_not_escaped [of s n "''''" "p + 1" cs] by simp
  then show "parse_expression (Suc n) (p, sl_encode pr (CRaw s) @ cs)
      = Parsed (CRaw s) (p + ulen (sl_encode pr (CRaw s)), cs)"
    by (simp add: skip_solid Let_def parse_string_def len_utf8_def del: skip_whitespace.simps)
qed

lemma elem_back: "elem_back pr e"
proof (induction e)
  case (CProposition e b)
  then show ?case by (rule elem_back_proposition)
qed (simp_all add: elem_back_concept elem_back_predicate elem_back_action elem_back_referential
    elem_back_sequence elem_back_raw)

lemma sl_decode_encode:
  assumes "content_ok e" and "length (sl_encode pretty e) + 2 \<le> n"
  shows "sl_decode n (sl_encode pretty e) = Decoded_Ok e"
proof -
  have "parse_expression n (0, sl_encode pretty e @ []) = Parsed e (0 + ulen (sl_encode pretty e), [])"
    by (rule elem_backD [OF elem_back assms(1)]) (use assms(2) in simp)
  moreover have "skip_whitespace (0, sl_encode pretty e @ []) = Parsed () (0, sl_encode pretty e @ [])"
    by (rule skip_element [OF assms(1)])
  moreover have "sl_encode pretty e \<noteq> []" using sl_encode_head [OF assms(1), of pretty] by auto
  ultimately show ?thesis by (simp add: sl_decode_def sl_parse_def)
qed

section \<open>Properties\<close>


definition sample_element :: content_element where
  "sample_element =
     CIota ''x'' (CProposition (CConcept (MkConcept ''agent-description''
       [(''name'', TString [CHR ''a'', CHR 0x22, CHR 0x0A]), (''rank'', TInteger (- 12)),
        (''of'', TList [TAgentId ''df'', TConcept (MkConcept ''s'' []), TVariable ''y'', TNull])])) False)"


text \<open>
  What does not survive the trip. Each of these pairs of different contents has one encoding,
  so that no decoder can tell them apart: a true proposition and the element inside it, a predicate
  without arguments and the concept of that name without slots, an agent named \<open>true\<close> (or
  \<open>null\<close>) and the literal.
\<close>

theorem sl_encoding_ambiguous:
  "sl_encode pretty (CProposition e True) = sl_encode pretty e
   \<and> sl_encode pretty (CPredicate (predicate_new name)) = sl_encode pretty (CConcept (concept_new name))
   \<and> sl_encode pretty (CPredicate (with_arg (TAgentId ''true'') p))
       = sl_encode pretty (CPredicate (with_arg (TBoolean True) p))
   \<and> sl_encode pretty (CPredicate (with_arg (TAgentId ''null'') p))
       = sl_encode pretty (CPredicate (with_arg TNull p))"
  by (simp add: encode_predicate_def predicate_new_def concept_new_def with_arg_def encode_terms_concat)

end
