(* ===== verification/Content_Manager.thy ===== *)
theory Content_Manager
  imports Sl_Roundtrip Keyed_Store
begin

text \<open>
  The content framework around the codecs (\<open>content/codec.rs\<close>, \<open>content/mod.rs\<close>): the registry
  of codecs, the content manager with its default codecs and ontologies, and the string encoder.

  A codec is the record of its methods. The SL codec takes the fuel of its parser. The JSON codec
  calls \<open>serde_json\<close>, which is not part of the sources: its two functions are parameters. Bytes
  are the text they spell. Decoding may also panic or not return, so the manager's \<open>decode\<close> has
  these outcomes beside the \<open>Result\<close> of the code.

  The composition theorem at the end states what a client of the manager relies on: validating,
  encoding and decoding one element through the registered names.
\<close>

section \<open>Codecs and their registry\<close>

record content_codec =
  codec_language :: string
  codec_name :: string
  codec_encode :: "content_element \<Rightarrow> codec_error + string"
  codec_decode :: "string \<Rightarrow> decode_result"

definition codec_supports :: "content_codec \<Rightarrow> string \<Rightarrow> bool" where
  "codec_supports c language \<longleftrightarrow> codec_language c = language \<or> codec_name c = language"

type_synonym codec_registry = "(string, content_codec) hashmap"

definition codec_registry_new :: codec_registry where
  "codec_registry_new = []"

definition codec_register :: "content_codec \<Rightarrow> codec_registry \<Rightarrow> codec_registry" where
  "codec_register c r = hm_insert (codec_name c) c r"

definition codec_get :: "codec_registry \<Rightarrow> string \<Rightarrow> content_codec option" where
  "codec_get r name = hm_get r name"

text \<open>\<open>order\<close> is the iteration order of the map's values.\<close>

definition find_by_language ::
    "(content_codec list \<Rightarrow> content_codec list) \<Rightarrow> codec_registry \<Rightarrow> string \<Rightarrow> content_codec option" where
  "find_by_language order r language = find (\<lambda>c. codec_supports c language) (order (hm_values r))"

definition codec_list :: "codec_registry \<Rightarrow> string list" where
  "codec_list r = map fst r"

definition codec_contains :: "codec_registry \<Rightarrow> string \<Rightarrow> bool" where
  "codec_contains r name = hm_contains r name"

definition codec_remove :: "string \<Rightarrow> codec_registry \<Rightarrow> content_codec option \<times> codec_registry" where
  "codec_remove name r = (hm_get r name, hm_remove name r)"

definition sl_codec :: "nat \<Rightarrow> bool \<Rightarrow> content_codec" where
  "sl_codec fuel pretty =
     \<lparr>codec_language = ''fipa-sl'', codec_name = ''fipa-sl'',
      codec_encode = (\<lambda>e. Inr (sl_encode pretty e)), codec_decode = sl_decode fuel\<rparr>"

text \<open>\<open>to_vec\<close> and \<open>from_slice\<close> stand for \<open>serde_json\<close>; both return a message on failure.\<close>

definition json_codec ::
    "(content_element \<Rightarrow> string + string) \<Rightarrow> (string \<Rightarrow> string + content_element) \<Rightarrow> content_codec" where
  "json_codec to_vec from_slice =
     \<lparr>codec_language = ''application/json'', codec_name = ''json'',
      codec_encode = (\<lambda>e. case to_vec e of Inl m \<Rightarrow> Inl (EncodingFailed m) | Inr s \<Rightarrow> Inr s),
      codec_decode = (\<lambda>s. case from_slice s of Inl m \<Rightarrow> Decode_Err (DecodingFailed m)
                                              | Inr e \<Rightarrow> Decoded_Ok e)\<rparr>"

section \<open>The content manager\<close>

datatype content_error =
    CodecFailed codec_error
  | OntologyFailed ontology_error
  | UnknownCodec string
  | UnknownOntology string
  | ContentValidationFailed string

record content_manager =
  codecs :: codec_registry
  ontologies :: ontology_registry
  default_codec :: "string option"
  default_ontology :: "string option"

definition manager_new :: content_manager where
  "manager_new = \<lparr>codecs = [], ontologies = [], default_codec = None, default_ontology = None\<rparr>"

definition with_default_codecs ::
    "nat \<Rightarrow> (content_element \<Rightarrow> string + string) \<Rightarrow> (string \<Rightarrow> string + content_element) \<Rightarrow>
       content_manager \<Rightarrow> content_manager" where
  "with_default_codecs fuel to_vec from_slice m =
     m\<lparr>codecs := codec_register (json_codec to_vec from_slice)
                   (codec_register (sl_codec fuel False) (codecs m)),
       default_codec := Some ''fipa-sl''\<rparr>"

definition with_default_ontologies :: "content_manager \<Rightarrow> content_manager" where
  "with_default_ontologies m =
     m\<lparr>ontologies := ontology_register fipa_ping
                       (ontology_register fipa_agent_management (ontologies m)),
       default_ontology := Some ''fipa-agent-management''\<rparr>"

definition register_codec :: "content_codec \<Rightarrow> content_manager \<Rightarrow> content_manager" where
  "register_codec c m = m\<lparr>codecs := codec_register c (codecs m)\<rparr>"

definition register_ontology :: "ontology \<Rightarrow> content_manager \<Rightarrow> content_manager" where
  "register_ontology ont m = m\<lparr>ontologies := ontology_register ont (ontologies m)\<rparr>"

definition set_default_codec :: "string \<Rightarrow> content_manager \<Rightarrow> content_manager" where
  "set_default_codec name m = m\<lparr>default_codec := Some name\<rparr>"

definition set_default_ontology :: "string \<Rightarrow> content_manager \<Rightarrow> content_manager" where
  "set_default_ontology name m = m\<lparr>default_ontology := Some name\<rparr>"

definition manager_encode ::
    "content_manager \<Rightarrow> string \<Rightarrow> content_element \<Rightarrow> content_error + string" where
  "manager_encode m name e =
     (case codec_get (codecs m) name of
        None \<Rightarrow> Inl (UnknownCodec name)
      | Some c \<Rightarrow>
          (case codec_encode c e of Inl err \<Rightarrow> Inl (CodecFailed err) | Inr s \<Rightarrow> Inr s))"

definition encode_default :: "content_manager \<Rightarrow> content_element \<Rightarrow> content_error + string" where
  "encode_default m e =
     (case default_codec m of
        None \<Rightarrow> Inl (UnknownCodec ''no default codec'')
      | Some name \<Rightarrow> manager_encode m name e)"

datatype manager_decoded =
    Managed "content_error + content_element"
  | Manager_Panic
  | Manager_Runs

definition manager_decode :: "content_manager \<Rightarrow> string \<Rightarrow> string \<Rightarrow> manager_decoded" where
  "manager_decode m name s =
     (case codec_get (codecs m) name of
        None \<Rightarrow> Managed (Inl (UnknownCodec name))
      | Some c \<Rightarrow>
          (case codec_decode c s of
             Decoded_Ok e \<Rightarrow> Managed (Inr e)
           | Decode_Err err \<Rightarrow> Managed (Inl (CodecFailed err))
           | Decode_Panic \<Rightarrow> Manager_Panic
           | Decode_Runs \<Rightarrow> Manager_Runs))"

definition decode_default :: "content_manager \<Rightarrow> string \<Rightarrow> manager_decoded" where
  "decode_default m s =
     (case default_codec m of
        None \<Rightarrow> Managed (Inl (UnknownCodec ''no default codec''))
      | Some name \<Rightarrow> manager_decode m name s)"

definition manager_validate ::
    "content_manager \<Rightarrow> string \<Rightarrow> content_element \<Rightarrow> content_error + unit" where
  "manager_validate m name e =
     (case ontology_get (ontologies m) name of
        None \<Rightarrow> Inl (UnknownOntology name)
      | Some ont \<Rightarrow>
          (case ontology_validate ont e of Inl err \<Rightarrow> Inl (OntologyFailed err) | Inr _ \<Rightarrow> Inr ()))"

definition validate_default :: "content_manager \<Rightarrow> content_element \<Rightarrow> content_error + unit" where
  "validate_default m e =
     (case default_ontology m of
        None \<Rightarrow> Inl (UnknownOntology ''no default ontology'')
      | Some name \<Rightarrow> manager_validate m name e)"

definition encode_validated ::
    "content_manager \<Rightarrow> string \<Rightarrow> string \<Rightarrow> content_element \<Rightarrow> content_error + string" where
  "encode_validated m codec_nm ontology_nm e =
     (case manager_validate m ontology_nm e of
        Inl err \<Rightarrow> Inl err
      | Inr _ \<Rightarrow> manager_encode m codec_nm e)"

definition available_codecs :: "content_manager \<Rightarrow> string list" where
  "available_codecs m = codec_list (codecs m)"

definition available_ontologies :: "content_manager \<Rightarrow> string list" where
  "available_ontologies m = ontology_list (ontologies m)"

definition manager_get_schema :: "content_manager \<Rightarrow> string \<Rightarrow> string \<Rightarrow> schema option" where
  "manager_get_schema m ontology_nm schema_nm =
     (case ontology_get (ontologies m) ontology_nm of
        None \<Rightarrow> None
      | Some ont \<Rightarrow> get_schema ont schema_nm)"

section \<open>The string encoder\<close>

record string_encoder =
  enc_buffer :: string
  enc_indent :: nat

definition string_encoder_new :: string_encoder where
  "string_encoder_new = \<lparr>enc_buffer = '''', enc_indent = 0\<rparr>"

definition write_text :: "string \<Rightarrow> string_encoder \<Rightarrow> string_encoder" where
  "write_text s x = x\<lparr>enc_buffer := enc_buffer x @ s\<rparr>"

definition write_indent :: "string_encoder \<Rightarrow> string_encoder" where
  "write_indent x = write_text (concat (replicate (enc_indent x) ''  '')) x"

definition enc_concept :: "string \<Rightarrow> string_encoder \<Rightarrow> string_encoder" where
  "enc_concept name x =
     (let y = write_text (''('' @ name @ [CHR 0x0A]) (write_indent x)
      in y\<lparr>enc_indent := enc_indent y + 1\<rparr>)"

definition slot_text :: "string \<Rightarrow> string \<Rightarrow> string_encoder \<Rightarrow> string_encoder" where
  "slot_text name s x = write_text ('':'' @ name @ '' '' @ s @ [CHR 0x0A]) (write_indent x)"

text \<open>\<open>slot_string\<close> escapes quotes only.\<close>

definition slot_string :: "string \<Rightarrow> string \<Rightarrow> string_encoder \<Rightarrow> string_encoder" where
  "slot_string name s x =
     slot_text name
       (CHR 0x22 # concat (map (\<lambda>c. if c = CHR 0x22 then [CHR 0x5C, c] else [c]) s) @ [CHR 0x22]) x"

definition slot_int :: "string \<Rightarrow> int \<Rightarrow> string_encoder \<Rightarrow> string_encoder" where
  "slot_int name n x = slot_text name (int_to_string n) x"

definition slot_float :: "string \<Rightarrow> f64 \<Rightarrow> string_encoder \<Rightarrow> string_encoder" where
  "slot_float name f x = slot_text name (f64_to_string f) x"

definition slot_bool :: "string \<Rightarrow> bool \<Rightarrow> string_encoder \<Rightarrow> string_encoder" where
  "slot_bool name b x = slot_text name (if b then ''true'' else ''false'') x"

definition enc_end :: "string_encoder \<Rightarrow> string_encoder" where
  "enc_end x =
     write_text ('')'' @ [CHR 0x0A]) (write_indent (x\<lparr>enc_indent := enc_indent x - 1\<rparr>))"

definition enc_build :: "string_encoder \<Rightarrow> string" where
  "enc_build x = enc_buffer x"

section \<open>Lemmas\<close>

text \<open>The codec registry is a keyed store: a name holds the codec registered last under it.\<close>

interpretation codec_store: keyed_store codec_get "\<lambda>k c. hm_insert k c" hm_remove
  by unfold_locales (simp_all add: codec_get_def hashmap_simps)

lemma get_registered [simp]:
  "codec_get (codec_register c r) name = (if name = codec_name c then Some c else codec_get r name)"
  by (simp add: codec_register_def codec_store.lookup_store)

lemma get_ontology_registered [simp]:
  "ontology_get (ontology_register ont r) name =
     (if name = ontology_name ont then Some ont else ontology_get r name)"
  by (simp add: ontology_register_def ontology_get_def hashmap_simps)

lemma enc_end_concept: "enc_indent (enc_end (enc_concept name x)) = enc_indent x"
  by (simp add: enc_end_def enc_concept_def write_text_def write_indent_def Let_def)

definition default_manager ::
    "nat \<Rightarrow> (content_element \<Rightarrow> string + string) \<Rightarrow> (string \<Rightarrow> string + content_element) \<Rightarrow>
       content_manager" where
  "default_manager fuel to_vec from_slice =
     with_default_ontologies (with_default_codecs fuel to_vec from_slice manager_new)"

lemma default_codecs_get:
  "codec_get (codecs (default_manager fuel to_vec from_slice)) name =
     (if name = ''json'' then Some (json_codec to_vec from_slice)
      else if name = ''fipa-sl'' then Some (sl_codec fuel False) else None)"
  by (simp add: default_manager_def with_default_ontologies_def with_default_codecs_def
      manager_new_def codec_get_def codec_register_def hashmap_simps json_codec_def sl_codec_def)

lemma default_ontologies_get:
  "ontology_get (ontologies (default_manager fuel to_vec from_slice)) name =
     (if name = ''fipa-ping'' then Some fipa_ping
      else if name = ''fipa-agent-management'' then Some fipa_agent_management else None)"
  by (simp add: default_manager_def with_default_ontologies_def with_default_codecs_def
      manager_new_def ontology_get_def ontology_register_def hashmap_simps fipa_ping_def
      fipa_agent_management_def)

lemma default_names [simp]:
  "default_codec (default_manager fuel to_vec from_slice) = Some ''fipa-sl''"
  "default_ontology (default_manager fuel to_vec from_slice) = Some ''fipa-agent-management''"
  by (simp_all add: default_manager_def with_default_ontologies_def with_default_codecs_def)

text \<open>
  Content travels through the manager intact. With the default codecs and ontologies, an
  element that the agent management ontology accepts and whose names are symbols is encoded by
  \<open>encode_validated\<close>, and the receiving manager, decoding with its default codec, gets the same
  element back and accepts it again; an element the ontology rejects is not encoded, the error is
  the ontology's, and it takes precedence over an unknown codec; an unknown codec or ontology is
  reported by its name.
\<close>

theorem managed_content_roundtrip:
  assumes "content_ok e" "length (sl_encode False e) + 2 \<le> fuel"
  shows "case am_validate e of
     Inr _ \<Rightarrow>
       \<exists>s. encode_validated (default_manager fuel tv fs) ''fipa-sl'' ''fipa-agent-management'' e = Inr s
         \<and> decode_default (default_manager fuel tv fs) s = Managed (Inr e)
         \<and> validate_default (default_manager fuel tv fs) e = Inr ()
         \<and> encode_validated (default_manager fuel tv fs) ''fipa-sl0'' ''fipa-agent-management'' e
             = Inl (UnknownCodec ''fipa-sl0'')
   | Inl err \<Rightarrow>
       encode_validated (default_manager fuel tv fs) codec_nm ''fipa-agent-management'' e
         = Inl (OntologyFailed err)
       \<and> encode_validated (default_manager fuel tv fs) codec_nm ''fipa-agent-mgmt'' e
           = Inl (UnknownOntology ''fipa-agent-mgmt'')"
proof (cases "am_validate e")
  case (Inl err)
  then show ?thesis
    by (simp add: encode_validated_def manager_validate_def default_ontologies_get
        fipa_agent_management_def)
next
  case (Inr u)
  have "sl_decode fuel (sl_encode False e) = Decoded_Ok e"
    using assms by (rule sl_decode_encode)
  with Inr show ?thesis
    by (simp add: encode_validated_def manager_validate_def default_ontologies_get
        fipa_agent_management_def manager_encode_def default_codecs_get sl_codec_def
        decode_default_def manager_decode_def validate_default_def)
qed

lemma managed_content_roundtrip_witness:
  "am_validate (CConcept (MkConcept ''ping'' [])) = Inr ()
   \<and> (\<exists>s. encode_validated (default_manager 20 (\<lambda>e. Inl '''') (\<lambda>s. Inl '''')) ''fipa-sl''
            ''fipa-agent-management'' (CConcept (MkConcept ''ping'' [])) = Inr s
         \<and> decode_default (default_manager 20 (\<lambda>e. Inl '''') (\<lambda>s. Inl '''')) s
             = Managed (Inr (CConcept (MkConcept ''ping'' []))))"
proof -
  have "am_validate (CConcept (MkConcept ''ping'' [])) = Inr ()"
    by (simp add: am_schemas_def hashmap_simps)
  moreover have "content_ok (CConcept (MkConcept ''ping'' []))"
    by (simp add: symbol_ok_def is_symbol_char_def is_alphanumeric_def code_def keywords_sl_def)
  moreover have "length (sl_encode False (CConcept (MkConcept ''ping'' []))) + 2 \<le> 20" by simp
  ultimately show ?thesis
    using managed_content_roundtrip [of "CConcept (MkConcept ''ping'' [])" 20 "\<lambda>e. Inl ''''"
        "\<lambda>s. Inl ''''"] by auto
qed

end
