(* ===== verification/Trust_Signature.thy ===== *)
theory Trust_Signature
  imports Prelude
begin

text \<open>
  Agent identities and trust signatures (\<open>trust/identity.rs\<close>, \<open>trust/signature.rs\<close>).

  SHA-256 and Ed25519 are not part of the sources. They are the argument \<open>C\<close> of the operations
  that use them, a record with the hash, the public key of a secret key, signing and
  verification; \<open>crypto_ok\<close> states what the code relies on: a signature made with a secret key
  verifies under its public key, and the lengths of hashes, keys and signatures. The clock is an argument
  \<open>now\<close>.
\<close>

section \<open>Cryptography\<close>

record crypto =
  digest :: "bytes \<Rightarrow> bytes"
  public_of :: "bytes \<Rightarrow> bytes"
  ed_sign :: "bytes \<Rightarrow> bytes \<Rightarrow> bytes"
  ed_verify :: "bytes \<Rightarrow> bytes \<Rightarrow> bytes \<Rightarrow> bool"

definition crypto_ok :: "crypto \<Rightarrow> bool" where
  "crypto_ok C \<longleftrightarrow>
     (\<forall>sk m. ed_verify C (public_of C sk) m (ed_sign C sk m)) \<and>
     (\<forall>sk m. length (ed_sign C sk m) = 64)"

text \<open>\<open>to_le_bytes\<close> of an \<open>i64\<close> and \<open>as_bytes\<close> of a string.\<close>

definition i64_le_bytes :: "int \<Rightarrow> bytes" where
  "i64_le_bytes n = map (\<lambda>i. word_of_int (n div 256 ^ i)) [0..<8]"

definition str_bytes :: "string \<Rightarrow> bytes" where
  "str_bytes s = map (\<lambda>c. of_nat (of_char c)) s"

section \<open>Identities\<close>

type_synonym fingerprint = bytes

datatype identity_error =
    InvalidKeyLength (expected_length: nat) (actual_length: nat)
  | InvalidSignature
  | KeyGenerationFailed string
  | IdentitySerializationError string

definition fingerprint_of :: "crypto \<Rightarrow> bytes \<Rightarrow> fingerprint" where
  "fingerprint_of C public_key = digest C public_key"

record agent_identity =
  signing_key :: bytes
  verifying_key :: bytes
  identity_fingerprint :: fingerprint
  identity_name :: string
  identity_created_at :: timestamp

record public_identity =
  public_key :: bytes
  fingerprint :: fingerprint
  public_name :: string
  public_created_at :: timestamp

record exported_identity =
  secret_key :: bytes
  exported_name :: string
  exported_created_at :: timestamp

text \<open>\<open>from_secret_key\<close>; \<open>generate\<close> calls it with 32 random bytes.\<close>

definition from_secret_key ::
    "crypto \<Rightarrow> timestamp \<Rightarrow> bytes \<Rightarrow> string \<Rightarrow> identity_error + agent_identity" where
  "from_secret_key C now secret nm =
     (if length secret \<noteq> 32 then Inl (InvalidKeyLength 32 (length secret))
      else Inr \<lparr>signing_key = secret, verifying_key = public_of C secret,
                identity_fingerprint = fingerprint_of C (public_of C secret),
                identity_name = nm, identity_created_at = now\<rparr>)"

definition to_public :: "agent_identity \<Rightarrow> public_identity" where
  "to_public a =
     \<lparr>public_key = verifying_key a, fingerprint = identity_fingerprint a,
      public_name = identity_name a, public_created_at = identity_created_at a\<rparr>"

definition export_identity :: "agent_identity \<Rightarrow> exported_identity" where
  "export_identity a =
     \<lparr>secret_key = signing_key a, exported_name = identity_name a,
      exported_created_at = identity_created_at a\<rparr>"

definition import_identity ::
    "crypto \<Rightarrow> timestamp \<Rightarrow> exported_identity \<Rightarrow> identity_error + agent_identity" where
  "import_identity C now x =
     (case from_secret_key C now (secret_key x) (exported_name x) of
        Inl e \<Rightarrow> Inl e
      | Inr a \<Rightarrow> Inr (a\<lparr>identity_created_at := exported_created_at x\<rparr>))"

definition public_from_key :: "crypto \<Rightarrow> timestamp \<Rightarrow> bytes \<Rightarrow> string \<Rightarrow> public_identity" where
  "public_from_key C now key nm =
     \<lparr>public_key = key, fingerprint = fingerprint_of C key, public_name = nm,
      public_created_at = now\<rparr>"

text \<open>
  \<open>PublicIdentity::verify\<close>; \<open>ed_verify\<close> is false also for a key that is not a point of the
  curve, which the code reports with the same error.
\<close>

definition public_verify ::
    "crypto \<Rightarrow> public_identity \<Rightarrow> bytes \<Rightarrow> bytes \<Rightarrow> identity_error + unit" where
  "public_verify C p data sig =
     (if length sig \<noteq> 64 then Inl (InvalidKeyLength 64 (length sig))
      else if ed_verify C (public_key p) data sig then Inr ()
      else Inl InvalidSignature)"

section \<open>Trust signatures\<close>

datatype trust_level = LUnknown | LUntrusted | LMarginal | LFull | LUltimate

definition trust_level_from_i32 :: "int \<Rightarrow> trust_level option" where
  "trust_level_from_i32 v =
     (if v = 0 then Some LUnknown
      else if v = 1 then Some LUntrusted
      else if v = 2 then Some LMarginal
      else if v = 3 then Some LFull
      else if v = 4 then Some LUltimate
      else None)"

text \<open>\<open>self as u8\<close>: the discriminant.\<close>

definition trust_level_u8 :: "trust_level \<Rightarrow> byte" where
  "trust_level_u8 l =
     (case l of LUnknown \<Rightarrow> 0 | LUntrusted \<Rightarrow> 1 | LMarginal \<Rightarrow> 2 | LFull \<Rightarrow> 3 | LUltimate \<Rightarrow> 4)"

definition can_introduce :: "trust_level \<Rightarrow> bool" where
  "can_introduce l \<longleftrightarrow> l = LFull \<or> l = LUltimate"

datatype certification_type =
  CertIdentity | CertAgent | CertCapability | CertService | CertRevocation

definition cert_u8 :: "certification_type \<Rightarrow> byte" where
  "cert_u8 c =
     (case c of CertIdentity \<Rightarrow> 0 | CertAgent \<Rightarrow> 1 | CertCapability \<Rightarrow> 2 | CertService \<Rightarrow> 3
              | CertRevocation \<Rightarrow> 4)"

record trust_signature =
  signer :: fingerprint
  subject :: fingerprint
  endorsed_level :: trust_level
  cert_type :: certification_type
  sig_scope :: "string option"
  sig_created_at :: timestamp
  sig_expires_at :: timestamp
  sig_bytes :: bytes

definition signable_data :: "crypto \<Rightarrow> trust_signature \<Rightarrow> bytes" where
  "signable_data C s =
     digest C (signer s @ subject s @ [trust_level_u8 (endorsed_level s)] @ [cert_u8 (cert_type s)]
               @ (case sig_scope s of Some sc \<Rightarrow> str_bytes sc | None \<Rightarrow> [])
               @ i64_le_bytes (sig_created_at s) @ i64_le_bytes (sig_expires_at s))"

definition create_signature ::
    "crypto \<Rightarrow> timestamp \<Rightarrow> agent_identity \<Rightarrow> public_identity \<Rightarrow> trust_level \<Rightarrow>
       certification_type \<Rightarrow> string option \<Rightarrow> timestamp \<Rightarrow> trust_signature" where
  "create_signature C now who whom level cert scope expires =
     (let s = \<lparr>signer = identity_fingerprint who, subject = fingerprint whom,
               endorsed_level = level, cert_type = cert, sig_scope = scope,
               sig_created_at = now, sig_expires_at = expires, sig_bytes = []\<rparr>
      in s\<lparr>sig_bytes := ed_sign C (signing_key who) (signable_data C s)\<rparr>)"

definition verify_signature ::
    "crypto \<Rightarrow> timestamp \<Rightarrow> trust_signature \<Rightarrow> public_identity \<Rightarrow> identity_error + unit" where
  "verify_signature C now s p =
     (if fingerprint p \<noteq> signer s then Inl InvalidSignature
      else if 0 < sig_expires_at s \<and> sig_expires_at s < now then Inl InvalidSignature
      else public_verify C p (signable_data C s) (sig_bytes s))"

definition is_revocation :: "trust_signature \<Rightarrow> bool" where
  "is_revocation s \<longleftrightarrow> cert_type s = CertRevocation"

definition sig_expired :: "timestamp \<Rightarrow> trust_signature \<Rightarrow> bool" where
  "sig_expired now s \<longleftrightarrow> sig_expires_at s \<noteq> 0 \<and> sig_expires_at s < now"

section \<open>Signed identities\<close>

record self_signature =
  certified :: public_identity
  capabilities :: "string list"
  self_metadata :: "(string, string) hashmap"
  self_created_at :: timestamp
  self_bytes :: bytes

text \<open>\<open>sort_keys\<close> is the sorting of the metadata keys.\<close>

definition self_signable :: "crypto \<Rightarrow> (string list \<Rightarrow> string list) \<Rightarrow> self_signature \<Rightarrow> bytes" where
  "self_signable C sort_keys s =
     digest C (public_key (certified s) @ str_bytes (public_name (certified s))
               @ concat (map str_bytes (capabilities s))
               @ concat (map (\<lambda>k. str_bytes k @ str_bytes (the (hm_get (self_metadata s) k)))
                          (sort_keys (map fst (self_metadata s))))
               @ i64_le_bytes (self_created_at s))"

definition create_self_signature ::
    "crypto \<Rightarrow> (string list \<Rightarrow> string list) \<Rightarrow> timestamp \<Rightarrow> agent_identity \<Rightarrow> string list \<Rightarrow>
       (string, string) hashmap \<Rightarrow> self_signature" where
  "create_self_signature C sort_keys now a caps meta =
     (let s = \<lparr>certified = to_public a, capabilities = caps, self_metadata = meta,
               self_created_at = now, self_bytes = []\<rparr>
      in s\<lparr>self_bytes := ed_sign C (signing_key a) (self_signable C sort_keys s)\<rparr>)"

definition verify_self_signature ::
    "crypto \<Rightarrow> (string list \<Rightarrow> string list) \<Rightarrow> self_signature \<Rightarrow> identity_error + unit" where
  "verify_self_signature C sort_keys s =
     public_verify C (certified s) (self_signable C sort_keys s) (self_bytes s)"

record signed_identity =
  self_sig :: self_signature
  endorsements :: "trust_signature list"

definition signed_identity_new ::
    "crypto \<Rightarrow> (string list \<Rightarrow> string list) \<Rightarrow> timestamp \<Rightarrow> agent_identity \<Rightarrow> string list \<Rightarrow>
       signed_identity" where
  "signed_identity_new C sort_keys now a caps =
     \<lparr>self_sig = create_self_signature C sort_keys now a caps [], endorsements = []\<rparr>"

definition add_endorsement :: "trust_signature \<Rightarrow> signed_identity \<Rightarrow> signed_identity" where
  "add_endorsement s i = i\<lparr>endorsements := endorsements i @ [s]\<rparr>"

definition signed_fingerprint :: "signed_identity \<Rightarrow> fingerprint" where
  "signed_fingerprint i = fingerprint (certified (self_sig i))"

definition valid_endorsements :: "timestamp \<Rightarrow> signed_identity \<Rightarrow> trust_signature list" where
  "valid_endorsements now i =
     (let revocations = signer ` set (filter is_revocation (endorsements i))
      in filter (\<lambda>s. signer s \<notin> revocations)
           (filter (\<lambda>s. \<not> is_revocation s \<and> \<not> sig_expired now s) (endorsements i)))"

definition endorsement_counts :: "timestamp \<Rightarrow> signed_identity \<Rightarrow> (trust_level, nat) hashmap" where
  "endorsement_counts now i =
     foldl (\<lambda>m s. hm_insert (endorsed_level s)
              ((case hm_get m (endorsed_level s) of None \<Rightarrow> 0 | Some n \<Rightarrow> n) + 1) m)
       [] (valid_endorsements now i)"

section \<open>Lemmas\<close>

lemma valid_endorsements_iff:
  "s \<in> set (valid_endorsements now i) \<longleftrightarrow>
     s \<in> set (endorsements i) \<and> \<not> is_revocation s \<and> \<not> sig_expired now s \<and>
     (\<forall>r\<in>set (endorsements i). is_revocation r \<longrightarrow> signer r \<noteq> signer s)"
  by (auto simp: valid_endorsements_def image_iff)

lemma signable_data_bytes [simp]: "signable_data C (s\<lparr>sig_bytes := b\<rparr>) = signable_data C s"
  by (simp add: signable_data_def)

lemma self_signable_bytes [simp]:
  "self_signable C sort_keys (s\<lparr>self_bytes := b\<rparr>) = self_signable C sort_keys s"
  by (simp add: self_signable_def)

lemma trust_level_u8_inject: "trust_level_from_i32 (uint (trust_level_u8 l)) = Some l"
  by (cases l) (simp_all add: trust_level_from_i32_def trust_level_u8_def)

text \<open>
  An endorsement verifies for exactly as long as it is valid. A signature that an identity
  with a 32-byte secret key creates verifies against that identity's public part until its expiry
  time and is rejected afterwards; it is rejected against any identity with another fingerprint;
  exporting and importing the identity changes nothing of this.
\<close>

theorem created_signature_verifies:
  assumes "crypto_ok C" and "from_secret_key C t secret nm = Inr who"
  shows "verify_signature C now (create_signature C created who whom level cert scope expires)
           (to_public who)
         = (if 0 < expires \<and> expires < now then Inl InvalidSignature else Inr ())
    \<and> (fingerprint other \<noteq> identity_fingerprint who \<longrightarrow>
         verify_signature C now (create_signature C created who whom level cert scope expires) other
           = Inl InvalidSignature)
    \<and> import_identity C t' (export_identity who) = Inr who"
  using assms
  by (auto simp: from_secret_key_def crypto_ok_def verify_signature_def create_signature_def Let_def
      to_public_def public_verify_def import_identity_def export_identity_def signable_data_def
      split: if_splits)

definition toy_crypto :: crypto where
  "toy_crypto =
     \<lparr>digest = (\<lambda>m. take 32 (m @ replicate 32 0)), public_of = (\<lambda>sk. sk),
      ed_sign = (\<lambda>sk m. take 64 (sk @ m @ replicate 64 0)),
      ed_verify = (\<lambda>pk m s. s = take 64 (pk @ m @ replicate 64 0))\<rparr>"

lemma created_signature_verifies_witness:
  "from_secret_key toy_crypto 1 (replicate 32 7) ''alice''
     = Inr \<lparr>signing_key = replicate 32 7, verifying_key = replicate 32 7,
            identity_fingerprint = replicate 32 7, identity_name = ''alice'', identity_created_at = 1\<rparr>
   \<and> import_identity toy_crypto 9
       (export_identity \<lparr>signing_key = replicate 32 7, verifying_key = replicate 32 7,
          identity_fingerprint = replicate 32 7, identity_name = ''alice'', identity_created_at = 1\<rparr>)
     = Inr \<lparr>signing_key = replicate 32 7, verifying_key = replicate 32 7,
          identity_fingerprint = replicate 32 7, identity_name = ''alice'', identity_created_at = 1\<rparr>"
proof -
  have "crypto_ok toy_crypto" by (auto simp: crypto_ok_def toy_crypto_def min_def)
  moreover have "from_secret_key toy_crypto 1 (replicate 32 7) ''alice''
     = Inr \<lparr>signing_key = replicate 32 7, verifying_key = replicate 32 7,
            identity_fingerprint = replicate 32 7, identity_name = ''alice'', identity_created_at = 1\<rparr>"
    by (simp add: from_secret_key_def fingerprint_of_def toy_crypto_def)
  ultimately show ?thesis
    using created_signature_verifies [of toy_crypto 1 "replicate 32 7" "''alice''"] by blast
qed

text \<open>
  A self-signature does not say where the name ends and a capability begins. A verified
  identity package can be altered without its signature noticing: the end of the agent's name can
  be moved into a new first capability, and two capabilities can be joined into one.
\<close>

theorem self_signature_ambiguous:
  "verify_self_signature C sort_keys
       (s\<lparr>certified := p\<lparr>public_name := a @ b\<rparr>, capabilities := caps\<rparr>)
     = verify_self_signature C sort_keys
         (s\<lparr>certified := p\<lparr>public_name := a\<rparr>, capabilities := b # caps\<rparr>)
   \<and> verify_self_signature C sort_keys (s\<lparr>capabilities := [a @ b]\<rparr>)
     = verify_self_signature C sort_keys (s\<lparr>capabilities := [a, b]\<rparr>)"
  by (simp add: verify_self_signature_def self_signable_def public_verify_def str_bytes_def)

end
