(* ===== verification/Trust_Web.thy ===== *)
theory Trust_Web
  imports Trust_Signature Float64
begin

text \<open>
  The web of trust (\<open>trust/web.rs\<close>): the graph of endorsements, the search for trust paths and
  the validity of an identity.

  The state is the record \<open>web_of_trust\<close> with the fields of the code. The search is the code's
  breadth-first loop over a queue of paths. Sorting the paths compares floating point numbers
  with \<open>partial_cmp\<close> and \<open>unwrap\<close>, which panics on NaN: \<open>find_trust_paths\<close> is \<open>None\<close> then. The
  clock is the argument \<open>now\<close>, the same during one call.

  The loop ends because every extension of a path is longer, paths are bounded, and each has only
  so many extensions; \<open>Trust_Paths\<close> and \<open>Trust_Validity\<close> hold the properties.
\<close>

section \<open>Configuration and paths\<close>

record trust_config =
  max_path_length :: nat
  marginals_needed :: nat
  completes_needed :: nat
  allow_marginal_introducers :: bool
  trust_decay :: f64

definition trust_config_default :: trust_config where
  "trust_config_default =
     \<lparr>max_path_length = 5, marginals_needed = 3, completes_needed = 1,
      allow_marginal_introducers = True, trust_decay = f64_round (8 / 10)\<rparr>"

datatype trust_validity = VUnknown | VRevoked | VUndefined | VMarginal | VFull | VUltimate

record trust_path =
  path_nodes :: "fingerprint list"
  path_levels :: "trust_level list"
  effective_trust :: f64

definition level_weight :: "trust_level \<Rightarrow> f64" where
  "level_weight l =
     (case l of LUnknown \<Rightarrow> Fin 0 | LUntrusted \<Rightarrow> Fin 0 | LMarginal \<Rightarrow> Fin (1 / 2)
              | LFull \<Rightarrow> Fin 1 | LUltimate \<Rightarrow> Fin 1)"

text \<open>\<open>calculate_effective_trust\<close>: the loop over the enumerated levels, from index \<open>i\<close>.\<close>

fun effective_loop :: "f64 \<Rightarrow> nat \<Rightarrow> trust_level list \<Rightarrow> f64 \<Rightarrow> f64" where
  "effective_loop decay i [] trust = trust"
| "effective_loop decay i (l # ls) trust =
     effective_loop decay (Suc i) ls
       (f64_mul trust (f64_mul (level_weight l) (f64_powi decay i)))"

definition calculate_effective_trust :: "f64 \<Rightarrow> trust_level list \<Rightarrow> f64" where
  "calculate_effective_trust decay ls = effective_loop decay 0 ls (Fin 1)"

section \<open>The web\<close>

record web_of_trust =
  identities :: "(fingerprint, signed_identity) hashmap"
  owner_trust :: "(fingerprint, trust_level) hashmap"
  self_fingerprint :: "fingerprint option"
  web_config :: trust_config
  validity_cache :: "(fingerprint, trust_validity) hashmap"

definition web_new :: "trust_config \<Rightarrow> web_of_trust" where
  "web_new cfg =
     \<lparr>identities = [], owner_trust = [], self_fingerprint = None, web_config = cfg,
      validity_cache = []\<rparr>"

definition invalidate_cache :: "web_of_trust \<Rightarrow> web_of_trust" where
  "invalidate_cache w = w\<lparr>validity_cache := []\<rparr>"

definition set_self :: "fingerprint \<Rightarrow> web_of_trust \<Rightarrow> web_of_trust" where
  "set_self fp w =
     invalidate_cache (w\<lparr>self_fingerprint := Some fp,
                         owner_trust := hm_insert fp LUltimate (owner_trust w)\<rparr>)"

definition add_identity :: "signed_identity \<Rightarrow> web_of_trust \<Rightarrow> web_of_trust" where
  "add_identity i w =
     invalidate_cache (w\<lparr>identities := hm_insert (signed_fingerprint i) i (identities w)\<rparr>)"

definition get_identity :: "web_of_trust \<Rightarrow> fingerprint \<Rightarrow> signed_identity option" where
  "get_identity w fp = hm_get (identities w) fp"

definition set_owner_trust :: "fingerprint \<Rightarrow> trust_level \<Rightarrow> web_of_trust \<Rightarrow> web_of_trust" where
  "set_owner_trust fp l w =
     invalidate_cache (w\<lparr>owner_trust := hm_insert fp l (owner_trust w)\<rparr>)"

definition get_owner_trust :: "web_of_trust \<Rightarrow> fingerprint \<Rightarrow> trust_level" where
  "get_owner_trust w fp = (case hm_get (owner_trust w) fp of Some l \<Rightarrow> l | None \<Rightarrow> LUnknown)"

section \<open>The search for trust paths\<close>

type_synonym chain = "fingerprint list \<times> trust_level list"

text \<open>
  The extensions of a path by one endorsement, in the order of the two inner loops; \<open>ids\<close> is the
  map of identities in its iteration order.
\<close>

definition extensions ::
    "timestamp \<Rightarrow> (fingerprint, signed_identity) hashmap \<Rightarrow> chain \<Rightarrow> chain list" where
  "extensions now ids c =
     concat (map (\<lambda>(fp, i).
         if fp \<in> set (fst c) then []
         else map (\<lambda>e. (fst c @ [fp], snd c @ [endorsed_level e]))
                (filter (\<lambda>e. signer e = last (fst c)) (valid_endorsements now i))) ids)"

definition hits :: "fingerprint \<Rightarrow> chain list \<Rightarrow> chain list" where
  "hits target cs = filter (\<lambda>c. last (fst c) = target) cs"

definition misses :: "fingerprint \<Rightarrow> chain list \<Rightarrow> chain list" where
  "misses target cs = filter (\<lambda>c. last (fst c) \<noteq> target) cs"

definition fan_out :: "timestamp \<Rightarrow> (fingerprint, signed_identity) hashmap \<Rightarrow> nat" where
  "fan_out now ids = sum_list (map (\<lambda>(fp, i). length (valid_endorsements now i)) ids)"

lemma length_extensions: "length (extensions now ids c) \<le> fan_out now ids"
proof (induction ids)
  case (Cons x ids)
  obtain fp i where x: "x = (fp, i)" by (cases x)
  have "length (filter (\<lambda>e. signer e = last (fst c)) (valid_endorsements now i))
      \<le> length (valid_endorsements now i)" by (rule length_filter_le)
  from add_mono [OF this Cons] Cons show ?case
    by (cases "fp \<in> set (fst c)") (simp_all add: extensions_def fan_out_def x)
qed (simp add: extensions_def fan_out_def)

lemma extensions_length: "d \<in> set (extensions now ids c) \<Longrightarrow> length (fst d) = Suc (length (fst c))"
  by (auto simp: extensions_def split: if_splits)

text \<open>The queue gets lighter: a path weighs more than all its extensions together.\<close>

definition chain_weight :: "nat \<Rightarrow> nat \<Rightarrow> chain \<Rightarrow> nat" where
  "chain_weight b k c = (b + 1) ^ (k + 1 - length (fst c))"

lemma extensions_lighter:
  assumes "length (fst c) \<le> k"
  shows "sum_list (map (chain_weight (fan_out now ids) k) (misses target (extensions now ids c)))
    < chain_weight (fan_out now ids) k c"
proof -
  let ?b = "fan_out now ids"
  let ?w = "chain_weight ?b k"
  let ?ext = "misses target (extensions now ids c)"
  have each: "?w d = (?b + 1) ^ (k - length (fst c))" if "d \<in> set ?ext" for d
    using extensions_length [of d now ids c] that by (auto simp: misses_def chain_weight_def)
  have "sum_list (map ?w ?ext) = length ?ext * (?b + 1) ^ (k - length (fst c))"
    using each by (simp add: sum_list_triv cong: map_cong) 
  also have "\<dots> \<le> ?b * (?b + 1) ^ (k - length (fst c))"
    using length_extensions [of now ids c]
    by (intro mult_right_mono) (auto simp: misses_def intro: order_trans [OF length_filter_le])
  also have "\<dots> < (?b + 1) * (?b + 1) ^ (k - length (fst c))" by simp
  also have "\<dots> = ?w c" using assms by (simp add: chain_weight_def Suc_diff_le)
  finally show ?thesis .
qed

text \<open>The loop: the queue of paths and the paths to the target found so far.\<close>

function search_paths ::
    "timestamp \<Rightarrow> (fingerprint, signed_identity) hashmap \<Rightarrow> nat \<Rightarrow> fingerprint \<Rightarrow>
       chain list \<Rightarrow> chain list \<Rightarrow> chain list" where
  "search_paths now ids k target [] found = found"
| "search_paths now ids k target (c # queue) found =
     (if k < length (fst c) then search_paths now ids k target queue found
      else search_paths now ids k target
             (queue @ misses target (extensions now ids c))
             (found @ hits target (extensions now ids c)))"
  by pat_completeness auto

termination search_paths
proof (relation "measure (\<lambda>(now, ids, k, target, queue, found).
    sum_list (map (chain_weight (fan_out now ids) k) queue))")
  fix now :: timestamp and ids :: "(fingerprint, signed_identity) hashmap"
    and k :: nat and target :: fingerprint and c :: chain and queue found :: "chain list"
  show "((now, ids, k, target, queue, found), (now, ids, k, target, c # queue, found))
      \<in> measure (\<lambda>(now, ids, k, target, queue, found).
          sum_list (map (chain_weight (fan_out now ids) k) queue))"
    by (simp add: chain_weight_def)
  assume "\<not> k < length (fst c)"
  then show "((now, ids, k, target, queue @ misses target (extensions now ids c),
        found @ hits target (extensions now ids c)), (now, ids, k, target, c # queue, found))
      \<in> measure (\<lambda>(now, ids, k, target, queue, found).
          sum_list (map (chain_weight (fan_out now ids) k) queue))"
    using extensions_lighter [of c k now ids target] by simp
qed simp

text \<open>
  The stable sort by effective trust, highest first. A NaN among two or more numbers is compared
  at least once, and \<open>partial_cmp(..).unwrap()\<close> panics.
\<close>

fun insert_path :: "trust_path \<Rightarrow> trust_path list \<Rightarrow> trust_path list" where
  "insert_path t [] = [t]"
| "insert_path t (u # us) =
     (if f64_lt (effective_trust t) (effective_trust u) then u # insert_path t us else t # u # us)"

definition sort_paths :: "trust_path list \<Rightarrow> trust_path list option" where
  "sort_paths ts =
     (if 2 \<le> length ts \<and> (\<exists>t\<in>set ts. effective_trust t = NaN) then None
      else Some (foldr insert_path ts []))"

definition make_path :: "f64 \<Rightarrow> chain \<Rightarrow> trust_path" where
  "make_path decay c =
     \<lparr>path_nodes = fst c, path_levels = snd c,
      effective_trust = calculate_effective_trust decay (snd c)\<rparr>"

definition find_trust_paths ::
    "timestamp \<Rightarrow> web_of_trust \<Rightarrow> fingerprint \<Rightarrow> trust_path list option" where
  "find_trust_paths now w target =
     (case self_fingerprint w of
        None \<Rightarrow> Some []
      | Some self \<Rightarrow>
          if self = target then
            Some [\<lparr>path_nodes = [self], path_levels = [], effective_trust = Fin 1\<rparr>]
          else
            sort_paths (map (make_path (trust_decay (web_config w)))
              (search_paths now (identities w) (max_path_length (web_config w)) target
                 [([self], [])] [])))"

section \<open>Validity\<close>

text \<open>\<open>paths.iter().map(..).max_by(..).unwrap_or(0.0)\<close>; a NaN among several has panicked before.\<close>

definition best_trust :: "trust_path list \<Rightarrow> f64" where
  "best_trust ts =
     (case map effective_trust ts of
        [] \<Rightarrow> Fin 0
      | x # xs \<Rightarrow> foldl (\<lambda>a b. if f64_lt b a then a else b) x xs)"

text \<open>One turn of the loop over the endorsements: the counts of full and marginal signatures.\<close>

definition count_level :: "trust_level \<Rightarrow> nat \<times> nat \<Rightarrow> nat \<times> nat" where
  "count_level l n =
     (case l of
        LFull \<Rightarrow> (fst n + 1, snd n)
      | LUltimate \<Rightarrow> (fst n + 1, snd n)
      | LMarginal \<Rightarrow> (fst n, snd n + 1)
      | _ \<Rightarrow> n)"

definition count_endorsement ::
    "timestamp \<Rightarrow> web_of_trust \<Rightarrow> trust_signature \<Rightarrow> nat \<times> nat \<Rightarrow> (nat \<times> nat) option" where
  "count_endorsement now w e n =
     (if \<not> can_introduce (get_owner_trust w (signer e)) then
        (case find_trust_paths now w (signer e) of
           None \<Rightarrow> None
         | Some paths \<Rightarrow>
             if paths = [] then Some n
             else if f64_le (f64_round (8 / 10)) (best_trust paths)
               then Some (count_level (endorsed_level e) n)
             else if f64_le (f64_round (4 / 10)) (best_trust paths)
                   \<and> allow_marginal_introducers (web_config w)
               then Some (fst n, snd n + 1)
             else Some n)
      else Some (count_level (endorsed_level e) n))"

fun count_endorsements ::
    "timestamp \<Rightarrow> web_of_trust \<Rightarrow> trust_signature list \<Rightarrow> nat \<times> nat \<Rightarrow> (nat \<times> nat) option" where
  "count_endorsements now w [] n = Some n"
| "count_endorsements now w (e # es) n =
     (case count_endorsement now w e n of
        None \<Rightarrow> None
      | Some n' \<Rightarrow> count_endorsements now w es n')"

definition validity_of_counts :: "trust_config \<Rightarrow> nat \<times> nat \<Rightarrow> trust_validity" where
  "validity_of_counts cfg n =
     (if completes_needed cfg \<le> fst n then VFull
      else if marginals_needed cfg \<le> snd n then VMarginal
      else if 0 < fst n \<or> 0 < snd n then VMarginal
      else VUndefined)"

definition validity_uncached ::
    "timestamp \<Rightarrow> web_of_trust \<Rightarrow> fingerprint \<Rightarrow> trust_validity option" where
  "validity_uncached now w fp =
     (if self_fingerprint w = Some fp then Some VUltimate
      else if hm_get (owner_trust w) fp = Some LUltimate then Some VUltimate
      else if hm_get (owner_trust w) fp = Some LUntrusted then Some VRevoked
      else
        (case hm_get (identities w) fp of
           None \<Rightarrow> Some VUnknown
         | Some i \<Rightarrow>
             map_option (validity_of_counts (web_config w))
               (count_endorsements now w (valid_endorsements now i) (0, 0))))"

text \<open>\<open>calculate_validity\<close>; \<open>None\<close> is the panic.\<close>

definition calculate_validity ::
    "timestamp \<Rightarrow> fingerprint \<Rightarrow> web_of_trust \<Rightarrow> (trust_validity \<times> web_of_trust) option" where
  "calculate_validity now fp w =
     (case hm_get (validity_cache w) fp of
        Some v \<Rightarrow> Some (v, w)
      | None \<Rightarrow>
          (case validity_uncached now w fp of
             None \<Rightarrow> None
           | Some v \<Rightarrow> Some (v, w\<lparr>validity_cache := hm_insert fp v (validity_cache w)\<rparr>)))"

definition passes :: "trust_validity \<Rightarrow> trust_validity \<Rightarrow> bool" where
  "passes v minimum \<longleftrightarrow>
     v = VUltimate \<or>
     (v = VFull \<and> (minimum = VFull \<or> minimum = VMarginal)) \<or>
     (v = VMarginal \<and> minimum = VMarginal)"

fun collect_valid ::
    "timestamp \<Rightarrow> trust_validity \<Rightarrow> fingerprint list \<Rightarrow> web_of_trust \<Rightarrow>
       (fingerprint list \<times> web_of_trust) option" where
  "collect_valid now minimum [] w = Some ([], w)"
| "collect_valid now minimum (fp # fps) w =
     (case calculate_validity now fp w of
        None \<Rightarrow> None
      | Some (v, w') \<Rightarrow>
          (case collect_valid now minimum fps w' of
             None \<Rightarrow> None
           | Some (out, w'') \<Rightarrow> Some (if passes v minimum then fp # out else out, w'')))"

definition get_valid_identities ::
    "timestamp \<Rightarrow> trust_validity \<Rightarrow> web_of_trust \<Rightarrow> (fingerprint list \<times> web_of_trust) option" where
  "get_valid_identities now minimum w = collect_valid now minimum (map fst (identities w)) w"

section \<open>Export, import, statistics\<close>

record web_export =
  export_identities :: "signed_identity list"
  export_owner_trust :: "(fingerprint, trust_level) hashmap"
  export_self :: "fingerprint option"
  export_config :: trust_config

definition web_export_of :: "web_of_trust \<Rightarrow> web_export" where
  "web_export_of w =
     \<lparr>export_identities = hm_values (identities w), export_owner_trust = owner_trust w,
      export_self = self_fingerprint w, export_config = web_config w\<rparr>"

definition web_import :: "web_export \<Rightarrow> web_of_trust" where
  "web_import x =
     (let w = (web_new (export_config x))\<lparr>self_fingerprint := export_self x,
                 owner_trust := export_owner_trust x\<rparr>
      in w\<lparr>identities :=
             foldl (\<lambda>m i. hm_insert (signed_fingerprint i) i m) (identities w) (export_identities x)\<rparr>)"

record web_stats =
  total_identities :: nat
  trusted_identities :: nat
  total_signatures :: nat

definition web_stats_of :: "web_of_trust \<Rightarrow> web_stats" where
  "web_stats_of w =
     \<lparr>total_identities = length (identities w),
      trusted_identities = length (filter can_introduce (hm_values (owner_trust w))),
      total_signatures = sum_list (map (\<lambda>i. length (endorsements i)) (hm_values (identities w)))\<rparr>"

end
