(* ===== verification/Trust_Paths.thy ===== *)
theory Trust_Paths
  imports Trust_Web
begin

text \<open>
  What the search for trust paths finds. \<open>trust_chain\<close> is the specification: a chain of valid
  endorsements from the owner that visits no identity twice. The breadth-first loop returns
  exactly the chains to the target within the length bound, sorted by effective trust; how much a
  chain is worth is bounded by its length.
\<close>

section \<open>Chains of endorsements\<close>

definition endorses ::
    "timestamp \<Rightarrow> (fingerprint, signed_identity) hashmap \<Rightarrow> fingerprint \<Rightarrow> trust_level \<Rightarrow>
       fingerprint \<Rightarrow> bool" where
  "endorses now ids a l b \<longleftrightarrow>
     (\<exists>i e. hm_get ids b = Some i \<and> e \<in> set (valid_endorsements now i) \<and> signer e = a \<and>
        endorsed_level e = l)"

inductive trust_chain ::
    "timestamp \<Rightarrow> (fingerprint, signed_identity) hashmap \<Rightarrow> fingerprint \<Rightarrow> chain \<Rightarrow> bool"
  for now ids self where
  start: "trust_chain now ids self ([self], [])"
| extend: "\<lbrakk>trust_chain now ids self (p, ls); endorses now ids (last p) l fp; fp \<notin> set p\<rbrakk> \<Longrightarrow>
     trust_chain now ids self (p @ [fp], ls @ [l])"

lemma extensions_iff:
  assumes "hm_wf ids"
  shows "d \<in> set (extensions now ids c) \<longleftrightarrow>
     (\<exists>fp l. fp \<notin> set (fst c) \<and> endorses now ids (last (fst c)) l fp \<and>
        d = (fst c @ [fp], snd c @ [l]))"
proof -
  have get: "hm_get ids fp = Some i \<longleftrightarrow> (fp, i) \<in> set ids" for fp i
    using assms by (simp add: hm_wf_def map_of_eq_Some_iff)
  show ?thesis
    by (auto simp: extensions_def endorses_def get split: if_splits)
qed

text \<open>\<open>leads k target c d\<close>: from the queued path \<open>c\<close> the loop comes to the path \<open>d\<close> to the target.\<close>

inductive leads ::
    "timestamp \<Rightarrow> (fingerprint, signed_identity) hashmap \<Rightarrow> nat \<Rightarrow> fingerprint \<Rightarrow> chain \<Rightarrow>
       chain \<Rightarrow> bool"
  for now ids k target where
  hit: "\<lbrakk>length (fst c) \<le> k; d \<in> set (hits target (extensions now ids c))\<rbrakk> \<Longrightarrow>
     leads now ids k target c d"
| miss: "\<lbrakk>length (fst c) \<le> k; c' \<in> set (misses target (extensions now ids c));
      leads now ids k target c' d\<rbrakk> \<Longrightarrow> leads now ids k target c d"

inductive_simps leads_unfold: "leads now ids k target c d"

lemma search_paths_iff:
  "d \<in> set (search_paths now ids k target queue found) \<longleftrightarrow>
     d \<in> set found \<or> (\<exists>c\<in>set queue. leads now ids k target c d)"
proof (induction now ids k target queue found rule: search_paths.induct)
  case (2 now ids k target c queue found)
  show ?case
  proof (cases "k < length (fst c)")
    case True
    then have "\<not> leads now ids k target c d"
      unfolding leads_unfold [of now ids k target c d] by simp
    with 2(1) [OF True] True show ?thesis by simp
  next
    case False
    then have c: "leads now ids k target c d \<longleftrightarrow>
        d \<in> set (hits target (extensions now ids c)) \<or>
        (\<exists>c'\<in>set (misses target (extensions now ids c)). leads now ids k target c' d)"
      unfolding leads_unfold [of now ids k target c d] by force
    have step: "search_paths now ids k target (c # queue) found =
        search_paths now ids k target (queue @ misses target (extensions now ids c))
          (found @ hits target (extensions now ids c))"
      using False by simp
    show ?thesis
      unfolding step 2(2) [OF False] set_append ball_Un bex_Un Un_iff list.set(2) bex_simps(5) c
      by blast
  qed
qed simp

lemma leads_sound:
  assumes wf: "hm_wf ids"
  shows "leads now ids k target c d \<Longrightarrow> trust_chain now ids self c \<Longrightarrow>
     trust_chain now ids self d \<and> last (fst d) = target \<and> length (fst d) \<le> Suc k"
proof (induction rule: leads.induct)
  case (hit c d)
  then obtain fp l where d: "fp \<notin> set (fst c)" "endorses now ids (last (fst c)) l fp"
      "d = (fst c @ [fp], snd c @ [l])"
    by (auto simp: hits_def extensions_iff [OF wf])
  have "trust_chain now ids self (fst c, snd c)" using hit by simp
  then have "trust_chain now ids self d" unfolding d(3) using d(2,1) by (rule trust_chain.extend)
  then show ?case using hit d(3) by (simp add: hits_def)
next
  case (miss c c' d)
  then obtain fp l where c': "fp \<notin> set (fst c)" "endorses now ids (last (fst c)) l fp"
      "c' = (fst c @ [fp], snd c @ [l])"
    by (auto simp: misses_def extensions_iff [OF wf])
  have "trust_chain now ids self (fst c, snd c)" using miss by simp
  then have "trust_chain now ids self c'" unfolding c'(3) using c'(2,1) by (rule trust_chain.extend)
  then show ?case by (rule miss.IH)
qed

lemma chain_leads:
  assumes wf: "hm_wf ids"
  shows "trust_chain now ids self c \<Longrightarrow> target \<notin> set (fst c) \<Longrightarrow> length (fst c) \<le> k \<Longrightarrow>
     leads now ids k target c d \<Longrightarrow> leads now ids k target ([self], []) d"
proof (induction arbitrary: d rule: trust_chain.induct)
  case (extend p ls l fp)
  have "(p @ [fp], ls @ [l]) \<in> set (misses target (extensions now ids (p, ls)))"
    using extend.hyps extend.prems by (auto simp: misses_def extensions_iff [OF wf])
  then have "leads now ids k target (p, ls) d"
    using extend.prems by (intro leads.miss [OF _ _ extend.prems(3)]) auto
  then show ?case using extend.IH extend.prems by simp
qed simp

lemma leads_complete:
  assumes wf: "hm_wf ids" and other: "self \<noteq> target"
    and d: "trust_chain now ids self d" "last (fst d) = target" "length (fst d) \<le> Suc k"
  shows "leads now ids k target ([self], []) d"
  using d(1)
proof (cases rule: trust_chain.cases)
  case start
  with d(2) other show ?thesis by simp
next
  case (extend p ls l fp)
  then have target: "fp = target" "target \<notin> set p" using d(2) by auto
  have "d \<in> set (hits target (extensions now ids (p, ls)))"
    using extend target by (auto simp: hits_def extensions_iff [OF wf])
  then have "leads now ids k target (p, ls) d"
    using extend d(3) by (intro leads.hit) auto
  then show ?thesis using chain_leads [OF wf extend(2)] target d(3) extend(1) by simp
qed

lemma search_paths_exact:
  assumes wf: "hm_wf ids" and other: "self \<noteq> target"
  shows "set (search_paths now ids k target [([self], [])] []) =
     {d. trust_chain now ids self d \<and> last (fst d) = target \<and> length (fst d) \<le> Suc k}"
proof (intro set_eqI)
  fix d
  have "d \<in> set (search_paths now ids k target [([self], [])] []) \<longleftrightarrow>
      leads now ids k target ([self], []) d"
    unfolding search_paths_iff by simp
  then show "d \<in> set (search_paths now ids k target [([self], [])] []) \<longleftrightarrow>
      d \<in> {d. trust_chain now ids self d \<and> last (fst d) = target \<and> length (fst d) \<le> Suc k}"
    using leads_sound [OF wf _ trust_chain.start] leads_complete [OF wf other] by blast
qed

section \<open>The order of the paths\<close>

lemma set_insert_path [simp]: "set (insert_path t ts) = insert t (set ts)"
  by (induction ts) auto

lemma set_sort_paths [simp]: "set (foldr insert_path ts []) = set ts"
  by (induction ts) auto

lemma length_insert_path [simp]: "length (insert_path t ts) = Suc (length ts)"
  by (induction ts) auto

definition descending :: "trust_path list \<Rightarrow> bool" where
  "descending ts \<longleftrightarrow> sorted_wrt (\<lambda>t u. f64_le (effective_trust u) (effective_trust t)) ts"

lemma descending_insert:
  assumes "descending ts" "effective_trust t \<noteq> NaN" "\<forall>u\<in>set ts. effective_trust u \<noteq> NaN"
  shows "descending (insert_path t ts)"
  using assms
proof (induction ts)
  case (Cons u ts)
  show ?case
  proof (cases "f64_lt (effective_trust t) (effective_trust u)")
    case True
    then have "f64_le (effective_trust t) (effective_trust u)" by (simp add: f64_le_def)
    then show ?thesis using True Cons by (auto simp: descending_def)
  next
    case False
    then have ut: "f64_le (effective_trust u) (effective_trust t)"
      using Cons.prems by (simp add: f64_not_lt)
    then show ?thesis
      using False Cons.prems by (auto simp: descending_def intro: f64_le_trans [OF _ ut])
  qed
qed (simp add: descending_def)

lemma descending_sort:
  "\<forall>t\<in>set ts. effective_trust t \<noteq> NaN \<Longrightarrow> descending (foldr insert_path ts [])"
  by (induction ts) (auto simp: descending_insert, simp add: descending_def)

lemma length_sort_paths [simp]: "length (foldr insert_path ts []) = length ts"
  by (induction ts) auto

lemma sort_paths_descending:
  assumes "sort_paths ts = Some us"
  shows "descending us" and "set us = set ts"
proof -
  from assms have us: "us = foldr insert_path ts []"
    and ok: "length ts < 2 \<or> (\<forall>t\<in>set ts. effective_trust t \<noteq> NaN)"
    by (auto simp: sort_paths_def split: if_splits)
  show "set us = set ts" by (simp add: us)
  show "descending us"
  proof (cases "length ts < 2")
    case True
    then have "length us < 2" by (simp add: us)
    then show ?thesis by (cases us; cases "tl us") (auto simp: descending_def)
  next
    case False
    with ok show ?thesis by (simp add: us descending_sort)
  qed
qed

section \<open>The worth of a chain\<close>

definition unit_f64 :: "f64 \<Rightarrow> rat \<Rightarrow> bool" where
  "unit_f64 x c \<longleftrightarrow> (\<exists>z. x = Fin z \<and> 0 \<le> z \<and> z \<le> c)"

lemma unit_mul:
  assumes "unit_f64 x a" "unit_f64 y b" "a * b \<le> c" "representable c"
  shows "unit_f64 (f64_mul x y) c"
proof -
  from assms(1,2) obtain u v where "x = Fin u" "0 \<le> u" "u \<le> a" "y = Fin v" "0 \<le> v" "v \<le> b"
    by (auto simp: unit_f64_def)
  then show ?thesis
    using f64_mul_bounded [of u a v b c] assms(3,4) unfolding unit_f64_def by metis
qed

lemma unit_powi_loop: "unit_f64 r 1 \<Longrightarrow> unit_f64 a 1 \<Longrightarrow> unit_f64 (f64_powi_loop r a n) 1"
proof (induction r a n rule: f64_powi_loop.induct)
  case (1 r a n)
  have ra: "unit_f64 (f64_mul r a) 1" and aa: "unit_f64 (f64_mul a a) 1"
    using 1(2,3) by (auto intro: unit_mul [of _ 1 _ 1])
  show ?case
    using 1 ra aa by (subst f64_powi_loop.simps) (auto simp: Let_def)
qed

lemma unit_one: "unit_f64 (Fin 1) 1"
  by (simp add: unit_f64_def)

lemma unit_powi: "unit_f64 decay 1 \<Longrightarrow> unit_f64 (f64_powi decay n) 1"
  by (simp add: f64_powi_def unit_powi_loop unit_one)

lemma unit_weight: "unit_f64 (level_weight l) 1"
  by (cases l) (simp_all add: level_weight_def unit_f64_def field_simps exI [of _ "1 / 2 :: rat"])

lemma effective_loop_bound:
  "unit_f64 decay 1 \<Longrightarrow> representable c \<Longrightarrow> unit_f64 trust c \<Longrightarrow>
     unit_f64 (effective_loop decay i ls trust) c"
proof (induction ls arbitrary: i trust)
  case (Cons l ls)
  have "unit_f64 (f64_mul (level_weight l) (f64_powi decay i)) 1"
    by (rule unit_mul [OF unit_weight unit_powi [OF Cons.prems(1)]]) simp_all
  then have "unit_f64 (f64_mul trust (f64_mul (level_weight l) (f64_powi decay i))) c"
    by (rule unit_mul [OF Cons.prems(3)]) (simp_all add: Cons.prems(2))
  then show ?case using Cons.IH Cons.prems by simp
qed simp

lemma effective_trust_bound:
  "unit_f64 decay 1 \<Longrightarrow> unit_f64 (calculate_effective_trust decay ls) 1"
  unfolding calculate_effective_trust_def by (rule effective_loop_bound) (simp_all add: unit_one)

text \<open>With the default decay: the bounds after two, three and four hops.\<close>

lemma representable_bounds:
  "representable (13 / 16)" "representable (43 / 64)" "representable (9 / 16)"
  "representable (21 / 64)" "representable (3 / 8)" "representable (3 / 4)"
  using representable_fraction [of 1 13 4] representable_fraction [of 1 43 6]
    representable_fraction [of 1 9 4] representable_fraction [of 2 21 6]
    representable_fraction [of 2 3 3] representable_fraction [of 1 3 2]
  by (simp_all add: pow2_def)

lemma default_decay: "unit_f64 (f64_round (8 / 10)) (13 / 16)"
proof -
  have "f64_le (f64_round (8 / 10)) (Fin (13 / 16))"
    by (rule f64_round_le [OF representable_bounds(1)]) simp
  moreover have "f64_le (Fin 0) (f64_round (8 / 10))" by (rule f64_round_ge) simp_all
  ultimately show ?thesis by (cases "f64_round (8 / 10)") (auto simp: unit_f64_def)
qed

lemma unit_weaken: "unit_f64 x c \<Longrightarrow> c \<le> d \<Longrightarrow> unit_f64 x d"
  by (auto simp: unit_f64_def)

lemma default_powi:
  "f64_powi (f64_round (8 / 10)) 0 = Fin 1"
  "unit_f64 (f64_powi (f64_round (8 / 10)) 1) (13 / 16)"
  "unit_f64 (f64_powi (f64_round (8 / 10)) 2) (43 / 64)"
  "unit_f64 (f64_powi (f64_round (8 / 10)) 3) (9 / 16)"
proof -
  let ?d = "f64_round (8 / 10)"
  have one: "unit_f64 (f64_mul (Fin 1) ?d) (13 / 16)"
    by (rule unit_mul [OF unit_one default_decay]) (simp_all add: representable_bounds)
  have sq: "unit_f64 (f64_mul ?d ?d) (43 / 64)"
    by (rule unit_mul [OF default_decay default_decay]) (simp_all add: representable_bounds)
  have loop: "f64_powi_loop r a (Suc 0) = f64_mul r a" "f64_powi_loop r a 0 = r" for r a
    by (subst f64_powi_loop.simps; simp)+
  show "f64_powi ?d 0 = Fin 1" by (simp add: f64_powi_def loop)
  show "unit_f64 (f64_powi ?d 1) (13 / 16)" using one by (simp add: f64_powi_def loop)
  have "f64_powi ?d 2 = f64_mul (Fin 1) (f64_mul ?d ?d)"
    unfolding f64_powi_def by (subst f64_powi_loop.simps) (simp add: loop)
  then show "unit_f64 (f64_powi ?d 2) (43 / 64)"
    using unit_mul [OF unit_one sq] by (simp add: representable_bounds)
  have "f64_powi ?d 3 = f64_mul (f64_mul (Fin 1) ?d) (f64_mul ?d ?d)"
    unfolding f64_powi_def by (subst f64_powi_loop.simps) (simp add: loop)
  then show "unit_f64 (f64_powi ?d 3) (9 / 16)"
    using unit_mul [OF one sq] by (simp add: representable_bounds)
qed

lemma hop_bound:
  assumes "unit_f64 trust a" "unit_f64 (f64_powi (f64_round (8 / 10)) i) b" "representable b"
    "a * b \<le> c" "representable c"
  shows "unit_f64 (f64_mul trust (f64_mul (level_weight l) (f64_powi (f64_round (8 / 10)) i))) c"
proof (rule unit_mul [OF assms(1) _ assms(4,5)])
  show "unit_f64 (f64_mul (level_weight l) (f64_powi (f64_round (8 / 10)) i)) b"
    by (rule unit_mul [OF unit_weight assms(2)]) (simp_all add: assms(3))
qed

lemma default_decay_unit: "unit_f64 (f64_round (8 / 10)) 1"
  by (rule unit_weaken [OF default_decay]) simp

text \<open>Three hops are worth at most 9/16, four or more at most 21/64.\<close>

lemma default_trust_bounds:
  "3 \<le> length ls \<Longrightarrow> unit_f64 (calculate_effective_trust (f64_round (8 / 10)) ls) (9 / 16)"
  "4 \<le> length ls \<Longrightarrow> unit_f64 (calculate_effective_trust (f64_round (8 / 10)) ls) (21 / 64)"
proof -
  let ?d = "f64_round (8 / 10)"
  let ?hop = "\<lambda>i l t. f64_mul t (f64_mul (level_weight l) (f64_powi ?d i))"
  have h1: "unit_f64 (?hop 0 a (Fin 1)) 1" for a
    by (rule hop_bound [OF unit_one unit_powi [OF default_decay_unit]]) simp_all
  have h2: "unit_f64 (?hop 1 b (?hop 0 a (Fin 1))) (13 / 16)" for a b
    by (rule hop_bound [OF h1 default_powi(2)]) (simp_all add: representable_bounds)
  have h3: "unit_f64 (?hop 2 c (?hop 1 b (?hop 0 a (Fin 1)))) (9 / 16)" for a b c
    by (rule hop_bound [OF h2 default_powi(3)]) (simp_all add: representable_bounds)
  have h4: "unit_f64 (?hop 3 e (?hop 2 c (?hop 1 b (?hop 0 a (Fin 1))))) (21 / 64)" for a b c e
    by (rule hop_bound [OF h3 default_powi(4)]) (simp_all add: representable_bounds)
  have nums: "Suc 0 = 1" "Suc 1 = 2" "Suc 2 = 3" by simp_all
  {
    assume "3 \<le> length ls"
    then obtain a b c rest where ls: "ls = a # b # c # rest"
      by (auto simp: Suc_le_length_iff eval_nat_numeral)
    have "calculate_effective_trust ?d ls
        = effective_loop ?d 3 rest (?hop 2 c (?hop 1 b (?hop 0 a (Fin 1))))"
      by (simp only: ls calculate_effective_trust_def effective_loop.simps nums)
    then show "unit_f64 (calculate_effective_trust ?d ls) (9 / 16)"
      using effective_loop_bound [OF default_decay_unit _ h3] representable_bounds by simp
  }
  {
    assume "4 \<le> length ls"
    then obtain a b c e rest where ls: "ls = a # b # c # e # rest"
      by (auto simp: Suc_le_length_iff eval_nat_numeral)
    have "calculate_effective_trust ?d ls
        = effective_loop ?d (Suc 3) rest (?hop 3 e (?hop 2 c (?hop 1 b (?hop 0 a (Fin 1)))))"
      by (simp only: ls calculate_effective_trust_def effective_loop.simps nums)
    then show "unit_f64 (calculate_effective_trust ?d ls) (21 / 64)"
      using effective_loop_bound [OF default_decay_unit _ h4] representable_bounds by simp
  }
qed

lemma thresholds:
  "unit_f64 x (9 / 16) \<Longrightarrow> \<not> f64_le (f64_round (8 / 10)) x"
  "unit_f64 x (21 / 64) \<Longrightarrow> \<not> f64_le (f64_round (4 / 10)) x"
proof -
  have "f64_le (Fin (3 / 4)) (f64_round (8 / 10))"
    by (rule f64_round_ge [OF representable_bounds(6)]) simp
  then show "unit_f64 x (9 / 16) \<Longrightarrow> \<not> f64_le (f64_round (8 / 10)) x"
    by (cases "f64_round (8 / 10)") (auto simp: unit_f64_def)
  have "f64_le (Fin (3 / 8)) (f64_round (4 / 10))"
    by (rule f64_round_ge [OF representable_bounds(5)]) simp
  then show "unit_f64 x (21 / 64) \<Longrightarrow> \<not> f64_le (f64_round (4 / 10)) x"
    by (cases "f64_round (4 / 10)") (auto simp: unit_f64_def)
qed

section \<open>Properties\<close>

text \<open>The search does not panic when the decay is a number from 0 to 1, as in the default.\<close>

lemma find_trust_paths_total:
  assumes "unit_f64 (trust_decay (web_config w)) 1"
  shows "find_trust_paths now w target \<noteq> None"
proof -
  have "effective_trust (make_path (trust_decay (web_config w)) c) \<noteq> NaN" for c
    using effective_trust_bound [OF assms, of "snd c"] by (auto simp: make_path_def unit_f64_def)
  then show ?thesis
    by (auto simp: find_trust_paths_def sort_paths_def split: option.split)
qed

text \<open>
  C18: the search for trust paths implements its specification. With a decay from 0 to 1 the
  search for a target other than the owner returns: its result is, as chains of identities and
  levels, exactly the set of the chains of valid endorsements from the owner to the target that
  visit no identity twice and have at most \<open>max_path_length\<close> hops, each with the trust of its
  levels, the most trusted first.
\<close>

theorem trust_paths_exact:
  assumes "hm_wf (identities w)" "self_fingerprint w = Some self" "self \<noteq> target"
    and "unit_f64 (trust_decay (web_config w)) 1"
  shows "\<exists>ts. find_trust_paths now w target = Some ts
    \<and> (\<lambda>t. (path_nodes t, path_levels t)) ` set ts
        = {c. trust_chain now (identities w) self c \<and> last (fst c) = target
              \<and> length (fst c) \<le> Suc (max_path_length (web_config w))}
    \<and> (\<forall>t\<in>set ts. effective_trust t
          = calculate_effective_trust (trust_decay (web_config w)) (path_levels t))
    \<and> descending ts"
proof -
  let ?cs = "search_paths now (identities w) (max_path_length (web_config w)) target [([self], [])] []"
  let ?mk = "make_path (trust_decay (web_config w))"
  obtain ts where ts: "find_trust_paths now w target = Some ts"
    using find_trust_paths_total [OF assms(4)] by blast
  then have sorted: "sort_paths (map ?mk ?cs) = Some ts"
    using assms(2,3) by (simp add: find_trust_paths_def)
  have set: "set ts = ?mk ` set ?cs" using sort_paths_descending(2) [OF sorted] by simp
  have "(\<lambda>t. (path_nodes t, path_levels t)) ` set ts = set ?cs"
    by (simp add: set image_image make_path_def)
  then have "(\<lambda>t. (path_nodes t, path_levels t)) ` set ts
      = {c. trust_chain now (identities w) self c \<and> last (fst c) = target
              \<and> length (fst c) \<le> Suc (max_path_length (web_config w))}"
    using search_paths_exact [OF assms(1,3)] by simp
  moreover have "\<forall>t\<in>set ts. effective_trust t
      = calculate_effective_trust (trust_decay (web_config w)) (path_levels t)"
    by (auto simp: set make_path_def)
  ultimately show ?thesis using ts sort_paths_descending(1) [OF sorted] by blast
qed

lemma trust_paths_exact_witness:
  "\<exists>ts. find_trust_paths 0 (set_self [1] (web_new trust_config_default)) [2] = Some ts \<and> descending ts"
  using trust_paths_exact [of "set_self [1] (web_new trust_config_default)" "[1]" "[2]" 0]
    default_decay_unit
  by (auto simp: set_self_def web_new_def invalidate_cache_def trust_config_default_def)

text \<open>
  The decay makes long paths worthless. With the default decay a chain of four or more hops,
  all of them fully trusted, stays below the threshold of a marginal introducer: although the
  default \<open>max_path_length\<close> is 5, an endorsement whose signer is not trusted directly and is
  reached only by chains of four or more hops changes no count (the factor is applied once for
  the second hop, twice for the third, and so on, where the comment promises one factor per hop).
\<close>

theorem long_chains_do_not_count:
  assumes "trust_decay (web_config w) = f64_round (8 / 10)"
    and "find_trust_paths now w (signer e) = Some ts" "self_fingerprint w \<noteq> Some (signer e)"
    and "\<not> can_introduce (get_owner_trust w (signer e))"
    and "\<forall>t\<in>set ts. 4 \<le> length (path_levels t)"
  shows "count_endorsement now w e n = Some n"
proof (cases ts)
  case Nil
  then show ?thesis using assms by (simp add: count_endorsement_def)
next
  case (Cons t us)
  have worth: "unit_f64 (effective_trust t) (21 / 64)" if "t \<in> set ts" for t
  proof -
    have "effective_trust t = calculate_effective_trust (f64_round (8 / 10)) (path_levels t)"
      using assms(1-3) that sort_paths_descending(2)
      by (auto simp: find_trust_paths_def make_path_def split: option.splits if_splits)
    then show ?thesis using default_trust_bounds(2) assms(5) that by simp
  qed
  have best: "unit_f64 (foldl (\<lambda>a b. if f64_lt b a then a else b) x xs) (21 / 64)"
    if "unit_f64 x (21 / 64)" "\<forall>y\<in>set xs. unit_f64 y (21 / 64)" for x xs
    using that by (induction xs arbitrary: x) auto
  have "unit_f64 (best_trust ts) (21 / 64)"
    using best [of "effective_trust t" "map effective_trust us"] worth Cons
    by (simp add: best_trust_def)
  then have "\<not> f64_le (f64_round (4 / 10)) (best_trust ts)" "\<not> f64_le (f64_round (8 / 10)) (best_trust ts)"
    using thresholds unit_weaken [of _ "21 / 64" "9 / 16"] by auto
  then show ?thesis using assms(2,4) Cons by (simp add: count_endorsement_def)
qed

definition endorsement_by :: "byte \<Rightarrow> byte \<Rightarrow> trust_level \<Rightarrow> trust_signature" where
  "endorsement_by a b l =
     \<lparr>signer = [a], subject = [b], endorsed_level = l, cert_type = CertIdentity, sig_scope = None,
      sig_created_at = 0, sig_expires_at = 0, sig_bytes = []\<rparr>"

definition identity_of :: "byte \<Rightarrow> trust_signature list \<Rightarrow> signed_identity" where
  "identity_of a es =
     \<lparr>self_sig = \<lparr>certified = \<lparr>public_key = [a], fingerprint = [a], public_name = '''',
                     public_created_at = 0\<rparr>,
                   capabilities = [], self_metadata = [], self_created_at = 0, self_bytes = []\<rparr>,
      endorsements = es\<rparr>"

text \<open>Five identities, each endorsed by the one before.\<close>

definition chain_web :: web_of_trust where
  "chain_web =
     (web_new trust_config_default)\<lparr>self_fingerprint := Some [1],
        identities := map (\<lambda>i. ([i], identity_of i [endorsement_by (i - 1) i LFull])) [2, 3, 4, 5]\<rparr>"

lemmas sample_simps =
  endorsement_by_def identity_of_def is_revocation_def sig_expired_def web_new_def
  trust_config_default_def

lemma valid_sample [simp]:
  "valid_endorsements now (identity_of b [endorsement_by a b l]) = [endorsement_by a b l]"
  by (auto simp: valid_endorsements_def sample_simps)

lemma sample_signer [simp]:
  "signer (endorsement_by a b l) = [a]" "endorsed_level (endorsement_by a b l) = l"
  by (simp_all add: endorsement_by_def)

lemma chain_web_paths:
  "find_trust_paths 0 chain_web [5] =
     Some [make_path (f64_round (8 / 10)) ([[1], [2], [3], [4], [5]], [LFull, LFull, LFull, LFull])]"
  by (simp add: find_trust_paths_def chain_web_def web_new_def trust_config_default_def
      extensions_def hits_def misses_def sort_paths_def)

lemma long_chains_do_not_count_witness:
  "count_endorsement 0 chain_web (endorsement_by 5 6 LFull) (0, 0) = Some (0, 0)"
proof (rule long_chains_do_not_count)
  show "find_trust_paths 0 chain_web (signer (endorsement_by 5 6 LFull)) =
     Some [make_path (f64_round (8 / 10)) ([[1], [2], [3], [4], [5]], [LFull, LFull, LFull, LFull])]"
    using chain_web_paths by (simp add: endorsement_by_def)
qed (simp_all add: chain_web_def sample_simps make_path_def get_owner_trust_def can_introduce_def)

end
