(* ===== verification/Trust_Validity.thy ===== *)
theory Trust_Validity
  imports Trust_Paths
begin

text \<open>
  What the validity of an identity means: which operations keep the web well formed, that the
  cache is transparent while time stands still, what an export carries over, and which records
  the calculation believes.
\<close>

section \<open>Reachable webs\<close>

datatype web_op =
    SetSelf fingerprint
  | AddIdentity signed_identity
  | SetOwnerTrust fingerprint trust_level
  | CalculateValidity fingerprint

text \<open>One call on the web at time \<open>now\<close>; a call that panics leaves no web.\<close>

definition web_call :: "timestamp \<Rightarrow> web_op \<Rightarrow> web_of_trust \<Rightarrow> web_of_trust option" where
  "web_call now op w =
     (case op of
        SetSelf fp \<Rightarrow> Some (set_self fp w)
      | AddIdentity i \<Rightarrow> Some (add_identity i w)
      | SetOwnerTrust fp l \<Rightarrow> Some (set_owner_trust fp l w)
      | CalculateValidity fp \<Rightarrow> map_option snd (calculate_validity now fp w))"

inductive web_reachable :: "timestamp \<Rightarrow> trust_config \<Rightarrow> web_of_trust \<Rightarrow> bool"
  for now cfg where
  fresh: "web_reachable now cfg (web_new cfg)"
| call: "web_reachable now cfg w \<Longrightarrow> web_call now op w = Some w' \<Longrightarrow> web_reachable now cfg w'"

definition web_wf :: "web_of_trust \<Rightarrow> bool" where
  "web_wf w \<longleftrightarrow>
     hm_wf (identities w) \<and> hm_wf (owner_trust w) \<and>
     (\<forall>(fp, i)\<in>set (identities w). signed_fingerprint i = fp)"

definition cache_ok :: "timestamp \<Rightarrow> web_of_trust \<Rightarrow> bool" where
  "cache_ok now w \<longleftrightarrow>
     (\<forall>fp v. hm_get (validity_cache w) fp = Some v \<longrightarrow> validity_uncached now w fp = Some v)"

lemma web_fields [simp]:
  "identities (w\<lparr>validity_cache := c\<rparr>) = identities w"
  "find_trust_paths now (w\<lparr>validity_cache := c\<rparr>) fp = find_trust_paths now w fp"
  "get_owner_trust (w\<lparr>validity_cache := c\<rparr>) fp = get_owner_trust w fp"
  by (simp_all add: find_trust_paths_def get_owner_trust_def split: option.split)

lemma count_endorsements_cache [simp]:
  "count_endorsements now (w\<lparr>validity_cache := c\<rparr>) es n = count_endorsements now w es n"
proof (induction es arbitrary: n)
  case (Cons e es)
  have "count_endorsement now (w\<lparr>validity_cache := c\<rparr>) e n = count_endorsement now w e n"
    by (simp add: count_endorsement_def split: option.split)
  with Cons show ?case by (simp split: option.split)
qed simp

lemma validity_uncached_cache [simp]:
  "validity_uncached now (w\<lparr>validity_cache := c\<rparr>) fp = validity_uncached now w fp"
  by (simp add: validity_uncached_def split: option.split)

lemma set_hm_insert: "set (hm_insert k v m) \<subseteq> insert (k, v) (set m)"
  by (induction m) (auto simp: hm_insert_def)

lemma web_wf_call: "web_wf w \<Longrightarrow> web_call now op w = Some w' \<Longrightarrow> web_wf w'"
  using set_hm_insert
  by (cases op)
    (fastforce simp: web_call_def web_wf_def set_self_def add_identity_def set_owner_trust_def
      invalidate_cache_def calculate_validity_def split: option.splits)+

lemma cache_ok_call:
  assumes "cache_ok now w" "web_call now op w = Some w'"
  shows "cache_ok now w'"
proof (cases op)
  case (CalculateValidity fp)
  show ?thesis
  proof (cases "hm_get (validity_cache w) fp")
    case (Some v)
    with assms CalculateValidity show ?thesis by (simp add: web_call_def calculate_validity_def)
  next
    case None
    with assms(2) CalculateValidity obtain v where v: "validity_uncached now w fp = Some v"
      and w': "w' = w\<lparr>validity_cache := hm_insert fp v (validity_cache w)\<rparr>"
      by (auto simp: web_call_def calculate_validity_def split: option.splits)
    show ?thesis using assms(1) v by (auto simp: w' cache_ok_def hashmap_simps)
  qed
qed (use assms(2) in \<open>auto simp: web_call_def set_self_def add_identity_def set_owner_trust_def
      invalidate_cache_def cache_ok_def\<close>)

lemma web_reachable_ok: "web_reachable now cfg w \<Longrightarrow> web_wf w \<and> cache_ok now w"
proof (induction rule: web_reachable.induct)
  case fresh
  then show ?case by (simp add: web_wf_def cache_ok_def web_new_def)
qed (use web_wf_call cache_ok_call in blast)

section \<open>Direct endorsements\<close>

lemma direct_chain:
  assumes "hm_get (identities w) b = Some i" "e \<in> set (valid_endorsements now i)"
    "signer e = self" "b \<noteq> self"
  shows "trust_chain now (identities w) self ([self, b], [endorsed_level e])"
proof -
  have "trust_chain now (identities w) self ([self] @ [b], [] @ [endorsed_level e])"
    by (rule trust_chain.extend [OF trust_chain.start])
      (use assms in \<open>auto simp: endorses_def\<close>)
  then show ?thesis by simp
qed

lemma best_trust_ge:
  assumes "t \<in> set ts" "\<forall>u\<in>set ts. effective_trust u \<noteq> NaN"
  shows "f64_le (effective_trust t) (best_trust ts)"
proof -
  have fold: "f64_le x (foldl (\<lambda>a b. if f64_lt b a then a else b) x xs)
      \<and> (\<forall>y\<in>set xs. f64_le y (foldl (\<lambda>a b. if f64_lt b a then a else b) x xs))"
    if "x \<noteq> NaN" "\<forall>y\<in>set xs. y \<noteq> NaN" for x xs
    using that
  proof (induction xs arbitrary: x)
    case (Cons y ys)
    let ?m = "if f64_lt y x then x else y"
    have m: "?m \<noteq> NaN" using Cons.prems by simp
    have up: "f64_le x ?m" "f64_le y ?m"
      using Cons.prems by (auto simp: f64_not_lt f64_le_refl) (simp add: f64_le_def)
    have ys: "\<forall>y\<in>set ys. y \<noteq> NaN" using Cons.prems(2) by simp
    note IH = Cons.IH [OF m ys]
    have "f64_le x (foldl (\<lambda>a b. if f64_lt b a then a else b) ?m ys)"
      "f64_le y (foldl (\<lambda>a b. if f64_lt b a then a else b) ?m ys)"
      using f64_le_trans [OF up(1) IH [THEN conjunct1]] f64_le_trans [OF up(2) IH [THEN conjunct1]]
      by blast+
    with IH show ?case by simp
  qed (simp add: f64_le_refl)
  obtain u us where ts: "ts = u # us" using assms(1) by (cases ts) auto
  show ?thesis
    using fold [of "effective_trust u" "map effective_trust us"] assms
    by (auto simp: best_trust_def ts)
qed

text \<open>A signer whom the owner endorsed counts as a full introducer, whatever its owner trust.\<close>

lemma endorsed_signer_counts:
  assumes "hm_wf (identities w)" "self_fingerprint w = Some self" "signer e \<noteq> self"
    and "unit_f64 (trust_decay (web_config w)) 1" "1 \<le> max_path_length (web_config w)"
    and "hm_get (identities w) (signer e) = Some i" "d \<in> set (valid_endorsements now i)"
    and "signer d = self" "can_introduce (endorsed_level d)"
  shows "count_endorsement now w e n = Some (count_level (endorsed_level e) n)"
proof (cases "can_introduce (get_owner_trust w (signer e))")
  case False
  let ?decay = "trust_decay (web_config w)"
  obtain ts where ts: "find_trust_paths now w (signer e) = Some ts"
    using find_trust_paths_total [OF assms(4)] by blast
  let ?cs = "search_paths now (identities w) (max_path_length (web_config w)) (signer e) [([self], [])] []"
  have set: "set ts = make_path ?decay ` set ?cs"
    using ts assms(2,3) sort_paths_descending(2) by (auto simp: find_trust_paths_def)
  have "([self, signer e], [endorsed_level d]) \<in> set ?cs"
    unfolding search_paths_exact [OF assms(1) assms(3) [symmetric]]
    using direct_chain [OF assms(6-8,3)] assms(5) by simp
  then have mem: "make_path ?decay ([self, signer e], [endorsed_level d]) \<in> set ts"
    unfolding set by (rule imageI)
  have loop: "f64_powi_loop r a 0 = r" for r a by (subst f64_powi_loop.simps) simp
  have "calculate_effective_trust ?decay [endorsed_level d] = Fin 1"
    using assms(9) f64_round_exact [OF representable_1]
    by (cases "endorsed_level d")
      (auto simp: calculate_effective_trust_def level_weight_def can_introduce_def f64_powi_def loop)
  then have one: "effective_trust (make_path ?decay ([self, signer e], [endorsed_level d])) = Fin 1"
    by (simp add: make_path_def)
  have nan: "\<forall>u\<in>set ts. effective_trust u \<noteq> NaN"
  proof -
    have "effective_trust (make_path ?decay c) \<noteq> NaN" for c
      using effective_trust_bound [OF assms(4), of "snd c"] by (auto simp: make_path_def unit_f64_def)
    then show ?thesis by (auto simp: set)
  qed
  have best: "f64_le (Fin 1) (best_trust ts)" using best_trust_ge [OF mem nan] one by simp
  have "f64_le (f64_round (8 / 10)) (Fin 1)" by (rule f64_round_le) simp_all
  then have "f64_le (f64_round (8 / 10)) (best_trust ts)" using best by (rule f64_le_trans)
  moreover have "ts \<noteq> []" using mem by auto
  ultimately show ?thesis using ts False by (simp add: count_endorsement_def)
qed (simp add: count_endorsement_def)

section \<open>Properties\<close>

text \<open>
  C36: the cache of validities is transparent while time stands still. In every web reached from a
  new one by its operations, all within one instant, a question answered from the cache gets the
  answer of a fresh computation; every identity is filed under its own fingerprint.
\<close>

theorem validity_cache_transparent:
  assumes "web_reachable now cfg w"
  shows "map_option fst (calculate_validity now fp w) = validity_uncached now w fp
    \<and> (\<forall>i. get_identity w fp = Some i \<longrightarrow> signed_fingerprint i = fp)"
proof -
  have ok: "web_wf w" "cache_ok now w" using web_reachable_ok [OF assms] by auto
  then have "map_option fst (calculate_validity now fp w) = validity_uncached now w fp"
    by (auto simp: calculate_validity_def cache_ok_def split: option.split)
  moreover have "\<forall>i. get_identity w fp = Some i \<longrightarrow> signed_fingerprint i = fp"
    using ok(1) by (auto simp: web_wf_def get_identity_def dest!: map_of_SomeD)
  ultimately show ?thesis by blast
qed

lemma web_reachable_sample: "web_reachable 0 trust_config_default (add_identity (identity_of 2 []) (web_new trust_config_default))"
  by (rule web_reachable.call [OF web_reachable.fresh, where op = "AddIdentity (identity_of 2 [])"])
    (simp add: web_call_def)

lemma validity_cache_transparent_witness:
  "map_option fst (calculate_validity 0 [2] (add_identity (identity_of 2 []) (web_new trust_config_default)))
     = Some VUndefined"
  using validity_cache_transparent [OF web_reachable_sample, of "[2]"]
  by (simp add: validity_uncached_def add_identity_def invalidate_cache_def web_new_def
      hashmap_simps identity_of_def signed_fingerprint_def valid_endorsements_def
      validity_of_counts_def trust_config_default_def)

text \<open>
  Validity rests on unverified records. The calculation never checks a signature: an identity
  package whose only endorsement names the owner as its signer makes the identity fully valid,
  whatever the bytes of the signature are, and even if its subject is somebody else; all the
  package needs is a full level and no expiry or revocation (and an identity the owner has no
  other opinion of).
\<close>

theorem forged_endorsement_believed:
  assumes "signed_fingerprint i = fp" "endorsements i = [e]" "signer e = self"
    and "endorsed_level e = LFull" "\<not> is_revocation e" "\<not> sig_expired now e"
    and "fp \<noteq> self" "get_owner_trust w fp = LUnknown" "completes_needed (web_config w) \<le> 1"
  shows "map_option fst (calculate_validity now fp (add_identity i (set_self self w))) = Some VFull"
proof -
  have ve: "valid_endorsements now i = [e]"
    using assms(2,5,6) by (auto simp: valid_endorsements_def)
  have own: "hm_get (owner_trust w) fp \<noteq> Some LUltimate" "hm_get (owner_trust w) fp \<noteq> Some LUntrusted"
    using assms(8) by (auto simp: get_owner_trust_def)
  have "validity_uncached now (add_identity i (set_self self w)) fp = Some VFull"
    using assms own ve
    by (simp add: validity_uncached_def add_identity_def set_self_def invalidate_cache_def
        hashmap_simps count_endorsement_def get_owner_trust_def can_introduce_def count_level_def
        validity_of_counts_def)
  then show ?thesis by (simp add: calculate_validity_def add_identity_def invalidate_cache_def)
qed

lemma forged_endorsement_believed_witness:
  "map_option fst (calculate_validity 0 [2]
     (add_identity (identity_of 2 [endorsement_by 1 9 LFull]) (set_self [1] (web_new trust_config_default))))
   = Some VFull"
  by (rule forged_endorsement_believed [where e = "endorsement_by 1 9 LFull"])
    (simp_all add: sample_simps signed_fingerprint_def get_owner_trust_def)

text \<open>
  Marking an introducer as untrusted does not silence it. If the owner once endorsed a signer
  fully, every full endorsement by that signer still makes its subject fully valid after
  \<open>set_owner_trust(signer, Untrusted)\<close>, although the signer itself is then reported as revoked.
\<close>

theorem untrusted_introducer_counts:
  assumes "hm_wf (identities w)" "self_fingerprint w = Some self"
    and "unit_f64 (trust_decay (web_config w)) 1" "1 \<le> max_path_length (web_config w)"
    and "completes_needed (web_config w) \<le> 1"
    and "hm_get (identities w) b = Some i" "d \<in> set (valid_endorsements now i)"
    and "signer d = self" "endorsed_level d = LFull" "b \<noteq> self"
    and "hm_get (identities w) c = Some j" "valid_endorsements now j = [e]" "signer e = b"
    and "endorsed_level e = LFull" "c \<noteq> self" "c \<noteq> b" "get_owner_trust w c = LUnknown"
  shows "map_option fst (calculate_validity now c (set_owner_trust b LUntrusted w)) = Some VFull
    \<and> map_option fst (calculate_validity now b (set_owner_trust b LUntrusted w)) = Some VRevoked"
proof -
  let ?w = "set_owner_trust b LUntrusted w"
  have f: "identities ?w = identities w" "self_fingerprint ?w = Some self" "web_config ?w = web_config w"
    "validity_cache ?w = []" "hm_get (owner_trust ?w) fp = (if fp = b then Some LUntrusted else hm_get (owner_trust w) fp)"
    for fp
    using assms(2) by (simp_all add: set_owner_trust_def invalidate_cache_def hashmap_simps)
  have "count_endorsement now ?w e (0, 0) = Some (count_level (endorsed_level e) (0, 0))"
    by (rule endorsed_signer_counts) (use assms f in \<open>auto simp: can_introduce_def\<close>)
  then have "validity_uncached now ?w c = Some VFull"
    using assms f
    by (auto simp: validity_uncached_def count_level_def validity_of_counts_def get_owner_trust_def
        split: option.splits)
  moreover have "validity_uncached now ?w b = Some VRevoked"
    using assms(10) f by (auto simp: validity_uncached_def)
  ultimately show ?thesis using f(4) by (simp add: calculate_validity_def)
qed

definition introducer_web :: web_of_trust where
  "introducer_web =
     (web_new trust_config_default)\<lparr>self_fingerprint := Some [1],
        identities := [([2], identity_of 2 [endorsement_by 1 2 LFull]),
                       ([3], identity_of 3 [endorsement_by 2 3 LFull])]\<rparr>"

lemma untrusted_introducer_counts_witness:
  "map_option fst (calculate_validity 0 [3] (set_owner_trust [2] LUntrusted introducer_web)) = Some VFull"
proof -
  have "map_option fst (calculate_validity 0 [3] (set_owner_trust [2] LUntrusted introducer_web)) = Some VFull
    \<and> map_option fst (calculate_validity 0 [2] (set_owner_trust [2] LUntrusted introducer_web)) = Some VRevoked"
    by (rule untrusted_introducer_counts
        [where self = "[1]" and d = "endorsement_by 1 2 LFull" and e = "endorsement_by 2 3 LFull"])
      (use default_decay_unit in \<open>auto simp: introducer_web_def web_new_def hm_wf_def get_owner_trust_def
        trust_config_default_def\<close>)
  then show ?thesis ..
qed

text \<open>
  Validity outlives the endorsements it rests on. The cache is cleared when the web changes,
  not when time passes: an answer given before the only endorsement of an identity expires is
  given again after it has expired, when a fresh computation finds nothing.
\<close>

theorem stale_validity_served:
  assumes "signed_fingerprint i = fp" "endorsements i = [e]" "signer e = self"
    and "endorsed_level e = LFull" "\<not> is_revocation e" "sig_expires_at e \<noteq> 0"
    and "now \<le> sig_expires_at e" "sig_expires_at e < later"
    and "fp \<noteq> self" "get_owner_trust w fp = LUnknown" "completes_needed (web_config w) = 1"
  shows "\<exists>w'. calculate_validity now fp (add_identity i (set_self self w)) = Some (VFull, w')
    \<and> map_option fst (calculate_validity later fp w') = Some VFull
    \<and> validity_uncached later w' fp \<noteq> Some VFull"
proof -
  let ?w = "add_identity i (set_self self w)"
  have own: "hm_get (owner_trust w) fp \<noteq> Some LUltimate" "hm_get (owner_trust w) fp \<noteq> Some LUntrusted"
    using assms(10) by (auto simp: get_owner_trust_def)
  have ve: "valid_endorsements now i = [e]" "valid_endorsements later i = []"
    using assms(2,5,6,7,8) by (auto simp: valid_endorsements_def sig_expired_def)
  have now: "validity_uncached now ?w fp = Some VFull"
    using assms own ve(1)
    by (simp add: validity_uncached_def add_identity_def set_self_def invalidate_cache_def
        hashmap_simps count_endorsement_def get_owner_trust_def can_introduce_def count_level_def
        validity_of_counts_def)
  have later: "validity_uncached later ?w fp \<noteq> Some VFull"
    using assms own ve(2)
    by (simp add: validity_uncached_def add_identity_def set_self_def invalidate_cache_def
        hashmap_simps validity_of_counts_def)
  have "validity_cache ?w = []" by (simp add: add_identity_def invalidate_cache_def)
  with now later show ?thesis
    by (simp add: calculate_validity_def hashmap_simps)
qed

definition expiring_endorsement :: trust_signature where
  "expiring_endorsement = (endorsement_by 1 2 LFull)\<lparr>sig_expires_at := 10\<rparr>"

lemma stale_validity_served_witness:
  "\<exists>w'. calculate_validity 5 [2] (add_identity (identity_of 2 [expiring_endorsement])
          (set_self [1] (web_new trust_config_default))) = Some (VFull, w')
    \<and> map_option fst (calculate_validity 11 [2] w') = Some VFull
    \<and> validity_uncached 11 w' [2] \<noteq> Some VFull"
  by (rule stale_validity_served [where e = expiring_endorsement])
    (simp_all add: sample_simps signed_fingerprint_def get_owner_trust_def expiring_endorsement_def)

section \<open>Export and import\<close>

lemma hm_insert_fresh: "k \<notin> fst ` set m \<Longrightarrow> hm_insert k v m = m @ [(k, v)]"
  by (induction m) (auto simp: hm_insert_def)

lemma reinsert_all:
  "distinct (map fst (m @ ids)) \<Longrightarrow> (\<forall>(fp, i)\<in>set ids. signed_fingerprint i = fp) \<Longrightarrow>
     foldl (\<lambda>m i. hm_insert (signed_fingerprint i) i m) m (map snd ids) = m @ ids"
proof (induction ids arbitrary: m)
  case (Cons x ids)
  obtain fp i where x: "x = (fp, i)" by (cases x)
  have "hm_insert fp i m = m @ [(fp, i)]" using Cons.prems(1) x by (intro hm_insert_fresh) auto
  moreover have "signed_fingerprint i = fp" using Cons.prems(2) x by simp
  ultimately show ?case using Cons.IH [of "m @ [(fp, i)]"] Cons.prems x by simp
qed simp

text \<open>
  An exported web is imported unchanged. For every web reached from a new one, importing its
  export gives the same web with an empty cache, so that every validity and every trust path is
  computed as before.
\<close>

theorem web_export_roundtrip:
  assumes "web_reachable now cfg w"
  shows "web_import (web_export_of w) = w\<lparr>validity_cache := []\<rparr>
    \<and> map_option fst (calculate_validity now fp (web_import (web_export_of w)))
        = map_option fst (calculate_validity now fp w)"
proof -
  have ok: "web_wf w" "cache_ok now w" using web_reachable_ok [OF assms] by auto
  have "foldl (\<lambda>m i. hm_insert (signed_fingerprint i) i m) [] (hm_values (identities w)) = identities w"
    using reinsert_all [of "[]" "identities w"] ok(1) by (simp add: web_wf_def hm_wf_def hm_values_def)
  then have eq: "web_import (web_export_of w) = w\<lparr>validity_cache := []\<rparr>"
    by (simp add: web_import_def web_export_of_def web_new_def Let_def)
  have "map_option fst (calculate_validity now fp w) = validity_uncached now w fp"
    using ok(2) by (auto simp: calculate_validity_def cache_ok_def split: option.split)
  moreover have "map_option fst (calculate_validity now fp (w\<lparr>validity_cache := []\<rparr>))
      = validity_uncached now w fp"
    by (simp add: calculate_validity_def split: option.split)
  ultimately show ?thesis by (simp only: eq)
qed

lemma web_export_roundtrip_witness:
  "web_import (web_export_of (add_identity (identity_of 2 []) (web_new trust_config_default)))
     = add_identity (identity_of 2 []) (web_new trust_config_default)"
  using web_export_roundtrip [OF web_reachable_sample]
  by (simp add: add_identity_def invalidate_cache_def web_new_def)

end
