(* ===== verification/Credentials.thy ===== *)
theory Credentials
  imports Prelude
begin

text \<open>
  Agent credentials (\<open>security/credentials.rs\<close>): tokens, certificates, their combination and the
  anonymous credential, with the validity checks each of them makes on itself. Points in time
  and durations are integers, in nanoseconds; \<open>now\<close> is the reading of the system clock that a
  call takes. The hexadecimal printer of the serial number is a parameter.
\<close>

section \<open>Tokens\<close>

datatype credential_error =
    InvalidCertificate
  | CertificateExpired
  | InvalidToken
  | TokenExpired
  | InvalidSignature
  | MissingField string
  | UnsupportedType

datatype token_type = TBearer | TJwt | TApiKey

fun token_type_as_str :: "token_type \<Rightarrow> string" where
  "token_type_as_str TBearer = ''bearer''"
| "token_type_as_str TJwt = ''jwt''"
| "token_type_as_str TApiKey = ''api_key''"

record token =
  token_type :: token_type
  token_value :: string
  token_expires_at :: "timestamp option"
  token_claims :: "(string, string) hashmap"

definition token_bearer :: "string \<Rightarrow> token" where
  "token_bearer v = \<lparr>token_type = TBearer, token_value = v, token_expires_at = None, token_claims = []\<rparr>"

definition token_api_key :: "string \<Rightarrow> token" where
  "token_api_key v = \<lparr>token_type = TApiKey, token_value = v, token_expires_at = None, token_claims = []\<rparr>"

definition token_with_expiry :: "timestamp \<Rightarrow> token \<Rightarrow> token" where
  "token_with_expiry t k = k\<lparr>token_expires_at := Some t\<rparr>"

definition token_expires_in :: "timestamp \<Rightarrow> int \<Rightarrow> token \<Rightarrow> token" where
  "token_expires_in now d k = k\<lparr>token_expires_at := Some (now + d)\<rparr>"

definition token_with_claim :: "string \<Rightarrow> string \<Rightarrow> token \<Rightarrow> token" where
  "token_with_claim c v k = k\<lparr>token_claims := hm_insert c v (token_claims k)\<rparr>"

definition token_is_expired :: "timestamp \<Rightarrow> token \<Rightarrow> bool" where
  "token_is_expired now k = (case token_expires_at k of Some t \<Rightarrow> now > t | None \<Rightarrow> False)"

definition token_validate :: "timestamp \<Rightarrow> token \<Rightarrow> credential_error + unit" where
  "token_validate now k =
     (if token_value k = '''' then Inl InvalidToken
      else if token_is_expired now k then Inl TokenExpired
      else Inr ())"

section \<open>Certificates\<close>

record certificate =
  cert_raw :: bytes
  cert_subject_cn :: string
  cert_issuer_cn :: string
  cert_serial :: string
  cert_not_before :: timestamp
  cert_not_after :: timestamp
  cert_public_key :: bytes
  cert_self_signed :: bool

text \<open>\<open>Duration::from_secs\<close>, and a year as the code computes it.\<close>

definition from_secs :: "u64 \<Rightarrow> int" where
  "from_secs s = uint s * 1000000000"

definition one_year :: int where
  "one_year = from_secs (365 * 24 * 60 * 60)"

definition certificate_from_bytes ::
    "(bytes \<Rightarrow> string) \<Rightarrow> timestamp \<Rightarrow> bytes \<Rightarrow> credential_error + certificate" where
  "certificate_from_bytes hex now raw =
     (if raw = [] then Inl InvalidCertificate
      else Inr \<lparr>cert_raw = raw, cert_subject_cn = ''unknown'', cert_issuer_cn = ''unknown'',
                cert_serial = hex (take (min 16 (length raw)) raw), cert_not_before = 0,
                cert_not_after = now + one_year, cert_public_key = raw, cert_self_signed = True\<rparr>)"

text \<open>\<open>serial\<close> is the random number, printed as sixteen hexadecimal digits.\<close>

definition self_signed_test :: "string \<Rightarrow> timestamp \<Rightarrow> string \<Rightarrow> certificate" where
  "self_signed_test serial now subject =
     \<lparr>cert_raw = map (\<lambda>c. word_of_nat (of_char c)) subject, cert_subject_cn = subject,
      cert_issuer_cn = subject, cert_serial = serial, cert_not_before = now,
      cert_not_after = now + one_year, cert_public_key = replicate 32 0, cert_self_signed = True\<rparr>"

definition certificate_is_expired :: "timestamp \<Rightarrow> certificate \<Rightarrow> bool" where
  "certificate_is_expired now c \<longleftrightarrow> now < cert_not_before c \<or> now > cert_not_after c"

definition certificate_validate :: "timestamp \<Rightarrow> bool \<Rightarrow> certificate \<Rightarrow> credential_error + unit" where
  "certificate_validate now allow_self_signed c =
     (if cert_raw c = [] then Inl InvalidCertificate
      else if certificate_is_expired now c then Inl CertificateExpired
      else if cert_self_signed c \<and> \<not> allow_self_signed then Inl InvalidCertificate
      else Inr ())"

section \<open>Credentials\<close>

datatype agent_credentials =
    Anonymous
  | Certificate certificate
  | Token token
  | CertificateWithToken certificate token

definition from_certificate ::
    "(bytes \<Rightarrow> string) \<Rightarrow> timestamp \<Rightarrow> bytes \<Rightarrow> credential_error + agent_credentials" where
  "from_certificate hex now raw =
     (case certificate_from_bytes hex now raw of
        Inl e \<Rightarrow> Inl e
      | Inr c \<Rightarrow> Inr (Certificate c))"

definition from_bearer_token :: "string \<Rightarrow> agent_credentials" where
  "from_bearer_token v = Token (token_bearer v)"

definition from_api_key :: "string \<Rightarrow> agent_credentials" where
  "from_api_key v = Token (token_api_key v)"

definition credentials_anonymous :: "agent_credentials \<Rightarrow> bool" where
  "credentials_anonymous c = (case c of Anonymous \<Rightarrow> True | _ \<Rightarrow> False)"

definition credentials_principal :: "agent_credentials \<Rightarrow> string option" where
  "credentials_principal c =
     (case c of
        Anonymous \<Rightarrow> None
      | Certificate x \<Rightarrow> Some (cert_subject_cn x)
      | Token k \<Rightarrow> hm_get (token_claims k) ''sub''
      | CertificateWithToken x k \<Rightarrow> Some (cert_subject_cn x))"

definition credentials_validate ::
    "timestamp \<Rightarrow> bool \<Rightarrow> agent_credentials \<Rightarrow> credential_error + unit" where
  "credentials_validate now allow_self_signed c =
     (case c of
        Anonymous \<Rightarrow> Inr ()
      | Certificate x \<Rightarrow> certificate_validate now allow_self_signed x
      | Token k \<Rightarrow> token_validate now k
      | CertificateWithToken x k \<Rightarrow>
          (case certificate_validate now allow_self_signed x of
             Inl e \<Rightarrow> Inl e
           | Inr _ \<Rightarrow> token_validate now k))"

definition credential_type :: "agent_credentials \<Rightarrow> string" where
  "credential_type c =
     (case c of
        Anonymous \<Rightarrow> ''anonymous''
      | Certificate _ \<Rightarrow> ''certificate''
      | Token _ \<Rightarrow> ''token''
      | CertificateWithToken _ _ \<Rightarrow> ''certificate_with_token'')"

section \<open>What the checks accept\<close>

lemma token_validate_Inr:
  "token_validate now k = Inr u \<longleftrightarrow> token_value k \<noteq> '''' \<and> \<not> token_is_expired now k"
  by (simp add: token_validate_def)

lemma certificate_validate_Inr:
  "certificate_validate now s c = Inr u \<longleftrightarrow>
     cert_raw c \<noteq> [] \<and> \<not> certificate_is_expired now c \<and> (cert_self_signed c \<longrightarrow> s)"
  by (auto simp: certificate_validate_def)

text \<open>
  What \<open>from_certificate\<close> reads is always taken to be self-signed by \<open>unknown\<close>, so it is
  rejected wherever self-signed certificates are.
\<close>

lemma parsed_certificates_rejected:
  assumes "from_certificate hex now raw = Inr c"
  shows "credentials_principal c = Some ''unknown''"
    and "\<exists>e. credentials_validate now' False c = Inl e"
  using assms
  by (auto simp: from_certificate_def certificate_from_bytes_def credentials_principal_def
      credentials_validate_def certificate_validate_def split: if_splits)

end
