(* ===== verification/Authentication.thy ===== *)
theory Authentication
  imports Credentials Keyed_Store Acl
begin

text \<open>
  Sessions and the authenticator (\<open>security/auth.rs\<close>): verification of credentials, counting of
  failed attempts per agent name, and the lockout.

  A call reads the system clock (\<open>wall\<close>) for expiry and the monotonic clock (\<open>mono\<close>) for
  lockouts; the readings of one call are taken to coincide. The identifier of a new session is
  an argument. The counter of failed attempts is a 32-bit word that wraps around, as in a release
  build.

  \<open>attempt_trace\<close> runs a sequence of attempts under one name and keeps the answers. The
  lemmas bound the guesses that are checked (\<open>checked_guesses_bounded\<close>) and show what the bound
  does not cover.
\<close>

section \<open>Sessions\<close>

datatype auth_error =
    InvalidCredentials string
  | CredentialError credential_error
  | AccountLocked timestamp
  | AuthSessionExpired
  | SessionNotFound
  | AuthRequired
  | AuthInternal string

record clock =
  wall :: timestamp
  mono :: timestamp

type_synonym session_id = string

record session =
  se_id :: session_id
  se_agent_id :: agent_id
  se_created_at :: timestamp
  se_last_activity :: timestamp
  se_expires_at :: timestamp
  se_anonymous :: bool
  se_principal :: "string option"
  se_roles :: "string list"
  se_metadata :: "(string, string) hashmap"

definition session_new ::
    "session_id \<Rightarrow> timestamp \<Rightarrow> agent_id \<Rightarrow> string option \<Rightarrow> u64 \<Rightarrow> session" where
  "session_new sid now a p timeout_secs =
     \<lparr>se_id = sid, se_agent_id = a, se_created_at = now, se_last_activity = now,
      se_expires_at = now + from_secs timeout_secs, se_anonymous = False,
      se_principal = p, se_roles = [], se_metadata = []\<rparr>"

definition session_anonymous :: "session_id \<Rightarrow> timestamp \<Rightarrow> agent_id \<Rightarrow> session" where
  "session_anonymous sid now a =
     \<lparr>se_id = sid, se_agent_id = a, se_created_at = now, se_last_activity = now,
      se_expires_at = now + from_secs 3600, se_anonymous = True,
      se_principal = None, se_roles = [''anonymous''], se_metadata = []\<rparr>"

definition session_is_valid :: "timestamp \<Rightarrow> session \<Rightarrow> bool" where
  "session_is_valid now s \<longleftrightarrow> now < se_expires_at s"

definition session_refresh :: "timestamp \<Rightarrow> session \<Rightarrow> session" where
  "session_refresh now s = s\<lparr>se_last_activity := now\<rparr>"

definition session_extend :: "timestamp \<Rightarrow> u64 \<Rightarrow> session \<Rightarrow> session" where
  "session_extend now secs s = s\<lparr>se_expires_at := now + from_secs secs\<rparr>"

definition session_has_role :: "session \<Rightarrow> string \<Rightarrow> bool" where
  "session_has_role s r \<longleftrightarrow> list_ex (\<lambda>x. x = r) (se_roles s)"

definition session_add_role :: "string \<Rightarrow> session \<Rightarrow> session" where
  "session_add_role r s =
     (if r \<in> set (se_roles s) then s else s\<lparr>se_roles := se_roles s @ [r]\<rparr>)"

definition session_set_metadata :: "string \<Rightarrow> string \<Rightarrow> session \<Rightarrow> session" where
  "session_set_metadata k v s = s\<lparr>se_metadata := hm_insert k v (se_metadata s)\<rparr>"

definition session_get_metadata :: "session \<Rightarrow> string \<Rightarrow> string option" where
  "session_get_metadata s k = hm_get (se_metadata s) k"

section \<open>Lockouts\<close>

record lockout_info =
  failed_count :: u32
  locked_until :: "timestamp option"
  last_failure :: timestamp

definition lockout_new :: "timestamp \<Rightarrow> lockout_info" where
  "lockout_new now = \<lparr>failed_count = 0, locked_until = None, last_failure = now\<rparr>"

definition record_failure :: "timestamp \<Rightarrow> u32 \<Rightarrow> int \<Rightarrow> lockout_info \<Rightarrow> lockout_info" where
  "record_failure now max_attempts d l =
     (let n = failed_count l + 1; l1 = l\<lparr>failed_count := n, last_failure := now\<rparr>
      in if max_attempts \<le> n then l1\<lparr>locked_until := Some (now + d)\<rparr> else l1)"

definition lockout_locked :: "timestamp \<Rightarrow> lockout_info \<Rightarrow> bool" where
  "lockout_locked now l = (case locked_until l of Some t \<Rightarrow> now < t | None \<Rightarrow> False)"

definition lockout_clear :: "lockout_info \<Rightarrow> lockout_info" where
  "lockout_clear l = l\<lparr>failed_count := 0, locked_until := None\<rparr>"

section \<open>The authenticator\<close>

record authenticator =
  au_allow_self_signed :: bool
  au_max_failures :: u32
  au_lockout_duration :: int
  au_session_timeout :: int
  au_lockouts :: "(string, lockout_info) hashmap"
  au_api_keys :: "(string, string) hashmap"
  au_bearer_tokens :: "(string, string) hashmap"

definition authenticator_new :: "bool \<Rightarrow> u32 \<Rightarrow> u64 \<Rightarrow> authenticator" where
  "authenticator_new allow_self_signed max_failures lockout_secs =
     \<lparr>au_allow_self_signed = allow_self_signed, au_max_failures = max_failures,
      au_lockout_duration = from_secs lockout_secs, au_session_timeout = from_secs 3600,
      au_lockouts = [], au_api_keys = [], au_bearer_tokens = []\<rparr>"

definition with_session_timeout :: "u64 \<Rightarrow> authenticator \<Rightarrow> authenticator" where
  "with_session_timeout secs au = au\<lparr>au_session_timeout := from_secs secs\<rparr>"

definition as_secs :: "int \<Rightarrow> u64" where
  "as_secs d = word_of_int (d div 1000000000)"

definition register_api_key :: "string \<Rightarrow> string \<Rightarrow> authenticator \<Rightarrow> authenticator" where
  "register_api_key k p au = au\<lparr>au_api_keys := hm_insert k p (au_api_keys au)\<rparr>"

definition register_bearer_token :: "string \<Rightarrow> string \<Rightarrow> authenticator \<Rightarrow> authenticator" where
  "register_bearer_token k p au = au\<lparr>au_bearer_tokens := hm_insert k p (au_bearer_tokens au)\<rparr>"

definition revoke_api_key :: "string \<Rightarrow> authenticator \<Rightarrow> bool \<times> authenticator" where
  "revoke_api_key k au =
     (hm_contains (au_api_keys au) k, au\<lparr>au_api_keys := hm_remove k (au_api_keys au)\<rparr>)"

definition revoke_bearer_token :: "string \<Rightarrow> authenticator \<Rightarrow> bool \<times> authenticator" where
  "revoke_bearer_token k au =
     (hm_contains (au_bearer_tokens au) k,
      au\<lparr>au_bearer_tokens := hm_remove k (au_bearer_tokens au)\<rparr>)"

definition verify_token :: "authenticator \<Rightarrow> token \<Rightarrow> auth_error + string option" where
  "verify_token au k =
     (case token_type k of
        TBearer \<Rightarrow>
          (case hm_get (au_bearer_tokens au) (token_value k) of
             Some p \<Rightarrow> Inr (Some p)
           | None \<Rightarrow> Inl (InvalidCredentials ''Unknown bearer token''))
      | TApiKey \<Rightarrow>
          (case hm_get (au_api_keys au) (token_value k) of
             Some p \<Rightarrow> Inr (Some p)
           | None \<Rightarrow> Inl (InvalidCredentials ''Unknown API key''))
      | TJwt \<Rightarrow>
          (case hm_get (token_claims k) ''sub'' of
             Some p \<Rightarrow> Inr (Some p)
           | None \<Rightarrow> Inl (InvalidCredentials ''JWT missing subject claim'')))"

definition verify_credentials ::
    "timestamp \<Rightarrow> authenticator \<Rightarrow> agent_credentials \<Rightarrow> auth_error + string option" where
  "verify_credentials now au c =
     (case c of
        Anonymous \<Rightarrow> Inr None
      | Certificate x \<Rightarrow>
          (case certificate_validate now (au_allow_self_signed au) x of
             Inl e \<Rightarrow> Inl (CredentialError e)
           | Inr _ \<Rightarrow> Inr (Some (cert_subject_cn x)))
      | Token k \<Rightarrow>
          (case token_validate now k of
             Inl e \<Rightarrow> Inl (CredentialError e)
           | Inr _ \<Rightarrow> verify_token au k)
      | CertificateWithToken x k \<Rightarrow>
          (case certificate_validate now (au_allow_self_signed au) x of
             Inl e \<Rightarrow> Inl (CredentialError e)
           | Inr _ \<Rightarrow>
               (case token_validate now k of
                  Inl e \<Rightarrow> Inl (CredentialError e)
                | Inr _ \<Rightarrow> Inr (Some (cert_subject_cn x)))))"

definition note_failure :: "timestamp \<Rightarrow> string \<Rightarrow> authenticator \<Rightarrow> authenticator" where
  "note_failure t n au =
     (let l = (case hm_get (au_lockouts au) n of Some l \<Rightarrow> l | None \<Rightarrow> lockout_new t)
      in au\<lparr>au_lockouts := hm_insert n
              (record_failure t (au_max_failures au) (au_lockout_duration au) l) (au_lockouts au)\<rparr>)"

definition authenticate ::
    "session_id \<Rightarrow> clock \<Rightarrow> agent_id \<Rightarrow> agent_credentials \<Rightarrow> authenticator \<Rightarrow>
       (auth_error + session) \<times> authenticator" where
  "authenticate sid t a c au =
     (let n = name a
      in case Option.bind (hm_get (au_lockouts au) n)
                (\<lambda>l. if lockout_locked (mono t) l then locked_until l else None) of
           Some until \<Rightarrow> (Inl (AccountLocked until), au)
         | None \<Rightarrow>
             (case verify_credentials (wall t) au c of
                Inr p \<Rightarrow>
                  (Inr (session_new sid (wall t) a p (as_secs (au_session_timeout au))),
                   au\<lparr>au_lockouts := hm_modify n lockout_clear (au_lockouts au)\<rparr>)
              | Inl e \<Rightarrow> (Inl e, note_failure (mono t) n au)))"

definition is_locked_out :: "timestamp \<Rightarrow> authenticator \<Rightarrow> string \<Rightarrow> bool" where
  "is_locked_out t au n =
     (case hm_get (au_lockouts au) n of Some l \<Rightarrow> lockout_locked t l | None \<Rightarrow> False)"

definition clear_lockout :: "string \<Rightarrow> authenticator \<Rightarrow> bool \<times> authenticator" where
  "clear_lockout n au =
     (case hm_get (au_lockouts au) n of
        Some _ \<Rightarrow> (True, au\<lparr>au_lockouts := hm_modify n lockout_clear (au_lockouts au)\<rparr>)
      | None \<Rightarrow> (False, au))"

definition failed_attempts :: "authenticator \<Rightarrow> string \<Rightarrow> u32" where
  "failed_attempts au n =
     (case hm_get (au_lockouts au) n of Some l \<Rightarrow> failed_count l | None \<Rightarrow> 0)"


section \<open>What one attempt does\<close>

abbreviation lockout_of :: "authenticator \<Rightarrow> string \<Rightarrow> lockout_info option" where
  "lockout_of au n \<equiv> hm_get (au_lockouts au) n"

text \<open>Whether the credentials of an attempt were looked at: the answer is not a lockout.\<close>

definition was_checked :: "auth_error + session \<Rightarrow> bool" where
  "was_checked r = (case r of Inl (AccountLocked _) \<Rightarrow> False | _ \<Rightarrow> True)"

lemma authenticate_unlocked:
  assumes "\<not> is_locked_out (mono t) au (name a)"
  shows "authenticate sid t a c au =
     (case verify_credentials (wall t) au c of
        Inr p \<Rightarrow> (Inr (session_new sid (wall t) a p (as_secs (au_session_timeout au))),
                  au\<lparr>au_lockouts := hm_modify (name a) lockout_clear (au_lockouts au)\<rparr>)
      | Inl e \<Rightarrow> (Inl e, note_failure (mono t) (name a) au))"
  using assms
  by (cases "lockout_of au (name a)") (simp_all add: authenticate_def is_locked_out_def Let_def)

lemma authenticate_locked:
  assumes "is_locked_out (mono t) au (name a)"
  shows "\<exists>u. mono t < u \<and> lockout_of au (name a) \<noteq> None
     \<and> authenticate sid t a c au = (Inl (AccountLocked u), au)"
  using assms
  by (auto simp: authenticate_def is_locked_out_def lockout_locked_def Let_def
      split: option.splits)

lemma verify_never_locks: "verify_credentials now au c \<noteq> Inl (AccountLocked u)"
  by (auto simp: verify_credentials_def verify_token_def
      split: agent_credentials.splits sum.splits token_type.splits option.splits)

lemma was_checked_iff: "was_checked (fst (authenticate sid t a c au)) \<longleftrightarrow> \<not> is_locked_out (mono t) au (name a)"
proof (cases "is_locked_out (mono t) au (name a)")
  case True
  from authenticate_locked [OF this, of sid c] show ?thesis
    using True by (auto simp: was_checked_def)
next
  case False
  then show ?thesis
    using verify_never_locks [of "wall t" au c]
    by (auto simp: authenticate_unlocked was_checked_def split: sum.split auth_error.split)
qed

text \<open>An attempt changes nothing but the lockout of the name it is made under.\<close>

lemma authenticate_frame:
  "au_max_failures (snd (authenticate sid t a c au)) = au_max_failures au"
  "au_lockout_duration (snd (authenticate sid t a c au)) = au_lockout_duration au"
  "au_allow_self_signed (snd (authenticate sid t a c au)) = au_allow_self_signed au"
  "au_session_timeout (snd (authenticate sid t a c au)) = au_session_timeout au"
  "au_api_keys (snd (authenticate sid t a c au)) = au_api_keys au"
  "au_bearer_tokens (snd (authenticate sid t a c au)) = au_bearer_tokens au"
  by (auto simp: authenticate_def note_failure_def Let_def split: option.splits sum.splits)

lemma authenticate_other:
  "n \<noteq> name a \<Longrightarrow> lockout_of (snd (authenticate sid t a c au)) n = lockout_of au n"
  by (auto simp: authenticate_def note_failure_def Let_def hashmap_simps split: option.splits sum.splits)

lemma verify_cong:
  assumes "au_allow_self_signed au' = au_allow_self_signed au" "au_api_keys au' = au_api_keys au"
    "au_bearer_tokens au' = au_bearer_tokens au"
  shows "verify_credentials now au' c = verify_credentials now au c"
proof -
  have tokens: "verify_token au' = verify_token au"
    unfolding fun_eq_iff verify_token_def assms by simp
  show ?thesis unfolding verify_credentials_def assms tokens by (rule refl)
qed

lemma verify_after [simp]:
  "verify_credentials now (snd (authenticate sid t a c au)) c' = verify_credentials now au c'"
  by (rule verify_cong) (simp_all add: authenticate_frame)

section \<open>Sequences of attempts\<close>

type_synonym attempt = "session_id \<times> clock \<times> agent_id \<times> agent_credentials"

fun attempt_trace :: "attempt list \<Rightarrow> authenticator \<Rightarrow> (auth_error + session) list" where
  "attempt_trace [] au = []"
| "attempt_trace ((sid, t, a, c) # xs) au =
     (let (r, au') = authenticate sid t a c au in r # attempt_trace xs au')"

text \<open>How many attempts under the name \<open>n\<close> had their credentials looked at.\<close>

definition checked_for :: "string \<Rightarrow> attempt list \<Rightarrow> authenticator \<Rightarrow> nat" where
  "checked_for n xs au =
     length (filter (\<lambda>((_, _, a, _), r). name a = n \<and> was_checked r) (zip xs (attempt_trace xs au)))"

lemma checked_for_Nil [simp]: "checked_for n [] au = 0"
  by (simp add: checked_for_def)

lemma checked_for_Cons:
  "checked_for n ((sid, t, a, c) # xs) au =
     (if name a = n \<and> \<not> is_locked_out (mono t) au n then 1 else 0)
     + checked_for n xs (snd (authenticate sid t a c au))"
  by (auto simp: checked_for_def was_checked_iff case_prod_unfold Let_def)

text \<open>
  The state of the lockout of a name after \<open>k\<close> failures since the time \<open>t0\<close>, none of them later
  than \<open>T\<close>: the counter is \<open>k\<close>, and from the limit on each failure is a whole lockout later than
  the one before.
\<close>

definition failures_paced :: "int \<Rightarrow> int \<Rightarrow> string \<Rightarrow> nat \<Rightarrow> authenticator \<Rightarrow> bool" where
  "failures_paced t0 T n k au \<longleftrightarrow>
     failed_attempts au n = of_nat k
     \<and> (max 1 (unat (au_max_failures au)) \<le> k \<longrightarrow>
          (\<exists>l u. lockout_of au n = Some l \<and> locked_until l = Some u
             \<and> t0 + (int k - int (max 1 (unat (au_max_failures au))) + 1) * au_lockout_duration au \<le> u
             \<and> u \<le> T + au_lockout_duration au))"

lemma failed_attempts_after_failure:
  assumes "\<not> is_locked_out (mono t) au n" "name a = n" "verify_credentials (wall t) au c = Inl e"
  shows "lockout_of (snd (authenticate sid t a c au)) n =
     Some \<lparr>failed_count = failed_attempts au n + 1,
           locked_until = (if au_max_failures au \<le> failed_attempts au n + 1
                           then Some (mono t + au_lockout_duration au)
                           else Option.bind (lockout_of au n) locked_until),
           last_failure = mono t\<rparr>"
  using assms
  by (cases "lockout_of au n")
    (auto simp: authenticate_unlocked note_failure_def failed_attempts_def record_failure_def
      lockout_new_def Let_def hashmap_simps)

lemma failure_keeps_pace:
  assumes inv: "failures_paced t0 T n k au" and k: "Suc k < 2 ^ 32"
    and open_: "\<not> is_locked_out (mono t) au n" and a: "name a = n"
    and bad: "verify_credentials (wall t) au c = Inl e"
    and t: "t0 \<le> mono t" "mono t \<le> T" and D: "0 < au_lockout_duration au"
  shows "failures_paced t0 T n (Suc k) (snd (authenticate sid t a c au))"
proof -
  let ?au = "snd (authenticate sid t a c au)"
  let ?M = "max 1 (unat (au_max_failures au))"
  let ?D = "au_lockout_duration au"
  have l: "lockout_of ?au n =
     Some \<lparr>failed_count = of_nat (Suc k),
           locked_until = (if au_max_failures au \<le> of_nat (Suc k) then Some (mono t + ?D)
                           else Option.bind (lockout_of au n) locked_until),
           last_failure = mono t\<rparr>"
    using failed_attempts_after_failure [OF open_ a bad, of sid] inv
    by (simp add: failures_paced_def add.commute)
  have limit: "au_max_failures au \<le> of_nat (Suc k)" if "?M \<le> Suc k"
    using that k by (simp add: word_le_nat_alt unat_of_nat del: of_nat_Suc)
  have pace: "t0 + (int (Suc k) - int ?M) * ?D \<le> mono t" if M: "?M \<le> Suc k"
  proof (cases "?M \<le> k")
    case True
    with inv obtain l0 u where "lockout_of au n = Some l0" "locked_until l0 = Some u"
      and u: "t0 + (int k - int ?M + 1) * ?D \<le> u"
      by (auto simp: failures_paced_def)
    with open_ have "u \<le> mono t" by (simp add: is_locked_out_def lockout_locked_def)
    with u show ?thesis by (simp add: algebra_simps)
  next
    case False
    with M have "?M = Suc k" by linarith
    then show ?thesis using t by simp
  qed
  have "t0 + (int (Suc k) - int ?M + 1) * ?D \<le> mono t + ?D" if "?M \<le> Suc k"
    using pace [OF that] by (simp add: algebra_simps)
  with l limit t show ?thesis
    by (simp add: failures_paced_def authenticate_frame failed_attempts_def)
qed

lemma others_keep_pace:
  "lockout_of (snd (authenticate sid t a c au)) n = lockout_of au n \<Longrightarrow>
   failures_paced t0 T n k (snd (authenticate sid t a c au)) = failures_paced t0 T n k au"
  by (simp add: failures_paced_def authenticate_frame failed_attempts_def)

lemma checked_bound:
  assumes "failures_paced t0 T n k au" "0 < au_lockout_duration au"
    "k + length xs < 2 ^ 32"
    "\<And>sid t a c. (sid, t, a, c) \<in> set xs \<Longrightarrow> name a = n \<Longrightarrow>
       t0 \<le> mono t \<and> mono t \<le> T \<and> (\<exists>e. verify_credentials (wall t) au c = Inl e)"
  shows "\<exists>au'. au_max_failures au' = au_max_failures au \<and> au_lockout_duration au' = au_lockout_duration au
     \<and> failures_paced t0 T n (k + checked_for n xs au) au'"
  using assms
proof (induction xs arbitrary: k au)
  case Nil
  then show ?case by auto
next
  case (Cons x xs)
  obtain sid t a c where x: "x = (sid, t, a, c)" by (cases x)
  let ?au = "snd (authenticate sid t a c au)"
  let ?d = "(if name a = n \<and> \<not> is_locked_out (mono t) au n then 1 else 0) :: nat"
  have step: "failures_paced t0 T n (k + ?d) ?au"
  proof (cases "name a = n \<and> \<not> is_locked_out (mono t) au n")
    case True
    from Cons.prems(4) [of sid t a c] True x obtain e where
      "verify_credentials (wall t) au c = Inl e" "t0 \<le> mono t" "mono t \<le> T" by auto
    with True Cons.prems show ?thesis
      using failure_keeps_pace [of t0 T n k au t a c e sid] by simp
  next
    case False
    then have "lockout_of ?au n = lockout_of au n"
      using authenticate_other [of n a sid t c au] authenticate_locked [of t au a sid c]
      by (cases "name a = n") auto
    then have "failures_paced t0 T n k ?au" using Cons.prems(1) by (simp add: others_keep_pace)
    with False show ?thesis by auto
  qed
  have "\<exists>au'. au_max_failures au' = au_max_failures ?au \<and> au_lockout_duration au' = au_lockout_duration ?au
     \<and> failures_paced t0 T n (k + ?d + checked_for n xs ?au) au'"
  proof (rule Cons.IH)
    show "failures_paced t0 T n (k + ?d) ?au" by (rule step)
    show "0 < au_lockout_duration ?au" using Cons.prems(2) by (simp add: authenticate_frame)
    show "k + ?d + length xs < 2 ^ 32" using Cons.prems(3) by simp
    show "t0 \<le> mono t' \<and> mono t' \<le> T \<and> (\<exists>e. verify_credentials (wall t') ?au c' = Inl e)"
      if "(sid', t', a', c') \<in> set xs" "name a' = n" for sid' t' a' c'
      using Cons.prems(4) [of sid' t' a' c'] that by simp
  qed
  then show ?case by (simp add: x checked_for_Cons authenticate_frame add.assoc)
qed

section \<open>Properties\<close>

text \<open>
  C31: the lockout bounds guessing. In any sequence of attempts, under whatever names, if none of
  the credentials presented under the name \<open>n\<close> verifies, then between the times \<open>t0\<close> and \<open>T\<close> of
  the monotonic clock no more than the limit (at least one) plus one for each whole lockout
  duration have their credentials looked at; all others are answered with the lockout. Attempts
  under other names neither use up nor refresh the allowance. (The counter of failures is not
  reset when a lockout runs out, so one more failure is enough to be locked out again.)
\<close>

theorem guesses_bounded:
  assumes "failed_attempts au n = 0" "0 < au_lockout_duration au" "t0 \<le> T" "length xs < 2 ^ 32"
    "\<And>sid t a c. (sid, t, a, c) \<in> set xs \<Longrightarrow> name a = n \<Longrightarrow>
       t0 \<le> mono t \<and> mono t \<le> T \<and> (\<exists>e. verify_credentials (wall t) au c = Inl e)"
  shows "int (checked_for n xs au)
     \<le> max 1 (uint (au_max_failures au)) + (T - t0) div au_lockout_duration au"
proof -
  let ?M = "max 1 (unat (au_max_failures au))" and ?D = "au_lockout_duration au"
  let ?k = "checked_for n xs au"
  have "failures_paced t0 T n 0 au" using assms(1) by (simp add: failures_paced_def)
  then have "\<exists>au'. au_max_failures au' = au_max_failures au \<and> au_lockout_duration au' = ?D
     \<and> failures_paced t0 T n (0 + ?k) au'"
    using assms by (intro checked_bound) auto
  then have pace: "?M \<le> ?k \<Longrightarrow> t0 + (int ?k - int ?M) * ?D \<le> T"
    by (fastforce simp: failures_paced_def algebra_simps)
  have "int ?k \<le> int ?M + (T - t0) div ?D"
  proof (cases "?M \<le> ?k")
    case True
    then have "(int ?k - int ?M) * ?D \<le> T - t0" using pace by simp
    then have "(int ?k - int ?M) * ?D div ?D \<le> (T - t0) div ?D"
      by (rule zdiv_mono1) (rule assms)
    with assms(2) show ?thesis by simp
  next
    case False
    moreover have "0 \<le> (T - t0) div ?D" using assms by (simp add: pos_imp_zdiv_nonneg_iff)
    ultimately show ?thesis by linarith
  qed
  moreover have "int ?M = max 1 (uint (au_max_failures au))"
    by (simp add: of_nat_max)
  ultimately show ?thesis by simp
qed

definition demo_guess :: "int \<Rightarrow> attempt" where
  "demo_guess t = (''s'', \<lparr>wall = t, mono = t\<rparr>, plain_agent ''a'', from_bearer_token ''guess'')"

lemma demo_guess_verify:
  "verify_credentials now (authenticator_new False m d) (from_bearer_token ''guess'')
     = Inl (InvalidCredentials ''Unknown bearer token'')"
  by (simp add: verify_credentials_def verify_token_def from_bearer_token_def token_bearer_def
      token_validate_def token_is_expired_def authenticator_new_def)

lemma demo_authenticator:
  "failed_attempts (authenticator_new False 2 300) n = 0"
  "au_lockout_duration (authenticator_new False 2 300) = 300000000000"
  "au_max_failures (authenticator_new False 2 300) = 2"
  by (simp_all add: authenticator_new_def failed_attempts_def from_secs_def)

lemma guesses_bounded_witness:
  "int (checked_for ''a'' (map demo_guess [0 .. 9]) (authenticator_new False 2 300)) \<le> 2"
proof -
  have "int (checked_for ''a'' (map demo_guess [0 .. 9]) (authenticator_new False 2 300))
    \<le> max 1 (uint (au_max_failures (authenticator_new False 2 300)))
      + (9 - 0) div au_lockout_duration (authenticator_new False 2 300)"
    by (rule guesses_bounded)
      (auto simp: demo_guess_def demo_guess_verify demo_authenticator)
  then show ?thesis by (simp add: demo_authenticator)
qed

section \<open>What the lockout does not cover\<close>

text \<open>A guess followed by an attempt, under the same name, with no credentials at all.\<close>

fun with_anonymous :: "attempt list \<Rightarrow> attempt list" where
  "with_anonymous [] = []"
| "with_anonymous ((sid, t, a, c) # xs) = (sid, t, a, c) # (sid, t, a, Anonymous) # with_anonymous xs"

text \<open>No failures on record and no lockout.\<close>

definition unblemished :: "authenticator \<Rightarrow> string \<Rightarrow> bool" where
  "unblemished au n \<longleftrightarrow> failed_attempts au n = 0 \<and> Option.bind (lockout_of au n) locked_until = None"

lemma unblemished_open: "unblemished au n \<Longrightarrow> \<not> is_locked_out t au n"
  by (auto simp: unblemished_def is_locked_out_def lockout_locked_def split: option.splits)

lemma success_clears:
  assumes "\<not> is_locked_out (mono t) au (name a)" "verify_credentials (wall t) au c = Inr p"
  shows "unblemished (snd (authenticate sid t a c au)) (name a)"
  using assms
  by (cases "lockout_of au (name a)")
    (auto simp: authenticate_unlocked unblemished_def failed_attempts_def lockout_clear_def hashmap_simps)

lemma guess_then_anonymous:
  assumes "unblemished au (name a)" "2 \<le> au_max_failures au"
  shows "\<not> is_locked_out t' (snd (authenticate sid t a c au)) (name a)"
proof (cases "verify_credentials (wall t) au c")
  case (Inl e)
  have "\<not> au_max_failures au \<le> 0 + 1"
    using assms(2) by (simp add: word_le_nat_alt)
  then show ?thesis
    using failed_attempts_after_failure [OF unblemished_open [OF assms(1)] refl Inl, of sid] assms(1)
    by (simp add: is_locked_out_def lockout_locked_def unblemished_def)
next
  case (Inr p)
  show ?thesis
    by (rule unblemished_open, rule success_clears [OF unblemished_open [OF assms(1)] Inr])
qed

text \<open>
  The lockout protects nobody. With a limit of two or more, whoever follows each guess by an
  attempt under the same name without credentials, which always succeeds and clears the record
  of failures, has every guess checked, however many and however fast: the answer to each is
  that of the verification of its credentials, never the lockout.
\<close>

theorem anonymous_defeats_lockout:
  assumes "unblemished au n" "2 \<le> au_max_failures au"
    "list_all (\<lambda>(_, _, a, _). name a = n) xs"
  shows "checked_for n (with_anonymous xs) au = 2 * length xs"
  using assms
proof (induction xs arbitrary: au)
  case Nil
  then show ?case by simp
next
  case (Cons x xs)
  obtain sid t a c where x: "x = (sid, t, a, c)" by (cases x)
  let ?au = "snd (authenticate sid t a c au)"
  let ?au' = "snd (authenticate sid t a Anonymous ?au)"
  from Cons.prems x have n: "name a = n" by simp
  then have open_: "\<not> is_locked_out (mono t) ?au n"
    using guess_then_anonymous Cons.prems by blast
  have "unblemished ?au' n"
    using success_clears [of t ?au a Anonymous None sid] open_ n by (simp add: verify_credentials_def)
  then have "checked_for n (with_anonymous xs) ?au' = 2 * length xs"
    using Cons.prems x by (intro Cons.IH) (simp_all add: authenticate_frame)
  with open_ n Cons.prems(1) show ?case
    by (simp add: x checked_for_Cons unblemished_open)
qed

lemma anonymous_defeats_lockout_witness:
  "checked_for ''a'' (with_anonymous (map demo_guess [0 .. 9])) (authenticator_new False 2 300) = 20"
proof -
  have "checked_for ''a'' (with_anonymous (map demo_guess [0 .. 9])) (authenticator_new False 2 300)
    = 2 * length (map demo_guess [0 .. 9])"
    by (rule anonymous_defeats_lockout)
      (auto simp: unblemished_def failed_attempts_def demo_guess_def authenticator_new_def list_all_iff)
  then show ?thesis by simp
qed

end
