(* ===== verification/Security_Manager.thy ===== *)
theory Security_Manager
  imports Authentication Policy
begin

text \<open>
  The entry point of the security framework (\<open>security/mod.rs\<close>): the manager that owns the
  authenticator, the policy engine and the table of active sessions. The three are behind locks;
  a method holds the locks it needs until it returns, so calls are modelled one after the other.

  \<open>manager_run\<close> runs a sequence of calls, \<open>session_writes\<close> reads off it what each call should do
  to the table, and \<open>sessions_follow_logins\<close> shows that validation answers by that account.
\<close>

section \<open>Configuration and state\<close>

record security_config =
  cf_auth_enabled :: bool
  cf_authz_enabled :: bool
  cf_message_signing :: bool
  cf_message_encryption :: bool
  cf_session_timeout_secs :: u64
  cf_max_auth_failures :: u32
  cf_lockout_duration_secs :: u64
  cf_policy_file :: "string option"
  cf_trusted_cas :: "bytes list"
  cf_allow_self_signed :: bool

definition security_config_default :: security_config where
  "security_config_default =
     \<lparr>cf_auth_enabled = True, cf_authz_enabled = True, cf_message_signing = True,
      cf_message_encryption = False, cf_session_timeout_secs = 3600, cf_max_auth_failures = 5,
      cf_lockout_duration_secs = 300, cf_policy_file = None, cf_trusted_cas = [],
      cf_allow_self_signed = False\<rparr>"

record security_manager =
  sm_config :: security_config
  sm_authenticator :: authenticator
  sm_policy_engine :: policy_engine
  sm_sessions :: "(session_id, session) hashmap"

definition security_manager_new :: "security_config \<Rightarrow> security_manager" where
  "security_manager_new cfg =
     \<lparr>sm_config = cfg,
      sm_authenticator = authenticator_new (cf_allow_self_signed cfg) (cf_max_auth_failures cfg)
        (cf_lockout_duration_secs cfg),
      sm_policy_engine = engine_new, sm_sessions = []\<rparr>"

section \<open>Operations\<close>

definition load_policy ::
    "(string \<Rightarrow> string + string) \<Rightarrow> string \<Rightarrow> security_manager \<Rightarrow>
       (policy_error + unit) \<times> security_manager" where
  "load_policy read_to_string path m =
     (let (r, e) = load_from_file read_to_string path (sm_policy_engine m)
      in (r, m\<lparr>sm_policy_engine := e\<rparr>))"

definition manager_authenticate ::
    "session_id \<Rightarrow> clock \<Rightarrow> agent_id \<Rightarrow> agent_credentials \<Rightarrow> security_manager \<Rightarrow>
       (auth_error + session) \<times> security_manager" where
  "manager_authenticate sid t a c m =
     (if \<not> cf_auth_enabled (sm_config m) then (Inr (session_anonymous sid (wall t) a), m)
      else
        (let (r, au) = authenticate sid t a c (sm_authenticator m);
             m1 = m\<lparr>sm_authenticator := au\<rparr>
         in case r of
              Inl e \<Rightarrow> (Inl e, m1)
            | Inr s \<Rightarrow> (Inr s, m1\<lparr>sm_sessions := hm_insert (se_id s) s (sm_sessions m1)\<rparr>)))"

definition validate_session :: "timestamp \<Rightarrow> session_id \<Rightarrow> security_manager \<Rightarrow> session option" where
  "validate_session now sid m =
     (case hm_get (sm_sessions m) sid of
        Some s \<Rightarrow> if session_is_valid now s then Some s else None
      | None \<Rightarrow> None)"

definition invalidate_session :: "session_id \<Rightarrow> security_manager \<Rightarrow> bool \<times> security_manager" where
  "invalidate_session sid m =
     (hm_contains (sm_sessions m) sid, m\<lparr>sm_sessions := hm_remove sid (sm_sessions m)\<rparr>)"

definition authorize ::
    "timestamp \<Rightarrow> session \<Rightarrow> string \<Rightarrow> string \<Rightarrow> security_manager \<Rightarrow>
       (permission_error + bool) \<times> security_manager" where
  "authorize now s res act m =
     (if \<not> cf_authz_enabled (sm_config m) then (Inr True, m)
      else if \<not> session_is_valid now s then (Inl SessionExpired, m)
      else
        (let (allowed, e) = check_permission (name (se_agent_id s)) res act (sm_policy_engine m)
         in (Inr allowed, m\<lparr>sm_policy_engine := e\<rparr>)))"

text \<open>\<open>order\<close> is the iteration order of the table's values.\<close>

definition get_session ::
    "(session list \<Rightarrow> session list) \<Rightarrow> timestamp \<Rightarrow> agent_id \<Rightarrow> security_manager \<Rightarrow> session option" where
  "get_session order now a m =
     find (\<lambda>s. name (se_agent_id s) = name a \<and> session_is_valid now s) (order (hm_values (sm_sessions m)))"

definition cleanup_expired_sessions :: "timestamp \<Rightarrow> security_manager \<Rightarrow> nat \<times> security_manager" where
  "cleanup_expired_sessions now m =
     (let kept = filter (\<lambda>(_, s). session_is_valid now s) (sm_sessions m)
      in (length (sm_sessions m) - length kept, m\<lparr>sm_sessions := kept\<rparr>))"

definition auth_required :: "security_manager \<Rightarrow> bool" where
  "auth_required m = cf_auth_enabled (sm_config m)"

definition authz_required :: "security_manager \<Rightarrow> bool" where
  "authz_required m = cf_authz_enabled (sm_config m)"

definition signing_required :: "security_manager \<Rightarrow> bool" where
  "signing_required m = cf_message_signing (sm_config m)"

section \<open>The table of sessions\<close>

lemma hm_get_retain:
  "hm_wf m \<Longrightarrow> hm_get (filter (\<lambda>(_, v). P v) m) k =
     (case hm_get m k of Some v \<Rightarrow> if P v then Some v else None | None \<Rightarrow> None)"
proof (induction m)
  case Nil
  then show ?case by simp
next
  case (Cons x m)
  obtain k' v where x: "x = (k', v)" by (cases x)
  have "hm_get m k = None" if "k' = k"
    using Cons.prems x that by (simp add: hm_wf_def map_of_eq_None_iff)
  moreover have "hm_wf m" using Cons.prems by (simp add: hm_wf_def)
  ultimately show ?case using Cons.IH by (auto simp: x)
qed

lemma hm_wf_retain: "hm_wf m \<Longrightarrow> hm_wf (filter P m)"
  by (simp add: hm_wf_def distinct_map_filter)

lemma manager_authenticate_enabled:
  "cf_auth_enabled (sm_config m) \<Longrightarrow>
   manager_authenticate sid t a c m =
     (let (r, au) = authenticate sid t a c (sm_authenticator m)
      in (r, m\<lparr>sm_authenticator := au,
               sm_sessions := (case r of Inl _ \<Rightarrow> sm_sessions m
                                       | Inr s \<Rightarrow> hm_insert (se_id s) s (sm_sessions m))\<rparr>))"
  by (simp add: manager_authenticate_def case_prod_unfold Let_def split: sum.split)

lemma manager_authenticate_config [simp]:
  "sm_config (snd (manager_authenticate sid t a c m)) = sm_config m"
  by (simp add: manager_authenticate_def case_prod_unfold Let_def split: sum.split)

section \<open>Sequences of calls\<close>

datatype manager_call =
    CallAuthenticate session_id clock agent_id agent_credentials
  | CallInvalidate session_id
  | CallAuthorize timestamp session string string
  | CallCleanup timestamp
  | CallLoadPolicy "string + string" string

fun perform :: "manager_call \<Rightarrow> security_manager \<Rightarrow> security_manager" where
  "perform (CallAuthenticate sid t a c) m = snd (manager_authenticate sid t a c m)"
| "perform (CallInvalidate sid) m = snd (invalidate_session sid m)"
| "perform (CallAuthorize now s res act) m = snd (authorize now s res act m)"
| "perform (CallCleanup now) m = snd (cleanup_expired_sessions now m)"
| "perform (CallLoadPolicy file_text path) m = snd (load_policy (\<lambda>_. file_text) path m)"

definition manager_run :: "manager_call list \<Rightarrow> security_manager \<Rightarrow> security_manager" where
  "manager_run calls m = fold perform calls m"

text \<open>
  The account of logins and logouts: a successful authentication stores its session, an
  invalidation erases it, and nothing else counts; in particular no cleanup does.
\<close>

fun session_writes :: "manager_call list \<Rightarrow> security_manager \<Rightarrow> (session_id, session) store_op list" where
  "session_writes [] m = []"
| "session_writes (call # calls) m =
     (case call of
        CallAuthenticate sid t a c \<Rightarrow>
          (case fst (manager_authenticate sid t a c m) of
             Inr s \<Rightarrow> if cf_auth_enabled (sm_config m) then [Store (se_id s) s] else []
           | Inl _ \<Rightarrow> [])
      | CallInvalidate sid \<Rightarrow> [Erase sid]
      | _ \<Rightarrow> [])
     @ session_writes calls (perform call m)"

fun cleanup_before :: "timestamp \<Rightarrow> manager_call \<Rightarrow> bool" where
  "cleanup_before now (CallCleanup t) \<longleftrightarrow> t \<le> now"
| "cleanup_before now _ \<longleftrightarrow> True"

text \<open>What a table shows at the time \<open>now\<close>.\<close>

definition live :: "timestamp \<Rightarrow> session option \<Rightarrow> session option" where
  "live now x = (case x of Some s \<Rightarrow> if session_is_valid now s then Some s else None | None \<Rightarrow> None)"

lemma validate_session_live: "validate_session now sid m = live now (hm_get (sm_sessions m) sid)"
  by (simp add: validate_session_def live_def)

lemma perform_sessions:
  assumes "hm_wf (sm_sessions m)"
  shows "hm_wf (sm_sessions (perform call m))"
proof (cases call)
  case (CallAuthenticate sid t a c)
  with assms show ?thesis
    by (auto simp: manager_authenticate_def case_prod_unfold Let_def split: sum.split)
qed (use assms in \<open>auto simp: invalidate_session_def authorize_def cleanup_expired_sessions_def
    load_policy_def case_prod_unfold Let_def hm_wf_retain\<close>)

text \<open>One call, seen through the validity at a later time, does what the account says.\<close>

lemma call_live:
  assumes "hm_wf (sm_sessions m)" "cleanup_before now call"
  shows "live now (hm_get (sm_sessions (perform call m)) sid) =
    (case last_write (session_writes [call] m) sid of
       None \<Rightarrow> live now (hm_get (sm_sessions m) sid)
     | Some w \<Rightarrow> live now w)"
proof (cases call)
  case (CallAuthenticate sid' t a c)
  then show ?thesis
    by (cases "cf_auth_enabled (sm_config m)")
      (auto simp: manager_authenticate_def case_prod_unfold Let_def hashmap_simps live_def
        split: sum.split)
next
  case (CallCleanup t)
  with assms show ?thesis
    by (auto simp: cleanup_expired_sessions_def Let_def hm_get_retain live_def session_is_valid_def
        split: option.split)
qed (auto simp: invalidate_session_def authorize_def load_policy_def case_prod_unfold Let_def
    hashmap_simps live_def)

lemma session_writes_Cons:
  "session_writes (call # calls) m = session_writes [call] m @ session_writes calls (perform call m)"
  by (cases call) simp_all

lemma run_live:
  assumes "hm_wf (sm_sessions m)" "list_all (cleanup_before now) calls"
  shows "live now (hm_get (sm_sessions (manager_run calls m)) sid) =
    (case last_write (session_writes calls m) sid of
       None \<Rightarrow> live now (hm_get (sm_sessions m) sid)
     | Some w \<Rightarrow> live now w)"
  using assms
proof (induction calls arbitrary: m)
  case Nil
  then show ?case by (simp add: manager_run_def)
next
  case (Cons call calls)
  then have "live now (hm_get (sm_sessions (manager_run calls (perform call m))) sid) =
    (case last_write (session_writes calls (perform call m)) sid of
       None \<Rightarrow> live now (hm_get (sm_sessions (perform call m)) sid)
     | Some w \<Rightarrow> live now w)"
    by (intro Cons.IH) (simp_all add: perform_sessions)
  with call_live [of m now call sid] Cons.prems show ?case
    unfolding session_writes_Cons [of call calls] last_write_append
    by (simp add: manager_run_def del: session_writes.simps split: option.split)
qed

section \<open>Properties\<close>


definition demo_login :: manager_call where
  "demo_login = CallAuthenticate ''s1'' \<lparr>wall = 0, mono = 0\<rparr> (plain_agent ''a'') Anonymous"


text \<open>
  A login without credentials acts with the authority of whatever agent it names. With
  authentication enabled and the name not locked out, presenting no credentials under a name
  yields a session that does not count as anonymous; for its hour it is authorized for exactly
  what the policy grants the named agent, also after it has been invalidated.
\<close>

theorem anonymous_session_speaks_for_agent:
  assumes "cf_auth_enabled (sm_config m)" "\<not> is_locked_out (mono t) (sm_authenticator m) (name a)"
    "manager_authenticate sid t a Anonymous m = (r, m')"
    "now < wall t + from_secs (as_secs (au_session_timeout (sm_authenticator m)))"
  shows "\<exists>s. r = Inr s \<and> se_agent_id s = a \<and> \<not> se_anonymous s \<and> se_principal s = None
    \<and> fst (authorize now s res act (snd (invalidate_session sid m'))) =
        Inr (\<not> cf_authz_enabled (sm_config m)
             \<or> fst (check_permission (name a) res act (sm_policy_engine m)))"
proof -
  let ?s = "session_new sid (wall t) a None (as_secs (au_session_timeout (sm_authenticator m)))"
  have "fst (authenticate sid t a Anonymous (sm_authenticator m)) = Inr ?s"
    using assms(2) by (simp add: authenticate_unlocked verify_credentials_def)
  with assms(1,3) have r: "r = Inr ?s" and m': "sm_config m' = sm_config m"
    "sm_policy_engine m' = sm_policy_engine m"
    by (auto simp: manager_authenticate_enabled case_prod_unfold Let_def)
  have "session_is_valid now ?s"
    using assms(4) by (simp add: session_is_valid_def session_new_def)
  with r m' show ?thesis
    by (auto simp: authorize_def invalidate_session_def case_prod_unfold Let_def session_new_def)
qed

text \<open>Applied to the built-in policy: anyone may act as the agent \<open>ams\<close>, which may do anything.\<close>

definition demo_guarded :: security_manager where
  "demo_guarded = (security_manager_new security_config_default)\<lparr>sm_policy_engine := with_defaults engine_new\<rparr>"

lemma anonymous_session_speaks_for_agent_witness:
  "\<exists>s. fst (manager_authenticate ''s1'' \<lparr>wall = 0, mono = 0\<rparr> (plain_agent ''ams'') Anonymous demo_guarded) = Inr s
     \<and> fst (authorize 1 s ''agent/victim'' ''delete'' (snd (invalidate_session ''s1''
         (snd (manager_authenticate ''s1'' \<lparr>wall = 0, mono = 0\<rparr> (plain_agent ''ams'') Anonymous demo_guarded)))))
       = Inr True"
proof -
  let ?t = "\<lparr>wall = 0, mono = 0\<rparr>" and ?a = "plain_agent ''ams''"
  have a: "name ?a = ''ams''" by (simp add: plain_agent_def)
  have ams: "fst (check_permission ''ams'' ''agent/victim'' ''delete'' (with_defaults engine_new))"
    using default_policy_decides by blast
  have m: "cf_auth_enabled (sm_config demo_guarded)"
    "\<not> is_locked_out (mono ?t) (sm_authenticator demo_guarded) (name ?a)"
    "1 < wall ?t + from_secs (as_secs (au_session_timeout (sm_authenticator demo_guarded)))"
    "sm_policy_engine demo_guarded = with_defaults engine_new"
    by (simp_all add: demo_guarded_def security_manager_new_def security_config_default_def
        authenticator_new_def is_locked_out_def from_secs_def as_secs_def)
  obtain r m' where r: "manager_authenticate ''s1'' ?t ?a Anonymous demo_guarded = (r, m')"
    by (cases "manager_authenticate ''s1'' ?t ?a Anonymous demo_guarded")
  from anonymous_session_speaks_for_agent [OF m(1,2) r m(3), of "''agent/victim''" "''delete''"]
  show ?thesis using r ams by (auto simp: a m(4))
qed

text \<open>The configured session timeout is never used: every login lasts an hour.\<close>

lemma configured_timeout_ignored:
  "au_session_timeout (sm_authenticator (security_manager_new cfg)) = from_secs 3600"
  by (simp add: security_manager_new_def authenticator_new_def)

text \<open>With authentication disabled a session is handed out that validation does not know.\<close>

lemma disabled_sessions_unknown:
  assumes "\<not> cf_auth_enabled (sm_config m)" "hm_get (sm_sessions m) sid = None"
  shows "\<exists>s. fst (manager_authenticate sid t a c m) = Inr s \<and> se_id s = sid
    \<and> validate_session now sid (snd (manager_authenticate sid t a c m)) = None"
  using assms by (simp add: manager_authenticate_def validate_session_def session_anonymous_def)

end
