(* ===== verification/Behaviors.thy ===== *)
theory Behaviors
  imports Keyed_Store
begin

text \<open>
  The behaviour scheduler of an agent (\<open>behavior/mod.rs\<close>): a table of behaviours by number, with
  the bookkeeping of when each may run next, and the finite state machines. The numbers, the
  counters and the times in milliseconds are the words of the code, with additions that wrap
  around; \<open>now\<close> in \<open>add_behavior\<close> is the reading of the clock.

  \<open>scheduler_call\<close> is one call of any mutating method but \<open>get_mut\<close>, and \<open>scheduler_reachable\<close>
  are the states that sequences of calls lead to.
\<close>

section \<open>Behaviours\<close>

datatype behavior_type = OneShot | Cyclic | Ticker | Waker | Sequential | Parallel | FSM

datatype parallel_completion = WhenAll | WhenAny | WhenN u32

definition parallel_completion_default :: parallel_completion where
  "parallel_completion_default = WhenAll"

record fsm_transition =
  from_state :: string
  to_state :: string
  ft_event :: string

record behavior_config =
  bc_behavior_type :: "behavior_type option"
  tick_interval_ms :: "u64 option"
  wake_after_ms :: "u64 option"
  sub_behaviors :: "u64 list"
  bc_parallel_completion :: "parallel_completion option"
  fsm_initial_state :: "string option"
  fsm_transitions :: "fsm_transition list"

definition behavior_config_default :: behavior_config where
  "behavior_config_default =
     \<lparr>bc_behavior_type = None, tick_interval_ms = None, wake_after_ms = None, sub_behaviors = [],
      bc_parallel_completion = None, fsm_initial_state = None, fsm_transitions = []\<rparr>"

datatype behavior_status = BReady | BRunning | BBlocked | BDone

datatype behavior_error =
    BehaviorNotFound u64
  | InvalidConfig string
  | AlreadyRunning
  | SubBehaviorError string
  | FSMError string

record behavior =
  bh_id :: u64
  bh_name :: string
  bh_type :: behavior_type
  bh_status :: behavior_status
  bh_config :: behavior_config
  last_run_ms :: "u64 option"
  next_run_ms :: "u64 option"
  run_count :: u64
  bh_fsm_state :: "string option"
  sequential_index :: usize
  parallel_completed :: u32
  bh_started :: bool

definition behavior_new :: "u64 \<Rightarrow> string \<Rightarrow> behavior_type \<Rightarrow> behavior_config \<Rightarrow> behavior" where
  "behavior_new i n ty cfg =
     \<lparr>bh_id = i, bh_name = n, bh_type = ty, bh_status = BReady, bh_config = cfg,
      last_run_ms = None, next_run_ms = None, run_count = 0,
      bh_fsm_state = fsm_initial_state cfg, sequential_index = 0, parallel_completed = 0,
      bh_started = False\<rparr>"

definition should_run :: "u64 \<Rightarrow> behavior \<Rightarrow> bool" where
  "should_run now b \<longleftrightarrow>
     (if bh_status b \<noteq> BReady then False
      else case bh_type b of
             OneShot \<Rightarrow> run_count b = 0
           | Cyclic \<Rightarrow> True
           | Ticker \<Rightarrow> (case next_run_ms b of Some t \<Rightarrow> t \<le> now | None \<Rightarrow> True)
           | Waker \<Rightarrow> (case next_run_ms b of Some t \<Rightarrow> t \<le> now | None \<Rightarrow> True)
           | Sequential \<Rightarrow> True
           | Parallel \<Rightarrow> True
           | FSM \<Rightarrow> True)"

definition mark_done :: "behavior \<Rightarrow> behavior" where
  "mark_done b = b\<lparr>bh_status := BDone\<rparr>"

definition after_run :: "u64 \<Rightarrow> bool \<Rightarrow> behavior \<Rightarrow> behavior" where
  "after_run now is_done b =
     (let b1 = b\<lparr>last_run_ms := Some now, run_count := run_count b + 1, bh_status := BReady\<rparr>
      in if is_done then mark_done b1
         else
           (let b2 = (if bh_type b1 = Ticker then
                        (case tick_interval_ms (bh_config b1) of
                           Some d \<Rightarrow> b1\<lparr>next_run_ms := Some (now + d)\<rparr>
                         | None \<Rightarrow> b1)
                      else b1)
            in if bh_type b2 = Waker then mark_done b2 else b2))"

section \<open>The scheduler\<close>

record behavior_scheduler =
  bs_behaviors :: "(u64, behavior) hashmap"
  bs_next_id :: u64
  bs_name_to_id :: "(string, u64) hashmap"

definition scheduler_new :: behavior_scheduler where
  "scheduler_new = \<lparr>bs_behaviors = [], bs_next_id = 1, bs_name_to_id = []\<rparr>"

definition config_error :: "behavior_type \<Rightarrow> behavior_config \<Rightarrow> behavior_error option" where
  "config_error ty cfg =
     (case ty of
        Ticker \<Rightarrow>
          if tick_interval_ms cfg = None
          then Some (InvalidConfig ''tick_interval_ms required for Ticker'') else None
      | Waker \<Rightarrow>
          if wake_after_ms cfg = None
          then Some (InvalidConfig ''wake_after_ms required for Waker'') else None
      | Sequential \<Rightarrow>
          if sub_behaviors cfg = []
          then Some (InvalidConfig ''sub_behaviors required for composite behavior'') else None
      | Parallel \<Rightarrow>
          if sub_behaviors cfg = []
          then Some (InvalidConfig ''sub_behaviors required for composite behavior'') else None
      | FSM \<Rightarrow>
          if fsm_initial_state cfg = None
          then Some (InvalidConfig ''fsm_initial_state required for FSM'') else None
      | _ \<Rightarrow> None)"

definition first_run :: "u64 \<Rightarrow> behavior \<Rightarrow> behavior" where
  "first_run now b =
     (let b1 = (if bh_type b = Waker then
                  (case wake_after_ms (bh_config b) of
                     Some d \<Rightarrow> b\<lparr>next_run_ms := Some (now + d)\<rparr>
                   | None \<Rightarrow> b)
                else b)
      in if bh_type b = Ticker then b1\<lparr>next_run_ms := Some 0\<rparr> else b1)"

definition add_behavior ::
    "u64 \<Rightarrow> string \<Rightarrow> behavior_config \<Rightarrow> behavior_scheduler \<Rightarrow>
       (behavior_error + u64) \<times> behavior_scheduler" where
  "add_behavior now n cfg s =
     (case bc_behavior_type cfg of
        None \<Rightarrow> (Inl (InvalidConfig ''behavior_type is required''), s)
      | Some ty \<Rightarrow>
          (case config_error ty cfg of
             Some e \<Rightarrow> (Inl e, s)
           | None \<Rightarrow>
               (let i = bs_next_id s; b = first_run now (behavior_new i n ty cfg)
                in (Inr i, s\<lparr>bs_next_id := i + 1,
                              bs_behaviors := hm_insert i b (bs_behaviors s),
                              bs_name_to_id := hm_insert n i (bs_name_to_id s)\<rparr>))))"

definition remove_behavior ::
    "u64 \<Rightarrow> behavior_scheduler \<Rightarrow> (behavior_error + unit) \<times> behavior_scheduler" where
  "remove_behavior i s =
     (case hm_get (bs_behaviors s) i of
        None \<Rightarrow> (Inl (BehaviorNotFound i), s)
      | Some b \<Rightarrow> (Inr (), s\<lparr>bs_behaviors := hm_remove i (bs_behaviors s),
                             bs_name_to_id := hm_remove (bh_name b) (bs_name_to_id s)\<rparr>))"

text \<open>\<open>if let Some(b) = self.behaviors.get_mut(&id)\<close>: the update of one behaviour in place.\<close>

definition modify_behavior ::
    "u64 \<Rightarrow> (behavior \<Rightarrow> behavior) \<Rightarrow> behavior_scheduler \<Rightarrow> behavior_scheduler" where
  "modify_behavior i f s = s\<lparr>bs_behaviors := hm_modify i f (bs_behaviors s)\<rparr>"

definition block_behavior ::
    "u64 \<Rightarrow> behavior_scheduler \<Rightarrow> (behavior_error + unit) \<times> behavior_scheduler" where
  "block_behavior i s =
     (case hm_get (bs_behaviors s) i of
        None \<Rightarrow> (Inl (BehaviorNotFound i), s)
      | Some b \<Rightarrow>
          if bh_status b = BRunning then (Inl AlreadyRunning, s)
          else (Inr (), modify_behavior i (\<lambda>b. b\<lparr>bh_status := BBlocked\<rparr>) s))"

definition restart_behavior ::
    "u64 \<Rightarrow> behavior_scheduler \<Rightarrow> (behavior_error + unit) \<times> behavior_scheduler" where
  "restart_behavior i s =
     (case hm_get (bs_behaviors s) i of
        None \<Rightarrow> (Inl (BehaviorNotFound i), s)
      | Some b \<Rightarrow>
          (Inr (), if bh_status b = BBlocked
                   then modify_behavior i (\<lambda>b. b\<lparr>bh_status := BReady\<rparr>) s else s))"

definition behavior_status_of :: "u64 \<Rightarrow> behavior_scheduler \<Rightarrow> behavior_error + behavior_status" where
  "behavior_status_of i s =
     (case hm_get (bs_behaviors s) i of
        None \<Rightarrow> Inl (BehaviorNotFound i)
      | Some b \<Rightarrow> Inr (bh_status b))"

definition behavior_done :: "u64 \<Rightarrow> behavior_scheduler \<Rightarrow> behavior_scheduler" where
  "behavior_done i s = modify_behavior i mark_done s"

definition fsm_event ::
    "u64 \<Rightarrow> string \<Rightarrow> behavior_scheduler \<Rightarrow> (behavior_error + string) \<times> behavior_scheduler" where
  "fsm_event i e s =
     (case hm_get (bs_behaviors s) i of
        None \<Rightarrow> (Inl (BehaviorNotFound i), s)
      | Some b \<Rightarrow>
          if bh_type b \<noteq> FSM then (Inl (FSMError ''Not an FSM behavior''), s)
          else (case bh_fsm_state b of
             None \<Rightarrow> (Inl (FSMError ''No current state''), s)
           | Some q \<Rightarrow>
               (case find (\<lambda>t. from_state t = q \<and> ft_event t = e) (fsm_transitions (bh_config b)) of
                  Some t \<Rightarrow>
                    (Inr (to_state t), modify_behavior i (\<lambda>b. b\<lparr>bh_fsm_state := Some (to_state t)\<rparr>) s)
                | None \<Rightarrow>
                    (Inl (FSMError (''No transition from '' @ [CHR 0x27] @ q @ [CHR 0x27]
                       @ '' on event '' @ [CHR 0x27] @ e @ [CHR 0x27])), s))))"

definition fsm_current_state :: "u64 \<Rightarrow> behavior_scheduler \<Rightarrow> behavior_error + string" where
  "fsm_current_state i s =
     (case hm_get (bs_behaviors s) i of
        None \<Rightarrow> Inl (BehaviorNotFound i)
      | Some b \<Rightarrow>
          (case bh_fsm_state b of
             Some q \<Rightarrow> Inr q
           | None \<Rightarrow> Inl (FSMError ''No current state'')))"

definition reset_behavior ::
    "u64 \<Rightarrow> behavior_scheduler \<Rightarrow> (behavior_error + unit) \<times> behavior_scheduler" where
  "reset_behavior i s =
     (case hm_get (bs_behaviors s) i of
        None \<Rightarrow> (Inl (BehaviorNotFound i), s)
      | Some b \<Rightarrow>
          (Inr (), modify_behavior i (\<lambda>b. b\<lparr>bh_status := BReady, run_count := 0, bh_started := False,
             sequential_index := 0, parallel_completed := 0,
             bh_fsm_state := fsm_initial_state (bh_config b)\<rparr>) s))"

text \<open>The lists are in the iteration order of the table.\<close>

definition list_behaviors :: "behavior_scheduler \<Rightarrow> (u64 \<times> string \<times> behavior_status) list" where
  "list_behaviors s = map (\<lambda>b. (bh_id b, bh_name b, bh_status b)) (hm_values (bs_behaviors s))"

definition get_runnable :: "u64 \<Rightarrow> behavior_scheduler \<Rightarrow> behavior list" where
  "get_runnable now s = filter (should_run now) (hm_values (bs_behaviors s))"

definition get_behavior :: "u64 \<Rightarrow> behavior_scheduler \<Rightarrow> behavior option" where
  "get_behavior i s = hm_get (bs_behaviors s) i"

definition mark_running :: "u64 \<Rightarrow> behavior_scheduler \<Rightarrow> behavior_scheduler" where
  "mark_running i s = modify_behavior i (\<lambda>b. b\<lparr>bh_status := BRunning\<rparr>) s"

definition handle_completion :: "u64 \<Rightarrow> u64 \<Rightarrow> bool \<Rightarrow> behavior_scheduler \<Rightarrow> behavior_scheduler" where
  "handle_completion i now is_done s = modify_behavior i (after_run now is_done) s"

definition needs_start :: "u64 \<Rightarrow> behavior_scheduler \<Rightarrow> bool" where
  "needs_start i s = (case hm_get (bs_behaviors s) i of Some b \<Rightarrow> \<not> bh_started b | None \<Rightarrow> False)"

definition mark_behavior_started :: "u64 \<Rightarrow> behavior_scheduler \<Rightarrow> behavior_scheduler" where
  "mark_behavior_started i s = modify_behavior i (\<lambda>b. b\<lparr>bh_started := True\<rparr>) s"


section \<open>Sequences of calls\<close>

datatype scheduler_call =
    Add u64 string behavior_config
  | Remove u64
  | Block u64
  | Restart u64
  | SetDone u64
  | FireEvent u64 string
  | Reset u64
  | SetRunning u64
  | Complete u64 u64 bool
  | SetStarted u64

fun scheduler_step :: "scheduler_call \<Rightarrow> behavior_scheduler \<Rightarrow> behavior_scheduler" where
  "scheduler_step (Add now n cfg) s = snd (add_behavior now n cfg s)"
| "scheduler_step (Remove i) s = snd (remove_behavior i s)"
| "scheduler_step (Block i) s = snd (block_behavior i s)"
| "scheduler_step (Restart i) s = snd (restart_behavior i s)"
| "scheduler_step (SetDone i) s = behavior_done i s"
| "scheduler_step (FireEvent i e) s = snd (fsm_event i e s)"
| "scheduler_step (Reset i) s = snd (reset_behavior i s)"
| "scheduler_step (SetRunning i) s = mark_running i s"
| "scheduler_step (Complete i now is_done) s = handle_completion i now is_done s"
| "scheduler_step (SetStarted i) s = mark_behavior_started i s"

inductive scheduler_reachable :: "behavior_scheduler \<Rightarrow> bool" where
  new: "scheduler_reachable scheduler_new"
| call: "scheduler_reachable s \<Longrightarrow> scheduler_reachable (scheduler_step c s)"

text \<open>
  What a call does to the behaviour with number \<open>i\<close>: it is new, gone, or updated in place by one
  of the update functions.
\<close>

inductive behavior_change :: "scheduler_call \<Rightarrow> behavior \<Rightarrow> behavior \<Rightarrow> bool" where
  same: "behavior_change c b b"
| status: "c \<in> {Block i, Restart i, SetRunning i, SetDone i} \<Longrightarrow>
    behavior_change c b (b\<lparr>bh_status := st\<rparr>)"
| event: "t \<in> set (fsm_transitions (bh_config b)) \<Longrightarrow> bh_fsm_state b = Some (from_state t) \<Longrightarrow>
    behavior_change (FireEvent i e) b (b\<lparr>bh_fsm_state := Some (to_state t)\<rparr>)"
| reset: "behavior_change (Reset i) b (b\<lparr>bh_status := BReady, run_count := 0, bh_started := False,
    sequential_index := 0, parallel_completed := 0, bh_fsm_state := fsm_initial_state (bh_config b)\<rparr>)"
| complete: "behavior_change (Complete (bh_id b) now d) b (after_run now d b)"
| started: "behavior_change (SetStarted i) b (b\<lparr>bh_started := True\<rparr>)"

lemma get_modify_behavior:
  "hm_get (bs_behaviors (modify_behavior j f s)) i =
     (if i = j then map_option f (hm_get (bs_behaviors s) i) else hm_get (bs_behaviors s) i)"
  by (simp add: modify_behavior_def hashmap_simps)

lemmas scheduler_defs = remove_behavior_def block_behavior_def restart_behavior_def
  behavior_done_def fsm_event_def reset_behavior_def mark_running_def handle_completion_def
  mark_behavior_started_def mark_done_def

lemma scheduler_step_change:
  assumes "hm_get (bs_behaviors (scheduler_step c s)) i = Some b'"
    "\<And>b. hm_get (bs_behaviors s) i = Some b \<Longrightarrow> bh_id b = i"
  shows "(\<exists>b. hm_get (bs_behaviors s) i = Some b \<and> behavior_change c b b')
    \<or> (\<exists>now n cfg ty. c = Add now n cfg \<and> bc_behavior_type cfg = Some ty \<and> config_error ty cfg = None
         \<and> i = bs_next_id s \<and> b' = first_run now (behavior_new i n ty cfg))"
proof (cases c)
  case (Add now n cfg)
  with assms show ?thesis
    by (auto simp: add_behavior_def Let_def hashmap_simps split: option.splits if_splits
        intro: behavior_change.same)
next
  case (FireEvent j e)
  with assms show ?thesis
    by (auto simp: fsm_event_def get_modify_behavior find_Some_iff split: option.splits if_splits
        intro: behavior_change.intros)
next
  case (Complete j now d)
  with assms show ?thesis
    by (auto simp: handle_completion_def get_modify_behavior split: if_splits
        intro: behavior_change.intros)
qed (use assms in \<open>auto simp: scheduler_defs get_modify_behavior hashmap_simps
    split: option.splits if_splits intro: behavior_change.intros\<close>)

section \<open>Well-formed behaviours\<close>

definition fsm_reaches :: "behavior_config \<Rightarrow> string \<Rightarrow> string \<Rightarrow> bool" where
  "fsm_reaches cfg =
     (\<lambda>p q. \<exists>t \<in> set (fsm_transitions cfg). from_state t = p \<and> to_state t = q)\<^sup>*\<^sup>*"

definition behavior_ok :: "behavior \<Rightarrow> bool" where
  "behavior_ok b \<longleftrightarrow>
     bc_behavior_type (bh_config b) = Some (bh_type b)
     \<and> config_error (bh_type b) (bh_config b) = None
     \<and> (bh_type b \<in> {Ticker, Waker} \<longrightarrow> next_run_ms b \<noteq> None)
     \<and> rel_option (fsm_reaches (bh_config b)) (fsm_initial_state (bh_config b)) (bh_fsm_state b)
     \<and> sequential_index b = 0 \<and> parallel_completed b = 0"

lemma fsm_reaches_refl [simp]: "fsm_reaches cfg q q"
  by (simp add: fsm_reaches_def)

lemma fsm_reaches_step:
  "fsm_reaches cfg p (from_state t) \<Longrightarrow> t \<in> set (fsm_transitions cfg) \<Longrightarrow> fsm_reaches cfg p (to_state t)"
  unfolding fsm_reaches_def by (erule rtranclp.rtrancl_into_rtrancl) auto

lemma rel_option_fsm_refl [simp]: "rel_option (fsm_reaches cfg) x x"
  by (cases x) simp_all

lemma behavior_change_frame:
  assumes "behavior_change c b b'"
  shows "bh_id b' = bh_id b" "bh_type b' = bh_type b" "bh_config b' = bh_config b" "bh_name b' = bh_name b"
  using assms by (auto elim!: behavior_change.cases simp: after_run_def mark_done_def Let_def split: option.split)

lemma behavior_change_ok:
  assumes "behavior_change c b b'" "behavior_ok b"
  shows "behavior_ok b'"
  using assms
proof (cases rule: behavior_change.cases)
  case (event t i e)
  with assms(2) show ?thesis
    by (cases "fsm_initial_state (bh_config b)") (auto simp: behavior_ok_def intro: fsm_reaches_step)
next
  case (complete now d)
  with assms(2) show ?thesis
    by (auto simp: behavior_ok_def after_run_def mark_done_def Let_def split: option.split)
qed (auto simp: behavior_ok_def)

lemma first_run_ok:
  assumes "bc_behavior_type cfg = Some ty" "config_error ty cfg = None"
  shows "behavior_ok (first_run now (behavior_new i n ty cfg))" "bh_id (first_run now (behavior_new i n ty cfg)) = i"
  using assms
  by (auto simp: behavior_ok_def first_run_def behavior_new_def config_error_def Let_def
      split: option.split behavior_type.splits if_splits)

lemma scheduler_reachable_ok:
  assumes "scheduler_reachable s" "hm_get (bs_behaviors s) i = Some b"
  shows "bh_id b = i \<and> behavior_ok b"
  using assms
proof (induction arbitrary: b)
  case new
  then show ?case by (simp add: scheduler_new_def)
next
  case (call s c)
  from scheduler_step_change [OF call.prems] call.IH consider
      b0 where "hm_get (bs_behaviors s) i = Some b0" "behavior_change c b0 b"
    | now n cfg ty where "bc_behavior_type cfg = Some ty" "config_error ty cfg = None"
        "b = first_run now (behavior_new i n ty cfg)"
    by auto
  then show ?case
  proof cases
    case 1
    with call.IH [of b0] show ?thesis
      by (auto simp: behavior_change_frame behavior_change_ok)
  next
    case 2
    then show ?thesis by (simp add: first_run_ok)
  qed
qed


section \<open>Numbers\<close>

lemma next_id_step:
  "bs_next_id (scheduler_step c s) =
     bs_next_id s + (if \<exists>now n cfg. c = Add now n cfg \<and> (\<exists>i. fst (add_behavior now n cfg s) = Inr i) then 1 else 0)"
  by (cases c)
    (auto simp: add_behavior_def scheduler_defs modify_behavior_def Let_def split: option.split)

lemma unat_next_id:
  fixes x :: u64
  assumes "unat x + k < 2 ^ 64" "y = x \<or> y = x + 1" "0 < k"
  shows "unat y \<le> unat x + 1 \<and> unat x \<le> unat y"
proof -
  have "unat (x + 1) = unat x + 1" using assms by (simp add: unat_word_ariths)
  with assms(2) show ?thesis by auto
qed

section \<open>Properties\<close>

text \<open>
  Every behaviour a scheduler holds is well formed. However the methods are called, a
  behaviour is stored under its own number with a configuration that its type allows; a ticker or
  waker has a time for its next run; and a finite state machine is in a state that its transitions
  lead to from its initial state.
\<close>

theorem scheduler_keeps_behaviors:
  assumes "scheduler_reachable s" "get_behavior i s = Some b"
  shows "bh_id b = i \<and> bc_behavior_type (bh_config b) = Some (bh_type b)
    \<and> config_error (bh_type b) (bh_config b) = None
    \<and> (if bh_type b \<in> {Ticker, Waker} then \<exists>t. next_run_ms b = Some t else True)
    \<and> (if bh_type b = FSM
       then \<exists>p q. fsm_initial_state (bh_config b) = Some p \<and> bh_fsm_state b = Some q
              \<and> fsm_reaches (bh_config b) p q
       else True)"
proof -
  from scheduler_reachable_ok [OF assms(1), of i b] assms(2)
  have b: "bh_id b = i" "behavior_ok b" by (simp_all add: get_behavior_def)
  moreover have "fsm_initial_state (bh_config b) \<noteq> None" if "bh_type b = FSM"
    using b(2) that by (auto simp: behavior_ok_def config_error_def split: if_splits)
  ultimately show ?thesis
    by (auto simp: behavior_ok_def option_rel_Some1)
qed

definition demo_fsm :: behavior_config where
  "demo_fsm = behavior_config_default
     \<lparr>bc_behavior_type := Some FSM, fsm_initial_state := Some ''idle'',
      fsm_transitions := [\<lparr>from_state = ''idle'', to_state = ''busy'', ft_event = ''go''\<rparr>]\<rparr>"

definition demo_scheduler :: behavior_scheduler where
  "demo_scheduler = scheduler_step (FireEvent 1 ''go'') (scheduler_step (Add 0 ''f'' demo_fsm) scheduler_new)"

lemma demo_scheduler_get:
  "get_behavior 1 demo_scheduler = Some ((behavior_new 1 ''f'' FSM demo_fsm)\<lparr>bh_fsm_state := Some ''busy''\<rparr>)"
  by (simp add: demo_scheduler_def add_behavior_def demo_fsm_def behavior_config_default_def
      config_error_def scheduler_new_def get_behavior_def fsm_event_def first_run_def
      behavior_new_def modify_behavior_def Let_def hashmap_simps)

lemma scheduler_keeps_behaviors_witness: "fsm_reaches demo_fsm ''idle'' ''busy''"
proof -
  have "scheduler_reachable demo_scheduler"
    unfolding demo_scheduler_def by (intro scheduler_reachable.intros)
  from scheduler_keeps_behaviors [OF this demo_scheduler_get] show ?thesis
    by (simp add: behavior_new_def demo_fsm_def)
qed

text \<open>
  A ticker keeps its interval. When a run of a ticker ends at the time \<open>t\<close> without being done,
  the behaviour becomes eligible again exactly at \<open>t\<close> plus its interval, if it is ready then:
  blocking, restarting, resetting and marking it, and any calls on other behaviours, additions
  included, neither delay nor hasten that.
\<close>

theorem ticker_keeps_interval:
  assumes "scheduler_reachable s" "get_behavior i s = Some b" "bh_type b = Ticker"
    "tick_interval_ms (bh_config b) = Some d"
    "unat i < unat (bs_next_id s)" "unat (bs_next_id s) + length calls < 2 ^ 64"
    "list_all (\<lambda>c. c \<noteq> Remove i \<and> (\<forall>now e. c \<noteq> Complete i now e)) calls"
  shows "\<exists>b'. get_behavior i (fold scheduler_step calls (handle_completion i t False s)) = Some b'
    \<and> (\<forall>now. should_run now b' = (bh_status b' = BReady \<and> t + d \<le> now))"
proof -
  let ?ticking = "\<lambda>s. scheduler_reachable s \<and> unat i < unat (bs_next_id s)
    \<and> (\<exists>b. hm_get (bs_behaviors s) i = Some b \<and> bh_type b = Ticker \<and> next_run_ms b = Some (t + d))"
  have start: "?ticking (handle_completion i t False s)"
  proof -
    have "scheduler_reachable (scheduler_step (Complete i t False) s)"
      by (rule scheduler_reachable.call) (rule assms)
    then show ?thesis
      using assms by (auto simp: handle_completion_def get_modify_behavior get_behavior_def
          after_run_def modify_behavior_def hashmap_simps Let_def)
  qed
  have step: "?ticking (scheduler_step c s)"
    if s: "?ticking s" and room: "unat (bs_next_id s) + 1 < 2 ^ 64"
      and c: "c \<noteq> Remove i" "\<forall>now e. c \<noteq> Complete i now e" for c s
  proof -
    from s obtain b where b: "hm_get (bs_behaviors s) i = Some b" "bh_type b = Ticker"
      "next_run_ms b = Some (t + d)" and r: "scheduler_reachable s" by auto
    have i: "i \<noteq> bs_next_id s" using s by auto
    have "hm_get (bs_behaviors (scheduler_step c s)) i \<noteq> None"
      using b(1) c by (cases c)
        (auto simp: add_behavior_def scheduler_defs get_modify_behavior hashmap_simps Let_def
          split: option.splits)
    then obtain b' where b': "hm_get (bs_behaviors (scheduler_step c s)) i = Some b'" by auto
    from scheduler_step_change [OF b'] scheduler_reachable_ok [OF r] b(1) i
    have "behavior_change c b b'" "bh_id b = i" by auto
    then have "bh_type b' = Ticker \<and> next_run_ms b' = Some (t + d)"
      using b c by (cases rule: behavior_change.cases) auto
    with b' have "\<exists>b. hm_get (bs_behaviors (scheduler_step c s)) i = Some b \<and> bh_type b = Ticker
        \<and> next_run_ms b = Some (t + d)" by auto
    moreover have "unat i < unat (bs_next_id (scheduler_step c s))"
      using s unat_next_id [OF room, of "bs_next_id (scheduler_step c s)"] next_id_step [of c s]
      by (auto split: if_splits)
    ultimately show ?thesis using r by (simp add: scheduler_reachable.call)
  qed
  have "?ticking (fold scheduler_step calls s')"
    if "?ticking s'" "unat (bs_next_id s') + length calls < 2 ^ 64"
      "list_all (\<lambda>c. c \<noteq> Remove i \<and> (\<forall>now e. c \<noteq> Complete i now e)) calls" for s' calls
    using that
  proof (induction calls arbitrary: s')
    case Nil
    then show ?case by simp
  next
    case (Cons c calls)
    have "?ticking (scheduler_step c s')" using Cons.prems by (intro step) auto
    moreover have "unat (bs_next_id (scheduler_step c s')) \<le> unat (bs_next_id s') + 1"
      using Cons.prems unat_next_id [of "bs_next_id s'" 1 "bs_next_id (scheduler_step c s')"]
        next_id_step [of c s'] by (auto split: if_splits)
    ultimately show ?case using Cons.IH [of "scheduler_step c s'"] Cons.prems by simp
  qed
  from this [OF start, of calls] assms(6,7) obtain b' where
    "hm_get (bs_behaviors (fold scheduler_step calls (handle_completion i t False s))) i = Some b'"
    "bh_type b' = Ticker" "next_run_ms b' = Some (t + d)"
    by (auto simp: handle_completion_def modify_behavior_def)
  then show ?thesis
    by (auto simp: get_behavior_def should_run_def)
qed

definition demo_ticker :: behavior_config where
  "demo_ticker = behavior_config_default\<lparr>bc_behavior_type := Some Ticker, tick_interval_ms := Some 100\<rparr>"

definition demo_tick :: behavior_scheduler where
  "demo_tick = scheduler_step (Add 0 ''t'' demo_ticker) scheduler_new"

lemma demo_tick_get:
  "get_behavior 1 demo_tick = Some ((behavior_new 1 ''t'' Ticker demo_ticker)\<lparr>next_run_ms := Some 0\<rparr>)"
  "bs_next_id demo_tick = 2"
  by (simp_all add: demo_tick_def add_behavior_def demo_ticker_def behavior_config_default_def
      config_error_def scheduler_new_def get_behavior_def first_run_def
      behavior_new_def Let_def hashmap_simps)

lemma ticker_keeps_interval_witness:
  "\<exists>b'. get_behavior 1 (fold scheduler_step [Block 1, Restart 1] (handle_completion 1 7 False demo_tick)) = Some b'
    \<and> \<not> should_run 106 b'"
proof -
  have "scheduler_reachable demo_tick"
    unfolding demo_tick_def by (intro scheduler_reachable.intros)
  then have "\<exists>b'. get_behavior 1 (fold scheduler_step [Block 1, Restart 1] (handle_completion 1 7 False demo_tick)) = Some b'
    \<and> (\<forall>now. should_run now b' = (bh_status b' = BReady \<and> 7 + 100 \<le> now))"
    by (rule ticker_keeps_interval [OF _ demo_tick_get(1)])
      (simp_all add: demo_tick_get behavior_new_def demo_ticker_def)
  then show ?thesis by auto
qed

section \<open>What the scheduler does not do\<close>

text \<open>
  No method ever runs a part of a composite behaviour: the position of a sequence and the count
  of finished parts stay zero, and a composite is done only when it is said to be.
\<close>

lemma composites_never_progress:
  assumes "scheduler_reachable s" "get_behavior i s = Some b"
  shows "sequential_index b = 0 \<and> parallel_completed b = 0"
  using scheduler_reachable_ok [OF assms(1), of i b] assms(2)
  by (simp add: get_behavior_def behavior_ok_def)

text \<open>
  A behaviour that is marked done while it runs is ready again when the run ends, unless the run
  also reports that it is done.
\<close>

lemma done_mark_lost:
  assumes "get_behavior i s = Some b" "bh_type b \<noteq> Waker"
  shows "behavior_status_of i (handle_completion i t False (behavior_done i (mark_running i s))) = Inr BReady"
  using assms
  by (auto simp: get_behavior_def behavior_status_of_def scheduler_defs get_modify_behavior after_run_def
      Let_def split: option.split)

text \<open>
  A one-shot behaviour whose run does not report that it is done is never eligible again, yet
  never done: it stays in the table, ready.
\<close>

lemma one_shot_lingers:
  assumes "get_behavior i s = Some b" "bh_type b = OneShot" "run_count b = 0"
  shows "\<exists>b'. get_behavior i (handle_completion i t False s) = Some b'
    \<and> bh_status b' = BReady \<and> \<not> should_run now b'"
  using assms
  by (simp add: get_behavior_def handle_completion_def get_modify_behavior after_run_def
      should_run_def Let_def)

text \<open>Resetting a waker keeps its old time, so it is eligible at once instead of after its delay.\<close>

lemma reset_waker_fires_at_once:
  assumes "get_behavior i s = Some b" "bh_type b = Waker" "next_run_ms b = Some t" "t \<le> now"
  shows "\<exists>b'. get_behavior i (snd (reset_behavior i s)) = Some b' \<and> should_run now b'"
  using assms
  by (simp add: get_behavior_def reset_behavior_def get_modify_behavior should_run_def)

end
