(* ===== verification/Unl_Core.thy ===== *)
theory Unl_Core
  imports Prelude "HOL-Library.Multiset"
begin

text \<open>
  The semantic graphs of the Universal Networking Language (crate \<^verbatim>\<open>unl-core\<close>): universal words
  with attributes (\<^verbatim>\<open>uw.rs\<close>, \<^verbatim>\<open>attr.rs\<close>), relation tags with their hierarchy
  (\<^verbatim>\<open>relation.rs\<close>), graphs (\<^verbatim>\<open>graph.rs\<close>), the classes of identifiers (\<^verbatim>\<open>ucl.rs\<close>) and the
  comparison of graphs (\<^verbatim>\<open>traits.rs\<close>).

  The named attributes are grouped by the families of the source, one datatype each. An
  \<open>IndexMap\<close> is an association list: insertion replaces in place or appends, as in the crate.
  \<open>meaning\<close> is what the comparison of graphs compares; \<open>unl_eq_meaning\<close> shows it.
\<close>

section \<open>Relation tags\<close>

datatype relation_tag =
    TagAgt | TagAnd | TagAnt | TagAoj | TagBas | TagBen | TagCnt | TagCon | TagCoo | TagDur
   | TagEqu | TagExp | TagFld | TagGol | TagIcl | TagIns | TagIof | TagLpl | TagMan | TagMat
   | TagMet | TagMod | TagNam | TagObj | TagOpl | TagOr | TagPer | TagPlc | TagPof | TagPos
   | TagPtn | TagPur | TagQua | TagRes | TagRsn | TagSeq | TagSrc | TagTim | TagTmf | TagTmt
   | TagVia

definition all_tags :: "relation_tag list" where
  "all_tags =
     [TagAgt, TagAnd, TagAnt, TagAoj, TagBas, TagBen, TagCnt, TagCon, TagCoo, TagDur, TagEqu
      , TagExp, TagFld, TagGol, TagIcl, TagIns, TagIof, TagLpl, TagMan, TagMat, TagMet, TagMod
      , TagNam, TagObj, TagOpl, TagOr, TagPer, TagPlc, TagPof, TagPos, TagPtn, TagPur, TagQua
      , TagRes, TagRsn, TagSeq, TagSrc, TagTim, TagTmf, TagTmt, TagVia]"

fun tag_as_str :: "relation_tag \<Rightarrow> string" where
  "tag_as_str TagAgt = ''agt''"
| "tag_as_str TagAnd = ''and''"
| "tag_as_str TagAnt = ''ant''"
| "tag_as_str TagAoj = ''aoj''"
| "tag_as_str TagBas = ''bas''"
| "tag_as_str TagBen = ''ben''"
| "tag_as_str TagCnt = ''cnt''"
| "tag_as_str TagCon = ''con''"
| "tag_as_str TagCoo = ''coo''"
| "tag_as_str TagDur = ''dur''"
| "tag_as_str TagEqu = ''equ''"
| "tag_as_str TagExp = ''exp''"
| "tag_as_str TagFld = ''fld''"
| "tag_as_str TagGol = ''gol''"
| "tag_as_str TagIcl = ''icl''"
| "tag_as_str TagIns = ''ins''"
| "tag_as_str TagIof = ''iof''"
| "tag_as_str TagLpl = ''lpl''"
| "tag_as_str TagMan = ''man''"
| "tag_as_str TagMat = ''mat''"
| "tag_as_str TagMet = ''met''"
| "tag_as_str TagMod = ''mod''"
| "tag_as_str TagNam = ''nam''"
| "tag_as_str TagObj = ''obj''"
| "tag_as_str TagOpl = ''opl''"
| "tag_as_str TagOr = ''or''"
| "tag_as_str TagPer = ''per''"
| "tag_as_str TagPlc = ''plc''"
| "tag_as_str TagPof = ''pof''"
| "tag_as_str TagPos = ''pos''"
| "tag_as_str TagPtn = ''ptn''"
| "tag_as_str TagPur = ''pur''"
| "tag_as_str TagQua = ''qua''"
| "tag_as_str TagRes = ''res''"
| "tag_as_str TagRsn = ''rsn''"
| "tag_as_str TagSeq = ''seq''"
| "tag_as_str TagSrc = ''src''"
| "tag_as_str TagTim = ''tim''"
| "tag_as_str TagTmf = ''tmf''"
| "tag_as_str TagTmt = ''tmt''"
| "tag_as_str TagVia = ''via''"

datatype core_error =
    InvalidUcl string
  | InvalidUcn string
  | UnknownRelation string
  | DanglingRef string
  | InvalidLang string

definition tag_from_str :: "string \<Rightarrow> core_error + relation_tag" where
  "tag_from_str s =
     (case find (\<lambda>t. tag_as_str t = s) all_tags of
        Some t \<Rightarrow> Inr t
      | None \<Rightarrow> Inl (UnknownRelation s))"

definition tag_parent :: "relation_tag \<Rightarrow> relation_tag option" where
  "tag_parent t =
     (if t \<in> {TagGol, TagLpl, TagSrc, TagVia} then Some TagPlc
      else if t \<in> {TagTmf, TagTmt} then Some TagTim
      else None)"

function tag_ancestors :: "relation_tag \<Rightarrow> relation_tag list" where
  "tag_ancestors t = t # (case tag_parent t of Some p \<Rightarrow> tag_ancestors p | None \<Rightarrow> [])"
  by pat_completeness auto
termination
  by (relation "measure (\<lambda>t. if tag_parent t = None then 0 else 1)") (auto simp: tag_parent_def split: if_splits)

declare tag_ancestors.simps [simp del]

definition tag_is_a :: "relation_tag \<Rightarrow> relation_tag \<Rightarrow> bool" where
  "tag_is_a t u = list_ex (\<lambda>x. x = u) (tag_ancestors t)"

section \<open>Attributes\<close>

datatype time_attr =
    AtPast | AtPresent | AtFuture | AtGnomic | AtAnte | AtPost | AtRecent | AtRemote
    | AtSimultaneous | AtImmediate | AtSince | AtUntil

datatype aspect_attr =
    AtProgressive | AtPerfect | AtPerfective | AtImperfective | AtInceptive | AtTerminative
    | AtHabitual | AtIterative | AtCausative

datatype specification_attr =
    AtDef | AtIndef | AtEach | AtOwn | AtSame | AtCertain | AtOnly | AtBoth | AtEither | AtWh

datatype quantity_attr =
    AtSingular | AtPlural | AtDual | AtTrial | AtQuadrual | AtPaucal | AtMultal | AtTotal
    | AtUniversal

datatype polarity_attr =
    AtAffirmative | AtNegative | AtDubitative | AtNeutral

datatype voice_attr =
    AtActive | AtPassive | AtMiddle | AtReflexive | AtReciprocal | AtAnticausative
    | AtImpersonal

datatype person_attr =
    AtP1 | AtP2 | AtP3

datatype gender_attr =
    AtMale | AtFemale | AtNeuterGender | AtAnimal | AtPerson | AtThing

datatype modality_attr =
    AtAbility | AtAdvice | AtBelief | AtCommand | AtRequest | AtDesire | AtNecessity
    | AtPossibility | AtObligation | AtPermission

datatype place_attr =
    AtSuperior | AtInferior | AtInterior | AtExterior | AtAnterior | AtPosterior | AtAdjacent
    | AtProximal | AtDistal | AtDestination | AtOrigin | AtTransversal

datatype pragmatic_attr =
    AtAnger | AtJoy | AtPain | AtSurprise | AtFormal | AtColloquial | AtSlang | AtJargon
    | AtTechnical | AtPolite | AtFamiliar | AtIntimate | AtReverential | AtMetaphor | AtMetonymy
    | AtHyperbole | AtIrony

datatype conjunctive_attr =
    AtBut | AtAlthough

datatype attr =
    Time time_attr
  | Aspect aspect_attr
  | Specification specification_attr
  | Quantity quantity_attr
  | Polarity polarity_attr
  | Voice voice_attr
  | Person person_attr
  | Gender gender_attr
  | Modality modality_attr
  | Place place_attr
  | Pragmatic pragmatic_attr
  | Conjunctive conjunctive_attr
  | OtherAttr string

fun time_label :: "time_attr \<Rightarrow> string" where
  "time_label AtPast = ''past''"
| "time_label AtPresent = ''present''"
| "time_label AtFuture = ''future''"
| "time_label AtGnomic = ''gnomic''"
| "time_label AtAnte = ''ante''"
| "time_label AtPost = ''post''"
| "time_label AtRecent = ''recent''"
| "time_label AtRemote = ''remote''"
| "time_label AtSimultaneous = ''simultaneous''"
| "time_label AtImmediate = ''immediate''"
| "time_label AtSince = ''since''"
| "time_label AtUntil = ''until''"

fun aspect_label :: "aspect_attr \<Rightarrow> string" where
  "aspect_label AtProgressive = ''progressive''"
| "aspect_label AtPerfect = ''perfect''"
| "aspect_label AtPerfective = ''perfective''"
| "aspect_label AtImperfective = ''imperfective''"
| "aspect_label AtInceptive = ''inceptive''"
| "aspect_label AtTerminative = ''terminative''"
| "aspect_label AtHabitual = ''habitual''"
| "aspect_label AtIterative = ''iterative''"
| "aspect_label AtCausative = ''causative''"

fun specification_label :: "specification_attr \<Rightarrow> string" where
  "specification_label AtDef = ''def''"
| "specification_label AtIndef = ''indef''"
| "specification_label AtEach = ''each''"
| "specification_label AtOwn = ''own''"
| "specification_label AtSame = ''same''"
| "specification_label AtCertain = ''certain''"
| "specification_label AtOnly = ''only''"
| "specification_label AtBoth = ''both''"
| "specification_label AtEither = ''either''"
| "specification_label AtWh = ''wh''"

fun quantity_label :: "quantity_attr \<Rightarrow> string" where
  "quantity_label AtSingular = ''singular''"
| "quantity_label AtPlural = ''plural''"
| "quantity_label AtDual = ''dual''"
| "quantity_label AtTrial = ''trial''"
| "quantity_label AtQuadrual = ''quadrual''"
| "quantity_label AtPaucal = ''paucal''"
| "quantity_label AtMultal = ''multal''"
| "quantity_label AtTotal = ''total''"
| "quantity_label AtUniversal = ''universal''"

fun polarity_label :: "polarity_attr \<Rightarrow> string" where
  "polarity_label AtAffirmative = ''affirmative''"
| "polarity_label AtNegative = ''negative''"
| "polarity_label AtDubitative = ''dubitative''"
| "polarity_label AtNeutral = ''neutral''"

fun voice_label :: "voice_attr \<Rightarrow> string" where
  "voice_label AtActive = ''active''"
| "voice_label AtPassive = ''passive''"
| "voice_label AtMiddle = ''middle''"
| "voice_label AtReflexive = ''reflexive''"
| "voice_label AtReciprocal = ''reciprocal''"
| "voice_label AtAnticausative = ''anticausative''"
| "voice_label AtImpersonal = ''impersonal''"

fun person_label :: "person_attr \<Rightarrow> string" where
  "person_label AtP1 = ''p1''"
| "person_label AtP2 = ''p2''"
| "person_label AtP3 = ''p3''"

fun gender_label :: "gender_attr \<Rightarrow> string" where
  "gender_label AtMale = ''male''"
| "gender_label AtFemale = ''female''"
| "gender_label AtNeuterGender = ''neuter_gender''"
| "gender_label AtAnimal = ''animal''"
| "gender_label AtPerson = ''person''"
| "gender_label AtThing = ''thing''"

fun modality_label :: "modality_attr \<Rightarrow> string" where
  "modality_label AtAbility = ''ability''"
| "modality_label AtAdvice = ''advice''"
| "modality_label AtBelief = ''belief''"
| "modality_label AtCommand = ''command''"
| "modality_label AtRequest = ''request''"
| "modality_label AtDesire = ''desire''"
| "modality_label AtNecessity = ''necessity''"
| "modality_label AtPossibility = ''possibility''"
| "modality_label AtObligation = ''obligation''"
| "modality_label AtPermission = ''permission''"

fun place_label :: "place_attr \<Rightarrow> string" where
  "place_label AtSuperior = ''superior''"
| "place_label AtInferior = ''inferior''"
| "place_label AtInterior = ''interior''"
| "place_label AtExterior = ''exterior''"
| "place_label AtAnterior = ''anterior''"
| "place_label AtPosterior = ''posterior''"
| "place_label AtAdjacent = ''adjacent''"
| "place_label AtProximal = ''proximal''"
| "place_label AtDistal = ''distal''"
| "place_label AtDestination = ''destination''"
| "place_label AtOrigin = ''origin''"
| "place_label AtTransversal = ''transversal''"

fun pragmatic_label :: "pragmatic_attr \<Rightarrow> string" where
  "pragmatic_label AtAnger = ''anger''"
| "pragmatic_label AtJoy = ''joy''"
| "pragmatic_label AtPain = ''pain''"
| "pragmatic_label AtSurprise = ''surprise''"
| "pragmatic_label AtFormal = ''formal''"
| "pragmatic_label AtColloquial = ''colloquial''"
| "pragmatic_label AtSlang = ''slang''"
| "pragmatic_label AtJargon = ''jargon''"
| "pragmatic_label AtTechnical = ''technical''"
| "pragmatic_label AtPolite = ''polite''"
| "pragmatic_label AtFamiliar = ''familiar''"
| "pragmatic_label AtIntimate = ''intimate''"
| "pragmatic_label AtReverential = ''reverential''"
| "pragmatic_label AtMetaphor = ''metaphor''"
| "pragmatic_label AtMetonymy = ''metonymy''"
| "pragmatic_label AtHyperbole = ''hyperbole''"
| "pragmatic_label AtIrony = ''irony''"

fun conjunctive_label :: "conjunctive_attr \<Rightarrow> string" where
  "conjunctive_label AtBut = ''but''"
| "conjunctive_label AtAlthough = ''although''"

fun as_label :: "attr \<Rightarrow> string" where
  "as_label (Time a) = time_label a"
| "as_label (Aspect a) = aspect_label a"
| "as_label (Specification a) = specification_label a"
| "as_label (Quantity a) = quantity_label a"
| "as_label (Polarity a) = polarity_label a"
| "as_label (Voice a) = voice_label a"
| "as_label (Person a) = person_label a"
| "as_label (Gender a) = gender_label a"
| "as_label (Modality a) = modality_label a"
| "as_label (Place a) = place_label a"
| "as_label (Pragmatic a) = pragmatic_label a"
| "as_label (Conjunctive a) = conjunctive_label a"
| "as_label (OtherAttr s) = s"

definition named_attrs :: "attr list" where
  "named_attrs =
     map Time [AtPast, AtPresent, AtFuture, AtGnomic, AtAnte, AtPost, AtRecent, AtRemote,
       AtSimultaneous, AtImmediate, AtSince, AtUntil] @
     map Aspect [AtProgressive, AtPerfect, AtPerfective, AtImperfective, AtInceptive,
       AtTerminative, AtHabitual, AtIterative, AtCausative] @
     map Specification [AtDef, AtIndef, AtEach, AtOwn, AtSame, AtCertain, AtOnly, AtBoth,
       AtEither, AtWh] @
     map Quantity [AtSingular, AtPlural, AtDual, AtTrial, AtQuadrual, AtPaucal, AtMultal,
       AtTotal, AtUniversal] @
     map Polarity [AtAffirmative, AtNegative, AtDubitative, AtNeutral] @
     map Voice [AtActive, AtPassive, AtMiddle, AtReflexive, AtReciprocal, AtAnticausative,
       AtImpersonal] @
     map Person [AtP1, AtP2, AtP3] @
     map Gender [AtMale, AtFemale, AtNeuterGender, AtAnimal, AtPerson, AtThing] @
     map Modality [AtAbility, AtAdvice, AtBelief, AtCommand, AtRequest, AtDesire, AtNecessity,
       AtPossibility, AtObligation, AtPermission] @
     map Place [AtSuperior, AtInferior, AtInterior, AtExterior, AtAnterior, AtPosterior,
       AtAdjacent, AtProximal, AtDistal, AtDestination, AtOrigin, AtTransversal] @
     map Pragmatic [AtAnger, AtJoy, AtPain, AtSurprise, AtFormal, AtColloquial, AtSlang,
       AtJargon, AtTechnical, AtPolite, AtFamiliar, AtIntimate, AtReverential, AtMetaphor,
       AtMetonymy, AtHyperbole, AtIrony] @
     map Conjunctive [AtBut, AtAlthough]"

definition from_label :: "string \<Rightarrow> attr" where
  "from_label l =
     (case find (\<lambda>a. as_label a = l) named_attrs of
        Some a \<Rightarrow> a
      | None \<Rightarrow> OtherAttr l)"

type_synonym attr_list = "attr list"

text \<open>\<open>*counts.entry(a).or_default() += d\<close>\<close>

definition count_attr :: "int \<Rightarrow> attr \<Rightarrow> (attr, int) hashmap \<Rightarrow> (attr, int) hashmap" where
  "count_attr d a m = hm_insert a ((case hm_get m a of Some n \<Rightarrow> n | None \<Rightarrow> 0) + d) m"

definition attr_list_eq :: "attr_list \<Rightarrow> attr_list \<Rightarrow> bool" where
  "attr_list_eq xs ys =
     (if length xs \<noteq> length ys then False
      else list_all (\<lambda>c. c = 0) (hm_values (fold (count_attr (-1)) ys (fold (count_attr 1) xs []))))"


section \<open>Universal words\<close>

datatype lang = Lang string

definition is_ascii_lowercase :: "char \<Rightarrow> bool" where
  "is_ascii_lowercase c \<longleftrightarrow> 97 \<le> (of_char c :: nat) \<and> (of_char c :: nat) \<le> 122"

definition lang_new :: "string \<Rightarrow> core_error + lang" where
  "lang_new c =
     (if length c \<noteq> 3 \<or> \<not> list_all is_ascii_lowercase c then Inl (InvalidLang c) else Inr (Lang c))"

record ucn_suffix =
  sfx_relation :: relation_tag
  sfx_word :: string

datatype uci =
    Ucl "string option" u64
  | Ucn "lang option" string "ucn_suffix option"
  | TemporaryUw string
  | NullUw

definition uci_ucl :: "u64 \<Rightarrow> uci" where
  "uci_ucl i = Ucl None i"

definition uci_ucn :: "string \<Rightarrow> uci" where
  "uci_ucn r = Ucn None r None"

record uw =
  uw_uci :: uci
  uw_attributes :: attr_list
  uw_node_id :: "string option"
  uw_scope :: "string option"

definition uw_new :: "uci \<Rightarrow> uw" where
  "uw_new u = \<lparr>uw_uci = u, uw_attributes = [], uw_node_id = None, uw_scope = None\<rparr>"

definition uw_with_node_id :: "string \<Rightarrow> uw \<Rightarrow> uw" where
  "uw_with_node_id i w = w\<lparr>uw_node_id := Some i\<rparr>"

text \<open>The derived equality compares the attributes by their own.\<close>

definition uw_eq :: "uw \<Rightarrow> uw \<Rightarrow> bool" where
  "uw_eq v w \<longleftrightarrow> uw_uci v = uw_uci w \<and> attr_list_eq (uw_attributes v) (uw_attributes w)
     \<and> uw_node_id v = uw_node_id w \<and> uw_scope v = uw_scope w"

datatype ucl_range = WordNetSeed | Curated | ProperNoun | TemporaryId | Reserved

definition ucl_range_of :: "uci \<Rightarrow> ucl_range option" where
  "ucl_range_of u =
     (case u of
        Ucl _ i \<Rightarrow> Some
          (if i \<le> 4999999999 then WordNetSeed
           else if 5000000000 \<le> i \<and> i \<le> 5999999999 then Curated
           else if 6000000000 \<le> i \<and> i \<le> 6999999999 then ProperNoun
           else if 9000000000 \<le> i \<and> i \<le> 9999999999 then TemporaryId
           else Reserved)
      | _ \<Rightarrow> None)"

definition is_open_seed :: "uci \<Rightarrow> bool" where
  "is_open_seed u \<longleftrightarrow> ucl_range_of u = Some WordNetSeed"

section \<open>Graphs\<close>

datatype node_ref = NodeRef string | ScopeRef string | Inline uw

fun is_node :: "string \<Rightarrow> node_ref \<Rightarrow> bool" where
  "is_node i (NodeRef j) \<longleftrightarrow> j = i"
| "is_node i _ \<longleftrightarrow> False"

fun node_ref_eq :: "node_ref \<Rightarrow> node_ref \<Rightarrow> bool" where
  "node_ref_eq (NodeRef i) (NodeRef j) \<longleftrightarrow> i = j"
| "node_ref_eq (ScopeRef i) (ScopeRef j) \<longleftrightarrow> i = j"
| "node_ref_eq (Inline v) (Inline w) \<longleftrightarrow> uw_eq v w"
| "node_ref_eq _ _ \<longleftrightarrow> False"

record unl_relation =
  rl_tag :: relation_tag
  rl_scope :: "string option"
  rl_source :: node_ref
  rl_target :: node_ref

definition relation_between :: "relation_tag \<Rightarrow> string \<Rightarrow> string \<Rightarrow> unl_relation" where
  "relation_between t i j =
     \<lparr>rl_tag = t, rl_scope = None, rl_source = NodeRef i, rl_target = NodeRef j\<rparr>"

definition relation_eq :: "unl_relation \<Rightarrow> unl_relation \<Rightarrow> bool" where
  "relation_eq r s \<longleftrightarrow> rl_tag r = rl_tag s \<and> rl_scope r = rl_scope s
     \<and> node_ref_eq (rl_source r) (rl_source s) \<and> node_ref_eq (rl_target r) (rl_target s)"

record unl_graph =
  ug_nodes :: "(string, uw) hashmap"
  ug_relations :: "unl_relation list"
  ug_entry :: "string option"

definition unl_graph_new :: unl_graph where
  "unl_graph_new = \<lparr>ug_nodes = [], ug_relations = [], ug_entry = None\<rparr>"

definition insert_node :: "string \<Rightarrow> uw \<Rightarrow> unl_graph \<Rightarrow> unl_graph" where
  "insert_node i w g = g\<lparr>ug_nodes := hm_insert i w (ug_nodes g)\<rparr>"

definition add_relation :: "unl_relation \<Rightarrow> unl_graph \<Rightarrow> unl_graph" where
  "add_relation r g = g\<lparr>ug_relations := ug_relations g @ [r]\<rparr>"

fun ref_ok :: "unl_graph \<Rightarrow> node_ref \<Rightarrow> bool" where
  "ref_ok g (NodeRef i) = hm_contains (ug_nodes g) i"
| "ref_ok g _ = True"

definition refs_resolve :: "unl_graph \<Rightarrow> bool" where
  "refs_resolve g = list_all (\<lambda>r. ref_ok g (rl_source r) \<and> ref_ok g (rl_target r)) (ug_relations g)"

definition graph_outgoing :: "unl_graph \<Rightarrow> string \<Rightarrow> unl_relation list" where
  "graph_outgoing g i = filter (\<lambda>r. is_node i (rl_source r)) (ug_relations g)"

definition graph_incoming :: "unl_graph \<Rightarrow> string \<Rightarrow> unl_relation list" where
  "graph_incoming g i = filter (\<lambda>r. is_node i (rl_target r)) (ug_relations g)"

section \<open>Comparison\<close>

text \<open>The first unused element of \<open>ys\<close> that equals \<open>x\<close> is marked as used.\<close>

fun use_first :: "('a \<Rightarrow> 'a \<Rightarrow> bool) \<Rightarrow> 'a \<Rightarrow> (bool \<times> 'a) list \<Rightarrow> (bool \<times> 'a) list option" where
  "use_first eq x [] = None"
| "use_first eq x ((used, y) # ys) =
     (if \<not> used \<and> eq x y then Some ((True, y) # ys)
      else map_option (\<lambda>zs. (used, y) # zs) (use_first eq x ys))"

fun use_all :: "('a \<Rightarrow> 'a \<Rightarrow> bool) \<Rightarrow> 'a list \<Rightarrow> (bool \<times> 'a) list \<Rightarrow> bool" where
  "use_all eq [] ys = True"
| "use_all eq (x # xs) ys =
     (case use_first eq x ys of Some zs \<Rightarrow> use_all eq xs zs | None \<Rightarrow> False)"

definition relations_multiset_eq :: "unl_relation list \<Rightarrow> unl_relation list \<Rightarrow> bool" where
  "relations_multiset_eq xs ys =
     (if length xs \<noteq> length ys then False
      else use_all relation_eq xs (map (\<lambda>y. (False, y)) ys))"

text \<open>Equality of \<open>IndexMap\<close>s: as many entries, and equal values under equal keys.\<close>

definition nodes_eq :: "(string, uw) hashmap \<Rightarrow> (string, uw) hashmap \<Rightarrow> bool" where
  "nodes_eq m n \<longleftrightarrow> length m = length n
     \<and> list_all (\<lambda>(i, v). case hm_get n i of Some w \<Rightarrow> uw_eq v w | None \<Rightarrow> False) m"

definition unl_eq :: "unl_graph \<Rightarrow> unl_graph \<Rightarrow> bool" where
  "unl_eq g h \<longleftrightarrow> ug_entry g = ug_entry h \<and> nodes_eq (ug_nodes g) (ug_nodes h)
     \<and> relations_multiset_eq (ug_relations g) (ug_relations h)"

text \<open>The derived equality of graphs, which respects the order of the relations.\<close>

definition graph_eq :: "unl_graph \<Rightarrow> unl_graph \<Rightarrow> bool" where
  "graph_eq g h \<longleftrightarrow> nodes_eq (ug_nodes g) (ug_nodes h)
     \<and> list_all2 relation_eq (ug_relations g) (ug_relations h) \<and> ug_entry g = ug_entry h"

section \<open>Tags\<close>

lemma all_tags_complete: "t \<in> set all_tags"
  by (cases t) (simp_all add: all_tags_def)

lemma distinct_tags: "distinct (map tag_as_str all_tags)"
  by (simp add: all_tags_def)

lemma tag_as_str_inj: "tag_as_str t = tag_as_str u \<Longrightarrow> t = u"
  using distinct_tags all_tags_complete by (auto simp: distinct_map inj_on_def)

lemma tag_from_str_as_str: "tag_from_str (tag_as_str t) = Inr t"
proof (cases "find (\<lambda>u. tag_as_str u = tag_as_str t) all_tags")
  case None
  then show ?thesis using all_tags_complete by (auto simp: find_None_iff)
next
  case (Some u)
  then have "tag_as_str u = tag_as_str t" by (auto simp: find_Some_iff)
  with Some show ?thesis by (simp add: tag_from_str_def tag_as_str_inj)
qed

lemma tag_ancestors_eq: "tag_ancestors t = (case tag_parent t of Some p \<Rightarrow> [t, p] | None \<Rightarrow> [t])"
proof (cases "tag_parent t")
  case None
  then show ?thesis by (simp add: tag_ancestors.simps [of t])
next
  case (Some p)
  then have "tag_parent p = None" by (auto simp: tag_parent_def split: if_splits)
  with Some show ?thesis by (simp add: tag_ancestors.simps [of t] tag_ancestors.simps [of p])
qed

lemma tag_is_a_iff: "tag_is_a t u \<longleftrightarrow> t = u \<or> tag_parent t = Some u"
  by (auto simp: tag_is_a_def tag_ancestors_eq split: option.split)

text \<open>The hierarchy of tags is a partial order of depth two.\<close>

lemma tag_is_a_order:
  "tag_is_a t t"
  "tag_is_a t u \<Longrightarrow> tag_is_a u v \<Longrightarrow> tag_is_a t v"
  "tag_is_a t u \<Longrightarrow> tag_is_a u t \<Longrightarrow> t = u"
  by (auto simp: tag_is_a_iff tag_parent_def split: if_splits)


section \<open>Attributes\<close>

lemma distinct_labels: "distinct (map as_label named_attrs)"
  by code_simp

lemma named_attrs_complete: "a \<in> set named_attrs \<or> (\<exists>s. a = OtherAttr s)"
proof (cases a)
  case (Time x) then show ?thesis by (cases x) (simp_all add: named_attrs_def)
next
  case (Aspect x) then show ?thesis by (cases x) (simp_all add: named_attrs_def)
next
  case (Specification x) then show ?thesis by (cases x) (simp_all add: named_attrs_def)
next
  case (Quantity x) then show ?thesis by (cases x) (simp_all add: named_attrs_def)
next
  case (Polarity x) then show ?thesis by (cases x) (simp_all add: named_attrs_def)
next
  case (Voice x) then show ?thesis by (cases x) (simp_all add: named_attrs_def)
next
  case (Person x) then show ?thesis by (cases x) (simp_all add: named_attrs_def)
next
  case (Gender x) then show ?thesis by (cases x) (simp_all add: named_attrs_def)
next
  case (Modality x) then show ?thesis by (cases x) (simp_all add: named_attrs_def)
next
  case (Place x) then show ?thesis by (cases x) (simp_all add: named_attrs_def)
next
  case (Pragmatic x) then show ?thesis by (cases x) (simp_all add: named_attrs_def)
next
  case (Conjunctive x) then show ?thesis by (cases x) (simp_all add: named_attrs_def)
qed simp

text \<open>An attribute whose label is not one of a named one it is not is read back from its label.\<close>

definition attr_ok :: "attr \<Rightarrow> bool" where
  "attr_ok a = (case a of OtherAttr s \<Rightarrow> s \<notin> set (map as_label named_attrs) | _ \<Rightarrow> True)"

lemma from_label_as_label:
  assumes "attr_ok a"
  shows "from_label (as_label a) = a"
proof (cases "find (\<lambda>b. as_label b = as_label a) named_attrs")
  case None
  then have "a \<notin> set named_attrs" by (auto simp: find_None_iff)
  with named_attrs_complete obtain s where "a = OtherAttr s" by blast
  with None show ?thesis by (simp add: from_label_def)
next
  case (Some b)
  then have b: "b \<in> set named_attrs" "as_label b = as_label a"
    by (auto simp: find_Some_iff in_set_conv_nth)
  have "a \<in> set named_attrs"
    using named_attrs_complete [of a] assms b by (auto simp: attr_ok_def rev_image_eqI)
  with b distinct_labels have "b = a" by (auto simp: distinct_map inj_on_def)
  with Some show ?thesis by (simp add: from_label_def)
qed

definition attr_count :: "(attr, int) hashmap \<Rightarrow> attr \<Rightarrow> int" where
  "attr_count m a = (case hm_get m a of Some n \<Rightarrow> n | None \<Rightarrow> 0)"

lemma attr_count_fold:
  "attr_count (fold (count_attr d) xs m) a = attr_count m a + d * int (count (mset xs) a)"
proof (induction xs arbitrary: m)
  case Nil
  then show ?case by simp
next
  case (Cons x xs)
  have "attr_count (count_attr d x m) a = attr_count m a + (if a = x then d else 0)"
    by (simp add: attr_count_def count_attr_def hashmap_simps)
  with Cons show ?case by (simp add: algebra_simps)
qed

lemma hm_wf_fold_count: "hm_wf m \<Longrightarrow> hm_wf (fold (count_attr d) xs m)"
  by (induction xs arbitrary: m) (simp_all add: count_attr_def)

lemma all_values_zero:
  assumes "hm_wf m"
  shows "list_all (\<lambda>c. c = 0) (hm_values m) \<longleftrightarrow> (\<forall>a. attr_count m a = 0)"
proof
  assume "list_all (\<lambda>c. c = 0) (hm_values m)"
  then have "n = 0" if "hm_get m a = Some n" for a n
    using hm_get_values [OF that] by (auto simp: list_all_iff)
  then show "\<forall>a. attr_count m a = 0" by (simp add: attr_count_def split: option.split)
next
  assume zero: "\<forall>a. attr_count m a = 0"
  have "n = 0" if "(a, n) \<in> set m" for a n
  proof -
    have "hm_get m a = Some n" using assms that by (simp add: hm_wf_def)
    with zero show ?thesis by (auto simp: attr_count_def dest!: spec [of _ a])
  qed
  then show "list_all (\<lambda>c. c = 0) (hm_values m)" by (auto simp: list_all_iff hm_values_def)
qed

text \<open>The attribute lists are compared as multisets.\<close>

lemma attr_list_eq_iff: "attr_list_eq xs ys \<longleftrightarrow> mset xs = mset ys"
proof -
  let ?m = "fold (count_attr (-1)) ys (fold (count_attr 1) xs [])"
  have "attr_count ?m a = int (count (mset xs) a) - int (count (mset ys) a)" for a
    unfolding attr_count_fold by (simp add: attr_count_def)
  moreover have "hm_wf ?m" by (simp add: hm_wf_fold_count)
  ultimately have "list_all (\<lambda>c. c = 0) (hm_values ?m) \<longleftrightarrow> mset xs = mset ys"
    by (simp add: all_values_zero multiset_eq_iff)
  moreover have "mset xs = mset ys \<Longrightarrow> length xs = length ys" by (rule mset_eq_length)
  ultimately show ?thesis by (auto simp: attr_list_eq_def)
qed

section \<open>The meaning of a graph\<close>

type_synonym uw_meaning = "uci \<times> attr multiset \<times> string option \<times> string option"

definition uw_meaning :: "uw \<Rightarrow> uw_meaning" where
  "uw_meaning w = (uw_uci w, mset (uw_attributes w), uw_node_id w, uw_scope w)"

fun ref_meaning :: "node_ref \<Rightarrow> string + string + uw_meaning" where
  "ref_meaning (NodeRef i) = Inl i"
| "ref_meaning (ScopeRef i) = Inr (Inl i)"
| "ref_meaning (Inline w) = Inr (Inr (uw_meaning w))"

definition relation_meaning :: "unl_relation \<Rightarrow> _" where
  "relation_meaning r = (rl_tag r, rl_scope r, ref_meaning (rl_source r), ref_meaning (rl_target r))"

text \<open>
  What a graph says: its entry, its nodes by identifier, each with its attributes as a multiset,
  and the multiset of its relations.
\<close>

definition meaning :: "unl_graph \<Rightarrow> _" where
  "meaning g = (ug_entry g, \<lambda>i. map_option uw_meaning (hm_get (ug_nodes g) i),
                image_mset relation_meaning (mset (ug_relations g)))"

lemma uw_eq_iff: "uw_eq v w \<longleftrightarrow> uw_meaning v = uw_meaning w"
  by (auto simp: uw_eq_def uw_meaning_def attr_list_eq_iff)

lemma node_ref_eq_iff: "node_ref_eq x y \<longleftrightarrow> ref_meaning x = ref_meaning y"
  by (cases x; cases y) (simp_all add: uw_eq_iff)

lemma relation_eq_iff: "relation_eq r s \<longleftrightarrow> relation_meaning r = relation_meaning s"
  by (simp add: relation_eq_def relation_meaning_def node_ref_eq_iff)

abbreviation unused :: "(bool \<times> 'a) list \<Rightarrow> 'a list" where
  "unused zs \<equiv> map snd (filter (\<lambda>z. \<not> fst z) zs)"

lemma use_first_mset:
  assumes eq: "\<And>x y. eq x y \<longleftrightarrow> f x = f y"
  shows "(case use_first eq x ys of
            Some zs \<Rightarrow> mset (map f (unused ys)) = add_mset (f x) (mset (map f (unused zs)))
          | None \<Rightarrow> f x \<notin># mset (map f (unused ys)))"
proof (induction ys)
  case Nil
  then show ?case by simp
next
  case (Cons y ys)
  obtain u z where y: "y = (u, z)" by (cases y)
  show ?case
  proof (cases "\<not> u \<and> eq x z")
    case True
    then show ?thesis by (simp add: y eq)
  next
    case False
    then show ?thesis
      using Cons.IH by (cases u; cases "use_first eq x ys") (auto simp: y eq [of x z])
  qed
qed

lemma use_all_mset:
  assumes eq: "\<And>x y. eq x y \<longleftrightarrow> f x = f y"
  shows "use_all eq xs ys \<longleftrightarrow> mset (map f xs) \<subseteq># mset (map f (unused ys))"
proof (induction xs arbitrary: ys)
  case Nil
  then show ?case by simp
next
  case (Cons x xs)
  show ?case
  proof (cases "use_first eq x ys")
    case None
    with use_first_mset [of eq f x ys, OF eq] have "f x \<notin># mset (map f (unused ys))" by simp
    then have "\<not> mset (map f (x # xs)) \<subseteq># mset (map f (unused ys))"
      by (metis list.set_intros(1) list.simps(9) mset_subset_eqD set_mset_mset)
    with None show ?thesis by simp
  next
    case (Some zs)
    with use_first_mset [of eq f x ys, OF eq]
    have "mset (map f (unused ys)) = add_mset (f x) (mset (map f (unused zs)))" by simp
    with Some Cons.IH [of zs] show ?thesis by simp
  qed
qed

lemma relations_multiset_eq_iff:
  "relations_multiset_eq xs ys \<longleftrightarrow>
     image_mset relation_meaning (mset xs) = image_mset relation_meaning (mset ys)"
proof -
  have "unused (map (\<lambda>y. (False, y)) ys) = ys" by (induction ys) simp_all
  then have all: "use_all relation_eq xs (map (\<lambda>y. (False, y)) ys) \<longleftrightarrow>
      mset (map relation_meaning xs) \<subseteq># mset (map relation_meaning ys)"
    by (subst use_all_mset [where f = relation_meaning]) (simp_all add: relation_eq_iff)
  show ?thesis
  proof (cases "length xs = length ys")
    case True
    then have "mset (map relation_meaning xs) \<subseteq># mset (map relation_meaning ys) \<longleftrightarrow>
        mset (map relation_meaning xs) = mset (map relation_meaning ys)"
      by (metis length_map mset_subset_size nless_le size_mset subset_mset.le_less)
    with True all show ?thesis by (simp add: relations_multiset_eq_def)
  next
    case False
    then have "size (image_mset relation_meaning (mset xs)) \<noteq> size (image_mset relation_meaning (mset ys))"
      by simp
    then have "image_mset relation_meaning (mset xs) \<noteq> image_mset relation_meaning (mset ys)" by metis
    with False show ?thesis by (simp add: relations_multiset_eq_def)
  qed
qed

lemma nodes_eq_iff:
  assumes "hm_wf m" "hm_wf n"
  shows "nodes_eq m n \<longleftrightarrow>
    (\<lambda>i. map_option uw_meaning (hm_get m i)) = (\<lambda>i. map_option uw_meaning (hm_get n i))"
    (is "_ \<longleftrightarrow> ?M = ?N")
proof
  have dom_card: "card (dom (hm_get k)) = length k" if "hm_wf k" for k :: "(string, uw) hashmap"
    using that by (metis distinct_card dom_map_of_conv_image_fst hm_wf_def length_map list.set_map)
  assume eq: "nodes_eq m n"
  then have sub: "dom (hm_get m) \<subseteq> dom (hm_get n)"
    by (fastforce simp: nodes_eq_def list_all_iff dest: map_of_SomeD split: option.splits)
  have "dom (hm_get m) = dom (hm_get n)"
    by (rule card_subset_eq [OF finite_dom_map_of sub]) (use eq assms dom_card in \<open>simp add: nodes_eq_def\<close>)
  then have none: "hm_get m i = None \<longleftrightarrow> hm_get n i = None" for i by (metis domIff)
  have some: "map_option uw_meaning (hm_get n i) = Some (uw_meaning v)" if "hm_get m i = Some v" for i v
    using eq map_of_SomeD [OF that] by (auto simp: nodes_eq_def list_all_iff uw_eq_iff split: option.splits)
  show "?M = ?N"
  proof
    fix i show "?M i = ?N i" using none [of i] some [of i] by (cases "hm_get m i") auto
  qed
next
  assume eq: "?M = ?N"
  then have get: "map_option uw_meaning (hm_get m i) = map_option uw_meaning (hm_get n i)" for i
    by (rule fun_cong)
  have "hm_get m i = None \<longleftrightarrow> hm_get n i = None" for i
    using get [of i] by (cases "hm_get m i"; cases "hm_get n i") simp_all
  then have "dom (hm_get m) = dom (hm_get n)" by (simp add: dom_def)
  then have "length m = length n"
    using assms by (metis distinct_card dom_map_of_conv_image_fst hm_wf_def length_map list.set_map)
  moreover have "case hm_get n i of Some w \<Rightarrow> uw_eq v w | None \<Rightarrow> False" if "(i, v) \<in> set m" for i v
  proof -
    have "hm_get m i = Some v" using assms(1) that by (simp add: hm_wf_def)
    with get [of i] show ?thesis by (cases "hm_get n i") (auto simp: uw_eq_iff)
  qed
  ultimately show "nodes_eq m n" by (auto simp: nodes_eq_def list_all_iff)
qed

definition graph_wf :: "unl_graph \<Rightarrow> bool" where
  "graph_wf g \<longleftrightarrow> hm_wf (ug_nodes g)"

lemma unl_eq_meaning:
  assumes "graph_wf g" "graph_wf h"
  shows "unl_eq g h \<longleftrightarrow> meaning g = meaning h"
  using assms nodes_eq_iff [of "ug_nodes g" "ug_nodes h"]
  by (auto simp: unl_eq_def meaning_def graph_wf_def relations_multiset_eq_iff)

lemma graph_eq_unl_eq:
  assumes "graph_eq g h"
  shows "unl_eq g h"
proof -
  have "map relation_meaning (ug_relations g) = map relation_meaning (ug_relations h)"
    using assms by (auto simp: graph_eq_def list_all2_conv_all_nth relation_eq_iff intro!: nth_equalityI)
  then have "image_mset relation_meaning (mset (ug_relations g)) = image_mset relation_meaning (mset (ug_relations h))"
    by (metis mset_map)
  with assms show ?thesis by (simp add: graph_eq_def unl_eq_def relations_multiset_eq_iff)
qed

end
