(* ===== verification/Unl_Kb.thy ===== *)
theory Unl_Kb
  imports Unl_Core
begin

text \<open>
  Knowledge bases of the UNL crates (crate \<^verbatim>\<open>unl-kb\<close>): the trait \<open>KnowledgeBase\<close> as the record of
  its methods (\<^verbatim>\<open>lib.rs\<close>), the base in memory (\<^verbatim>\<open>mem.rs\<close>), the vocabulary an agent carries
  (\<^verbatim>\<open>vocabulary.rs\<close>) and the graph with reverse edges (\<^verbatim>\<open>graph_kb.rs\<close>). The bases over a
  database and over the files of WordNet are not modelled.

  Concepts are numbered by 64-bit words, of which there are finitely many: the searches through
  the hierarchy visit each number at most once, which is why they end, on cyclic hierarchies
  as well. The result \<open>None\<close> of a method that looks a number up with an index stands for
  the panic when the number is missing.
\<close>

section \<open>The trait\<close>

datatype lex_category = Nominal | Verbal | Adjectival | Adverbial

record concept_features =
  cf_category :: lex_category
  cf_abstract :: bool
  cf_gloss :: "string option"

datatype kb_error = KbStorage string | KbNotFound uci

record knowledge_base =
  kb_resolve :: "uci \<Rightarrow> kb_error + uci option"
  kb_definition :: "uci \<Rightarrow> (kb_error + unl_relation list) option"
  kb_features :: "uci \<Rightarrow> (kb_error + concept_features option) option"
  kb_is_a :: "uci \<Rightarrow> uci \<Rightarrow> kb_error + bool"
  kb_certainty :: "relation_tag \<Rightarrow> uci \<Rightarrow> uci \<Rightarrow> kb_error + byte"
  kb_candidates :: "string \<Rightarrow> lang \<Rightarrow> kb_error + uci list"

definition concept_relation :: "relation_tag \<Rightarrow> u64 \<Rightarrow> u64 \<Rightarrow> unl_relation" where
  "concept_relation t i j =
     \<lparr>rl_tag = t, rl_scope = None, rl_source = Inline (uw_new (uci_ucl i)),
      rl_target = Inline (uw_new (uci_ucl j))\<rparr>"

section \<open>Walking up the hierarchy\<close>

text \<open>
  The parents of a popped concept: \<open>None\<close> when the goal is among them, otherwise the seen
  concepts and the stack, whose top is the head, with the new ones.
\<close>

fun scan_parents :: "u64 \<Rightarrow> u64 list \<Rightarrow> u64 list \<times> u64 list \<Rightarrow> (u64 list \<times> u64 list) option" where
  "scan_parents goal [] s = Some s"
| "scan_parents goal (p # ps) (seen, stack) =
     (if p = goal then None
      else if p \<in> set seen then scan_parents goal ps (seen, stack)
      else scan_parents goal ps (p # seen, p # stack))"

lemma card_unseen:
  fixes seen :: "u64 list"
  assumes "p \<notin> set seen"
  shows "Suc (card (UNIV - insert p (set seen))) = card (UNIV - set seen)"
proof -
  have "UNIV - insert p (set seen) = (UNIV - set seen) - {p}" by auto
  moreover have "Suc (card ((UNIV - set seen) - {p})) = card (UNIV - set seen)"
    by (rule card_Suc_Diff1) (use assms in simp_all)
  ultimately show ?thesis by simp
qed

text \<open>Every concept that comes to the stack leaves the concepts not seen yet.\<close>

lemma scan_parents_card:
  assumes "scan_parents goal ps (seen, stack) = Some (seen', stack')"
  shows "card (UNIV - set seen') + length stack' = card (UNIV - set seen) + length stack"
  using assms
proof (induction goal ps "(seen, stack)" arbitrary: seen stack rule: scan_parents.induct)
  case (2 goal p ps seen stack)
  then show ?case using card_unseen [of p seen] by (auto split: if_splits)
qed simp

lemma scan_parents_Some:
  assumes "scan_parents goal ps (seen, stack) = Some (seen', stack')"
  shows "set seen' = set seen \<union> set ps \<and> set stack' = set stack \<union> (set ps - set seen)
    \<and> goal \<notin> set ps"
  using assms
  by (induction goal ps "(seen, stack)" arbitrary: seen stack rule: scan_parents.induct)
    (auto split: if_splits)

lemma scan_parents_None: "scan_parents goal ps s = None \<longleftrightarrow> goal \<in> set ps"
  by (induction goal ps s rule: scan_parents.induct) auto

function walk_up :: "(u64 \<Rightarrow> u64 list) \<Rightarrow> u64 \<Rightarrow> u64 list \<times> u64 list \<Rightarrow> bool" where
  "walk_up parents goal (seen, []) = False"
| "walk_up parents goal (seen, cur # stack) =
     (case scan_parents goal (parents cur) (seen, stack) of
        None \<Rightarrow> True
      | Some s \<Rightarrow> walk_up parents goal s)"
  by pat_completeness auto
termination
proof (relation "measure (\<lambda>(_, _, seen, stack). card (UNIV - set seen) + length stack)")
  fix parents :: "u64 \<Rightarrow> u64 list" and goal cur :: u64 and seen stack :: "u64 list" and s
  assume s: "scan_parents goal (parents cur) (seen, stack) = Some s"
  obtain seen' stack' where [simp]: "s = (seen', stack')" by (cases s)
  show "((parents, goal, s), parents, goal, seen, cur # stack)
      \<in> measure (\<lambda>(_, _, seen, stack). card (UNIV - set seen) + length stack)"
    using scan_parents_card [of goal "parents cur" seen stack seen' stack'] s by simp
qed simp

text \<open>The relation of a child to its parents.\<close>

definition parent_rel :: "(u64 \<Rightarrow> u64 list) \<Rightarrow> (u64 \<times> u64) set" where
  "parent_rel parents = {(i, j). j \<in> set (parents i)}"

text \<open>
  The invariant of the search: every parent of a seen concept that was already expanded is seen,
  and the goal is not.
\<close>

lemma walk_up_exact:
  assumes "set stack \<subseteq> insert start (set seen)" "goal \<notin> set seen"
    "\<And>i j. i \<in> insert start (set seen) - set stack \<Longrightarrow> j \<in> set (parents i) \<Longrightarrow> j \<in> set seen"
    "\<And>i. i \<in> set seen \<Longrightarrow> (start, i) \<in> (parent_rel parents)\<^sup>+"
  shows "walk_up parents goal (seen, stack) \<longleftrightarrow> (start, goal) \<in> (parent_rel parents)\<^sup>+"
  using assms
proof (induction parents goal "(seen, stack)" arbitrary: seen stack rule: walk_up.induct)
  case (1 parents goal seen)
  have closed: "j \<in> set seen" if "(start, j) \<in> (parent_rel parents)\<^sup>+" for j
    using that
  proof (induction rule: trancl_induct)
    case (base j)
    then show ?case using 1(3) [of start j] by (simp add: parent_rel_def)
  next
    case (step i j)
    then show ?case using 1(3) [of i j] by (simp add: parent_rel_def)
  qed
  with 1(2) show ?case by auto
next
  case (2 parents goal seen cur stack)
  have cur: "(start, p) \<in> (parent_rel parents)\<^sup>+" if "p \<in> set (parents cur)" for p
  proof -
    have "(cur, p) \<in> parent_rel parents" using that by (simp add: parent_rel_def)
    moreover have "cur = start \<or> (start, cur) \<in> (parent_rel parents)\<^sup>+" using 2(2) 2(5) [of cur] by auto
    ultimately show ?thesis by (auto intro: trancl_into_trancl)
  qed
  show ?case
  proof (cases "scan_parents goal (parents cur) (seen, stack)")
    case None
    then have "goal \<in> set (parents cur)" by (simp add: scan_parents_None)
    with None cur show ?thesis by simp
  next
    case (Some s)
    obtain seen' stack' where s: "s = (seen', stack')" by (cases s)
    from Some s scan_parents_Some [of goal "parents cur" seen stack seen' stack']
    have new: "set seen' = set seen \<union> set (parents cur)"
      "set stack' = set stack \<union> (set (parents cur) - set seen)" "goal \<notin> set (parents cur)" by simp_all
    have "walk_up parents goal (seen', stack') \<longleftrightarrow> (start, goal) \<in> (parent_rel parents)\<^sup>+"
    proof (rule 2(1))
      show "scan_parents goal (parents cur) (seen, stack) = Some (seen', stack')"
        using Some s by simp
      show "set stack' \<subseteq> insert start (set seen')" using new 2(2) by auto
      show "goal \<notin> set seen'" using new 2(3) by auto
      show "j \<in> set seen'"
        if "i \<in> insert start (set seen') - set stack'" "j \<in> set (parents i)" for i j
      proof (cases "i = cur")
        case True
        with that new show ?thesis by simp
      next
        case False
        with that new 2(4) [of i j] show ?thesis by auto
      qed
      show "(start, i) \<in> (parent_rel parents)\<^sup>+" if "i \<in> set seen'" for i
        using that new 2(5) cur by auto
    qed
    with Some s show ?thesis by simp
  qed
qed

lemma walk_up_start:
  "walk_up parents goal ([], [start]) \<longleftrightarrow> (start, goal) \<in> (parent_rel parents)\<^sup>+"
  by (rule walk_up_exact) simp_all


section \<open>The base in memory\<close>

record stored_concept =
  st_features :: concept_features
  st_icl :: "u64 list"
  st_iof :: "u64 list"

definition stored_parents :: "(u64, stored_concept) hashmap \<Rightarrow> u64 \<Rightarrow> u64 list" where
  "stored_parents m i = (case hm_get m i of Some c \<Rightarrow> st_icl c @ st_iof c | None \<Rightarrow> [])"

text \<open>The relations of a stored concept, and the certainty of one of them.\<close>

definition stored_definition ::
    "(u64, stored_concept) hashmap \<Rightarrow> uci \<Rightarrow> u64 option \<Rightarrow> (kb_error + unl_relation list) option" where
  "stored_definition m u known =
     (case known of
        None \<Rightarrow> Some (Inl (KbNotFound u))
      | Some i \<Rightarrow>
          (case hm_get m i of
             None \<Rightarrow> None
           | Some c \<Rightarrow> Some (Inr (map (concept_relation TagIcl i) (st_icl c)
                                @ map (concept_relation TagIof i) (st_iof c)))))"

definition stored_features ::
    "(u64, stored_concept) hashmap \<Rightarrow> u64 option \<Rightarrow> (kb_error + concept_features option) option" where
  "stored_features m known =
     (case known of
        None \<Rightarrow> Some (Inr None)
      | Some i \<Rightarrow> map_option (\<lambda>c. Inr (Some (st_features c))) (hm_get m i))"

definition stored_is_a :: "(u64, stored_concept) hashmap \<Rightarrow> u64 option \<Rightarrow> u64 option \<Rightarrow> kb_error + bool" where
  "stored_is_a m start goal =
     (case (start, goal) of
        (Some i, Some j) \<Rightarrow>
          if i = j then Inr True else Inr (walk_up (stored_parents m) j ([], [i]))
      | _ \<Rightarrow> Inr False)"

definition stored_certainty ::
    "(u64, stored_concept) hashmap \<Rightarrow> relation_tag \<Rightarrow> u64 option \<Rightarrow> u64 option \<Rightarrow> kb_error + byte" where
  "stored_certainty m t src tgt =
     (case (src, tgt) of
        (Some i, Some j) \<Rightarrow>
          (case hm_get m i of
             None \<Rightarrow> Inr 0
           | Some c \<Rightarrow>
               Inr (if (if t = TagIcl then j \<in> set (st_icl c)
                        else if t = TagIof then j \<in> set (st_iof c) else False)
                    then 255 else 0))
      | _ \<Rightarrow> Inr 0)"

record mem_kb =
  mk_concepts :: "(u64, stored_concept) hashmap"
  mk_by_ucn :: "(string, (lang \<times> u64) list) hashmap"
  mk_index :: "(string \<times> lang, u64 list) hashmap"

definition mem_new :: mem_kb where
  "mem_new = \<lparr>mk_concepts = [], mk_by_ucn = [], mk_index = []\<rparr>"

record concept_seed =
  cs_ucl :: u64
  cs_ucn :: "string option"
  cs_lang :: string
  cs_category :: string
  cs_is_abstract :: bool
  cs_gloss :: "string option"
  cs_icl :: "u64 list"
  cs_iof :: "u64 list"
  cs_lemmas :: "string list"

definition parse_category :: "string \<Rightarrow> kb_error + lex_category" where
  "parse_category s =
     (if s = ''nominal'' \<or> s = ''n'' then Inr Nominal
      else if s = ''verbal'' \<or> s = ''v'' then Inr Verbal
      else if s = ''adjectival'' \<or> s = ''j'' then Inr Adjectival
      else if s = ''adverbial'' \<or> s = ''a'' then Inr Adverbial
      else Inl (KbStorage (''unknown lexical category: '' @ s)))"

text \<open>\<open>m.entry(k).or_default().push(v)\<close>\<close>

definition hm_push :: "'k \<Rightarrow> 'v \<Rightarrow> ('k, 'v list) hashmap \<Rightarrow> ('k, 'v list) hashmap" where
  "hm_push k v m = hm_insert k ((case hm_get m k of Some vs \<Rightarrow> vs | None \<Rightarrow> []) @ [v]) m"

definition mem_insert :: "concept_seed \<Rightarrow> mem_kb \<Rightarrow> kb_error + mem_kb" where
  "mem_insert c kb =
     (case lang_new (cs_lang c) of
        Inl _ \<Rightarrow> Inl (KbStorage (''invalid ISO 639-3 language code: '' @ cs_lang c))
      | Inr l \<Rightarrow>
          (case parse_category (cs_category c) of
             Inl e \<Rightarrow> Inl e
           | Inr cat \<Rightarrow>
               Inr (kb\<lparr>mk_by_ucn :=
                         (case cs_ucn c of
                            Some n \<Rightarrow> hm_push n (l, cs_ucl c) (mk_by_ucn kb)
                          | None \<Rightarrow> mk_by_ucn kb),
                       mk_index := fold (\<lambda>lemma_text. hm_push (lemma_text, l) (cs_ucl c)) (cs_lemmas c) (mk_index kb),
                       mk_concepts := hm_insert (cs_ucl c)
                         \<lparr>st_features = \<lparr>cf_category = cat, cf_abstract = cs_is_abstract c, cf_gloss = cs_gloss c\<rparr>,
                          st_icl = cs_icl c, st_iof = cs_iof c\<rparr> (mk_concepts kb)\<rparr>)))"

text \<open>The builder, which panics on an invalid seed.\<close>

definition mem_with :: "concept_seed \<Rightarrow> mem_kb \<Rightarrow> mem_kb option" where
  "mem_with c kb = (case mem_insert c kb of Inl _ \<Rightarrow> None | Inr kb' \<Rightarrow> Some kb')"

fun mem_insert_all :: "concept_seed list \<Rightarrow> mem_kb \<Rightarrow> kb_error + mem_kb" where
  "mem_insert_all [] kb = Inr kb"
| "mem_insert_all (c # cs) kb =
     (case mem_insert c kb of Inl e \<Rightarrow> Inl e | Inr kb' \<Rightarrow> mem_insert_all cs kb')"

text \<open>\<open>from_str\<close> stands for the TOML library: the list of seeds, or its error message.\<close>

definition mem_from_toml :: "(string \<Rightarrow> string + concept_seed list) \<Rightarrow> string \<Rightarrow> kb_error + mem_kb" where
  "mem_from_toml from_str s =
     (case from_str s of
        Inl e \<Rightarrow> Inl (KbStorage (''invalid seed TOML: '' @ e))
      | Inr cs \<Rightarrow> mem_insert_all cs mem_new)"

definition known_id :: "(u64, 'c) hashmap \<Rightarrow> u64 \<Rightarrow> u64 option" where
  "known_id m i = (if hm_contains m i then Some i else None)"

definition mem_id_of :: "mem_kb \<Rightarrow> uci \<Rightarrow> u64 option" where
  "mem_id_of kb u =
     (case u of
        Ucl _ i \<Rightarrow> known_id (mk_concepts kb) i
      | Ucn l r _ \<Rightarrow>
          (case hm_get (mk_by_ucn kb) r of
             None \<Rightarrow> None
           | Some cs \<Rightarrow>
               (case l of
                  Some x \<Rightarrow> map_option snd (find (\<lambda>(y, _). y = x) cs)
                | None \<Rightarrow> (case cs of [] \<Rightarrow> None | c # _ \<Rightarrow> Some (snd c))))
      | _ \<Rightarrow> None)"

definition mem_base :: "mem_kb \<Rightarrow> knowledge_base" where
  "mem_base kb =
     \<lparr>kb_resolve = (\<lambda>u. Inr (map_option uci_ucl (mem_id_of kb u))),
      kb_definition = (\<lambda>u. stored_definition (mk_concepts kb) u (mem_id_of kb u)),
      kb_features = (\<lambda>u. stored_features (mk_concepts kb) (mem_id_of kb u)),
      kb_is_a = (\<lambda>u v. stored_is_a (mk_concepts kb) (mem_id_of kb u) (mem_id_of kb v)),
      kb_certainty = (\<lambda>t u v. stored_certainty (mk_concepts kb) t (mem_id_of kb u) (mem_id_of kb v)),
      kb_candidates = (\<lambda>w l. Inr (case hm_get (mk_index kb) (w, l) of
                                    Some js \<Rightarrow> map uci_ucl js | None \<Rightarrow> []))\<rparr>"

section \<open>The vocabulary of an agent\<close>

record vocabulary =
  vc_concepts :: "(u64, stored_concept) hashmap"
  vc_by_lemma :: "(string, u64 list) hashmap"
  vc_relations :: "relation_tag set"
  vc_attributes :: "attr set"

definition vocabulary_new :: vocabulary where
  "vocabulary_new = \<lparr>vc_concepts = [], vc_by_lemma = [], vc_relations = {}, vc_attributes = {}\<rparr>"

definition allow_concept ::
    "u64 \<Rightarrow> concept_features \<Rightarrow> u64 list \<Rightarrow> u64 list \<Rightarrow> string list \<Rightarrow> vocabulary \<Rightarrow> vocabulary" where
  "allow_concept i f icl iof lemma_texts v =
     v\<lparr>vc_by_lemma := fold (\<lambda>w. hm_push w i) lemma_texts (vc_by_lemma v),
       vc_concepts := hm_insert i \<lparr>st_features = f, st_icl = icl, st_iof = iof\<rparr> (vc_concepts v)\<rparr>"

definition allow_relations :: "relation_tag list \<Rightarrow> vocabulary \<Rightarrow> vocabulary" where
  "allow_relations ts v = v\<lparr>vc_relations := vc_relations v \<union> set ts\<rparr>"

definition allow_relation :: "relation_tag \<Rightarrow> vocabulary \<Rightarrow> vocabulary" where
  "allow_relation t v = v\<lparr>vc_relations := insert t (vc_relations v)\<rparr>"

definition allow_attributes :: "attr list \<Rightarrow> vocabulary \<Rightarrow> vocabulary" where
  "allow_attributes xs v = v\<lparr>vc_attributes := vc_attributes v \<union> set xs\<rparr>"

definition allow_attribute :: "attr \<Rightarrow> vocabulary \<Rightarrow> vocabulary" where
  "allow_attribute a v = v\<lparr>vc_attributes := insert a (vc_attributes v)\<rparr>"

definition allows_relation :: "vocabulary \<Rightarrow> relation_tag \<Rightarrow> bool" where
  "allows_relation v t \<longleftrightarrow> t \<in> vc_relations v"

definition allows_attribute :: "vocabulary \<Rightarrow> attr \<Rightarrow> bool" where
  "allows_attribute v a \<longleftrightarrow> a \<in> vc_attributes v"

text \<open>The first concept listed under a lemma.\<close>

definition lemma_id :: "(string, u64 list) hashmap \<Rightarrow> string \<Rightarrow> u64 option" where
  "lemma_id m r = (case hm_get m r of Some (i # _) \<Rightarrow> Some i | _ \<Rightarrow> None)"

definition vocab_id_of :: "vocabulary \<Rightarrow> uci \<Rightarrow> u64 option" where
  "vocab_id_of v u =
     (case u of
        Ucl _ i \<Rightarrow> known_id (vc_concepts v) i
      | Ucn _ r _ \<Rightarrow> lemma_id (vc_by_lemma v) r
      | _ \<Rightarrow> None)"

definition vocab_knows :: "vocabulary \<Rightarrow> uci \<Rightarrow> bool" where
  "vocab_knows v u \<longleftrightarrow> vocab_id_of v u \<noteq> None"

definition vocab_base :: "vocabulary \<Rightarrow> knowledge_base" where
  "vocab_base v =
     \<lparr>kb_resolve = (\<lambda>u. Inr (map_option uci_ucl (vocab_id_of v u))),
      kb_definition = (\<lambda>u. stored_definition (vc_concepts v) u (vocab_id_of v u)),
      kb_features = (\<lambda>u. stored_features (vc_concepts v) (vocab_id_of v u)),
      kb_is_a = (\<lambda>u w. stored_is_a (vc_concepts v) (vocab_id_of v u) (vocab_id_of v w)),
      kb_certainty = (\<lambda>t u w. stored_certainty (vc_concepts v) t (vocab_id_of v u) (vocab_id_of v w)),
      kb_candidates = (\<lambda>w l. Inr (case hm_get (vc_by_lemma v) w of
                                    Some js \<Rightarrow> map uci_ucl js | None \<Rightarrow> []))\<rparr>"

text \<open>The parents of a definition that are among the extracted concepts.\<close>

fun kept_parents :: "relation_tag \<Rightarrow> u64 list \<Rightarrow> unl_relation list \<Rightarrow> u64 list" where
  "kept_parents t ids [] = []"
| "kept_parents t ids (r # rs) =
     (case rl_target r of
        Inline w \<Rightarrow>
          (case uw_uci w of
             Ucl _ p \<Rightarrow> if p \<in> set ids \<and> rl_tag r = t then [p] else []
           | _ \<Rightarrow> [])
      | _ \<Rightarrow> []) @ kept_parents t ids rs"

fun extract_concepts ::
    "knowledge_base \<Rightarrow> u64 list \<Rightarrow> u64 list \<Rightarrow> vocabulary \<Rightarrow> (kb_error + vocabulary) option" where
  "extract_concepts kb ids [] v = Some (Inr v)"
| "extract_concepts kb ids (i # js) v =
     (case kb_features kb (uci_ucl i) of
        None \<Rightarrow> None
      | Some (Inl e) \<Rightarrow> Some (Inl e)
      | Some (Inr None) \<Rightarrow> extract_concepts kb ids js v
      | Some (Inr (Some f)) \<Rightarrow>
          (case kb_definition kb (uci_ucl i) of
             None \<Rightarrow> None
           | Some (Inl e) \<Rightarrow> Some (Inl e)
           | Some (Inr rs) \<Rightarrow>
               extract_concepts kb ids js
                 (v\<lparr>vc_concepts := hm_insert i
                      \<lparr>st_features = f, st_icl = kept_parents TagIcl ids rs, st_iof = kept_parents TagIof ids rs\<rparr>
                      (vc_concepts v)\<rparr>)))"

definition vocab_extract ::
    "knowledge_base \<Rightarrow> u64 list \<Rightarrow> relation_tag list \<Rightarrow> attr list \<Rightarrow> (kb_error + vocabulary) option" where
  "vocab_extract kb ids ts xs =
     extract_concepts kb ids ids (allow_attributes xs (allow_relations ts vocabulary_new))"

definition concept_count :: "vocabulary \<Rightarrow> nat" where
  "concept_count v = length (vc_concepts v)"

definition relation_count :: "vocabulary \<Rightarrow> nat" where
  "relation_count v = card (vc_relations v)"

definition attribute_count :: "vocabulary \<Rightarrow> nat" where
  "attribute_count v = card (vc_attributes v)"

end
