(* ===== verification/Unl_Hierarchy.thy ===== *)
theory Unl_Hierarchy
  imports Unl_Kb
begin

text \<open>
  What the knowledge bases promise: identities resolve to canonical numbers, and \<open>is_a\<close> answers
  by reachability along the parents. The contract is the locale \<open>concept_hierarchy\<close>; the base in
  memory and the vocabulary keep it, and so does the graph base of the next theory. What an agent
  concludes from a vocabulary extracted from a larger base is derived from the contract.
\<close>

text \<open>The parents a definition lists.\<close>

definition defined_parents :: "unl_relation list \<Rightarrow> u64 set" where
  "defined_parents rs =
     {j. \<exists>r\<in>set rs. \<exists>w l. (rl_tag r = TagIcl \<or> rl_tag r = TagIof)
          \<and> rl_target r = Inline w \<and> uw_uci w = Ucl l j}"

lemma defined_parents_simps [simp]:
  "defined_parents [] = {}"
  "defined_parents (r # rs) =
     (case rl_target r of
        Inline w \<Rightarrow>
          (case uw_uci w of
             Ucl _ j \<Rightarrow> if rl_tag r = TagIcl \<or> rl_tag r = TagIof then {j} else {}
           | _ \<Rightarrow> {})
      | _ \<Rightarrow> {}) \<union> defined_parents rs"
  by (auto simp: defined_parents_def split: node_ref.split uci.split)

lemma defined_parents_append: "defined_parents (rs @ ss) = defined_parents rs \<union> defined_parents ss"
  by (auto simp: defined_parents_def)

lemma defined_parents_links:
  "t = TagIcl \<or> t = TagIof \<Longrightarrow> defined_parents (map (concept_relation t i) ps) = set ps"
  by (induction ps) (auto simp: concept_relation_def uw_new_def uci_ucl_def)

lemma set_kept_parents:
  "set (kept_parents TagIcl ids rs @ kept_parents TagIof ids rs) = defined_parents rs \<inter> set ids"
  by (induction rs) (auto split: node_ref.split uci.split)

locale concept_hierarchy =
  fixes base :: "'s \<Rightarrow> knowledge_base"
    and wf :: "'s \<Rightarrow> bool"
    and known :: "'s \<Rightarrow> uci \<Rightarrow> u64 option"
    and parents :: "'s \<Rightarrow> u64 \<Rightarrow> u64 list"
  assumes resolve: "kb_resolve (base s) u = Inr (map_option uci_ucl (known s u))"
    and known_ucl: "known s (Ucl l i) = None \<or> known s (Ucl l i) = Some i"
    and listed: "wf s \<Longrightarrow> known s u = Some i \<Longrightarrow> known s (uci_ucl i) = Some i"
    and is_a: "kb_is_a (base s) u v =
       Inr (case (known s u, known s v) of
              (Some i, Some j) \<Rightarrow> (i, j) \<in> (parent_rel (parents s))\<^sup>*
            | _ \<Rightarrow> False)"
    and definition_known: "wf s \<Longrightarrow> known s u = Some i \<Longrightarrow>
       \<exists>rs. kb_definition (base s) u = Some (Inr rs) \<and> defined_parents rs = set (parents s i)"
    and definition_unknown: "known s u = None \<Longrightarrow> kb_definition (base s) u = Some (Inl (KbNotFound u))"
    and features_known: "wf s \<Longrightarrow> known s u = Some i \<Longrightarrow>
       \<exists>f. kb_features (base s) u = Some (Inr (Some f))"
    and features_unknown: "known s u = None \<Longrightarrow> kb_features (base s) u = Some (Inr None)"
    and parents_unknown: "known s (uci_ucl i) = None \<Longrightarrow> parents s i = []"
begin

lemma no_panic:
  assumes "wf s"
  shows "kb_definition (base s) u \<noteq> None \<and> kb_features (base s) u \<noteq> None"
  using definition_known [OF assms, of u] definition_unknown [of s u]
    features_known [OF assms, of u] features_unknown [of s u]
  by (cases "known s u") auto

lemma resolve_canonical:
  assumes "wf s" "kb_resolve (base s) u = Inr (Some c)"
  shows "kb_resolve (base s) c = Inr (Some c)"
  using assms listed [of s u] by (auto simp: resolve)

lemma is_a_refl: "kb_resolve (base s) u = Inr (Some c) \<Longrightarrow> kb_is_a (base s) u u = Inr True"
  by (auto simp: resolve is_a)

lemma is_a_trans:
  "kb_is_a (base s) u v = Inr True \<Longrightarrow> kb_is_a (base s) v w = Inr True
    \<Longrightarrow> kb_is_a (base s) u w = Inr True"
  by (auto simp: is_a split: option.splits intro: rtrancl_trans)

lemma is_a_resolved:
  assumes "wf s" "kb_resolve (base s) u = Inr (Some c)" "kb_resolve (base s) v = Inr (Some d)"
  shows "kb_is_a (base s) c d = kb_is_a (base s) u v"
  using assms listed [of s u] listed [of s v] by (auto simp: resolve is_a)

text \<open>What an extraction stores under a number, and that it always succeeds.\<close>

lemma extract_concepts_get:
  assumes "wf s"
  shows "\<exists>v'. extract_concepts (base s) ids js v = Some (Inr v') \<and>
    vc_by_lemma v' = vc_by_lemma v \<and>
    (\<forall>i. if i \<in> set js \<and> known s (uci_ucl i) \<noteq> None
          then \<exists>c. hm_get (vc_concepts v') i = Some c
            \<and> set (st_icl c @ st_iof c) = set (parents s i) \<inter> set ids
          else hm_get (vc_concepts v') i = hm_get (vc_concepts v) i)"
proof (induction js arbitrary: v)
  case Nil
  then show ?case by simp
next
  case (Cons k js)
  show ?case
  proof (cases "known s (uci_ucl k)")
    case None
    have "extract_concepts (base s) ids (k # js) v = extract_concepts (base s) ids js v"
      using features_unknown [OF None] by simp
    moreover have "(i \<in> set (k # js) \<and> known s (uci_ucl i) \<noteq> None) = (i \<in> set js \<and> known s (uci_ucl i) \<noteq> None)"
      for i using None by auto
    ultimately show ?thesis using Cons.IH [of v] by (simp only:)
  next
    case (Some k')
    with known_ucl [of s None k] have "k' = k" by (auto simp: uci_ucl_def)
    with Some have k: "known s (uci_ucl k) = Some k" by simp
    obtain f where f: "kb_features (base s) (uci_ucl k) = Some (Inr (Some f))"
      using features_known [OF assms k] by auto
    obtain rs where rs: "kb_definition (base s) (uci_ucl k) = Some (Inr rs)"
      "defined_parents rs = set (parents s k)"
      using definition_known [OF assms k] by auto
    let ?c = "\<lparr>st_features = f, st_icl = kept_parents TagIcl ids rs, st_iof = kept_parents TagIof ids rs\<rparr>"
    let ?v = "v\<lparr>vc_concepts := hm_insert k ?c (vc_concepts v)\<rparr>"
    from Cons.IH [of ?v] obtain v' where
      v': "extract_concepts (base s) ids js ?v = Some (Inr v')" "vc_by_lemma v' = vc_by_lemma v"
      and get: "\<And>i. if i \<in> set js \<and> known s (uci_ucl i) \<noteq> None
          then \<exists>c. hm_get (vc_concepts v') i = Some c
            \<and> set (st_icl c @ st_iof c) = set (parents s i) \<inter> set ids
          else hm_get (vc_concepts v') i = hm_get (vc_concepts ?v) i"
      by auto
    have here: "\<exists>c. hm_get (vc_concepts v') k = Some c \<and> set (st_icl c @ st_iof c) = set (parents s k) \<inter> set ids"
    proof (cases "k \<in> set js")
      case True
      with get [of k] k show ?thesis by simp
    next
      case False
      with get [of k] have "hm_get (vc_concepts v') k = Some ?c" by (simp add: hashmap_simps)
      moreover have "set (st_icl ?c @ st_iof ?c) = set (parents s k) \<inter> set ids"
        using set_kept_parents [of ids rs] rs(2) by simp
      ultimately show ?thesis by blast
    qed
    have "if i \<in> set (k # js) \<and> known s (uci_ucl i) \<noteq> None
          then \<exists>c. hm_get (vc_concepts v') i = Some c
            \<and> set (st_icl c @ st_iof c) = set (parents s i) \<inter> set ids
          else hm_get (vc_concepts v') i = hm_get (vc_concepts v) i" for i
    proof (cases "i = k")
      case True
      with here k show ?thesis by simp
    next
      case False
      then have "i \<in> set (k # js) \<longleftrightarrow> i \<in> set js" "hm_get (vc_concepts ?v) i = hm_get (vc_concepts v) i"
        by (simp_all add: hashmap_simps)
      then show ?thesis using get [of i] by (simp only:)
    qed
    moreover have "extract_concepts (base s) ids (k # js) v = Some (Inr v')"
      using v' f rs(1) by simp
    ultimately show ?thesis using v'(2) by blast
  qed
qed

end

section \<open>Indexes\<close>

text \<open>Every number an index lists is that of a stored concept.\<close>

definition all_listed :: "('v \<Rightarrow> u64) \<Rightarrow> (u64, 'c) hashmap \<Rightarrow> ('k, 'v list) hashmap \<Rightarrow> bool" where
  "all_listed f cs m = list_all (\<lambda>(_, vs). list_all (\<lambda>v. hm_contains cs (f v)) vs) m"

lemma all_listed_get:
  "all_listed f cs m \<Longrightarrow> hm_get m k = Some vs \<Longrightarrow> v \<in> set vs \<Longrightarrow> hm_contains cs (f v)"
  by (fastforce simp: all_listed_def list_all_iff dest: map_of_SomeD)

lemma all_listed_insert:
  "all_listed f cs m \<Longrightarrow> list_all (\<lambda>v. hm_contains cs (f v)) vs \<Longrightarrow> all_listed f cs (hm_insert k vs m)"
  by (induction m) (auto simp: all_listed_def hm_insert_def)

lemma all_listed_push:
  assumes "all_listed f cs m" "hm_contains cs (f v)"
  shows "all_listed f cs (hm_push k v m)"
  unfolding hm_push_def
proof (rule all_listed_insert [OF assms(1)], cases "hm_get m k")
  case (Some vs)
  then show "list_all (\<lambda>v. hm_contains cs (f v)) ((case hm_get m k of Some vs \<Rightarrow> vs | None \<Rightarrow> []) @ [v])"
    using assms all_listed_get [OF assms(1) Some] by (simp add: list_all_iff)
qed (use assms(2) in simp)

lemma all_listed_fold_push:
  "all_listed f cs m \<Longrightarrow> hm_contains cs (f v) \<Longrightarrow> all_listed f cs (fold (\<lambda>w. hm_push (g w) v) ws m)"
  by (induction ws arbitrary: m) (simp_all add: all_listed_push)

lemma all_listed_mono:
  "all_listed f cs m \<Longrightarrow> all_listed f (hm_insert i c cs) m"
  by (auto simp: all_listed_def list_all_iff hashmap_simps)

lemma hm_contains_insert [simp]: "hm_contains (hm_insert i c cs) i"
  by (simp add: hashmap_simps)

definition mem_wf :: "mem_kb \<Rightarrow> bool" where
  "mem_wf kb = all_listed snd (mk_concepts kb) (mk_by_ucn kb)"

definition vocab_wf :: "vocabulary \<Rightarrow> bool" where
  "vocab_wf v = all_listed (\<lambda>i. i) (vc_concepts v) (vc_by_lemma v)"

lemma mem_new_wf: "mem_wf mem_new"
  by (simp add: mem_wf_def mem_new_def all_listed_def)

lemma mem_insert_wf:
  assumes "mem_wf kb" "mem_insert c kb = Inr kb'"
  shows "mem_wf kb'"
proof -
  have "\<exists>s. mk_concepts kb' = hm_insert (cs_ucl c) s (mk_concepts kb)"
    using assms(2) by (auto simp: mem_insert_def split: sum.splits)
  then obtain s where concepts: "mk_concepts kb' = hm_insert (cs_ucl c) s (mk_concepts kb)" ..
  have index: "mk_by_ucn kb' = mk_by_ucn kb \<or> (\<exists>n l. mk_by_ucn kb' = hm_push n (l, cs_ucl c) (mk_by_ucn kb))"
    using assms(2) by (auto simp: mem_insert_def split: sum.splits option.splits) blast
  have "all_listed snd (mk_concepts kb') (mk_by_ucn kb)"
    using assms(1) by (simp add: mem_wf_def concepts all_listed_mono)
  with index show ?thesis
    unfolding mem_wf_def by (auto intro!: all_listed_push simp: concepts)
qed

lemma mem_insert_all_wf: "mem_wf kb \<Longrightarrow> mem_insert_all cs kb = Inr kb' \<Longrightarrow> mem_wf kb'"
  by (induction cs arbitrary: kb) (auto split: sum.splits dest: mem_insert_wf)

text \<open>Every base read from a seed file is well indexed.\<close>

lemma mem_from_toml_wf: "mem_from_toml from_str t = Inr kb \<Longrightarrow> mem_wf kb"
  by (auto simp: mem_from_toml_def split: sum.splits intro: mem_insert_all_wf [OF mem_new_wf])

lemma vocabulary_new_wf: "vocab_wf vocabulary_new"
  by (simp add: vocab_wf_def vocabulary_new_def all_listed_def)

lemma allow_concept_wf: "vocab_wf v \<Longrightarrow> vocab_wf (allow_concept i f icl iof ws v)"
  by (simp add: vocab_wf_def allow_concept_def all_listed_mono all_listed_fold_push)

lemma allow_words_wf [simp]:
  "vocab_wf (allow_relations ts v) = vocab_wf v" "vocab_wf (allow_attributes xs v) = vocab_wf v"
  "vocab_wf (allow_relation t v) = vocab_wf v" "vocab_wf (allow_attribute x v) = vocab_wf v"
  by (simp_all add: vocab_wf_def allow_relations_def allow_attributes_def allow_relation_def allow_attribute_def)

section \<open>The base in memory and the vocabulary\<close>

lemma stored_is_a_exact:
  "stored_is_a m a b = Inr (case (a, b) of
     (Some i, Some j) \<Rightarrow> (i, j) \<in> (parent_rel (stored_parents m))\<^sup>* | _ \<Rightarrow> False)"
  unfolding stored_is_a_def walk_up_start by (auto simp: rtrancl_eq_or_trancl split: option.split)

lemma stored_definition_parents:
  assumes "hm_contains m i"
  shows "\<exists>rs. stored_definition m u (Some i) = Some (Inr rs) \<and> defined_parents rs = set (stored_parents m i)"
proof -
  from assms obtain c where c: "hm_get m i = Some c" by (auto simp: hashmap_simps)
  then show ?thesis
    by (simp add: stored_definition_def stored_parents_def defined_parents_append defined_parents_links)
qed

lemma stored_features_known:
  "hm_contains m i \<Longrightarrow> \<exists>f. stored_features m (Some i) = Some (Inr (Some f))"
  by (auto simp: stored_features_def hashmap_simps)

lemma find_Some_in_set: "find P xs = Some x \<Longrightarrow> x \<in> set xs"
  by (induction xs) (auto split: if_splits)

lemma mem_id_listed:
  assumes "mem_wf kb" "mem_id_of kb u = Some i"
  shows "hm_contains (mk_concepts kb) i"
proof (cases u)
  case (Ucl l k)
  with assms(2) show ?thesis by (simp add: mem_id_of_def known_id_def split: if_splits)
next
  case (Ucn l r x)
  with assms(2) obtain vs v where "hm_get (mk_by_ucn kb) r = Some vs" "v \<in> set vs" "i = snd v"
    by (fastforce simp: mem_id_of_def split: option.splits list.splits dest: find_Some_in_set)
  with assms(1) show ?thesis unfolding mem_wf_def by (auto dest: all_listed_get)
qed (use assms(2) in \<open>simp_all add: mem_id_of_def\<close>)

lemma lemma_id_listed: "all_listed (\<lambda>i. i) cs m \<Longrightarrow> lemma_id m r = Some i \<Longrightarrow> hm_contains cs i"
  by (auto simp: lemma_id_def split: option.splits list.splits dest: all_listed_get)

lemma vocab_id_listed: "vocab_wf v \<Longrightarrow> vocab_id_of v u = Some i \<Longrightarrow> hm_contains (vc_concepts v) i"
  by (cases u) (auto simp: vocab_id_of_def vocab_wf_def known_id_def lemma_id_listed split: if_splits)

interpretation mem: concept_hierarchy mem_base mem_wf mem_id_of "\<lambda>kb. stored_parents (mk_concepts kb)"
proof unfold_locales
  fix kb u i assume kb: "mem_wf kb" "mem_id_of kb u = Some i"
  show "mem_id_of kb (uci_ucl i) = Some i"
    using mem_id_listed [OF kb] by (simp add: mem_id_of_def known_id_def uci_ucl_def)
  show "\<exists>rs. kb_definition (mem_base kb) u = Some (Inr rs)
      \<and> defined_parents rs = set (stored_parents (mk_concepts kb) i)"
    using stored_definition_parents [OF mem_id_listed [OF kb]] kb(2) by (simp add: mem_base_def)
  show "\<exists>f. kb_features (mem_base kb) u = Some (Inr (Some f))"
    using stored_features_known [OF mem_id_listed [OF kb]] kb(2) by (simp add: mem_base_def)
qed (simp_all add: mem_base_def stored_is_a_exact stored_definition_def stored_features_def
    mem_id_of_def known_id_def stored_parents_def uci_ucl_def hashmap_simps split: if_splits)

interpretation vocab: concept_hierarchy vocab_base vocab_wf vocab_id_of "\<lambda>v. stored_parents (vc_concepts v)"
proof unfold_locales
  fix v u i assume v: "vocab_wf v" "vocab_id_of v u = Some i"
  show "vocab_id_of v (uci_ucl i) = Some i"
    using vocab_id_listed [OF v] by (simp add: vocab_id_of_def known_id_def uci_ucl_def)
  show "\<exists>rs. kb_definition (vocab_base v) u = Some (Inr rs)
      \<and> defined_parents rs = set (stored_parents (vc_concepts v) i)"
    using stored_definition_parents [OF vocab_id_listed [OF v]] v(2) by (simp add: vocab_base_def)
  show "\<exists>f. kb_features (vocab_base v) u = Some (Inr (Some f))"
    using stored_features_known [OF vocab_id_listed [OF v]] v(2) by (simp add: vocab_base_def)
qed (simp_all add: vocab_base_def stored_is_a_exact stored_definition_def stored_features_def
    vocab_id_of_def known_id_def stored_parents_def uci_ucl_def hashmap_simps split: if_splits)

section \<open>Extraction\<close>

context concept_hierarchy
begin

lemma known_number: "known s (uci_ucl i) = None \<or> known s (uci_ucl i) = Some i"
  by (simp add: uci_ucl_def known_ucl)

lemma extraction:
  assumes "wf s"
  shows "\<exists>v. vocab_extract (base s) ids ts xs = Some (Inr v) \<and>
    (\<forall>i. vocab_id_of v (uci_ucl i) = (if i \<in> set ids then known s (uci_ucl i) else None)) \<and>
    (\<forall>i. set (stored_parents (vc_concepts v) i) =
       (if i \<in> set ids \<and> known s (uci_ucl i) \<noteq> None then set (parents s i) \<inter> set ids else {}))"
proof -
  let ?v = "allow_attributes xs (allow_relations ts vocabulary_new)"
  have empty: "vc_concepts ?v = []"
    by (simp add: allow_attributes_def allow_relations_def vocabulary_new_def)
  from extract_concepts_get [OF assms, of ids ids ?v] obtain v where
    v: "vocab_extract (base s) ids ts xs = Some (Inr v)" and
    get: "\<And>i. if i \<in> set ids \<and> known s (uci_ucl i) \<noteq> None
          then \<exists>c. hm_get (vc_concepts v) i = Some c
            \<and> set (st_icl c @ st_iof c) = set (parents s i) \<inter> set ids
          else hm_get (vc_concepts v) i = hm_get [] i"
    unfolding vocab_extract_def empty by blast
  have "vocab_id_of v (uci_ucl i) = (if i \<in> set ids then known s (uci_ucl i) else None)
    \<and> set (stored_parents (vc_concepts v) i) =
       (if i \<in> set ids \<and> known s (uci_ucl i) \<noteq> None then set (parents s i) \<inter> set ids else {})" for i
  proof (cases "i \<in> set ids \<and> known s (uci_ucl i) \<noteq> None")
    case True
    with get [of i] obtain c where "hm_get (vc_concepts v) i = Some c"
      "set (st_icl c @ st_iof c) = set (parents s i) \<inter> set ids" by auto
    moreover have "known s (uci_ucl i) = Some i" using True known_number [of s i] by auto
    ultimately show ?thesis using True
      by (simp add: vocab_id_of_def known_id_def uci_ucl_def hashmap_simps stored_parents_def)
  next
    case False
    with get [of i] have "hm_get (vc_concepts v) i = None" by simp
    moreover from this have "vocab_id_of v (uci_ucl i) = None" "stored_parents (vc_concepts v) i = []"
      by (simp_all add: vocab_id_of_def known_id_def uci_ucl_def hm_contains_get stored_parents_def)
    ultimately show ?thesis using False by simp
  qed
  with v show ?thesis by blast
qed

lemma extract_sound:
  assumes "wf s" "vocab_extract (base s) ids ts xs = Some (Inr v)"
    "kb_is_a (vocab_base v) (uci_ucl i) (uci_ucl j) = Inr True"
  shows "kb_is_a (base s) (uci_ucl i) (uci_ucl j) = Inr True"
proof -
  from extraction [OF assms(1), of ids ts xs] assms(2) have
    ids: "\<And>i. vocab_id_of v (uci_ucl i) = (if i \<in> set ids then known s (uci_ucl i) else None)" and
    parents: "\<And>i. set (stored_parents (vc_concepts v) i) =
       (if i \<in> set ids \<and> known s (uci_ucl i) \<noteq> None then set (parents s i) \<inter> set ids else {})"
    by auto
  have "parent_rel (stored_parents (vc_concepts v)) \<subseteq> parent_rel (parents s)"
    by (auto simp: parent_rel_def parents split: if_splits)
  from rtrancl_mono [OF this] assms(3) show ?thesis
    unfolding vocab.is_a is_a ids by (auto split: option.splits if_splits)
qed

lemma extract_complete:
  assumes "wf s" "vocab_extract (base s) ids ts xs = Some (Inr v)"
    "\<And>k. k \<in> set ids \<Longrightarrow> set (parents s k) \<subseteq> set ids" "i \<in> set ids" "j \<in> set ids"
  shows "kb_is_a (vocab_base v) (uci_ucl i) (uci_ucl j) = kb_is_a (base s) (uci_ucl i) (uci_ucl j)"
proof -
  from extraction [OF assms(1), of ids ts xs] assms(2) have
    ids: "\<And>i. vocab_id_of v (uci_ucl i) = (if i \<in> set ids then known s (uci_ucl i) else None)" and
    stored: "\<And>i. set (stored_parents (vc_concepts v) i) =
       (if i \<in> set ids \<and> known s (uci_ucl i) \<noteq> None then set (parents s i) \<inter> set ids else {})"
    by auto
  have same: "set (stored_parents (vc_concepts v) k) = set (parents s k)" if "k \<in> set ids" for k
    using that stored [of k] assms(3) [of k] parents_unknown [of s k] by (auto split: if_splits)
  have reach: "(i, k) \<in> (parent_rel (stored_parents (vc_concepts v)))\<^sup>* \<and> k \<in> set ids"
    if "(i, k) \<in> (parent_rel (parents s))\<^sup>*" for k
    using that
  proof (induction rule: rtrancl_induct)
    case base
    then show ?case using assms(4) by simp
  next
    case (step a b)
    then have "(a, b) \<in> parent_rel (stored_parents (vc_concepts v))" "b \<in> set ids"
      using same [of a] assms(3) [of a] by (auto simp: parent_rel_def)
    with step show ?case by (auto intro: rtrancl_into_rtrancl)
  qed
  have "parent_rel (stored_parents (vc_concepts v)) \<subseteq> parent_rel (parents s)"
    by (auto simp: parent_rel_def stored split: if_splits)
  from rtrancl_mono [OF this] reach assms(4,5) known_number [of s i] known_number [of s j]
  show ?thesis unfolding vocab.is_a is_a ids by auto
qed

end

text \<open>C34: A vocabulary carved out of a knowledge base reasons soundly. From every base in memory,
  whatever concepts were inserted, extracting a list of concepts succeeds; that one concept is a kind of
  another according to the extracted vocabulary only if it is according to the base; and if the list
  contains the parents of its members, the two agree on its members.\<close>

theorem extracted_vocabulary_sound:
  assumes "mem_insert_all seeds mem_new = Inr kb"
  shows "\<exists>v. vocab_extract (mem_base kb) ids ts xs = Some (Inr v)
    \<and> (\<forall>i j. kb_is_a (vocab_base v) (uci_ucl i) (uci_ucl j) = Inr True
         \<longrightarrow> kb_is_a (mem_base kb) (uci_ucl i) (uci_ucl j) = Inr True)
    \<and> ((\<forall>i\<in>set ids. set (stored_parents (mk_concepts kb) i) \<subseteq> set ids)
         \<longrightarrow> (\<forall>i\<in>set ids. \<forall>j\<in>set ids. kb_is_a (vocab_base v) (uci_ucl i) (uci_ucl j)
               = kb_is_a (mem_base kb) (uci_ucl i) (uci_ucl j)))"
proof -
  have wf: "mem_wf kb" by (rule mem_insert_all_wf [OF mem_new_wf assms])
  from mem.extraction [OF wf, of ids ts xs] obtain v
    where v: "vocab_extract (mem_base kb) ids ts xs = Some (Inr v)" by blast
  show ?thesis
    by (rule exI [of _ v]) (use v mem.extract_sound [OF wf v] mem.extract_complete [OF wf v] in blast)
qed

definition example_seed :: "u64 \<Rightarrow> u64 list \<Rightarrow> concept_seed" where
  "example_seed i ps =
     \<lparr>cs_ucl = i, cs_ucn = None, cs_lang = ''eng'', cs_category = ''n'', cs_is_abstract = False,
      cs_gloss = None, cs_icl = ps, cs_iof = [], cs_lemmas = []\<rparr>"

lemma extracted_vocabulary_sound_witness:
  "\<exists>kb v. mem_insert_all [example_seed 1 [2], example_seed 2 []] mem_new = Inr kb
     \<and> vocab_extract (mem_base kb) [1, 2] [TagIcl] [] = Some (Inr v)
     \<and> kb_is_a (vocab_base v) (uci_ucl 1) (uci_ucl 2) = kb_is_a (mem_base kb) (uci_ucl 1) (uci_ucl 2)"
proof -
  let ?c = "\<lambda>ps. \<lparr>st_features = \<lparr>cf_category = Nominal, cf_abstract = False, cf_gloss = None\<rparr>,
    st_icl = ps, st_iof = []\<rparr>"
  let ?kb = "mem_new\<lparr>mk_concepts := [(1, ?c [2]), (2, ?c [])]\<rparr>"
  have kb: "mem_insert_all [example_seed 1 [2], example_seed 2 []] mem_new = Inr ?kb"
    by (simp add: mem_insert_def example_seed_def lang_new_def is_ascii_lowercase_def parse_category_def
        mem_new_def hm_insert_def)
  from extracted_vocabulary_sound [OF this, of "[1, 2]" "[TagIcl]" "[]"]
  show ?thesis using kb by (fastforce simp: stored_parents_def)
qed

end
