(* ===== verification/Unl_Graph_Kb.thy ===== *)
theory Unl_Graph_Kb
  imports Unl_Hierarchy
begin

text \<open>
  The knowledge base with edges in both directions (crate \<^verbatim>\<open>unl-kb\<close>, \<^verbatim>\<open>graph_kb.rs\<close>): adding
  concepts, the ancestors and descendants by breadth-first search, shortest paths, and the methods of the
  trait, which keep the contract of \<open>concept_hierarchy\<close>. The descendants are the converse of the ancestors as
  long as no concept is added twice.

  A search keeps the reached concepts in their order; the set \<open>seen\<close> of the code holds the same
  elements and is not kept apart.
\<close>

section \<open>Definitions\<close>

record graph_node =
  gn_features :: concept_features
  gn_out :: "(relation_tag \<times> u64) list"

record graph_kb =
  gk_nodes :: "(u64, graph_node) hashmap"
  gk_incoming :: "(u64, (relation_tag \<times> u64) list) hashmap"
  gk_by_lemma :: "(string, u64 list) hashmap"

definition graph_kb_new :: graph_kb where
  "graph_kb_new = \<lparr>gk_nodes = [], gk_incoming = [], gk_by_lemma = []\<rparr>"

definition add_concept ::
    "u64 \<Rightarrow> concept_features \<Rightarrow> (relation_tag \<times> u64) list \<Rightarrow> string list \<Rightarrow> graph_kb \<Rightarrow> graph_kb" where
  "add_concept i f links words g =
     g\<lparr>gk_incoming := fold (\<lambda>(t, j). hm_push j (t, i)) links (gk_incoming g),
       gk_by_lemma := fold (\<lambda>w. hm_push w i) words (gk_by_lemma g),
       gk_nodes := hm_insert i \<lparr>gn_features = f, gn_out = links\<rparr> (gk_nodes g)\<rparr>"

text \<open>
  The files of WordNet are a parameter: the concepts read from them, or the error that reading
  ended with, and the entries of their index.
\<close>

definition from_wordnet ::
    "kb_error + (u64 \<times> concept_features \<times> (relation_tag \<times> u64) list) list
     \<Rightarrow> (string \<times> u64 list) list \<Rightarrow> kb_error + graph_kb" where
  "from_wordnet concepts entries =
     (case concepts of
        Inl e \<Rightarrow> Inl e
      | Inr cs \<Rightarrow>
          (let g = fold (\<lambda>(i, f, links). add_concept i f links []) cs graph_kb_new
           in Inr (g\<lparr>gk_by_lemma := fold (\<lambda>(w, js) m. hm_insert w
                ((case hm_get m w of Some ks \<Rightarrow> ks | None \<Rightarrow> []) @ js) m) entries (gk_by_lemma g)\<rparr>)))"

definition graph_id_of :: "graph_kb \<Rightarrow> uci \<Rightarrow> u64 option" where
  "graph_id_of g u =
     (case u of
        Ucl _ i \<Rightarrow> known_id (gk_nodes g) i
      | Ucn _ r _ \<Rightarrow> lemma_id (gk_by_lemma g) r
      | _ \<Rightarrow> None)"

definition graph_edges :: "graph_kb \<Rightarrow> bool \<Rightarrow> u64 \<Rightarrow> (relation_tag \<times> u64) list" where
  "graph_edges g up i =
     (if up then (case hm_get (gk_nodes g) i of Some n \<Rightarrow> gn_out n | None \<Rightarrow> [])
      else (case hm_get (gk_incoming g) i of Some es \<Rightarrow> es | None \<Rightarrow> []))"

definition hierarchical :: "relation_tag \<Rightarrow> bool" where
  "hierarchical t \<longleftrightarrow> t = TagIcl \<or> t = TagIof"

fun visit_edges ::
    "(relation_tag \<times> u64) list \<Rightarrow> u64 list \<times> u64 list \<Rightarrow> u64 list \<times> u64 list" where
  "visit_edges [] s = s"
| "visit_edges ((t, j) # es) (out, queue) =
     (if hierarchical t \<and> j \<notin> set out then visit_edges es (out @ [j], queue @ [j])
      else visit_edges es (out, queue))"

lemma visit_edges_card:
  "visit_edges es (out, queue) = (out', queue')
    \<Longrightarrow> card (UNIV - set out') + length queue' = card (UNIV - set out) + length queue"
proof (induction es "(out, queue)" arbitrary: out queue rule: visit_edges.induct)
  case (2 t j es out queue)
  then show ?case using card_unseen [of j out] by (auto split: if_splits)
qed simp

function reach_loop ::
    "(u64 \<Rightarrow> (relation_tag \<times> u64) list) \<Rightarrow> u64 list \<times> u64 list \<Rightarrow> u64 list" where
  "reach_loop edges (out, []) = out"
| "reach_loop edges (out, cur # queue) = reach_loop edges (visit_edges (edges cur) (out, queue))"
  by pat_completeness auto
termination
proof (relation "measure (\<lambda>(_, out, queue). card (UNIV - set out) + length queue)")
  fix edges :: "u64 \<Rightarrow> (relation_tag \<times> u64) list" and out queue :: "u64 list" and cur
  obtain out' queue' where s: "visit_edges (edges cur) (out, queue) = (out', queue')"
    by (metis surj_pair)
  from visit_edges_card [OF this]
  show "((edges, visit_edges (edges cur) (out, queue)), edges, out, cur # queue)
      \<in> measure (\<lambda>(_, out, queue). card (UNIV - set out) + length queue)" by (simp add: s)
qed simp

definition reachable :: "graph_kb \<Rightarrow> u64 \<Rightarrow> bool \<Rightarrow> u64 list" where
  "reachable g start up = reach_loop (graph_edges g up) ([], [start])"

definition ancestors :: "graph_kb \<Rightarrow> u64 \<Rightarrow> u64 list" where
  "ancestors g i = reachable g i True"

definition descendants :: "graph_kb \<Rightarrow> u64 \<Rightarrow> u64 list" where
  "descendants g i = reachable g i False"

definition graph_base :: "graph_kb \<Rightarrow> knowledge_base" where
  "graph_base g =
     \<lparr>kb_resolve = (\<lambda>u. Inr (map_option uci_ucl (graph_id_of g u))),
      kb_definition = (\<lambda>u.
        case graph_id_of g u of
          None \<Rightarrow> Some (Inl (KbNotFound u))
        | Some i \<Rightarrow>
            (case hm_get (gk_nodes g) i of
               None \<Rightarrow> None
             | Some n \<Rightarrow> Some (Inr (map (\<lambda>(t, j). concept_relation t i j) (gn_out n))))),
      kb_features = (\<lambda>u.
        case graph_id_of g u of
          None \<Rightarrow> Some (Inr None)
        | Some i \<Rightarrow> map_option (\<lambda>n. Inr (Some (gn_features n))) (hm_get (gk_nodes g) i)),
      kb_is_a = (\<lambda>u v.
        case (graph_id_of g u, graph_id_of g v) of
          (Some i, Some j) \<Rightarrow> Inr (i = j \<or> j \<in> set (ancestors g i))
        | _ \<Rightarrow> Inr False),
      kb_certainty = (\<lambda>t u v.
        case (graph_id_of g u, graph_id_of g v) of
          (Some i, Some j) \<Rightarrow>
            Inr (if (case hm_get (gk_nodes g) i of Some n \<Rightarrow> (t, j) \<in> set (gn_out n) | None \<Rightarrow> False)
                 then 255 else 0)
        | _ \<Rightarrow> Inr 0),
      kb_candidates = (\<lambda>w l. Inr (case hm_get (gk_by_lemma g) w of
                                    Some js \<Rightarrow> map uci_ucl js | None \<Rightarrow> []))\<rparr>"

section \<open>Reachability\<close>

definition edge_rel :: "(u64 \<Rightarrow> (relation_tag \<times> u64) list) \<Rightarrow> (u64 \<times> u64) set" where
  "edge_rel edges = {(i, j). \<exists>t. hierarchical t \<and> (t, j) \<in> set (edges i)}"

lemma visit_edges_sets:
  assumes "visit_edges es (out, queue) = (out', queue')"
  defines "new \<equiv> {j. \<exists>t. hierarchical t \<and> (t, j) \<in> set es}"
  shows "set out' = set out \<union> new" "set queue' = set queue \<union> (new - set out)"
    "distinct out \<Longrightarrow> distinct out'"
proof -
  have "set out' = set out \<union> new \<and> set queue' = set queue \<union> (new - set out) \<and> (distinct out \<longrightarrow> distinct out')"
    using assms(1) unfolding new_def
    by (induction es "(out, queue)" arbitrary: out queue rule: visit_edges.induct)
      (auto split: if_splits)
  then show "set out' = set out \<union> new" "set queue' = set queue \<union> (new - set out)"
    "distinct out \<Longrightarrow> distinct out'" by blast+
qed

lemma reach_loop_exact:
  assumes "set queue \<subseteq> insert start (set out)" "distinct out"
    "\<And>i j. i \<in> insert start (set out) - set queue \<Longrightarrow> (i, j) \<in> edge_rel edges \<Longrightarrow> j \<in> set out"
    "\<And>i. i \<in> set out \<Longrightarrow> (start, i) \<in> (edge_rel edges)\<^sup>+"
  shows "set (reach_loop edges (out, queue)) = {i. (start, i) \<in> (edge_rel edges)\<^sup>+}
    \<and> distinct (reach_loop edges (out, queue))"
  using assms
proof (induction edges "(out, queue)" arbitrary: out queue rule: reach_loop.induct)
  case (1 edges out)
  have "j \<in> set out" if "(start, j) \<in> (edge_rel edges)\<^sup>+" for j
    using that by (induction rule: trancl_induct) (use 1(3) in auto)
  with 1(2,4) show ?case by auto
next
  case (2 edges out cur queue)
  obtain out' queue' where s: "visit_edges (edges cur) (out, queue) = (out', queue')"
    by (metis surj_pair)
  let ?new = "{j. (cur, j) \<in> edge_rel edges}"
  have sets: "set out' = set out \<union> ?new" "set queue' = set queue \<union> (?new - set out)" "distinct out'"
    using visit_edges_sets [OF s] 2(3) by (auto simp: edge_rel_def)
  have cur: "(start, j) \<in> (edge_rel edges)\<^sup>+" if "(cur, j) \<in> edge_rel edges" for j
  proof -
    have "cur = start \<or> (start, cur) \<in> (edge_rel edges)\<^sup>+" using 2(2) 2(5) [of cur] by auto
    with that show ?thesis by (auto intro: trancl_into_trancl)
  qed
  have "set (reach_loop edges (out', queue')) = {i. (start, i) \<in> (edge_rel edges)\<^sup>+}
      \<and> distinct (reach_loop edges (out', queue'))"
  proof (rule 2(1) [OF s])
    show "set queue' \<subseteq> insert start (set out')" using sets 2(2) by auto
    show "distinct out'" by (rule sets)
    show "j \<in> set out'"
      if "i \<in> insert start (set out') - set queue'" "(i, j) \<in> edge_rel edges" for i j
    proof (cases "i = cur")
      case True
      with that sets show ?thesis by simp
    next
      case False
      with that sets 2(4) [of i j] show ?thesis by auto
    qed
    show "(start, i) \<in> (edge_rel edges)\<^sup>+" if "i \<in> set out'" for i
      using that sets 2(5) cur by auto
  qed
  with s show ?case by simp
qed

lemma reachable_exact:
  "set (reachable g start up) = {i. (start, i) \<in> (edge_rel (graph_edges g up))\<^sup>+}
    \<and> distinct (reachable g start up)"
  unfolding reachable_def by (rule reach_loop_exact) simp_all

text \<open>The index of a graph built by adding concepts lists added concepts only.\<close>

definition graph_kb_wf :: "graph_kb \<Rightarrow> bool" where
  "graph_kb_wf g = all_listed (\<lambda>i. i) (gk_nodes g) (gk_by_lemma g)"

lemma graph_kb_new_wf: "graph_kb_wf graph_kb_new"
  by (simp add: graph_kb_wf_def graph_kb_new_def all_listed_def)

lemma add_concept_wf: "graph_kb_wf g \<Longrightarrow> graph_kb_wf (add_concept i f links ws g)"
  by (simp add: graph_kb_wf_def add_concept_def all_listed_mono all_listed_fold_push)

lemma graph_id_listed: "graph_kb_wf g \<Longrightarrow> graph_id_of g u = Some i \<Longrightarrow> hm_contains (gk_nodes g) i"
  by (cases u) (auto simp: graph_id_of_def graph_kb_wf_def known_id_def lemma_id_listed split: if_splits)

definition graph_parents :: "graph_kb \<Rightarrow> u64 \<Rightarrow> u64 list" where
  "graph_parents g i = map snd (filter (\<lambda>(t, _). hierarchical t) (graph_edges g True i))"

lemma parent_rel_graph: "parent_rel (graph_parents g) = edge_rel (graph_edges g True)"
  by (force simp: parent_rel_def edge_rel_def graph_parents_def)

lemma defined_parents_edges:
  "defined_parents (map (\<lambda>(t, j). concept_relation t i j) es) = set (map snd (filter (\<lambda>(t, _). hierarchical t) es))"
  by (induction es) (auto simp: concept_relation_def uw_new_def uci_ucl_def hierarchical_def)

interpretation graph: concept_hierarchy graph_base graph_kb_wf graph_id_of graph_parents
proof unfold_locales
  fix g u i assume g: "graph_kb_wf g" "graph_id_of g u = Some i"
  from graph_id_listed [OF this] obtain n where n: "hm_get (gk_nodes g) i = Some n"
    by (auto simp: hashmap_simps)
  then show "graph_id_of g (uci_ucl i) = Some i"
    by (simp add: graph_id_of_def known_id_def uci_ucl_def hashmap_simps)
  show "\<exists>rs. kb_definition (graph_base g) u = Some (Inr rs) \<and> defined_parents rs = set (graph_parents g i)"
    using g(2) n by (simp add: graph_base_def defined_parents_edges graph_parents_def graph_edges_def)
  show "\<exists>f. kb_features (graph_base g) u = Some (Inr (Some f))"
    using g(2) n by (simp add: graph_base_def)
next
  fix g u v
  show "kb_is_a (graph_base g) u v = Inr (case (graph_id_of g u, graph_id_of g v) of
      (Some i, Some j) \<Rightarrow> (i, j) \<in> (parent_rel (graph_parents g))\<^sup>* | _ \<Rightarrow> False)"
    by (auto simp: graph_base_def ancestors_def reachable_exact parent_rel_graph rtrancl_eq_or_trancl
        split: option.split)
qed (auto simp: graph_base_def graph_id_of_def known_id_def uci_ucl_def graph_parents_def
    graph_edges_def hashmap_simps split: if_splits)

section \<open>Both directions\<close>

text \<open>The incoming edges are the outgoing ones, reversed.\<close>

definition mirrored :: "graph_kb \<Rightarrow> bool" where
  "mirrored g \<longleftrightarrow> (\<forall>i j t. (t, i) \<in> set (graph_edges g False j) \<longleftrightarrow> (t, j) \<in> set (graph_edges g True i))"

lemma pushed_incoming:
  "set (case hm_get (fold (\<lambda>(t, j). hm_push j (t, i)) links m) j of Some es \<Rightarrow> es | None \<Rightarrow> []) =
     set (case hm_get m j of Some es \<Rightarrow> es | None \<Rightarrow> []) \<union> {(t, i) | t. (t, j) \<in> set links}"
proof (induction links arbitrary: m)
  case (Cons l links)
  then show ?case by (cases l) (auto simp: hm_push_def hashmap_simps split: option.splits)
qed simp

lemma mirrored_new: "mirrored graph_kb_new"
  by (simp add: mirrored_def graph_edges_def graph_kb_new_def)

lemma mirrored_add_concept:
  assumes "mirrored g" "\<not> hm_contains (gk_nodes g) i"
  shows "mirrored (add_concept i f links ws g)"
proof -
  have none: "graph_edges g True i = []"
    using assms(2) by (auto simp: graph_edges_def hashmap_simps split: option.split)
  have "graph_edges (add_concept i f links ws g) True k = (if k = i then links else graph_edges g True k)" for k
    by (simp add: graph_edges_def add_concept_def hashmap_simps)
  moreover have "set (graph_edges (add_concept i f links ws g) False j) =
      set (graph_edges g False j) \<union> {(t, i) | t. (t, j) \<in> set links}" for j
    using pushed_incoming [of i links "gk_incoming g" j] by (simp add: graph_edges_def add_concept_def)
  ultimately show ?thesis using assms(1) none unfolding mirrored_def by auto
qed

abbreviation add_all ::
    "(u64 \<times> concept_features \<times> (relation_tag \<times> u64) list \<times> string list) list \<Rightarrow> graph_kb \<Rightarrow> graph_kb" where
  "add_all cs \<equiv> fold (\<lambda>(i, f, links, ws). add_concept i f links ws) cs"

lemma mirrored_add_all:
  assumes "mirrored g" "distinct (map fst cs)" "\<And>i. i \<in> fst ` set cs \<Longrightarrow> \<not> hm_contains (gk_nodes g) i"
  shows "mirrored (add_all cs g)"
  using assms
proof (induction cs arbitrary: g)
  case (Cons c cs)
  obtain i f links ws where c: "c = (i, f, links, ws)" by (cases c)
  have "mirrored (add_concept i f links ws g)"
    using Cons.prems(1,3) by (intro mirrored_add_concept) (auto simp: c)
  moreover have "\<not> hm_contains (gk_nodes (add_concept i f links ws g)) k" if "k \<in> fst ` set cs" for k
    using that Cons.prems(2,3) by (auto simp: c add_concept_def hashmap_simps)
  ultimately show ?case using Cons.IH [of "add_concept i f links ws g"] Cons.prems(2) by (simp add: c)
qed simp

lemma edge_rel_mirrored: "mirrored g \<Longrightarrow> edge_rel (graph_edges g False) = (edge_rel (graph_edges g True))\<inverse>"
  by (auto simp: edge_rel_def mirrored_def)

lemma descendants_iff_ancestors:
  assumes "mirrored g"
  shows "j \<in> set (descendants g i) \<longleftrightarrow> i \<in> set (ancestors g j)"
  using reachable_exact [of g i False] reachable_exact [of g j True]
  by (simp add: descendants_def ancestors_def edge_rel_mirrored [OF assms] trancl_converse)

text \<open>Descendants are the converse of ancestors. In a graph base to which every concept was
  added once, a concept is among the descendants of another if and only if the other is among its
  ancestors, the base answers that it is a kind of the other in just these cases (and for a
  concept itself), and neither search lists a concept twice.\<close>

theorem descendants_converse_of_ancestors:
  assumes "distinct (map fst cs)"
  defines "g \<equiv> add_all cs graph_kb_new"
  shows "(j \<in> set (descendants g i) \<longleftrightarrow> i \<in> set (ancestors g j))
    \<and> kb_is_a (graph_base g) (uci_ucl j) (uci_ucl i) =
        Inr (hm_contains (gk_nodes g) i \<and> hm_contains (gk_nodes g) j
             \<and> (i = j \<or> j \<in> set (descendants g i)))
    \<and> distinct (descendants g i) \<and> distinct (ancestors g j)"
proof -
  have "mirrored g" unfolding g_def
    by (rule mirrored_add_all [OF mirrored_new assms(1)]) (simp add: graph_kb_new_def hm_contains_def)
  moreover have "distinct (descendants g i)" "distinct (ancestors g j)"
    using reachable_exact by (simp_all add: descendants_def ancestors_def)
  moreover have "kb_is_a (graph_base g) (uci_ucl j) (uci_ucl i) =
      Inr (hm_contains (gk_nodes g) i \<and> hm_contains (gk_nodes g) j \<and> (i = j \<or> i \<in> set (ancestors g j)))"
    by (auto simp: graph_base_def graph_id_of_def known_id_def uci_ucl_def)
  ultimately show ?thesis by (simp add: descendants_iff_ancestors)
qed

definition example_features :: concept_features where
  "example_features = \<lparr>cf_category = Nominal, cf_abstract = False, cf_gloss = None\<rparr>"

lemma descendants_converse_of_ancestors_witness:
  "distinct (descendants (add_all
     [(2, example_features, [], []), (1, example_features, [(TagIcl, 2)], [])] graph_kb_new) 2)"
  using descendants_converse_of_ancestors
    [of "[(2, example_features, [], []), (1, example_features, [(TagIcl, 2)], [])]" 1 2] by simp

text \<open>
  Adding a concept again replaces its outgoing edges but leaves the incoming edges of its former
  parents: the two directions disagree afterwards.
\<close>

lemma readded_concept_keeps_old_edges:
  "let g = add_all [(1, f, [(TagIcl, 2)], []), (1, f, [], [])] graph_kb_new
   in 1 \<in> set (descendants g 2) \<and> 2 \<notin> set (ancestors g 1)"
proof -
  let ?g = "add_all [(1, f, [(TagIcl, 2)], []), (1, f, [], [])] graph_kb_new"
  have up: "graph_edges ?g True i = []" for i
    by (simp add: graph_edges_def add_concept_def graph_kb_new_def hm_insert_def)
  have "graph_edges ?g False 2 = [(TagIcl, 1)]"
    by (simp add: graph_edges_def add_concept_def graph_kb_new_def hm_push_def hm_insert_def)
  then have "(2, 1) \<in> edge_rel (graph_edges ?g False)" by (simp add: edge_rel_def hierarchical_def)
  then have "1 \<in> set (descendants ?g 2)" by (simp add: descendants_def reachable_exact r_into_trancl)
  moreover have "edge_rel (graph_edges ?g True) = {}" using up by (simp add: edge_rel_def)
  then have "set (ancestors ?g 1) = {}" by (simp add: ancestors_def reachable_exact)
  ultimately show ?thesis by (simp add: Let_def)
qed

end
