(* ===== verification/Unl_Paths.thy ===== *)
theory Unl_Paths
  imports Unl_Graph_Kb
begin

text \<open>
  \<open>GraphKb::path\<close> of \<^verbatim>\<open>crates/unl-kb/src/graph_kb.rs\<close>: the search for a path upward in the
  hierarchy of concepts. The loop that follows the predecessors back is a partial function: it
  ends because the search builds a tree, and the path it collects is a shortest one.
\<close>

section \<open>The search\<close>

type_synonym search_state = "(u64, u64) hashmap \<times> u64 list \<times> u64 list"

text \<open>One concept's edges: \<open>Inl\<close> with the predecessors if the goal is found, else the new state.\<close>

fun path_edges ::
    "u64 \<Rightarrow> u64 \<Rightarrow> (relation_tag \<times> u64) list \<Rightarrow> search_state \<Rightarrow> (u64, u64) hashmap + search_state" where
  "path_edges goal cur [] s = Inr s"
| "path_edges goal cur ((t, p) # es) (prev, seen, queue) =
     (if \<not> hierarchical t \<or> p \<in> set seen then path_edges goal cur es (prev, seen, queue)
      else if p = goal then Inl (hm_insert p cur prev)
      else path_edges goal cur es (hm_insert p cur prev, p # seen, queue @ [p]))"

lemma path_edges_card:
  "path_edges goal cur es (prev, seen, queue) = Inr (prev', seen', queue')
    \<Longrightarrow> card (UNIV - set seen') + length queue' = card (UNIV - set seen) + length queue"
proof (induction goal cur es "(prev, seen, queue)" arbitrary: prev seen queue rule: path_edges.induct)
  case (2 goal cur t p es prev seen queue)
  then show ?case using card_unseen [of p seen] by (auto split: if_splits)
qed simp

function path_loop ::
    "(u64 \<Rightarrow> (relation_tag \<times> u64) list) \<Rightarrow> u64 \<Rightarrow> search_state \<Rightarrow> (u64, u64) hashmap option" where
  "path_loop edges goal (prev, seen, []) = None"
| "path_loop edges goal (prev, seen, cur # queue) =
     (case path_edges goal cur (edges cur) (prev, seen, queue) of
        Inl found \<Rightarrow> Some found
      | Inr s \<Rightarrow> path_loop edges goal s)"
  by pat_completeness auto
termination
proof (relation "measure (\<lambda>(_, _, prev, seen, queue). card (UNIV - set seen) + length queue)")
  fix edges :: "u64 \<Rightarrow> (relation_tag \<times> u64) list" and goal cur :: u64 and prev seen queue s
  assume s: "path_edges goal cur (edges cur) (prev, seen, queue) = Inr s"
  obtain prev' seen' queue' where [simp]: "s = (prev', seen', queue')" by (metis surj_pair)
  show "((edges, goal, s), edges, goal, prev, seen, cur # queue)
      \<in> measure (\<lambda>(_, _, prev, seen, queue). card (UNIV - set seen) + length queue)"
    using path_edges_card [of goal cur "edges cur" prev seen queue prev' seen' queue'] s by simp
qed simp

partial_function (option) path_back :: "(u64, u64) hashmap \<Rightarrow> u64 \<Rightarrow> u64 list \<Rightarrow> u64 list option" where
  "path_back prev step path =
     (case hm_get prev step of
        None \<Rightarrow> Some (rev path)
      | Some p \<Rightarrow> path_back prev p (path @ [p]))"

text \<open>The outer option is the end of the last loop, the inner one the answer.\<close>

definition path_between :: "graph_kb \<Rightarrow> u64 \<Rightarrow> u64 \<Rightarrow> u64 list option option" where
  "path_between g start goal =
     (if start = goal then Some (Some [start])
      else (case path_loop (graph_edges g True) goal ([], [start], [start]) of
              None \<Rightarrow> Some None
            | Some prev \<Rightarrow> map_option Some (path_back prev goal [goal])))"

section \<open>Distances\<close>

definition distance :: "(u64 \<times> u64) set \<Rightarrow> u64 \<Rightarrow> u64 \<Rightarrow> nat" where
  "distance E a x = (LEAST n. (a, x) \<in> E ^^ n)"

lemma distance_relpow: "(a, x) \<in> E\<^sup>* \<Longrightarrow> (a, x) \<in> E ^^ distance E a x"
  unfolding distance_def by (rule LeastI_ex) (simp add: rtrancl_imp_relpow)

lemma distance_le: "(a, x) \<in> E ^^ n \<Longrightarrow> distance E a x \<le> n"
  unfolding distance_def by (rule Least_le)

lemma distance_start [simp]: "distance E a a = 0"
  using distance_le [of a a 0 E] by simp

lemma distance_step:
  assumes "(a, p) \<in> E\<^sup>*" and "(p, x) \<in> E"
  shows "distance E a x \<le> Suc (distance E a p)"
  using relpow_Suc_I [OF distance_relpow [OF assms(1)] assms(2)] by (rule distance_le)

lemma distance_pred:
  assumes "(a, x) \<in> E\<^sup>*" and "distance E a x = Suc n"
  obtains y where "(a, y) \<in> E\<^sup>*" and "(y, x) \<in> E" and "distance E a y = n"
proof -
  from distance_relpow [OF assms(1)] assms(2) obtain y where y: "(a, y) \<in> E ^^ n" "(y, x) \<in> E"
    by (auto elim: relpow_Suc_E)
  then have star: "(a, y) \<in> E\<^sup>*" by (blast intro: relpow_imp_rtrancl)
  with distance_le [OF y(1)] distance_step [OF star y(2)] assms(2) have "distance E a y = n" by simp
  with that star y(2) show thesis by blast
qed

section \<open>One concept's edges\<close>

lemma path_edges_Inr:
  assumes "path_edges goal cur es (prev, seen, queue) = Inr (prev', seen', queue')" and "goal \<notin> set seen"
  defines "new \<equiv> {j. \<exists>t. hierarchical t \<and> (t, j) \<in> set es} - set seen"
  shows "\<exists>ns. queue' = queue @ ns \<and> set ns = new \<and> set seen' = set seen \<union> new \<and> goal \<notin> new
    \<and> (\<forall>x. hm_get prev' x = (if x \<in> new then Some cur else hm_get prev x))"
  using assms(1,2) unfolding new_def
proof (induction goal cur es "(prev, seen, queue)" arbitrary: prev seen queue rule: path_edges.induct)
  case (2 goal cur t p es prev seen queue)
  show ?case
  proof (cases "\<not> hierarchical t \<or> p \<in> set seen")
    case True
    with 2 show ?thesis by (auto 0 3)
  next
    case False
    with 2(3) have "p \<noteq> goal" by auto
    with False 2(2-4) obtain ns where "queue' = (queue @ [p]) @ ns"
      "set ns = {j. \<exists>t. hierarchical t \<and> (t, j) \<in> set es} - set (p # seen)"
      "set seen' = set (p # seen) \<union> ({j. \<exists>t. hierarchical t \<and> (t, j) \<in> set es} - set (p # seen))"
      "goal \<notin> {j. \<exists>t. hierarchical t \<and> (t, j) \<in> set es} - set (p # seen)"
      "\<forall>x. hm_get prev' x = (if x \<in> {j. \<exists>t. hierarchical t \<and> (t, j) \<in> set es} - set (p # seen)
            then Some cur else hm_get (hm_insert p cur prev) x)"
      by auto
    with False \<open>p \<noteq> goal\<close> show ?thesis by (intro exI [of _ "p # ns"]) (auto simp: hashmap_simps)
  qed
qed simp

definition followed :: "(relation_tag \<times> u64) list \<Rightarrow> u64 \<Rightarrow> bool" where
  "followed es x \<longleftrightarrow> (\<exists>t. hierarchical t \<and> (t, x) \<in> set es)"

lemma followed_Cons [simp]: "followed ((t, p) # es) x \<longleftrightarrow> hierarchical t \<and> x = p \<or> followed es x"
  by (auto simp: followed_def)

lemma path_edges_Inl:
  assumes "path_edges goal cur es (prev, seen, queue) = Inl found" and "goal \<notin> set seen"
  shows "followed es goal \<and> hm_get found goal = Some cur
    \<and> (\<forall>x p. hm_get found x = Some p \<longrightarrow> hm_get prev x = Some p \<or> p = cur \<and> x \<notin> set seen \<and> followed es x)
    \<and> (\<forall>x. hm_get prev x \<noteq> None \<longrightarrow> hm_get found x \<noteq> None)"
  using assms
proof (induction goal cur es "(prev, seen, queue)" arbitrary: prev seen queue rule: path_edges.induct)
  case (2 goal cur t p es prev seen queue)
  show ?case
  proof (cases "\<not> hierarchical t \<or> p \<in> set seen")
    case True
    with 2(3) have "path_edges goal cur es (prev, seen, queue) = Inl found" by simp
    from 2(1) [OF True this 2(4)] show ?thesis by auto
  next
    case new: False
    show ?thesis
    proof (cases "p = goal")
      case True
      with new 2(3) have "found = hm_insert goal cur prev" by simp
      with new True show ?thesis by (auto simp: hashmap_simps)
    next
      case False
      with new 2(3) have "path_edges goal cur es (hm_insert p cur prev, p # seen, queue @ [p]) = Inl found" by simp
      from 2(2) [OF new False this] False 2(4)
      have IH: "followed es goal" "hm_get found goal = Some cur"
        "\<And>x q. hm_get found x = Some q \<Longrightarrow>
           hm_get (hm_insert p cur prev) x = Some q \<or> q = cur \<and> x \<notin> set (p # seen) \<and> followed es x"
        "\<And>x. hm_get (hm_insert p cur prev) x \<noteq> None \<Longrightarrow> hm_get found x \<noteq> None"
        by simp_all
      have "hm_get prev x = Some q \<or> q = cur \<and> x \<notin> set seen \<and> followed ((t, p) # es) x"
        if "hm_get found x = Some q" for x q
        using IH(3) [OF that] new by (cases "x = p") (auto simp: hashmap_simps)
      moreover have "hm_get found x \<noteq> None" if "hm_get prev x \<noteq> None" for x
        using IH(4) [of x] that by (cases "x = p") (auto simp: hashmap_simps)
      ultimately show ?thesis using IH(1,2) by simp
    qed
  qed
qed simp

section \<open>Following the predecessors\<close>

text \<open>A tree of predecessors towards \<open>a\<close>, along which the distance decreases.\<close>

definition predecessor_tree :: "(u64 \<times> u64) set \<Rightarrow> u64 \<Rightarrow> (u64, u64) hashmap \<Rightarrow> bool" where
  "predecessor_tree E a prev \<longleftrightarrow> hm_get prev a = None
     \<and> (\<forall>x p. hm_get prev x = Some p \<longrightarrow>
          (p, x) \<in> E \<and> distance E a x = Suc (distance E a p) \<and> (p = a \<or> hm_get prev p \<noteq> None))"

definition edge_chain :: "(u64 \<times> u64) set \<Rightarrow> u64 list \<Rightarrow> bool" where
  "edge_chain E xs \<longleftrightarrow> successively (\<lambda>x y. (x, y) \<in> E) xs"

lemma path_back_tree:
  assumes "predecessor_tree E a prev" and "x = a \<or> hm_get prev x \<noteq> None"
  shows "\<exists>ys. path_back prev x path = Some (rev (path @ ys)) \<and> length ys = distance E a x
    \<and> edge_chain E (rev ys @ [x]) \<and> hd (rev ys @ [x]) = a"
  using assms(2)
proof (induction "distance E a x" arbitrary: x path rule: less_induct)
  case less
  show ?case
  proof (cases "hm_get prev x")
    case None
    with less.prems have "x = a" by simp
    with None show ?thesis by (subst path_back.simps) (simp add: edge_chain_def)
  next
    case (Some p)
    with assms(1) have p: "(p, x) \<in> E" "distance E a x = Suc (distance E a p)" "p = a \<or> hm_get prev p \<noteq> None"
      by (auto simp: predecessor_tree_def)
    from less.hyps [of p "path @ [p]"] p obtain ys where
      "path_back prev p (path @ [p]) = Some (rev ((path @ [p]) @ ys))" "length ys = distance E a p"
      "edge_chain E (rev ys @ [p])" "hd (rev ys @ [p]) = a"
      by auto
    with p Some show ?thesis
      by (intro exI [of _ "p # ys"], subst path_back.simps)
        (auto simp: edge_chain_def successively_append_iff hd_append)
  qed
qed

section \<open>The invariant\<close>

definition search_inv :: "(u64 \<times> u64) set \<Rightarrow> u64 \<Rightarrow> u64 \<Rightarrow> search_state \<Rightarrow> bool" where
  "search_inv E a goal s \<longleftrightarrow> (case s of (prev, seen, queue) \<Rightarrow>
     predecessor_tree E a prev \<and> a \<in> set seen \<and> goal \<notin> set seen
     \<and> (\<forall>x\<in>set seen. (a, x) \<in> E\<^sup>* \<and> (x = a \<or> hm_get prev x \<noteq> None))
     \<and> (\<forall>x p. hm_get prev x = Some p \<longrightarrow> x \<in> set seen)
     \<and> set queue \<subseteq> set seen \<and> sorted (map (distance E a) queue)
     \<and> (\<forall>x\<in>set queue. distance E a x \<le> Suc (distance E a (hd queue)))
     \<and> (\<forall>x y. x \<in> set seen - set queue \<longrightarrow> (x, y) \<in> E \<longrightarrow> y \<in> set seen)
     \<and> (\<forall>x. queue \<noteq> [] \<longrightarrow> (a, x) \<in> E\<^sup>* \<longrightarrow> distance E a x \<le> distance E a (hd queue) \<longrightarrow> x \<in> set seen))"

lemma edge_rel_followed: "(x, y) \<in> edge_rel edges \<longleftrightarrow> followed (edges x) y"
  by (simp add: edge_rel_def followed_def)

lemma sorted_map_same: "(\<And>x. x \<in> set xs \<Longrightarrow> f x = (k::nat)) \<Longrightarrow> sorted (map f xs)"
  by (induction xs) auto

text \<open>What the invariant says at the concept that is expanded next.\<close>

lemma search_inv_head:
  assumes "search_inv E a goal (prev, seen, cur # queue)"
  shows "predecessor_tree E a prev" "a \<in> set seen" "goal \<notin> set seen" "cur \<in> set seen" "set queue \<subseteq> set seen"
    "\<And>x. x \<in> set seen \<Longrightarrow> (a, x) \<in> E\<^sup>*" "\<And>x. x \<in> set seen \<Longrightarrow> x = a \<or> hm_get prev x \<noteq> None"
    "\<And>x p. hm_get prev x = Some p \<Longrightarrow> x \<in> set seen" "sorted (map (distance E a) queue)"
    "\<And>x. x \<in> set queue \<Longrightarrow> distance E a cur \<le> distance E a x \<and> distance E a x \<le> Suc (distance E a cur)"
    "\<And>x y. x \<in> set seen - set (cur # queue) \<Longrightarrow> (x, y) \<in> E \<Longrightarrow> y \<in> set seen"
    "\<And>x. (a, x) \<in> E\<^sup>* \<Longrightarrow> distance E a x \<le> distance E a cur \<Longrightarrow> x \<in> set seen"
proof -
  note i = assms [unfolded search_inv_def prod.case list.sel]
  show "predecessor_tree E a prev" "a \<in> set seen" "goal \<notin> set seen" using i by blast+
  show "cur \<in> set seen" "set queue \<subseteq> set seen" "sorted (map (distance E a) queue)" using i by simp_all
  show "x \<in> set seen \<Longrightarrow> (a, x) \<in> E\<^sup>*" "x \<in> set seen \<Longrightarrow> x = a \<or> hm_get prev x \<noteq> None"
    "hm_get prev x = Some p \<Longrightarrow> x \<in> set seen" for x p
    using i by blast+
  show "x \<in> set queue \<Longrightarrow> distance E a cur \<le> distance E a x \<and> distance E a x \<le> Suc (distance E a cur)" for x
    using i by simp
  show "x \<in> set seen - set (cur # queue) \<Longrightarrow> (x, y) \<in> E \<Longrightarrow> y \<in> set seen" for x y
    using i by blast
  show "(a, x) \<in> E\<^sup>* \<Longrightarrow> distance E a x \<le> distance E a cur \<Longrightarrow> x \<in> set seen" for x
    using i by blast
qed

text \<open>A new concept is one step further than the concept it was found from.\<close>

lemma new_distance:
  assumes "search_inv E a goal (prev, seen, cur # queue)" and "(cur, x) \<in> E" and "x \<notin> set seen"
  shows "(a, x) \<in> E\<^sup>*" and "distance E a x = Suc (distance E a cur)"
proof -
  note inv = search_inv_head [OF assms(1)]
  have cur: "(a, cur) \<in> E\<^sup>*" using inv(4,6) by blast
  then show star: "(a, x) \<in> E\<^sup>*" using assms(2) by (rule rtrancl_into_rtrancl)
  have "\<not> distance E a x \<le> distance E a cur" using inv(12) [OF star] assms(3) by blast
  with distance_step [OF cur assms(2)] show "distance E a x = Suc (distance E a cur)" by simp
qed

lemma search_found:
  assumes inv: "search_inv (edge_rel edges) a goal (prev, seen, cur # queue)"
    and e: "path_edges goal cur (edges cur) (prev, seen, queue) = Inl found"
  shows "predecessor_tree (edge_rel edges) a found \<and> hm_get found goal \<noteq> None"
proof -
  let ?E = "edge_rel edges"
  note h = search_inv_head [OF inv]
  from path_edges_Inl [OF e h(3)]
  have f: "hm_get found goal = Some cur"
    "\<And>x p. hm_get found x = Some p \<Longrightarrow> hm_get prev x = Some p \<or> p = cur \<and> x \<notin> set seen \<and> followed (edges cur) x"
    "\<And>x. hm_get prev x \<noteq> None \<Longrightarrow> hm_get found x \<noteq> None"
    by blast+
  have tree: "hm_get prev a = None"
    "\<And>x p. hm_get prev x = Some p \<Longrightarrow> (p, x) \<in> ?E \<and> distance ?E a x = Suc (distance ?E a p) \<and> (p = a \<or> hm_get prev p \<noteq> None)"
    using h(1) by (auto simp: predecessor_tree_def)
  have "hm_get found a = None"
    using f(2) [of a] tree(1) h(2) by (cases "hm_get found a") auto
  moreover have "(p, x) \<in> ?E \<and> distance ?E a x = Suc (distance ?E a p) \<and> (p = a \<or> hm_get found p \<noteq> None)"
    if "hm_get found x = Some p" for x p
  proof (cases "hm_get prev x = Some p")
    case True
    from tree(2) [OF this] f(3) [of p] show ?thesis by blast
  next
    case False
    with f(2) [OF that] have new: "p = cur" "x \<notin> set seen" "(cur, x) \<in> ?E" by (auto simp: edge_rel_followed)
    from new_distance(2) [OF inv new(3,2)] new f(3) [of cur] h(7) [OF h(4)] show ?thesis by blast
  qed
  ultimately show ?thesis using f(1) by (simp add: predecessor_tree_def)
qed

lemma search_step:
  assumes inv: "search_inv (edge_rel edges) a goal (prev, seen, cur # queue)"
    and e: "path_edges goal cur (edges cur) (prev, seen, queue) = Inr s"
  shows "search_inv (edge_rel edges) a goal s"
proof -
  let ?E = "edge_rel edges"
  let ?d = "distance ?E a"
  note h = search_inv_head [OF inv]
  obtain prev' seen' queue' where s: "s = (prev', seen', queue')" by (metis surj_pair)
  define new where "new = {j. (cur, j) \<in> ?E} - set seen"
  from path_edges_Inr [OF e [unfolded s] h(3)] obtain ns where
    q: "queue' = queue @ ns" "set ns = new" "set seen' = set seen \<union> new" "goal \<notin> new"
    and p: "\<And>x. hm_get prev' x = (if x \<in> new then Some cur else hm_get prev x)"
    unfolding new_def edge_rel_def by auto
  have d: "(a, x) \<in> ?E\<^sup>*" "?d x = Suc (?d cur)" if "x \<in> new" for x
    using new_distance [OF inv] that by (simp_all add: new_def)
  have prev_seen: "x \<in> set seen" if "hm_get prev x \<noteq> None" for x using h(8) that by blast
  have tree: "predecessor_tree ?E a prev'"
    unfolding predecessor_tree_def
  proof (intro conjI allI impI)
    show "hm_get prev' a = None" using h(1,2) p [of a] by (simp add: new_def predecessor_tree_def)
    fix x y assume xy: "hm_get prev' x = Some y"
    have "(y, x) \<in> ?E \<and> ?d x = Suc (?d y) \<and> (y = a \<or> hm_get prev' y \<noteq> None)"
    proof (cases "x \<in> new")
      case True
      with xy p have "y = cur" by simp
      with True d [OF True] h(4) h(7) [OF h(4)] p [of cur] show ?thesis by (auto simp: new_def)
    next
      case False
      with xy p have "hm_get prev x = Some y" by simp
      with h(1) p [of y] show ?thesis by (auto simp: predecessor_tree_def)
    qed
    then show "(y, x) \<in> ?E" "?d x = Suc (?d y)" "y = a \<or> hm_get prev' y \<noteq> None" by blast+
  qed
  have sort: "sorted (map ?d queue')"
    using h(9,10) d q(1,2) by (auto simp: sorted_append intro: sorted_map_same)
  have succ: "y \<in> set seen'" if "x \<in> set seen' - set queue'" "(x, y) \<in> ?E" for x y
  proof (cases "x = cur")
    case True
    with that q show ?thesis by (auto simp: new_def)
  next
    case False
    with that q h(11) [of x y] show ?thesis by auto
  qed
  have near: "?d cur \<le> ?d x \<and> ?d x \<le> Suc (?d cur)" if "x \<in> set queue'" for x
    using that q d h(10) by auto
  have close: "x \<in> set seen'" if ne: "queue' \<noteq> []" and x: "(a, x) \<in> ?E\<^sup>*" "?d x \<le> ?d (hd queue')" for x
  proof (cases "?d x \<le> ?d cur")
    case True
    with h(12) [OF x(1)] q show ?thesis by simp
  next
    case False
    with near [of "hd queue'"] ne x(2) have dx: "?d x = Suc (?d cur)" "?d (hd queue') = Suc (?d cur)" by auto
    from distance_pred [OF x(1) dx(1)] obtain y where y: "(a, y) \<in> ?E\<^sup>*" "(y, x) \<in> ?E" "?d y = ?d cur"
      by blast
    have "y \<in> set seen'" using h(12) [OF y(1)] y(3) q by simp
    moreover have "y \<notin> set queue'"
    proof
      assume "y \<in> set queue'"
      with sort have "?d (hd queue') \<le> ?d y" by (cases queue') auto
      with y(3) dx(2) show False by simp
    qed
    ultimately show ?thesis using succ [of y x] y(2) by simp
  qed
  have narrow: "?d x \<le> Suc (?d (hd queue'))" if "x \<in> set queue'" for x
  proof -
    have "hd queue' \<in> set queue'" using that by (cases queue') auto
    from near [OF this] near [OF that] show ?thesis by simp
  qed
  have reached: "(a, x) \<in> ?E\<^sup>* \<and> (x = a \<or> hm_get prev' x \<noteq> None)" if "x \<in> set seen'" for x
  proof (cases "x \<in> new")
    case True
    with d p show ?thesis by simp
  next
    case False
    with that q have "x \<in> set seen" by simp
    with False h(6,7) p show ?thesis by simp
  qed
  have known: "x \<in> set seen'" if "hm_get prev' x = Some y" for x y
    using that p [of x] q(3) prev_seen [of x] by (auto split: if_splits)
  have sets: "set queue' \<subseteq> set seen'" "a \<in> set seen'" "goal \<notin> set seen'" using h(2,3,5) q by auto
  show ?thesis
    unfolding search_inv_def s prod.case
    by (intro conjI ballI allI impI tree sort sets)
      (simp_all only: reached, (rule known succ close narrow; assumption)+)
qed

lemma search_exhausted:
  assumes "search_inv E a goal (prev, seen, [])"
  shows "(a, goal) \<notin> E\<^sup>*"
proof
  assume "(a, goal) \<in> E\<^sup>*"
  then have "goal \<in> set seen"
    by (induction rule: rtrancl_induct) (use assms in \<open>auto simp: search_inv_def\<close>)
  with assms show False by (simp add: search_inv_def)
qed

lemma path_loop_exact:
  assumes "search_inv (edge_rel edges) a goal s"
  shows "case path_loop edges goal s of
      None \<Rightarrow> (a, goal) \<notin> (edge_rel edges)\<^sup>*
    | Some prev \<Rightarrow> predecessor_tree (edge_rel edges) a prev \<and> hm_get prev goal \<noteq> None"
  using assms
proof (induction edges goal s rule: path_loop.induct)
  case (1 edges goal prev seen)
  from search_exhausted [OF this] show ?case by simp
next
  case (2 edges goal prev seen cur queue)
  show ?case
  proof (cases "path_edges goal cur (edges cur) (prev, seen, queue)")
    case (Inl found)
    with search_found [OF 2(2) Inl] show ?thesis by simp
  next
    case (Inr s)
    with 2(1) [OF Inr search_step [OF 2(2) Inr]] show ?thesis by simp
  qed
qed

section \<open>Property\<close>

lemma search_start: "start \<noteq> goal \<Longrightarrow> search_inv E start goal ([], [start], [start])"
  using distance_relpow [of start _ E] by (force simp: search_inv_def predecessor_tree_def)

text \<open>C19: The path between two concepts is a shortest one. The search always returns: with no path
  exactly if the second concept is no ancestor of the first, and otherwise with a path that starts at
  the first concept, follows hierarchical edges, ends at the second and has no more concepts than
  any other chain of such edges between the two.\<close>

theorem path_between_shortest:
  "case path_between g start goal of
     None \<Rightarrow> False
   | Some None \<Rightarrow> start \<noteq> goal \<and> goal \<notin> set (ancestors g start)
   | Some (Some xs) \<Rightarrow> xs \<noteq> [] \<and> hd xs = start \<and> last xs = goal \<and> edge_chain (edge_rel (graph_edges g True)) xs
       \<and> length xs = Suc (LEAST n. (start, goal) \<in> edge_rel (graph_edges g True) ^^ n)"
proof (cases "start = goal")
  case True
  have "(LEAST n. (goal, goal) \<in> edge_rel (graph_edges g True) ^^ n) = 0"
    using distance_start [of "edge_rel (graph_edges g True)" goal] by (simp add: distance_def)
  with True show ?thesis by (simp add: path_between_def edge_chain_def)
next
  case False
  let ?E = "edge_rel (graph_edges g True)"
  note loop = path_loop_exact [OF search_start [OF False, of ?E]]
  show ?thesis
  proof (cases "path_loop (graph_edges g True) goal ([], [start], [start])")
    case None
    with loop have "(start, goal) \<notin> ?E\<^sup>+" by (auto dest: trancl_into_rtrancl)
    with None False show ?thesis by (simp add: path_between_def ancestors_def reachable_exact)
  next
    case (Some prev)
    with loop have "predecessor_tree ?E start prev" "hm_get prev goal \<noteq> None" by simp_all
    from path_back_tree [OF this(1), of goal "[goal]"] this(2) obtain ys where
      "path_back prev goal [goal] = Some (rev ys @ [goal])" "length ys = distance ?E start goal"
      "edge_chain ?E (rev ys @ [goal])" "hd (rev ys @ [goal]) = start"
      by auto
    with Some False show ?thesis by (simp add: path_between_def distance_def)
  qed
qed

end
