(* ===== verification/Unl_Validator.thy ===== *)
theory Unl_Validator
  imports Unl_Hierarchy
begin

text \<open>
  Validation and normalization of graphs (crate \<^verbatim>\<open>unl-validator\<close>): diagnostics
  (\<^verbatim>\<open>diagnostic.rs\<close>), the checks (\<^verbatim>\<open>checks.rs\<close>), the check against the vocabulary of an agent and
  the comparison of meanings (\<^verbatim>\<open>lib.rs\<close>), the normalizer and its rules (\<^verbatim>\<open>normalize.rs\<close>).

  The texts the compiler derives for \<open>{:?}\<close> are a parameter, a record of printers. The check for
  redundancy compares such texts.
\<close>

section \<open>Diagnostics\<close>

datatype severity = SevError | SevWarning | SevInfo

datatype diag_code =
    DanglingReference
  | IncompatibleAttributes
  | RelationTypeViolation
  | UnsaturatedProForm
  | Redundancy
  | AmbiguousEntry
  | UnknownConcept
  | OutOfVocabulary

record diagnostic =
  dg_severity :: severity
  dg_code :: diag_code
  dg_message :: string
  dg_location :: "string option"

definition diagnostic_new :: "severity \<Rightarrow> diag_code \<Rightarrow> string \<Rightarrow> diagnostic" where
  "diagnostic_new s c m = \<lparr>dg_severity = s, dg_code = c, dg_message = m, dg_location = None\<rparr>"

definition diagnostic_at :: "string option \<Rightarrow> diagnostic \<Rightarrow> diagnostic" where
  "diagnostic_at l d = d\<lparr>dg_location := l\<rparr>"

definition has_errors :: "diagnostic list \<Rightarrow> bool" where
  "has_errors ds = list_ex (\<lambda>d. dg_severity d = SevError) ds"

record printers =
  debug_uci :: "uci \<Rightarrow> string"
  debug_attrs :: "attr list \<Rightarrow> string"
  debug_relation :: "unl_relation \<Rightarrow> string"
  debug_node_id :: "string \<Rightarrow> string"

text \<open>An instance for concrete runs: it shows node ids as they are and nothing of the other values.\<close>

definition plain_printers :: printers where
  "plain_printers = \<lparr>debug_uci = (\<lambda>_. ''uci''), debug_attrs = (\<lambda>_. ''attrs''),
     debug_relation = (\<lambda>_. ''relation''), debug_node_id = (\<lambda>i. i)\<rparr>"

definition in_ticks :: "string \<Rightarrow> string" where
  "in_ticks s = CHR 0x27 # s @ [CHR 0x27]"

section \<open>The checks\<close>

fun inline_uws :: "node_ref \<Rightarrow> (uw \<times> string option) list" where
  "inline_uws (Inline w) = [(w, uw_node_id w)]"
| "inline_uws _ = []"

text \<open>Every universal word of a graph with its node, if it has one.\<close>

definition uws :: "unl_graph \<Rightarrow> (uw \<times> string option) list" where
  "uws g =
     map (\<lambda>(i, w). (w, Some i)) (ug_nodes g)
     @ concat (map (\<lambda>r. inline_uws (rl_source r) @ inline_uws (rl_target r)) (ug_relations g))"

fun ref_uci :: "unl_graph \<Rightarrow> node_ref \<Rightarrow> uci option" where
  "ref_uci g (Inline w) = Some (uw_uci w)"
| "ref_uci g (NodeRef i) = map_option uw_uci (hm_get (ug_nodes g) i)"
| "ref_uci g (ScopeRef _) = None"

definition exclusive_groups :: "attr list list" where
  "exclusive_groups =
     [map Time [AtPast, AtPresent, AtFuture],
      map Quantity [AtSingular, AtPlural, AtDual, AtTrial, AtPaucal],
      map Polarity [AtAffirmative, AtNegative],
      map Voice [AtActive, AtPassive, AtMiddle],
      map Gender [AtMale, AtFemale, AtNeuterGender],
      map Person [AtP1, AtP2, AtP3]]"

fun dangling :: "unl_graph \<Rightarrow> relation_tag \<Rightarrow> node_ref \<Rightarrow> diagnostic list" where
  "dangling g t (NodeRef i) =
     (if hm_contains (ug_nodes g) i then []
      else [diagnostic_at (Some i) (diagnostic_new SevError DanglingReference
              (''relation '' @ in_ticks (tag_as_str t) @ '' references undeclared node '' @ in_ticks i))])"
| "dangling g t _ = []"

definition exclusive_hits :: "printers \<Rightarrow> uw \<times> string option \<Rightarrow> attr list \<Rightarrow> diagnostic list" where
  "exclusive_hits pr w grp =
     (let hits = filter (\<lambda>a. a \<in> set grp) (uw_attributes (fst w)) in
      if 2 \<le> length hits
      then [diagnostic_at (snd w) (diagnostic_new SevError IncompatibleAttributes
              (''mutually-exclusive attributes on one node: '' @ debug_attrs pr hits))]
      else [])"

definition structural_integrity :: "printers \<Rightarrow> unl_graph \<Rightarrow> diagnostic list" where
  "structural_integrity pr g =
     concat (map (\<lambda>r. dangling g (rl_tag r) (rl_source r) @ dangling g (rl_tag r) (rl_target r)) (ug_relations g))
     @ concat (map (\<lambda>w. concat (map (exclusive_hits pr w) exclusive_groups)) (uws g))"

definition names_concept :: "uci \<Rightarrow> bool" where
  "names_concept u = (case u of Ucl _ _ \<Rightarrow> True | Ucn _ _ _ \<Rightarrow> True | _ \<Rightarrow> False)"

definition concept_resolution :: "printers \<Rightarrow> unl_graph \<Rightarrow> knowledge_base \<Rightarrow> diagnostic list" where
  "concept_resolution pr g kb =
     concat (map (\<lambda>(w, l).
       if names_concept (uw_uci w) \<and> kb_resolve kb (uw_uci w) = Inr None
       then [diagnostic_at l (diagnostic_new SevWarning UnknownConcept
               (''concept does not resolve in the KB: '' @ debug_uci pr (uw_uci w)))]
       else []) (uws g))"

definition resolved :: "knowledge_base \<Rightarrow> uci \<Rightarrow> bool" where
  "resolved kb u = (case kb_resolve kb u of Inr (Some _) \<Rightarrow> True | _ \<Rightarrow> False)"

definition relation_legality :: "printers \<Rightarrow> unl_graph \<Rightarrow> knowledge_base \<Rightarrow> diagnostic list" where
  "relation_legality pr g kb =
     concat (map (\<lambda>r.
       if rl_tag r = TagIcl \<or> rl_tag r = TagIof then
         (case (ref_uci g (rl_source r), ref_uci g (rl_target r)) of
            (Some u, Some v) \<Rightarrow>
              if (resolved kb u \<and> resolved kb v) \<and> kb_is_a kb u v = Inr False
              then [diagnostic_new SevWarning RelationTypeViolation
                      (in_ticks (tag_as_str (rl_tag r)) @ '' asserts '' @ debug_uci pr u @ '' is a kind of ''
                       @ debug_uci pr v @ '', which the KB ontology disproves'')]
              else []
          | _ \<Rightarrow> [])
       else []) (ug_relations g))"

definition completeness :: "unl_graph \<Rightarrow> diagnostic list" where
  "completeness g =
     concat (map (\<lambda>(w, l).
       if uw_uci w = NullUw
       then [diagnostic_at l (diagnostic_new SevWarning UnsaturatedProForm ''unresolved pro-form (00)'')]
       else []) (uws g))"

fun repeated_relations :: "printers \<Rightarrow> string list \<Rightarrow> unl_relation list \<Rightarrow> diagnostic list" where
  "repeated_relations pr seen [] = []"
| "repeated_relations pr seen (r # rs) =
     (if debug_relation pr r \<in> set seen
      then diagnostic_new SevInfo Redundancy (''duplicate relation arc: '' @ in_ticks (tag_as_str (rl_tag r)))
           # repeated_relations pr seen rs
      else repeated_relations pr (debug_relation pr r # seen) rs)"

definition non_redundancy :: "printers \<Rightarrow> unl_graph \<Rightarrow> diagnostic list" where
  "non_redundancy pr g = repeated_relations pr [] (ug_relations g)"

definition out_of_vocabulary :: "string \<Rightarrow> diagnostic" where
  "out_of_vocabulary m = diagnostic_new SevError OutOfVocabulary m"

definition relation_word :: "vocabulary \<Rightarrow> unl_relation \<Rightarrow> diagnostic list" where
  "relation_word v r =
     (if allows_relation v (rl_tag r) then []
      else [out_of_vocabulary (''relation '' @ in_ticks (tag_as_str (rl_tag r))
              @ '' is not in the agent'' @ [CHR 0x27] @ ''s vocabulary'')])"

definition concept_word :: "printers \<Rightarrow> vocabulary \<Rightarrow> uw \<times> string option \<Rightarrow> diagnostic list" where
  "concept_word pr v w =
     (if names_concept (uw_uci (fst w)) \<and> \<not> vocab_knows v (uw_uci (fst w))
      then [diagnostic_at (snd w) (out_of_vocabulary (''concept not in the agent'' @ [CHR 0x27]
              @ ''s vocabulary: '' @ debug_uci pr (uw_uci (fst w))))]
      else [])"

definition attribute_word :: "vocabulary \<Rightarrow> string option \<Rightarrow> attr \<Rightarrow> diagnostic list" where
  "attribute_word v l a =
     (if allows_attribute v a then []
      else [diagnostic_at l (out_of_vocabulary (''attribute '' @ in_ticks (CHR ''@'' # as_label a)
              @ '' is not in the agent'' @ [CHR 0x27] @ ''s vocabulary''))])"

definition vocabulary_check :: "printers \<Rightarrow> unl_graph \<Rightarrow> vocabulary \<Rightarrow> diagnostic list" where
  "vocabulary_check pr g v =
     concat (map (relation_word v) (ug_relations g))
     @ concat (map (\<lambda>w. concept_word pr v w
         @ concat (map (attribute_word v (snd w)) (uw_attributes (fst w)))) (uws g))"

fun ref_node :: "node_ref \<Rightarrow> string option" where
  "ref_node (NodeRef i) = Some i"
| "ref_node _ = None"

definition candidate_heads :: "unl_graph \<Rightarrow> string list" where
  "candidate_heads g =
     (let targets = List.map_filter (\<lambda>r. ref_node (rl_target r)) (ug_relations g)
      in filter (\<lambda>i. i \<notin> set targets) (map fst (ug_nodes g)))"

definition non_ambiguity :: "unl_graph \<Rightarrow> diagnostic list" where
  "non_ambiguity g =
     (if ug_nodes g = [] \<or> ug_entry g \<noteq> None then []
      else if length (candidate_heads g) \<noteq> 1 then
        [diagnostic_new SevWarning AmbiguousEntry
           (''no @entry and '' @ nat_to_string (length (candidate_heads g)) @ '' candidate head nodes'')]
      else [])"

definition validate :: "printers \<Rightarrow> unl_graph \<Rightarrow> knowledge_base \<Rightarrow> diagnostic list" where
  "validate pr g kb =
     structural_integrity pr g @ concept_resolution pr g kb @ relation_legality pr g kb
     @ completeness g @ non_redundancy pr g @ non_ambiguity g"

definition verify_vocabulary :: "printers \<Rightarrow> unl_graph \<Rightarrow> vocabulary \<Rightarrow> diagnostic list + unit" where
  "verify_vocabulary pr g v =
     (let ds = filter (\<lambda>d. dg_severity d = SevError) (structural_integrity pr g @ vocabulary_check pr g v)
      in if ds = [] then Inr () else Inl ds)"

section \<open>Normalization\<close>

fun map_ref :: "(uw \<Rightarrow> uw) \<Rightarrow> node_ref \<Rightarrow> node_ref" where
  "map_ref f (Inline w) = Inline (f w)"
| "map_ref f x = x"

definition for_each_uw :: "(uw \<Rightarrow> uw) \<Rightarrow> unl_graph \<Rightarrow> unl_graph" where
  "for_each_uw f g =
     g\<lparr>ug_nodes := map (\<lambda>(i, w). (i, f w)) (ug_nodes g),
       ug_relations := map (\<lambda>r. r\<lparr>rl_source := map_ref f (rl_source r), rl_target := map_ref f (rl_target r)\<rparr>)
         (ug_relations g)\<rparr>"

record norm_rule =
  nr_id :: string
  nr_apply :: "unl_graph \<Rightarrow> knowledge_base \<Rightarrow> unl_graph"

definition collapse_voice :: "uw \<Rightarrow> uw" where
  "collapse_voice w = w\<lparr>uw_attributes := filter (\<lambda>a. \<not> (a = Voice AtActive \<or> a = Voice AtPassive)) (uw_attributes w)\<rparr>"

definition voice_collapse :: norm_rule where
  "voice_collapse = \<lparr>nr_id = ''voice-collapse'', nr_apply = (\<lambda>g _. for_each_uw collapse_voice g)\<rparr>"

definition collapse_synonym :: "knowledge_base \<Rightarrow> uw \<Rightarrow> uw" where
  "collapse_synonym kb w =
     (case kb_resolve kb (uw_uci w) of Inr (Some c) \<Rightarrow> w\<lparr>uw_uci := c\<rparr> | _ \<Rightarrow> w)"

definition synonym_collapse :: norm_rule where
  "synonym_collapse =
     \<lparr>nr_id = ''synonym-collapse'', nr_apply = (\<lambda>g kb. for_each_uw (collapse_synonym kb) g)\<rparr>"

definition proform_resolve :: norm_rule where
  "proform_resolve = \<lparr>nr_id = ''proform-resolve'', nr_apply = (\<lambda>g _. g)\<rparr>"

record normalizer =
  nz_rules :: "norm_rule list"
  nz_max_iterations :: nat

definition rev1 :: normalizer where
  "rev1 = \<lparr>nz_rules = [voice_collapse, synonym_collapse, proform_resolve], nz_max_iterations = 16\<rparr>"

definition with_rules :: "norm_rule list \<Rightarrow> normalizer" where
  "with_rules rs = \<lparr>nz_rules = rs, nz_max_iterations = 16\<rparr>"

definition register_rule :: "norm_rule \<Rightarrow> normalizer \<Rightarrow> normalizer" where
  "register_rule r nz = nz\<lparr>nz_rules := nz_rules nz @ [r]\<rparr>"

definition rule_ids :: "normalizer \<Rightarrow> string list" where
  "rule_ids nz = map nr_id (nz_rules nz)"

definition apply_rules :: "norm_rule list \<Rightarrow> knowledge_base \<Rightarrow> unl_graph \<Rightarrow> unl_graph" where
  "apply_rules rs kb g = fold (\<lambda>r g. nr_apply r g kb) rs g"

primrec normalize_loop :: "nat \<Rightarrow> norm_rule list \<Rightarrow> knowledge_base \<Rightarrow> unl_graph \<Rightarrow> unl_graph" where
  "normalize_loop 0 rs kb g = g"
| "normalize_loop (Suc n) rs kb g =
     (let g' = apply_rules rs kb g in if graph_eq g' g then g' else normalize_loop n rs kb g')"

definition normalize :: "normalizer \<Rightarrow> knowledge_base \<Rightarrow> unl_graph \<Rightarrow> unl_graph" where
  "normalize nz kb g = normalize_loop (nz_max_iterations nz) (nz_rules nz) kb g"

definition unl_equivalent :: "normalizer \<Rightarrow> knowledge_base \<Rightarrow> unl_graph \<Rightarrow> unl_graph \<Rightarrow> bool" where
  "unl_equivalent nz kb g h = unl_eq (normalize nz kb g) (normalize nz kb h)"

section \<open>What the checks find\<close>

definition compatible :: "uw \<Rightarrow> bool" where
  "compatible w \<longleftrightarrow> list_all (\<lambda>grp. length (filter (\<lambda>a. a \<in> set grp) (uw_attributes w)) \<le> 1) exclusive_groups"

definition within_words :: "vocabulary \<Rightarrow> uw \<Rightarrow> bool" where
  "within_words v w \<longleftrightarrow> (names_concept (uw_uci w) \<longrightarrow> vocab_knows v (uw_uci w))
     \<and> list_all (allows_attribute v) (uw_attributes w)"

text \<open>
  The specification of the check at the edge: every reference resolves, the attributes of
  every universal word are compatible, and all relations, concepts and attributes are in the
  vocabulary.
\<close>

definition understood :: "vocabulary \<Rightarrow> unl_graph \<Rightarrow> bool" where
  "understood v g \<longleftrightarrow> refs_resolve g
     \<and> list_all (\<lambda>r. allows_relation v (rl_tag r)) (ug_relations g)
     \<and> list_all (\<lambda>w. compatible (fst w) \<and> within_words v (fst w)) (uws g)"

named_theorems diag_defs

lemmas diag_new_defs [diag_defs] =
  diagnostic_new_def diagnostic_at_def out_of_vocabulary_def

lemma dangling_Nil: "dangling g t x = [] \<longleftrightarrow> ref_ok g x"
  by (cases x) auto

lemma exclusive_hits_Nil:
  "exclusive_hits pr w grp = [] \<longleftrightarrow> length (filter (\<lambda>a. a \<in> set grp) (uw_attributes (fst w))) \<le> 1"
  by (auto simp: exclusive_hits_def Let_def)

lemma structural_Nil:
  "structural_integrity pr g = [] \<longleftrightarrow> refs_resolve g \<and> list_all (\<lambda>w. compatible (fst w)) (uws g)"
  by (simp add: structural_integrity_def dangling_Nil exclusive_hits_Nil refs_resolve_def
      compatible_def list_all_iff)

lemma words_Nil:
  "relation_word v r = [] \<longleftrightarrow> allows_relation v (rl_tag r)"
  "concept_word pr v w = [] \<longleftrightarrow> (names_concept (uw_uci (fst w)) \<longrightarrow> vocab_knows v (uw_uci (fst w)))"
  "attribute_word v l a = [] \<longleftrightarrow> allows_attribute v a"
  by (simp_all add: relation_word_def concept_word_def attribute_word_def)

lemma vocabulary_Nil:
  "vocabulary_check pr g v = [] \<longleftrightarrow>
     list_all (\<lambda>r. allows_relation v (rl_tag r)) (ug_relations g)
     \<and> list_all (\<lambda>w. within_words v (fst w)) (uws g)"
  by (simp add: vocabulary_check_def words_Nil within_words_def list_all_iff)

lemma dangling_codes: "d \<in> set (dangling g t x) \<Longrightarrow> dg_severity d = SevError \<and> dg_code d = DanglingReference"
  by (cases x) (auto simp: diag_defs split: if_splits)

lemma exclusive_codes:
  "d \<in> set (exclusive_hits pr w grp) \<Longrightarrow> dg_severity d = SevError \<and> dg_code d = IncompatibleAttributes"
  by (auto simp: exclusive_hits_def Let_def diag_defs split: if_splits)

lemma structural_codes:
  "d \<in> set (structural_integrity pr g) \<Longrightarrow>
     dg_severity d = SevError \<and> (dg_code d = DanglingReference \<or> dg_code d = IncompatibleAttributes)"
  by (auto simp: structural_integrity_def dest: dangling_codes exclusive_codes)

lemma word_codes:
  "d \<in> set (relation_word v r) \<Longrightarrow> dg_severity d = SevError \<and> dg_code d = OutOfVocabulary"
  "d \<in> set (concept_word pr v w) \<Longrightarrow> dg_severity d = SevError \<and> dg_code d = OutOfVocabulary"
  "d \<in> set (attribute_word v l a) \<Longrightarrow> dg_severity d = SevError \<and> dg_code d = OutOfVocabulary"
  by (simp_all add: relation_word_def concept_word_def attribute_word_def diag_defs split: if_splits)

lemma vocabulary_codes:
  assumes "d \<in> set (vocabulary_check pr g v)"
  shows "dg_severity d = SevError \<and> dg_code d = OutOfVocabulary"
proof -
  have "set (vocabulary_check pr g v) = (\<Union>r\<in>set (ug_relations g). set (relation_word v r))
      \<union> (\<Union>w\<in>set (uws g). set (concept_word pr v w)
          \<union> (\<Union>a\<in>set (uw_attributes (fst w)). set (attribute_word v (snd w) a)))"
    by (simp add: vocabulary_check_def)
  with assms consider r where "d \<in> set (relation_word v r)" | w where "d \<in> set (concept_word pr v w)"
    | l a where "d \<in> set (attribute_word v l a)"
    by blast
  then show ?thesis by cases (rule word_codes, assumption)+
qed

lemma list_ex_all: "(\<And>x. x \<in> set xs \<Longrightarrow> P x) \<Longrightarrow> list_ex P xs \<longleftrightarrow> xs \<noteq> []"
  by (cases xs) simp_all

lemma list_ex_none: "(\<And>x. x \<in> set xs \<Longrightarrow> \<not> P x) \<Longrightarrow> \<not> list_ex P xs"
  by (simp add: list_ex_iff)

lemma vocabulary_check_codes:
  "list_ex (\<lambda>d. dg_code d = OutOfVocabulary) (vocabulary_check pr g v) \<longleftrightarrow> vocabulary_check pr g v \<noteq> []"
  "\<not> list_ex (\<lambda>d. dg_code d = DanglingReference \<or> dg_code d = IncompatibleAttributes) (vocabulary_check pr g v)"
  by (rule list_ex_all list_ex_none; use vocabulary_codes [of _ pr g v] in fastforce)+

lemma structural_check_codes:
  "list_ex (\<lambda>d. dg_code d = DanglingReference \<or> dg_code d = IncompatibleAttributes) (structural_integrity pr g)
     \<longleftrightarrow> structural_integrity pr g \<noteq> []"
  "\<not> list_ex (\<lambda>d. dg_code d = OutOfVocabulary) (structural_integrity pr g)"
  by (rule list_ex_all list_ex_none; use structural_codes [of _ pr g] in fastforce)+

lemma errors_only:
  "filter (\<lambda>d. dg_severity d = SevError) (structural_integrity pr g @ vocabulary_check pr g v)
    = structural_integrity pr g @ vocabulary_check pr g v"
  by (rule filter_True) (auto dest: structural_codes vocabulary_codes)

text \<open>The check at the edge is exact. A graph passes the check against the vocabulary of an agent if
  and only if every reference resolves, no universal word has two attributes of an exclusive
  family, and every relation, concept and attribute is in the vocabulary; when the graph is
  rejected, every reported diagnostic is an error, out-of-vocabulary is among them exactly if a
  word is missing, and a dangling reference or incompatible attributes exactly if the structure is
  unsound.\<close>

theorem verify_vocabulary_exact:
  "case verify_vocabulary pr g v of
     Inr _ \<Rightarrow> understood v g
   | Inl ds \<Rightarrow> \<not> understood v g \<and> has_errors ds
       \<and> (list_ex (\<lambda>d. dg_code d = OutOfVocabulary) ds \<longleftrightarrow>
            \<not> (list_all (\<lambda>r. allows_relation v (rl_tag r)) (ug_relations g)
               \<and> list_all (\<lambda>w. within_words v (fst w)) (uws g)))
       \<and> (list_ex (\<lambda>d. dg_code d = DanglingReference \<or> dg_code d = IncompatibleAttributes) ds \<longleftrightarrow>
            \<not> (refs_resolve g \<and> list_all (\<lambda>w. compatible (fst w)) (uws g)))"
proof -
  let ?s = "structural_integrity pr g" and ?v = "vocabulary_check pr g v"
  have "understood v g \<longleftrightarrow> ?s = [] \<and> ?v = []"
    by (auto simp: understood_def structural_Nil vocabulary_Nil list_all_iff)
  moreover have "has_errors (?s @ ?v) \<longleftrightarrow> \<not> (?s = [] \<and> ?v = [])"
    using structural_codes [of "hd ?s" pr g] vocabulary_codes [of "hd ?v" pr g v]
    by (cases ?s; cases ?v) (simp_all add: has_errors_def)
  ultimately show ?thesis
    unfolding verify_vocabulary_def errors_only Let_def vocabulary_Nil [where pr = pr, symmetric]
      structural_Nil [where pr = pr, symmetric]
    by (simp add: vocabulary_check_codes structural_check_codes)
qed

text \<open>Repeating an attribute counts as contradicting it.\<close>

lemma repeated_attribute_rejected:
  "\<not> compatible (w\<lparr>uw_attributes := [Time AtPast, Time AtPast]\<rparr>)"
  by (simp add: compatible_def exclusive_groups_def)

text \<open>The quadrual number contradicts no other number.\<close>

lemma quadrual_not_exclusive:
  "compatible (w\<lparr>uw_attributes := [Quantity AtSingular, Quantity AtQuadrual]\<rparr>)"
  by (simp add: compatible_def exclusive_groups_def)

end
