(* ===== verification/Unl_Equivalence.thy ===== *)
theory Unl_Equivalence
  imports Unl_Validator Unl_Graph_Kb
begin

text \<open>
  What the normalizer computes and when two graphs are equivalent. With a base that resolves
  identities to canonical ones, which the three modelled bases do, one pass of the rules of the
  first revision reaches the fixed point, and two graphs are equivalent exactly if their meanings,
  without voice and with canonical identities, are equal.
\<close>

section \<open>Rewriting every universal word\<close>

lemma map_ref_comp: "map_ref f (map_ref g x) = map_ref (f \<circ> g) x"
  by (cases x) simp_all

lemma for_each_uw_comp: "for_each_uw f (for_each_uw g h) = for_each_uw (f \<circ> g) h"
  by (simp add: for_each_uw_def case_prod_unfold comp_def map_ref_comp [unfolded comp_def])

lemma for_each_uw_wf [simp]: "graph_wf (for_each_uw f g) \<longleftrightarrow> graph_wf g"
  by (simp add: graph_wf_def for_each_uw_def hm_wf_def case_prod_unfold comp_def)

fun map_ref_meaning :: "(uw_meaning \<Rightarrow> uw_meaning) \<Rightarrow> string + string + uw_meaning \<Rightarrow> string + string + uw_meaning" where
  "map_ref_meaning F (Inr (Inr m)) = Inr (Inr (F m))"
| "map_ref_meaning F x = x"

definition map_meaning ::
    "(uw_meaning \<Rightarrow> uw_meaning) \<Rightarrow> string option \<times> (string \<Rightarrow> uw_meaning option) \<times> _ multiset \<Rightarrow> _" where
  "map_meaning F = (\<lambda>(e, nodes, rels).
     (e, \<lambda>i. map_option F (nodes i),
      image_mset (\<lambda>(t, s, x, y). (t, s, map_ref_meaning F x, map_ref_meaning F y)) rels))"

lemma meaning_for_each_uw:
  assumes F: "\<And>w. uw_meaning (f w) = F (uw_meaning w)"
  shows "meaning (for_each_uw f g) = map_meaning F (meaning g)"
proof -
  have ref: "ref_meaning (map_ref f x) = map_ref_meaning F (ref_meaning x)" for x
    by (cases x) (simp_all add: F)
  have node: "map_option uw_meaning (hm_get (map (\<lambda>(i, w). (i, f w)) m) i)
      = map_option F (map_option uw_meaning (hm_get m i))" for m i
    by (induction m) (auto simp: F)
  show ?thesis
    by (simp add: meaning_def map_meaning_def for_each_uw_def node image_mset.compositionality comp_def
        relation_meaning_def ref)
qed

section \<open>The rules of the first revision\<close>

definition rewrite :: "knowledge_base \<Rightarrow> uw \<Rightarrow> uw" where
  "rewrite kb w = collapse_synonym kb (collapse_voice w)"

lemma apply_rules_rev1: "apply_rules (nz_rules rev1) kb g = for_each_uw (rewrite kb) g"
  by (simp add: apply_rules_def rev1_def voice_collapse_def synonym_collapse_def proform_resolve_def
      for_each_uw_comp rewrite_def [abs_def] comp_def)

definition canonical_identity :: "knowledge_base \<Rightarrow> uci \<Rightarrow> uci" where
  "canonical_identity kb u = (case kb_resolve kb u of Inr (Some c) \<Rightarrow> c | _ \<Rightarrow> u)"

text \<open>The meaning of a universal word without voice, with its canonical identity.\<close>

definition normal_uw :: "knowledge_base \<Rightarrow> uw_meaning \<Rightarrow> uw_meaning" where
  "normal_uw kb = (\<lambda>(u, attrs, i, s).
     (canonical_identity kb u, filter_mset (\<lambda>a. \<not> (a = Voice AtActive \<or> a = Voice AtPassive)) attrs, i, s))"

definition normal_meaning :: "knowledge_base \<Rightarrow> unl_graph \<Rightarrow> _" where
  "normal_meaning kb g = map_meaning (normal_uw kb) (meaning g)"

lemma rewrite_simps:
  "uw_uci (rewrite kb w) = canonical_identity kb (uw_uci w)"
  "uw_attributes (rewrite kb w) = filter (\<lambda>a. \<not> (a = Voice AtActive \<or> a = Voice AtPassive)) (uw_attributes w)"
  "uw_node_id (rewrite kb w) = uw_node_id w" "uw_scope (rewrite kb w) = uw_scope w"
  by (simp_all add: rewrite_def collapse_synonym_def collapse_voice_def canonical_identity_def
      split: sum.split option.split)

lemma uw_meaning_rewrite: "uw_meaning (rewrite kb w) = normal_uw kb (uw_meaning w)"
  by (simp add: uw_meaning_def normal_uw_def rewrite_simps)

lemma meaning_rewrite: "meaning (for_each_uw (rewrite kb) g) = normal_meaning kb g"
  unfolding normal_meaning_def by (rule meaning_for_each_uw) (rule uw_meaning_rewrite)

section \<open>Bases with canonical identities\<close>

locale canonical_resolver =
  fixes kb :: knowledge_base
  assumes resolve_twice: "kb_resolve kb u = Inr (Some c) \<Longrightarrow>
    kb_resolve kb c = Inr (Some c) \<or> kb_resolve kb c = Inr None"
begin

lemma canonical_identity_idem: "canonical_identity kb (canonical_identity kb u) = canonical_identity kb u"
  using resolve_twice [of u] by (auto simp: canonical_identity_def split: sum.splits option.splits)

lemma rewrite_idem: "rewrite kb \<circ> rewrite kb = rewrite kb"
  by (rule ext, rule uw.equality) (simp_all add: rewrite_simps canonical_identity_idem)

lemma one_pass: "normalize_loop n (nz_rules rev1) kb (for_each_uw (rewrite kb) g) = for_each_uw (rewrite kb) g"
  by (induction n) (simp_all add: apply_rules_rev1 for_each_uw_comp rewrite_idem Let_def)

lemma normalize_rev1: "normalize rev1 kb g = for_each_uw (rewrite kb) g"
proof -
  have "normalize_loop (Suc n) (nz_rules rev1) kb g = for_each_uw (rewrite kb) g" for n
    by (simp add: apply_rules_rev1 one_pass Let_def)
  from this [of 15] show ?thesis by (simp add: normalize_def rev1_def del: normalize_loop.simps)
qed

lemma normalize_idem: "normalize rev1 kb (normalize rev1 kb g) = normalize rev1 kb g"
  by (simp add: normalize_rev1 for_each_uw_comp rewrite_idem)

lemma equivalent_iff:
  assumes "graph_wf g" "graph_wf h"
  shows "unl_equivalent rev1 kb g h \<longleftrightarrow> normal_meaning kb g = normal_meaning kb h"
  using assms by (simp add: unl_equivalent_def normalize_rev1 unl_eq_meaning meaning_rewrite)

lemma equivalent_equivalence:
  assumes "graph_wf g" "graph_wf h"
  shows "unl_equivalent rev1 kb g g" "unl_equivalent rev1 kb g h \<Longrightarrow> unl_equivalent rev1 kb h g"
    "unl_eq g h \<Longrightarrow> unl_equivalent rev1 kb g h" "unl_equivalent rev1 kb g (normalize rev1 kb g)"
proof -
  show "unl_equivalent rev1 kb g g" "unl_equivalent rev1 kb g h \<Longrightarrow> unl_equivalent rev1 kb h g"
    using assms by (simp_all add: equivalent_iff)
  show "unl_eq g h \<Longrightarrow> unl_equivalent rev1 kb g h"
    using assms by (simp add: equivalent_iff unl_eq_meaning normal_meaning_def)
  show "unl_equivalent rev1 kb g (normalize rev1 kb g)"
    using assms unfolding unl_equivalent_def normalize_idem by (simp add: unl_eq_meaning normalize_rev1)
qed

end

sublocale concept_hierarchy \<subseteq> canonical: canonical_resolver "base s" for s
proof unfold_locales
  fix u c assume "kb_resolve (base s) u = Inr (Some c)"
  then obtain i where "c = uci_ucl i" by (auto simp: resolve)
  with known_number [of s i] show "kb_resolve (base s) c = Inr (Some c) \<or> kb_resolve (base s) c = Inr None"
    by (auto simp: resolve)
qed

section \<open>Properties\<close>

text \<open>C32: Normalizing decides equality of meanings. With the base in memory, the vocabulary or the graph
  base, whatever they hold, two graphs are equivalent for the normalizer of the first revision if
  and only if their meanings agree once the voice attributes are dropped and every identity the
  base resolves is replaced by its canonical one; normalizing a graph again changes nothing.\<close>

theorem equivalence_decides_meaning:
  assumes "graph_wf g" "graph_wf h"
    "kb \<in> range mem_base \<union> range vocab_base \<union> range graph_base"
  shows "(unl_equivalent rev1 kb g h \<longleftrightarrow> normal_meaning kb g = normal_meaning kb h)
    \<and> normalize rev1 kb (normalize rev1 kb g) = normalize rev1 kb g"
  using assms mem.canonical.equivalent_iff [OF assms(1,2)] vocab.canonical.equivalent_iff [OF assms(1,2)]
    graph.canonical.equivalent_iff [OF assms(1,2)] mem.canonical.normalize_idem
    vocab.canonical.normalize_idem graph.canonical.normalize_idem
  by auto

definition voiced_graph :: "voice_attr \<Rightarrow> unl_graph" where
  "voiced_graph v =
     \<lparr>ug_nodes = [(''01'', (uw_new (uci_ucn ''kill''))\<lparr>uw_attributes := [Voice v, Time AtPast]\<rparr>)],
      ug_relations = [], ug_entry = Some ''01''\<rparr>"

lemma equivalence_decides_meaning_witness:
  "unl_equivalent rev1 (mem_base mem_new) (voiced_graph AtActive) (voiced_graph AtPassive)"
proof -
  have "graph_wf (voiced_graph v)" for v by (simp add: graph_wf_def voiced_graph_def hm_wf_def)
  moreover have "normal_meaning (mem_base mem_new) (voiced_graph AtActive)
      = normal_meaning (mem_base mem_new) (voiced_graph AtPassive)"
    by (simp add: normal_meaning_def meaning_def map_meaning_def voiced_graph_def uw_meaning_def normal_uw_def
        fun_eq_iff)
  ultimately show ?thesis
    using equivalence_decides_meaning [of "voiced_graph AtActive" "voiced_graph AtPassive" "mem_base mem_new"]
    by blast
qed

text \<open>
  A base whose resolution does not end in a canonical identity is normalized for sixteen passes
  only: the result is not a fixed point.
\<close>

definition chain_base :: knowledge_base where
  "chain_base = (mem_base mem_new)\<lparr>kb_resolve := (\<lambda>u.
     case u of Ucl _ i \<Rightarrow> Inr (Some (uci_ucl (i + 1))) | _ \<Rightarrow> Inr None)\<rparr>"

lemma chain_not_normalized:
  "let g = \<lparr>ug_nodes = [(''01'', uw_new (uci_ucl 0))], ug_relations = [], ug_entry = None\<rparr>
   in map (\<lambda>(i, w). uw_uci w) (ug_nodes (normalize rev1 chain_base g)) = [uci_ucl 16]"
  by code_simp

end
