(* ===== verification/Unl_Parser.thy ===== *)
theory Unl_Parser
  imports Unl_Core Sl_Codec Rust_Strings
begin

text \<open>
  The two sentence formats of UNL (crate \<^verbatim>\<open>unl-parser\<close>): the cursor and the grammar of universal
  words (\<^verbatim>\<open>grammar.rs\<close>), the list format (\<^verbatim>\<open>list.rs\<close>) and the table format (\<^verbatim>\<open>table.rs\<close>).

  A text is a list of characters up to U+00FF. A cursor is the byte offset with the rest of the
  text; every character taken moves the offset by its length in UTF-8, so the offsets in
  errors are those of the code. The loops consume input, which is why they end.
\<close>

section \<open>The cursor\<close>

datatype parse_error = Syntax nat string | CoreErr core_error | Unsupported string

type_synonym cursor = "nat \<times> string"

type_synonym 'a parsed = "parse_error + 'a \<times> cursor"

definition pthen :: "'a parsed \<Rightarrow> ('a \<Rightarrow> cursor \<Rightarrow> 'b parsed) \<Rightarrow> 'b parsed" where
  "pthen p f = (case p of Inl e \<Rightarrow> Inl e | Inr (x, k) \<Rightarrow> f x k)"

lemma pthen_simps [simp]: "pthen (Inl e) f = Inl e" "pthen (Inr (x, k)) f = f x k"
  by (simp_all add: pthen_def)

definition byte_len :: "string \<Rightarrow> nat" where
  "byte_len s = sum_list (map len_utf8 s)"

definition cursor_new :: "string \<Rightarrow> cursor" where
  "cursor_new s = (0, s)"

definition cursor_peek :: "cursor \<Rightarrow> char option" where
  "cursor_peek k = (case snd k of [] \<Rightarrow> None | c # _ \<Rightarrow> Some c)"

definition cursor_eof :: "cursor \<Rightarrow> bool" where
  "cursor_eof k \<longleftrightarrow> snd k = []"

definition advance :: "nat \<Rightarrow> cursor \<Rightarrow> cursor" where
  "advance n k = (fst k + byte_len (take n (snd k)), drop n (snd k))"

definition eat :: "char \<Rightarrow> cursor \<Rightarrow> cursor option" where
  "eat c k = (if cursor_peek k = Some c then Some (advance 1 k) else None)"

definition in_quotes :: "string \<Rightarrow> string" where
  "in_quotes s = CHR 0x27 # s @ [CHR 0x27]"

definition found :: "cursor \<Rightarrow> string" where
  "found k = (case cursor_peek k of Some c \<Rightarrow> in_quotes [c] | None \<Rightarrow> ''end of input'')"

definition perror :: "cursor \<Rightarrow> string \<Rightarrow> parse_error" where
  "perror k msg = Syntax (fst k) msg"

definition expect :: "char \<Rightarrow> cursor \<Rightarrow> unit parsed" where
  "expect c k =
     (case eat c k of
        Some k' \<Rightarrow> Inr ((), k')
      | None \<Rightarrow> Inl (perror k (''expected '' @ in_quotes [c] @ '', found '' @ found k)))"

definition take_while :: "(char \<Rightarrow> bool) \<Rightarrow> cursor \<Rightarrow> string \<times> cursor" where
  "take_while P k =
     (let s = takeWhile P (snd k) in (s, fst k + byte_len s, dropWhile P (snd k)))"

definition skip_spaces :: "cursor \<Rightarrow> cursor" where
  "skip_spaces k = snd (take_while (\<lambda>c. c = CHR '' '' \<or> c = CHR 0x09) k)"

section \<open>Universal words\<close>

definition is_ascii_alphabetic :: "char \<Rightarrow> bool" where
  "is_ascii_alphabetic c \<longleftrightarrow> (65 \<le> code c \<and> code c \<le> 90) \<or> (97 \<le> code c \<and> code c \<le> 122)"

definition is_ident :: "char \<Rightarrow> bool" where
  "is_ident c \<longleftrightarrow> is_ascii_alphabetic c \<or> is_digit c \<or> c = CHR ''_''"

definition is_ucn_start :: "char \<Rightarrow> bool" where
  "is_ucn_start c \<longleftrightarrow> is_ascii_alphabetic c"

definition is_label_char :: "char \<Rightarrow> bool" where
  "is_label_char c \<longleftrightarrow> is_ascii_lowercase c \<or> is_digit c \<or> c = CHR ''_''"

definition parse_tag :: "cursor \<Rightarrow> relation_tag parsed" where
  "parse_tag k =
     (let (s, k') = take_while is_ascii_alphabetic k
      in if s = [] then Inl (perror k' ''expected a relation tag'')
         else (case tag_from_str s of Inl e \<Rightarrow> Inl (CoreErr e) | Inr t \<Rightarrow> Inr (t, k')))"

definition parse_opt_scope :: "cursor \<Rightarrow> string option \<times> cursor" where
  "parse_opt_scope k =
     (case eat (CHR '':'') k of
        Some k' \<Rightarrow> (let (s, k'') = take_while is_ident k' in (Some s, k''))
      | None \<Rightarrow> (None, k))"

text \<open>\<open>str::parse::<u64>\<close> on a text of digits.\<close>

definition u64_from_digits :: "string \<Rightarrow> u64 option" where
  "u64_from_digits ds =
     (if ds \<noteq> [] \<and> digits_val ds < 2 ^ 64 then Some (of_nat (digits_val ds)) else None)"

definition parse_u64 :: "cursor \<Rightarrow> u64 parsed" where
  "parse_u64 k =
     (let (ds, k') = take_while is_digit k
      in if ds = [] then Inl (perror k' ''expected a number'')
         else (case u64_from_digits ds of
                 None \<Rightarrow> Inl (perror k' (''number out of range: '' @ ds))
               | Some i \<Rightarrow> Inr (i, k')))"

fun parse_quoted :: "cursor \<Rightarrow> string parsed" where
  "parse_quoted (n, []) = Inl (Syntax n ''unterminated quoted temporary'')"
| "parse_quoted (n, c # s) =
     (if c = CHR 0x22 then Inr ([], n + 1, s)
      else if c = CHR 0x5C then
        (case s of
           [] \<Rightarrow> Inl (Syntax (n + 1) ''dangling escape in quoted temporary'')
         | e # t \<Rightarrow> pthen (parse_quoted (n + 1 + len_utf8 e, t)) (\<lambda>w k. Inr (e # w, k)))
      else pthen (parse_quoted (n + len_utf8 c, s)) (\<lambda>w k. Inr (c # w, k)))"

definition parse_suffix :: "cursor \<Rightarrow> ucn_suffix option parsed" where
  "parse_suffix k =
     (case eat (CHR ''('') k of
        None \<Rightarrow> Inr (None, k)
      | Some k \<Rightarrow>
          pthen (parse_tag k) (\<lambda>t k.
          pthen (expect (CHR ''>'') k) (\<lambda>_ k.
          let (w, k) = take_while (\<lambda>c. c \<noteq> CHR '')'') k in
          pthen (expect (CHR '')'') k) (\<lambda>_ k.
          Inr (Some \<lparr>sfx_relation = t, sfx_word = w\<rparr>, k)))))"

definition parse_uci :: "cursor \<Rightarrow> uci parsed" where
  "parse_uci k =
     (if cursor_peek k = Some (CHR 0x22) then
        pthen (parse_quoted (advance 1 k)) (\<lambda>s k. Inr (TemporaryUw s, k))
      else if starts_with (snd k) ''ucl://'' then
        (let (a, k) = take_while (\<lambda>c. c \<noteq> CHR ''/'') (advance 6 k) in
         pthen (expect (CHR ''/'') k) (\<lambda>_ k.
         pthen (parse_u64 k) (\<lambda>i k. Inr (Ucl (Some a) i, k))))
      else
        (case cursor_peek k of
           None \<Rightarrow> Inl (perror k ''expected a universal word'')
         | Some c \<Rightarrow>
             if is_digit c then
               (let (ds, k) = take_while is_digit k in
                if ds = ''00'' then Inr (NullUw, k)
                else (case u64_from_digits ds of
                        None \<Rightarrow> Inl (perror k (''invalid UCL id: '' @ ds))
                      | Some i \<Rightarrow> Inr (Ucl None i, k)))
             else if is_ucn_start c then
               (let (r, k) = take_while is_ident k in
                pthen (parse_suffix k) (\<lambda>x k. Inr (Ucn None r x, k)))
             else Inl (perror k ''expected a universal word'')))"

lemma length_take_while:
  "take_while P k = (s, k') \<Longrightarrow> length (snd k') \<le> length (snd k)"
  by (auto simp: take_while_def Let_def length_dropWhile_le)

function attrs_loop :: "attr_list \<Rightarrow> bool \<Rightarrow> cursor \<Rightarrow> (attr_list \<times> bool) parsed" where
  "attrs_loop attrs entry k =
     (if starts_with (snd k) ''.@'' then
        (let (label, k') = take_while is_label_char (advance 2 k) in
         if label = [] then
           Inl (perror k' (''expected an attribute label after '' @ in_quotes ''.@''))
         else if label = ''entry'' then attrs_loop attrs True k'
         else attrs_loop (attrs @ [from_label label]) entry k')
      else Inr ((attrs, entry), k))"
  by pat_completeness auto
termination
proof (relation "measure (\<lambda>(_, _, k). length (snd k))", goal_cases)
  case (2 attrs entry k x label k')
  then show ?case using length_take_while [of is_label_char "advance 2 k" label k']
    by (auto simp: starts_with_def advance_def prefix_def)
next
  case (3 attrs entry k x label k')
  then show ?case using length_take_while [of is_label_char "advance 2 k" label k']
    by (auto simp: starts_with_def advance_def prefix_def)
qed simp

declare attrs_loop.simps [simp del]

definition parse_attrs :: "cursor \<Rightarrow> (attr_list \<times> bool) parsed" where
  "parse_attrs k = attrs_loop [] False k"

definition parse_uw :: "cursor \<Rightarrow> (uci \<times> attr_list \<times> bool) parsed" where
  "parse_uw k =
     pthen (parse_uci k) (\<lambda>u k. pthen (parse_attrs k) (\<lambda>(attrs, entry) k. Inr ((u, attrs, entry), k)))"

section \<open>Writing universal words\<close>

definition u64_to_string :: "u64 \<Rightarrow> string" where
  "u64_to_string i = nat_to_string (unat i)"

definition write_escaped :: "string \<Rightarrow> string" where
  "write_escaped s =
     concat (map (\<lambda>c. if c = CHR 0x5C \<or> c = CHR 0x22 then [CHR 0x5C, c] else [c]) s)"

definition write_suffix :: "ucn_suffix option \<Rightarrow> string" where
  "write_suffix x =
     (case x of
        None \<Rightarrow> ''''
      | Some s \<Rightarrow> ''('' @ tag_as_str (sfx_relation s) @ ''>'' @ sfx_word s @ '')'')"

fun write_uci :: "uci \<Rightarrow> string" where
  "write_uci NullUw = ''00''"
| "write_uci (TemporaryUw s) = [CHR 0x22] @ write_escaped s @ [CHR 0x22]"
| "write_uci (Ucl None i) = u64_to_string i"
| "write_uci (Ucl (Some a) i) = ''ucl://'' @ a @ ''/'' @ u64_to_string i"
| "write_uci (Ucn _ r x) = r @ write_suffix x"

definition write_attrs :: "attr_list \<Rightarrow> string" where
  "write_attrs attrs = concat (map (\<lambda>a. ''.@'' @ as_label a) attrs)"

definition write_uw :: "uw \<Rightarrow> bool \<Rightarrow> string" where
  "write_uw w is_entry =
     write_uci (uw_uci w) @ write_attrs (uw_attributes w) @ (if is_entry then ''.@entry'' else '''')"

fun write_ref :: "node_ref \<Rightarrow> string" where
  "write_ref (NodeRef i) = i"
| "write_ref (ScopeRef i) = CHR '':'' # i"
| "write_ref (Inline w) = write_uw w False"

definition write_relation :: "unl_relation \<Rightarrow> string" where
  "write_relation r =
     tag_as_str (rl_tag r) @ (case rl_scope r of Some s \<Rightarrow> CHR '':'' # s | None \<Rightarrow> '''')
     @ ''('' @ write_ref (rl_source r) @ '', '' @ write_ref (rl_target r) @ '')'' @ [CHR 0x0A]"

section \<open>The list format\<close>

text \<open>The text before the first occurrence of \<open>p\<close>, and the text after it.\<close>

fun split_once :: "string \<Rightarrow> string \<Rightarrow> (string \<times> string) option" where
  "split_once p [] = (if p = [] then Some ([], []) else None)"
| "split_once p (c # s) =
     (if prefix p (c # s) then Some ([], drop (length p) (c # s))
      else map_option (\<lambda>(a, b). (c # a, b)) (split_once p s))"

definition list_section :: "string \<Rightarrow> string \<Rightarrow> string \<Rightarrow> parse_error + string" where
  "list_section text open_mark close_mark =
     (case split_once open_mark text of
        None \<Rightarrow> Inl (Syntax 0 (''missing '' @ open_mark @ '' block''))
      | Some (before, rest) \<Rightarrow>
          (case split_once close_mark rest of
             None \<Rightarrow> Inl (Syntax (byte_len before + byte_len open_mark)
                        (''missing '' @ close_mark @ '' for '' @ open_mark @ '' block''))
           | Some (inner, _) \<Rightarrow> Inr inner))"

definition unl_trim :: "string \<Rightarrow> string" where
  "unl_trim s = trim_matches is_space s"

definition skipped_line :: "string \<Rightarrow> bool" where
  "skipped_line l \<longleftrightarrow> l = [] \<or> starts_with l ''#''"

definition parse_w_line :: "string \<Rightarrow> unl_graph \<Rightarrow> parse_error + unl_graph" where
  "parse_w_line l g =
     (let (i, k) = take_while is_ident (cursor_new l) in
      if i = [] then Inl (perror k ''expected a node id'')
      else (case pthen (expect (CHR '':'') (skip_spaces k)) (\<lambda>_ k.
                 pthen (parse_uw (skip_spaces k)) (\<lambda>w k.
                 let k = skip_spaces k in
                 if cursor_eof k then Inr (w, k)
                 else Inl (perror k ''trailing characters after UW declaration''))) of
              Inl e \<Rightarrow> Inl e
            | Inr ((u, attrs, entry), _) \<Rightarrow>
                (let g = insert_node i \<lparr>uw_uci = u, uw_attributes = attrs, uw_node_id = None,
                                        uw_scope = None\<rparr> g
                 in Inr (if entry then g\<lparr>ug_entry := Some i\<rparr> else g))))"

text \<open>A node identifier and the spaces after it.\<close>

definition parse_node_id :: "string \<Rightarrow> cursor \<Rightarrow> string parsed" where
  "parse_node_id what k =
     (let (i, k) = take_while is_ident k in
      if i = [] then Inl (perror k (''expected a '' @ what @ '' node id''))
      else Inr (i, skip_spaces k))"

definition parse_r_line :: "string \<Rightarrow> parse_error + unl_relation" where
  "parse_r_line l =
     (case pthen (parse_tag (cursor_new l)) (\<lambda>t k.
           let (scope, k) = parse_opt_scope k in
           pthen (expect (CHR ''('') k) (\<lambda>_ k.
           pthen (parse_node_id ''source'' (skip_spaces k)) (\<lambda>i k.
           pthen (expect (CHR '','') k) (\<lambda>_ k.
           pthen (parse_node_id ''target'' (skip_spaces k)) (\<lambda>j k.
           pthen (expect (CHR '')'') k) (\<lambda>_ k.
           Inr (\<lparr>rl_tag = t, rl_scope = scope, rl_source = NodeRef i, rl_target = NodeRef j\<rparr>, k))))))) of
        Inl e \<Rightarrow> Inl e
      | Inr (r, _) \<Rightarrow> Inr r)"

fun parse_w_lines :: "string list \<Rightarrow> unl_graph \<Rightarrow> parse_error + unl_graph" where
  "parse_w_lines [] g = Inr g"
| "parse_w_lines (l # ls) g =
     (let l = unl_trim l in
      if skipped_line l then parse_w_lines ls g
      else (case parse_w_line l g of Inl e \<Rightarrow> Inl e | Inr g' \<Rightarrow> parse_w_lines ls g'))"

fun parse_r_lines :: "string list \<Rightarrow> unl_graph \<Rightarrow> parse_error + unl_graph" where
  "parse_r_lines [] g = Inr g"
| "parse_r_lines (l # ls) g =
     (let l = unl_trim l in
      if skipped_line l then parse_r_lines ls g
      else (case parse_r_line l of Inl e \<Rightarrow> Inl e | Inr r \<Rightarrow> parse_r_lines ls (add_relation r g)))"

definition unl_parse_list :: "string \<Rightarrow> parse_error + unl_graph" where
  "unl_parse_list text =
     (case list_section text ''[W]'' ''[/W]'' of
        Inl e \<Rightarrow> Inl e
      | Inr w \<Rightarrow>
          (case list_section text ''[R]'' ''[/R]'' of
             Inl e \<Rightarrow> Inl e
           | Inr r \<Rightarrow>
               (case parse_w_lines (lines w) unl_graph_new of
                  Inl e \<Rightarrow> Inl e
                | Inr g \<Rightarrow> parse_r_lines (lines r) g)))"

definition write_w_line :: "string option \<Rightarrow> string \<times> uw \<Rightarrow> string" where
  "write_w_line entry n = fst n @ '': '' @ write_uw (snd n) (entry = Some (fst n)) @ [CHR 0x0A]"

definition serialize_list :: "unl_graph \<Rightarrow> string" where
  "serialize_list g =
     ''[W]'' @ [CHR 0x0A] @ concat (map (write_w_line (ug_entry g)) (ug_nodes g))
     @ ''[/W]'' @ [CHR 0x0A] @ ''[R]'' @ [CHR 0x0A]
     @ concat (map write_relation (ug_relations g)) @ ''[/R]'' @ [CHR 0x0A]"

section \<open>The table format\<close>

definition parse_inline :: "cursor \<Rightarrow> node_ref parsed" where
  "parse_inline k =
     pthen (parse_uw k) (\<lambda>(u, attrs, _) k.
       Inr (Inline \<lparr>uw_uci = u, uw_attributes = attrs, uw_node_id = None, uw_scope = None\<rparr>, k))"

definition parse_relation :: "cursor \<Rightarrow> unl_relation parsed" where
  "parse_relation k =
     pthen (parse_tag k) (\<lambda>t k.
     let (scope, k) = parse_opt_scope k in
     pthen (expect (CHR ''('') k) (\<lambda>_ k.
     pthen (parse_inline (skip_spaces k)) (\<lambda>x k.
     pthen (expect (CHR '','') (skip_spaces k)) (\<lambda>_ k.
     pthen (parse_inline (skip_spaces k)) (\<lambda>y k.
     pthen (expect (CHR '')'') (skip_spaces k)) (\<lambda>_ k.
     Inr (\<lparr>rl_tag = t, rl_scope = scope, rl_source = x, rl_target = y\<rparr>, k)))))))"

definition skip_comment_line :: "cursor \<Rightarrow> cursor" where
  "skip_comment_line k =
     (if cursor_peek k = Some (CHR ''#'') then snd (take_while (\<lambda>c. c \<noteq> CHR 0x0A) k) else k)"

text \<open>One turn of the loop over spaces, line ends and comments.\<close>

definition skip_step :: "cursor \<Rightarrow> cursor" where
  "skip_step k =
     skip_comment_line (snd (take_while (\<lambda>c. c = CHR 0x0A \<or> c = CHR 0x0D) (skip_spaces k)))"

subsection \<open>What the parsers consume\<close>

text \<open>A cursor reached from another: the text between them was taken, byte by byte.\<close>

definition consumes :: "cursor \<Rightarrow> cursor \<Rightarrow> bool" where
  "consumes k k' \<longleftrightarrow> (\<exists>w. snd k = w @ snd k' \<and> fst k' = fst k + byte_len w)"

lemma byte_len_simps [simp]:
  "byte_len [] = 0" "byte_len (c # s) = len_utf8 c + byte_len s"
  "byte_len (s @ t) = byte_len s + byte_len t"
  by (simp_all add: byte_len_def)

lemma len_utf8_pos [simp]: "0 < len_utf8 c" "len_utf8 c \<noteq> 0"
  by (simp_all add: len_utf8_def)

lemma byte_len_0 [simp]: "byte_len s = 0 \<longleftrightarrow> s = []"
  by (cases s) simp_all

lemma consumes_refl [simp]: "consumes k k"
  by (simp add: consumes_def)

lemma consumes_trans [trans]:
  assumes "consumes k l" "consumes l m"
  shows "consumes k m"
proof -
  from assms obtain v w where "snd k = v @ snd l" "fst l = fst k + byte_len v"
    "snd l = w @ snd m" "fst m = fst l + byte_len w" by (auto simp: consumes_def)
  then have "snd k = (v @ w) @ snd m \<and> fst m = fst k + byte_len (v @ w)" by simp
  then show ?thesis unfolding consumes_def by blast
qed

lemma consumes_length: "consumes k k' \<Longrightarrow> length (snd k') \<le> length (snd k)"
  by (auto simp: consumes_def)

lemma consumes_progress: "consumes k k' \<Longrightarrow> fst k' \<noteq> fst k \<Longrightarrow> length (snd k') < length (snd k)"
  by (auto simp: consumes_def)

lemma consumes_advance [simp]: "consumes k (advance n k)"
  by (auto simp: consumes_def advance_def intro: exI [of _ "take n (snd k)"])

lemma consumes_take_while: "take_while P k = (s, k') \<Longrightarrow> consumes k k'"
  by (auto simp: consumes_def take_while_def Let_def intro: exI [of _ "takeWhile P (snd k)"])

lemma consumes_snd_take_while [simp]: "consumes k (snd (take_while P k))"
  by (rule consumes_take_while [of P _ "fst (take_while P k)"]) simp

lemma consumes_skip_spaces [simp]: "consumes k (skip_spaces k)"
  by (simp add: skip_spaces_def)

lemma consumes_eat: "eat c k = Some k' \<Longrightarrow> consumes k k' \<and> length (snd k') < length (snd k)"
  by (auto simp: eat_def cursor_peek_def advance_def consumes_def split: if_splits list.splits)

lemma consumes_opt_scope: "parse_opt_scope k = (x, k') \<Longrightarrow> consumes k k'"
  by (auto simp: parse_opt_scope_def split: option.splits prod.splits
      dest!: consumes_eat dest: consumes_trans consumes_take_while)

text \<open>
  A parser behaves well if its success consumes text and its syntax errors point into the text.
\<close>

definition behaves :: "cursor \<Rightarrow> 'a parsed \<Rightarrow> bool" where
  "behaves k p =
     (case p of
        Inl (Syntax n _) \<Rightarrow> fst k \<le> n \<and> n \<le> fst k + byte_len (snd k)
      | Inl _ \<Rightarrow> True
      | Inr (_, k') \<Rightarrow> consumes k k')"

lemma behaves_Inr [simp]: "behaves k (Inr (x, k')) \<longleftrightarrow> consumes k k'"
  by (simp add: behaves_def)

lemma behaves_CoreErr [simp]: "behaves k (Inl (CoreErr e))"
  by (simp add: behaves_def)

lemma behaves_perror [simp]: "consumes k k' \<Longrightarrow> behaves k (Inl (perror k' m))"
  by (auto simp: behaves_def perror_def consumes_def)

lemma behaves_from: "behaves k p \<Longrightarrow> consumes l k \<Longrightarrow> behaves l p"
  by (auto simp: behaves_def consumes_def split: sum.splits parse_error.splits)

lemma behaves_pthen:
  assumes "behaves k p" "\<And>x k'. p = Inr (x, k') \<Longrightarrow> consumes k k' \<Longrightarrow> behaves k' (f x k')"
  shows "behaves k (pthen p f)"
proof (cases p)
  case (Inl e)
  with assms(1) show ?thesis by (simp add: behaves_def split: parse_error.splits)
next
  case (Inr y)
  obtain x k' where y: "y = (x, k')" by (cases y)
  with Inr assms have "consumes k k'" "behaves k' (f x k')" by simp_all
  then show ?thesis using behaves_from by (simp add: Inr y)
qed

lemma behaves_take_while:
  assumes "\<And>s k'. consumes k k' \<Longrightarrow> behaves k' (f s k')"
  shows "behaves k (let (s, k') = take_while P k in f s k')"
proof -
  obtain s k' where k': "take_while P k = (s, k')" by (metis surj_pair)
  with consumes_take_while assms have "consumes k k'" "behaves k' (f s k')" by blast+
  then show ?thesis using behaves_from by (simp add: k')
qed

lemma behaves_expect [simp]: "behaves k (expect c k)"
  by (auto simp: expect_def split: option.split dest: consumes_eat)

lemma behaves_parse_tag [simp]: "behaves k (parse_tag k)"
  by (auto simp: parse_tag_def Let_def split: prod.split sum.split dest: consumes_take_while)

lemma behaves_parse_u64 [simp]: "behaves k (parse_u64 k)"
  by (auto simp: parse_u64_def Let_def split: prod.split option.split dest: consumes_take_while)

lemma behaves_parse_quoted: "behaves k (parse_quoted k)"
proof (induction k rule: parse_quoted.induct)
  case (1 n)
  then show ?case by (simp add: behaves_def)
next
  case (2 n c s)
  have step: "consumes (n, c # s) (n + len_utf8 c, s)"
    by (auto simp: consumes_def intro: exI [of _ "[c]"])
  consider (close) "c = CHR 0x22" | (dangling) "c = CHR 0x5C" "s = []"
    | (escape) e t where "c = CHR 0x5C" "s = e # t" | (plain) "c \<noteq> CHR 0x22" "c \<noteq> CHR 0x5C"
    by (cases s) auto
  then show ?case
  proof cases
    case close
    with step show ?thesis by (simp add: len_utf8_def code_def)
  next
    case dangling
    then show ?thesis by (simp add: behaves_def len_utf8_def code_def)
  next
    case (escape e t)
    have "consumes (n, c # s) (n + 1 + len_utf8 e, t)"
      using escape by (auto simp: consumes_def len_utf8_def code_def intro: exI [of _ "[c, e]"])
    moreover have "behaves (n + 1 + len_utf8 e, t) (parse_quoted (n, c # s))"
      using behaves_pthen [OF 2(1) [of e t], of "\<lambda>w k. Inr (e # w, k)"] escape by simp
    ultimately show ?thesis using behaves_from by blast
  next
    case plain
    then have "behaves (n + len_utf8 c, s) (parse_quoted (n, c # s))"
      using behaves_pthen [OF 2(2), of "\<lambda>w k. Inr (c # w, k)"] by simp
    with step show ?thesis using behaves_from by blast
  qed
qed

lemma behaves_parse_suffix [simp]: "behaves k (parse_suffix k)"
proof (cases "eat (CHR ''('') k")
  case None
  then show ?thesis by (simp add: parse_suffix_def)
next
  case (Some k1)
  have "behaves k1 (parse_suffix k)"
    unfolding parse_suffix_def Some option.case
    by (intro behaves_pthen behaves_parse_tag behaves_expect behaves_take_while) simp
  with consumes_eat [OF Some] show ?thesis using behaves_from by blast
qed

lemma behaves_parse_uci [simp]: "behaves k (parse_uci k)"
proof -
  have quoted: "behaves k (pthen (parse_quoted (advance 1 k)) (\<lambda>s k. Inr (TemporaryUw s, k)))"
    by (rule behaves_from [of "advance 1 k"]) (auto intro: behaves_pthen behaves_parse_quoted)
  have locator: "behaves k (let (a, k) = take_while P (advance 6 k) in
      pthen (expect c k) (\<lambda>_ k. pthen (parse_u64 k) (\<lambda>i k. Inr (f a i, k))))" for P c and f :: "_ \<Rightarrow> _ \<Rightarrow> uci"
    by (rule behaves_from [OF _ consumes_advance [of _ 6]])
      (intro behaves_take_while behaves_pthen behaves_expect behaves_parse_u64, simp)
  have digits: "behaves k (let (ds, k) = take_while is_digit k in
      if ds = ''00'' then Inr (NullUw, k)
      else (case u64_from_digits ds of
              None \<Rightarrow> Inl (perror k (''invalid UCL id: '' @ ds)) | Some i \<Rightarrow> Inr (Ucl None i, k)))"
    by (intro behaves_take_while) (simp split: option.split)
  have name: "behaves k (let (r, k) = take_while is_ident k in
      pthen (parse_suffix k) (\<lambda>x k. Inr (Ucn None r x, k)))"
    by (intro behaves_take_while behaves_pthen behaves_parse_suffix) simp
  show ?thesis
    unfolding parse_uci_def using quoted locator digits name
    by (simp split: option.split)
qed

lemma behaves_attrs_loop: "behaves k (attrs_loop attrs entry k)"
proof (induction attrs entry k rule: attrs_loop.induct)
  case (1 attrs entry k)
  show ?case
  proof (cases "starts_with (snd k) ''.@''")
    case True
    obtain label k1 where k1: "take_while is_label_char (advance 2 k) = (label, k1)" by (metis surj_pair)
    have k: "consumes k k1"
      using consumes_trans [OF consumes_advance consumes_take_while [OF k1]] .
    show ?thesis
      using 1(1) [OF True k1 [symmetric] refl] 1(2) [OF True k1 [symmetric] refl] k True
      by (subst attrs_loop.simps) (auto simp: k1 intro: behaves_from)
  next
    case False
    then show ?thesis by (subst attrs_loop.simps) simp
  qed
qed

lemma behaves_parse_attrs [simp]: "behaves k (parse_attrs k)"
  by (simp add: parse_attrs_def behaves_attrs_loop)

lemma behaves_parse_uw [simp]: "behaves k (parse_uw k)"
  unfolding parse_uw_def by (auto intro!: behaves_pthen split: prod.split)

lemma behaves_parse_inline [simp]: "behaves k (parse_inline k)"
  unfolding parse_inline_def by (auto intro!: behaves_pthen split: prod.split)

text \<open>After spaces.\<close>

lemma behaves_spaces: "behaves (skip_spaces k) p \<Longrightarrow> behaves k p"
  by (rule behaves_from [OF _ consumes_skip_spaces])

text \<open>A relation after its tag.\<close>

lemma behaves_relation_rest:
  "behaves k (let (scope, k) = parse_opt_scope k in
     pthen (expect (CHR ''('') k) (\<lambda>_ k.
     pthen (parse_inline (skip_spaces k)) (\<lambda>x k.
     pthen (expect (CHR '','') (skip_spaces k)) (\<lambda>_ k.
     pthen (parse_inline (skip_spaces k)) (\<lambda>y k.
     pthen (expect (CHR '')'') (skip_spaces k)) (\<lambda>_ k.
     Inr (\<lparr>rl_tag = t, rl_scope = scope, rl_source = x, rl_target = y\<rparr>, k)))))))"
proof -
  obtain scope k2 where k2: "parse_opt_scope k = (scope, k2)" by (metis surj_pair)
  show ?thesis
    unfolding k2 Let_def prod.case
    by (rule behaves_from [OF _ consumes_opt_scope [OF k2]])
      (intro behaves_pthen behaves_expect behaves_spaces [OF behaves_pthen]
        behaves_spaces [OF behaves_expect] behaves_parse_inline, simp)
qed

lemma behaves_parse_relation: "behaves k (parse_relation k)"
  unfolding parse_relation_def by (rule behaves_pthen [OF behaves_parse_tag behaves_relation_rest])

subsection \<open>The loops\<close>

lemma consumes_skip_step [simp]: "consumes k (skip_step k)"
proof -
  have "consumes l (skip_comment_line l)" for l by (simp add: skip_comment_line_def)
  then show ?thesis unfolding skip_step_def
    by (blast intro: consumes_trans consumes_skip_spaces consumes_snd_take_while)
qed

function skip_trivia :: "cursor \<Rightarrow> cursor" where
  "skip_trivia k = (let k' = skip_step k in if fst k' = fst k then k' else skip_trivia k')"
  by pat_completeness auto
termination
  by (relation "measure (\<lambda>k. length (snd k))") (auto intro: consumes_progress)

declare skip_trivia.simps [simp del]

lemma consumes_skip_trivia [simp]: "consumes k (skip_trivia k)"
proof (induction k rule: skip_trivia.induct)
  case (1 k)
  show ?case
  proof (cases "fst (skip_step k) = fst k")
    case True
    then show ?thesis by (subst skip_trivia.simps) simp
  next
    case False
    from consumes_trans [OF consumes_skip_step 1 [OF refl False]] False
    show ?thesis by (subst skip_trivia.simps) simp
  qed
qed

lemma parse_tag_progress: "parse_tag k = Inr (t, k') \<Longrightarrow> length (snd k') < length (snd k)"
  by (cases "snd k") (auto simp: parse_tag_def take_while_def Let_def length_dropWhile_le less_Suc_eq_le
      split: if_splits sum.splits)

lemma behaves_success: "behaves k p \<Longrightarrow> p = Inr (x, k') \<Longrightarrow> consumes k k'"
  by simp

lemma pthen_Inr: "pthen p f = Inr y \<longleftrightarrow> (\<exists>x k. p = Inr (x, k) \<and> f x k = Inr y)"
  by (cases p) auto

lemma parse_relation_progress:
  assumes "parse_relation k = Inr (r, k')"
  shows "length (snd k') < length (snd k)"
proof -
  from assms obtain t k1 where tag: "parse_tag k = Inr (t, k1)"
    and rest: "(let (scope, k) = parse_opt_scope k1 in
     pthen (expect (CHR ''('') k) (\<lambda>_ k.
     pthen (parse_inline (skip_spaces k)) (\<lambda>x k.
     pthen (expect (CHR '','') (skip_spaces k)) (\<lambda>_ k.
     pthen (parse_inline (skip_spaces k)) (\<lambda>y k.
     pthen (expect (CHR '')'') (skip_spaces k)) (\<lambda>_ k.
     Inr (\<lparr>rl_tag = t, rl_scope = scope, rl_source = x, rl_target = y\<rparr>, k))))))) = Inr (r, k')"
    unfolding parse_relation_def pthen_Inr by blast
  from behaves_success [OF behaves_relation_rest rest] have "consumes k1 k'" .
  with parse_tag_progress [OF tag] consumes_length [of k1 k'] show ?thesis by simp
qed

function parse_table_loop :: "unl_graph \<Rightarrow> cursor \<Rightarrow> parse_error + unl_graph" where
  "parse_table_loop g k =
     (let k = skip_trivia k in
      if cursor_eof k then Inr g
      else (case parse_relation k of
              Inl e \<Rightarrow> Inl e
            | Inr (r, k') \<Rightarrow> parse_table_loop (add_relation r g) k'))"
  by pat_completeness auto
termination
proof (relation "measure (\<lambda>(_, k). length (snd k))", goal_cases)
  case (2 g k k1 y r k')
  then have "length (snd k') < length (snd k1)" by (auto intro: parse_relation_progress)
  with 2 consumes_length [OF consumes_skip_trivia, of k] show ?case by simp
qed simp

declare parse_table_loop.simps [simp del]

definition unl_parse_table :: "string \<Rightarrow> parse_error + unl_graph" where
  "unl_parse_table text = parse_table_loop unl_graph_new (cursor_new text)"

definition serialize_table :: "unl_graph \<Rightarrow> string" where
  "serialize_table g = concat (map write_relation (ug_relations g))"

section \<open>Sentences\<close>

datatype unl_format = TableFormat | ListFormat

definition parse_sentence :: "string \<Rightarrow> parse_error + unl_graph" where
  "parse_sentence text =
     (if contains_str text ''[W]'' then unl_parse_list text else unl_parse_table text)"

definition serialize :: "unl_graph \<Rightarrow> unl_format \<Rightarrow> string" where
  "serialize g f = (case f of TableFormat \<Rightarrow> serialize_table g | ListFormat \<Rightarrow> serialize_list g)"

end
