(* ===== verification/Unl_Roundtrip.thy ===== *)
theory Unl_Roundtrip
  imports Unl_Parser
begin

text \<open>
  Round trips of the UNL sentence formats: what a graph must satisfy for its text to be parsed
  back to it, and that it is. The graphs of the list format declare their nodes and refer to
  them; those of the table format have their universal words inline.
\<close>

section \<open>Canonical graphs\<close>

definition ident_ok :: "string \<Rightarrow> bool" where
  "ident_ok s \<longleftrightarrow> s \<noteq> [] \<and> list_all is_ident s"

fun canonical_uci :: "uci \<Rightarrow> bool" where
  "canonical_uci (Ucl (Some a) i) \<longleftrightarrow> CHR ''/'' \<notin> set a"
| "canonical_uci (Ucn l r x) \<longleftrightarrow> l = None \<and> ident_ok r \<and> is_ucn_start (hd r)
     \<and> (case x of None \<Rightarrow> True | Some s \<Rightarrow> CHR '')'' \<notin> set (sfx_word s))"
| "canonical_uci (Ucl None i) \<longleftrightarrow> True"
| "canonical_uci (TemporaryUw s) \<longleftrightarrow> True"
| "canonical_uci NullUw \<longleftrightarrow> True"

definition canonical_attr :: "attr \<Rightarrow> bool" where
  "canonical_attr a \<longleftrightarrow> attr_ok a \<and> as_label a \<noteq> [] \<and> list_all is_label_char (as_label a)
     \<and> as_label a \<noteq> ''entry''"

definition canonical_uw :: "uw \<Rightarrow> bool" where
  "canonical_uw w \<longleftrightarrow> canonical_uci (uw_uci w) \<and> list_all canonical_attr (uw_attributes w)
     \<and> uw_node_id w = None \<and> uw_scope w = None"

definition scope_ok :: "string option \<Rightarrow> bool" where
  "scope_ok s = (case s of None \<Rightarrow> True | Some i \<Rightarrow> list_all is_ident i)"

fun declared_ref :: "node_ref \<Rightarrow> bool" where
  "declared_ref (NodeRef i) \<longleftrightarrow> ident_ok i"
| "declared_ref _ \<longleftrightarrow> False"

fun inline_ref :: "node_ref \<Rightarrow> bool" where
  "inline_ref (Inline w) \<longleftrightarrow> canonical_uw w"
| "inline_ref _ \<longleftrightarrow> False"

text \<open>Texts that stay on their line and do not contain the marks that end a block.\<close>

definition plain_text :: "string \<Rightarrow> bool" where
  "plain_text s \<longleftrightarrow> CHR 0x0A \<notin> set s \<and> \<not> contains_str s ''[/W]'' \<and> \<not> contains_str s ''[R]''"

definition list_canonical :: "unl_graph \<Rightarrow> bool" where
  "list_canonical g \<longleftrightarrow> hm_wf (ug_nodes g)
     \<and> list_all (\<lambda>(i, w). ident_ok i \<and> canonical_uw w \<and> plain_text (write_uci (uw_uci w))) (ug_nodes g)
     \<and> (case ug_entry g of None \<Rightarrow> True | Some i \<Rightarrow> hm_contains (ug_nodes g) i)
     \<and> list_all (\<lambda>r. scope_ok (rl_scope r) \<and> declared_ref (rl_source r) \<and> declared_ref (rl_target r))
         (ug_relations g)"

definition table_canonical :: "unl_graph \<Rightarrow> bool" where
  "table_canonical g \<longleftrightarrow> ug_nodes g = [] \<and> ug_entry g = None
     \<and> list_all (\<lambda>r. scope_ok (rl_scope r) \<and> inline_ref (rl_source r) \<and> inline_ref (rl_target r))
         (ug_relations g)"

definition canonical :: "unl_format \<Rightarrow> unl_graph \<Rightarrow> bool" where
  "canonical f g =
     (case f of
        ListFormat \<Rightarrow> list_canonical g
      | TableFormat \<Rightarrow> table_canonical g \<and> \<not> contains_str (serialize_table g) ''[W]'')"

section \<open>Characters and words\<close>

text \<open>Characters that end a word.\<close>

definition word_ends :: "char set" where
  "word_ends = set [CHR 0x0A, CHR 0x0D, CHR 0x09, CHR '' '', CHR ''.'', CHR '','', CHR ''('', CHR '')'',
     CHR '':'', CHR ''['', CHR '']'', CHR 0x22, CHR 0x5C, CHR ''/'', CHR ''#'', CHR ''>'', CHR ''@'']"

lemma in_word_ends [simp]:
  "CHR 0x0A \<in> word_ends" "CHR 0x0D \<in> word_ends" "CHR 0x09 \<in> word_ends" "CHR '' '' \<in> word_ends"
  "CHR ''.'' \<in> word_ends" "CHR '','' \<in> word_ends" "CHR ''('' \<in> word_ends" "CHR '')'' \<in> word_ends"
  "CHR '':'' \<in> word_ends" "CHR ''['' \<in> word_ends" "CHR '']'' \<in> word_ends" "CHR 0x22 \<in> word_ends"
  "CHR 0x5C \<in> word_ends" "CHR ''/'' \<in> word_ends" "CHR ''#'' \<in> word_ends" "CHR ''>'' \<in> word_ends"
  "CHR ''@'' \<in> word_ends"
  by (simp_all add: word_ends_def)

lemma end_not_ident: "c \<in> word_ends \<Longrightarrow> \<not> is_ident c"
  unfolding word_ends_def is_ident_def is_ascii_alphabetic_def is_digit_def code_def by auto

lemma ident_not_end: "is_ident c \<Longrightarrow> c \<notin> word_ends"
  using end_not_ident by blast

lemma word_ident:
  "is_digit c \<Longrightarrow> is_ident c" "is_ascii_alphabetic c \<Longrightarrow> is_ident c" "is_label_char c \<Longrightarrow> is_ident c"
  by (auto simp: is_ident_def is_label_char_def is_ascii_lowercase_def is_ascii_alphabetic_def code_def)

lemma ident_not_space: "is_ident c \<Longrightarrow> \<not> is_space c"
  by (auto simp: is_ident_def is_space_def is_ascii_alphabetic_def is_digit_def code_def)

lemma end_not_word:
  assumes "c \<in> word_ends"
  shows "\<not> is_digit c" "\<not> is_ascii_alphabetic c" "\<not> is_label_char c"
  using end_not_ident [OF assms] word_ident [of c] by auto

text \<open>A text that cannot continue a word: it is empty or starts with a delimiter.\<close>

definition stops_word :: "char set \<Rightarrow> string \<Rightarrow> bool" where
  "stops_word C t \<longleftrightarrow> t = [] \<or> hd t \<in> C"

lemma stops_word_simps [simp]: "stops_word C []" "stops_word C (c # t) \<longleftrightarrow> c \<in> C"
  by (simp_all add: stops_word_def)

lemma stops_mono: "stops_word C t \<Longrightarrow> C \<subseteq> D \<Longrightarrow> stops_word D t"
  by (auto simp: stops_word_def)

lemma take_while_stop:
  assumes "list_all P s" "stops_word C t" "\<And>c. c \<in> C \<Longrightarrow> \<not> P c"
  shows "take_while P (n, s @ t) = (s, n + byte_len s, t)"
proof -
  have "takeWhile P t = []" "dropWhile P t = t"
    using assms(2,3) by (cases t; simp)+
  with assms(1) show ?thesis
    by (simp add: take_while_def Let_def list_all_iff)
qed

lemma take_while_until:
  assumes "c \<notin> set s"
  shows "take_while (\<lambda>x. x \<noteq> c) (n, s @ c # t) = (s, n + byte_len s, c # t)"
  by (rule take_while_stop [of _ _ "{c}"]) (use assms in \<open>auto simp: list_all_iff\<close>)

lemma expect_char [simp]: "expect c (n, c # t) = Inr ((), n + len_utf8 c, t)"
  by (simp add: expect_def eat_def cursor_peek_def advance_def)

lemma eat_char [simp]: "eat c (n, c # t) = Some (n + len_utf8 c, t)"
  by (simp add: eat_def cursor_peek_def advance_def)

lemma eat_other: "stops_word C t \<Longrightarrow> c \<notin> C \<Longrightarrow> eat c (n, t) = None"
  by (cases t) (auto simp: eat_def cursor_peek_def)

lemma tag_letters: "list_all is_ascii_alphabetic (tag_as_str r)" "tag_as_str r \<noteq> []"
  by (cases r; simp add: is_ascii_alphabetic_def code_def)+

lemma parse_tag_text:
  assumes "stops_word C t" "C \<subseteq> word_ends"
  shows "parse_tag (n, tag_as_str r @ t) = Inr (r, n + byte_len (tag_as_str r), t)"
proof -
  have "take_while is_ascii_alphabetic (n, tag_as_str r @ t) = (tag_as_str r, n + byte_len (tag_as_str r), t)"
    by (rule take_while_stop [OF tag_letters(1) assms(1)]) (use assms(2) end_not_word(2) in auto)
  then show ?thesis by (simp add: parse_tag_def tag_from_str_as_str tag_letters(2))
qed

abbreviation write_scope :: "string option \<Rightarrow> string" where
  "write_scope s \<equiv> (case s of Some i \<Rightarrow> CHR '':'' # i | None \<Rightarrow> '''')"

lemma parse_opt_scope_text:
  assumes "scope_ok s" "stops_word C t" "C \<subseteq> word_ends" "CHR '':'' \<notin> C"
  shows "parse_opt_scope (n, write_scope s @ t) = (s, n + byte_len (write_scope s), t)"
proof (cases s)
  case None
  with assms(2,4) show ?thesis by (simp add: parse_opt_scope_def eat_other)
next
  case (Some i)
  with assms have "take_while is_ident (n + len_utf8 (CHR '':''), i @ t) = (i, n + len_utf8 (CHR '':'') + byte_len i, t)"
    by (intro take_while_stop [of _ _ C] end_not_ident) (auto simp: scope_ok_def)
  with Some show ?thesis by (simp add: parse_opt_scope_def)
qed

lemma parse_quoted_text:
  "parse_quoted (n, write_escaped s @ CHR 0x22 # t) = Inr (s, n + byte_len (write_escaped s) + 1, t)"
proof (induction s arbitrary: n)
  case Nil
  then show ?case by (simp add: write_escaped_def)
next
  case (Cons c s)
  have one: "len_utf8 (CHR 0x5C) = 1" by (simp add: len_utf8_def code_def)
  show ?case
  proof (cases "c = CHR 0x5C \<or> c = CHR 0x22")
    case True
    then have "write_escaped (c # s) = CHR 0x5C # c # write_escaped s" by (auto simp: write_escaped_def)
    with Cons [of "n + 1 + len_utf8 c"] one show ?thesis by simp
  next
    case False
    then have "write_escaped (c # s) = c # write_escaped s" by (auto simp: write_escaped_def)
    with Cons [of "n + len_utf8 c"] False show ?thesis by simp
  qed
qed

lemma u64_text [simp]:
  "u64_from_digits (u64_to_string i) = Some i" "u64_to_string i \<noteq> []" "u64_to_string i \<noteq> ''00''"
  "list_all is_digit (u64_to_string i)"
proof -
  have "unat i < 2 ^ 64" using unsigned_less [of i] by simp
  then show "u64_from_digits (u64_to_string i) = Some i"
    by (simp add: u64_from_digits_def u64_to_string_def)
  show "u64_to_string i \<noteq> []" by (simp add: u64_to_string_def)
  show "list_all is_digit (u64_to_string i)" by (simp add: u64_to_string_def nat_to_string_digits)
  show "u64_to_string i \<noteq> ''00''"
  proof
    assume zeros: "u64_to_string i = ''00''"
    then have "digits_val (nat_to_string (unat i)) = digits_val ''00''" by (simp add: u64_to_string_def)
    moreover have "digits_val ''00'' = 0" by (simp add: digits_val_def digit_val_def)
    ultimately have "unat i = 0" by simp
    with zeros show False by (simp add: u64_to_string_def nat_to_string.simps [of 0])
  qed
qed

section \<open>Universal words\<close>

lemma parse_suffix_text:
  assumes "case x of None \<Rightarrow> True | Some s \<Rightarrow> CHR '')'' \<notin> set (sfx_word s)"
    "stops_word C t" "CHR ''('' \<notin> C"
  shows "parse_suffix (n, write_suffix x @ t) = Inr (x, n + byte_len (write_suffix x), t)"
proof (cases x)
  case None
  with assms(2,3) show ?thesis by (simp add: parse_suffix_def write_suffix_def eat_other)
next
  case (Some s)
  obtain r w where s: "s = \<lparr>sfx_relation = r, sfx_word = w\<rparr>" by (cases s)
  let ?n = "n + len_utf8 (CHR ''('')"
  let ?m = "?n + byte_len (tag_as_str r) + len_utf8 (CHR ''>'')"
  have "parse_tag (?n, tag_as_str r @ CHR ''>'' # w @ CHR '')'' # t)
      = Inr (r, ?n + byte_len (tag_as_str r), CHR ''>'' # w @ CHR '')'' # t)"
    by (rule parse_tag_text [of "{CHR ''>''}"]) simp_all
  moreover have "take_while (\<lambda>c. c \<noteq> CHR '')'') (?m, w @ CHR '')'' # t) = (w, ?m + byte_len w, CHR '')'' # t)"
    by (rule take_while_until) (use assms(1) Some s in simp)
  ultimately show ?thesis
    by (simp add: Some s parse_suffix_def write_suffix_def)
qed

lemma hd_append_ne: "s \<noteq> [] \<Longrightarrow> hd (s @ t) = hd s"
  by (cases s) simp_all

text \<open>No written name is taken for a locator with authority.\<close>

lemma not_locator:
  assumes "list_all is_ident r" "stops_word C t" "C \<subseteq> word_ends" "CHR '':'' \<notin> C"
  shows "\<not> starts_with (r @ t) ''ucl://''"
proof
  assume "starts_with (r @ t) ''ucl://''"
  then obtain z where z: "r @ t = ''ucl://'' @ z" by (auto simp: starts_with_def prefix_def)
  have "takeWhile is_ident (r @ t) = r"
    using take_while_stop [of is_ident r C t 0] assms end_not_ident by (auto simp: take_while_def Let_def)
  moreover have "is_ident (CHR ''u'')" "is_ident (CHR ''c'')" "is_ident (CHR ''l'')" "\<not> is_ident (CHR '':'')"
    by (simp_all add: is_ident_def is_ascii_alphabetic_def is_digit_def code_def)
  ultimately have "r = ''ucl''" by (simp add: z)
  with z have "t = ''://'' @ z" by simp
  with assms(2,4) show False by simp
qed

lemma write_suffix_stops: "stops_word C t \<Longrightarrow> stops_word (insert (CHR ''('') C) (write_suffix x @ t)"
  by (cases x) (auto simp: write_suffix_def stops_word_def)

lemma peek_word:
  assumes "s \<noteq> []"
  shows "cursor_peek (n, s @ t) = Some (hd s)"
  using assms by (cases s) (simp_all add: cursor_peek_def)

lemma parse_number_text:
  assumes "list_all is_digit ds" "ds \<noteq> []" "stops_word C t" "C \<subseteq> word_ends" "CHR '':'' \<notin> C"
  shows "parse_uci (n, ds @ t) =
    (if ds = ''00'' then Inr (NullUw, n + byte_len ds, t)
     else case u64_from_digits ds of
       None \<Rightarrow> Inl (perror (n + byte_len ds, t) (''invalid UCL id: '' @ ds))
     | Some i \<Rightarrow> Inr (Ucl None i, n + byte_len ds, t))"
proof -
  have hd: "is_digit (hd ds)" using assms(1,2) by (cases ds) auto
  then have "hd ds \<noteq> CHR 0x22" using end_not_word(1) [of "CHR 0x22"] by auto
  moreover have "\<not> starts_with (ds @ t) ''ucl://''"
    by (rule not_locator [OF _ assms(3,4,5)]) (use assms(1) word_ident(1) in \<open>auto simp: list_all_iff\<close>)
  moreover have "take_while is_digit (n, ds @ t) = (ds, n + byte_len ds, t)"
    by (rule take_while_stop [OF assms(1,3)]) (use assms(4) end_not_word(1) in auto)
  ultimately show ?thesis
    using hd unfolding parse_uci_def by (simp add: peek_word [OF assms(2)])
qed

lemma parse_uci_text:
  assumes "canonical_uci u" "stops_word C t" "C \<subseteq> word_ends" "CHR '':'' \<notin> C" "CHR ''('' \<notin> C"
  shows "parse_uci (n, write_uci u @ t) = Inr (u, n + byte_len (write_uci u), t)"
proof (cases u rule: canonical_uci.cases)
  case (1 a i)
  let ?k = "(n + byte_len ''ucl://'', a @ CHR ''/'' # u64_to_string i @ t)"
  have start: "starts_with (write_uci u @ t) ''ucl://''" by (simp add: 1 starts_with_def)
  have advance: "advance 6 (n, write_uci u @ t) = ?k" by (simp add: 1 advance_def)
  have peek: "cursor_peek (n, write_uci u @ t) \<noteq> Some (CHR 0x22)" by (simp add: 1 cursor_peek_def)
  have authority: "take_while (\<lambda>c. c \<noteq> CHR ''/'') ?k
      = (a, n + byte_len ''ucl://'' + byte_len a, CHR ''/'' # u64_to_string i @ t)"
    by (rule take_while_until) (use assms(1) 1 in simp)
  have "take_while is_digit (m, u64_to_string i @ t) = (u64_to_string i, m + byte_len (u64_to_string i), t)" for m
    by (rule take_while_stop [OF _ assms(2)]) (use assms(3) end_not_word(1) in auto)
  then have number: "parse_u64 (m, u64_to_string i @ t) = Inr (i, m + byte_len (u64_to_string i), t)" for m
    by (simp add: parse_u64_def)
  show ?thesis
    unfolding parse_uci_def snd_conv advance authority using start peek by (simp add: 1 number)
next
  case (2 l r x)
  then have r: "list_all is_ident r" "r \<noteq> []" "is_ucn_start (hd r)" "l = None"
    using assms(1) by (simp_all add: ident_ok_def)
  let ?t = "write_suffix x @ t"
  have stop: "stops_word (insert (CHR ''('') C) ?t" by (rule write_suffix_stops [OF assms(2)])
  have ends: "insert (CHR ''('') C \<subseteq> word_ends" using assms(3) by simp
  have "\<not> starts_with (r @ ?t) ''ucl://''"
    by (rule not_locator [OF r(1) stop ends]) (use assms(4) in simp)
  moreover have "take_while is_ident (n, r @ ?t) = (r, n + byte_len r, ?t)"
    by (rule take_while_stop [OF r(1) stop]) (use ends end_not_ident in auto)
  moreover have "hd r \<noteq> CHR 0x22" "\<not> is_digit (hd r)"
    using r(3) by (auto simp: is_ucn_start_def is_ascii_alphabetic_def is_digit_def code_def)
  moreover have "parse_suffix (m, ?t) = Inr (x, m + byte_len (write_suffix x), t)" for m
    by (rule parse_suffix_text [OF _ assms(2,5)]) (use assms(1) 2 in simp)
  ultimately show ?thesis
    using r unfolding parse_uci_def by (simp add: 2 peek_word)
next
  case (3 i)
  with parse_number_text [OF u64_text(4) u64_text(2) assms(2-4), of n i] show ?thesis by simp
next
  case (4 s)
  then show ?thesis
    using parse_quoted_text [of "n + len_utf8 (CHR 0x22)" s t]
    by (simp add: parse_uci_def cursor_peek_def advance_def len_utf8_def code_def)
next
  case 5
  have "list_all is_digit ''00''" by (simp add: is_digit_def)
  from parse_number_text [OF this _ assms(2-4), of n] 5 show ?thesis by simp
qed

lemma attrs_loop_step:
  assumes "label \<noteq> []" "list_all is_label_char label" "stops_word C t" "C \<subseteq> word_ends"
  shows "attrs_loop attrs entry (n, ''.@'' @ label @ t) =
    (if label = ''entry'' then attrs_loop attrs True (n + byte_len (''.@'' @ label), t)
     else attrs_loop (attrs @ [from_label label]) entry (n + byte_len (''.@'' @ label), t))"
proof -
  have "advance 2 (n, ''.@'' @ label @ t) = (n + byte_len ''.@'', label @ t)"
    by (simp add: advance_def)
  moreover have "take_while is_label_char (n + byte_len ''.@'', label @ t)
      = (label, n + byte_len ''.@'' + byte_len label, t)"
    by (rule take_while_stop [OF assms(2,3)]) (use assms(4) end_not_word(3) in auto)
  moreover have "starts_with (''.@'' @ label @ t) ''.@''" by (simp add: starts_with_def)
  ultimately show ?thesis
    using assms(1) by (subst attrs_loop.simps) (simp add: add.assoc)
qed

lemma attrs_loop_end:
  assumes "stops_word C t" "CHR ''.'' \<notin> C"
  shows "attrs_loop attrs entry (n, t) = Inr ((attrs, entry), n, t)"
proof -
  have "\<not> starts_with t ''.@''" using assms by (cases t) (auto simp: starts_with_def)
  then show ?thesis by (subst attrs_loop.simps) simp
qed

abbreviation write_entry :: "bool \<Rightarrow> string" where
  "write_entry e \<equiv> (if e then ''.@entry'' else '''')"

lemma write_attrs_Cons: "write_attrs (a # as) = ''.@'' @ as_label a @ write_attrs as"
  by (simp add: write_attrs_def)

lemma write_attrs_stops:
  "stops_word C t \<Longrightarrow> stops_word (insert (CHR ''.'') C) (write_attrs as @ write_entry e @ t)"
  by (cases as) (auto simp: write_attrs_def stops_word_def)

lemma attrs_loop_text:
  assumes "list_all canonical_attr as" "stops_word C t" "C \<subseteq> word_ends" "CHR ''.'' \<notin> C"
  shows "attrs_loop attrs entry (n, write_attrs as @ write_entry e @ t) =
    Inr ((attrs @ as, entry \<or> e), n + byte_len (write_attrs as @ write_entry e), t)"
  using assms(1)
proof (induction as arbitrary: attrs n)
  case Nil
  show ?case
  proof (cases e)
    case True
    have "list_all is_label_char ''entry''" by (simp add: is_label_char_def is_ascii_lowercase_def)
    from attrs_loop_step [OF _ this assms(2,3), of attrs entry n] True
    show ?thesis using attrs_loop_end [OF assms(2,4)] by (simp add: write_attrs_def)
  next
    case False
    then show ?thesis using attrs_loop_end [OF assms(2,4)] by (simp add: write_attrs_def)
  qed
next
  case (Cons a as)
  let ?t = "write_attrs as @ write_entry e @ t"
  have a: "as_label a \<noteq> []" "list_all is_label_char (as_label a)" "as_label a \<noteq> ''entry''"
    "from_label (as_label a) = a"
    using Cons.prems by (simp_all add: canonical_attr_def from_label_as_label)
  have "stops_word (insert (CHR ''.'') C) ?t" by (rule write_attrs_stops [OF assms(2)])
  from attrs_loop_step [OF a(1,2) this, of attrs entry n] assms(3)
  have "attrs_loop attrs entry (n, ''.@'' @ as_label a @ ?t)
      = attrs_loop (attrs @ [a]) entry (n + byte_len (''.@'' @ as_label a), ?t)"
    using a by simp
  also have "\<dots> = Inr (((attrs @ [a]) @ as, entry \<or> e),
      n + byte_len (''.@'' @ as_label a) + byte_len (write_attrs as @ write_entry e), t)"
    by (rule Cons.IH) (use Cons.prems in simp)
  finally show ?case by (simp add: write_attrs_Cons add.assoc)
qed

text \<open>A written universal word is read back, with the entry mark as a flag.\<close>

lemma parse_uw_text:
  assumes "canonical_uw w" "stops_word C t" "C \<subseteq> word_ends - {CHR '':'', CHR ''('', CHR ''.''}"
  shows "parse_uw (n, write_uw w e @ t) =
    Inr ((uw_uci w, uw_attributes w, e), n + byte_len (write_uw w e), t)"
proof -
  let ?t = "write_attrs (uw_attributes w) @ write_entry e @ t"
  have stop: "stops_word (insert (CHR ''.'') C) ?t" by (rule write_attrs_stops [OF assms(2)])
  have C: "C \<subseteq> word_ends" "CHR '':'' \<notin> C" "CHR ''('' \<notin> C" "CHR ''.'' \<notin> C" using assms(3) by auto
  have "parse_uci (n, write_uci (uw_uci w) @ ?t) = Inr (uw_uci w, n + byte_len (write_uci (uw_uci w)), ?t)"
    by (rule parse_uci_text [OF _ stop]) (use assms(1) C in \<open>simp_all add: canonical_uw_def\<close>)
  moreover have "parse_attrs (m, ?t) =
      Inr ((uw_attributes w, e), m + byte_len (write_attrs (uw_attributes w) @ write_entry e), t)" for m
    unfolding parse_attrs_def
    using attrs_loop_text [OF _ assms(2) C(1,4), of "uw_attributes w" "[]" False m e] assms(1)
    by (simp add: canonical_uw_def)
  ultimately show ?thesis by (simp add: parse_uw_def write_uw_def add.assoc)
qed

section \<open>The table format\<close>

lemma skip_spaces_none:
  "stops_word C t \<Longrightarrow> CHR '' '' \<notin> C \<Longrightarrow> CHR 0x09 \<notin> C \<Longrightarrow> skip_spaces (n, t) = (n, t)"
  by (cases t) (auto simp: skip_spaces_def take_while_def Let_def)

lemma skip_one_space:
  "stops_word C t \<Longrightarrow> CHR '' '' \<notin> C \<Longrightarrow> CHR 0x09 \<notin> C
    \<Longrightarrow> skip_spaces (n, CHR '' '' # t) = (n + len_utf8 (CHR '' ''), t)"
  by (cases t) (auto simp: skip_spaces_def take_while_def Let_def)

lemma write_uci_head:
  assumes "canonical_uci u"
  shows "\<exists>c s. write_uci u = c # s \<and> \<not> is_space c"
proof (cases u rule: canonical_uci.cases)
  case (1 a i)
  then show ?thesis by (simp add: is_space_def code_def)
next
  case (2 l r x)
  with assms obtain c s where "r = c # s" "is_ident c" by (cases r) (auto simp: ident_ok_def)
  with 2 show ?thesis by (simp add: ident_not_space)
next
  case (3 i)
  then show ?thesis using u64_text(2,4) [of i] word_ident(1) ident_not_space
    by (cases "u64_to_string i") auto
next
  case (4 s)
  then show ?thesis by (simp add: is_space_def code_def)
next
  case 5
  then show ?thesis by (simp add: is_space_def code_def)
qed

lemma space_chars: "is_space (CHR '' '')" "is_space (CHR 0x09)" "is_space (CHR 0x0A)" "is_space (CHR 0x0D)"
  by (simp_all add: is_space_def code_def)

lemma write_uw_head:
  assumes "canonical_uw w"
  shows "stops_word {c. \<not> is_space c} (write_uw w e @ t)" "write_uw w e \<noteq> []"
  using write_uci_head [of "uw_uci w"] assms by (auto simp: write_uw_def canonical_uw_def)

lemma parse_inline_text:
  assumes "inline_ref x" "stops_word C t" "C \<subseteq> word_ends - {CHR '':'', CHR ''('', CHR ''.''}"
  shows "parse_inline (skip_spaces (n, write_ref x @ t)) = Inr (x, n + byte_len (write_ref x), t)"
proof (cases x)
  case (Inline w)
  then have w: "canonical_uw w" using assms(1) by simp
  from parse_uw_text [OF w assms(2,3), of n False] w
  show ?thesis
    using skip_spaces_none [OF write_uw_head(1) [OF w, of False t], of n]
    by (simp add: parse_inline_def Inline space_chars canonical_uw_def)
qed (use assms(1) in simp_all)

lemma inline_ref_head: "inline_ref x \<Longrightarrow> stops_word {c. \<not> is_space c} (write_ref x @ t)"
  using write_uw_head(1) by (cases x) auto

text \<open>A relation without the line end that follows it.\<close>

definition relation_text :: "unl_relation \<Rightarrow> string" where
  "relation_text r =
     tag_as_str (rl_tag r) @ write_scope (rl_scope r) @ ''('' @ write_ref (rl_source r) @ '', ''
     @ write_ref (rl_target r) @ '')''"

lemma write_relation_text: "write_relation r = relation_text r @ [CHR 0x0A]"
  by (simp add: write_relation_def relation_text_def)

lemma parse_relation_text:
  assumes "scope_ok (rl_scope r)" "inline_ref (rl_source r)" "inline_ref (rl_target r)"
  shows "parse_relation (n, relation_text r @ t) = Inr (r, n + byte_len (relation_text r), t)"
proof -
  let ?open = "{CHR ''(''}" and ?comma = "{CHR '',''}" and ?close = "{CHR '')''}"
  let ?t3 = "write_ref (rl_target r) @ '')'' @ t"
  let ?t2 = "write_ref (rl_source r) @ '', '' @ ?t3"
  let ?t1 = "write_scope (rl_scope r) @ ''('' @ ?t2"
  have whole: "relation_text r @ t = tag_as_str (rl_tag r) @ ?t1" by (simp add: relation_text_def)
  have tag: "parse_tag (n, tag_as_str (rl_tag r) @ ?t1)
      = Inr (rl_tag r, n + byte_len (tag_as_str (rl_tag r)), ?t1)"
    by (rule parse_tag_text [of "{CHR ''('', CHR '':''}"]) (simp_all split: option.split)
  have scope: "parse_opt_scope (m, ?t1)
      = (rl_scope r, m + byte_len (write_scope (rl_scope r)), ''('' @ ?t2)" for m
    by (rule parse_opt_scope_text [OF assms(1), of ?open]) simp_all
  have source: "parse_inline (skip_spaces (m, ?t2))
      = Inr (rl_source r, m + byte_len (write_ref (rl_source r)), '', '' @ ?t3)" for m
    by (rule parse_inline_text [OF assms(2), of ?comma]) simp_all
  have target: "parse_inline (skip_spaces (m, ?t3))
      = Inr (rl_target r, m + byte_len (write_ref (rl_target r)), '')'' @ t)" for m
    by (rule parse_inline_text [OF assms(3), of ?close]) simp_all
  have before_target: "skip_spaces (m, CHR '' '' # ?t3) = (m + len_utf8 (CHR '' ''), ?t3)" for m
    by (rule skip_one_space [OF inline_ref_head [OF assms(3)]]) (simp_all add: space_chars)
  have no_space: "skip_spaces (m, c # z) = (m, c # z)" if "c \<noteq> CHR '' ''" "c \<noteq> CHR 0x09" for m c z
    by (rule skip_spaces_none [of "{c}"]) (use that in simp_all)
  have target': "parse_inline (skip_spaces (m, CHR '' '' # ?t3))
      = Inr (rl_target r, m + len_utf8 (CHR '' '') + byte_len (write_ref (rl_target r)), '')'' @ t)" for m
    unfolding before_target using target [of "m + len_utf8 (CHR '' '')"]
    by (simp add: skip_spaces_none [OF inline_ref_head [OF assms(3)]] space_chars)
  show ?thesis
    unfolding whole parse_relation_def tag pthen_simps scope Let_def prod.case
    using source target' no_space by (simp add: relation_text_def add.assoc)
qed

abbreviation letters :: "char set" where
  "letters \<equiv> {c. is_ascii_alphabetic c}"

lemma skip_step_none:
  assumes "stops_word letters t"
  shows "skip_step (n, t) = (n, t)"
proof (cases t)
  case (Cons c s)
  with assms have "c \<notin> word_ends" using end_not_word(2) by auto
  then have "c \<noteq> CHR '' ''" "c \<noteq> CHR 0x09" "c \<noteq> CHR 0x0A" "c \<noteq> CHR 0x0D" "c \<noteq> CHR ''#''" by auto
  with Cons show ?thesis
    by (simp add: skip_step_def skip_spaces_def skip_comment_line_def take_while_def Let_def cursor_peek_def)
qed (simp add: skip_step_def skip_spaces_def skip_comment_line_def take_while_def Let_def cursor_peek_def)

lemma skip_trivia_none: "stops_word letters t \<Longrightarrow> skip_trivia (n, t) = (n, t)"
  by (subst skip_trivia.simps) (simp add: skip_step_none)

lemma skip_trivia_newline:
  assumes "stops_word letters t"
  shows "skip_trivia (n, CHR 0x0A # t) = (n + 1, t)"
proof -
  have hd: "hd t \<notin> word_ends" if "t \<noteq> []"
    using assms that end_not_word(2) by (auto simp: stops_word_def)
  then have "takeWhile (\<lambda>c. c = CHR 0x0A \<or> c = CHR 0x0D) t = []"
    "dropWhile (\<lambda>c. c = CHR 0x0A \<or> c = CHR 0x0D) t = t" "t = [] \<or> hd t \<noteq> CHR ''#''"
    by (cases t; auto)+
  then have "skip_step (n, CHR 0x0A # t) = (n + 1, t)"
    by (cases t)
      (auto simp: skip_step_def skip_spaces_def skip_comment_line_def take_while_def Let_def cursor_peek_def
        len_utf8_def code_def)
  then show ?thesis by (subst skip_trivia.simps) (simp add: skip_trivia_none [OF assms])
qed

lemma relation_text_head: "stops_word letters (relation_text r @ t)" "relation_text r \<noteq> []"
  by (cases "rl_tag r"; simp add: relation_text_def is_ascii_alphabetic_def code_def)+

lemma relations_head: "stops_word letters (concat (map write_relation rs))"
  by (cases rs) (simp_all add: write_relation_text relation_text_head)

lemma parse_table_loop_text:
  assumes "list_all (\<lambda>r. scope_ok (rl_scope r) \<and> inline_ref (rl_source r) \<and> inline_ref (rl_target r)) rs"
    "s = [] \<or> s = [CHR 0x0A]"
  shows "parse_table_loop g (n, s @ concat (map write_relation rs)) =
    Inr (g\<lparr>ug_relations := ug_relations g @ rs\<rparr>)"
  using assms
proof (induction rs arbitrary: g n s)
  case Nil
  then have "\<exists>m. skip_trivia (n, s) = (m, [])"
    using skip_trivia_none [of "[]" n] skip_trivia_newline [of "[]" n] by auto
  then show ?case by (subst parse_table_loop.simps) (auto simp: cursor_eof_def)
next
  case (Cons r rs)
  let ?rest = "concat (map write_relation rs)"
  have "stops_word letters (relation_text r @ [CHR 0x0A] @ ?rest)" by (rule relation_text_head)
  then obtain m where "skip_trivia (n, s @ concat (map write_relation (r # rs)))
      = (m, relation_text r @ CHR 0x0A # ?rest)"
    using Cons.prems(2) skip_trivia_none skip_trivia_newline by (auto simp: write_relation_text)
  moreover have "parse_relation (m, relation_text r @ CHR 0x0A # ?rest)
      = Inr (r, m + byte_len (relation_text r), CHR 0x0A # ?rest)"
    using Cons.prems(1) by (intro parse_relation_text) simp_all
  moreover have "parse_table_loop (add_relation r g) (k, [CHR 0x0A] @ ?rest)
      = Inr ((add_relation r g)\<lparr>ug_relations := ug_relations (add_relation r g) @ rs\<rparr>)" for k
    by (rule Cons.IH) (use Cons.prems(1) in simp_all)
  ultimately show ?case
    using relation_text_head(2) by (subst parse_table_loop.simps) (simp add: cursor_eof_def add_relation_def)
qed

lemma table_roundtrip:
  assumes "table_canonical g"
  shows "unl_parse_table (serialize_table g) = Inr g"
  using parse_table_loop_text [of "ug_relations g" "[]" unl_graph_new 0] assms
  by (simp add: table_canonical_def unl_parse_table_def serialize_table_def cursor_new_def unl_graph_new_def)

section \<open>The list format\<close>

lemma split_once_mark:
  assumes "CHR ''['' \<notin> set q" "\<not> sublist (CHR ''['' # q) a"
  shows "split_once (CHR ''['' # q) (a @ (CHR ''['' # q) @ b) = Some (a, b)"
  using assms(2)
proof (induction a)
  case Nil
  then show ?case by (simp add: prefix_def)
next
  case (Cons c a)
  let ?p = "CHR ''['' # q"
  have "\<not> prefix ?p (c # a @ ?p @ b)"
  proof
    assume "prefix ?p (c # a @ ?p @ b)"
    then have c: "c = CHR ''[''" and q: "prefix q (a @ ?p @ b)" by auto
    from q consider (short) "prefix q a" | (long) z where "q = a @ z" "prefix z (?p @ b)"
      unfolding prefix_append by blast
    then show False
    proof cases
      case short
      with c have "prefix ?p (c # a)" by simp
      with Cons.prems show False by (blast intro: prefix_imp_sublist)
    next
      case long
      show False
      proof (cases z)
        case Nil
        with long c have "prefix ?p (c # a)" by simp
        with Cons.prems show False by (blast intro: prefix_imp_sublist)
      next
        case (Cons d z')
        with long have "d = CHR ''[''" by simp
        with long Cons assms(1) show False by simp
      qed
    qed
  qed
  moreover have "\<not> sublist ?p a" using Cons.prems by (auto simp: sublist_Cons_right)
  ultimately show ?case using Cons.IH by simp
qed

text \<open>A mark, which is on one line, is in a text of lines only if it is in one of the lines.\<close>

lemma sublist_lines:
  assumes "CHR 0x0A \<notin> set p" "p \<noteq> []" "\<And>l. l \<in> set ls \<Longrightarrow> \<not> sublist p l"
  shows "\<not> sublist p (concat (map (\<lambda>l. l @ [CHR 0x0A]) ls) @ z) \<or> sublist p z"
  using assms(3)
proof (induction ls)
  case (Cons l ls)
  let ?z = "concat (map (\<lambda>l. l @ [CHR 0x0A]) ls) @ z"
  have "sublist p l \<or> sublist p ?z" if "sublist p (l @ CHR 0x0A # ?z)"
  proof -
    from that consider "sublist p l" | "sublist p (CHR 0x0A # ?z)"
      | xs ys where "p = xs @ ys" "suffix xs l" "prefix ys (CHR 0x0A # ?z)"
      unfolding sublist_append by blast
    then show ?thesis
    proof cases
      case 2
      with assms(1,2) show ?thesis by (auto simp: sublist_Cons_right prefix_Cons)
    next
      case 3
      with assms(1) have "ys = []" by (cases ys) auto
      with 3 show ?thesis by (simp add: suffix_imp_sublist)
    qed simp
  qed
  with Cons show ?case by auto
qed simp

lemma split_char_line: "c \<notin> set l \<Longrightarrow> split_char c (l @ c # s) = l # split_char c s"
  by (induction l) auto

lemma split_char_nonempty: "split_char c s \<noteq> []"
  by (induction c s rule: split_char.induct) (auto split: list.splits)

lemma split_char_lines:
  assumes "\<And>l. l \<in> set ls \<Longrightarrow> c \<notin> set l"
  shows "split_char c (concat (map (\<lambda>l. l @ [c]) ls)) = ls @ [[]]"
  using assms by (induction ls) (simp_all add: split_char_line)

definition line_ok :: "string \<Rightarrow> bool" where
  "line_ok l \<longleftrightarrow> l \<noteq> [] \<and> \<not> is_space (hd l) \<and> \<not> is_space (last l) \<and> CHR 0x0A \<notin> set l \<and> hd l \<noteq> CHR ''#''"

lemma lines_text:
  assumes "list_all (\<lambda>l. l = [] \<or> line_ok l) ls"
  shows "lines (concat (map (\<lambda>l. l @ [CHR 0x0A]) ls)) = ls"
proof -
  have cases: "l = [] \<or> line_ok l" if "l \<in> set ls" for l using assms that by (simp add: list_all_iff)
  then have "CHR 0x0A \<notin> set l" if "l \<in> set ls" for l using that by (fastforce simp: line_ok_def)
  then have "split_char (CHR 0x0A) (concat (map (\<lambda>l. l @ [CHR 0x0A]) ls)) = ls @ [[]]"
    by (rule split_char_lines)
  moreover have "strip_return l = l" if "l = [] \<or> line_ok l" for l
    using that space_chars(4) by (metis line_ok_def strip_return_def)
  with cases have "map strip_return ls = ls" by (intro map_idI) blast
  ultimately show ?thesis by (simp add: lines_def)
qed

lemma trim_line:
  assumes "line_ok l"
  shows "unl_trim l = l"
proof -
  have keep: "dropWhile is_space s = s" if "\<not> is_space (hd s)" for s
    using that by (cases s) auto
  from assms have "dropWhile is_space l = l" "dropWhile is_space (rev l) = rev l"
    by (auto simp: line_ok_def keep hd_rev)
  then show ?thesis by (simp add: unl_trim_def trim_matches_def)
qed

lemma line_not_skipped: "line_ok l \<Longrightarrow> \<not> skipped_line l"
  by (cases l) (auto simp: line_ok_def skipped_line_def starts_with_def)

subsection \<open>Declarations\<close>

definition w_line :: "string \<Rightarrow> uw \<Rightarrow> bool \<Rightarrow> string" where
  "w_line i w e = i @ '': '' @ write_uw w e"

lemma write_w_line_text: "write_w_line entry (i, w) = w_line i w (entry = Some i) @ [CHR 0x0A]"
  by (simp add: write_w_line_def w_line_def)

lemma parse_w_line_text:
  assumes "ident_ok i" "canonical_uw w"
  shows "parse_w_line (w_line i w e) g =
    Inr (let g' = insert_node i w g in if e then g'\<lparr>ug_entry := Some i\<rparr> else g')"
proof -
  let ?colon = "{CHR '':''}"
  have i: "list_all is_ident i" "i \<noteq> []" using assms(1) by (simp_all add: ident_ok_def)
  have node: "take_while is_ident (cursor_new (w_line i w e)) = (i, byte_len i, '': '' @ write_uw w e)"
    using take_while_stop [OF i(1), of ?colon "'': '' @ write_uw w e" 0] end_not_ident
    by (simp add: cursor_new_def w_line_def)
  have colon: "skip_spaces (m, CHR '':'' # t) = (m, CHR '':'' # t)" for m t
    by (rule skip_spaces_none [of ?colon]) simp_all
  have blank: "skip_spaces (m, CHR '' '' # write_uw w e) = (m + len_utf8 (CHR '' ''), write_uw w e)" for m
    using skip_one_space [OF write_uw_head(1) [OF assms(2), of e "[]"]] by (simp add: space_chars)
  have uw: "parse_uw (m, write_uw w e) = Inr ((uw_uci w, uw_attributes w, e), m + byte_len (write_uw w e), [])" for m
    using parse_uw_text [OF assms(2), of "{}" "[]" m e] by simp
  have eof: "skip_spaces (m, []) = (m, [])" for m by (simp add: skip_spaces_none [of "{}"])
  have same: "\<lparr>uw_uci = uw_uci w, uw_attributes = uw_attributes w, uw_node_id = None, uw_scope = None\<rparr> = w"
    using assms(2) by (simp add: canonical_uw_def)
  show ?thesis
    unfolding parse_w_line_def node by (simp add: i(2) colon blank uw eof cursor_eof_def same Let_def)
qed

lemma hm_insert_unseen: "i \<notin> fst ` set m \<Longrightarrow> hm_insert i w m = m @ [(i, w)]"
  by (induction m) (auto simp: hm_insert_def)

lemma parse_w_lines_text:
  assumes "list_all (\<lambda>(i, w). ident_ok i \<and> canonical_uw w \<and> line_ok (w_line i w (entry = Some i))) ns"
    "distinct (map fst (ug_nodes g @ ns))"
  shows "parse_w_lines (map (\<lambda>(i, w). w_line i w (entry = Some i)) ns) g =
    Inr (g\<lparr>ug_nodes := ug_nodes g @ ns,
           ug_entry := (if entry \<in> Some ` fst ` set ns then entry else ug_entry g)\<rparr>)"
  using assms
proof (induction ns arbitrary: g)
  case (Cons n ns)
  obtain i w where n: "n = (i, w)" by (cases n)
  let ?l = "w_line i w (entry = Some i)"
  let ?g = "let g' = insert_node i w g in if entry = Some i then g'\<lparr>ug_entry := Some i\<rparr> else g'"
  have l: "line_ok ?l" and ok: "ident_ok i" "canonical_uw w" using Cons.prems(1) by (simp_all add: n)
  have "parse_w_lines (map (\<lambda>(i, w). w_line i w (entry = Some i)) (n # ns)) g
      = parse_w_lines (map (\<lambda>(i, w). w_line i w (entry = Some i)) ns) ?g"
    using parse_w_line_text [OF ok] line_not_skipped [OF l] by (simp add: n trim_line [OF l])
  moreover have nodes: "ug_nodes ?g = ug_nodes g @ [n]"
    using Cons.prems(2) by (auto simp: Let_def n insert_node_def hm_insert_unseen)
  ultimately have "parse_w_lines (map (\<lambda>(i, w). w_line i w (entry = Some i)) (n # ns)) g =
      Inr (?g\<lparr>ug_nodes := ug_nodes ?g @ ns,
           ug_entry := (if entry \<in> Some ` fst ` set ns then entry else ug_entry ?g)\<rparr>)"
    using Cons.IH [of ?g] Cons.prems by (simp add: nodes)
  then show ?case using nodes by (simp add: Let_def insert_node_def n image_iff)
qed simp

subsection \<open>Relations\<close>

lemma parse_node_id_text:
  assumes "ident_ok i" "stops_word C t" "C \<subseteq> word_ends - {CHR '' '', CHR 0x09}"
  shows "parse_node_id what (skip_spaces (n, i @ t)) = Inr (i, n + byte_len i, t)"
proof -
  have i: "list_all is_ident i" "i \<noteq> []" using assms(1) by (simp_all add: ident_ok_def)
  have C: "C \<subseteq> word_ends" "CHR '' '' \<notin> C" "CHR 0x09 \<notin> C" using assms(3) by auto
  have "take_while is_ident (n, i @ t) = (i, n + byte_len i, t)"
    by (rule take_while_stop [OF i(1) assms(2)]) (use C end_not_ident in auto)
  moreover have "skip_spaces (n, i @ t) = (n, i @ t)"
    by (rule skip_spaces_none [of "{c. is_ident c}"])
      (use i ident_not_end [of "CHR '' ''"] ident_not_end [of "CHR 0x09"] in \<open>cases i; auto\<close>)+
  ultimately show ?thesis
    using i(2) by (simp add: parse_node_id_def skip_spaces_none [OF assms(2) C(2,3)])
qed

lemma parse_r_line_text:
  assumes "scope_ok (rl_scope r)" "declared_ref (rl_source r)" "declared_ref (rl_target r)"
  shows "parse_r_line (relation_text r) = Inr r"
proof -
  obtain i j where ij: "rl_source r = NodeRef i" "rl_target r = NodeRef j" "ident_ok i" "ident_ok j"
    using assms(2,3) by (cases "rl_source r"; cases "rl_target r") auto
  let ?t2 = "i @ '','' @ '' '' @ j @ '')''"
  let ?t1 = "write_scope (rl_scope r) @ ''('' @ ?t2"
  have whole: "cursor_new (relation_text r) = (0, tag_as_str (rl_tag r) @ ?t1)"
    by (simp add: relation_text_def cursor_new_def ij)
  have tag: "parse_tag (0, tag_as_str (rl_tag r) @ ?t1)
      = Inr (rl_tag r, 0 + byte_len (tag_as_str (rl_tag r)), ?t1)"
    by (rule parse_tag_text [of "{CHR ''('', CHR '':''}"]) (simp_all split: option.split)
  have scope: "parse_opt_scope (m, ?t1)
      = (rl_scope r, m + byte_len (write_scope (rl_scope r)), ''('' @ ?t2)" for m
    by (rule parse_opt_scope_text [OF assms(1), of "{CHR ''(''}"]) simp_all
  have source: "parse_node_id what (skip_spaces (m, ?t2)) = Inr (i, m + byte_len i, '','' @ '' '' @ j @ '')'')"
    for what m by (rule parse_node_id_text [OF ij(3), of "{CHR '',''}"]) simp_all
  have target: "parse_node_id what (skip_spaces (m, j @ '')'')) = Inr (j, m + byte_len j, '')'')" for what m
    by (rule parse_node_id_text [OF ij(4), of "{CHR '')''}"]) simp_all
  have head: "stops_word {c. is_ident c} (j @ '')'')" using ij(4) by (cases j) (auto simp: ident_ok_def)
  have blank: "CHR '' '' \<notin> {c. is_ident c}" "CHR 0x09 \<notin> {c. is_ident c}"
    using ident_not_end [of "CHR '' ''"] ident_not_end [of "CHR 0x09"] by auto
  have before: "skip_spaces (m, CHR '' '' # j @ '')'') = (m + len_utf8 (CHR '' ''), j @ '')'')" for m
    by (rule skip_one_space [OF head blank])
  have same: "skip_spaces (m, j @ '')'') = (m, j @ '')'')" for m
    by (rule skip_spaces_none [OF head blank])
  have target': "parse_node_id what (skip_spaces (m, CHR '' '' # j @ '')''))
      = Inr (j, m + len_utf8 (CHR '' '') + byte_len j, '')'')" for what m
    unfolding before using target [of what "m + len_utf8 (CHR '' '')"] by (simp add: same)
  show ?thesis
    unfolding parse_r_line_def whole tag pthen_simps scope Let_def prod.case
    using source target' ij by simp
qed

lemma parse_r_lines_text:
  assumes "list_all (\<lambda>r. scope_ok (rl_scope r) \<and> declared_ref (rl_source r) \<and> declared_ref (rl_target r)
      \<and> line_ok (relation_text r)) rs"
  shows "parse_r_lines (map relation_text rs) g = Inr (g\<lparr>ug_relations := ug_relations g @ rs\<rparr>)"
  using assms
proof (induction rs arbitrary: g)
  case (Cons r rs)
  then have r: "parse_r_line (relation_text r) = Inr r" "line_ok (relation_text r)"
    using parse_r_line_text [of r] by simp_all
  with Cons.IH [of "add_relation r g"] Cons.prems show ?case
    by (simp add: trim_line line_not_skipped add_relation_def)
qed simp

subsection \<open>Whole texts\<close>

lemma mark_in_middle:
  assumes "sublist p (x @ y @ z)" "p \<noteq> []" "hd p \<notin> set x" "last p \<notin> set z"
  shows "sublist p y"
proof -
  have "sublist p (y @ z)"
  proof -
    from assms(1) consider "sublist p x" | "sublist p (y @ z)"
      | xs ys where "p = xs @ ys" "suffix xs x" "prefix ys (y @ z)"
      unfolding sublist_append by blast
    then show ?thesis
    proof cases
      case 1
      with assms(2,3) show ?thesis by (metis hd_in_set set_mono_sublist subsetD)
    next
      case 3
      with assms(2,3) have "xs = []" by (metis hd_append hd_in_set set_mono_suffix subsetD)
      with 3 show ?thesis by (simp add: prefix_imp_sublist)
    qed simp
  qed
  then consider "sublist p y" | "sublist p z"
    | xs ys where "p = xs @ ys" "suffix xs y" "prefix ys z"
    unfolding sublist_append by blast
  then show ?thesis
  proof cases
    case 2
    with assms(2,4) show ?thesis by (metis last_in_set set_mono_sublist subsetD)
  next
    case 3
    with assms(2,4) have "ys = []" by (metis last_append last_in_set set_mono_prefix subsetD)
    with 3 show ?thesis by (simp add: suffix_imp_sublist)
  qed simp
qed

lemma space_code: "\<not> is_space (CHR 0x22)" "\<not> is_space (CHR ''0'')" "\<not> is_space (CHR '')'')"
  by (simp_all add: is_space_def code_def)

lemma write_uci_last:
  assumes "canonical_uci u"
  shows "write_uci u \<noteq> [] \<and> \<not> is_space (last (write_uci u))"
proof -
  have number: "\<not> is_space (last (u64_to_string i))" for i
    using u64_text(2,4) [of i] word_ident(1) ident_not_space by (metis last_in_set list_all_iff)
  show ?thesis
  proof (cases u rule: canonical_uci.cases)
    case (2 l r x)
    with assms have "r \<noteq> []" "is_ident (last r)" by (auto simp: ident_ok_def list_all_iff)
    moreover have "\<not> is_space (last r)" using calculation by (simp add: ident_not_space)
    ultimately show ?thesis using 2 by (cases x) (simp_all add: write_suffix_def space_code)
  qed (use number in \<open>simp_all add: space_code\<close>)
qed

lemma label_chars: "canonical_attr a \<Longrightarrow> c \<in> set (as_label a) \<Longrightarrow> is_ident c"
  by (auto simp: canonical_attr_def list_all_iff word_ident(3))

lemma tail_chars:
  assumes "list_all canonical_attr as" "c \<in> set (write_attrs as @ write_entry e)"
  shows "is_ident c \<or> c = CHR ''.'' \<or> c = CHR ''@''"
proof -
  have "is_ident c" if "c \<in> set ''entry''"
    using that by (auto simp: is_ident_def is_ascii_alphabetic_def code_def)
  then show ?thesis
    using assms label_chars by (auto simp: write_attrs_def list_all_iff split: if_splits)
qed

lemma write_uw_last:
  assumes "canonical_uw w"
  shows "\<not> is_space (last (write_uw w e))"
proof -
  let ?tail = "write_attrs (uw_attributes w) @ write_entry e"
  have w: "canonical_uci (uw_uci w)" "list_all canonical_attr (uw_attributes w)"
    using assms by (simp_all add: canonical_uw_def)
  show ?thesis
  proof (cases "?tail = []")
    case True
    with write_uci_last [OF w(1)] show ?thesis by (simp add: write_uw_def)
  next
    case False
    then have "last (write_uw w e) = last ?tail" unfolding write_uw_def by (rule last_appendR)
    with False have "last (write_uw w e) \<in> set ?tail" by (metis last_in_set)
    from tail_chars [OF w(2) this] show ?thesis
      using ident_not_space by (auto simp: is_space_def code_def)
  qed
qed

lemma w_line_ok:
  assumes "ident_ok i" "canonical_uw w" "plain_text (write_uci (uw_uci w))"
  shows "line_ok (w_line i w e)"
    "p \<in> {''[/W]'', ''[R]''} \<Longrightarrow> \<not> sublist p (w_line i w e)"
proof -
  let ?tail = "write_attrs (uw_attributes w) @ write_entry e"
  have whole: "w_line i w e = (i @ '': '') @ write_uci (uw_uci w) @ ?tail"
    by (simp add: w_line_def write_uw_def)
  have node: "c \<in> set i \<Longrightarrow> is_ident c" for c using assms(1) by (auto simp: ident_ok_def list_all_iff)
  have tail: "c \<in> set ?tail \<Longrightarrow> c \<noteq> CHR 0x0A \<and> c \<noteq> CHR '']''" for c
    using tail_chars [of "uw_attributes w" c e] assms(2) ident_not_end [of c]
    by (auto simp: canonical_uw_def)
  have "\<not> is_space (last (w_line i w e))"
    using write_uw_last [OF assms(2)] write_uw_head(2) [OF assms(2)] by (simp add: w_line_def)
  moreover have "CHR 0x0A \<notin> set (w_line i w e)"
    using node ident_not_end assms(3) tail unfolding whole by (fastforce simp: plain_text_def)
  moreover have "hd (w_line i w e) \<in> set i"
    using assms(1) by (cases i) (simp_all add: w_line_def ident_ok_def)
  ultimately show "line_ok (w_line i w e)"
    using node [of "hd (w_line i w e)"] ident_not_space ident_not_end [of "hd (w_line i w e)"] assms(1)
    by (auto simp: line_ok_def w_line_def ident_ok_def)
  show "\<not> sublist p (w_line i w e)" if p: "p \<in> {''[/W]'', ''[R]''}"
  proof
    assume sub: "sublist p (w_line i w e)"
    have mark: "p \<noteq> []" "hd p = CHR ''[''" "last p = CHR '']''" using p by auto
    have "hd p \<notin> set (i @ '': '')" using node [of "CHR ''[''"] ident_not_end [of "CHR ''[''"] mark by auto
    moreover have "last p \<notin> set ?tail" using tail mark(3) by metis
    ultimately have "sublist p (write_uci (uw_uci w))"
      using mark_in_middle [OF sub [unfolded whole] mark(1)] by blast
    with p assms(3) show False by (auto simp: plain_text_def contains_str_def)
  qed
qed

lemma relation_line_ok:
  assumes "scope_ok (rl_scope r)" "declared_ref (rl_source r)" "declared_ref (rl_target r)"
  shows "line_ok (relation_text r)" "\<not> sublist ''[/R]'' (relation_text r)"
proof -
  have scope: "is_ident c \<or> c = CHR '':''" if "c \<in> set (write_scope (rl_scope r))" for c
    using that assms(1) by (auto simp: scope_ok_def list_all_iff split: option.splits)
  have ref: "is_ident c" if "c \<in> set (write_ref x)" "declared_ref x" for c x
    using that by (cases x) (auto simp: ident_ok_def list_all_iff)
  have tag: "is_ident c" if "c \<in> set (tag_as_str (rl_tag r))" for c
    using that tag_letters(1) word_ident(2) by (metis list_all_iff)
  have chars: "is_ident c \<or> c \<in> {CHR '':'', CHR ''('', CHR '','', CHR '' '', CHR '')''}"
    if "c \<in> set (relation_text r)" for c
  proof -
    have "set (relation_text r) = set (tag_as_str (rl_tag r)) \<union> set (write_scope (rl_scope r))
        \<union> set (write_ref (rl_source r)) \<union> set (write_ref (rl_target r)) \<union> {CHR ''('', CHR '','', CHR '' '', CHR '')''}"
      unfolding relation_text_def set_append by auto
    with that scope [of c] ref [of c] tag [of c] assms(2,3) show ?thesis by blast
  qed
  have "is_ascii_alphabetic (hd (relation_text r))"
    using relation_text_head(1) [of r "[]"] relation_text_head(2) [of r] by (simp add: stops_word_def)
  then have "is_ident (hd (relation_text r))" by (rule word_ident)
  then have "\<not> is_space (hd (relation_text r))" "hd (relation_text r) \<noteq> CHR ''#''"
    using ident_not_space ident_not_end [of "CHR ''#''"] by auto
  moreover have "last (relation_text r) = CHR '')''" by (simp add: relation_text_def)
  moreover have "CHR 0x0A \<notin> set (relation_text r)"
    using chars [of "CHR 0x0A"] ident_not_end [of "CHR 0x0A"] by auto
  ultimately show "line_ok (relation_text r)"
    using relation_text_head(2) by (simp add: line_ok_def space_code)
  have "CHR ''['' \<notin> set (relation_text r)"
    using chars [of "CHR ''[''"] ident_not_end [of "CHR ''[''"] by auto
  then show "\<not> sublist ''[/R]'' (relation_text r)"
    using set_mono_sublist [of "''[/R]''" "relation_text r"] by auto
qed

abbreviation unlines :: "string list \<Rightarrow> string" where
  "unlines ls \<equiv> concat (map (\<lambda>l. l @ [CHR 0x0A]) ls)"

lemma not_in_lines:
  assumes "CHR 0x0A \<notin> set p" "p \<noteq> []" "\<And>l. l \<in> set ls \<Longrightarrow> \<not> sublist p l"
  shows "\<not> sublist p (unlines ls)"
  using sublist_lines [OF assms, where z = "[]"] assms(2) by simp

lemma list_section_text:
  assumes "\<not> sublist (CHR ''['' # p) a" "CHR ''['' \<notin> set p" "\<not> sublist (CHR ''['' # q) b" "CHR ''['' \<notin> set q"
  shows "list_section (a @ (CHR ''['' # p) @ b @ (CHR ''['' # q) @ c) (CHR ''['' # p) (CHR ''['' # q) = Inr b"
  using split_once_mark [OF assms(2,1), of "b @ (CHR ''['' # q) @ c"] split_once_mark [OF assms(4,3), of c]
  by (simp add: list_section_def)

lemma list_roundtrip:
  assumes "list_canonical g"
  shows "unl_parse_list (serialize_list g) = Inr g"
proof -
  let ?entry = "ug_entry g"
  let ?ws = "map (\<lambda>(i, w). w_line i w (?entry = Some i)) (ug_nodes g)"
  let ?rs = "map relation_text (ug_relations g)"
  let ?last = "[CHR 0x0A]"
  have nodes: "ident_ok i \<and> canonical_uw w \<and> plain_text (write_uci (uw_uci w))" if "(i, w) \<in> set (ug_nodes g)" for i w
    using assms that by (auto simp: list_canonical_def list_all_iff)
  have rels: "scope_ok (rl_scope r) \<and> declared_ref (rl_source r) \<and> declared_ref (rl_target r)"
    if "r \<in> set (ug_relations g)" for r
    using assms that by (auto simp: list_canonical_def list_all_iff)
  have wlines: "line_ok l" "p \<in> {''[/W]'', ''[R]''} \<Longrightarrow> \<not> sublist p l" if "l \<in> set ?ws" for l p
    using that nodes w_line_ok by fastforce+
  have rlines: "line_ok l" "\<not> sublist ''[/R]'' l" if "l \<in> set ?rs" for l
    using that rels relation_line_ok by auto
  have whole: "serialize_list g = ''[W]'' @ unlines ([] # ?ws) @ ''[/W]'' @ ?last @ ''[R]'' @ unlines ([] # ?rs) @ ''[/R]'' @ ?last"
  proof -
    have "concat (map (write_w_line ?entry) (ug_nodes g)) = unlines ?ws"
      by (simp add: write_w_line_def [abs_def] w_line_def case_prod_unfold comp_def)
    moreover have "concat (map write_relation (ug_relations g)) = unlines ?rs"
      by (simp add: write_relation_text [abs_def] comp_def)
    ultimately show ?thesis unfolding serialize_list_def by simp
  qed
  have "\<not> sublist ''[/W]'' (unlines ([] # ?ws))"
    by (rule not_in_lines) (use wlines(2) [of _ "''[/W]''"] in auto)
  then have w: "list_section (serialize_list g) ''[W]'' ''[/W]'' = Inr (unlines ([] # ?ws))"
    using list_section_text [of "''W]''" "[]" "''/W]''" "unlines ([] # ?ws)"
        "?last @ ''[R]'' @ unlines ([] # ?rs) @ ''[/R]'' @ ?last"] by (simp add: whole)
  have "\<not> sublist ''[R]'' (unlines (''[W]'' # ?ws @ [''[/W]'']))"
    by (rule not_in_lines) (use wlines(2) [of _ "''[R]''"] in \<open>auto simp: sublist_Cons_right prefix_Cons\<close>)
  moreover have "\<not> sublist ''[/R]'' (unlines ([] # ?rs))"
    by (rule not_in_lines) (use rlines(2) in auto)
  ultimately have r: "list_section (serialize_list g) ''[R]'' ''[/R]'' = Inr (unlines ([] # ?rs))"
    using list_section_text [of "''R]''" "unlines (''[W]'' # ?ws @ [''[/W]''])" "''/R]''" "unlines ([] # ?rs)" ?last]
    by (simp add: whole)
  have "lines (unlines ([] # ?ws)) = [] # ?ws" "lines (unlines ([] # ?rs)) = [] # ?rs"
    using lines_text [of "[] # ?ws"] lines_text [of "[] # ?rs"] wlines(1) rlines(1)
    by (simp_all add: list_all_iff)
  moreover have "parse_w_lines ?ws unl_graph_new =
      Inr (unl_graph_new\<lparr>ug_nodes := ug_nodes unl_graph_new @ ug_nodes g,
             ug_entry := (if ?entry \<in> Some ` fst ` set (ug_nodes g) then ?entry else ug_entry unl_graph_new)\<rparr>)"
    by (rule parse_w_lines_text)
      (use assms nodes w_line_ok(1) in \<open>auto simp: list_canonical_def list_all_iff hm_wf_def unl_graph_new_def\<close>)
  moreover have "parse_r_lines ?rs g' = Inr (g'\<lparr>ug_relations := ug_relations g' @ ug_relations g\<rparr>)" for g'
    by (rule parse_r_lines_text) (use rels rlines(1) in \<open>auto simp: list_all_iff\<close>)
  moreover have "?entry \<in> Some ` fst ` set (ug_nodes g) \<or> ?entry = None"
    using assms by (auto simp: list_canonical_def hm_contains_def split: option.splits)
  ultimately show ?thesis
    by (auto simp: unl_parse_list_def w r unl_graph_new_def skipped_line_def unl_trim_def trim_matches_def)
qed

section \<open>Errors\<close>

lemma sublist_byte_len: "sublist a b \<Longrightarrow> byte_len a \<le> byte_len b"
  by (auto simp: sublist_def)

lemma split_char_sublist: "p \<in> set (split_char c s) \<Longrightarrow> sublist p s"
proof (induction c s arbitrary: p rule: split_char.induct)
  case (2 c x xs)
  show ?case
  proof (cases "x = c")
    case True
    with 2 show ?thesis by (auto simp: sublist_Cons_right)
  next
    case False
    obtain q qs where qs: "split_char c xs = q # qs" using split_char_nonempty by (cases "split_char c xs") auto
    have "prefix q xs"
      using qs by (induction xs arbitrary: q qs) (auto split: if_splits list.splits)
    with 2 False qs show ?thesis by (auto simp: sublist_Cons_right)
  qed
qed simp

lemma lines_sublist:
  assumes "l \<in> set (lines s)"
  shows "sublist l s"
proof -
  from assms obtain p where "p \<in> set (split_char (CHR 0x0A) s)" "l = strip_return p"
    by (auto simp: lines_def Let_def dest: in_set_butlastD split: if_splits)
  moreover have "prefix (strip_return p) p" by (simp add: strip_return_def prefixeq_butlast)
  ultimately show ?thesis using split_char_sublist by (blast intro: sublist_order.order_trans prefix_imp_sublist)
qed

lemma trim_sublist: "sublist (unl_trim s) s"
proof -
  have "prefix (rev (dropWhile is_space (rev t))) t" for t
    using suffix_dropWhile [of is_space "rev t"] by (simp add: suffix_to_prefix)
  then have "suffix (dropWhile is_space s) s" "prefix (unl_trim s) (dropWhile is_space s)"
    by (simp_all add: suffix_dropWhile unl_trim_def trim_matches_def)
  then show ?thesis by (blast intro: sublist_order.order_trans suffix_imp_sublist prefix_imp_sublist)
qed

lemma split_once_Some: "split_once p t = Some (a, b) \<Longrightarrow> t = a @ p @ b"
  by (induction p t arbitrary: a b rule: split_once.induct) (auto simp: prefix_def split: if_splits)

lemma section_sublist:
  assumes "list_section t p q = Inr s"
  shows "sublist s t"
proof -
  from assms obtain a b c where "split_once p t = Some (a, b)" "split_once q b = Some (s, c)"
    by (auto simp: list_section_def split: option.splits)
  then have "t = (a @ p) @ s @ (q @ c)" using split_once_Some by fastforce
  then show ?thesis unfolding sublist_def by blast
qed

lemma section_error:
  assumes "list_section t p q = Inl e"
  shows "\<exists>n m. e = Syntax n m \<and> n \<le> byte_len t"
  using assms split_once_Some [of p t] by (auto simp: list_section_def split: option.splits)

lemma behaves_error: "behaves (cursor_new s) (Inl (Syntax n m)) \<Longrightarrow> n \<le> byte_len s"
  by (simp add: behaves_def cursor_new_def)

lemma parse_w_line_error: "parse_w_line l g = Inl (Syntax n m) \<Longrightarrow> n \<le> byte_len l"
proof -
  assume err: "parse_w_line l g = Inl (Syntax n m)"
  obtain i k where k: "take_while is_ident (cursor_new l) = (i, k)" by (metis surj_pair)
  let ?p = "pthen (expect (CHR '':'') (skip_spaces k)) (\<lambda>_ k.
                 pthen (parse_uw (skip_spaces k)) (\<lambda>w k.
                 let k = skip_spaces k in
                 if cursor_eof k then Inr (w, k)
                 else Inl (perror k ''trailing characters after UW declaration'')))"
  have from_k: "consumes (cursor_new l) k" by (rule consumes_take_while [OF k])
  have "behaves k ?p"
    by (intro behaves_spaces [OF behaves_pthen] behaves_expect behaves_parse_uw) (simp add: Let_def)
  then have "behaves (cursor_new l) ?p" by (rule behaves_from [OF _ from_k])
  moreover have "behaves (cursor_new l) (Inl (perror k s) :: unit parsed)" for s by (rule behaves_perror [OF from_k])
  ultimately show ?thesis
    using err behaves_error [of l n m] k
    by (auto simp: parse_w_line_def perror_def behaves_def cursor_new_def Let_def split: if_splits sum.splits)
qed

lemma behaves_opt_scope:
  assumes "\<And>s k'. behaves k' (f s k')"
  shows "behaves k (let (s, k') = parse_opt_scope k in f s k')"
proof -
  obtain s k' where k': "parse_opt_scope k = (s, k')" by (metis surj_pair)
  show ?thesis unfolding k' Let_def prod.case by (rule behaves_from [OF assms consumes_opt_scope [OF k']])
qed

lemma behaves_parse_node_id: "behaves k (parse_node_id what k)"
  unfolding parse_node_id_def by (rule behaves_take_while) simp

lemma parse_r_line_error: "parse_r_line l = Inl (Syntax n m) \<Longrightarrow> n \<le> byte_len l"
proof -
  assume err: "parse_r_line l = Inl (Syntax n m)"
  let ?p = "pthen (parse_tag (cursor_new l)) (\<lambda>t k.
           let (scope, k) = parse_opt_scope k in
           pthen (expect (CHR ''('') k) (\<lambda>_ k.
           pthen (parse_node_id ''source'' (skip_spaces k)) (\<lambda>i k.
           pthen (expect (CHR '','') k) (\<lambda>_ k.
           pthen (parse_node_id ''target'' (skip_spaces k)) (\<lambda>j k.
           pthen (expect (CHR '')'') k) (\<lambda>_ k.
           Inr (\<lparr>rl_tag = t, rl_scope = scope, rl_source = NodeRef i, rl_target = NodeRef j\<rparr>, k)))))))"
  have "behaves (cursor_new l) ?p"
    by (intro behaves_pthen [OF behaves_parse_tag] behaves_opt_scope behaves_pthen [OF behaves_expect]
        behaves_spaces [OF behaves_pthen] behaves_parse_node_id) simp
  with err show ?thesis by (auto simp: parse_r_line_def behaves_def cursor_new_def split: sum.splits)
qed

lemma parse_w_lines_error:
  assumes "parse_w_lines ls g = Inl (Syntax n m)"
  shows "\<exists>l\<in>set ls. n \<le> byte_len l"
  using assms
proof (induction ls arbitrary: g)
  case (Cons l ls)
  have "n \<le> byte_len l" if "parse_w_line (unl_trim l) g = Inl (Syntax n m)"
    using parse_w_line_error [OF that] sublist_byte_len [OF trim_sublist] by (rule le_trans)
  with Cons show ?case by (auto simp: Let_def split: if_splits sum.splits)
qed simp

lemma parse_r_lines_error:
  assumes "parse_r_lines ls g = Inl (Syntax n m)"
  shows "\<exists>l\<in>set ls. n \<le> byte_len l"
  using assms
proof (induction ls arbitrary: g)
  case (Cons l ls)
  have "n \<le> byte_len l" if "parse_r_line (unl_trim l) = Inl (Syntax n m)"
    using parse_r_line_error [OF that] sublist_byte_len [OF trim_sublist] by (rule le_trans)
  with Cons show ?case by (auto simp: Let_def split: if_splits sum.splits)
qed simp

lemma parse_list_error:
  assumes "unl_parse_list t = Inl (Syntax n m)"
  shows "n \<le> byte_len t"
proof -
  have in_section: "n \<le> byte_len t" if "list_section t p q = Inr s" "l \<in> set (lines s)" "n \<le> byte_len l" for p q s l
    using that(3) sublist_byte_len [OF lines_sublist [OF that(2)]] sublist_byte_len [OF section_sublist [OF that(1)]]
    by simp
  from assms show ?thesis
    by (auto simp: unl_parse_list_def split: sum.splits
        dest!: section_error parse_w_lines_error parse_r_lines_error intro: in_section)
qed

lemma parse_table_error:
  "parse_table_loop g k = Inl (Syntax n m) \<Longrightarrow> fst k \<le> n \<and> n \<le> fst k + byte_len (snd k)"
proof (induction g k rule: parse_table_loop.induct)
  case (1 g k)
  let ?k = "skip_trivia k"
  from 1(2) have more: "\<not> cursor_eof ?k"
    by (subst (asm) parse_table_loop.simps) (auto simp: Let_def split: if_splits)
  have within: "fst k \<le> n \<and> n \<le> fst k + byte_len (snd k)"
    if "consumes k l" "fst l \<le> n \<and> n \<le> fst l + byte_len (snd l)" for l
    using that by (auto simp: consumes_def)
  show ?case
  proof (cases "parse_relation ?k")
    case (Inl e)
    with 1(2) more have "e = Syntax n m" by (subst (asm) parse_table_loop.simps) (simp add: Let_def)
    with behaves_parse_relation [of ?k] Inl show ?thesis
      by (intro within [OF consumes_skip_trivia]) (simp add: behaves_def)
  next
    case (Inr y)
    obtain r k' where y: "y = (r, k')" by (cases y)
    from 1(2) more Inr y have "parse_table_loop (add_relation r g) k' = Inl (Syntax n m)"
      by (subst (asm) parse_table_loop.simps) (simp add: Let_def)
    from 1(1) [OF refl more Inr y [symmetric] this] behaves_parse_relation [of ?k] Inr y
    show ?thesis by (intro within [OF consumes_trans [OF consumes_skip_trivia]]) auto
  qed
qed

section \<open>Properties\<close>

text \<open>C12: Writing a graph and reading it again gives the same graph. In either format, a canonical
  graph is parsed back exactly from its text: nodes, entry, relations, scopes, universal words and
  attributes in their order.\<close>

theorem sentence_roundtrip:
  assumes "canonical f g"
  shows "parse_sentence (serialize g f) = Inr g"
proof (cases f)
  case TableFormat
  with assms table_roundtrip show ?thesis
    by (simp add: canonical_def parse_sentence_def serialize_def)
next
  case ListFormat
  have "sublist ''[W]'' (serialize_list g)"
    by (rule prefix_imp_sublist) (simp add: serialize_list_def)
  with assms list_roundtrip ListFormat show ?thesis
    by (simp add: canonical_def parse_sentence_def serialize_def contains_str_def)
qed

definition example_graph :: unl_graph where
  "example_graph =
     \<lparr>ug_nodes = [(''01'', (uw_new (uci_ucn ''kill''))\<lparr>uw_attributes := [Time AtPast]\<rparr>),
                  (''02'', uw_new (TemporaryUw ''Peter [the first]'')), (''03'', uw_new (uci_ucl 42))],
      ug_relations = [relation_between TagAgt ''01'' ''02'', relation_between TagObj ''01'' ''03''],
      ug_entry = Some ''01''\<rparr>"

lemma example_graph_canonical: "canonical ListFormat example_graph"
  by code_simp

lemma sentence_roundtrip_witness:
  "parse_sentence (serialize example_graph ListFormat) = Inr example_graph"
  by (rule sentence_roundtrip [OF example_graph_canonical])

text \<open>
  Outside the canonical graphs the text means something else. A quoted text in a declaration can
  contain the mark of the relation block, which is searched in the whole text: all relations are
  lost, without an error. A line feed in a quoted text makes the text unreadable.
\<close>

lemma quoted_mark_drops_relations:
  "let g = \<lparr>ug_nodes = [(''01'', uw_new (TemporaryUw ''[R]#[/R]''))],
            ug_relations = [relation_between TagAgt ''01'' ''01''], ug_entry = None\<rparr>
   in parse_sentence (serialize g ListFormat) = Inr (g\<lparr>ug_relations := []\<rparr>)"
  by code_simp

lemma quoted_line_feed_unreadable:
  "let g = \<lparr>ug_nodes = [(''01'', uw_new (TemporaryUw [CHR ''a'', CHR 0x0A, CHR ''b'']))],
            ug_relations = [], ug_entry = None\<rparr>
   in \<exists>e. parse_sentence (serialize g ListFormat) = Inl e"
proof -
  let ?g = "\<lparr>ug_nodes = [(''01'', uw_new (TemporaryUw [CHR ''a'', CHR 0x0A, CHR ''b'']))],
            ug_relations = [], ug_entry = None\<rparr>"
  have "parse_sentence (serialize ?g ListFormat) = Inl (Syntax 6 ''unterminated quoted temporary'')"
    by code_simp
  then show ?thesis by (simp add: Let_def)
qed

text \<open>Whatever follows a relation on its line is ignored.\<close>

lemma relation_line_ignores_rest:
  "parse_r_line ''agt(01, 02) obj(01, 03)'' = Inr (relation_between TagAgt ''01'' ''02'')"
  by code_simp

text \<open>C38: Errors point into the text. Whatever text is parsed as a sentence, in either format, the
  offset a syntax error reports is at most the length of the text in bytes.\<close>

theorem parse_error_within_text:
  assumes "parse_sentence t = Inl (Syntax n m)"
  shows "n \<le> byte_len t"
  using assms parse_list_error [of t n m] parse_table_error [of unl_graph_new "cursor_new t" n m]
  by (auto simp: parse_sentence_def unl_parse_table_def cursor_new_def split: if_splits)

lemma parse_error_within_text_witness:
  "parse_sentence ''agt(kill Peter)'' = Inl (Syntax 9 (''expected '' @ in_quotes '','' @ '', found '' @ in_quotes ''P''))
   \<and> 9 \<le> byte_len ''agt(kill Peter)''"
proof -
  have "parse_sentence ''agt(kill Peter)'' = Inl (Syntax 9 (''expected '' @ in_quotes '','' @ '', found '' @ in_quotes ''P''))"
    by code_simp
  with parse_error_within_text [OF this] show ?thesis by blast
qed

end
