(* ===== verification/Unl_Content.thy ===== *)
theory Unl_Content
  imports Unl_Roundtrip Unl_Validator Supervisor
begin

text \<open>
  UNL as a content language of the platform (\<^verbatim>\<open>src/content/unl.rs\<close>): attaching a graph to a message
  and reading it back, the verifier in front of an agent, the packager of what agents send, and the
  registry of the agents' vocabularies. \<open>Agent_Actor\<close> and \<open>Supervisor\<close> take such a verifier
  and packager as parameters; here they are the ones of the code.

  Bytes are text if they are UTF-8. The texts of the model have characters up to U+00FF: bytes
  that encode other characters are outside the model, \<open>from_utf8\<close> refuses them like bytes that
  are no UTF-8. The lock of the registry is never poisoned.
\<close>

section \<open>UTF-8\<close>

definition utf8_char :: "char \<Rightarrow> bytes" where
  "utf8_char c =
     (if code c < 128 then [of_nat (code c)]
      else [of_nat (0xC0 + code c div 64), of_nat (0x80 + code c mod 64)])"

definition utf8 :: "string \<Rightarrow> bytes" where
  "utf8 s = concat (map utf8_char s)"

fun from_utf8 :: "bytes \<Rightarrow> string option" where
  "from_utf8 [] = Some []"
| "from_utf8 [b] = (if unat b < 0x80 then Some [char_of (unat b)] else None)"
| "from_utf8 (b # c # bs) =
     (if unat b < 0x80 then map_option (\<lambda>s. char_of (unat b) # s) (from_utf8 (c # bs))
      else if (unat b = 0xC2 \<or> unat b = 0xC3) \<and> 0x80 \<le> unat c \<and> unat c < 0xC0
      then map_option (\<lambda>s. char_of ((unat b - 0xC0) * 64 + (unat c - 0x80)) # s) (from_utf8 bs)
      else None)"

lemma code_less: "code c < 256"
  unfolding code_def by (metis of_char_mod_256 mod_less_divisor zero_less_numeral)

lemma char_of_code [simp]: "char_of (code c) = c"
  by (simp add: code_def)

lemma from_utf8_low: "unat b < 0x80 \<Longrightarrow> from_utf8 (b # bs) = map_option (\<lambda>s. char_of (unat b) # s) (from_utf8 bs)"
  by (cases bs) simp_all

lemma unat_byte: "n < 256 \<Longrightarrow> unat (of_nat n :: byte) = n"
  by (simp add: unat_of_nat)

lemma from_utf8_utf8 [simp]: "from_utf8 (utf8 s) = Some s"
proof (induction s)
  case Nil
  then show ?case by (simp add: utf8_def)
next
  case (Cons c s)
  have utf8: "utf8 (c # s) = utf8_char c @ utf8 s" by (simp add: utf8_def)
  show ?case
  proof (cases "code c < 128")
    case True
    then have "unat (of_nat (code c) :: byte) = code c" by (simp add: unat_of_nat)
    with True Cons show ?thesis by (simp add: utf8 utf8_char_def from_utf8_low)
  next
    case False
    let ?b = "of_nat (0xC0 + code c div 64) :: byte" and ?d = "of_nat (0x80 + code c mod 64) :: byte"
    have div: "code c div 64 = 2 \<or> code c div 64 = 3" using False code_less [of c] by auto
    then have b: "unat ?b = 0xC0 + code c div 64" by (intro unat_byte) auto
    have "code c mod 64 < 64" by simp
    then have d: "unat ?d = 0x80 + code c mod 64" by (intro unat_byte) simp
    have "(unat ?b - 0xC0) * 64 + (unat ?d - 0x80) = code c" unfolding b d by simp
    moreover have "unat ?b = 0xC2 \<or> unat ?b = 0xC3" unfolding b using div by auto
    moreover have "0x80 \<le> unat ?d \<and> unat ?d < 0xC0" unfolding d using \<open>code c mod 64 < 64\<close> by simp
    moreover have "\<not> unat ?b < 0x80" unfolding b by simp
    ultimately have "from_utf8 (?b # ?d # utf8 s) = map_option (\<lambda>t. char_of (code c) # t) (from_utf8 (utf8 s))"
      by (simp only: from_utf8.simps if_True if_False simp_thms)
    then show ?thesis using False Cons by (simp add: utf8 utf8_char_def)
  qed
qed

section \<open>Errors\<close>

datatype unl_error =
    NotUnl
  | UnlUtf8
  | UnlParse parse_error
  | UnlFipa string
  | UnlPerformative
  | UnlBlock string

fun core_error_to_string :: "printers \<Rightarrow> core_error \<Rightarrow> string" where
  "core_error_to_string pr (InvalidUcl s) = ''invalid UCL id: '' @ s"
| "core_error_to_string pr (InvalidUcn s) = ''malformed UCN: '' @ s"
| "core_error_to_string pr (UnknownRelation s) = ''unknown relation tag: '' @ s"
| "core_error_to_string pr (DanglingRef i) = ''dangling node reference: '' @ debug_node_id pr i"
| "core_error_to_string pr (InvalidLang s) = ''invalid ISO 639-3 language code: '' @ s"

fun parse_error_to_string :: "printers \<Rightarrow> parse_error \<Rightarrow> string" where
  "parse_error_to_string pr (Syntax n m) = ''syntax error at byte '' @ nat_to_string n @ '': '' @ m"
| "parse_error_to_string pr (CoreErr e) = core_error_to_string pr e"
| "parse_error_to_string pr (Unsupported s) = ''unsupported format: '' @ s"

fun unl_error_to_string :: "printers \<Rightarrow> unl_error \<Rightarrow> string" where
  "unl_error_to_string pr NotUnl = ''message content language is not UNL''"
| "unl_error_to_string pr UnlUtf8 = ''UNL content is not valid UTF-8''"
| "unl_error_to_string pr (UnlParse e) = ''unparseable UNL content: '' @ parse_error_to_string pr e"
| "unl_error_to_string pr (UnlFipa s) = ''FIPA string error: '' @ s"
| "unl_error_to_string pr UnlPerformative = ''performative has no UNL/FIPA equivalent''"
| "unl_error_to_string pr (UnlBlock s) = ''malformed message blocks: '' @ s"

section \<open>Content of a message\<close>

definition content_language :: string where
  "content_language = ''UNL''"

definition is_unl :: "acl_message \<Rightarrow> bool" where
  "is_unl m \<longleftrightarrow> language m = Some content_language"

definition set_unl_content :: "unl_graph \<Rightarrow> acl_message \<Rightarrow> acl_message" where
  "set_unl_content g m =
     m\<lparr>content := utf8 (serialize_list g), language := Some content_language, encoding := Some ''utf-8''\<rparr>"

definition set_message_content_bytes :: "bytes \<Rightarrow> bytes \<Rightarrow> acl_message \<Rightarrow> acl_message" where
  "set_message_content_bytes unl body m =
     m\<lparr>content := encode (with_block tag_data body (with_block tag_unl unl block_file_new)),
       language := Some content_language, encoding := Some ''application/x-fipa-blocks''\<rparr>"

definition set_message_content :: "unl_graph \<Rightarrow> bytes \<Rightarrow> acl_message \<Rightarrow> acl_message" where
  "set_message_content g body m =
     m\<lparr>content := encode (with_block tag_data body (with_block tag_unl (utf8 (serialize_list g)) block_file_new)),
       language := Some content_language, encoding := Some ''application/x-fipa-blocks''\<rparr>"

definition message_data :: "acl_message \<Rightarrow> bytes" where
  "message_data m =
     (if is_block_container (content m) then
        (case decode (content m) of
           Inl _ \<Rightarrow> []
         | Inr f \<Rightarrow> (case get_block tag_data f of Some d \<Rightarrow> d | None \<Rightarrow> []))
      else [])"

text \<open>The bytes of the graph: the UNL block of a container, or the whole content.\<close>

definition unl_bytes :: "acl_message \<Rightarrow> unl_error + bytes" where
  "unl_bytes m =
     (if is_block_container (content m) then
        (case decode (content m) of
           Inl e \<Rightarrow> Inl (UnlBlock (block_error_to_string e))
         | Inr f \<Rightarrow> (case get_block tag_unl f of None \<Rightarrow> Inl NotUnl | Some b \<Rightarrow> Inr b))
      else Inr (content m))"

definition parse_unl_bytes :: "bytes \<Rightarrow> unl_error + unl_graph" where
  "parse_unl_bytes bs =
     (case from_utf8 bs of
        None \<Rightarrow> Inl UnlUtf8
      | Some t \<Rightarrow> (case parse_sentence t of Inl e \<Rightarrow> Inl (UnlParse e) | Inr g \<Rightarrow> Inr g))"

definition unl_graph_of :: "acl_message \<Rightarrow> unl_error + unl_graph" where
  "unl_graph_of m =
     (if \<not> is_unl m then Inl NotUnl
      else (case unl_bytes m of Inl e \<Rightarrow> Inl e | Inr bs \<Rightarrow> parse_unl_bytes bs))"

section \<open>The verifier\<close>

fun join_with :: "string \<Rightarrow> string list \<Rightarrow> string" where
  "join_with sep [] = []"
| "join_with sep [s] = s"
| "join_with sep (s # t # ts) = s @ sep @ join_with sep (t # ts)"

definition unl_verify :: "printers \<Rightarrow> vocabulary \<Rightarrow> acl_message \<Rightarrow> string + unit" where
  "unl_verify pr v m =
     (if \<not> is_unl m then Inr ()
      else (case unl_graph_of m of
              Inl e \<Rightarrow> Inl (unl_error_to_string pr e)
            | Inr g \<Rightarrow>
                (case verify_vocabulary pr g v of
                   Inr () \<Rightarrow> Inr ()
                 | Inl ds \<Rightarrow> Inl (''not understood ('' @ nat_to_string (length ds) @ '' issue(s)): ''
                                @ join_with ''; '' (map dg_message ds)))))"

definition unl_sanitize :: "printers \<Rightarrow> vocabulary \<Rightarrow> sanitizer" where
  "unl_sanitize pr v m =
     (case unl_verify pr v m of
        Inl e \<Rightarrow> Inl e
      | Inr () \<Rightarrow>
          if \<not> is_unl m then Inr None
          else (case unl_graph_of m of
                  Inl e \<Rightarrow> Inl (unl_error_to_string pr e)
                | Inr g \<Rightarrow> Inr (Some \<lparr>de_unl = utf8 (serialize_list g), de_body = message_data m\<rparr>)))"

record inbound =
  ib_performative :: int
  ib_sender :: "agent_id option"
  ib_conversation_id :: "string option"
  ib_graph :: unl_graph
  ib_data :: bytes

text \<open>\<open>verify\<close> is the method of the verifier; the UUID is that of the reply.\<close>

definition sanitize_inbound ::
    "string \<Rightarrow> acl_message \<Rightarrow> string \<Rightarrow> (acl_message \<Rightarrow> string + unit) \<Rightarrow> acl_message + inbound option" where
  "sanitize_inbound uuid m my_name verify =
     (case verify m of
        Inl _ \<Rightarrow> Inl (not_understood uuid m my_name)
      | Inr () \<Rightarrow>
          if \<not> is_unl m then Inr None
          else (case unl_graph_of m of
                  Inl _ \<Rightarrow> Inl (not_understood uuid m my_name)
                | Inr g \<Rightarrow> Inr (Some
                    \<lparr>ib_performative = performative m, ib_sender = sender m,
                     ib_conversation_id = conversation_id m, ib_graph = g, ib_data = message_data m\<rparr>)))"

section \<open>The packager\<close>

type_synonym vocab_registry = "(string, vocabulary) hashmap"

definition registry_register :: "string \<Rightarrow> vocabulary \<Rightarrow> vocab_registry \<Rightarrow> vocab_registry" where
  "registry_register a v r = hm_insert a v r"

definition registry_get :: "vocab_registry \<Rightarrow> string \<Rightarrow> vocabulary option" where
  "registry_get r a = hm_get r a"

definition registry_knows :: "vocab_registry \<Rightarrow> string \<Rightarrow> bool" where
  "registry_knows r a = hm_contains r a"

definition agent_named :: "string \<Rightarrow> agent_id" where
  "agent_named n = \<lparr>name = n, addresses = [], resolvers = []\<rparr>"

definition new_unl_id :: "string \<Rightarrow> string" where
  "new_unl_id uuid = ''unl-'' @ uuid"

text \<open>The message both packagers start from.\<close>

definition inform_message :: "string \<Rightarrow> string \<Rightarrow> string \<Rightarrow> acl_message" where
  "inform_message uuid from to =
     \<lparr>message_id = new_unl_id uuid, performative = performative_as_i32 Inform,
      sender = Some (agent_named from), receivers = [agent_named to], reply_to = None, protocol = None,
      conversation_id = None, in_reply_to = None, reply_with = None, reply_by = None, language = None,
      encoding = None, ontology = None, content = [], user_properties = []\<rparr>"

definition unl_package :: "printers \<Rightarrow> string \<Rightarrow> vocab_registry \<Rightarrow> packager" where
  "unl_package pr uuid reg from to unl body =
     (case from_utf8 unl of
        None \<Rightarrow> Inl ''outgoing UNL is not UTF-8''
      | Some t \<Rightarrow>
          (case parse_sentence t of
             Inl e \<Rightarrow> Inl (parse_error_to_string pr e)
           | Inr g \<Rightarrow>
               (case registry_get reg to of
                  None \<Rightarrow> Inr (set_message_content_bytes unl body (inform_message uuid from to))
                | Some v \<Rightarrow>
                    (case verify_vocabulary pr g v of
                       Inl ds \<Rightarrow> Inl (''receiver '' @ in_ticks to @ '' would not understand (''
                                    @ nat_to_string (length ds) @ '' issue(s))'')
                     | Inr () \<Rightarrow> Inr (set_message_content_bytes unl body (inform_message uuid from to))))))"

definition package_outbound ::
    "printers \<Rightarrow> string \<Rightarrow> string \<Rightarrow> string \<Rightarrow> unl_graph \<Rightarrow> bytes \<Rightarrow> vocab_registry \<Rightarrow> diagnostic list + acl_message" where
  "package_outbound pr uuid from to g body reg =
     (case registry_get reg to of
        None \<Rightarrow> Inr (set_message_content g body (inform_message uuid from to))
      | Some v \<Rightarrow>
          (case verify_vocabulary pr g v of
             Inl ds \<Rightarrow> Inl ds
           | Inr () \<Rightarrow> Inr (set_message_content g body (inform_message uuid from to))))"

section \<open>What the receiver reads\<close>

lemma case_unit_any [simp]: "(case u of () \<Rightarrow> x) = x"
  by (cases u, simp only: unit.case)

lemma verify_vocabulary_Inr: "verify_vocabulary pr g v = Inr u \<longleftrightarrow> understood v g"
proof -
  let ?s = "structural_integrity pr g" and ?v = "vocabulary_check pr g v"
  have "understood v g \<longleftrightarrow> ?s = [] \<and> ?v = []"
    by (auto simp: understood_def structural_Nil vocabulary_Nil list_all_iff)
  moreover have "has_errors (?s @ ?v) \<longleftrightarrow> \<not> (?s = [] \<and> ?v = [])"
    using structural_codes [of "hd ?s" pr g] vocabulary_codes [of "hd ?v" pr g v]
    by (cases ?s; cases ?v) (simp_all add: has_errors_def)
  ultimately show ?thesis
    unfolding verify_vocabulary_def errors_only Let_def by (cases u) auto
qed

lemma list_text_parses: "list_canonical g \<Longrightarrow> parse_sentence (serialize_list g) = Inr g"
proof -
  assume "list_canonical g"
  moreover have "contains_str (serialize_list g) ''[W]''"
    unfolding contains_str_def by (rule prefix_imp_sublist) (simp add: serialize_list_def)
  ultimately show ?thesis by (simp add: parse_sentence_def list_roundtrip)
qed

lemma length_utf8_char: "length (utf8_char c) = len_utf8 c"
  by (simp add: utf8_char_def len_utf8_def)

lemma length_utf8: "length (utf8 s) = byte_len s"
  by (induction s) (simp_all add: utf8_def length_utf8_char)

abbreviation content_blocks :: "bytes \<Rightarrow> bytes \<Rightarrow> block_file" where
  "content_blocks u d \<equiv> with_block tag_data d (with_block tag_unl u block_file_new)"

lemma content_blocks_decode:
  assumes "length u < 2 ^ 32" and "length d < 2 ^ 32"
  shows "decode (encode (content_blocks u d)) = Inr (content_blocks u d)"
proof -
  have "\<forall>b \<in> set (blocks (content_blocks u d)). block_wf b"
    using assms by (simp add: with_block_def block_file_new_def block_wf_def tag_unl_def tag_data_def ascii_def)
  from decode_encode_prefix [OF this, of "[]"] show ?thesis
    by (simp add: with_block_def block_file_new_def)
qed

lemma content_blocks_get:
  "get_block tag_unl (content_blocks u d) = Some u" "get_block tag_data (content_blocks u d) = Some d"
  by (simp_all add: get_block_def with_block_def block_file_new_def tag_unl_def tag_data_def ascii_def)

lemma encode_is_container [simp]: "is_block_container (encode f)"
  by (simp add: is_block_container_def encode_def)

lemma content_bytes_read:
  assumes "length u < 2 ^ 32" and "length d < 2 ^ 32"
  shows "unl_graph_of (set_message_content_bytes u d m) = parse_unl_bytes u"
    and "message_data (set_message_content_bytes u d m) = d"
    and "is_unl (set_message_content_bytes u d m)"
  using assms
  by (simp_all add: unl_graph_of_def unl_bytes_def message_data_def is_unl_def set_message_content_bytes_def
      content_blocks_decode content_blocks_get)

lemma set_message_content_eq: "set_message_content g d m = set_message_content_bytes (utf8 (serialize_list g)) d m"
  by (simp add: set_message_content_def set_message_content_bytes_def)

lemma parse_unl_bytes_utf8: "parse_unl_bytes (utf8 t) = (case parse_sentence t of Inl e \<Rightarrow> Inl (UnlParse e) | Inr g \<Rightarrow> Inr g)"
  by (simp add: parse_unl_bytes_def)

lemma parse_unl_bytes_canonical: "list_canonical g \<Longrightarrow> parse_unl_bytes (utf8 (serialize_list g)) = Inr g"
  by (simp add: parse_unl_bytes_utf8 list_text_parses)

lemma verify_iff:
  assumes "is_unl m"
  shows "unl_verify pr v m = Inr () \<longleftrightarrow> (\<exists>g. unl_graph_of m = Inr g \<and> understood v g)"
proof (cases "unl_graph_of m")
  case (Inl e)
  with assms show ?thesis by (simp only: unl_verify_def not_True_eq_False if_False sum.case sum.distinct) simp
next
  case (Inr g)
  show ?thesis
  proof (cases "verify_vocabulary pr g v")
    case err: (Inl ds)
    then have "\<not> understood v g" using verify_vocabulary_Inr [of pr g v "()"] by simp
    with assms Inr err show ?thesis by (simp only: unl_verify_def not_True_eq_False if_False sum.case) simp
  next
    case ok: (Inr u)
    then have "understood v g" using verify_vocabulary_Inr [of pr g v u] by blast
    moreover have "u = ()" by simp
    ultimately show ?thesis using assms Inr ok
      by (simp only: unl_verify_def not_True_eq_False if_False sum.case unit.case) blast
  qed
qed

lemma sanitize_accepts:
  assumes "is_unl m" and "unl_graph_of m = Inr g" and "understood v g"
  shows "unl_sanitize pr v m = Inr (Some \<lparr>de_unl = utf8 (serialize_list g), de_body = message_data m\<rparr>)"
proof -
  have "unl_verify pr v m = Inr ()" using assms verify_iff [of m pr v] by blast
  with assms show ?thesis
    by (simp only: unl_sanitize_def not_True_eq_False if_False sum.case unit.case)
qed

section \<open>Properties\<close>

text \<open>The packager and the receiver agree. A graph packaged for a receiver whose vocabulary is
  registered is understood by it; the sanitizer with that vocabulary accepts the message, reads the
  same graph, and hands the agent the text of that graph and the body. Without a registered
  vocabulary the receiver still reads the same graph and body. The graph is one the list format
  writes faithfully, and the text and the body are shorter than 2 ^ 32 bytes.\<close>

theorem packaged_message_understood:
  assumes "list_canonical g" and "length (utf8 (serialize_list g)) < 2 ^ 32" and "length body < 2 ^ 32"
    and "package_outbound pr uuid from to g body reg = Inr m"
  shows "unl_graph_of m = Inr g \<and> message_data m = body
     \<and> (case registry_get reg to of
          None \<Rightarrow> True
        | Some v \<Rightarrow> understood v g
            \<and> unl_sanitize pr v m = Inr (Some \<lparr>de_unl = utf8 (serialize_list g), de_body = body\<rparr>))"
proof -
  let ?m = "set_message_content_bytes (utf8 (serialize_list g)) body (inform_message uuid from to)"
  have m: "m = ?m" and ok: "\<And>v. registry_get reg to = Some v \<Longrightarrow> verify_vocabulary pr g v = Inr ()"
    using assms(4) unfolding package_outbound_def set_message_content_eq
    by (simp_all only: split: option.splits sum.splits unit.splits) blast+
  note read = content_bytes_read [OF assms(2,3)]
  have g: "unl_graph_of ?m = Inr g"
    unfolding read by (rule parse_unl_bytes_canonical [OF assms(1)])
  moreover have "understood v g \<and> unl_sanitize pr v ?m = Inr (Some \<lparr>de_unl = utf8 (serialize_list g), de_body = body\<rparr>)"
    if "registry_get reg to = Some v" for v
    using sanitize_accepts [OF read(3) g] ok [OF that] read(2) by (simp add: verify_vocabulary_Inr)
  ultimately show ?thesis using read(2) by (simp add: m split: option.split)
qed

definition cat_vocabulary :: vocabulary where
  "cat_vocabulary =
     allow_relation TagIcl
       (allow_concept 1 \<lparr>cf_category = Nominal, cf_abstract = False, cf_gloss = None\<rparr> [2] [] [''cat'']
         (allow_concept 2 \<lparr>cf_category = Nominal, cf_abstract = False, cf_gloss = None\<rparr> [] [] [''animal'']
           vocabulary_new))"

definition cat_icl_animal :: unl_graph where
  "cat_icl_animal =
     \<lparr>ug_nodes = [(''01'', uw_new (uci_ucn ''cat'')), (''02'', uw_new (uci_ucn ''animal''))],
      ug_relations = [relation_between TagIcl ''01'' ''02''], ug_entry = Some ''01''\<rparr>"

definition cat_message :: acl_message where
  "cat_message = set_message_content cat_icl_animal [1, 2, 3] (inform_message ''u'' ''alice'' ''bob'')"

lemma cat_canonical: "list_canonical cat_icl_animal"
  by code_simp

lemma cat_length: "length (utf8 (serialize_list cat_icl_animal)) < 100"
  by code_simp

lemma cat_understood: "understood cat_vocabulary cat_icl_animal"
  by code_simp

lemma cat_packaged:
  "package_outbound pr ''u'' ''alice'' ''bob'' cat_icl_animal [1, 2, 3] [(''bob'', cat_vocabulary)] = Inr cat_message"
proof -
  have "registry_get [(''bob'', cat_vocabulary)] ''bob'' = Some cat_vocabulary" by (simp add: registry_get_def)
  moreover have "verify_vocabulary pr cat_icl_animal cat_vocabulary = Inr ()"
    using cat_understood by (simp only: verify_vocabulary_Inr)
  ultimately show ?thesis by (simp add: package_outbound_def cat_message_def)
qed

lemma packaged_message_understood_witness:
  "unl_graph_of cat_message = Inr cat_icl_animal \<and> message_data cat_message = [1, 2, 3]
   \<and> understood cat_vocabulary cat_icl_animal"
proof -
  have "length (utf8 (serialize_list cat_icl_animal)) < 2 ^ 32" "length [1, 2, 3 :: byte] < 2 ^ 32"
    using cat_length by simp_all
  from packaged_message_understood [OF cat_canonical this cat_packaged] show ?thesis
    by (simp add: registry_get_def)
qed

text \<open>C33: Nothing reaches an agent through the verifier unless it is understood. The sanitizer rejects
  exactly the UNL messages whose content does not parse or whose graph is not understood with the
  vocabulary of the agent, passes exactly the messages in other languages to the raw path, and
  otherwise delivers the list text of the graph together with the data block; if the list format
  writes that graph faithfully, the delivered text reads as the verified graph.\<close>

theorem sanitize_exact:
  "case unl_sanitize pr v m of
     Inl _ \<Rightarrow> is_unl m \<and> (case unl_graph_of m of Inl _ \<Rightarrow> True | Inr g \<Rightarrow> \<not> understood v g)
   | Inr None \<Rightarrow> \<not> is_unl m
   | Inr (Some d) \<Rightarrow>
       (case unl_graph_of m of
          Inl _ \<Rightarrow> False
        | Inr g \<Rightarrow> is_unl m \<and> understood v g \<and> de_unl d = utf8 (serialize_list g) \<and> de_body d = message_data m
            \<and> (list_canonical g \<longrightarrow> parse_unl_bytes (de_unl d) = Inr g))"
proof (cases "is_unl m")
  case False
  then show ?thesis by (simp add: unl_sanitize_def unl_verify_def)
next
  case unl: True
  show ?thesis
  proof (cases "unl_graph_of m")
    case (Inl e)
    with unl have "unl_sanitize pr v m = Inl (unl_error_to_string pr e)"
      by (simp only: unl_sanitize_def unl_verify_def not_True_eq_False if_False sum.case)
    with unl Inl show ?thesis by simp
  next
    case (Inr g)
    show ?thesis
    proof (cases "understood v g")
      case True
      from sanitize_accepts [OF unl Inr this] unl Inr True show ?thesis
        by (simp add: parse_unl_bytes_canonical)
    next
      case False
      then have "unl_verify pr v m \<noteq> Inr ()" using verify_iff [OF unl, of pr v] Inr by simp
      then obtain e where "unl_verify pr v m = Inl e"
        by (cases "unl_verify pr v m") simp_all
      with unl Inr False show ?thesis by (simp add: unl_sanitize_def)
    qed
  qed
qed

lemma cat_read: "is_unl cat_message" "unl_graph_of cat_message = Inr cat_icl_animal"
proof -
  have "length (utf8 (serialize_list cat_icl_animal)) < 2 ^ 32" "length [1, 2, 3 :: byte] < 2 ^ 32"
    using cat_length by simp_all
  note r = content_bytes_read [OF this]
  show "is_unl cat_message" "unl_graph_of cat_message = Inr cat_icl_animal"
    unfolding cat_message_def set_message_content_eq r using parse_unl_bytes_canonical [OF cat_canonical]
    by (simp_all add: r(3))
qed

lemma sanitize_exact_witness:
  "(case unl_sanitize plain_printers cat_vocabulary cat_message of
      Inr (Some d) \<Rightarrow> parse_unl_bytes (de_unl d) = Inr cat_icl_animal
    | _ \<Rightarrow> False)"
  using sanitize_exact [where pr = plain_printers and v = cat_vocabulary and m = cat_message] cat_read cat_understood cat_canonical
  by (simp split: sum.splits option.splits)

text \<open>
  The text handed to the agent is always in the list format. A sentence in the table format has its
  universal words inside the relations, where the list format expects declared nodes: the receiver
  verified the word \<open>cat\<close>, but the agent reads references to nodes that are not declared.
\<close>

lemma table_content_redelivered_dangling:
  "let m = (inform_message ''u'' ''alice'' ''bob'')\<lparr>content := utf8 ''icl(cat, animal)'', language := Some ''UNL''\<rparr>
   in unl_graph_of m = Inr \<lparr>ug_nodes = [],
          ug_relations = [\<lparr>rl_tag = TagIcl, rl_scope = None, rl_source = Inline (uw_new (uci_ucn ''cat'')),
            rl_target = Inline (uw_new (uci_ucn ''animal''))\<rparr>], ug_entry = None\<rparr>
    \<and> (case unl_sanitize pr cat_vocabulary m of
         Inr (Some d) \<Rightarrow>
           parse_unl_bytes (de_unl d) = Inr \<lparr>ug_nodes = [], ug_relations = [relation_between TagIcl ''cat'' ''animal''],
             ug_entry = None\<rparr>
         | _ \<Rightarrow> False)"
  by code_simp

end
