(* ===== verification/Unl_Fipa.thy ===== *)
theory Unl_Fipa
  imports Unl_Content
begin

text \<open>
  UNL under a FIPA performative (\<^verbatim>\<open>crates/unl-fipa\<close>): the envelope, its string form, the reader of
  s-expressions and of that string form, and the conversion between the envelope and the messages
  of the platform (\<^verbatim>\<open>src/content/unl.rs\<close>). Agent and conversation ids are their texts.
\<close>

section \<open>Performatives\<close>

datatype fipa_performative =
    UAcceptProposal | UAgree | UCancel | UCfp | UConfirm | UDisconfirm | UFailure | UInform | UInformIf
  | UInformRef | UNotUnderstood | UPropagate | UPropose | UProxy | UQueryIf | UQueryRef | URefuse
  | URejectProposal | URequest | URequestWhen | URequestWhenever | USubscribe

definition fipa_performatives :: "fipa_performative list" where
  "fipa_performatives =
     [UAcceptProposal, UAgree, UCancel, UCfp, UConfirm, UDisconfirm, UFailure, UInform, UInformIf,
      UInformRef, UNotUnderstood, UPropagate, UPropose, UProxy, UQueryIf, UQueryRef, URefuse,
      URejectProposal, URequest, URequestWhen, URequestWhenever, USubscribe]"

fun fipa_as_str :: "fipa_performative \<Rightarrow> string" where
  "fipa_as_str UAcceptProposal = ''accept-proposal''"
| "fipa_as_str UAgree = ''agree''"
| "fipa_as_str UCancel = ''cancel''"
| "fipa_as_str UCfp = ''cfp''"
| "fipa_as_str UConfirm = ''confirm''"
| "fipa_as_str UDisconfirm = ''disconfirm''"
| "fipa_as_str UFailure = ''failure''"
| "fipa_as_str UInform = ''inform''"
| "fipa_as_str UInformIf = ''inform-if''"
| "fipa_as_str UInformRef = ''inform-ref''"
| "fipa_as_str UNotUnderstood = ''not-understood''"
| "fipa_as_str UPropagate = ''propagate''"
| "fipa_as_str UPropose = ''propose''"
| "fipa_as_str UProxy = ''proxy''"
| "fipa_as_str UQueryIf = ''query-if''"
| "fipa_as_str UQueryRef = ''query-ref''"
| "fipa_as_str URefuse = ''refuse''"
| "fipa_as_str URejectProposal = ''reject-proposal''"
| "fipa_as_str URequest = ''request''"
| "fipa_as_str URequestWhen = ''request-when''"
| "fipa_as_str URequestWhenever = ''request-whenever''"
| "fipa_as_str USubscribe = ''subscribe''"

definition fipa_performative_from_str :: "string \<Rightarrow> fipa_performative option" where
  "fipa_performative_from_str s = find (\<lambda>p. fipa_as_str p = s) fipa_performatives"

fun proto_to_unl_perf :: "performative \<Rightarrow> unl_error + fipa_performative" where
  "proto_to_unl_perf AcceptProposal = Inr UAcceptProposal"
| "proto_to_unl_perf Agree = Inr UAgree"
| "proto_to_unl_perf Cancel = Inr UCancel"
| "proto_to_unl_perf Cfp = Inr UCfp"
| "proto_to_unl_perf Confirm = Inr UConfirm"
| "proto_to_unl_perf Disconfirm = Inr UDisconfirm"
| "proto_to_unl_perf Failure = Inr UFailure"
| "proto_to_unl_perf Inform = Inr UInform"
| "proto_to_unl_perf InformDone = Inr UInform"
| "proto_to_unl_perf InformResult = Inr UInform"
| "proto_to_unl_perf InformIf = Inr UInformIf"
| "proto_to_unl_perf InformRef = Inr UInformRef"
| "proto_to_unl_perf NotUnderstood = Inr UNotUnderstood"
| "proto_to_unl_perf Propagate = Inr UPropagate"
| "proto_to_unl_perf Propose = Inr UPropose"
| "proto_to_unl_perf Proxy = Inr UProxy"
| "proto_to_unl_perf QueryIf = Inr UQueryIf"
| "proto_to_unl_perf QueryRef = Inr UQueryRef"
| "proto_to_unl_perf Refuse = Inr URefuse"
| "proto_to_unl_perf RejectProposal = Inr URejectProposal"
| "proto_to_unl_perf Request = Inr URequest"
| "proto_to_unl_perf RequestWhen = Inr URequestWhen"
| "proto_to_unl_perf RequestWhenever = Inr URequestWhenever"
| "proto_to_unl_perf Subscribe = Inr USubscribe"
| "proto_to_unl_perf Unspecified = Inl UnlPerformative"

fun unl_to_proto_perf :: "fipa_performative \<Rightarrow> performative" where
  "unl_to_proto_perf UAcceptProposal = AcceptProposal"
| "unl_to_proto_perf UAgree = Agree"
| "unl_to_proto_perf UCancel = Cancel"
| "unl_to_proto_perf UCfp = Cfp"
| "unl_to_proto_perf UConfirm = Confirm"
| "unl_to_proto_perf UDisconfirm = Disconfirm"
| "unl_to_proto_perf UFailure = Failure"
| "unl_to_proto_perf UInform = Inform"
| "unl_to_proto_perf UInformIf = InformIf"
| "unl_to_proto_perf UInformRef = InformRef"
| "unl_to_proto_perf UNotUnderstood = NotUnderstood"
| "unl_to_proto_perf UPropagate = Propagate"
| "unl_to_proto_perf UPropose = Propose"
| "unl_to_proto_perf UProxy = Proxy"
| "unl_to_proto_perf UQueryIf = QueryIf"
| "unl_to_proto_perf UQueryRef = QueryRef"
| "unl_to_proto_perf URefuse = Refuse"
| "unl_to_proto_perf URejectProposal = RejectProposal"
| "unl_to_proto_perf URequest = Request"
| "unl_to_proto_perf URequestWhen = RequestWhen"
| "unl_to_proto_perf URequestWhenever = RequestWhenever"
| "unl_to_proto_perf USubscribe = Subscribe"

section \<open>The envelope\<close>

record fipa_message =
  fm_performative :: fipa_performative
  fm_sender :: string
  fm_receiver :: "string list"
  fm_reply_with :: "string option"
  fm_in_reply_to :: "string option"
  fm_conversation_id :: "string option"
  fm_protocol :: "string option"
  fm_content :: unl_graph

datatype fipa_error =
    FipaSyntax string
  | FipaUnknownPerformative string
  | FipaMissing string
  | FipaContent parse_error

definition fipa_message_new :: "fipa_performative \<Rightarrow> string \<Rightarrow> string \<Rightarrow> unl_graph \<Rightarrow> fipa_message" where
  "fipa_message_new p s r g =
     \<lparr>fm_performative = p, fm_sender = s, fm_receiver = [r], fm_reply_with = None, fm_in_reply_to = None,
      fm_conversation_id = None, fm_protocol = None, fm_content = g\<rparr>"

definition verify_content :: "printers \<Rightarrow> fipa_message \<Rightarrow> knowledge_base \<Rightarrow> diagnostic list + unit" where
  "verify_content pr m kb =
     (let ds = filter (\<lambda>d. dg_severity d = SevError) (validate pr (fm_content m) kb)
      in if ds = [] then Inr () else Inl ds)"

definition fipa_not_understood :: "fipa_message \<Rightarrow> string \<Rightarrow> fipa_message" where
  "fipa_not_understood m from =
     \<lparr>fm_performative = UNotUnderstood, fm_sender = from, fm_receiver = [fm_sender m], fm_reply_with = None,
      fm_in_reply_to = fm_reply_with m, fm_conversation_id = fm_conversation_id m,
      fm_protocol = fm_protocol m, fm_content = unl_graph_new\<rparr>"

fun fipa_error_to_string :: "printers \<Rightarrow> fipa_error \<Rightarrow> string" where
  "fipa_error_to_string pr (FipaSyntax s) = ''FIPA syntax error: '' @ s"
| "fipa_error_to_string pr (FipaUnknownPerformative s) = ''unknown performative: '' @ s"
| "fipa_error_to_string pr (FipaMissing s) = ''missing required ACL parameter: '' @ s"
| "fipa_error_to_string pr (FipaContent e) = ''content (UNL) parse error: '' @ parse_error_to_string pr e"

section \<open>Writing\<close>

abbreviation newline :: string where
  "newline \<equiv> [CHR 0x0A]"

definition escape_into :: "string \<Rightarrow> string" where
  "escape_into s = concat (map (\<lambda>c. if c = CHR 0x5C \<or> c = CHR 0x22 then [CHR 0x5C, c] else [c]) s)"

definition write_agent :: "string \<Rightarrow> string" where
  "write_agent a = ''(agent-identifier :name '' @ a @ '')''"

definition write_param :: "string \<Rightarrow> string option \<Rightarrow> string" where
  "write_param k v = (case v of None \<Rightarrow> [] | Some a \<Rightarrow> '' '' @ k @ '' '' @ a @ newline)"

definition to_fipa_string :: "fipa_message \<Rightarrow> string" where
  "to_fipa_string m =
     ''('' @ fipa_as_str (fm_performative m) @ newline
     @ '' :sender '' @ write_agent (fm_sender m) @ newline
     @ '' :receiver (set'' @ concat (map (\<lambda>r. '' '' @ write_agent r) (fm_receiver m)) @ '')'' @ newline
     @ '' :content '' @ [CHR 0x22] @ escape_into (serialize_list (fm_content m)) @ [CHR 0x22] @ newline
     @ '' :language UNL'' @ newline
     @ write_param '':protocol'' (fm_protocol m)
     @ write_param '':conversation-id'' (fm_conversation_id m)
     @ write_param '':reply-with'' (fm_reply_with m)
     @ write_param '':in-reply-to'' (fm_in_reply_to m)
     @ '')''"

section \<open>Reading s-expressions\<close>

datatype fipa_token = TOpen | TClose | TStr string | TAtom string

definition ends_atom :: "char \<Rightarrow> bool" where
  "ends_atom c \<longleftrightarrow> c = CHR ''('' \<or> c = CHR '')'' \<or> c = CHR 0x22 \<or> is_space c"

fun string_token :: "string \<Rightarrow> string \<Rightarrow> fipa_error + (string \<times> string)" where
  "string_token buf [] = Inl (FipaSyntax ''unterminated string'')"
| "string_token buf (c # s) =
     (if c = CHR 0x5C then
        (case s of
           [] \<Rightarrow> Inl (FipaSyntax ''dangling escape'')
         | e # s' \<Rightarrow> string_token (buf @ [e]) s')
      else if c = CHR 0x22 then Inr (buf, s)
      else string_token (buf @ [c]) s)"

lemma string_token_length: "string_token buf s = Inr (t, r) \<Longrightarrow> length r < length s"
  by (induction buf s rule: string_token.induct)
    (force split: if_splits list.splits)+

definition push_token :: "fipa_token \<Rightarrow> fipa_error + fipa_token list \<Rightarrow> fipa_error + fipa_token list" where
  "push_token t x = (case x of Inl e \<Rightarrow> Inl e | Inr ts \<Rightarrow> Inr (t # ts))"

function (sequential) fipa_tokenize :: "string \<Rightarrow> fipa_error + fipa_token list" where
  "fipa_tokenize [] = Inr []"
| "fipa_tokenize (c # s) =
     (if c = CHR ''('' then push_token TOpen (fipa_tokenize s)
      else if c = CHR '')'' then push_token TClose (fipa_tokenize s)
      else if c = CHR 0x22 then
        (case string_token [] s of
           Inl e \<Rightarrow> Inl e
         | Inr (t, r) \<Rightarrow> push_token (TStr t) (fipa_tokenize r))
      else if is_space c then fipa_tokenize s
      else push_token (TAtom (c # takeWhile (\<lambda>x. \<not> ends_atom x) s))
             (fipa_tokenize (dropWhile (\<lambda>x. \<not> ends_atom x) s)))"
  by pat_completeness auto
termination
  by (relation "measure length") (auto dest: string_token_length simp: length_dropWhile_le less_Suc_eq_le)

datatype sexpr = SAtom string | SStr string | SList "sexpr list"

function (sequential) sexpr_parse :: "fipa_token list \<Rightarrow> fipa_error + (sexpr \<times> fipa_token list)"
  and sexpr_items :: "sexpr list \<Rightarrow> fipa_token list \<Rightarrow> fipa_error + (sexpr \<times> fipa_token list)" where
  "sexpr_parse [] = Inl (FipaSyntax ''unexpected end of input'')"
| "sexpr_parse (TOpen # ts) = sexpr_items [] ts"
| "sexpr_parse (TStr s # ts) = Inr (SStr s, ts)"
| "sexpr_parse (TAtom a # ts) = Inr (SAtom a, ts)"
| "sexpr_parse (TClose # ts) = Inl (FipaSyntax (''unexpected '' @ in_ticks '')''))"
| "sexpr_items xs [] = Inl (FipaSyntax ''unclosed list'')"
| "sexpr_items xs (TClose # ts) = Inr (SList xs, ts)"
| "sexpr_items xs ts =
     (case sexpr_parse ts of
        Inl e \<Rightarrow> Inl e
      | Inr (x, ts') \<Rightarrow> sexpr_items (xs @ [x]) ts')"
  by pat_completeness auto

lemma sexpr_length:
  "sexpr_parse_sexpr_items_dom (Inl ts) \<Longrightarrow> sexpr_parse ts = Inr (x, r) \<Longrightarrow> length r < length ts"
  "sexpr_parse_sexpr_items_dom (Inr (xs, ts)) \<Longrightarrow> sexpr_items xs ts = Inr (x, r) \<Longrightarrow> length r < length ts"
proof (induction arbitrary: x r and x r rule: sexpr_parse_sexpr_items.pinduct)
  case (2 ts)
  then show ?case by (force simp: sexpr_parse.psimps)
qed (force simp: sexpr_parse.psimps sexpr_items.psimps split: sum.splits)+

termination sexpr_parse
proof (relation "measure (\<lambda>z. case z of Inl ts \<Rightarrow> 2 * length ts | Inr (xs, ts) \<Rightarrow> 2 * length ts + 1)")
qed (force dest: sexpr_length(1))+

section \<open>Reading messages\<close>

text \<open>The name is the atom after the first \<open>:name\<close> that has an atom after it.\<close>

fun name_after :: "sexpr list \<Rightarrow> string option" where
  "name_after (x # y # xs) =
     (if x = SAtom '':name''
      then (case y of SAtom n \<Rightarrow> Some n | _ \<Rightarrow> name_after (y # xs))
      else name_after (y # xs))"
| "name_after _ = None"

definition agent_name :: "sexpr \<Rightarrow> fipa_error + string" where
  "agent_name x =
     (let bad = Inl (FipaSyntax ''expected (agent-identifier :name ...)'') in
      case x of
        SList (SAtom h # xs) \<Rightarrow>
          if h = ''agent-identifier''
          then (case name_after (SAtom h # xs) of Some n \<Rightarrow> Inr n | None \<Rightarrow> bad)
          else bad
      | _ \<Rightarrow> bad)"

fun agent_names :: "sexpr list \<Rightarrow> fipa_error + string list" where
  "agent_names [] = Inr []"
| "agent_names (x # xs) =
     (case agent_name x of
        Inl e \<Rightarrow> Inl e
      | Inr n \<Rightarrow> (case agent_names xs of Inl e \<Rightarrow> Inl e | Inr ns \<Rightarrow> Inr (n # ns)))"

fun atom :: "sexpr \<Rightarrow> string option" where
  "atom (SAtom a) = Some a"
| "atom _ = None"

text \<open>The parameters read so far.\<close>

record acl_params =
  ap_sender :: "string option"
  ap_receiver :: "string list"
  ap_content :: "string option"
  ap_reply_with :: "string option"
  ap_in_reply_to :: "string option"
  ap_conversation_id :: "string option"
  ap_protocol :: "string option"

definition no_params :: acl_params where
  "no_params =
     \<lparr>ap_sender = None, ap_receiver = [], ap_content = None, ap_reply_with = None, ap_in_reply_to = None,
      ap_conversation_id = None, ap_protocol = None\<rparr>"

definition read_param :: "string \<Rightarrow> sexpr \<Rightarrow> acl_params \<Rightarrow> fipa_error + acl_params" where
  "read_param k x p =
     (if k = '':sender'' then
        (case agent_name x of Inl e \<Rightarrow> Inl e | Inr n \<Rightarrow> Inr (p\<lparr>ap_sender := Some n\<rparr>))
      else if k = '':receiver'' then
        (case x of
           SList xs \<Rightarrow>
             (case agent_names (drop 1 xs) of
                Inl e \<Rightarrow> Inl e
              | Inr ns \<Rightarrow> Inr (p\<lparr>ap_receiver := ap_receiver p @ ns\<rparr>))
         | _ \<Rightarrow> Inr p)
      else if k = '':content'' then
        (case x of SStr s \<Rightarrow> Inr (p\<lparr>ap_content := Some s\<rparr>) | _ \<Rightarrow> Inr p)
      else if k = '':language'' then Inr p
      else if k = '':protocol'' then Inr (p\<lparr>ap_protocol := atom x\<rparr>)
      else if k = '':conversation-id'' then Inr (p\<lparr>ap_conversation_id := atom x\<rparr>)
      else if k = '':reply-with'' then Inr (p\<lparr>ap_reply_with := atom x\<rparr>)
      else if k = '':in-reply-to'' then Inr (p\<lparr>ap_in_reply_to := atom x\<rparr>)
      else Inr p)"

fun read_params :: "sexpr list \<Rightarrow> acl_params \<Rightarrow> fipa_error + acl_params" where
  "read_params [] p = Inr p"
| "read_params [SAtom k] p = Inl (FipaSyntax (k @ '' has no value''))"
| "read_params (SAtom k # x # xs) p =
     (case read_param k x p of Inl e \<Rightarrow> Inl e | Inr p' \<Rightarrow> read_params xs p')"
| "read_params _ p = Inl (FipaSyntax ''expected :keyword'')"

definition acl_of_params :: "fipa_performative \<Rightarrow> acl_params \<Rightarrow> fipa_error + fipa_message" where
  "acl_of_params perf p =
     (case ap_content p of
        None \<Rightarrow> Inl (FipaMissing ''content'')
      | Some t \<Rightarrow>
          (case unl_parse_list t of
             Inl e \<Rightarrow> Inl (FipaContent e)
           | Inr g \<Rightarrow>
               (case ap_sender p of
                  None \<Rightarrow> Inl (FipaMissing ''sender'')
                | Some s \<Rightarrow> Inr
                    \<lparr>fm_performative = perf, fm_sender = s, fm_receiver = ap_receiver p,
                     fm_reply_with = ap_reply_with p, fm_in_reply_to = ap_in_reply_to p,
                     fm_conversation_id = ap_conversation_id p, fm_protocol = ap_protocol p,
                     fm_content = g\<rparr>)))"

definition parse_acl :: "string \<Rightarrow> fipa_error + fipa_message" where
  "parse_acl s =
     (case fipa_tokenize s of
        Inl e \<Rightarrow> Inl e
      | Inr ts \<Rightarrow>
          (case sexpr_parse ts of
             Inl e \<Rightarrow> Inl e
           | Inr (x, _) \<Rightarrow>
               (case x of
                  SList xs \<Rightarrow>
                    (case xs of
                       SAtom n # ys \<Rightarrow>
                         (case fipa_performative_from_str n of
                            None \<Rightarrow> Inl (FipaUnknownPerformative n)
                          | Some perf \<Rightarrow>
                              (case read_params ys no_params of
                                 Inl e \<Rightarrow> Inl e
                               | Inr p \<Rightarrow> acl_of_params perf p))
                     | _ \<Rightarrow> Inl (FipaSyntax ''missing performative''))
                | _ \<Rightarrow> Inl (FipaSyntax ''top level must be a list''))))"

section \<open>The envelope and the messages of the platform\<close>

definition to_unl_fipa :: "acl_message \<Rightarrow> unl_error + fipa_message" where
  "to_unl_fipa m =
     (case unl_graph_of m of
        Inl e \<Rightarrow> Inl e
      | Inr g \<Rightarrow>
          (case proto_to_unl_perf (case performative_try_from (performative m) of Some p \<Rightarrow> p | None \<Rightarrow> Unspecified) of
             Inl e \<Rightarrow> Inl e
           | Inr p \<Rightarrow> Inr
               \<lparr>fm_performative = p,
                fm_sender = (case sender m of None \<Rightarrow> [] | Some a \<Rightarrow> agent_id.name a),
                fm_receiver = map agent_id.name (receivers m),
                fm_reply_with = reply_with m, fm_in_reply_to = in_reply_to m,
                fm_conversation_id = conversation_id m, fm_protocol = None, fm_content = g\<rparr>))"

definition from_unl_fipa :: "string \<Rightarrow> fipa_message \<Rightarrow> acl_message" where
  "from_unl_fipa uuid e =
     \<lparr>message_id = new_unl_id uuid, performative = performative_as_i32 (unl_to_proto_perf (fm_performative e)),
      sender = Some (agent_named (fm_sender e)), receivers = map agent_named (fm_receiver e),
      reply_to = None, protocol = None, conversation_id = fm_conversation_id e,
      in_reply_to = fm_in_reply_to e, reply_with = fm_reply_with e, reply_by = None,
      language = Some content_language, encoding = Some ''utf-8'', ontology = None,
      content = utf8 (serialize_list (fm_content e)), user_properties = []\<rparr>"

definition message_to_fipa_string :: "acl_message \<Rightarrow> unl_error + string" where
  "message_to_fipa_string m =
     (case to_unl_fipa m of Inl e \<Rightarrow> Inl e | Inr e \<Rightarrow> Inr (to_fipa_string e))"

definition message_from_fipa_string :: "printers \<Rightarrow> string \<Rightarrow> string \<Rightarrow> unl_error + acl_message" where
  "message_from_fipa_string pr uuid s =
     (case parse_acl s of
        Inl e \<Rightarrow> Inl (UnlFipa (fipa_error_to_string pr e))
      | Inr e \<Rightarrow> Inr (from_unl_fipa uuid e))"

section \<open>Tokens of what is written\<close>

definition atom_ok :: "string \<Rightarrow> bool" where
  "atom_ok a \<longleftrightarrow> a \<noteq> [] \<and> list_all (\<lambda>c. \<not> ends_atom c) a"

fun atom_opt_ok :: "string option \<Rightarrow> bool" where
  "atom_opt_ok None = True"
| "atom_opt_ok (Some a) = atom_ok a"

definition fipa_canonical :: "fipa_message \<Rightarrow> bool" where
  "fipa_canonical m \<longleftrightarrow> atom_ok (fm_sender m) \<and> list_all atom_ok (fm_receiver m)
     \<and> atom_opt_ok (fm_reply_with m) \<and> atom_opt_ok (fm_in_reply_to m)
     \<and> atom_opt_ok (fm_conversation_id m) \<and> atom_opt_ok (fm_protocol m)
     \<and> list_canonical (fm_content m)"

definition push_tokens :: "fipa_token list \<Rightarrow> fipa_error + fipa_token list \<Rightarrow> fipa_error + fipa_token list" where
  "push_tokens ts x = (case x of Inl e \<Rightarrow> Inl e | Inr us \<Rightarrow> Inr (ts @ us))"

named_theorems token_simps

lemma push_tokens_simps [token_simps]:
  "push_tokens [] x = x"
  "push_token t x = push_tokens [t] x"
  "push_tokens ts (push_tokens us x) = push_tokens (ts @ us) x"
  "push_tokens ts (Inr us) = Inr (ts @ us)"
  by (simp_all add: push_tokens_def push_token_def split: sum.split)

lemma tokenize_delims [token_simps]:
  "fipa_tokenize (CHR ''('' # s) = push_token TOpen (fipa_tokenize s)"
  "fipa_tokenize (CHR '')'' # s) = push_token TClose (fipa_tokenize s)"
  "fipa_tokenize (CHR '' '' # s) = fipa_tokenize s"
  "fipa_tokenize (CHR 0x0A # s) = fipa_tokenize s"
  by (simp_all add: is_space_def code_def)

lemma tokenize_atom [token_simps]:
  assumes "atom_ok a" and "ends_atom c"
  shows "fipa_tokenize (a @ c # s) = push_token (TAtom a) (fipa_tokenize (c # s))"
proof -
  from assms(1) obtain x xs where a: "a = x # xs" and x: "\<not> ends_atom x" and xs: "\<forall>y\<in>set xs. \<not> ends_atom y"
    by (cases a) (auto simp: atom_ok_def list_all_iff)
  from xs assms(2) have "takeWhile (\<lambda>x. \<not> ends_atom x) (xs @ c # s) = xs"
    "dropWhile (\<lambda>x. \<not> ends_atom x) (xs @ c # s) = c # s"
    by (simp_all add: takeWhile_append dropWhile_append)
  with x show ?thesis by (simp add: a ends_atom_def)
qed

lemma ends_atom_simps [simp]: "ends_atom (CHR '' '')" "ends_atom (CHR '')'')" "ends_atom (CHR 0x0A)"
  by (simp_all add: ends_atom_def is_space_def code_def)

lemma string_token_escaped:
  "string_token buf (escape_into t @ CHR 0x22 # s) = Inr (buf @ t, s)"
  by (induction t arbitrary: buf) (simp_all add: escape_into_def)

lemma tokenize_string [token_simps]:
  "fipa_tokenize (CHR 0x22 # escape_into t @ CHR 0x22 # s) = push_token (TStr t) (fipa_tokenize s)"
  by (simp add: string_token_escaped)

lemma atom_ok_performative [simp]: "atom_ok (fipa_as_str p)"
  by (cases p; simp add: atom_ok_def ends_atom_def is_space_def code_def)

lemma atom_ok_keys [simp]:
  "atom_ok '':sender''" "atom_ok '':receiver''" "atom_ok '':content''" "atom_ok '':language''"
  "atom_ok ''UNL''" "atom_ok ''agent-identifier''" "atom_ok '':name''" "atom_ok ''set''"
  "atom_ok '':protocol''" "atom_ok '':conversation-id''" "atom_ok '':reply-with''" "atom_ok '':in-reply-to''"
  by (simp_all add: atom_ok_def ends_atom_def is_space_def code_def)

declare fipa_tokenize.simps(2) [simp del]

definition agent_tokens :: "string \<Rightarrow> fipa_token list" where
  "agent_tokens a = [TOpen, TAtom ''agent-identifier'', TAtom '':name'', TAtom a, TClose]"

lemma tokenize_agent [token_simps]:
  "atom_ok a \<Longrightarrow> fipa_tokenize (write_agent a @ s) = push_tokens (agent_tokens a) (fipa_tokenize s)"
  using tokenize_atom [of a "CHR '')''" s] tokenize_atom [of "''agent-identifier''" "CHR '' ''"]
    tokenize_atom [of "'':name''" "CHR '' ''"]
  by (simp add: write_agent_def agent_tokens_def push_tokens_simps tokenize_delims)

lemma tokenize_agents [token_simps]:
  "list_all atom_ok as \<Longrightarrow>
     fipa_tokenize (concat (map (\<lambda>r. CHR '' '' # write_agent r) as) @ s)
       = push_tokens (concat (map agent_tokens as)) (fipa_tokenize s)"
  by (induction as) (simp_all add: token_simps)

definition param_tokens :: "string \<Rightarrow> string option \<Rightarrow> fipa_token list" where
  "param_tokens k v = (case v of None \<Rightarrow> [] | Some a \<Rightarrow> [TAtom k, TAtom a])"

lemma tokenize_param [token_simps]:
  assumes "atom_ok k" and "atom_opt_ok v"
  shows "fipa_tokenize (write_param k v @ s) = push_tokens (param_tokens k v) (fipa_tokenize s)"
  using assms tokenize_atom [of k "CHR '' ''"] tokenize_atom [of _ "CHR 0x0A"]
  by (cases v) (simp_all add: write_param_def param_tokens_def push_tokens_simps tokenize_delims)

definition message_tokens :: "fipa_message \<Rightarrow> fipa_token list" where
  "message_tokens m =
     [TOpen, TAtom (fipa_as_str (fm_performative m)), TAtom '':sender''] @ agent_tokens (fm_sender m)
     @ [TAtom '':receiver'', TOpen, TAtom ''set''] @ concat (map agent_tokens (fm_receiver m))
     @ [TClose, TAtom '':content'', TStr (serialize_list (fm_content m)), TAtom '':language'', TAtom ''UNL'']
     @ param_tokens '':protocol'' (fm_protocol m)
     @ param_tokens '':conversation-id'' (fm_conversation_id m)
     @ param_tokens '':reply-with'' (fm_reply_with m)
     @ param_tokens '':in-reply-to'' (fm_in_reply_to m)
     @ [TClose]"

text \<open>What follows an atom of the text.\<close>

lemma starts_with_delim:
  "\<exists>c s'. concat (map (\<lambda>r. CHR '' '' # write_agent r) as) @ CHR '')'' # s = c # s' \<and> ends_atom c"
  by (cases as) auto

lemma tokenize_set:
  assumes "list_all atom_ok as"
  shows "fipa_tokenize (''set'' @ concat (map (\<lambda>r. CHR '' '' # write_agent r) as) @ CHR '')'' # s)
     = push_tokens (TAtom ''set'' # concat (map agent_tokens as) @ [TClose]) (fipa_tokenize s)"
proof -
  let ?rest = "concat (map (\<lambda>r. CHR '' '' # write_agent r) as) @ CHR '')'' # s"
  obtain c s' where c: "?rest = c # s'" "ends_atom c" using starts_with_delim [of as s] by blast
  have "fipa_tokenize (''set'' @ ?rest) = push_token (TAtom ''set'') (fipa_tokenize ?rest)"
    unfolding c(1) by (rule tokenize_atom) (simp_all add: c(2))
  then show ?thesis by (simp add: tokenize_agents [OF assms] push_tokens_simps tokenize_delims)
qed

lemma tokenize_message:
  assumes "fipa_canonical m"
  shows "fipa_tokenize (to_fipa_string m) = Inr (message_tokens m)"
proof -
  have ok: "atom_ok (fm_sender m)" "list_all atom_ok (fm_receiver m)" "atom_opt_ok (fm_reply_with m)"
    "atom_opt_ok (fm_in_reply_to m)" "atom_opt_ok (fm_conversation_id m)"
    "atom_opt_ok (fm_protocol m)"
    using assms by (simp_all add: fipa_canonical_def)
  note atoms = tokenize_atom [of "'':sender''" "CHR '' ''"] tokenize_atom [of "'':receiver''" "CHR '' ''"]
    tokenize_atom [of "'':content''" "CHR '' ''"] tokenize_atom [of "'':language''" "CHR '' ''"]
    tokenize_atom [of "''UNL''" "CHR 0x0A"] tokenize_set [OF ok(2)]
  show ?thesis
    using atoms
    by (simp add: to_fipa_string_def message_tokens_def token_simps ok)
qed

fun agent_sexpr :: "string \<Rightarrow> sexpr" where
  "agent_sexpr a = SList [SAtom ''agent-identifier'', SAtom '':name'', SAtom a]"

definition param_items :: "string \<Rightarrow> string option \<Rightarrow> sexpr list" where
  "param_items k v = (case v of None \<Rightarrow> [] | Some a \<Rightarrow> [SAtom k, SAtom a])"

lemma parse_agent [simp]: "sexpr_parse (agent_tokens a @ ts) = Inr (agent_sexpr a, ts)"
  by (simp add: agent_tokens_def)

lemma items_agent [simp]: "sexpr_items xs (agent_tokens a @ ts) = sexpr_items (xs @ [agent_sexpr a]) ts"
  by (simp add: agent_tokens_def)

lemma items_agents [simp]:
  "sexpr_items xs (concat (map agent_tokens as) @ ts) = sexpr_items (xs @ map agent_sexpr as) ts"
  by (induction as arbitrary: xs) simp_all

lemma items_param [simp]: "sexpr_items xs (param_tokens k v @ ts) = sexpr_items (xs @ param_items k v) ts"
  by (simp add: param_tokens_def param_items_def split: option.split)

lemma agent_names_agents [simp]: "agent_names (map agent_sexpr as) = Inr as"
  by (induction as) (simp_all add: agent_name_def)

lemma read_params_items:
  "ap_protocol p = None \<Longrightarrow>
     read_params (param_items '':protocol'' v @ xs) p = read_params xs (p\<lparr>ap_protocol := v\<rparr>)"
  "ap_conversation_id p = None \<Longrightarrow>
     read_params (param_items '':conversation-id'' v @ xs) p = read_params xs (p\<lparr>ap_conversation_id := v\<rparr>)"
  "ap_reply_with p = None \<Longrightarrow>
     read_params (param_items '':reply-with'' v @ xs) p = read_params xs (p\<lparr>ap_reply_with := v\<rparr>)"
  "ap_in_reply_to p = None \<Longrightarrow>
     read_params (param_items '':in-reply-to'' v @ xs) p = read_params xs (p\<lparr>ap_in_reply_to := v\<rparr>)"
  by (cases v; cases p; simp add: param_items_def read_param_def)+

lemma fipa_performative_roundtrip [simp]: "fipa_performative_from_str (fipa_as_str p) = Some p"
  by (cases p) (simp_all add: fipa_performative_from_str_def fipa_performatives_def)

lemma parse_written:
  assumes "fipa_canonical m"
  shows "parse_acl (to_fipa_string m) = Inr m"
proof -
  let ?items = "[SAtom '':sender'', agent_sexpr (fm_sender m), SAtom '':receiver'',
      SList (SAtom ''set'' # map agent_sexpr (fm_receiver m)), SAtom '':content'',
      SStr (serialize_list (fm_content m)), SAtom '':language'', SAtom ''UNL'']
     @ param_items '':protocol'' (fm_protocol m) @ param_items '':conversation-id'' (fm_conversation_id m)
     @ param_items '':reply-with'' (fm_reply_with m) @ param_items '':in-reply-to'' (fm_in_reply_to m)"
  have "sexpr_parse (message_tokens m) = Inr (SList (SAtom (fipa_as_str (fm_performative m)) # ?items), [])"
    by (simp add: message_tokens_def)
  moreover have "read_params ?items no_params = Inr
      \<lparr>ap_sender = Some (fm_sender m), ap_receiver = fm_receiver m,
       ap_content = Some (serialize_list (fm_content m)), ap_reply_with = fm_reply_with m,
       ap_in_reply_to = fm_in_reply_to m, ap_conversation_id = fm_conversation_id m, ap_protocol = fm_protocol m\<rparr>"
    using read_params_items(4) [of _ "fm_in_reply_to m" "[]"]
    by (simp add: read_params_items(1-3) read_param_def agent_name_def no_params_def)
  moreover have "unl_parse_list (serialize_list (fm_content m)) = Inr (fm_content m)"
    using assms by (intro list_roundtrip) (simp add: fipa_canonical_def)
  ultimately show ?thesis
    by (simp add: parse_acl_def tokenize_message [OF assms] acl_of_params_def)
qed

section \<open>Messages of the platform\<close>

lemma list_text_no_container: "\<not> is_block_container (utf8 (serialize_list g))"
  by (simp add: serialize_list_def utf8_def utf8_char_def is_block_container_def magic_def ascii_def code_def)

lemma from_unl_fipa_graph:
  assumes "list_canonical (fm_content e)"
  shows "unl_graph_of (from_unl_fipa uuid e) = Inr (fm_content e)"
  using assms parse_unl_bytes_canonical
  by (simp add: unl_graph_of_def unl_bytes_def is_unl_def from_unl_fipa_def list_text_no_container)

lemma perf_roundtrip [simp]: "proto_to_unl_perf (unl_to_proto_perf p) = Inr p"
  by (cases p) simp_all

lemma agent_named_name [simp]: "agent_id.name (agent_named a) = a" "agent_id.name \<circ> agent_named = (\<lambda>a. a)"
  by (simp_all add: agent_named_def fun_eq_iff)

lemma to_from_unl_fipa:
  assumes "list_canonical (fm_content e)"
  shows "to_unl_fipa (from_unl_fipa uuid e) = Inr (e\<lparr>fm_protocol := None\<rparr>)"
proof -
  have "performative (from_unl_fipa uuid e) = performative_as_i32 (unl_to_proto_perf (fm_performative e))"
    by (simp add: from_unl_fipa_def)
  then show ?thesis
    using from_unl_fipa_graph [OF assms, of uuid]
    by (cases e) (simp add: to_unl_fipa_def, simp add: from_unl_fipa_def)
qed

lemma to_unl_fipa_protocol: "to_unl_fipa m = Inr e \<Longrightarrow> fm_protocol e = None"
  by (auto simp: to_unl_fipa_def split: sum.splits)

section \<open>Properties\<close>

text \<open>The string form of an envelope reads back as the envelope. Performative, sender,
  receivers in order, reply, conversation and protocol parameters and the graph survive, if the ids are
  single atoms (not empty, without blanks, quotes and parentheses) and the list format writes the
  graph faithfully; the escapes in the quoted text of the graph are undone.\<close>

theorem fipa_string_roundtrip:
  assumes "fipa_canonical m"
  shows "parse_acl (to_fipa_string m) = Inr m"
  by (rule parse_written [OF assms])

definition example_fipa :: fipa_message where
  "example_fipa =
     \<lparr>fm_performative = URequest, fm_sender = ''alice'', fm_receiver = [''bob'', ''carol''],
      fm_reply_with = Some ''r1'', fm_in_reply_to = Some ''q0'', fm_conversation_id = Some ''c-42'',
      fm_protocol = Some ''fipa-request'', fm_content = example_graph\<rparr>"

lemma example_fipa_canonical: "fipa_canonical example_fipa"
  by code_simp

lemma fipa_string_roundtrip_witness: "parse_acl (to_fipa_string example_fipa) = Inr example_fipa"
  by (rule fipa_string_roundtrip [OF example_fipa_canonical])

text \<open>C35: A message of the platform survives the exchange with other FIPA systems. If it converts to a
  canonical envelope, it has a string form, and the message read from that string has the same
  graph, the names of the same sender and receivers and the same conversation and reply ids, and
  converts to the same envelope again.\<close>

theorem fipa_exchange_preserves:
  assumes "to_unl_fipa m = Inr e" and "fipa_canonical e"
  shows "case message_to_fipa_string m of
           Inl _ \<Rightarrow> False
         | Inr s \<Rightarrow>
             (case message_from_fipa_string pr uuid s of
                Inl _ \<Rightarrow> False
              | Inr m' \<Rightarrow> unl_graph_of m' = unl_graph_of m \<and> to_unl_fipa m' = Inr e
                  \<and> map agent_id.name (receivers m') = map agent_id.name (receivers m)
                  \<and> conversation_id m' = conversation_id m
                  \<and> reply_with m' = reply_with m \<and> in_reply_to m' = in_reply_to m)"
proof -
  have c: "list_canonical (fm_content e)" using assms(2) by (simp add: fipa_canonical_def)
  have "e\<lparr>fm_protocol := None\<rparr> = e" using to_unl_fipa_protocol [OF assms(1)] by (cases e) simp
  then have "to_unl_fipa (from_unl_fipa uuid e) = Inr e" using to_from_unl_fipa [OF c] by simp
  moreover have "unl_graph_of m = Inr (fm_content e)"
    "fm_receiver e = map agent_id.name (receivers m)" "fm_conversation_id e = conversation_id m"
    "fm_reply_with e = reply_with m" "fm_in_reply_to e = in_reply_to m"
    using assms(1) by (auto simp: to_unl_fipa_def split: sum.splits)
  ultimately show ?thesis
    using parse_written [OF assms(2)] from_unl_fipa_graph [OF c]
    by (simp add: message_to_fipa_string_def message_from_fipa_string_def assms(1), simp add: from_unl_fipa_def)
qed

lemma cat_envelope:
  "to_unl_fipa cat_message = Inr \<lparr>fm_performative = UInform, fm_sender = ''alice'', fm_receiver = [''bob''],
     fm_reply_with = None, fm_in_reply_to = None, fm_conversation_id = None, fm_protocol = None,
     fm_content = cat_icl_animal\<rparr>" (is "_ = Inr ?e")
proof -
  have "performative cat_message = performative_as_i32 Inform" "sender cat_message = Some (agent_named ''alice'')"
    "receivers cat_message = [agent_named ''bob'']" "reply_with cat_message = None" "in_reply_to cat_message = None"
    "conversation_id cat_message = None"
    by (simp_all add: cat_message_def set_message_content_def inform_message_def)
  then show ?thesis using performative_try_from_as_i32 [of Inform] by (simp add: to_unl_fipa_def cat_read(2))
qed

lemma fipa_exchange_preserves_witness:
  "(case message_to_fipa_string cat_message of
      Inl _ \<Rightarrow> False
    | Inr s \<Rightarrow> (case message_from_fipa_string plain_printers ''v'' s of
                 Inl _ \<Rightarrow> False
               | Inr m' \<Rightarrow> unl_graph_of m' = Inr cat_icl_animal))"
proof -
  have "fipa_canonical \<lparr>fm_performative = UInform, fm_sender = ''alice'', fm_receiver = [''bob''],
     fm_reply_with = None, fm_in_reply_to = None, fm_conversation_id = None, fm_protocol = None,
     fm_content = cat_icl_animal\<rparr>"
    by code_simp
  from fipa_exchange_preserves [OF cat_envelope this, of plain_printers "''v''"] show ?thesis
    by (cases "message_to_fipa_string cat_message")
      (auto simp: cat_read(2) split: sum.splits)
qed

text \<open>
  Ids are written as they are. A message without a sender, which the platform allows, becomes a text
  that cannot be read; of a name with a blank only the first word is read; and a name with a
  parenthesis adds parameters to the message.
\<close>

lemma no_sender_unreadable:
  "parse_acl (to_fipa_string (fipa_message_new UInform '''' ''bob'' unl_graph_new))
     = Inl (FipaSyntax ''expected (agent-identifier :name ...)'')"
  by code_simp

lemma name_truncated:
  "parse_acl (to_fipa_string (fipa_message_new UInform ''agent one'' ''bob'' unl_graph_new))
     = Inr (fipa_message_new UInform ''agent'' ''bob'' unl_graph_new)"
  by code_simp

lemma name_adds_parameters:
  "parse_acl (to_fipa_string (fipa_message_new UInform ''eve) :protocol (x'' ''bob'' unl_graph_new))
     = Inr (fipa_message_new UInform ''eve'' ''bob'' unl_graph_new)"
  by code_simp

end
