(* ===== verification/Unl_A2a.thy ===== *)
theory Unl_A2a
  imports Unl_Content
begin

text \<open>
  UNL as the content language between agents (\<^verbatim>\<open>crates/unl-a2a\<close>): the message with its
  envelope, the compact wire form and its reader, and the check against a knowledge base. Ids are
  their texts; the JSON form, which the serializer derives, is not modelled.
\<close>

section \<open>Messages\<close>

record a2a_message =
  a2_sender :: string
  a2_receiver :: string
  a2_conversation_id :: string
  a2_content :: unl_graph
  a2_gloss :: "string option"
  a2_reply_to :: "string option"

datatype a2a_error = A2aMalformed string | A2aUtf8 | A2aContent parse_error | A2aJson string

definition a2a_message_new :: "string \<Rightarrow> string \<Rightarrow> string \<Rightarrow> unl_graph \<Rightarrow> a2a_message" where
  "a2a_message_new s r c g =
     \<lparr>a2_sender = s, a2_receiver = r, a2_conversation_id = c, a2_content = g, a2_gloss = None, a2_reply_to = None\<rparr>"

definition a2a_verify :: "printers \<Rightarrow> a2a_message \<Rightarrow> knowledge_base \<Rightarrow> diagnostic list + unit" where
  "a2a_verify pr m kb =
     (let ds = filter (\<lambda>d. dg_severity d = SevError) (validate pr (a2_content m) kb)
      in if ds = [] then Inr () else Inl ds)"

section \<open>The wire form\<close>

definition one_line :: "string \<Rightarrow> string" where
  "one_line s = map (\<lambda>c. if c = CHR 0x0A then CHR '' '' else c) s"

definition a2a_encode :: "a2a_message \<Rightarrow> bytes" where
  "a2a_encode m = utf8
     (''sender: '' @ a2_sender m @ [CHR 0x0A]
      @ ''receiver: '' @ a2_receiver m @ [CHR 0x0A]
      @ ''conversation: '' @ a2_conversation_id m @ [CHR 0x0A]
      @ (case a2_reply_to m of None \<Rightarrow> [] | Some r \<Rightarrow> ''reply-to: '' @ r @ [CHR 0x0A])
      @ (case a2_gloss m of None \<Rightarrow> [] | Some g \<Rightarrow> ''gloss: '' @ one_line g @ [CHR 0x0A])
      @ ''---'' @ [CHR 0x0A]
      @ serialize_list (a2_content m))"

record a2a_header =
  ah_sender :: "string option"
  ah_receiver :: "string option"
  ah_conversation :: "string option"
  ah_reply_to :: "string option"
  ah_gloss :: "string option"

definition no_header :: a2a_header where
  "no_header = \<lparr>ah_sender = None, ah_receiver = None, ah_conversation = None, ah_reply_to = None, ah_gloss = None\<rparr>"

definition read_header_line :: "string \<Rightarrow> a2a_header \<Rightarrow> a2a_error + a2a_header" where
  "read_header_line line h =
     (let l = unl_trim line in
      if l = [] then Inr h
      else (case split_once '': '' l of
              None \<Rightarrow> Inl (A2aMalformed (''bad header line: '' @ l))
            | Some (k, v) \<Rightarrow>
                if k = ''sender'' then Inr (h\<lparr>ah_sender := Some v\<rparr>)
                else if k = ''receiver'' then Inr (h\<lparr>ah_receiver := Some v\<rparr>)
                else if k = ''conversation'' then Inr (h\<lparr>ah_conversation := Some v\<rparr>)
                else if k = ''reply-to'' then Inr (h\<lparr>ah_reply_to := Some v\<rparr>)
                else if k = ''gloss'' then Inr (h\<lparr>ah_gloss := Some v\<rparr>)
                else Inl (A2aMalformed (''unknown header: '' @ k))))"

fun read_header :: "string list \<Rightarrow> a2a_header \<Rightarrow> a2a_error + a2a_header" where
  "read_header [] h = Inr h"
| "read_header (l # ls) h =
     (case read_header_line l h of Inl e \<Rightarrow> Inl e | Inr h' \<Rightarrow> read_header ls h')"

definition separator :: string where
  "separator = [CHR 0x0A, CHR ''-'', CHR ''-'', CHR ''-'', CHR 0x0A]"

definition a2a_decode :: "bytes \<Rightarrow> a2a_error + a2a_message" where
  "a2a_decode bs =
     (case from_utf8 bs of
        None \<Rightarrow> Inl A2aUtf8
      | Some t \<Rightarrow>
          (case split_once separator t of
             None \<Rightarrow> Inl (A2aMalformed (''missing '' @ in_ticks ''---'' @ '' separator''))
           | Some (header, body) \<Rightarrow>
               (case read_header (lines header) no_header of
                  Inl e \<Rightarrow> Inl e
                | Inr h \<Rightarrow>
                    (case unl_parse_list body of
                       Inl e \<Rightarrow> Inl (A2aContent e)
                     | Inr g \<Rightarrow>
                         (case ah_sender h of
                            None \<Rightarrow> Inl (A2aMalformed ''missing sender'')
                          | Some s \<Rightarrow>
                              (case ah_receiver h of
                                 None \<Rightarrow> Inl (A2aMalformed ''missing receiver'')
                               | Some r \<Rightarrow>
                                   (case ah_conversation h of
                                      None \<Rightarrow> Inl (A2aMalformed ''missing conversation'')
                                    | Some c \<Rightarrow> Inr
                                        \<lparr>a2_sender = s, a2_receiver = r, a2_conversation_id = c,
                                         a2_content = g, a2_gloss = ah_gloss h,
                                         a2_reply_to = ah_reply_to h\<rparr>)))))))"

section \<open>Header lines\<close>

definition value_ok :: "string \<Rightarrow> bool" where
  "value_ok v \<longleftrightarrow> v \<noteq> [] \<and> \<not> is_space (last v) \<and> CHR 0x0A \<notin> set v"

fun value_opt_ok :: "string option \<Rightarrow> bool" where
  "value_opt_ok None = True"
| "value_opt_ok (Some v) = value_ok v"

text \<open>Messages whose values stay on their header line, without blanks at its end.\<close>

definition a2a_canonical :: "a2a_message \<Rightarrow> bool" where
  "a2a_canonical m \<longleftrightarrow> value_ok (a2_sender m) \<and> value_ok (a2_receiver m) \<and> value_ok (a2_conversation_id m)
     \<and> value_opt_ok (a2_reply_to m) \<and> value_opt_ok (map_option one_line (a2_gloss m))
     \<and> list_canonical (a2_content m)"

definition header_line :: "string \<Rightarrow> string \<Rightarrow> string" where
  "header_line k v = k @ '': '' @ v"

definition header_key :: "string \<Rightarrow> bool" where
  "header_key k \<longleftrightarrow> k \<in> {''sender'', ''receiver'', ''conversation'', ''reply-to'', ''gloss''}"

lemma header_line_facts:
  assumes "header_key k" and "value_ok v"
  shows "line_ok (header_line k v)" and "split_once '': '' (header_line k v) = Some (k, v)"
    and "CHR 0x0A \<notin> set (header_line k v)" and "hd (header_line k v) \<noteq> CHR ''-''"
    and "header_line k v \<noteq> []"
  using assms
  by (auto simp: header_key_def value_ok_def header_line_def line_ok_def is_space_def code_def)

lemma read_header_line_text:
  assumes "header_key k" and "value_ok v"
  shows "read_header_line (header_line k v) h =
     Inr (if k = ''sender'' then h\<lparr>ah_sender := Some v\<rparr>
          else if k = ''receiver'' then h\<lparr>ah_receiver := Some v\<rparr>
          else if k = ''conversation'' then h\<lparr>ah_conversation := Some v\<rparr>
          else if k = ''reply-to'' then h\<lparr>ah_reply_to := Some v\<rparr>
          else h\<lparr>ah_gloss := Some v\<rparr>)"
  using assms(1) header_line_facts [OF assms]
  by (auto simp: read_header_line_def trim_line Let_def header_key_def)

lemma split_once_line:
  "CHR 0x0A \<notin> set l \<Longrightarrow>
     split_once separator (l @ CHR 0x0A # s)
       = map_option (\<lambda>(a, b). (l @ a, b)) (split_once separator (CHR 0x0A # s))"
  by (induction l) (auto simp: separator_def option.map_comp comp_def split_def)

lemma split_once_header:
  assumes "\<And>l. l \<in> set ls \<Longrightarrow> CHR 0x0A \<notin> set l \<and> l \<noteq> [] \<and> hd l \<noteq> CHR ''-''"
  shows "split_once separator (concat (map (\<lambda>l. CHR 0x0A # l) ls) @ separator @ s)
     = Some (concat (map (\<lambda>l. CHR 0x0A # l) ls), s)"
  using assms
proof (induction ls)
  case Nil
  show ?case by (simp add: separator_def)
next
  case (Cons l ls)
  let ?h = "concat (map (\<lambda>l. CHR 0x0A # l) ls)"
  obtain u where u: "?h @ separator @ s = CHR 0x0A # u" by (cases ls) (simp_all add: separator_def)
  have "split_once separator (l @ CHR 0x0A # u) = Some (l @ ?h, s)"
    using Cons by (simp add: split_once_line u)
  moreover have "\<not> prefix separator (CHR 0x0A # l @ CHR 0x0A # u)"
    using Cons.prems [of l] by (cases l) (auto simp: separator_def)
  ultimately show ?case by (simp add: u)
qed

lemma lines_header:
  assumes "list_all line_ok (l # ls)"
  shows "lines (l @ concat (map (\<lambda>l. CHR 0x0A # l) ls)) = l # ls"
proof -
  have "split_char (CHR 0x0A) (l @ concat (map (\<lambda>l. CHR 0x0A # l) ls)) = l # ls"
    using assms
  proof (induction ls arbitrary: l)
    case Nil
    then have "CHR 0x0A \<notin> set l" by (simp add: line_ok_def)
    then have "split_char (CHR 0x0A) l = [l]" by (induction l) auto
    then show ?case by simp
  qed (simp add: split_char_line line_ok_def)
  moreover have "last (l # ls) \<noteq> []" using assms by (simp add: list_all_iff line_ok_def)
  moreover have "strip_return x = x" if "x \<in> set (l # ls)" for x
  proof -
    have "line_ok x" using assms that by (auto simp: list_all_iff)
    then show ?thesis using space_chars(4) by (metis line_ok_def strip_return_def)
  qed
  then have "map strip_return (l # ls) = l # ls" by (intro map_idI)
  ultimately show ?thesis by (simp only: lines_def Let_def if_False)
qed

definition header_lines :: "a2a_message \<Rightarrow> string list" where
  "header_lines m =
     [header_line ''receiver'' (a2_receiver m), header_line ''conversation'' (a2_conversation_id m)]
     @ (case a2_reply_to m of None \<Rightarrow> [] | Some r \<Rightarrow> [header_line ''reply-to'' r])
     @ (case a2_gloss m of None \<Rightarrow> [] | Some g \<Rightarrow> [header_line ''gloss'' (one_line g)])"

lemma encode_lines:
  "a2a_encode m = utf8 (header_line ''sender'' (a2_sender m) @ concat (map (\<lambda>l. CHR 0x0A # l) (header_lines m))
     @ separator @ serialize_list (a2_content m))"
  by (simp add: a2a_encode_def header_lines_def header_line_def separator_def split: option.split)

lemma header_keys [simp]:
  "header_key ''sender''" "header_key ''receiver''" "header_key ''conversation''" "header_key ''reply-to''"
  "header_key ''gloss''"
  by (simp_all add: header_key_def)

lemma header_lines_cases:
  assumes "a2a_canonical m" and "l \<in> set (header_line ''sender'' (a2_sender m) # header_lines m)"
  obtains k v where "l = header_line k v" and "header_key k" and "value_ok v"
proof -
  from assms have "\<exists>k v. l = header_line k v \<and> header_key k \<and> value_ok v"
    by (cases "a2_reply_to m"; cases "a2_gloss m")
      (auto simp: a2a_canonical_def header_lines_def, (metis header_keys)+)
  with that show thesis by blast
qed

lemma read_header_text:
  assumes "a2a_canonical m"
  shows "read_header (header_line ''sender'' (a2_sender m) # header_lines m) no_header = Inr
     \<lparr>ah_sender = Some (a2_sender m), ah_receiver = Some (a2_receiver m),
      ah_conversation = Some (a2_conversation_id m), ah_reply_to = a2_reply_to m,
      ah_gloss = map_option one_line (a2_gloss m)\<rparr>"
  using assms
  by (cases "a2_reply_to m"; cases "a2_gloss m")
    (simp_all add: a2a_canonical_def header_lines_def read_header_line_text no_header_def)

lemma decode_encode:
  assumes "a2a_canonical m"
  shows "a2a_decode (a2a_encode m) = Inr (m\<lparr>a2_gloss := map_option one_line (a2_gloss m)\<rparr>)"
proof -
  let ?l = "header_line ''sender'' (a2_sender m)" and ?ls = "header_lines m"
  let ?h = "?l @ concat (map (\<lambda>l. CHR 0x0A # l) ?ls)"
  have facts: "line_ok l \<and> CHR 0x0A \<notin> set l \<and> hd l \<noteq> CHR ''-'' \<and> l \<noteq> []" if "l \<in> set (?l # ?ls)" for l
    using header_lines_cases [OF assms that] header_line_facts by metis
  then have "split_once separator (concat (map (\<lambda>l. CHR 0x0A # l) ?ls) @ separator @ serialize_list (a2_content m))
      = Some (concat (map (\<lambda>l. CHR 0x0A # l) ?ls), serialize_list (a2_content m))"
    by (intro split_once_header) simp
  moreover obtain u where "concat (map (\<lambda>l. CHR 0x0A # l) ?ls) @ separator @ serialize_list (a2_content m) = CHR 0x0A # u"
    by (cases ?ls) (simp_all add: separator_def)
  moreover have "CHR 0x0A \<notin> set ?l" using facts [of ?l] by simp
  ultimately have "split_once separator (?h @ separator @ serialize_list (a2_content m))
      = Some (?h, serialize_list (a2_content m))"
    by (simp add: split_once_line)
  moreover have "lines ?h = ?l # ?ls"
    using facts by (intro lines_header) (auto simp: list_all_iff)
  moreover have "unl_parse_list (serialize_list (a2_content m)) = Inr (a2_content m)"
    using assms by (intro list_roundtrip) (simp add: a2a_canonical_def)
  ultimately show ?thesis
    using read_header_text [OF assms]
    by (cases m) (simp add: a2a_decode_def encode_lines)
qed

section \<open>Properties\<close>

text \<open>The wire form between agents reads back. Decoding what was encoded gives the same message
  with its line feeds in the gloss replaced by blanks: sender, receiver, conversation, reply and
  graph survive, if the values are not empty, stay on one line and do not end with a blank, and
  the list format writes the graph faithfully.\<close>

theorem wire_roundtrip:
  assumes "a2a_canonical m"
  shows "a2a_decode (a2a_encode m) = Inr (m\<lparr>a2_gloss := map_option one_line (a2_gloss m)\<rparr>)"
  by (rule decode_encode [OF assms])

definition example_a2a :: a2a_message where
  "example_a2a =
     \<lparr>a2_sender = ''alice'', a2_receiver = ''bob'', a2_conversation_id = ''c-42'', a2_content = example_graph,
      a2_gloss = Some (''Peter killed'' @ [CHR 0x0A] @ ''John''), a2_reply_to = Some ''m-7''\<rparr>"

lemma example_a2a_canonical: "a2a_canonical example_a2a"
  by code_simp

lemma wire_roundtrip_witness:
  "a2a_decode (a2a_encode example_a2a) = Inr (example_a2a\<lparr>a2_gloss := Some ''Peter killed John''\<rparr>)"
  using wire_roundtrip [OF example_a2a_canonical] by (simp add: example_a2a_def one_line_def)

text \<open>
  Values are written as they are. An empty gloss makes a message that cannot be decoded, and a
  line feed in the name of the sender adds a header that overrides the sender.
\<close>

lemma empty_gloss_undecodable:
  "a2a_decode (a2a_encode ((a2a_message_new ''alice'' ''bob'' ''c'' unl_graph_new)\<lparr>a2_gloss := Some []\<rparr>))
     = Inl (A2aMalformed ''bad header line: gloss:'')"
  by code_simp

lemma sender_overridden:
  "a2a_decode (a2a_encode (a2a_message_new (''alice'' @ [CHR 0x0A] @ ''sender: mallory'') ''bob'' ''c'' unl_graph_new))
     = Inr (a2a_message_new ''mallory'' ''bob'' ''c'' unl_graph_new)"
  by code_simp

end
