(* ===== verification/Node_Wire.thy ===== *)
theory Node_Wire
  imports Block_File Unl_Content
begin

text \<open>
  The byte formats of the engine-based node: the length-prefixed wire codec and the signed bytes
  of \<^verbatim>\<open>src/process/node.rs\<close>, the signed migration payloads of
  \<^verbatim>\<open>src/process/migrate.rs\<close> and the keyrings of
  \<^verbatim>\<open>src/adapters/crypto.rs\<close>. Positions and lengths are natural numbers: no buffer
  reaches \<open>2 ^ 63\<close> bytes, so the checked additions of the source never fail. The
  Ed25519 signatures and SHA-256 are parameters of the definitions that use them.
\<close>

section \<open>Length-prefixed fields\<close>

definition wire_put :: "bytes \<Rightarrow> bytes \<Rightarrow> bytes" where
  "wire_put buf b = buf @ u32_to_be_bytes (of_nat (length b)) @ b"

definition wire_get :: "bytes \<Rightarrow> nat \<Rightarrow> (bytes \<times> nat) option" where
  "wire_get buf p =
     (if p + 4 > length buf then None
      else let n = unat (u32_from_be_bytes (take 4 (drop p buf))); q = p + 4 in
        if q + n > length buf then None else Some (take n (drop q buf), q + n))"

abbreviation framed :: "bytes \<Rightarrow> bytes" where
  "framed b \<equiv> u32_to_be_bytes (of_nat (length b)) @ b"

text \<open>The fields a frame can carry: their length fits the prefix.\<close>

abbreviation frameable :: "bytes \<Rightarrow> bool" where
  "frameable b \<equiv> length b < 2 ^ 32"

lemma wire_put_framed: "wire_put buf b = buf @ framed b"
  by (simp add: wire_put_def)

lemma unat_length_prefix: "frameable b \<Longrightarrow> unat (of_nat (length b) :: u32) = length b"
  by (simp add: unat_of_nat)

lemma wire_get_framed:
  assumes "drop p buf = framed b @ rest" and "frameable b"
  shows "wire_get buf p = Some (b, p + 4 + length b)"
    and "drop (p + 4 + length b) buf = rest"
proof -
  have "length (drop p buf) = 4 + length b + length rest" using assms(1) by simp
  then have len: "p + 4 + length b \<le> length buf" by simp
  have "take 4 (drop p buf) = u32_to_be_bytes (of_nat (length b))" using assms(1) by simp
  moreover have "drop (p + 4) buf = b @ rest"
    using arg_cong [OF assms(1), of "drop 4"] by (simp add: add.commute)
  ultimately show "wire_get buf p = Some (b, p + 4 + length b)"
    using len by (simp add: wire_get_def Let_def unat_length_prefix [OF assms(2)] del: unat_of_nat)
  show "drop (p + 4 + length b) buf = rest"
    using arg_cong [OF \<open>drop (p + 4) buf = b @ rest\<close>, of "drop (length b)"]
    by (simp add: ac_simps)
qed

lemma framed_inj:
  assumes "framed a @ x = framed b @ y" and "frameable a" and "frameable b"
  shows "a = b" and "x = y"
proof -
  have "u32_to_be_bytes (of_nat (length a)) = u32_to_be_bytes (of_nat (length b))"
    and rest: "a @ x = b @ y"
    using assms(1) by (simp_all add: append_eq_append_conv)
  then have "(of_nat (length a) :: u32) = of_nat (length b)" by (metis u32_roundtrip)
  then have "length a = length b" by (metis unat_length_prefix assms(2,3))
  then show "a = b" "x = y" using rest by auto
qed

lemma framed_cancel [simp]:
  "frameable a \<Longrightarrow> frameable b \<Longrightarrow> framed a @ x = framed b @ y \<longleftrightarrow> a = b \<and> x = y"
  using framed_inj by blast

lemma framed_cancel_assoc [simp]:
  "frameable a \<Longrightarrow> frameable b
   \<Longrightarrow> u32_to_be_bytes (of_nat (length a)) @ a @ x = u32_to_be_bytes (of_nat (length b)) @ b @ y
       \<longleftrightarrow> a = b \<and> x = y"
  using framed_cancel [of a b x y] by simp

section \<open>Messages between nodes\<close>

record node_msg =
  nm_to :: string
  nm_from :: string
  nm_from_addr :: string
  nm_unl :: bytes
  nm_body :: bytes
  nm_nonce :: bytes
  nm_sig :: bytes
  nm_sender_pub :: bytes

definition node_msg_default :: node_msg where
  "node_msg_default = \<lparr>nm_to = '''', nm_from = '''', nm_from_addr = '''', nm_unl = [], nm_body = [],
     nm_nonce = [], nm_sig = [], nm_sender_pub = []\<rparr>"

definition encode_msg :: "node_msg \<Rightarrow> bytes" where
  "encode_msg m =
     wire_put (wire_put (wire_put (wire_put (wire_put (wire_put (wire_put (wire_put []
       (utf8 (nm_to m))) (utf8 (nm_from m))) (utf8 (nm_from_addr m)))
       (nm_unl m)) (nm_body m)) (nm_nonce m)) (nm_sig m)) (nm_sender_pub m)"

definition wire_get_string :: "bytes \<Rightarrow> nat \<Rightarrow> (string \<times> nat) option" where
  "wire_get_string buf p =
     Option.bind (wire_get buf p) (\<lambda>(b, q). map_option (\<lambda>s. (s, q)) (from_utf8 b))"

definition decode_msg :: "bytes \<Rightarrow> node_msg option" where
  "decode_msg p =
     Option.bind (wire_get_string p 0) (\<lambda>(to, i).
     Option.bind (wire_get_string p i) (\<lambda>(from, i).
     Option.bind (wire_get_string p i) (\<lambda>(from_addr, i).
     Option.bind (wire_get p i) (\<lambda>(unl, i).
     Option.bind (wire_get p i) (\<lambda>(body, i).
     Option.bind (wire_get p i) (\<lambda>(nonce, i).
     Option.bind (wire_get p i) (\<lambda>(sig, i).
     Option.bind (wire_get p i) (\<lambda>(sender_pub, i).
       Some \<lparr>nm_to = to, nm_from = from, nm_from_addr = from_addr, nm_unl = unl, nm_body = body,
             nm_nonce = nonce, nm_sig = sig, nm_sender_pub = sender_pub\<rparr>))))))))"

text \<open>The bytes a message's signature covers: every field except the signature.\<close>

definition msg_signing_bytes :: "node_msg \<Rightarrow> bytes" where
  "msg_signing_bytes m =
     wire_put (wire_put (wire_put (wire_put (wire_put (wire_put (wire_put []
       (utf8 (nm_to m))) (utf8 (nm_from m))) (utf8 (nm_from_addr m)))
       (nm_unl m)) (nm_body m)) (nm_nonce m)) (nm_sender_pub m)"

definition node_msg_frameable :: "node_msg \<Rightarrow> bool" where
  "node_msg_frameable m \<longleftrightarrow>
     frameable (utf8 (nm_to m)) \<and> frameable (utf8 (nm_from m)) \<and> frameable (utf8 (nm_from_addr m))
     \<and> frameable (nm_unl m) \<and> frameable (nm_body m) \<and> frameable (nm_nonce m)
     \<and> frameable (nm_sig m) \<and> frameable (nm_sender_pub m)"

lemma utf8_inj [simp]: "utf8 s = utf8 t \<longleftrightarrow> s = t"
  by (metis from_utf8_utf8 option.inject)

lemma wire_get_string_framed:
  assumes "drop p buf = framed (utf8 s) @ rest" and "frameable (utf8 s)"
  shows "wire_get_string buf p = Some (s, p + 4 + length (utf8 s))"
  by (simp add: wire_get_string_def wire_get_framed(1) [OF assms])

text \<open>
  C25: What one node encodes the next one decodes: for every message whose fields fit the length
  prefix, decoding the encoded bytes gives the message back, whatever bytes follow it in the frame.
\<close>

theorem node_msg_roundtrip:
  assumes "node_msg_frameable m"
  shows "decode_msg (encode_msg m @ rest) = Some m"
proof -
  note ok = assms [unfolded node_msg_frameable_def]
  let ?b = "encode_msg m @ rest"
  have 0: "drop 0 ?b = framed (utf8 (nm_to m)) @ framed (utf8 (nm_from m)) @ framed (utf8 (nm_from_addr m))
      @ framed (nm_unl m) @ framed (nm_body m) @ framed (nm_nonce m) @ framed (nm_sig m)
      @ framed (nm_sender_pub m) @ rest"
    by (simp add: encode_msg_def wire_put_framed)
  note 1 = wire_get_framed(2) [OF 0] and g1 = wire_get_string_framed [OF 0]
  note 2 = wire_get_framed(2) [OF 1] and g2 = wire_get_string_framed [OF 1]
  note 3 = wire_get_framed(2) [OF 2] and g3 = wire_get_string_framed [OF 2]
  note 4 = wire_get_framed(2) [OF 3] and g4 = wire_get_framed(1) [OF 3]
  note 5 = wire_get_framed(2) [OF 4] and g5 = wire_get_framed(1) [OF 4]
  note 6 = wire_get_framed(2) [OF 5] and g6 = wire_get_framed(1) [OF 5]
  note 7 = wire_get_framed(2) [OF 6] and g7 = wire_get_framed(1) [OF 6]
  note g8 = wire_get_framed(1) [OF 7]
  show ?thesis
    by (simp only: decode_msg_def g1 g2 g3 g4 g5 g6 g7 g8 ok Option.bind.simps prod.case) simp
qed

definition example_node_msg :: node_msg where
  "example_node_msg = \<lparr>nm_to = ''df'', nm_from = ''a1'', nm_from_addr = ''h:1'', nm_unl = ascii ''obj(seek, x)'',
     nm_body = [], nm_nonce = replicate 16 7, nm_sig = replicate 64 1, nm_sender_pub = replicate 32 2\<rparr>"

lemma example_node_msg_frameable: "node_msg_frameable example_node_msg"
  by (simp add: node_msg_frameable_def example_node_msg_def utf8_def utf8_char_def ascii_def)

theorem node_msg_roundtrip_witness:
  "node_msg_frameable example_node_msg \<and> decode_msg (encode_msg example_node_msg @ [0xFF]) = Some example_node_msg"
  using node_msg_roundtrip [OF example_node_msg_frameable] example_node_msg_frameable by simp

section \<open>Signatures and content addresses\<close>

text \<open>
  The node's key pair, \<^verbatim>\<open>src/adapters/crypto.rs\<close>. The Ed25519 and SHA-256 libraries are
  parameters: \<open>public_key_of\<close> and \<open>sign_with\<close> are what a \<open>NodeCrypto\<close> returns for its
  secret, \<open>sig_ok\<close> is the strict verification of the library, \<open>sha256_hex\<close> the lowercase
  hex digest.
\<close>

record 'k crypto_lib =
  public_key_of :: "'k \<Rightarrow> bytes"
  sign_with :: "'k \<Rightarrow> bytes \<Rightarrow> bytes"
  sig_ok :: "bytes \<Rightarrow> bytes \<Rightarrow> bytes \<Rightarrow> bool"
  sha256_hex :: "bytes \<Rightarrow> string"

text \<open>Documented behaviour of the signature library: sizes, and a genuine signature verifies.\<close>

definition crypto_laws :: "('k, 'z) crypto_lib_scheme \<Rightarrow> bool" where
  "crypto_laws C \<longleftrightarrow>
     (\<forall>k. length (public_key_of C k) = 32) \<and> (\<forall>k m. length (sign_with C k m) = 64)
     \<and> (\<forall>k m. sig_ok C (public_key_of C k) m (sign_with C k m))"

lemma crypto_lawsD [simp]:
  assumes "crypto_laws C"
  shows "length (public_key_of C k) = 32" "length (sign_with C k m) = 64"
    and "sig_ok C (public_key_of C k) m (sign_with C k m)"
  using assms by (auto simp: crypto_laws_def)

definition code_hash :: "('k, 'z) crypto_lib_scheme \<Rightarrow> bytes \<Rightarrow> string" where
  "code_hash C wasm = sha256_hex C wasm"

section \<open>Migration payloads\<close>

definition u64_to_be_bytes :: "u64 \<Rightarrow> bytes" where
  "u64_to_be_bytes w = u32_to_be_bytes (ucast (drop_bit 32 w)) @ u32_to_be_bytes (ucast w)"

definition u64_from_be_bytes :: "bytes \<Rightarrow> u64" where
  "u64_from_be_bytes bs =
     push_bit 32 (ucast (u32_from_be_bytes (take 4 bs))) OR ucast (u32_from_be_bytes (drop 4 bs))"

record mobile_snapshot =
  sn_uuid :: string
  sn_epoch :: u64
  sn_code :: bytes
  sn_code_hash :: string
  sn_manifest :: bytes
  sn_state :: bytes
  sn_nonce :: bytes
  sn_origin_pub :: bytes
  sn_sig :: bytes

definition migrate_tag :: bytes where "migrate_tag = ascii ''fipa:migrate:v2'' @ [0]"
definition handoff_tag :: bytes where "handoff_tag = ascii ''fipa:handoff:v2'' @ [0]"
definition app_domain :: bytes where "app_domain = ascii ''fipa:agent-app:v1'' @ [0]"

definition snapshot_signing_bytes :: "mobile_snapshot \<Rightarrow> bytes" where
  "snapshot_signing_bytes s =
     (let b = wire_put migrate_tag (utf8 (sn_uuid s));
          b = b @ u64_to_be_bytes (sn_epoch s);
          b = wire_put b (utf8 (sn_code_hash s));
          b = wire_put b (sn_manifest s);
          b = wire_put b (sn_state s);
          b = wire_put b (sn_nonce s)
      in wire_put b (sn_origin_pub s))"

text \<open>The nonce, drawn from the operating system's entropy, is an argument.\<close>

definition snapshot_sealed ::
    "('k, 'z) crypto_lib_scheme \<Rightarrow> string \<Rightarrow> u64 \<Rightarrow> bytes \<Rightarrow> bytes \<Rightarrow> bytes \<Rightarrow> 'k \<Rightarrow> bytes \<Rightarrow> mobile_snapshot" where
  "snapshot_sealed C uuid epoch wasm state manifest key nonce =
     (let s = \<lparr>sn_uuid = uuid, sn_epoch = epoch, sn_code = wasm, sn_code_hash = code_hash C wasm,
               sn_manifest = manifest, sn_state = state, sn_nonce = nonce,
               sn_origin_pub = public_key_of C key, sn_sig = []\<rparr>
      in s\<lparr>sn_sig := sign_with C key (snapshot_signing_bytes s)\<rparr>)"

definition snapshot_verify :: "('k, 'z) crypto_lib_scheme \<Rightarrow> mobile_snapshot \<Rightarrow> bool" where
  "snapshot_verify C s =
     (if length (sn_sig s) \<noteq> 64 \<or> length (sn_origin_pub s) \<noteq> 32 then False
      else if sn_code s \<noteq> [] \<and> code_hash C (sn_code s) \<noteq> sn_code_hash s then False
      else sig_ok C (sn_origin_pub s) (snapshot_signing_bytes s) (sn_sig s))"

record handoff =
  ho_agent :: string
  ho_from_pub :: bytes
  ho_to_pub :: bytes
  ho_epoch :: u64
  ho_sig :: bytes

definition handoff_signing_bytes :: "handoff \<Rightarrow> bytes" where
  "handoff_signing_bytes h =
     wire_put (wire_put (wire_put handoff_tag (utf8 (ho_agent h))) (ho_from_pub h)) (ho_to_pub h)
     @ u64_to_be_bytes (ho_epoch h)"

definition handoff_sealed ::
    "('k, 'z) crypto_lib_scheme \<Rightarrow> string \<Rightarrow> bytes \<Rightarrow> u64 \<Rightarrow> 'k \<Rightarrow> handoff" where
  "handoff_sealed C agent to_pub epoch from_key =
     (let h = \<lparr>ho_agent = agent, ho_from_pub = public_key_of C from_key, ho_to_pub = to_pub,
               ho_epoch = epoch, ho_sig = []\<rparr>
      in h\<lparr>ho_sig := sign_with C from_key (handoff_signing_bytes h)\<rparr>)"

definition handoff_verify :: "('k, 'z) crypto_lib_scheme \<Rightarrow> handoff \<Rightarrow> bool" where
  "handoff_verify C h =
     (if length (ho_sig h) \<noteq> 64 \<or> length (ho_from_pub h) \<noteq> 32 then False
      else sig_ok C (ho_from_pub h) (handoff_signing_bytes h) (ho_sig h))"

record migrate_payload =
  mp_snapshot :: mobile_snapshot
  mp_handoff :: handoff
  mp_from_addr :: string

section \<open>The keyring of an agent\<close>

definition keyring_sign :: "('k, 'z) crypto_lib_scheme \<Rightarrow> 'k \<Rightarrow> bytes \<Rightarrow> bytes" where
  "keyring_sign C key b = sign_with C key (app_domain @ b)"

definition keyring_verify :: "('k, 'z) crypto_lib_scheme \<Rightarrow> bytes \<Rightarrow> bytes \<Rightarrow> bytes \<Rightarrow> bool" where
  "keyring_verify C pubkey b sig =
     (if length pubkey \<noteq> 32 \<or> length sig \<noteq> 64 then False else sig_ok C pubkey (app_domain @ b) sig)"

lemma sealed_verify:
  assumes "crypto_laws C"
  shows "snapshot_verify C (snapshot_sealed C uuid epoch wasm state manifest key nonce)"
    and "handoff_verify C (handoff_sealed C agent to_pub epoch key)"
    and "keyring_verify C (public_key_of C key) b (keyring_sign C key b)"
  using assms
  by (simp_all add: snapshot_verify_def snapshot_sealed_def handoff_verify_def handoff_sealed_def
      keyring_verify_def keyring_sign_def snapshot_signing_bytes_def handoff_signing_bytes_def Let_def)

section \<open>One signature, one statement\<close>

text \<open>
  Everything a node's key signs: an envelope, a snapshot, a handoff, or bytes an agent asked the
  keyring to sign. \<open>covered\<close> is what the signature is meant to speak about.
\<close>

datatype signed_item = SMsg node_msg | SSnapshot mobile_snapshot | SHandoff handoff | SApp bytes

fun signed_bytes :: "signed_item \<Rightarrow> bytes" where
  "signed_bytes (SMsg m) = msg_signing_bytes m"
| "signed_bytes (SSnapshot s) = snapshot_signing_bytes s"
| "signed_bytes (SHandoff h) = handoff_signing_bytes h"
| "signed_bytes (SApp b) = app_domain @ b"

fun covered :: "signed_item \<Rightarrow> signed_item" where
  "covered (SMsg m) = SMsg (m\<lparr>nm_sig := []\<rparr>)"
| "covered (SSnapshot s) = SSnapshot (s\<lparr>sn_code := [], sn_sig := []\<rparr>)"
| "covered (SHandoff h) = SHandoff (h\<lparr>ho_sig := []\<rparr>)"
| "covered (SApp b) = SApp b"

text \<open>
  Sizes that occur: every field fits its length prefix, and the recipient of an envelope is
  shorter than \<open>0x66697061\<close> bytes, the number the first four bytes of a domain tag spell.
\<close>

fun signed_item_ok :: "signed_item \<Rightarrow> bool" where
  "signed_item_ok (SMsg m) \<longleftrightarrow> node_msg_frameable m \<and> length (utf8 (nm_to m)) < 0x66697061"
| "signed_item_ok (SSnapshot s) \<longleftrightarrow> frameable (utf8 (sn_uuid s)) \<and> frameable (utf8 (sn_code_hash s))
     \<and> frameable (sn_manifest s) \<and> frameable (sn_state s) \<and> frameable (sn_nonce s) \<and> frameable (sn_origin_pub s)"
| "signed_item_ok (SHandoff h) \<longleftrightarrow> frameable (utf8 (ho_agent h)) \<and> frameable (ho_from_pub h) \<and> frameable (ho_to_pub h)"
| "signed_item_ok (SApp b) \<longleftrightarrow> True"

lemma u32_to_be_bytes_inj [simp]: "u32_to_be_bytes v = u32_to_be_bytes w \<longleftrightarrow> v = w"
  by (metis u32_roundtrip)

lemma u64_halves:
  assumes "ucast (drop_bit 32 v) = (ucast (drop_bit 32 w) :: u32)" and "ucast v = (ucast w :: u32)"
  shows "v = (w :: u64)"
proof (rule bit_word_eqI)
  fix n :: nat
  assume "n < LENGTH(64)"
  moreover have "bit (ucast (drop_bit 32 v) :: u32) (n - 32) = bit (ucast (drop_bit 32 w) :: u32) (n - 32)"
    and "bit (ucast v :: u32) n = bit (ucast w :: u32) n"
    using assms by simp_all
  ultimately show "bit v n \<longleftrightarrow> bit w n"
    by (cases "n < 32") (auto simp: bit_simps)
qed

lemma u64_to_be_bytes_inj [simp]: "u64_to_be_bytes v = u64_to_be_bytes w \<longleftrightarrow> v = w"
  by (auto simp: u64_to_be_bytes_def intro: u64_halves)

lemma u64_prefix_cancel [simp]:
  "u64_to_be_bytes v @ x = u64_to_be_bytes w @ y \<longleftrightarrow> v = w \<and> x = y"
proof -
  have "length (u64_to_be_bytes v) = length (u64_to_be_bytes w)" by (simp add: u64_to_be_bytes_def)
  then show ?thesis by simp
qed

lemmas signing_bytes_defs =
  msg_signing_bytes_def snapshot_signing_bytes_def handoff_signing_bytes_def wire_put_def Let_def

lemmas framed_cancel_last = framed_cancel [of _ _ "[]" "[]", unfolded append_Nil2]

lemma covered_message:
  assumes "node_msg_frameable m" and "node_msg_frameable m'" and "msg_signing_bytes m = msg_signing_bytes m'"
  shows "m\<lparr>nm_sig := []\<rparr> = m'\<lparr>nm_sig := []\<rparr>"
proof -
  note ok = assms(1,2) [unfolded node_msg_frameable_def]
  show ?thesis
    using assms(3)
    by (simp only: signing_bytes_defs append_assoc append_Nil framed_cancel_assoc framed_cancel_last ok utf8_inj)
      simp
qed

lemma covered_snapshot:
  assumes "signed_item_ok (SSnapshot s)" and "signed_item_ok (SSnapshot s')"
    and "snapshot_signing_bytes s = snapshot_signing_bytes s'"
  shows "s\<lparr>sn_code := [], sn_sig := []\<rparr> = s'\<lparr>sn_code := [], sn_sig := []\<rparr>"
proof -
  note ok = assms(1,2) [unfolded signed_item_ok.simps]
  show ?thesis
    using assms(3)
    by (simp only: signing_bytes_defs append_assoc same_append_eq framed_cancel_assoc framed_cancel_last
        u64_prefix_cancel ok utf8_inj)
      simp
qed

lemma covered_handoff:
  assumes "signed_item_ok (SHandoff h)" and "signed_item_ok (SHandoff h')"
    and "handoff_signing_bytes h = handoff_signing_bytes h'"
  shows "h\<lparr>ho_sig := []\<rparr> = h'\<lparr>ho_sig := []\<rparr>"
proof -
  note ok = assms(1,2) [unfolded signed_item_ok.simps]
  show ?thesis
    using assms(3)
    by (simp only: signing_bytes_defs append_assoc same_append_eq framed_cancel_assoc
        u64_to_be_bytes_inj ok utf8_inj)
      simp
qed

text \<open>The first four bytes and the sixth byte tell the four kinds apart.\<close>

lemma domain_tag_bytes:
  "take 4 (migrate_tag @ x) = u32_to_be_bytes 0x66697061" "take 4 (handoff_tag @ x) = u32_to_be_bytes 0x66697061"
  "take 4 (app_domain @ x) = u32_to_be_bytes 0x66697061"
  "(migrate_tag @ x) ! 5 = 0x6D" "(handoff_tag @ x) ! 5 = 0x68" "(app_domain @ x) ! 5 = 0x61"
  by (simp_all add: migrate_tag_def handoff_tag_def app_domain_def ascii_def u32_to_be_bytes_def
      drop_bit_eq_div)

lemma tagged_signed_bytes:
  "\<exists>x. snapshot_signing_bytes s = migrate_tag @ x" "\<exists>x. handoff_signing_bytes h = handoff_tag @ x"
  by (simp_all add: signing_bytes_defs)

lemma message_prefix:
  assumes "length (utf8 (nm_to m)) < 0x66697061"
  shows "take 4 (msg_signing_bytes m) \<noteq> u32_to_be_bytes 0x66697061"
proof
  assume "take 4 (msg_signing_bytes m) = u32_to_be_bytes 0x66697061"
  then have "(of_nat (length (utf8 (nm_to m))) :: u32) = 0x66697061"
    by (simp add: signing_bytes_defs)
  then have "unat (of_nat (length (utf8 (nm_to m))) :: u32) = 0x66697061" by simp
  then show False using assms by (simp add: unat_length_prefix)
qed

definition kind_byte :: "bytes \<Rightarrow> byte" where
  "kind_byte bs = (if take 4 bs = u32_to_be_bytes 0x66697061 then bs ! 5 else 0)"

fun kind_of :: "signed_item \<Rightarrow> byte" where
  "kind_of (SMsg m) = 0"
| "kind_of (SSnapshot s) = 0x6D"
| "kind_of (SHandoff h) = 0x68"
| "kind_of (SApp b) = 0x61"

lemma kind_byte_signed: "signed_item_ok a \<Longrightarrow> kind_byte (signed_bytes a) = kind_of a"
proof (cases a)
  case (SSnapshot s)
  with tagged_signed_bytes(1) [of s] show ?thesis by (metis domain_tag_bytes(1,4) kind_byte_def kind_of.simps(2) signed_bytes.simps(2))
next
  case (SHandoff h)
  with tagged_signed_bytes(2) [of h] show ?thesis by (metis domain_tag_bytes(2,5) kind_byte_def kind_of.simps(3) signed_bytes.simps(3))
next
  case (SApp b)
  show ?thesis unfolding SApp kind_byte_def signed_bytes.simps domain_tag_bytes by simp
qed (simp add: kind_byte_def message_prefix)

lemma same_kind:
  assumes "signed_item_ok a" and "signed_item_ok b" and "signed_bytes a = signed_bytes b"
  shows "kind_of a = kind_of b"
  using kind_byte_signed [OF assms(1)] kind_byte_signed [OF assms(2)] assms(3) by simp

text \<open>
  C17: A node's signature speaks about one statement. If two things a node signs (envelopes,
  migration snapshots, key handoffs, bytes signed for an agent) have the same signed bytes, they
  are of the same kind and agree on every field the signature covers: no field boundary can be
  shifted, and a signature obtained for an agent's bytes or a handoff is never one for an envelope
  or a snapshot.
\<close>

theorem signatures_not_confused:
  assumes "signed_item_ok a" and "signed_item_ok b" and "signed_bytes a = signed_bytes b"
  shows "covered a = covered b"
proof (cases a)
  case a: (SMsg m)
  with same_kind [OF assms] obtain m' where b: "b = SMsg m'" by (cases b) auto
  with a assms show ?thesis using covered_message [of m m'] by simp
next
  case a: (SSnapshot s)
  with same_kind [OF assms] obtain s' where b: "b = SSnapshot s'" by (cases b) auto
  with a assms show ?thesis using covered_snapshot [of s s'] by simp
next
  case a: (SHandoff h)
  with same_kind [OF assms] obtain h' where b: "b = SHandoff h'" by (cases b) auto
  with a assms show ?thesis using covered_handoff [of h h'] by simp
next
  case a: (SApp y)
  with same_kind [OF assms] obtain y' where b: "b = SApp y'" by (cases b) auto
  with a assms show ?thesis by simp
qed

lemma example_signed_ok:
  "signed_item_ok (SMsg example_node_msg)" "signed_item_ok (SMsg (example_node_msg\<lparr>nm_sig := []\<rparr>))"
  using example_node_msg_frameable
  by (simp_all add: node_msg_frameable_def) (simp_all add: example_node_msg_def utf8_def utf8_char_def)

theorem signatures_not_confused_witness:
  "signed_bytes (SMsg example_node_msg) = signed_bytes (SMsg (example_node_msg\<lparr>nm_sig := []\<rparr>))
   \<and> covered (SMsg example_node_msg) = covered (SMsg (example_node_msg\<lparr>nm_sig := []\<rparr>))"
proof -
  have eq: "signed_bytes (SMsg example_node_msg) = signed_bytes (SMsg (example_node_msg\<lparr>nm_sig := []\<rparr>))"
    by (simp add: signing_bytes_defs)
  show ?thesis
    using signatures_not_confused [OF example_signed_ok eq] eq by blast
qed

end
