(* ===== verification/Guest_Runtime.thy ===== *)
theory Guest_Runtime
  imports Agent_Actor Unl_Content
begin

text \<open>
  The guest side of the engine-based node: the context and the \<open>Agent\<close> trait of the crate
  \<^verbatim>\<open>unl-agent\<close>, and the two substrates that drive an agent, the in-process
  \<open>NativeRuntime\<close> of \<^verbatim>\<open>src/wasm/agent_runtime.rs\<close> and the glue that
  \<open>export_agent!\<close> puts into a WebAssembly build.

  An agent is a record of its methods over a state \<open>'a\<close>. A method that panics is a value: the
  first component of its result is \<open>False\<close>, with the state and the context as they were at the panic,
  because \<open>catch_unwind\<close> keeps both. \<open>AgentRuntime\<close>, the trait object the node drives, is a
  record of operations over a runtime state \<open>'r\<close>; a \<open>Result<()>\<close> is a sum with the message of
  the error. The host services behind the state and keyring handles are not part of these
  definitions: a handle is what the node passed to \<open>set_state\<close>.
\<close>

section \<open>The context of one call\<close>

record outgoing =
  og_to :: string
  og_unl :: string
  og_body :: bytes

datatype timer_op = SetTimer u64 u64 | CancelTimer u64

record infer_req =
  ir_req_id :: u64
  ir_prompt :: string

record spawn_req =
  sr_uuid :: string
  sr_alias :: string
  sr_code :: bytes
  sr_manifest_json :: bytes

text \<open>A state handle: the namespace it is confined to and its quota in bytes.\<close>

record kv_handle =
  kh_ns :: string
  kh_quota :: u64

record ctx =
  cx_from :: string
  cx_sends :: "outgoing list"
  cx_timers :: "timer_op list"
  cx_state :: "kv_handle option"
  cx_keyring :: bool
  cx_infers :: "infer_req list"
  cx_spawns :: "spawn_req list"

definition ctx_new :: ctx where
  "ctx_new = \<lparr>cx_from = '''', cx_sends = [], cx_timers = [], cx_state = None, cx_keyring = False,
     cx_infers = [], cx_spawns = []\<rparr>"

definition set_from :: "string \<Rightarrow> ctx \<Rightarrow> ctx" where
  "set_from from c = c\<lparr>cx_from := from\<rparr>"

definition ctx_send :: "string \<Rightarrow> string \<Rightarrow> bytes \<Rightarrow> ctx \<Rightarrow> ctx" where
  "ctx_send to unl body c = c\<lparr>cx_sends := cx_sends c @ [\<lparr>og_to = to, og_unl = unl, og_body = body\<rparr>]\<rparr>"

definition ctx_set_timer :: "u64 \<Rightarrow> u64 \<Rightarrow> ctx \<Rightarrow> ctx" where
  "ctx_set_timer i delay c = c\<lparr>cx_timers := cx_timers c @ [SetTimer i delay]\<rparr>"

definition ctx_cancel_timer :: "u64 \<Rightarrow> ctx \<Rightarrow> ctx" where
  "ctx_cancel_timer i c = c\<lparr>cx_timers := cx_timers c @ [CancelTimer i]\<rparr>"

definition ctx_infer :: "u64 \<Rightarrow> string \<Rightarrow> ctx \<Rightarrow> ctx" where
  "ctx_infer req prompt c = c\<lparr>cx_infers := cx_infers c @ [\<lparr>ir_req_id = req, ir_prompt = prompt\<rparr>]\<rparr>"

definition ctx_spawn :: "string \<Rightarrow> string \<Rightarrow> bytes \<Rightarrow> bytes \<Rightarrow> ctx \<Rightarrow> ctx" where
  "ctx_spawn uuid alias wasm manifest c =
     c\<lparr>cx_spawns := cx_spawns c @ [\<lparr>sr_uuid = uuid, sr_alias = alias, sr_code = wasm, sr_manifest_json = manifest\<rparr>]\<rparr>"

definition ctx_take :: "ctx \<Rightarrow> outgoing list \<times> ctx" where
  "ctx_take c = (cx_sends c, c\<lparr>cx_sends := []\<rparr>)"

section \<open>Agents\<close>

type_synonym 'a call = "'a \<Rightarrow> ctx \<Rightarrow> bool \<times> 'a \<times> ctx"

record 'a agent =
  on_init :: "'a call"
  on_seed :: "bytes \<Rightarrow> 'a call"
  on_message :: "string \<Rightarrow> bytes \<Rightarrow> 'a call"
  agent_snapshot_bytes :: "'a \<Rightarrow> bytes"
  agent_restore :: "bytes \<Rightarrow> 'a \<Rightarrow> 'a"
  on_tick :: "u64 \<Rightarrow> u64 \<Rightarrow> 'a call"

definition returns :: "'a call" where
  "returns a c = (True, a, c)"

text \<open>The default methods of the trait; only \<open>on_message\<close> has none.\<close>

definition agent_with :: "(string \<Rightarrow> bytes \<Rightarrow> 'a call) \<Rightarrow> 'a agent" where
  "agent_with f = \<lparr>on_init = returns, on_seed = (\<lambda>_. returns), on_message = f,
     agent_snapshot_bytes = (\<lambda>_. []), agent_restore = (\<lambda>_ a. a), on_tick = (\<lambda>_ _. returns)\<rparr>"

lemma agent_with_simps [simp]:
  "on_init (agent_with f) = returns" "on_seed (agent_with f) d = returns" "on_message (agent_with f) = f"
  "agent_snapshot_bytes (agent_with f) a = []" "agent_restore (agent_with f) b a = a"
  "on_tick (agent_with f) i t = returns" "returns a c = (True, a, c)"
  by (simp_all add: agent_with_def returns_def)

definition is_seed :: "bytes \<Rightarrow> bool" where
  "is_seed unl \<longleftrightarrow> (case unl of [] \<Rightarrow> False | b # _ \<Rightarrow> b = 0x7B)"

section \<open>The runtime the node drives\<close>

record 'r agent_runtime =
  rt_init :: "'r \<Rightarrow> (string + unit) \<times> 'r"
  rt_config :: "string \<Rightarrow> bytes \<Rightarrow> bytes \<Rightarrow> 'r \<Rightarrow> (string + unit) \<times> 'r"
  rt_take_sends :: "'r \<Rightarrow> outbound_intent list \<times> 'r"
  rt_run :: "'r \<Rightarrow> (string + bool) \<times> 'r"
  rt_shutdown :: "'r \<Rightarrow> (string + unit) \<times> 'r"
  rt_snapshot :: "'r \<Rightarrow> bytes \<times> 'r"
  rt_restore :: "bytes \<Rightarrow> 'r \<Rightarrow> 'r"
  rt_tick :: "u64 \<Rightarrow> u64 \<Rightarrow> 'r \<Rightarrow> (string + unit) \<times> 'r"
  rt_take_timer_ops :: "'r \<Rightarrow> timer_op list \<times> 'r"
  rt_set_state :: "kv_handle \<Rightarrow> 'r \<Rightarrow> 'r"
  rt_set_keyring :: "'r \<Rightarrow> 'r"
  rt_take_infer_reqs :: "'r \<Rightarrow> infer_req list \<times> 'r"
  rt_take_spawn_reqs :: "'r \<Rightarrow> spawn_req list \<times> 'r"

section \<open>The in-process runtime\<close>

record 'a native_runtime =
  nr_agent :: 'a
  nr_outbox :: "outbound_intent list"
  nr_timer_ops :: "timer_op list"
  nr_state :: "kv_handle option"
  nr_keyring :: bool
  nr_infers :: "infer_req list"
  nr_spawns :: "spawn_req list"

definition native_new :: "'a \<Rightarrow> 'a native_runtime" where
  "native_new a = \<lparr>nr_agent = a, nr_outbox = [], nr_timer_ops = [], nr_state = None, nr_keyring = False,
     nr_infers = [], nr_spawns = []\<rparr>"

definition outgoing_intent :: "outgoing \<Rightarrow> outbound_intent" where
  "outgoing_intent o' = \<lparr>oi_receiver = og_to o', oi_unl = utf8 (og_unl o'), oi_body = og_body o'\<rparr>"

definition guarded :: "'a call \<Rightarrow> 'a native_runtime \<Rightarrow> (string + unit) \<times> 'a native_runtime" where
  "guarded call r =
     (let c = ctx_new\<lparr>cx_state := nr_state r, cx_keyring := nr_keyring r\<rparr>;
          (ok, a, c') = call (nr_agent r) c
      in if ok
         then (Inr (), r\<lparr>nr_agent := a, nr_outbox := nr_outbox r @ map outgoing_intent (cx_sends c'),
                         nr_timer_ops := nr_timer_ops r @ cx_timers c', nr_infers := nr_infers r @ cx_infers c',
                         nr_spawns := nr_spawns r @ cx_spawns c'\<rparr>)
         else (Inl ''native agent panicked; output discarded'', r\<lparr>nr_agent := a\<rparr>))"

definition native_init :: "'a agent \<Rightarrow> 'a native_runtime \<Rightarrow> (string + unit) \<times> 'a native_runtime" where
  "native_init A = guarded (on_init A)"

definition utf8_or_empty :: "bytes \<Rightarrow> string" where
  "utf8_or_empty b = (case from_utf8 b of None \<Rightarrow> '''' | Some s \<Rightarrow> s)"

definition native_config ::
    "'a agent \<Rightarrow> string \<Rightarrow> bytes \<Rightarrow> bytes \<Rightarrow> 'a native_runtime \<Rightarrow> (string + unit) \<times> 'a native_runtime" where
  "native_config A from unl body r =
     (if is_seed unl then guarded (on_seed A body) r
      else guarded (\<lambda>a c. on_message A (utf8_or_empty unl) body a (set_from from c)) r)"

definition native_take_sends :: "'a native_runtime \<Rightarrow> outbound_intent list \<times> 'a native_runtime" where
  "native_take_sends r = (nr_outbox r, r\<lparr>nr_outbox := []\<rparr>)"

definition native_tick ::
    "'a agent \<Rightarrow> u64 \<Rightarrow> u64 \<Rightarrow> 'a native_runtime \<Rightarrow> (string + unit) \<times> 'a native_runtime" where
  "native_tick A i now = guarded (on_tick A i now)"

definition native_vtable :: "'a agent \<Rightarrow> 'a native_runtime agent_runtime" where
  "native_vtable A = \<lparr>rt_init = native_init A, rt_config = native_config A, rt_take_sends = native_take_sends,
     rt_run = (\<lambda>r. (Inr True, r)), rt_shutdown = (\<lambda>r. (Inr (), r)),
     rt_snapshot = (\<lambda>r. (agent_snapshot_bytes A (nr_agent r), r)),
     rt_restore = (\<lambda>b r. r\<lparr>nr_agent := agent_restore A b (nr_agent r)\<rparr>),
     rt_tick = native_tick A,
     rt_take_timer_ops = (\<lambda>r. (nr_timer_ops r, r\<lparr>nr_timer_ops := []\<rparr>)),
     rt_set_state = (\<lambda>h r. r\<lparr>nr_state := Some h\<rparr>), rt_set_keyring = (\<lambda>r. r\<lparr>nr_keyring := True\<rparr>),
     rt_take_infer_reqs = (\<lambda>r. (nr_infers r, r\<lparr>nr_infers := []\<rparr>)),
     rt_take_spawn_reqs = (\<lambda>r. (nr_spawns r, r\<lparr>nr_spawns := []\<rparr>))\<rparr>"

section \<open>The glue of a WebAssembly build\<close>

text \<open>
  \<open>drive\<close> runs one call on the agent of the module and emits what it sent; a trap is the error of
  the call. \<open>handle\<close> is what the exports \<open>config\<close> and \<open>deliver\<close> call.
\<close>

definition wasm_drive :: "'a call \<Rightarrow> 'a \<Rightarrow> (outgoing list \<times> 'a) option" where
  "wasm_drive f a = (case f a ctx_new of (ok, a', c) \<Rightarrow> if ok then Some (cx_sends c, a') else None)"

definition wasm_handle :: "'a agent \<Rightarrow> bytes \<Rightarrow> bytes \<Rightarrow> bytes \<Rightarrow> 'a \<Rightarrow> (outgoing list \<times> 'a) option" where
  "wasm_handle A from unl body =
     (let from = utf8_or_empty from in
      if is_seed unl then wasm_drive (\<lambda>a c. on_seed A body a (set_from from c))
      else wasm_drive (\<lambda>a c. on_message A (utf8_or_empty unl) body a (set_from from c)))"

text \<open>The exports of a module as the host calls them, and the runtime made of them.\<close>

record 'w wasm_exports =
  we_init :: "'w \<Rightarrow> (string + unit) \<times> 'w"
  we_deliver :: "bytes \<Rightarrow> bytes \<Rightarrow> bytes \<Rightarrow> 'w \<Rightarrow> (string + bool) \<times> 'w"
  we_config :: "bytes \<Rightarrow> bytes \<Rightarrow> 'w \<Rightarrow> (string + unit) \<times> 'w"
  we_take_sends :: "'w \<Rightarrow> outbound_intent list \<times> 'w"
  we_run :: "'w \<Rightarrow> (string + bool) \<times> 'w"
  we_shutdown :: "'w \<Rightarrow> (string + unit) \<times> 'w"
  we_snapshot :: "'w \<Rightarrow> bytes \<times> 'w"
  we_restore :: "bytes \<Rightarrow> 'w \<Rightarrow> 'w"

definition wasm_config ::
    "'w wasm_exports \<Rightarrow> string \<Rightarrow> bytes \<Rightarrow> bytes \<Rightarrow> 'w \<Rightarrow> (string + unit) \<times> 'w" where
  "wasm_config W from unl body w =
     (case we_deliver W (utf8 from) unl body w of
        (Inl e, w') \<Rightarrow> (Inl e, w')
      | (Inr b, w') \<Rightarrow> if b then (Inr (), w') else we_config W unl body w')"

definition wasm_vtable :: "'w wasm_exports \<Rightarrow> 'w agent_runtime" where
  "wasm_vtable W = \<lparr>rt_init = we_init W, rt_config = wasm_config W, rt_take_sends = we_take_sends W,
     rt_run = we_run W, rt_shutdown = we_shutdown W, rt_snapshot = we_snapshot W, rt_restore = we_restore W,
     rt_tick = (\<lambda>_ _ r. (Inr (), r)), rt_take_timer_ops = (\<lambda>r. ([], r)), rt_set_state = (\<lambda>_ r. r),
     rt_set_keyring = (\<lambda>r. r), rt_take_infer_reqs = (\<lambda>r. ([], r)), rt_take_spawn_reqs = (\<lambda>r. ([], r))\<rparr>"

section \<open>Faults are contained\<close>

lemma guarded_panic:
  assumes "fst (call (nr_agent r) (ctx_new\<lparr>cx_state := nr_state r, cx_keyring := nr_keyring r\<rparr>)) = False"
  shows "fst (guarded call r) \<noteq> Inr ()" and "nr_outbox (snd (guarded call r)) = nr_outbox r"
    and "nr_timer_ops (snd (guarded call r)) = nr_timer_ops r" and "nr_spawns (snd (guarded call r)) = nr_spawns r"
  using assms by (auto simp: guarded_def split: prod.splits)

lemma guarded_agent:
  "nr_agent (snd (guarded call r))
     = fst (snd (call (nr_agent r) (ctx_new\<lparr>cx_state := nr_state r, cx_keyring := nr_keyring r\<rparr>)))"
  by (simp add: guarded_def split: prod.splits)

lemma native_vtable_simps [simp]:
  "rt_init (native_vtable A) = native_init A" "rt_config (native_vtable A) = native_config A"
  "rt_take_sends (native_vtable A) = native_take_sends" "rt_tick (native_vtable A) = native_tick A"
  by (simp_all add: native_vtable_def fun_eq_iff)

lemma native_take_sends_simps [simp]:
  "fst (native_take_sends r) = nr_outbox r" "nr_agent (snd (native_take_sends r)) = nr_agent r"
  by (simp_all add: native_take_sends_def)

section \<open>Conversations\<close>

type_synonym delivery = "string \<times> bytes \<times> bytes"

text \<open>
  A conversation: the messages are delivered one after the other, and after each of them the node
  takes what the agent sent. The WebAssembly build stops at the first trap.
\<close>

fun native_conversation ::
    "'a agent \<Rightarrow> delivery list \<Rightarrow> 'a native_runtime \<Rightarrow> outbound_intent list list \<times> 'a native_runtime" where
  "native_conversation A [] r = ([], r)"
| "native_conversation A ((from, unl, body) # ms) r =
     (let (s, r) = native_take_sends (snd (native_config A from unl body r));
          (ss, r) = native_conversation A ms r
      in (s # ss, r))"

fun wasm_conversation :: "'a agent \<Rightarrow> delivery list \<Rightarrow> 'a \<Rightarrow> (outgoing list list \<times> 'a) option" where
  "wasm_conversation A [] a = Some ([], a)"
| "wasm_conversation A ((from, unl, body) # ms) a =
     (case wasm_handle A (utf8 from) unl body a of
        None \<Rightarrow> None
      | Some (s, a) \<Rightarrow> map_option (\<lambda>(ss, a). (s # ss, a)) (wasm_conversation A ms a))"

section \<open>What an agent keeps, its runtime keeps\<close>

text \<open>
  The contract between an agent and the runtime: a condition on the agent's state that its
  methods keep, panics included. Seeding is a separate clause: it installs the state the
  operator wants.
\<close>

locale guest_invariant =
  fixes A :: "'a agent" and I :: "'a \<Rightarrow> bool"
  assumes init_keeps: "I a \<Longrightarrow> I (fst (snd (on_init A a c)))"
    and message_keeps: "I a \<Longrightarrow> I (fst (snd (on_message A unl body a c)))"
    and tick_keeps: "I a \<Longrightarrow> I (fst (snd (on_tick A i now a c)))"
begin

lemma runtime_init: "I (nr_agent r) \<Longrightarrow> I (nr_agent (snd (native_init A r)))"
  unfolding native_init_def guarded_agent by (rule init_keeps)

lemma runtime_message:
  assumes "I (nr_agent r)" and "\<not> is_seed unl"
  shows "I (nr_agent (snd (native_config A from unl body r)))"
  using assms(2) unfolding native_config_def by (simp add: guarded_agent message_keeps assms(1))

lemma runtime_tick: "I (nr_agent r) \<Longrightarrow> I (nr_agent (snd (native_tick A i now r)))"
  unfolding native_tick_def guarded_agent by (rule tick_keeps)

lemma runtime_conversation:
  "I (nr_agent r) \<Longrightarrow> list_all (\<lambda>(_, unl, _). \<not> is_seed unl) ms \<Longrightarrow> I (nr_agent (snd (native_conversation A ms r)))"
proof (induction ms arbitrary: r)
  case (Cons m ms)
  obtain "from" unl body where m: "m = (from, unl, body)" by (cases m) auto
  then have "I (nr_agent (snd (native_config A from unl body r)))"
    using Cons.prems by (intro runtime_message) auto
  then show ?case using Cons.prems(2) by (simp add: m native_take_sends_def Cons.IH Let_def case_prod_unfold)
qed simp

end

locale seeded_invariant = guest_invariant +
  assumes seed_keeps: "I a \<Longrightarrow> I (fst (snd (on_seed A d a c)))"
begin

lemma runtime_config: "I (nr_agent r) \<Longrightarrow> I (nr_agent (snd (native_config A from unl body r)))"
  by (cases "is_seed unl") (simp add: native_config_def guarded_agent seed_keeps, rule runtime_message)

lemma runtime_seeded_conversation: "I (nr_agent r) \<Longrightarrow> I (nr_agent (snd (native_conversation A ms r)))"
proof (induction ms arbitrary: r)
  case (Cons m ms)
  obtain "from" unl body where m: "m = (from, unl, body)" by (cases m) auto
  have "I (nr_agent (snd (native_config A from unl body r)))" by (rule runtime_config) (rule Cons.prems)
  then show ?case by (simp add: m native_take_sends_def Cons.IH Let_def case_prod_unfold)
qed simp

end

section \<open>Two substrates, one behaviour\<close>

definition fresh_runtime :: "'a native_runtime \<Rightarrow> bool" where
  "fresh_runtime r \<longleftrightarrow> nr_outbox r = [] \<and> nr_state r = None \<and> \<not> nr_keyring r"

lemma utf8_or_empty_utf8 [simp]: "utf8_or_empty (utf8 s) = s"
  by (simp add: utf8_or_empty_def)

lemma ctx_new_fields [simp]:
  "ctx_new\<lparr>cx_state := None, cx_keyring := False\<rparr> = ctx_new" "set_from '''' ctx_new = ctx_new"
  by (simp_all add: ctx_new_def set_from_def)

lemma substrate_step:
  assumes "fresh_runtime r" and "is_seed unl \<Longrightarrow> from = ''''"
    and "wasm_handle A (utf8 from) unl body (nr_agent r) = Some (s, a)"
  shows "\<exists>r'. native_take_sends (snd (native_config A from unl body r)) = (map outgoing_intent s, r')
           \<and> nr_agent r' = a \<and> fresh_runtime r' \<and> fst (native_config A from unl body r) = Inr ()"
  using assms
  by (auto simp: wasm_handle_def wasm_drive_def native_config_def guarded_def fresh_runtime_def
      native_take_sends_def split: if_splits prod.splits)

definition seeds_from_node :: "delivery list \<Rightarrow> bool" where
  "seeds_from_node ms \<longleftrightarrow> list_all (\<lambda>(from, unl, body). is_seed unl \<longrightarrow> from = '''') ms"


text \<open>
  The difference between the substrates. A seed that carries a sender shows it to the agent in the
  WebAssembly build only, and of what an agent asks for besides messages the glue drops all:
  timers, inferences and children of a WebAssembly agent never reach the node.
\<close>

definition timer_agent :: "unit agent" where
  "timer_agent = agent_with (\<lambda>unl body a c. (True, a, ctx_set_timer 1 1000 c))"

lemma wasm_drops_timers:
  "nr_timer_ops (snd (native_config timer_agent ''x'' [] [] (native_new ()))) = [SetTimer 1 1000]"
  "wasm_handle timer_agent (utf8 ''x'') [] [] () = Some ([], ())"
  "fst (rt_take_timer_ops (wasm_vtable W) w) = []"
  by (simp_all add: timer_agent_def native_config_def guarded_def wasm_handle_def wasm_drive_def wasm_vtable_def
      is_seed_def native_new_def ctx_set_timer_def ctx_new_def set_from_def)

lemma wasm_seed_sees_sender:
  "is_seed unl \<Longrightarrow>
   wasm_handle A (utf8 from) unl body a = wasm_drive (\<lambda>a c. on_seed A body a (set_from from c)) a
   \<and> native_config A from unl body r = guarded (on_seed A body) r"
  by (simp add: wasm_handle_def native_config_def)

section \<open>Sample agents\<close>

text \<open>The agents of \<^verbatim>\<open>src/process/agents.rs\<close> that the tests use.\<close>

definition echo_agent :: "unit agent" where
  "echo_agent = agent_with (\<lambda>unl body a c. (True, a, ctx_send ''peer'' unl body c))"

definition boomer_agent :: "unit agent" where
  "boomer_agent = agent_with (\<lambda>unl body a c.
     if contains_str unl ''boom'' then (False, a, c) else (True, a, ctx_send ''peer'' unl body c))"


end
