(* ===== verification/Node_Manifest.thy ===== *)
theory Node_Manifest
  imports Node_Wire Guest_Runtime
begin

text \<open>
  The manifest of an agent and its load-time gate (\<^verbatim>\<open>src/manifest.rs\<close>), the senders that
  never arrive over the wire (\<^verbatim>\<open>src/adapters/mod.rs\<close>) and the durable store behind the
  state capability (\<^verbatim>\<open>src/adapters/store.rs\<close>, \<open>ScopedKv\<close> of
  \<^verbatim>\<open>src/process/node.rs\<close>). The sled database is a map from keys to values whose
  operations succeed. The serde codec of the manifest is a parameter of its users.
\<close>

section \<open>Capabilities and budgets\<close>

datatype capability = Messaging | Log | Discovery | State | Time | Llm | Crypto | Spawn

fun is_core :: "capability \<Rightarrow> bool" where
  "is_core Messaging \<longleftrightarrow> True"
| "is_core Log \<longleftrightarrow> True"
| "is_core _ \<longleftrightarrow> False"

datatype node_shape = NormalNode | IotNode | EitherNode
datatype brain = WasmBrain | NativeBrain | LlmBrain

record budget =
  bg_mem_kb :: u64
  bg_fuel :: u64
  bg_state_kb :: u64
  bg_timers :: u32
  bg_msg_per_s :: u32
  bg_net :: string

definition budget_default :: budget where
  "budget_default = \<lparr>bg_mem_kb = 4096, bg_fuel = 100000000, bg_state_kb = 256, bg_timers = 4,
     bg_msg_per_s = 50, bg_net = ''platform''\<rparr>"

record manifest =
  mf_type_id :: string
  mf_desc :: string
  mf_name :: "string option"
  mf_profile :: node_shape
  mf_brain :: brain
  mf_grants :: "capability list"
  mf_budget :: budget

record grant =
  gr_caps :: "capability set"
  gr_budget :: budget

definition granted_cap :: "grant \<Rightarrow> capability \<Rightarrow> bool" where
  "granted_cap g c \<longleftrightarrow> c \<in> gr_caps g"

definition all_capabilities :: "capability set" where
  "all_capabilities = {Messaging, Log, Discovery, State, Time, Llm, Crypto, Spawn}"

definition grant_full :: grant where
  "grant_full = \<lparr>gr_caps = all_capabilities, gr_budget = budget_default\<rparr>"

section \<open>The load-time fit\<close>

datatype fit_error = Ungranted capability | OverBudget string

definition net_rank :: "string \<Rightarrow> nat" where
  "net_rank scope = (if scope = ''none'' then 0 else if scope = ''any'' then 2 else 1)"

record node_profile =
  np_profile :: node_shape
  np_caps :: "capability set"
  np_ceiling :: budget

definition profile_normal :: node_profile where
  "profile_normal = \<lparr>np_profile = NormalNode, np_caps = all_capabilities,
     np_ceiling = \<lparr>bg_mem_kb = 1048576, bg_fuel = - 1, bg_state_kb = 1048576, bg_timers = 1024,
                   bg_msg_per_s = 100000, bg_net = ''any''\<rparr>\<rparr>"

definition profile_iot :: node_profile where
  "profile_iot = \<lparr>np_profile = IotNode, np_caps = {Messaging, Log, Discovery, State, Time, Crypto},
     np_ceiling = \<lparr>bg_mem_kb = 512, bg_fuel = 1000000, bg_state_kb = 64, bg_timers = 4,
                   bg_msg_per_s = 50, bg_net = ''platform''\<rparr>\<rparr>"

fun first_ungranted :: "capability set \<Rightarrow> capability list \<Rightarrow> capability option" where
  "first_ungranted offered [] = None"
| "first_ungranted offered (c # cs) = (if c \<notin> offered then Some c else first_ungranted offered cs)"

definition fit :: "node_profile \<Rightarrow> manifest \<Rightarrow> fit_error + grant" where
  "fit p m =
     (let b = mf_budget m; ceil = np_ceiling p in
      case first_ungranted (np_caps p) (mf_grants m) of
        Some c \<Rightarrow> Inl (Ungranted c)
      | None \<Rightarrow>
          if bg_mem_kb b > bg_mem_kb ceil then Inl (OverBudget ''mem_kb'')
          else if bg_fuel b > bg_fuel ceil then Inl (OverBudget ''fuel'')
          else if bg_state_kb b > bg_state_kb ceil then Inl (OverBudget ''state_kb'')
          else if bg_timers b > bg_timers ceil then Inl (OverBudget ''timers'')
          else if bg_msg_per_s b > bg_msg_per_s ceil then Inl (OverBudget ''msg_per_s'')
          else if net_rank (bg_net b) > net_rank (bg_net ceil) then Inl (OverBudget ''net'')
          else Inr \<lparr>gr_caps = insert Log (insert Messaging (set (mf_grants m))), gr_budget = b\<rparr>)"

definition within_ceiling :: "budget \<Rightarrow> budget \<Rightarrow> bool" where
  "within_ceiling b ceil \<longleftrightarrow> bg_mem_kb b \<le> bg_mem_kb ceil \<and> bg_fuel b \<le> bg_fuel ceil
     \<and> bg_state_kb b \<le> bg_state_kb ceil \<and> bg_timers b \<le> bg_timers ceil
     \<and> bg_msg_per_s b \<le> bg_msg_per_s ceil \<and> net_rank (bg_net b) \<le> net_rank (bg_net ceil)"

lemma first_ungranted_None [simp]: "first_ungranted P cs = None \<longleftrightarrow> set cs \<subseteq> P"
  by (induction cs) auto

text \<open>The gate admits exactly the manifests that ask for what the profile offers.\<close>

lemma fit_Inr:
  "fit p m = Inr g \<longleftrightarrow> set (mf_grants m) \<subseteq> np_caps p \<and> within_ceiling (mf_budget m) (np_ceiling p)
     \<and> g = \<lparr>gr_caps = {Log, Messaging} \<union> set (mf_grants m), gr_budget = mf_budget m\<rparr>"
proof (cases "first_ungranted (np_caps p) (mf_grants m)")
  case None
  then have "set (mf_grants m) \<subseteq> np_caps p" by simp
  with None show ?thesis
    by (auto simp: fit_def Let_def within_ceiling_def not_less [symmetric] simp del: first_ungranted_None)
next
  case (Some c)
  then have "\<not> set (mf_grants m) \<subseteq> np_caps p" by (simp flip: first_ungranted_None)
  with Some show ?thesis by (auto simp: fit_def Let_def)
qed

lemma fit_caps: "fit p m = Inr g \<Longrightarrow> gr_caps g = {Log, Messaging} \<union> set (mf_grants m) \<and> gr_budget g = mf_budget m"
  by (simp add: fit_Inr)

section \<open>Reserved senders\<close>

definition reserved_senders :: "string list" where
  "reserved_senders = [''ams'', ''df'', ''pa'', ''llm'', ''node'', ''crypto'', ''boot'', ''resolver'', ''result'']"

definition is_reserved_sender :: "string \<Rightarrow> bool" where
  "is_reserved_sender from \<longleftrightarrow> from \<in> set reserved_senders"

section \<open>The durable store\<close>

type_synonym db = "(bytes, bytes) hashmap"

definition scoped :: "string \<Rightarrow> string \<Rightarrow> bytes" where
  "scoped ns key = u32_to_be_bytes (of_nat (length (utf8 ns))) @ utf8 ns @ utf8 key"

definition store_get :: "string \<Rightarrow> string \<Rightarrow> db \<Rightarrow> bytes option" where
  "store_get ns key d = hm_get d (scoped ns key)"

definition store_put :: "string \<Rightarrow> string \<Rightarrow> bytes \<Rightarrow> db \<Rightarrow> db" where
  "store_put ns key v d = hm_insert (scoped ns key) v d"

definition store_del :: "string \<Rightarrow> string \<Rightarrow> db \<Rightarrow> db" where
  "store_del ns key d = hm_remove (scoped ns key) d"

text \<open>A handle on the store: the namespace, the quota and the count of bytes it charged so far.\<close>

record scoped_kv =
  kv_ns :: string
  kv_used :: u64
  kv_quota :: u64

definition saturating_sub :: "u64 \<Rightarrow> u64 \<Rightarrow> u64" where
  "saturating_sub a b = (if b \<le> a then a - b else 0)"

definition saturating_add :: "u64 \<Rightarrow> u64 \<Rightarrow> u64" where
  "saturating_add a b = (let s = a + b in if s < a then - 1 else s)"

definition stored_size :: "string \<Rightarrow> string \<Rightarrow> db \<Rightarrow> u64" where
  "stored_size ns key d = (case store_get ns key d of None \<Rightarrow> 0 | Some v \<Rightarrow> of_nat (length v))"

definition kv_get :: "scoped_kv \<Rightarrow> string \<Rightarrow> db \<Rightarrow> bytes option" where
  "kv_get h key d = store_get (kv_ns h) key d"

definition kv_put :: "string \<Rightarrow> bytes \<Rightarrow> scoped_kv \<times> db \<Rightarrow> scoped_kv \<times> db" where
  "kv_put key v hk =
     (case hk of (h, d) \<Rightarrow>
        let old = stored_size (kv_ns h) key d;
            projected = saturating_add (saturating_sub (kv_used h) old) (of_nat (length v))
        in if projected > kv_quota h then (h, d)
           else (h\<lparr>kv_used := projected\<rparr>, store_put (kv_ns h) key v d))"

definition kv_del :: "string \<Rightarrow> scoped_kv \<times> db \<Rightarrow> scoped_kv \<times> db" where
  "kv_del key hk =
     (case hk of (h, d) \<Rightarrow>
        (h\<lparr>kv_used := saturating_sub (kv_used h) (stored_size (kv_ns h) key d)\<rparr>, store_del (kv_ns h) key d))"

datatype kv_op = KvPut string bytes | KvDel string

fun kv_step :: "kv_op \<Rightarrow> scoped_kv \<times> db \<Rightarrow> scoped_kv \<times> db" where
  "kv_step (KvPut key v) = kv_put key v"
| "kv_step (KvDel key) = kv_del key"

text \<open>No key of one namespace is the key of another.\<close>

lemma scoped_inj:
  assumes "frameable (utf8 ns)" and "frameable (utf8 ns')"
  shows "scoped ns key = scoped ns' key' \<longleftrightarrow> ns = ns' \<and> key = key'"
  using framed_cancel_assoc [OF assms, of "utf8 key" "utf8 key'"] by (simp add: scoped_def)

lemma kv_step_ns [simp]: "kv_ns (fst (kv_step a hk)) = kv_ns (fst hk)"
  by (cases a) (auto simp: kv_put_def kv_del_def Let_def split: prod.splits)

lemma kv_steps_ns [simp]: "kv_ns (fst (fold kv_step ops hk)) = kv_ns (fst hk)"
  by (induction ops arbitrary: hk) simp_all

lemma kv_step_confined:
  assumes "frameable (utf8 (kv_ns (fst hk)))" and "frameable (utf8 ns)" and "ns \<noteq> kv_ns (fst hk)"
  shows "store_get ns key (snd (kv_step a hk)) = store_get ns key (snd hk)"
  using assms
  by (cases a) (auto simp: kv_put_def kv_del_def store_get_def store_put_def store_del_def Let_def
      hashmap_simps scoped_inj split: prod.splits)

text \<open>
  C24: An agent's durable state stays in its own namespace and its charge within its quota: whatever
  sequence of writes and deletions an agent makes through its handle, the records of every other
  namespace are as before, and the bytes the handle has charged never exceed the quota.
\<close>

theorem kv_confined:
  assumes "frameable (utf8 (kv_ns h))" and "frameable (utf8 ns)" and "ns \<noteq> kv_ns h" and "kv_used h \<le> kv_quota h"
  shows "store_get ns key (snd (fold kv_step ops (h, d))) = store_get ns key d
    \<and> kv_used (fst (fold kv_step ops (h, d))) \<le> kv_quota h"
proof -
  have quota: "kv_quota (fst (kv_step a hk)) = kv_quota (fst hk)
      \<and> (kv_used (fst hk) \<le> kv_quota (fst hk) \<longrightarrow> kv_used (fst (kv_step a hk)) \<le> kv_quota (fst hk))" for a hk
  proof -
    have "saturating_sub x y \<le> x" for x y
      by (simp add: saturating_sub_def word_le_nat_alt unat_sub)
    then show ?thesis
      by (cases a) (auto simp: kv_put_def kv_del_def Let_def split: prod.splits intro: order_trans)
  qed
  have "store_get ns key (snd (fold kv_step ops hk)) = store_get ns key (snd hk)
      \<and> kv_quota (fst (fold kv_step ops hk)) = kv_quota (fst hk)
      \<and> kv_used (fst (fold kv_step ops hk)) \<le> kv_quota (fst hk)"
    if "frameable (utf8 (kv_ns (fst hk)))" "ns \<noteq> kv_ns (fst hk)" "kv_used (fst hk) \<le> kv_quota (fst hk)" for hk
    using that
  proof (induction ops arbitrary: hk)
    case (Cons a ops)
    show ?case
      using Cons.IH [of "kv_step a hk"] Cons.prems quota [of a hk] kv_step_confined [OF Cons.prems(1) assms(2) Cons.prems(2)]
      by simp
  qed simp
  from this [of "(h, d)"] assms show ?thesis by simp
qed

definition example_kv :: scoped_kv where
  "example_kv = \<lparr>kv_ns = ''a'', kv_used = 0, kv_quota = 4\<rparr>"

theorem kv_confined_witness:
  "store_get ''b'' ''x'' (snd (fold kv_step [KvPut ''x'' [1, 2, 3], KvPut ''y'' [4, 5]] (example_kv, [(scoped ''b'' ''x'', [9])])))
     = Some [9]
   \<and> kv_used (fst (fold kv_step [KvPut ''x'' [1, 2, 3], KvPut ''y'' [4, 5]] (example_kv, [(scoped ''b'' ''x'', [9])]))) \<le> 4"
proof -
  have 1: "frameable (utf8 (kv_ns example_kv))" "frameable (utf8 ''b'')" "''b'' \<noteq> kv_ns example_kv"
    "kv_used example_kv \<le> kv_quota example_kv"
    by (simp_all add: example_kv_def utf8_def utf8_char_def)
  show ?thesis
    using kv_confined [OF 1, of "''x''" "[KvPut ''x'' [1, 2, 3], KvPut ''y'' [4, 5]]" "[(scoped ''b'' ''x'', [9])]"]
    by (simp add: store_get_def) (simp add: example_kv_def)
qed

text \<open>
  The count starts at zero whenever a handle is made, so what an agent stored before the node
  restarted or mounted it again is not charged: with a quota of four bytes it can hold eight.
\<close>

lemma quota_forgotten:
  "let d = snd (kv_put ''x'' [1, 2, 3, 4] (example_kv, []));
       d' = snd (kv_put ''y'' [5, 6, 7, 8] (example_kv, d))
   in store_get ''a'' ''x'' d' = Some [1, 2, 3, 4] \<and> store_get ''a'' ''y'' d' = Some [5, 6, 7, 8]"
  by code_simp

end
