(* ===== verification/Node_Kernel.thy ===== *)
theory Node_Kernel
  imports Node_Manifest
begin

text \<open>
  The engine-based node, \<^verbatim>\<open>src/process/node.rs\<close>: mounting agents under their grants,
  delivering messages to them (\<open>pump\<close>), the supervisor, timers, inference and spawn
  requests, the gate for messages from the wire, and the source and destination side of a
  migration. One turn of the serve loop is one \<open>node_event\<close>.

  What the node asks of the outside world is read from the environment \<open>node_env\<close>: the clock,
  the nonces, the answers of the AMS node and of peers. Each question consumes one tick of
  \<open>nd_tick\<close>, so the answers may differ from call to call in any way. Frames handed to the
  transport are recorded in \<open>nd_sent\<close> (the node ignores whether the transport delivers
  them), messages given to the sink in \<open>nd_sunk\<close>. The serde codecs, the engines and the
  cryptography are parameters. Log lines and the debug print of a
  manifest error are left out; audit events are kept.
\<close>

section \<open>State\<close>

record 'r mounted =
  mt_uuid :: string
  mt_alias :: string
  mt_runtime :: 'r
  mt_service :: "string option"
  mt_code :: "bytes option"
  mt_epoch :: u64
  mt_grant :: grant
  mt_manifest :: "manifest option"
  mt_active :: bool

record audit_event =
  au_agent :: string
  au_kind :: string
  au_detail :: string

record ('r, 'k) node =
  nd_addr :: string
  nd_primary :: string
  nd_agents :: "(string, 'r mounted) hashmap"
  nd_aliases :: "(string, string) hashmap"
  nd_routes :: "(string, string) hashmap"
  nd_ams_addr :: "string option"
  nd_sink :: bool
  nd_key :: 'k
  nd_keys :: "(string, bytes) hashmap"
  nd_seen :: "(string, u64) hashmap"
  nd_profile :: node_profile
  nd_timers :: "(string, (u64, u64) hashmap) hashmap"
  nd_store :: "db option"
  nd_llm :: bool
  nd_pending_infers :: "(string \<times> u64 \<times> string) list"
  nd_audit :: "audit_event list option"
  nd_faults :: "(string, u32) hashmap"
  nd_quarantined :: "string set"
  nd_code_store :: "(string, bytes) hashmap"
  nd_noise_allow :: "bytes set option"
  nd_prepared :: "(string, handoff) hashmap"
  nd_msg_window :: "(string, u64 \<times> u32) hashmap"
  nd_nonce_seen :: "(string \<times> bytes) set"
  nd_nonce_order :: "(string \<times> bytes) list"
  nd_sunk :: "node_msg list"
  nd_sent :: "(string \<times> node_msg) list"
  nd_tick :: nat

text \<open>The caps an engine runs a module under.\<close>

datatype engine_caps =
    WasmiCaps u64 u64
  | WasmtimeCaps u64 u64 u64

record ('r, 'k) node_env =
  ne_vt :: "'r agent_runtime"
  ne_crypto :: "'k crypto_lib"
  ne_engine :: "engine_caps \<Rightarrow> bytes \<Rightarrow> string + 'r"
  ne_now :: "nat \<Rightarrow> u64"
  ne_nonce :: "nat \<Rightarrow> bytes"
  ne_resolve :: "nat \<Rightarrow> string \<Rightarrow> string \<Rightarrow> bytes option"
  ne_fetch :: "nat \<Rightarrow> string \<Rightarrow> string \<Rightarrow> bytes option"
  ne_manifest_of_json :: "bytes \<Rightarrow> manifest option"
  ne_manifest_to_json :: "manifest \<Rightarrow> bytes"
  ne_payload_of_json :: "bytes \<Rightarrow> migrate_payload option"
  ne_payload_to_json :: "migrate_payload \<Rightarrow> bytes"
  ne_body_handoff :: "bytes \<Rightarrow> handoff option"
  ne_body_epoch :: "bytes \<Rightarrow> u64 option"
  ne_body_address :: "bytes \<Rightarrow> string option"
  ne_bind_body :: "string \<Rightarrow> string \<Rightarrow> bytes"
  ne_rebind_body :: "string \<Rightarrow> string \<Rightarrow> u64 \<Rightarrow> handoff \<Rightarrow> bytes"
  ne_locate_body :: "string \<Rightarrow> bytes"
  ne_inferred_body :: "u64 \<Rightarrow> string \<Rightarrow> bytes"

section \<open>Grants\<close>

definition granted :: "('r, 'k) node \<Rightarrow> string \<Rightarrow> capability \<Rightarrow> bool" where
  "granted n uuid c =
     (case hm_get (nd_agents n) uuid of None \<Rightarrow> False | Some m \<Rightarrow> granted_cap (mt_grant m) c)"

definition audit :: "string \<Rightarrow> string \<Rightarrow> string \<Rightarrow> ('r, 'k) node \<Rightarrow> ('r, 'k) node" where
  "audit agent kind detail n =
     n\<lparr>nd_audit := map_option (\<lambda>es. es @ [\<lparr>au_agent = agent, au_kind = kind, au_detail = detail\<rparr>]) (nd_audit n)\<rparr>"

definition modify_runtime :: "string \<Rightarrow> ('r \<Rightarrow> 'r) \<Rightarrow> ('r, 'k) node \<Rightarrow> ('r, 'k) node" where
  "modify_runtime uuid f n =
     n\<lparr>nd_agents := hm_modify uuid (\<lambda>m. m\<lparr>mt_runtime := f (mt_runtime m)\<rparr>) (nd_agents n)\<rparr>"

definition saturating_kib :: "u64 \<Rightarrow> u64" where
  "saturating_kib w = (if w < 18014398509481984 then w * 1024 else - 1)"

definition provision_state :: "('r, 'k) node_env \<Rightarrow> string \<Rightarrow> ('r, 'k) node \<Rightarrow> ('r, 'k) node" where
  "provision_state E uuid n =
     (if \<not> granted n uuid State then n
      else case nd_store n of
        None \<Rightarrow> n
      | Some _ \<Rightarrow>
          let quota = (case hm_get (nd_agents n) uuid of
                None \<Rightarrow> 0 | Some m \<Rightarrow> saturating_kib (bg_state_kb (gr_budget (mt_grant m))))
          in modify_runtime uuid (rt_set_state (ne_vt E) \<lparr>kh_ns = uuid, kh_quota = quota\<rparr>) n)"

definition provision_crypto :: "('r, 'k) node_env \<Rightarrow> string \<Rightarrow> ('r, 'k) node \<Rightarrow> ('r, 'k) node" where
  "provision_crypto E uuid n =
     (if \<not> granted n uuid Crypto then n else modify_runtime uuid (rt_set_keyring (ne_vt E)) n)"

definition mount_agent :: "('r, 'k) node_env \<Rightarrow> 'r mounted \<Rightarrow> ('r, 'k) node \<Rightarrow> ('r, 'k) node" where
  "mount_agent E m n =
     provision_crypto E (mt_uuid m) (provision_state E (mt_uuid m)
       (n\<lparr>nd_aliases := hm_insert (mt_alias m) (mt_uuid m) (nd_aliases n),
          nd_agents := hm_insert (mt_uuid m) m (nd_agents n)\<rparr>))"

definition mount ::
    "('r, 'k) node_env \<Rightarrow> string \<Rightarrow> string \<Rightarrow> 'r \<Rightarrow> string option \<Rightarrow> ('r, 'k) node \<Rightarrow> ('r, 'k) node" where
  "mount E uuid alias agent service =
     mount_agent E \<lparr>mt_uuid = uuid, mt_alias = alias, mt_runtime = agent, mt_service = service, mt_code = None,
       mt_epoch = 0, mt_grant = grant_full, mt_manifest = None, mt_active = True\<rparr>"

definition node_new :: "('r, 'k) node_env \<Rightarrow> string \<Rightarrow> string \<Rightarrow> string \<Rightarrow> 'r \<Rightarrow> 'k \<Rightarrow> ('r, 'k) node" where
  "node_new E uuid alias addr agent key =
     mount E uuid alias agent None
       \<lparr>nd_addr = addr, nd_primary = uuid, nd_agents = [], nd_aliases = [], nd_routes = [], nd_ams_addr = None,
        nd_sink = False, nd_key = key, nd_keys = [], nd_seen = [], nd_profile = profile_normal, nd_timers = [],
        nd_store = None, nd_llm = False, nd_pending_infers = [], nd_audit = None, nd_faults = [],
        nd_quarantined = {}, nd_code_store = [], nd_noise_allow = None, nd_prepared = [], nd_msg_window = [],
        nd_nonce_seen = {}, nd_nonce_order = [], nd_sunk = [], nd_sent = [], nd_tick = 0\<rparr>"

text \<open>The setters an operator calls before the node serves; a new store is handed to every mounted agent.\<close>

definition set_profile :: "node_profile \<Rightarrow> ('r, 'k) node \<Rightarrow> ('r, 'k) node" where
  "set_profile p n = n\<lparr>nd_profile := p\<rparr>"

definition set_store :: "('r, 'k) node_env \<Rightarrow> db \<Rightarrow> ('r, 'k) node \<Rightarrow> ('r, 'k) node" where
  "set_store E d n = fold (provision_state E) (map fst (nd_agents n)) (n\<lparr>nd_store := Some d\<rparr>)"

definition set_llm :: "('r, 'k) node \<Rightarrow> ('r, 'k) node" where
  "set_llm n = n\<lparr>nd_llm := True\<rparr>"

definition set_audit :: "('r, 'k) node \<Rightarrow> ('r, 'k) node" where
  "set_audit n = n\<lparr>nd_audit := Some []\<rparr>"

definition set_ams :: "string \<Rightarrow> ('r, 'k) node \<Rightarrow> ('r, 'k) node" where
  "set_ams addr n = n\<lparr>nd_ams_addr := Some addr\<rparr>"

definition set_sink :: "('r, 'k) node \<Rightarrow> ('r, 'k) node" where
  "set_sink n = n\<lparr>nd_sink := True\<rparr>"

definition add_route :: "string \<Rightarrow> string \<Rightarrow> ('r, 'k) node \<Rightarrow> ('r, 'k) node" where
  "add_route who addr n = n\<lparr>nd_routes := hm_insert who addr (nd_routes n)\<rparr>"

definition engine_caps_of :: "node_profile \<Rightarrow> grant \<Rightarrow> engine_caps" where
  "engine_caps_of p g =
     (if np_profile p = IotNode
      then WasmiCaps (bg_fuel (gr_budget g)) (saturating_kib (bg_mem_kb (gr_budget g)))
      else WasmtimeCaps (saturating_kib (bg_mem_kb (gr_budget g))) (max (bg_fuel (gr_budget g) div 1000000) 1)
             (saturating_kib (bg_state_kb (gr_budget g))))"

definition instantiate_agent ::
    "('r, 'k) node_env \<Rightarrow> bytes \<Rightarrow> grant \<Rightarrow> ('r, 'k) node \<Rightarrow> string + 'r" where
  "instantiate_agent E wasm g n =
     (case ne_engine E (engine_caps_of (nd_profile n) g) wasm of
        Inl e \<Rightarrow> Inl e
      | Inr r \<Rightarrow> (case rt_init (ne_vt E) r of (Inl e, _) \<Rightarrow> Inl e | (Inr _, r) \<Rightarrow> Inr r))"

definition mount_wasm ::
    "('r, 'k) node_env \<Rightarrow> string \<Rightarrow> string \<Rightarrow> bytes \<Rightarrow> manifest \<Rightarrow> string option \<Rightarrow> ('r, 'k) node
     \<Rightarrow> string + ('r, 'k) node" where
  "mount_wasm E uuid alias wasm manifest service n =
     (case fit (nd_profile n) manifest of
        Inl e \<Rightarrow> Inl ''manifest does not fit node profile''
      | Inr g \<Rightarrow>
          (case instantiate_agent E wasm g n of
             Inl e \<Rightarrow> Inl e
           | Inr r \<Rightarrow> Inr (mount_agent E \<lparr>mt_uuid = uuid, mt_alias = alias, mt_runtime = r, mt_service = service,
                 mt_code = Some wasm, mt_epoch = 0, mt_grant = g, mt_manifest = Some manifest, mt_active = True\<rparr> n)))"

section \<open>Supervision and requests of an agent\<close>

definition max_faults :: u32 where "max_faults = 3"

definition supervise :: "string \<Rightarrow> string + unit \<Rightarrow> ('r, 'k) node \<Rightarrow> ('r, 'k) node" where
  "supervise uuid res n =
     (case res of
        Inr _ \<Rightarrow> n\<lparr>nd_faults := hm_remove uuid (nd_faults n)\<rparr>
      | Inl e \<Rightarrow>
          let count = (case hm_get (nd_faults n) uuid of None \<Rightarrow> 0 | Some c \<Rightarrow> c) + 1;
              n = audit uuid ''fault'' e (n\<lparr>nd_faults := hm_insert uuid count (nd_faults n)\<rparr>)
          in if count \<ge> max_faults
             then audit uuid ''quarantined'' ''fault threshold exceeded''
                    (n\<lparr>nd_quarantined := insert uuid (nd_quarantined n)\<rparr>)
             else n)"

definition max_infer_per_call :: nat where "max_infer_per_call = 16"

definition apply_infer_reqs :: "string \<Rightarrow> infer_req list \<Rightarrow> ('r, 'k) node \<Rightarrow> ('r, 'k) node" where
  "apply_infer_reqs uuid reqs n =
     (if reqs = [] then n
      else if \<not> granted n uuid Llm then n
      else
        let n = (if length reqs > max_infer_per_call
                 then audit uuid ''denied:infer-burst'' (nat_to_string (length reqs) @ '' requests'') n else n)
        in n\<lparr>nd_pending_infers := nd_pending_infers n
               @ map (\<lambda>r. (uuid, ir_req_id r, ir_prompt r)) (take max_infer_per_call reqs)\<rparr>)"

definition apply_spawn_req ::
    "('r, 'k) node_env \<Rightarrow> string \<Rightarrow> capability set \<Rightarrow> spawn_req \<Rightarrow> ('r, 'k) node \<Rightarrow> ('r, 'k) node" where
  "apply_spawn_req E parent parent_caps r n =
     (case ne_manifest_of_json E (sr_manifest_json r) of
        None \<Rightarrow> audit parent ''spawn:bad-manifest'' (sr_uuid r) n
      | Some m \<Rightarrow>
          let m = m\<lparr>mf_grants := filter (\<lambda>c. c \<in> parent_caps) (mf_grants m)\<rparr> in
          (case mount_wasm E (sr_uuid r) (sr_alias r) (sr_code r) m None n of
             Inr n \<Rightarrow> audit parent ''spawned'' (sr_uuid r) n
           | Inl e \<Rightarrow> audit parent ''spawn:failed'' e n))"

definition apply_spawn_reqs ::
    "('r, 'k) node_env \<Rightarrow> string \<Rightarrow> spawn_req list \<Rightarrow> ('r, 'k) node \<Rightarrow> ('r, 'k) node" where
  "apply_spawn_reqs E parent reqs n =
     (if reqs = [] then n
      else if \<not> granted n parent Spawn then audit parent ''denied:spawn'' ''no Spawn grant'' n
      else
        let parent_caps = (case hm_get (nd_agents n) parent of None \<Rightarrow> {} | Some m \<Rightarrow> gr_caps (mt_grant m))
        in fold (apply_spawn_req E parent parent_caps) reqs n)"

definition read_clock :: "('r, 'k) node_env \<Rightarrow> ('r, 'k) node \<Rightarrow> u64 \<times> ('r, 'k) node" where
  "read_clock E n = (ne_now E (nd_tick n), n\<lparr>nd_tick := Suc (nd_tick n)\<rparr>)"

definition apply_timer_op :: "nat \<Rightarrow> u64 \<Rightarrow> timer_op \<Rightarrow> (u64, u64) hashmap \<Rightarrow> (u64, u64) hashmap" where
  "apply_timer_op budget now op slots =
     (case op of
        SetTimer i delay \<Rightarrow>
          if \<not> hm_contains slots i \<and> length slots \<ge> budget then slots
          else hm_insert i (saturating_add now delay) slots
      | CancelTimer i \<Rightarrow> hm_remove i slots)"

definition apply_timer_ops ::
    "('r, 'k) node_env \<Rightarrow> string \<Rightarrow> timer_op list \<Rightarrow> ('r, 'k) node \<Rightarrow> ('r, 'k) node" where
  "apply_timer_ops E uuid ops n =
     (if ops = [] then n
      else if \<not> granted n uuid Time then n
      else
        let budget = (case hm_get (nd_agents n) uuid of
              None \<Rightarrow> 0 | Some m \<Rightarrow> unat (bg_timers (gr_budget (mt_grant m))));
            (now, n) = read_clock E n;
            slots = (case hm_get (nd_timers n) uuid of None \<Rightarrow> [] | Some s \<Rightarrow> s)
        in n\<lparr>nd_timers := hm_insert uuid (fold (apply_timer_op budget now) ops slots) (nd_timers n)\<rparr>)"

section \<open>Leaving the node\<close>

definition local_uuid :: "('r, 'k) node \<Rightarrow> string \<Rightarrow> string option" where
  "local_uuid n to = (if hm_contains (nd_agents n) to then Some to else hm_get (nd_aliases n) to)"

definition net_allows :: "('r, 'k) node \<Rightarrow> string \<Rightarrow> string \<Rightarrow> bool" where
  "net_allows n uuid to =
     (case hm_get (nd_agents n) uuid of
        None \<Rightarrow> True
      | Some m \<Rightarrow> if bg_net (gr_budget (mt_grant m)) = ''none'' then local_uuid n to \<noteq> None else True)"

definition rate_allows :: "('r, 'k) node_env \<Rightarrow> string \<Rightarrow> ('r, 'k) node \<Rightarrow> bool \<times> ('r, 'k) node" where
  "rate_allows E uuid n =
     (case hm_get (nd_agents n) uuid of
        None \<Rightarrow> (True, n)
      | Some m \<Rightarrow>
          if mt_manifest m = None then (True, n)
          else let limit = bg_msg_per_s (gr_budget (mt_grant m)) in
            if limit = 0 then (True, n)
            else
              let (now, n) = read_clock E n;
                  slot = (case hm_get (nd_msg_window n) uuid of None \<Rightarrow> (now, 0) | Some s \<Rightarrow> s);
                  slot = (if saturating_sub now (fst slot) \<ge> 1000 then (now, 0) else slot)
              in if snd slot \<ge> limit then (False, n\<lparr>nd_msg_window := hm_insert uuid slot (nd_msg_window n)\<rparr>)
                 else (True, n\<lparr>nd_msg_window := hm_insert uuid (fst slot, snd slot + 1) (nd_msg_window n)\<rparr>))"

definition seal :: "('r, 'k) node_env \<Rightarrow> node_msg \<Rightarrow> ('r, 'k) node \<Rightarrow> node_msg \<times> ('r, 'k) node" where
  "seal E m n =
     (let m = m\<lparr>nm_sender_pub := public_key_of (ne_crypto E) (nd_key n), nm_nonce := ne_nonce E (nd_tick n), nm_sig := []\<rparr>
      in (m\<lparr>nm_sig := sign_with (ne_crypto E) (nd_key n) (msg_signing_bytes m)\<rparr>, n\<lparr>nd_tick := Suc (nd_tick n)\<rparr>))"

definition address_of :: "('r, 'k) node_env \<Rightarrow> string \<Rightarrow> ('r, 'k) node \<Rightarrow> string option \<times> ('r, 'k) node" where
  "address_of E to n =
     (case hm_get (nd_routes n) to of
        Some a \<Rightarrow> (Some a, n)
      | None \<Rightarrow>
          (case nd_ams_addr n of
             None \<Rightarrow> (None, n)
           | Some ams \<Rightarrow>
               let reply = ne_resolve E (nd_tick n) ams to; n = n\<lparr>nd_tick := Suc (nd_tick n)\<rparr> in
               (case Option.bind reply from_utf8 of
                  None \<Rightarrow> (None, n)
                | Some addr \<Rightarrow>
                    if addr = '''' then (None, n)
                    else (Some addr, n\<lparr>nd_routes := hm_insert to addr (nd_routes n)\<rparr>))))"

definition to_sink :: "node_msg \<Rightarrow> ('r, 'k) node \<Rightarrow> ('r, 'k) node" where
  "to_sink m n = (if nd_sink n then n\<lparr>nd_sunk := nd_sunk n @ [m]\<rparr> else n)"

definition wire_or_sink :: "('r, 'k) node_env \<Rightarrow> node_msg \<Rightarrow> ('r, 'k) node \<Rightarrow> ('r, 'k) node" where
  "wire_or_sink E m n =
     (let (m, n) = seal E m n in
      case address_of E (nm_to m) n of
        (Some addr, n) \<Rightarrow> n\<lparr>nd_sent := nd_sent n @ [(addr, m)]\<rparr>
      | (None, n) \<Rightarrow> to_sink m n)"

section \<open>Running an agent\<close>

text \<open>What one call of an agent leaves for the node to process.\<close>

record call_result =
  cr_result :: "string + unit"
  cr_sends :: "outbound_intent list"
  cr_timer_ops :: "timer_op list"
  cr_infers :: "infer_req list"
  cr_spawns :: "spawn_req list"

definition run_mounted ::
    "('r, 'k) node_env \<Rightarrow> ('r \<Rightarrow> (string + unit) \<times> 'r) \<Rightarrow> 'r \<Rightarrow> call_result \<times> 'r" where
  "run_mounted E call r =
     (let (res, r) = call r;
          (sends, r) = rt_take_sends (ne_vt E) r;
          (ops, r) = rt_take_timer_ops (ne_vt E) r;
          (infers, r) = rt_take_infer_reqs (ne_vt E) r;
          (spawns, r) = rt_take_spawn_reqs (ne_vt E) r
      in (\<lparr>cr_result = res, cr_sends = sends, cr_timer_ops = ops, cr_infers = infers, cr_spawns = spawns\<rparr>, r))"

definition after_call :: "('r, 'k) node_env \<Rightarrow> string \<Rightarrow> call_result \<Rightarrow> ('r, 'k) node \<Rightarrow> ('r, 'k) node" where
  "after_call E uuid c n =
     apply_spawn_reqs E uuid (cr_spawns c)
       (apply_infer_reqs uuid (cr_infers c)
         (apply_timer_ops E uuid (cr_timer_ops c) (supervise uuid (cr_result c) n)))"

definition outgoing_msg :: "('r, 'k) node \<Rightarrow> string \<Rightarrow> outbound_intent \<Rightarrow> node_msg" where
  "outgoing_msg n uuid s =
     node_msg_default\<lparr>nm_to := oi_receiver s, nm_from := uuid, nm_from_addr := nd_addr n,
       nm_unl := oi_unl s, nm_body := oi_body s\<rparr>"

text \<open>The messages of one call: what stays on the node is queued, the rest leaves it.\<close>

fun route_sends ::
    "('r, 'k) node_env \<Rightarrow> string \<Rightarrow> outbound_intent list \<Rightarrow> node_msg list \<Rightarrow> ('r, 'k) node
     \<Rightarrow> node_msg list \<times> ('r, 'k) node" where
  "route_sends E uuid [] q n = (q, n)"
| "route_sends E uuid (s # ss) q n =
     (case rate_allows E uuid n of
        (False, n) \<Rightarrow> route_sends E uuid ss q (audit uuid ''denied:rate'' (oi_receiver s) n)
      | (True, n) \<Rightarrow>
          if \<not> net_allows n uuid (oi_receiver s)
          then route_sends E uuid ss q (audit uuid ''denied:net'' (oi_receiver s) n)
          else
            let next = outgoing_msg n uuid s in
            if local_uuid n (nm_to next) \<noteq> None then route_sends E uuid ss (q @ [next]) n
            else route_sends E uuid ss q (wire_or_sink E next n))"

definition learn_route :: "node_msg \<Rightarrow> ('r, 'k) node \<Rightarrow> ('r, 'k) node" where
  "learn_route m n =
     (if nm_from m \<noteq> '''' \<and> nm_from_addr m \<noteq> ''''
      then n\<lparr>nd_routes := hm_insert (nm_from m) (nm_from_addr m) (nd_routes n)\<rparr> else n)"

text \<open>One message of the work queue; the result is what the receiver sent to agents of this node.\<close>

definition pump_step :: "('r, 'k) node_env \<Rightarrow> node_msg \<Rightarrow> ('r, 'k) node \<Rightarrow> node_msg list \<times> ('r, 'k) node" where
  "pump_step E m n =
     (case local_uuid n (nm_to m) of
        None \<Rightarrow> ([], to_sink m n)
      | Some uuid \<Rightarrow>
          if uuid \<in> nd_quarantined n then ([], audit uuid ''quarantined'' ''message dropped'' n)
          else case hm_get (nd_agents n) uuid of
            None \<Rightarrow> ([], n)
          | Some a \<Rightarrow>
              if \<not> mt_active a then ([], n)
              else
                let n = learn_route m n;
                    (c, r) = run_mounted E (rt_config (ne_vt E) (nm_from m) (nm_unl m) (nm_body m)) (mt_runtime a);
                    n = modify_runtime uuid (\<lambda>_. r) n
                in route_sends E uuid (cr_sends c) [] (after_call E uuid c n))"

text \<open>The work budget of one event is 10 000; the last unit only stops the loop.\<close>

fun pump_loop :: "('r, 'k) node_env \<Rightarrow> nat \<Rightarrow> node_msg list \<Rightarrow> ('r, 'k) node \<Rightarrow> ('r, 'k) node" where
  "pump_loop E b [] n = n"
| "pump_loop E 0 (m # q) n = n"
| "pump_loop E (Suc b) (m # q) n =
     (if b = 0 then n
      else case pump_step E m n of (q', n) \<Rightarrow> pump_loop E b (q @ q') n)"

definition pump_budget :: nat where "pump_budget = 10000"

definition pump :: "('r, 'k) node_env \<Rightarrow> node_msg \<Rightarrow> ('r, 'k) node \<Rightarrow> ('r, 'k) node" where
  "pump E m n = pump_loop E pump_budget [m] n"

fun dispatch :: "('r, 'k) node_env \<Rightarrow> string \<Rightarrow> outbound_intent list \<Rightarrow> ('r, 'k) node \<Rightarrow> ('r, 'k) node" where
  "dispatch E from [] n = n"
| "dispatch E from (s # ss) n =
     (case rate_allows E from n of
        (False, n) \<Rightarrow> dispatch E from ss (audit from ''denied:rate'' (oi_receiver s) n)
      | (True, n) \<Rightarrow>
          if \<not> net_allows n from (oi_receiver s) then dispatch E from ss n
          else
            let next = outgoing_msg n from s in
            dispatch E from ss
              (if local_uuid n (nm_to next) \<noteq> None then pump E next n else wire_or_sink E next n))"

definition fire_tick :: "('r, 'k) node_env \<Rightarrow> string \<Rightarrow> u64 \<Rightarrow> ('r, 'k) node \<Rightarrow> ('r, 'k) node" where
  "fire_tick E uuid i n =
     (let (now, n) = read_clock E n in
      case hm_get (nd_agents n) uuid of
        None \<Rightarrow> n
      | Some a \<Rightarrow>
          if \<not> mt_active a then n
          else
            let (c, r) = run_mounted E (rt_tick (ne_vt E) i now) (mt_runtime a);
                n = modify_runtime uuid (\<lambda>_. r) n
            in dispatch E uuid (cr_sends c) (after_call E uuid c n))"

definition due_timers :: "u64 \<Rightarrow> (string, (u64, u64) hashmap) hashmap \<Rightarrow> (string \<times> u64) list" where
  "due_timers now ts = concat (map (\<lambda>(uuid, slots). map (\<lambda>(i, d). (uuid, i)) (filter (\<lambda>(i, d). d \<le> now) slots)) ts)"

definition fire_due :: "('r, 'k) node_env \<Rightarrow> ('r, 'k) node \<Rightarrow> ('r, 'k) node" where
  "fire_due E n =
     (let (now, n) = read_clock E n in
      fold (\<lambda>(uuid, i) n. fire_tick E uuid i (n\<lparr>nd_timers := hm_modify uuid (hm_remove i) (nd_timers n)\<rparr>))
        (due_timers now (nd_timers n)) n)"

definition send_as ::
    "('r, 'k) node_env \<Rightarrow> string \<Rightarrow> string \<Rightarrow> bytes \<Rightarrow> bytes \<Rightarrow> ('r, 'k) node \<Rightarrow> ('r, 'k) node" where
  "send_as E from to unl body n =
     (let m = node_msg_default\<lparr>nm_to := to, nm_from := from, nm_from_addr := nd_addr n, nm_unl := unl, nm_body := body\<rparr>
      in if local_uuid n to \<noteq> None then pump E m n else wire_or_sink E m n)"

definition inject :: "('r, 'k) node_env \<Rightarrow> bytes \<Rightarrow> bytes \<Rightarrow> ('r, 'k) node \<Rightarrow> ('r, 'k) node" where
  "inject E unl body n =
     pump E (node_msg_default\<lparr>nm_to := nd_primary n, nm_from := nd_primary n, nm_unl := unl, nm_body := body\<rparr>) n"

definition unl_text :: "string \<Rightarrow> bytes" where "unl_text s = utf8 s"

definition register :: "('r, 'k) node_env \<Rightarrow> string option \<Rightarrow> ('r, 'k) node \<Rightarrow> ('r, 'k) node" where
  "register E service n =
     (let n = (case service of
            None \<Rightarrow> n
          | Some svc \<Rightarrow> n\<lparr>nd_agents := hm_modify (nd_primary n) (\<lambda>m. m\<lparr>mt_service := Some svc\<rparr>) (nd_agents n)\<rparr>);
          have_ams = hm_contains (nd_routes n) ''ams''; have_df = hm_contains (nd_routes n) ''df''
      in fold (\<lambda>(uuid, svc) n.
             let n = (if have_ams then send_as E uuid ''ams'' (unl_text ''obj(bind, agent)'') (ne_bind_body E uuid (nd_addr n)) n
                      else n)
             in case svc of
                  Some s \<Rightarrow> if have_df then send_as E uuid ''df'' (unl_text (''obj(offer, '' @ s @ '')'')) [] n else n
                | None \<Rightarrow> n)
           (map (\<lambda>m. (mt_uuid m, mt_service m)) (hm_values (nd_agents n))) n)"

section \<open>Inference\<close>

text \<open>
  The loop goes through the pending requests and starts those for which a worker is free when it
  gets there (the flags); the others are queued again.
\<close>

definition run_infers :: "bool list \<Rightarrow> ('r, 'k) node \<Rightarrow> (string \<times> u64 \<times> string) list \<times> ('r, 'k) node" where
  "run_infers free n =
     (if nd_llm n
      then let rs = zip (nd_pending_infers n) (free @ replicate (length (nd_pending_infers n)) False)
           in (map fst (filter snd rs), n\<lparr>nd_pending_infers := map fst (filter (\<lambda>r. \<not> snd r) rs)\<rparr>)
      else ([], n\<lparr>nd_pending_infers := []\<rparr>))"

definition inferred :: "('r, 'k) node_env \<Rightarrow> string \<Rightarrow> u64 \<Rightarrow> string \<Rightarrow> ('r, 'k) node \<Rightarrow> ('r, 'k) node" where
  "inferred E uuid req reply =
     pump E (node_msg_default\<lparr>nm_to := uuid, nm_from := ''llm'', nm_unl := unl_text ''obj(inferred, x)'',
       nm_body := ne_inferred_body E req reply\<rparr>)"

section \<open>The wire gate\<close>

definition peer_allowed :: "bytes \<Rightarrow> ('r, 'k) node \<Rightarrow> bool" where
  "peer_allowed peer n = (case nd_noise_allow n of None \<Rightarrow> True | Some s \<Rightarrow> peer \<in> s)"

definition allow_noise_peer :: "bytes \<Rightarrow> ('r, 'k) node \<Rightarrow> ('r, 'k) node" where
  "allow_noise_peer peer n =
     n\<lparr>nd_noise_allow := Some (insert peer (case nd_noise_allow n of None \<Rightarrow> {} | Some s \<Rightarrow> s))\<rparr>"

text \<open>What the thread of a connection queues of a message frame.\<close>

definition conn_message :: "bytes \<Rightarrow> node_msg option" where
  "conn_message payload =
     (case decode_msg payload of
        None \<Rightarrow> None
      | Some m \<Rightarrow> if length (nm_sig m) = 64 \<and> length (nm_sender_pub m) = 32 \<and> \<not> is_reserved_sender (nm_from m)
                  then Some m else None)"

definition wire_admit :: "('r, 'k) node_env \<Rightarrow> node_msg \<Rightarrow> bool" where
  "wire_admit E m =
     (if is_reserved_sender (nm_from m) then False
      else if length (nm_sig m) \<noteq> 64 \<or> length (nm_sender_pub m) \<noteq> 32 then False
      else sig_ok (ne_crypto E) (nm_sender_pub m) (msg_signing_bytes m) (nm_sig m))"

definition handoff_authorizes :: "('r, 'k) node_env \<Rightarrow> node_msg \<Rightarrow> bytes \<Rightarrow> bytes \<Rightarrow> bool" where
  "handoff_authorizes E m from_key to_key =
     (case ne_body_handoff E (nm_body m) of
        None \<Rightarrow> False
      | Some ho \<Rightarrow>
          let bind_epoch = (case ne_body_epoch E (nm_body m) of None \<Rightarrow> ho_epoch ho | Some e \<Rightarrow> e)
          in handoff_verify (ne_crypto E) ho \<and> ho_epoch ho = bind_epoch \<and> ho_agent ho = nm_from m
             \<and> ho_from_pub ho = from_key \<and> ho_to_pub ho = to_key)"

definition authorize_sender :: "('r, 'k) node_env \<Rightarrow> node_msg \<Rightarrow> ('r, 'k) node \<Rightarrow> bool \<times> ('r, 'k) node" where
  "authorize_sender E m n =
     (let pk = nm_sender_pub m in
      case hm_get (nd_keys n) (nm_from m) of
        None \<Rightarrow> (True, n\<lparr>nd_keys := hm_insert (nm_from m) pk (nd_keys n)\<rparr>)
      | Some known \<Rightarrow>
          if known = pk then (True, n)
          else if handoff_authorizes E m known pk
          then (True, n\<lparr>nd_keys := hm_insert (nm_from m) pk (nd_keys n)\<rparr>)
          else (False, audit (nm_from m) ''impersonation'' ''sender key != TOFU'' n))"

definition max_nonces :: nat where "max_nonces = 8192"

definition remember_nonce :: "string \<times> bytes \<Rightarrow> ('r, 'k) node \<Rightarrow> ('r, 'k) node" where
  "remember_nonce key n =
     (let seen = insert key (nd_nonce_seen n); order = nd_nonce_order n @ [key] in
      if length order > max_nonces
      then n\<lparr>nd_nonce_seen := seen - {hd order}, nd_nonce_order := tl order\<rparr>
      else n\<lparr>nd_nonce_seen := seen, nd_nonce_order := order\<rparr>)"

definition accept_wire :: "('r, 'k) node_env \<Rightarrow> node_msg \<Rightarrow> ('r, 'k) node \<Rightarrow> ('r, 'k) node" where
  "accept_wire E m n =
     (if \<not> wire_admit E m then n
      else case authorize_sender E m n of
        (False, n) \<Rightarrow> n
      | (True, n) \<Rightarrow>
          if nm_nonce m \<noteq> [] \<and> (nm_from m, nm_nonce m) \<in> nd_nonce_seen n
          then audit (nm_from m) ''replay'' ''duplicate nonce'' n
          else pump E m (if nm_nonce m = [] then n else remember_nonce (nm_from m, nm_nonce m) n))"

definition resolve_local :: "('r, 'k) node_env \<Rightarrow> string \<Rightarrow> ('r, 'k) node \<Rightarrow> string option \<times> ('r, 'k) node" where
  "resolve_local E uuid n =
     (case hm_get (nd_aliases n) ''ams'' of
        None \<Rightarrow> (None, n)
      | Some ams \<Rightarrow>
          (case hm_get (nd_agents n) ams of
             None \<Rightarrow> (None, n)
           | Some a \<Rightarrow>
               (case rt_config (ne_vt E) ''resolver'' (unl_text ''obj(locate, agent)'') (ne_locate_body E uuid) (mt_runtime a) of
                  (Inl e, r) \<Rightarrow> (None, modify_runtime ams (\<lambda>_. r) n)
                | (Inr _, r) \<Rightarrow>
                    let (sends, r) = rt_take_sends (ne_vt E) r; n = modify_runtime ams (\<lambda>_. r) n
                    in (case sends of [] \<Rightarrow> None | s # _ \<Rightarrow> ne_body_address E (oi_body s), n))))"

section \<open>Content-addressed code\<close>

definition cache_code :: "('r, 'k) node_env \<Rightarrow> bytes \<Rightarrow> ('r, 'k) node \<Rightarrow> ('r, 'k) node" where
  "cache_code E wasm n = n\<lparr>nd_code_store := hm_insert (code_hash (ne_crypto E) wasm) wasm (nd_code_store n)\<rparr>"

text \<open>The answer of this node to a request for code: empty when the hash is unknown.\<close>

definition code_blob :: "string \<Rightarrow> ('r, 'k) node \<Rightarrow> bytes" where
  "code_blob hash n = (case hm_get (nd_code_store n) hash of None \<Rightarrow> [] | Some wasm \<Rightarrow> wasm)"

definition fetch_code ::
    "('r, 'k) node_env \<Rightarrow> string \<Rightarrow> string \<Rightarrow> ('r, 'k) node \<Rightarrow> bytes option \<times> ('r, 'k) node" where
  "fetch_code E addr hash n =
     (let reply = ne_fetch E (nd_tick n) addr hash; n = n\<lparr>nd_tick := Suc (nd_tick n)\<rparr> in
      case reply of
        None \<Rightarrow> (None, n)
      | Some wasm \<Rightarrow>
          if wasm = [] \<or> code_hash (ne_crypto E) wasm \<noteq> hash then (None, n)
          else (Some wasm, cache_code E wasm n))"

section \<open>Migration: the source\<close>

definition build_migrate_payload ::
    "('r, 'k) node_env \<Rightarrow> string \<Rightarrow> bytes \<Rightarrow> ('r, 'k) node \<Rightarrow> migrate_payload option \<times> ('r, 'k) node" where
  "build_migrate_payload E uuid dest_pub n =
     (case hm_get (nd_agents n) uuid of
        None \<Rightarrow> (None, n)
      | Some m \<Rightarrow>
          (case (mt_code m, mt_manifest m) of
             (Some wasm, Some manifest) \<Rightarrow>
               let epoch = mt_epoch m + 1;
                   (state, r) = rt_snapshot (ne_vt E) (mt_runtime m);
                   n = n\<lparr>nd_agents := hm_modify uuid (\<lambda>m. m\<lparr>mt_epoch := epoch, mt_runtime := r\<rparr>) (nd_agents n)\<rparr>;
                   n = cache_code E wasm n;
                   snapshot = snapshot_sealed (ne_crypto E) uuid epoch wasm state (ne_manifest_to_json E manifest)
                                (nd_key n) (ne_nonce E (nd_tick n));
                   handoff = handoff_sealed (ne_crypto E) uuid dest_pub epoch (nd_key n)
               in (Some \<lparr>mp_snapshot = snapshot, mp_handoff = handoff, mp_from_addr = nd_addr n\<rparr>,
                   n\<lparr>nd_tick := Suc (nd_tick n)\<rparr>)
           | _ \<Rightarrow> (None, n)))"

definition set_active :: "string \<Rightarrow> bool \<Rightarrow> ('r, 'k) node \<Rightarrow> ('r, 'k) node" where
  "set_active uuid b n = n\<lparr>nd_agents := hm_modify uuid (\<lambda>m. m\<lparr>mt_active := b\<rparr>) (nd_agents n)\<rparr>"

definition unmount :: "string \<Rightarrow> ('r, 'k) node \<Rightarrow> ('r, 'k) node" where
  "unmount uuid n =
     (case hm_get (nd_agents n) uuid of
        None \<Rightarrow> n
      | Some m \<Rightarrow> n\<lparr>nd_agents := hm_remove uuid (nd_agents n), nd_aliases := hm_remove (mt_alias m) (nd_aliases n)\<rparr>)"

text \<open>
  The exchange with the destination is between \<open>migrate_out_begin\<close>, which suspends the agent, and
  \<open>migrate_out_end\<close>, which is told whether the exchange succeeded.
\<close>

definition migrate_out_begin ::
    "('r, 'k) node_env \<Rightarrow> string \<Rightarrow> bytes \<Rightarrow> ('r, 'k) node \<Rightarrow> bytes option \<times> ('r, 'k) node" where
  "migrate_out_begin E uuid dest_pub n =
     (case build_migrate_payload E uuid dest_pub n of
        (None, n) \<Rightarrow> (None, n)
      | (Some p, n) \<Rightarrow> (Some (ne_payload_to_json E p), set_active uuid False n))"

definition migrate_out_end :: "string \<Rightarrow> bool \<Rightarrow> ('r, 'k) node \<Rightarrow> ('r, 'k) node" where
  "migrate_out_end uuid ok n = (if ok then unmount uuid n else set_active uuid True n)"

section \<open>Migration: the destination\<close>

definition seen_tag :: string where "seen_tag = ''_migrate_seen''"

definition persist_seen :: "string \<Rightarrow> u64 \<Rightarrow> ('r, 'k) node \<Rightarrow> ('r, 'k) node" where
  "persist_seen uuid epoch n =
     n\<lparr>nd_store := map_option (store_put seen_tag uuid (u64_to_be_bytes epoch)) (nd_store n)\<rparr>"

definition persisted_seen :: "string \<Rightarrow> ('r, 'k) node \<Rightarrow> u64 option" where
  "persisted_seen uuid n =
     (case Option.bind (nd_store n) (store_get seen_tag uuid) of
        None \<Rightarrow> None
      | Some b \<Rightarrow> if length b = 8 then Some (u64_from_be_bytes b) else None)"

definition last_epoch :: "string \<Rightarrow> ('r, 'k) node \<Rightarrow> u64 option" where
  "last_epoch uuid n = (case hm_get (nd_seen n) uuid of Some e \<Rightarrow> Some e | None \<Rightarrow> persisted_seen uuid n)"

text \<open>The checks on a payload before anything is instantiated; the result is the grant.\<close>

definition migrate_checks ::
    "('r, 'k) node_env \<Rightarrow> migrate_payload \<Rightarrow> ('r, 'k) node \<Rightarrow> (manifest \<times> grant) option \<times> ('r, 'k) node" where
  "migrate_checks E mp n =
     (let snap = mp_snapshot mp; ho = mp_handoff mp; uuid = sn_uuid snap in
      if \<not> snapshot_verify (ne_crypto E) snap \<or> \<not> handoff_verify (ne_crypto E) ho then (None, n)
      else if ho_to_pub ho \<noteq> public_key_of (ne_crypto E) (nd_key n) \<or> ho_agent ho \<noteq> uuid
              \<or> ho_epoch ho \<noteq> sn_epoch snap \<or> ho_from_pub ho \<noteq> sn_origin_pub snap then (None, n)
      else if is_reserved_sender uuid then (None, n)
      else if hm_contains (nd_agents n) uuid \<and> \<not> hm_contains (nd_seen n) uuid then (None, n)
      else if hm_get (nd_keys n) uuid \<noteq> None \<and> hm_get (nd_keys n) uuid \<noteq> Some (sn_origin_pub snap)
      then (None, audit uuid ''migrate:bad-origin'' ''origin key != authorized key'' n)
      else if (case last_epoch uuid n of None \<Rightarrow> False | Some e \<Rightarrow> sn_epoch snap \<le> e) then (None, n)
      else case ne_manifest_of_json E (sn_manifest snap) of
        None \<Rightarrow> (None, n)
      | Some manifest \<Rightarrow>
          (case fit (nd_profile n) manifest of
             Inl e \<Rightarrow> (None, audit uuid ''migrate:unfit'' ''unfit'' n)
           | Inr g \<Rightarrow> (Some (manifest, g), n)))"

definition migrate_code ::
    "('r, 'k) node_env \<Rightarrow> migrate_payload \<Rightarrow> ('r, 'k) node \<Rightarrow> bytes option \<times> ('r, 'k) node" where
  "migrate_code E mp n =
     (let snap = mp_snapshot mp in
      if sn_code snap \<noteq> [] then (Some (sn_code snap), cache_code E (sn_code snap) n)
      else if mp_from_addr mp = '''' \<or> mp_from_addr mp \<notin> set (hm_values (nd_routes n)) then (None, n)
      else fetch_code E (mp_from_addr mp) (sn_code_hash snap) n)"

definition process_migrate ::
    "('r, 'k) node_env \<Rightarrow> bytes \<Rightarrow> ('r, 'k) node \<Rightarrow> bool \<times> ('r, 'k) node" where
  "process_migrate E payload n =
     (case ne_payload_of_json E payload of
        None \<Rightarrow> (False, n)
      | Some mp \<Rightarrow>
          let snap = mp_snapshot mp; uuid = sn_uuid snap in
          (case migrate_checks E mp n of
             (None, n) \<Rightarrow> (False, n)
           | (Some (manifest, g), n) \<Rightarrow>
               (case migrate_code E mp n of
                  (None, n) \<Rightarrow> (False, n)
                | (Some wasm, n) \<Rightarrow>
                    (case instantiate_agent E wasm g n of
                       Inl e \<Rightarrow> (False, n)
                     | Inr r \<Rightarrow>
                         let r = rt_restore (ne_vt E) (sn_state snap) r;
                             n = (if hm_contains (nd_keys n) uuid then n
                                  else n\<lparr>nd_keys := hm_insert uuid (sn_origin_pub snap) (nd_keys n)\<rparr>);
                             n = mount_agent E \<lparr>mt_uuid = uuid, mt_alias = uuid, mt_runtime = r, mt_service = None,
                                   mt_code = Some wasm, mt_epoch = sn_epoch snap, mt_grant = g,
                                   mt_manifest = Some manifest, mt_active = False\<rparr> n
                         in (True, n\<lparr>nd_prepared := hm_insert uuid (mp_handoff mp) (nd_prepared n)\<rparr>)))))"

definition commit_migrated :: "('r, 'k) node_env \<Rightarrow> string \<Rightarrow> ('r, 'k) node \<Rightarrow> ('r, 'k) node" where
  "commit_migrated E uuid n =
     (case hm_get (nd_agents n) uuid of
        None \<Rightarrow> n
      | Some m \<Rightarrow>
          if mt_active m then n
          else
            let epoch = mt_epoch m;
                n = set_active uuid True n;
                n = persist_seen uuid epoch (n\<lparr>nd_seen := hm_insert uuid epoch (nd_seen n)\<rparr>)
            in case hm_get (nd_prepared n) uuid of
                 None \<Rightarrow> n
               | Some ho \<Rightarrow>
                   let n = n\<lparr>nd_prepared := hm_remove uuid (nd_prepared n)\<rparr> in
                   if hm_contains (nd_routes n) ''ams''
                   then send_as E uuid ''ams'' (unl_text ''obj(bind, agent)'') (ne_rebind_body E uuid (nd_addr n) epoch ho) n
                   else n)"

definition abort_prepared :: "string \<Rightarrow> ('r, 'k) node \<Rightarrow> ('r, 'k) node" where
  "abort_prepared uuid n =
     (case hm_get (nd_agents n) uuid of
        None \<Rightarrow> n
      | Some m \<Rightarrow>
          if mt_active m then n
          else (unmount uuid n)\<lparr>nd_prepared := hm_remove uuid (nd_prepared n)\<rparr>)"

section \<open>The serve loop\<close>

text \<open>
  What one iteration of the loop may process, in any order and number, and the calls an operator
  makes on the node. A migration is one event for the source, because the caller of \<open>migrate\<close>
  holds the node until it returns: the event carries the outcome of the exchange.
\<close>

datatype node_event =
    Kick bytes bytes
  | WireMsg node_msg
  | ResolveReq string
  | MigrateReq bytes
  | MigrateFin string bool
  | TimersDue
  | RunInfers "bool list"
  | Inferred string u64 string
  | MigrateOut string bytes bool
  | Register "string option"
  | AddRoute string string
  | AllowPeer bytes

definition node_step :: "('r, 'k) node_env \<Rightarrow> node_event \<Rightarrow> ('r, 'k) node \<Rightarrow> ('r, 'k) node" where
  "node_step E ev n =
     (case ev of
        Kick unl body \<Rightarrow> inject E unl body n
      | WireMsg m \<Rightarrow> accept_wire E m n
      | ResolveReq uuid \<Rightarrow> snd (resolve_local E uuid n)
      | MigrateReq payload \<Rightarrow> snd (process_migrate E payload n)
      | MigrateFin uuid commit \<Rightarrow> if commit then commit_migrated E uuid n else abort_prepared uuid n
      | TimersDue \<Rightarrow> fire_due E n
      | RunInfers free \<Rightarrow> snd (run_infers free n)
      | Inferred uuid req reply \<Rightarrow> inferred E uuid req reply n
      | MigrateOut uuid dest_pub ok \<Rightarrow>
          (case migrate_out_begin E uuid dest_pub n of
             (None, n) \<Rightarrow> n
           | (Some _, n) \<Rightarrow> migrate_out_end uuid ok n)
      | Register service \<Rightarrow> register E service n
      | AddRoute who addr \<Rightarrow> add_route who addr n
      | AllowPeer peer \<Rightarrow> allow_noise_peer peer n)"

definition node_run :: "('r, 'k) node_env \<Rightarrow> node_event list \<Rightarrow> ('r, 'k) node \<Rightarrow> ('r, 'k) node" where
  "node_run E evs n = fold (node_step E) evs n"

end
