(* ===== verification/Node_Frames.thy ===== *)
theory Node_Frames
  imports Node_Kernel
begin

text \<open>
  What the operations of the engine-based node leave alone. Delivering messages, ticking timers,
  running requests and everything they cause change an agent only by running it, add agents only as
  children of an agent that holds the spawn capability, and touch neither the keys, nor the record of
  seen epochs and nonces, nor the prepared migrations. One relation, \<open>evolves\<close>, says so; it is
  reflexive and transitive, and every operation below a node event satisfies it.
\<close>

section \<open>The relation\<close>

definition kernel_view :: "('r, 'k) node \<Rightarrow> (string, bytes) hashmap \<times> 'k \<times> (string, u64) hashmap \<times> (string, handoff) hashmap
    \<times> (string \<times> bytes) set \<times> (string \<times> bytes) list \<times> node_profile \<times> db option" where
  "kernel_view n = (nd_keys n, nd_key n, nd_seen n, nd_prepared n, nd_nonce_seen n, nd_nonce_order n,
     nd_profile n, nd_store n)"

lemma kernel_viewD:
  assumes "kernel_view n' = kernel_view n"
  shows "nd_keys n' = nd_keys n" "nd_key n' = nd_key n" "nd_seen n' = nd_seen n" "nd_prepared n' = nd_prepared n"
    "nd_nonce_seen n' = nd_nonce_seen n" "nd_nonce_order n' = nd_nonce_order n" "nd_profile n' = nd_profile n"
    "nd_store n' = nd_store n"
  using assms by (simp_all add: kernel_view_def)

text \<open>The same agent, run further or with another service.\<close>

definition carries :: "'r mounted \<Rightarrow> 'r mounted \<Rightarrow> bool" where
  "carries m m' \<longleftrightarrow> m' = m\<lparr>mt_runtime := mt_runtime m', mt_service := mt_service m'\<rparr>"

text \<open>A child that an agent of the node spawned: it fits the profile and holds nothing its parent does not.\<close>

definition born :: "('r, 'k) node \<Rightarrow> 'r mounted \<Rightarrow> bool" where
  "born n m' \<longleftrightarrow> mt_active m'
     \<and> (\<exists>mf. mt_manifest m' = Some mf \<and> fit (nd_profile n) mf = Inr (mt_grant m')
          \<and> (\<exists>u p. hm_get (nd_agents n) u = Some p \<and> granted_cap (mt_grant p) Spawn
                \<and> set (mf_grants mf) \<subseteq> {Log, Messaging} \<union> gr_caps (mt_grant p)))"

definition evolves :: "('r, 'k) node \<Rightarrow> ('r, 'k) node \<Rightarrow> bool" where
  "evolves n n' \<longleftrightarrow> kernel_view n' = kernel_view n
     \<and> (\<forall>u m'. hm_get (nd_agents n') u = Some m' \<longrightarrow>
          (\<exists>m. hm_get (nd_agents n) u = Some m \<and> carries m m') \<or> born n m')"

lemma carries_refl [simp]: "carries m m"
  by (simp add: carries_def)

lemma carries_fields:
  assumes "carries m m'"
  shows "mt_active m' = mt_active m" "mt_manifest m' = mt_manifest m" "mt_grant m' = mt_grant m"
    "mt_epoch m' = mt_epoch m" "mt_code m' = mt_code m" "mt_uuid m' = mt_uuid m" "mt_alias m' = mt_alias m"
proof -
  from assms obtain r s where "m' = m\<lparr>mt_runtime := r, mt_service := s\<rparr>" unfolding carries_def by blast
  then show "mt_active m' = mt_active m" "mt_manifest m' = mt_manifest m" "mt_grant m' = mt_grant m"
    "mt_epoch m' = mt_epoch m" "mt_code m' = mt_code m" "mt_uuid m' = mt_uuid m" "mt_alias m' = mt_alias m"
    by simp_all
qed

lemma carries_trans: "carries a b \<Longrightarrow> carries b c \<Longrightarrow> carries a c"
proof -
  assume "carries a b" "carries b c"
  then obtain r s t u where "b = a\<lparr>mt_runtime := r, mt_service := s\<rparr>" "c = b\<lparr>mt_runtime := t, mt_service := u\<rparr>"
    unfolding carries_def by blast
  then show "carries a c" by (simp add: carries_def)
qed

lemma born_carries: "born n m \<Longrightarrow> carries m m' \<Longrightarrow> born n m'"
  by (simp add: born_def carries_fields)

lemma evolves_refl [simp]: "evolves n n"
  by (auto simp: evolves_def intro: exI [of _ "_ :: _ mounted"])

lemma evolves_view: "evolves n n' \<Longrightarrow> kernel_view n' = kernel_view n"
  by (simp add: evolves_def)

lemma evolves_agent:
  assumes "evolves n n'" and "hm_get (nd_agents n') u = Some m'"
  obtains m where "hm_get (nd_agents n) u = Some m" and "carries m m'" | "born n m'"
  using assms unfolding evolves_def by blast

lemma born_back:
  assumes "evolves n n1" and "born n1 m'"
  shows "born n m'"
proof -
  from assms(2) obtain mf u p where mf: "mt_active m'" "mt_manifest m' = Some mf"
    "fit (nd_profile n1) mf = Inr (mt_grant m')" and p: "hm_get (nd_agents n1) u = Some p"
    "granted_cap (mt_grant p) Spawn" "set (mf_grants mf) \<subseteq> {Log, Messaging} \<union> gr_caps (mt_grant p)"
    unfolding born_def by blast
  have prof: "nd_profile n1 = nd_profile n" by (rule kernel_viewD(7) [OF evolves_view [OF assms(1)]])
  from assms(1) p(1) show ?thesis
  proof (cases rule: evolves_agent)
    case (1 m)
    then have "mt_grant p = mt_grant m" by (intro carries_fields(3))
    then have "granted_cap (mt_grant m) Spawn" "set (mf_grants mf) \<subseteq> {Log, Messaging} \<union> gr_caps (mt_grant m)"
      using p by simp_all
    then show ?thesis unfolding born_def using 1(1) mf prof by fastforce
  next
    case 2
    then obtain mp v q where "fit (nd_profile n) mp = Inr (mt_grant p)" and q: "hm_get (nd_agents n) v = Some q"
      "granted_cap (mt_grant q) Spawn" "set (mf_grants mp) \<subseteq> {Log, Messaging} \<union> gr_caps (mt_grant q)"
      unfolding born_def by blast
    then have "gr_caps (mt_grant p) \<subseteq> {Log, Messaging} \<union> gr_caps (mt_grant q)" using fit_caps by blast
    then have "set (mf_grants mf) \<subseteq> {Log, Messaging} \<union> gr_caps (mt_grant q)" using p(3) by blast
    then show ?thesis unfolding born_def using q(1,2) mf prof by fastforce
  qed
qed

lemma evolves_trans:
  assumes "evolves n n1" and "evolves n1 n2"
  shows "evolves n n2"
  unfolding evolves_def
proof (intro conjI allI impI)
  show "kernel_view n2 = kernel_view n" using assms evolves_view by metis
  fix u m'
  assume "hm_get (nd_agents n2) u = Some m'"
  with assms(2) show "(\<exists>m. hm_get (nd_agents n) u = Some m \<and> carries m m') \<or> born n m'"
  proof (cases rule: evolves_agent)
    case (1 m)
    note c = 1(2)
    from assms(1) 1(1) show ?thesis
      by (cases rule: evolves_agent) (use c carries_trans born_carries in blast)+
  next
    case 2
    with assms(1) born_back show ?thesis by blast
  qed
qed

text \<open>An operation that touches neither the agents nor the view.\<close>

lemma evolves_same: "nd_agents n' = nd_agents n \<Longrightarrow> kernel_view n' = kernel_view n \<Longrightarrow> evolves n n'"
  by (auto simp: evolves_def)

lemma evolves_modify:
  assumes "kernel_view n' = kernel_view n" and "nd_agents n' = hm_modify u f (nd_agents n)" and "\<And>m. carries m (f m)"
  shows "evolves n n'"
  using assms by (auto simp: evolves_def hashmap_simps split: if_splits)

section \<open>Every operation\<close>

named_theorems evolve_ops \<open>operations below a node event\<close>

lemma evolves_fold:
  assumes "\<And>x n. evolves n (f x n)"
  shows "evolves n (fold f xs n)"
  using assms by (induction xs arbitrary: n) (auto intro: evolves_trans)

lemma evolves_audit [evolve_ops]: "evolves n (audit a k d n)"
  by (rule evolves_same) (simp_all add: audit_def kernel_view_def)

lemma evolves_modify_runtime [evolve_ops]: "evolves n (modify_runtime u f n)"
  by (rule evolves_modify [where f = "\<lambda>m. m\<lparr>mt_runtime := f (mt_runtime m)\<rparr>"])
    (simp_all add: modify_runtime_def kernel_view_def carries_def)

lemma evolves_provision [evolve_ops]: "evolves n (provision_state E u n)" "evolves n (provision_crypto E u n)"
  by (auto simp: provision_state_def provision_crypto_def Let_def intro: evolve_ops split: option.splits)

lemma evolves_read_clock [evolve_ops]: "evolves n (snd (read_clock E n))"
  by (rule evolves_same) (simp_all add: read_clock_def kernel_view_def)

lemma evolves_supervise [evolve_ops]: "evolves n (supervise u res n)"
  by (rule evolves_same) (simp_all add: supervise_def audit_def kernel_view_def Let_def split: sum.splits)

lemma evolves_infer [evolve_ops]: "evolves n (apply_infer_reqs u reqs n)"
  by (rule evolves_same) (simp_all add: apply_infer_reqs_def audit_def kernel_view_def Let_def)

lemma evolves_timer_ops [evolve_ops]: "evolves n (apply_timer_ops E u ops n)"
  by (rule evolves_same) (simp_all add: apply_timer_ops_def read_clock_def kernel_view_def Let_def)

lemma evolves_mount_born:
  assumes "evolves n n1" and "born n m"
  shows "evolves n (mount_agent E m n1)"
proof -
  let ?n2 = "n1\<lparr>nd_aliases := hm_insert (mt_alias m) (mt_uuid m) (nd_aliases n1), nd_agents := hm_insert (mt_uuid m) m (nd_agents n1)\<rparr>"
  have "evolves n ?n2"
    using assms by (auto simp: evolves_def kernel_view_def hashmap_simps split: if_splits)
  then show ?thesis
    unfolding mount_agent_def by (intro evolves_trans [OF _ evolves_provision(2)] evolves_trans [OF _ evolves_provision(1)])
qed

lemma evolves_spawn_req:
  assumes "evolves n n1" and "hm_get (nd_agents n) parent = Some p" and "granted_cap (mt_grant p) Spawn"
    and "caps \<subseteq> gr_caps (mt_grant p)"
  shows "evolves n (apply_spawn_req E parent' caps r n1)"
proof (cases "ne_manifest_of_json E (sr_manifest_json r)")
  case None
  then show ?thesis using assms(1) by (simp add: apply_spawn_req_def evolves_trans [OF _ evolves_audit])
next
  case (Some m)
  let ?m = "m\<lparr>mf_grants := filter (\<lambda>c. c \<in> caps) (mf_grants m)\<rparr>"
  have grants: "set (mf_grants ?m) \<subseteq> {Log, Messaging} \<union> gr_caps (mt_grant p)" using assms(4) by auto
  show ?thesis
  proof (cases "mount_wasm E (sr_uuid r) (sr_alias r) (sr_code r) ?m None n1")
    case (Inl e)
    with Some show ?thesis using assms(1) by (simp add: apply_spawn_req_def evolves_trans [OF _ evolves_audit])
  next
    case (Inr n')
    then obtain g rt where fit: "fit (nd_profile n1) ?m = Inr g" and n': "n' = mount_agent E
        \<lparr>mt_uuid = sr_uuid r, mt_alias = sr_alias r, mt_runtime = rt, mt_service = None, mt_code = Some (sr_code r),
         mt_epoch = 0, mt_grant = g, mt_manifest = Some ?m, mt_active = True\<rparr> n1"
      by (auto simp: mount_wasm_def split: sum.splits)
    have "nd_profile n1 = nd_profile n" by (rule kernel_viewD(7) [OF evolves_view [OF assms(1)]])
    then have "evolves n n'"
      unfolding n' by (intro evolves_mount_born [OF assms(1)]) (use assms(2,3) grants fit in \<open>auto simp: born_def\<close>)
    with Some Inr show ?thesis by (simp add: apply_spawn_req_def evolves_trans [OF _ evolves_audit])
  qed
qed

lemma evolves_spawn_reqs [evolve_ops]: "evolves n (apply_spawn_reqs E u reqs n)"
proof (cases "hm_get (nd_agents n) u")
  case (Some p)
  have "evolves n (fold (apply_spawn_req E u (gr_caps (mt_grant p))) reqs n1)"
    if "evolves n n1" "granted_cap (mt_grant p) Spawn" for n1
    using that(1)
    by (induction reqs arbitrary: n1) (auto intro: evolves_spawn_req [OF _ Some that(2)])
  with Some show ?thesis by (auto simp: apply_spawn_reqs_def granted_def intro: evolves_audit)
qed (simp add: apply_spawn_reqs_def granted_def evolves_audit)

lemma evolves_after_call [evolve_ops]: "evolves n (after_call E u c n)"
  unfolding after_call_def by (intro evolves_trans [OF _ evolves_spawn_reqs] evolves_trans [OF _ evolves_infer]
      evolves_trans [OF _ evolves_timer_ops] evolves_supervise)

lemma evolves_rate [evolve_ops]: "evolves n (snd (rate_allows E u n))"
  by (rule evolves_same)
    (simp_all add: rate_allows_def read_clock_def kernel_view_def Let_def split: option.splits)

lemma evolves_wire_or_sink [evolve_ops]: "evolves n (wire_or_sink E m n)"
  by (rule evolves_same)
    (simp_all add: wire_or_sink_def seal_def address_of_def to_sink_def kernel_view_def Let_def split: option.splits)

lemma evolves_to_sink [evolve_ops]: "evolves n (to_sink m n)"
  by (rule evolves_same) (simp_all add: to_sink_def kernel_view_def)

lemma evolves_learn_route [evolve_ops]: "evolves n (learn_route m n)"
  by (rule evolves_same) (simp_all add: learn_route_def kernel_view_def)

lemma evolves_rate_pair: "rate_allows E u n = (b, n') \<Longrightarrow> evolves n n'"
  using evolves_rate [of n E u] by simp

lemma evolves_route_sends [evolve_ops]: "evolves n (snd (route_sends E u ss q n))"
proof (induction ss arbitrary: q n)
  case (Cons s ss)
  obtain b n1 where r: "rate_allows E u n = (b, n1)" by fastforce
  note step = evolves_rate_pair [OF r]
  show ?case
    using evolves_trans [OF step Cons] evolves_trans [OF evolves_trans [OF step evolves_audit] Cons]
      evolves_trans [OF evolves_trans [OF step evolves_wire_or_sink] Cons]
    by (cases b) (simp_all add: r Let_def)
qed simp

lemma evolves_pump_step [evolve_ops]: "evolves n (snd (pump_step E m n))"
proof -
  have "evolves n (snd (route_sends E u ss q (after_call E u c (modify_runtime u f (learn_route m n)))))" for u ss q c f
    by (intro evolves_trans [OF _ evolves_route_sends] evolves_trans [OF _ evolves_after_call]
        evolves_trans [OF _ evolves_modify_runtime] evolves_learn_route)
  then show ?thesis
    by (auto simp: pump_step_def Let_def intro: evolves_audit evolves_to_sink split: option.splits prod.splits)
qed

lemma evolves_pump_loop: "evolves n (pump_loop E b q n)"
proof (induction b arbitrary: q n)
  case 0
  then show ?case by (cases q) simp_all
next
  case (Suc b)
  show ?case
  proof (cases q)
    case (Cons m ms)
    obtain q' n1 where r: "pump_step E m n = (q', n1)" by fastforce
    have "evolves n n1" using evolves_pump_step [of n E m] r by simp
    with Cons r Suc show ?thesis by (auto intro: evolves_trans)
  qed simp
qed

lemma evolves_pump [evolve_ops]: "evolves n (pump E m n)"
  unfolding pump_def by (rule evolves_pump_loop)

lemma evolves_dispatch [evolve_ops]: "evolves n (dispatch E u ss n)"
proof (induction ss arbitrary: n)
  case (Cons s ss)
  obtain b n1 where r: "rate_allows E u n = (b, n1)" by fastforce
  note step = evolves_rate_pair [OF r]
  show ?case
    using evolves_trans [OF step Cons] evolves_trans [OF evolves_trans [OF step evolves_audit] Cons]
      evolves_trans [OF evolves_trans [OF step evolves_wire_or_sink] Cons]
      evolves_trans [OF evolves_trans [OF step evolves_pump] Cons]
    by (cases b) (simp_all add: r Let_def)
qed simp

lemma evolves_fire_tick [evolve_ops]: "evolves n (fire_tick E u i n)"
proof -
  obtain now n1 where c: "read_clock E n = (now, n1)" by fastforce
  have step: "evolves n n1" using evolves_read_clock [of n E] c by simp
  have "evolves n (dispatch E u ss (after_call E u r (modify_runtime u f n1)))" for ss r f
    by (intro evolves_trans [OF _ evolves_dispatch] evolves_trans [OF _ evolves_after_call]
        evolves_trans [OF _ evolves_modify_runtime] step)
  then show ?thesis
    using step by (auto simp: fire_tick_def c Let_def split: option.splits prod.splits)
qed

lemma evolves_fire_due [evolve_ops]: "evolves n (fire_due E n)"
proof -
  obtain now n1 where c: "read_clock E n = (now, n1)" by fastforce
  have step: "evolves n n1" using evolves_read_clock [of n E] c by simp
  have "evolves m ((\<lambda>(u, i) n. fire_tick E u i (n\<lparr>nd_timers := hm_modify u (hm_remove i) (nd_timers n)\<rparr>)) x m)" for x m
    by (cases x) (auto intro!: evolves_trans [OF _ evolves_fire_tick] evolves_same simp: kernel_view_def)
  then show ?thesis
    unfolding fire_due_def c Let_def prod.case by (intro evolves_trans [OF step] evolves_fold)
qed

lemma evolves_send_as [evolve_ops]: "evolves n (send_as E from to unl body n)"
  by (simp add: send_as_def Let_def evolves_pump evolves_wire_or_sink)

lemma evolves_inject [evolve_ops]: "evolves n (inject E unl body n)"
  by (simp add: inject_def evolves_pump)

lemma evolves_register [evolve_ops]: "evolves n (register E service n)"
proof -
  have "evolves n (n\<lparr>nd_agents := hm_modify u (\<lambda>m. m\<lparr>mt_service := x\<rparr>) (nd_agents n)\<rparr>)" for u x
    by (rule evolves_modify [where f = "\<lambda>m. m\<lparr>mt_service := x\<rparr>"]) (simp_all add: kernel_view_def carries_def)
  then show ?thesis
    unfolding register_def Let_def
    by (intro evolves_trans [OF _ evolves_fold])
      (auto split: option.splits prod.splits intro: evolves_send_as evolves_trans [OF evolves_send_as evolves_send_as])
qed

lemma evolves_inferred [evolve_ops]: "evolves n (inferred E u req reply n)"
  by (simp add: inferred_def evolves_pump)

lemma evolves_run_infers [evolve_ops]: "evolves n (snd (run_infers free n))"
  by (rule evolves_same) (simp_all add: run_infers_def kernel_view_def Let_def)

lemma evolves_resolve_local [evolve_ops]: "evolves n (snd (resolve_local E u n))"
  by (auto simp: resolve_local_def Let_def intro: evolves_modify_runtime split: option.splits prod.splits sum.splits)

end
