(* ===== verification/Node_Trust.thy ===== *)
theory Node_Trust
  imports Node_Frames
begin

text \<open>
  Who may speak and how often: the keys a node has pinned, the nonces it has seen and the epochs of
  the migrations it has committed, over every run of the node. A run is a list of node events, each
  with whatever messages, payloads and answers the outside world comes up with.
\<close>

section \<open>Mounting\<close>

lemma provision_get:
  "\<exists>f. (\<forall>m. carries m (f m)) \<and> hm_get (nd_agents (provision_state E u n)) v = map_option f (hm_get (nd_agents n) v)"
  "\<exists>f. (\<forall>m. carries m (f m)) \<and> hm_get (nd_agents (provision_crypto E u n)) v = map_option f (hm_get (nd_agents n) v)"
proof -
  have modify: "\<exists>f. (\<forall>m. carries m (f m)) \<and> hm_get (nd_agents (modify_runtime u g n)) v = map_option f (hm_get (nd_agents n) v)" for g
    by (rule exI [of _ "if v = u then (\<lambda>m. m\<lparr>mt_runtime := g (mt_runtime m)\<rparr>) else (\<lambda>m. m)"])
      (auto simp: modify_runtime_def hashmap_simps carries_def option.map_ident)
  have same: "\<exists>f. (\<forall>m. carries m (f m)) \<and> hm_get (nd_agents n) v = map_option f (hm_get (nd_agents n) v)"
    by (rule exI [of _ "\<lambda>m. m"]) (simp add: option.map_ident)
  show "\<exists>f. (\<forall>m. carries m (f m)) \<and> hm_get (nd_agents (provision_state E u n)) v = map_option f (hm_get (nd_agents n) v)"
    using modify same by (simp add: provision_state_def Let_def split: option.splits)
  show "\<exists>f. (\<forall>m. carries m (f m)) \<and> hm_get (nd_agents (provision_crypto E u n)) v = map_option f (hm_get (nd_agents n) v)"
    using modify same by (simp add: provision_crypto_def)
qed

lemma mount_agent_view [simp]: "kernel_view (mount_agent E m n) = kernel_view n"
  unfolding mount_agent_def evolves_view [OF evolves_provision(1)] evolves_view [OF evolves_provision(2)]
  by (simp add: kernel_view_def)

lemma mount_agent_get:
  assumes "hm_get (nd_agents (mount_agent E m n)) u = Some m'"
  shows "(u = mt_uuid m \<and> carries m m') \<or> (u \<noteq> mt_uuid m \<and> (\<exists>m0. hm_get (nd_agents n) u = Some m0 \<and> carries m0 m'))"
proof -
  let ?n = "n\<lparr>nd_aliases := hm_insert (mt_alias m) (mt_uuid m) (nd_aliases n), nd_agents := hm_insert (mt_uuid m) m (nd_agents n)\<rparr>"
  obtain f where f: "\<forall>m. carries m (f m)"
    "hm_get (nd_agents (provision_state E (mt_uuid m) ?n)) u = map_option f (hm_get (nd_agents ?n) u)"
    using provision_get(1) [of E "mt_uuid m" ?n u] by blast
  obtain g where g: "\<forall>m. carries m (g m)"
    "hm_get (nd_agents (mount_agent E m n)) u = map_option g (hm_get (nd_agents (provision_state E (mt_uuid m) ?n)) u)"
    using provision_get(2) [of E "mt_uuid m" "provision_state E (mt_uuid m) ?n" u] unfolding mount_agent_def by blast
  have "map_option g (map_option f (hm_get (nd_agents ?n) u)) = Some m'" using assms g(2) f(2) by simp
  then obtain m0 where "hm_get (nd_agents ?n) u = Some m0" "m' = g (f m0)"
    by (auto simp: map_option_eq_Some simp del: node.simps)
  moreover have "carries m0 (g (f m0))" using carries_trans f(1) g(1) by blast
  ultimately show ?thesis by (auto simp: hashmap_simps split: if_splits)
qed

lemma audit_agents [simp]: "nd_agents (audit a k d n) = nd_agents n"
  and audit_view [simp]: "kernel_view (audit a k d n) = kernel_view n"
  by (simp_all add: audit_def kernel_view_def)

lemma migrate_checks_same:
  assumes "migrate_checks E mp n = (r, n')"
  shows "nd_agents n' = nd_agents n" and "kernel_view n' = kernel_view n"
proof -
  have "n' = n \<or> (\<exists>k d. n' = audit (sn_uuid (mp_snapshot mp)) k d n)"
    using assms by (auto simp: migrate_checks_def Let_def split: if_splits option.splits sum.splits)
  then show "nd_agents n' = nd_agents n" "kernel_view n' = kernel_view n" by auto
qed

lemma migrate_code_same:
  assumes "migrate_code E mp n = (r, n')"
  shows "nd_agents n' = nd_agents n" and "kernel_view n' = kernel_view n"
  using assms
  by (auto simp: migrate_code_def fetch_code_def cache_code_def kernel_view_def Let_def split: if_splits option.splits)

text \<open>A payload is either refused, with nothing but an audit event or cached code to show for it, or mounted.\<close>

lemma process_migrate_cases:
  assumes "process_migrate E payload n = (b, n')"
  obtains (refused) "\<not> b" and "nd_agents n' = nd_agents n" and "kernel_view n' = kernel_view n"
  | (prepared) mp manifest g wasm n1 r where "b" and "ne_payload_of_json E payload = Some mp"
      and "fst (migrate_checks E mp n) = Some (manifest, g)" and "nd_agents n1 = nd_agents n"
      and "kernel_view n1 = (if hm_contains (nd_keys n) (sn_uuid (mp_snapshot mp)) then kernel_view n
           else kernel_view (n\<lparr>nd_keys := hm_insert (sn_uuid (mp_snapshot mp)) (sn_origin_pub (mp_snapshot mp)) (nd_keys n)\<rparr>))"
      and "n' = (let n = mount_agent E \<lparr>mt_uuid = sn_uuid (mp_snapshot mp), mt_alias = sn_uuid (mp_snapshot mp), mt_runtime = r,
            mt_service = None, mt_code = Some wasm, mt_epoch = sn_epoch (mp_snapshot mp), mt_grant = g,
            mt_manifest = Some manifest, mt_active = False\<rparr> n1
          in n\<lparr>nd_prepared := hm_insert (sn_uuid (mp_snapshot mp)) (mp_handoff mp) (nd_prepared n)\<rparr>)"
proof (cases "ne_payload_of_json E payload")
  case None
  with assms refused show thesis by (simp add: process_migrate_def)
next
  case (Some mp)
  obtain c n1 where c: "migrate_checks E mp n = (c, n1)" by fastforce
  obtain w n2 where w: "migrate_code E mp n1 = (w, n2)" by fastforce
  note same = migrate_checks_same [OF c] migrate_code_same [OF w]
  show thesis
  proof (cases "\<exists>manifest g wasm rt. c = Some (manifest, g) \<and> w = Some wasm \<and> instantiate_agent E wasm g n2 = Inr rt")
    case False
    then have "(b, n') = (False, n1) \<or> (b, n') = (False, n2)"
      using assms by (auto simp: process_migrate_def Some c w Let_def split: option.splits sum.splits)
    with same refused show thesis by auto
  next
    case True
    then obtain manifest g wasm rt where 1: "c = Some (manifest, g)" "w = Some wasm" "instantiate_agent E wasm g n2 = Inr rt"
      by blast
    let ?snap = "mp_snapshot mp"
    let ?n3 = "if hm_contains (nd_keys n2) (sn_uuid ?snap) then n2
        else n2\<lparr>nd_keys := hm_insert (sn_uuid ?snap) (sn_origin_pub ?snap) (nd_keys n2)\<rparr>"
    have keys: "nd_keys n2 = nd_keys n" by (rule kernel_viewD) (simp add: same)
    have "b" and n': "n' = (let n = mount_agent E \<lparr>mt_uuid = sn_uuid ?snap, mt_alias = sn_uuid ?snap,
            mt_runtime = rt_restore (ne_vt E) (sn_state ?snap) rt, mt_service = None, mt_code = Some wasm,
            mt_epoch = sn_epoch ?snap, mt_grant = g, mt_manifest = Some manifest, mt_active = False\<rparr> ?n3
          in n\<lparr>nd_prepared := hm_insert (sn_uuid ?snap) (mp_handoff mp) (nd_prepared n)\<rparr>)"
      using assms by (simp_all add: process_migrate_def Some c w 1 Let_def)
    moreover have "nd_agents ?n3 = nd_agents n" using same by simp
    moreover have "kernel_view ?n3 = (if hm_contains (nd_keys n) (sn_uuid ?snap) then kernel_view n
        else kernel_view (n\<lparr>nd_keys := hm_insert (sn_uuid ?snap) (sn_origin_pub ?snap) (nd_keys n)\<rparr>))"
      using same keys by (simp add: kernel_view_def)
    moreover have "fst (migrate_checks E mp n) = Some (manifest, g)" by (simp add: c 1)
    ultimately show thesis using prepared [OF _ Some] by blast
  qed
qed

section \<open>Events\<close>

text \<open>The events that only run agents or change what the trust of the node does not rest on.\<close>

fun quiet :: "node_event \<Rightarrow> bool" where
  "quiet (WireMsg m) \<longleftrightarrow> False"
| "quiet (MigrateReq p) \<longleftrightarrow> False"
| "quiet (MigrateFin u c) \<longleftrightarrow> False"
| "quiet (MigrateOut u d ok) \<longleftrightarrow> False"
| "quiet _ \<longleftrightarrow> True"

lemma quiet_evolves: "quiet ev \<Longrightarrow> evolves n (node_step E ev n)"
  by (cases ev)
    (simp_all add: node_step_def evolve_ops, simp_all add: evolves_def kernel_view_def allow_noise_peer_def add_route_def)

section \<open>Keys\<close>

text \<open>The message shows a handoff of \<open>x\<close> that verifies under the key \<open>pk\<close>.\<close>

definition shows_handoff :: "('r, 'k) node_env \<Rightarrow> string \<Rightarrow> bytes \<Rightarrow> node_msg \<Rightarrow> bool" where
  "shows_handoff E x pk m \<longleftrightarrow> (case ne_body_handoff E (nm_body m) of
     None \<Rightarrow> False | Some h \<Rightarrow> handoff_verify (ne_crypto E) h \<and> ho_from_pub h = pk \<and> ho_agent h = x)"

fun hands_off :: "('r, 'k) node_env \<Rightarrow> string \<Rightarrow> bytes \<Rightarrow> node_event \<Rightarrow> bool" where
  "hands_off E x pk (WireMsg m) \<longleftrightarrow> shows_handoff E x pk m"
| "hands_off E x pk _ \<longleftrightarrow> False"

lemma handoff_authorizes_shows: "handoff_authorizes E m from_key to_key \<Longrightarrow> shows_handoff E (nm_from m) from_key m"
  by (auto simp: handoff_authorizes_def shows_handoff_def Let_def split: option.splits)

lemma authorize_keys:
  assumes "hm_get (nd_keys n) x = Some pk" and "\<not> shows_handoff E x pk m"
  shows "hm_get (nd_keys (snd (authorize_sender E m n))) x = Some pk"
  using assms handoff_authorizes_shows [of E m pk]
  by (auto simp: authorize_sender_def Let_def hashmap_simps audit_def split: option.splits)

lemma remember_nonce_keys [simp]: "nd_keys (remember_nonce k n) = nd_keys n"
  by (simp add: remember_nonce_def Let_def)

text \<open>A message that passes the gate is pumped; any other leaves at most a key, on first sight, and an audit event.\<close>

lemma accept_wire_cases:
  obtains (refused) "accept_wire E m n = n"
  | (impostor) n1 where "wire_admit E m" and "authorize_sender E m n = (False, n1)" and "accept_wire E m n = n1"
  | (replayed) n1 where "wire_admit E m" and "authorize_sender E m n = (True, n1)" and "nm_nonce m \<noteq> []"
      and "(nm_from m, nm_nonce m) \<in> nd_nonce_seen n1" and "accept_wire E m n = audit (nm_from m) ''replay'' ''duplicate nonce'' n1"
  | (accepted) n1 where "wire_admit E m" and "authorize_sender E m n = (True, n1)"
      and "nm_nonce m = [] \<or> (nm_from m, nm_nonce m) \<notin> nd_nonce_seen n1"
      and "accept_wire E m n = pump E m (if nm_nonce m = [] then n1 else remember_nonce (nm_from m, nm_nonce m) n1)"
proof (cases "wire_admit E m")
  case True
  obtain b n1 where "authorize_sender E m n = (b, n1)" by fastforce
  note r = this
  show thesis
  proof (cases b)
    case False
    with True r show thesis by (intro impostor) (simp_all add: accept_wire_def)
  next
    case b: True
    show thesis
    proof (cases "nm_nonce m \<noteq> [] \<and> (nm_from m, nm_nonce m) \<in> nd_nonce_seen n1")
      case replay: True
      with True r b show thesis by (intro replayed) (simp_all add: accept_wire_def)
    next
      case fresh: False
      with True r b show thesis by (intro accepted [of n1]) (auto simp: accept_wire_def)
    qed
  qed
qed (simp add: accept_wire_def that(1))

lemma pump_keys: "nd_keys (pump E m n) = nd_keys n"
  by (rule kernel_viewD(1) [OF evolves_view [OF evolves_pump]])

lemma accept_wire_keys:
  assumes "hm_get (nd_keys n) x = Some pk" and "\<not> shows_handoff E x pk m"
  shows "hm_get (nd_keys (accept_wire E m n)) x = Some pk"
proof -
  have auth: "hm_get (nd_keys n1) x = Some pk" if "authorize_sender E m n = (b, n1)" for b n1
    using authorize_keys [OF assms] that by simp
  show ?thesis
  proof (cases rule: accept_wire_cases [of E m n])
    case (impostor n1)
    then show ?thesis using auth by metis
  next
    case (replayed n1)
    then show ?thesis using auth by (simp add: kernel_viewD(1) [OF audit_view])
  next
    case (accepted n1)
    then show ?thesis using auth by (simp add: pump_keys)
  qed (simp add: assms(1))
qed

lemmas send_as_view = kernel_viewD [OF evolves_view [OF evolves_send_as]]

lemma commit_view:
  "nd_keys (commit_migrated E u n) = nd_keys n" "nd_nonce_seen (commit_migrated E u n) = nd_nonce_seen n"
  "nd_nonce_order (commit_migrated E u n) = nd_nonce_order n" "nd_profile (commit_migrated E u n) = nd_profile n"
  by (simp_all add: commit_migrated_def set_active_def persist_seen_def send_as_view Let_def split: option.splits)

lemma abort_view:
  "kernel_view ((abort_prepared u n)\<lparr>nd_prepared := nd_prepared n\<rparr>) = kernel_view n"
  by (simp add: abort_prepared_def unmount_def kernel_view_def split: option.splits)

lemma migrate_out_view:
  assumes "migrate_out_begin E u pub n = (p, n1)"
  shows "kernel_view n1 = kernel_view n" and "kernel_view (migrate_out_end u ok n1) = kernel_view n"
  using assms
  by (auto simp: migrate_out_begin_def build_migrate_payload_def migrate_out_end_def unmount_def set_active_def cache_code_def
      kernel_view_def Let_def split: option.splits prod.splits)

lemma process_migrate_keys:
  assumes "hm_get (nd_keys n) x = Some pk"
  shows "hm_get (nd_keys (snd (process_migrate E payload n))) x = Some pk"
proof -
  obtain b n' where p: "process_migrate E payload n = (b, n')" by fastforce
  from p show ?thesis
  proof (cases rule: process_migrate_cases)
    case refused
    with p assms show ?thesis using kernel_viewD(1) [OF refused(3)] by simp
  next
    case (prepared mp manifest g wasm n1 r)
    have "nd_keys n' = nd_keys n1" unfolding prepared(6) by (simp add: Let_def kernel_viewD(1) [OF mount_agent_view])
    moreover have "hm_get (nd_keys n1) x = Some pk"
      using prepared(5) assms by (auto simp: kernel_view_def hashmap_simps split: if_splits)
    ultimately show ?thesis using p by simp
  qed
qed

lemma node_step_keys:
  assumes "hm_get (nd_keys n) x = Some pk" and "\<not> hands_off E x pk ev"
  shows "hm_get (nd_keys (node_step E ev n)) x = Some pk"
proof (cases ev)
  case (WireMsg m)
  with assms show ?thesis by (simp add: node_step_def accept_wire_keys)
next
  case (MigrateReq payload)
  with assms show ?thesis by (simp add: node_step_def process_migrate_keys)
next
  case (MigrateFin u commit)
  then show ?thesis
    using assms abort_view [of n] by (cases commit) (simp_all add: node_step_def commit_view kernel_view_def)
next
  case (MigrateOut u pub ok)
  obtain p n1 where b: "migrate_out_begin E u pub n = (p, n1)" by fastforce
  note keys = kernel_viewD(1) [OF migrate_out_view(1) [OF b]] kernel_viewD(1) [OF migrate_out_view(2) [OF b]]
  show ?thesis using MigrateOut assms(1) by (cases p) (simp_all add: node_step_def b keys)
qed (use assms(1) kernel_viewD(1) [OF evolves_view [OF quiet_evolves [of ev n E]]] in simp_all)

lemma node_run_keys:
  assumes "hm_get (nd_keys n) x = Some pk" and "list_all (\<lambda>ev. \<not> hands_off E x pk ev) evs"
  shows "hm_get (nd_keys (node_run E evs n)) x = Some pk"
  using assms by (induction evs arbitrary: n) (simp_all add: node_run_def node_step_keys)

text \<open>Nothing but the audit trail tells the two states apart.\<close>

definition unaffected :: "('r, 'k) node \<Rightarrow> ('r, 'k) node \<Rightarrow> bool" where
  "unaffected n n' \<longleftrightarrow> n' = n\<lparr>nd_audit := nd_audit n'\<rparr>"

lemma unaffected_refl [simp]: "unaffected n n"
  and unaffected_audit [simp]: "unaffected n (audit a k d n)"
  by (simp_all add: unaffected_def audit_def)

text \<open>
  C2: Once a node has seen the key of an agent, nobody else speaks for that agent. As long as no
  message of the run shows a handoff of the agent signed by that key, the key stays pinned through
  every event, migrations included; and a message in the agent's name that is not signed by that key
  over exactly its fields (and shows no handoff either) has no effect whatsoever on the node but an
  entry in its audit trail.
\<close>

theorem pinned_sender_authentic:
  assumes "hm_get (nd_keys n) x = Some pk" and "list_all (\<lambda>ev. \<not> hands_off E x pk ev) evs"
    and "nm_from m = x" and "\<not> shows_handoff E x pk m"
    and "nm_sender_pub m \<noteq> pk \<or> \<not> sig_ok (ne_crypto E) pk (msg_signing_bytes m) (nm_sig m)"
  shows "hm_get (nd_keys (node_run E evs n)) x = Some pk
    \<and> unaffected (node_run E evs n) (accept_wire E m (node_run E evs n))"
proof
  let ?n = "node_run E evs n"
  show k: "hm_get (nd_keys ?n) x = Some pk" by (rule node_run_keys [OF assms(1,2)])
  show "unaffected ?n (accept_wire E m ?n)"
  proof (cases "wire_admit E m")
    case True
    then have "sig_ok (ne_crypto E) (nm_sender_pub m) (msg_signing_bytes m) (nm_sig m)"
      by (simp add: wire_admit_def split: if_splits)
    with assms(5) have "nm_sender_pub m \<noteq> pk" by auto
    moreover have "\<not> handoff_authorizes E m pk (nm_sender_pub m)"
      using handoff_authorizes_shows assms(3,4) by blast
    ultimately show ?thesis using True k assms(3) by (auto simp: accept_wire_def authorize_sender_def Let_def)
  qed (simp add: accept_wire_def)
qed

section \<open>Replays\<close>

definition nonce_wf :: "('r, 'k) node \<Rightarrow> bool" where
  "nonce_wf n \<longleftrightarrow> nd_nonce_seen n = set (nd_nonce_order n) \<and> distinct (nd_nonce_order n)
     \<and> length (nd_nonce_order n) \<le> max_nonces"

text \<open>The nonce \<open>k\<close> is remembered, with at most \<open>a\<close> younger ones.\<close>

definition remembered :: "string \<times> bytes \<Rightarrow> nat \<Rightarrow> ('r, 'k) node \<Rightarrow> bool" where
  "remembered k a n \<longleftrightarrow> (\<exists>xs ys. nd_nonce_order n = xs @ k # ys \<and> length ys \<le> a)"

lemma remember_nonce_wf:
  assumes "nonce_wf n" and "k \<notin> nd_nonce_seen n"
  shows "nonce_wf (remember_nonce k n)" and "remembered k 0 (remember_nonce k n)"
proof -
  note n = assms(1) [unfolded nonce_wf_def]
  have "nonce_wf (remember_nonce k n) \<and> remembered k 0 (remember_nonce k n)"
  proof (cases "nd_nonce_order n")
    case Nil
    with n show ?thesis by (simp add: remember_nonce_def nonce_wf_def remembered_def max_nonces_def)
  next
    case (Cons x xs)
    then show ?thesis using n assms(2)
      by (auto simp: remember_nonce_def nonce_wf_def remembered_def Let_def)
  qed
  then show "nonce_wf (remember_nonce k n)" "remembered k 0 (remember_nonce k n)" by simp_all
qed

lemma remember_nonce_remembered:
  assumes "remembered k a n" and "Suc a < max_nonces"
  shows "remembered k (Suc a) (remember_nonce k' n)"
proof -
  from assms(1) obtain xs ys where o: "nd_nonce_order n = xs @ k # ys" "length ys \<le> a" unfolding remembered_def by blast
  show ?thesis
  proof (cases "length (nd_nonce_order n @ [k']) > max_nonces")
    case True
    with o assms(2) have "xs \<noteq> []" by auto
    then obtain x xs' where "xs = x # xs'" by (cases xs) auto
    with o True have "nd_nonce_order (remember_nonce k' n) = xs' @ k # (ys @ [k'])" by (simp add: remember_nonce_def)
    with o(2) show ?thesis unfolding remembered_def by fastforce
  next
    case False
    with o have "nd_nonce_order (remember_nonce k' n) = xs @ k # (ys @ [k'])" by (simp add: remember_nonce_def)
    with o(2) show ?thesis unfolding remembered_def by fastforce
  qed
qed

lemma nonces_same:
  assumes "nd_nonce_seen n' = nd_nonce_seen n" and "nd_nonce_order n' = nd_nonce_order n"
  shows "nonce_wf n' = nonce_wf n" and "remembered k a n' = remembered k a n"
  using assms by (simp_all add: nonce_wf_def remembered_def)

lemma authorize_frame:
  "authorize_sender E m n = (b, n1) \<Longrightarrow> n1 = n\<lparr>nd_keys := nd_keys n1, nd_audit := nd_audit n1\<rparr>"
  by (auto simp: authorize_sender_def audit_def Let_def split: option.splits if_splits)

lemma authorize_nonces:
  assumes "authorize_sender E m n = (b, n1)"
  shows "nd_nonce_seen n1 = nd_nonce_seen n" and "nd_nonce_order n1 = nd_nonce_order n"
  by (subst authorize_frame [OF assms], simp)+

fun is_wire :: "node_event \<Rightarrow> bool" where
  "is_wire (WireMsg m) \<longleftrightarrow> True"
| "is_wire _ \<longleftrightarrow> False"

lemma accept_wire_nonces:
  assumes "nonce_wf n"
  shows "nonce_wf (accept_wire E m n)"
    and "remembered k a n \<Longrightarrow> Suc a < max_nonces \<Longrightarrow> remembered k (Suc a) (accept_wire E m n)"
proof -
  have grow: "remembered k (Suc a) n" if "remembered k a n" for a and n :: "('a, 'b) node"
    using that unfolding remembered_def by (meson le_SucI)
  have pumped: "nonce_wf (pump E m n) = nonce_wf n" "remembered k a (pump E m n) = remembered k a n" for a n
    by (rule nonces_same; rule kernel_viewD [OF evolves_view [OF evolves_pump]])+
  show "nonce_wf (accept_wire E m n)"
    and "remembered k a n \<Longrightarrow> Suc a < max_nonces \<Longrightarrow> remembered k (Suc a) (accept_wire E m n)"
  proof (atomize (full), cases rule: accept_wire_cases [of E m n])
    case refused
    with assms grow show "nonce_wf (accept_wire E m n) \<and>
        (remembered k a n \<longrightarrow> Suc a < max_nonces \<longrightarrow> remembered k (Suc a) (accept_wire E m n))" by simp
  next
    case (impostor n1)
    with assms grow show "nonce_wf (accept_wire E m n) \<and>
        (remembered k a n \<longrightarrow> Suc a < max_nonces \<longrightarrow> remembered k (Suc a) (accept_wire E m n))"
      using nonces_same [OF authorize_nonces [OF impostor(2)]] by simp
  next
    case (replayed n1)
    have "nd_nonce_seen (accept_wire E m n) = nd_nonce_seen n1" "nd_nonce_order (accept_wire E m n) = nd_nonce_order n1"
      by (simp_all add: replayed(5) kernel_viewD [OF audit_view])
    with assms grow show "nonce_wf (accept_wire E m n) \<and>
        (remembered k a n \<longrightarrow> Suc a < max_nonces \<longrightarrow> remembered k (Suc a) (accept_wire E m n))"
      using nonces_same [OF authorize_nonces [OF replayed(2)]] nonces_same by metis
  next
    case (accepted n1)
    have n1: "nonce_wf n1" "remembered k a n1 = remembered k a n"
      using nonces_same [OF authorize_nonces [OF accepted(2)]] assms by simp_all
    show "nonce_wf (accept_wire E m n) \<and>
        (remembered k a n \<longrightarrow> Suc a < max_nonces \<longrightarrow> remembered k (Suc a) (accept_wire E m n))"
      using accepted(3) n1 grow [of a n1] remember_nonce_wf(1) [OF n1(1)] remember_nonce_remembered [of k a n1]
      by (auto simp: accepted(4) pumped)
  qed
qed

lemma migrate_nonces:
  "nd_nonce_seen (snd (process_migrate E payload n)) = nd_nonce_seen n"
  "nd_nonce_order (snd (process_migrate E payload n)) = nd_nonce_order n"
proof -
  obtain b n' where p: "process_migrate E payload n = (b, n')" by fastforce
  have "nd_nonce_seen n' = nd_nonce_seen n \<and> nd_nonce_order n' = nd_nonce_order n"
    using p
  proof (cases rule: process_migrate_cases)
    case refused
    then show ?thesis using kernel_viewD(5,6) by blast
  next
    case (prepared mp manifest g wasm n1 r)
    have "nd_nonce_seen n1 = nd_nonce_seen n \<and> nd_nonce_order n1 = nd_nonce_order n"
      using prepared(5) by (auto simp: kernel_view_def split: if_splits)
    then show ?thesis by (simp add: prepared(6) Let_def kernel_viewD(5,6) [OF mount_agent_view])
  qed
  then show "nd_nonce_seen (snd (process_migrate E payload n)) = nd_nonce_seen n"
    "nd_nonce_order (snd (process_migrate E payload n)) = nd_nonce_order n" by (simp_all add: p)
qed

lemma node_step_nonces:
  assumes "\<not> is_wire ev"
  shows "nd_nonce_seen (node_step E ev n) = nd_nonce_seen n" and "nd_nonce_order (node_step E ev n) = nd_nonce_order n"
proof -
  have "nd_nonce_seen (node_step E ev n) = nd_nonce_seen n \<and> nd_nonce_order (node_step E ev n) = nd_nonce_order n"
  proof (cases ev)
    case (MigrateFin u commit)
    then show ?thesis
      using abort_view [of n] by (cases commit) (simp_all add: node_step_def commit_view kernel_view_def)
  next
    case (MigrateOut u pub ok)
    obtain p n1 where b: "migrate_out_begin E u pub n = (p, n1)" by fastforce
    note same = kernel_viewD(5,6) [OF migrate_out_view(1) [OF b]] kernel_viewD(5,6) [OF migrate_out_view(2) [OF b]]
    show ?thesis by (cases p) (simp_all add: MigrateOut node_step_def b same)
  next
    case (MigrateReq payload)
    then show ?thesis by (simp add: node_step_def migrate_nonces)
  qed (use assms kernel_viewD(5,6) [OF evolves_view [OF quiet_evolves [of ev n E]]] in simp_all)
  then show "nd_nonce_seen (node_step E ev n) = nd_nonce_seen n" "nd_nonce_order (node_step E ev n) = nd_nonce_order n"
    by simp_all
qed

lemma node_run_nonces:
  assumes "nonce_wf n"
  shows "nonce_wf (node_run E evs n) \<and> (remembered k a n \<longrightarrow> a + length (filter is_wire evs) < max_nonces
         \<longrightarrow> remembered k (a + length (filter is_wire evs)) (node_run E evs n))"
  using assms
proof (induction evs arbitrary: n a)
  case (Cons ev evs)
  have step: "nonce_wf (node_step E ev n)
      \<and> (remembered k a n \<longrightarrow> a + length (filter is_wire [ev]) < max_nonces
           \<longrightarrow> remembered k (a + length (filter is_wire [ev])) (node_step E ev n))" for a
  proof (cases "is_wire ev")
    case True
    then obtain m where "ev = WireMsg m" by (cases ev) auto
    then show ?thesis using accept_wire_nonces [OF Cons.prems] by (simp add: node_step_def)
  next
    case False
    then show ?thesis using Cons.prems by (simp add: nonces_same [OF node_step_nonces [OF False]])
  qed
  from Cons.IH [of "node_step E ev n" "a + length (filter is_wire [ev])"] step [of a]
  show ?case by (auto simp: node_run_def)
qed (simp add: node_run_def)

lemma node_new_view:
  "nd_keys (node_new E u a addr r k) = []" "nd_nonce_seen (node_new E u a addr r k) = {}"
  "nd_nonce_order (node_new E u a addr r k) = []" "nd_seen (node_new E u a addr r k) = []"
  "nd_store (node_new E u a addr r k) = None" "nd_prepared (node_new E u a addr r k) = []"
  "nd_profile (node_new E u a addr r k) = profile_normal" "nd_key (node_new E u a addr r k) = k"
  by (simp_all add: node_new_def mount_def kernel_viewD [OF mount_agent_view])

lemma node_new_nonces: "nonce_wf (node_new E u a addr r k)"
  by (simp add: nonce_wf_def node_new_view)

text \<open>
  C15: A replayed envelope is delivered once. When a node, in whatever state it has reached, accepts a
  message with a nonce, then until 8192 more messages have come over the wire, through whatever other
  events, every message with the same sender and nonce is dropped: nothing of the node changes but
  possibly the sender's key, and its audit trail.
\<close>

theorem replay_refused:
  assumes "n = node_run E evs0 (node_new E u a addr r k)"
    and "wire_admit E m" and "fst (authorize_sender E m n)" and "nm_nonce m \<noteq> []"
    and "(nm_from m, nm_nonce m) \<notin> nd_nonce_seen n"
    and "n' = node_run E evs (accept_wire E m n)" and "length (filter is_wire evs) < 8192"
    and "nm_from m' = nm_from m" and "nm_nonce m' = nm_nonce m"
  shows "unaffected (n'\<lparr>nd_keys := nd_keys (accept_wire E m' n')\<rparr>) (accept_wire E m' n')"
proof -
  let ?k = "(nm_from m, nm_nonce m)"
  have wf: "nonce_wf n" unfolding assms(1) by (rule conjunct1 [OF node_run_nonces [OF node_new_nonces]])
  obtain n1 where auth: "authorize_sender E m n = (True, n1)" using assms(3) by (cases "authorize_sender E m n") auto
  have wf1: "nonce_wf n1" and fresh: "?k \<notin> nd_nonce_seen n1"
    using nonces_same [OF authorize_nonces [OF auth]] authorize_nonces [OF auth] wf assms(5) by simp_all
  have acc: "accept_wire E m n = pump E m (remember_nonce ?k n1)"
    using assms(2,4) auth fresh by (simp add: accept_wire_def)
  have "nonce_wf (accept_wire E m n)" "remembered ?k 0 (accept_wire E m n)"
    using remember_nonce_wf [OF wf1 fresh]
    by (simp_all add: acc nonces_same [OF kernel_viewD(5,6) [OF evolves_view [OF evolves_pump]]])
  with node_run_nonces [OF this(1), of E evs ?k 0] assms(7)
  have wf': "nonce_wf n'" and rem: "remembered ?k (length (filter is_wire evs)) n'"
    unfolding assms(6) by (simp_all add: max_nonces_def)
  from rem have "?k \<in> set (nd_nonce_order n')" by (auto simp: remembered_def)
  with wf' have "?k \<in> nd_nonce_seen n'" by (simp add: nonce_wf_def)
  then have seen: "(nm_from m', nm_nonce m') \<in> nd_nonce_seen n2" if "authorize_sender E m' n' = (b, n2)" for b n2
    using authorize_nonces(1) [OF that] assms(8,9) by simp
  show ?thesis
  proof (cases rule: accept_wire_cases [of E m' n'])
    case (impostor n2)
    with authorize_frame [OF impostor(2)] show ?thesis by (simp add: unaffected_def)
  next
    case (replayed n2)
    from authorize_frame [OF replayed(2)] obtain ks es where n2: "n2 = n'\<lparr>nd_keys := ks, nd_audit := es\<rparr>" by blast
    show ?thesis unfolding replayed(5) unaffected_def audit_def n2 by simp
  next
    case (accepted n2)
    with seen [OF accepted(2)] assms(4,9) show ?thesis by simp
  qed simp
qed

section \<open>A concrete node\<close>

text \<open>
  An environment for concrete runs: one echo agent per node, a signature that is a prefix of key,
  message and padding, a clock that advances by a second per reading.
\<close>

definition pad_to :: "nat \<Rightarrow> bytes \<Rightarrow> bytes" where
  "pad_to n b = take n (b @ replicate n 0)"

lemma length_pad_to [simp]: "length (pad_to n b) = n"
  by (simp add: pad_to_def)

definition example_crypto :: "bytes crypto_lib" where
  "example_crypto = \<lparr>public_key_of = pad_to 32, sign_with = (\<lambda>k m. pad_to 64 (pad_to 32 k @ m)),
     sig_ok = (\<lambda>pk m s. s = pad_to 64 (pk @ m)), sha256_hex = map (\<lambda>b. char_of (unat b))\<rparr>"

definition example_env :: "(unit native_runtime, bytes) node_env" where
  "example_env = \<lparr>ne_vt = native_vtable echo_agent, ne_crypto = example_crypto,
     ne_engine = (\<lambda>_ _. Inr (native_new ())), ne_now = (\<lambda>i. 1000 * of_nat i), ne_nonce = (\<lambda>i. pad_to 16 [of_nat i]),
     ne_resolve = (\<lambda>_ _ _. None), ne_fetch = (\<lambda>_ _ _. None), ne_manifest_of_json = (\<lambda>_. None),
     ne_manifest_to_json = (\<lambda>_. []), ne_payload_of_json = (\<lambda>_. None), ne_payload_to_json = (\<lambda>_. []),
     ne_body_handoff = (\<lambda>_. None), ne_body_epoch = (\<lambda>_. None), ne_body_address = (\<lambda>_. None),
     ne_bind_body = (\<lambda>_ _. []), ne_rebind_body = (\<lambda>_ _ _ _. []), ne_locate_body = (\<lambda>_. []),
     ne_inferred_body = (\<lambda>_ _. [])\<rparr>"

lemma example_crypto_laws: "crypto_laws example_crypto"
  by (simp add: crypto_laws_def example_crypto_def)

lemma example_env_simps [simp]:
  "ne_crypto example_env = example_crypto" "ne_body_handoff example_env b = None"
  by (simp_all add: example_env_def)

definition example_node :: "(unit native_runtime, bytes) node" where
  "example_node = node_new example_env ''u1'' ''echo'' ''h:1'' (native_new ()) [1]"

definition message_signed_by :: "bytes \<Rightarrow> bytes \<Rightarrow> node_msg" where
  "message_signed_by k nonce =
     (let m = \<lparr>nm_to = ''u1'', nm_from = ''x'', nm_from_addr = ''h:2'', nm_unl = [1], nm_body = [], nm_nonce = nonce,
               nm_sig = [], nm_sender_pub = pad_to 32 k\<rparr>
      in m\<lparr>nm_sig := sign_with example_crypto k (msg_signing_bytes m)\<rparr>)"

lemma message_signed_by_simps [simp]:
  "nm_from (message_signed_by k b) = ''x''" "nm_nonce (message_signed_by k b) = b"
  "nm_sender_pub (message_signed_by k b) = pad_to 32 k"
  by (simp_all add: message_signed_by_def Let_def)

lemma message_signed_by_admitted: "wire_admit example_env (message_signed_by k b)"
proof -
  have "length (nm_sig (message_signed_by k b)) = 64" "length (pad_to 32 k) = 32"
    by (simp_all add: message_signed_by_def example_crypto_def Let_def)
  moreover have "sig_ok example_crypto (pad_to 32 k) (msg_signing_bytes (message_signed_by k b)) (nm_sig (message_signed_by k b))"
    by (simp add: message_signed_by_def example_crypto_def signing_bytes_defs)
  moreover have "\<not> is_reserved_sender ''x''" by (simp add: is_reserved_sender_def reserved_senders_def)
  ultimately show ?thesis by (simp add: wire_admit_def)
qed

theorem pinned_sender_authentic_witness:
  "unaffected (node_run example_env [TimersDue] (example_node\<lparr>nd_keys := [(''x'', pad_to 32 [1])]\<rparr>))
     (accept_wire example_env (message_signed_by [2] [9])
       (node_run example_env [TimersDue] (example_node\<lparr>nd_keys := [(''x'', pad_to 32 [1])]\<rparr>)))"
  by (rule conjunct2, rule pinned_sender_authentic [where x = "''x''" and pk = "pad_to 32 [1]"])
    (simp_all add: shows_handoff_def pad_to_def)

theorem replay_refused_witness:
  "\<exists>n'. n' = node_run example_env [WireMsg (message_signed_by [1] [8])]
          (accept_wire example_env (message_signed_by [1] [7]) example_node)
     \<and> unaffected (n'\<lparr>nd_keys := nd_keys (accept_wire example_env (message_signed_by [1] [7]) n')\<rparr>)
         (accept_wire example_env (message_signed_by [1] [7]) n')"
proof -
  have n: "example_node = node_run example_env [] (node_new example_env ''u1'' ''echo'' ''h:1'' (native_new ()) [1])"
    by (simp add: node_run_def example_node_def)
  have auth: "fst (authorize_sender example_env (message_signed_by [1] [7]) example_node)"
    by (simp add: authorize_sender_def example_node_def node_new_view Let_def)
  have fresh: "(nm_from (message_signed_by [1] [7]), nm_nonce (message_signed_by [1] [7])) \<notin> nd_nonce_seen example_node"
    by (simp add: example_node_def node_new_view)
  show ?thesis
    using replay_refused [OF n message_signed_by_admitted auth _ fresh refl, of "[WireMsg (message_signed_by [1] [8])]"
        "message_signed_by [1] [7]"]
    by simp
qed

text \<open>
  What trust on first use does not give: an agent that moved from a first node to a second and on to
  a third cannot come back to the second. The second node pinned the key of the first when the agent
  arrived there, and a payload that the third node signed does not match it.
\<close>

lemma roundabout_migration_refused:
  assumes "hm_get (nd_keys n) (sn_uuid (mp_snapshot mp)) = Some pk" and "sn_origin_pub (mp_snapshot mp) \<noteq> pk"
  shows "fst (migrate_checks E mp n) = None"
  using assms by (simp add: migrate_checks_def Let_def)

end
