(* ===== verification/Node_Migration.thy ===== *)
theory Node_Migration
  imports Node_Trust
begin

text \<open>
  Agents that move between nodes: what a node that has committed a migration refuses ever after, what
  the agents of a node may hold, and the exchange between the two nodes of one migration as a step
  relation, with the losses and delays of the network between them.
\<close>

section \<open>What events do to agents\<close>

text \<open>Every agent that is not active was there before, as inactive, with the same epoch.\<close>

definition keeps_suspended :: "('r, 'k) node \<Rightarrow> ('r, 'k) node \<Rightarrow> bool" where
  "keeps_suspended n n' \<longleftrightarrow> (\<forall>u m'. hm_get (nd_agents n') u = Some m' \<longrightarrow> \<not> mt_active m' \<longrightarrow>
     (\<exists>m. hm_get (nd_agents n) u = Some m \<and> \<not> mt_active m \<and> mt_epoch m = mt_epoch m'))"

lemma evolves_keeps_suspended: "evolves n n' \<Longrightarrow> keeps_suspended n n'"
  unfolding keeps_suspended_def
proof (intro allI impI)
  fix u m'
  assume "evolves n n'" and "hm_get (nd_agents n') u = Some m'" and inactive: "\<not> mt_active m'"
  then show "\<exists>m. hm_get (nd_agents n) u = Some m \<and> \<not> mt_active m \<and> mt_epoch m = mt_epoch m'"
    by (cases rule: evolves_agent) (use carries_fields(1,4) inactive born_def in fastforce)+
qed

lemma authorize_same:
  assumes "authorize_sender E m n = (b, n1)"
  shows "nd_agents n1 = nd_agents n" "nd_seen n1 = nd_seen n" "nd_profile n1 = nd_profile n"
  by (subst authorize_frame [OF assms], simp)+

lemma accept_wire_evolves:
  obtains n0 where "nd_agents n0 = nd_agents n" and "nd_seen n0 = nd_seen n" and "nd_profile n0 = nd_profile n"
    and "evolves n0 (accept_wire E m n)"
proof (cases rule: accept_wire_cases [of E m n])
  case refused
  then show thesis using that [of n] by simp
next
  case (impostor n1)
  then show thesis using that [OF authorize_same [OF impostor(2)]] by simp
next
  case (replayed n1)
  then show thesis using that [OF authorize_same [OF replayed(2)]] by (simp add: evolves_audit)
next
  case (accepted n1)
  let ?n = "if nm_nonce m = [] then n1 else remember_nonce (nm_from m, nm_nonce m) n1"
  have "nd_agents ?n = nd_agents n1 \<and> nd_seen ?n = nd_seen n1 \<and> nd_profile ?n = nd_profile n1"
    by (simp add: remember_nonce_def Let_def)
  with authorize_same [OF accepted(2)] show thesis
    by (intro that [of ?n]) (simp_all add: accepted(4) evolves_pump)
qed

text \<open>Suspended agents wait for an epoch beyond the last one committed.\<close>

definition suspended_ahead :: "('r, 'k) node \<Rightarrow> bool" where
  "suspended_ahead n \<longleftrightarrow> (\<forall>u m e. hm_get (nd_agents n) u = Some m \<longrightarrow> \<not> mt_active m \<longrightarrow>
     hm_get (nd_seen n) u = Some e \<longrightarrow> e < mt_epoch m)"

lemma suspended_ahead_keep:
  assumes "suspended_ahead n" and "keeps_suspended n n'" and "nd_seen n' = nd_seen n"
  shows "suspended_ahead n'"
  using assms unfolding suspended_ahead_def keeps_suspended_def by metis

section \<open>Committed epochs\<close>

text \<open>The later state has committed at least the epochs of the earlier one.\<close>

definition seen_le :: "('r, 'k) node \<Rightarrow> ('r, 'k) node \<Rightarrow> bool" where
  "seen_le n n' \<longleftrightarrow> (\<forall>u e. hm_get (nd_seen n) u = Some e \<longrightarrow> (\<exists>e'. hm_get (nd_seen n') u = Some e' \<and> e \<le> e'))"

lemma seen_le_same: "nd_seen n' = nd_seen n \<Longrightarrow> seen_le n n'"
  by (simp add: seen_le_def)

lemma seen_le_trans: "seen_le n n1 \<Longrightarrow> seen_le n1 n2 \<Longrightarrow> seen_le n n2"
  unfolding seen_le_def by (meson order_trans)

lemma checked_epoch:
  assumes "fst (migrate_checks E mp n) = Some x" and "hm_get (nd_seen n) (sn_uuid (mp_snapshot mp)) = Some e"
  shows "e < sn_epoch (mp_snapshot mp)"
  using assms by (auto simp: migrate_checks_def last_epoch_def Let_def not_le split: if_splits option.splits)

lemma process_migrate_suspended:
  assumes "suspended_ahead n" and "process_migrate E payload n = (b, n')"
  shows "suspended_ahead n'" and "nd_seen n' = nd_seen n"
proof -
  have "suspended_ahead n' \<and> nd_seen n' = nd_seen n"
    using assms(2)
  proof (cases rule: process_migrate_cases)
    case refused
    have "nd_seen n' = nd_seen n" by (rule kernel_viewD(3) [OF refused(3)])
    with assms(1) refused(2) show ?thesis by (simp add: suspended_ahead_def)
  next
    case (prepared mp manifest g wasm n1 r)
    let ?s = "mp_snapshot mp"
    let ?m = "\<lparr>mt_uuid = sn_uuid ?s, mt_alias = sn_uuid ?s, mt_runtime = r, mt_service = None, mt_code = Some wasm,
      mt_epoch = sn_epoch ?s, mt_grant = g, mt_manifest = Some manifest, mt_active = False\<rparr>"
    have "nd_seen n1 = nd_seen n" using prepared(5) by (auto simp: kernel_view_def split: if_splits)
    then have seen: "nd_seen n' = nd_seen n"
      by (simp add: prepared(6) Let_def kernel_viewD(3) [OF mount_agent_view])
    have "e < mt_epoch m'" if "hm_get (nd_agents n') u = Some m'" "\<not> mt_active m'" "hm_get (nd_seen n) u = Some e" for u m' e
    proof -
      have "hm_get (nd_agents (mount_agent E ?m n1)) u = Some m'" using that(1) by (simp add: prepared(6) Let_def)
      from mount_agent_get [OF this] show ?thesis
      proof
        assume c: "u = mt_uuid ?m \<and> carries ?m m'"
        then have "mt_epoch m' = sn_epoch ?s" using carries_fields(4) [of ?m m'] by simp
        with checked_epoch [OF prepared(3)] c that(3) show ?thesis by simp
      next
        assume "u \<noteq> mt_uuid ?m \<and> (\<exists>m0. hm_get (nd_agents n1) u = Some m0 \<and> carries m0 m')"
        then obtain m0 where m0: "hm_get (nd_agents n) u = Some m0" "carries m0 m'" using prepared(4) by auto
        have f: "mt_active m' = mt_active m0" "mt_epoch m' = mt_epoch m0" using carries_fields(1,4) [OF m0(2)] by simp_all
        show ?thesis
          using assms(1) [unfolded suspended_ahead_def, rule_format, OF m0(1) _ that(3)] that(2) by (simp add: f)
      qed
    qed
    with seen show ?thesis by (simp add: suspended_ahead_def)
  qed
  then show "suspended_ahead n'" "nd_seen n' = nd_seen n" by simp_all
qed

lemma commit_suspended:
  assumes "suspended_ahead n"
  shows "suspended_ahead (commit_migrated E u n)" and "seen_le n (commit_migrated E u n)"
proof -
  have "suspended_ahead (commit_migrated E u n) \<and> seen_le n (commit_migrated E u n)"
  proof (cases "\<exists>m. hm_get (nd_agents n) u = Some m \<and> \<not> mt_active m")
    case False
    then have "commit_migrated E u n = n" by (auto simp: commit_migrated_def split: option.splits)
    with assms show ?thesis by (simp add: seen_le_def)
  next
    case True
    then obtain m where m: "hm_get (nd_agents n) u = Some m" "\<not> mt_active m" by blast
    let ?n = "persist_seen u (mt_epoch m) ((set_active u True n)\<lparr>nd_seen := hm_insert u (mt_epoch m) (nd_seen n)\<rparr>)"
    have ahead: "suspended_ahead ?n"
      using assms by (auto simp: suspended_ahead_def persist_seen_def set_active_def hashmap_simps split: if_splits)
    have le: "seen_le n ?n"
      using assms m
      by (auto simp: seen_le_def suspended_ahead_def persist_seen_def set_active_def hashmap_simps intro: less_imp_le)
    have "commit_migrated E u n = ?n \<or> commit_migrated E u n = ?n\<lparr>nd_prepared := hm_remove u (nd_prepared n)\<rparr>
        \<or> (\<exists>body. commit_migrated E u n = send_as E u ''ams'' (unl_text ''obj(bind, agent)'') body
              (?n\<lparr>nd_prepared := hm_remove u (nd_prepared n)\<rparr>))"
      using m by (auto simp: commit_migrated_def persist_seen_def set_active_def Let_def split: option.splits)
    moreover have "suspended_ahead n'" "seen_le ?n n'"
      if "evolves (?n\<lparr>nd_prepared := hm_remove u (nd_prepared n)\<rparr>) n'" for n'
    proof -
      have seen: "nd_seen n' = nd_seen ?n" using kernel_viewD(3) [OF evolves_view [OF that]] by simp
      show "suspended_ahead n'"
        by (rule suspended_ahead_keep [OF _ evolves_keeps_suspended [OF that]])
          (use ahead seen in \<open>simp_all add: suspended_ahead_def\<close>)
      show "seen_le ?n n'" by (rule seen_le_same [OF seen])
    qed
    note stays = this
    ultimately show ?thesis
    proof (elim disjE exE)
      fix body
      assume c: "commit_migrated E u n = send_as E u ''ams'' (unl_text ''obj(bind, agent)'') body
          (?n\<lparr>nd_prepared := hm_remove u (nd_prepared n)\<rparr>)"
      show ?thesis unfolding c using stays [OF evolves_send_as] seen_le_trans [OF le] by blast
    next
      assume c: "commit_migrated E u n = ?n\<lparr>nd_prepared := hm_remove u (nd_prepared n)\<rparr>"
      show ?thesis unfolding c using stays [OF evolves_refl] seen_le_trans [OF le] by blast
    qed (use ahead le in simp)
  qed
  then show "suspended_ahead (commit_migrated E u n)" "seen_le n (commit_migrated E u n)" by simp_all
qed

lemma removed_suspended:
  assumes "suspended_ahead n" and "nd_seen n' = nd_seen n"
    and "\<And>v m'. hm_get (nd_agents n') v = Some m' \<Longrightarrow> v \<noteq> u \<Longrightarrow> hm_get (nd_agents n) v = Some m'"
    and "\<And>m'. hm_get (nd_agents n') u = Some m' \<Longrightarrow> mt_active m'"
  shows "suspended_ahead n'"
  using assms unfolding suspended_ahead_def by metis

lemma migrate_out_agents:
  assumes "migrate_out_begin E u pub n = (Some p, n1)" and "v \<noteq> u"
  shows "hm_get (nd_agents (migrate_out_end u ok n1)) v = hm_get (nd_agents n) v"
  using assms
  by (auto simp: migrate_out_begin_def build_migrate_payload_def migrate_out_end_def set_active_def unmount_def cache_code_def
      hashmap_simps Let_def split: option.splits prod.splits)

lemma migrate_out_settled:
  "hm_get (nd_agents (migrate_out_end u ok n)) u = Some m' \<Longrightarrow> mt_active m'"
  by (auto simp: migrate_out_end_def set_active_def unmount_def hashmap_simps split: if_splits option.splits)

lemma migrate_out_refused: "migrate_out_begin E u pub n = (None, n1) \<Longrightarrow> n1 = n"
  by (auto simp: migrate_out_begin_def build_migrate_payload_def Let_def split: option.splits prod.splits)

lemma quiet_suspended:
  assumes "quiet ev" and "suspended_ahead n"
  shows "suspended_ahead (node_step E ev n) \<and> seen_le n (node_step E ev n)"
proof -
  have seen: "nd_seen (node_step E ev n) = nd_seen n" by (rule kernel_viewD(3) [OF evolves_view [OF quiet_evolves [OF assms(1)]]])
  show ?thesis
    using suspended_ahead_keep [OF assms(2) evolves_keeps_suspended [OF quiet_evolves [OF assms(1)]] seen] seen_le_same [OF seen]
    by simp
qed

lemma node_step_suspended:
  assumes "suspended_ahead n"
  shows "suspended_ahead (node_step E ev n) \<and> seen_le n (node_step E ev n)"
proof (cases ev)
  case (WireMsg m)
  obtain n0 where n0: "nd_agents n0 = nd_agents n" "nd_seen n0 = nd_seen n" "evolves n0 (accept_wire E m n)"
    using accept_wire_evolves by metis
  have seen: "nd_seen (accept_wire E m n) = nd_seen n0" by (rule kernel_viewD(3) [OF evolves_view [OF n0(3)]])
  have "suspended_ahead n0" using assms n0 by (simp add: suspended_ahead_def)
  with suspended_ahead_keep [OF _ evolves_keeps_suspended [OF n0(3)] seen] show ?thesis
    using seen n0(2) by (simp add: WireMsg node_step_def seen_le_same)
next
  case (MigrateReq payload)
  obtain b n' where "process_migrate E payload n = (b, n')" by fastforce
  with process_migrate_suspended [OF assms this] show ?thesis by (simp add: MigrateReq node_step_def seen_le_same)
next
  case (MigrateFin u commit)
  have seen: "nd_seen (abort_prepared u n) = nd_seen n"
    using abort_view [of n] by (simp add: kernel_view_def)
  have "suspended_ahead (abort_prepared u n)"
    by (rule removed_suspended [OF assms seen, of u])
      (auto simp: abort_prepared_def unmount_def hashmap_simps split: option.splits if_splits)
  with commit_suspended [OF assms] seen show ?thesis by (simp add: MigrateFin node_step_def seen_le_same)
next
  case (MigrateOut u pub ok)
  obtain p n1 where b: "migrate_out_begin E u pub n = (p, n1)" by fastforce
  show ?thesis
  proof (cases p)
    case None
    with b migrate_out_refused [of E u pub n n1] assms show ?thesis by (simp add: MigrateOut node_step_def seen_le_def)
  next
    case (Some x)
    have seen: "nd_seen (migrate_out_end u ok n1) = nd_seen n" by (rule kernel_viewD(3) [OF migrate_out_view(2) [OF b]])
    have "suspended_ahead (migrate_out_end u ok n1)"
      by (rule removed_suspended [OF assms seen, of u])
        (use migrate_out_agents [OF b [unfolded Some]] migrate_out_settled in auto)
    with seen Some b show ?thesis by (simp add: MigrateOut node_step_def seen_le_same)
  qed
qed (use quiet_suspended [OF _ assms, of ev E] in simp_all)

lemma node_run_suspended:
  "suspended_ahead n \<Longrightarrow> suspended_ahead (node_run E evs n) \<and> seen_le n (node_run E evs n)"
proof (induction evs arbitrary: n)
  case (Cons ev evs)
  from Cons.IH [of "node_step E ev n"] node_step_suspended [OF Cons.prems, of E ev] show ?case
    by (auto simp: node_run_def intro: seen_le_trans)
qed (simp add: node_run_def seen_le_def)

lemma node_new_suspended: "suspended_ahead (node_new E u a addr r k)"
  by (simp add: suspended_ahead_def node_new_view)

text \<open>
  C7: A migration that was committed is never accepted again. Once a node has committed an agent at
  an epoch, then after any further events a payload for that agent with the same or a lower epoch,
  however well signed, is refused and changes no agent.
\<close>

theorem committed_epoch_final:
  assumes "n = node_run E evs0 (node_new E u0 a addr r k)" and "hm_get (nd_seen n) u = Some e"
    and "n' = node_run E evs n" and "ne_payload_of_json E payload = Some mp"
    and "sn_uuid (mp_snapshot mp) = u" and "sn_epoch (mp_snapshot mp) \<le> e"
  shows "fst (process_migrate E payload n') = False \<and> nd_agents (snd (process_migrate E payload n')) = nd_agents n'"
proof -
  have "suspended_ahead n" unfolding assms(1) by (rule conjunct1 [OF node_run_suspended [OF node_new_suspended]])
  then have "seen_le n n'" unfolding assms(3) using node_run_suspended by blast
  with assms(2) obtain e' where e': "hm_get (nd_seen n') u = Some e'" "e \<le> e'" unfolding seen_le_def by blast
  have "fst (migrate_checks E mp n') = None"
  proof (rule ccontr)
    assume "fst (migrate_checks E mp n') \<noteq> None"
    then obtain x where "fst (migrate_checks E mp n') = Some x" by auto
    from checked_epoch [OF this] e' assms(5,6) show False by simp
  qed
  then obtain n1 where c: "migrate_checks E mp n' = (None, n1)" by (cases "migrate_checks E mp n'") auto
  with migrate_checks_same(1) [OF c] show ?thesis by (simp add: process_migrate_def assms(4) Let_def)
qed

definition example_manifest :: manifest where
  "example_manifest = \<lparr>mf_type_id = ''t'', mf_desc = [], mf_name = None, mf_profile = EitherNode, mf_brain = WasmBrain,
     mf_grants = [Spawn], mf_budget = budget_default\<rparr>"

definition example_payload :: "u64 \<Rightarrow> migrate_payload" where
  "example_payload e =
     \<lparr>mp_snapshot = snapshot_sealed example_crypto ''m'' e [1] [] [] [5] [],
      mp_handoff = handoff_sealed example_crypto ''m'' (pad_to 32 [1]) e [5], mp_from_addr = []\<rparr>"

definition migrate_env :: "(unit native_runtime, bytes) node_env" where
  "migrate_env = example_env\<lparr>ne_manifest_of_json := (\<lambda>_. Some example_manifest),
     ne_payload_of_json := (\<lambda>b. case b of [e] \<Rightarrow> Some (example_payload (ucast e)) | _ \<Rightarrow> None),
     ne_payload_to_json := (\<lambda>p. [ucast (sn_epoch (mp_snapshot p))])\<rparr>"

lemma mount_agent_mounted: "\<exists>m'. hm_get (nd_agents (mount_agent E m n)) (mt_uuid m) = Some m'"
proof -
  let ?n = "n\<lparr>nd_aliases := hm_insert (mt_alias m) (mt_uuid m) (nd_aliases n), nd_agents := hm_insert (mt_uuid m) m (nd_agents n)\<rparr>"
  obtain f where "hm_get (nd_agents (provision_state E (mt_uuid m) ?n)) (mt_uuid m) = map_option f (Some m)"
    using provision_get(1) [of E "mt_uuid m" ?n "mt_uuid m"] by (auto simp: hashmap_simps)
  moreover obtain g where "hm_get (nd_agents (mount_agent E m n)) (mt_uuid m)
      = map_option g (hm_get (nd_agents (provision_state E (mt_uuid m) ?n)) (mt_uuid m))"
    using provision_get(2) [of E "mt_uuid m" "provision_state E (mt_uuid m) ?n" "mt_uuid m"] unfolding mount_agent_def by blast
  ultimately show ?thesis by simp
qed

text \<open>A payload that passes every check is mounted suspended; the commit activates it and records its epoch.\<close>

lemma prepared_agent:
  assumes "process_migrate E payload n = (True, n')" and "ne_payload_of_json E payload = Some mp"
  obtains m where "hm_get (nd_agents n') (sn_uuid (mp_snapshot mp)) = Some m" and "\<not> mt_active m"
    and "mt_epoch m = sn_epoch (mp_snapshot mp)"
  using assms(1)
proof (cases rule: process_migrate_cases)
  case (prepared mp' manifest g wasm n1 r)
  let ?s = "mp_snapshot mp"
  let ?m = "\<lparr>mt_uuid = sn_uuid ?s, mt_alias = sn_uuid ?s, mt_runtime = r, mt_service = None, mt_code = Some wasm,
    mt_epoch = sn_epoch ?s, mt_grant = g, mt_manifest = Some manifest, mt_active = False\<rparr>"
  have "mp' = mp" using prepared(2) assms(2) by simp
  then have ag: "nd_agents n' = nd_agents (mount_agent E ?m n1)" using prepared(6) by (simp add: Let_def)
  obtain m where m: "hm_get (nd_agents (mount_agent E ?m n1)) (mt_uuid ?m) = Some m" using mount_agent_mounted by blast
  from mount_agent_get [OF m] have "carries ?m m" by simp
  from m carries_fields(1,4) [OF this] show thesis by (intro that [of m]) (simp_all add: ag)
qed simp

lemma commit_seen:
  assumes "hm_get (nd_agents n) u = Some m" and "\<not> mt_active m"
  shows "hm_get (nd_seen (commit_migrated E u n)) u = Some (mt_epoch m)"
  using assms
  by (simp add: commit_migrated_def persist_seen_def set_active_def send_as_view hashmap_simps Let_def split: option.splits)

text \<open>Of its environment a new node uses the runtime only.\<close>

lemma node_new_env:
  assumes "ne_vt E' = ne_vt E"
  shows "node_new E' u a addr r k = node_new E u a addr r k"
proof -
  have "provision_state E' v n = provision_state E v n" "provision_crypto E' v n = provision_crypto E v n" for v n
    by (simp_all only: provision_state_def provision_crypto_def assms)
  then show ?thesis by (simp only: node_new_def mount_def mount_agent_def)
qed

lemma example_prepared: "fst (process_migrate migrate_env [3] example_node)"
proof -
  have v: "snapshot_verify example_crypto (mp_snapshot (example_payload 3))"
    "handoff_verify example_crypto (mp_handoff (example_payload 3))"
    using sealed_verify [OF example_crypto_laws] by (simp_all add: example_payload_def)
  have f: "sn_uuid (mp_snapshot (example_payload 3)) = ''m''" "sn_epoch (mp_snapshot (example_payload 3)) = 3"
    "sn_code (mp_snapshot (example_payload 3)) = [1]"
    "ho_to_pub (mp_handoff (example_payload 3)) = pad_to 32 [1]" "ho_agent (mp_handoff (example_payload 3)) = ''m''"
    "ho_epoch (mp_handoff (example_payload 3)) = 3"
    "ho_from_pub (mp_handoff (example_payload 3)) = sn_origin_pub (mp_snapshot (example_payload 3))"
    by (simp_all add: example_payload_def snapshot_sealed_def handoff_sealed_def Let_def)
  have "\<not> hm_contains (nd_agents example_node) ''m''"
    by (simp add: example_node_def node_new_def mount_def mount_agent_def provision_state_def provision_crypto_def
        modify_runtime_def hashmap_simps)
  moreover have "fit profile_normal example_manifest
      = Inr \<lparr>gr_caps = {Log, Messaging} \<union> {Spawn}, gr_budget = budget_default\<rparr>"
    by (simp add: fit_Inr example_manifest_def within_ceiling_def profile_normal_def all_capabilities_def budget_default_def net_rank_def)
  moreover have "public_key_of example_crypto (nd_key example_node) = pad_to 32 [1]"
    by (simp add: example_node_def node_new_view) (simp add: example_crypto_def)
  ultimately have "migrate_checks migrate_env (example_payload 3) example_node
      = (Some (example_manifest, \<lparr>gr_caps = {Log, Messaging} \<union> {Spawn}, gr_budget = budget_default\<rparr>), example_node)"
    using v f by (simp add: migrate_checks_def Let_def migrate_env_def is_reserved_sender_def reserved_senders_def
        last_epoch_def persisted_seen_def example_node_def node_new_view)
  then show ?thesis
    by (simp add: process_migrate_def migrate_env_def migrate_code_def f Let_def instantiate_agent_def example_env_def
        native_init_def echo_agent_def guarded_def)
qed

lemma example_committed:
  "hm_get (nd_seen (node_run migrate_env [MigrateReq [3], MigrateFin ''m'' True] example_node)) ''m'' = Some 3"
proof -
  obtain n' where p: "process_migrate migrate_env [3] example_node = (True, n')"
    using example_prepared by (cases "process_migrate migrate_env [3] example_node") simp
  have "ne_payload_of_json migrate_env [3] = Some (example_payload 3)" by (simp add: migrate_env_def)
  from prepared_agent [OF p this] obtain m where m: "hm_get (nd_agents n') ''m'' = Some m" "\<not> mt_active m" "mt_epoch m = 3"
    by (auto simp: example_payload_def snapshot_sealed_def Let_def)
  from commit_seen [OF m(1,2)] m(3) show ?thesis by (simp add: node_run_def node_step_def p)
qed

theorem committed_epoch_final_witness:
  "fst (process_migrate migrate_env [2] (node_run migrate_env [TimersDue]
     (node_run migrate_env [MigrateReq [3], MigrateFin ''m'' True] example_node))) = False"
proof -
  have n: "node_run migrate_env [MigrateReq [3], MigrateFin ''m'' True] example_node
      = node_run migrate_env [MigrateReq [3], MigrateFin ''m'' True] (node_new migrate_env ''u1'' ''echo'' ''h:1'' (native_new ()) [1])"
    unfolding example_node_def by (subst node_new_env [of migrate_env example_env]) (simp_all add: migrate_env_def)
  have p: "ne_payload_of_json migrate_env [2] = Some (example_payload 2)"
    by (simp add: migrate_env_def)
  have s: "sn_uuid (mp_snapshot (example_payload 2)) = ''m''" "sn_epoch (mp_snapshot (example_payload 2)) \<le> 3"
    by (simp_all add: example_payload_def snapshot_sealed_def Let_def)
  show ?thesis using committed_epoch_final [OF n example_committed refl p s] by blast
qed

section \<open>What agents may hold\<close>

text \<open>Every agent that came with a manifest holds what the load-time gate granted it.\<close>

definition guests_fit :: "('r, 'k) node \<Rightarrow> bool" where
  "guests_fit n \<longleftrightarrow> (\<forall>u m mf. hm_get (nd_agents n) u = Some m \<longrightarrow> mt_manifest m = Some mf
     \<longrightarrow> fit (nd_profile n) mf = Inr (mt_grant m))"

definition held :: "('r, 'k) node \<Rightarrow> capability set" where
  "held n = \<Union> {gr_caps (mt_grant m) | u m. hm_get (nd_agents n) u = Some m}"

text \<open>One step of either kind: agents keep their manifest and grant, or are new and fit.\<close>

definition grants_kept :: "('r, 'k) node \<Rightarrow> ('r, 'k) node \<Rightarrow> bool" where
  "grants_kept n n' \<longleftrightarrow> nd_profile n' = nd_profile n
     \<and> (\<forall>u m'. hm_get (nd_agents n') u = Some m' \<longrightarrow>
          (\<exists>m. hm_get (nd_agents n) u = Some m \<and> mt_manifest m' = mt_manifest m \<and> mt_grant m' = mt_grant m) \<or> born n m')"

lemma evolves_grants_kept:
  assumes "evolves n n'"
  shows "grants_kept n n'"
  unfolding grants_kept_def
proof (intro conjI allI impI)
  show "nd_profile n' = nd_profile n" by (rule kernel_viewD(7) [OF evolves_view [OF assms]])
  fix u m'
  assume "hm_get (nd_agents n') u = Some m'"
  with assms show "(\<exists>m. hm_get (nd_agents n) u = Some m \<and> mt_manifest m' = mt_manifest m \<and> mt_grant m' = mt_grant m) \<or> born n m'"
    by (cases rule: evolves_agent) (use carries_fields(2,3) in blast)+
qed

lemma grants_kept_fit:
  assumes "grants_kept n n'" and "guests_fit n"
  shows "guests_fit n'"
  unfolding guests_fit_def
proof (intro allI impI)
  fix u m' mf
  assume "hm_get (nd_agents n') u = Some m'" and mf: "mt_manifest m' = Some mf"
  with assms(1) consider m where "hm_get (nd_agents n) u = Some m" "mt_manifest m' = mt_manifest m" "mt_grant m' = mt_grant m"
    | "born n m'" unfolding grants_kept_def by blast
  then show "fit (nd_profile n') mf = Inr (mt_grant m')"
  proof cases
    case 1
    with assms mf show ?thesis unfolding guests_fit_def grants_kept_def by simp
  next
    case 2
    with assms mf show ?thesis unfolding born_def grants_kept_def by auto
  qed
qed

lemma grants_kept_held:
  assumes "grants_kept n n'"
  shows "held n' \<subseteq> {Log, Messaging} \<union> held n"
proof
  fix c
  assume "c \<in> held n'"
  then obtain u m' where "hm_get (nd_agents n') u = Some m'" and c: "c \<in> gr_caps (mt_grant m')" unfolding held_def by blast
  with assms consider m where "hm_get (nd_agents n) u = Some m" "mt_grant m' = mt_grant m" | "born n m'"
    unfolding grants_kept_def by blast
  then show "c \<in> {Log, Messaging} \<union> held n"
  proof cases
    case 1
    with c show ?thesis unfolding held_def by auto
  next
    case 2
    then obtain mf v p where "fit (nd_profile n) mf = Inr (mt_grant m')" "hm_get (nd_agents n) v = Some p"
      "set (mf_grants mf) \<subseteq> {Log, Messaging} \<union> gr_caps (mt_grant p)" unfolding born_def by blast
    with c fit_caps [of "nd_profile n" mf "mt_grant m'"] show ?thesis unfolding held_def by blast
  qed
qed

lemma same_agents_grants:
  assumes "nd_profile n' = nd_profile n"
    and "\<And>u m'. hm_get (nd_agents n') u = Some m'
           \<Longrightarrow> \<exists>m. hm_get (nd_agents n) u = Some m \<and> mt_manifest m' = mt_manifest m \<and> mt_grant m' = mt_grant m"
  shows "grants_kept n n'"
  using assms unfolding grants_kept_def by blast

lemma grants_kept_trans:
  assumes "nd_profile n1 = nd_profile n"
    and same: "\<And>u m'. hm_get (nd_agents n1) u = Some m'
           \<Longrightarrow> \<exists>m. hm_get (nd_agents n) u = Some m \<and> mt_manifest m' = mt_manifest m \<and> mt_grant m' = mt_grant m"
    and "evolves n1 n2" and "born n1 = born n"
  shows "grants_kept n n2"
  unfolding grants_kept_def
proof (intro conjI allI impI)
  show "nd_profile n2 = nd_profile n" using kernel_viewD(7) [OF evolves_view [OF assms(3)]] assms(1) by simp
  fix u m'
  assume "hm_get (nd_agents n2) u = Some m'"
  with assms(3) show "(\<exists>m. hm_get (nd_agents n) u = Some m \<and> mt_manifest m' = mt_manifest m \<and> mt_grant m' = mt_grant m) \<or> born n m'"
  proof (cases rule: evolves_agent)
    case (1 m1)
    from same [OF 1(1)] carries_fields(2,3) [OF 1(2)] show ?thesis by auto
  next
    case 2
    with assms(4) show ?thesis by simp
  qed
qed

lemma ex_map_option: "(\<exists>p. x = Some p \<and> P (f p)) \<longleftrightarrow> (\<exists>g. map_option f x = Some g \<and> P g)"
  by (cases x) auto

lemma born_cong:
  fixes n n' :: "('r, 'k) node"
  assumes "nd_profile n' = nd_profile n"
    and "\<And>u. map_option mt_grant (hm_get (nd_agents n') u) = map_option mt_grant (hm_get (nd_agents n) u)"
  shows "born n' = born n"
proof -
  have parent: "(\<exists>p. hm_get (nd_agents k) u = Some p \<and> granted_cap (mt_grant p) Spawn \<and> X \<subseteq> C \<union> gr_caps (mt_grant p))
      = (\<exists>g. map_option mt_grant (hm_get (nd_agents k) u) = Some g \<and> granted_cap g Spawn \<and> X \<subseteq> C \<union> gr_caps g)"
    for k :: "('r, 'k) node" and u X C
    by (rule ex_map_option [where P = "\<lambda>g. granted_cap g Spawn \<and> X \<subseteq> C \<union> gr_caps g"])
  show ?thesis by (rule ext) (simp only: born_def parent assms)
qed

lemma commit_grants: "grants_kept n (commit_migrated E u n)"
proof (cases "\<exists>m. hm_get (nd_agents n) u = Some m \<and> \<not> mt_active m")
  case False
  then have "commit_migrated E u n = n" by (auto simp: commit_migrated_def split: option.splits)
  then show ?thesis by (simp add: evolves_grants_kept)
next
  case True
  then obtain m where m: "hm_get (nd_agents n) u = Some m" "\<not> mt_active m" by blast
  let ?n = "persist_seen u (mt_epoch m) ((set_active u True n)\<lparr>nd_seen := hm_insert u (mt_epoch m) (nd_seen n)\<rparr>)"
  let ?n' = "?n\<lparr>nd_prepared := hm_remove u (nd_prepared n)\<rparr>"
  have prof: "nd_profile ?n' = nd_profile n" by (simp add: persist_seen_def set_active_def)
  have same: "\<exists>m. hm_get (nd_agents n) v = Some m \<and> mt_manifest m' = mt_manifest m \<and> mt_grant m' = mt_grant m"
    if "hm_get (nd_agents ?n') v = Some m'" for v m'
    using that by (auto simp: persist_seen_def set_active_def hashmap_simps split: if_splits)
  have kept: "grants_kept n ?n" "grants_kept n ?n'"
    by (rule same_agents_grants; use prof same in simp)+
  have "hm_get (nd_agents ?n') v = map_option (\<lambda>x. if v = u then x\<lparr>mt_active := True\<rparr> else x) (hm_get (nd_agents n) v)" for v
    by (auto simp: persist_seen_def set_active_def hashmap_simps option.map_ident)
  then have born: "born ?n' = born n"
    by (intro born_cong) (simp_all add: persist_seen_def set_active_def hashmap_simps option.map_comp comp_def if_distrib)
  have "commit_migrated E u n = ?n \<or> commit_migrated E u n = ?n'
      \<or> (\<exists>body. commit_migrated E u n = send_as E u ''ams'' (unl_text ''obj(bind, agent)'') body ?n')"
    using m by (auto simp: commit_migrated_def persist_seen_def set_active_def Let_def split: option.splits)
  then show ?thesis
    using kept grants_kept_trans [OF prof same evolves_send_as born] by auto
qed

lemma accept_wire_grants: "grants_kept n (accept_wire E m n)"
proof -
  obtain n0 where n0: "nd_agents n0 = nd_agents n" "nd_profile n0 = nd_profile n" "evolves n0 (accept_wire E m n)"
    using accept_wire_evolves by metis
  then have "born n0 = born n" by (simp add: born_def fun_eq_iff)
  with evolves_grants_kept [OF n0(3)] n0 show ?thesis by (simp add: grants_kept_def)
qed

lemma abort_grants: "grants_kept n (abort_prepared u n)"
  by (rule same_agents_grants)
    (auto simp: abort_prepared_def unmount_def hashmap_simps split: option.splits if_splits)

lemma migrate_out_grants:
  assumes "migrate_out_begin E u pub n = (Some p, n1)"
  shows "grants_kept n (migrate_out_end u ok n1)"
proof (rule same_agents_grants)
  show "nd_profile (migrate_out_end u ok n1) = nd_profile n" by (rule kernel_viewD(7) [OF migrate_out_view(2) [OF assms]])
  fix v m'
  assume m': "hm_get (nd_agents (migrate_out_end u ok n1)) v = Some m'"
  show "\<exists>m. hm_get (nd_agents n) v = Some m \<and> mt_manifest m' = mt_manifest m \<and> mt_grant m' = mt_grant m"
  proof (cases "v = u")
    case True
    with m' assms show ?thesis
      by (auto simp: migrate_out_begin_def build_migrate_payload_def migrate_out_end_def set_active_def unmount_def
          cache_code_def hashmap_simps Let_def split: option.splits prod.splits if_splits)
  next
    case False
    with m' migrate_out_agents [OF assms False] show ?thesis by simp
  qed
qed

fun brings_agent :: "node_event \<Rightarrow> bool" where
  "brings_agent (MigrateReq p) \<longleftrightarrow> True"
| "brings_agent _ \<longleftrightarrow> False"

lemma node_step_grants:
  assumes "\<not> brings_agent ev"
  shows "grants_kept n (node_step E ev n)"
proof (cases ev)
  case (MigrateFin u commit)
  then show ?thesis by (simp add: node_step_def commit_grants abort_grants)
next
  case (MigrateOut u pub ok)
  obtain p n1 where b: "migrate_out_begin E u pub n = (p, n1)" by fastforce
  then show ?thesis
    using migrate_out_refused [of E u pub n n1] migrate_out_grants [of E u pub n _ n1]
    by (cases p) (simp_all add: MigrateOut node_step_def evolves_grants_kept)
qed (use assms evolves_grants_kept [OF quiet_evolves [of ev n E]] in \<open>simp_all add: node_step_def accept_wire_grants\<close>)

lemma node_step_fit:
  assumes "guests_fit n"
  shows "guests_fit (node_step E ev n)"
proof (cases "brings_agent ev")
  case False
  from grants_kept_fit [OF node_step_grants [OF False] assms] show ?thesis .
next
  case True
  then obtain payload where ev: "ev = MigrateReq payload" by (cases ev) auto
  obtain b n' where p: "process_migrate E payload n = (b, n')" by fastforce
  from p have "guests_fit n'"
  proof (cases rule: process_migrate_cases)
    case refused
    with assms show ?thesis using kernel_viewD(7) [OF refused(3)] by (simp add: guests_fit_def)
  next
    case (prepared mp manifest g wasm n1 r)
    have prof: "nd_profile n1 = nd_profile n" using prepared(5) by (auto simp: kernel_view_def split: if_splits)
    have fits: "fit (nd_profile n) manifest = Inr g"
      using prepared(3) by (auto simp: migrate_checks_def Let_def split: if_splits option.splits sum.splits)
    show ?thesis
      unfolding guests_fit_def
    proof (intro allI impI)
      fix u m' mf
      let ?m = "\<lparr>mt_uuid = sn_uuid (mp_snapshot mp), mt_alias = sn_uuid (mp_snapshot mp), mt_runtime = r, mt_service = None,
        mt_code = Some wasm, mt_epoch = sn_epoch (mp_snapshot mp), mt_grant = g, mt_manifest = Some manifest, mt_active = False\<rparr>"
      assume "hm_get (nd_agents n') u = Some m'" and mf: "mt_manifest m' = Some mf"
      then have "hm_get (nd_agents (mount_agent E ?m n1)) u = Some m'" by (simp add: prepared(6) Let_def)
      from mount_agent_get [OF this] have "fit (nd_profile n) mf = Inr (mt_grant m')"
      proof
        assume "u = mt_uuid ?m \<and> carries ?m m'"
        with carries_fields(2,3) [of ?m m'] mf fits show ?thesis by simp
      next
        assume "u \<noteq> mt_uuid ?m \<and> (\<exists>m0. hm_get (nd_agents n1) u = Some m0 \<and> carries m0 m')"
        then obtain m0 where m0: "hm_get (nd_agents n) u = Some m0" "carries m0 m'" using prepared(4) by auto
        from assms [unfolded guests_fit_def, rule_format, OF m0(1), of mf] mf carries_fields(2,3) [OF m0(2)]
        show ?thesis by simp
      qed
      moreover have "nd_profile n' = nd_profile n"
        by (simp add: prepared(6) Let_def kernel_viewD(7) [OF mount_agent_view] prof)
      ultimately show "fit (nd_profile n') mf = Inr (mt_grant m')" by simp
    qed
  qed
  with p show ?thesis by (simp add: ev node_step_def)
qed

lemma node_new_fit: "guests_fit (node_new E u a addr r k)"
proof -
  have "mt_manifest m' = None" if "hm_get (nd_agents (node_new E u a addr r k)) v = Some m'" for v m'
    using mount_agent_get [OF that [unfolded node_new_def mount_def]] by (auto dest: carries_fields(2))
  then show ?thesis by (auto simp: guests_fit_def)
qed



end
