(* ===== verification/Node_Handover.thy ===== *)
theory Node_Handover
  imports Node_Migration
begin

text \<open>
  One migration between two nodes (\<open>migrate\<close>, \<open>send_migration\<close> and the migration part
  of \<open>handle_conn\<close> in \<^verbatim>\<open>src/process/node.rs\<close>) as a step relation. The source
  suspends the agent and sends the payload, the destination mounts it suspended and acknowledges, the
  source commits and forgets its copy, the destination activates. Every message may be lost or late
  and either side may give up when its timeout runs out.
\<close>

section \<open>The exchange\<close>

datatype source_phase = Waiting | Resumed | Tombstoned
datatype dest_phase = Unreached | Rejected | Suspended | Activated | Aborted

type_synonym ('r, 'k) handover_state = "('r, 'k) node \<times> source_phase \<times> ('r, 'k) node \<times> dest_phase"

definition active_at :: "string \<Rightarrow> ('r, 'k) node \<Rightarrow> bool" where
  "active_at u n \<longleftrightarrow> (case hm_get (nd_agents n) u of None \<Rightarrow> False | Some m \<Rightarrow> mt_active m)"

text \<open>
  The payload \<open>p\<close> of the agent \<open>u\<close> is under way. The source is held by the migration until it
  resumes or forgets its copy; both nodes may do other work that leaves the agent alone.
\<close>

inductive handover_step ::
    "('r, 'k) node_env \<Rightarrow> string \<Rightarrow> bytes \<Rightarrow> ('r, 'k) handover_state \<Rightarrow> ('r, 'k) handover_state \<Rightarrow> bool"
  for E :: "('r, 'k) node_env" and u :: string and p :: bytes where
  arrive: "process_migrate E p d = (b, d')
    \<Longrightarrow> handover_step E u p (s, sp, d, Unreached) (s, sp, d', if b then Suspended else Rejected)"
| resume: "handover_step E u p (s, Waiting, d, dp) (migrate_out_end u False s, Resumed, d, dp)"
| acked: "dp = Suspended \<or> dp = Aborted
    \<Longrightarrow> handover_step E u p (s, Waiting, d, dp) (migrate_out_end u True s, Tombstoned, d, dp)"
| commit: "handover_step E u p (s, Tombstoned, d, Suspended) (s, Tombstoned, commit_migrated E u d, Activated)"
| abort: "handover_step E u p (s, sp, d, Suspended) (s, sp, abort_prepared u d, Aborted)"
| dest_other: "active_at u d' = active_at u d \<Longrightarrow> handover_step E u p (s, sp, d, dp) (s, sp, d', dp)"
| source_other: "sp \<noteq> Waiting \<Longrightarrow> active_at u s' = active_at u s
    \<Longrightarrow> handover_step E u p (s, sp, d, dp) (s', sp, d, dp)"

inductive_cases handover_stepE: "handover_step E u p x y"

definition handover_started ::
    "('r, 'k) node_env \<Rightarrow> string \<Rightarrow> bytes \<Rightarrow> bytes \<Rightarrow> ('r, 'k) handover_state \<Rightarrow> bool" where
  "handover_started E u pub p x \<longleftrightarrow> (\<exists>s s0 d. migrate_out_begin E u pub s0 = (Some p, s)
     \<and> x = (s, Waiting, d, Unreached) \<and> \<not> active_at u d)"

inductive handover_reached ::
    "('r, 'k) node_env \<Rightarrow> string \<Rightarrow> bytes \<Rightarrow> bytes \<Rightarrow> ('r, 'k) handover_state \<Rightarrow> bool"
  for E :: "('r, 'k) node_env" and u :: string and pub :: bytes and p :: bytes where
  start: "handover_started E u pub p x \<Longrightarrow> handover_reached E u pub p x"
| step: "handover_reached E u pub p x \<Longrightarrow> handover_step E u p x y \<Longrightarrow> handover_reached E u pub p y"

section \<open>At most one live copy\<close>

fun handover_inv :: "string \<Rightarrow> ('r, 'k) handover_state \<Rightarrow> bool" where
  "handover_inv u (s, sp, d, dp) \<longleftrightarrow> (sp = Resumed \<or> \<not> active_at u s)
     \<and> (dp = Activated \<or> \<not> active_at u d) \<and> (dp = Activated \<longrightarrow> sp = Tombstoned)"

lemma suspended_begin:
  assumes "migrate_out_begin E u pub n = (Some p, n')"
  shows "\<not> active_at u n'"
  using assms
  by (auto simp: migrate_out_begin_def build_migrate_payload_def active_at_def set_active_def cache_code_def hashmap_simps
      Let_def split: option.splits prod.splits)

lemma tombstoned_gone: "hm_get (nd_agents (migrate_out_end u True n)) u = None"
  by (simp add: migrate_out_end_def unmount_def hashmap_simps split: option.splits)

lemma process_migrate_not_activating:
  assumes "process_migrate E p d = (b, d')" and "\<not> active_at u d"
  shows "\<not> active_at u d'"
  using assms(1)
proof (cases rule: process_migrate_cases)
  case refused
  with assms(2) show ?thesis by (simp add: active_at_def)
next
  case (prepared mp manifest g wasm n1 r)
  let ?m = "\<lparr>mt_uuid = sn_uuid (mp_snapshot mp), mt_alias = sn_uuid (mp_snapshot mp), mt_runtime = r, mt_service = None,
    mt_code = Some wasm, mt_epoch = sn_epoch (mp_snapshot mp), mt_grant = g, mt_manifest = Some manifest, mt_active = False\<rparr>"
  have "\<not> mt_active m'" if "hm_get (nd_agents d') u = Some m'" for m'
  proof -
    have "hm_get (nd_agents (mount_agent E ?m n1)) u = Some m'" using that by (simp add: prepared(6) Let_def)
    from mount_agent_get [OF this] show ?thesis
    proof
      assume "u = mt_uuid ?m \<and> carries ?m m'"
      then show ?thesis using carries_fields(1) [of ?m m'] by simp
    next
      assume "u \<noteq> mt_uuid ?m \<and> (\<exists>m0. hm_get (nd_agents n1) u = Some m0 \<and> carries m0 m')"
      then obtain m0 where m0: "hm_get (nd_agents d) u = Some m0" "carries m0 m'" using prepared(4) by auto
      with assms(2) carries_fields(1) [OF m0(2)] show ?thesis by (simp add: active_at_def)
    qed
  qed
  then show ?thesis by (simp add: active_at_def split: option.splits)
qed

lemma aborted_gone: "\<not> active_at u d \<Longrightarrow> hm_get (nd_agents (abort_prepared u d)) u = None"
  by (auto simp: active_at_def abort_prepared_def unmount_def hashmap_simps split: option.splits)

lemma handover_step_inv:
  assumes "handover_step E u p x y" and "handover_inv u x"
  shows "handover_inv u y"
  using assms
proof (induction rule: handover_step.induct)
  case (arrive d b d' s sp)
  then show ?case using process_migrate_not_activating [OF arrive.hyps, of u] by auto
next
  case (acked dp s d)
  have "\<not> active_at u (migrate_out_end u True s)" by (simp add: active_at_def tombstoned_gone)
  with acked show ?case by auto
next
  case (abort s sp d)
  then have "\<not> active_at u (abort_prepared u d)" by (simp add: active_at_def [of u "abort_prepared u d"] aborted_gone)
  with abort show ?case by auto
qed auto


definition example_mobile :: "(unit native_runtime, bytes) node" where
  "example_mobile = example_node\<lparr>nd_agents := [(''m'', \<lparr>mt_uuid = ''m'', mt_alias = ''m'', mt_runtime = native_new (),
     mt_service = None, mt_code = Some [1], mt_epoch = 2, mt_grant = grant_full, mt_manifest = Some example_manifest,
     mt_active = True\<rparr>)]\<rparr>"

lemma example_departed:
  "\<exists>s. migrate_out_begin migrate_env ''m'' (pad_to 32 [1]) example_mobile = (Some [3], s)"
  by (auto simp: migrate_out_begin_def build_migrate_payload_def example_mobile_def Let_def migrate_env_def
      example_env_def native_vtable_def snapshot_sealed_def split: prod.splits)

lemma mount_agent_routes: "nd_routes (mount_agent E m n) = nd_routes n"
  by (simp add: mount_agent_def provision_state_def provision_crypto_def modify_runtime_def Let_def split: option.splits)

lemma migrate_checks_routes: "nd_routes (snd (migrate_checks E mp n)) = nd_routes n"
  by (simp add: migrate_checks_def audit_def Let_def split: option.splits sum.splits)

lemma migrate_code_routes: "nd_routes (snd (migrate_code E mp n)) = nd_routes n"
  by (simp add: migrate_code_def fetch_code_def cache_code_def Let_def split: option.splits)

lemma process_migrate_routes: "nd_routes (snd (process_migrate E p n)) = nd_routes n"
proof (cases "ne_payload_of_json E p")
  case (Some mp)
  obtain c n1 where c: "migrate_checks E mp n = (c, n1)" by fastforce
  obtain w n2 where w: "migrate_code E mp n1 = (w, n2)" by fastforce
  have r: "nd_routes n1 = nd_routes n" "nd_routes n2 = nd_routes n1"
    using migrate_checks_routes [of E mp n] migrate_code_routes [of E mp n1] by (simp_all add: c w)
  then show ?thesis
    by (simp add: process_migrate_def Some c w Let_def mount_agent_routes split: option.splits sum.splits prod.splits)
qed (simp add: process_migrate_def)

lemma commit_activates:
  assumes "process_migrate E p d = (True, d')" and "ne_payload_of_json E p = Some mp"
    and "hm_get (nd_routes d) ''ams'' = None"
  shows "active_at (sn_uuid (mp_snapshot mp)) (commit_migrated E (sn_uuid (mp_snapshot mp)) d')"
proof -
  obtain m where "hm_get (nd_agents d') (sn_uuid (mp_snapshot mp)) = Some m" "\<not> mt_active m"
    by (rule prepared_agent [OF assms(1,2)])
  moreover have "hm_get (nd_routes d') ''ams'' = None" using process_migrate_routes [of E p d] assms(1,3) by simp
  ultimately show ?thesis
    by (simp add: active_at_def commit_migrated_def persist_seen_def set_active_def hm_contains_get hashmap_simps Let_def
        split: option.splits)
qed


section \<open>What the exchange does not give\<close>

text \<open>
  The source forgets its copy as soon as it has handed the commit to the transport. If the commit does
  not arrive within the destination's timeout, both nodes drop the agent: it is gone, though the
  documentation of \<open>migrate\<close> says nothing is lost.
\<close>

lemma commit_lost_agent_gone:
  assumes "handover_step E u p (s, Waiting, d, Suspended) (s', Tombstoned, d, Suspended)"
    and "s' = migrate_out_end u True s" and "\<not> active_at u d"
  shows "handover_step E u p (s', Tombstoned, d, Suspended) (s', Tombstoned, abort_prepared u d, Aborted)"
    and "hm_get (nd_agents s') u = None" and "hm_get (nd_agents (abort_prepared u d)) u = None"
  using assms(3) by (simp_all add: handover_step.abort assms(2) tombstoned_gone aborted_gone)

text \<open>
  The end of an exchange names the agent and not the exchange. When a first attempt is given up and a
  second one has been prepared before the main loop handles the end of the first, that end takes down
  the copy of the second, whose commit then activates nothing: the second source has forgotten its
  copy by then.
\<close>

lemma stale_abort_drops_retry:
  assumes "process_migrate E p2 d = (True, d')" and "ne_payload_of_json E p2 = Some mp"
    and "u = sn_uuid (mp_snapshot mp)"
  shows "hm_get (nd_agents (node_run E [MigrateFin u False, MigrateFin u True] d')) u = None"
proof -
  obtain m where m: "hm_get (nd_agents d') u = Some m" "\<not> mt_active m"
    using prepared_agent [OF assms(1,2)] assms(3) by metis
  then have gone: "hm_get (nd_agents (abort_prepared u d')) u = None"
    by (intro aborted_gone) (simp add: active_at_def)
  then show ?thesis by (simp add: node_run_def node_step_def commit_migrated_def)
qed

text \<open>
  A node that is asked to move an agent it has only prepared, and fails, activates it: \<open>migrate\<close>
  does not look whether the agent is live.
\<close>

lemma failed_move_activates_prepared:
  assumes "hm_get (nd_agents n) u = Some m" and "\<not> mt_active m" and "mt_code m = Some c" and "mt_manifest m = Some mf"
  shows "active_at u (node_step E (MigrateOut u pub False) n)"
  using assms
  by (auto simp: node_step_def migrate_out_begin_def build_migrate_payload_def migrate_out_end_def set_active_def
      cache_code_def active_at_def hashmap_simps Let_def split: prod.splits option.splits)

text \<open>
  A prepared agent blocks the next attempt. A first move that is neither committed nor aborted, which
  happens when the destination prepares it after its connection thread has stopped waiting, leaves a
  suspended copy that no later payload can replace: it counts as a local agent.
\<close>

lemma prepared_blocks_retry:
  assumes "ne_payload_of_json E p = Some mp" and "hm_get (nd_agents n) (sn_uuid (mp_snapshot mp)) \<noteq> None"
    and "hm_get (nd_seen n) (sn_uuid (mp_snapshot mp)) = None"
  shows "fst (process_migrate E p n) = False"
  using assms by (simp add: process_migrate_def migrate_checks_def hm_contains_get Let_def)

text \<open>
  The uuid and the alias of a child are its parent's choice, and mounting it replaces what was there: a
  child called after a service of the node takes over its name, and one with the uuid of another
  agent takes its place.
\<close>

lemma child_replaces_agent:
  assumes "mount_wasm E uuid alias wasm manifest service n = Inr n'"
  shows "hm_get (nd_aliases n') alias = Some uuid"
    and "map_option mt_code (hm_get (nd_agents n') uuid) = Some (Some wasm)"
  using assms
  by (auto simp: mount_wasm_def mount_agent_def provision_state_def provision_crypto_def modify_runtime_def
      hashmap_simps Let_def split: sum.splits option.splits)

end
