(* ===== verification/Guest_Pa.thy ===== *)
theory Guest_Pa
  imports Guest_Runtime Unl_Parser "HOL-Library.Countable"
begin

text \<open>
  The payment agent of \<^verbatim>\<open>agents/pa/src/lib.rs\<close>: accounts, escrow holds and the six
  verbs; also how every guest agent of the program reads the verb and the subject of a message.

  \<open>serde_json\<close> is a parameter in two parts: the dynamic values (\<open>json_lib\<close>), and the derived
  readers and writers of the agent's own types (\<open>pa_store\<close>), which also says what the database holds
  under the key of the state after a write. The maps of the agent are never iterated, so their order
  is left out. Sums of amounts wrap around, as in the release profile of the workspace.
\<close>

section \<open>Reading messages\<close>

fun inline_word :: "node_ref \<Rightarrow> string option" where
  "inline_word (Inline w) = (case uw_uci w of Ucn _ word _ \<Rightarrow> Some word | _ \<Rightarrow> None)"
| "inline_word _ = None"

definition action_and_subject :: "string \<Rightarrow> (string \<times> string) option" where
  "action_and_subject unl =
     (case parse_sentence unl of
        Inl _ \<Rightarrow> None
      | Inr g \<Rightarrow>
          (case ug_relations g of
             [] \<Rightarrow> None
           | r # _ \<Rightarrow>
               (case inline_word (rl_source r) of
                  None \<Rightarrow> None
                | Some a \<Rightarrow> (case inline_word (rl_target r) of None \<Rightarrow> None | Some w \<Rightarrow> Some (a, w)))))"

text \<open>Dynamic JSON values: reading, looking at them, and building the ones the agents send.\<close>

record 'j json_lib =
  js_parse :: "bytes \<Rightarrow> 'j option"
  js_get :: "'j \<Rightarrow> string \<Rightarrow> 'j option"
  js_as_str :: "'j \<Rightarrow> string option"
  js_as_u64 :: "'j \<Rightarrow> u64 option"
  js_string :: "string \<Rightarrow> 'j"
  js_number :: "u64 \<Rightarrow> 'j"
  js_object :: "(string \<times> 'j) list \<Rightarrow> 'j"
  js_write :: "'j \<Rightarrow> bytes option"

definition json_str :: "'j json_lib \<Rightarrow> bytes \<Rightarrow> string \<Rightarrow> string option" where
  "json_str J body key =
     (case js_parse J body of
        None \<Rightarrow> None
      | Some v \<Rightarrow> (case js_get J v key of None \<Rightarrow> None | Some x \<Rightarrow> js_as_str J x))"

definition json_u64 :: "'j json_lib \<Rightarrow> bytes \<Rightarrow> string \<Rightarrow> u64 option" where
  "json_u64 J body key =
     (case js_parse J body of
        None \<Rightarrow> None
      | Some v \<Rightarrow> (case js_get J v key of None \<Rightarrow> None | Some x \<Rightarrow> js_as_u64 J x))"

definition json_bytes :: "'j json_lib \<Rightarrow> 'j \<Rightarrow> bytes" where
  "json_bytes J v = (case js_write J v of None \<Rightarrow> [] | Some b \<Rightarrow> b)"

section \<open>State\<close>

datatype hold_state = Held | Paid | Cancelled

record hold =
  hd_buyer :: string
  hd_seller :: string
  hd_amount :: u64
  hd_state :: hold_state

record pa_state =
  ps_ledger :: "(string, u64) hashmap"
  ps_holds :: "(string, hold) hashmap"

record pa =
  pa_db :: "bytes option"
  pa_state :: pa_state

record pa_store =
  pd_text :: "pa_state \<Rightarrow> bytes option"
  pd_read :: "bytes \<Rightarrow> pa_state option"
  pd_seed :: "bytes \<Rightarrow> (string \<times> u64) list option"
  pd_write :: "bytes \<Rightarrow> bytes option \<Rightarrow> bytes option"

definition pa_state_default :: pa_state where
  "pa_state_default = \<lparr>ps_ledger = [], ps_holds = []\<rparr>"

definition pa_with_db :: "pa_store \<Rightarrow> bytes option \<Rightarrow> pa" where
  "pa_with_db D db =
     \<lparr>pa_db = db,
      pa_state = (case db of
          None \<Rightarrow> pa_state_default
        | Some b \<Rightarrow> (case pd_read D b of None \<Rightarrow> pa_state_default | Some s \<Rightarrow> s))\<rparr>"

definition persist :: "pa_store \<Rightarrow> pa \<Rightarrow> pa" where
  "persist D p =
     (case pd_text D (pa_state p) of None \<Rightarrow> p | Some b \<Rightarrow> p\<lparr>pa_db := pd_write D b (pa_db p)\<rparr>)"

definition pa_balance :: "pa_state \<Rightarrow> string \<Rightarrow> u64" where
  "pa_balance s account = (case hm_get (ps_ledger s) account of None \<Rightarrow> 0 | Some n \<Rightarrow> n)"

text \<open>The account of \<open>entry(..).or_default() += amount\<close>.\<close>

definition add_to_account :: "string \<Rightarrow> u64 \<Rightarrow> pa_state \<Rightarrow> pa_state" where
  "add_to_account account amount s =
     s\<lparr>ps_ledger := hm_insert account (pa_balance s account + amount) (ps_ledger s)\<rparr>"

definition pa_credit :: "pa_store \<Rightarrow> string \<Rightarrow> u64 \<Rightarrow> pa \<Rightarrow> pa" where
  "pa_credit D account amount p = persist D (p\<lparr>pa_state := add_to_account account amount (pa_state p)\<rparr>)"

definition pa_hold_state :: "pa \<Rightarrow> string \<Rightarrow> hold_state option" where
  "pa_hold_state p order = map_option hd_state (hm_get (ps_holds (pa_state p)) order)"

section \<open>The verbs\<close>

definition pa_receipt :: "'j json_lib \<Rightarrow> string \<Rightarrow> string \<Rightarrow> string \<Rightarrow> u64 \<Rightarrow> string option \<Rightarrow> ctx \<Rightarrow> ctx" where
  "pa_receipt J to order status amount buyer =
     ctx_send to (''obj(receipt, '' @ order @ '')'')
       (json_bytes J (js_object J ([(''status'', js_string J status), (''amount'', js_number J amount)]
          @ (case buyer of None \<Rightarrow> [] | Some b \<Rightarrow> [(''buyer'', js_string J b)]))))"

definition pa_deny :: "'j json_lib \<Rightarrow> string \<Rightarrow> string \<Rightarrow> string \<Rightarrow> ctx \<Rightarrow> ctx" where
  "pa_deny J to order reason =
     ctx_send to (''obj(deny, '' @ order @ '')'') (json_bytes J (js_object J [(''reason'', js_string J reason)]))"

definition pa_reserve ::
    "'j json_lib \<Rightarrow> pa_store \<Rightarrow> string \<Rightarrow> string \<Rightarrow> bytes \<Rightarrow> pa \<Rightarrow> ctx \<Rightarrow> pa \<times> ctx" where
  "pa_reserve J D order buyer body p c =
     (let s = pa_state p in
      if hm_contains (ps_holds s) order then (p, pa_deny J buyer order ''duplicate-order'' c)
      else
        (case (json_str J body ''seller'', json_u64 J body ''amount'') of
           (Some seller, Some amount) \<Rightarrow>
             if amount = 0 then (p, pa_deny J buyer order ''bad-amount'' c)
             else if pa_balance s buyer < amount then (p, pa_deny J buyer order ''insufficient'' c)
             else
               (let s = s\<lparr>ps_ledger := hm_insert buyer (pa_balance s buyer - amount) (ps_ledger s)\<rparr>;
                    s = s\<lparr>ps_holds := hm_insert order
                       \<lparr>hd_buyer = buyer, hd_seller = seller, hd_amount = amount, hd_state = Held\<rparr> (ps_holds s)\<rparr>
                in (persist D (p\<lparr>pa_state := s\<rparr>),
                    pa_receipt J seller order ''held'' amount (Some buyer)
                      (pa_receipt J buyer order ''held'' amount None c)))
         | _ \<Rightarrow> (p, pa_deny J buyer order ''bad-request'' c)))"

text \<open>What \<open>accept\<close> and \<open>cancel\<close> share: a held amount goes to an account and the hold is closed.\<close>

definition close_hold :: "pa_store \<Rightarrow> string \<Rightarrow> string \<Rightarrow> hold_state \<Rightarrow> hold \<Rightarrow> pa \<Rightarrow> pa" where
  "close_hold D order account final h p =
     (if hd_state h = Held then
        (let s = add_to_account account (hd_amount h) (pa_state p);
             s = s\<lparr>ps_holds := hm_modify order (\<lambda>h. h\<lparr>hd_state := final\<rparr>) (ps_holds s)\<rparr>
         in persist D (p\<lparr>pa_state := s\<rparr>))
      else p)"

definition pa_accept :: "'j json_lib \<Rightarrow> pa_store \<Rightarrow> string \<Rightarrow> string \<Rightarrow> pa \<Rightarrow> ctx \<Rightarrow> pa \<times> ctx" where
  "pa_accept J D order from p c =
     (case hm_get (ps_holds (pa_state p)) order of
        None \<Rightarrow> (p, c)
      | Some h \<Rightarrow>
          if from \<noteq> hd_seller h then (p, pa_deny J from order ''unauthorized'' c)
          else (close_hold D order (hd_seller h) Paid h p,
                pa_receipt J (hd_seller h) order ''paid'' (hd_amount h) None
                  (pa_receipt J (hd_buyer h) order ''paid'' (hd_amount h) None c)))"

definition pa_cancel :: "'j json_lib \<Rightarrow> pa_store \<Rightarrow> string \<Rightarrow> string \<Rightarrow> pa \<Rightarrow> ctx \<Rightarrow> pa \<times> ctx" where
  "pa_cancel J D order from p c =
     (case hm_get (ps_holds (pa_state p)) order of
        None \<Rightarrow> (p, c)
      | Some h \<Rightarrow>
          if from \<noteq> hd_buyer h \<and> from \<noteq> hd_seller h then (p, pa_deny J from order ''unauthorized'' c)
          else (close_hold D order (hd_buyer h) Cancelled h p,
                pa_receipt J (hd_seller h) order ''cancelled'' (hd_amount h) None
                  (pa_receipt J (hd_buyer h) order ''cancelled'' (hd_amount h) None c)))"

definition pa_on_seed :: "pa_store \<Rightarrow> bytes \<Rightarrow> pa \<Rightarrow> pa" where
  "pa_on_seed D d p =
     (case pd_seed D d of
        None \<Rightarrow> p
      | Some kvs \<Rightarrow>
          persist D (p\<lparr>pa_state := pa_state p\<lparr>ps_ledger :=
            fold (\<lambda>(k, v). hm_insert k v) kvs (ps_ledger (pa_state p))\<rparr>\<rparr>))"

definition pa_on_message :: "'j json_lib \<Rightarrow> pa_store \<Rightarrow> string \<Rightarrow> bytes \<Rightarrow> pa \<Rightarrow> ctx \<Rightarrow> pa \<times> ctx" where
  "pa_on_message J D unl body p c =
     (case action_and_subject unl of
        None \<Rightarrow> (p, c)
      | Some (action, order) \<Rightarrow>
          if action = ''reserve'' then pa_reserve J D order (cx_from c) body p c
          else if action = ''accept'' then pa_accept J D order (cx_from c) p c
          else if action = ''deny'' then pa_cancel J D order (cx_from c) p c
          else (p, c))"

definition pa_agent :: "'j json_lib \<Rightarrow> pa_store \<Rightarrow> pa agent" where
  "pa_agent J D = (agent_with (\<lambda>unl body p c. (True, pa_on_message J D unl body p c)))
     \<lparr>on_seed := \<lambda>d p c. (True, pa_on_seed D d p, c)\<rparr>"

lemma persist_simps [simp]: "pa_state (persist D p) = pa_state p"
  by (simp add: persist_def split: option.splits)

section \<open>Sums over maps\<close>

definition hm_sum :: "('v \<Rightarrow> nat) \<Rightarrow> ('k, 'v) hashmap \<Rightarrow> nat" where
  "hm_sum f m = sum_list (map (\<lambda>(_, v). f v) m)"

lemma hm_sum_insert:
  "hm_wf m \<Longrightarrow> hm_sum f (hm_insert k v m) + (case hm_get m k of None \<Rightarrow> 0 | Some w \<Rightarrow> f w) = hm_sum f m + f v"
  by (induction m) (auto simp: hm_sum_def hm_insert_def hm_wf_def map_of_eq_None_iff split: option.splits)

lemma hm_sum_get: "hm_get m k = Some v \<Longrightarrow> f v \<le> hm_sum f m"
  by (induction m) (auto simp: hm_sum_def split: if_splits)

lemma hm_modify_absent: "k \<notin> fst ` set m \<Longrightarrow> hm_modify k g m = m"
  by (induction m) (auto simp: hm_modify_def)

lemma hm_sum_modify:
  "hm_wf m \<Longrightarrow> hm_get m k = Some v \<Longrightarrow> hm_sum f (hm_modify k g m) + f v = hm_sum f m + f (g v)"
proof (induction m)
  case (Cons x m)
  obtain k' w where x: "x = (k', w)" by (cases x)
  show ?case
  proof (cases "k' = k")
    case True
    then have "hm_modify k g m = m" using Cons.prems by (intro hm_modify_absent) (simp add: hm_wf_def x)
    then show ?thesis using True Cons.prems by (simp add: x hm_sum_def hm_modify_def)
  next
    case False
    then have "hm_sum f (hm_modify k g m) + f v = hm_sum f m + f (g v)"
      using Cons by (simp add: x hm_wf_def)
    then show ?thesis using False by (simp add: x hm_sum_def hm_modify_def)
  qed
qed simp

section \<open>No money is made or lost\<close>

definition held_amount :: "hold \<Rightarrow> nat" where
  "held_amount h = (if hd_state h = Held then unat (hd_amount h) else 0)"

definition money :: "pa_state \<Rightarrow> nat" where
  "money s = hm_sum unat (ps_ledger s) + hm_sum held_amount (ps_holds s)"

text \<open>The books of an agent that administers \<open>T\<close> units in all.\<close>

definition books :: "nat \<Rightarrow> pa_state \<Rightarrow> bool" where
  "books T s \<longleftrightarrow> hm_wf (ps_ledger s) \<and> hm_wf (ps_holds s) \<and> money s = T \<and> T < 2 ^ 64"

lemma sum_account:
  "hm_wf (ps_ledger s) \<Longrightarrow>
   hm_sum unat (hm_insert a n (ps_ledger s)) + unat (pa_balance s a) = hm_sum unat (ps_ledger s) + unat n"
  using hm_sum_insert [of "ps_ledger s" unat a n] by (simp add: pa_balance_def split: option.splits)

lemma balance_le: "unat (pa_balance s a) \<le> hm_sum unat (ps_ledger s)"
  by (auto simp: pa_balance_def hm_sum_get split: option.splits)

lemma unat_add_bounded: "unat x + unat y < 2 ^ 64 \<Longrightarrow> unat (x + y) = unat x + unat (y :: u64)"
  by (simp add: unat_word_ariths)

lemma unat_minus_bounded: "y \<le> x \<Longrightarrow> unat (x - y) = unat x - unat (y :: u64)"
  by (simp add: unat_sub)

lemma books_reserve:
  assumes "books T s" and "hm_get (ps_holds s) o' = None" and "\<not> pa_balance s b < n" and "hd_state h = Held"
    and "hd_amount h = n"
  shows "books T (s\<lparr>ps_ledger := hm_insert b (pa_balance s b - n) (ps_ledger s), ps_holds := hm_insert o' h (ps_holds s)\<rparr>)"
proof -
  have "n \<le> pa_balance s b" using assms(3) by simp
  then have "unat (pa_balance s b - n) + unat n = unat (pa_balance s b)"
    by (simp add: unat_minus_bounded word_le_nat_alt)
  with sum_account [of s b "pa_balance s b - n"] hm_sum_insert [of "ps_holds s" held_amount o' h] assms
  show ?thesis by (simp add: books_def money_def held_amount_def)
qed

lemma books_close:
  assumes "books T s" and "hm_get (ps_holds s) o' = Some h" and "hd_state h = Held" and "final \<noteq> Held"
  shows "books T ((add_to_account a (hd_amount h) s)\<lparr>ps_holds := hm_modify o' (\<lambda>h. h\<lparr>hd_state := final\<rparr>) (ps_holds s)\<rparr>)"
proof -
  have "held_amount h \<le> hm_sum held_amount (ps_holds s)" by (rule hm_sum_get) (rule assms(2))
  with balance_le [of s a] assms(1,3) have "unat (pa_balance s a) + unat (hd_amount h) < 2 ^ 64"
    by (simp add: books_def money_def held_amount_def)
  from unat_add_bounded [OF this] sum_account [of s a "pa_balance s a + hd_amount h"]
    hm_sum_modify [of "ps_holds s" o' h held_amount "\<lambda>h. h\<lparr>hd_state := final\<rparr>"] assms
  show ?thesis by (simp add: books_def money_def add_to_account_def held_amount_def)
qed

lemma ps_holds_add [simp]: "ps_holds (add_to_account a n s) = ps_holds s"
  by (simp add: add_to_account_def)

lemma books_close_hold:
  assumes "books T (pa_state p)" and "hm_get (ps_holds (pa_state p)) o' = Some h" and "final \<noteq> Held"
  shows "books T (pa_state (close_hold D o' a final h p))"
  using books_close [OF assms(1,2) _ assms(3)] assms(1) by (simp add: close_hold_def Let_def)

lemma books_message: "books T (pa_state p) \<Longrightarrow> books T (pa_state (fst (pa_on_message J D unl body p c)))"
  by (auto simp: pa_on_message_def pa_reserve_def pa_accept_def pa_cancel_def books_close_hold Let_def
      hm_contains_get intro!: books_reserve split: option.splits prod.splits)

lemma pa_agent_simps [simp]:
  "on_init (pa_agent J D) = returns" "on_tick (pa_agent J D) i t = returns"
  "on_seed (pa_agent J D) d p c = (True, pa_on_seed D d p, c)"
  "on_message (pa_agent J D) unl body p c = (True, pa_on_message J D unl body p c)"
  by (simp_all add: pa_agent_def agent_with_def)

interpretation escrow: guest_invariant "pa_agent J D" "\<lambda>p. books T (pa_state p)" for J D T
  by unfold_locales (simp_all add: books_message)

text \<open>
  C5: No money is made or lost. Whatever messages a payment agent gets, from whomever, in whatever
  order, as long as none of them is a seed, the sum of all balances and of the amounts it holds
  stays what it was; every sum of two amounts stays within 64 bits.
\<close>

theorem money_conserved:
  assumes "books T (pa_state p)" and "list_all (\<lambda>(_, unl, _). \<not> is_seed unl) ms"
  shows "books T (pa_state (nr_agent (snd (native_conversation (pa_agent J D) ms (native_new p)))))"
  by (rule escrow.runtime_conversation) (use assms in \<open>simp_all add: native_new_def\<close>)

section \<open>Who settles a hold\<close>

lemma close_hold_get:
  "hm_get (ps_holds (pa_state (close_hold D o' a final h p))) k
     = (if k = o' \<and> hd_state h = Held then map_option (\<lambda>h. h\<lparr>hd_state := final\<rparr>) (hm_get (ps_holds (pa_state p)) o')
        else hm_get (ps_holds (pa_state p)) k)"
  by (simp add: close_hold_def hashmap_simps Let_def)

lemma reserve_keeps_hold:
  assumes "hm_get (ps_holds (pa_state p)) k = Some h"
  shows "hm_get (ps_holds (pa_state (fst (pa_reserve J D order b body p c)))) k = Some h"
proof (cases "k = order")
  case True
  then show ?thesis using assms by (simp add: pa_reserve_def hm_contains_get)
next
  case False
  then show ?thesis using assms by (simp add: pa_reserve_def Let_def hashmap_simps split: option.split)
qed

lemma hold_settled:
  assumes "hm_get (ps_holds (pa_state p)) k = Some h"
  shows "let h' = hm_get (ps_holds (pa_state (fst (pa_on_message J D unl body p c)))) k in
    h' = Some h
    \<or> hd_state h = Held \<and> h' = Some (h\<lparr>hd_state := Paid\<rparr>)
        \<and> action_and_subject unl = Some (''accept'', k) \<and> cx_from c = hd_seller h
    \<or> hd_state h = Held \<and> h' = Some (h\<lparr>hd_state := Cancelled\<rparr>)
        \<and> action_and_subject unl = Some (''deny'', k) \<and> cx_from c \<in> {hd_buyer h, hd_seller h}"
proof (cases "action_and_subject unl")
  case None
  then show ?thesis using assms by (simp add: pa_on_message_def)
next
  case (Some q)
  obtain action order where q: "q = (action, order)" by (cases q)
  have accept: "hm_get (ps_holds (pa_state (fst (pa_accept J D order f p c)))) k
      = (if k = order \<and> f = hd_seller h \<and> hd_state h = Held then Some (h\<lparr>hd_state := Paid\<rparr>) else Some h)" for f
    using assms by (cases "k = order"; auto simp: pa_accept_def close_hold_get split: option.splits)
  have cancel: "hm_get (ps_holds (pa_state (fst (pa_cancel J D order f p c)))) k
      = (if k = order \<and> f \<in> {hd_buyer h, hd_seller h} \<and> hd_state h = Held
         then Some (h\<lparr>hd_state := Cancelled\<rparr>) else Some h)" for f
    using assms by (cases "k = order"; auto simp: pa_cancel_def close_hold_get split: option.splits)
  consider "action = ''reserve''" | "action = ''accept''" | "action = ''deny''"
    | "action \<notin> {''reserve'', ''accept'', ''deny''}" by blast
  then show ?thesis
  proof cases
    case 1
    then show ?thesis using reserve_keeps_hold [OF assms] by (simp add: pa_on_message_def Some q)
  next
    case 2
    then show ?thesis using accept [of "cx_from c"] by (simp add: pa_on_message_def Some q)
  next
    case 3
    then show ?thesis using cancel [of "cx_from c"] by (simp add: pa_on_message_def Some q)
  next
    case 4
    then show ?thesis using assms by (simp add: pa_on_message_def Some q)
  qed
qed

lemma seed_keeps_holds: "ps_holds (pa_state (pa_on_seed D d p)) = ps_holds (pa_state p)"
  by (simp add: pa_on_seed_def split: option.splits)

definition asks :: "string \<Rightarrow> string \<Rightarrow> bytes \<Rightarrow> bool" where
  "asks verb order unl \<longleftrightarrow> \<not> is_seed unl \<and> action_and_subject (utf8_or_empty unl) = Some (verb, order)"

lemma settled_call:
  assumes "hm_get (ps_holds (pa_state (nr_agent r))) k = Some h"
  shows "let h' = hm_get (ps_holds (pa_state (nr_agent (snd (native_config (pa_agent J D) from unl body r))))) k in
    h' = Some h
    \<or> hd_state h = Held \<and> h' = Some (h\<lparr>hd_state := Paid\<rparr>) \<and> asks ''accept'' k unl \<and> from = hd_seller h
    \<or> hd_state h = Held \<and> h' = Some (h\<lparr>hd_state := Cancelled\<rparr>) \<and> asks ''deny'' k unl
        \<and> from \<in> {hd_buyer h, hd_seller h}"
proof (cases "is_seed unl")
  case True
  then show ?thesis using assms by (simp add: native_config_def guarded_agent seed_keeps_holds)
next
  case False
  let ?c = "set_from from (ctx_new\<lparr>cx_state := nr_state r, cx_keyring := nr_keyring r\<rparr>)"
  have "cx_from ?c = from" by (simp add: set_from_def)
  with hold_settled [OF assms, of J D "utf8_or_empty unl" body ?c] False show ?thesis
    by (simp add: native_config_def guarded_agent asks_def Let_def)
qed

text \<open>
  C13: A hold is settled once and by its parties. After any conversation, seeds included, an existing
  hold is what it was, or it was held and is now paid, and the conversation has an \<open>accept\<close> of that
  order from its seller, or it was held and is now cancelled, and the conversation has a \<open>deny\<close> of
  that order from its buyer or its seller. Buyer, seller and amount stay as they were reserved, and
  what is paid or cancelled stays so.
\<close>

theorem hold_settled_by_parties:
  assumes "hm_get (ps_holds (pa_state p)) k = Some h"
    and "h' = hm_get (ps_holds (pa_state (nr_agent (snd (native_conversation (pa_agent J D) ms (native_new p)))))) k"
  shows "h' = Some h
    \<or> hd_state h = Held \<and> h' = Some (h\<lparr>hd_state := Paid\<rparr>)
        \<and> list_ex (\<lambda>(from, unl, body). from = hd_seller h \<and> asks ''accept'' k unl) ms
    \<or> hd_state h = Held \<and> h' = Some (h\<lparr>hd_state := Cancelled\<rparr>)
        \<and> list_ex (\<lambda>(from, unl, body). from \<in> {hd_buyer h, hd_seller h} \<and> asks ''deny'' k unl) ms"
proof -
  define settled where "settled r h ms \<longleftrightarrow>
      (let h' = hm_get (ps_holds (pa_state (nr_agent (snd (native_conversation (pa_agent J D) ms r))))) k in
       h' = Some h
       \<or> hd_state h = Held \<and> h' = Some (h\<lparr>hd_state := Paid\<rparr>)
           \<and> list_ex (\<lambda>(from, unl, body). from = hd_seller h \<and> asks ''accept'' k unl) ms
       \<or> hd_state h = Held \<and> h' = Some (h\<lparr>hd_state := Cancelled\<rparr>)
           \<and> list_ex (\<lambda>(from, unl, body). from \<in> {hd_buyer h, hd_seller h} \<and> asks ''deny'' k unl) ms)"
    for r h ms
  have "settled r h ms" if "hm_get (ps_holds (pa_state (nr_agent r))) k = Some h" for r h
    using that
  proof (induction ms arbitrary: r h)
    case (Cons m ms)
    obtain "from" unl body where m: "m = (from, unl, body)" by (cases m) auto
    let ?r = "snd (native_config (pa_agent J D) from unl body r)"
    have tail: "settled (?r\<lparr>nr_outbox := []\<rparr>) h1 ms" if "hm_get (ps_holds (pa_state (nr_agent ?r))) k = Some h1" for h1
      using that by (intro Cons.IH) simp
    have run: "nr_agent (snd (native_conversation (pa_agent J D) (m # ms) r))
        = nr_agent (snd (native_conversation (pa_agent J D) ms (?r\<lparr>nr_outbox := []\<rparr>)))"
      by (simp add: m native_take_sends_def case_prod_unfold Let_def)
    from settled_call [OF Cons.prems, of J D "from" unl body] show ?case
      unfolding Let_def
    proof (elim disjE conjE)
      assume "hm_get (ps_holds (pa_state (nr_agent ?r))) k = Some h"
      from tail [OF this] show ?thesis unfolding settled_def run by (auto simp: m Let_def)
    next
      assume h: "hd_state h = Held" "hm_get (ps_holds (pa_state (nr_agent ?r))) k = Some (h\<lparr>hd_state := Paid\<rparr>)"
        and a: "asks ''accept'' k unl" "from = hd_seller h"
      from tail [OF h(2)] show ?thesis using h(1) a unfolding settled_def run by (simp add: m Let_def)
    next
      assume h: "hd_state h = Held" "hm_get (ps_holds (pa_state (nr_agent ?r))) k = Some (h\<lparr>hd_state := Cancelled\<rparr>)"
        and a: "asks ''deny'' k unl" "from \<in> {hd_buyer h, hd_seller h}"
      from tail [OF h(2)] show ?thesis using h(1) a unfolding settled_def run by (simp add: m Let_def)
    qed
  qed (simp add: settled_def)
  from this [of "native_new p" h] assms show ?thesis by (simp add: settled_def native_new_def Let_def)
qed

interpretation closed: seeded_invariant "pa_agent J D"
    "\<lambda>p. hm_get (ps_holds (pa_state p)) k = Some h \<and> hd_state h \<noteq> Held" for J D k h
proof unfold_locales
  fix p :: pa and unl body c
  assume a: "hm_get (ps_holds (pa_state p)) k = Some h \<and> hd_state h \<noteq> Held"
  then have "hm_get (ps_holds (pa_state (fst (pa_on_message J D unl body p c)))) k = Some h"
    using hold_settled [of p k h J D unl body c] by (simp add: Let_def)
  with a show "hm_get (ps_holds (pa_state (fst (snd (on_message (pa_agent J D) unl body p c))))) k = Some h
      \<and> hd_state h \<noteq> Held"
    by simp
qed (simp_all add: seed_keeps_holds)

section \<open>Restarts\<close>

text \<open>What the agent relies on: the derived writer never fails and is read back, and the database keeps what it is given.\<close>

definition pa_store_laws :: "pa_store \<Rightarrow> bool" where
  "pa_store_laws D \<longleftrightarrow>
     (\<forall>s. \<exists>b. pd_text D s = Some b \<and> pd_read D b = Some s) \<and> (\<forall>b old. pd_write D b old = Some b)"

definition saved :: "pa_store \<Rightarrow> pa \<Rightarrow> bool" where
  "saved D p \<longleftrightarrow> pa_with_db D (pa_db p) = p"

lemma saved_open: "saved D (pa_with_db D db)"
  by (simp add: saved_def pa_with_db_def)

lemma saved_persist: "pa_store_laws D \<Longrightarrow> saved D (persist D p)"
  by (cases p) (auto simp: pa_store_laws_def saved_def persist_def pa_with_db_def split: option.splits
      dest!: spec [of _ "pa_state p"])

lemma saved_close_hold: "pa_store_laws D \<Longrightarrow> saved D p \<Longrightarrow> saved D (close_hold D o' a final h p)"
  by (simp add: close_hold_def saved_persist Let_def)

lemma saved_reserve: "pa_store_laws D \<Longrightarrow> saved D p \<Longrightarrow> saved D (fst (pa_reserve J D order b body p c))"
  by (simp add: pa_reserve_def saved_persist Let_def split: option.split)

lemma saved_message: "pa_store_laws D \<Longrightarrow> saved D p \<Longrightarrow> saved D (fst (pa_on_message J D unl body p c))"
  by (simp add: pa_on_message_def pa_accept_def pa_cancel_def saved_reserve saved_close_hold split: option.split)

lemma saved_seed: "pa_store_laws D \<Longrightarrow> saved D p \<Longrightarrow> saved D (pa_on_seed D d p)"
  by (simp add: pa_on_seed_def saved_persist split: option.split)

interpretation durable: seeded_invariant "pa_agent J D" "\<lambda>p. pa_store_laws D \<and> saved D p" for J D
  by unfold_locales (simp_all add: saved_message saved_seed)

text \<open>
  C21: A restart recovers the books. After any conversation, seeds included, opening the agent's
  database again gives the agent as it was, balances, holds and their states, provided the
  serialisation can be read back and the database keeps what it was given.
\<close>

theorem restart_recovers_books:
  assumes "pa_store_laws D"
    and "p = nr_agent (snd (native_conversation (pa_agent J D) ms (native_new (pa_with_db D db))))"
  shows "pa_with_db D (pa_db p) = p"
  using durable.runtime_seeded_conversation [of D "native_new (pa_with_db D db)" J ms] assms saved_open [of D db]
  by (simp add: native_new_def saved_def)

text \<open>
  The agent ignores the result of the write: when the database refuses it, the parties get the same
  receipts, and a restart forgets what they say.
\<close>

definition refusing :: "pa_store \<Rightarrow> pa_store" where
  "refusing D = D\<lparr>pd_write := \<lambda>_ old. old\<rparr>"

lemma receipt_without_write:
  "snd (pa_on_message J (refusing D) unl body p c) = snd (pa_on_message J D unl body p c)"
  "pa_db (fst (pa_on_message J (refusing D) unl body p c)) = pa_db p"
  by (simp_all add: pa_on_message_def pa_reserve_def pa_accept_def pa_cancel_def close_hold_def persist_def
      refusing_def Let_def split: option.split)

text \<open>
  The runtime takes every message whose text starts with a brace as a seed, whoever sent it: any agent
  that can send to the payment agent sets the balance of any account.
\<close>

lemma seed_sets_balance:
  assumes "is_seed unl" and "pd_seed D body = Some [(account, n)]"
  shows "pa_balance (pa_state (nr_agent (snd (native_config (pa_agent J D) from unl body r)))) account = n"
  using assms by (simp add: native_config_def guarded_def pa_on_seed_def pa_balance_def hashmap_simps)

section \<open>A purchase\<close>

text \<open>JSON values and stores for the examples: what is read is fixed, states are numbered.\<close>

datatype example_value = EText string | ENumber u64 | EObject "(string \<times> example_value) list"

definition example_json :: "example_value json_lib" where
  "example_json = \<lparr>
     js_parse = (\<lambda>b. Some (EObject [(''seller'', EText ''bs''), (''amount'', ENumber 999)])),
     js_get = (\<lambda>v k. case v of EObject kvs \<Rightarrow> map_of kvs k | _ \<Rightarrow> None),
     js_as_str = (\<lambda>v. case v of EText t \<Rightarrow> Some t | _ \<Rightarrow> None),
     js_as_u64 = (\<lambda>v. case v of ENumber n \<Rightarrow> Some n | _ \<Rightarrow> None),
     js_string = EText, js_number = ENumber, js_object = EObject, js_write = (\<lambda>_. Some [])\<rparr>"

definition hold_code :: "hold \<Rightarrow> string \<times> string \<times> nat \<times> nat" where
  "hold_code h = (hd_buyer h, hd_seller h, unat (hd_amount h), case hd_state h of Held \<Rightarrow> 0 | Paid \<Rightarrow> 1 | Cancelled \<Rightarrow> 2)"

definition hold_of_code :: "string \<times> string \<times> nat \<times> nat \<Rightarrow> hold" where
  "hold_of_code = (\<lambda>(b, s, n, t). \<lparr>hd_buyer = b, hd_seller = s, hd_amount = of_nat n,
     hd_state = (if t = 0 then Held else if t = 1 then Paid else Cancelled)\<rparr>)"

lemma hold_of_code [simp]: "hold_of_code (hold_code h) = h"
  by (cases h) (simp add: hold_of_code_def hold_code_def split: hold_state.splits)

definition state_number :: "pa_state \<Rightarrow> nat" where
  "state_number s = to_nat (map (map_prod id unat) (ps_ledger s), map (map_prod id hold_code) (ps_holds s))"

definition numbered_state :: "nat \<Rightarrow> pa_state" where
  "numbered_state n = (case from_nat n of (l, hs) \<Rightarrow>
     \<lparr>ps_ledger = map (map_prod id of_nat) l, ps_holds = map (map_prod id hold_of_code) hs\<rparr>)"

lemma numbered_state [simp]: "numbered_state (state_number s) = s"
  by (cases s) (simp add: numbered_state_def state_number_def comp_def map_prod_def split_beta)

definition example_store :: pa_store where
  "example_store = \<lparr>pd_text = (\<lambda>s. Some (replicate (state_number s) 0)),
     pd_read = (\<lambda>b. Some (numbered_state (length b))), pd_seed = (\<lambda>_. None), pd_write = (\<lambda>b _. Some b)\<rparr>"

lemma example_store_laws: "pa_store_laws example_store"
  by (simp add: pa_store_laws_def example_store_def)

definition example_pa :: pa where
  "example_pa = \<lparr>pa_db = None, pa_state = \<lparr>ps_ledger = [(''ba'', 10000)], ps_holds = []\<rparr>\<rparr>"

lemma example_verbs:
  "action_and_subject ''obj(reserve, LtG)'' = Some (''reserve'', ''LtG'')"
  "action_and_subject ''obj(accept, LtG)'' = Some (''accept'', ''LtG'')"
  "\<not> is_seed (utf8 ''obj(reserve, LtG)'')" "\<not> is_seed (utf8 ''obj(accept, LtG)'')"
  by code_simp+

definition purchase :: "delivery list" where
  "purchase = [(''ba'', utf8 ''obj(reserve, LtG)'', [1]), (''bs'', utf8 ''obj(accept, LtG)'', [])]"

theorem money_conserved_witness:
  "books 10000 (pa_state (nr_agent (snd (native_conversation (pa_agent example_json example_store) purchase (native_new example_pa)))))"
  by (rule money_conserved)
    (simp_all add: example_pa_def books_def money_def hm_sum_def hm_wf_def purchase_def example_verbs)

theorem restart_recovers_books_witness:
  "let p = nr_agent (snd (native_conversation (pa_agent example_json example_store) purchase
             (native_new (pa_with_db example_store None))))
   in pa_with_db example_store (pa_db p) = p"
  unfolding Let_def by (rule restart_recovers_books [OF example_store_laws refl])

definition example_held :: pa where
  "example_held = \<lparr>pa_db = None, pa_state = \<lparr>ps_ledger = [(''ba'', 9001)],
     ps_holds = [(''LtG'', \<lparr>hd_buyer = ''ba'', hd_seller = ''bs'', hd_amount = 999, hd_state = Held\<rparr>)]\<rparr>\<rparr>"

theorem hold_settled_by_parties_witness:
  "hm_get (ps_holds (pa_state (nr_agent (snd (native_conversation (pa_agent example_json example_store)
      [(''eve'', utf8 ''obj(accept, LtG)'', [])] (native_new example_held)))))) ''LtG''
     = Some \<lparr>hd_buyer = ''ba'', hd_seller = ''bs'', hd_amount = 999, hd_state = Held\<rparr>"
  using hold_settled_by_parties [of example_held "''LtG''"
      "\<lparr>hd_buyer = ''ba'', hd_seller = ''bs'', hd_amount = 999, hd_state = Held\<rparr>",
      OF _ refl, of example_json example_store "[(''eve'', utf8 ''obj(accept, LtG)'', [])]"]
  by (simp add: example_held_def asks_def example_verbs)

end
