(* ===== verification/Guest_Directory.thy ===== *)
theory Guest_Directory
  imports Guest_Pa "HOL-Library.List_Lexorder" "HOL-Library.Char_ord"
begin

text \<open>
  The directory agents: the white pages of \<^verbatim>\<open>agents/ams/src/lib.rs\<close>, from agents to
  addresses, and the yellow pages of \<^verbatim>\<open>agents/df/src/lib.rs\<close>, from services to
  providers. The readers that serde derives for the seeds are parameters, and so is the writer of a
  list of providers; a set of providers is a sorted list without repetition, as the program's ordered
  set iterates it.
\<close>

section \<open>White pages\<close>

record ams_agent =
  am_records :: "(string, string) hashmap"
  am_epochs :: "(string, u64) hashmap"
  am_upstream :: "string option"
  am_max_records :: usize

definition ams_agent_default :: ams_agent where
  "ams_agent_default = \<lparr>am_records = [], am_epochs = [], am_upstream = None, am_max_records = 65536\<rparr>"

definition ams_with_limit :: "usize \<Rightarrow> ams_agent \<Rightarrow> ams_agent" where
  "ams_with_limit n a = a\<lparr>am_max_records := n\<rparr>"

definition ams_bind :: "string \<Rightarrow> string \<Rightarrow> ams_agent \<Rightarrow> ams_agent" where
  "ams_bind agent address a =
     a\<lparr>am_records := hm_insert agent address (am_records a), am_epochs := hm_insert agent 0 (am_epochs a)\<rparr>"

definition ams_set_upstream :: "string \<Rightarrow> ams_agent \<Rightarrow> ams_agent" where
  "ams_set_upstream up a = a\<lparr>am_upstream := Some up\<rparr>"

definition ams_address :: "string \<Rightarrow> ams_agent \<Rightarrow> string option" where
  "ams_address agent a = hm_get (am_records a) agent"

record ams_seed =
  as_records :: "(string \<times> string) list"
  as_upstream :: "string option"

definition ams_on_seed :: "(bytes \<Rightarrow> ams_seed option) \<Rightarrow> bytes \<Rightarrow> ams_agent \<Rightarrow> ams_agent" where
  "ams_on_seed read d a =
     (case read d of
        None \<Rightarrow> a
      | Some seed \<Rightarrow>
          (let a = a\<lparr>am_records := fold (\<lambda>(k, v). hm_insert k v) (as_records seed) (am_records a)\<rparr>
           in if as_upstream seed \<noteq> None then a\<lparr>am_upstream := as_upstream seed\<rparr> else a))"

definition action_verb :: "string \<Rightarrow> string option" where
  "action_verb unl =
     (case parse_sentence unl of
        Inl _ \<Rightarrow> None
      | Inr g \<Rightarrow> (case ug_relations g of [] \<Rightarrow> None | r # _ \<Rightarrow> inline_word (rl_source r)))"

text \<open>The arbiter: may this address be bound at this epoch?\<close>

definition may_bind :: "string \<Rightarrow> string \<Rightarrow> u64 \<Rightarrow> ams_agent \<Rightarrow> bool" where
  "may_bind agent addr epoch a \<longleftrightarrow>
     (case hm_get (am_epochs a) agent of
        None \<Rightarrow> length (am_records a) < unat (am_max_records a)
      | Some ep0 \<Rightarrow> ep0 < epoch \<or> epoch = ep0 \<and> hm_get (am_records a) agent = Some addr)"

definition ams_on_bind :: "'j json_lib \<Rightarrow> bytes \<Rightarrow> ams_agent \<Rightarrow> ctx \<Rightarrow> ams_agent \<times> ctx" where
  "ams_on_bind J body a c =
     (case (json_str J body ''agent'', json_str J body ''address'') of
        (Some agent, Some addr) \<Rightarrow>
          if agent = cx_from c then
            (let epoch = (case json_u64 J body ''epoch'' of None \<Rightarrow> 0 | Some e \<Rightarrow> e);
                 bound = may_bind agent addr epoch a;
                 a = (if bound then a\<lparr>am_records := hm_insert agent addr (am_records a),
                                     am_epochs := hm_insert agent epoch (am_epochs a)\<rparr> else a)
             in (a, ctx_send (cx_from c) (''obj('' @ (if bound then ''bound'' else ''refuse'') @ '', agent)'') [] c))
          else (a, ctx_send (cx_from c) ''obj(refuse, agent)'' [] c)
      | _ \<Rightarrow> (a, ctx_send (cx_from c) ''obj(refuse, agent)'' [] c))"

definition ams_on_locate :: "'j json_lib \<Rightarrow> bytes \<Rightarrow> ams_agent \<Rightarrow> ctx \<Rightarrow> ctx" where
  "ams_on_locate J body a c =
     (case json_str J body ''agent'' of
        None \<Rightarrow> c
      | Some agent \<Rightarrow>
          (case hm_get (am_records a) agent of
             Some addr \<Rightarrow>
               ctx_send (cx_from c) ''obj(at, agent)''
                 (json_bytes J (js_object J [(''agent'', js_string J agent), (''address'', js_string J addr)])) c
           | None \<Rightarrow>
               (case am_upstream a of
                  Some up \<Rightarrow>
                    ctx_send (cx_from c) ''obj(refer, agent)''
                      (json_bytes J (js_object J [(''agent'', js_string J agent), (''ams'', js_string J up)])) c
                | None \<Rightarrow>
                    ctx_send (cx_from c) ''obj(at, agent)''
                      (json_bytes J (js_object J [(''agent'', js_string J agent)])) c)))"

definition ams_on_message :: "'j json_lib \<Rightarrow> string \<Rightarrow> bytes \<Rightarrow> ams_agent \<Rightarrow> ctx \<Rightarrow> ams_agent \<times> ctx" where
  "ams_on_message J unl body a c =
     (case action_verb unl of
        None \<Rightarrow> (a, c)
      | Some action \<Rightarrow>
          if action = ''bind'' then ams_on_bind J body a c
          else if action = ''locate'' then (a, ams_on_locate J body a c)
          else (a, c))"

definition ams_guest :: "'j json_lib \<Rightarrow> (bytes \<Rightarrow> ams_seed option) \<Rightarrow> ams_agent agent" where
  "ams_guest J read = (agent_with (\<lambda>unl body a c. (True, ams_on_message J unl body a c)))
     \<lparr>on_seed := \<lambda>d a c. (True, ams_on_seed read d a, c)\<rparr>"

lemma ams_guest_simps [simp]:
  "on_init (ams_guest J read) = returns" "on_tick (ams_guest J read) i t = returns"
  "on_seed (ams_guest J read) d a c = (True, ams_on_seed read d a, c)"
  "on_message (ams_guest J read) unl body a c = (True, ams_on_message J unl body a c)"
  by (simp_all add: ams_guest_def agent_with_def)

section \<open>Yellow pages\<close>

record df_agent =
  da_registry :: "(string, string list) hashmap"
  da_max_services :: usize
  da_max_providers :: usize

definition df_agent_default :: df_agent where
  "df_agent_default = \<lparr>da_registry = [], da_max_services = 4096, da_max_providers = 256\<rparr>"

definition df_with_limits :: "usize \<Rightarrow> usize \<Rightarrow> df_agent \<Rightarrow> df_agent" where
  "df_with_limits services providers d = d\<lparr>da_max_services := services, da_max_providers := providers\<rparr>"

text \<open>Insertion into an ordered set.\<close>

definition set_insert :: "string \<Rightarrow> string list \<Rightarrow> string list" where
  "set_insert x xs = (if x \<in> set xs then xs else insort x xs)"

definition entry_or_default :: "string \<Rightarrow> df_agent \<Rightarrow> string list" where
  "entry_or_default service d = (case hm_get (da_registry d) service of None \<Rightarrow> [] | Some ps \<Rightarrow> ps)"

abbreviation df_providers :: "df_agent \<Rightarrow> string \<Rightarrow> string list" where
  "df_providers d service \<equiv> entry_or_default service d"

definition df_on_seed ::
    "(bytes \<Rightarrow> (string \<times> string list) list option) \<Rightarrow> bytes \<Rightarrow> df_agent \<Rightarrow> df_agent" where
  "df_on_seed read b d =
     (case read b of
        None \<Rightarrow> d
      | Some seed \<Rightarrow>
          fold (\<lambda>(service, ps) d. d\<lparr>da_registry := hm_insert service
            (fold set_insert ps (entry_or_default service d)) (da_registry d)\<rparr>) seed d)"

text \<open>An offer: whether it was registered, and the registry after it.\<close>

definition df_offer :: "string \<Rightarrow> string \<Rightarrow> df_agent \<Rightarrow> bool \<times> df_agent" where
  "df_offer service from d =
     (if \<not> hm_contains (da_registry d) service \<and> unat (da_max_services d) \<le> length (da_registry d)
      then (False, d)
      else
        (let ps = entry_or_default service d in
         if unat (da_max_providers d) \<le> length ps \<and> from \<notin> set ps
         then (False, d\<lparr>da_registry := hm_insert service ps (da_registry d)\<rparr>)
         else (True, d\<lparr>da_registry := hm_insert service (set_insert from ps) (da_registry d)\<rparr>)))"

definition df_on_message :: "(string list \<Rightarrow> bytes option) \<Rightarrow> string \<Rightarrow> df_agent \<Rightarrow> ctx \<Rightarrow> df_agent \<times> ctx" where
  "df_on_message list_text unl d c =
     (case action_and_subject unl of
        None \<Rightarrow> (d, c)
      | Some (action, service) \<Rightarrow>
          if action = ''offer'' then
            (let (registered, d) = df_offer service (cx_from c) d in
             (d, ctx_send (cx_from c)
                   (''obj('' @ (if registered then ''registered'' else ''refuse'') @ '', '' @ service @ '')'') [] c))
          else if action = ''seek'' then
            (d, ctx_send (cx_from c) (''obj(provide, '' @ service @ '')'')
                  (case list_text (df_providers d service) of None \<Rightarrow> [] | Some b \<Rightarrow> b) c)
          else (d, c))"

definition df_guest ::
    "(string list \<Rightarrow> bytes option) \<Rightarrow> (bytes \<Rightarrow> (string \<times> string list) list option) \<Rightarrow> df_agent agent" where
  "df_guest list_text read = (agent_with (\<lambda>unl body d c. (True, df_on_message list_text unl d c)))
     \<lparr>on_seed := \<lambda>b d c. (True, df_on_seed read b d, c)\<rparr>"

lemma df_guest_simps [simp]:
  "on_init (df_guest w read) = returns" "on_tick (df_guest w read) i t = returns"
  "on_seed (df_guest w read) b d c = (True, df_on_seed read b d, c)"
  "on_message (df_guest w read) unl body d c = (True, df_on_message w unl d c)"
  by (simp_all add: df_guest_def agent_with_def)

section \<open>Locations\<close>

definition body_epoch :: "'j json_lib \<Rightarrow> bytes \<Rightarrow> u64" where
  "body_epoch J body = (case json_u64 J body ''epoch'' of None \<Rightarrow> 0 | Some e \<Rightarrow> e)"

definition bind_at :: "string \<Rightarrow> string \<Rightarrow> u64 \<Rightarrow> ams_agent \<Rightarrow> ams_agent" where
  "bind_at agent addr epoch a =
     a\<lparr>am_records := hm_insert agent addr (am_records a), am_epochs := hm_insert agent epoch (am_epochs a)\<rparr>"

lemma ams_on_bind_cases:
  "fst (ams_on_bind J body a c) = a
   \<or> (\<exists>addr. json_str J body ''agent'' = Some (cx_from c) \<and> json_str J body ''address'' = Some addr
        \<and> may_bind (cx_from c) addr (body_epoch J body) a
        \<and> fst (ams_on_bind J body a c) = bind_at (cx_from c) addr (body_epoch J body) a)"
proof (cases "json_str J body ''agent''")
  case (Some agent)
  show ?thesis
  proof (cases "json_str J body ''address''")
    case (Some addr)
    then show ?thesis
      by (cases "agent = cx_from c"; cases "may_bind (cx_from c) addr (body_epoch J body) a")
        (simp_all add: ams_on_bind_def body_epoch_def [symmetric] bind_at_def \<open>json_str J body ''agent'' = _\<close> Let_def)
  qed (simp add: ams_on_bind_def Some)
qed (simp add: ams_on_bind_def)

lemma ams_message_cases:
  obtains (same) "fst (ams_on_message J unl body a c) = a"
  | (bound) addr where "action_verb unl = Some ''bind''" "json_str J body ''agent'' = Some (cx_from c)"
      "json_str J body ''address'' = Some addr" "may_bind (cx_from c) addr (body_epoch J body) a"
      "fst (ams_on_message J unl body a c) = bind_at (cx_from c) addr (body_epoch J body) a"
proof (cases "action_verb unl = Some ''bind''")
  case True
  then have "ams_on_message J unl body a c = ams_on_bind J body a c" by (simp add: ams_on_message_def)
  with ams_on_bind_cases [of J body a c] True show ?thesis using same bound by metis
next
  case False
  then have "fst (ams_on_message J unl body a c) = a"
    by (auto simp: ams_on_message_def split: option.splits)
  then show ?thesis by (rule same)
qed

lemma bind_at_simps [simp]:
  "hm_get (am_records (bind_at agent addr e a)) k = (if k = agent then Some addr else hm_get (am_records a) k)"
  "hm_get (am_epochs (bind_at agent addr e a)) k = (if k = agent then Some e else hm_get (am_epochs a) k)"
  "am_max_records (bind_at agent addr e a) = am_max_records a"
  by (simp_all add: bind_at_def hashmap_simps)


text \<open>The epoch of an agent never goes back, seeds included.\<close>

definition epoch_reached :: "string \<Rightarrow> u64 \<Rightarrow> ams_agent \<Rightarrow> bool" where
  "epoch_reached agent e a \<longleftrightarrow> (case hm_get (am_epochs a) agent of None \<Rightarrow> False | Some e' \<Rightarrow> e \<le> e')"

lemma seed_keeps_epochs [simp]:
  "am_epochs (ams_on_seed read d a) = am_epochs a" "am_max_records (ams_on_seed read d a) = am_max_records a"
  by (simp_all add: ams_on_seed_def Let_def split: option.splits)

interpretation forward: seeded_invariant "ams_guest J read" "epoch_reached agent e" for J read agent e
proof unfold_locales
  fix a :: ams_agent and unl body c
  assume e: "epoch_reached agent e a"
  show "epoch_reached agent e (fst (snd (on_message (ams_guest J read) unl body a c)))"
  proof (cases rule: ams_message_cases [of J unl body a c])
    case (bound addr)
    with e show ?thesis by (auto simp: epoch_reached_def may_bind_def split: option.splits)
  qed (use e in simp)
qed (simp_all add: epoch_reached_def)

text \<open>The table stays within its limit, unless a seed fills it.\<close>

interpretation roomy: guest_invariant "ams_guest J read"
    "\<lambda>a. length (am_records a) \<le> unat (am_max_records a) \<and> fst ` set (am_epochs a) \<subseteq> fst ` set (am_records a)"
  for J read
proof unfold_locales
  fix a :: ams_agent and unl body c
  assume i: "length (am_records a) \<le> unat (am_max_records a) \<and> fst ` set (am_epochs a) \<subseteq> fst ` set (am_records a)"
  show "length (am_records (fst (snd (on_message (ams_guest J read) unl body a c))))
      \<le> unat (am_max_records (fst (snd (on_message (ams_guest J read) unl body a c))))
      \<and> fst ` set (am_epochs (fst (snd (on_message (ams_guest J read) unl body a c))))
        \<subseteq> fst ` set (am_records (fst (snd (on_message (ams_guest J read) unl body a c))))"
  proof (cases rule: ams_message_cases [of J unl body a c])
    case (bound addr)
    have known: "hm_get (am_epochs a) k = Some e \<Longrightarrow> hm_contains (am_records a) k" for k e
      using i by (force simp: hm_contains_def dest: map_of_SomeD)
    have "hm_contains (am_records a) (cx_from c) \<or> length (am_records a) < unat (am_max_records a)"
      using bound(4) known by (auto simp: may_bind_def split: option.splits)
    then have "length (hm_insert (cx_from c) addr (am_records a)) \<le> unat (am_max_records a)"
      using i by (auto simp: length_hm_insert)
    moreover have "insert (cx_from c) (fst ` set (am_epochs a)) \<subseteq> insert (cx_from c) (fst ` set (am_records a))"
      using i by blast
    ultimately show ?thesis by (simp add: bound(5) bind_at_def hm_keys_insert)
  qed (use i in simp)
qed simp_all

text \<open>
  A seeded address has no epoch. With the table full, the seeded agent itself is refused: a record
  without an epoch counts as a new one.
\<close>

lemma seeded_agent_refused_when_full:
  assumes "hm_get (am_epochs a) agent = None" and "unat (am_max_records a) \<le> length (am_records a)"
  shows "\<not> may_bind agent addr epoch a"
  using assms by (simp add: may_bind_def)

section \<open>Services\<close>

lemma set_insert_simps [simp]:
  "set (set_insert x xs) = insert x (set xs)" "sorted xs \<Longrightarrow> sorted (set_insert x xs)"
  "distinct xs \<Longrightarrow> distinct (set_insert x xs)"
  by (auto simp: set_insert_def set_insort_key sorted_insort distinct_insort)

lemma length_set_insert: "length (set_insert x xs) = (if x \<in> set xs then length xs else Suc (length xs))"
  by (simp add: set_insert_def)

text \<open>
  The yellow pages list who offered. An offer is registered or refused as a whole: registered,
  the sender becomes a provider of that service and of no other; refused, nobody's services change.
  It is refused exactly if the service is unknown and the table of services full, or the service
  has as many providers as it may and the sender is not one of them.
\<close>

theorem offer_registers_sender:
  "let (ok, d') = df_offer service p d in
     (\<forall>s. set (df_providers d' s) = (if s = service \<and> ok then insert p (set (df_providers d s)) else set (df_providers d s)))
     \<and> ok = (\<not> (hm_get (da_registry d) service = None \<and> unat (da_max_services d) \<le> length (da_registry d))
         \<and> (p \<in> set (df_providers d service) \<or> length (df_providers d service) < unat (da_max_providers d)))"
  by (auto simp: df_offer_def entry_or_default_def hashmap_simps Let_def not_less split: option.splits)

text \<open>The limits on services and on the providers of each; each list is sorted and free of repetitions.\<close>

definition df_limits :: "df_agent \<Rightarrow> bool" where
  "df_limits d \<longleftrightarrow> length (da_registry d) \<le> unat (da_max_services d)
     \<and> (\<forall>s. length (df_providers d s) \<le> unat (da_max_providers d)
          \<and> sorted (df_providers d s) \<and> distinct (df_providers d s))"

lemma limits_insert:
  assumes "df_limits d" and "length ps \<le> unat (da_max_providers d) \<and> sorted ps \<and> distinct ps"
    and "hm_get (da_registry d) service \<noteq> None \<or> length (da_registry d) < unat (da_max_services d)"
  shows "df_limits (d\<lparr>da_registry := hm_insert service ps (da_registry d)\<rparr>)"
  using assms by (auto simp: df_limits_def entry_or_default_def hashmap_simps length_hm_insert)

lemma offer_limits:
  assumes "df_limits d"
  shows "df_limits (snd (df_offer service p d))"
proof -
  let ?ps = "entry_or_default service d"
  have ps: "length ?ps \<le> unat (da_max_providers d) \<and> sorted ?ps \<and> distinct ?ps"
    using assms unfolding df_limits_def by blast
  then have "length (set_insert p ?ps) \<le> unat (da_max_providers d)"
    if "\<not> (unat (da_max_providers d) \<le> length ?ps \<and> p \<notin> set ?ps)"
    using that by (auto simp: length_set_insert)
  with ps have ins: "length (set_insert p ?ps) \<le> unat (da_max_providers d)
      \<and> sorted (set_insert p ?ps) \<and> distinct (set_insert p ?ps)"
    if "\<not> (unat (da_max_providers d) \<le> length ?ps \<and> p \<notin> set ?ps)"
    using that by simp
  show ?thesis
  proof (cases "\<not> hm_contains (da_registry d) service \<and> unat (da_max_services d) \<le> length (da_registry d)")
    case True
    then show ?thesis using assms by (simp add: df_offer_def)
  next
    case False
    then have room: "hm_get (da_registry d) service \<noteq> None \<or> length (da_registry d) < unat (da_max_services d)"
      by (auto simp: hm_contains_get)
    show ?thesis
    proof (cases "unat (da_max_providers d) \<le> length ?ps \<and> p \<notin> set ?ps")
      case True
      then show ?thesis using False limits_insert [OF assms ps room] by (auto simp: df_offer_def Let_def)
    next
      case False
      then show ?thesis using \<open>\<not> (\<not> hm_contains _ _ \<and> _)\<close> limits_insert [OF assms ins room]
        by (auto simp: df_offer_def Let_def)
    qed
  qed
qed

interpretation bounded: guest_invariant "df_guest w read" df_limits for w read
  by unfold_locales
    (auto simp: df_on_message_def offer_limits Let_def case_prod_unfold split: option.splits)

section \<open>Examples\<close>

definition bind_json :: "example_value json_lib" where
  "bind_json = example_json\<lparr>js_parse := (\<lambda>b. Some (EObject
     [(''agent'', EText ''bs''), (''address'', EText ''10.0.0.2:9''), (''epoch'', ENumber 1)]))\<rparr>"

lemma bind_verb: "action_verb ''obj(bind, agent)'' = Some ''bind''"
  by code_simp


end
