(* ===== verification/Node_Process.thy ===== *)
theory Node_Process
  imports Node_Wire Guest_Runtime
begin

text \<open>
  An agent in a process of its own, \<^verbatim>\<open>src/process/mod.rs\<close>: the frames between the node
  and the agent host, the loop of the host (\<open>serve\<close>) and the handle of the node
  (\<open>ProcessRuntime\<close>), which the node drives like any other runtime.

  The socket is a stream of bytes in each direction. Spawning the child, its resource limits and
  killing it are left to the operating system and not modelled; a child that has left its loop is
  \<open>None\<close>. A call may find the host late: the bytes of the answer arrive after the read timeout. The
  text of an error is kept up to the debug print of the offending frame. \<open>lossy\<close> is what
  \<open>from_utf8_lossy\<close> makes of bytes that are not text; its replacement character is outside the
  characters of the model.
\<close>

section \<open>Frames\<close>

datatype ipc_frame =
    InitFrame
  | ConfigFrame string bytes bytes
  | EmitFrame string bytes bytes
  | DoneFrame

fun frame_payload :: "ipc_frame \<Rightarrow> bytes" where
  "frame_payload InitFrame = [0x01]"
| "frame_payload (ConfigFrame from unl body) = wire_put (wire_put (wire_put [0x02] (utf8 from)) unl) body"
| "frame_payload (EmitFrame receiver unl body) = wire_put (wire_put (wire_put [0x10] (utf8 receiver)) unl) body"
| "frame_payload DoneFrame = [0x11]"

definition write_frame :: "ipc_frame \<Rightarrow> bytes" where
  "write_frame f = u32_to_be_bytes (of_nat (length (frame_payload f))) @ frame_payload f"

definition lossy_text :: "(bytes \<Rightarrow> string) \<Rightarrow> bytes \<Rightarrow> string" where
  "lossy_text lossy b = (case from_utf8 b of Some s \<Rightarrow> s | None \<Rightarrow> lossy b)"

text \<open>The three fields of a frame, from the position after its tag.\<close>

definition frame_fields :: "(bytes \<Rightarrow> string) \<Rightarrow> bytes \<Rightarrow> (string \<times> bytes \<times> bytes) option" where
  "frame_fields lossy buf =
     (case wire_get buf 1 of
        None \<Rightarrow> None
      | Some (a, p) \<Rightarrow>
          (case wire_get buf p of
             None \<Rightarrow> None
           | Some (unl, p) \<Rightarrow>
               (case wire_get buf p of None \<Rightarrow> None | Some (body, _) \<Rightarrow> Some (lossy_text lossy a, unl, body))))"

definition parse_frame :: "(bytes \<Rightarrow> string) \<Rightarrow> bytes \<Rightarrow> string + ipc_frame" where
  "parse_frame lossy buf =
     (case buf of
        [] \<Rightarrow> Inl ''empty/bad frame''
      | tag # _ \<Rightarrow>
          if tag = 0x01 then Inr InitFrame
          else if tag = 0x02 then
            (case frame_fields lossy buf of
               None \<Rightarrow> Inl ''short frame'' | Some (from, unl, body) \<Rightarrow> Inr (ConfigFrame from unl body))
          else if tag = 0x10 then
            (case frame_fields lossy buf of
               None \<Rightarrow> Inl ''short frame'' | Some (receiver, unl, body) \<Rightarrow> Inr (EmitFrame receiver unl body))
          else if tag = 0x11 then Inr DoneFrame
          else Inl ''empty/bad frame'')"

text \<open>
  One frame from a stream that ends where the bytes end, and the rest of the stream. Fewer than
  four bytes are a clean end of the stream, also when there are some.
\<close>

definition read_frame :: "(bytes \<Rightarrow> string) \<Rightarrow> bytes \<Rightarrow> (string + ipc_frame option) \<times> bytes" where
  "read_frame lossy bs =
     (if length bs < 4 then (Inr None, [])
      else
        (let n = unat (u32_from_be_bytes (take 4 bs)); r = drop 4 bs in
         if length r < n then (Inl ''failed to fill whole buffer'', [])
         else (case parse_frame lossy (take n r) of Inl e \<Rightarrow> Inl e | Inr f \<Rightarrow> Inr (Some f), drop n r)))"

lemma read_frame_shorter: "read_frame lossy bs = (Inr (Some f), r) \<Longrightarrow> length r < length bs"
  by (auto simp: read_frame_def Let_def split: if_splits sum.splits)

section \<open>The agent host\<close>

definition flush_bytes :: "outbound_intent list \<Rightarrow> bytes" where
  "flush_bytes os =
     concat (map (\<lambda>s. write_frame (EmitFrame (oi_receiver s) (oi_unl s) (oi_body s))) os) @ write_frame DoneFrame"

text \<open>One turn of the loop: what the host answers, and its runtime unless the loop ends.\<close>

definition serve_frame :: "'r agent_runtime \<Rightarrow> ipc_frame \<Rightarrow> 'r \<Rightarrow> bytes \<times> 'r option" where
  "serve_frame V f r =
     (case f of
        InitFrame \<Rightarrow>
          (case rt_init V r of
             (Inl _, _) \<Rightarrow> ([], None)
           | (Inr _, r) \<Rightarrow> (let (os, r) = rt_take_sends V r in (flush_bytes os, Some r)))
      | ConfigFrame from unl body \<Rightarrow>
          (case rt_config V from unl body r of
             (Inl _, _) \<Rightarrow> ([], None)
           | (Inr _, r) \<Rightarrow> (let (os, r) = rt_take_sends V r in (flush_bytes os, Some r)))
      | _ \<Rightarrow> ([], None))"

function serve :: "'r agent_runtime \<Rightarrow> (bytes \<Rightarrow> string) \<Rightarrow> bytes \<Rightarrow> 'r \<Rightarrow> bytes \<times> 'r option" where
  "serve V lossy input r =
     (case read_frame lossy input of
        (Inr (Some f), rest) \<Rightarrow>
          (case serve_frame V f r of
             (out, None) \<Rightarrow> (out, None)
           | (out, Some r) \<Rightarrow> (let (out', r') = serve V lossy rest r in (out @ out', r')))
      | (Inr None, _) \<Rightarrow> ([], Some r)
      | (Inl _, _) \<Rightarrow> ([], None))"
  by pat_completeness auto
termination
  by (relation "measure (\<lambda>(V, lossy, input, r). length input)") (auto dest: read_frame_shorter [OF sym])

section \<open>The handle of the node\<close>

record 'r process_runtime =
  pr_host :: "'r option"
  pr_stream :: bytes
  pr_outbox :: "outbound_intent list"

definition process_new :: "'r \<Rightarrow> 'r process_runtime" where
  "process_new r = \<lparr>pr_host = Some r, pr_stream = [], pr_outbox = []\<rparr>"

text \<open>
  The loop that reads the answer: the result, the outbox and the bytes left unread. \<open>at_end\<close> is the
  error at the end of the bytes: the host is gone, or the read timed out.
\<close>

function read_answer ::
    "string \<Rightarrow> (bytes \<Rightarrow> string) \<Rightarrow> bytes \<Rightarrow> outbound_intent list \<Rightarrow> (string + unit) \<times> outbound_intent list \<times> bytes"
  where
  "read_answer at_end lossy bs out =
     (case read_frame lossy bs of
        (Inl e, r) \<Rightarrow> (Inl e, out, r)
      | (Inr None, r) \<Rightarrow> (Inl at_end, out, r)
      | (Inr (Some f), r) \<Rightarrow>
          (case f of
             EmitFrame receiver unl body \<Rightarrow>
               read_answer at_end lossy r (out @ [\<lparr>oi_receiver = receiver, oi_unl = unl, oi_body = body\<rparr>])
           | DoneFrame \<Rightarrow> (Inr (), out, r)
           | _ \<Rightarrow> (Inl ''unexpected frame from agent host'', out, r)))"
  by pat_completeness auto
termination
  by (relation "measure (\<lambda>(at_end, lossy, bs, out). length bs)") (auto dest: read_frame_shorter [OF sym])

declare serve.simps [simp del] read_answer.simps [simp del]

text \<open>What the host makes of a request.\<close>

definition host_answer :: "'r agent_runtime \<Rightarrow> (bytes \<Rightarrow> string) \<Rightarrow> ipc_frame \<Rightarrow> 'r \<Rightarrow> bytes \<times> 'r option" where
  "host_answer V lossy req r =
     (case read_frame lossy (write_frame req) of
        (Inr (Some f), _) \<Rightarrow> serve_frame V f r
      | _ \<Rightarrow> ([], None))"

definition round_trip ::
    "'r agent_runtime \<Rightarrow> (bytes \<Rightarrow> string) \<Rightarrow> bool \<Rightarrow> ipc_frame \<Rightarrow> 'r process_runtime \<Rightarrow> (string + unit) \<times> 'r process_runtime"
  where
  "round_trip V lossy late req h =
     (case pr_host h of
        None \<Rightarrow> (Inl ''Broken pipe'', h)
      | Some r \<Rightarrow>
          (let (answer, host) = host_answer V lossy req r in
           if late then
             (let (res, out, rest) = read_answer ''timed out'' lossy (pr_stream h) (pr_outbox h)
              in (res, h\<lparr>pr_host := host, pr_stream := rest @ answer, pr_outbox := out\<rparr>))
           else
             (let (res, out, rest) = read_answer ''agent host disconnected'' lossy (pr_stream h @ answer) (pr_outbox h)
              in (res, h\<lparr>pr_host := host, pr_stream := rest, pr_outbox := out\<rparr>))))"

text \<open>The runtime over a host that answers in time; what the trait leaves to its defaults does nothing.\<close>

definition process_vtable :: "'r agent_runtime \<Rightarrow> (bytes \<Rightarrow> string) \<Rightarrow> 'r process_runtime agent_runtime" where
  "process_vtable V lossy = \<lparr>rt_init = round_trip V lossy False InitFrame,
     rt_config = (\<lambda>from unl body. round_trip V lossy False (ConfigFrame from unl body)),
     rt_take_sends = (\<lambda>h. (pr_outbox h, h\<lparr>pr_outbox := []\<rparr>)),
     rt_run = (\<lambda>h. (Inr True, h)), rt_shutdown = (\<lambda>h. (Inr (), h)), rt_snapshot = (\<lambda>h. ([], h)),
     rt_restore = (\<lambda>_ h. h), rt_tick = (\<lambda>_ _ h. (Inr (), h)), rt_take_timer_ops = (\<lambda>h. ([], h)),
     rt_set_state = (\<lambda>_ h. h), rt_set_keyring = (\<lambda>h. h), rt_take_infer_reqs = (\<lambda>h. ([], h)),
     rt_take_spawn_reqs = (\<lambda>h. ([], h))\<rparr>"

section \<open>Frames survive the socket\<close>

definition frame_fits :: "ipc_frame \<Rightarrow> bool" where
  "frame_fits f \<longleftrightarrow> length (frame_payload f) < 2 ^ 32"

lemma frame_fields_framed:
  assumes "frameable (utf8 a)" and "frameable b" and "frameable c"
  shows "frame_fields lossy (t # framed (utf8 a) @ framed b @ framed c) = Some (a, b, c)"
proof -
  let ?b = "t # framed (utf8 a) @ framed b @ framed c"
  have 0: "drop 1 ?b = framed (utf8 a) @ framed b @ framed c" by simp
  note 1 = wire_get_framed(2) [OF 0 assms(1)] and g1 = wire_get_framed(1) [OF 0 assms(1)]
  note 2 = wire_get_framed(2) [OF 1 assms(2)] and g2 = wire_get_framed(1) [OF 1 assms(2)]
  have 3: "drop (1 + 4 + length (utf8 a) + 4 + length b) ?b = framed c @ []" using 2 by simp
  note g3 = wire_get_framed(1) [OF 3 assms(3)]
  show ?thesis by (simp only: frame_fields_def g1 g2 g3 option.case prod.case lossy_text_def from_utf8_utf8)
qed

lemmas frame_fields_flat = frame_fields_framed [unfolded append_assoc]

lemma parse_frame_payload: "frame_fits f \<Longrightarrow> parse_frame lossy (frame_payload f) = Inr f"
proof (cases f)
  case (ConfigFrame a b c)
  moreover assume "frame_fits f"
  ultimately have "frameable (utf8 a)" "frameable b" "frameable c" by (simp_all add: frame_fits_def wire_put_framed)
  from frame_fields_flat [OF this] show ?thesis by (simp add: ConfigFrame parse_frame_def wire_put_framed)
next
  case (EmitFrame a b c)
  moreover assume "frame_fits f"
  ultimately have "frameable (utf8 a)" "frameable b" "frameable c" by (simp_all add: frame_fits_def wire_put_framed)
  from frame_fields_flat [OF this] show ?thesis by (simp add: EmitFrame parse_frame_def wire_put_framed)
qed (simp_all add: parse_frame_def)

lemma read_write_frame: "frame_fits f \<Longrightarrow> read_frame lossy (write_frame f @ rest) = (Inr (Some f), rest)"
  by (simp add: read_frame_def write_frame_def frame_fits_def parse_frame_payload unat_length_prefix
      del: unat_of_nat)

definition intent_fits :: "outbound_intent \<Rightarrow> bool" where
  "intent_fits s \<longleftrightarrow> frame_fits (EmitFrame (oi_receiver s) (oi_unl s) (oi_body s))"

lemma read_flush:
  assumes "list_all intent_fits os"
  shows "read_answer at_end lossy (flush_bytes os @ rest) out = (Inr (), out @ os, rest)"
  using assms
proof (induction os arbitrary: out)
  case Nil
  have "frame_fits DoneFrame" by (simp add: frame_fits_def)
  then show ?case by (simp add: flush_bytes_def read_answer.simps [of at_end lossy "write_frame _ @ _"] read_write_frame)
next
  case (Cons s os)
  let ?f = "EmitFrame (oi_receiver s) (oi_unl s) (oi_body s)"
  have "frame_fits ?f" using Cons.prems by (simp add: intent_fits_def)
  then have "read_answer at_end lossy (flush_bytes (s # os) @ rest) out
      = read_answer at_end lossy (flush_bytes os @ rest) (out @ [s])"
    by (cases s) (simp add: flush_bytes_def read_answer.simps [of at_end lossy "write_frame (EmitFrame _ _ _) @ _"]
        read_write_frame)
  then show ?case using Cons by simp
qed

section \<open>An isolated agent behaves like one in the process\<close>

text \<open>A conversation with a runtime: the messages are delivered in turn, each must succeed, and what was sent is taken.\<close>

fun vt_conversation :: "'r agent_runtime \<Rightarrow> delivery list \<Rightarrow> 'r \<Rightarrow> (outbound_intent list list \<times> 'r) option" where
  "vt_conversation V [] r = Some ([], r)"
| "vt_conversation V ((from, unl, body) # ms) r =
     (case rt_config V from unl body r of
        (Inl _, _) \<Rightarrow> None
      | (Inr _, r) \<Rightarrow>
          (let (os, r) = rt_take_sends V r
           in map_option (\<lambda>(ss, r). (os # ss, r)) (vt_conversation V ms r)))"

lemma host_answer_config:
  "frame_fits (ConfigFrame from unl body) \<Longrightarrow>
   host_answer V lossy (ConfigFrame from unl body) r = serve_frame V (ConfigFrame from unl body) r"
  using read_write_frame [of _ lossy "[]"] by (simp add: host_answer_def)

lemma process_turn:
  assumes "rt_config V from unl body r = (Inr (), r1)" and "rt_take_sends V r1 = (os, r2)"
    and "frame_fits (ConfigFrame from unl body)" and "list_all intent_fits os"
  shows "rt_config (process_vtable V lossy) from unl body (process_new r)
           = (Inr (), (process_new r2)\<lparr>pr_outbox := os\<rparr>)"
  using assms read_flush [OF assms(4), of "''agent host disconnected''" lossy "[]" "[]"]
  by (simp add: process_vtable_def round_trip_def process_new_def host_answer_config serve_frame_def)

text \<open>
  C8: Isolation is transparent. If every message of a conversation succeeds with an agent in the
  node's process, the same agent in an agent host, answering in time, emits the same messages after
  each of them and ends in the same state, provided every frame fits its 32-bit length.
\<close>

theorem isolation_transparent:
  assumes "vt_conversation V ms r = Some (sends, r')"
    and "list_all (\<lambda>(from, unl, body). frame_fits (ConfigFrame from unl body)) ms"
    and "list_all (list_all intent_fits) sends"
  shows "vt_conversation (process_vtable V lossy) ms (process_new r) = Some (sends, process_new r')"
  using assms
proof (induction ms arbitrary: r sends)
  case (Cons m ms)
  obtain "from" unl body where m: "m = (from, unl, body)" by (cases m) auto
  from Cons.prems(1) obtain r1 os r2 ss where c: "rt_config V from unl body r = (Inr (), r1)"
    and t: "rt_take_sends V r1 = (os, r2)" and v: "vt_conversation V ms r2 = Some (ss, r')" and s: "sends = os # ss"
    by (auto simp: m split: prod.splits sum.splits)
  have "rt_config (process_vtable V lossy) from unl body (process_new r) = (Inr (), (process_new r2)\<lparr>pr_outbox := os\<rparr>)"
    using Cons.prems(2,3) m s by (intro process_turn [OF c t]) simp_all
  moreover have "rt_take_sends (process_vtable V lossy) ((process_new r2)\<lparr>pr_outbox := os\<rparr>) = (os, process_new r2)"
    by (simp add: process_vtable_def process_new_def)
  moreover have "vt_conversation (process_vtable V lossy) ms (process_new r2) = Some (ss, process_new r')"
    using Cons.prems(2,3) by (intro Cons.IH [OF v]) (simp_all add: m s)
  ultimately show ?case by (simp add: m s)
qed simp

text \<open>
  A fault is where they differ: a runtime in the process reports it and goes on, a host leaves its
  loop, so that every later call fails until the agent is started again.
\<close>

lemma host_leaves_after_fault:
  assumes "fst (rt_config V from unl body r) = Inl e" and "frame_fits (ConfigFrame from unl body)"
  shows "rt_config (process_vtable V lossy) from unl body (process_new r)
           = (Inl ''agent host disconnected'', (process_new r)\<lparr>pr_host := None\<rparr>)"
    and "rt_config (process_vtable V lossy) from' unl' body' ((process_new r)\<lparr>pr_host := None\<rparr>)
           = (Inl ''Broken pipe'', (process_new r)\<lparr>pr_host := None\<rparr>)"
  using assms
  by (auto simp: process_vtable_def round_trip_def process_new_def host_answer_config serve_frame_def
      read_answer.simps [of _ _ "[]"] read_frame_def split: prod.splits)

text \<open>
  A late answer is taken for the answer to the next request. After a call that timed out, the next
  call succeeds with the messages of the first one, and its own stay in the stream.
\<close>

lemma late_answer_misattributed:
  assumes "host_answer V lossy a r = (flush_bytes os, Some r1)" and "list_all intent_fits os"
    and "host_answer V lossy b r1 = (flush_bytes os', Some r2)"
  shows "round_trip V lossy True a (process_new r)
           = (Inl ''timed out'', (process_new r1)\<lparr>pr_stream := flush_bytes os\<rparr>)"
    and "round_trip V lossy False b ((process_new r1)\<lparr>pr_stream := flush_bytes os\<rparr>)
           = (Inr (), \<lparr>pr_host = Some r2, pr_stream = flush_bytes os', pr_outbox = os\<rparr>)"
  using assms read_flush [OF assms(2), of "''agent host disconnected''" lossy "flush_bytes os'" "[]"]
  by (simp_all add: round_trip_def process_new_def read_answer.simps [of _ _ "[]"] read_frame_def)

text \<open>What a hosted agent asks for besides messages is lost: the trait's defaults answer for it.\<close>

lemma hosted_agents_lose_requests:
  "fst (rt_take_timer_ops (process_vtable V lossy) h) = []"
  "fst (rt_take_spawn_reqs (process_vtable V lossy) h) = []"
  "fst (rt_snapshot (process_vtable V lossy) h) = []"
  "rt_restore (process_vtable V lossy) b h = h"
  by (simp_all add: process_vtable_def)

lemma echo_conversation:
  "vt_conversation (native_vtable echo_agent) [(''al'', [0x68], [5])] (native_new ())
     = Some ([[\<lparr>oi_receiver = ''peer'', oi_unl = [0x68], oi_body = [5]\<rparr>]], native_new ())"
  by code_simp

theorem isolation_transparent_witness:
  "vt_conversation (process_vtable (native_vtable echo_agent) (\<lambda>_. [])) [(''al'', [0x68], [5])] (process_new (native_new ()))
     = Some ([[\<lparr>oi_receiver = ''peer'', oi_unl = [0x68], oi_body = [5]\<rparr>]], process_new (native_new ()))"
  by (rule isolation_transparent [OF echo_conversation])
    (simp_all add: frame_fits_def intent_fits_def wire_put_framed utf8_def utf8_char_def)

end
