(* ===== verification/Node_Router.thy ===== *)
theory Node_Router
  imports Guest_Pa
begin

text \<open>
  The router between the agents of one node, \<^verbatim>\<open>src/process/router.rs\<close>, with the aliases
  of \<^verbatim>\<open>src/identity.rs\<close>. The agents are runtimes of one type \<open>'r\<close> driven by one record
  of operations; \<open>boxed\<close> makes one of two, as a table of trait objects does. The trace the router
  prints is left out.
\<close>

section \<open>Aliases\<close>

record aliases =
  al_by_name :: "(string, string) hashmap"
  al_by_id :: "(string, string) hashmap"

definition aliases_new :: aliases where
  "aliases_new = \<lparr>al_by_name = [], al_by_id = []\<rparr>"

definition alias_bind :: "string \<Rightarrow> string \<Rightarrow> aliases \<Rightarrow> aliases" where
  "alias_bind handle uuid a =
     a\<lparr>al_by_name := hm_insert handle uuid (al_by_name a), al_by_id := hm_insert uuid handle (al_by_id a)\<rparr>"

definition alias_id_of :: "string \<Rightarrow> aliases \<Rightarrow> string option" where
  "alias_id_of handle a = hm_get (al_by_name a) handle"

definition alias_name_of :: "string \<Rightarrow> aliases \<Rightarrow> string option" where
  "alias_name_of uuid a = hm_get (al_by_id a) uuid"

definition alias_label :: "string \<Rightarrow> aliases \<Rightarrow> string" where
  "alias_label uuid a = (case alias_name_of uuid a of None \<Rightarrow> uuid | Some n \<Rightarrow> n)"

text \<open>Binding a name again leaves its former id labelled with it.\<close>

lemma rebound_name_keeps_label:
  assumes "i \<noteq> j"
  shows "alias_id_of n (alias_bind n j (alias_bind n i a)) = Some j"
    and "alias_label i (alias_bind n j (alias_bind n i a)) = n"
  using assms by (simp_all add: alias_id_of_def alias_label_def alias_name_of_def alias_bind_def hashmap_simps)

section \<open>The router\<close>

record routed =
  rd_from :: string
  rd_to :: string
  rd_unl :: bytes
  rd_body :: bytes

record 'r router =
  ro_agents :: "(string, 'r) hashmap"
  ro_queue :: "routed list"
  ro_aliases :: aliases
  ro_outbox :: "routed list"

definition router_new :: "'r router" where
  "router_new = \<lparr>ro_agents = [], ro_queue = [], ro_aliases = aliases_new, ro_outbox = []\<rparr>"

definition stamped :: "string \<Rightarrow> outbound_intent \<Rightarrow> routed" where
  "stamped uuid s = \<lparr>rd_from = uuid, rd_to = oi_receiver s, rd_unl = oi_unl s, rd_body = oi_body s\<rparr>"

definition router_bind_alias :: "string \<Rightarrow> string \<Rightarrow> 'r router \<Rightarrow> 'r router" where
  "router_bind_alias handle uuid s = s\<lparr>ro_aliases := alias_bind handle uuid (ro_aliases s)\<rparr>"

definition router_add :: "'r agent_runtime \<Rightarrow> string \<Rightarrow> 'r \<Rightarrow> 'r router \<Rightarrow> 'r router" where
  "router_add V uuid r s =
     (let (os, r) = rt_take_sends V (snd (rt_init V r))
      in s\<lparr>ro_queue := ro_queue s @ map (stamped uuid) os, ro_agents := hm_insert uuid r (ro_agents s)\<rparr>)"

definition router_send :: "string \<Rightarrow> string \<Rightarrow> bytes \<Rightarrow> bytes \<Rightarrow> 'r router \<Rightarrow> 'r router" where
  "router_send from to unl body s =
     s\<lparr>ro_queue := ro_queue s @ [\<lparr>rd_from = from, rd_to = to, rd_unl = unl, rd_body = body\<rparr>]\<rparr>"

text \<open>The delivery of one message taken from the queue.\<close>

definition router_step :: "'r agent_runtime \<Rightarrow> routed \<Rightarrow> 'r router \<Rightarrow> 'r router" where
  "router_step V env s =
     (let to = (case alias_id_of (rd_to env) (ro_aliases s) of None \<Rightarrow> rd_to env | Some i \<Rightarrow> i) in
      case hm_get (ro_agents s) to of
        None \<Rightarrow> s\<lparr>ro_outbox := ro_outbox s @ [env]\<rparr>
      | Some r \<Rightarrow>
          (case rt_config V (rd_from env) (rd_unl env) (rd_body env) r of
             (Inl _, r) \<Rightarrow> s\<lparr>ro_agents := hm_insert to r (ro_agents s)\<rparr>
           | (Inr _, r) \<Rightarrow>
               (let (os, r) = rt_take_sends V r
                in s\<lparr>ro_agents := hm_insert to r (ro_agents s), ro_queue := ro_queue s @ map (stamped to) os\<rparr>)))"

text \<open>The loop: the bound on the steps is checked after the next message has left the queue.\<close>

fun router_run :: "'r agent_runtime \<Rightarrow> nat \<Rightarrow> 'r router \<Rightarrow> 'r router" where
  "router_run V 0 s = s\<lparr>ro_queue := tl (ro_queue s)\<rparr>"
| "router_run V (Suc n) s =
     (case ro_queue s of
        [] \<Rightarrow> s
      | env # q \<Rightarrow> router_run V n (router_step V env (s\<lparr>ro_queue := q\<rparr>)))"

text \<open>A run that reaches its bound loses a message: it is neither delivered nor kept.\<close>

lemma run_drops_message:
  "ro_queue s = env # q \<Longrightarrow> ro_queue (router_run V 0 s) = q \<and> ro_outbox (router_run V 0 s) = ro_outbox s"
  by simp

section \<open>Who sent it\<close>

text \<open>
  What the agents of a router may say: \<open>Inv i r\<close> describes the runtime of agent \<open>i\<close> and \<open>may i unl body\<close>
  what agent \<open>i\<close> may send, given that what it is sent respects \<open>may\<close> too. It says nothing of \<open>from\<close>.
\<close>

definition confined ::
    "'r agent_runtime \<Rightarrow> (string \<Rightarrow> 'r \<Rightarrow> bool) \<Rightarrow> (string \<Rightarrow> bytes \<Rightarrow> bool) \<Rightarrow> bool" where
  "confined V Inv may \<longleftrightarrow>
     (\<forall>i r from unl body. Inv i r \<longrightarrow> may from unl \<longrightarrow>
        (let (_, r1) = rt_config V from unl body r; (os, r2) = rt_take_sends V r1
         in Inv i r1 \<and> Inv i r2 \<and> list_all (\<lambda>s. may i (oi_unl s)) os))"

definition stamped_truly :: "(string \<Rightarrow> 'r \<Rightarrow> bool) \<Rightarrow> (string \<Rightarrow> bytes \<Rightarrow> bool) \<Rightarrow> 'r router \<Rightarrow> bool" where
  "stamped_truly Inv may s \<longleftrightarrow>
     (\<forall>i r. hm_get (ro_agents s) i = Some r \<longrightarrow> Inv i r)
     \<and> list_all (\<lambda>e. may (rd_from e) (rd_unl e)) (ro_queue s)
     \<and> list_all (\<lambda>e. may (rd_from e) (rd_unl e)) (ro_outbox s)"

lemma stamped_step:
  assumes "confined V Inv may" and "stamped_truly Inv may s" and "may (rd_from env) (rd_unl env)"
  shows "stamped_truly Inv may (router_step V env s)"
proof -
  define to where "to = (case alias_id_of (rd_to env) (ro_aliases s) of None \<Rightarrow> rd_to env | Some i \<Rightarrow> i)"
  show ?thesis
  proof (cases "hm_get (ro_agents s) to")
    case None
    then show ?thesis using assms(2,3) by (simp add: router_step_def to_def [symmetric] stamped_truly_def)
  next
    case (Some r)
    obtain res r1 where c: "rt_config V (rd_from env) (rd_unl env) (rd_body env) r = (res, r1)" by fastforce
    obtain os r2 where t: "rt_take_sends V r1 = (os, r2)" by fastforce
    have "Inv to r" using assms(2) Some by (simp add: stamped_truly_def)
    with assms(1,3) have k: "Inv to r1 \<and> Inv to r2 \<and> list_all (\<lambda>s. may to (oi_unl s)) os"
      unfolding confined_def by (metis (no_types, lifting) c t prod.case)
    then have "list_all (\<lambda>e. may (rd_from e) (rd_unl e)) (map (stamped to) os)"
      by (simp add: list_all_iff stamped_def)
    with k assms(2) show ?thesis
      by (cases res) (simp_all add: router_step_def to_def [symmetric] Some c t stamped_truly_def hashmap_simps)
  qed
qed

lemma stamped_run:
  "confined V Inv may \<Longrightarrow> stamped_truly Inv may s \<Longrightarrow> stamped_truly Inv may (router_run V n s)"
proof (induction V n s rule: router_run.induct)
  case (1 V s)
  then show ?case by (cases "ro_queue s") (simp_all add: stamped_truly_def)
next
  case (2 V n s)
  show ?case
  proof (cases "ro_queue s")
    case (Cons env q)
    then have "stamped_truly Inv may (s\<lparr>ro_queue := q\<rparr>)" "may (rd_from env) (rd_unl env)"
      using "2.prems"(2) by (simp_all add: stamped_truly_def)
    from stamped_step [OF "2.prems"(1) this] show ?thesis using "2.IH" [OF Cons "2.prems"(1)] by (simp add: Cons)
  qed (use "2.prems" in simp)
qed

section \<open>Boxes\<close>

definition lift_left :: "('x \<times> 'a) \<Rightarrow> 'x \<times> ('a + 'b)" where
  "lift_left p = (fst p, Inl (snd p))"

definition lift_right :: "('x \<times> 'b) \<Rightarrow> 'x \<times> ('a + 'b)" where
  "lift_right p = (fst p, Inr (snd p))"

definition boxed_call :: "('a \<Rightarrow> 'x \<times> 'a) \<Rightarrow> ('b \<Rightarrow> 'x \<times> 'b) \<Rightarrow> 'a + 'b \<Rightarrow> 'x \<times> ('a + 'b)" where
  "boxed_call f g r = (case r of Inl a \<Rightarrow> lift_left (f a) | Inr b \<Rightarrow> lift_right (g b))"

definition boxed :: "'a agent_runtime \<Rightarrow> 'b agent_runtime \<Rightarrow> ('a + 'b) agent_runtime" where
  "boxed V W = \<lparr>rt_init = boxed_call (rt_init V) (rt_init W),
     rt_config = (\<lambda>f u b. boxed_call (rt_config V f u b) (rt_config W f u b)),
     rt_take_sends = boxed_call (rt_take_sends V) (rt_take_sends W),
     rt_run = boxed_call (rt_run V) (rt_run W), rt_shutdown = boxed_call (rt_shutdown V) (rt_shutdown W),
     rt_snapshot = boxed_call (rt_snapshot V) (rt_snapshot W),
     rt_restore = (\<lambda>b. map_sum (rt_restore V b) (rt_restore W b)),
     rt_tick = (\<lambda>i t. boxed_call (rt_tick V i t) (rt_tick W i t)),
     rt_take_timer_ops = boxed_call (rt_take_timer_ops V) (rt_take_timer_ops W),
     rt_set_state = (\<lambda>h. map_sum (rt_set_state V h) (rt_set_state W h)),
     rt_set_keyring = map_sum (rt_set_keyring V) (rt_set_keyring W),
     rt_take_infer_reqs = boxed_call (rt_take_infer_reqs V) (rt_take_infer_reqs W),
     rt_take_spawn_reqs = boxed_call (rt_take_spawn_reqs V) (rt_take_spawn_reqs W)\<rparr>"

lemma boxed_simps [simp]:
  "rt_config (boxed V W) f u b (Inl x) = lift_left (rt_config V f u b x)"
  "rt_config (boxed V W) f u b (Inr y) = lift_right (rt_config W f u b y)"
  "rt_take_sends (boxed V W) (Inl x) = lift_left (rt_take_sends V x)"
  "rt_take_sends (boxed V W) (Inr y) = lift_right (rt_take_sends W y)"
  by (simp_all add: boxed_def boxed_call_def)

section \<open>Nobody can pay himself\<close>

text \<open>The seller never accepts the order, whatever it is told.\<close>

definition never_accepts :: "'r agent_runtime \<Rightarrow> string \<Rightarrow> ('r \<Rightarrow> bool) \<Rightarrow> bool" where
  "never_accepts W order Q \<longleftrightarrow>
     (\<forall>r from unl body. Q r \<longrightarrow>
        (let (_, r1) = rt_config W from unl body r; (os, r2) = rt_take_sends W r1
         in Q r1 \<and> Q r2 \<and> list_all (\<lambda>s. \<not> asks ''accept'' order (oi_unl s)) os))"

definition unpaid :: "string \<Rightarrow> hold \<Rightarrow> pa \<Rightarrow> bool" where
  "unpaid order h p \<longleftrightarrow>
     (\<exists>h'. hm_get (ps_holds (pa_state p)) order = Some h' \<and> hd_seller h' = hd_seller h \<and> hd_state h' \<noteq> Paid)"

lemma unpaid_message:
  assumes "unpaid order h (nr_agent r)" and "from \<noteq> hd_seller h \<or> \<not> asks ''accept'' order unl"
  shows "unpaid order h (nr_agent (snd (native_config (pa_agent J D) from unl body r)))"
proof -
  from assms(1) obtain h' where h: "hm_get (ps_holds (pa_state (nr_agent r))) order = Some h'"
    "hd_seller h' = hd_seller h" "hd_state h' \<noteq> Paid" by (auto simp: unpaid_def)
  from settled_call [OF h(1), of J D "from" unl body] assms(2) h(2,3) show ?thesis
    by (auto simp: unpaid_def Let_def)
qed

text \<open>The router of a node with a payment agent \<open>pa\<close> and any other agents.\<close>

definition payment_router ::
    "string \<Rightarrow> string \<Rightarrow> hold \<Rightarrow> ('b \<Rightarrow> bool) \<Rightarrow> (pa native_runtime + 'b) router \<Rightarrow> bool" where
  "payment_router payee order h Q s \<longleftrightarrow>
     stamped_truly
       (\<lambda>i r. case r of Inl p \<Rightarrow> i = payee \<and> unpaid order h (nr_agent p) | Inr x \<Rightarrow> i \<noteq> payee \<and> (i = hd_seller h \<longrightarrow> Q x))
       (\<lambda>i unl. i = hd_seller h \<longrightarrow> \<not> asks ''accept'' order unl) s"

lemma payment_confined:
  assumes "never_accepts W order Q" and "payee \<noteq> hd_seller h"
  shows "confined (boxed (native_vtable (pa_agent J D)) W)
       (\<lambda>i r. case r of Inl p \<Rightarrow> i = payee \<and> unpaid order h (nr_agent p) | Inr x \<Rightarrow> i \<noteq> payee \<and> (i = hd_seller h \<longrightarrow> Q x))
       (\<lambda>i unl. i = hd_seller h \<longrightarrow> \<not> asks ''accept'' order unl)"
  unfolding confined_def
proof (intro allI impI)
  fix i "from" :: string and r :: "pa native_runtime + 'a" and unl body :: bytes
  assume I: "case r of Inl p \<Rightarrow> i = payee \<and> unpaid order h (nr_agent p) | Inr x \<Rightarrow> i \<noteq> payee \<and> (i = hd_seller h \<longrightarrow> Q x)"
    and may: "from = hd_seller h \<longrightarrow> \<not> asks ''accept'' order unl"
  show "let (_, r1) = rt_config (boxed (native_vtable (pa_agent J D)) W) from unl body r;
            (os, r2) = rt_take_sends (boxed (native_vtable (pa_agent J D)) W) r1
        in (case r1 of Inl p \<Rightarrow> i = payee \<and> unpaid order h (nr_agent p) | Inr x \<Rightarrow> i \<noteq> payee \<and> (i = hd_seller h \<longrightarrow> Q x))
         \<and> (case r2 of Inl p \<Rightarrow> i = payee \<and> unpaid order h (nr_agent p) | Inr x \<Rightarrow> i \<noteq> payee \<and> (i = hd_seller h \<longrightarrow> Q x))
         \<and> list_all (\<lambda>s. i = hd_seller h \<longrightarrow> \<not> asks ''accept'' order (oi_unl s)) os"
  proof (cases r)
    case (Inl p)
    with I may unpaid_message [of order h p "from" unl J D body] assms(2) show ?thesis
      by (auto simp: lift_left_def case_prod_unfold Let_def list_all_iff)
  next
    case (Inr x)
    show ?thesis
    proof (cases "i = hd_seller h")
      case True
      then have "Q x" using I Inr by simp
      with assms(1) have "let (_, r1) = rt_config W from unl body x; (os, r2) = rt_take_sends W r1
        in Q r1 \<and> Q r2 \<and> list_all (\<lambda>s. \<not> asks ''accept'' order (oi_unl s)) os"
        unfolding never_accepts_def by blast
      then show ?thesis using Inr I by (simp add: lift_right_def case_prod_unfold Let_def list_all_iff)
    next
      case False
      then show ?thesis using Inr I by (simp add: lift_right_def case_prod_unfold Let_def list_all_iff)
    qed
  qed
qed

lemma step_keeps_agents:
  "hm_get (ro_agents (router_step V env s)) i = None \<longleftrightarrow> hm_get (ro_agents s) i = None"
  by (auto simp: router_step_def Let_def hashmap_simps split: option.splits prod.splits sum.splits)

lemma run_keeps_agents:
  "hm_get (ro_agents (router_run V n s)) i = None \<longleftrightarrow> hm_get (ro_agents s) i = None"
proof (induction V n s rule: router_run.induct)
  case (2 V n s)
  then show ?case by (cases "ro_queue s") (simp_all add: step_keeps_agents)
qed simp

text \<open>
  C10: Nobody but the seller releases a payment. On a node with a payment agent that holds an unpaid
  order, as long as the seller's agent never sends an \<open>accept\<close> of it and none from the seller is
  in the queue, no run of the router makes the hold paid, whatever the other agents send and
  whatever they claim: the router stamps what an agent sends with that agent's own id.
\<close>

theorem only_seller_releases:
  assumes "never_accepts W order Q" and "payee \<noteq> hd_seller h"
    and "payment_router payee order h Q s" and "hm_get (ro_agents s) payee \<noteq> None"
    and "s' = router_run (boxed (native_vtable (pa_agent J D)) W) n s"
  shows "\<exists>p. hm_get (ro_agents s') payee = Some (Inl p) \<and> unpaid order h (nr_agent p)"
proof -
  obtain r' where r': "hm_get (ro_agents s') payee = Some r'"
    using run_keeps_agents [of _ n s payee] assms(4,5) by (metis not_None_eq)
  have "payment_router payee order h Q s'"
    unfolding payment_router_def assms(5)
    by (rule stamped_run [OF payment_confined [OF assms(1,2)]]) (use assms(3) in \<open>simp add: payment_router_def\<close>)
  then have "case r' of Inl p \<Rightarrow> payee = payee \<and> unpaid order h (nr_agent p)
      | Inr x \<Rightarrow> payee \<noteq> payee \<and> (payee = hd_seller h \<longrightarrow> Q x)"
    using r' unfolding payment_router_def stamped_truly_def by blast
  then show ?thesis using r' by (cases r') auto
qed

text \<open>A node with a payment agent, an attacker that claims the payment at every message, and a silent seller.\<close>

definition claimant :: "bool agent" where
  "claimant = agent_with (\<lambda>unl body greedy c. (True, greedy, if greedy then ctx_send ''pa'' ''obj(accept, LtG)'' [] c else c))"

definition example_router :: "(pa native_runtime + bool native_runtime) router" where
  "example_router = \<lparr>ro_agents = [(''pa'', Inl (native_new example_held)), (''eve'', Inr (native_new True)),
     (''bs'', Inr (native_new False))], ro_queue = [\<lparr>rd_from = ''boot'', rd_to = ''eve'', rd_unl = [], rd_body = []\<rparr>],
     ro_aliases = aliases_new, ro_outbox = []\<rparr>"

definition silent :: "bool native_runtime \<Rightarrow> bool" where
  "silent r \<longleftrightarrow> \<not> nr_agent r \<and> nr_outbox r = []"

lemma silent_never_accepts: "never_accepts (native_vtable claimant) ''LtG'' silent"
  by (simp add: never_accepts_def silent_def claimant_def native_config_def guarded_def native_take_sends_def
      ctx_new_def set_from_def)

theorem only_seller_releases_witness:
  "\<exists>p. hm_get (ro_agents (router_run (boxed (native_vtable (pa_agent example_json example_store)) (native_vtable claimant))
          9 example_router)) ''pa'' = Some (Inl p)
     \<and> unpaid ''LtG'' \<lparr>hd_buyer = ''ba'', hd_seller = ''bs'', hd_amount = 999, hd_state = Held\<rparr> (nr_agent p)"
  by (rule only_seller_releases [OF silent_never_accepts _ _ _ refl])
    (auto simp: example_router_def payment_router_def stamped_truly_def unpaid_def example_held_def native_new_def
      silent_def split: if_splits)

end
