(* ===== verification/Node_Manage.thy ===== *)
theory Node_Manage
  imports Guest_Directory Node_Process Node_Router
begin

text \<open>
  What the node does with agents it runs itself: the resolution of names through a chain of AMS
  agents, \<^verbatim>\<open>src/process/resolve.rs\<close>, the registry of native agents,
  \<^verbatim>\<open>src/process/agents.rs\<close>, and managed agents that are restarted after a failure,
  \<^verbatim>\<open>src/process/manage.rs\<close>.

  Reading a bundle, the WebAssembly engine, opening the payment agent's database and spawning an agent
  host are parameters. They may answer differently at each start.
\<close>

section \<open>Resolution\<close>

datatype resolution = ResolvedTo string | ReferredTo string | Unresolved

definition resolve_reply ::
    "'j json_lib \<Rightarrow> (bytes \<Rightarrow> string) \<Rightarrow> bool \<Rightarrow> outbound_intent \<Rightarrow> resolution + string" where
  "resolve_reply J lossy recursive reply =
     (let verb = action_verb (lossy_text lossy (oi_unl reply)) in
      if verb = Some ''at'' then
        (case json_str J (oi_body reply) ''address'' of
           Some addr \<Rightarrow> if addr \<noteq> '''' then Inl (ResolvedTo addr) else Inl Unresolved
         | None \<Rightarrow> Inl Unresolved)
      else if verb = Some ''refer'' then
        (case json_str J (oi_body reply) ''ams'' of
           None \<Rightarrow> Inl Unresolved
         | Some up \<Rightarrow> if recursive then Inr up else Inl (ReferredTo up))
      else Inl Unresolved)"

fun resolve ::
    "'r agent_runtime \<Rightarrow> 'j json_lib \<Rightarrow> (bytes \<Rightarrow> string) \<Rightarrow> nat \<Rightarrow> string \<Rightarrow> string \<Rightarrow> bool
     \<Rightarrow> (string, 'r) hashmap \<Rightarrow> resolution \<times> (string, 'r) hashmap" where
  "resolve V J lossy 0 current agent recursive amses = (Unresolved, amses)"
| "resolve V J lossy (Suc hops) current agent recursive amses =
     (case hm_get amses current of
        None \<Rightarrow> (Unresolved, amses)
      | Some r \<Rightarrow>
          (case rt_config V ''resolver'' (utf8 ''obj(locate, agent)'')
                  (json_bytes J (js_object J [(''agent'', js_string J agent)])) r of
             (Inl _, r) \<Rightarrow> (Unresolved, hm_insert current r amses)
           | (Inr _, r) \<Rightarrow>
               (let (os, r) = rt_take_sends V r; amses = hm_insert current r amses in
                case os of
                  [] \<Rightarrow> (Unresolved, amses)
                | reply # _ \<Rightarrow>
                    (case resolve_reply J lossy recursive reply of
                       Inl res \<Rightarrow> (res, amses)
                     | Inr up \<Rightarrow> resolve V J lossy hops up agent recursive amses))))"

text \<open>What the chain of tables says, without messages.\<close>

fun follow_referrals :: "(string \<Rightarrow> ams_agent option) \<Rightarrow> nat \<Rightarrow> string \<Rightarrow> string \<Rightarrow> bool \<Rightarrow> resolution" where
  "follow_referrals T 0 current agent recursive = Unresolved"
| "follow_referrals T (Suc hops) current agent recursive =
     (case T current of
        None \<Rightarrow> Unresolved
      | Some a \<Rightarrow>
          (case ams_address agent a of
             Some addr \<Rightarrow> if addr = '''' then Unresolved else ResolvedTo addr
           | None \<Rightarrow>
               (case am_upstream a of
                  None \<Rightarrow> Unresolved
                | Some up \<Rightarrow> if recursive then follow_referrals T hops up agent recursive else ReferredTo up)))"

text \<open>What the resolver and the agents rely on: an object that is written can be read, field by field.\<close>

definition json_laws :: "'j json_lib \<Rightarrow> bool" where
  "json_laws J \<longleftrightarrow>
     (\<forall>kvs key. json_str J (json_bytes J (js_object J kvs)) key = Option.bind (map_of kvs key) (js_as_str J))
     \<and> (\<forall>s. js_as_str J (js_string J s) = Some s)"

lemma resolver_verbs:
  "action_verb ''obj(locate, agent)'' = Some ''locate''" "action_verb ''obj(at, agent)'' = Some ''at''"
  "action_verb ''obj(refer, agent)'' = Some ''refer''" "\<not> is_seed (utf8 ''obj(locate, agent)'')"
  by code_simp+

definition ams_answer :: "'j json_lib \<Rightarrow> string \<Rightarrow> ams_agent \<Rightarrow> outgoing" where
  "ams_answer J agent a =
     (case ams_address agent a of
        Some addr \<Rightarrow> \<lparr>og_to = ''resolver'', og_unl = ''obj(at, agent)'',
          og_body = json_bytes J (js_object J [(''agent'', js_string J agent), (''address'', js_string J addr)])\<rparr>
      | None \<Rightarrow>
          (case am_upstream a of
             Some up \<Rightarrow> \<lparr>og_to = ''resolver'', og_unl = ''obj(refer, agent)'',
               og_body = json_bytes J (js_object J [(''agent'', js_string J agent), (''ams'', js_string J up)])\<rparr>
           | None \<Rightarrow> \<lparr>og_to = ''resolver'', og_unl = ''obj(at, agent)'',
               og_body = json_bytes J (js_object J [(''agent'', js_string J agent)])\<rparr>))"

lemma ams_locates:
  assumes "json_laws J"
  shows "ams_on_message J ''obj(locate, agent)'' (json_bytes J (js_object J [(''agent'', js_string J agent)])) a c
     = (a, c\<lparr>cx_sends := cx_sends c @ [(ams_answer J agent a)\<lparr>og_to := cx_from c\<rparr>]\<rparr>)"
  using assms
  by (simp add: ams_on_message_def resolver_verbs ams_on_locate_def json_laws_def ams_answer_def ams_address_def
      ctx_send_def split: option.splits)

definition ams_runtime :: "ams_agent native_runtime \<Rightarrow> bool" where
  "ams_runtime r \<longleftrightarrow> nr_outbox r = []"

lemma ams_call:
  assumes "json_laws J" and "ams_runtime r"
    and "rt_config (native_vtable (ams_guest J read)) ''resolver'' (utf8 ''obj(locate, agent)'')
          (json_bytes J (js_object J [(''agent'', js_string J agent)])) r = (x, r1)"
  shows "x = Inr () \<and> native_take_sends r1 = ([outgoing_intent (ams_answer J agent (nr_agent r))], r)"
  using assms
  by (cases r) (auto simp: native_config_def guarded_def resolver_verbs ams_locates ams_runtime_def native_take_sends_def
      ctx_new_def set_from_def ams_answer_def split: option.splits)

lemma resolve_answer:
  assumes "json_laws J"
  shows "resolve_reply J lossy recursive (outgoing_intent (ams_answer J agent a))
     = (case ams_address agent a of
          Some addr \<Rightarrow> Inl (if addr = '''' then Unresolved else ResolvedTo addr)
        | None \<Rightarrow>
            (case am_upstream a of
               None \<Rightarrow> Inl Unresolved
             | Some up \<Rightarrow> if recursive then Inr up else Inl (ReferredTo up)))"
  using assms
  by (simp add: resolve_reply_def outgoing_intent_def ams_answer_def lossy_text_def resolver_verbs json_laws_def
      split: option.splits)

text \<open>
  C16: The node's resolver computes what the tables of the AMS agents say. Asking the agents of a
  chain one after the other, over messages, returns the address bound at the first agent on the chain
  of referrals that knows the name, the first referral if it is not to follow them, and nothing at a
  dead end, an empty address or a chain longer than the bound, cycles included; it changes none of
  the agents.
\<close>

theorem resolution_follows_tables:
  assumes "json_laws J" and "list_all (\<lambda>(_, r). ams_runtime r) amses"
    and "resolve (native_vtable (ams_guest J read)) J lossy hops start agent recursive amses = (res, amses')"
  shows "res = follow_referrals (\<lambda>i. map_option nr_agent (hm_get amses i)) hops start agent recursive
    \<and> (\<forall>i. hm_get amses' i = hm_get amses i)"
proof -
  let ?V = "native_vtable (ams_guest J read)"
  have "fst (resolve ?V J lossy hops start agent recursive m)
        = follow_referrals (\<lambda>i. map_option nr_agent (hm_get m i)) hops start agent recursive
      \<and> hm_get (snd (resolve ?V J lossy hops start agent recursive m)) = hm_get m"
    if "\<And>i r. hm_get m i = Some r \<Longrightarrow> ams_runtime r" for m
    using that
  proof (induction hops arbitrary: start m)
    case (Suc hops)
    show ?case
    proof (cases "hm_get m start")
      case (Some r)
      obtain x r1 where c: "rt_config ?V ''resolver'' (utf8 ''obj(locate, agent)'')
          (json_bytes J (js_object J [(''agent'', js_string J agent)])) r = (x, r1)" by fastforce
      from ams_call [OF assms(1) Suc.prems [OF Some] c]
      have x: "x = Inr ()" and t: "native_take_sends r1 = ([outgoing_intent (ams_answer J agent (nr_agent r))], r)"
        by simp_all
      have same: "hm_get (hm_insert start r m) = hm_get m" using Some by (auto simp: hashmap_simps)
      then have rt: "\<And>i r'. hm_get (hm_insert start r m) i = Some r' \<Longrightarrow> ams_runtime r'" using Suc.prems by simp
      have "fst (resolve ?V J lossy hops up agent recursive (hm_insert start r m))
          = follow_referrals (\<lambda>i. map_option nr_agent (hm_get (hm_insert start r m) i)) hops up agent recursive
        \<and> hm_get (snd (resolve ?V J lossy hops up agent recursive (hm_insert start r m))) = hm_get (hm_insert start r m)"
        for up by (rule Suc.IH) (rule rt)
      then show ?thesis
        using c by (cases recursive) (simp_all add: Some x t resolve_answer [OF assms(1)] same split: option.splits)
    qed simp
  qed simp
  moreover have "ams_runtime r" if "hm_get amses i = Some r" for i r
    using assms(2) map_of_SomeD [OF that] by (auto simp: list_all_iff)
  ultimately have "fst (resolve ?V J lossy hops start agent recursive amses)
        = follow_referrals (\<lambda>i. map_option nr_agent (hm_get amses i)) hops start agent recursive
      \<and> hm_get (snd (resolve ?V J lossy hops start agent recursive amses)) = hm_get amses" by blast
  then show ?thesis by (simp add: assms(3))
qed

section \<open>Native agents by name\<close>

type_synonym native_state =
  "unit native_runtime + unit native_runtime + df_agent native_runtime + ams_agent native_runtime + pa native_runtime"

definition native_agent :: "(string + pa) \<Rightarrow> string \<Rightarrow> native_state option" where
  "native_agent opened key =
     (if key = ''echo'' then Some (Inl (native_new ()))
      else if key = ''boomer'' then Some (Inr (Inl (native_new ())))
      else if key = ''df'' then Some (Inr (Inr (Inl (native_new df_agent_default))))
      else if key = ''ams'' then Some (Inr (Inr (Inr (Inl (native_new ams_agent_default)))))
      else if key = ''pa'' then
        (case opened of Inr p \<Rightarrow> Some (Inr (Inr (Inr (Inr (native_new p))))) | Inl _ \<Rightarrow> None)
      else None)"

section \<open>Managed agents\<close>

datatype agent_spec = WasmSpec string | NativeSpec string

record process_limits =
  li_mem_bytes :: u64
  li_cpu_secs :: u64

definition process_limits_default :: process_limits where
  "process_limits_default = \<lparr>li_mem_bytes = 268435456, li_cpu_secs = 30\<rparr>"

datatype run_profile = InProcess | Hosted process_limits

record 'r build_env =
  be_vt :: "'r agent_runtime"
  be_read :: "string \<Rightarrow> string + bytes"
  be_engine :: "bytes \<Rightarrow> string + 'r"
  be_native :: "string \<Rightarrow> 'r option"
  be_host :: "string \<Rightarrow> agent_spec \<Rightarrow> process_limits \<Rightarrow> u64 \<Rightarrow> string + 'r"

fun container_error :: "block_error \<Rightarrow> string" where
  "container_error BadMagic = ''not a block container (bad magic)''"
| "container_error (Version v) = ''unsupported block-container version: '' @ nat_to_string (unat v)"
| "container_error Truncated = ''truncated block container''"

definition build_wasm :: "'r build_env \<Rightarrow> string \<Rightarrow> string + 'r" where
  "build_wasm E path =
     (case be_read E path of
        Inl e \<Rightarrow> Inl e
      | Inr bytes \<Rightarrow>
          if is_block_container bytes then
            (case decode bytes of
               Inl e \<Rightarrow> Inl (container_error e)
             | Inr f \<Rightarrow>
                 (case get_block tag_wasm f of
                    None \<Rightarrow> Inl ''bundle has no WASM block''
                  | Some wasm \<Rightarrow> be_engine E wasm))
          else be_engine E bytes)"

definition build_agent_runtime :: "'r build_env \<Rightarrow> agent_spec \<Rightarrow> run_profile \<Rightarrow> string \<Rightarrow> u64 \<Rightarrow> string + 'r" where
  "build_agent_runtime E spec profile host_bin timeout =
     (case profile of
        InProcess \<Rightarrow>
          (case spec of
             NativeSpec key \<Rightarrow>
               (case be_native E key of None \<Rightarrow> Inl (''unknown native agent: '' @ key) | Some r \<Rightarrow> Inr r)
           | WasmSpec path \<Rightarrow> build_wasm E path)
      | Hosted limits \<Rightarrow> be_host E host_bin spec limits timeout)"

record recipe =
  rp_spec :: agent_spec
  rp_profile :: run_profile
  rp_host_bin :: string
  rp_timeout :: u64
  rp_seed_unl :: bytes
  rp_seed_data :: bytes
  rp_max_restarts :: u32

record 'r managed =
  ma_runtime :: 'r
  ma_recipe :: recipe
  ma_restarts :: u32

definition managed_start :: "'r build_env \<Rightarrow> recipe \<Rightarrow> string + 'r" where
  "managed_start E p =
     (case build_agent_runtime E (rp_spec p) (rp_profile p) (rp_host_bin p) (rp_timeout p) of
        Inl e \<Rightarrow> Inl e
      | Inr r \<Rightarrow>
          (case rt_init (be_vt E) r of
             (Inl e, _) \<Rightarrow> Inl e
           | (Inr _, r) \<Rightarrow>
               (let r = snd (rt_take_sends (be_vt E) r) in
                if rp_seed_unl p = [] \<and> rp_seed_data p = [] then Inr r
                else (case rt_config (be_vt E) '''' (rp_seed_unl p) (rp_seed_data p) r of
                        (Inl e, _) \<Rightarrow> Inl e
                      | (Inr _, r) \<Rightarrow> Inr (snd (rt_take_sends (be_vt E) r))))))"

definition managed_spawn :: "'r build_env \<Rightarrow> recipe \<Rightarrow> string + 'r managed" where
  "managed_spawn E p =
     (case managed_start E p of
        Inl e \<Rightarrow> Inl e
      | Inr r \<Rightarrow> Inr \<lparr>ma_runtime = r, ma_recipe = p, ma_restarts = 0\<rparr>)"

definition managed_restart :: "'r build_env \<Rightarrow> 'r managed \<Rightarrow> (string + unit) \<times> 'r managed" where
  "managed_restart E m =
     (if rp_max_restarts (ma_recipe m) \<le> ma_restarts m
      then (Inl (''agent exceeded max restarts ('' @ nat_to_string (unat (rp_max_restarts (ma_recipe m))) @ '')''), m)
      else
        (let m = m\<lparr>ma_restarts := ma_restarts m + 1\<rparr> in
         case managed_start E (ma_recipe m) of
           Inl e \<Rightarrow> (Inl e, m)
         | Inr r \<Rightarrow> (Inr (), m\<lparr>ma_runtime := r\<rparr>)))"

definition managed_deliver ::
    "'r build_env \<Rightarrow> string \<Rightarrow> bytes \<Rightarrow> bytes \<Rightarrow> 'r managed \<Rightarrow> (string + outbound_intent list) \<times> 'r managed" where
  "managed_deliver E from unl body m =
     (case rt_config (be_vt E) from unl body (ma_runtime m) of
        (Inr _, r) \<Rightarrow> (let (os, r) = rt_take_sends (be_vt E) r in (Inr os, m\<lparr>ma_runtime := r\<rparr>))
      | (Inl e, r) \<Rightarrow>
          (case managed_restart E (m\<lparr>ma_runtime := r\<rparr>) of
             (Inl e', m) \<Rightarrow> (Inl e', m)
           | (Inr _, m) \<Rightarrow> (Inl e, m)))"

text \<open>A life of a managed agent: each delivery finds the world as it is then.\<close>

fun managed_life :: "('r build_env \<times> delivery) list \<Rightarrow> 'r managed \<Rightarrow> 'r managed" where
  "managed_life [] m = m"
| "managed_life ((E, from, unl, body) # ds) m = managed_life ds (snd (managed_deliver E from unl body m))"

text \<open>How many deliveries failed.\<close>

fun failures :: "('r build_env \<times> delivery) list \<Rightarrow> 'r managed \<Rightarrow> nat" where
  "failures [] m = 0"
| "failures ((E, from, unl, body) # ds) m =
     (case managed_deliver E from unl body m of
        (Inl _, m') \<Rightarrow> Suc (failures ds m')
      | (Inr _, m') \<Rightarrow> failures ds m')"

lemma deliver_restarts:
  assumes "managed_deliver E from unl body m = (res, m')"
  shows "ma_recipe m' = ma_recipe m"
    and "unat (ma_restarts m') = (if isl res then min (unat (rp_max_restarts (ma_recipe m))) (Suc (unat (ma_restarts m)))
        else unat (ma_restarts m)) \<or> \<not> ma_restarts m \<le> rp_max_restarts (ma_recipe m)"
proof -
  show r: "ma_recipe m' = ma_recipe m"
    using assms by (auto simp: managed_deliver_def managed_restart_def Let_def split: prod.splits sum.splits if_splits)
  have inc: "unat (ma_restarts m + 1) = Suc (unat (ma_restarts m))"
    if "ma_restarts m < rp_max_restarts (ma_recipe m)"
    using word_increment(2) [OF that] unatSuc [of "ma_restarts m"]
    by (cases "1 + ma_restarts m = 0") (simp_all add: add.commute)
  show "unat (ma_restarts m') = (if isl res then min (unat (rp_max_restarts (ma_recipe m))) (Suc (unat (ma_restarts m)))
        else unat (ma_restarts m)) \<or> \<not> ma_restarts m \<le> rp_max_restarts (ma_recipe m)"
    using assms inc
    by (auto simp: managed_deliver_def managed_restart_def Let_def word_le_nat_alt word_less_nat_alt not_le
        split: prod.splits sum.splits if_splits)
qed

text \<open>
  C26: A managed agent is restarted once for each failure, up to its budget and no further. Whatever is
  delivered and whatever happens at the starts, the number of restarts is the number of deliveries
  that failed, or the budget if that is smaller; the recipe it is rebuilt from never changes.
\<close>

theorem restarts_within_budget:
  assumes "managed_spawn E p = Inr m"
  shows "unat (ma_restarts (managed_life ds m)) = min (unat (rp_max_restarts p)) (failures ds m)
    \<and> ma_recipe (managed_life ds m) = p"
proof -
  have "unat (ma_restarts (managed_life ds m))
        = min (unat (rp_max_restarts (ma_recipe m))) (unat (ma_restarts m) + failures ds m)
      \<and> ma_recipe (managed_life ds m) = ma_recipe m"
    if "ma_restarts m \<le> rp_max_restarts (ma_recipe m)" for m
    using that
  proof (induction ds arbitrary: m)
    case (Cons d ds)
    obtain E "from" unl body where d: "d = (E, from, unl, body)" by (cases d) auto
    obtain res m' where v: "managed_deliver E from unl body m = (res, m')" by fastforce
    note k = deliver_restarts [OF v]
    have n: "unat (ma_restarts m') = (if isl res then min (unat (rp_max_restarts (ma_recipe m))) (Suc (unat (ma_restarts m)))
        else unat (ma_restarts m))" using k(2) Cons.prems by blast
    then have "ma_restarts m' \<le> rp_max_restarts (ma_recipe m')"
      using Cons.prems k(1) by (simp add: word_le_nat_alt split: if_splits)
    from Cons.IH [OF this] show ?case using n k(1) Cons.prems
      by (cases res) (simp_all add: d v word_le_nat_alt)
  qed (simp add: word_le_nat_alt)
  from this [of m] assms show ?thesis by (auto simp: managed_spawn_def split: sum.splits)
qed

text \<open>
  A restart replays the seed. A payment agent that is started again sets the seeded balances over
  those it has recovered from its database.
\<close>

lemma restart_replays_seed:
  assumes "be_vt E = native_vtable (pa_agent J D)" and "be_native E ''pa'' = Some (native_new (pa_with_db D db))"
    and "rp_spec p = NativeSpec ''pa''" and "rp_profile p = InProcess" and "is_seed (rp_seed_unl p)"
    and "pd_seed D (rp_seed_data p) = Some [(account, n)]"
  shows "\<exists>r. managed_start E p = Inr r \<and> pa_balance (pa_state (nr_agent r)) account = n"
  using assms
  by (auto simp: managed_start_def build_agent_runtime_def native_init_def guarded_def native_take_sends_def native_config_def
      pa_on_seed_def pa_balance_def hashmap_simps is_seed_def native_new_def returns_def Let_def)

section \<open>Examples\<close>

instance example_value :: countable
  by countable_datatype

text \<open>JSON over the example values, each written as as many bytes as its number.\<close>

definition numbered_json :: "example_value json_lib" where
  "numbered_json = example_json\<lparr>js_parse := \<lambda>b. Some (from_nat (length b)), js_write := \<lambda>v. Some (replicate (to_nat v) 0)\<rparr>"

lemma numbered_json_laws: "json_laws numbered_json"
  by (simp add: json_laws_def json_str_def json_bytes_def numbered_json_def example_json_def split: option.splits)

definition example_amses :: "(string, ams_agent native_runtime) hashmap" where
  "example_amses = [(''leaf'', native_new (ams_set_upstream ''root'' ams_agent_default)),
     (''root'', native_new (ams_bind ''bs'' ''10.0.0.1:9'' ams_agent_default))]"

theorem resolution_follows_tables_witness:
  "fst (resolve (native_vtable (ams_guest numbered_json (\<lambda>_. None))) numbered_json (\<lambda>_. []) 8 ''leaf'' ''bs'' True
      example_amses) = ResolvedTo ''10.0.0.1:9''"
proof -
  obtain res ms where r: "resolve (native_vtable (ams_guest numbered_json (\<lambda>_. None))) numbered_json (\<lambda>_. []) 8 ''leaf'' ''bs'' True
      example_amses = (res, ms)" by fastforce
  have e: "list_all (\<lambda>(_, r). ams_runtime r) example_amses"
    by (simp add: example_amses_def ams_runtime_def native_new_def)
  have "follow_referrals (\<lambda>i. map_option nr_agent (hm_get example_amses i)) 8 ''leaf'' ''bs'' True
      = ResolvedTo ''10.0.0.1:9''"
    by (simp add: eval_nat_numeral example_amses_def native_new_def ams_set_upstream_def ams_bind_def ams_agent_default_def
        ams_address_def hashmap_simps)
  with resolution_follows_tables [OF numbered_json_laws e r] r show ?thesis by simp
qed

definition boomer_env :: "unit native_runtime build_env" where
  "boomer_env = \<lparr>be_vt = native_vtable boomer_agent, be_read = (\<lambda>_. Inl ''no such file''), be_engine = (\<lambda>_. Inl ''bad module''),
     be_native = (\<lambda>k. if k = ''boomer'' then Some (native_new ()) else None), be_host = (\<lambda>_ _ _ _. Inl ''no host'')\<rparr>"

definition boomer_recipe :: recipe where
  "boomer_recipe = \<lparr>rp_spec = NativeSpec ''boomer'', rp_profile = InProcess, rp_host_bin = '''', rp_timeout = 0,
     rp_seed_unl = [], rp_seed_data = [], rp_max_restarts = 2\<rparr>"

definition boomer_managed :: "unit native_runtime managed" where
  "boomer_managed = \<lparr>ma_runtime = native_new (), ma_recipe = boomer_recipe, ma_restarts = 0\<rparr>"

lemma boomer_spawned: "managed_spawn boomer_env boomer_recipe = Inr boomer_managed"
  by code_simp

lemma boomer_fails:
  "failures (replicate 3 (boomer_env, ''al'', utf8 ''boom'', [])) boomer_managed = 3"
  by code_simp

theorem restarts_within_budget_witness:
  "unat (ma_restarts (managed_life (replicate 3 (boomer_env, ''al'', utf8 ''boom'', [])) boomer_managed)) = 2"
  using restarts_within_budget [OF boomer_spawned, of "replicate 3 (boomer_env, ''al'', utf8 ''boom'', [])"]
  by (simp only: boomer_fails) (simp add: boomer_recipe_def)

end
