(* ===== verification/Guest_Market.thy ===== *)
theory Guest_Market
  imports Guest_Pa
begin

text \<open>
  The two sides of the book purchase: the buyer of \<^verbatim>\<open>agents/ba/src/lib.rs\<close>, a state
  machine over the answers it gets, and the seller of \<^verbatim>\<open>agents/bs/src/lib.rs\<close>.
  Besides the dynamic JSON values, the typed readers and the writer of the catalogue are parameters.
  A value that cannot be written panics, as \<open>unwrap\<close> does.
\<close>

section \<open>The buyer\<close>

datatype buyer_st = StInit | StProvider | StAddress | StCatalog | StHeld | StDelivery | StDone | StFailed

record book =
  bk_title :: string
  bk_price :: u64

record buyer =
  by_st :: buyer_st
  by_seller :: string

record 'j market_json =
  mj_json :: "'j json_lib"
  mj_read_names :: "bytes \<Rightarrow> string list option"
  mj_read_books :: "bytes \<Rightarrow> book list option"
  mj_write_books :: "book list \<Rightarrow> bytes option"

definition buyer_new :: buyer where
  "buyer_new = \<lparr>by_st = StInit, by_seller = ''''\<rparr>"

definition buyer_fail :: "string \<Rightarrow> buyer call" where
  "buyer_fail why b c = (True, b\<lparr>by_st := StFailed\<rparr>, ctx_send ''result'' ''obj(failed, x)'' (utf8 why) c)"

text \<open>\<open>unwrap\<close> on the bytes of a value, and the message they go into.\<close>

definition send_json :: "'j json_lib \<Rightarrow> string \<Rightarrow> string \<Rightarrow> 'j \<Rightarrow> buyer \<Rightarrow> buyer call" where
  "send_json J to unl v after b c =
     (case js_write J v of
        None \<Rightarrow> (False, b, c)
      | Some bytes \<Rightarrow> (True, after, ctx_send to unl bytes c))"

definition buyer_on_provide :: "'j market_json \<Rightarrow> bytes \<Rightarrow> buyer call" where
  "buyer_on_provide M body b c =
     (case (case mj_read_names M body of None \<Rightarrow> [] | Some ps \<Rightarrow> ps) of
        [] \<Rightarrow> buyer_fail ''no-provider'' b c
      | p # _ \<Rightarrow>
          (let b = b\<lparr>by_seller := p\<rparr>; J = mj_json M in
           send_json J ''ams'' ''obj(locate, agent)'' (js_object J [(''agent'', js_string J p)])
             (b\<lparr>by_st := StAddress\<rparr>) b c))"

definition buyer_on_catalog :: "'j market_json \<Rightarrow> bytes \<Rightarrow> buyer call" where
  "buyer_on_catalog M body b c =
     (case find (\<lambda>k. bk_title k = ''LtG'') (case mj_read_books M body of None \<Rightarrow> [] | Some ks \<Rightarrow> ks) of
        None \<Rightarrow> buyer_fail ''book-not-found'' b c
      | Some k \<Rightarrow>
          (let J = mj_json M in
           send_json J ''pa'' ''obj(reserve, LtG)''
             (js_object J [(''seller'', js_string J (by_seller b)), (''amount'', js_number J (bk_price k))])
             (b\<lparr>by_st := StHeld\<rparr>) b c))"

definition json_status :: "'j json_lib \<Rightarrow> bytes \<Rightarrow> string" where
  "json_status J body = (case json_str J body ''status'' of None \<Rightarrow> '''' | Some t \<Rightarrow> t)"

definition buyer_on_message :: "'j market_json \<Rightarrow> string \<Rightarrow> bytes \<Rightarrow> buyer call" where
  "buyer_on_message M unl body b c =
     (case action_and_subject unl of
        None \<Rightarrow> (True, b, c)
      | Some (verb, _) \<Rightarrow>
          if verb = ''deny'' then
            buyer_fail (case json_str (mj_json M) body ''reason'' of None \<Rightarrow> ''denied'' | Some r \<Rightarrow> r) b c
          else
            (case by_st b of
               StInit \<Rightarrow>
                 if verb = ''start''
                 then (True, b\<lparr>by_st := StProvider\<rparr>, ctx_send ''df'' ''obj(seek, bookselling)'' [] c)
                 else (True, b, c)
             | StProvider \<Rightarrow> if verb = ''provide'' then buyer_on_provide M body b c else (True, b, c)
             | StAddress \<Rightarrow>
                 if verb = ''at'' then
                   (case json_str (mj_json M) body ''address'' of
                      Some _ \<Rightarrow>
                        (True, b\<lparr>by_st := StCatalog\<rparr>, ctx_send (by_seller b) ''obj(catalog, systemdynamics)'' [] c)
                    | None \<Rightarrow> buyer_fail ''no-address'' b c)
                 else (True, b, c)
             | StCatalog \<Rightarrow> if verb = ''catalog'' then buyer_on_catalog M body b c else (True, b, c)
             | StHeld \<Rightarrow>
                 if verb = ''receipt'' \<and> json_status (mj_json M) body = ''held''
                 then (True, b\<lparr>by_st := StDelivery\<rparr>, c) else (True, b, c)
             | StDelivery \<Rightarrow>
                 if verb = ''deliver''
                 then (True, b\<lparr>by_st := StDone\<rparr>, ctx_send ''result'' ''obj(bought, LtG)'' [] c)
                 else (True, b, c)
             | _ \<Rightarrow> (True, b, c)))"

definition buyer_agent :: "'j market_json \<Rightarrow> buyer agent" where
  "buyer_agent M = agent_with (buyer_on_message M)"

section \<open>The seller\<close>

record seller =
  sl_has_ltg :: bool
  sl_buyers :: "(string, string) hashmap"

definition seller_new :: "bool \<Rightarrow> seller" where
  "seller_new has_ltg = \<lparr>sl_has_ltg = has_ltg, sl_buyers = []\<rparr>"

definition seller_books :: "seller \<Rightarrow> book list" where
  "seller_books s =
     (if sl_has_ltg s then [\<lparr>bk_title = ''LtG'', bk_price = 999\<rparr>, \<lparr>bk_title = ''Other'', bk_price = 500\<rparr>]
      else [\<lparr>bk_title = ''Other'', bk_price = 500\<rparr>])"

definition seller_on_receipt :: "'j json_lib \<Rightarrow> string \<Rightarrow> bytes \<Rightarrow> seller call" where
  "seller_on_receipt J subject body s c =
     (let status = json_status J body in
      if status = ''held'' then
        (case json_str J body ''buyer'' of
           None \<Rightarrow> (True, s, c)
         | Some b \<Rightarrow>
             (True, s\<lparr>sl_buyers := hm_insert subject b (sl_buyers s)\<rparr>,
              ctx_send ''pa'' (''obj(accept, '' @ subject @ '')'') [] c))
      else if status = ''paid'' then
        (case hm_get (sl_buyers s) subject of
           None \<Rightarrow> (True, s, c)
         | Some b \<Rightarrow> (True, s, ctx_send b (''obj(deliver, '' @ subject @ '')'') [] c))
      else if status = ''cancelled'' then (True, s\<lparr>sl_buyers := hm_remove subject (sl_buyers s)\<rparr>, c)
      else (True, s, c))"

definition seller_on_message :: "'j market_json \<Rightarrow> string \<Rightarrow> bytes \<Rightarrow> seller call" where
  "seller_on_message M unl body s c =
     (case action_and_subject unl of
        None \<Rightarrow> (True, s, c)
      | Some (verb, subject) \<Rightarrow>
          if verb = ''catalog'' then
            (case mj_write_books M (seller_books s) of
               None \<Rightarrow> (False, s, c)
             | Some bytes \<Rightarrow> (True, s, ctx_send (cx_from c) ''obj(catalog, systemdynamics)'' bytes c))
          else if verb = ''receipt'' then seller_on_receipt (mj_json M) subject body s c
          else (True, s, c))"

definition seller_agent :: "'j market_json \<Rightarrow> seller agent" where
  "seller_agent M = agent_with (seller_on_message M)"

section \<open>The buyer pays once\<close>

definition is_reserve :: "string \<Rightarrow> bool" where
  "is_reserve unl \<longleftrightarrow> unl = ''obj(reserve, LtG)''"

text \<open>How many reservations a buyer in a state may still ask for.\<close>

fun reserves_left :: "buyer_st \<Rightarrow> nat" where
  "reserves_left StInit = 1"
| "reserves_left StProvider = 1"
| "reserves_left StAddress = 1"
| "reserves_left StCatalog = 1"
| "reserves_left _ = 0"

definition reserves :: "outgoing list \<Rightarrow> nat" where
  "reserves os = length (filter (\<lambda>m. is_reserve (og_unl m)) os)"

lemma reserves_send [simp]:
  "reserves (cx_sends (ctx_send to unl body c)) = reserves (cx_sends c) + (if is_reserve unl then 1 else 0)"
  by (simp add: reserves_def ctx_send_def)

definition frugal :: "buyer call \<Rightarrow> bool" where
  "frugal f \<longleftrightarrow> (\<forall>b c. case f b c of (ok, b', c') \<Rightarrow>
     reserves (cx_sends c') + reserves_left (by_st b') \<le> reserves (cx_sends c) + reserves_left (by_st b))"

lemma frugal_fail: "reserves (cx_sends (snd (snd (buyer_fail why b c)))) = reserves (cx_sends c)"
    "reserves_left (by_st (fst (snd (buyer_fail why b c)))) = 0"
  by (simp_all add: buyer_fail_def is_reserve_def)

lemma frugal_provide:
  "by_st b = StProvider \<Longrightarrow> reserves (cx_sends (snd (snd (buyer_on_provide M body b c))))
     + reserves_left (by_st (fst (snd (buyer_on_provide M body b c)))) \<le> reserves (cx_sends c) + 1"
  by (simp add: buyer_on_provide_def send_json_def frugal_fail is_reserve_def Let_def split: list.splits option.splits)

lemma frugal_catalog:
  "by_st b = StCatalog \<Longrightarrow> reserves (cx_sends (snd (snd (buyer_on_catalog M body b c))))
     + reserves_left (by_st (fst (snd (buyer_on_catalog M body b c)))) \<le> reserves (cx_sends c) + 1"
  by (simp add: buyer_on_catalog_def send_json_def frugal_fail is_reserve_def Let_def split: list.splits option.splits)

lemma frugal_message:
  "reserves (cx_sends (snd (snd (buyer_on_message M unl body b c))))
     + reserves_left (by_st (fst (snd (buyer_on_message M unl body b c))))
   \<le> reserves (cx_sends c) + reserves_left (by_st b)"
proof (cases "action_and_subject unl")
  case None
  then show ?thesis by (simp add: buyer_on_message_def)
next
  case (Some q)
  obtain verb subject where q: "q = (verb, subject)" by (cases q)
  show ?thesis
  proof (cases "verb = ''deny''")
    case True
    then show ?thesis using Some q by (simp add: buyer_on_message_def frugal_fail)
  next
    case False
    then show ?thesis using Some q frugal_provide [of b M body c] frugal_catalog [of b M body c]
      by (cases "by_st b") (simp_all add: buyer_on_message_def frugal_fail is_reserve_def split: option.splits)
  qed
qed

lemma utf8_inject [simp]: "utf8 s = utf8 t \<longleftrightarrow> s = t"
  by (metis utf8_or_empty_utf8)

definition reservations :: "outbound_intent list \<Rightarrow> nat" where
  "reservations os = length (filter (\<lambda>m. oi_unl m = utf8 ''obj(reserve, LtG)'') os)"

lemma reservations_simps [simp]:
  "reservations [] = 0" "reservations (xs @ ys) = reservations xs + reservations ys"
  "reservations (map outgoing_intent os) = reserves os"
  by (simp_all add: reservations_def reserves_def is_reserve_def filter_map comp_def outgoing_intent_def)

lemma ctx_sends_new [simp]: "reserves (cx_sends ctx_new) = 0"
  by (simp add: ctx_new_def reserves_def)

lemma set_from_sends [simp]: "cx_sends (set_from from c) = cx_sends c"
  by (simp add: set_from_def)

lemma buyer_call:
  assumes "nr_outbox r = []"
  shows "reservations (nr_outbox (snd (native_config (buyer_agent M) from unl body r)))
           + reserves_left (by_st (nr_agent (snd (native_config (buyer_agent M) from unl body r))))
         \<le> reserves_left (by_st (nr_agent r))"
proof (cases "is_seed unl")
  case True
  then show ?thesis using assms
    by (simp add: native_config_def guarded_def buyer_agent_def ctx_new_def reservations_def)
next
  case False
  then show ?thesis
    using assms frugal_message [of M "utf8_or_empty unl" body "nr_agent r"
        "set_from from (ctx_new\<lparr>cx_state := nr_state r, cx_keyring := nr_keyring r\<rparr>)"]
    by (simp add: native_config_def guarded_def buyer_agent_def case_prod_unfold Let_def)
qed

text \<open>
  C27: The buyer pays once. Whatever messages a buyer gets in whatever order, seeds and faults
  included, it asks for at most one reservation of its funds in its whole life.
\<close>

theorem buyer_reserves_once:
  "reservations (concat (fst (native_conversation (buyer_agent M) ms (native_new buyer_new)))) \<le> 1"
proof -
  have "reservations (concat (fst (native_conversation (buyer_agent M) ms r))) \<le> reserves_left (by_st (nr_agent r))"
    if "nr_outbox r = []" for r
    using that
  proof (induction ms arbitrary: r)
    case (Cons m ms)
    obtain "from" unl body where m: "m = (from, unl, body)" by (cases m) auto
    let ?r = "snd (native_config (buyer_agent M) from unl body r)"
    have "reservations (concat (fst (native_conversation (buyer_agent M) ms (?r\<lparr>nr_outbox := []\<rparr>))))
        \<le> reserves_left (by_st (nr_agent ?r))"
      using Cons.IH [of "?r\<lparr>nr_outbox := []\<rparr>"] by simp
    then show ?case
      using buyer_call [OF Cons.prems, of M "from" unl body]
      by (simp add: m native_take_sends_def case_prod_unfold Let_def)
  qed simp
  from this [of "native_new buyer_new"] show ?thesis by (simp add: native_new_def buyer_new_def)
qed

section \<open>What the agents take on trust\<close>

text \<open>
  The buyer aborts at any \<open>deny\<close>, whoever sends it, also after the book has been delivered: the verdict
  "failed" then follows the verdict "bought".
\<close>

lemma deny_after_delivery:
  assumes "action_and_subject unl = Some (''deny'', x)"
  shows "by_st (fst (snd (buyer_on_message M unl body (b\<lparr>by_st := StDone\<rparr>) c))) = StFailed"
    and "og_unl (last (cx_sends (snd (snd (buyer_on_message M unl body (b\<lparr>by_st := StDone\<rparr>) c))))) = ''obj(failed, x)''"
  using assms by (simp_all add: buyer_on_message_def buyer_fail_def ctx_send_def)

text \<open>
  The seller does not look at the sender of a receipt: two forged ones, from anyone, make it ship an
  order nobody paid for.
\<close>

lemma forged_receipts_ship:
  assumes "action_and_subject unl = Some (''receipt'', x)"
    and "json_status (mj_json M) held = ''held''" and "json_str (mj_json M) held ''buyer'' = Some b"
    and "json_status (mj_json M) paid = ''paid''"
  shows "\<exists>s1 c1. seller_on_message M unl held s c = (True, s1, c1)
     \<and> cx_sends (snd (snd (seller_on_message M unl paid s1 c')))
         = cx_sends c' @ [\<lparr>og_to = b, og_unl = ''obj(deliver, '' @ x @ '')'', og_body = []\<rparr>]"
  using assms by (simp add: seller_on_message_def seller_on_receipt_def hashmap_simps ctx_send_def Let_def)

end
