(* ===== verification/Spec2Isabelle.thy ===== *)
theory Spec2Isabelle
  imports Machine_Factory Agent_Actor Supervisor Policy Raft_Store Ams Df Propose_Protocol
    English_Auction Dutch_Auction Brokering Recruiting Iterated_Contract_Net Content_Manager
    Sl_Decoding Trust_Validity Security_Manager Behaviors Unl_Paths Unl_Equivalence
    Unl_Fipa Unl_A2a Node_Handover Node_Manage Guest_Market
begin

text \<open>
  A model of the FIPA agent platform \<^verbatim>\<open>fipa-wasm-agents\<close> (Rust), the crate
  under \<^verbatim>\<open>crates/fipa-wasm-agents/src\<close> of the repository. All paths below are
  relative to that directory, those that start with \<^verbatim>\<open>crates/unl-\<close> or \<^verbatim>\<open>agents/\<close> to the root of
  the repository.

  \<^bold>\<open>The program.\<close> A node hosts agents, WASM modules that exchange FIPA ACL messages. A
  supervisor actor spawns one actor per agent, routes messages to them and restarts them; each
  agent actor queues its messages, runs them through the interaction protocol of their
  conversation or hands them to the guest. Two platform actors, the agent management system
  (AMS) and the directory facilitator (DF), name agents and find services. A policy engine
  decides what an agent may do. Nodes replicate the directory of agents and services with Raft;
  the program's part of it is the log store and the state machine. Agents travel and start as
  block bundles, a binary container of code, vocabulary and data. What agents say to each other
  can be UNL, graphs of universal words: the crates \<^verbatim>\<open>crates/unl-*\<close> parse, check and
  normalize such graphs, and the node lets only those through that lie in the vocabulary of the
  receiver.

  The crate has a second node, without actors, in \<^verbatim>\<open>process/\<close>. It is single-threaded: one loop
  takes timers, requests of its agents and connections in turn. Agents are mounted under a signed
  manifest that grants them capabilities and bounds their work; messages between nodes are signed,
  and the key of a sender is pinned the first time it is seen; an agent moves to another node by an
  exchange in two phases. An agent runs in the node's process, as WASM, or in a process of its own
  behind a socket. The agents that come with it, \<^verbatim>\<open>agents/\<close>, sell and buy books: a buyer, a
  seller, a payment agent that holds money in escrow, and the two directory agents.

  \<^bold>\<open>The theories, and the files they model.\<close>

  \<^item> \<open>Prelude\<close>: machine types, hash maps as association lists, shared lemmas. \<open>Rust_Strings\<close>:
    the methods of \<open>str\<close> the code calls. \<open>Float64\<close>: binary64 numbers with exact rationals,
    rounding to nearest even, the special values and the comparisons of IEEE 754. \<open>Float_Text\<close>:
    numbers as text.
  \<^item> \<open>Acl\<close>: messages, performatives and the types every protocol shares, from
    \<^verbatim>\<open>proto/fipa.proto\<close> and \<^verbatim>\<open>protocol/state_machine.rs\<close>.
    \<open>Protocol_Interface\<close>: the trait \<open>ProtocolStateMachine\<close> as the locales \<open>protocol_machine\<close>,
    \<open>step_machine\<close>, \<open>advertising_machine\<close> and \<open>settled_machine\<close>.
  \<^item> \<open>Request_Protocol\<close>, \<open>Query_Protocol\<close>, \<open>Propose_Protocol\<close>, \<open>Subscribe_Protocol\<close>,
    \<open>Contract_Net\<close>, \<open>English_Auction\<close>, \<open>Dutch_Auction\<close>, \<open>Brokering\<close>, \<open>Recruiting\<close>,
    \<open>Iterated_Contract_Net\<close>: the ten machines of \<^verbatim>\<open>protocol/\<close>, one record per struct,
    one definition per method, each an interpretation of the locales. \<open>Machine_Factory\<close>: the
    constructor by protocol type and the boxed trait object, as a datatype of the five machines
    that it can build.
  \<^item> \<open>Actor_Messages\<close>, \<open>Agent_Actor\<close>, \<open>Supervisor\<close>, \<open>Actor_Registry\<close>: the files of
    \<^verbatim>\<open>actor/\<close>. \<open>Block_File\<close>: \<^verbatim>\<open>content/block.rs\<close>.
  \<^item> \<open>Permissions\<close>, \<open>Policy\<close>: \<^verbatim>\<open>security/permissions.rs\<close> and
    \<^verbatim>\<open>security/policy.rs\<close>, the reader of the policy language included.
  \<^item> \<open>Keyed_Store\<close>: the locale of name-keyed tables, interpreted for hash maps, the actor
    registry and the cluster directory. \<open>Cluster_State\<close>, \<open>Raft_Store\<close>:
    \<^verbatim>\<open>consensus/state.rs\<close> and \<^verbatim>\<open>consensus/storage.rs\<close>.
  \<^item> \<open>Ams\<close>, \<open>Df\<close>: \<^verbatim>\<open>platform/ams.rs\<close> and \<^verbatim>\<open>platform/df.rs\<close>.
  \<^item> \<open>Ontology\<close>: \<^verbatim>\<open>content/ontology.rs\<close>, terms, schemas and their validation. \<open>Sl_Codec\<close>:
    \<^verbatim>\<open>content/sl_codec.rs\<close>, with its properties in \<open>Sl_Decoding\<close> (termination, errors) and
    \<open>Sl_Roundtrip\<close>. \<open>Content_Manager\<close>: \<^verbatim>\<open>content/codec.rs\<close> and \<^verbatim>\<open>content/mod.rs\<close>, which
    choose codecs and ontologies by name.
  \<^item> \<open>Trust_Signature\<close>: \<^verbatim>\<open>trust/identity.rs\<close> and \<^verbatim>\<open>trust/signature.rs\<close>. \<open>Trust_Web\<close>:
    \<^verbatim>\<open>trust/web.rs\<close>, with \<open>Trust_Paths\<close> (the search) and \<open>Trust_Validity\<close> (the validity of
    keys and its cache).
  \<^item> \<open>Credentials\<close>, \<open>Authentication\<close>, \<open>Security_Manager\<close>: \<^verbatim>\<open>security/credentials.rs\<close>,
    \<^verbatim>\<open>security/auth.rs\<close> and \<^verbatim>\<open>security/mod.rs\<close>, over the policy engine.
  \<^item> \<open>Behaviors\<close>: \<^verbatim>\<open>behavior/mod.rs\<close>, the scheduler of behaviours.
  \<^item> \<open>Unl_Core\<close>: \<^verbatim>\<open>crates/unl-core\<close>, relations, attributes, universal words, graphs.
    \<open>Unl_Parser\<close>: \<^verbatim>\<open>crates/unl-parser\<close>, both text formats, with the round trip and the error
    offsets in \<open>Unl_Roundtrip\<close>. \<open>Unl_Kb\<close>, \<open>Unl_Graph_Kb\<close>, \<open>Unl_Paths\<close>:
    \<^verbatim>\<open>crates/unl-kb\<close>, the knowledge bases in memory, the vocabulary of an agent and the
    graph base; the trait they implement is the locale \<open>concept_hierarchy\<close> of \<open>Unl_Hierarchy\<close>,
    interpreted for all three. \<open>Unl_Validator\<close>: \<^verbatim>\<open>crates/unl-validator\<close>, the checks and
    the normalizer, whose equivalence \<open>Unl_Equivalence\<close> characterises for every canonical
    resolver. \<open>Unl_Content\<close>: \<^verbatim>\<open>content/unl.rs\<close>, the verifier and the packager of the node.
    \<open>Unl_Fipa\<close>: \<^verbatim>\<open>crates/unl-fipa\<close>, messages as FIPA strings. \<open>Unl_A2a\<close>:
    \<^verbatim>\<open>crates/unl-a2a\<close>, the wire form between agents.
  \<^item> \<open>Guest_Runtime\<close>: the crate \<^verbatim>\<open>crates/unl-agent\<close>, the trait and the context an agent is
    written against, and its two drivers; an agent is a record of its methods, \<open>agent\<close>, and a
    driver a record of operations, \<open>agent_runtime\<close>. The locales \<open>guest_invariant\<close> and
    \<open>seeded_invariant\<close> carry an invariant of the methods to every run of a driver. \<open>Guest_Pa\<close>,
    \<open>Guest_Directory\<close>, \<open>Guest_Market\<close>: the payment agent, the directory agents, the buyer and the
    seller of \<^verbatim>\<open>agents/\<close>, the first two groups as interpretations of these locales.
  \<^item> \<open>Node_Wire\<close>: the byte formats of \<^verbatim>\<open>process/node.rs\<close> and \<^verbatim>\<open>process/migrate.rs\<close>, and
    the keyrings of \<^verbatim>\<open>adapters/crypto.rs\<close>. \<open>Node_Manifest\<close>: \<^verbatim>\<open>manifest.rs\<close> and the
    durable store of \<^verbatim>\<open>adapters/store.rs\<close>. \<open>Node_Kernel\<close>: the node itself,
    \<^verbatim>\<open>process/node.rs\<close>; \<open>node\<close> is the struct \<open>Node\<close>, \<open>node_event\<close> one turn of its loop.
    Its properties are in \<open>Node_Frames\<close> (what the operations leave alone), \<open>Node_Trust\<close> (pinned
    keys, nonces, epochs), \<open>Node_Migration\<close> (committed epochs, the grants of children) and
    \<open>Node_Handover\<close> (the exchange between two nodes, a step relation).
  \<^item> \<open>Node_Process\<close>: \<^verbatim>\<open>process/mod.rs\<close>, the agent in a process of its own. \<open>Node_Router\<close>:
    \<^verbatim>\<open>process/router.rs\<close> with \<^verbatim>\<open>identity.rs\<close>. \<open>Node_Manage\<close>: \<^verbatim>\<open>process/resolve.rs\<close>,
    \<^verbatim>\<open>process/manage.rs\<close> and \<^verbatim>\<open>process/agents.rs\<close>.
  \<^item> This theory: what holds across components.

  \<^bold>\<open>How state and effects are modelled.\<close> A struct is a record, an enumeration a datatype, a
  method a function from the old state to its result and the new state. Errors are the left
  values of a sum. Messages an actor sends, timers it starts and calls to other services are
  appended to a list of effects in the order of the calls; their delivery is another component's
  input. Handlers that answer through a future are two definitions, and the step relations let
  other handlers run in between. Clock readings and fresh UUIDs are arguments. Integers whose
  width can matter are words; times and durations are integers, which the code only compares and
  adds. The iteration order of a \<open>HashMap\<close>, where the result depends on it, is the order of the
  association list or an argument.

  \<^bold>\<open>Parameters.\<close> Code that is not in the repository is an argument: the WASM engine
  (\<open>runtime_ops\<close>, \<open>supervisor_env\<close>), SHA-256, JSON and bincode (the \<open>codec\<close> of the log store), the
  signature scheme (\<open>crypto\<close>, with the law \<open>crypto_ok\<close> that a signature verifies), and
  the formatting of prices, the printing that \<open>derive(Debug)\<close> generates (\<open>printers\<close>), the
  readers of TOML seeds and of the WordNet files. The content verifier and the outbound packager
  are arguments of the actor, which reaches them as trait objects; \<open>unl_sanitize\<close> and
  \<open>unl_package\<close> are the ones of the code. The engine-based node takes from its environment
  \<open>node_env\<close> the clock, the nonces, the answers of other nodes and the engines of its agents; each
  question has a number of its own, so that no two answers are assumed to agree. Ed25519 and
  SHA-256 are the record \<open>crypto_lib\<close>, with the law \<open>crypto_laws\<close> that signatures and keys have
  their sizes and a signature made with a key verifies under its public key. The guest agents take
  the JSON library from \<open>json_lib\<close>, and the readers and writers that serde derives from \<open>pa_store\<close>, \<open>market_json\<close> and the like.

  \<^bold>\<open>What the lemmas show.\<close> For each protocol machine: an invariant of its fields, that validating
  and processing agree, that the history is the accepted messages in order, that completion is
  lasting, that the advertised performatives are accepted or, where they are not, the
  counterexample. For the auctions: the order of bids and prices, the reserve, termination. For
  the actor: the mailbox is drained in order, conversations are isolated and faithful, rejected
  content reaches nobody. For the supervisor: unique addresses, routing, the restart cycle. For
  the log store: the cache agrees with the tree, appending and truncating act as on a map from
  indexes, snapshots carry the state. For the policy engine: resolution of inheritance is exact,
  the cache is transparent, denials take precedence. For the directories: the indexes agree and
  the limits hold. For the container: the decoder accepts exactly the wire forms. For the content
  language: decoding inverts encoding on the elements whose names are symbols, ends on every
  input without NUL, and what fails otherwise. For the web of trust: the search finds exactly
  the chains of its specification, the cache is transparent while time stands still. For the
  security manager: guessing is bounded by the lockout, sessions follow logins, and what
  credentials that always verify do to both. For UNL: graphs survive both text formats, the
  FIPA strings and the wire form, the vocabulary check is exact, equivalence compares meanings,
  the searches of the hierarchy are exact and the paths shortest, and what a guest hands over
  reaches the guest of the receiver unchanged if it is understood and not at all otherwise. For the
  engine-based node: over every run, a pinned key changes only by a signed handoff, no message is
  accepted twice, no epoch that has been committed is mounted again, children get no grant their
  parent has not; over every interleaving of a migration, with every loss and delay, at most one of
  the two nodes runs the agent. For its agents: the payment agent neither makes nor loses money and
  settles a hold only for a party to it, whatever messages arrive and wherever it is restarted; the
  router lets no agent speak for another; an agent behind a socket behaves as it does in
  the node.

  \<^bold>\<open>Termination and bounds.\<close> All definitions are total functions except the search for a free
  name, \<open>name_loop\<close> (a loop of unbounded length in the code), which is a partial function proved
  to return. The mailbox loop terminates because handling a message queues none. Role inheritance
  is resolved with a fuel of the number of roles plus two, \<open>resolve_depth\<close>, and
  \<open>resolve_enough\<close> shows that more never changes the result: every level but the last visits a
  new role. The reader of lines and the decoder of containers recurse on their input. The SL
  parser has the fuel of its recursion as an argument; for a text of length \<open>n\<close> without NUL the
  fuel \<open>n + 2\<close> is enough, and more changes nothing (\<open>sl_decode_total\<close>). The stack of the machine
  is not bounded in the model. The search for trust paths terminates by a weight of its queue,
  those of the knowledge bases by the concepts not yet seen; \<open>path_back\<close>, which follows the
  predecessors of a concept, is a partial function proved to return (\<open>path_between_shortest\<close>). The
  normalizer has the 16 passes of the code. The reader of s-expressions recurses on the tokens
  that its own result leaves, which are fewer. The deliveries of the node and of the router stop
  at the number of steps the code itself counts, the lookup of a name at its number of hops; the
  host of an agent process and the reader of its answers recurse on the bytes of the stream.

  \<^bold>\<open>Not modelled.\<close> The network services (gRPC, libp2p, the Raft transport), the WASM host
  functions, MCP and the command line tools do I/O and call libraries. The trust store is a
  database, as is the UNL knowledge base on disk. Persistence, the inter-platform layer, the XML
  and legacy documents of UNL and the client of a language model are components of their own that
  no modelled component calls except through the parameters above. Of the engine-based node the
  encrypted sessions, the sockets and their threads, the files of keys, and the start, the limits
  and the end of an agent's process are left to their libraries and the operating system. Strings are lists of characters up to U+00FF: bytes that are UTF-8 of other characters
  are outside the model. Floats have one zero.
\<close>

section \<open>From a spawned agent to its guest\<close>

text \<open>
  The properties of this theory follow an agent or a message through several components: what
  one of them emits is the input of the next.
\<close>

lemma deliver_to_supervised:
  assumes "hm_get (sv_agents s) (name r) = Some a" "r \<in> set (receivers m)"
  shows "SendDeliver (sa_addr a) m \<in> set (sv_effects (snd (supervisor_deliver m s)))"
  using assms by (force simp: supervisor_deliver_eq split: option.splits)

text \<open>
  A spawned agent handles the messages sent to it. Once the supervisor has spawned an agent,
  a message to a receiver of that name is sent to the new actor's address; the actor, once it
  has started, queues it if its protocol is allowed, and the next round of the mailbox hands it
  unchanged to the guest, no verifier being configured for the agent and no conversation open.
\<close>

theorem spawned_agent_handles_message:
  assumes "spawn_agent env config s = (Inr a, s')"
    "r \<in> set (receivers m)" "name r = name (ac_id config)"
    "protocol m = Some p" "p \<in> set (allowed_protocols (ac_capabilities config))"
    "\<And>bun. select_verifier env s (name (ac_id config)) bun = None"
  shows "\<exists>actor actor'. StartActor a actor \<in> set (sv_effects s')
    \<and> SendDeliver a m \<in> set (sv_effects (snd (supervisor_deliver m s')))
    \<and> actor_deliver m (actor_started ops actor) = (Inr (), actor') \<and> aa_mailbox actor' = [m]
    \<and> aa_runtime (process_mailbox ops envs actor') =
        snd (handle_message ops m (aa_runtime (actor_started ops actor)))"
proof -
  obtain bun code w s1 where eff:
    "sv_effects s' = sv_effects s @ [StartActor a (build_actor env s1 config bun w)]"
    and sel: "\<And>n. select_verifier env s1 n bun = select_verifier env s n bun"
    by (rule spawn_agent_actor [OF assms(1)]) blast
  let ?started = "actor_started ops (build_actor env s1 config bun w)"
  let ?queued = "?started\<lparr>aa_mailbox := [m]\<rparr>"
  have "actor_deliver m ?started = (Inr (), ?queued)"
    using assms(4,5) by (simp add: actor_deliver_def Let_def actor_started_frame)
  moreover have "SendDeliver a m \<in> set (sv_effects (snd (supervisor_deliver m s')))"
    using deliver_to_supervised [of s' r "spawned_entry config a" m] spawn_agent_ok(4) [OF assms(1)]
      assms(2,3) by (simp add: hashmap_simps spawned_entry_def)
  moreover have "aa_runtime (process_mailbox ops envs ?queued) =
      snd (handle_message ops m (aa_runtime ?started))"
    using sel assms(6) handle_all_one_raw [of "?started\<lparr>aa_mailbox := []\<rparr>" ops envs m]
    by (simp add: process_mailbox_handle_all actor_started_frame)
  ultimately show ?thesis using eff by (intro exI [of _ "build_actor env s1 config bun w"] exI [of _ ?queued]) simp
qed

definition demo_message :: acl_message where
  "demo_message = (plain_message Inform ''b'' [1])\<lparr>receivers := [plain_agent ''a''], protocol := Some 1\<rparr>"

theorem spawned_agent_handles_message_witness:
  "\<exists>actor. aa_mailbox actor = [demo_message]
     \<and> aa_runtime (process_mailbox demo_ops (\<lambda>_. (''u'', 0)) actor) = [demo_message]"
proof -
  obtain s where s: "spawn_agent demo_env (demo_config Never) demo_supervisor = (Inr 0, s)"
    and eff: "\<exists>act. sv_effects s = [StartActor 0 act]"
    using demo_spawn [of Never] by auto
  have sel: "select_verifier demo_env demo_supervisor n bun = None" for n bun
    by (simp add: select_verifier_def demo_supervisor_def supervisor_new_def demo_env_def
        verifier_from_bundle_def vocabulary_from_bundle_def split: option.splits bind_splits)
  have rt: "aa_runtime actor = []" if "StartActor 0 actor \<in> set (sv_effects s)" for actor
  proof (rule spawn_agent_actor [OF s])
    fix bun code w s1
    assume "build_runtime demo_env code (demo_config Never) = Inr w"
      "sv_effects s = sv_effects demo_supervisor @ [StartActor 0 (build_actor demo_env s1 (demo_config Never) bun w)]"
    with that show ?thesis
      by (auto simp: build_runtime_def demo_env_def demo_config_def demo_supervisor_def
          supervisor_new_def)
  qed
  have "aa_runtime (actor_started demo_ops actor) = aa_runtime actor" for actor
    by (simp add: actor_started_def demo_ops_def Let_def notify_supervisor_def actor_update_defs)
  with spawned_agent_handles_message [OF s, of "plain_agent ''a''" demo_message 1 demo_ops
      "\<lambda>_. (''u'', 0)"] sel rt
  show ?thesis
    by (fastforce simp: demo_message_def demo_config_def plain_message_def plain_agent_def
        demo_capabilities_def demo_ops_def)
qed

section \<open>From guest to guest\<close>

lemma package_text:
  assumes "list_canonical g" and "registry_get reg to = Some v"
  shows "unl_package pr uuid reg from to (utf8 (serialize_list g)) body =
     (if understood v g
      then Inr (set_message_content_bytes (utf8 (serialize_list g)) body (inform_message uuid from to))
      else Inl (''receiver '' @ in_ticks to @ '' would not understand (''
             @ nat_to_string (case verify_vocabulary pr g v of Inl ds \<Rightarrow> length ds | Inr _ \<Rightarrow> 0) @ '' issue(s))''))"
proof (cases "verify_vocabulary pr g v")
  case (Inl ds)
  then have "\<not> understood v g" using verify_vocabulary_Inr [of pr g v "()"] by simp
  with Inl show ?thesis by (simp add: unl_package_def list_text_parses [OF assms(1)] assms(2))
next
  case (Inr u)
  then have "understood v g" using verify_vocabulary_Inr [of pr g v u] by blast
  with Inr show ?thesis by (simp add: unl_package_def list_text_parses [OF assms(1)] assms(2))
qed

lemma handle_packaged:
  assumes "aa_verifier r = Some (unl_sanitize pr v)" and "aa_outbound r = None"
    and "list_canonical g" and "understood v g"
    and "length (utf8 (serialize_list g)) < 2 ^ 32" and "length body < 2 ^ 32"
    and "handle_acl_message ops env (set_message_content_bytes (utf8 (serialize_list g)) body m) r = (x, r')"
  shows "x = Inr () \<and> aa_runtime r' = snd (call_config ops (utf8 (serialize_list g)) body (aa_runtime r))"
proof -
  note read = content_bytes_read [OF assms(5,6), of m]
  have "unl_graph_of (set_message_content_bytes (utf8 (serialize_list g)) body m) = Inr g"
    unfolding read by (rule parse_unl_bytes_canonical [OF assms(3)])
  from sanitize_accepts [OF read(3) this assms(4), of pr] assms(1,2,7) show ?thesis
    by (auto simp: handle_acl_message_def read(2) flush_outbound_def actor_update_defs Let_def
        split: prod.splits sum.splits)
qed


definition cat_intent :: outbound_intent where
  "cat_intent = \<lparr>oi_receiver = ''bob'', oi_unl = utf8 (serialize_list cat_icl_animal), oi_body = [1, 2, 3]\<rparr>"

definition cat_guest :: "('w, 'st) runtime_ops \<Rightarrow> ('w, 'st) runtime_ops" where
  "cat_guest ops = ops\<lparr>take_unl_sends := (\<lambda>w. ([cat_intent], w))\<rparr>"


section \<open>The platform's default capabilities\<close>

text \<open>
  An agent created with the platform's default capabilities can take part in no protocol.
  The default lists no allowed protocol, which its comment calls all protocols, but the actor
  reads the list as it is: in every state the spawned actor reaches, it refuses every message
  that carries the number of a protocol the program knows.
\<close>

theorem default_agents_refuse_protocols:
  assumes "create_agent req am = Some (Inr aid, am')" "cr_capabilities req = None"
    "am_config am = ams_config_default" "am_effects am' = am_effects am @ [SpawnAgent config]"
    "spawn_agent env config s = (Inr a, s')" "protocol m = Some (protocol_type_as_i32 t)"
  shows "\<exists>actor0. StartActor a actor0 \<in> set (sv_effects s') \<and> aa_agent_id actor0 = aid
    \<and> (\<forall>actor. actor_reachable sha256 ops actor0 actor \<longrightarrow>
         actor_deliver m actor = (Inl (ProtocolNotAllowed t), actor))"
proof -
  from assms(1-4) have config: "ac_id config = aid" "allowed_protocols (ac_capabilities config) = []"
    by (auto simp: create_agent_def Let_def ams_config_default_def
        split: option.splits sum.splits if_splits)
  obtain bun code w s1 where eff:
    "sv_effects s' = sv_effects s @ [StartActor a (build_actor env s1 config bun w)]"
    by (rule spawn_agent_actor [OF assms(5)]) blast
  have "actor_deliver m actor = (Inl (ProtocolNotAllowed t), actor)"
    if "actor_reachable sha256 ops (build_actor env s1 config bun w) actor" for actor
  proof -
    have "protocol_type_try_from (protocol_type_as_i32 t) = Some t"
      by (simp add: protocol_type_try_from_iff)
    with actor_reachable_capabilities [OF that] show ?thesis
      by (simp add: actor_deliver_def Let_def assms(6) config)
  qed
  with eff config(1) show ?thesis by (intro exI [of _ "build_actor env s1 config bun w"]) simp
qed

definition demo_platform :: ams where
  "demo_platform = (ams_new ams_config_default)\<lparr>am_supervisor := True\<rparr>"

definition demo_request :: ams_create_agent where
  "demo_request = \<lparr>cr_name = Some ''a'', cr_wasm_module = [0], cr_capabilities = None, cr_owner = None\<rparr>"

theorem default_agents_refuse_protocols_witness:
  "\<exists>actor0 :: acl_message list agent_actor.
     fst (actor_deliver (demo_message\<lparr>protocol := Some (protocol_type_as_i32 ProtocolRequest)\<rparr>)
       (actor_started demo_ops actor0)) = Inl (ProtocolNotAllowed ProtocolRequest)"
proof -
  let ?aid = "\<lparr>name = ''a'', addresses = [''a@fipa-platform''], resolvers = []\<rparr>"
  let ?c = "\<lparr>ac_id = ?aid, ac_wasm_module = [0],
      ac_capabilities = am_default_capabilities ams_config_default, ac_initial_state = None,
      ac_restart_strategy = restart_strategy_default\<rparr>"
  obtain am' where created: "create_agent demo_request demo_platform = Some (Inr ?aid, am')"
    "am_effects am' = am_effects demo_platform @ [SpawnAgent ?c]"
    by (simp add: create_agent_def demo_request_def demo_platform_def ams_new_def Let_def
        is_name_available_def ams_config_default_def hm_contains_def)
  have "\<not> hm_contains (sv_agents demo_supervisor) (name (ac_id ?c))"
    "read_artifact (ac_wasm_module ?c) = Inr (None, [0])" "build_runtime demo_env [0] ?c = Inr []"
    by (simp_all add: demo_supervisor_def supervisor_new_def demo_artifact build_runtime_def
        demo_env_def hashmap_simps)
  from spawn_agent_succeeds [OF this] obtain s where
    s: "spawn_agent demo_env ?c demo_supervisor = (Inr (sv_next_addr demo_supervisor), s)" ..
  have "cr_capabilities demo_request = None" "am_config demo_platform = ams_config_default"
    by (simp_all add: demo_request_def demo_platform_def ams_new_def)
  from default_agents_refuse_protocols [OF created(1) this created(2) s,
      of "demo_message\<lparr>protocol := Some (protocol_type_as_i32 ProtocolRequest)\<rparr>" ProtocolRequest
        "\<lambda>b. b" demo_ops]
  obtain actor0 :: "acl_message list agent_actor" where
    "\<And>actor. actor_reachable (\<lambda>b. b) demo_ops actor0 actor \<Longrightarrow>
       actor_deliver (demo_message\<lparr>protocol := Some (protocol_type_as_i32 ProtocolRequest)\<rparr>) actor =
         (Inl (ProtocolNotAllowed ProtocolRequest), actor)"
    by (auto simp del: protocol_type_as_i32.simps)
  from this [OF actor_reachable.later [OF actor_reachable.initial actor_step.start]]
  show ?thesis by (metis fst_conv)
qed

section \<open>Migration\<close>

text \<open>
  Migrating with a network loses the agent. Both parts of the migration succeed, but the
  captured snapshot is in none of the actor's effects. The supervisor, told of the migration,
  removes the entry without sending anything, and from then on a message to the agent reaches no
  actor of the node: without a network it is dropped, with one it goes to a node with an empty
  name. The capability \<open>migration_allowed\<close> plays no role.
\<close>

theorem migrated_agent_is_lost:
  assumes "runtime_capture_state ops (aa_runtime s) = (Inr st, w)" "aa_supervisor s"
    "migrate_begin sha256 ops s = (r1, s1)" "migrate_finish True target s1 = (r2, s2)"
    "receivers m = [aa_agent_id s]"
  shows "r2 = Inr () \<and> (\<exists>ev sv'. aa_effects s2 = aa_effects s @
        [NotifySupervisor (aa_agent_id s) ev, StopContext]
    \<and> supervision_event t1 t2 (aa_agent_id s) ev sv = Some sv' \<and> sv_effects sv' = sv_effects sv
    \<and> sv_effects (snd (supervisor_deliver m sv')) =
        sv_effects sv @ (if sv_network sv then [SendRemote [] m] else []))"
proof -
  have "r2 = Inr () \<and> aa_effects s2 = aa_effects s @
      [NotifySupervisor (aa_agent_id s) (EvMigrated ''local'' target), StopContext]"
    using assms(1-4) by (auto simp: migrate_begin_def capture_state_def migrate_finish_def
        notify_supervisor_def actor_update_defs Let_def)
  then show ?thesis using assms(5)
    by (simp add: supervision_event_def supervisor_deliver_eq hashmap_simps)
qed

theorem migrated_agent_is_lost_witness:
  "\<exists>ev sv'. aa_effects (snd (migrate_finish True ''node2''
       (snd (migrate_begin (\<lambda>b. b) demo_ops demo_actor)))) =
       [NotifySupervisor (plain_agent ''a'') ev, StopContext]
     \<and> supervision_event 0 0 (plain_agent ''a'') ev demo_supervisor = Some sv'
     \<and> sv_effects (snd (supervisor_deliver demo_message sv')) = []"
proof -
  obtain r1 s1 where b: "migrate_begin (\<lambda>b. b) demo_ops demo_actor = (r1, s1)" by fastforce
  obtain r2 s2 where f: "migrate_finish True ''node2'' s1 = (r2, s2)" by fastforce
  have a: "aa_agent_id demo_actor = plain_agent ''a''" "aa_effects demo_actor = []"
    "sv_effects demo_supervisor = []" "\<not> sv_network demo_supervisor"
    by (simp_all add: demo_actor_def actor_new_def demo_supervisor_def supervisor_new_def)
  have "runtime_capture_state demo_ops (aa_runtime demo_actor) = (Inr (), [])"
    "aa_supervisor demo_actor" "receivers demo_message = [aa_agent_id demo_actor]"
    by (simp_all add: demo_ops_def demo_actor_def actor_new_def demo_message_def)
  from migrated_agent_is_lost [OF this(1,2) b f this(3), of 0 0 demo_supervisor] b f
  show ?thesis by (auto simp: a)
qed

end
